(* ===== verification/Prelude.thy ===== *)
theory Prelude
  imports Complex_Main
begin

text \<open>
  Shared vocabulary of the development: the result of a computation that may raise
  (a sum whose left side is the exception), the sequencing of such computations in the
  order in which the Python code evaluates its statements, and a few list facts.
\<close>

named_theorems res_simps \<open>equations that push a known outcome through \<open>andThen\<close> chains\<close>

section \<open>Results that may raise\<close>

text \<open>
  \<open>andThen m f\<close> is the statement sequence "evaluate \<open>m\<close>, then go on with its value":
  an exception raised by \<open>m\<close> is the exception of the whole block.
\<close>

definition andThen :: "'e + 'a \<Rightarrow> ('a \<Rightarrow> 'e + 'b) \<Rightarrow> 'e + 'b" where
  "andThen m f = (case m of Inl e \<Rightarrow> Inl e | Inr x \<Rightarrow> f x)"

text \<open>\<open>guard c e\<close> is \<open>if c: raise e\<close>.\<close>

definition raise_if :: "bool \<Rightarrow> 'e \<Rightarrow> 'e + unit" where
  "raise_if c e = (if c then Inl e else Inr ())"

lemma andThen_Inl [simp, res_simps]: "andThen (Inl e) f = Inl e"
  by (simp add: andThen_def)

lemma andThen_Inr [simp, res_simps]: "andThen (Inr x) f = f x"
  by (simp add: andThen_def)

lemma raise_if_True [simp, res_simps]: "raise_if True e = Inl e"
  by (simp add: raise_if_def)

lemma raise_if_False [simp, res_simps]: "raise_if False e = Inr ()"
  by (simp add: raise_if_def)

lemma raise_if_eq_Inr [simp]: "raise_if c e = Inr u \<longleftrightarrow> \<not> c"
  by (simp add: raise_if_def)

lemma raise_if_eq_Inl [simp]: "raise_if c e = Inl e' \<longleftrightarrow> c \<and> e' = e"
  by (auto simp: raise_if_def)

lemma andThen_eq_Inr: "andThen m f = Inr y \<longleftrightarrow> (\<exists>x. m = Inr x \<and> f x = Inr y)"
  by (cases m) auto

lemma andThen_eq_Inl: "andThen m f = Inl e \<longleftrightarrow> m = Inl e \<or> (\<exists>x. m = Inr x \<and> f x = Inl e)"
  by (cases m) auto

lemma andThen_InrE:
  assumes "andThen m f = Inr y"
  obtains x where "m = Inr x" and "f x = Inr y"
  using assms by (auto simp: andThen_eq_Inr)

lemma andThen_cong [fundef_cong]:
  "m = m' \<Longrightarrow> (\<And>x. m' = Inr x \<Longrightarrow> f x = f' x) \<Longrightarrow> andThen m f = andThen m' f'"
  by (cases m') auto

lemma andThen_assoc: "andThen (andThen m f) g = andThen m (\<lambda>x. andThen (f x) g)"
  by (cases m) auto

lemma andThen_return [simp]: "andThen m Inr = m"
  by (cases m) auto

section \<open>Which exceptions\<close>

text \<open>\<open>raises_only p r\<close>: if the computation raises, it raises an exception in \<open>p\<close>.\<close>

named_theorems raises \<open>introduction rules that bound the exceptions of an \<open>andThen\<close> chain\<close>

definition raises_only :: "('e \<Rightarrow> bool) \<Rightarrow> 'e + 'a \<Rightarrow> bool" where
  "raises_only p r = (case r of Inl e \<Rightarrow> p e | Inr _ \<Rightarrow> True)"

lemma raises_only_Inr [simp, raises]: "raises_only p (Inr x)" by (simp add: raises_only_def)

lemma raises_only_Inl [simp]: "raises_only p (Inl e) = p e" by (simp add: raises_only_def)

lemma raises_only_andThen [raises]:
  "raises_only p m \<Longrightarrow> (\<And>x. m = Inr x \<Longrightarrow> raises_only p (f x)) \<Longrightarrow> raises_only p (andThen m f)"
  by (cases m) auto

lemma raises_only_raise_if [raises]: "(c \<Longrightarrow> p e) \<Longrightarrow> raises_only p (raise_if c e)"
  by (simp add: raise_if_def)

lemma raises_only_if [raises]:
  "(c \<Longrightarrow> raises_only p x) \<Longrightarrow> (\<not> c \<Longrightarrow> raises_only p y) \<Longrightarrow> raises_only p (if c then x else y)"
  by simp

section \<open>Lists\<close>

text \<open>\<open>first_such P xs\<close> is Django's \<open>.filter(P).first()\<close> over rows already in query order.\<close>

definition first_such :: "('a \<Rightarrow> bool) \<Rightarrow> 'a list \<Rightarrow> 'a option" where
  "first_such p xs = List.find p xs"

lemma first_such_Nil [simp]: "first_such p [] = None"
  by (simp add: first_such_def)

lemma first_such_Cons [simp]:
  "first_such p (x # xs) = (if p x then Some x else first_such p xs)"
  by (simp add: first_such_def)

lemma first_such_None: "first_such p xs = None \<longleftrightarrow> (\<forall>x \<in> set xs. \<not> p x)"
  by (induction xs) auto

lemma first_such_Some: "first_such p xs = Some x \<Longrightarrow> x \<in> set xs \<and> p x"
  by (induction xs) (auto split: if_splits)

lemma first_such_append:
  "first_such p (xs @ ys) =
     (case first_such p xs of Some x \<Rightarrow> Some x | None \<Rightarrow> first_such p ys)"
  by (induction xs) auto

lemma first_such_map_inv:
  "(\<And>x. x \<in> set xs \<Longrightarrow> p (g x) = p x) \<Longrightarrow> first_such p (map g xs) = map_option g (first_such p xs)"
  by (induction xs) auto

section \<open>Runs of a step relation\<close>

text \<open>\<open>steps step s as t\<close>: the labelled steps \<open>as\<close>, oldest first, lead from \<open>s\<close> to \<open>t\<close>.\<close>

inductive steps :: "('s \<Rightarrow> 'a \<Rightarrow> 's \<Rightarrow> bool) \<Rightarrow> 's \<Rightarrow> 'a list \<Rightarrow> 's \<Rightarrow> bool"
  for step :: "'s \<Rightarrow> 'a \<Rightarrow> 's \<Rightarrow> bool" where
  steps_Nil: "steps step s [] s"
| steps_Cons: "step s a t \<Longrightarrow> steps step t as u \<Longrightarrow> steps step s (a # as) u"

inductive_simps steps_simps: "steps step s [] t" "steps step s (a # as) u"

text \<open>The contract of a component whose every step keeps its invariant, and what a client gets from it.\<close>

locale invariant =
  fixes step :: "'s \<Rightarrow> 'a \<Rightarrow> 's \<Rightarrow> bool" and inv :: "'s \<Rightarrow> bool"
  assumes step_inv: "step s a t \<Longrightarrow> inv s \<Longrightarrow> inv t"
begin

lemma steps_inv: "steps step s as t \<Longrightarrow> inv s \<Longrightarrow> inv t"
  by (induction rule: steps.induct) (auto dest: step_inv)

lemma steps_inv_prefix:
  assumes "steps step s (as @ bs) t" and "inv s"
  shows "\<exists>u. steps step s as u \<and> inv u \<and> steps step u bs t"
  using assms
proof (induction as arbitrary: s)
  case Nil
  then show ?case by (auto intro: steps_Nil)
next
  case (Cons a as)
  then obtain s1 where "step s a s1" "steps step s1 (as @ bs) t" by (auto simp: steps_simps)
  then show ?case using Cons.IH [of s1] Cons.prems(2) step_inv by (blast intro: steps_Cons)
qed

end

section \<open>Python strings\<close>

text \<open>\<open>str.strip\<close>, on the characters of Latin-1.\<close>

definition is_space :: "char \<Rightarrow> bool" where
  "is_space c \<longleftrightarrow> (let n = (of_char c :: nat) in n = 32 \<or> (9 \<le> n \<and> n \<le> 13) \<or> (28 \<le> n \<and> n \<le> 31) \<or> n = 133 \<or> n = 160)"

definition strip :: "string \<Rightarrow> string" where
  "strip s = rev (dropWhile is_space (rev (dropWhile is_space s)))"

end
