(* ===== verification/PyNum.thy ===== *)
theory PyNum
  imports Prelude
begin

text \<open>
  The two Python number types with rounding that the program computes with: \<open>Decimal\<close>
  under the default context (28 significant decimal digits, \<open>ROUND_HALF_EVEN\<close>) and
  \<open>float\<close> (binary64: 53 significant bits, ties to even). Both are instances of one
  operation, \<open>round_sig b p\<close>, which rounds an exact rational to \<open>p\<close> significant
  base-\<open>b\<close> digits; an arithmetic operation is the exact rational operation followed by
  that rounding. Exponent limits (a \<open>Decimal\<close> beyond \<open>1e999999\<close>, a \<open>float\<close> beyond
  \<open>1.8e308\<close> or below \<open>1e-308\<close>) and the sign of zero are not represented. The locale
  \<open>rounding\<close> is the interface the components use.
\<close>

section \<open>Rounding to a number of significant digits\<close>

text \<open>Round half to even, to an integer.\<close>

definition rhe :: "rat \<Rightarrow> int" where
  "rhe x = (let f = \<lfloor>x\<rfloor>; d = x - of_int f in
     if d < 1 / 2 then f else if 1 / 2 < d then f + 1 else if even f then f else f + 1)"

lemma rhe_bounds: "of_int (rhe x) - x \<le> 1 / 2" "x - of_int (rhe x) \<le> 1 / 2"
proof -
  have "of_int \<lfloor>x\<rfloor> \<le> x" "x < of_int \<lfloor>x\<rfloor> + 1"
    by linarith+
  then show "of_int (rhe x) - x \<le> 1 / 2" "x - of_int (rhe x) \<le> 1 / 2"
    unfolding rhe_def Let_def by (simp_all split: if_split) linarith+
qed

lemma rhe_of_int [simp]: "rhe (of_int n) = n"
  by (simp add: rhe_def)

lemma rhe_le_Suc_floor: "\<lfloor>x\<rfloor> \<le> rhe x" "rhe x \<le> \<lfloor>x\<rfloor> + 1"
  by (simp_all add: rhe_def Let_def)

lemma rhe_mono: "x \<le> y \<Longrightarrow> rhe x \<le> rhe y"
proof -
  assume le: "x \<le> y"
  then have fl: "\<lfloor>x\<rfloor> \<le> \<lfloor>y\<rfloor>" by (rule floor_mono)
  show ?thesis
  proof (cases "\<lfloor>x\<rfloor> = \<lfloor>y\<rfloor>")
    case True
    with le show ?thesis by (auto simp: rhe_def Let_def)
  next
    case False
    with fl have "\<lfloor>x\<rfloor> + 1 \<le> \<lfloor>y\<rfloor>" by simp
    with rhe_le_Suc_floor(2) [of x] rhe_le_Suc_floor(1) [of y] show ?thesis by linarith
  qed
qed

lemma rhe_uminus: "rhe (- x) = - rhe x"
proof (cases "x = of_int \<lfloor>x\<rfloor>")
  case True
  then obtain n :: int where "x = of_int n" by blast
  then show ?thesis using rhe_of_int [of "- n"] by simp
next
  case False
  have "of_int \<lfloor>x\<rfloor> \<le> x" by simp
  with False have lt: "of_int \<lfloor>x\<rfloor> < x" by linarith
  have up: "x < of_int \<lfloor>x\<rfloor> + 1" by linarith
  have "\<lfloor>- x\<rfloor> = - \<lfloor>x\<rfloor> - 1"
    by (rule floor_unique) (use lt up in simp_all)
  then show ?thesis
    by (auto simp: rhe_def Let_def)
qed

lemma ceiling_half_less: "2 \<le> b \<Longrightarrow> 1 < x \<Longrightarrow> nat \<lceil>x / b\<rceil> < nat \<lceil>x\<rceil>" for x b :: rat
proof -
  assume b: "2 \<le> b" and x: "1 < x"
  have "x / b \<le> x / 2" using b x by (intro divide_left_mono) auto
  then have "\<lceil>x / b\<rceil> \<le> \<lceil>x / 2\<rceil>" by (rule ceiling_mono)
  moreover have "\<lceil>x / 2\<rceil> < \<lceil>x\<rceil>"
  proof -
    have "1 < \<lceil>x\<rceil>" using x by (simp add: less_ceiling_iff)
    then have c: "2 \<le> \<lceil>x\<rceil>" by simp
    have "x / 2 \<le> of_int \<lceil>x\<rceil> / 2" by simp
    also have "\<dots> \<le> of_int (\<lceil>x\<rceil> - 1)" using c by (simp add: field_simps)
    finally have "\<lceil>x / 2\<rceil> \<le> \<lceil>x\<rceil> - 1" by (rule ceiling_le)
    then show ?thesis by linarith
  qed
  moreover have "0 < \<lceil>x\<rceil>" using x by (simp add: less_ceiling_iff)
  ultimately show ?thesis by linarith
qed

text \<open>
  The exponent \<open>e\<close> for which \<open>x / b^e\<close> has exactly \<open>p\<close> digits before the point:
  \<open>b^(p-1) \<le> x / b^e < b^p\<close>. Two quantities shrink: above the target range the value itself,
  below it the quotient of the range by the value. Both drop by at least a half in every step.
\<close>

function sig_exp :: "nat \<Rightarrow> nat \<Rightarrow> rat \<Rightarrow> int" where
  "sig_exp b p x =
     (if b < 2 \<or> x \<le> 0 then 0
      else if of_nat b ^ p \<le> x then 1 + sig_exp b p (x / of_nat b)
      else if x * of_nat b < of_nat b ^ p then sig_exp b p (x * of_nat b) - 1
      else 0)"
  by pat_completeness auto

termination
proof (relation "measures
    [\<lambda>(b, p, x). if of_nat b ^ p \<le> x then nat \<lceil>x\<rceil> else 0,
     \<lambda>(b, p, x). nat \<lceil>of_nat b ^ p / x\<rceil>]", goal_cases)
  case 1
  show ?case by simp
next
  case (2 b p x)
  have b: "2 \<le> (of_nat b :: rat)"
    using 2 by (metis not_less of_nat_le_iff of_nat_numeral)
  have one: "1 \<le> (of_nat b :: rat) ^ p" using b by (intro one_le_power) simp
  then have x: "1 \<le> x" using 2 by linarith
  show ?case
  proof (cases "of_nat b ^ p \<le> x / of_nat b")
    case True
    then have "1 \<le> x / of_nat b" using one by linarith
    then have "1 < x" using b by (simp add: field_simps)
    then show ?thesis using ceiling_half_less [OF b] 2 True by simp
  next
    case False
    have "0 < \<lceil>x\<rceil>" using x by (simp add: less_ceiling_iff)
    then show ?thesis using 2 False by simp
  qed
next
  case (3 b p x)
  have b: "2 \<le> (of_nat b :: rat)"
    using 3 by (metis not_less of_nat_le_iff of_nat_numeral)
  have x: "0 < x" and lt: "x * of_nat b < of_nat b ^ p" using 3 by auto
  then have "1 < of_nat b ^ p / x"
    using 3 by (simp add: less_divide_eq)
  then have "nat \<lceil>of_nat b ^ p / x / of_nat b\<rceil> < nat \<lceil>of_nat b ^ p / x\<rceil>"
    by (rule ceiling_half_less [OF b])
  then show ?case using 3 lt by simp
qed

declare sig_exp.simps [simp del]

lemma sig_exp_bounds:
  assumes "2 \<le> b" and "0 < x"
  shows "of_nat b ^ p * of_nat b powi sig_exp b p x \<le> x * of_nat b
    \<and> x < of_nat b ^ p * of_nat b powi sig_exp b p x"
  using assms
proof (induction b p x rule: sig_exp.induct)
  case (1 b p x)
  let ?b = "of_nat b :: rat"
  have b: "0 < ?b" using "1.prems" by simp
  consider (up) "?b ^ p \<le> x" | (down) "x < ?b ^ p" "x * ?b < ?b ^ p"
    | (stop) "x < ?b ^ p" "?b ^ p \<le> x * ?b" by linarith
  then show ?case
  proof cases
    case up
    have eq: "sig_exp b p x = 1 + sig_exp b p (x / ?b)"
      using up "1.prems" by (simp add: sig_exp.simps [of b p x])
    have "?b ^ p * ?b powi sig_exp b p (x / ?b) \<le> x / ?b * ?b
        \<and> x / ?b < ?b ^ p * ?b powi sig_exp b p (x / ?b)"
      using "1.IH"(1) "1.prems" up b by simp
    then show ?thesis using b unfolding eq
      by (simp add: power_int_add field_simps)
  next
    case down
    have eq: "sig_exp b p x = sig_exp b p (x * ?b) - 1"
      using down "1.prems" by (simp add: sig_exp.simps [of b p x])
    have "?b ^ p * ?b powi sig_exp b p (x * ?b) \<le> x * ?b * ?b
        \<and> x * ?b < ?b ^ p * ?b powi sig_exp b p (x * ?b)"
      using "1.IH"(2) "1.prems" down b by simp
    then show ?thesis using b unfolding eq
      by (simp add: power_int_diff field_simps)
  next
    case stop
    have "sig_exp b p x = 0"
      using stop "1.prems" by (simp add: sig_exp.simps [of b p x])
    then show ?thesis using stop by simp
  qed
qed

definition round_sig :: "nat \<Rightarrow> nat \<Rightarrow> rat \<Rightarrow> rat" where
  "round_sig b p x =
     (if x = 0 then 0
      else let e = sig_exp b p \<bar>x\<bar> in of_int (rhe (x / of_nat b powi e)) * of_nat b powi e)"

text \<open>The numbers the format can hold.\<close>

definition representable :: "nat \<Rightarrow> nat \<Rightarrow> rat \<Rightarrow> bool" where
  "representable b p x \<longleftrightarrow> (\<exists>n e. \<bar>n\<bar> \<le> int b ^ p \<and> x = of_int n * of_nat b powi e)"

lemma round_sig_0 [simp]: "round_sig b p 0 = 0"
  by (simp add: round_sig_def)

lemma round_sig_uminus: "round_sig b p (- x) = - round_sig b p x"
  by (simp add: round_sig_def Let_def rhe_uminus flip: minus_divide_left)

lemma pow_split: "2 \<le> b \<Longrightarrow> 0 < p \<Longrightarrow> (of_nat b :: rat) ^ p = of_nat b ^ (p - 1) * of_nat b"
  by (cases p) simp_all

text \<open>Between the powers of the base, a rounded value stays between them.\<close>

lemma round_sig_bounds:
  assumes b: "2 \<le> b" and p: "0 < p" and x: "0 < x"
  shows "of_nat b ^ (p - 1) * of_nat b powi sig_exp b p x \<le> round_sig b p x"
    and "round_sig b p x \<le> of_nat b ^ p * of_nat b powi sig_exp b p x"
proof -
  let ?b = "of_nat b :: rat" and ?e = "sig_exp b p x"
  have b0: "0 < ?b" and w: "0 < ?b powi ?e" using b by auto
  have "?b ^ p * ?b powi ?e \<le> x * ?b" and up: "x < ?b ^ p * ?b powi ?e"
    using sig_exp_bounds [OF b x, of p] by auto
  then have "?b ^ (p - 1) * ?b powi ?e \<le> x"
    using b0 by (simp add: pow_split [OF b p] mult.assoc mult.left_commute [of ?b])
  then have "of_int (int b ^ (p - 1)) \<le> x / ?b powi ?e"
    using w by (simp add: le_divide_eq)
  from rhe_mono [OF this] have lo: "int b ^ (p - 1) \<le> rhe (x / ?b powi ?e)"
    by (simp only: rhe_of_int)
  have "x / ?b powi ?e \<le> of_int (int b ^ p)"
    using w up by (simp add: divide_le_eq)
  from rhe_mono [OF this] have hi: "rhe (x / ?b powi ?e) \<le> int b ^ p"
    by (simp only: rhe_of_int)
  have r: "round_sig b p x = of_int (rhe (x / ?b powi ?e)) * ?b powi ?e"
    using x by (simp add: round_sig_def Let_def)
  have "(of_int (int b ^ (p - 1)) :: rat) \<le> of_int (rhe (x / ?b powi ?e))"
    using lo by (simp only: of_int_le_iff)
  then show "?b ^ (p - 1) * ?b powi ?e \<le> round_sig b p x"
    unfolding r using w by (intro mult_right_mono) auto
  have "(of_int (rhe (x / ?b powi ?e)) :: rat) \<le> of_int (int b ^ p)"
    using hi by (simp only: of_int_le_iff)
  then show "round_sig b p x \<le> ?b ^ p * ?b powi ?e"
    unfolding r using w by (intro mult_right_mono) auto
qed

lemma sig_exp_mono:
  assumes b: "2 \<le> b" and "0 < x" and "x \<le> y"
  shows "sig_exp b p x \<le> sig_exp b p y"
proof -
  let ?b = "of_nat b :: rat"
  have b1: "1 < ?b" using b by simp
  have "?b ^ p * ?b powi sig_exp b p x \<le> x * ?b"
    using sig_exp_bounds [OF b \<open>0 < x\<close>, of p] by simp
  also have "\<dots> \<le> y * ?b" using assms by simp
  also have "\<dots> < ?b ^ p * ?b powi sig_exp b p y * ?b"
    using sig_exp_bounds [OF b, of y p] assms b1 by simp
  also have "\<dots> = ?b ^ p * ?b powi (sig_exp b p y + 1)"
    using b1 by (simp add: power_int_add)
  finally have "?b powi sig_exp b p x < ?b powi (sig_exp b p y + 1)"
    using b1 by simp
  then have "sig_exp b p x < sig_exp b p y + 1"
    using b1 by (meson not_less power_int_increasing less_imp_le)
  then show ?thesis by simp
qed

lemma round_sig_mono_pos:
  assumes b: "2 \<le> b" and p: "0 < p" and x: "0 < x" and xy: "x \<le> y"
  shows "round_sig b p x \<le> round_sig b p y"
proof (cases "sig_exp b p x = sig_exp b p y")
  case True
  have w: "0 < (of_nat b :: rat) powi sig_exp b p y" using b by simp
  then have "rhe (x / of_nat b powi sig_exp b p y) \<le> rhe (y / of_nat b powi sig_exp b p y)"
    using xy by (intro rhe_mono divide_right_mono) auto
  then show ?thesis
    using True x xy w by (simp add: round_sig_def Let_def)
next
  case False
  let ?b = "of_nat b :: rat"
  have b1: "1 < ?b" using b by simp
  have y: "0 < y" using x xy by simp
  have "sig_exp b p x + 1 \<le> sig_exp b p y"
    using sig_exp_mono [OF b x xy, of p] False by simp
  then have le: "?b powi (sig_exp b p x + 1) \<le> ?b powi sig_exp b p y"
    using b1 by (intro power_int_increasing) auto
  have "round_sig b p x \<le> ?b ^ p * ?b powi sig_exp b p x"
    by (rule round_sig_bounds(2) [OF b p x])
  also have "\<dots> = ?b ^ (p - 1) * ?b powi (sig_exp b p x + 1)"
    using b1 by (simp add: pow_split [OF b p] power_int_add)
  also have "\<dots> \<le> ?b ^ (p - 1) * ?b powi sig_exp b p y"
    using le b1 by simp
  also have "\<dots> \<le> round_sig b p y"
    by (rule round_sig_bounds(1) [OF b p y])
  finally show ?thesis .
qed

lemma round_sig_pos_nonneg: "2 \<le> b \<Longrightarrow> 0 < p \<Longrightarrow> 0 \<le> x \<Longrightarrow> 0 \<le> round_sig b p x"
  using round_sig_bounds(1) [of b p x] by (cases "x = 0") (auto intro: order_trans [rotated])

lemma round_sig_mono:
  assumes b: "2 \<le> b" and p: "0 < p" and xy: "x \<le> y"
  shows "round_sig b p x \<le> round_sig b p y"
proof -
  consider "0 < x" | "x \<le> 0" "0 \<le> y" | "y < 0" by linarith
  then show ?thesis
  proof cases
    case 1
    then show ?thesis using round_sig_mono_pos [OF b p] xy by simp
  next
    case 2
    then have "0 \<le> round_sig b p (- x)" "0 \<le> round_sig b p y"
      using round_sig_pos_nonneg [OF b p] by auto
    then show ?thesis by (simp add: round_sig_uminus)
  next
    case 3
    then have "round_sig b p (- y) \<le> round_sig b p (- x)"
      using round_sig_mono_pos [OF b p] xy by simp
    then show ?thesis by (simp add: round_sig_uminus)
  qed
qed

text \<open>The rounding error is at most half a unit in the last place.\<close>

lemma round_sig_error:
  assumes b: "2 \<le> b" and x: "0 < x"
  shows "2 * \<bar>round_sig b p x - x\<bar> * of_nat b ^ p \<le> x * of_nat b"
proof -
  let ?w = "of_nat b powi sig_exp b p x :: rat"
  have w: "0 < ?w" using b by simp
  have "\<bar>of_int (rhe (x / ?w)) - x / ?w\<bar> \<le> 1 / 2"
    unfolding abs_le_iff using rhe_bounds [of "x / ?w"] by linarith
  then have "\<bar>of_int (rhe (x / ?w)) - x / ?w\<bar> * ?w \<le> 1 / 2 * ?w"
    using w by (intro mult_right_mono) simp_all
  moreover have "round_sig b p x - x = (of_int (rhe (x / ?w)) - x / ?w) * ?w"
    using x b by (simp add: round_sig_def Let_def algebra_simps)
  ultimately have "2 * \<bar>round_sig b p x - x\<bar> \<le> ?w"
    using w by (simp add: abs_mult)
  then have "2 * \<bar>round_sig b p x - x\<bar> * of_nat b ^ p \<le> ?w * of_nat b ^ p"
    by (rule mult_right_mono) simp
  also have "\<dots> \<le> x * of_nat b"
    using sig_exp_bounds [OF b x, of p] by (simp add: mult.commute)
  finally show ?thesis .
qed

text \<open>A number of the format is its own rounding.\<close>

lemma round_sig_exact_less:
  assumes b: "2 \<le> b" and p: "0 < p" and n: "\<bar>n\<bar> < int b ^ p"
  shows "round_sig b p (of_int n * of_nat b powi k) = of_int n * of_nat b powi k"
proof (cases "n = 0")
  case True
  then show ?thesis by simp
next
  case False
  let ?b = "of_nat b :: rat"
  let ?x = "of_int n * ?b powi k" and ?a = "\<bar>of_int n * ?b powi k\<bar>"
  let ?e = "sig_exp b p ?a"
  have b1: "1 < ?b" using b by simp
  have a: "?a = of_int \<bar>n\<bar> * ?b powi k" using b1 by (simp add: abs_mult)
  have pos: "0 < ?a" using False b1 by simp
  have "?b ^ p * ?b powi ?e \<le> ?a * ?b" using sig_exp_bounds [OF b pos, of p] by simp
  also have "\<dots> < ?b ^ p * ?b powi k * ?b"
  proof -
    have "(of_int \<bar>n\<bar> :: rat) < of_int (int b ^ p)" using n by (simp only: of_int_less_iff)
    then show ?thesis unfolding a using b1 by simp
  qed
  also have "\<dots> = ?b ^ p * ?b powi (k + 1)" using b1 by (simp add: power_int_add)
  finally have "?b powi ?e < ?b powi (k + 1)" using b1 by simp
  then have "?e < k + 1" using b1 by (meson not_less power_int_increasing less_imp_le)
  then obtain d where d: "k = ?e + int d" by (metis zle_iff_zadd zless_imp_add1_zle add_le_cancel_right)
  define w where "w = ?b powi ?e"
  have w: "0 < w" using b1 by (simp add: w_def)
  have k: "?b powi k = w * ?b ^ d"
    unfolding w_def by (subst d) (use b1 in \<open>simp add: power_int_add del: d\<close>)
  have "?x / w = of_int (n * int b ^ d)"
    using w by (simp add: k)
  then have "rhe (?x / w) = n * int b ^ d" by (metis rhe_of_int)
  then have "of_int (rhe (?x / w)) * w = ?x" by (simp add: k)
  then show ?thesis
    using False b1 by (simp add: round_sig_def Let_def w_def)
qed

lemma round_sig_exact:
  assumes b: "2 \<le> b" and p: "0 < p" and "representable b p x"
  shows "round_sig b p x = x"
proof -
  obtain n e where n: "\<bar>n\<bar> \<le> int b ^ p" and x: "x = of_int n * of_nat b powi e"
    using assms(3) by (auto simp: representable_def)
  show ?thesis
  proof (cases "\<bar>n\<bar> < int b ^ p")
    case True
    then show ?thesis unfolding x by (rule round_sig_exact_less [OF b p])
  next
    case False
    with n have "n = int b ^ p \<or> n = - (int b ^ p)" by linarith
    then obtain m :: int where m: "\<bar>m\<bar> = 1" "n = m * int b ^ p"
      by (elim disjE) (use that [of 1] that [of "- 1"] in simp_all)
    have "x = of_int (m * int b ^ (p - 1)) * of_nat b powi (e + 1)"
      using b by (simp add: x m pow_split [OF b p] power_int_add mult.assoc)
    moreover have "\<bar>m * int b ^ (p - 1)\<bar> < int b ^ p"
      using b p m by (simp add: abs_mult power_strict_increasing)
    ultimately show ?thesis using round_sig_exact_less [OF b p] by metis
  qed
qed

text \<open>Every rounded value is a number of the format.\<close>

lemma representable_uminus: "representable b p (- x) \<longleftrightarrow> representable b p x"
proof -
  have "representable b p (- x)" if "representable b p x" for x
  proof -
    from that obtain n e where "\<bar>n\<bar> \<le> int b ^ p" "x = of_int n * of_nat b powi e"
      by (auto simp: representable_def)
    then have "\<bar>- n\<bar> \<le> int b ^ p \<and> - x = of_int (- n) * of_nat b powi e" by simp
    then show ?thesis unfolding representable_def by blast
  qed
  from this [of x] this [of "- x"] show ?thesis by auto
qed

lemma round_sig_representable:
  assumes b: "2 \<le> b" and p: "0 < p"
  shows "representable b p (round_sig b p x)"
proof -
  have pos: "representable b p (round_sig b p x)" if x: "0 < x" for x
  proof -
    let ?b = "of_nat b :: rat" and ?e = "sig_exp b p x"
    let ?n = "rhe (x / ?b powi ?e)"
    have w: "0 < ?b powi ?e" using b by simp
    have r: "round_sig b p x = of_int ?n * ?b powi ?e"
      using x by (simp add: round_sig_def Let_def)
    have "of_int ?n * ?b powi ?e \<le> of_int (int b ^ p) * ?b powi ?e"
      using round_sig_bounds(2) [OF b p x] by (simp add: r)
    then have "?n \<le> int b ^ p"
      using w by (simp only: mult_le_cancel_right_pos of_int_le_iff)
    moreover have "0 \<le> of_int ?n * ?b powi ?e"
      using round_sig_pos_nonneg [OF b p, of x] x by (simp add: r)
    then have "0 \<le> ?n" using w by (simp add: zero_le_mult_iff)
    ultimately show ?thesis
      unfolding r representable_def by (intro exI [of _ ?n] exI [of _ ?e]) simp
  qed
  consider "x = 0" | "0 < x" | "0 < - x" by linarith
  then show ?thesis
  proof cases
    case 1
    then show ?thesis by (auto simp: representable_def intro: exI [of _ 0])
  next
    case 2
    then show ?thesis by (rule pos)
  next
    case 3
    from pos [OF 3] show ?thesis by (simp add: round_sig_uminus representable_uminus)
  qed
qed

section \<open>The interface: a rounding\<close>

text \<open>
  What the components rely on: rounding is monotone, symmetric, and leaves a rounded
  number alone. \<open>exact x\<close> says that \<open>x\<close> is a number of the format.
\<close>

locale rounding =
  fixes rnd :: "rat \<Rightarrow> rat"
  assumes rnd_mono: "x \<le> y \<Longrightarrow> rnd x \<le> rnd y"
    and rnd_uminus: "rnd (- x) = - rnd x"
    and rnd_idem: "rnd (rnd x) = rnd x"
begin

lemma rnd_zero: "rnd 0 = 0"
  using rnd_uminus [of 0] by simp

lemma rnd_nonneg: "0 \<le> x \<Longrightarrow> 0 \<le> rnd x"
  using rnd_mono [of 0 x] by (simp add: rnd_zero)

lemma rnd_nonpos: "x \<le> 0 \<Longrightarrow> rnd x \<le> 0"
  using rnd_mono [of x 0] by (simp add: rnd_zero)

lemma rnd_le_exact: "rnd y = y \<Longrightarrow> x \<le> y \<Longrightarrow> rnd x \<le> y"
  using rnd_mono [of x y] by simp

lemma rnd_ge_exact: "rnd x = x \<Longrightarrow> x \<le> y \<Longrightarrow> x \<le> rnd y"
  using rnd_mono [of x y] by simp

lemma rnd_add_mono: "a \<le> a' \<Longrightarrow> b \<le> b' \<Longrightarrow> rnd (a + b) \<le> rnd (a' + b')"
  by (intro rnd_mono add_mono)

lemma rnd_mult_mono:
  "0 \<le> a \<Longrightarrow> a \<le> a' \<Longrightarrow> 0 \<le> b \<Longrightarrow> b \<le> b' \<Longrightarrow> rnd (a * b) \<le> rnd (a' * b')"
  by (intro rnd_mono mult_mono) auto

lemma rnd_mult_nonneg: "0 \<le> a \<Longrightarrow> 0 \<le> b \<Longrightarrow> 0 \<le> rnd (a * b)"
  by (intro rnd_nonneg mult_nonneg_nonneg)

lemma rnd_divide_mono: "0 \<le> c \<Longrightarrow> a \<le> a' \<Longrightarrow> rnd (a / c) \<le> rnd (a' / c)"
  by (intro rnd_mono divide_right_mono)

text \<open>Adding a non-negative amount to a number of the format never lowers it.\<close>

lemma rnd_add_ge: "rnd a = a \<Longrightarrow> 0 \<le> b \<Longrightarrow> a \<le> rnd (a + b)"
  by (rule rnd_ge_exact) simp_all

lemma rnd_sub_le: "rnd a = a \<Longrightarrow> 0 \<le> b \<Longrightarrow> rnd (a - b) \<le> a"
  by (rule rnd_le_exact) simp_all

lemma rnd_sub_nonneg: "b \<le> a \<Longrightarrow> 0 \<le> rnd (a - b)"
  by (rule rnd_nonneg) simp

lemma rnd_add_nonneg: "0 \<le> a \<Longrightarrow> 0 \<le> b \<Longrightarrow> 0 \<le> rnd (a + b)"
  by (rule rnd_nonneg) simp

end

section \<open>Python's Decimal and float\<close>

text \<open>
  \<open>dround\<close> is the default \<open>decimal\<close> context, \<open>fround\<close> is binary64. The operation
  \<open>dadd x y\<close> is the Python expression \<open>x + y\<close> on Decimals, and so on; an \<open>int\<close>
  operand is converted exactly first, as Python does.
\<close>

definition dround :: "rat \<Rightarrow> rat" where
  "dround x = round_sig 10 28 x"

definition fround :: "rat \<Rightarrow> rat" where
  "fround x = round_sig 2 53 x"

interpretation dec: rounding dround
proof unfold_locales
  fix x y :: rat
  show "x \<le> y \<Longrightarrow> dround x \<le> dround y"
    unfolding dround_def by (rule round_sig_mono) simp_all
  show "dround (- x) = - dround x" by (simp add: dround_def round_sig_uminus)
  show "dround (dround x) = dround x"
    unfolding dround_def by (intro round_sig_exact round_sig_representable) simp_all
qed

interpretation flt: rounding fround
proof unfold_locales
  fix x y :: rat
  show "x \<le> y \<Longrightarrow> fround x \<le> fround y"
    unfolding fround_def by (rule round_sig_mono) simp_all
  show "fround (- x) = - fround x" by (simp add: fround_def round_sig_uminus)
  show "fround (fround x) = fround x"
    unfolding fround_def by (intro round_sig_exact round_sig_representable) simp_all
qed

definition dadd :: "rat \<Rightarrow> rat \<Rightarrow> rat" where
  "dadd x y = dround (x + y)"

definition dsub :: "rat \<Rightarrow> rat \<Rightarrow> rat" where
  "dsub x y = dround (x - y)"

definition dmul :: "rat \<Rightarrow> rat \<Rightarrow> rat" where
  "dmul x y = dround (x * y)"

definition ddiv :: "rat \<Rightarrow> rat \<Rightarrow> rat" where
  "ddiv x y = dround (x / y)"

text \<open>\<open>sum(xs, Decimal(0))\<close>: left to right, each partial sum rounded.\<close>

fun dsum_from :: "rat \<Rightarrow> rat list \<Rightarrow> rat" where
  "dsum_from acc [] = acc"
| "dsum_from acc (x # xs) = dsum_from (dadd acc x) xs"

definition dsum :: "rat list \<Rightarrow> rat" where
  "dsum xs = dsum_from 0 xs"

text \<open>
  A \<open>Decimal\<close> as read from a setting: finite, or one of the values for which
  \<open>is_finite()\<close> is false.
\<close>

datatype decimal = DFin rat | DInf | DNegInf | DNaN

fun dec_finite :: "decimal \<Rightarrow> bool" where
  "dec_finite (DFin _) = True"
| "dec_finite _ = False"

lemma dround_0 [simp]: "dround 0 = 0"
  by (rule dec.rnd_zero)

lemma fround_0 [simp]: "fround 0 = 0"
  by (rule flt.rnd_zero)

lemma dadd_mono: "a \<le> a' \<Longrightarrow> b \<le> b' \<Longrightarrow> dadd a b \<le> dadd a' b'"
  unfolding dadd_def by (rule dec.rnd_add_mono)

lemma dmul_mono: "0 \<le> a \<Longrightarrow> a \<le> a' \<Longrightarrow> 0 \<le> b \<Longrightarrow> b \<le> b' \<Longrightarrow> dmul a b \<le> dmul a' b'"
  unfolding dmul_def by (rule dec.rnd_mult_mono)

lemma ddiv_mono: "0 \<le> c \<Longrightarrow> a \<le> a' \<Longrightarrow> ddiv a c \<le> ddiv a' c"
  unfolding ddiv_def by (rule dec.rnd_divide_mono)

lemma dadd_nonneg: "0 \<le> a \<Longrightarrow> 0 \<le> b \<Longrightarrow> 0 \<le> dadd a b"
  unfolding dadd_def by (rule dec.rnd_add_nonneg)

lemma dmul_nonneg: "0 \<le> a \<Longrightarrow> 0 \<le> b \<Longrightarrow> 0 \<le> dmul a b"
  unfolding dmul_def by (rule dec.rnd_mult_nonneg)

lemma ddiv_nonneg: "0 \<le> a \<Longrightarrow> 0 \<le> b \<Longrightarrow> 0 \<le> ddiv a b"
  unfolding ddiv_def by (intro dec.rnd_nonneg divide_nonneg_nonneg)

lemma dsum_from_mono: "acc \<le> acc' \<Longrightarrow> list_all2 (\<le>) xs ys \<Longrightarrow> dsum_from acc xs \<le> dsum_from acc' ys"
proof (induction xs arbitrary: acc acc' ys)
  case Nil
  then show ?case by simp
next
  case (Cons x xs)
  then obtain y ys' where ys: "ys = y # ys'" "x \<le> y" "list_all2 (\<le>) xs ys'"
    by (auto simp: list_all2_Cons1)
  with Cons.prems have "dadd acc x \<le> dadd acc' y" by (intro dadd_mono)
  with ys show ?case by (simp add: Cons.IH)
qed

lemma dsum_mono: "list_all2 (\<le>) xs ys \<Longrightarrow> dsum xs \<le> dsum ys"
  unfolding dsum_def by (rule dsum_from_mono) simp_all

lemma dsum_from_nonneg: "0 \<le> acc \<Longrightarrow> \<forall>x \<in> set xs. 0 \<le> x \<Longrightarrow> 0 \<le> dsum_from acc xs"
  by (induction xs arbitrary: acc) (auto intro: dadd_nonneg)

lemma dsum_nonneg: "\<forall>x \<in> set xs. 0 \<le> x \<Longrightarrow> 0 \<le> dsum xs"
  unfolding dsum_def by (rule dsum_from_nonneg) simp_all

text \<open>
  Exactness: an amount on a decimal grid of \<open>k\<close> places with fewer than 28 digits is not
  rounded at all. Ledger money (four places, under ten to the 24) is of this kind.
\<close>

definition on_grid :: "nat \<Rightarrow> rat \<Rightarrow> bool" where
  "on_grid k x \<longleftrightarrow> (\<exists>n. \<bar>n\<bar> < (10::int) ^ 28 \<and> x = of_int n / 10 ^ k)"

lemma dround_on_grid: "on_grid k x \<Longrightarrow> dround x = x"
proof -
  assume "on_grid k x"
  then obtain n where n: "\<bar>n\<bar> < (10::int) ^ 28" and x: "x = of_int n / 10 ^ k"
    by (auto simp: on_grid_def)
  have "x = of_int n * of_nat 10 powi (- int k)"
    by (simp add: x power_int_minus divide_inverse)
  then show ?thesis
    unfolding dround_def using round_sig_exact_less [of 10 28 n "- int k"] n by simp
qed

lemma on_gridI: "x * 10 ^ k = of_int n \<Longrightarrow> \<bar>n\<bar> < (10::int) ^ 28 \<Longrightarrow> on_grid k x"
  unfolding on_grid_def by (intro exI [of _ n]) (simp add: field_simps)

text \<open>
  The same fact as a conditional rewrite rule for evaluation on numerals: the premises are
  decided by the simplifier, so concrete estimates compute without unfolding the rounding.
\<close>

lemma dround_num: "of_int \<lfloor>x * 10 ^ 20\<rfloor> = x * 10 ^ 20 \<Longrightarrow> \<bar>x\<bar> < 10 ^ 8 \<Longrightarrow> dround x = x"
proof -
  assume a: "of_int \<lfloor>x * 10 ^ 20\<rfloor> = x * 10 ^ 20" and b: "\<bar>x\<bar> < 10 ^ 8"
  have "\<bar>of_int \<lfloor>x * 10 ^ 20\<rfloor>\<bar> < (10 ^ 28 :: rat)"
    unfolding a using b by (simp add: abs_mult)
  then have "\<bar>\<lfloor>x * 10 ^ 20\<rfloor>\<bar> < 10 ^ 28" by (simp flip: of_int_abs)
  from on_gridI [OF a [symmetric] this] show "dround x = x" by (rule dround_on_grid)
qed

lemma fround_num: "of_int \<lfloor>x * 2 ^ 20\<rfloor> = x * 2 ^ 20 \<Longrightarrow> \<bar>x\<bar> < 2 ^ 33 \<Longrightarrow> fround x = x"
proof -
  assume a: "of_int \<lfloor>x * 2 ^ 20\<rfloor> = x * 2 ^ 20" and b: "\<bar>x\<bar> < 2 ^ 33"
  let ?n = "\<lfloor>x * 2 ^ 20\<rfloor>"
  have "\<bar>of_int ?n\<bar> < (2 ^ 53 :: rat)"
    unfolding a using b by (simp add: abs_mult)
  then have "\<bar>?n\<bar> < int 2 ^ 53" by (simp flip: of_int_abs)
  moreover have "x = of_int ?n * of_nat 2 powi (- 20)"
    unfolding a by (simp add: power_int_minus)
  ultimately show "fround x = x"
    unfolding fround_def using round_sig_exact_less [of 2 53 ?n "- 20"] by simp
qed

lemma fround_of_int: "\<bar>n\<bar> \<le> 2 ^ 53 \<Longrightarrow> fround (of_int n) = of_int n"
  unfolding fround_def representable_def
  by (intro round_sig_exact, simp, simp, unfold representable_def) (intro exI [of _ n] exI [of _ 0], simp)

text \<open>
  \<open>math.ceil(a / b)\<close> of two ints goes through a float quotient; below two to the 53 the
  rounding cannot cross an integer, so it is the exact ceiling.
\<close>

lemma ceiling_float_quotient:
  assumes a: "0 \<le> a" "a < 2 ^ 53" and b: "0 < b"
  shows "\<lceil>fround (of_int a / of_int b)\<rceil> = \<lceil>of_int a / of_int b :: rat\<rceil>"
proof (cases "a = 0")
  case True
  then show ?thesis by simp
next
  case False
  with a have a0: "0 < a" by simp
  define x :: rat where "x = of_int a / of_int b"
  define q where "q = \<lceil>x\<rceil>"
  have x: "0 < x" using a0 b by (simp add: x_def)
  have xa: "x \<le> of_int a" using a0 b by (simp add: x_def divide_le_eq)
  have q: "of_int q - 1 < x" "x \<le> of_int q" using ceiling_correct [of x] by (auto simp: q_def)
  have "q \<le> a" unfolding q_def using xa by (rule ceiling_le)
  moreover have "0 < q" using x by (simp add: q_def less_ceiling_iff)
  ultimately have exact: "fround (of_int q) = of_int q" using a by (intro fround_of_int) simp
  have "(q - 1) * b < a"
  proof -
    have "of_int (q - 1) * of_int b < (of_int a :: rat)" using q(1) b by (simp add: x_def field_simps)
    then show ?thesis by (simp only: of_int_less_iff flip: of_int_mult)
  qed
  then have "of_int ((q - 1) * b + 1) \<le> (of_int a :: rat)" by (simp only: of_int_le_iff)
  then have "(of_int q - 1 + 1 / of_int b) * of_int b \<le> (of_int a :: rat)"
    using b by (simp add: algebra_simps)
  then have lo: "of_int q - 1 + 1 / of_int b \<le> x" using b by (simp add: x_def le_divide_eq)
  have "2 * \<bar>fround x - x\<bar> * 2 ^ 53 \<le> x * 2"
    using round_sig_error [of 2 x 53] x by (simp add: fround_def)
  moreover have "x * 2 < 2 / of_int b * 2 ^ 53"
  proof -
    have "(of_int a :: rat) < of_int (2 ^ 53)" using a(2) by (simp only: of_int_less_iff)
    then show ?thesis using b by (simp add: x_def divide_strict_right_mono)
  qed
  ultimately have "\<bar>fround x - x\<bar> < 1 / of_int b" by simp
  then have "of_int q - 1 < fround x" using lo by (simp add: abs_less_iff)
  moreover have "fround x \<le> of_int q" by (rule flt.rnd_le_exact [OF exact q(2)])
  ultimately have "\<lceil>fround x\<rceil> = q" by (intro ceiling_unique) simp_all
  then show ?thesis by (simp add: q_def x_def)
qed

end
