(* ===== verification/PyTime.thy ===== *)
theory PyTime
  imports Prelude
begin

text \<open>
  UTC datetimes as Python's \<open>datetime\<close> has them: the civil fields, and the instant they
  name, in microseconds since the proleptic Gregorian epoch (\<open>date.toordinal\<close> counts
  the days). Rows and intervals of the model hold instants; only the billing-cycle
  arithmetic reads the civil fields.
\<close>

type_synonym instant = int
type_synonym timedelta = int

definition usec_per_day :: int where "usec_per_day = 86400000000"

definition seconds :: "int \<Rightarrow> timedelta" where "seconds s = s * 1000000"

definition milliseconds :: "int \<Rightarrow> timedelta" where "milliseconds s = s * 1000"

definition hours :: "int \<Rightarrow> timedelta" where "hours h = h * 3600000000"

definition days :: "int \<Rightarrow> timedelta" where "days d = d * usec_per_day"

lemmas timedelta_defs = usec_per_day_def seconds_def milliseconds_def hours_def days_def

record pydate =
  d_year :: int
  d_month :: int
  d_day :: int

record pydatetime = pydate +
  dt_us :: int

section \<open>The calendar\<close>

definition leap :: "int \<Rightarrow> bool" where
  "leap y \<longleftrightarrow> y mod 4 = 0 \<and> (y mod 100 \<noteq> 0 \<or> y mod 400 = 0)"

definition days_in_month :: "int \<Rightarrow> int \<Rightarrow> int" where
  "days_in_month y m =
     (if m = 2 then (if leap y then 29 else 28)
      else if m = 4 \<or> m = 6 \<or> m = 9 \<or> m = 11 then 30 else 31)"

definition days_before_year :: "int \<Rightarrow> int" where
  "days_before_year y = (let p = y - 1 in p * 365 + p div 4 - p div 100 + p div 400)"

definition days_before_month :: "int \<Rightarrow> int \<Rightarrow> int" where
  "days_before_month y m =
     (if m \<le> 1 then 0 else if m = 2 then 31 else
        (if m = 3 then 59 else if m = 4 then 90 else if m = 5 then 120 else if m = 6 then 151
         else if m = 7 then 181 else if m = 8 then 212 else if m = 9 then 243
         else if m = 10 then 273 else if m = 11 then 304 else 334) + (if leap y then 1 else 0))"

definition toordinal :: "'a pydate_scheme \<Rightarrow> int" where
  "toordinal d = days_before_year (d_year d) + days_before_month (d_year d) (d_month d) + d_day d"

definition instant_of :: "pydatetime \<Rightarrow> instant" where
  "instant_of t = toordinal t * usec_per_day + dt_us t"

definition valid_date :: "'a pydate_scheme \<Rightarrow> bool" where
  "valid_date d \<longleftrightarrow> 1 \<le> d_year d \<and> d_year d \<le> 9999 \<and> 1 \<le> d_month d \<and> d_month d \<le> 12
     \<and> 1 \<le> d_day d \<and> d_day d \<le> days_in_month (d_year d) (d_month d)"

definition valid_datetime :: "pydatetime \<Rightarrow> bool" where
  "valid_datetime t \<longleftrightarrow> valid_date t \<and> 0 \<le> dt_us t \<and> dt_us t < usec_per_day"

text \<open>Comparison of dates, field by field as Python compares them.\<close>

definition date_less :: "'a pydate_scheme \<Rightarrow> 'b pydate_scheme \<Rightarrow> bool" where
  "date_less a b \<longleftrightarrow> d_year a < d_year b \<or> (d_year a = d_year b \<and>
     (d_month a < d_month b \<or> (d_month a = d_month b \<and> d_day a < d_day b)))"

text \<open>The constructor \<open>datetime(year, month, day, tzinfo=UTC)\<close>: \<open>ValueError\<close> outside the calendar.\<close>

definition midnight :: "int \<Rightarrow> int \<Rightarrow> int \<Rightarrow> pydatetime option" where
  "midnight y m d =
     (let t = \<lparr>d_year = y, d_month = m, d_day = d, dt_us = 0\<rparr>
      in if valid_date t then Some t else None)"

lemma midnight_Some:
  "midnight y m d = Some t \<Longrightarrow> t = \<lparr>d_year = y, d_month = m, d_day = d, dt_us = 0\<rparr> \<and> valid_date t"
  by (auto simp: midnight_def Let_def split: if_splits)

section \<open>Months in a row\<close>

text \<open>Months numbered consecutively; \<open>month_start n\<close> is the ordinal just before the month's first day.\<close>

definition month_index :: "'a pydate_scheme \<Rightarrow> int" where
  "month_index d = 12 * d_year d + (d_month d - 1)"

definition month_start :: "int \<Rightarrow> int" where
  "month_start n = days_before_year (n div 12) + days_before_month (n div 12) (n mod 12 + 1)"

definition month_length :: "int \<Rightarrow> int" where
  "month_length n = days_in_month (n div 12) (n mod 12 + 1)"

lemma div_pred: "0 < n \<Longrightarrow> y div n = (y - 1) div n + (if y mod n = 0 then 1 else 0)" for y n :: int
proof -
  assume n: "0 < n"
  have y: "y = n * (y div n) + y mod n" by simp
  show ?thesis
  proof (cases "y mod n = 0")
    case True
    have "y - 1 = n * (y div n - 1) + (n - 1)" using y True by (simp add: algebra_simps)
    then have "(y - 1) div n = y div n - 1" by (rule int_div_pos_eq) (use n in simp_all)
    then show ?thesis using True by simp
  next
    case False
    have "0 \<le> y mod n" "y mod n < n" using n by simp_all
    moreover have "y - 1 = n * (y div n) + (y mod n - 1)" using y by simp
    then have "(y - 1) div n = y div n" by (rule int_div_pos_eq) (use False calculation in simp_all)
    then show ?thesis using False by simp
  qed
qed

lemma leap_cases: "y mod 400 = 0 \<Longrightarrow> y mod 100 = 0" "y mod 100 = 0 \<Longrightarrow> y mod 4 = 0" for y :: int
  using mod_mod_cancel [of 100 400 y] mod_mod_cancel [of 4 100 y] by simp_all

lemma leap_length: "(r \<longrightarrow> q) \<Longrightarrow> (q \<longrightarrow> p) \<Longrightarrow>
  (if p \<and> (\<not> q \<or> r) then 366 else 365) = (365::int) + (if p then 1 else 0) - (if q then 1 else 0) + (if r then 1 else 0)"
  by (cases p; cases q; cases r) simp_all

lemma days_before_year_Suc:
  "days_before_year (y + 1) = days_before_year y + (if leap y then 366 else 365)"
proof -
  define a b c where "a = (if y mod 4 = 0 then 1 else 0 :: int)"
    and "b = (if y mod 100 = 0 then 1 else 0 :: int)"
    and "c = (if y mod 400 = 0 then 1 else 0 :: int)"
  have l: "(if leap y then 366 else 365) = 365 + a - b + c"
    unfolding leap_def a_def b_def c_def by (rule leap_length) (use leap_cases [of y] in blast)+
  have "y div 4 = (y - 1) div 4 + a" "y div 100 = (y - 1) div 100 + b"
    "y div 400 = (y - 1) div 400 + c"
    unfolding a_def b_def c_def by (rule div_pred, simp)+
  moreover have "q4 = p4 + a \<Longrightarrow> q100 = p100 + b \<Longrightarrow> q400 = p400 + c \<Longrightarrow>
      y * 365 + q4 - q100 + q400 = (y - 1) * 365 + p4 - p100 + p400 + (365 + a - b + c)"
    for q4 p4 q100 p100 q400 p400 :: int by simp
  ultimately show ?thesis
    unfolding days_before_year_def Let_def l add_diff_cancel_right' by blast
qed

lemma month_start_Suc: "month_start (n + 1) = month_start n + month_length n"
proof -
  define y where "y = n div 12"
  define m where "m = n mod 12"
  have m: "0 \<le> m" "m \<le> 11" by (auto simp: m_def)
  show ?thesis
  proof (cases "m = 11")
    case True
    have "n = 12 * y + m" by (simp add: y_def m_def)
    with True have n: "n + 1 = 12 * (y + 1) + 0" by simp
    have "(n + 1) div 12 = y + 1" by (rule int_div_pos_eq [OF n]) simp_all
    moreover have "(n + 1) mod 12 = 0" by (rule int_mod_pos_eq [OF n]) simp_all
    ultimately show ?thesis
      using True unfolding month_start_def month_length_def y_def [symmetric] m_def [symmetric]
      by (simp add: days_before_year_Suc days_before_month_def days_in_month_def)
  next
    case False
    then have m11: "0 \<le> m + 1" "m + 1 < 12" using m by simp_all
    have n: "n + 1 = 12 * y + (m + 1)" by (simp add: y_def m_def)
    have "(n + 1) div 12 = y" by (rule int_div_pos_eq [OF n m11])
    moreover have "(n + 1) mod 12 = m + 1" by (rule int_mod_pos_eq [OF n m11])
    moreover have "m = 0 \<or> m = 1 \<or> m = 2 \<or> m = 3 \<or> m = 4 \<or> m = 5 \<or> m = 6 \<or> m = 7 \<or> m = 8
        \<or> m = 9 \<or> m = 10"
      using m False by presburger
    then have "days_before_month y (m + 1 + 1) = days_before_month y (m + 1) + days_in_month y (m + 1)"
      by (elim disjE) (simp_all add: days_before_month_def days_in_month_def)
    ultimately show ?thesis
      unfolding month_start_def month_length_def y_def [symmetric] m_def [symmetric] by simp
  qed
qed

lemma month_length_bounds: "28 \<le> month_length n" "month_length n \<le> 31"
  by (auto simp: month_length_def days_in_month_def)

lemma month_start_mono: "m \<le> n \<Longrightarrow> month_start m \<le> month_start n"
proof (induction n rule: int_ge_induct)
  case base
  then show ?case by simp
next
  case (step i)
  then show ?case using month_start_Suc [of i] month_length_bounds(1) [of i] by simp
qed

lemma month_start_less: "m < n \<Longrightarrow> month_start m + month_length m \<le> month_start n"
  using month_start_Suc [of m] month_start_mono [of "m + 1" n] by simp

lemma month_index_div:
  "1 \<le> d_month d \<Longrightarrow> d_month d \<le> 12 \<Longrightarrow> month_index d div 12 = d_year d"
  "1 \<le> d_month d \<Longrightarrow> d_month d \<le> 12 \<Longrightarrow> month_index d mod 12 = d_month d - 1"
  unfolding month_index_def by simp_all

lemma toordinal_month:
  "1 \<le> d_month d \<Longrightarrow> d_month d \<le> 12 \<Longrightarrow> toordinal d = month_start (month_index d) + d_day d"
proof -
  assume "1 \<le> d_month d" "d_month d \<le> 12"
  then show ?thesis by (simp add: toordinal_def month_start_def month_index_div)
qed

lemma valid_date_month:
  assumes "valid_date d"
  shows "toordinal d = month_start (month_index d) + d_day d"
    and "1 \<le> d_day d" and "d_day d \<le> month_length (month_index d)"
proof -
  have m: "1 \<le> d_month d" "d_month d \<le> 12" using assms by (auto simp: valid_date_def)
  then show "d_day d \<le> month_length (month_index d)"
    using assms by (simp add: valid_date_def month_length_def month_index_div)
  show "toordinal d = month_start (month_index d) + d_day d"
    by (rule toordinal_month [OF m])
  show "1 \<le> d_day d" using assms by (simp add: valid_date_def)
qed

text \<open>An instant lies inside its own month.\<close>

lemma instant_in_month:
  assumes "valid_datetime t"
  shows "(month_start (month_index t) + d_day t) * usec_per_day \<le> instant_of t"
    and "instant_of t < (month_start (month_index t) + d_day t + 1) * usec_per_day"
  using assms valid_date_month(1) [of t]
  by (auto simp: valid_datetime_def instant_of_def algebra_simps)

end
