(* ===== verification/Budget.thy ===== *)
theory Budget
  imports PyNum PyTime
begin

text \<open>
  The pure Apify budget policy, first half: \<open>acquisition/apify/budget.py\<close> down to the
  operator estimates. Settings become a cost estimate, or a denial that names the setting
  with no enforceable bound. A raised exception is the left side of the result; the
  free-text messages are dropped except for the setting a \<open>BudgetDenied\<close> names.
\<close>

section \<open>Constants\<close>

definition HTTP_RECEIVE_BUFFER_BYTES :: int where "HTTP_RECEIVE_BUFFER_BYTES = 65536"

definition MAX_API_REQUEST_BODY_BYTES :: int where "MAX_API_REQUEST_BODY_BYTES = 16384"

definition HTTP_READ_CHUNK_BYTES :: int where "HTTP_READ_CHUNK_BYTES = 65536"

definition DATASET_PAGE_ENVELOPE_BYTES :: int where "DATASET_PAGE_ENVELOPE_BYTES = 1024"

text \<open>The v1 listing row's bound, the value the contract module computes from its schema.\<close>

definition MAX_LISTING_ROW_BYTES :: int where "MAX_LISTING_ROW_BYTES = 32735"

definition MAX_CYCLE_TARGET_USD :: rat where "MAX_CYCLE_TARGET_USD = 12"

definition FULL_CYCLE_HOURS :: int where "FULL_CYCLE_HOURS = 744"

definition DEFAULT_ACCOUNT_MARGIN_FRACTION :: rat where "DEFAULT_ACCOUNT_MARGIN_FRACTION = 1 / 10"

definition BYTES_PER_GB :: rat where "BYTES_PER_GB = 1000000000"

definition OPS_PER_PRICE_UNIT :: rat where "OPS_PER_PRICE_UNIT = 1000"

definition SECONDS_PER_HOUR :: rat where "SECONDS_PER_HOUR = 3600"

definition MB_PER_GB_CU :: rat where "MB_PER_GB_CU = 1024"

definition CALLS_PER_CLEANUP_ATTEMPT :: int where "CALLS_PER_CLEANUP_ATTEMPT = 4"

definition KV_WRITES_PER_DELETE :: int where "KV_WRITES_PER_DELETE = 3"

definition START_CALLS :: int where "START_CALLS = 1"

definition MIN_KV_WRITES :: int where "MIN_KV_WRITES = 2"

lemmas budget_consts = HTTP_RECEIVE_BUFFER_BYTES_def MAX_API_REQUEST_BODY_BYTES_def
  HTTP_READ_CHUNK_BYTES_def DATASET_PAGE_ENVELOPE_BYTES_def MAX_LISTING_ROW_BYTES_def
  MAX_CYCLE_TARGET_USD_def FULL_CYCLE_HOURS_def DEFAULT_ACCOUNT_MARGIN_FRACTION_def
  BYTES_PER_GB_def OPS_PER_PRICE_UNIT_def SECONDS_PER_HOUR_def MB_PER_GB_CU_def
  CALLS_PER_CLEANUP_ATTEMPT_def KV_WRITES_PER_DELETE_def START_CALLS_def MIN_KV_WRITES_def

section \<open>Vocabulary\<close>

datatype budget_class = WATCH_REFRESH | DISCOVERY | OPERATOR

datatype operator_kind = BUILD | INSPECT | PROBE

datatype denial_reason = APIFY_DISABLED | OVERRUN_LATCH | CALL_BILLING_RESIDUAL_UNACCEPTED
  | EXTERNAL_LIABILITY_UNBOUNDED | BUDGET_SETTING_INVALID | PRICING_UNVERIFIED
  | UNBOUNDED_COMPONENT | LEDGER_AUTHORITY_MISSING | CYCLE_UNKNOWN | ACCOUNT_STATE_UNOBSERVABLE
  | CASH_CEILING_EXCEEDED_BY_PLAN | CLASS_CAP | OPERATOR_ALLOWANCE_EXHAUSTED | ACCOUNT_HEADROOM

text \<open>
  What the functions of the module raise: their own \<open>BudgetDenied\<close>, and what Python raises
  under them. \<open>InvalidOperation\<close> is the \<open>decimal\<close> signal of a \<open>quantize\<close> whose result
  does not fit the context's 28 digits.
\<close>

datatype budget_error = BudgetDenied denial_reason string | InvalidOperation | ValueError
  | AssertionError

section \<open>Settings\<close>

record unit_prices =
  usd_per_cu :: "decimal option"
  dataset_reads_per_1000 :: "decimal option"
  dataset_writes_per_1000 :: "decimal option"
  dataset_storage_per_gb_hour :: "decimal option"
  kv_reads_per_1000 :: "decimal option"
  kv_writes_per_1000 :: "decimal option"
  kv_storage_per_gb_hour :: "decimal option"
  transfer_per_gb :: "decimal option"

record budget_settings =
  enabled :: bool
  prices :: unit_prices
  margin :: "decimal option"
  estimator_version :: string
  max_timeout_s :: "int option"
  cycle_target_usd :: "decimal option"
  operator_allowance_usd :: "decimal option"
  watch_refresh_reserve_usd :: "decimal option"
  cash_ceiling_usd :: "decimal option"
  account_margin_setting :: "decimal option"
  external_liability_usd :: "decimal option"
  call_billing_residual_accepted :: "pydate option"
  operator_build_bound_usd :: "decimal option"
  operator_inspect_max_items :: "int option"
  operator_inspect_max_record_reads :: "int option"
  operator_inspect_max_bytes :: "int option"
  operator_probe_max_calls :: "int option"
  max_dataset_reads :: "int option"
  max_kv_reads :: "int option"
  max_delete_attempts :: "int option"
  max_run_polls :: "int option"
  max_correction_reads :: "int option"
  max_kv_writes :: "int option"
  max_kv_bytes :: "int option"
  storage_max_lifetime_s :: "int option"
  api_call_overhead_bytes :: "int option"
  max_api_response_bytes :: "int option"
  max_dataset_page_bytes :: "int option"
  cycle_boundary_guard_s :: "int option"
  billing_cycle_anchor :: "pydatetime option"
  account_limit_usd :: "decimal option"
  account_base_price_usd :: "decimal option"
  account_data_retention_days :: "int option"
  account_verified_on :: "pydate option"

text \<open>The one test behind \<open>_price\<close>, \<open>_setting\<close> and \<open>_margin\<close>: set, finite, not negative.\<close>

fun checked_decimal :: "decimal option \<Rightarrow> denial_reason \<Rightarrow> string \<Rightarrow> budget_error + rat" where
  "checked_decimal (Some (DFin v)) reason name =
     (if v < 0 then Inl (BudgetDenied reason name) else Inr v)"
| "checked_decimal _ reason name = Inl (BudgetDenied reason name)"

definition price :: "decimal option \<Rightarrow> string \<Rightarrow> budget_error + rat" where
  "price v name = checked_decimal v PRICING_UNVERIFIED name"

definition cap :: "int option \<Rightarrow> string \<Rightarrow> int \<Rightarrow> budget_error + int" where
  "cap v name minimum =
     (case v of
        None \<Rightarrow> Inl (BudgetDenied UNBOUNDED_COMPONENT name)
      | Some n \<Rightarrow> if n < minimum then Inl (BudgetDenied UNBOUNDED_COMPONENT name) else Inr n)"

definition setting :: "decimal option \<Rightarrow> string \<Rightarrow> budget_error + rat" where
  "setting v name = checked_decimal v BUDGET_SETTING_INVALID name"

definition margin_of :: "budget_settings \<Rightarrow> budget_error + rat" where
  "margin_of cfg = checked_decimal (margin cfg) UNBOUNDED_COMPONENT ''MARGIN''"

text \<open>
  \<open>_usd\<close>: \<open>quantize(Decimal("0.0001"), ROUND_CEILING)\<close>. The result's coefficient must fit
  the context precision, or \<open>decimal\<close> raises \<open>InvalidOperation\<close>.
\<close>

definition usd :: "rat \<Rightarrow> budget_error + rat" where
  "usd amount =
     (let q = \<lceil>amount * 10000\<rceil>
      in if 10 ^ 28 \<le> \<bar>q\<bar> then Inl InvalidOperation else Inr (of_int q / 10000))"

definition per_op :: "decimal option \<Rightarrow> string \<Rightarrow> budget_error + rat" where
  "per_op price_per_1000 name =
     andThen (price price_per_1000 name) (\<lambda>p. Inr (ddiv p OPS_PER_PRICE_UNIT))"

section \<open>Per-call bounds\<close>

definition request_wire_overhead :: "budget_settings \<Rightarrow> budget_error + int" where
  "request_wire_overhead cfg =
     andThen (cap (api_call_overhead_bytes cfg) ''API_CALL_OVERHEAD_BYTES'' 0) (\<lambda>overhead.
       Inr (overhead + 2 * HTTP_RECEIVE_BUFFER_BYTES))"

definition transfer_per_byte :: "budget_settings \<Rightarrow> budget_error + rat" where
  "transfer_per_byte cfg =
     andThen (price (transfer_per_gb (prices cfg)) ''TRANSFER_USD_PER_GB'') (\<lambda>p.
       Inr (ddiv p BYTES_PER_GB))"

definition api_call_bound :: "budget_settings \<Rightarrow> budget_error + rat" where
  "api_call_bound cfg =
     (let p = prices cfg in
      andThen (per_op (dataset_reads_per_1000 p) ''DATASET_READS_USD_PER_1000'') (\<lambda>a.
      andThen (per_op (dataset_writes_per_1000 p) ''DATASET_WRITES_USD_PER_1000'') (\<lambda>b.
      andThen (per_op (kv_reads_per_1000 p) ''KV_READS_USD_PER_1000'') (\<lambda>c.
      andThen (per_op (kv_writes_per_1000 p) ''KV_WRITES_USD_PER_1000'') (\<lambda>d.
      let dearest = max (max (max a b) c) d in
      andThen (cap (max_api_response_bytes cfg) ''MAX_API_RESPONSE_BYTES'' 0) (\<lambda>response_cap.
      andThen (request_wire_overhead cfg) (\<lambda>overhead.
      let wire = overhead + response_cap in
      andThen (transfer_per_byte cfg) (\<lambda>per_byte.
      Inr (dadd dearest (dmul (of_int wire) per_byte))))))))))"

definition dataset_page_bound :: "budget_settings \<Rightarrow> budget_error + rat" where
  "dataset_page_bound cfg =
     andThen (cap (max_dataset_page_bytes cfg) ''MAX_DATASET_PAGE_BYTES'' 0) (\<lambda>page_cap.
     andThen (request_wire_overhead cfg) (\<lambda>overhead.
     andThen (transfer_per_byte cfg) (\<lambda>per_byte.
     Inr (dmul (of_int (overhead + page_cap)) per_byte))))"

record per_call_bounds_rec =
  start_run :: rat
  run_poll :: rat
  correction_read :: rat
  abort :: rat
  abort_confirm :: rat
  delete_dataset :: rat
  delete_kv_store :: rat
  dataset_page :: rat
  kv_record_read :: rat
  build_read :: rat

definition per_call_bounds :: "budget_settings \<Rightarrow> budget_error + per_call_bounds_rec" where
  "per_call_bounds cfg =
     andThen (api_call_bound cfg) (\<lambda>call.
     andThen (dataset_page_bound cfg) (\<lambda>page.
     Inr \<lparr>start_run = call, run_poll = call, correction_read = call, abort = call,
          abort_confirm = call, delete_dataset = call, delete_kv_store = call,
          dataset_page = page, kv_record_read = call, build_read = call\<rparr>))"

section \<open>Run estimate\<close>

record run_shape =
  memory_mb :: int
  timeout_s :: int
  max_items :: int
  max_requests :: int
  max_bytes :: int
  max_item_bytes :: int

text \<open>\<open>RunShape.__post_init__\<close>: a malformed request is never priced.\<close>

definition run_shape_ok :: "run_shape \<Rightarrow> bool" where
  "run_shape_ok s \<longleftrightarrow> 0 < memory_mb s \<and> 0 < timeout_s s \<and> 0 < max_item_bytes s
     \<and> 0 \<le> max_items s \<and> 0 \<le> max_requests s \<and> 0 \<le> max_bytes s"

definition mk_run_shape :: "run_shape \<Rightarrow> budget_error + run_shape" where
  "mk_run_shape s =
     (if memory_mb s \<le> 0 \<or> timeout_s s \<le> 0 \<or> max_item_bytes s \<le> 0 then Inl ValueError
      else if max_items s < 0 \<or> max_requests s < 0 \<or> max_bytes s < 0 then Inl ValueError
      else Inr s)"

record cost_estimate =
  components :: "(string \<times> rat) list"
  execution_bound_usd :: rat
  post_run_liability_usd :: rat
  monitoring_bound_usd :: rat
  estimate_usd :: rat
  ce_estimator_version :: string

definition admission_usd :: "cost_estimate \<Rightarrow> rat" where
  "admission_usd e = dadd (estimate_usd e) (monitoring_bound_usd e)"

definition with_margin :: "rat \<Rightarrow> rat \<Rightarrow> rat \<Rightarrow> budget_error + rat" where
  "with_margin execution post_run m =
     andThen (usd execution) (\<lambda>e.
     andThen (usd post_run) (\<lambda>p.
     usd (dmul (dadd e p) (dadd 1 m))))"

definition storage_hours :: "budget_settings \<Rightarrow> budget_error + rat" where
  "storage_hours cfg =
     andThen (cap (storage_max_lifetime_s cfg) ''STORAGE_MAX_LIFETIME'' 1) (\<lambda>lifetime.
     andThen (cap (cycle_boundary_guard_s cfg) ''CYCLE_BOUNDARY_GUARD_S'' 0) (\<lambda>guard_s.
     Inr (max (ddiv (of_int lifetime) SECONDS_PER_HOUR)
              (dadd (of_int FULL_CYCLE_HOURS) (ddiv (of_int (2 * guard_s)) SECONDS_PER_HOUR)))))"

text \<open>\<open>contract.page_limit\<close>: how many rows of the given bound one dataset page can hold.\<close>

definition page_limit :: "int \<Rightarrow> int \<Rightarrow> budget_error + int" where
  "page_limit page_bytes item_bytes =
     (if item_bytes \<le> 0 then Inl ValueError
      else let limit = (page_bytes - DATASET_PAGE_ENVELOPE_BYTES) div item_bytes
           in if limit < 1 then Inl ValueError else Inr limit)"

text \<open>
  \<open>math.ceil(max_items / limit) + 1\<close>: the division is Python's true division of two ints,
  a float.
\<close>

definition pages_per_read :: "budget_settings \<Rightarrow> int \<Rightarrow> int \<Rightarrow> budget_error + int" where
  "pages_per_read cfg items item_bytes =
     andThen (cap (max_dataset_page_bytes cfg) ''MAX_DATASET_PAGE_BYTES'' 0) (\<lambda>page_cap.
       case page_limit page_cap item_bytes of
         Inl ValueError \<Rightarrow> Inl (BudgetDenied UNBOUNDED_COMPONENT ''page_limit'')
       | Inl e \<Rightarrow> Inl e
       | Inr limit \<Rightarrow> Inr (\<lceil>fround (of_int items / of_int limit)\<rceil> + 1))"

definition actor_fetch_bytes :: "budget_settings \<Rightarrow> int \<Rightarrow> int \<Rightarrow> budget_error + int" where
  "actor_fetch_bytes cfg bytes requests =
     andThen (request_wire_overhead cfg) (\<lambda>overhead.
       Inr (bytes + requests * overhead + HTTP_READ_CHUNK_BYTES))"

end
