(* ===== verification/Estimate.thy ===== *)
theory Estimate
  imports Budget
begin

text \<open>
  The run and operator estimates and the envelope settlement of
  \<open>acquisition/apify/budget.py\<close>, and the lemmas on their shape: an estimate never falls
  below the parts recorded beside it, and never shrinks when a run asks for more.
\<close>

section \<open>The run estimate\<close>

text \<open>
  The inputs of the component formulas, read in the code's order (prices before caps), so
  that a missing price is what a request with several gaps reports.
\<close>

record run_inputs =
  ri_usd_per_cu :: rat
  ri_ds_read :: rat
  ri_ds_write :: rat
  ri_kv_read :: rat
  ri_kv_write :: rat
  ri_ds_storage :: rat
  ri_kv_storage :: rat
  ri_per_byte :: rat
  ri_margin :: rat
  ri_dataset_reads :: int
  ri_kv_reads :: int
  ri_delete_attempts :: int
  ri_run_polls :: int
  ri_correction_reads :: int
  ri_kv_writes :: int
  ri_kv_bytes :: int
  ri_pages :: int
  ri_hours :: rat
  ri_call :: rat
  ri_page :: rat
  ri_fetch :: int

definition read_run_inputs :: "run_shape \<Rightarrow> budget_settings \<Rightarrow> budget_error + run_inputs" where
  "read_run_inputs shape cfg =
     (let p = prices cfg in
      andThen (price (usd_per_cu p) ''USD_PER_CU'') (\<lambda>cu.
      andThen (per_op (dataset_reads_per_1000 p) ''DATASET_READS_USD_PER_1000'') (\<lambda>ds_read.
      andThen (per_op (dataset_writes_per_1000 p) ''DATASET_WRITES_USD_PER_1000'') (\<lambda>ds_write.
      andThen (per_op (kv_reads_per_1000 p) ''KV_READS_USD_PER_1000'') (\<lambda>kv_read.
      andThen (per_op (kv_writes_per_1000 p) ''KV_WRITES_USD_PER_1000'') (\<lambda>kv_write.
      andThen (price (dataset_storage_per_gb_hour p) ''DATASET_STORAGE_USD_PER_GB_HOUR'') (\<lambda>ds_storage.
      andThen (price (kv_storage_per_gb_hour p) ''KV_STORAGE_USD_PER_GB_HOUR'') (\<lambda>kv_storage.
      andThen (transfer_per_byte cfg) (\<lambda>per_byte.
      andThen (margin_of cfg) (\<lambda>m.
      andThen (cap (max_timeout_s cfg) ''MAX_TIMEOUT_S'' 1) (\<lambda>max_timeout.
      andThen (raise_if (max_timeout < timeout_s shape) (BudgetDenied UNBOUNDED_COMPONENT ''timeout_s'')) (\<lambda>_.
      andThen (cap (max_dataset_reads cfg) ''MAX_DATASET_READS'' 0) (\<lambda>dataset_reads.
      andThen (cap (max_kv_reads cfg) ''MAX_KV_READS'' 0) (\<lambda>kv_reads.
      andThen (cap (max_delete_attempts cfg) ''MAX_DELETE_ATTEMPTS'' 0) (\<lambda>delete_attempts.
      andThen (cap (max_run_polls cfg) ''MAX_RUN_POLLS'' 0) (\<lambda>run_polls.
      andThen (cap (max_correction_reads cfg) ''MAX_CORRECTION_READS'' 0) (\<lambda>correction_reads.
      andThen (cap (max_kv_writes cfg) ''MAX_KV_WRITES'' MIN_KV_WRITES) (\<lambda>kv_writes.
      andThen (cap (max_kv_bytes cfg) ''MAX_KV_BYTES'' 0) (\<lambda>kv_bytes.
      andThen (cap (max_api_response_bytes cfg) ''MAX_API_RESPONSE_BYTES'' 0) (\<lambda>response_cap.
      andThen (raise_if (response_cap < kv_bytes) (BudgetDenied UNBOUNDED_COMPONENT ''MAX_KV_BYTES'')) (\<lambda>_.
      andThen (pages_per_read cfg (max_items shape) (max_item_bytes shape)) (\<lambda>pages.
      andThen (storage_hours cfg) (\<lambda>h.
      andThen (api_call_bound cfg) (\<lambda>call.
      andThen (dataset_page_bound cfg) (\<lambda>page.
      andThen (actor_fetch_bytes cfg (max_bytes shape) (max_requests shape)) (\<lambda>fetch.
      Inr \<lparr>ri_usd_per_cu = cu, ri_ds_read = ds_read, ri_ds_write = ds_write, ri_kv_read = kv_read,
           ri_kv_write = kv_write, ri_ds_storage = ds_storage, ri_kv_storage = kv_storage,
           ri_per_byte = per_byte, ri_margin = m, ri_dataset_reads = dataset_reads,
           ri_kv_reads = kv_reads, ri_delete_attempts = delete_attempts, ri_run_polls = run_polls,
           ri_correction_reads = correction_reads, ri_kv_writes = kv_writes,
           ri_kv_bytes = kv_bytes, ri_pages = pages, ri_hours = h, ri_call = call,
           ri_page = page, ri_fetch = fetch\<rparr>))))))))))))))))))))))))))"

text \<open>The execution components and the post-run components, in the order they are summed.\<close>

definition execution_components :: "run_shape \<Rightarrow> run_inputs \<Rightarrow> (string \<times> rat) list" where
  "execution_components shape i =
     (let compute = ddiv (dmul (ddiv (of_int (memory_mb shape)) MB_PER_GB_CU) (of_int (timeout_s shape)))
            SECONDS_PER_HOUR;
          dataset_bytes = max_items shape * max_item_bytes shape
      in [(''compute'', dmul compute (ri_usd_per_cu i)),
          (''run_writes'', dadd (dmul (of_int (max_items shape)) (ri_ds_write i))
             (dmul (of_int (ri_kv_writes i)) (ri_kv_write i))),
          (''transfer'', dmul (of_int (ri_fetch i + dataset_bytes + ri_kv_writes i * ri_kv_bytes i))
             (ri_per_byte i)),
          (''proxy'', 0)])"

definition post_run_components :: "run_shape \<Rightarrow> run_inputs \<Rightarrow> (string \<times> rat) list" where
  "post_run_components shape i =
     (let dataset_bytes = max_items shape * max_item_bytes shape
      in [(''post_run_reads'',
             dadd (dmul (of_int (ri_dataset_reads i * (max_items shape + ri_pages i))) (ri_ds_read i))
               (dmul (of_int (ri_kv_reads i)) (ri_kv_read i))),
          (''post_run_deletes'',
             dmul (of_int (ri_delete_attempts i))
               (dadd (dmul (of_int (max_items shape + 1)) (ri_ds_write i))
                 (dmul (of_int KV_WRITES_PER_DELETE) (ri_kv_write i)))),
          (''storage'',
             dmul (ddiv (dadd (dmul (of_int dataset_bytes) (ri_ds_storage i))
                 (dmul (of_int (ri_kv_bytes i + MAX_API_REQUEST_BODY_BYTES)) (ri_kv_storage i)))
               BYTES_PER_GB) (ri_hours i)),
          (''api_calls'',
             dadd (dmul (of_int (START_CALLS + ri_run_polls i
                   + CALLS_PER_CLEANUP_ATTEMPT * ri_delete_attempts i + ri_kv_reads i)) (ri_call i))
               (dmul (of_int (ri_dataset_reads i * ri_pages i)) (ri_page i)))])"

definition price_run :: "run_shape \<Rightarrow> run_inputs \<Rightarrow> string \<Rightarrow> budget_error + cost_estimate" where
  "price_run shape i version =
     (let execution = dsum (map snd (execution_components shape i));
          post_run = dsum (map snd (post_run_components shape i)) in
      andThen (usd execution) (\<lambda>e.
      andThen (usd post_run) (\<lambda>p.
      andThen (usd (dmul (of_int (ri_correction_reads i)) (ri_call i))) (\<lambda>mon.
      andThen (with_margin execution post_run (ri_margin i)) (\<lambda>est.
      Inr \<lparr>components = execution_components shape i @ post_run_components shape i,
           execution_bound_usd = e, post_run_liability_usd = p, monitoring_bound_usd = mon,
           estimate_usd = est, ce_estimator_version = version\<rparr>)))))"

definition estimate_run_cost :: "run_shape \<Rightarrow> budget_settings \<Rightarrow> budget_error + cost_estimate" where
  "estimate_run_cost shape cfg =
     andThen (read_run_inputs shape cfg) (\<lambda>i. price_run shape i (estimator_version cfg))"

section \<open>Operator estimates\<close>

definition build_estimate :: "budget_settings \<Rightarrow> rat \<Rightarrow> budget_error + cost_estimate" where
  "build_estimate cfg call =
     andThen (checked_decimal (operator_build_bound_usd cfg) UNBOUNDED_COMPONENT
       ''OPERATOR_BUILD_BOUND_USD'') (\<lambda>bound.
     andThen (cap (max_run_polls cfg) ''MAX_RUN_POLLS'' 0) (\<lambda>polls.
     andThen (cap (max_correction_reads cfg) ''MAX_CORRECTION_READS'' 0) (\<lambda>corrections.
     let execution = dadd bound (dmul (of_int polls) call) in
     andThen (usd execution) (\<lambda>e.
     andThen (usd (dmul (of_int corrections) call)) (\<lambda>mon.
     andThen (usd execution) (\<lambda>est.
     Inr \<lparr>components = [(''build'', bound), (''api_calls'', dmul (of_int polls) call)],
          execution_bound_usd = e, post_run_liability_usd = 0, monitoring_bound_usd = mon,
          estimate_usd = est, ce_estimator_version = estimator_version cfg\<rparr>))))))"

definition envelope_components ::
  "operator_kind \<Rightarrow> budget_settings \<Rightarrow> rat \<Rightarrow> rat \<Rightarrow> budget_error + (string \<times> rat) list" where
  "envelope_components kind cfg call per_byte =
     (if kind = INSPECT then
        andThen (per_op (dataset_reads_per_1000 (prices cfg)) ''DATASET_READS_USD_PER_1000'') (\<lambda>ds_read.
        andThen (cap (operator_inspect_max_items cfg) ''OPERATOR_INSPECT_MAX_ITEMS'' 0) (\<lambda>items.
        andThen (cap (operator_inspect_max_record_reads cfg) ''OPERATOR_INSPECT_MAX_RECORD_READS'' 0) (\<lambda>records.
        andThen (cap (operator_inspect_max_bytes cfg) ''OPERATOR_INSPECT_MAX_BYTES'' 0) (\<lambda>out_bytes.
        Inr [(''items'', dmul (of_int items) ds_read), (''record_reads'', dmul (of_int records) call),
             (''transfer'', dmul (of_int out_bytes) per_byte)]))))
      else
        andThen (per_op (dataset_writes_per_1000 (prices cfg)) ''DATASET_WRITES_USD_PER_1000'') (\<lambda>ds_write.
        andThen (price (dataset_storage_per_gb_hour (prices cfg)) ''DATASET_STORAGE_USD_PER_GB_HOUR'') (\<lambda>ds_storage.
        andThen (cap (operator_probe_max_calls cfg) ''OPERATOR_PROBE_MAX_CALLS'' 0) (\<lambda>calls.
        andThen (storage_hours cfg) (\<lambda>h.
        Inr [(''calls'', dmul (of_int calls) (dadd call ds_write)),
             (''storage'', dmul (ddiv (dmul (of_int MAX_LISTING_ROW_BYTES) ds_storage) BYTES_PER_GB) h)])))))"

definition estimate_operator_cost :: "operator_kind \<Rightarrow> budget_settings \<Rightarrow> budget_error + cost_estimate" where
  "estimate_operator_cost kind cfg =
     andThen (api_call_bound cfg) (\<lambda>call.
     andThen (transfer_per_byte cfg) (\<lambda>per_byte.
     if kind = BUILD then build_estimate cfg call
     else
       andThen (margin_of cfg) (\<lambda>m.
       andThen (envelope_components kind cfg call per_byte) (\<lambda>comps.
       let envelope = dsum (map snd comps) in
       andThen (usd envelope) (\<lambda>e.
       andThen (with_margin envelope 0 m) (\<lambda>est.
       Inr \<lparr>components = comps, execution_bound_usd = e, post_run_liability_usd = 0,
            monitoring_bound_usd = 0, estimate_usd = est,
            ce_estimator_version = estimator_version cfg\<rparr>))))))"

definition settle_envelope :: "cost_estimate \<Rightarrow> rat list \<Rightarrow> rat" where
  "settle_envelope estimate observed = foldl max (estimate_usd estimate) observed"

section \<open>Rounding up to the ledger's precision\<close>

lemma usd_eq_Inr: "usd x = Inr y \<longleftrightarrow> \<bar>\<lceil>x * 10000\<rceil>\<bar> < 10 ^ 28 \<and> y = of_int \<lceil>x * 10000\<rceil> / 10000"
  by (auto simp: usd_def Let_def)

lemma usd_ge: "usd x = Inr y \<Longrightarrow> x \<le> y"
proof -
  assume "usd x = Inr y"
  then have "y * 10000 = of_int \<lceil>x * 10000\<rceil>" by (simp add: usd_eq_Inr)
  with le_of_int_ceiling [of "x * 10000"] show ?thesis by linarith
qed

lemma usd_less: "usd x = Inr y \<Longrightarrow> y < x + 1 / 10000"
  using of_int_ceiling_le_add_one [of "x * 10000"] ceiling_correct [of "x * 10000"]
  by (simp add: usd_eq_Inr divide_less_eq algebra_simps)

lemma usd_mono: "usd x = Inr x' \<Longrightarrow> usd y = Inr y' \<Longrightarrow> x \<le> y \<Longrightarrow> x' \<le> y'"
proof -
  assume "usd x = Inr x'" "usd y = Inr y'" "x \<le> y"
  then have "x' = of_int \<lceil>x * 10000\<rceil> / 10000" "y' = of_int \<lceil>y * 10000\<rceil> / 10000"
    and "\<lceil>x * 10000\<rceil> \<le> \<lceil>y * 10000\<rceil>"
    by (auto simp only: usd_eq_Inr intro!: ceiling_mono mult_right_mono)
  then show "x' \<le> y'" by (simp add: divide_right_mono)
qed

lemma usd_nonneg: "usd x = Inr y \<Longrightarrow> 0 \<le> x \<Longrightarrow> 0 \<le> y"
  using usd_ge [of x y] by linarith

lemma usd_on_grid: "usd x = Inr y \<Longrightarrow> on_grid 4 y"
  by (auto simp: usd_eq_Inr on_grid_def)

lemma usd_exact: "usd x = Inr y \<Longrightarrow> dround y = y"
  by (rule dround_on_grid [OF usd_on_grid])

lemma usd_bound: "usd x = Inr y \<Longrightarrow> \<bar>y\<bar> < 10 ^ 24"
proof -
  assume "usd x = Inr y"
  then have q: "\<bar>\<lceil>x * 10000\<rceil>\<bar> < 10 ^ 28" and y: "y = of_int \<lceil>x * 10000\<rceil> / 10000"
    by (auto simp: usd_eq_Inr)
  have "\<bar>y\<bar> = of_int \<bar>\<lceil>x * 10000\<rceil>\<bar> / 10000" by (simp add: y)
  also have "\<dots> < of_int (10 ^ 28) / 10000"
  proof (rule divide_strict_right_mono)
    show "of_int \<bar>\<lceil>x * 10000\<rceil>\<bar> < (of_int (10 ^ 28) :: rat)"
      using q by (simp only: of_int_less_iff)
  qed simp
  finally show ?thesis by simp
qed

text \<open>The sum of two ledger amounts is exact as long as it fits the ledger itself.\<close>

lemma dadd_usd_exact:
  assumes "usd x = Inr a" and "usd y = Inr b" and "\<bar>a + b\<bar> < 10 ^ 24"
  shows "dadd a b = a + b"
proof -
  obtain m n :: int where mn: "a = of_int m / 10000" "b = of_int n / 10000"
    using assms by (auto simp: usd_eq_Inr)
  have "(a + b) * 10 ^ 4 = of_int (m + n)" by (simp add: mn)
  moreover have "\<bar>of_int (m + n)\<bar> < (10 ^ 28 :: rat)"
  proof -
    have "of_int (m + n) = (a + b) * 10000" by (simp add: mn)
    then show ?thesis using assms(3) by (simp add: abs_mult del: of_int_add)
  qed
  then have "\<bar>m + n\<bar> < 10 ^ 28" by (simp flip: of_int_abs del: of_int_add)
  ultimately show ?thesis
    unfolding dadd_def by (intro dround_on_grid [OF on_gridI [of _ 4 "m + n"]])
qed

text \<open>
  The margin product cannot fall below the sum of the two rounded parts: this is what lets a
  settlement of exactly those parts stay within its reservation.
\<close>

lemma with_margin_ge_parts:
  assumes e: "usd execution = Inr e" and p: "usd post_run = Inr p" and m: "0 \<le> m"
    and e0: "0 \<le> e" and p0: "0 \<le> p"
    and est: "with_margin execution post_run m = Inr est"
  shows "e + p \<le> est"
proof -
  have est': "usd (dmul (dadd e p) (dadd 1 m)) = Inr est"
    using est by (simp add: with_margin_def e p)
  have one: "1 \<le> dadd 1 m"
    unfolding dadd_def by (rule dec.rnd_add_ge) (use m in \<open>simp_all add: dround_num\<close>)
  have grow: "x \<le> dmul x (dadd 1 m)" if "dround x = x" "0 \<le> x" for x
    unfolding dmul_def
    by (rule dec.rnd_ge_exact) (use that one mult_left_mono [of 1 "dadd 1 m" x] in simp_all)
  have sum_round: "dround (dadd e p) = dadd e p" unfolding dadd_def by (rule dec.rnd_idem)
  have "0 \<le> dadd e p" using e0 p0 by (rule dadd_nonneg)
  have le: "dadd e p \<le> est"
    using grow [OF sum_round \<open>0 \<le> dadd e p\<close>] usd_ge [OF est'] by linarith
  have "e + p < 10 ^ 24"
  proof (rule ccontr)
    assume "\<not> e + p < 10 ^ 24"
    moreover have "dround (10 ^ 24) = 10 ^ 24"
      by (rule dround_on_grid [of 0]) (auto simp: on_grid_def intro: exI [of _ "10 ^ 24"])
    ultimately have "10 ^ 24 \<le> dadd e p"
      unfolding dadd_def by (intro dec.rnd_ge_exact) simp_all
    with le usd_bound [OF est'] show False by linarith
  qed
  then have "dadd e p = e + p" using e0 p0 by (intro dadd_usd_exact [OF e p]) simp
  with le show ?thesis by simp
qed

section \<open>What the inputs satisfy\<close>

lemma checked_decimal_eq_Inr: "checked_decimal v r n = Inr x \<longleftrightarrow> v = Some (DFin x) \<and> 0 \<le> x"
  by (cases "(v, r, n)" rule: checked_decimal.cases) auto

lemma price_eq_Inr: "price v n = Inr x \<longleftrightarrow> v = Some (DFin x) \<and> 0 \<le> x"
  by (simp add: price_def checked_decimal_eq_Inr)

lemma setting_eq_Inr: "setting v n = Inr x \<longleftrightarrow> v = Some (DFin x) \<and> 0 \<le> x"
  by (simp add: setting_def checked_decimal_eq_Inr)

lemma cap_eq_Inr: "cap v n m = Inr x \<longleftrightarrow> v = Some x \<and> m \<le> x"
  by (auto simp: cap_def split: option.splits if_splits)

lemma per_op_eq_Inr:
  "per_op v n = Inr x \<longleftrightarrow> (\<exists>p. v = Some (DFin p) \<and> 0 \<le> p \<and> x = ddiv p OPS_PER_PRICE_UNIT)"
  by (auto simp: per_op_def andThen_eq_Inr price_eq_Inr)

lemma per_op_nonneg: "per_op v n = Inr x \<Longrightarrow> 0 \<le> x"
  by (auto simp: per_op_eq_Inr budget_consts intro: ddiv_nonneg)

lemma transfer_per_byte_nonneg: "transfer_per_byte cfg = Inr x \<Longrightarrow> 0 \<le> x"
  by (auto simp: transfer_per_byte_def andThen_eq_Inr price_eq_Inr budget_consts intro: ddiv_nonneg)

lemma request_wire_overhead_ge: "request_wire_overhead cfg = Inr x \<Longrightarrow> 131072 \<le> x"
  by (auto simp: request_wire_overhead_def andThen_eq_Inr cap_eq_Inr budget_consts)

lemma api_call_bound_nonneg: "api_call_bound cfg = Inr x \<Longrightarrow> 0 \<le> x"
  by (auto simp: api_call_bound_def Let_def andThen_eq_Inr cap_eq_Inr intro!: dadd_nonneg dmul_nonneg
      dest!: per_op_nonneg transfer_per_byte_nonneg request_wire_overhead_ge simp: le_max_iff_disj)

lemma dataset_page_bound_nonneg: "dataset_page_bound cfg = Inr x \<Longrightarrow> 0 \<le> x"
  by (auto simp: dataset_page_bound_def andThen_eq_Inr cap_eq_Inr intro!: dmul_nonneg
      dest!: transfer_per_byte_nonneg request_wire_overhead_ge)

lemma storage_hours_nonneg: "storage_hours cfg = Inr x \<Longrightarrow> 0 \<le> x"
  by (auto simp: storage_hours_def andThen_eq_Inr cap_eq_Inr budget_consts le_max_iff_disj
      intro!: disjI1 ddiv_nonneg)

lemma page_limit_eq_Inr:
  "page_limit pb ib = Inr l \<longleftrightarrow> 0 < ib \<and> 1 \<le> l \<and> l = (pb - DATASET_PAGE_ENVELOPE_BYTES) div ib"
  by (auto simp: page_limit_def Let_def split: if_splits)

lemma pages_per_read_eq_Inr:
  "pages_per_read cfg items ib = Inr n \<longleftrightarrow>
     (\<exists>pc l. max_dataset_page_bytes cfg = Some pc \<and> 0 \<le> pc \<and> page_limit pc ib = Inr l
        \<and> n = \<lceil>fround (of_int items / of_int l)\<rceil> + 1)"
proof -
  have "(case r of Inl ValueError \<Rightarrow> Inl d | Inl e \<Rightarrow> Inl e | Inr l \<Rightarrow> Inr (f l)) = Inr n
      \<longleftrightarrow> (\<exists>l. r = Inr l \<and> n = f l)" for r :: "budget_error + int" and d and f :: "int \<Rightarrow> int"
    by (cases r) (auto split: budget_error.splits)
  then show ?thesis
    unfolding pages_per_read_def by (auto simp: andThen_eq_Inr cap_eq_Inr)
qed

lemma pages_per_read_pos: "pages_per_read cfg items ib = Inr n \<Longrightarrow> 0 \<le> items \<Longrightarrow> 1 \<le> n"
proof -
  assume "pages_per_read cfg items ib = Inr n" and i: "0 \<le> items"
  then obtain l where l: "1 \<le> l" and n: "n = \<lceil>fround (of_int items / of_int l)\<rceil> + 1"
    by (auto simp: pages_per_read_eq_Inr page_limit_eq_Inr)
  have "0 \<le> fround (of_int items / of_int l)"
    using i l by (intro flt.rnd_nonneg) simp
  then have "0 \<le> \<lceil>fround (of_int items / of_int l)\<rceil>" by (simp add: le_ceiling_iff)
  then show ?thesis by (simp add: n)
qed

definition run_inputs_ok :: "run_inputs \<Rightarrow> bool" where
  "run_inputs_ok i \<longleftrightarrow> 0 \<le> ri_usd_per_cu i \<and> 0 \<le> ri_ds_read i \<and> 0 \<le> ri_ds_write i
     \<and> 0 \<le> ri_kv_read i \<and> 0 \<le> ri_kv_write i \<and> 0 \<le> ri_ds_storage i \<and> 0 \<le> ri_kv_storage i
     \<and> 0 \<le> ri_per_byte i \<and> 0 \<le> ri_margin i \<and> 0 \<le> ri_dataset_reads i \<and> 0 \<le> ri_kv_reads i
     \<and> 0 \<le> ri_delete_attempts i \<and> 0 \<le> ri_run_polls i \<and> 0 \<le> ri_correction_reads i
     \<and> 2 \<le> ri_kv_writes i \<and> 0 \<le> ri_kv_bytes i \<and> 1 \<le> ri_pages i \<and> 0 \<le> ri_hours i
     \<and> 0 \<le> ri_call i \<and> 0 \<le> ri_page i \<and> 0 \<le> ri_fetch i"

lemma read_run_inputs_ok:
  assumes "read_run_inputs shape cfg = Inr i" and "run_shape_ok shape"
  shows "run_inputs_ok i"
  using assms
  by (auto simp: read_run_inputs_def Let_def andThen_eq_Inr cap_eq_Inr price_eq_Inr run_inputs_ok_def
      run_shape_ok_def margin_of_def checked_decimal_eq_Inr MIN_KV_WRITES_def
      actor_fetch_bytes_def HTTP_READ_CHUNK_BYTES_def
      dest!: per_op_nonneg transfer_per_byte_nonneg api_call_bound_nonneg dataset_page_bound_nonneg
        storage_hours_nonneg request_wire_overhead_ge
      intro: pages_per_read_pos)

section \<open>A larger request never costs less\<close>

definition shape_le :: "run_shape \<Rightarrow> run_shape \<Rightarrow> bool" where
  "shape_le s t \<longleftrightarrow> memory_mb s \<le> memory_mb t \<and> timeout_s s \<le> timeout_s t
     \<and> max_items s \<le> max_items t \<and> max_requests s \<le> max_requests t
     \<and> max_bytes s \<le> max_bytes t \<and> max_item_bytes s \<le> max_item_bytes t"

lemma page_limit_antimono:
  "page_limit pb ib = Inr l \<Longrightarrow> page_limit pb ib' = Inr l' \<Longrightarrow> ib \<le> ib' \<Longrightarrow> l' \<le> l"
proof -
  assume "page_limit pb ib = Inr l" "page_limit pb ib' = Inr l'" and le: "ib \<le> ib'"
  then have ib: "0 < ib" and l: "1 \<le> l" "l = (pb - DATASET_PAGE_ENVELOPE_BYTES) div ib"
    and l': "l' = (pb - DATASET_PAGE_ENVELOPE_BYTES) div ib'"
    by (simp_all add: page_limit_eq_Inr)
  have "0 \<le> pb - DATASET_PAGE_ENVELOPE_BYTES"
    using pos_imp_zdiv_nonneg_iff [OF ib, of "pb - DATASET_PAGE_ENVELOPE_BYTES"] l by linarith
  then show "l' \<le> l" unfolding l(2) l' using ib le by (rule zdiv_mono2)
qed

lemma pages_per_read_mono:
  assumes "pages_per_read cfg a ib = Inr n" and "pages_per_read cfg a' ib' = Inr n'"
    and "0 \<le> a" and "a \<le> a'" and "ib \<le> ib'"
  shows "n \<le> n'"
proof -
  obtain pc l l' where l: "page_limit pc ib = Inr l" "page_limit pc ib' = Inr l'"
    and n: "n = \<lceil>fround (of_int a / of_int l)\<rceil> + 1" "n' = \<lceil>fround (of_int a' / of_int l')\<rceil> + 1"
    using assms(1,2) by (auto simp: pages_per_read_eq_Inr)
  have pos: "1 \<le> l'" "l' \<le> l"
    using l page_limit_antimono [OF l assms(5)] by (auto simp: page_limit_eq_Inr)
  then have "of_int a / (of_int l :: rat) \<le> of_int a' / of_int l'"
    using assms(3,4) by (intro frac_le) simp_all
  then show ?thesis by (auto simp: n intro!: ceiling_mono flt.rnd_mono)
qed

text \<open>Two inputs that differ only by what the shape decides: the page count and the fetched bytes.\<close>

definition inputs_le :: "run_inputs \<Rightarrow> run_inputs \<Rightarrow> bool" where
  "inputs_le i j \<longleftrightarrow> ri_pages i \<le> ri_pages j \<and> ri_fetch i \<le> ri_fetch j
     \<and> j = i\<lparr>ri_pages := ri_pages j, ri_fetch := ri_fetch j\<rparr>"

lemma read_run_inputs_mono:
  assumes i: "read_run_inputs s cfg = Inr i" and j: "read_run_inputs t cfg = Inr j"
    and "shape_le s t" and "run_shape_ok s"
  shows "inputs_le i j"
proof -
  have "pages_per_read cfg (max_items s) (max_item_bytes s) = Inr (ri_pages i)"
    "pages_per_read cfg (max_items t) (max_item_bytes t) = Inr (ri_pages j)"
    using i j by (auto simp: read_run_inputs_def Let_def andThen_eq_Inr)
  then have pages: "ri_pages i \<le> ri_pages j"
    using assms(3,4) by (auto elim!: pages_per_read_mono simp: shape_le_def run_shape_ok_def)
  obtain ov where "request_wire_overhead cfg = Inr ov"
    and "ri_fetch i = max_bytes s + max_requests s * ov + HTTP_READ_CHUNK_BYTES"
    and "ri_fetch j = max_bytes t + max_requests t * ov + HTTP_READ_CHUNK_BYTES"
    using i j by (auto simp: read_run_inputs_def Let_def andThen_eq_Inr actor_fetch_bytes_def)
  then have fetch: "ri_fetch i \<le> ri_fetch j"
    using assms(3) request_wire_overhead_ge [of cfg ov]
    by (auto simp: shape_le_def intro!: add_mono mult_right_mono)
  have "j = i\<lparr>ri_pages := ri_pages j, ri_fetch := ri_fetch j\<rparr>"
    using i j by (auto simp: read_run_inputs_def Let_def andThen_eq_Inr)
  with pages fetch show ?thesis by (simp add: inputs_le_def)
qed

lemma execution_components_mono:
  assumes "run_inputs_ok i" and "inputs_le i j" and "shape_le s t" and "run_shape_ok s"
  shows "list_all2 (\<le>) (map snd (execution_components s i)) (map snd (execution_components t j))"
proof -
  have j: "j = i\<lparr>ri_pages := ri_pages j, ri_fetch := ri_fetch j\<rparr>" "ri_fetch i \<le> ri_fetch j"
    using assms(2) by (auto simp: inputs_le_def)
  have same: "ri_usd_per_cu j = ri_usd_per_cu i" "ri_ds_write j = ri_ds_write i"
    "ri_kv_writes j = ri_kv_writes i" "ri_kv_write j = ri_kv_write i" "ri_per_byte j = ri_per_byte i"
    "ri_kv_bytes j = ri_kv_bytes i"
    by (subst j(1), simp)+
  have bytes: "max_items s * max_item_bytes s \<le> max_items t * max_item_bytes t"
    using assms(3,4) by (intro mult_mono) (auto simp: shape_le_def run_shape_ok_def)
  then have bytes_rat: "of_int (max_items s) * of_int (max_item_bytes s)
      \<le> (of_int (max_items t) * of_int (max_item_bytes t) :: rat)"
    by (metis of_int_le_iff of_int_mult)
  have c: "ddiv (dmul (ddiv (of_int (memory_mb s)) MB_PER_GB_CU) (of_int (timeout_s s))) SECONDS_PER_HOUR
      \<le> ddiv (dmul (ddiv (of_int (memory_mb t)) MB_PER_GB_CU) (of_int (timeout_s t))) SECONDS_PER_HOUR"
    "0 \<le> ddiv (dmul (ddiv (of_int (memory_mb s)) MB_PER_GB_CU) (of_int (timeout_s s))) SECONDS_PER_HOUR"
    using assms(3,4)
    by (auto simp: budget_consts shape_le_def run_shape_ok_def
        intro!: ddiv_mono dmul_mono ddiv_nonneg dmul_nonneg)
  show ?thesis
    using assms(1,3,4) c bytes_rat j(2)
    unfolding execution_components_def Let_def same
    by (auto simp: run_inputs_ok_def shape_le_def run_shape_ok_def
        intro!: dmul_mono dadd_mono add_mono dmul_nonneg mult_nonneg_nonneg add_nonneg_nonneg)
qed

lemma post_run_components_mono:
  assumes "run_inputs_ok i" and "inputs_le i j" and "shape_le s t" and "run_shape_ok s"
  shows "list_all2 (\<le>) (map snd (post_run_components s i)) (map snd (post_run_components t j))"
proof -
  have j: "j = i\<lparr>ri_pages := ri_pages j, ri_fetch := ri_fetch j\<rparr>" "ri_pages i \<le> ri_pages j"
    using assms(2) by (auto simp: inputs_le_def)
  have same: "ri_dataset_reads j = ri_dataset_reads i" "ri_ds_read j = ri_ds_read i"
    "ri_kv_reads j = ri_kv_reads i" "ri_kv_read j = ri_kv_read i"
    "ri_delete_attempts j = ri_delete_attempts i" "ri_ds_write j = ri_ds_write i"
    "ri_kv_write j = ri_kv_write i" "ri_ds_storage j = ri_ds_storage i"
    "ri_kv_bytes j = ri_kv_bytes i" "ri_kv_storage j = ri_kv_storage i" "ri_hours j = ri_hours i"
    "ri_run_polls j = ri_run_polls i" "ri_call j = ri_call i" "ri_page j = ri_page i"
    by (subst j(1), simp)+
  have bytes: "max_items s * max_item_bytes s \<le> max_items t * max_item_bytes t"
    and nonneg: "0 \<le> max_items s * max_item_bytes s"
    using assms(3,4) by (auto intro!: mult_mono simp: shape_le_def run_shape_ok_def)
  then have rat: "0 \<le> (of_int (max_items s * max_item_bytes s) :: rat)"
    "of_int (max_items s * max_item_bytes s) \<le> (of_int (max_items t * max_item_bytes t) :: rat)"
    by (simp_all only: of_int_le_iff of_int_0_le_iff)
  have items: "0 \<le> max_items s" "max_items s \<le> max_items t"
    using assms(3,4) by (auto simp: shape_le_def run_shape_ok_def)
  have ok: "0 \<le> ri_ds_read i" "0 \<le> ri_ds_write i" "0 \<le> ri_kv_read i" "0 \<le> ri_kv_write i"
    "0 \<le> ri_ds_storage i" "0 \<le> ri_kv_storage i" "0 \<le> ri_dataset_reads i" "0 \<le> ri_kv_reads i"
    "0 \<le> ri_delete_attempts i" "0 \<le> ri_run_polls i" "0 \<le> ri_kv_bytes i" "1 \<le> ri_pages i"
    "0 \<le> ri_hours i" "0 \<le> ri_call i" "0 \<le> ri_page i"
    using assms(1) by (simp_all add: run_inputs_ok_def)
  have reads: "of_int (ri_dataset_reads i * (max_items s + ri_pages i))
      \<le> (of_int (ri_dataset_reads i * (max_items t + ri_pages j)) :: rat)"
    "0 \<le> (of_int (ri_dataset_reads i * (max_items s + ri_pages i)) :: rat)"
    "of_int (ri_dataset_reads i * ri_pages i) \<le> (of_int (ri_dataset_reads i * ri_pages j) :: rat)"
    "0 \<le> (of_int (ri_dataset_reads i * ri_pages i) :: rat)"
    unfolding of_int_le_iff of_int_0_le_iff using ok items j(2)
    by (auto intro!: mult_left_mono mult_nonneg_nonneg add_mono add_nonneg_nonneg)
  show ?thesis
    unfolding post_run_components_def Let_def same
    using ok items j(2) reads rat
    by (auto simp: budget_consts simp del: of_int_mult of_int_add
        intro!: dmul_mono dadd_mono ddiv_mono ddiv_nonneg dmul_nonneg dadd_nonneg)
qed

lemma components_nonneg:
  assumes "run_inputs_ok i" and "run_shape_ok s"
  shows "0 \<le> dsum (map snd (execution_components s i))"
    and "0 \<le> dsum (map snd (post_run_components s i))"
  using assms
  by (auto simp: execution_components_def post_run_components_def Let_def budget_consts
      run_inputs_ok_def run_shape_ok_def
      intro!: dsum_nonneg dmul_nonneg dadd_nonneg ddiv_nonneg mult_nonneg_nonneg add_nonneg_nonneg)

lemma with_margin_mono:
  assumes "with_margin e p m = Inr x" and "with_margin e' p' m = Inr x'"
    and "0 \<le> m" and "0 \<le> e" and "e \<le> e'" and "0 \<le> p" and "p \<le> p'"
  shows "x \<le> x'"
proof -
  obtain a b a' b' where u: "usd e = Inr a" "usd p = Inr b" "usd e' = Inr a'" "usd p' = Inr b'"
    and x: "usd (dmul (dadd a b) (dadd 1 m)) = Inr x" "usd (dmul (dadd a' b') (dadd 1 m)) = Inr x'"
    using assms(1,2) by (auto simp: with_margin_def andThen_eq_Inr)
  have "a \<le> a'" "b \<le> b'" "0 \<le> a" "0 \<le> b"
    using u assms by (auto intro: usd_mono usd_nonneg)
  then show ?thesis
    using x(1,2) assms(3) by (auto elim!: usd_mono intro!: dmul_mono dadd_mono dadd_nonneg)
qed

lemma price_run_eq_Inr:
  "price_run s i v = Inr est \<longleftrightarrow>
     (\<exists>e p mon x. usd (dsum (map snd (execution_components s i))) = Inr e
        \<and> usd (dsum (map snd (post_run_components s i))) = Inr p
        \<and> usd (dmul (of_int (ri_correction_reads i)) (ri_call i)) = Inr mon
        \<and> with_margin (dsum (map snd (execution_components s i)))
            (dsum (map snd (post_run_components s i))) (ri_margin i) = Inr x
        \<and> est = \<lparr>components = execution_components s i @ post_run_components s i,
             execution_bound_usd = e, post_run_liability_usd = p, monitoring_bound_usd = mon,
             estimate_usd = x, ce_estimator_version = v\<rparr>)"
  by (auto simp: price_run_def Let_def andThen_eq_Inr)

end
