(* ===== verification/Pricing.thy ===== *)
theory Pricing
  imports Estimate
begin

text \<open>
  A complete set of settings with the estimate it gives for a run, evaluated in the logic, and
  the properties of the estimates of \<open>acquisition/apify/budget.py\<close>.
\<close>

section \<open>A worked example\<close>

definition sample_prices :: unit_prices where
  "sample_prices = \<lparr>usd_per_cu = Some (DFin (3 / 10)), dataset_reads_per_1000 = Some (DFin (1 / 1000)),
     dataset_writes_per_1000 = Some (DFin (1 / 200)), dataset_storage_per_gb_hour = Some (DFin (1 / 1000)),
     kv_reads_per_1000 = Some (DFin (1 / 200)), kv_writes_per_1000 = Some (DFin (1 / 20)),
     kv_storage_per_gb_hour = Some (DFin (1 / 1000)), transfer_per_gb = Some (DFin (1 / 5))\<rparr>"

definition sample_settings :: budget_settings where
  "sample_settings = \<lparr>enabled = True, prices = sample_prices, margin = Some (DFin (1 / 4)),
     estimator_version = ''v1'', max_timeout_s = Some 3600, cycle_target_usd = Some (DFin 10),
     operator_allowance_usd = Some (DFin 2), watch_refresh_reserve_usd = Some (DFin 3),
     cash_ceiling_usd = Some (DFin 15), account_margin_setting = None,
     external_liability_usd = Some (DFin 4),
     call_billing_residual_accepted = Some \<lparr>d_year = 2026, d_month = 7, d_day = 1\<rparr>,
     operator_build_bound_usd = Some (DFin (1 / 2)), operator_inspect_max_items = Some 100,
     operator_inspect_max_record_reads = Some 10, operator_inspect_max_bytes = Some 1000000,
     operator_probe_max_calls = Some 5, max_dataset_reads = Some 2, max_kv_reads = Some 2,
     max_delete_attempts = Some 3, max_run_polls = Some 100, max_correction_reads = Some 5,
     max_kv_writes = Some 4, max_kv_bytes = Some 65536, storage_max_lifetime_s = Some 2592000,
     api_call_overhead_bytes = Some 4096, max_api_response_bytes = Some 65536,
     max_dataset_page_bytes = Some 1048576, cycle_boundary_guard_s = Some 1800,
     billing_cycle_anchor = Some \<lparr>d_year = 2026, d_month = 1, d_day = 15, dt_us = 0\<rparr>,
     account_limit_usd = Some (DFin 25), account_base_price_usd = Some (DFin 5),
     account_data_retention_days = Some 14,
     account_verified_on = Some \<lparr>d_year = 2026, d_month = 7, d_day = 1\<rparr>\<rparr>"

definition sample_shape :: run_shape where
  "sample_shape = \<lparr>memory_mb = 1024, timeout_s = 900, max_items = 32, max_requests = 50,
     max_bytes = 2000000, max_item_bytes = 32735\<rparr>"

lemmas budget_eval = budget_consts Let_def cap_def price_def setting_def
  per_op_def transfer_per_byte_def margin_of_def pages_per_read_def page_limit_def storage_hours_def
  api_call_bound_def dataset_page_bound_def actor_fetch_bytes_def request_wire_overhead_def
  dmul_def dadd_def ddiv_def dsub_def dround_num fround_num

definition sample_run_inputs :: run_inputs where
  "sample_run_inputs =
     \<lparr>ri_usd_per_cu = 3 / 10, ri_ds_read = 1 / 1000000,
        ri_ds_write = 1 / 200000, ri_kv_read = 1 / 200000,
        ri_kv_write = 1 / 20000, ri_ds_storage = 1 / 1000,
        ri_kv_storage = 1 / 1000, ri_per_byte = 1 / 5000000000,
        ri_margin = 1 / 4, ri_dataset_reads = 2, ri_kv_reads = 2,
        ri_delete_attempts = 3, ri_run_polls = 100, ri_correction_reads = 5,
        ri_kv_writes = 4, ri_kv_bytes = 65536, ri_pages = 2, ri_hours = 745,
        ri_call = 28169 / 312500000, ri_page = 2312 / 9765625, ri_fetch = 8823936\<rparr>"

lemma sample_inputs: "read_run_inputs sample_shape sample_settings = Inr sample_run_inputs"
  by (simp add: read_run_inputs_def budget_eval sample_settings_def sample_prices_def
      sample_shape_def sample_run_inputs_def)

lemma sample_execution:
  "map snd (execution_components sample_shape sample_run_inputs) = [3 / 40, 9 / 25000, 12667 / 6250000, 0]"
  by (simp add: execution_components_def sample_shape_def sample_run_inputs_def budget_eval)

lemma sample_post_run:
  "map snd (post_run_components sample_shape sample_run_inputs)
     = [39 / 500000, 189 / 200000, 1051791 / 1250000000, 3535371 / 312500000]"
  by (simp add: post_run_components_def sample_shape_def sample_run_inputs_def budget_eval)

lemma sample_sums:
  "dsum [3 / 40, 9 / 25000, 12667 / 6250000, 0] = 483667 / 6250000"
  "dsum [39 / 500000, 189 / 200000, 1051791 / 1250000000, 3535371 / 312500000] = 658881 / 50000000"
  by (simp_all add: dsum_def dadd_def dround_num)

definition sample_estimate :: cost_estimate where
  "sample_estimate =
     \<lparr>components = execution_components sample_shape sample_run_inputs
          @ post_run_components sample_shape sample_run_inputs,
        execution_bound_usd = 387 / 5000, post_run_liability_usd = 33 / 2500,
        monitoring_bound_usd = 1 / 2000, estimate_usd = 1133 / 10000,
        ce_estimator_version = ''v1''\<rparr>"

lemma ceiling_rat_numeral [simp]:
  "\<lceil>numeral a / numeral b :: rat\<rceil> = - (- numeral a div numeral b)"
  using ceiling_divide_eq_div [of "numeral a" "numeral b", where 'a = rat] by simp

lemma sample_usd:
  "usd (483667 / 6250000) = Inr (387 / 5000)" "usd (658881 / 50000000) = Inr (33 / 2500)"
  "usd (dmul (of_int 5) (28169 / 312500000)) = Inr (1 / 2000)"
  "with_margin (483667 / 6250000) (658881 / 50000000) (1 / 4) = Inr (1133 / 10000)"
  by (simp_all add: usd_def with_margin_def dadd_def dmul_def dround_num Let_def)

lemma sample_run_cost: "estimate_run_cost sample_shape sample_settings = Inr sample_estimate"
proof -
  have i: "ri_correction_reads sample_run_inputs = 5" "ri_call sample_run_inputs = 28169 / 312500000"
    "ri_margin sample_run_inputs = 1 / 4" "estimator_version sample_settings = ''v1''"
    by (simp_all add: sample_run_inputs_def sample_settings_def)
  show ?thesis
    unfolding estimate_run_cost_def sample_inputs price_run_def sample_execution sample_post_run
      sample_sums i Let_def andThen_Inr sample_usd sample_estimate_def ..
qed

section \<open>Properties of the estimate\<close>

text \<open>One dataset read of \<open>items\<close> rows takes exactly the pages that hold them, plus the final
  empty page; a full page of rows at their bound fits the page-byte cap with its envelope. The
  page count is computed through a float division and is exact below \<open>2 ^ 53\<close> rows.\<close>
theorem pages_cover_rows:
  assumes "pages_per_read cfg items item_bytes = Inr n" and "0 \<le> items" and "items < 2 ^ 53"
  shows "\<exists>page_bytes l. max_dataset_page_bytes cfg = Some page_bytes
     \<and> page_limit page_bytes item_bytes = Inr l
     \<and> l * item_bytes + DATASET_PAGE_ENVELOPE_BYTES \<le> page_bytes
     \<and> (n - 2) * l < items \<and> items \<le> (n - 1) * l"
proof -
  obtain pc l where pc: "max_dataset_page_bytes cfg = Some pc" and l: "page_limit pc item_bytes = Inr l"
    and n: "n = \<lceil>fround (of_int items / of_int l)\<rceil> + 1"
    using assms(1) by (auto simp: pages_per_read_eq_Inr)
  have l': "1 \<le> l" "0 < item_bytes" "l = (pc - DATASET_PAGE_ENVELOPE_BYTES) div item_bytes"
    using l by (auto simp: page_limit_eq_Inr)
  have q: "n - 1 = \<lceil>of_int items / of_int l :: rat\<rceil>"
    using ceiling_float_quotient [of items l] assms(2,3) l'(1) by (simp add: n)
  have c: "of_int (n - 2) < (of_int items / of_int l :: rat)" "(of_int items / of_int l :: rat) \<le> of_int (n - 1)"
    using ceiling_correct [of "of_int items / of_int l :: rat"] unfolding q [symmetric] by simp_all
  have pos: "0 < (of_int l :: rat)" using l'(1) by simp
  have "of_int ((n - 2) * l) < (of_int items :: rat)" "(of_int items :: rat) \<le> of_int ((n - 1) * l)"
    using c pos by (simp_all add: pos_less_divide_eq pos_divide_le_eq)
  then have "(n - 2) * l < items" "items \<le> (n - 1) * l" by (simp_all only: of_int_less_iff of_int_le_iff)
  moreover have "l * item_bytes \<le> pc - DATASET_PAGE_ENVELOPE_BYTES"
    unfolding l'(3) using div_mult_mod_eq [of "pc - DATASET_PAGE_ENVELOPE_BYTES" item_bytes]
      pos_mod_sign [OF l'(2), of "pc - DATASET_PAGE_ENVELOPE_BYTES"] by linarith
  ultimately show ?thesis using pc l by auto
qed

theorem pages_cover_rows_witness: "\<exists>page_bytes l. max_dataset_page_bytes sample_settings = Some page_bytes
     \<and> page_limit page_bytes 32735 = Inr l
     \<and> l * 32735 + DATASET_PAGE_ENVELOPE_BYTES \<le> page_bytes
     \<and> ((2::int) - 2) * l < 32 \<and> 32 \<le> (2 - 1) * l"
  by (rule pages_cover_rows) (simp_all add: sample_settings_def budget_eval)

lemma admission_usd_ge: "0 \<le> monitoring_bound_usd est \<Longrightarrow> usd x = Inr (estimate_usd est) \<Longrightarrow> estimate_usd est \<le> admission_usd est"
  unfolding admission_usd_def dadd_def by (rule dec.rnd_add_ge) (auto dest: usd_exact)

text \<open>A run estimate never falls below the execution bound and the post-run liability recorded
  beside it, whatever the decimal rounding, none of its parts is negative, and the amount charged
  at admission is at least the estimate.\<close>

theorem estimate_covers_parts:
  assumes "estimate_run_cost shape cfg = Inr est" and "run_shape_ok shape"
  shows "0 \<le> execution_bound_usd est \<and> 0 \<le> post_run_liability_usd est
     \<and> 0 \<le> monitoring_bound_usd est
     \<and> execution_bound_usd est + post_run_liability_usd est \<le> estimate_usd est
     \<and> estimate_usd est \<le> admission_usd est"
proof -
  obtain i where i: "read_run_inputs shape cfg = Inr i"
    and est: "price_run shape i (estimator_version cfg) = Inr est"
    using assms(1) by (auto simp: estimate_run_cost_def andThen_eq_Inr)
  have ok: "run_inputs_ok i" by (rule read_run_inputs_ok [OF i assms(2)])
  have nonneg: "0 \<le> dsum (map snd (execution_components shape i))"
    "0 \<le> dsum (map snd (post_run_components shape i))"
    using components_nonneg [OF ok assms(2)] by auto
  have m: "0 \<le> ri_margin i" "0 \<le> dmul (of_int (ri_correction_reads i)) (ri_call i)"
    using ok by (auto simp: run_inputs_ok_def intro!: dmul_nonneg)
  obtain e p mon x where parts: "usd (dsum (map snd (execution_components shape i))) = Inr e"
      "usd (dsum (map snd (post_run_components shape i))) = Inr p"
      "usd (dmul (of_int (ri_correction_reads i)) (ri_call i)) = Inr mon"
      "with_margin (dsum (map snd (execution_components shape i)))
            (dsum (map snd (post_run_components shape i))) (ri_margin i) = Inr x"
    and eq: "execution_bound_usd est = e" "post_run_liability_usd est = p"
      "monitoring_bound_usd est = mon" "estimate_usd est = x"
    using est by (auto simp: price_run_eq_Inr)
  have "0 \<le> e" "0 \<le> p" "0 \<le> mon" using parts nonneg m(2) by (auto intro: usd_nonneg)
  moreover have "e + p \<le> x" using with_margin_ge_parts [OF parts(1,2) m(1) _ _ parts(4)] calculation by simp
  moreover have "usd (dmul (dadd e p) (dadd 1 (ri_margin i))) = Inr (estimate_usd est)"
    using parts eq(4) by (simp add: with_margin_def)
  ultimately show ?thesis using eq admission_usd_ge [of est] by simp
qed

theorem estimate_covers_parts_witness:
  "0 \<le> execution_bound_usd sample_estimate \<and> 0 \<le> post_run_liability_usd sample_estimate
     \<and> 0 \<le> monitoring_bound_usd sample_estimate
     \<and> execution_bound_usd sample_estimate + post_run_liability_usd sample_estimate \<le> estimate_usd sample_estimate
     \<and> estimate_usd sample_estimate \<le> admission_usd sample_estimate"
  by (rule estimate_covers_parts [OF sample_run_cost]) (simp add: sample_shape_def run_shape_ok_def)

text \<open>Asking for more never costs less: a run shape that is larger in every dimension has a larger or
  equal execution bound, post-run liability and estimate, and the same monitoring allowance.\<close>

theorem estimate_monotone:
  assumes s: "estimate_run_cost s cfg = Inr a" and t: "estimate_run_cost t cfg = Inr b"
    and "run_shape_ok s" and "run_shape_ok t"
    and le: "memory_mb s \<le> memory_mb t" "timeout_s s \<le> timeout_s t" "max_items s \<le> max_items t"
      "max_requests s \<le> max_requests t" "max_bytes s \<le> max_bytes t"
      "max_item_bytes s \<le> max_item_bytes t"
  shows "execution_bound_usd a \<le> execution_bound_usd b
     \<and> post_run_liability_usd a \<le> post_run_liability_usd b
     \<and> monitoring_bound_usd a = monitoring_bound_usd b
     \<and> estimate_usd a \<le> estimate_usd b"
proof -
  have st: "shape_le s t" using le by (simp add: shape_le_def)
  obtain i j where i: "read_run_inputs s cfg = Inr i" "price_run s i (estimator_version cfg) = Inr a"
    and j: "read_run_inputs t cfg = Inr j" "price_run t j (estimator_version cfg) = Inr b"
    using s t by (auto simp: estimate_run_cost_def andThen_eq_Inr)
  have ok: "run_inputs_ok i" by (rule read_run_inputs_ok [OF i(1) assms(3)])
  have ij: "inputs_le i j" by (rule read_run_inputs_mono [OF i(1) j(1) st assms(3)])
  have upd: "j = i\<lparr>ri_pages := ri_pages j, ri_fetch := ri_fetch j\<rparr>"
    using ij unfolding inputs_le_def by blast
  have same: "ri_margin j = ri_margin i" "ri_correction_reads j = ri_correction_reads i" "ri_call j = ri_call i"
    by (subst upd, simp)+
  have "0 \<le> ri_margin i" using ok by (simp add: run_inputs_ok_def)
  note le_sums = dsum_mono [OF execution_components_mono [OF ok ij st assms(3)]]
    dsum_mono [OF post_run_components_mono [OF ok ij st assms(3)]]
    components_nonneg [OF ok assms(3)]
  obtain e p m x where a: "usd (dsum (map snd (execution_components s i))) = Inr e"
      "usd (dsum (map snd (post_run_components s i))) = Inr p"
      "usd (dmul (of_int (ri_correction_reads i)) (ri_call i)) = Inr m"
      "with_margin (dsum (map snd (execution_components s i)))
            (dsum (map snd (post_run_components s i))) (ri_margin i) = Inr x"
    and a': "execution_bound_usd a = e" "post_run_liability_usd a = p"
      "monitoring_bound_usd a = m" "estimate_usd a = x"
    using i(2) by (auto simp: price_run_eq_Inr)
  obtain e' p' x' where b: "usd (dsum (map snd (execution_components t j))) = Inr e'"
      "usd (dsum (map snd (post_run_components t j))) = Inr p'"
      "with_margin (dsum (map snd (execution_components t j)))
            (dsum (map snd (post_run_components t j))) (ri_margin i) = Inr x'"
    and b': "execution_bound_usd b = e'" "post_run_liability_usd b = p'"
      "monitoring_bound_usd b = m" "estimate_usd b = x'"
    using j(2) a(3) by (auto simp: price_run_eq_Inr same)
  show ?thesis
    unfolding a' b'
    using usd_mono [OF a(1) b(1) le_sums(1)] usd_mono [OF a(2) b(2) le_sums(2)]
      with_margin_mono [OF a(4) b(3) \<open>0 \<le> ri_margin i\<close> le_sums(3,1,4,2)]
    by simp
qed

definition sample_estimate_2 :: cost_estimate where
  "sample_estimate_2 =
     \<lparr>components = execution_components (sample_shape\<lparr>memory_mb := 2048\<rparr>) sample_run_inputs
          @ post_run_components (sample_shape\<lparr>memory_mb := 2048\<rparr>) sample_run_inputs,
        execution_bound_usd = 1524 / 10000, post_run_liability_usd = 33 / 2500,
        monitoring_bound_usd = 1 / 2000, estimate_usd = 207 / 1000,
        ce_estimator_version = ''v1''\<rparr>"

lemma sample_inputs_2:
  "read_run_inputs (sample_shape\<lparr>memory_mb := 2048\<rparr>) sample_settings = Inr sample_run_inputs"
  using sample_inputs by (simp add: read_run_inputs_def)

lemma sample_post_run_2:
  "post_run_components (sample_shape\<lparr>memory_mb := 2048\<rparr>) sample_run_inputs
     = post_run_components sample_shape sample_run_inputs"
  by (simp add: post_run_components_def)

lemma sample_execution_2:
  "map snd (execution_components (sample_shape\<lparr>memory_mb := 2048\<rparr>) sample_run_inputs)
     = [3 / 20, 9 / 25000, 12667 / 6250000, 0]"
  by (simp add: execution_components_def sample_shape_def sample_run_inputs_def budget_eval)

lemma sample_sums_2:
  "dsum [3 / 20, 9 / 25000, 12667 / 6250000, 0] = 952417 / 6250000"
  "usd (952417 / 6250000) = Inr (1524 / 10000)"
  "with_margin (952417 / 6250000) (658881 / 50000000) (1 / 4) = Inr (207 / 1000)"
  by (simp_all add: dsum_def usd_def with_margin_def dadd_def dmul_def dround_num Let_def)

lemma sample_run_cost_2:
  "estimate_run_cost (sample_shape\<lparr>memory_mb := 2048\<rparr>) sample_settings = Inr sample_estimate_2"
proof -
  have i: "ri_correction_reads sample_run_inputs = 5" "ri_call sample_run_inputs = 28169 / 312500000"
    "ri_margin sample_run_inputs = 1 / 4" "estimator_version sample_settings = ''v1''"
    by (simp_all add: sample_run_inputs_def sample_settings_def)
  show ?thesis
    unfolding estimate_run_cost_def sample_inputs_2 price_run_def sample_execution_2 sample_post_run_2
      sample_post_run sample_sums sample_sums_2 i Let_def andThen_Inr sample_usd sample_estimate_2_def ..
qed

theorem estimate_monotone_witness:
  "estimate_usd sample_estimate \<le> estimate_usd sample_estimate_2"
  using estimate_monotone [OF sample_run_cost sample_run_cost_2] by (simp add: sample_shape_def run_shape_ok_def)

text \<open>An operator envelope settles at the largest of its estimate and every observed cost, so a
  settlement never falls below what was reserved or seen.\<close>

theorem settle_envelope_max:
  "settle_envelope est observed = Max (set (estimate_usd est # observed))"
proof -
  have flip: "(\<lambda>x s. max s x) = (max :: rat \<Rightarrow> rat \<Rightarrow> rat)" by (simp add: fun_eq_iff max.commute)
  show ?thesis unfolding settle_envelope_def Max.set_eq_fold foldl_conv_fold flip ..
qed

lemma envelope_components_nonneg:
  assumes "envelope_components kind cfg call per_byte = Inr comps" and "0 \<le> call" and "0 \<le> per_byte"
  shows "0 \<le> dsum (map snd comps)"
  using assms
  by (auto simp: envelope_components_def andThen_eq_Inr cap_eq_Inr price_eq_Inr budget_consts
      dest!: per_op_nonneg storage_hours_nonneg split: if_splits
      intro!: dsum_nonneg dmul_nonneg dadd_nonneg ddiv_nonneg)

text \<open>An operator estimate covers its execution bound: building settles at the bound itself, inspecting
  and probing carry the margin; the admission charge is never below the estimate.\<close>

theorem operator_estimate_covers:
  assumes "estimate_operator_cost kind cfg = Inr est"
  shows "0 \<le> execution_bound_usd est \<and> execution_bound_usd est \<le> estimate_usd est
     \<and> estimate_usd est \<le> admission_usd est
     \<and> (kind = BUILD \<longrightarrow> estimate_usd est = execution_bound_usd est)"
proof -
  obtain call per_byte where call: "api_call_bound cfg = Inr call" and pb: "transfer_per_byte cfg = Inr per_byte"
    and rest: "(if kind = BUILD then build_estimate cfg call
      else andThen (margin_of cfg) (\<lambda>m. andThen (envelope_components kind cfg call per_byte) (\<lambda>comps.
       let envelope = dsum (map snd comps) in
       andThen (usd envelope) (\<lambda>e. andThen (with_margin envelope 0 m) (\<lambda>est.
       Inr \<lparr>components = comps, execution_bound_usd = e, post_run_liability_usd = 0,
            monitoring_bound_usd = 0, estimate_usd = est,
            ce_estimator_version = estimator_version cfg\<rparr>))))) = Inr est"
    using assms unfolding estimate_operator_cost_def andThen_eq_Inr by blast
  have nonneg: "0 \<le> call" "0 \<le> per_byte"
    using call pb by (auto intro: api_call_bound_nonneg transfer_per_byte_nonneg)
  show ?thesis
  proof (cases "kind = BUILD")
    case True
    with rest have "build_estimate cfg call = Inr est" by simp
    then obtain bound polls corrections e mon where
      parts: "0 \<le> bound" "0 \<le> polls" "0 \<le> corrections"
      "usd (dadd bound (dmul (of_int polls) call)) = Inr e"
      "usd (dmul (of_int corrections) call) = Inr mon"
      and eq: "execution_bound_usd est = e" "monitoring_bound_usd est = mon" "estimate_usd est = e"
      by (auto simp: build_estimate_def Let_def andThen_eq_Inr checked_decimal_eq_Inr cap_eq_Inr)
    have "0 \<le> e" "0 \<le> mon"
      using parts nonneg by (auto intro!: usd_nonneg [OF parts(4)] usd_nonneg [OF parts(5)] dadd_nonneg dmul_nonneg)
    then show ?thesis using admission_usd_ge [of est] parts(4) eq by simp
  next
    case False
    with rest obtain m comps e x where
      parts: "margin_of cfg = Inr m" "envelope_components kind cfg call per_byte = Inr comps"
      "usd (dsum (map snd comps)) = Inr e" "with_margin (dsum (map snd comps)) 0 m = Inr x"
      and eq: "execution_bound_usd est = e" "monitoring_bound_usd est = 0" "estimate_usd est = x"
      unfolding Let_def by (auto simp: andThen_eq_Inr)
    have m: "0 \<le> m" using parts(1) by (simp add: margin_of_def checked_decimal_eq_Inr)
    have "0 \<le> dsum (map snd comps)"
      by (rule envelope_components_nonneg [OF parts(2) nonneg])
    then have e: "0 \<le> e" using parts(3) by (rule usd_nonneg [rotated])
    have zero: "usd 0 = Inr 0" by (simp add: usd_def)
    have "e \<le> x" using with_margin_ge_parts [OF parts(3) zero m e _ parts(4)] by simp
    moreover have "usd (dmul (dadd e 0) (dadd 1 m)) = Inr x"
      using parts(3,4) by (simp add: with_margin_def zero)
    ultimately show ?thesis using e False admission_usd_ge [of est] eq by simp
  qed
qed

theorem operator_estimate_covers_witness:
  "\<exists>est. estimate_operator_cost BUILD sample_settings = Inr est \<and> execution_bound_usd est \<le> estimate_usd est"
proof -
  have call: "api_call_bound sample_settings = Inr (28169 / 312500000)"
    "transfer_per_byte sample_settings = Inr (1 / 5000000000)"
    by (simp_all add: budget_eval sample_settings_def sample_prices_def)
  have caps: "checked_decimal (operator_build_bound_usd sample_settings) r x = Inr (1 / 2)"
    "cap (max_run_polls sample_settings) x 0 = Inr 100" "cap (max_correction_reads sample_settings) x 0 = Inr 5" for r x
    by (simp_all add: sample_settings_def budget_eval)
  have execution: "dadd (1 / 2) (dmul (of_int 100) (28169 / 312500000)) = 1590669 / 3125000"
    by (simp add: dadd_def dmul_def dround_num)
  have "usd (dadd (1 / 2) (dmul (of_int 100) (28169 / 312500000))) = Inr (5091 / 10000)"
    unfolding execution by (simp add: usd_def dround_num Let_def)
  then obtain est where est: "estimate_operator_cost BUILD sample_settings = Inr est"
    using call caps sample_usd(3) by (simp add: estimate_operator_cost_def build_estimate_def Let_def)
  show ?thesis using operator_estimate_covers [OF est] est by blast
qed


end
