(* ===== verification/Cycle.thy ===== *)
theory Cycle
  imports Budget
begin

text \<open>
  The billing cycle of \<open>acquisition/apify/budget.py\<close> (\<open>_cycle_start\<close>,
  \<open>billing_cycle_bounds\<close>): derived from the operator-verified anchor alone, month by month.
  The \<open>datetime\<close> constructor raises \<open>ValueError\<close> past the year 9999.
\<close>

definition CYCLE_END_EPSILON :: timedelta where "CYCLE_END_EPSILON = milliseconds 1"

definition cycle_start :: "pydatetime \<Rightarrow> int \<Rightarrow> budget_error + instant" where
  "cycle_start anchor k =
     (let months = d_month anchor - 1 + k in
      case midnight (d_year anchor + months div 12) (months mod 12 + 1) (d_day anchor) of
        None \<Rightarrow> Inl ValueError
      | Some t \<Rightarrow> Inr (instant_of t))"

definition billing_cycle_bounds ::
  "pydatetime \<Rightarrow> pydatetime \<Rightarrow> budget_error + (instant \<times> instant) option" where
  "billing_cycle_bounds anchor now =
     (if instant_of now < instant_of anchor then Inr None
      else let k = 12 * (d_year now - d_year anchor) + (d_month now - d_month anchor) in
        andThen (cycle_start anchor k) (\<lambda>start_k.
        let k = (if instant_of now < start_k then k - 1 else k) in
        andThen (cycle_start anchor k) (\<lambda>start.
        andThen (cycle_start anchor (k + 1)) (\<lambda>next.
        Inr (Some (start, next - CYCLE_END_EPSILON))))))"

text \<open>
  What \<open>settings._env_cycle_anchor\<close> lets through: UTC midnight on a day every month has.
\<close>

definition anchor_ok :: "pydatetime \<Rightarrow> bool" where
  "anchor_ok a \<longleftrightarrow> valid_datetime a \<and> dt_us a = 0 \<and> d_day a \<le> 28"

section \<open>Where a cycle starts\<close>

lemma cycle_start_eq_Inr:
  assumes "cycle_start anchor k = Inr s"
  shows "s = (month_start (month_index anchor + k) + d_day anchor) * usec_per_day"
proof -
  let ?m = "d_month anchor - 1 + k"
  from assms obtain t
    where t: "midnight (d_year anchor + ?m div 12) (?m mod 12 + 1) (d_day anchor) = Some t"
      and s: "s = instant_of t"
    by (auto simp: cycle_start_def Let_def split: option.splits)
  have v: "t = \<lparr>d_year = d_year anchor + ?m div 12, d_month = ?m mod 12 + 1,
      d_day = d_day anchor, dt_us = 0\<rparr>" "valid_date t"
    using midnight_Some [OF t] by auto
  have "month_index t = 12 * (d_year anchor + ?m div 12) + ?m mod 12"
    by (simp add: v(1) month_index_def)
  also have "\<dots> = month_index anchor + k"
    using div_mult_mod_eq [of ?m 12] by (simp add: month_index_def algebra_simps)
  finally have "toordinal t = month_start (month_index anchor + k) + d_day anchor"
    using valid_date_month(1) [OF v(2)] v(1) by simp
  then show ?thesis by (simp add: s instant_of_def v(1))
qed

text \<open>Consecutive starts are one month of days apart, never more than 31.\<close>

lemma cycle_start_step:
  assumes "cycle_start anchor k = Inr s" and "cycle_start anchor (k + 1) = Inr s'"
  shows "s' = s + month_length (month_index anchor + k) * usec_per_day"
  using month_start_Suc [of "month_index anchor + k"]
  by (simp add: cycle_start_eq_Inr [OF assms(1)] cycle_start_eq_Inr [OF assms(2)] algebra_simps)

lemma cycle_length:
  assumes "cycle_start anchor k = Inr s" and "cycle_start anchor (k + 1) = Inr s'"
  shows "28 * usec_per_day \<le> s' - s" and "s' - s \<le> 31 * usec_per_day"
  using month_length_bounds [of "month_index anchor + k"]
  by (auto simp: cycle_start_step [OF assms] usec_per_day_def)

text \<open>
  With a day every month has, the cycle numbered by the month of \<open>now\<close> either starts at or
  before \<open>now\<close>, or the cycle before it does; in both cases the next one starts later.
\<close>

lemma month_offset:
  "12 * (d_year now - d_year anchor) + (d_month now - d_month anchor)
     = month_index now - month_index anchor"
  by (simp add: month_index_def)

lemma start_after_month:
  assumes "valid_datetime now" and "1 \<le> day"
    and "month_index now < n"
  shows "instant_of now < (month_start n + day) * usec_per_day"
proof -
  have d: "d_day now \<le> month_length (month_index now)"
    using valid_date_month(3) [of now] assms(1) by (simp add: valid_datetime_def)
  have "month_start (month_index now) + d_day now + 1 \<le> month_start n + day"
    using month_start_less [OF assms(3)] d assms(2) by simp
  then have "(month_start (month_index now) + d_day now + 1) * usec_per_day
      \<le> (month_start n + day) * usec_per_day"
    by (rule mult_right_mono) (simp add: usec_per_day_def)
  with instant_in_month(2) [OF assms(1)] show ?thesis by linarith
qed

lemma start_before_month:
  assumes "valid_datetime now" and "day \<le> 28" and "n < month_index now"
  shows "(month_start n + day) * usec_per_day \<le> instant_of now"
proof -
  have d: "1 \<le> d_day now"
    using valid_date_month(2) [of now] assms(1) by (simp add: valid_datetime_def)
  have "month_start n + day \<le> month_start (month_index now) + d_day now"
    using month_start_less [OF assms(3)] month_length_bounds(1) [of n] d assms(2) by simp
  then have "(month_start n + day) * usec_per_day
      \<le> (month_start (month_index now) + d_day now) * usec_per_day"
    by (rule mult_right_mono) (simp add: usec_per_day_def)
  with instant_in_month(1) [OF assms(1)] show ?thesis by linarith
qed

section \<open>The bounds\<close>

lemma billing_cycle_boundsE:
  assumes "billing_cycle_bounds anchor now = Inr (Some (s, e))"
  obtains k where "instant_of anchor \<le> instant_of now"
    and "cycle_start anchor k = Inr s" and "cycle_start anchor (k + 1) = Inr (e + CYCLE_END_EPSILON)"
    and "(k = month_index now - month_index anchor \<and> s \<le> instant_of now) \<or>
         (k = month_index now - month_index anchor - 1
          \<and> (\<exists>t. cycle_start anchor (k + 1) = Inr t \<and> instant_of now < t))"
proof -
  let ?k = "month_index now - month_index anchor"
  from assms have ge: "instant_of anchor \<le> instant_of now"
    by (auto simp: billing_cycle_bounds_def Let_def split: if_splits)
  from assms ge obtain sk where sk: "cycle_start anchor ?k = Inr sk"
    and s: "cycle_start anchor (if instant_of now < sk then ?k - 1 else ?k) = Inr s"
    and e: "cycle_start anchor ((if instant_of now < sk then ?k - 1 else ?k) + 1)
      = Inr (e + CYCLE_END_EPSILON)"
    unfolding billing_cycle_bounds_def Let_def month_offset by (auto simp: andThen_eq_Inr)
  show thesis
  proof (cases "instant_of now < sk")
    case True
    then show thesis using that [of "?k - 1"] ge s e sk by simp
  next
    case False
    then show thesis using that [of ?k] ge s e sk by simp
  qed
qed

lemma billing_cycle_contains:
  assumes a: "anchor_ok anchor" and n: "valid_datetime now"
    and b: "billing_cycle_bounds anchor now = Inr (Some (s, e))"
  shows "s \<le> instant_of now \<and> instant_of now < e + CYCLE_END_EPSILON"
proof -
  let ?i = "month_index now"
  obtain k where st: "cycle_start anchor k = Inr s" "cycle_start anchor (k + 1) = Inr (e + CYCLE_END_EPSILON)"
    and k: "(k = ?i - month_index anchor \<and> s \<le> instant_of now) \<or>
         (k = ?i - month_index anchor - 1
          \<and> (\<exists>t. cycle_start anchor (k + 1) = Inr t \<and> instant_of now < t))"
    by (rule billing_cycle_boundsE [OF b])
  have day: "d_day anchor \<le> 28" "1 \<le> d_day anchor"
    using a by (auto simp: anchor_ok_def valid_datetime_def valid_date_def)
  from k show ?thesis
  proof (elim disjE conjE exE)
    assume k: "k = ?i - month_index anchor" and le: "s \<le> instant_of now"
    have "e + CYCLE_END_EPSILON = (month_start (?i + 1) + d_day anchor) * usec_per_day"
      using cycle_start_eq_Inr [OF st(2)] by (simp add: k)
    then show ?thesis using start_after_month [OF n day(2), of "?i + 1"] le by simp
  next
    fix t
    assume k: "k = ?i - month_index anchor - 1"
      and t: "cycle_start anchor (k + 1) = Inr t" "instant_of now < t"
    have "s = (month_start (?i - 1) + d_day anchor) * usec_per_day"
      using cycle_start_eq_Inr [OF st(1)] by (simp add: k)
    then show ?thesis using start_before_month [OF n day(1), of "?i - 1"] t st(2) by simp
  qed
qed

text \<open>The derived cycle is never longer than the 744 hours the storage price assumes.\<close>

lemma billing_cycle_length:
  assumes "billing_cycle_bounds anchor now = Inr (Some (s, e))"
  shows "e - s \<le> hours FULL_CYCLE_HOURS" and "s < e"
proof -
  obtain k where "cycle_start anchor k = Inr s" "cycle_start anchor (k + 1) = Inr (e + CYCLE_END_EPSILON)"
    by (rule billing_cycle_boundsE [OF assms])
  from cycle_length [OF this] show "e - s \<le> hours FULL_CYCLE_HOURS" "s < e"
    by (auto simp: CYCLE_END_EPSILON_def timedelta_defs FULL_CYCLE_HOURS_def)
qed

text \<open>Cycles that overlap are equal: the cycle starts of one anchor are strictly ordered.\<close>

lemma cycle_start_less:
  assumes "cycle_start anchor j = Inr s" and "cycle_start anchor k = Inr t"
  shows "s < t \<longleftrightarrow> j < k"
proof -
  have less: "s < t" if "cycle_start anchor j = Inr s" "cycle_start anchor k = Inr t" "j < k" for j k s t
  proof -
    have "month_start (month_index anchor + j) < month_start (month_index anchor + k)"
      using month_start_less [of "month_index anchor + j" "month_index anchor + k"] that(3)
        month_length_bounds(1) [of "month_index anchor + j"] by simp
    then show ?thesis
      by (simp add: cycle_start_eq_Inr [OF that(1)] cycle_start_eq_Inr [OF that(2)] usec_per_day_def)
  qed
  show ?thesis
    using less [OF assms] less [OF assms(2,1)] assms by (cases j k rule: linorder_cases) auto
qed

lemma billing_cycle_unique:
  assumes a: "anchor_ok anchor" and n: "valid_datetime now" "valid_datetime now'"
    and b: "billing_cycle_bounds anchor now = Inr (Some (s, e))"
    and b': "billing_cycle_bounds anchor now' = Inr (Some (s', e'))"
    and le: "s \<le> instant_of now'" "instant_of now' < e + CYCLE_END_EPSILON"
  shows "s' = s \<and> e' = e"
proof -
  obtain j where j: "cycle_start anchor j = Inr s" "cycle_start anchor (j + 1) = Inr (e + CYCLE_END_EPSILON)"
    by (rule billing_cycle_boundsE [OF b])
  obtain k where k: "cycle_start anchor k = Inr s'" "cycle_start anchor (k + 1) = Inr (e' + CYCLE_END_EPSILON)"
    by (rule billing_cycle_boundsE [OF b'])
  have in': "s' \<le> instant_of now'" "instant_of now' < e' + CYCLE_END_EPSILON"
    using billing_cycle_contains [OF a n(2) b'] by auto
  have "s' < e + CYCLE_END_EPSILON" "s < e' + CYCLE_END_EPSILON" using le in' by linarith+
  then have "k < j + 1" "j < k + 1"
    using cycle_start_less [OF k(1) j(2)] cycle_start_less [OF j(1) k(2)] by auto
  then have "k = j" by simp
  with j k show ?thesis by simp
qed

end
