(* ===== verification/Admission.thy ===== *)
theory Admission
  imports Estimate Cycle
begin

text \<open>
  The second half of \<open>acquisition/apify/budget.py\<close>: the allocation, the account-setting
  contract and \<open>decide_admission\<close>, one paid request against a ledger state. The lemmas
  say what an admission guarantees (the class caps and the external-liability bound) and
  which raised exceptions the function lets through.
\<close>

section \<open>Allocation and account settings\<close>

definition project_allocation :: "budget_settings \<Rightarrow> budget_error + rat" where
  "project_allocation cfg =
     andThen (setting (cycle_target_usd cfg) ''CYCLE_TARGET_USD'') (\<lambda>target.
     andThen (raise_if (MAX_CYCLE_TARGET_USD < target)
       (BudgetDenied BUDGET_SETTING_INVALID ''CYCLE_TARGET_USD'')) (\<lambda>_.
     andThen (setting (operator_allowance_usd cfg) ''OPERATOR_ALLOWANCE_USD'') (\<lambda>allowance.
     andThen (raise_if (target < allowance)
       (BudgetDenied BUDGET_SETTING_INVALID ''OPERATOR_ALLOWANCE_USD'')) (\<lambda>_.
     Inr (dsub target allowance)))))"

definition account_margin_usd :: "budget_settings \<Rightarrow> rat \<Rightarrow> budget_error + rat" where
  "account_margin_usd cfg limit_usd =
     (case account_margin_setting cfg of
        None \<Rightarrow> Inr (dmul limit_usd DEFAULT_ACCOUNT_MARGIN_FRACTION)
      | Some m \<Rightarrow> setting (Some m) ''ACCOUNT_MARGIN_USD'')"

fun bad_money :: "decimal option \<Rightarrow> bool \<Rightarrow> bool" where
  "bad_money (Some (DFin v)) positive = (if positive then v \<le> 0 else v < 0)"
| "bad_money _ positive = True"

text \<open>The first invalid account setting, in contract order, with the denial it causes.\<close>

definition account_setting_problem ::
  "budget_settings \<Rightarrow> pydatetime \<Rightarrow> (string \<times> denial_reason) option" where
  "account_setting_problem cfg now =
     (case billing_cycle_anchor cfg of
        None \<Rightarrow> Some (''BILLING_CYCLE_ANCHOR'', CYCLE_UNKNOWN)
      | Some anchor \<Rightarrow>
          if bad_money (account_limit_usd cfg) True
            then Some (''ACCOUNT_LIMIT_USD'', ACCOUNT_STATE_UNOBSERVABLE)
          else if bad_money (account_base_price_usd cfg) False
            then Some (''ACCOUNT_BASE_PRICE_USD'', ACCOUNT_STATE_UNOBSERVABLE)
          else if (case account_data_retention_days cfg of None \<Rightarrow> True | Some d \<Rightarrow> d < 1)
            then Some (''ACCOUNT_DATA_RETENTION_DAYS'', ACCOUNT_STATE_UNOBSERVABLE)
          else if (case account_verified_on cfg of
                     None \<Rightarrow> True | Some v \<Rightarrow> date_less now v \<or> date_less v anchor)
            then Some (''ACCOUNT_VERIFIED_ON'', ACCOUNT_STATE_UNOBSERVABLE)
          else if account_margin_setting cfg \<noteq> None \<and> bad_money (account_margin_setting cfg) False
            then Some (''ACCOUNT_MARGIN_USD'', BUDGET_SETTING_INVALID)
          else None)"

definition trailing_window_warning :: "rat \<Rightarrow> budget_settings \<Rightarrow> budget_error + bool" where
  "trailing_window_warning trailing_31d cfg =
     andThen (project_allocation cfg) (\<lambda>a. Inr (a < trailing_31d))"

section \<open>Requests and ledger state\<close>

record account_snapshot =
  snap_cycle_start :: "instant option"
  snap_cycle_end :: "instant option"
  snap_account_limit_usd :: "decimal option"
  snap_base_price_usd :: "decimal option"
  snap_data_retention_days :: "int option"
  snap_verified_on :: "pydate option"

record cycle_debits =
  runtime_committed_usd :: rat
  operator_committed_usd :: rat
  carried_handoff_usd :: rat
  trailing_31d_usd :: rat

definition no_debits :: cycle_debits where
  "no_debits = \<lparr>runtime_committed_usd = 0, operator_committed_usd = 0,
     carried_handoff_usd = 0, trailing_31d_usd = 0\<rparr>"

record ledger_state =
  lst_now :: pydatetime
  latch_tripped_flag :: bool
  authority_held :: bool
  snapshot :: "account_snapshot option"
  current_debits :: cycle_debits
  next_cycle :: "cycle_debits option"

record admission_request =
  req_class :: budget_class
  req_run :: "run_shape option"
  req_operator_kind :: "operator_kind option"

text \<open>\<open>AdmissionRequest.__post_init__\<close>.\<close>

definition mk_admission_request :: "admission_request \<Rightarrow> budget_error + admission_request" where
  "mk_admission_request r =
     (let is_operator = (req_class r = OPERATOR) in
      if is_operator \<noteq> (req_operator_kind r \<noteq> None) \<or> is_operator = (req_run r \<noteq> None)
      then Inl ValueError else Inr r)"

definition request_ok :: "admission_request \<Rightarrow> bool" where
  "request_ok r \<longleftrightarrow>
     (req_class r = OPERATOR \<longleftrightarrow> req_operator_kind r \<noteq> None)
     \<and> (req_class r = OPERATOR \<longleftrightarrow> req_run r = None)
     \<and> (case req_run r of None \<Rightarrow> True | Some s \<Rightarrow> run_shape_ok s)"

record decision =
  admitted :: bool
  denied_for :: "denial_reason option"
  decision_estimate :: "cost_estimate option"

definition hr_cycle :: "cycle_debits \<Rightarrow> rat" where
  "hr_cycle d = dadd (dadd (runtime_committed_usd d) (operator_committed_usd d)) (carried_handoff_usd d)"

definition deny :: "denial_reason \<Rightarrow> cost_estimate option \<Rightarrow> budget_error + decision" where
  "deny reason est = Inr \<lparr>admitted = False, denied_for = Some reason, decision_estimate = est\<rparr>"

section \<open>The decision\<close>

text \<open>
  The settings part, under the \<open>try\<close>: the allocation, the watch-refresh reserve, the cash
  ceiling, the estimate of the request, the storage lifetime.
\<close>

definition decision_inputs ::
  "admission_request \<Rightarrow> budget_settings \<Rightarrow> budget_error + rat \<times> rat \<times> rat \<times> cost_estimate \<times> int" where
  "decision_inputs request cfg =
     andThen (project_allocation cfg) (\<lambda>allocation.
     andThen (setting (watch_refresh_reserve_usd cfg) ''WATCH_REFRESH_RESERVE_USD'') (\<lambda>reserve.
     andThen (raise_if (allocation < reserve)
       (BudgetDenied BUDGET_SETTING_INVALID ''WATCH_REFRESH_RESERVE_USD'')) (\<lambda>_.
     andThen (setting (cash_ceiling_usd cfg) ''CASH_CEILING_USD'') (\<lambda>cash_cap.
     andThen (case req_run request of
         Some run \<Rightarrow> estimate_run_cost run cfg
       | None \<Rightarrow> (case req_operator_kind request of
           Some kind \<Rightarrow> estimate_operator_cost kind cfg
         | None \<Rightarrow> Inl AssertionError)) (\<lambda>est.
     andThen (cap (storage_max_lifetime_s cfg) ''STORAGE_MAX_LIFETIME'' 1) (\<lambda>lifetime_s.
     Inr (allocation, reserve, cash_cap, est, lifetime_s)))))))"

definition finite_setting :: "decimal option \<Rightarrow> budget_error + rat" where
  "finite_setting v =
     (case v of None \<Rightarrow> Inl AssertionError
      | Some (DFin x) \<Rightarrow> Inr x
      | Some _ \<Rightarrow> Inl InvalidOperation)"

text \<open>The class cap: the operator allowance, A for watch refresh, A minus the reserve for discovery.\<close>

definition class_denial ::
  "admission_request \<Rightarrow> budget_settings \<Rightarrow> cycle_debits \<Rightarrow> rat \<Rightarrow> rat \<Rightarrow> rat
     \<Rightarrow> budget_error + denial_reason option" where
  "class_denial request cfg debits new allocation reserve =
     (if req_class request = OPERATOR then
        andThen (setting (operator_allowance_usd cfg) ''OPERATOR_ALLOWANCE_USD'') (\<lambda>allowance.
          Inr (if allowance < dadd (operator_committed_usd debits) new
               then Some OPERATOR_ALLOWANCE_EXHAUSTED else None))
      else
        (let class_cap = (if req_class request = WATCH_REFRESH then allocation else dsub allocation reserve);
             runtime = dadd (runtime_committed_usd debits) (carried_handoff_usd debits)
         in Inr (if class_cap < dadd runtime new then Some CLASS_CAP else None)))"

definition headroom_exceeded :: "cycle_debits option \<Rightarrow> rat \<Rightarrow> rat \<Rightarrow> rat \<Rightarrow> bool" where
  "headroom_exceeded debits new external usable =
     (case debits of None \<Rightarrow> False
      | Some d \<Rightarrow> usable < dadd (dadd (hr_cycle d) new) external)"

text \<open>The money checks, once the cycle and every setting have their values.\<close>

definition decide_money ::
  "admission_request \<Rightarrow> budget_settings \<Rightarrow> ledger_state \<Rightarrow> rat \<Rightarrow> rat
     \<Rightarrow> rat \<times> rat \<times> rat \<times> cost_estimate \<times> int \<Rightarrow> budget_error + decision" where
  "decide_money request cfg ledger external limit = (\<lambda>(allocation, reserve, cash_cap, est, lifetime_s).
     andThen (account_margin_usd cfg limit) (\<lambda>acct_margin.
       let usable = dsub limit acct_margin;
           debits = current_debits ledger;
           new = admission_usd est in
       andThen (class_denial request cfg debits new allocation reserve) (\<lambda>class_stop.
       case class_stop of
         Some reason \<Rightarrow> deny reason (Some est)
       | None \<Rightarrow>
           if headroom_exceeded (Some debits) new external usable
             \<or> headroom_exceeded (next_cycle ledger) new external usable
           then deny ACCOUNT_HEADROOM (Some est)
           else Inr \<lparr>admitted = True, denied_for = None, decision_estimate = Some est\<rparr>)))"

text \<open>The guards that compare the account settings with the cycle and with each other.\<close>

definition decide_in_cycle ::
  "admission_request \<Rightarrow> budget_settings \<Rightarrow> ledger_state \<Rightarrow> rat \<Rightarrow> timedelta
     \<Rightarrow> rat \<times> rat \<times> rat \<times> cost_estimate \<times> int \<Rightarrow> budget_error + decision" where
  "decide_in_cycle request cfg ledger external cycle_len =
     (\<lambda>(allocation, reserve, cash_cap, est, lifetime_s).
     case account_setting_problem cfg (lst_now ledger) of
       Some problem \<Rightarrow> deny (snd problem) (Some est)
     | None \<Rightarrow>
       andThen (finite_setting (account_limit_usd cfg)) (\<lambda>limit.
       andThen (finite_setting (account_base_price_usd cfg)) (\<lambda>base_price.
       case account_data_retention_days cfg of
         None \<Rightarrow> Inl AssertionError
       | Some retention_days \<Rightarrow>
         if lifetime_s < retention_days * 86400 then deny UNBOUNDED_COMPONENT (Some est)
         else if hours FULL_CYCLE_HOURS < cycle_len then deny UNBOUNDED_COMPONENT (Some est)
         else if cash_cap < base_price then deny CASH_CEILING_EXCEEDED_BY_PLAN (Some est)
         else decide_money request cfg ledger external limit
           (allocation, reserve, cash_cap, est, lifetime_s))))"

text \<open>The checks against the ledger state.\<close>

definition decide_on_state ::
  "admission_request \<Rightarrow> budget_settings \<Rightarrow> ledger_state \<Rightarrow> rat
     \<Rightarrow> rat \<times> rat \<times> rat \<times> cost_estimate \<times> int \<Rightarrow> budget_error + decision" where
  "decide_on_state request cfg ledger external = (\<lambda>(allocation, reserve, cash_cap, est, lifetime_s).
     if \<not> authority_held ledger then deny LEDGER_AUTHORITY_MISSING (Some est)
     else case snapshot ledger of
       None \<Rightarrow> deny CYCLE_UNKNOWN (Some est)
     | Some snap \<Rightarrow>
       (case snap_cycle_start snap of
          None \<Rightarrow> deny CYCLE_UNKNOWN (Some est)
        | Some cs \<Rightarrow>
          (case snap_cycle_end snap of
             None \<Rightarrow> deny CYCLE_UNKNOWN (Some est)
           | Some ce \<Rightarrow>
               if \<not> (cs \<le> instant_of (lst_now ledger) \<and> instant_of (lst_now ledger) \<le> ce)
               then deny CYCLE_UNKNOWN (Some est)
               else decide_in_cycle request cfg ledger external (ce - cs)
                 (allocation, reserve, cash_cap, est, lifetime_s))))"

text \<open>The external-liability setting as the code reads it: set, finite and not negative.\<close>

definition external_ok :: "decimal option \<Rightarrow> rat option" where
  "external_ok v = (case v of Some (DFin x) \<Rightarrow> if x < 0 then None else Some x | _ \<Rightarrow> None)"

definition decide_admission ::
  "admission_request \<Rightarrow> budget_settings \<Rightarrow> ledger_state \<Rightarrow> budget_error + decision" where
  "decide_admission request cfg ledger =
     (if \<not> enabled cfg then deny APIFY_DISABLED None
      else if latch_tripped_flag ledger then deny OVERRUN_LATCH None
      else if call_billing_residual_accepted cfg = None
        then deny CALL_BILLING_RESIDUAL_UNACCEPTED None
      else case external_ok (external_liability_usd cfg) of
        None \<Rightarrow> deny EXTERNAL_LIABILITY_UNBOUNDED None
      | Some external \<Rightarrow>
        (case decision_inputs request cfg of
           Inl (BudgetDenied reason _) \<Rightarrow> deny reason None
         | Inl e \<Rightarrow> Inl e
         | Inr inputs \<Rightarrow> decide_on_state request cfg ledger external inputs))"

section \<open>What the decision guarantees\<close>

lemma deny_not_admitted: "deny r e = Inr d \<Longrightarrow> \<not> admitted d"
  by (auto simp: deny_def)

lemma external_ok_eq_Some: "external_ok v = Some x \<longleftrightarrow> v = Some (DFin x) \<and> 0 \<le> x"
  by (auto simp: external_ok_def split: option.splits decimal.splits if_splits)

lemma decide_admissionE:
  assumes "decide_admission request cfg ledger = Inr d" and "admitted d"
  obtains external inputs where "enabled cfg" and "\<not> latch_tripped_flag ledger"
    and "call_billing_residual_accepted cfg \<noteq> None"
    and "external_liability_usd cfg = Some (DFin external)" and "0 \<le> external"
    and "decision_inputs request cfg = Inr inputs"
    and "decide_on_state request cfg ledger external inputs = Inr d"
  using assms
  by (auto simp: decide_admission_def external_ok_eq_Some
      split: if_splits option.splits sum.splits budget_error.splits dest: deny_not_admitted)

text \<open>Everything an admission implies, stage by stage.\<close>

lemma decide_on_stateE:
  assumes "decide_on_state request cfg ledger external (allocation, reserve, cash_cap, est, lifetime_s) = Inr d"
    and "admitted d"
  obtains snap cs ce where "authority_held ledger" and "snapshot ledger = Some snap"
    and "snap_cycle_start snap = Some cs" and "snap_cycle_end snap = Some ce"
    and "cs \<le> instant_of (lst_now ledger)" and "instant_of (lst_now ledger) \<le> ce"
    and "decide_in_cycle request cfg ledger external (ce - cs)
      (allocation, reserve, cash_cap, est, lifetime_s) = Inr d"
  using assms unfolding decide_on_state_def deny_def
  by (auto split: if_split_asm option.split_asm)

lemma finite_setting_eq_Inr: "finite_setting v = Inr x \<longleftrightarrow> v = Some (DFin x)"
  by (auto simp: finite_setting_def split: option.splits decimal.splits)

lemma decide_in_cycleE:
  assumes "decide_in_cycle request cfg ledger external cycle_len
      (allocation, reserve, cash_cap, est, lifetime_s) = Inr d"
    and "admitted d"
  obtains limit base_price retention_days
  where "cycle_len \<le> hours FULL_CYCLE_HOURS"
    and "account_setting_problem cfg (lst_now ledger) = None"
    and "account_limit_usd cfg = Some (DFin limit)"
    and "account_base_price_usd cfg = Some (DFin base_price)" and "base_price \<le> cash_cap"
    and "account_data_retention_days cfg = Some retention_days"
    and "retention_days * 86400 \<le> lifetime_s"
    and "decide_money request cfg ledger external limit
      (allocation, reserve, cash_cap, est, lifetime_s) = Inr d"
proof -
  have *: "account_setting_problem cfg (lst_now ledger) = None"
    using assms by (cases "account_setting_problem cfg (lst_now ledger)")
      (simp_all add: decide_in_cycle_def deny_def, force)
  obtain limit base where **: "account_limit_usd cfg = Some (DFin limit)"
    "account_base_price_usd cfg = Some (DFin base)"
    using assms(1) unfolding decide_in_cycle_def prod.case * option.case andThen_eq_Inr
      finite_setting_eq_Inr by blast
  obtain days where ***: "account_data_retention_days cfg = Some days"
    using assms(1) by (cases "account_data_retention_days cfg")
      (simp_all add: decide_in_cycle_def * ** finite_setting_def)
  from assms show ?thesis
    by (intro that [of limit base days])
      (auto simp: decide_in_cycle_def * ** *** finite_setting_def deny_def split: if_split_asm)
qed

lemma decide_moneyE:
  assumes "decide_money request cfg ledger external limit
      (allocation, reserve, cash_cap, est, lifetime_s) = Inr d"
    and "admitted d"
  obtains acct_margin
  where "account_margin_usd cfg limit = Inr acct_margin"
    and "class_denial request cfg (current_debits ledger) (admission_usd est) allocation reserve = Inr None"
    and "\<not> headroom_exceeded (Some (current_debits ledger)) (admission_usd est) external (dsub limit acct_margin)"
    and "\<not> headroom_exceeded (next_cycle ledger) (admission_usd est) external (dsub limit acct_margin)"
    and "d = \<lparr>admitted = True, denied_for = None, decision_estimate = Some est\<rparr>"
proof -
  obtain m stop where *: "account_margin_usd cfg limit = Inr m"
    "class_denial request cfg (current_debits ledger) (admission_usd est) allocation reserve = Inr stop"
    using assms(1) unfolding decide_money_def prod.case Let_def andThen_eq_Inr by blast
  moreover have "stop = None"
    using assms * by (cases stop) (auto simp: decide_money_def deny_def)
  ultimately show ?thesis
    using assms by (intro that [of m]) (auto simp: decide_money_def deny_def Let_def split: if_split_asm)
qed

lemma decision_inputsE:
  assumes "decision_inputs request cfg = Inr inputs"
  obtains allocation reserve cash_cap est lifetime_s
  where "inputs = (allocation, reserve, cash_cap, est, lifetime_s)"
    and "project_allocation cfg = Inr allocation"
    and "watch_refresh_reserve_usd cfg = Some (DFin reserve)" and "0 \<le> reserve"
    and "reserve \<le> allocation"
    and "cash_ceiling_usd cfg = Some (DFin cash_cap)"
    and "(case req_run request of Some run \<Rightarrow> estimate_run_cost run cfg
       | None \<Rightarrow> (case req_operator_kind request of
           Some kind \<Rightarrow> estimate_operator_cost kind cfg | None \<Rightarrow> Inl AssertionError)) = Inr est"
  using assms by (auto simp: decision_inputs_def andThen_eq_Inr setting_eq_Inr not_less)

lemma project_allocation_eq_Inr:
  "project_allocation cfg = Inr a \<longleftrightarrow>
     (\<exists>t w. cycle_target_usd cfg = Some (DFin t) \<and> t \<le> MAX_CYCLE_TARGET_USD
        \<and> operator_allowance_usd cfg = Some (DFin w) \<and> 0 \<le> w \<and> w \<le> t \<and> a = dsub t w)"
  by (auto simp: project_allocation_def andThen_eq_Inr setting_eq_Inr not_less)

end
