(* ===== verification/AdmissionSafety.thy ===== *)
theory AdmissionSafety
  imports Pricing Admission
begin

text \<open>
  What \<open>decide_admission\<close> of \<open>acquisition/apify/budget.py\<close> guarantees when it admits, and which
  exceptions it can raise: first the exceptions of every function below it, then a worked
  decision, then the properties.
\<close>

section \<open>Exceptions below the decision\<close>

fun budget_raise :: "budget_error \<Rightarrow> bool" where
  "budget_raise (BudgetDenied r n) = True"
| "budget_raise InvalidOperation = True"
| "budget_raise _ = False"


lemma raises_checked [raises]: "raises_only budget_raise (checked_decimal v r n)"
  by (cases "(v, r, n)" rule: checked_decimal.cases) auto

lemma raises_cap [raises]: "raises_only budget_raise (cap v n m)"
  by (auto simp: cap_def split: option.splits)

lemma raises_usd [raises]: "raises_only budget_raise (usd x)"
  by (simp add: usd_def Let_def)

lemma raises_pages [raises]: "raises_only budget_raise (pages_per_read cfg a b)"
  unfolding pages_per_read_def
  by (intro raises) (auto simp: page_limit_def Let_def)

lemmas raises_defs = price_def setting_def per_op_def transfer_per_byte_def margin_of_def storage_hours_def
  api_call_bound_def dataset_page_bound_def actor_fetch_bytes_def request_wire_overhead_def with_margin_def Let_def


lemma raises_inputs [raises]: "raises_only budget_raise (read_run_inputs s cfg)"
  unfolding read_run_inputs_def raises_defs by (intro raises) auto

lemma raises_run [raises]: "raises_only budget_raise (estimate_run_cost s cfg)"
  unfolding estimate_run_cost_def price_run_def raises_defs by (intro raises)

lemma raises_op [raises]: "raises_only budget_raise (estimate_operator_cost k cfg)"
  unfolding estimate_operator_cost_def build_estimate_def envelope_components_def raises_defs by (intro raises)

lemma raises_alloc [raises]: "raises_only budget_raise (project_allocation cfg)"
  unfolding project_allocation_def raises_defs by (intro raises) auto

lemma raises_dec [raises]:
  "request_ok r \<Longrightarrow> raises_only budget_raise (decision_inputs r cfg)"
  unfolding decision_inputs_def setting_def
  by (intro raises) (auto simp: request_ok_def intro: raises split: option.splits)

lemma account_settings_set:
  assumes "account_setting_problem cfg now = None"
  obtains limit base days where "account_limit_usd cfg = Some (DFin limit)" "0 < limit"
    "account_base_price_usd cfg = Some (DFin base)" "0 \<le> base"
    "account_data_retention_days cfg = Some days" "1 \<le> days"
    "account_margin_setting cfg = None \<or> (\<exists>m. account_margin_setting cfg = Some (DFin m) \<and> 0 \<le> m)"
proof -
  have bad: "\<not> bad_money v b \<longleftrightarrow> (\<exists>x. v = Some (DFin x) \<and> 0 \<le> x \<and> (b \<longrightarrow> 0 < x))" for v b
    by (cases "(v, b)" rule: bad_money.cases) auto
  have "\<not> bad_money (account_limit_usd cfg) True" "\<not> bad_money (account_base_price_usd cfg) False"
    "account_data_retention_days cfg \<noteq> None" "\<forall>d. account_data_retention_days cfg = Some d \<longrightarrow> 1 \<le> d"
    "account_margin_setting cfg = None \<or> \<not> bad_money (account_margin_setting cfg) False"
    using assms by (auto simp: account_setting_problem_def split: option.splits if_splits)
  then show ?thesis using that by (auto simp: bad)
qed

lemma decide_money_no_raise:
  assumes "account_setting_problem cfg now = None" and "project_allocation cfg = Inr a"
    and "account_limit_usd cfg = Some (DFin limit)"
  shows "\<exists>d. decide_money request cfg ledger external limit (allocation, reserve, cash_cap, est, lt) = Inr d"
proof -
  obtain m where m: "account_margin_usd cfg limit = Inr m"
    using assms(1) by (rule account_settings_set) (auto simp: account_margin_usd_def setting_eq_Inr)
  obtain w where "setting (operator_allowance_usd cfg) ''OPERATOR_ALLOWANCE_USD'' = Inr w"
    using assms(2) by (auto simp: project_allocation_eq_Inr setting_eq_Inr)
  then obtain stop where "class_denial request cfg (current_debits ledger) (admission_usd est) allocation reserve = Inr stop"
    by (cases "req_class request = OPERATOR") (auto simp: class_denial_def Let_def)
  then show ?thesis
    by (cases stop) (simp_all add: decide_money_def m Let_def deny_def)
qed

lemma decide_on_state_no_raise:
  assumes "project_allocation cfg = Inr a"
  shows "\<exists>d. decide_on_state request cfg ledger external (allocation, reserve, cash_cap, est, lt) = Inr d"
proof -
  have "\<exists>d. decide_in_cycle request cfg ledger external len (allocation, reserve, cash_cap, est, lt) = Inr d" for len
  proof (cases "account_setting_problem cfg (lst_now ledger)")
    case (Some p)
    then show ?thesis by (simp add: decide_in_cycle_def deny_def)
  next
    case None
    then obtain limit base days where *: "account_limit_usd cfg = Some (DFin limit)"
      "account_base_price_usd cfg = Some (DFin base)" "account_data_retention_days cfg = Some days"
      by (rule account_settings_set)
    show ?thesis
      using decide_money_no_raise [OF None assms *(1)] by (simp add: decide_in_cycle_def None * finite_setting_def deny_def)
  qed
  then show ?thesis
    by (auto simp: decide_on_state_def deny_def split: option.splits)
qed

text \<open>
  The model's decimals have no exponent limit and its integers no float range: Python's \<open>decimal\<close> also
  raises \<open>Overflow\<close> near \<open>10 ^ 999999\<close>, and \<open>math.ceil(max_items / limit)\<close> raises \<open>OverflowError\<close>
  beyond the largest float. The amounts and counts of a decision are in range when they are zero or
  between \<open>10 ^ (-100)\<close> and \<open>10 ^ 100\<close>: no product of a few of them comes near either limit.
\<close>

definition amount_in_range :: "rat \<Rightarrow> bool" where
  "amount_in_range x \<longleftrightarrow> x = 0 \<or> (1 / 10 ^ 100 \<le> \<bar>x\<bar> \<and> \<bar>x\<bar> \<le> 10 ^ 100)"

fun decimal_in_range :: "decimal option \<Rightarrow> bool" where
  "decimal_in_range (Some (DFin x)) = amount_in_range x"
| "decimal_in_range _ = True"

fun count_in_range :: "int option \<Rightarrow> bool" where
  "count_in_range (Some n) = (\<bar>n\<bar> \<le> 10 ^ 100)"
| "count_in_range None = True"

definition decimals_of :: "budget_settings \<Rightarrow> decimal option list" where
  "decimals_of cfg =
     [usd_per_cu (prices cfg), dataset_reads_per_1000 (prices cfg), dataset_writes_per_1000 (prices cfg),
      dataset_storage_per_gb_hour (prices cfg), kv_reads_per_1000 (prices cfg), kv_writes_per_1000 (prices cfg),
      kv_storage_per_gb_hour (prices cfg), transfer_per_gb (prices cfg), margin cfg, cycle_target_usd cfg,
      operator_allowance_usd cfg, watch_refresh_reserve_usd cfg, cash_ceiling_usd cfg, account_margin_setting cfg,
      external_liability_usd cfg, operator_build_bound_usd cfg, account_limit_usd cfg, account_base_price_usd cfg]"

definition counts_of :: "budget_settings \<Rightarrow> int option list" where
  "counts_of cfg =
     [max_timeout_s cfg, operator_inspect_max_items cfg, operator_inspect_max_record_reads cfg,
      operator_inspect_max_bytes cfg, operator_probe_max_calls cfg, max_dataset_reads cfg, max_kv_reads cfg,
      max_delete_attempts cfg, max_run_polls cfg, max_correction_reads cfg, max_kv_writes cfg, max_kv_bytes cfg,
      storage_max_lifetime_s cfg, api_call_overhead_bytes cfg, max_api_response_bytes cfg,
      max_dataset_page_bytes cfg, cycle_boundary_guard_s cfg, account_data_retention_days cfg]"

definition debits_of :: "cycle_debits \<Rightarrow> rat list" where
  "debits_of d = [runtime_committed_usd d, operator_committed_usd d, carried_handoff_usd d]"

definition shape_counts :: "run_shape \<Rightarrow> int list" where
  "shape_counts s = [memory_mb s, timeout_s s, max_items s, max_requests s, max_bytes s, max_item_bytes s]"

definition decision_in_range :: "admission_request \<Rightarrow> budget_settings \<Rightarrow> ledger_state \<Rightarrow> bool" where
  "decision_in_range request cfg ledger \<longleftrightarrow>
     list_all decimal_in_range (decimals_of cfg) \<and> list_all count_in_range (counts_of cfg)
     \<and> (case req_run request of None \<Rightarrow> True | Some s \<Rightarrow> list_all (\<lambda>n. count_in_range (Some n)) (shape_counts s))
     \<and> list_all amount_in_range (debits_of (current_debits ledger))
     \<and> (case next_cycle ledger of None \<Rightarrow> True | Some d \<Rightarrow> list_all amount_in_range (debits_of d))"

text \<open>C40: For a request its constructor accepts, while the settings, the request's caps and the ledger's debits
  are zero or between \<open>10 ^ (-100)\<close> and \<open>10 ^ 100\<close> in magnitude, the only exception the admission decision
  lets through is the decimal module's \<open>InvalidOperation\<close>: every settings problem is a denial and no
  assertion fails. (Beyond that range Python has \<open>decimal.Overflow\<close> and \<open>OverflowError\<close> too, which the
  model does not represent.) The exception is reachable well inside the range: a finite, non-negative
  setting of \<open>10 ^ 24\<close> dollars overflows the \<open>quantize\<close> of the estimate (the witness).\<close>

theorem decide_admission_raises:
  assumes "request_ok request" and "decision_in_range request cfg ledger"
    and "decide_admission request cfg ledger = Inl e"
  shows "e = InvalidOperation"
proof -
  have only: "raises_only budget_raise (decision_inputs request cfg)" by (rule raises_dec [OF assms(1)])
  have go: "\<exists>d. decide_on_state request cfg ledger external inputs = Inr d"
    if "decision_inputs request cfg = Inr inputs" for external inputs
    using decision_inputsE [OF that] decide_on_state_no_raise by metis
  show ?thesis
  proof (cases "decision_inputs request cfg")
    case (Inl e')
    then show ?thesis using assms(3) only
      by (cases e') (auto simp: decide_admission_def deny_def split: if_splits option.splits)
  next
    case (Inr inputs)
    have "decide_on_state request cfg ledger external inputs \<noteq> Inl e" for external
      using go [OF Inr, of external] by auto
    then show ?thesis using assms(3) Inr
      by (auto simp: decide_admission_def deny_def split: if_splits option.splits)
  qed
qed

section \<open>What an admission implies\<close>

lemma admittedE:
  assumes "decide_admission request cfg ledger = Inr d" and "admitted d"
  obtains external allocation reserve cash_cap est lifetime_s snap cs ce limit base acct_margin target allowance
  where "enabled cfg" and "\<not> latch_tripped_flag ledger" and "authority_held ledger"
    and "external_liability_usd cfg = Some (DFin external)" and "0 \<le> external"
    and "decision_inputs request cfg = Inr (allocation, reserve, cash_cap, est, lifetime_s)"
    and "cycle_target_usd cfg = Some (DFin target)" and "target \<le> 12"
    and "operator_allowance_usd cfg = Some (DFin allowance)" and "allowance \<le> target"
    and "allocation = dsub target allowance"
    and "watch_refresh_reserve_usd cfg = Some (DFin reserve)" and "0 \<le> reserve" and "reserve \<le> allocation"
    and "snapshot ledger = Some snap" and "snap_cycle_start snap = Some cs" and "snap_cycle_end snap = Some ce"
    and "cs \<le> instant_of (lst_now ledger)" and "instant_of (lst_now ledger) \<le> ce" and "ce - cs \<le> hours 744"
    and "account_base_price_usd cfg = Some (DFin base)" and "cash_ceiling_usd cfg = Some (DFin cash_cap)"
    and "base \<le> cash_cap" and "account_limit_usd cfg = Some (DFin limit)"
    and "account_margin_usd cfg limit = Inr acct_margin"
    and "class_denial request cfg (current_debits ledger) (admission_usd est) allocation reserve = Inr None"
    and "dadd (dadd (hr_cycle (current_debits ledger)) (admission_usd est)) external \<le> dsub limit acct_margin"
    and "case next_cycle ledger of None \<Rightarrow> True | Some nxt \<Rightarrow>
          dadd (dadd (hr_cycle nxt) (admission_usd est)) external \<le> dsub limit acct_margin"
    and "d = \<lparr>admitted = True, denied_for = None, decision_estimate = Some est\<rparr>"
proof -
  obtain external inputs where blanket: "enabled cfg" "\<not> latch_tripped_flag ledger"
    "external_liability_usd cfg = Some (DFin external)" "0 \<le> external"
    and inputs: "decision_inputs request cfg = Inr inputs"
    and state: "decide_on_state request cfg ledger external inputs = Inr d"
    using assms by (rule decide_admissionE)
  obtain allocation reserve cash_cap est lifetime_s where i: "inputs = (allocation, reserve, cash_cap, est, lifetime_s)"
    and alloc: "project_allocation cfg = Inr allocation" "watch_refresh_reserve_usd cfg = Some (DFin reserve)"
      "0 \<le> reserve" "reserve \<le> allocation" and cc: "cash_ceiling_usd cfg = Some (DFin cash_cap)"
    using inputs by (rule decision_inputsE)
  obtain target allowance where t: "cycle_target_usd cfg = Some (DFin target)" "target \<le> 12"
    "operator_allowance_usd cfg = Some (DFin allowance)" "allowance \<le> target" "allocation = dsub target allowance"
    using alloc(1) by (auto simp: project_allocation_eq_Inr MAX_CYCLE_TARGET_USD_def)
  obtain snap cs ce where snap: "authority_held ledger" "snapshot ledger = Some snap"
    "snap_cycle_start snap = Some cs" "snap_cycle_end snap = Some ce"
    "cs \<le> instant_of (lst_now ledger)" "instant_of (lst_now ledger) \<le> ce"
    and cyc: "decide_in_cycle request cfg ledger external (ce - cs)
      (allocation, reserve, cash_cap, est, lifetime_s) = Inr d"
    using state [unfolded i] assms(2) by (rule decide_on_stateE)
  obtain limit base where acct: "ce - cs \<le> hours FULL_CYCLE_HOURS"
    "account_limit_usd cfg = Some (DFin limit)" "account_base_price_usd cfg = Some (DFin base)" "base \<le> cash_cap"
    and money: "decide_money request cfg ledger external limit (allocation, reserve, cash_cap, est, lifetime_s) = Inr d"
    using cyc assms(2) by (rule decide_in_cycleE)
  obtain m where m: "account_margin_usd cfg limit = Inr m"
    "class_denial request cfg (current_debits ledger) (admission_usd est) allocation reserve = Inr None"
    "\<not> headroom_exceeded (Some (current_debits ledger)) (admission_usd est) external (dsub limit m)"
    "\<not> headroom_exceeded (next_cycle ledger) (admission_usd est) external (dsub limit m)"
    "d = \<lparr>admitted = True, denied_for = None, decision_estimate = Some est\<rparr>"
    using money assms(2) by (rule decide_moneyE)
  have room: "dadd (dadd (hr_cycle (current_debits ledger)) (admission_usd est)) external \<le> dsub limit m"
    "case next_cycle ledger of None \<Rightarrow> True | Some nxt \<Rightarrow>
       dadd (dadd (hr_cycle nxt) (admission_usd est)) external \<le> dsub limit m"
    using m(3,4) by (auto simp: headroom_exceeded_def not_less split: option.splits)
  show ?thesis
    by (rule that [OF blanket(1,2) snap(1) blanket(3,4) inputs [unfolded i] t(1-5) alloc(2-4) snap(2-6)
          acct(1) [unfolded FULL_CYCLE_HOURS_def] acct(3) cc acct(4) acct(2) m(1,2) room m(5)])
qed

text \<open>A request its class cap does not stop.\<close>

lemma class_denial_None:
  assumes "class_denial request cfg debits new allocation reserve = Inr None"
    and "operator_allowance_usd cfg = Some (DFin allowance)"
  shows "let runtime = dadd (dadd (runtime_committed_usd debits) (carried_handoff_usd debits)) new
        in case req_class request of
             OPERATOR \<Rightarrow> dadd (operator_committed_usd debits) new \<le> allowance
           | WATCH_REFRESH \<Rightarrow> runtime \<le> allocation
           | DISCOVERY \<Rightarrow> runtime \<le> dsub allocation reserve"
  using assms
  by (cases "req_class request")
    (auto simp: class_denial_def Let_def andThen_eq_Inr setting_eq_Inr not_less split: if_split_asm)

section \<open>A worked example\<close>
definition sample_request :: admission_request where
  "sample_request = \<lparr>req_class = WATCH_REFRESH, req_run = Some sample_shape, req_operator_kind = None\<rparr>"

definition build_request :: admission_request where
  "build_request = \<lparr>req_class = OPERATOR, req_run = None, req_operator_kind = Some BUILD\<rparr>"

text \<open>2026-07-20, five days into the cycle that starts on the 15th.\<close>

definition sample_now :: pydatetime where
  "sample_now = \<lparr>d_year = 2026, d_month = 7, d_day = 20, dt_us = 0\<rparr>"

definition sample_ledger :: ledger_state where
  "sample_ledger = \<lparr>lst_now = sample_now, latch_tripped_flag = False, authority_held = True,
     snapshot = Some \<lparr>snap_cycle_start = Some (instant_of \<lparr>d_year = 2026, d_month = 7, d_day = 15, dt_us = 0\<rparr>),
       snap_cycle_end = Some (instant_of \<lparr>d_year = 2026, d_month = 8, d_day = 15, dt_us = 0\<rparr> - CYCLE_END_EPSILON),
       snap_account_limit_usd = Some (DFin 25), snap_base_price_usd = Some (DFin 5),
       snap_data_retention_days = Some 14,
       snap_verified_on = Some \<lparr>d_year = 2026, d_month = 7, d_day = 1\<rparr>\<rparr>,
     current_debits = no_debits\<lparr>runtime_committed_usd := 2\<rparr>, next_cycle = None\<rparr>"

lemmas sample_eval = budget_eval sample_settings_def sample_ledger_def sample_now_def no_debits_def

lemma sample_fields:
  "account_limit_usd sample_settings = Some (DFin 25)"
  "account_base_price_usd sample_settings = Some (DFin 5)"
  "account_data_retention_days sample_settings = Some 14"
  "enabled sample_settings" "call_billing_residual_accepted sample_settings \<noteq> None"
  "external_liability_usd sample_settings = Some (DFin 4)"
  "lst_now sample_ledger = sample_now" "authority_held sample_ledger" "\<not> latch_tripped_flag sample_ledger"
  by (simp_all add: sample_settings_def sample_ledger_def)

lemma sample_decision:
  "decide_admission sample_request sample_settings sample_ledger
     = Inr \<lparr>admitted = True, denied_for = None, decision_estimate = Some sample_estimate\<rparr>"
proof -
  have inputs: "decision_inputs sample_request sample_settings = Inr (8, 3, 15, sample_estimate, 2592000)"
    using sample_run_cost
    by (simp add: decision_inputs_def project_allocation_def sample_request_def sample_settings_def budget_eval)
  have stated: "decide_money sample_request sample_settings sample_ledger 4 25 (8, 3, 15, sample_estimate, 2592000)
      = Inr \<lparr>admitted = True, denied_for = None, decision_estimate = Some sample_estimate\<rparr>"
    by (simp add: decide_money_def account_margin_usd_def class_denial_def headroom_exceeded_def hr_cycle_def
        sample_request_def sample_eval admission_usd_def sample_estimate_def)
  have problem: "account_setting_problem sample_settings sample_now = None"
    by (simp add: account_setting_problem_def sample_eval date_less_def)
  have cyc: "decide_in_cycle sample_request sample_settings sample_ledger 4 (hours 744 - CYCLE_END_EPSILON) (8, 3, 15, sample_estimate, 2592000)
      = Inr \<lparr>admitted = True, denied_for = None, decision_estimate = Some sample_estimate\<rparr>"
    using stated problem
    by (simp add: decide_in_cycle_def sample_fields finite_setting_def FULL_CYCLE_HOURS_def CYCLE_END_EPSILON_def timedelta_defs)
  obtain snap where snap: "snapshot sample_ledger = Some snap"
    and bounds: "snap_cycle_start snap = Some (instant_of \<lparr>d_year = 2026, d_month = 7, d_day = 15, dt_us = 0\<rparr>)"
      "snap_cycle_end snap
         = Some (instant_of \<lparr>d_year = 2026, d_month = 8, d_day = 15, dt_us = 0\<rparr> - CYCLE_END_EPSILON)"
    by (simp add: sample_ledger_def)
  have len: "instant_of \<lparr>d_year = 2026, d_month = 8, d_day = 15, dt_us = 0\<rparr> - CYCLE_END_EPSILON
      - instant_of \<lparr>d_year = 2026, d_month = 7, d_day = 15, dt_us = 0\<rparr> = hours 744 - CYCLE_END_EPSILON"
    by code_simp
  have now: "instant_of \<lparr>d_year = 2026, d_month = 7, d_day = 15, dt_us = 0\<rparr> \<le> instant_of sample_now"
    "instant_of sample_now \<le> instant_of \<lparr>d_year = 2026, d_month = 8, d_day = 15, dt_us = 0\<rparr> - CYCLE_END_EPSILON"
    by code_simp+
  have state: "decide_on_state sample_request sample_settings sample_ledger 4 (8, 3, 15, sample_estimate, 2592000)
      = Inr \<lparr>admitted = True, denied_for = None, decision_estimate = Some sample_estimate\<rparr>"
    using cyc now by (simp add: decide_on_state_def sample_fields snap bounds len del: hours_def)
  show ?thesis
    using state inputs by (auto simp: decide_admission_def external_ok_def sample_fields)
qed

lemma usd_too_large: "10 ^ 24 \<le> x \<Longrightarrow> usd x = Inl InvalidOperation"
proof -
  assume "10 ^ 24 \<le> x"
  then have "(of_int (10 ^ 28) :: rat) \<le> x * 10000" by simp
  then have "10 ^ 28 \<le> \<lceil>x * 10000\<rceil>"
    by (metis ceiling_mono ceiling_of_int)
  then show ?thesis by (simp add: usd_def Let_def)
qed

lemma build_bound_overflow:
  assumes "operator_build_bound_usd cfg = Some (DFin b)" and "10 ^ 24 \<le> b" and "dround b = b"
    and "max_run_polls cfg = Some n" and "0 \<le> n" and "0 \<le> call"
    and "max_correction_reads cfg = Some m" and "0 \<le> m"
  shows "build_estimate cfg call = Inl InvalidOperation"
proof -
  have "(0 :: rat) \<le> 10 ^ 24" by simp
  then have b: "0 \<le> b" using assms(2) by (rule order_trans)
  have "0 \<le> dmul (of_int n) call" using assms by (auto intro: dmul_nonneg)
  then have "b \<le> dadd b (dmul (of_int n) call)"
    unfolding dadd_def by (intro dec.rnd_add_ge assms(3)) auto
  then have big: "10 ^ 24 \<le> dadd b (dmul (of_int n) call)" using assms(2) by (rule order_trans [rotated])
  have checked: "checked_decimal (operator_build_bound_usd cfg) r x = Inr b" for r x
    using assms(1) b by simp
  have caps: "cap (max_run_polls cfg) x 0 = Inr n" "cap (max_correction_reads cfg) x 0 = Inr m" for x
    using assms by (simp_all add: cap_def)
  show ?thesis
    unfolding build_estimate_def checked caps andThen_Inr Let_def usd_too_large [OF big] by simp
qed

definition overflow_settings :: budget_settings where
  "overflow_settings = sample_settings\<lparr>operator_build_bound_usd := Some (DFin (10 ^ 24))\<rparr>"

lemma decide_admission_overflow:
  "decide_admission build_request overflow_settings sample_ledger = Inl InvalidOperation"
proof -
  have call: "api_call_bound overflow_settings = Inr (28169 / 312500000)"
    and pb: "transfer_per_byte overflow_settings = Inr (1 / 5000000000)"
    by (simp_all add: budget_eval sample_settings_def sample_prices_def overflow_settings_def)
  have "dround (10 ^ 24) = 10 ^ 24"
    by (rule dround_on_grid [of 0]) (auto simp: on_grid_def intro: exI [of _ "10 ^ 24"])
  then have build: "build_estimate overflow_settings (28169 / 312500000) = Inl InvalidOperation"
    by (intro build_bound_overflow [of _ "10 ^ 24" 100 _ 5])
      (simp_all add: sample_settings_def overflow_settings_def)
  have est: "estimate_operator_cost BUILD overflow_settings = Inl InvalidOperation"
    by (simp add: estimate_operator_cost_def call pb build)
  have alloc: "project_allocation overflow_settings = Inr 8"
    "setting (watch_refresh_reserve_usd overflow_settings) n = Inr 3"
    "setting (cash_ceiling_usd overflow_settings) n = Inr 15" for n
    by (simp_all add: project_allocation_def overflow_settings_def sample_settings_def budget_eval)
  have "decision_inputs build_request overflow_settings = Inl InvalidOperation"
    by (simp add: decision_inputs_def alloc est build_request_def)
  moreover have "enabled overflow_settings" "call_billing_residual_accepted overflow_settings \<noteq> None"
    "external_liability_usd overflow_settings = Some (DFin 4)"
    using sample_fields by (simp_all add: overflow_settings_def)
  ultimately show ?thesis
    by (auto simp: decide_admission_def external_ok_def sample_fields)
qed

theorem decide_admission_raises_witness:
  "\<exists>e. decide_admission build_request
overflow_settings sample_ledger = Inl e
     \<and> e = InvalidOperation"
proof -
  have "request_ok build_request" by (simp add: request_ok_def build_request_def)
  moreover have "decision_in_range build_request overflow_settings sample_ledger"
    by (simp add: decision_in_range_def decimals_of_def counts_of_def debits_of_def amount_in_range_def
        build_request_def overflow_settings_def sample_settings_def sample_prices_def sample_ledger_def no_debits_def)
  ultimately show ?thesis using decide_admission_raises [OF _ _ decide_admission_overflow]
    by (simp add: decide_admission_overflow)
qed

text \<open>C4: An admission is granted only with the kill switch on, the overrun latch clear and the ledger
  authority held, inside a recorded cycle of at most 744 hours, under the cash ceiling; and the recorded
  obligations of the current cycle (and of the next one, when it is checked), the new charge and the
  external liability together stay within the account limit less its margin.\<close>

theorem admission_guarantee:
  assumes "decide_admission request cfg ledger = Inr d" and "admitted d"
  shows "\<exists>est snap cs ce limit base ceil acct_margin external.
     decision_estimate d = Some est
     \<and> enabled cfg \<and> \<not> latch_tripped_flag ledger \<and> authority_held ledger
     \<and> snapshot ledger = Some snap \<and> snap_cycle_start snap = Some cs \<and> snap_cycle_end snap = Some ce
     \<and> cs \<le> instant_of (lst_now ledger) \<and> instant_of (lst_now ledger) \<le> ce \<and> ce - cs \<le> hours 744
     \<and> account_base_price_usd cfg = Some (DFin base) \<and> cash_ceiling_usd cfg = Some (DFin ceil) \<and> base \<le> ceil
     \<and> account_limit_usd cfg = Some (DFin limit) \<and> account_margin_usd cfg limit = Inr acct_margin
     \<and> external_liability_usd cfg = Some (DFin external) \<and> 0 \<le> external
     \<and> dadd (dadd (hr_cycle (current_debits ledger)) (admission_usd est)) external \<le> dsub limit acct_margin
     \<and> (case next_cycle ledger of None \<Rightarrow> True | Some nxt \<Rightarrow>
          dadd (dadd (hr_cycle nxt) (admission_usd est)) external \<le> dsub limit acct_margin)"
  by (rule admittedE [OF assms])
    (intro exI conjI; (assumption | simp))

theorem admission_guarantee_witness:
  "dadd (dadd (hr_cycle (current_debits sample_ledger)) (admission_usd sample_estimate)) 4 \<le> 45 / 2"
proof -
  obtain base lim m ex where "account_limit_usd sample_settings = Some (DFin lim)"
    "account_margin_usd sample_settings lim = Inr m" "external_liability_usd sample_settings = Some (DFin ex)"
    "dadd (dadd (hr_cycle (current_debits sample_ledger)) (admission_usd sample_estimate)) ex \<le> dsub lim m"
    using admission_guarantee [OF sample_decision] by auto
  moreover from calculation have "lim = 25" "ex = 4" by (simp_all add: sample_fields)
  moreover from calculation have "m = 5 / 2"
    by (simp add: account_margin_usd_def sample_settings_def budget_eval)
  moreover have "dsub 25 (5 / 2) = 45 / 2" by (simp add: dsub_def dround_num)
  ultimately show ?thesis by simp
qed

text \<open>C6: Every admission fits the cap of its class: an operator request the operator allowance, a
  watch refresh the allocation (target less allowance, target at most 12 dollars), a discovery run the
  allocation less the watch-refresh reserve, counting what the cycle has already committed.\<close>

theorem class_caps_hold:
  assumes "decide_admission request cfg ledger = Inr d" and "admitted d"
  shows "\<exists>est target allowance reserve.
     decision_estimate d = Some est
     \<and> cycle_target_usd cfg = Some (DFin target) \<and> target \<le> 12
     \<and> operator_allowance_usd cfg = Some (DFin allowance) \<and> allowance \<le> target
     \<and> watch_refresh_reserve_usd cfg = Some (DFin reserve) \<and> reserve \<le> dsub target allowance
     \<and> (let debits = current_debits ledger;
            runtime = dadd (dadd (runtime_committed_usd debits) (carried_handoff_usd debits)) (admission_usd est)
        in case req_class request of
             OPERATOR \<Rightarrow> dadd (operator_committed_usd debits) (admission_usd est) \<le> allowance
           | WATCH_REFRESH \<Rightarrow> runtime \<le> dsub target allowance
           | DISCOVERY \<Rightarrow> runtime \<le> dsub (dsub target allowance) reserve)"
proof -
  obtain est allocation reserve target allowance where t: "cycle_target_usd cfg = Some (DFin target)" "target \<le> 12"
    "operator_allowance_usd cfg = Some (DFin allowance)" "allowance \<le> target" "allocation = dsub target allowance"
    and r: "watch_refresh_reserve_usd cfg = Some (DFin reserve)" "reserve \<le> allocation"
    and cls: "class_denial request cfg (current_debits ledger) (admission_usd est) allocation reserve = Inr None"
    and d: "d = \<lparr>admitted = True, denied_for = None, decision_estimate = Some est\<rparr>"
    by (rule admittedE [OF assms])
  show ?thesis
    using class_denial_None [OF cls t(3)] t(1-4) r d unfolding t(5) by auto
qed

theorem class_caps_hold_witness:
  "dadd (dadd 2 0) (admission_usd sample_estimate) \<le> 8"
proof -
  obtain t w r where "cycle_target_usd sample_settings = Some (DFin t)" "operator_allowance_usd sample_settings = Some (DFin w)"
    "dadd (dadd (runtime_committed_usd (current_debits sample_ledger)) (carried_handoff_usd (current_debits sample_ledger)))
        (admission_usd sample_estimate) \<le> dsub t w"
    using class_caps_hold [OF sample_decision] by (auto simp: sample_request_def Let_def)
  then show ?thesis by (simp add: sample_eval)
qed

end
