(* ===== verification/Scheduling.thy ===== *)
theory Scheduling
  imports PyNum PyTime
begin

text \<open>
  Source scheduling state: \<open>acquisition/scheduling/backoff.py\<close> (the back-off ladder and
  the earned ramp), \<open>lifecycle.py\<close> (the ADR-0017 transition function) and \<open>apply.py\<close>
  (the single mutator of a source's health and of its lane's cadence), over the rows of
  \<open>catalog/models/ops.py\<close>. The database is a pair of maps from primary keys to rows, and
  \<open>apply_run_outcome\<close> is its transaction: an exception leaves the database as it was.
  The \<open>updated_at\<close> audit stamps are not represented.
\<close>

section \<open>Rows\<close>

datatype lifecycle_state = ACTIVE | BACKING_OFF | PAUSED_PENDING_FIX | SKIP

datatype scheduling_lane = FULL_LANE | HEARTBEAT_LANE

datatype run_kind = RUN_FULL | RUN_HEARTBEAT | RUN_REFERENCE | RUN_PROBE

datatype volatility_profile = DROP_PRONE | CHURNING | STABLE

datatype cheap_signal = SHOPIFY_PRODUCTS_JSON | WOOCOMMERCE_STORE_API | EBAY_BROWSE
  | OCC_JSON | BOOTSTRAP_JSON | NO_SIGNAL

datatype provider_kind = LOCAL | APIFY

record source_config =
  sc_enabled :: bool
  cadence_baseline_s :: int
  cadence_ceiling_s :: int
  volatility_profile :: volatility_profile
  cheap_signal :: cheap_signal
  heartbeat_enabled :: bool
  fast_lane :: bool
  lifecycle_state :: lifecycle_state
  consecutive_failures :: nat
  consecutive_parser_rot :: nat
  last_run_at :: "instant option"
  last_success_at :: "instant option"
  collection_provider :: provider_kind

record source_lane_state =
  ls_source :: int
  ls_lane :: scheduling_lane
  current_interval_s :: int
  clean_polls :: nat
  backoff_until :: "instant option"

text \<open>The CHECK constraints of \<open>source_config\<close>; the two cadences are \<open>PositiveIntegerField\<close>s.\<close>

definition source_config_ok :: "source_config \<Rightarrow> bool" where
  "source_config_ok c \<longleftrightarrow>
     0 \<le> cadence_ceiling_s c \<and> cadence_ceiling_s c \<le> cadence_baseline_s c
     \<and> (fast_lane c \<longrightarrow> volatility_profile c = DROP_PRONE \<and> cheap_signal c \<noteq> NO_SIGNAL)
     \<and> (collection_provider c = LOCAL \<or> \<not> heartbeat_enabled c \<and> \<not> fast_lane c)"

section \<open>Back-off and ramp (\<open>backoff.py\<close>)\<close>

datatype sched_error = OverflowError | DoesNotExist

definition BACKOFF_BASE_S :: rat where "BACKOFF_BASE_S = 600"

definition BACKOFF_CAP_S :: rat where "BACKOFF_CAP_S = 86400"

definition RETRY_AFTER_MIN_S :: rat where "RETRY_AFTER_MIN_S = 1"

definition AUTO_RAMP_CLEAN_POLLS :: nat where "AUTO_RAMP_CLEAN_POLLS = 4"

text \<open>
  A Python \<open>int\<close> operand of a \<open>float\<close> operation is converted to binary64 first; a power of
  two from \<open>2**1024\<close> on has no such value and the conversion raises \<open>OverflowError\<close>.
\<close>

definition float_of_pow2 :: "nat \<Rightarrow> sched_error + rat" where
  "float_of_pow2 n = (if 1024 \<le> n then Inl OverflowError else Inr (2 ^ n))"

text \<open>\<open>r\<close> is the value the injected \<open>rand()\<close> returns.\<close>

definition backoff_delay_s :: "nat \<Rightarrow> rat \<Rightarrow> sched_error + rat" where
  "backoff_delay_s failures r =
     andThen (float_of_pow2 failures) (\<lambda>p.
       let envelope = min BACKOFF_CAP_S (fround (BACKOFF_BASE_S * p))
       in Inr (fround (r * envelope)))"

definition clamp_retry_after :: "rat \<Rightarrow> int \<Rightarrow> rat" where
  "clamp_retry_after retry_after_s baseline_s =
     min (max retry_after_s RETRY_AFTER_MIN_S) (fround (of_int baseline_s))"

definition interval_after_success :: "int \<Rightarrow> int \<Rightarrow> nat \<Rightarrow> int \<times> nat" where
  "interval_after_success current_s ceiling_s polls0 =
     (let polls = polls0 + 1 in
      if AUTO_RAMP_CLEAN_POLLS \<le> polls then (max ceiling_s (current_s div 2), 0)
      else (current_s, polls))"

definition interval_after_latency_spike :: "int \<Rightarrow> int \<Rightarrow> int" where
  "interval_after_latency_spike current_s baseline_s = min baseline_s (current_s * 2)"

lemmas backoff_consts = BACKOFF_BASE_S_def BACKOFF_CAP_S_def RETRY_AFTER_MIN_S_def
  AUTO_RAMP_CLEAN_POLLS_def

text \<open>
  \<open>timedelta(seconds=x)\<close> for a float: the whole seconds are kept exactly, the fraction is
  converted to microseconds and rounded half to even.
\<close>

definition timedelta_of_float :: "rat \<Rightarrow> timedelta" where
  "timedelta_of_float x =
     (let whole = (if 0 \<le> x then \<lfloor>x\<rfloor> else \<lceil>x\<rceil>)
      in whole * 1000000 + rhe (fround ((x - of_int whole) * 1000000)))"

section \<open>Lifecycle (\<open>lifecycle.py\<close>)\<close>

datatype lifecycle_event = SUCCESS | TRANSIENT_FAILURE | ANTI_BOT | PARSER_ROT | DEGRADATION
  | UNKNOWN_FAILURE | PROBE_SUCCESS | PROBE_FAILURE | MANUAL_SKIP | MANUAL_REACTIVATE

definition PARSER_ROT_TRIP_THRESHOLD :: nat where "PARSER_ROT_TRIP_THRESHOLD = 2"

definition transition :: "lifecycle_state \<Rightarrow> lifecycle_event \<Rightarrow> nat \<Rightarrow> lifecycle_state" where
  "transition state event parser_rot =
     (if event = MANUAL_SKIP then SKIP
      else if state = SKIP then (if event = MANUAL_REACTIVATE then ACTIVE else SKIP)
      else if event = MANUAL_REACTIVATE then ACTIVE
      else if state = PAUSED_PENDING_FIX then
        (if event = PROBE_SUCCESS then ACTIVE else PAUSED_PENDING_FIX)
      else (case event of
          SUCCESS \<Rightarrow> ACTIVE
        | PROBE_SUCCESS \<Rightarrow> ACTIVE
        | ANTI_BOT \<Rightarrow> PAUSED_PENDING_FIX
        | PARSER_ROT \<Rightarrow>
            if PARSER_ROT_TRIP_THRESHOLD \<le> parser_rot + 1 then PAUSED_PENDING_FIX else BACKING_OFF
        | TRANSIENT_FAILURE \<Rightarrow> BACKING_OFF
        | UNKNOWN_FAILURE \<Rightarrow> PAUSED_PENDING_FIX
        | _ \<Rightarrow> state))"

section \<open>The mutator (\<open>apply.py\<close>)\<close>

definition success_events :: "lifecycle_event list" where
  "success_events = [SUCCESS, PROBE_SUCCESS]"

definition failure_events :: "lifecycle_event list" where
  "failure_events = [TRANSIENT_FAILURE, ANTI_BOT, PARSER_ROT, UNKNOWN_FAILURE]"

record run_outcome =
  ro_event :: lifecycle_event
  retry_after_s :: "rat option"

definition ramp_floor_s :: "source_config \<Rightarrow> scheduling_lane \<Rightarrow> int" where
  "ramp_floor_s config lane =
     (if lane = FULL_LANE \<and> heartbeat_enabled config then cadence_baseline_s config
      else cadence_ceiling_s config)"

definition failure_delay_s :: "run_outcome \<Rightarrow> source_config \<Rightarrow> rat \<Rightarrow> sched_error + rat" where
  "failure_delay_s outcome config r =
     (case retry_after_s outcome of
        Some s \<Rightarrow> Inr (clamp_retry_after s (cadence_baseline_s config))
      | None \<Rightarrow> backoff_delay_s (consecutive_failures config) r)"

definition apply_locked ::
  "source_config \<Rightarrow> source_lane_state \<Rightarrow> run_outcome \<Rightarrow> instant \<Rightarrow> rat
     \<Rightarrow> sched_error + (source_config \<times> source_lane_state)" where
  "apply_locked config lane_state outcome now r =
     (let event = ro_event outcome;
          new_state = transition (lifecycle_state config) event (consecutive_parser_rot config);
          config = config\<lparr>last_run_at := Some now\<rparr>
      in if event \<in> set success_events then
           (let config = config\<lparr>last_success_at := Some now, consecutive_failures := 0,
                  consecutive_parser_rot := 0\<rparr>;
                ramped = interval_after_success (current_interval_s lane_state)
                  (ramp_floor_s config (ls_lane lane_state)) (clean_polls lane_state)
            in Inr (config\<lparr>lifecycle_state := new_state\<rparr>,
                    lane_state\<lparr>backoff_until := None, current_interval_s := fst ramped,
                      clean_polls := snd ramped\<rparr>))
         else if event \<in> set failure_events then
           (let config = config\<lparr>consecutive_failures := consecutive_failures config + 1,
                  consecutive_parser_rot :=
                    (if event = PARSER_ROT then consecutive_parser_rot config + 1 else 0)\<rparr>
            in andThen (failure_delay_s outcome config r) (\<lambda>delay_s.
                 Inr (config\<lparr>lifecycle_state := new_state\<rparr>,
                      lane_state\<lparr>clean_polls := 0, current_interval_s := cadence_baseline_s config,
                        backoff_until := Some (now + timedelta_of_float delay_s)\<rparr>)))
         else Inr (config\<lparr>lifecycle_state := new_state\<rparr>, lane_state))"

text \<open>
  The database. \<open>apply_run_outcome\<close> uses its two row arguments as identity only: both rows
  are read again under lock, the managed fields are computed from the locked values, saved,
  and copied back into the caller's instances (whose other fields stay as they were).
\<close>

record sched_db =
  configs :: "int \<Rightarrow> source_config option"
  lanes :: "int \<Rightarrow> source_lane_state option"

definition refresh_config :: "source_config \<Rightarrow> source_config \<Rightarrow> source_config" where
  "refresh_config c locked =
     c\<lparr>lifecycle_state := lifecycle_state locked,
       consecutive_failures := consecutive_failures locked,
       consecutive_parser_rot := consecutive_parser_rot locked,
       last_run_at := last_run_at locked,
       last_success_at := last_success_at locked\<rparr>"

definition refresh_lane :: "source_lane_state \<Rightarrow> source_lane_state \<Rightarrow> source_lane_state" where
  "refresh_lane l locked =
     l\<lparr>clean_polls := clean_polls locked, current_interval_s := current_interval_s locked,
       backoff_until := backoff_until locked\<rparr>"

definition apply_run_outcome ::
  "sched_db \<Rightarrow> int \<times> source_config \<Rightarrow> int \<times> source_lane_state \<Rightarrow> run_outcome \<Rightarrow> instant \<Rightarrow> rat
     \<Rightarrow> sched_error + (sched_db \<times> source_config \<times> source_lane_state)" where
  "apply_run_outcome db config lane_state outcome now r =
     (case configs db (fst config) of
        None \<Rightarrow> Inl DoesNotExist
      | Some row \<Rightarrow>
         (case lanes db (fst lane_state) of
            None \<Rightarrow> Inl DoesNotExist
          | Some lane_row \<Rightarrow>
              andThen (apply_locked row lane_row outcome now r) (\<lambda>(locked_config, locked_lane).
                Inr (db\<lparr>configs := (configs db)(fst config \<mapsto> refresh_config row locked_config),
                        lanes := (lanes db)(fst lane_state \<mapsto> refresh_lane lane_row locked_lane)\<rparr>,
                     refresh_config (snd config) locked_config,
                     refresh_lane (snd lane_state) locked_lane))))"

end
