(* ===== verification/SchedulingSafety.thy ===== *)
theory SchedulingSafety
  imports Scheduling
begin

text \<open>
  Properties of the scheduling state: the lifecycle of a source over any interleaving of its
  lanes' runs, the band its lanes' intervals stay in, the back-off window, and what happens to
  the failure counters.
\<close>

section \<open>The transition function\<close>

lemma transition_skip: "transition SKIP e n = (if e = MANUAL_REACTIVATE then ACTIVE else SKIP)"
  by (cases e) (simp_all add: transition_def)

lemma transition_paused:
  "transition PAUSED_PENDING_FIX e n =
     (if e = MANUAL_SKIP then SKIP else if e \<in> {MANUAL_REACTIVATE, PROBE_SUCCESS} then ACTIVE
      else PAUSED_PENDING_FIX)"
  by (cases e) (simp_all add: transition_def)

lemma transition_eq_paused:
  "transition s e n = PAUSED_PENDING_FIX \<longleftrightarrow>
     (s = PAUSED_PENDING_FIX \<and> e \<notin> {MANUAL_SKIP, MANUAL_REACTIVATE, PROBE_SUCCESS})
     \<or> (s \<in> {ACTIVE, BACKING_OFF} \<and> (e \<in> {ANTI_BOT, UNKNOWN_FAILURE} \<or> e = PARSER_ROT \<and> 1 \<le> n))"
  by (cases s; cases e) (auto simp: transition_def PARSER_ROT_TRIP_THRESHOLD_def)

section \<open>One outcome\<close>

definition failure_event :: "lifecycle_event \<Rightarrow> bool" where
  "failure_event e \<longleftrightarrow> e \<in> set failure_events"

lemma event_kinds:
  "e \<in> set success_events \<longleftrightarrow> e = SUCCESS \<or> e = PROBE_SUCCESS"
  "failure_event e \<longleftrightarrow> e \<in> {TRANSIENT_FAILURE, ANTI_BOT, PARSER_ROT, UNKNOWN_FAILURE}"
  by (auto simp: success_events_def failure_events_def failure_event_def)

lemma failure_event_iff: "e \<in> set failure_events \<longleftrightarrow> failure_event e"
  by (simp add: failure_event_def)

text \<open>What one outcome does to the health of the source, whatever the lane.\<close>

lemma apply_locked_config:
  assumes "apply_locked c l out now r = Inr (c', l')"
  shows "c' = c\<lparr>lifecycle_state := transition (lifecycle_state c) (ro_event out) (consecutive_parser_rot c),
      consecutive_failures := (if ro_event out \<in> set success_events then 0
        else if failure_event (ro_event out) then consecutive_failures c + 1 else consecutive_failures c),
      consecutive_parser_rot := (if ro_event out \<in> set success_events then 0
        else if failure_event (ro_event out)
          then (if ro_event out = PARSER_ROT then consecutive_parser_rot c + 1 else 0)
        else consecutive_parser_rot c),
      last_run_at := Some now,
      last_success_at := (if ro_event out \<in> set success_events then Some now else last_success_at c)\<rparr>"
  using assms
  by (auto simp: apply_locked_def Let_def failure_event_iff andThen_eq_Inr split: if_splits
      intro!: source_config.equality)

lemma apply_locked_lane:
  assumes "apply_locked c l out now r = Inr (c', l')"
  shows "ls_source l' = ls_source l" and "ls_lane l' = ls_lane l"
    and "current_interval_s l' =
      (if ro_event out \<in> set success_events
         then fst (interval_after_success (current_interval_s l) (ramp_floor_s c (ls_lane l)) (clean_polls l))
       else if failure_event (ro_event out) then cadence_baseline_s c else current_interval_s l)"
    and "ro_event out \<in> set success_events \<Longrightarrow> backoff_until l' = None"
    and "failure_event (ro_event out) \<Longrightarrow>
      \<exists>d. failure_delay_s out (c\<lparr>consecutive_failures := consecutive_failures c + 1\<rparr>) r = Inr d
        \<and> backoff_until l' = Some (now + timedelta_of_float d)"
  using assms
  by (auto simp: apply_locked_def Let_def failure_event_iff andThen_eq_Inr event_kinds ramp_floor_s_def
      failure_delay_s_def split: if_splits option.splits)

lemma apply_run_outcome_eq_Inr:
  "apply_run_outcome db (c, cc) (l, ll) out now r = Inr (db', cc', ll') \<longleftrightarrow>
     (\<exists>row lane_row row' lane_row'. configs db c = Some row \<and> lanes db l = Some lane_row
        \<and> apply_locked row lane_row out now r = Inr (row', lane_row')
        \<and> db' = db\<lparr>configs := (configs db)(c \<mapsto> refresh_config row row'),
                     lanes := (lanes db)(l \<mapsto> refresh_lane lane_row lane_row')\<rparr>
        \<and> cc' = refresh_config cc row' \<and> ll' = refresh_lane ll lane_row')"
  by (auto simp: apply_run_outcome_def andThen_eq_Inr split: option.splits)

lemma refresh_config_locked:
  "apply_locked c l out now r = Inr (c', l') \<Longrightarrow> refresh_config c c' = c'"
  by (drule apply_locked_config) (auto simp: refresh_config_def intro!: source_config.equality)

lemma refresh_lane_locked:
  "apply_locked c l out now r = Inr (c', l') \<Longrightarrow> refresh_lane l l' = l'"
  by (frule apply_locked_lane(1), frule apply_locked_lane(2))
    (auto simp: refresh_lane_def intro!: source_lane_state.equality)

section \<open>Interleaved runs\<close>

text \<open>
  One step of the poller against the database: a run's outcome applied to a lane of source
  \<open>c\<close> (with whatever stale instances the job holds), an outcome whose transaction was rolled
  back by an exception, or the creation of a missing lane row by \<open>SourceConfig.lane_state\<close>.
  \<open>rand\<close> is \<open>random.random\<close>, so its value lies in \<open>[0, 1)\<close>.
\<close>

definition new_lane_state :: "int \<Rightarrow> source_config \<Rightarrow> scheduling_lane \<Rightarrow> source_lane_state" where
  "new_lane_state c config lane =
     \<lparr>ls_source = c, ls_lane = lane, current_interval_s = cadence_baseline_s config,
       clean_polls = 0, backoff_until = None\<rparr>"

inductive sched_step :: "sched_db \<Rightarrow> int \<times> lifecycle_event option \<Rightarrow> sched_db \<Rightarrow> bool" where
  applied: "\<lbrakk>lanes db l = Some row; ls_source row = c; 0 \<le> r; r < 1;
      apply_run_outcome db (c, cc) (l, ll) out now r = Inr (db', cc', ll')\<rbrakk>
    \<Longrightarrow> sched_step db (c, Some (ro_event out)) db'"
| aborted: "apply_run_outcome db (c, cc) (l, ll) out now r = Inl e \<Longrightarrow> sched_step db (c, None) db"
| lane_created: "\<lbrakk>configs db c = Some config; lanes db l = None\<rbrakk>
    \<Longrightarrow> sched_step db (c, None) (db\<lparr>lanes := (lanes db)(l \<mapsto> new_lane_state c config lane)\<rparr>)"

inductive_cases sched_stepE: "sched_step db a db'"

lemma sched_step_config:
  assumes "sched_step db (c, e) db'"
  shows "k \<noteq> c \<Longrightarrow> configs db' k = configs db k"
    and "e = None \<Longrightarrow> configs db' = configs db"
    and "e = Some ev \<Longrightarrow> \<exists>row row' lane lane' out now r. configs db c = Some row \<and> configs db' c = Some row'
      \<and> apply_locked row lane out now r = Inr (row', lane') \<and> ro_event out = ev"
proof -
  show "k \<noteq> c \<Longrightarrow> configs db' k = configs db k" and "e = None \<Longrightarrow> configs db' = configs db"
    using assms by (auto elim!: sched_stepE simp: apply_run_outcome_eq_Inr)
  show "\<exists>row row' lane lane' out now r. configs db c = Some row \<and> configs db' c = Some row'
      \<and> apply_locked row lane out now r = Inr (row', lane') \<and> ro_event out = ev" if "e = Some ev"
    using assms unfolding that
    by (cases rule: sched_step.cases)
      (auto simp: apply_run_outcome_eq_Inr refresh_config_locked, blast)
qed

text \<open>What a step does to the source's own row, in one rule.\<close>

lemma sched_step_row:
  assumes "sched_step db (c, Some ev) db'" and "configs db c = Some row"
  obtains row' where "configs db' c = Some row'"
    and "lifecycle_state row' = transition (lifecycle_state row) ev (consecutive_parser_rot row)"
    and "consecutive_parser_rot row' = (if ev \<in> set success_events then 0
        else if failure_event ev then (if ev = PARSER_ROT then consecutive_parser_rot row + 1 else 0)
        else consecutive_parser_rot row)"
    and "consecutive_failures row' = (if ev \<in> set success_events then 0
        else if failure_event ev then consecutive_failures row + 1 else consecutive_failures row)"
    and "cadence_baseline_s row' = cadence_baseline_s row" and "cadence_ceiling_s row' = cadence_ceiling_s row"
proof -
  obtain row' lane lane' out now r where a: "configs db' c = Some row'"
    "apply_locked row lane out now r = Inr (row', lane')" "ro_event out = ev"
    using sched_step_config(3) [OF assms(1) refl] assms(2) by auto
  show ?thesis
    by (rule that [OF a(1)]; subst apply_locked_config [OF a(2)]) (simp_all add: a(3))
qed

definition events_of :: "int \<Rightarrow> (int \<times> lifecycle_event option) list \<Rightarrow> lifecycle_event list" where
  "events_of c as = List.map_filter (\<lambda>(k, e). if k = c then e else None) as"

lemma events_of_simps [simp]:
  "events_of c [] = []"
  "events_of c ((k, e) # as) =
     (if k = c then (case e of None \<Rightarrow> [] | Some ev \<Rightarrow> [ev]) else []) @ events_of c as"
  by (auto simp: events_of_def map_filter_simps split: option.splits)

section \<open>Lifecycle properties\<close>

text \<open>A state no event of the run leaves is kept through the run, whatever the other sources do.\<close>

lemma sched_run_keeps_state:
  assumes "steps sched_step db as db'" and "configs db c = Some row" and "lifecycle_state row \<in> S"
    and "\<And>ev s n. ev \<in> set (events_of c as) \<Longrightarrow> s \<in> S \<Longrightarrow> transition s ev n \<in> S"
  shows "\<exists>row'. configs db' c = Some row' \<and> lifecycle_state row' \<in> S"
  using assms
proof (induction db as db' arbitrary: row rule: steps.induct)
  case (steps_Nil db)
  then show ?case by blast
next
  case (steps_Cons db a db' as db'')
  obtain k e where a: "a = (k, e)" by force
  have "\<exists>row'. configs db' c = Some row' \<and> lifecycle_state row' \<in> S"
  proof (cases "k = c \<and> e \<noteq> None")
    case True
    then obtain ev where ev: "a = (c, Some ev)" using a by auto
    then have "sched_step db (c, Some ev) db'" "ev \<in> set (events_of c (a # as))"
      using steps_Cons.hyps(1) by auto
    then obtain row' where "configs db' c = Some row'"
      "lifecycle_state row' = transition (lifecycle_state row) ev (consecutive_parser_rot row)"
      using sched_step_row [OF _ steps_Cons.prems(1)] by metis
    then show ?thesis
      using steps_Cons.prems(2,3) \<open>ev \<in> set (events_of c (a # as))\<close> by auto
  next
    case False
    then show ?thesis
      using steps_Cons.hyps(1) steps_Cons.prems(1,2) sched_step_config(1,2) [of db k e db'] a by auto
  qed
  moreover have "set (events_of c as) \<subseteq> set (events_of c (a # as))"
    unfolding a events_of_simps set_append by (rule Un_upper2)
  ultimately show ?case using steps_Cons.IH steps_Cons.prems(3) by blast
qed

text \<open>A skipped source stays skipped through any interleaving of its own and other sources' runs
  until an operator reactivates it.\<close>

theorem skip_is_terminal:
  assumes "steps sched_step db as db'" and "configs db c = Some row" and "lifecycle_state row = SKIP"
    and "MANUAL_REACTIVATE \<notin> set (events_of c as)"
  shows "\<exists>row'. configs db' c = Some row' \<and> lifecycle_state row' = SKIP"
  proof -
  have "\<exists>row'. configs db' c = Some row' \<and> lifecycle_state row' \<in> {SKIP}"
    using assms(3,4) by (intro sched_run_keeps_state [OF assms(1,2)]) (auto simp: transition_skip)
  then show ?thesis by simp
qed

text \<open>A paused source is never resurrected by an ordinary success (a stale heartbeat success cannot
  undo a pause): only a successful probe or an operator changes its state.\<close>

theorem pause_needs_probe_or_operator:
  assumes "steps sched_step db as db'" and "configs db c = Some row"
    and "lifecycle_state row = PAUSED_PENDING_FIX"
    and "set (events_of c as) \<inter> {PROBE_SUCCESS, MANUAL_REACTIVATE, MANUAL_SKIP} = {}"
  shows "\<exists>row'. configs db' c = Some row' \<and> lifecycle_state row' = PAUSED_PENDING_FIX"
  proof -
  have "\<exists>row'. configs db' c = Some row' \<and> lifecycle_state row' \<in> {PAUSED_PENDING_FIX}"
    using assms(3,4) by (intro sched_run_keeps_state [OF assms(1,2)]) (auto simp: transition_paused)
  then show ?thesis by simp
qed

text \<open>Two parser failures in a row pause the source, even when they come from different lanes and
  each job holds a stale copy of the row: the escalation cannot be lost to a concurrent lane.\<close>

theorem two_parser_rots_pause:
  assumes "sched_step db (c, Some PARSER_ROT) db'" and "sched_step db' (c, Some PARSER_ROT) db''"
    and "configs db c = Some row" and "lifecycle_state row \<noteq> SKIP"
  shows "\<exists>row'. configs db'' c = Some row' \<and> lifecycle_state row' = PAUSED_PENDING_FIX"
proof -
  obtain row1 where r1: "configs db' c = Some row1" "1 \<le> consecutive_parser_rot row1"
    "lifecycle_state row1 = transition (lifecycle_state row) PARSER_ROT (consecutive_parser_rot row)"
    by (rule sched_step_row [OF assms(1,3)]) (auto simp: event_kinds)
  have "transition (lifecycle_state row) PARSER_ROT (consecutive_parser_rot row) \<noteq> SKIP"
    using assms(4) by (cases "lifecycle_state row") (auto simp: transition_def)
  then show ?thesis
    by (rule_tac sched_step_row [OF assms(2) r1(1)])
      (use r1(2,3) in \<open>cases "lifecycle_state row1"; auto simp: transition_def PARSER_ROT_TRIP_THRESHOLD_def\<close>)
qed

text \<open>Transient failures never trip the breaker: a source that is not paused stays unpaused however
  many transient failures its lanes report.\<close>

theorem transients_never_pause:
  assumes "steps sched_step db as db'" and "configs db c = Some row"
    and "lifecycle_state row \<in> {ACTIVE, BACKING_OFF}"
    and "set (events_of c as) \<subseteq> {TRANSIENT_FAILURE, SUCCESS, PROBE_FAILURE, DEGRADATION}"
  shows "\<exists>row'. configs db' c = Some row' \<and> lifecycle_state row' \<in> {ACTIVE, BACKING_OFF}"
proof (rule sched_run_keeps_state [OF assms(1-3)])
  fix ev s n
  assume "ev \<in> set (events_of c as)" and "s \<in> {ACTIVE, BACKING_OFF}"
  then show "transition s ev n \<in> {ACTIVE, BACKING_OFF}"
    using assms(4) by (auto simp: transition_def)
qed
section \<open>The band of a lane's interval\<close>

text \<open>
  Every stored row satisfies its table's constraints, and every lane's interval lies between its
  source's ceiling (the fastest) and its baseline (the slowest).
\<close>

definition sched_inv :: "sched_db \<Rightarrow> bool" where
  "sched_inv db \<longleftrightarrow>
     (\<forall>c row. configs db c = Some row \<longrightarrow> source_config_ok row)
     \<and> (\<forall>l lane row. lanes db l = Some lane \<longrightarrow> configs db (ls_source lane) = Some row
          \<longrightarrow> cadence_ceiling_s row \<le> current_interval_s lane \<and> current_interval_s lane \<le> cadence_baseline_s row)"

lemma interval_after_success_band:
  assumes "source_config_ok c" and "cadence_ceiling_s c \<le> i" and "i \<le> cadence_baseline_s c"
  shows "cadence_ceiling_s c \<le> fst (interval_after_success i (ramp_floor_s c lane) n)"
    and "fst (interval_after_success i (ramp_floor_s c lane) n) \<le> cadence_baseline_s c"
  using assms by (auto simp: interval_after_success_def ramp_floor_s_def source_config_ok_def Let_def)

lemma apply_locked_ok:
  assumes "apply_locked c l out now r = Inr (c', l')" and "source_config_ok c"
  shows "source_config_ok c'" and "cadence_ceiling_s c' = cadence_ceiling_s c"
    and "cadence_baseline_s c' = cadence_baseline_s c"
  unfolding apply_locked_config [OF assms(1)] using assms(2) by (simp_all add: source_config_ok_def)

lemma apply_locked_band:
  assumes "apply_locked c l out now r = Inr (c', l')" and "source_config_ok c"
    and "cadence_ceiling_s c \<le> current_interval_s l" and "current_interval_s l \<le> cadence_baseline_s c"
  shows "cadence_ceiling_s c \<le> current_interval_s l' \<and> current_interval_s l' \<le> cadence_baseline_s c"
proof -
  have "cadence_ceiling_s c \<le> cadence_baseline_s c" using assms(2) by (simp add: source_config_ok_def)
  then show ?thesis
    unfolding apply_locked_lane(3) [OF assms(1)] using interval_after_success_band [OF assms(2-4)] assms(3,4)
    by simp
qed

interpretation sched: invariant sched_step sched_inv
proof unfold_locales
  fix db a db'
  assume step: "sched_step db a db'" and inv: "sched_inv db"
  from step show "sched_inv db'"
  proof (cases rule: sched_step.cases)
    case (applied l lane c r cc ll out now cc' ll')
    then obtain row row' lane' where rows: "configs db c = Some row"
      and eff: "apply_locked row lane out now r = Inr (row', lane')"
      and db': "db' = db\<lparr>configs := (configs db)(c \<mapsto> row'), lanes := (lanes db)(l \<mapsto> lane')\<rparr>"
      by (auto simp: apply_run_outcome_eq_Inr refresh_config_locked refresh_lane_locked)
    have ok: "source_config_ok row" using inv rows by (simp add: sched_inv_def)
    have band: "cadence_ceiling_s row \<le> current_interval_s lane' \<and> current_interval_s lane' \<le> cadence_baseline_s row"
      using inv rows applied(2,3) by (intro apply_locked_band [OF eff ok]) (auto simp: sched_inv_def)
    show ?thesis
      using inv rows band apply_locked_ok [OF eff ok] apply_locked_lane(1) [OF eff] applied(2,3)
      unfolding sched_inv_def db' by auto
  next
    case (aborted c cc l ll out now r e)
    then show ?thesis using inv by simp
  next
    case (lane_created c config l lane)
    then show ?thesis using inv by (auto simp: sched_inv_def new_lane_state_def source_config_ok_def)
  qed
qed

text \<open>Whatever outcomes its lanes report in whatever interleaving, a lane's polling interval stays
  between the source's cadence ceiling and its cadence baseline: auto-ramp never polls faster than
  sanctioned and a failure never leaves it slower than the baseline.\<close>

theorem interval_stays_in_band:
  assumes "steps sched_step db as db'" and "sched_inv db"
    and "lanes db' l = Some lane" and "configs db' (ls_source lane) = Some row"
  shows "cadence_ceiling_s row \<le> current_interval_s lane \<and> current_interval_s lane \<le> cadence_baseline_s row"
  using sched.steps_inv [OF assms(1,2)] assms(3,4) by (simp add: sched_inv_def)

section \<open>Concurrent lanes\<close>

text \<open>The rows a job holds are identity only: the committed state is the same whatever stale copies
  two jobs hold, and no row but the source's own and the lane's own changes.\<close>

theorem stale_instances_do_not_matter:
  assumes "apply_run_outcome db (c, cc) (l, ll) out now r = Inr (db', cc', ll')"
  shows "(\<exists>cc2' ll2'. apply_run_outcome db (c, cc2) (l, ll2) out now r = Inr (db', cc2', ll2'))
    \<and> (\<forall>k. k \<noteq> c \<longrightarrow> configs db' k = configs db k) \<and> (\<forall>k. k \<noteq> l \<longrightarrow> lanes db' k = lanes db k)"
  using assms by (auto simp: apply_run_outcome_eq_Inr)

text \<open>No failure is lost: after a run in which every outcome of the source is a failure, its counter
  has grown by exactly the number of those outcomes, whichever lanes reported them.\<close>

theorem failures_are_counted:
  assumes "steps sched_step db as db'" and "configs db c = Some row"
    and "\<forall>ev \<in> set (events_of c as). ev \<in> {TRANSIENT_FAILURE, ANTI_BOT, PARSER_ROT, UNKNOWN_FAILURE}"
  shows "\<exists>row'. configs db' c = Some row'
     \<and> consecutive_failures row' = consecutive_failures row + length (events_of c as)"
  using assms
proof (induction db as db' arbitrary: row rule: steps.induct)
  case (steps_Nil db)
  then show ?case by simp
next
  case (steps_Cons db a db' as db'')
  obtain k e where a: "a = (k, e)" by force
  show ?case
  proof (cases "k = c \<and> e \<noteq> None")
    case True
    then obtain ev where ev: "a = (c, Some ev)" using a by auto
    have fail: "failure_event ev" "ev \<notin> set success_events"
      using steps_Cons.prems(2) by (auto simp: ev event_kinds)
    obtain row' where r: "configs db' c = Some row'" "consecutive_failures row' = consecutive_failures row + 1"
      using sched_step_row [OF steps_Cons.hyps(1) [unfolded ev] steps_Cons.prems(1)] fail by auto
    show ?thesis
      using steps_Cons.IH [OF r(1)] steps_Cons.prems(2) by (auto simp: ev r(2))
  next
    case False
    have "configs db' c = Some row"
      using steps_Cons.hyps(1) steps_Cons.prems(1) False sched_step_config(1,2) [of db k e db'] a by auto
    moreover have "events_of c (a # as) = events_of c as" using False by (auto simp: a)
    ultimately show ?thesis using steps_Cons.IH steps_Cons.prems(2) by simp
  qed
qed

section \<open>The back-off window\<close>

lemma fround_600_pow2: "fround (600 * 2 ^ n) = 600 * 2 ^ n"
proof -
  have eq: "(600 * 2 ^ n :: rat) = of_int 75 * of_nat 2 powi (int (n + 3))"
    by (simp only: power_int_of_nat) (simp add: power_add)
  show ?thesis
    unfolding fround_def eq by (rule round_sig_exact_less) simp_all
qed

lemma fround_86400: "fround 86400 = 86400"
  by (simp add: fround_num)

lemma backoff_delay_bounds:
  assumes "backoff_delay_s n r = Inr d" and "0 \<le> r" and "r \<le> 1"
  shows "0 \<le> d \<and> d \<le> 86400 \<and> d \<le> 600 * 2 ^ n"
proof -
  define env where "env = min 86400 (600 * 2 ^ n :: rat)"
  have d: "d = fround (r * env)"
    using assms(1) by (auto simp: backoff_delay_s_def float_of_pow2_def Let_def backoff_consts env_def
        fround_600_pow2 split: if_splits)
  have env: "0 \<le> env" "fround env = env"
    by (auto simp: env_def min_def fround_600_pow2 fround_86400)
  have le: "r * env \<le> env" using mult_right_mono [OF assms(3) env(1)] by simp
  have "0 \<le> d" unfolding d using assms(2) env(1) by (intro flt.rnd_nonneg) simp
  moreover have "d \<le> env" unfolding d by (rule flt.rnd_le_exact [OF env(2) le])
  ultimately show ?thesis by (simp add: env_def)
qed

lemma clamp_retry_after_bounds:
  assumes "0 \<le> b" and "b < 2 ^ 53"
  shows "0 \<le> clamp_retry_after s b" and "clamp_retry_after s b \<le> of_int b"
    and "1 \<le> b \<Longrightarrow> 1 \<le> clamp_retry_after s b"
    and "1 \<le> s \<Longrightarrow> s \<le> of_int b \<Longrightarrow> clamp_retry_after s b = s"
  using assms by (auto simp: clamp_retry_after_def RETRY_AFTER_MIN_S_def fround_of_int)

lemma timedelta_of_float_bounds:
  assumes "0 \<le> x" and "x \<le> of_int n"
  shows "0 \<le> timedelta_of_float x \<and> timedelta_of_float x \<le> seconds n"
proof -
  define f where "f = x - of_int \<lfloor>x\<rfloor>"
  have f: "0 \<le> f" "f < 1" unfolding f_def using floor_correct [of x] by linarith+
  define m where "m = rhe (fround (f * 1000000))"
  have td: "timedelta_of_float x = \<lfloor>x\<rfloor> * 1000000 + m"
    using assms(1) by (simp add: timedelta_of_float_def m_def f_def Let_def)
  have "0 \<le> fround (f * 1000000)" using f(1) by (intro flt.rnd_nonneg) simp
  then have m0: "0 \<le> m" unfolding m_def using rhe_mono [of 0 "fround (f * 1000000)"] rhe_of_int [of 0] by simp
  have "fround (f * 1000000) \<le> 1000000"
    using f(2) by (intro flt.rnd_le_exact) (simp_all add: fround_num)
  then have m1: "m \<le> 1000000" unfolding m_def using rhe_mono [of "fround (f * 1000000)" 1000000] rhe_of_int [of 1000000]
    by simp
  have fl: "0 \<le> \<lfloor>x\<rfloor>" "\<lfloor>x\<rfloor> \<le> n" using assms by (simp_all add: floor_le_iff le_floor_iff)
  have "\<lfloor>x\<rfloor> = n \<Longrightarrow> f = 0" using assms(2) f(1) by (simp add: f_def)
  then have "\<lfloor>x\<rfloor> = n \<Longrightarrow> m = 0" using rhe_of_int [of 0] by (simp add: m_def)
  then show ?thesis using td m0 m1 fl by (cases "\<lfloor>x\<rfloor> = n") (auto simp: seconds_def)
qed

text \<open>The back-off window a failure opens is never negative and never longer than the cap: a day on
  the exponential ladder (and never above ten minutes times two to the failure count), the source's baseline
  when the site sent a Retry-After, which is then honoured verbatim between one second and the baseline.\<close>

theorem backoff_window_bounds:
  assumes "apply_run_outcome db (c, cc) (l, ll) out now r = Inr (db', cc', ll')"
    and "ro_event out \<in> {TRANSIENT_FAILURE, ANTI_BOT, PARSER_ROT, UNKNOWN_FAILURE}"
    and "configs db c = Some row" and "0 \<le> cadence_baseline_s row" and "cadence_baseline_s row < 2 ^ 53"
    and "0 \<le> r" and "r \<le> 1"
  shows "\<exists>lane w. lanes db' l = Some lane \<and> backoff_until lane = Some (now + w) \<and> 0 \<le> w
    \<and> (case retry_after_s out of
         None \<Rightarrow> w \<le> seconds 86400 \<and> w \<le> seconds (600 * 2 ^ (consecutive_failures row + 1))
       | Some s \<Rightarrow> w \<le> seconds (cadence_baseline_s row)
           \<and> (1 \<le> s \<longrightarrow> s \<le> of_int (cadence_baseline_s row) \<longrightarrow> w = timedelta_of_float s))"
proof -
  obtain lane row' lane' where eff: "apply_locked row lane out now r = Inr (row', lane')"
    and db': "lanes db' l = Some lane'"
    using assms(1,3) by (auto simp: apply_run_outcome_eq_Inr refresh_lane_locked)
  have "failure_event (ro_event out)" using assms(2) by (simp add: event_kinds)
  from apply_locked_lane(5) [OF eff this] obtain d
    where d: "failure_delay_s out (row\<lparr>consecutive_failures := consecutive_failures row + 1\<rparr>) r = Inr d"
      and until: "backoff_until lane' = Some (now + timedelta_of_float d)" by blast
  show ?thesis
  proof (cases "retry_after_s out")
    case None
    then have "0 \<le> d \<and> d \<le> 86400 \<and> d \<le> 600 * 2 ^ (consecutive_failures row + 1)"
      using d by (intro backoff_delay_bounds [OF _ assms(6,7)]) (simp add: failure_delay_s_def)
    then have "0 \<le> timedelta_of_float d \<and> timedelta_of_float d \<le> seconds 86400
        \<and> timedelta_of_float d \<le> seconds (600 * 2 ^ (consecutive_failures row + 1))"
      using timedelta_of_float_bounds [of d 86400]
        timedelta_of_float_bounds [of d "600 * 2 ^ (consecutive_failures row + 1)"] by simp
    then show ?thesis using None until db' by auto
  next
    case (Some s)
    then have d: "d = clamp_retry_after s (cadence_baseline_s row)" using d by (simp add: failure_delay_s_def)
    note b = clamp_retry_after_bounds [OF assms(4,5), of s]
    have "0 \<le> timedelta_of_float d \<and> timedelta_of_float d \<le> seconds (cadence_baseline_s row)"
      unfolding d by (rule timedelta_of_float_bounds [OF b(1,2)])
    then show ?thesis using Some until db' b(4) d by auto
  qed
qed

text \<open>C38: The ladder step of the 1024th consecutive failure without a Retry-After raises
  \<open>OverflowError\<close> (a Python int of \<open>2 ** 1024\<close> has no float), for every value of \<open>rand()\<close>: such an
  outcome is never recorded, its transaction is rolled back, and the source stays at that count.\<close>

theorem long_failure_streak_raises:
  assumes "configs db c = Some row" and "lanes db l = Some lane" and "1023 \<le> consecutive_failures row"
    and "ro_event out \<in> {TRANSIENT_FAILURE, ANTI_BOT, PARSER_ROT, UNKNOWN_FAILURE}"
    and "retry_after_s out = None"
  shows "apply_run_outcome db (c, cc) (l, ll) out now r = Inl OverflowError"
  using assms
  by (auto simp: apply_run_outcome_def apply_locked_def Let_def failure_event_iff event_kinds
      failure_delay_s_def backoff_delay_s_def float_of_pow2_def)

section \<open>A source with two lanes\<close>

definition sample_source :: source_config where
  "sample_source = \<lparr>sc_enabled = True, cadence_baseline_s = 21600, cadence_ceiling_s = 3600,
     volatility_profile = DROP_PRONE, cheap_signal = SHOPIFY_PRODUCTS_JSON, heartbeat_enabled = True,
     fast_lane = True, lifecycle_state = ACTIVE, consecutive_failures = 0, consecutive_parser_rot = 0,
     last_run_at = None, last_success_at = None, collection_provider = LOCAL\<rparr>"

definition sample_lane :: "scheduling_lane \<Rightarrow> source_lane_state" where
  "sample_lane lane = \<lparr>ls_source = 1, ls_lane = lane, current_interval_s = 21600, clean_polls = 3,
     backoff_until = None\<rparr>"

definition sample_db :: "source_config \<Rightarrow> sched_db" where
  "sample_db c = \<lparr>configs = [1 \<mapsto> c], lanes = [10 \<mapsto> sample_lane FULL_LANE, 11 \<mapsto> sample_lane HEARTBEAT_LANE]\<rparr>"

text \<open>One outcome on the full lane, with \<open>rand() = 0.5\<close>, as an executable step.\<close>

definition lane_outcome :: "lifecycle_event \<Rightarrow> int \<Rightarrow> sched_db \<Rightarrow> sched_error + sched_db" where
  "lane_outcome e l db = andThen (apply_run_outcome db (1, sample_source) (l, sample_lane FULL_LANE)
       \<lparr>ro_event = e, retry_after_s = Some 30\<rparr> 0 (1 / 2)) (\<lambda>res. Inr (fst res))"

lemma lane_outcome_step:
  assumes "lane_outcome e l db = Inr db'" and "lanes db l = Some lane" and "ls_source lane = 1"
  shows "sched_step db (1, Some e) db'"
proof -
  obtain cc ll where "apply_run_outcome db (1, sample_source) (l, sample_lane FULL_LANE)
       \<lparr>ro_event = e, retry_after_s = Some 30\<rparr> 0 (1 / 2) = Inr (db', cc, ll)"
    using assms(1) by (auto simp: lane_outcome_def andThen_eq_Inr)
  from sched_step.applied [OF assms(2,3) _ _ this] show ?thesis by simp
qed

lemmas lane_eval = lane_outcome_def apply_run_outcome_def apply_locked_def failure_delay_s_def
  clamp_retry_after_def interval_after_success_def ramp_floor_s_def success_events_def failure_events_def
  sample_db_def sample_lane_def sample_source_def Let_def transition_def PARSER_ROT_TRIP_THRESHOLD_def
  backoff_consts refresh_config_def refresh_lane_def fround_num

definition two_lanes :: "sched_db \<Rightarrow> bool" where
  "two_lanes db \<longleftrightarrow> configs db 1 \<noteq> None
     \<and> (\<forall>l \<in> {10, 11}. case lanes db l of None \<Rightarrow> False | Some lane \<Rightarrow> ls_source lane = 1)"

lemma sample_two_lanes: "two_lanes (sample_db c)"
  by (simp add: two_lanes_def sample_db_def sample_lane_def)

lemma lane_outcome_defined:
  assumes "two_lanes db" and "l \<in> {10, 11}"
  shows "\<exists>db'. lane_outcome e l db = Inr db' \<and> two_lanes db' \<and> sched_step db (1, Some e) db'"
proof -
  obtain c lane where row: "configs db 1 = Some c" "lanes db l = Some lane" "ls_source lane = 1"
    using assms by (auto simp: two_lanes_def split: option.splits)
  have "\<exists>c' lane'. apply_locked c lane \<lparr>ro_event = e, retry_after_s = Some 30\<rparr> 0 (1 / 2) = Inr (c', lane')"
    by (simp add: apply_locked_def failure_delay_s_def Let_def)
  then obtain c' lane' where
    eff: "apply_locked c lane \<lparr>ro_event = e, retry_after_s = Some 30\<rparr> 0 (1 / 2) = Inr (c', lane')" by blast
  let ?db = "db\<lparr>configs := (configs db)(1 \<mapsto> c'), lanes := (lanes db)(l \<mapsto> lane')\<rparr>"
  have out: "lane_outcome e l db = Inr ?db"
    by (simp add: lane_outcome_def apply_run_outcome_def row eff refresh_config_locked [OF eff]
        refresh_lane_locked [OF eff])
  moreover have "two_lanes ?db" using assms apply_locked_lane(1) [OF eff] row
    by (auto simp: two_lanes_def split: option.splits)
  ultimately show ?thesis using lane_outcome_step [OF out row(2,3)] by blast
qed

lemma lane_run:
  "two_lanes db \<Longrightarrow> snd ` set xs \<subseteq> {10, 11 :: int} \<Longrightarrow>
     \<exists>db'. steps sched_step db (map (\<lambda>x. (1, Some (fst x))) xs) db'"
proof (induction xs arbitrary: db)
  case Nil
  then show ?case by (auto simp: steps_simps)
next
  case (Cons x xs)
  then obtain db1 where "two_lanes db1" "sched_step db (1, Some (fst x)) db1"
    using lane_outcome_defined [of db "snd x" "fst x"] by auto
  with Cons.IH [of db1] Cons.prems(2) show ?case by (auto simp: steps_simps)
qed

lemma sample_run:
  "\<exists>db'. steps sched_step (sample_db c) [(1, Some e), (1, Some e')] db'"
  using lane_run [OF sample_two_lanes, of "[(e, 10), (e', 11)]" c] by simp

theorem skip_is_terminal_witness:
  "\<exists>db'. steps sched_step (sample_db (sample_source\<lparr>lifecycle_state := SKIP\<rparr>))
       [(1, Some SUCCESS), (1, Some PARSER_ROT)] db'
     \<and> (\<exists>row'. configs db' 1 = Some row' \<and> lifecycle_state row' = SKIP)"
proof -
  obtain db' where run: "steps sched_step (sample_db (sample_source\<lparr>lifecycle_state := SKIP\<rparr>))
       [(1, Some SUCCESS), (1, Some PARSER_ROT)] db'"
    using sample_run by blast
  show ?thesis
    using run skip_is_terminal [OF run, of 1 "sample_source\<lparr>lifecycle_state := SKIP\<rparr>"]
    by (auto simp: sample_db_def)
qed

theorem pause_needs_probe_or_operator_witness:
  "\<exists>db'. steps sched_step (sample_db (sample_source\<lparr>lifecycle_state := PAUSED_PENDING_FIX\<rparr>))
       [(1, Some SUCCESS), (1, Some PROBE_FAILURE)] db'
     \<and> (\<exists>row'. configs db' 1 = Some row' \<and> lifecycle_state row' = PAUSED_PENDING_FIX)"
proof -
  obtain db' where run: "steps sched_step (sample_db (sample_source\<lparr>lifecycle_state := PAUSED_PENDING_FIX\<rparr>))
       [(1, Some SUCCESS), (1, Some PROBE_FAILURE)] db'"
    using sample_run by blast
  show ?thesis
    using run pause_needs_probe_or_operator [OF run, of 1 "sample_source\<lparr>lifecycle_state := PAUSED_PENDING_FIX\<rparr>"]
    by (auto simp: sample_db_def)
qed

theorem two_parser_rots_pause_witness:
  "\<exists>db' db''. sched_step (sample_db sample_source) (1, Some PARSER_ROT) db'
     \<and> sched_step db' (1, Some PARSER_ROT) db''
     \<and> (\<exists>row'. configs db'' 1 = Some row' \<and> lifecycle_state row' = PAUSED_PENDING_FIX)"
proof -
  obtain db' db'' where run: "sched_step (sample_db sample_source) (1, Some PARSER_ROT) db'"
    "sched_step db' (1, Some PARSER_ROT) db''"
    using sample_run [of sample_source PARSER_ROT PARSER_ROT] by (auto simp: steps_simps)
  show ?thesis
    using run two_parser_rots_pause [OF run, of sample_source] by (auto simp: sample_db_def sample_source_def)
qed

theorem transients_never_pause_witness:
  "\<exists>db'. steps sched_step (sample_db sample_source) [(1, Some TRANSIENT_FAILURE), (1, Some TRANSIENT_FAILURE)] db'
     \<and> (\<exists>row'. configs db' 1 = Some row' \<and> lifecycle_state row' \<in> {ACTIVE, BACKING_OFF})"
proof -
  obtain db' where run: "steps sched_step (sample_db sample_source)
      [(1, Some TRANSIENT_FAILURE), (1, Some TRANSIENT_FAILURE)] db'"
    using sample_run by blast
  show ?thesis
    using run transients_never_pause [OF run, of 1 sample_source] by (auto simp: sample_db_def sample_source_def)
qed

theorem failures_are_counted_witness:
  "\<exists>db'. steps sched_step (sample_db sample_source) [(1, Some TRANSIENT_FAILURE), (1, Some PARSER_ROT)] db'
     \<and> (\<exists>row'. configs db' 1 = Some row' \<and> consecutive_failures row' = 2)"
proof -
  obtain db' where run: "steps sched_step (sample_db sample_source)
      [(1, Some TRANSIENT_FAILURE), (1, Some PARSER_ROT)] db'"
    using sample_run by blast
  show ?thesis
    using run failures_are_counted [OF run, of 1 sample_source] by (auto simp: sample_db_def sample_source_def)
qed

lemma sample_inv: "sched_inv (sample_db sample_source)"
  by (auto simp: sched_inv_def sample_db_def sample_lane_def sample_source_def source_config_ok_def
      split: if_splits)

theorem interval_stays_in_band_witness:
  "\<exists>db' lane. lane_outcome SUCCESS 11 (sample_db sample_source) = Inr db' \<and> lanes db' 11 = Some lane
     \<and> current_interval_s lane = 10800 \<and> 3600 \<le> current_interval_s lane \<and> current_interval_s lane \<le> 21600"
proof -
  obtain db' where out: "lane_outcome SUCCESS 11 (sample_db sample_source) = Inr db'"
    and step: "sched_step (sample_db sample_source) (1, Some SUCCESS) db'"
    using lane_outcome_defined [OF sample_two_lanes, of 11] by auto
  have lane: "\<exists>lane row. lanes db' 11 = Some lane \<and> current_interval_s lane = 10800 \<and> ls_source lane = 1
      \<and> configs db' 1 = Some row \<and> cadence_ceiling_s row = 3600 \<and> cadence_baseline_s row = 21600"
    using out by (auto simp: lane_eval)
  have run: "steps sched_step (sample_db sample_source) [(1, Some SUCCESS)] db'"
    using step by (auto simp: steps_simps)
  show ?thesis
    using lane out interval_stays_in_band [OF run sample_inv] by fastforce
qed

theorem stale_instances_do_not_matter_witness:
  "\<exists>db' cc ll. apply_run_outcome (sample_db sample_source) (1, sample_source) (10, sample_lane FULL_LANE)
       \<lparr>ro_event = ANTI_BOT, retry_after_s = Some 30\<rparr> 0 (1 / 2) = Inr (db', cc, ll)
     \<and> lanes db' 11 = Some (sample_lane HEARTBEAT_LANE)"
proof -
  obtain db' cc ll where out: "apply_run_outcome (sample_db sample_source) (1, sample_source) (10, sample_lane FULL_LANE)
       \<lparr>ro_event = ANTI_BOT, retry_after_s = Some 30\<rparr> 0 (1 / 2) = Inr (db', cc, ll)"
    using lane_outcome_defined [OF sample_two_lanes [of sample_source], of 10 ANTI_BOT]
    by (auto simp: lane_outcome_def andThen_eq_Inr)
  show ?thesis
    using out stale_instances_do_not_matter [OF out] by (auto simp: sample_db_def)
qed

theorem backoff_window_bounds_witness:
  "\<exists>db' cc ll lane w. apply_run_outcome (sample_db sample_source) (1, sample_source) (10, sample_lane FULL_LANE)
       \<lparr>ro_event = ANTI_BOT, retry_after_s = Some 30\<rparr> 0 (1 / 2) = Inr (db', cc, ll)
     \<and> lanes db' 10 = Some lane \<and> backoff_until lane = Some w \<and> w = timedelta_of_float 30"
proof -
  obtain db' cc ll where out: "apply_run_outcome (sample_db sample_source) (1, sample_source) (10, sample_lane FULL_LANE)
       \<lparr>ro_event = ANTI_BOT, retry_after_s = Some 30\<rparr> 0 (1 / 2) = Inr (db', cc, ll)"
    using lane_outcome_defined [OF sample_two_lanes [of sample_source], of 10 ANTI_BOT]
    by (auto simp: lane_outcome_def andThen_eq_Inr)
  show ?thesis
    using out backoff_window_bounds [OF out, of sample_source] by (auto simp: sample_db_def sample_source_def)
qed

theorem long_failure_streak_raises_witness:
  "apply_run_outcome (sample_db (sample_source\<lparr>consecutive_failures := 1023\<rparr>)) (1, sample_source)
     (10, sample_lane FULL_LANE) \<lparr>ro_event = TRANSIENT_FAILURE, retry_after_s = None\<rparr> 0 (1 / 2)
     = Inl OverflowError"
  by (rule long_failure_streak_raises) (auto simp: sample_db_def)

end
