(* ===== verification/Buckets.thy ===== *)
theory Buckets
  imports Scheduling "HOL-Library.AList"
begin

text \<open>
  The two-level token buckets (\<open>acquisition/scheduling/buckets.py\<close>), their crash
  checkpoint (\<open>checkpoint.py\<close>) and the ordered admission gate in front of a source run
  (\<open>scheduling/admission.py\<close>). Every number is a float; a Python dict is an association
  list in insertion order, updated in place by \<open>AList.update\<close>. The methods mutate the
  registry, so the model returns the registry after the call.
\<close>

section \<open>Buckets\<close>

definition DOMAIN_RATE_PER_MIN :: rat where "DOMAIN_RATE_PER_MIN = 30"

definition DOMAIN_BURST :: int where "DOMAIN_BURST = 10"

record token_bucket =
  capacity :: rat
  refill_per_s :: rat
  tokens :: rat
  updated_at :: rat

definition refill :: "token_bucket \<Rightarrow> rat \<Rightarrow> token_bucket" where
  "refill b now_s =
     (let elapsed = max 0 (fround (now_s - updated_at b))
      in b\<lparr>tokens := min (capacity b) (fround (tokens b + fround (elapsed * refill_per_s b))),
           updated_at := now_s\<rparr>)"

definition can_acquire :: "token_bucket \<Rightarrow> rat \<Rightarrow> rat \<Rightarrow> bool \<times> token_bucket" where
  "can_acquire b now_s cost = (let b = refill b now_s in (cost \<le> tokens b, b))"

definition acquire :: "token_bucket \<Rightarrow> rat \<Rightarrow> rat \<Rightarrow> bool \<times> token_bucket" where
  "acquire b now_s cost =
     (let (ok, b) = can_acquire b now_s cost
      in if \<not> ok then (False, b) else (True, b\<lparr>tokens := fround (tokens b - cost)\<rparr>))"

definition mk_bucket :: "rat \<Rightarrow> int \<Rightarrow> rat \<Rightarrow> token_bucket" where
  "mk_bucket rate_per_min burst now_s =
     \<lparr>capacity = fround (of_int burst), refill_per_s = fround (rate_per_min / 60),
      tokens = fround (of_int burst), updated_at = now_s\<rparr>"

section \<open>The registry\<close>

record bucket_registry =
  source_buckets :: "(string \<times> token_bucket) list"
  domain_buckets :: "(string \<times> token_bucket) list"

definition empty_registry :: bucket_registry where
  "empty_registry = \<lparr>source_buckets = [], domain_buckets = []\<rparr>"

definition configure_source :: "bucket_registry \<Rightarrow> string \<Rightarrow> rat \<Rightarrow> int \<Rightarrow> rat \<Rightarrow> bucket_registry" where
  "configure_source reg key rate_per_min burst now_s =
     reg\<lparr>source_buckets := AList.update key (mk_bucket rate_per_min burst now_s) (source_buckets reg)\<rparr>"

definition configure_domain :: "bucket_registry \<Rightarrow> string \<Rightarrow> rat \<Rightarrow> int \<Rightarrow> rat \<Rightarrow> bucket_registry" where
  "configure_domain reg domain rate_per_min burst now_s =
     reg\<lparr>domain_buckets := AList.update domain (mk_bucket rate_per_min burst now_s) (domain_buckets reg)\<rparr>"

text \<open>\<open>_domain\<close>: the bucket of the domain, created at the default politeness rate when absent.\<close>

definition get_domain :: "bucket_registry \<Rightarrow> string \<Rightarrow> rat \<Rightarrow> bucket_registry \<times> token_bucket" where
  "get_domain reg domain now_s =
     (case map_of (domain_buckets reg) domain of
        Some b \<Rightarrow> (reg, b)
      | None \<Rightarrow> (configure_domain reg domain DOMAIN_RATE_PER_MIN DOMAIN_BURST now_s,
                 mk_bucket DOMAIN_RATE_PER_MIN DOMAIN_BURST now_s))"

definition put_source :: "bucket_registry \<Rightarrow> string \<Rightarrow> token_bucket \<Rightarrow> bucket_registry" where
  "put_source reg key b = reg\<lparr>source_buckets := AList.update key b (source_buckets reg)\<rparr>"

definition put_domain :: "bucket_registry \<Rightarrow> string \<Rightarrow> token_bucket \<Rightarrow> bucket_registry" where
  "put_domain reg domain b = reg\<lparr>domain_buckets := AList.update domain b (domain_buckets reg)\<rparr>"

text \<open>
  \<open>admit\<close>. The conjunction of the two \<open>can_acquire\<close> calls is short-circuit: a source bucket
  without a token leaves the domain bucket unrefilled. The results of the two \<open>acquire\<close>
  calls are discarded, as in the code.
\<close>

definition admit :: "bucket_registry \<Rightarrow> string \<Rightarrow> string \<Rightarrow> rat \<Rightarrow> bool \<times> bucket_registry" where
  "admit reg source_key domain now_s =
     (case map_of (source_buckets reg) source_key of
        None \<Rightarrow> (False, reg)
      | Some src \<Rightarrow>
         (let (reg, dom) = get_domain reg domain now_s;
              (ok_src, src) = can_acquire src now_s 1;
              reg = put_source reg source_key src
          in if \<not> ok_src then (False, reg)
             else (let (ok_dom, dom) = can_acquire dom now_s 1;
                       reg = put_domain reg domain dom
                   in if \<not> ok_dom then (False, reg)
                      else (True,
                        put_domain (put_source reg source_key (snd (acquire src now_s 1)))
                          domain (snd (acquire dom now_s 1))))))"

section \<open>The checkpoint\<close>

type_synonym json_bucket = "(string \<times> rat) list"
type_synonym json_state = "(string \<times> (string \<times> json_bucket) list) list"

datatype checkpoint_error = TypeError

definition dump_bucket :: "token_bucket \<Rightarrow> json_bucket" where
  "dump_bucket b = [(''capacity'', capacity b), (''refill_per_s'', refill_per_s b),
     (''tokens'', tokens b), (''updated_at'', updated_at b)]"

definition to_state :: "bucket_registry \<Rightarrow> json_state" where
  "to_state reg =
     [(''sources'', map (\<lambda>(k, b). (k, dump_bucket b)) (source_buckets reg)),
      (''domains'', map (\<lambda>(k, b). (k, dump_bucket b)) (domain_buckets reg))]"

text \<open>\<open>TokenBucket(**values)\<close>: a missing or an unexpected keyword is a \<open>TypeError\<close>.\<close>

definition load_bucket :: "json_bucket \<Rightarrow> checkpoint_error + token_bucket" where
  "load_bucket values =
     (if set (map fst values) \<noteq> {''capacity'', ''refill_per_s'', ''tokens'', ''updated_at''}
      then Inl TypeError
      else case (map_of values ''capacity'', map_of values ''refill_per_s'',
                 map_of values ''tokens'', map_of values ''updated_at'') of
        (Some c, Some r, Some t, Some u) \<Rightarrow>
          Inr \<lparr>capacity = c, refill_per_s = r, tokens = t, updated_at = u\<rparr>
      | _ \<Rightarrow> Inl TypeError)"

fun load_buckets_from :: "(string \<times> token_bucket) list \<Rightarrow> (string \<times> json_bucket) list
    \<Rightarrow> checkpoint_error + (string \<times> token_bucket) list" where
  "load_buckets_from out [] = Inr out"
| "load_buckets_from out ((key, values) # rest) =
     andThen (load_bucket values) (\<lambda>b. load_buckets_from (AList.update key b out) rest)"

definition state_get :: "json_state \<Rightarrow> string \<Rightarrow> (string \<times> json_bucket) list" where
  "state_get state key = (case map_of state key of Some v \<Rightarrow> v | None \<Rightarrow> [])"

definition from_state :: "json_state \<Rightarrow> checkpoint_error + bucket_registry" where
  "from_state state =
     andThen (load_buckets_from [] (state_get state ''sources'')) (\<lambda>ss.
     andThen (load_buckets_from [] (state_get state ''domains'')) (\<lambda>ds.
       Inr \<lparr>source_buckets = ss, domain_buckets = ds\<rparr>))"

text \<open>The \<open>SchedulerCheckpoint\<close> table: one JSON state per key.\<close>

type_synonym checkpoint_table = "string \<Rightarrow> json_state option"

definition BUCKETS_KEY :: string where "BUCKETS_KEY = ''bucket_registry''"

definition save_buckets :: "checkpoint_table \<Rightarrow> bucket_registry \<Rightarrow> checkpoint_table" where
  "save_buckets tab reg = tab(BUCKETS_KEY \<mapsto> to_state reg)"

definition rebase :: "rat \<Rightarrow> (string \<times> token_bucket) list \<Rightarrow> (string \<times> token_bucket) list" where
  "rebase now_s = map (\<lambda>(k, b). (k, b\<lparr>updated_at := now_s\<rparr>))"

definition load_buckets :: "checkpoint_table \<Rightarrow> rat \<Rightarrow> checkpoint_error + bucket_registry" where
  "load_buckets tab now_s =
     (case tab BUCKETS_KEY of
        None \<Rightarrow> Inr empty_registry
      | Some state \<Rightarrow>
          andThen (from_state state) (\<lambda>reg.
            Inr \<lparr>source_buckets = rebase now_s (source_buckets reg),
                 domain_buckets = rebase now_s (domain_buckets reg)\<rparr>))"

section \<open>The admission gate (\<open>scheduling/admission.py\<close>)\<close>

datatype deny_reason = DISABLED | SKIPPED | PAUSED | BACKOFF_WINDOW | BUCKET

type_synonym admission_decision = "bool \<times> deny_reason option"

definition check_admission ::
  "bool \<Rightarrow> lifecycle_state \<Rightarrow> run_kind \<Rightarrow> instant option \<Rightarrow> instant \<Rightarrow> bucket_registry
     \<Rightarrow> string \<Rightarrow> string \<Rightarrow> rat \<Rightarrow> admission_decision \<times> bucket_registry" where
  "check_admission enabled state kind until now reg source_key domain now_s =
     (if \<not> enabled then ((False, Some DISABLED), reg)
      else if state = SKIP then ((False, Some SKIPPED), reg)
      else if state = PAUSED_PENDING_FIX \<and> kind \<noteq> RUN_PROBE then ((False, Some PAUSED), reg)
      else if (case until of None \<Rightarrow> False | Some t \<Rightarrow> now < t) \<and> kind \<noteq> RUN_PROBE
        then ((False, Some BACKOFF_WINDOW), reg)
      else (let (ok, reg) = admit reg source_key domain now_s
            in if \<not> ok then ((False, Some BUCKET), reg) else ((True, None), reg)))"

end
