(* ===== verification/BucketsSafety.thy ===== *)
theory BucketsSafety
  imports Buckets
begin

text \<open>
  Properties of the token buckets: the invariant every operation keeps, the burst a bucket
  grants at one instant, the both-or-neither rule of \<open>admit\<close>, the order of the admission gate,
  and the crash checkpoint.
\<close>

section \<open>One bucket\<close>

definition bucket_ok :: "token_bucket \<Rightarrow> bool" where
  "bucket_ok b \<longleftrightarrow> 0 \<le> refill_per_s b \<and> 0 \<le> tokens b \<and> tokens b \<le> capacity b
     \<and> fround (tokens b) = tokens b \<and> fround (capacity b) = capacity b \<and> capacity b < 2 ^ 53"

lemma refill_simps [simp]:
  "capacity (refill b t) = capacity b" "refill_per_s (refill b t) = refill_per_s b" "updated_at (refill b t) = t"
  by (simp_all add: refill_def Let_def)

lemma refill_ge: "bucket_ok b \<Longrightarrow> tokens b \<le> tokens (refill b t)"
  by (auto simp: refill_def Let_def bucket_ok_def
      intro!: flt.rnd_add_ge flt.rnd_nonneg mult_nonneg_nonneg)

lemma refill_ok: "bucket_ok b \<Longrightarrow> bucket_ok (refill b t)"
proof -
  assume ok: "bucket_ok b"
  have "0 \<le> tokens (refill b t)" using refill_ge [OF ok, of t] ok by (auto simp: bucket_ok_def)
  moreover have "tokens (refill b t) \<le> capacity b" by (simp add: refill_def Let_def)
  moreover have "fround (tokens (refill b t)) = tokens (refill b t)"
    using ok by (auto simp: refill_def Let_def min_def flt.rnd_idem bucket_ok_def)
  ultimately show ?thesis using ok by (simp add: bucket_ok_def)
qed

text \<open>A second look at the clock at the same instant changes nothing.\<close>

lemma refill_same: "bucket_ok b \<Longrightarrow> updated_at b = t \<Longrightarrow> refill b t = b"
  by (auto simp: refill_def Let_def bucket_ok_def min_def flt.rnd_zero intro!: token_bucket.equality)

text \<open>Below \<open>2 ^ 53\<close> taking one token is exact.\<close>

lemma fround_minus_one:
  assumes "fround x = x" and "1 \<le> x" and "x < 2 ^ 53"
  shows "fround (x - 1) = x - 1"
proof -
  obtain n e where n: "\<bar>n\<bar> \<le> 2 ^ 53" and x: "x = of_int n * 2 powi e"
  proof -
    have "representable 2 53 x"
      using round_sig_representable [of 2 53 x] assms(1) unfolding fround_def by simp
    then show ?thesis using that by (auto simp: representable_def)
  qed
  show ?thesis
  proof (cases "0 \<le> e")
    case True
    then have "x = of_int (n * 2 ^ nat e)" by (simp add: x power_int_def)
    then obtain k :: int where k: "x = of_int k" by blast
    then have "1 \<le> k" "k < 2 ^ 53" using assms(2,3) by simp_all
    then show ?thesis using fround_of_int [of "k - 1"] by (simp add: k)
  next
    case False
    define j where "j = nat (- e)"
    have e: "e = - int j" using False by (simp add: j_def)
    have pj: "(2 :: rat) powi e = 1 / 2 ^ j" by (simp add: e power_int_minus divide_inverse)
    have "(2 ^ j :: rat) \<le> of_int n" using assms(2) by (simp add: x pj field_simps)
    then have "(of_int (2 ^ j) :: rat) \<le> of_int n" by simp
    then have "2 ^ j \<le> n" by (simp only: of_int_le_iff)
    moreover have "(1 :: int) \<le> 2 ^ j" by simp
    ultimately have "0 \<le> n - 2 ^ j" "n - 2 ^ j \<le> n" "n \<le> 2 ^ 53" using n by linarith+
    then have "0 \<le> n - 2 ^ j" "n - 2 ^ j \<le> 2 ^ 53" by linarith+
    then have m: "\<bar>n - 2 ^ j\<bar> \<le> int 2 ^ 53" by simp
    have "x - 1 = of_int (n - 2 ^ j) * of_nat 2 powi e" by (simp add: x pj field_simps)
    with m have "representable 2 53 (x - 1)" unfolding representable_def by blast
    then show ?thesis unfolding fround_def by (intro round_sig_exact) simp_all
  qed
qed

lemma can_acquire_eq: "can_acquire b t c = (c \<le> tokens (refill b t), refill b t)"
  by (simp add: can_acquire_def Let_def)

lemma acquire_fst: "fst (acquire b t c) \<longleftrightarrow> c \<le> tokens (refill b t)"
  by (simp add: acquire_def can_acquire_eq)

lemma acquire_tokens:
  assumes "bucket_ok b"
  shows "tokens (snd (acquire b t 1)) =
    (if 1 \<le> tokens (refill b t) then tokens (refill b t) - 1 else tokens (refill b t))"
proof -
  have ok: "bucket_ok (refill b t)" by (rule refill_ok [OF assms])
  then have "tokens (refill b t) < 2 ^ 53" by (auto simp: bucket_ok_def)
  then show ?thesis
    using ok fround_minus_one [of "tokens (refill b t)"] by (auto simp: acquire_def can_acquire_eq bucket_ok_def)
qed

lemma acquire_simps [simp]:
  "capacity (snd (acquire b t c)) = capacity b" "refill_per_s (snd (acquire b t c)) = refill_per_s b"
  "updated_at (snd (acquire b t c)) = t"
  by (simp_all add: acquire_def can_acquire_eq)

lemma acquire_ok: "bucket_ok b \<Longrightarrow> bucket_ok (snd (acquire b t 1))"
proof -
  assume ok: "bucket_ok b"
  have r: "bucket_ok (refill b t)" by (rule refill_ok [OF ok])
  then have "1 \<le> tokens (refill b t) \<Longrightarrow> fround (tokens (refill b t) - 1) = tokens (refill b t) - 1"
    by (intro fround_minus_one) (auto simp: bucket_ok_def)
  then show ?thesis using r acquire_tokens [OF ok, of t] by (auto simp: bucket_ok_def)
qed

lemma mk_bucket_ok: "0 \<le> rate \<Longrightarrow> 0 \<le> burst \<Longrightarrow> burst < 2 ^ 53 \<Longrightarrow> bucket_ok (mk_bucket rate burst t)"
  by (auto simp: mk_bucket_def bucket_ok_def fround_of_int intro: flt.rnd_nonneg)

section \<open>A source of whole tokens\<close>

text \<open>
  What a client of a bucket may rely on at one instant: a ask succeeds exactly when a whole token
  is left, and takes exactly that token. \<open>grants\<close> is how many of \<open>n\<close> tries succeed.
\<close>

fun grants :: "('b \<Rightarrow> bool \<times> 'b) \<Rightarrow> nat \<Rightarrow> 'b \<Rightarrow> nat" where
  "grants ask 0 b = 0"
| "grants ask (Suc n) b = (if fst (ask b) then 1 else 0) + grants ask n (snd (ask b))"

locale token_source =
  fixes ok :: "'b \<Rightarrow> bool" and level :: "'b \<Rightarrow> rat" and ask :: "'b \<Rightarrow> bool \<times> 'b"
  assumes ask_ok: "ok b \<Longrightarrow> ok (snd (ask b))"
    and level_nonneg: "ok b \<Longrightarrow> 0 \<le> level b"
    and ask_fst: "ok b \<Longrightarrow> fst (ask b) \<longleftrightarrow> 1 \<le> level b"
    and ask_level: "ok b \<Longrightarrow> level (snd (ask b)) = (if 1 \<le> level b then level b - 1 else level b)"
begin

lemma grants_floor: "ok b \<Longrightarrow> int (grants ask n b) = min (int n) \<lfloor>level b\<rfloor>"
proof (induction n arbitrary: b)
  case 0
  then show ?case using level_nonneg [of b] by simp
next
  case (Suc n)
  have IH: "int (grants ask n (snd (ask b))) = min (int n) \<lfloor>level (snd (ask b))\<rfloor>"
    by (rule Suc.IH [OF ask_ok [OF Suc.prems]])
  show ?case
  proof (cases "1 \<le> level b")
    case True
    then have "\<lfloor>level b - 1\<rfloor> = \<lfloor>level b\<rfloor> - 1" by simp
    then show ?thesis using IH True ask_fst [OF Suc.prems] ask_level [OF Suc.prems] by (simp add: min_def)
  next
    case False
    then have "\<lfloor>level b\<rfloor> = 0" using level_nonneg [OF Suc.prems] by (simp add: floor_eq_iff)
    then show ?thesis using IH False ask_fst [OF Suc.prems] ask_level [OF Suc.prems] by simp
  qed
qed

end

interpretation at: token_source "\<lambda>b. bucket_ok b \<and> updated_at b = t" tokens "\<lambda>b. acquire b t 1" for t
  by unfold_locales (simp_all add: acquire_ok acquire_fst acquire_tokens refill_same, simp add: bucket_ok_def)

text \<open>A freshly configured bucket grants exactly its burst at one instant: of \<open>n\<close> requests at the
  same clock reading it admits \<open>min n burst\<close>, then denies.\<close>

theorem burst_is_exact:
  assumes "0 \<le> rate" and "0 \<le> burst" and "burst < 2 ^ 53"
  shows "int (grants (\<lambda>b. acquire b t 1) n (mk_bucket rate burst t)) = min (int n) burst"
proof -
  have "bucket_ok (mk_bucket rate burst t) \<and> updated_at (mk_bucket rate burst t) = t"
    using mk_bucket_ok [OF assms] by (simp add: mk_bucket_def)
  from at.grants_floor [OF this] show ?thesis
    using assms by (simp add: mk_bucket_def fround_of_int)
qed

theorem burst_is_exact_witness: "int (grants (\<lambda>b. acquire b 7 1) 25 (mk_bucket 30 10 7)) = 10"
  using burst_is_exact [of 30 10 7 25] by simp

section \<open>The registry\<close>

definition buckets_ok :: "(string \<times> token_bucket) list \<Rightarrow> bool" where
  "buckets_ok xs \<longleftrightarrow> distinct (map fst xs) \<and> (\<forall>k b. map_of xs k = Some b \<longrightarrow> bucket_ok b)"

definition registry_ok :: "bucket_registry \<Rightarrow> bool" where
  "registry_ok reg \<longleftrightarrow> buckets_ok (source_buckets reg) \<and> buckets_ok (domain_buckets reg)"

lemma buckets_ok_update [intro]: "buckets_ok xs \<Longrightarrow> bucket_ok b \<Longrightarrow> buckets_ok (AList.update k b xs)"
  by (auto simp: buckets_ok_def update_conv' distinct_update split: if_splits)

lemma put_ok:
  "registry_ok reg \<Longrightarrow> bucket_ok b \<Longrightarrow> registry_ok (put_source reg k b)"
  "registry_ok reg \<Longrightarrow> bucket_ok b \<Longrightarrow> registry_ok (put_domain reg k b)"
  by (auto simp: registry_ok_def put_source_def put_domain_def)

lemma configure_ok:
  assumes "registry_ok reg" and "0 \<le> rate" and "0 \<le> burst" and "burst < 2 ^ 53"
  shows "registry_ok (configure_source reg k rate burst t)" and "registry_ok (configure_domain reg k rate burst t)"
  using assms mk_bucket_ok by (auto simp: registry_ok_def configure_source_def configure_domain_def)

lemma get_domain_ok:
  assumes "registry_ok reg" and "get_domain reg d t = (reg', b)"
  shows "registry_ok reg'" and "bucket_ok b" and "source_buckets reg' = source_buckets reg"
    and "map_of (domain_buckets reg') = (map_of (domain_buckets reg))(d \<mapsto> b)"
proof -
  have "DOMAIN_BURST < 2 ^ 53" "0 \<le> DOMAIN_BURST" "0 \<le> DOMAIN_RATE_PER_MIN"
    by (simp_all add: DOMAIN_BURST_def DOMAIN_RATE_PER_MIN_def)
  note default = configure_ok(2) [OF assms(1) this(3,2,1)] mk_bucket_ok [OF this(3,2,1)]
  show "registry_ok reg'" "bucket_ok b" "source_buckets reg' = source_buckets reg"
    "map_of (domain_buckets reg') = (map_of (domain_buckets reg))(d \<mapsto> b)"
    using assms default
    by (auto simp: get_domain_def configure_domain_def registry_ok_def buckets_ok_def update_conv'
        split: option.splits)
qed

text \<open>The three outcomes of \<open>admit\<close> on a configured source, in terms of the two buckets.\<close>

lemma admit_cases:
  assumes "registry_ok reg" and "map_of (source_buckets reg) s = Some src"
    and "admit reg s d t = (ok, reg')"
  obtains dm where
    "dm = (case map_of (domain_buckets reg) d of Some b \<Rightarrow> b
        | None \<Rightarrow> mk_bucket DOMAIN_RATE_PER_MIN DOMAIN_BURST t)" and "bucket_ok src" and "bucket_ok dm"
    and "ok \<longleftrightarrow> 1 \<le> tokens (refill src t) \<and> 1 \<le> tokens (refill dm t)"
    and "map_of (source_buckets reg') =
      (map_of (source_buckets reg))(s \<mapsto> if ok then snd (acquire src t 1) else refill src t)"
    and "map_of (domain_buckets reg') = (map_of (domain_buckets reg))(d \<mapsto>
      if ok then snd (acquire dm t 1) else if 1 \<le> tokens (refill src t) then refill dm t else dm)"
    and "registry_ok reg'"
proof -
  obtain reg1 dm where g: "get_domain reg d t = (reg1, dm)" by force
  note dm = get_domain_ok [OF assms(1) g]
  have src: "bucket_ok src" using assms(1,2) by (auto simp: registry_ok_def buckets_ok_def)
  have again: "snd (acquire (refill b t) t 1) = snd (acquire b t 1)" if "bucket_ok b" for b
    by (simp add: acquire_def can_acquire_eq refill_same [OF refill_ok [OF that]])
  have fin: "bucket_ok (refill src t)" "bucket_ok (refill dm t)" "bucket_ok (snd (acquire src t 1))"
    "bucket_ok (snd (acquire dm t 1))"
    using src dm(2) by (auto intro: refill_ok acquire_ok)
  have out: "(ok, reg') =
      (if \<not> 1 \<le> tokens (refill src t) then (False, put_source reg1 s (refill src t))
       else if \<not> 1 \<le> tokens (refill dm t)
         then (False, put_domain (put_source reg1 s (refill src t)) d (refill dm t))
       else (True, put_domain (put_source (put_domain (put_source reg1 s (refill src t)) d (refill dm t)) s
         (snd (acquire src t 1))) d (snd (acquire dm t 1))))"
    using assms(3)
    by (cases "1 \<le> tokens (refill src t)"; cases "1 \<le> tokens (refill dm t)")
      (simp_all add: admit_def assms(2) g can_acquire_eq again src dm(2) Let_def)
  have ok': "ok \<longleftrightarrow> 1 \<le> tokens (refill src t) \<and> 1 \<le> tokens (refill dm t)"
    using out by (auto split: if_splits)
  have "dm = (case map_of (domain_buckets reg) d of Some b \<Rightarrow> b
        | None \<Rightarrow> mk_bucket DOMAIN_RATE_PER_MIN DOMAIN_BURST t)"
    using g by (auto simp: get_domain_def split: option.splits)
  moreover have "registry_ok reg'"
    using out dm(1) fin by (auto split: if_splits intro!: put_ok)
  moreover have "map_of (source_buckets reg') =
      (map_of (source_buckets reg))(s \<mapsto> if ok then snd (acquire src t 1) else refill src t)"
    using out dm(3) by (auto simp: put_source_def put_domain_def update_conv' ok' split: if_splits)
  moreover have "map_of (domain_buckets reg') = (map_of (domain_buckets reg))(d \<mapsto>
      if ok then snd (acquire dm t 1) else if 1 \<le> tokens (refill src t) then refill dm t else dm)"
    using out dm(4) by (auto simp: put_source_def put_domain_def update_conv' ok' split: if_splits)
  ultimately show ?thesis using that src dm(2) ok' by blast
qed

lemma admit_unknown: "map_of (source_buckets reg) s = None \<Longrightarrow> admit reg s d t = (False, reg)"
  by (simp add: admit_def)

text \<open>Admission is both-or-neither: a request is admitted exactly when both buckets hold a token
  after their refill, and then each gives exactly one; a denial takes nothing from either, and no other
  bucket changes at all.\<close>

theorem admit_both_or_neither:
  assumes "registry_ok reg" and "map_of (source_buckets reg) s = Some src"
    and "map_of (domain_buckets reg) d = Some dm" and "admit reg s d t = (ok, reg')"
  shows "\<exists>src' dm'. map_of (source_buckets reg') = (map_of (source_buckets reg))(s \<mapsto> src')
     \<and> map_of (domain_buckets reg') = (map_of (domain_buckets reg))(d \<mapsto> dm')
     \<and> (ok \<longleftrightarrow> 1 \<le> tokens (refill src t) \<and> 1 \<le> tokens (refill dm t))
     \<and> (ok \<longrightarrow> tokens src' = tokens (refill src t) - 1 \<and> tokens dm' = tokens (refill dm t) - 1)
     \<and> (\<not> ok \<longrightarrow> tokens src \<le> tokens src' \<and> tokens dm \<le> tokens dm')"
  by (rule admit_cases [OF assms(1,2,4)])
    (auto simp: assms(3) acquire_tokens refill_ge intro!: exI)

section \<open>Every operation keeps the registry sound\<close>

inductive registry_step :: "bucket_registry \<Rightarrow> string \<Rightarrow> bucket_registry \<Rightarrow> bool" where
  configured_source: "\<lbrakk>0 \<le> rate; 0 \<le> burst; burst < 2 ^ 53\<rbrakk>
    \<Longrightarrow> registry_step reg k (configure_source reg k rate burst t)"
| configured_domain: "\<lbrakk>0 \<le> rate; 0 \<le> burst; burst < 2 ^ 53\<rbrakk>
    \<Longrightarrow> registry_step reg k (configure_domain reg k rate burst t)"
| admitted_or_denied: "admit reg k d t = (ok, reg') \<Longrightarrow> registry_step reg k reg'"
| restarted: "load_buckets (save_buckets tab reg) t = Inr reg' \<Longrightarrow> registry_step reg k reg'"

lemma load_dump: "load_bucket (dump_bucket b) = Inr b"
  by (simp add: load_bucket_def dump_bucket_def insert_commute)

lemma update_absent: "k \<notin> fst ` set xs \<Longrightarrow> AList.update k b xs = xs @ [(k, b)]"
  by (induction xs) auto

lemma load_buckets_from_dump:
  "distinct (map fst xs) \<Longrightarrow> fst ` set xs \<inter> fst ` set out = {} \<Longrightarrow>
     load_buckets_from out (map (\<lambda>(k, b). (k, dump_bucket b)) xs) = Inr (out @ xs)"
proof (induction xs arbitrary: out)
  case (Cons x xs)
  obtain k b where x: "x = (k, b)" by force
  have upd: "AList.update k b out = out @ [(k, b)]"
    using Cons.prems(2) by (intro update_absent) (simp add: x)
  have "load_buckets_from (out @ [(k, b)]) (map (\<lambda>(k, b). (k, dump_bucket b)) xs) = Inr ((out @ [(k, b)]) @ xs)"
    using Cons.prems by (intro Cons.IH) (auto simp: x)
  then show ?case by (simp add: x load_dump upd)
qed simp

lemma from_to_state: "registry_ok reg \<Longrightarrow> from_state (to_state reg) = Inr reg"
  by (simp add: from_state_def to_state_def state_get_def load_buckets_from_dump registry_ok_def buckets_ok_def)

lemma load_save:
  assumes "registry_ok reg"
  shows "load_buckets (save_buckets tab reg) t = Inr
     \<lparr>source_buckets = rebase t (source_buckets reg), domain_buckets = rebase t (domain_buckets reg)\<rparr>"
  by (simp add: load_buckets_def save_buckets_def from_to_state [OF assms])

lemma map_of_rebase: "map_of (rebase t xs) k = map_option (\<lambda>b. b\<lparr>updated_at := t\<rparr>) (map_of xs k)"
  by (induction xs) (auto simp: rebase_def)

lemma rebase_ok: "buckets_ok xs \<Longrightarrow> buckets_ok (rebase t xs)"
proof -
  assume a: "buckets_ok xs"
  have "map fst (rebase t xs) = map fst xs" by (auto simp: rebase_def)
  with a show ?thesis by (auto simp: buckets_ok_def map_of_rebase bucket_ok_def)
qed

interpretation registry: invariant registry_step registry_ok
proof unfold_locales
  fix reg k reg'
  assume "registry_step reg k reg'" and ok: "registry_ok reg"
  then show "registry_ok reg'"
  proof (cases rule: registry_step.cases)
    case (admitted_or_denied d t res)
    then show ?thesis
      by (cases "map_of (source_buckets reg) k") (use ok in \<open>auto simp: admit_unknown elim: admit_cases [OF ok]\<close>)
  next
    case (restarted tab t)
    then show ?thesis
      using ok rebase_ok by (auto simp: load_save [OF ok] registry_ok_def)
  qed (auto intro: configure_ok ok)
qed

text \<open>C39: Through configuration, admissions, denials and restarts from the checkpoint, every bucket of
  the registry holds between zero and its capacity of tokens.\<close>

theorem tokens_stay_in_capacity:
  assumes "steps registry_step empty_registry ks reg"
    and "map_of (source_buckets reg) k = Some b \<or> map_of (domain_buckets reg) k = Some b"
  shows "0 \<le> tokens b \<and> tokens b \<le> capacity b"
proof -
  have "registry_ok empty_registry" by (simp add: empty_registry_def registry_ok_def buckets_ok_def)
  from registry.steps_inv [OF assms(1) this] assms(2) show ?thesis
    by (auto simp: registry_ok_def buckets_ok_def bucket_ok_def)
qed

section \<open>The crash checkpoint\<close>

text \<open>A restart loses no state and grants no credit: loading what was saved returns every bucket
  with its own capacity, rate and tokens and the new process's clock, so at that instant it holds exactly
  what it held when it was saved.\<close>

theorem restart_grants_no_credit:
  assumes "registry_ok reg"
  shows "\<exists>reg'. load_buckets (save_buckets tab reg) t = Inr reg'
     \<and> map_of (source_buckets reg') = (\<lambda>k. map_option (\<lambda>b. b\<lparr>updated_at := t\<rparr>) (map_of (source_buckets reg) k))
     \<and> map_of (domain_buckets reg') = (\<lambda>k. map_option (\<lambda>b. b\<lparr>updated_at := t\<rparr>) (map_of (domain_buckets reg) k))
     \<and> (\<forall>k b. map_of (source_buckets reg') k = Some b \<longrightarrow> refill b t = b)"
  using assms
  by (auto simp: load_save fun_eq_iff map_of_rebase registry_ok_def buckets_ok_def
      intro!: refill_same) (auto simp: bucket_ok_def)

section \<open>The gate\<close>

text \<open>The gate checks in order and burns nothing above the buckets: a run is admitted only when its
  source is enabled, not skipped, and (except for a recovery probe) neither paused nor inside its back-off
  window; every denial for one of those reasons returns the registry unchanged.\<close>

theorem gate_order:
  assumes "check_admission enabled state kind until now reg s d t = ((admitted, reason), reg')"
  shows "(admitted \<longrightarrow> enabled \<and> state \<noteq> SKIP \<and> reason = None
        \<and> (kind = RUN_PROBE \<or> state \<noteq> PAUSED_PENDING_FIX \<and> (\<forall>u. until = Some u \<longrightarrow> u \<le> now))
        \<and> admit reg s d t = (True, reg'))
    \<and> (\<not> admitted \<longrightarrow> reason \<noteq> None \<and> (reason \<noteq> Some BUCKET \<longrightarrow> reg' = reg)
        \<and> (reason = Some BUCKET \<longrightarrow> admit reg s d t = (False, reg')))"
  using assms
  by (auto simp: check_admission_def Let_def split: if_splits prod.splits option.splits)

section \<open>Examples\<close>

definition sample_registry :: bucket_registry where
  "sample_registry = configure_domain (configure_source empty_registry ''shop'' 60 2 0) ''shop.example'' 30 1 0"

lemma sample_registry_ok: "registry_ok sample_registry"
  unfolding sample_registry_def
  by (intro configure_ok) (simp_all add: empty_registry_def registry_ok_def buckets_ok_def)

lemmas registry_eval = sample_registry_def configure_source_def configure_domain_def empty_registry_def
  mk_bucket_def fround_num

theorem admit_both_or_neither_witness:
  "\<exists>reg' src' dm'. admit sample_registry ''shop'' ''shop.example'' 0 = (True, reg')
     \<and> map_of (source_buckets reg') ''shop'' = Some src' \<and> tokens src' = 1
     \<and> map_of (domain_buckets reg') ''shop.example'' = Some dm' \<and> tokens dm' = 0"
proof -
  have src: "map_of (source_buckets sample_registry) ''shop'' = Some (mk_bucket 60 2 0)"
    and dm: "map_of (domain_buckets sample_registry) ''shop.example'' = Some (mk_bucket 30 1 0)"
    by (simp_all add: sample_registry_def configure_source_def configure_domain_def empty_registry_def)
  have lv: "tokens (refill (mk_bucket 60 2 0) 0) = 2" "tokens (refill (mk_bucket 30 1 0) 0) = 1"
    by (simp_all add: refill_def mk_bucket_def fround_num Let_def)
  obtain ok reg' where out: "admit sample_registry ''shop'' ''shop.example'' 0 = (ok, reg')" by force
  show ?thesis
    using admit_both_or_neither [OF sample_registry_ok src dm out] out by (auto simp: lv)
qed

theorem tokens_stay_in_capacity_witness:
  "\<exists>b. map_of (source_buckets (configure_source empty_registry ''shop'' 60 2 0)) ''shop'' = Some b
     \<and> 0 \<le> tokens b \<and> tokens b \<le> capacity b"
proof -
  let ?reg = "configure_source empty_registry ''shop'' 60 2 0"
  have run: "steps registry_step empty_registry [''shop''] ?reg"
    by (auto simp: steps_simps intro!: registry_step.configured_source)
  show ?thesis
    using tokens_stay_in_capacity [OF run, of "''shop''" "mk_bucket 60 2 0"]
    by (simp add: configure_source_def empty_registry_def)
qed

theorem restart_grants_no_credit_witness:
  "\<exists>reg' b. load_buckets (save_buckets (\<lambda>_. None) sample_registry) 99 = Inr reg'
     \<and> map_of (source_buckets reg') ''shop'' = Some b \<and> tokens b = 2 \<and> updated_at b = 99"
  using restart_grants_no_credit [OF sample_registry_ok, of "\<lambda>_. None" 99]
  by (auto simp: registry_eval)

theorem gate_order_witness:
  "snd (check_admission True PAUSED_PENDING_FIX RUN_FULL None 0 sample_registry ''shop'' ''shop.example'' 0)
     = sample_registry"
proof -
  have out: "check_admission True PAUSED_PENDING_FIX RUN_FULL None 0 sample_registry ''shop'' ''shop.example'' 0
      = ((False, Some PAUSED), sample_registry)"
    by (simp add: check_admission_def)
  from gate_order [OF out] show ?thesis by (simp add: out)
qed

end
