(* ===== verification/LedgerRows.thy ===== *)
theory LedgerRows
  imports AdmissionSafety Scheduling
begin

text \<open>
  The tables of the Apify spend ledger (\<open>catalog/models/provider.py\<close>): the reservation row with
  its CHECK constraints, usage reads, billing cycles, latch trips and authority rows, and the
  inserts the ledger makes. A table is the list of its rows in primary-key order. A row that
  breaks a CHECK or a foreign key is an \<open>IntegrityError\<close>, a value that does not fit its column a
  \<open>DataError\<close>, and either rolls the transaction back. An instant is microseconds; adding to one
  past the range of \<open>datetime\<close> is an \<open>OverflowError\<close>.
\<close>

section \<open>Errors and instants\<close>

text \<open>
  A failed call of the client: an API error with its status code, another of its own errors by type, or a
  failure of the transport, which is not one of its errors and which \<open>except ApifyError\<close> lets through.
\<close>

datatype client_error = ApiError int | ClientError string | TransportError string

definition is_apify_error :: "client_error \<Rightarrow> bool" where
  "is_apify_error e = (case e of TransportError _ \<Rightarrow> False | _ \<Rightarrow> True)"

text \<open>What a transaction or a job may end with: \<open>OtherError\<close> is any other exception, by type.\<close>

datatype ledger_error = LedgerRefused string | Raised budget_error | DateOverflow
  | IntegrityError | DataError | NoSuchRow | CallError client_error | OtherError string

text \<open>An exception of the budget module passing through the ledger.\<close>

definition lift_budget :: "budget_error + 'a \<Rightarrow> ledger_error + 'a" where
  "lift_budget r = (case r of Inl e \<Rightarrow> Inl (Raised e) | Inr x \<Rightarrow> Inr x)"

lemma lift_budget_simps [simp]:
  "lift_budget (Inr x) = Inr x" "lift_budget (Inl e) = Inl (Raised e)"
  by (simp_all add: lift_budget_def)

lemma lift_budget_eq_Inr: "lift_budget r = Inr x \<longleftrightarrow> r = Inr x"
  by (cases r) simp_all

definition datetime_min :: instant where "datetime_min = usec_per_day"

definition datetime_max :: instant where "datetime_max = 3652060 * usec_per_day - 1"

definition in_datetime_range :: "instant \<Rightarrow> bool" where
  "in_datetime_range t \<longleftrightarrow> datetime_min \<le> t \<and> t \<le> datetime_max"

text \<open>\<open>_NEVER\<close>: the first of January of the year 9000.\<close>

definition NEVER :: instant where
  "NEVER = instant_of \<lparr>d_year = 9000, d_month = 1, d_day = 1, dt_us = 0\<rparr>"

section \<open>Reservations\<close>

datatype reservation_status = RESERVED | USAGE_PROVISIONAL | USAGE_FINALIZED | RECONCILED
  | RELEASED | DENIED

datatype settlement_basis = STABLE_READS | BASIS_BOUND | BOUND_UNFINALIZED

datatype cost_mode = COST_BOUND | COST_COUNTED

record reservation =
  rv_id :: int
  rv_run :: "int option"
  rv_site :: "int option"
  rv_class :: budget_class
  rv_kind :: "operator_kind option"
  rv_build_id :: "string option"
  rv_status :: reservation_status
  rv_denial :: "denial_reason option"
  rv_reason :: string
  rv_probe_dataset :: "string option"
  rv_estimate :: "rat option"
  rv_execution :: "rat option"
  rv_post_run :: "rat option"
  rv_monitoring :: "rat option"
  rv_components :: "(string \<times> rat) list"
  rv_version :: string
  rv_env_items :: "int option"
  rv_env_record_reads :: "int option"
  rv_env_bytes :: "int option"
  rv_env_calls :: "int option"
  rv_usage_provisional :: "rat option"
  rv_usage_finalized :: "rat option"
  rv_usage_finalized_at :: "instant option"
  rv_basis :: "settlement_basis option"
  rv_settled_usage :: "rat option"
  rv_post_run_cost :: "rat option"
  rv_cost_mode :: "cost_mode option"
  rv_actual :: "rat option"
  rv_reserved_at :: instant
  rv_reconciled_at :: "instant option"
  rv_last_charge_at :: "instant option"
  rv_monitor_until :: "instant option"
  rv_next_usage_read_at :: "instant option"
  rv_monitor_closed_at :: "instant option"
  rv_closing_read :: "int option"
  rv_monitoring_charge_last_at :: "instant option"
  rv_monitoring_call_pending_since :: "instant option"
  rv_run_polls :: nat
  rv_correction_reads :: nat

definition is_runtime :: "budget_class \<Rightarrow> bool" where
  "is_runtime c \<longleftrightarrow> c \<in> {WATCH_REFRESH, DISCOVERY}"

definition reservation_money :: "reservation \<Rightarrow> rat option list" where
  "reservation_money r = [rv_estimate r, rv_actual r, rv_execution r, rv_post_run r, rv_monitoring r,
     rv_usage_provisional r, rv_usage_finalized r, rv_post_run_cost r, rv_settled_usage r]"

definition opt_all :: "('a \<Rightarrow> bool) \<Rightarrow> 'a option \<Rightarrow> bool" where
  "opt_all p v = (case v of None \<Rightarrow> True | Some x \<Rightarrow> p x)"

lemma opt_all_simps [simp]: "opt_all p None" "opt_all p (Some x) = p x"
  by (simp_all add: opt_all_def)

text \<open>The envelope limits a non-denied row carries, by operator kind.\<close>

definition envelope_by_kind :: "reservation \<Rightarrow> bool" where
  "envelope_by_kind r =
     (case rv_kind r of
        Some INSPECT \<Rightarrow> rv_env_items r \<noteq> None \<and> rv_env_record_reads r \<noteq> None
          \<and> rv_env_bytes r \<noteq> None \<and> rv_env_calls r = None
      | Some PROBE \<Rightarrow> rv_env_items r = None \<and> rv_env_record_reads r = None
          \<and> rv_env_bytes r = None \<and> rv_env_calls r \<noteq> None
      | _ \<Rightarrow> rv_env_items r = None \<and> rv_env_record_reads r = None
          \<and> rv_env_bytes r = None \<and> rv_env_calls r = None)"

text \<open>The CHECK constraints of \<open>apify_spend_reservation\<close>, in the order of the model.\<close>

definition reservation_checks :: "reservation \<Rightarrow> bool" where
  "reservation_checks r \<longleftrightarrow>
     (rv_class r = OPERATOR \<longleftrightarrow> rv_kind r \<noteq> None)
     \<and> (rv_run r = None \<or> is_runtime (rv_class r) \<and> rv_status r \<noteq> DENIED)
     \<and> (\<not> is_runtime (rv_class r)
        \<or> rv_status r \<notin> {USAGE_PROVISIONAL, USAGE_FINALIZED, RECONCILED} \<or> rv_run r \<noteq> None)
     \<and> (\<not> is_runtime (rv_class r) \<or> rv_site r \<noteq> None)
     \<and> (rv_status r = DENIED \<longleftrightarrow> rv_denial r \<noteq> None)
     \<and> (rv_status r = DENIED \<or> rv_estimate r \<noteq> None \<and> rv_monitoring r \<noteq> None)
     \<and> (rv_kind r \<notin> {Some INSPECT, Some PROBE} \<or> opt_all (\<lambda>m. m = 0) (rv_monitoring r))
     \<and> (rv_status r = DENIED \<or> envelope_by_kind r)
     \<and> (rv_probe_dataset r = None \<or> rv_kind r = Some PROBE)
     \<and> (rv_build_id r = None \<or> rv_kind r = Some BUILD)
     \<and> (\<not> (rv_kind r = Some BUILD \<and> rv_status r = RECONCILED) \<or> rv_build_id r \<noteq> None)
     \<and> (rv_status r \<noteq> RECONCILED
        \<or> rv_actual r \<noteq> None \<and> rv_reconciled_at r \<noteq> None \<and> rv_last_charge_at r \<noteq> None)
     \<and> (rv_usage_finalized r = None \<longleftrightarrow> rv_usage_finalized_at r = None)
     \<and> (if rv_monitor_closed_at r = None then rv_closing_read r = None
        else rv_closing_read r \<noteq> None \<and> rv_monitor_until r \<noteq> None)
     \<and> list_all (opt_all (\<lambda>m. 0 \<le> m)) (reservation_money r)"

text \<open>
  What the column types hold: \<open>numeric(10,4)\<close> money (the ledger's amounts have four decimals),
  32-bit envelope counts, 64-bit envelope bytes, a version of at most 50 characters.
\<close>

definition money_fits :: "rat \<Rightarrow> bool" where "money_fits m \<longleftrightarrow> \<bar>m\<bar> < 1000000"

definition reservation_fits :: "reservation \<Rightarrow> bool" where
  "reservation_fits r \<longleftrightarrow> list_all (opt_all money_fits) (reservation_money r)
     \<and> list_all (opt_all (\<lambda>n. 0 \<le> n \<and> n < 2 ^ 31)) [rv_env_items r, rv_env_record_reads r, rv_env_calls r]
     \<and> opt_all (\<lambda>n. 0 \<le> n \<and> n < 2 ^ 63) (rv_env_bytes r)
     \<and> length (rv_version r) \<le> 50"

section \<open>The other tables\<close>

text \<open>
  A \<open>provider_run\<close>: identity, admitted scope, remote execution, and local work. The keys of
  \<open>stage_detail\<close> that code reads back are columns of their own: the recorded start error's status
  code, the start mismatches, the unit failures, the storages verified deleted, the rejection.
\<close>

datatype import_state = IMPORT_PENDING | OBSERVATIONS_COMMITTED | ABSENCE_APPLIED | IMPORT_RESOLVED
  | IMPORT_EVALUATED | IMPORT_FINALIZED | IMPORT_REJECTED

datatype storage_state = STORAGE_RETAINED | STORAGE_DELETED | STORAGE_DELETE_FAILED

datatype storage = DATASET | KV_STORE

datatype start_mismatch = MemoryDiffers | TimeoutDiffers | BuildTagDiffers | RestartOnError | Restarted
  | BuildNumberUnreported | BuildOutsideLine

datatype reject_reason = FAILED_RUN | INVALID_CONTRACT | UNKNOWN_RETENTION | STORAGE_DEADLINE_PASSED | CONTENT_PAST_TTL
  | READ_CAP_EXHAUSTED | START_MISMATCHED

datatype cleanup_error = AbortNonTerminal | AbortFailed client_error | ReadNonTerminal | ReadFailed client_error
  | IdUnknown storage | DeleteFailed storage client_error | AbsentNotTrusted storage

record provider_run =
  pr_id :: int
  pr_site :: int
  pr_external_id :: "string option"
  pr_key :: "string option"
  pr_build_id :: "string option"
  pr_build_number :: "string option"
  pr_scope_key :: string
  pr_memory_mb :: int
  pr_timeout_s :: int
  pr_max_items :: int
  pr_max_pages :: int
  pr_class :: budget_class
  pr_run_kind :: run_kind
  pr_admitted_at :: instant
  pr_remote_status :: "string option"
  pr_remote_terminal_at :: "instant option"
  pr_started_at :: "instant option"
  pr_finished_at :: "instant option"
  pr_usage_total :: "rat option"
  pr_usage_read_at :: "instant option"
  pr_dataset_id :: "string option"
  pr_kv_store_id :: "string option"
  pr_import_state :: import_state
  pr_next_attempt_at :: "instant option"
  pr_dataset_reads :: nat
  pr_kv_reads :: nat
  pr_run_polls :: nat
  pr_correction_reads :: nat
  pr_final_charge_op_at :: "instant option"
  pr_storage_state :: storage_state
  pr_cleanup_due_at :: instant
  pr_cleanup_attempts :: nat
  pr_storage_deleted_at :: "instant option"
  pr_orphaned_at :: "instant option"
  pr_start_status :: "int option"
  pr_start_mismatch :: "start_mismatch list"
  pr_unit_failures :: "nat option"
  pr_restart_count :: "int option"
  pr_verified_deleted :: "storage list"
  pr_cleanup_errors :: "cleanup_error list option"
  pr_reject_reason :: "reject_reason option"
  pr_import_attempts :: nat
  pr_listing_ids :: "int list"
  pr_retry_exhausted :: "nat option"
  pr_blocked_by_latch :: bool

text \<open>
  A usage read: append-only. The breakdown is a JSON object from component to the text of its
  amount; the lists are in the order of the object, whose keys are distinct.
\<close>

record usage_read =
  ur_id :: int
  ur_reservation :: int
  ur_run :: "int option"
  ur_read_at :: instant
  ur_total :: "rat option"
  ur_usage :: "(string \<times> string) list"
  ur_finished_at :: "instant option"
  ur_version :: string

record budget_cycle =
  cy_id :: int
  cy_start :: instant
  cy_end :: instant
  cy_allocation :: "rat option"
  cy_opened_at :: instant

datatype latch_reason = OVERRUN | POST_ADMISSION_INVARIANT_BREACH | UNEXPECTED_USAGE_COMPONENT
  | DATASET_OVER_CAP | KV_STORE_OVER_CAP | START_OPTION_MISMATCH | DELETE_ATTEMPTS_EXHAUSTED
  | ORPHANED_START | API_RESPONSE_OVER_CAP | ACCOUNT_LIMIT_REFUSED

datatype clear_reason = BumpedTo string | OwnerReset string

record latch_trip =
  la_tripped_at :: instant
  la_run :: "int option"
  la_reason :: latch_reason
  la_cleared :: "(instant \<times> clear_reason) option"
  la_version :: string

text \<open>CHECK \<open>apify_latch_cleared_after_trip\<close>; the reason of a clear is part of the clear.\<close>

definition latch_checks :: "latch_trip \<Rightarrow> bool" where
  "latch_checks t = opt_all (\<lambda>c. la_tripped_at t \<le> fst c) (la_cleared t)"

datatype authority_kind = ORIGIN | HANDOFF | CONTINUED

text \<open>The typed content of a handoff record: what \<open>_build_record\<close> puts into the JSON object.\<close>

record obligation =
  ob_reservation :: int
  ob_until :: "instant option"
  ob_read_at :: "instant option"
  ob_read_usage :: "rat option"
  ob_settled :: "rat option"

record handoff_record =
  hr_version :: int
  hr_source :: string
  hr_destination :: string
  hr_cycle_start :: instant
  hr_cycle_end :: instant
  hr_exported_at :: instant
  hr_lines :: "(string \<times> rat) list"
  hr_carried :: rat
  hr_open_reservations :: int
  hr_open_monitoring :: int
  hr_obligations :: "obligation list"

record authority =
  au_cycle_start :: instant
  au_kind :: authority_kind
  au_ledger_id :: string
  au_carried :: rat
  au_attested_by :: string
  au_created_at :: instant
  au_handed_off :: "(instant \<times> string \<times> handoff_record \<times> string) option"
  au_imported_digest :: "string option"

text \<open>
  The CHECKs of \<open>apify_ledger_authority\<close>. The four hand-off columns are all NULL or all set
  (\<open>apify_authority_handoff_binds_destination\<close>), so they are one optional tuple: time,
  destination, record, digest.
\<close>

definition authority_checks :: "authority \<Rightarrow> bool" where
  "authority_checks a \<longleftrightarrow> au_ledger_id a \<noteq> [] \<and> (au_kind a \<noteq> ORIGIN \<or> au_attested_by a \<noteq> [])
     \<and> (au_kind a = HANDOFF \<longleftrightarrow> au_imported_digest a \<noteq> None) \<and> 0 \<le> au_carried a"

definition authority_fits :: "authority \<Rightarrow> bool" where
  "authority_fits a \<longleftrightarrow> length (au_ledger_id a) \<le> 100 \<and> money_fits (au_carried a)
     \<and> length (au_attested_by a) \<le> 200 \<and> opt_all (\<lambda>d. length d \<le> 128) (au_imported_digest a)"

record ledger_db =
  sites :: "int list"
  runs :: "provider_run list"
  reservations :: "reservation list"
  reads :: "usage_read list"
  cycles :: "budget_cycle list"
  trips :: "latch_trip list"
  authorities :: "authority list"
  next_id :: int

section \<open>Inserts\<close>

definition insert_reservation :: "ledger_db \<Rightarrow> reservation \<Rightarrow> ledger_error + ledger_db \<times> int" where
  "insert_reservation db r =
     (let row = r\<lparr>rv_id := next_id db\<rparr> in
      andThen (raise_if (\<not> reservation_fits row) DataError) (\<lambda>_.
      andThen (raise_if (\<not> reservation_checks row
        \<or> (case rv_site row of None \<Rightarrow> False | Some s \<Rightarrow> s \<notin> set (sites db))) IntegrityError) (\<lambda>_.
      Inr (db\<lparr>reservations := reservations db @ [row], next_id := next_id db + 1\<rparr>, next_id db))))"

definition insert_authority :: "ledger_db \<Rightarrow> authority \<Rightarrow> ledger_error + ledger_db" where
  "insert_authority db a =
     andThen (raise_if (\<not> authority_fits a) DataError) (\<lambda>_.
     andThen (raise_if (\<not> authority_checks a
       \<or> (\<exists>b \<in> set (authorities db). au_cycle_start b = au_cycle_start a
            \<or> au_imported_digest a \<noteq> None \<and> au_imported_digest b = au_imported_digest a)) IntegrityError) (\<lambda>_.
     Inr (db\<lparr>authorities := authorities db @ [a]\<rparr>)))"

definition insert_trip :: "ledger_db \<Rightarrow> latch_trip \<Rightarrow> ledger_error + ledger_db" where
  "insert_trip db t =
     andThen (raise_if (50 < length (la_version t)) DataError) (\<lambda>_.
     andThen (raise_if (\<not> latch_checks t) IntegrityError) (\<lambda>_.
     Inr (db\<lparr>trips := trips db @ [t]\<rparr>)))"

definition insert_cycle :: "ledger_db \<Rightarrow> budget_cycle \<Rightarrow> ledger_error + ledger_db \<times> budget_cycle" where
  "insert_cycle db c =
     (let row = c\<lparr>cy_id := next_id db\<rparr> in
      andThen (raise_if (\<not> opt_all money_fits (cy_allocation row)) DataError) (\<lambda>_.
      andThen (raise_if (\<not> (cy_start row < cy_end row) \<or> \<not> opt_all (\<lambda>m. 0 \<le> m) (cy_allocation row)
        \<or> (\<exists>d \<in> set (cycles db). cy_start d = cy_start row)) IntegrityError) (\<lambda>_.
      Inr (db\<lparr>cycles := cycles db @ [row], next_id := next_id db + 1\<rparr>, row))))"

section \<open>Configuration\<close>

record ledger_config =
  budget :: budget_settings
  ledger_id :: string
  usage_settle_delay_s :: "int option"
  usage_stable_reads :: "int option"
  usage_stable_interval_s :: "int option"
  usage_finalize_deadline_s :: "int option"
  correction_window_s :: "int option"
  post_run_cost_mode :: string
  run_usage_settlement :: string

definition UNBOUNDED_GUARD :: timedelta where "UNBOUNDED_GUARD = days 3650"

text \<open>\<open>_guard\<close>; a \<open>timedelta\<close> of more than 999999999 days is an \<open>OverflowError\<close>.\<close>

definition guard_of :: "ledger_config \<Rightarrow> ledger_error + timedelta" where
  "guard_of config =
     (case cycle_boundary_guard_s (budget config) of
        None \<Rightarrow> Inr UNBOUNDED_GUARD
      | Some g \<Rightarrow> if g < 0 then Inr UNBOUNDED_GUARD
          else if days 999999999 + days 1 \<le> seconds g then Inl DateOverflow
          else Inr (seconds g))"

lemma guard_of_nonneg: "guard_of config = Inr g \<Longrightarrow> 0 \<le> g"
  by (auto simp: guard_of_def UNBOUNDED_GUARD_def timedelta_defs split: option.splits if_splits)

end
