(* ===== verification/LedgerDebits.thy ===== *)
theory LedgerDebits
  imports LedgerRows
begin

text \<open>
  The debits of a billing cycle (\<open>acquisition/apify/ledger.py\<close>: \<open>_touches\<close>, \<open>_Tally\<close>, \<open>_tally\<close>,
  \<open>cycle_debits\<close>, \<open>_snapshot\<close>), summed from reservation rows by the MS2-D-34 cycle predicate, with
  the specification they refine: for each row, exactly the amounts whose interval meets the cycle.
\<close>

section \<open>The tally\<close>

definition touches :: "instant \<Rightarrow> instant \<Rightarrow> instant \<Rightarrow> instant \<Rightarrow> bool" where
  "touches start end' y_start y_end \<longleftrightarrow> start \<le> y_end \<and> y_start \<le> end'"

record tally =
  runtime_settled :: rat
  runtime_open :: rat
  runtime_monitoring :: rat
  operator_settled :: rat
  operator_open :: rat
  operator_monitoring :: rat
  carried :: rat
  obligations :: "reservation list"

definition empty_tally :: tally where
  "empty_tally = \<lparr>runtime_settled = 0, runtime_open = 0, runtime_monitoring = 0, operator_settled = 0,
     operator_open = 0, operator_monitoring = 0, carried = 0, obligations = []\<rparr>"

text \<open>\<open>_Tally.debits\<close>; the trailing figure is not filled in here and stays at its default.\<close>

definition tally_debits :: "tally \<Rightarrow> cycle_debits" where
  "tally_debits t =
     \<lparr>runtime_committed_usd = dadd (dadd (runtime_settled t) (runtime_open t)) (runtime_monitoring t),
      operator_committed_usd = dadd (dadd (operator_settled t) (operator_open t)) (operator_monitoring t),
      carried_handoff_usd = carried t, trailing_31d_usd = 0\<rparr>"

definition has_obligation :: "reservation \<Rightarrow> bool" where
  "has_obligation r \<longleftrightarrow> rv_kind r \<notin> {Some INSPECT, Some PROBE}"

text \<open>The attached run is looked up by key; a row without one counts its own reads.\<close>

definition correction_reads :: "ledger_db \<Rightarrow> reservation \<Rightarrow> nat" where
  "correction_reads db r =
     (case rv_run r of
        None \<Rightarrow> rv_correction_reads r
      | Some k \<Rightarrow> (case first_such (\<lambda>p. pr_id p = k) (runs db) of
          Some p \<Rightarrow> pr_correction_reads p
        | None \<Rightarrow> rv_correction_reads r))"

definition monitoring_open :: "ledger_db \<Rightarrow> reservation \<Rightarrow> ledger_config \<Rightarrow> bool" where
  "monitoring_open db r config =
     (if rv_monitoring_call_pending_since r \<noteq> None then True
      else if \<not> has_obligation r \<or> rv_monitor_closed_at r \<noteq> None then False
      else (case max_correction_reads (budget config) of
          None \<Rightarrow> True
        | Some read_cap \<Rightarrow> int (correction_reads db r) < read_cap))"

text \<open>The SQL prefilter; a comparison with NULL is not true.\<close>

definition some_ge :: "instant option \<Rightarrow> instant \<Rightarrow> bool" where
  "some_ge v t = (case v of None \<Rightarrow> False | Some x \<Rightarrow> t \<le> x)"

lemma some_ge_simps [simp]: "\<not> some_ge None t" "some_ge (Some x) t = (t \<le> x)"
  by (simp_all add: some_ge_def)

definition open_statuses :: "reservation_status list" where
  "open_statuses = [RESERVED, USAGE_PROVISIONAL, USAGE_FINALIZED]"

definition prefilter :: "timedelta \<Rightarrow> instant \<Rightarrow> instant \<Rightarrow> reservation \<Rightarrow> bool" where
  "prefilter g y_start y_end r \<longleftrightarrow>
     (rv_status r \<in> set open_statuses
      \<or> rv_status r = RECONCILED
        \<and> (some_ge (rv_last_charge_at r) (y_start - g) \<or> some_ge (rv_reconciled_at r) (y_start - g)
           \<or> some_ge (rv_monitoring_charge_last_at r) (y_start - g)
           \<or> rv_monitor_closed_at r = None \<or> rv_monitoring_call_pending_since r \<noteq> None))
     \<and> rv_reserved_at r \<le> y_end + g"

text \<open>The end of the monitoring interval of a reconciled row.\<close>

definition monitoring_end :: "ledger_db \<Rightarrow> ledger_config \<Rightarrow> timedelta \<Rightarrow> reservation \<Rightarrow> instant" where
  "monitoring_end db config g r =
     (if monitoring_open db r config then NEVER
      else (case rv_monitoring_charge_last_at r of
          Some t \<Rightarrow> t + g
        | None \<Rightarrow> the (rv_reconciled_at r) + g))"

definition amount :: "rat option \<Rightarrow> rat" where
  "amount v = (case v of None \<Rightarrow> 0 | Some x \<Rightarrow> x)"

text \<open>The body of the loop over the rows.\<close>

definition tally_row ::
  "ledger_db \<Rightarrow> ledger_config \<Rightarrow> timedelta \<Rightarrow> instant \<Rightarrow> instant \<Rightarrow> reservation \<Rightarrow> tally \<Rightarrow> tally" where
  "tally_row db config g y_start y_end r t =
     (let operator = (rv_class r = OPERATOR);
          start = rv_reserved_at r - g
      in if rv_status r \<noteq> RECONCILED then
           (let a = dadd (amount (rv_estimate r)) (amount (rv_monitoring r))
            in if operator then t\<lparr>operator_open := dadd (operator_open t) a\<rparr>
               else t\<lparr>runtime_open := dadd (runtime_open t) a\<rparr>)
         else
           (let charged = touches start (the (rv_last_charge_at r) + g) y_start y_end;
                settled = amount (rv_actual r);
                t = (if charged then
                       (if operator then t\<lparr>operator_settled := dadd (operator_settled t) settled\<rparr>
                        else t\<lparr>runtime_settled := dadd (runtime_settled t) settled\<rparr>)
                     else t)
            in if touches (the (rv_reconciled_at r) - g) (monitoring_end db config g r) y_start y_end then
                 (let allowance = amount (rv_monitoring r);
                      t = (if operator then t\<lparr>operator_monitoring := dadd (operator_monitoring t) allowance\<rparr>
                           else t\<lparr>runtime_monitoring := dadd (runtime_monitoring t) allowance\<rparr>)
                  in if has_obligation r then t\<lparr>obligations := obligations t @ [r]\<rparr> else t)
               else if has_obligation r \<and> charged then t\<lparr>obligations := obligations t @ [r]\<rparr>
               else t))"

text \<open>
  The instants a row's arithmetic computes. Python raises \<open>OverflowError\<close> for one outside the
  range of \<open>datetime\<close> and \<open>AssertionError\<close> for a reconciled row without its clocks; the sums have
  no other effect, so both are checked before the sum.
\<close>

definition row_instants :: "ledger_db \<Rightarrow> ledger_config \<Rightarrow> timedelta \<Rightarrow> reservation \<Rightarrow> instant list" where
  "row_instants db config g r =
     (rv_reserved_at r - g) #
     (if rv_status r \<noteq> RECONCILED then []
      else [the (rv_last_charge_at r) + g, the (rv_reconciled_at r) - g, monitoring_end db config g r])"

definition row_asserts :: "reservation \<Rightarrow> bool" where
  "row_asserts r \<longleftrightarrow> rv_status r = RECONCILED \<longrightarrow> rv_last_charge_at r \<noteq> None \<and> rv_reconciled_at r \<noteq> None"

definition tally_of ::
  "ledger_db \<Rightarrow> instant \<Rightarrow> instant \<Rightarrow> ledger_config \<Rightarrow> bool \<Rightarrow> ledger_error + tally" where
  "tally_of db y_start y_end config include_carried =
     andThen (guard_of config) (\<lambda>g.
     let rows = filter (prefilter g y_start y_end) (reservations db) in
     andThen (raise_if (\<not> in_datetime_range (y_start - g) \<or> \<not> in_datetime_range (y_end + g)) DateOverflow) (\<lambda>_.
     andThen (raise_if (\<not> list_all row_asserts rows) (Raised AssertionError)) (\<lambda>_.
     andThen (raise_if (\<not> list_all (\<lambda>r. list_all in_datetime_range (row_instants db config g r)) rows)
       DateOverflow) (\<lambda>_.
     let t = fold (tally_row db config g y_start y_end) rows empty_tally in
     Inr (if include_carried then
            (case first_such (\<lambda>a. au_cycle_start a = y_start) (authorities db) of
               Some a \<Rightarrow> t\<lparr>carried := au_carried a\<rparr>
             | None \<Rightarrow> t)
          else t)))))"

definition cycle_debits_of ::
  "ledger_db \<Rightarrow> budget_cycle \<Rightarrow> ledger_config \<Rightarrow> ledger_error + cycle_debits \<times> cycle_debits" where
  "cycle_debits_of db cycle config =
     andThen (tally_of db (cy_start cycle) (cy_end cycle) config True) (\<lambda>current.
     andThen (tally_of db (cy_end cycle + CYCLE_END_EPSILON) NEVER config False) (\<lambda>after.
     Inr (tally_debits current, tally_debits after)))"

definition snapshot_of :: "budget_cycle \<Rightarrow> budget_settings \<Rightarrow> account_snapshot" where
  "snapshot_of cycle cfg =
     \<lparr>snap_cycle_start = Some (cy_start cycle), snap_cycle_end = Some (cy_end cycle),
      snap_account_limit_usd = account_limit_usd cfg, snap_base_price_usd = account_base_price_usd cfg,
      snap_data_retention_days = account_data_retention_days cfg, snap_verified_on = account_verified_on cfg\<rparr>"

section \<open>The specification\<close>

text \<open>
  What a row owes a cycle, straight from the plan: an unreconciled row its estimate and its
  monitoring bound from its reservation onward; a reconciled row its settled amount where its
  charge interval meets the cycle, and its monitoring bound where its monitoring interval does.
\<close>

definition row_debit :: "ledger_db \<Rightarrow> ledger_config \<Rightarrow> timedelta \<Rightarrow> instant \<Rightarrow> instant \<Rightarrow> reservation \<Rightarrow> rat" where
  "row_debit db config g y_start y_end r =
     (case rv_status r of
        RELEASED \<Rightarrow> 0
      | DENIED \<Rightarrow> 0
      | RECONCILED \<Rightarrow>
          (if touches (rv_reserved_at r - g) (the (rv_last_charge_at r) + g) y_start y_end
             then amount (rv_actual r) else 0)
          + (if touches (the (rv_reconciled_at r) - g) (monitoring_end db config g r) y_start y_end
             then amount (rv_monitoring r) else 0)
      | _ \<Rightarrow> if rv_reserved_at r - g \<le> y_end then amount (rv_estimate r) + amount (rv_monitoring r) else 0)"

definition class_debit ::
  "ledger_db \<Rightarrow> ledger_config \<Rightarrow> timedelta \<Rightarrow> instant \<Rightarrow> instant \<Rightarrow> bool \<Rightarrow> rat" where
  "class_debit db config g y_start y_end operator =
     sum_list (map (row_debit db config g y_start y_end)
       (filter (\<lambda>r. (rv_class r = OPERATOR) = operator) (reservations db)))"

text \<open>
  What the table demands of a stored row: its CHECKs, the columns' ranges, four decimals. And what no CHECK demands,
  but every operation keeps while the clock does not run back: a row is not reconciled before it was reserved.
\<close>

abbreviation row_stored :: "reservation \<Rightarrow> bool" where
  "row_stored r \<equiv> reservation_checks r \<and> reservation_fits r \<and> list_all (opt_all (on_grid 4)) (reservation_money r)"

abbreviation settled_in_order :: "reservation \<Rightarrow> bool" where
  "settled_in_order r \<equiv> (case rv_reconciled_at r of None \<Rightarrow> True | Some t \<Rightarrow> rv_reserved_at r \<le> t)"

definition row_ok :: "reservation \<Rightarrow> bool" where
  "row_ok r \<longleftrightarrow> row_stored r \<and> settled_in_order r"

section \<open>Ledger amounts add exactly\<close>

text \<open>\<open>money n x\<close>: \<open>x\<close> is a non-negative amount of four decimals, at most what \<open>n\<close> rows can hold.\<close>

definition money :: "nat \<Rightarrow> rat \<Rightarrow> bool" where
  "money n x \<longleftrightarrow> (\<exists>m::int. x = of_int m / 10000 \<and> 0 \<le> m \<and> m \<le> int n * 20000000000)"

lemma money_zero [simp]: "money n 0"
  by (auto simp: money_def intro: exI [of _ 0])

lemma money_mono: "money n x \<Longrightarrow> n \<le> k \<Longrightarrow> money k x"
proof -
  assume "money n x" and "n \<le> k"
  then obtain m where "x = of_int m / 10000" "0 \<le> m" "m \<le> int n * 20000000000" by (auto simp: money_def)
  moreover have "int n * 20000000000 \<le> int k * 20000000000" using \<open>n \<le> k\<close> by simp
  ultimately show ?thesis unfolding money_def by (intro exI [of _ m]) linarith
qed

lemma money_nonneg: "money n x \<Longrightarrow> 0 \<le> x"
  by (auto simp: money_def)

lemma money_add: "money n x \<Longrightarrow> money k y \<Longrightarrow> money (n + k) (x + y)"
proof -
  assume "money n x" and "money k y"
  then obtain a b where "x = of_int a / 10000" "0 \<le> a" "a \<le> int n * 20000000000"
    "y = of_int b / 10000" "0 \<le> b" "b \<le> int k * 20000000000"
    by (auto simp: money_def)
  then show ?thesis unfolding money_def by (intro exI [of _ "a + b"]) (simp add: algebra_simps)
qed

lemma money_dround: "money n x \<Longrightarrow> n \<le> 10 ^ 16 \<Longrightarrow> dround x = x"
proof -
  assume "money n x" and n: "n \<le> 10 ^ 16"
  then obtain m where m: "x = of_int m / 10000" "0 \<le> m" "m \<le> int n * 20000000000"
    by (auto simp: money_def)
  have "int n * 20000000000 \<le> 10 ^ 16 * 20000000000" using n by simp
  then have "\<bar>m\<bar> < 10 ^ 28" using m by simp
  then show ?thesis using m(1) by (intro dround_on_grid [OF on_gridI [of x 4 m]]) simp_all
qed

lemma money_dadd: "money n x \<Longrightarrow> money k y \<Longrightarrow> n + k \<le> 10 ^ 16 \<Longrightarrow> dadd x y = x + y"
  unfolding dadd_def by (rule money_dround [OF money_add])

lemma row_money_value:
  assumes "row_ok r" and "Some x \<in> set (reservation_money r)"
  shows "0 \<le> x" and "money_fits x" and "on_grid 4 x"
proof -
  have "list_all (opt_all (\<lambda>m. 0 \<le> m)) (reservation_money r)"
    using assms(1) unfolding row_ok_def reservation_checks_def by blast
  then show "0 \<le> x" using assms(2) by (auto simp: list_all_iff)
  have "list_all (opt_all money_fits) (reservation_money r)"
    using assms(1) unfolding row_ok_def reservation_fits_def by blast
  then show "money_fits x" using assms(2) by (auto simp: list_all_iff)
  have "list_all (opt_all (on_grid 4)) (reservation_money r)"
    using assms(1) unfolding row_ok_def by blast
  then show "on_grid 4 x" using assms(2) by (auto simp: list_all_iff)
qed

lemma row_money:
  assumes "row_ok r"
  shows "money 1 (amount (rv_actual r))" and "money 1 (amount (rv_monitoring r))"
    and "money 1 (amount (rv_estimate r) + amount (rv_monitoring r))"
    and "dadd (amount (rv_estimate r)) (amount (rv_monitoring r)) = amount (rv_estimate r) + amount (rv_monitoring r)"
proof -
  have one: "\<exists>m::int. x = of_int m / 10000 \<and> 0 \<le> m \<and> m < 10000000000" if "0 \<le> x" "money_fits x" "on_grid 4 x" for x
  proof -
    from that obtain m :: int where m: "x = of_int m / 10000" by (auto simp: on_grid_def)
    have "(of_int m :: rat) < of_int 10000000000" "(0 :: rat) \<le> of_int m"
      using that by (simp_all add: m money_fits_def)
    then show ?thesis using m
      by (intro exI [of _ m]) (simp only: of_int_less_iff of_int_0_le_iff simp_thms)
  qed
  have each: "\<exists>m::int. amount v = of_int m / 10000 \<and> 0 \<le> m \<and> m < 10000000000" if "v \<in> set (reservation_money r)" for v
  proof (cases v)
    case None
    then show ?thesis by (auto simp: amount_def intro: exI [of _ 0])
  next
    case (Some x)
    then show ?thesis using one [OF row_money_value [OF assms(1)]] that by (simp add: amount_def)
  qed
  have mem: "rv_actual r \<in> set (reservation_money r)" "rv_monitoring r \<in> set (reservation_money r)"
    "rv_estimate r \<in> set (reservation_money r)"
    by (simp_all add: reservation_money_def)
  obtain a m e where a: "amount (rv_actual r) = of_int a / 10000" "0 \<le> a" "a < 10000000000"
    and m: "amount (rv_monitoring r) = of_int m / 10000" "0 \<le> m" "m < 10000000000"
    and e: "amount (rv_estimate r) = of_int e / 10000" "0 \<le> e" "e < 10000000000"
    using each [OF mem(1)] each [OF mem(2)] each [OF mem(3)] by blast
  show am: "money 1 (amount (rv_actual r))" "money 1 (amount (rv_monitoring r))"
    using a m by (auto simp: money_def)
  show both: "money 1 (amount (rv_estimate r) + amount (rv_monitoring r))"
    unfolding money_def e(1) m(1) using e m by (intro exI [of _ "e + m"]) (simp add: add_divide_distrib)
  then show "dadd (amount (rv_estimate r)) (amount (rv_monitoring r)) = amount (rv_estimate r) + amount (rv_monitoring r)"
    unfolding dadd_def by (rule money_dround) simp
qed

section \<open>The prefilter is only an optimisation\<close>

lemma prefilter_complete:
  assumes "row_ok r" and "\<not> prefilter g y_start y_end r"
  shows "row_debit db config g y_start y_end r = 0"
proof (cases "rv_status r")
  case RECONCILED
  then obtain c d where cd: "rv_last_charge_at r = Some c" "rv_reconciled_at r = Some d"
    using assms(1) by (auto simp: row_ok_def reservation_checks_def)
  have le: "rv_reserved_at r \<le> d" using assms(1) cd by (simp add: row_ok_def)
  have "\<not> touches (rv_reserved_at r - g) (c + g) y_start y_end"
    using assms(2) cd RECONCILED by (auto simp: prefilter_def touches_def)
  moreover have "\<not> touches (d - g) (monitoring_end db config g r) y_start y_end"
    using assms(2) cd RECONCILED le
    by (auto simp: prefilter_def touches_def monitoring_end_def monitoring_open_def split: option.splits if_splits)
  ultimately show ?thesis by (simp add: row_debit_def RECONCILED cd)
qed (use assms(2) in \<open>auto simp: row_debit_def prefilter_def open_statuses_def\<close>)

section \<open>The tally refines the specification\<close>

text \<open>After \<open>n\<close> rows: every line is an amount of \<open>n\<close> rows, and the three lines of a class sum to its debits.\<close>

definition tally_inv :: "nat \<Rightarrow> tally \<Rightarrow> rat \<Rightarrow> rat \<Rightarrow> bool" where
  "tally_inv n t rt op \<longleftrightarrow>
     money n (runtime_settled t) \<and> money n (runtime_open t) \<and> money n (runtime_monitoring t)
     \<and> money n (operator_settled t) \<and> money n (operator_open t) \<and> money n (operator_monitoring t)
     \<and> runtime_settled t + runtime_open t + runtime_monitoring t = rt
     \<and> operator_settled t + operator_open t + operator_monitoring t = op"

lemma money_step:
  assumes "money n x" and "money 1 y" and "n < 10 ^ 15"
  shows "dadd x y = x + y" and "money (Suc n) (x + y)" and "money (Suc n) x"
  using money_dadd [OF assms(1,2)] money_add [OF assms(1,2)] money_mono [OF assms(1), of "Suc n"] assms(3)
  by simp_all

lemma tally_row_inv:
  assumes inv: "tally_inv n t rt op" and row: "row_ok r" and pre: "prefilter g y_start y_end r" and n: "n < 10 ^ 15"
  shows "tally_inv (Suc n) (tally_row db config g y_start y_end r t)
     (rt + (if rv_class r = OPERATOR then 0 else row_debit db config g y_start y_end r))
     (op + (if rv_class r = OPERATOR then row_debit db config g y_start y_end r else 0))"
proof -
  note am = row_money [OF row]
  have st: "rv_status r \<in> {RESERVED, USAGE_PROVISIONAL, USAGE_FINALIZED} \<or> rv_status r = RECONCILED"
    and start: "rv_reserved_at r - g \<le> y_end"
    using pre by (auto simp: prefilter_def open_statuses_def)
  note inv' = inv [unfolded tally_inv_def]
  note steps = money_step [OF _ am(1) n] money_step [OF _ am(2) n] money_step [OF _ am(3) n]
  have debit: "row_debit db config g y_start y_end r =
      (if rv_status r = RECONCILED then
         (if touches (rv_reserved_at r - g) (the (rv_last_charge_at r) + g) y_start y_end then amount (rv_actual r) else 0)
         + (if touches (the (rv_reconciled_at r) - g) (monitoring_end db config g r) y_start y_end
            then amount (rv_monitoring r) else 0)
       else amount (rv_estimate r) + amount (rv_monitoring r))"
    using st start by (auto simp: row_debit_def)
  show ?thesis
    using inv' steps unfolding tally_inv_def tally_row_def Let_def debit am(4)
    by (auto simp: algebra_simps)
qed

lemma fold_tally_inv:
  "tally_inv n t rt op \<Longrightarrow> \<forall>r \<in> set rows. row_ok r \<and> prefilter g y_start y_end r \<Longrightarrow> n + length rows \<le> 10 ^ 15 \<Longrightarrow>
     tally_inv (n + length rows) (fold (tally_row db config g y_start y_end) rows t)
       (rt + sum_list (map (row_debit db config g y_start y_end) (filter (\<lambda>r. rv_class r \<noteq> OPERATOR) rows)))
       (op + sum_list (map (row_debit db config g y_start y_end) (filter (\<lambda>r. rv_class r = OPERATOR) rows)))"
proof (induction rows arbitrary: n t rt op)
  case (Cons r rows)
  have "tally_inv (Suc n) (tally_row db config g y_start y_end r t)
     (rt + (if rv_class r = OPERATOR then 0 else row_debit db config g y_start y_end r))
     (op + (if rv_class r = OPERATOR then row_debit db config g y_start y_end r else 0))"
    using Cons.prems by (intro tally_row_inv) auto
  from Cons.IH [OF this] Cons.prems show ?case by (auto simp: algebra_simps split: if_splits)
qed simp

lemma sum_list_zero_filter:
  "(\<And>x. x \<in> set xs \<Longrightarrow> \<not> p x \<Longrightarrow> f x = (0 :: rat)) \<Longrightarrow> sum_list (map f (filter q (filter p xs))) = sum_list (map f (filter q xs))"
  by (induction xs) auto

lemma tally_of_inv:
  assumes t: "tally_of db y_start y_end config inc = Inr t" and ok: "\<forall>r \<in> set (reservations db). row_ok r"
    and n: "length (reservations db) \<le> 10 ^ 15"
  obtains g where "guard_of config = Inr g"
    and "tally_inv (10 ^ 15) t (class_debit db config g y_start y_end False) (class_debit db config g y_start y_end True)"
proof -
  obtain g where g: "guard_of config = Inr g" using t by (auto simp: tally_of_def andThen_eq_Inr)
  let ?rows = "filter (prefilter g y_start y_end) (reservations db)"
  let ?t = "fold (tally_row db config g y_start y_end) ?rows empty_tally"
  have len: "length ?rows \<le> 10 ^ 15" using n length_filter_le order_trans by blast
  have "tally_inv 0 empty_tally 0 0" by (simp add: tally_inv_def empty_tally_def)
  then have "tally_inv (0 + length ?rows) ?t
       (0 + sum_list (map (row_debit db config g y_start y_end) (filter (\<lambda>r. rv_class r \<noteq> OPERATOR) ?rows)))
       (0 + sum_list (map (row_debit db config g y_start y_end) (filter (\<lambda>r. rv_class r = OPERATOR) ?rows)))"
    using ok len by (intro fold_tally_inv) auto
  moreover have "sum_list (map (row_debit db config g y_start y_end) (filter q ?rows))
      = sum_list (map (row_debit db config g y_start y_end) (filter q (reservations db)))" for q
    using ok prefilter_complete by (intro sum_list_zero_filter) blast
  ultimately have inv: "tally_inv (length ?rows) ?t (class_debit db config g y_start y_end False)
      (class_debit db config g y_start y_end True)"
    by (simp add: class_debit_def)
  have "tally_inv (10 ^ 15) ?t (class_debit db config g y_start y_end False) (class_debit db config g y_start y_end True)"
    using inv money_mono [OF _ len] by (simp add: tally_inv_def)
  moreover have "t = ?t \<or> (\<exists>c. t = ?t\<lparr>carried := c\<rparr>)"
    using t g by (auto simp: tally_of_def andThen_eq_Inr Let_def split: if_splits option.splits)
  ultimately have "tally_inv (10 ^ 15) t (class_debit db config g y_start y_end False) (class_debit db config g y_start y_end True)"
    by (auto simp: tally_inv_def)
  with g show thesis by (rule that)
qed

lemma tally_debits_exact:
  assumes "tally_inv (10 ^ 15) t rt op"
  shows "runtime_committed_usd (tally_debits t) = rt" and "operator_committed_usd (tally_debits t) = op"
    and "money (3 * 10 ^ 15) rt" and "money (3 * 10 ^ 15) op"
proof -
  note inv = assms [unfolded tally_inv_def]
  have three: "dadd (dadd x y) z = x + y + z \<and> money (3 * 10 ^ 15) (x + y + z)"
    if "money (10 ^ 15) x" "money (10 ^ 15) y" "money (10 ^ 15) z" for x y z
  proof -
    have "dadd x y = x + y" using money_dadd [OF that(1,2)] by simp
    moreover have xy: "money (2 * 10 ^ 15) (x + y)" using money_add [OF that(1,2)] by (simp add: numeral_2_eq_2)
    ultimately show ?thesis using money_dadd [OF xy that(3)] money_add [OF xy that(3)] by simp
  qed
  show "runtime_committed_usd (tally_debits t) = rt" "operator_committed_usd (tally_debits t) = op"
    "money (3 * 10 ^ 15) rt" "money (3 * 10 ^ 15) op"
    using inv three by (auto simp: tally_debits_def)
qed

text \<open>C7: The tally computes the MS2-D-34 cycle predicate exactly: for every ledger whose rows satisfy their
  table's constraints and of which none was reconciled before it was reserved (no CHECK of the table, but kept by
  every operation while the clock does not run back), the committed runtime and operator debits of a cycle are
  the sum, over all rows and without rounding, of what each row owes that cycle. The SQL prefilter then drops no
  row that owes anything.\<close>

theorem tally_refines_predicate:
  assumes "tally_of db y_start y_end config inc = Inr t"
    and "\<forall>r \<in> set (reservations db). row_stored r" and "\<forall>r \<in> set (reservations db). settled_in_order r"
    and "length (reservations db) \<le> 10 ^ 15"
  shows "\<exists>g. guard_of config = Inr g
     \<and> runtime_committed_usd (tally_debits t) = class_debit db config g y_start y_end False
     \<and> operator_committed_usd (tally_debits t) = class_debit db config g y_start y_end True"
proof -
  have ok: "\<forall>r \<in> set (reservations db). row_ok r" using assms(2,3) by (simp add: row_ok_def)
  show ?thesis using tally_of_inv [OF assms(1) ok assms(4)] tally_debits_exact by metis
qed

end
