(* ===== verification/LedgerCycles.thy ===== *)
theory LedgerCycles
  imports LedgerDebits
begin

text \<open>
  Billing cycles and authority of \<open>acquisition/apify/ledger.py\<close>: \<open>current_cycle\<close>,
  \<open>ensure_cycle\<close> with its four cases, \<open>_ensure_continued_authority\<close>, \<open>_authority_held\<close> and
  \<open>claim_origin\<close>. Every function runs under the budget lock inside one transaction, so it takes
  the database and returns it, and an exception leaves the caller's database in place.
\<close>

section \<open>Cycles\<close>

text \<open>\<open>.order_by("-cycle_start").first()\<close>.\<close>

definition later_cycle :: "budget_cycle \<Rightarrow> budget_cycle option \<Rightarrow> budget_cycle option" where
  "later_cycle c best =
     (case best of None \<Rightarrow> Some c | Some b \<Rightarrow> if cy_start b < cy_start c then Some c else Some b)"

definition latest_cycle :: "budget_cycle list \<Rightarrow> budget_cycle option" where
  "latest_cycle cs = fold later_cycle cs None"

definition current_cycle :: "ledger_db \<Rightarrow> instant \<Rightarrow> budget_cycle option" where
  "current_cycle db now = latest_cycle (filter (\<lambda>c. cy_start c \<le> now \<and> now \<le> cy_end c) (cycles db))"

text \<open>The value a \<open>numeric(10,4)\<close> column stores: rounded half away from zero.\<close>

definition to_numeric_4 :: "rat \<Rightarrow> rat" where
  "to_numeric_4 x =
     (if 0 \<le> x then of_int \<lfloor>x * 10000 + 1 / 2\<rfloor> else - of_int \<lfloor>- x * 10000 + 1 / 2\<rfloor>) / 10000"

definition ensure_continued_authority ::
  "ledger_config \<Rightarrow> instant \<Rightarrow> budget_cycle \<Rightarrow> ledger_db \<Rightarrow> ledger_error + ledger_db" where
  "ensure_continued_authority config now cycle db =
     (if \<exists>a \<in> set (authorities db). au_cycle_start a = cy_start cycle then Inr db
      else case latest_cycle (filter (\<lambda>c. cy_start c < cy_start cycle) (cycles db)) of
        None \<Rightarrow> Inr db
      | Some previous \<Rightarrow>
          andThen (guard_of config) (\<lambda>g.
          if g < cy_start cycle - cy_end previous then Inr db
          else (case first_such (\<lambda>a. au_cycle_start a = cy_start previous \<and> au_handed_off a = None)
                  (authorities db) of
              None \<Rightarrow> Inr db
            | Some held \<Rightarrow>
                insert_authority db
                  \<lparr>au_cycle_start = cy_start cycle, au_kind = CONTINUED, au_ledger_id = au_ledger_id held,
                   au_carried = 0, au_attested_by = [], au_created_at = now, au_handed_off = None,
                   au_imported_digest = None\<rparr>)))"

definition authority_held_now ::
  "ledger_config \<Rightarrow> instant \<Rightarrow> budget_cycle \<Rightarrow> ledger_db \<Rightarrow> ledger_error + ledger_db \<times> bool" where
  "authority_held_now config now cycle db =
     andThen (ensure_continued_authority config now cycle db) (\<lambda>db.
     Inr (db, \<exists>a \<in> set (authorities db). au_cycle_start a = cy_start cycle \<and> au_handed_off a = None))"

text \<open>The clamp of an older row that reaches into the new cycle.\<close>

definition clamp_before :: "instant \<Rightarrow> budget_cycle \<Rightarrow> budget_cycle" where
  "clamp_before start c =
     (if cy_start c < start \<and> start \<le> cy_end c then c\<lparr>cy_end := start - CYCLE_END_EPSILON\<rparr> else c)"

definition materialize_cycle ::
  "ledger_config \<Rightarrow> instant \<Rightarrow> instant \<times> instant \<Rightarrow> ledger_db \<Rightarrow> ledger_error + ledger_db \<times> budget_cycle option" where
  "materialize_cycle config now bounds db =
     andThen (case project_allocation (budget config) of
         Inr a \<Rightarrow> Inr (Some (to_numeric_4 a))
       | Inl (BudgetDenied _ _) \<Rightarrow> Inr None
       | Inl e \<Rightarrow> Inl (Raised e)) (\<lambda>allocation.
     let clamped = map (clamp_before (fst bounds)) (cycles db) in
     andThen (raise_if (\<not> list_all (\<lambda>c. cy_start c < cy_end c) clamped) IntegrityError) (\<lambda>_.
     andThen (insert_cycle (db\<lparr>cycles := clamped\<rparr>)
       \<lparr>cy_id = 0, cy_start = fst bounds, cy_end = snd bounds, cy_allocation = allocation, cy_opened_at = now\<rparr>)
       (\<lambda>(db, cycle).
     andThen (ensure_continued_authority config now cycle db) (\<lambda>db.
     Inr (db, Some cycle)))))"

definition ensure_cycle ::
  "ledger_config \<Rightarrow> pydatetime \<Rightarrow> ledger_db \<Rightarrow> ledger_error + ledger_db \<times> budget_cycle option" where
  "ensure_cycle config now db =
     (case billing_cycle_anchor (budget config) of
        None \<Rightarrow> Inr (db, None)
      | Some anchor \<Rightarrow>
          andThen (lift_budget (billing_cycle_bounds anchor now)) (\<lambda>bounds.
          case bounds of
            None \<Rightarrow> Inr (db, None)
          | Some (start, end') \<Rightarrow>
              (case first_such (\<lambda>c. cy_start c = start) (cycles db) of
                 Some existing \<Rightarrow> Inr (db, if cy_end existing = end' then Some existing else None)
               | None \<Rightarrow>
                   (case first_such (\<lambda>c. start < cy_start c \<and> cy_start c \<le> end') (cycles db) of
                      Some inside \<Rightarrow> Inr (db, None)
                    | None \<Rightarrow> materialize_cycle config (instant_of now) (start, end') db))))"

text \<open>\<open>claim_origin\<close>.\<close>

definition claim_origin ::
  "string \<Rightarrow> ledger_config \<Rightarrow> pydatetime \<Rightarrow> ledger_db \<Rightarrow> ledger_error + ledger_db \<times> authority" where
  "claim_origin attested_by config now db =
     andThen (raise_if (ledger_id config = []) (LedgerRefused ''ledger_id_unset'')) (\<lambda>_.
     andThen (raise_if (strip attested_by = []) (LedgerRefused ''attestation_missing'')) (\<lambda>_.
     andThen (ensure_cycle config now db) (\<lambda>(db, cycle).
     case cycle of
       None \<Rightarrow> Inl (LedgerRefused ''cycle_unknown'')
     | Some cycle \<Rightarrow>
         andThen (raise_if (\<exists>a \<in> set (authorities db). au_cycle_start a = cy_start cycle)
           (LedgerRefused ''authority_exists'')) (\<lambda>_.
         let row = \<lparr>au_cycle_start = cy_start cycle, au_kind = ORIGIN, au_ledger_id = ledger_id config,
               au_carried = 0, au_attested_by = take 200 (strip attested_by), au_created_at = instant_of now,
               au_handed_off = None, au_imported_digest = None\<rparr> in
         andThen (insert_authority db row) (\<lambda>db. Inr (db, row))))))"

section \<open>The cycle invariant\<close>

text \<open>Recorded cycles are non-empty, have different starts, and never cover one instant twice.\<close>

definition cycles_ok :: "budget_cycle list \<Rightarrow> bool" where
  "cycles_ok cs \<longleftrightarrow> (\<forall>c \<in> set cs. cy_start c < cy_end c) \<and> distinct (map cy_start cs)
     \<and> (\<forall>c \<in> set cs. \<forall>d \<in> set cs. cy_start c < cy_start d \<longrightarrow> cy_end c < cy_start d)"

definition authorities_ok :: "authority list \<Rightarrow> bool" where
  "authorities_ok as \<longleftrightarrow> distinct (map au_cycle_start as) \<and> (\<forall>a \<in> set as. authority_checks a)"

lemma insert_authority_eq_Inr:
  "insert_authority db a = Inr db' \<longleftrightarrow> authority_fits a \<and> authority_checks a
     \<and> (\<forall>b \<in> set (authorities db). au_cycle_start b \<noteq> au_cycle_start a
          \<and> (au_imported_digest a \<noteq> None \<longrightarrow> au_imported_digest b \<noteq> au_imported_digest a))
     \<and> db' = db\<lparr>authorities := authorities db @ [a]\<rparr>"
  by (auto simp: insert_authority_def andThen_eq_Inr)

text \<open>What the continuation may change: at most one new authority row, for this cycle.\<close>

lemma ensure_continued_authority_effect:
  assumes "ensure_continued_authority config now cycle db = Inr db'"
  shows "db' = db \<or> (\<exists>a. db' = db\<lparr>authorities := authorities db @ [a]\<rparr> \<and> au_cycle_start a = cy_start cycle
      \<and> (\<forall>b \<in> set (authorities db). au_cycle_start b \<noteq> cy_start cycle) \<and> authority_checks a
      \<and> au_handed_off a = None \<and> au_carried a = 0)"
  using assms
  by (auto simp: ensure_continued_authority_def andThen_eq_Inr insert_authority_eq_Inr
      split: if_splits option.splits)

lemma authorities_ok_append:
  "authorities_ok as \<Longrightarrow> authority_checks a \<Longrightarrow> au_cycle_start a = s \<Longrightarrow> \<forall>b \<in> set as. au_cycle_start b \<noteq> s
     \<Longrightarrow> authorities_ok (as @ [a])"
  by (auto simp: authorities_ok_def)

lemma insert_cycle_eq_Inr:
  "insert_cycle db c = Inr (db', row) \<longleftrightarrow> row = c\<lparr>cy_id := next_id db\<rparr>
     \<and> opt_all money_fits (cy_allocation c) \<and> opt_all (\<lambda>m. 0 \<le> m) (cy_allocation c) \<and> cy_start c < cy_end c
     \<and> (\<forall>d \<in> set (cycles db). cy_start d \<noteq> cy_start c)
     \<and> db' = db\<lparr>cycles := cycles db @ [row], next_id := next_id db + 1\<rparr>"
  by (auto simp: insert_cycle_def andThen_eq_Inr Let_def)

text \<open>The four cases of \<open>ensure_cycle\<close>, as what they do to the database.\<close>

lemma ensure_cycle_cases:
  assumes "ensure_cycle config now db = Inr (db', c)"
  obtains (unchanged) "db' = db" and "c = None"
  | (existing) cycle anchor where "db' = db" and "c = Some cycle" and "cycle \<in> set (cycles db)"
      and "billing_cycle_anchor (budget config) = Some anchor"
      and "billing_cycle_bounds anchor now = Inr (Some (cy_start cycle, cy_end cycle))"
  | (created) cycle anchor db1 where "c = Some cycle" and "billing_cycle_anchor (budget config) = Some anchor"
      and "billing_cycle_bounds anchor now = Inr (Some (cy_start cycle, cy_end cycle))"
      and "\<forall>d \<in> set (cycles db). \<not> (cy_start cycle \<le> cy_start d \<and> cy_start d \<le> cy_end cycle)"
      and "cy_start cycle < cy_end cycle"
      and "list_all (\<lambda>c. cy_start c < cy_end c) (map (clamp_before (cy_start cycle)) (cycles db))"
      and "db1 = db\<lparr>cycles := map (clamp_before (cy_start cycle)) (cycles db) @ [cycle], next_id := next_id db + 1\<rparr>"
      and "ensure_continued_authority config (instant_of now) cycle db1 = Inr db'"
proof (cases "billing_cycle_anchor (budget config)")
  case None
  then show ?thesis using assms unchanged by (simp add: ensure_cycle_def)
next
  case (Some anchor)
  note anchor = Some
  obtain bounds where b: "billing_cycle_bounds anchor now = Inr bounds"
    using assms by (auto simp: ensure_cycle_def anchor andThen_eq_Inr lift_budget_eq_Inr)
  show ?thesis
  proof (cases bounds)
    case None
    then show ?thesis using assms unchanged b by (simp add: ensure_cycle_def anchor)
  next
    case (Some se)
    obtain s e where se: "se = (s, e)" by force
    show ?thesis
    proof (cases "first_such (\<lambda>c. cy_start c = s) (cycles db)")
      case (Some ex)
      have "ex \<in> set (cycles db) \<and> cy_start ex = s" using first_such_Some [OF Some] by simp
      then show ?thesis
        using assms unchanged existing [of ex anchor] anchor b \<open>bounds = Some se\<close> se Some
        by (auto simp: ensure_cycle_def split: if_splits)
    next
      case None
      note no_start = None
      show ?thesis
      proof (cases "first_such (\<lambda>c. s < cy_start c \<and> cy_start c \<le> e) (cycles db)")
        case (Some inside)
        then show ?thesis
          using assms unchanged anchor b \<open>bounds = Some se\<close> se no_start by (simp add: ensure_cycle_def)
      next
        case None
        have "materialize_cycle config (instant_of now) (s, e) db = Inr (db', c)"
          using assms anchor b \<open>bounds = Some se\<close> se no_start None by (simp add: ensure_cycle_def)
        then obtain allocation db1 cycle where
          chk: "list_all (\<lambda>c. cy_start c < cy_end c) (map (clamp_before s) (cycles db))"
          and ins: "insert_cycle (db\<lparr>cycles := map (clamp_before s) (cycles db)\<rparr>)
             \<lparr>cy_id = 0, cy_start = s, cy_end = e, cy_allocation = allocation, cy_opened_at = instant_of now\<rparr> = Inr (db1, cycle)"
          and cont: "ensure_continued_authority config (instant_of now) cycle db1 = Inr db'" and c: "c = Some cycle"
          unfolding materialize_cycle_def Let_def fst_conv snd_conv by (auto simp: andThen_eq_Inr)
        have fields: "cy_start cycle = s" "cy_end cycle = e" "s < e"
          using ins by (auto simp: insert_cycle_eq_Inr)
        have "\<forall>d \<in> set (cycles db). \<not> (s \<le> cy_start d \<and> cy_start d \<le> e)"
          using no_start None by (force simp: first_such_None)
        then show ?thesis
          using created [of cycle anchor db1] c anchor b \<open>bounds = Some se\<close> se fields chk cont ins
          by (auto simp: insert_cycle_eq_Inr)
      qed
    qed
  qed
qed

lemma clamp_before_simps [simp]: "cy_start (clamp_before s c) = cy_start c"
  by (simp add: clamp_before_def)

lemma clamp_before_end:
  "cy_end (clamp_before s c) \<le> cy_end c \<or> cy_start c < s" "cy_start c < s \<Longrightarrow> cy_end (clamp_before s c) < s"
  "cy_end (clamp_before s c) \<le> cy_end c"
  by (auto simp: clamp_before_def CYCLE_END_EPSILON_def timedelta_defs)

lemma cycles_ok_create:
  assumes ok: "cycles_ok cs" and lt: "cy_start c < cy_end c"
    and out: "\<forall>d \<in> set cs. \<not> (cy_start c \<le> cy_start d \<and> cy_start d \<le> cy_end c)"
    and chk: "list_all (\<lambda>c. cy_start c < cy_end c) (map (clamp_before (cy_start c)) cs)"
  shows "cycles_ok (map (clamp_before (cy_start c)) cs @ [c])"
proof -
  have starts: "map cy_start (map (clamp_before (cy_start c)) cs) = map cy_start cs" by simp
  have new: "cy_start c \<notin> cy_start ` set cs" using out lt by force
  have order: "cy_end (clamp_before (cy_start c) d) < cy_start d'"
    if "d \<in> set cs" "d' \<in> set cs" "cy_start d < cy_start d'" for d d'
    using that ok clamp_before_end(3) [of "cy_start c" d] by (force simp: cycles_ok_def)
  have before: "cy_end (clamp_before (cy_start c) d) < cy_start c" if "cy_start d < cy_start c" for d
    using clamp_before_end(2) [OF that] .
  have after: "cy_end c < cy_start d" if "d \<in> set cs" "cy_start c < cy_start d" for d
    using that out by force
  show ?thesis
    using ok lt chk new order before after
    unfolding cycles_ok_def map_append starts by (auto simp: list_all_iff)
qed

lemma ensure_cycle_ok:
  assumes "ensure_cycle config now db = Inr (db', c)" and "cycles_ok (cycles db)" and "authorities_ok (authorities db)"
  shows "cycles_ok (cycles db')" and "authorities_ok (authorities db')"
proof -
  have "cycles_ok (cycles db') \<and> authorities_ok (authorities db')"
    using assms(1)
  proof (cases rule: ensure_cycle_cases)
    case (created cycle anchor db1)
    have ok: "cycles_ok (cycles db1)" using cycles_ok_create created(4-7) assms(2) by simp
    from ensure_continued_authority_effect [OF created(8)] show ?thesis
      using ok assms(3) created(7) by (auto intro: authorities_ok_append)
  qed (use assms(2,3) in auto)
  then show "cycles_ok (cycles db')" "authorities_ok (authorities db')" by auto
qed

text \<open>The row \<open>ensure_cycle\<close> returns is recorded, and nothing but the two tables changes.\<close>

lemma ensure_cycle_frame:
  assumes "ensure_cycle config now db = Inr (db', c)"
  shows "reservations db' = reservations db" and "trips db' = trips db" and "runs db' = runs db"
    and "reads db' = reads db" and "sites db' = sites db"
    and "c = Some cycle \<Longrightarrow> cycle \<in> set (cycles db')"
proof -
  have "reservations db' = reservations db \<and> trips db' = trips db \<and> runs db' = runs db \<and> reads db' = reads db
      \<and> sites db' = sites db \<and> (\<forall>cycle. c = Some cycle \<longrightarrow> cycle \<in> set (cycles db'))"
    using assms
  proof (cases rule: ensure_cycle_cases)
    case (created cycle anchor db1)
    from ensure_continued_authority_effect [OF created(8)] show ?thesis using created(1,7) by auto
  qed auto
  then show "reservations db' = reservations db" "trips db' = trips db" "runs db' = runs db"
    "reads db' = reads db" "sites db' = sites db" "c = Some cycle \<Longrightarrow> cycle \<in> set (cycles db')" by auto
qed

lemma ensure_cycle_bounds:
  assumes "ensure_cycle config now db = Inr (db', Some cycle)"
  shows "\<exists>anchor. billing_cycle_anchor (budget config) = Some anchor
     \<and> billing_cycle_bounds anchor now = Inr (Some (cy_start cycle, cy_end cycle))"
  using assms by (cases rule: ensure_cycle_cases) auto

lemma ensure_continued_authority_idem:
  assumes "ensure_continued_authority config now cycle db = Inr db'"
  shows "cycles db' = cycles db" and "reservations db' = reservations db" and "trips db' = trips db"
    and "runs db' = runs db" and "sites db' = sites db" and "reads db' = reads db"
  using ensure_continued_authority_effect [OF assms] by auto

lemma claim_origin_effect:
  assumes "claim_origin attested config now db = Inr (db', row)"
  shows "\<exists>db1 cycle. ensure_cycle config now db = Inr (db1, Some cycle) \<and> au_cycle_start row = cy_start cycle
    \<and> (\<forall>a \<in> set (authorities db1). au_cycle_start a \<noteq> cy_start cycle) \<and> authority_checks row
    \<and> au_handed_off row = None \<and> db' = db1\<lparr>authorities := authorities db1 @ [row]\<rparr>"
  using assms
  by (auto simp: claim_origin_def andThen_eq_Inr insert_authority_eq_Inr Let_def split: option.splits)

section \<open>Materialization as a step\<close>

text \<open>
  The cycle-materializing operations, by whatever caller, at whatever time, under whatever
  settings: a changed anchor between two steps is a changed \<open>config\<close>.
\<close>

inductive cycle_step :: "ledger_db \<Rightarrow> ledger_config \<Rightarrow> ledger_db \<Rightarrow> bool" where
  ensured: "ensure_cycle config now db = Inr (db', c) \<Longrightarrow> cycle_step db config db'"
| continued: "ensure_continued_authority config t cycle db = Inr db' \<Longrightarrow> cycle_step db config db'"
| claimed: "claim_origin attested config now db = Inr (db', row) \<Longrightarrow> cycle_step db config db'"

definition cycle_inv :: "ledger_db \<Rightarrow> bool" where
  "cycle_inv db \<longleftrightarrow> cycles_ok (cycles db) \<and> authorities_ok (authorities db)"

interpretation cycles: invariant cycle_step cycle_inv
proof unfold_locales
  fix db config db'
  assume "cycle_step db config db'" and inv: "cycle_inv db"
  then show "cycle_inv db'"
  proof (cases rule: cycle_step.cases)
    case (ensured now c)
    then show ?thesis using ensure_cycle_ok inv by (auto simp: cycle_inv_def)
  next
    case (continued t cycle)
    from ensure_continued_authority_effect [OF continued] show ?thesis
      using inv by (auto simp: cycle_inv_def dest: authorities_ok_append)
  next
    case (claimed attested now row)
    from claim_origin_effect [OF claimed] show ?thesis
      using ensure_cycle_ok inv by (fastforce simp: cycle_inv_def intro: authorities_ok_append)
  qed
qed

text \<open>However the operator moves the billing anchor between them, materializing cycles and claiming
  authority never leave two recorded cycles covering one instant, nor two authority rows for one cycle.\<close>

theorem cycles_never_overlap:
  assumes "steps cycle_step db cfgs db'" and "cycles db = []" and "authorities db = []"
    and "c \<in> set (cycles db')" and "d \<in> set (cycles db')"
    and "cy_start c \<le> t" and "t \<le> cy_end c" and "cy_start d \<le> t" and "t \<le> cy_end d"
  shows "cy_start c = cy_start d \<and> distinct (map au_cycle_start (authorities db'))"
proof -
  have "cycle_inv db" using assms(2,3) by (simp add: cycle_inv_def cycles_ok_def authorities_ok_def)
  then have inv: "cycle_inv db'" by (rule cycles.steps_inv [OF assms(1)])
  then have "cy_start c = cy_start d"
    using assms(4-9) by (cases "cy_start c" "cy_start d" rule: linorder_cases) (force simp: cycle_inv_def cycles_ok_def)+
  then show ?thesis using inv by (simp add: cycle_inv_def authorities_ok_def)
qed

text \<open>A materialized cycle is the configured one: with an anchor the settings accept, it contains the
  moment it was materialized for and is at most 744 hours long, the length the storage price assumes.\<close>

theorem ensured_cycle_contains_now:
  assumes "ensure_cycle config now db = Inr (db', Some cycle)"
    and "billing_cycle_anchor (budget config) = Some anchor" and "anchor_ok anchor" and "valid_datetime now"
  shows "cy_start cycle \<le> instant_of now \<and> instant_of now < cy_end cycle + CYCLE_END_EPSILON
     \<and> cy_end cycle - cy_start cycle \<le> hours 744 \<and> cycle \<in> set (cycles db')"
proof -
  have b: "billing_cycle_bounds anchor now = Inr (Some (cy_start cycle, cy_end cycle))"
    using ensure_cycle_bounds [OF assms(1)] assms(2) by simp
  then show ?thesis
    using billing_cycle_contains [OF assms(3,4) b] billing_cycle_length [OF b] ensure_cycle_frame(6) [OF assms(1)]
    by (simp add: FULL_CYCLE_HOURS_def)
qed

section \<open>A first cycle\<close>

definition sample_config :: ledger_config where
  "sample_config = \<lparr>budget = sample_settings, ledger_id = ''prod'', usage_settle_delay_s = Some 10,
     usage_stable_reads = Some 2, usage_stable_interval_s = Some 60, usage_finalize_deadline_s = Some 86400,
     correction_window_s = Some 604800, post_run_cost_mode = ''bound'', run_usage_settlement = ''bound''\<rparr>"

definition empty_db :: ledger_db where
  "empty_db = \<lparr>sites = [7], runs = [], reservations = [], reads = [], cycles = [], trips = [],
     authorities = [], next_id = 1\<rparr>"

definition sample_cycle :: budget_cycle where
  "sample_cycle = \<lparr>cy_id = 1, cy_start = instant_of \<lparr>d_year = 2026, d_month = 7, d_day = 15, dt_us = 0\<rparr>,
     cy_end = instant_of \<lparr>d_year = 2026, d_month = 8, d_day = 15, dt_us = 0\<rparr> - CYCLE_END_EPSILON,
     cy_allocation = Some 8, cy_opened_at = instant_of sample_now\<rparr>"

definition sample_anchor :: pydatetime where
  "sample_anchor = \<lparr>d_year = 2026, d_month = 1, d_day = 15, dt_us = 0\<rparr>"

lemma sample_bounds:
  "billing_cycle_bounds sample_anchor sample_now = Inr (Some (cy_start sample_cycle, cy_end sample_cycle))"
  by code_simp

lemma sample_anchor_set: "billing_cycle_anchor (budget sample_config) = Some sample_anchor"
  by (simp add: sample_config_def sample_settings_def sample_anchor_def)

lemma sample_allocation: "project_allocation (budget sample_config) = Inr 8"
  by (simp add: project_allocation_def sample_config_def sample_settings_def budget_eval)

definition sample_cycle_db :: ledger_db where
  "sample_cycle_db = empty_db\<lparr>cycles := [sample_cycle], next_id := 2\<rparr>"

lemma sample_ensure: "ensure_cycle sample_config sample_now empty_db = Inr (sample_cycle_db, Some sample_cycle)"
proof -
  have start: "cy_start sample_cycle < cy_end sample_cycle" by code_simp
  have ins: "insert_cycle empty_db \<lparr>cy_id = 0, cy_start = cy_start sample_cycle, cy_end = cy_end sample_cycle,
      cy_allocation = Some 8, cy_opened_at = instant_of sample_now\<rparr> = Inr (sample_cycle_db, sample_cycle)"
    using start by (auto simp: insert_cycle_eq_Inr empty_db_def sample_cycle_db_def money_fits_def)
      (simp add: sample_cycle_def)
  have "to_numeric_4 8 = 8" by (simp add: to_numeric_4_def floor_eq_iff)
  then have "materialize_cycle sample_config (instant_of sample_now) (cy_start sample_cycle, cy_end sample_cycle) empty_db
      = Inr (sample_cycle_db, Some sample_cycle)"
    using ins by (simp add: materialize_cycle_def sample_allocation empty_db_def ensure_continued_authority_def
        latest_cycle_def) (simp add: sample_cycle_db_def empty_db_def)
  then show ?thesis
    by (simp add: ensure_cycle_def sample_anchor_set sample_bounds) (simp add: empty_db_def)
qed

theorem cycles_never_overlap_witness:
  "distinct (map au_cycle_start (authorities sample_cycle_db))"
proof -
  have run: "steps cycle_step empty_db [sample_config] sample_cycle_db"
    using sample_ensure by (auto simp: steps_simps intro: cycle_step.ensured)
  have "cy_start sample_cycle \<le> cy_end sample_cycle" by code_simp
  then show ?thesis
    using cycles_never_overlap [OF run, of sample_cycle sample_cycle "cy_start sample_cycle"]
    by (simp add: sample_cycle_db_def empty_db_def)
qed

theorem ensured_cycle_contains_now_witness:
  "cy_start sample_cycle \<le> instant_of sample_now
     \<and> instant_of sample_now < cy_end sample_cycle + CYCLE_END_EPSILON"
  using ensured_cycle_contains_now [OF sample_ensure sample_anchor_set]
  by (simp add: sample_anchor_def sample_now_def anchor_ok_def valid_datetime_def valid_date_def
      days_in_month_def usec_per_day_def)

end
