(* ===== verification/LedgerLatch.thy ===== *)
theory LedgerLatch
  imports LedgerCycles
begin

text \<open>
  The overrun latch of \<open>acquisition/apify/ledger.py\<close>: the trips (\<open>trip_latch_locked\<close>,
  \<open>trip_latch\<close>, the recovery of HTTP 402 start refusals), the two ways to clear it
  (\<open>_clear_on_estimator_bump\<close>, \<open>clear_latch\<close>), and what an owner's reset guarantees. Each
  function is one transaction under the budget lock.
\<close>

section \<open>Trips\<close>

definition trip_open :: "latch_trip \<Rightarrow> bool" where "trip_open t \<longleftrightarrow> la_cleared t = None"

definition latch_tripped :: "ledger_db \<Rightarrow> bool" where
  "latch_tripped db \<longleftrightarrow> (\<exists>t \<in> set (trips db). trip_open t)"

text \<open>Django compares with a \<open>None\<close> argument by IS NULL, so a trip without a run matches one without a run.\<close>

definition trip_latch_locked ::
  "latch_reason \<Rightarrow> int option \<Rightarrow> string \<Rightarrow> instant \<Rightarrow> ledger_db \<Rightarrow> ledger_error + ledger_db \<times> bool" where
  "trip_latch_locked reason run version now db =
     (if \<exists>t \<in> set (trips db). trip_open t \<and> la_reason t = reason \<and> la_run t = run
      then Inr (db, False)
      else andThen (insert_trip db
          \<lparr>la_tripped_at = now, la_run = run, la_reason = reason, la_cleared = None, la_version = version\<rparr>)
        (\<lambda>db. Inr (db, True)))"

definition trip_latch ::
  "latch_reason \<Rightarrow> int option \<Rightarrow> ledger_config \<Rightarrow> instant \<Rightarrow> ledger_db \<Rightarrow> ledger_error + ledger_db \<times> bool" where
  "trip_latch reason run config now db =
     trip_latch_locked reason run (estimator_version (budget config)) now db"

text \<open>
  \<open>unrecorded_start_refusals\<close>: the runs whose start was answered with HTTP 402 and that never
  had the trip, open or cleared; in primary-key order.
\<close>

definition refusal_recorded :: "ledger_db \<Rightarrow> int \<Rightarrow> bool" where
  "refusal_recorded db k \<longleftrightarrow> (\<exists>t \<in> set (trips db). la_run t = Some k \<and> la_reason t = ACCOUNT_LIMIT_REFUSED)"

definition unrecorded_start_refusals :: "ledger_db \<Rightarrow> int list" where
  "unrecorded_start_refusals db =
     map pr_id (filter (\<lambda>p. pr_start_status p = Some 402 \<and> \<not> refusal_recorded db (pr_id p)) (runs db))"

fun trip_each :: "int list \<Rightarrow> string \<Rightarrow> instant \<Rightarrow> ledger_db \<Rightarrow> ledger_error + ledger_db" where
  "trip_each [] version now db = Inr db"
| "trip_each (k # ks) version now db =
     andThen (trip_latch_locked ACCOUNT_LIMIT_REFUSED (Some k) version now db) (\<lambda>(db, _).
       trip_each ks version now db)"

text \<open>The queryset is read once, before the loop trips its rows.\<close>

definition trip_stranded_start_refusals_locked ::
  "string \<Rightarrow> instant \<Rightarrow> ledger_db \<Rightarrow> ledger_error + ledger_db \<times> int list" where
  "trip_stranded_start_refusals_locked version now db =
     (let ks = unrecorded_start_refusals db in
      andThen (trip_each ks version now db) (\<lambda>db. Inr (db, ks)))"

definition trip_start_refusal ::
  "int \<Rightarrow> ledger_config \<Rightarrow> instant \<Rightarrow> ledger_db \<Rightarrow> ledger_error + ledger_db \<times> bool" where
  "trip_start_refusal k config now db =
     (if k \<notin> set (unrecorded_start_refusals db) then Inr (db, False)
      else trip_latch_locked ACCOUNT_LIMIT_REFUSED (Some k) (estimator_version (budget config)) now db)"

section \<open>Clears\<close>

definition bump_clears :: "string \<Rightarrow> latch_trip \<Rightarrow> bool" where
  "bump_clears version t \<longleftrightarrow> trip_open t \<and> la_version t \<noteq> version \<and> la_reason t \<noteq> ACCOUNT_LIMIT_REFUSED"

text \<open>One UPDATE over every matching row: a row that would break a CHECK fails the whole statement.\<close>

definition clear_on_estimator_bump :: "string \<Rightarrow> instant \<Rightarrow> ledger_db \<Rightarrow> ledger_error + ledger_db \<times> nat" where
  "clear_on_estimator_bump version now db =
     (let updated = map (\<lambda>t. if bump_clears version t then t\<lparr>la_cleared := Some (now, BumpedTo version)\<rparr> else t)
            (trips db)
      in andThen (raise_if (\<not> list_all latch_checks updated) IntegrityError) (\<lambda>_.
         Inr (db\<lparr>trips := updated\<rparr>, length (filter (bump_clears version) (trips db)))))"

definition clear_latch :: "string \<Rightarrow> instant \<Rightarrow> ledger_db \<Rightarrow> ledger_error + ledger_db \<times> nat" where
  "clear_latch reason now db =
     (let text' = strip reason in
      andThen (raise_if (text' = []) (LedgerRefused ''reason_missing'')) (\<lambda>_.
      andThen (raise_if (\<not> latch_tripped db) (LedgerRefused ''latch_not_tripped'')) (\<lambda>_.
      let updated = map (\<lambda>t. if trip_open t
             then t\<lparr>la_cleared := Some (max now (la_tripped_at t), OwnerReset text')\<rparr> else t) (trips db) in
      andThen (raise_if (\<not> list_all latch_checks updated) IntegrityError) (\<lambda>_.
      Inr (db\<lparr>trips := updated\<rparr>, length (filter trip_open (trips db)))))))"

section \<open>Lemmas\<close>

definition trips_ok :: "latch_trip list \<Rightarrow> bool" where "trips_ok ts \<longleftrightarrow> list_all latch_checks ts"

lemma trip_latch_locked_cases:
  assumes "trip_latch_locked reason run version now db = Inr (db', created)"
  obtains (already) "\<not> created" and "db' = db"
      and "\<exists>t \<in> set (trips db). trip_open t \<and> la_reason t = reason \<and> la_run t = run"
  | (tripped) t where "created" and "db' = db\<lparr>trips := trips db @ [t]\<rparr>" and "trip_open t"
      and "la_reason t = reason" and "la_run t = run" and "la_tripped_at t = now" and "la_version t = version"
proof (cases "\<exists>t \<in> set (trips db). trip_open t \<and> la_reason t = reason \<and> la_run t = run")
  case True
  then show ?thesis using assms already by (simp add: trip_latch_locked_def)
next
  case False
  let ?t = "\<lparr>la_tripped_at = now, la_run = run, la_reason = reason, la_cleared = None, la_version = version\<rparr>"
  have "created" "db' = db\<lparr>trips := trips db @ [?t]\<rparr>"
    using assms False by (auto simp: trip_latch_locked_def andThen_eq_Inr insert_trip_def)
  then show ?thesis using tripped [of ?t] by (simp add: trip_open_def)
qed

lemma refusal_recorded_append [simp]:
  "refusal_recorded (db\<lparr>trips := trips db @ [t]\<rparr>) k \<longleftrightarrow>
     refusal_recorded db k \<or> la_run t = Some k \<and> la_reason t = ACCOUNT_LIMIT_REFUSED"
  by (auto simp: refusal_recorded_def)

lemma refusal_recorded_map:
  "(\<And>t. la_run (f t) = la_run t \<and> la_reason (f t) = la_reason t) \<Longrightarrow>
     refusal_recorded (db\<lparr>trips := map f (trips db)\<rparr>) k \<longleftrightarrow> refusal_recorded db k"
  by (auto simp: refusal_recorded_def)

lemma trip_each_effect:
  assumes "trip_each ks version now db = Inr db'"
  shows "\<exists>new. db' = db\<lparr>trips := trips db @ new\<rparr> \<and> (\<forall>t \<in> set new. trip_open t)
     \<and> (\<forall>k \<in> set ks. refusal_recorded db' k)"
  using assms
proof (induction ks arbitrary: db)
  case Nil
  then show ?case by (intro exI [of _ "[]"]) simp
next
  case (Cons k ks)
  obtain db1 created where one: "trip_latch_locked ACCOUNT_LIMIT_REFUSED (Some k) version now db = Inr (db1, created)"
    and rest: "trip_each ks version now db1 = Inr db'"
    using Cons.prems by (auto simp: andThen_eq_Inr)
  obtain new where new: "db' = db1\<lparr>trips := trips db1 @ new\<rparr>" "\<forall>t \<in> set new. trip_open t"
    "\<forall>k \<in> set ks. refusal_recorded db' k"
    using Cons.IH [OF rest] by blast
  from one show ?case
  proof (cases rule: trip_latch_locked_cases)
    case already
    then have "refusal_recorded db' k" using new(1) by (auto simp: refusal_recorded_def)
    then show ?thesis using new already by (intro exI [of _ new]) auto
  next
    case (tripped t)
    then have "refusal_recorded db' k" using new(1) by (auto simp: refusal_recorded_def)
    then show ?thesis using new tripped by (intro exI [of _ "t # new"]) auto
  qed
qed

lemma trip_stranded_effect:
  assumes "trip_stranded_start_refusals_locked version now db = Inr (db', ks)"
  shows "\<exists>new. db' = db\<lparr>trips := trips db @ new\<rparr> \<and> (\<forall>t \<in> set new. trip_open t)"
    and "unrecorded_start_refusals db' = []"
proof -
  have ks: "ks = unrecorded_start_refusals db" and each: "trip_each ks version now db = Inr db'"
    using assms by (auto simp: trip_stranded_start_refusals_locked_def Let_def andThen_eq_Inr)
  obtain new where new: "db' = db\<lparr>trips := trips db @ new\<rparr>" "\<forall>t \<in> set new. trip_open t"
    "\<forall>k \<in> set ks. refusal_recorded db' k"
    using trip_each_effect [OF each] by blast
  show "\<exists>new. db' = db\<lparr>trips := trips db @ new\<rparr> \<and> (\<forall>t \<in> set new. trip_open t)" using new by blast
  have "refusal_recorded db k \<Longrightarrow> refusal_recorded db' k" for k using new(1) by (auto simp: refusal_recorded_def)
  then have "\<forall>p \<in> set (runs db). pr_start_status p = Some 402 \<longrightarrow> refusal_recorded db' (pr_id p)"
    using new(3) by (auto simp: ks unrecorded_start_refusals_def)
  then show "unrecorded_start_refusals db' = []" using new(1) by (auto simp: unrecorded_start_refusals_def filter_empty_conv)
qed

section \<open>Properties\<close>

text \<open>Tripping is idempotent while the trip is open: a condition detected again adds no row, and after
  any trip call the latch is tripped.\<close>

theorem trip_is_idempotent:
  assumes "trip_latch_locked reason run version now db = Inr (db', created)"
  shows "latch_tripped db' \<and> trip_latch_locked reason run version' now' db' = Inr (db', False)"
  using assms
  by (cases rule: trip_latch_locked_cases) (auto simp: latch_tripped_def trip_latch_locked_def)

text \<open>An owner's reset always succeeds on an open latch and closes it: every open trip is cleared at or
  after its own trip time (even one stamped by a clock ahead of the reset), closed trips are untouched, and
  no CHECK can refuse it.\<close>

theorem owner_reset_clears:
  assumes "trips_ok (trips db)" and "latch_tripped db" and "strip reason \<noteq> []"
  shows "\<exists>db' n. clear_latch reason now db = Inr (db', n) \<and> \<not> latch_tripped db' \<and> trips_ok (trips db')
     \<and> n = length (filter trip_open (trips db)) \<and> 0 < n
     \<and> (\<forall>i < length (trips db). trip_open (trips db ! i) \<or> trips db' ! i = trips db ! i)
     \<and> (\<forall>i < length (trips db). trip_open (trips db ! i) \<longrightarrow>
          la_cleared (trips db' ! i) = Some (max now (la_tripped_at (trips db ! i)), OwnerReset (strip reason)))"
proof -
  let ?f = "\<lambda>t. if trip_open t then t\<lparr>la_cleared := Some (max now (la_tripped_at t), OwnerReset (strip reason))\<rparr> else t"
  let ?db = "db\<lparr>trips := map ?f (trips db)\<rparr>"
  have chk: "list_all latch_checks (map ?f (trips db))"
    using assms(1) by (auto simp: trips_ok_def list_all_iff latch_checks_def)
  have out: "clear_latch reason now db = Inr (?db, length (filter trip_open (trips db)))"
    using chk assms(2,3) by (simp add: clear_latch_def Let_def)
  moreover have "\<not> latch_tripped ?db" by (auto simp: latch_tripped_def trip_open_def)
  moreover have "filter trip_open (trips db) \<noteq> []" using assms(2) by (auto simp: latch_tripped_def filter_empty_conv)
  moreover have "trips_ok (trips ?db)" using chk by (simp add: trips_ok_def)
  ultimately show ?thesis by (intro exI [of _ ?db] exI [of _ "length (filter trip_open (trips db))"]) simp
qed

text \<open>An owner's reset is never undone by the 402 recovery: once the stranded refusals have been tripped,
  resetting the latch and recovering again leaves it reset, whatever the estimator version.\<close>

theorem reset_survives_recovery:
  assumes "trip_stranded_start_refusals_locked version now db = Inr (db1, ks)"
    and "clear_latch reason now' db1 = Inr (db2, n)"
  shows "trip_stranded_start_refusals_locked version' now'' db2 = Inr (db2, []) \<and> \<not> latch_tripped db2"
proof -
  have none: "unrecorded_start_refusals db1 = []" by (rule trip_stranded_effect(2) [OF assms(1)])
  have db2: "db2 = db1\<lparr>trips := map (\<lambda>t. if trip_open t
             then t\<lparr>la_cleared := Some (max now' (la_tripped_at t), OwnerReset (strip reason))\<rparr> else t) (trips db1)\<rparr>"
    using assms(2) by (auto simp: clear_latch_def Let_def andThen_eq_Inr)
  have "refusal_recorded db2 k \<longleftrightarrow> refusal_recorded db1 k" for k
    unfolding db2 by (rule refusal_recorded_map) auto
  then have "unrecorded_start_refusals db2 = []"
    using none by (simp add: unrecorded_start_refusals_def db2 filter_empty_conv)
  moreover have "\<not> latch_tripped db2" by (auto simp: db2 latch_tripped_def trip_open_def)
  ultimately show ?thesis by (simp add: trip_stranded_start_refusals_locked_def)
qed

text \<open>A new estimator version never clears a trip recorded for an account-limit refusal: if one is open,
  the latch stays tripped through the bump.\<close>

theorem bump_keeps_account_limit_trip:
  assumes "clear_on_estimator_bump version now db = Inr (db', n)"
    and "t \<in> set (trips db)" and "trip_open t" and "la_reason t = ACCOUNT_LIMIT_REFUSED"
  shows "t \<in> set (trips db') \<and> latch_tripped db'"
proof -
  let ?f = "\<lambda>t. if bump_clears version t then t\<lparr>la_cleared := Some (now, BumpedTo version)\<rparr> else t"
  have db': "db' = db\<lparr>trips := map ?f (trips db)\<rparr>"
    using assms(1) by (auto simp: clear_on_estimator_bump_def Let_def andThen_eq_Inr)
  have "?f t = t" using assms(4) by (simp add: bump_clears_def)
  then have "t \<in> set (trips db')" using imageI [OF assms(2), of ?f] by (simp add: db')
  then show ?thesis using assms(3) by (auto simp: latch_tripped_def)
qed

text \<open>A trip stamped after the clock the bump runs on makes the bump fail on the table's CHECK, where the
  owner's reset would have cleared it at its own trip time.\<close>

theorem bump_fails_on_future_trip:
  assumes "t \<in> set (trips db)" and "bump_clears version t" and "now < la_tripped_at t"
  shows "clear_on_estimator_bump version now db = Inl IntegrityError"
proof -
  let ?f = "\<lambda>t. if bump_clears version t then t\<lparr>la_cleared := Some (now, BumpedTo version)\<rparr> else t"
  have "?f t \<in> set (map ?f (trips db))" unfolding set_map using assms(1) by (rule imageI)
  moreover have "\<not> latch_checks (?f t)" using assms(2,3) by (simp add: latch_checks_def)
  ultimately have "\<not> list_all latch_checks (map ?f (trips db))" unfolding list_all_iff by blast
  then show ?thesis by (simp add: clear_on_estimator_bump_def Let_def)
qed

section \<open>A refused start\<close>

text \<open>A run as \<open>ProviderRun.objects.create\<close> leaves it.\<close>

definition sample_run :: provider_run where
  "sample_run = \<lparr>pr_id = 5, pr_site = 7, pr_external_id = None, pr_key = None, pr_build_id = None, pr_build_number = None,
     pr_scope_key = ''all'', pr_memory_mb = 1024, pr_timeout_s = 600, pr_max_items = 100, pr_max_pages = 5,
     pr_class = WATCH_REFRESH, pr_run_kind = RUN_FULL, pr_admitted_at = instant_of sample_now, pr_remote_status = None,
     pr_remote_terminal_at = None, pr_started_at = None, pr_finished_at = None, pr_usage_total = None,
     pr_usage_read_at = None, pr_dataset_id = None, pr_kv_store_id = None, pr_import_state = IMPORT_PENDING,
     pr_next_attempt_at = None, pr_dataset_reads = 0, pr_kv_reads = 0, pr_run_polls = 0, pr_correction_reads = 0,
     pr_final_charge_op_at = None, pr_storage_state = STORAGE_RETAINED,
     pr_cleanup_due_at = instant_of sample_now + hours 24, pr_cleanup_attempts = 0, pr_storage_deleted_at = None,
     pr_orphaned_at = None, pr_start_status = None, pr_start_mismatch = [], pr_unit_failures = None,
     pr_restart_count = None, pr_verified_deleted = [], pr_cleanup_errors = None, pr_reject_reason = None,
     pr_import_attempts = 0, pr_listing_ids = [], pr_retry_exhausted = None, pr_blocked_by_latch = False\<rparr>"

definition refusal_db :: ledger_db where
  "refusal_db = empty_db\<lparr>runs := [sample_run\<lparr>pr_start_status := Some 402\<rparr>]\<rparr>"

definition refusal_trip :: latch_trip where
  "refusal_trip = \<lparr>la_tripped_at = 100, la_run = Some 5, la_reason = ACCOUNT_LIMIT_REFUSED, la_cleared = None,
     la_version = ''v1''\<rparr>"

lemma refusal_tripped:
  "trip_stranded_start_refusals_locked ''v1'' 100 refusal_db = Inr (refusal_db\<lparr>trips := [refusal_trip]\<rparr>, [5])"
  by (simp add: trip_stranded_start_refusals_locked_def unrecorded_start_refusals_def refusal_db_def sample_run_def empty_db_def
      refusal_recorded_def trip_latch_locked_def insert_trip_def latch_checks_def refusal_trip_def)

lemma refusal_reset:
  "clear_latch ''checked'' 50 (refusal_db\<lparr>trips := [refusal_trip]\<rparr>)
     = Inr (refusal_db\<lparr>trips := [refusal_trip\<lparr>la_cleared := Some (100, OwnerReset ''checked'')\<rparr>]\<rparr>, 1)"
proof -
  have "strip ''checked'' = ''checked''" by code_simp
  then show ?thesis
    by (simp add: clear_latch_def latch_tripped_def trip_open_def refusal_trip_def latch_checks_def Let_def)
qed

theorem trip_is_idempotent_witness:
  "trip_latch_locked OVERRUN None ''v2'' 900
     (empty_db\<lparr>trips := [\<lparr>la_tripped_at = 100, la_run = None, la_reason = OVERRUN, la_cleared = None,
       la_version = ''v1''\<rparr>]\<rparr>)
   = Inr (empty_db\<lparr>trips := [\<lparr>la_tripped_at = 100, la_run = None, la_reason = OVERRUN, la_cleared = None,
       la_version = ''v1''\<rparr>]\<rparr>, False)"
proof -
  have "trip_latch_locked OVERRUN None ''v1'' 100 empty_db
    = Inr (empty_db\<lparr>trips := [\<lparr>la_tripped_at = 100, la_run = None, la_reason = OVERRUN, la_cleared = None,
       la_version = ''v1''\<rparr>]\<rparr>, True)"
    by (simp add: trip_latch_locked_def insert_trip_def latch_checks_def empty_db_def)
  from trip_is_idempotent [OF this] show ?thesis by blast
qed

theorem owner_reset_clears_witness:
  "\<exists>db' n. clear_latch ''checked'' 50 (refusal_db\<lparr>trips := [refusal_trip]\<rparr>) = Inr (db', n) \<and> \<not> latch_tripped db'
     \<and> map la_cleared (trips db') = [Some (100, OwnerReset ''checked'')]"
proof -
  have "strip ''checked'' \<noteq> []" by code_simp
  moreover have "trips_ok (trips (refusal_db\<lparr>trips := [refusal_trip]\<rparr>))"
    "latch_tripped (refusal_db\<lparr>trips := [refusal_trip]\<rparr>)"
    by (simp_all add: trips_ok_def latch_checks_def refusal_trip_def latch_tripped_def trip_open_def)
  ultimately obtain db' n where out: "clear_latch ''checked'' 50 (refusal_db\<lparr>trips := [refusal_trip]\<rparr>) = Inr (db', n)"
    and "\<not> latch_tripped db'"
    using owner_reset_clears [of "refusal_db\<lparr>trips := [refusal_trip]\<rparr>" "''checked''" 50] by blast
  moreover have "db' = refusal_db\<lparr>trips := [refusal_trip\<lparr>la_cleared := Some (100, OwnerReset ''checked'')\<rparr>]\<rparr>"
    using out refusal_reset by simp
  ultimately show ?thesis by simp
qed

theorem reset_survives_recovery_witness:
  "trip_stranded_start_refusals_locked ''v2'' 300
      (refusal_db\<lparr>trips := [refusal_trip\<lparr>la_cleared := Some (100, OwnerReset ''checked'')\<rparr>]\<rparr>)
   = Inr (refusal_db\<lparr>trips := [refusal_trip\<lparr>la_cleared := Some (100, OwnerReset ''checked'')\<rparr>]\<rparr>, [])"
  using reset_survives_recovery [OF refusal_tripped refusal_reset] by simp

theorem bump_keeps_account_limit_trip_witness:
  "latch_tripped (refusal_db\<lparr>trips := [refusal_trip]\<rparr>)"
proof -
  have "clear_on_estimator_bump ''v2'' 200 (refusal_db\<lparr>trips := [refusal_trip]\<rparr>)
    = Inr (refusal_db\<lparr>trips := [refusal_trip]\<rparr>, 0)"
    by (simp add: clear_on_estimator_bump_def bump_clears_def refusal_trip_def latch_checks_def)
  from bump_keeps_account_limit_trip [OF this, of refusal_trip] show ?thesis
    by (simp add: refusal_trip_def trip_open_def)
qed

end
