(* ===== verification/LedgerReserve.thy ===== *)
theory LedgerReserve
  imports LedgerLatch
begin

text \<open>
  \<open>reserve\<close> and \<open>_persist\<close> of \<open>acquisition/apify/ledger.py\<close>: one transaction under the budget
  lock that clears trips of an older estimator, trips stranded 402 refusals, materializes the
  cycle, continues authority, sums the debits, decides, and stores the reservation or the
  denial. The properties are about the ledger after it: what it owes a cycle, exactly.
\<close>

section \<open>The stored row\<close>

record outcome =
  oc_admitted :: bool
  oc_reason :: "denial_reason option"
  oc_id :: int
  oc_estimate :: "cost_estimate option"

text \<open>The four envelope columns: items, record reads, bytes, calls.\<close>

type_synonym envelope = "int option \<times> int option \<times> int option \<times> int option"

definition limit_set :: "int option \<Rightarrow> bool" where
  "limit_set v = (case v of None \<Rightarrow> False | Some n \<Rightarrow> 0 \<le> n)"

definition envelope_limits :: "operator_kind option \<Rightarrow> budget_settings \<Rightarrow> envelope option" where
  "envelope_limits kind cfg =
     (case kind of
        Some INSPECT \<Rightarrow>
          if limit_set (operator_inspect_max_items cfg) \<and> limit_set (operator_inspect_max_record_reads cfg)
             \<and> limit_set (operator_inspect_max_bytes cfg)
          then Some (operator_inspect_max_items cfg, operator_inspect_max_record_reads cfg,
                     operator_inspect_max_bytes cfg, None)
          else None
      | Some PROBE \<Rightarrow>
          if limit_set (operator_probe_max_calls cfg) then Some (None, None, None, operator_probe_max_calls cfg)
          else None
      | _ \<Rightarrow> Some (None, None, None, None))"

definition recordable :: "int option \<Rightarrow> int option" where
  "recordable v = (if limit_set v then v else None)"

definition recordable_limits :: "operator_kind option \<Rightarrow> budget_settings \<Rightarrow> envelope" where
  "recordable_limits kind cfg =
     (case kind of
        Some INSPECT \<Rightarrow> (recordable (operator_inspect_max_items cfg),
          recordable (operator_inspect_max_record_reads cfg), recordable (operator_inspect_max_bytes cfg), None)
      | Some PROBE \<Rightarrow> (None, None, None, recordable (operator_probe_max_calls cfg))
      | _ \<Rightarrow> (None, None, None, None))"

definition new_row ::
  "admission_request \<Rightarrow> decision \<Rightarrow> int option \<Rightarrow> envelope \<Rightarrow> instant \<Rightarrow> string \<Rightarrow> reservation" where
  "new_row request decision site = (\<lambda>(items, record_reads, bytes, calls) now reason.
     let est = decision_estimate decision in
     \<lparr>rv_id = 0, rv_run = None, rv_site = site, rv_class = req_class request,
      rv_kind = req_operator_kind request, rv_build_id = None,
      rv_status = (if admitted decision then RESERVED else DENIED),
      rv_denial = (if admitted decision then None else denied_for decision), rv_reason = strip reason,
      rv_probe_dataset = None, rv_estimate = map_option estimate_usd est,
      rv_execution = map_option execution_bound_usd est, rv_post_run = map_option post_run_liability_usd est,
      rv_monitoring = map_option monitoring_bound_usd est,
      rv_components = (case est of None \<Rightarrow> [] | Some e \<Rightarrow> components e),
      rv_version = (case est of None \<Rightarrow> [] | Some e \<Rightarrow> ce_estimator_version e),
      rv_env_items = items, rv_env_record_reads = record_reads, rv_env_bytes = bytes, rv_env_calls = calls,
      rv_usage_provisional = None, rv_usage_finalized = None, rv_usage_finalized_at = None, rv_basis = None,
      rv_settled_usage = None, rv_post_run_cost = None, rv_cost_mode = None, rv_actual = None,
      rv_reserved_at = now, rv_reconciled_at = None, rv_last_charge_at = None, rv_monitor_until = None,
      rv_next_usage_read_at = None, rv_monitor_closed_at = None, rv_closing_read = None,
      rv_monitoring_charge_last_at = None, rv_monitoring_call_pending_since = None, rv_run_polls = 0,
      rv_correction_reads = 0\<rparr>)"

definition persist ::
  "admission_request \<Rightarrow> decision \<Rightarrow> int option \<Rightarrow> budget_settings \<Rightarrow> instant \<Rightarrow> string \<Rightarrow> ledger_db
     \<Rightarrow> ledger_error + ledger_db \<times> outcome" where
  "persist request decision site cfg now reason db =
     andThen (case envelope_limits (req_operator_kind request) cfg of
         Some env \<Rightarrow> Inr env
       | None \<Rightarrow> if admitted decision then Inl (Raised AssertionError)
           else Inr (recordable_limits (req_operator_kind request) cfg)) (\<lambda>env.
     andThen (insert_reservation db (new_row request decision site env now reason)) (\<lambda>(db, pk).
     Inr (db, \<lparr>oc_admitted = admitted decision,
       oc_reason = (if admitted decision then None else denied_for decision),
       oc_id = pk, oc_estimate = decision_estimate decision\<rparr>)))"

section \<open>Reserve\<close>

text \<open>What admission sees of the ledger: authority, the cycle's debits and the next cycle's.\<close>

definition observe_cycle ::
  "ledger_config \<Rightarrow> instant \<Rightarrow> budget_cycle option \<Rightarrow> ledger_db
     \<Rightarrow> ledger_error + ledger_db \<times> bool \<times> cycle_debits \<times> cycle_debits option" where
  "observe_cycle config now cycle db =
     (case cycle of
        None \<Rightarrow> Inr (db, True, no_debits, None)
      | Some c \<Rightarrow>
          andThen (authority_held_now config now c db) (\<lambda>(db, held).
          andThen (cycle_debits_of db c config) (\<lambda>(current, after).
          Inr (db, held, current, Some after))))"

definition reserve ::
  "admission_request \<Rightarrow> int option \<Rightarrow> ledger_config \<Rightarrow> pydatetime \<Rightarrow> string \<Rightarrow> ledger_db
     \<Rightarrow> ledger_error + ledger_db \<times> outcome" where
  "reserve request site config now reason db =
     (let cfg = budget config; t = instant_of now in
      andThen (raise_if (req_class request \<noteq> OPERATOR \<and> site = None) (Raised ValueError)) (\<lambda>_.
      andThen (clear_on_estimator_bump (estimator_version cfg) t db) (\<lambda>(db, _).
      andThen (trip_stranded_start_refusals_locked (estimator_version cfg) t db) (\<lambda>(db, _).
      let latch = latch_tripped db in
      andThen (ensure_cycle config now db) (\<lambda>(db, cycle).
      andThen (observe_cycle config t cycle db) (\<lambda>(db, held, current, after).
      let state = \<lparr>lst_now = now, latch_tripped_flag = latch, authority_held = held,
            snapshot = map_option (\<lambda>c. snapshot_of c cfg) cycle, current_debits = current,
            next_cycle = after\<rparr> in
      andThen (lift_budget (decide_admission request cfg state)) (\<lambda>decision.
      persist request decision site cfg t reason db)))))))"

definition reserve_operator ::
  "operator_kind \<Rightarrow> ledger_config \<Rightarrow> pydatetime \<Rightarrow> string \<Rightarrow> ledger_db \<Rightarrow> ledger_error + ledger_db \<times> outcome" where
  "reserve_operator kind config now reason db =
     andThen (lift_budget (mk_admission_request
       \<lparr>req_class = OPERATOR, req_run = None, req_operator_kind = Some kind\<rparr>)) (\<lambda>request.
     reserve request None config now reason db)"

section \<open>The amounts of an estimate have four decimals\<close>

definition estimate_on_grid :: "cost_estimate \<Rightarrow> bool" where
  "estimate_on_grid e \<longleftrightarrow> on_grid 4 (estimate_usd e) \<and> on_grid 4 (execution_bound_usd e)
     \<and> on_grid 4 (post_run_liability_usd e) \<and> on_grid 4 (monitoring_bound_usd e)"

lemma on_grid_zero: "on_grid k 0"
  by (auto simp: on_grid_def intro: exI [of _ 0])

lemma with_margin_on_grid: "with_margin e p m = Inr x \<Longrightarrow> on_grid 4 x"
  by (auto simp: with_margin_def andThen_eq_Inr intro: usd_on_grid)

lemma run_estimate_on_grid: "estimate_run_cost s cfg = Inr e \<Longrightarrow> estimate_on_grid e"
  by (auto simp: estimate_run_cost_def andThen_eq_Inr price_run_eq_Inr estimate_on_grid_def
      intro: usd_on_grid with_margin_on_grid)

lemma operator_estimate_on_grid: "estimate_operator_cost k cfg = Inr e \<Longrightarrow> estimate_on_grid e"
  by (auto simp: estimate_operator_cost_def andThen_eq_Inr build_estimate_def Let_def estimate_on_grid_def
      intro: usd_on_grid with_margin_on_grid on_grid_zero split: if_splits)

lemma decision_estimate_on_grid:
  "decision_inputs request cfg = Inr (a, r, c, e, l) \<Longrightarrow> estimate_on_grid e"
  by (erule decision_inputsE) (auto split: option.splits intro: run_estimate_on_grid operator_estimate_on_grid)

section \<open>What the ledger owes a cycle\<close>

definition carried_of :: "ledger_db \<Rightarrow> instant \<Rightarrow> rat" where
  "carried_of db y_start =
     (case first_such (\<lambda>a. au_cycle_start a = y_start) (authorities db) of Some a \<Rightarrow> au_carried a | None \<Rightarrow> 0)"

text \<open>The rows and the authority rows are within their tables' constraints, and few enough to sum exactly.\<close>

definition ledger_ok :: "ledger_db \<Rightarrow> bool" where
  "ledger_ok db \<longleftrightarrow> (\<forall>r \<in> set (reservations db). row_ok r) \<and> (\<forall>a \<in> set (authorities db). money 1 (au_carried a))
     \<and> length (reservations db) \<le> 10 ^ 15"

lemma carried_money: "ledger_ok db \<Longrightarrow> money 1 (carried_of db s)"
  by (auto simp: carried_of_def ledger_ok_def split: option.splits dest!: first_such_Some)

lemma row_debit_runs: "runs db = runs db' \<Longrightarrow> row_debit db = row_debit db'"
proof (intro ext)
  fix config g s e r
  assume same: "runs db = runs db'"
  have "correction_reads db r = correction_reads db' r" unfolding correction_reads_def same ..
  then have "monitoring_open db r config = monitoring_open db' r config" by (simp only: monitoring_open_def)
  then have "monitoring_end db config g r = monitoring_end db' config g r" by (simp only: monitoring_end_def)
  then show "row_debit db config g s e r = row_debit db' config g s e r" by (simp only: row_debit_def)
qed

lemma class_debit_append:
  assumes "runs db' = runs db" and "reservations db' = reservations db @ [r]"
  shows "class_debit db' config g s e op = class_debit db config g s e op
     + (if (rv_class r = OPERATOR) = op then row_debit db config g s e r else 0)"
  using assms(2) row_debit_runs [OF assms(1)] by (auto simp: class_debit_def)

lemma class_debit_cong:
  "runs db' = runs db \<Longrightarrow> reservations db' = reservations db \<Longrightarrow> class_debit db' = class_debit db"
  using row_debit_runs [of db' db] by (intro ext) (simp add: class_debit_def)

lemma tally_of_carried:
  assumes "tally_of db s e config inc = Inr t"
  shows "carried t = (if inc then carried_of db s else 0)"
proof -
  have fold0: "carried (fold (tally_row db config g s e) rows t0) = carried t0" for g rows t0
  proof (induction rows arbitrary: t0)
    case (Cons r rows)
    have "carried (tally_row db config g s e r t0) = carried t0" by (simp add: tally_row_def Let_def)
    with Cons.IH show ?case by simp
  qed simp
  have zero: "carried empty_tally = 0" by (simp add: empty_tally_def)
  obtain g rows where "t = (let t = fold (tally_row db config g s e) rows empty_tally in
      if inc then (case first_such (\<lambda>a. au_cycle_start a = s) (authorities db) of
               Some a \<Rightarrow> t\<lparr>carried := au_carried a\<rparr> | None \<Rightarrow> t) else t)"
    using assms unfolding tally_of_def andThen_eq_Inr Let_def by blast
  then show ?thesis using zero by (simp add: fold0 Let_def carried_of_def split: option.splits)
qed

definition exact_debits :: "ledger_db \<Rightarrow> ledger_config \<Rightarrow> timedelta \<Rightarrow> instant \<Rightarrow> instant \<Rightarrow> rat \<Rightarrow> cycle_debits \<Rightarrow> bool" where
  "exact_debits db config g s e c d \<longleftrightarrow> runtime_committed_usd d = class_debit db config g s e False
     \<and> operator_committed_usd d = class_debit db config g s e True \<and> carried_handoff_usd d = c
     \<and> money (3 * 10 ^ 15) (runtime_committed_usd d) \<and> money (3 * 10 ^ 15) (operator_committed_usd d)
     \<and> money 1 (carried_handoff_usd d)"

lemma tally_exact:
  assumes "tally_of db s e config inc = Inr t" and "ledger_ok db" and "guard_of config = Inr g"
  shows "exact_debits db config g s e (if inc then carried_of db s else 0) (tally_debits t)"
proof -
  have rows: "\<forall>r \<in> set (reservations db). row_ok r" "length (reservations db) \<le> 10 ^ 15"
    using assms(2) by (auto simp: ledger_ok_def)
  have inv: "tally_inv (10 ^ 15) t (class_debit db config g s e False) (class_debit db config g s e True)"
    by (rule tally_of_inv [OF assms(1) rows]) (simp add: assms(3))
  have c: "carried_handoff_usd (tally_debits t) = (if inc then carried_of db s else 0)"
    using tally_of_carried [OF assms(1)] by (simp add: tally_debits_def)
  show ?thesis
    unfolding exact_debits_def tally_debits_exact(1,2) [OF inv] c
    using tally_debits_exact(3,4) [OF inv] carried_money [OF assms(2)] by simp
qed

lemma hr_exact:
  assumes "exact_debits db config g s e c d" and "money 1 new"
  shows "dadd (hr_cycle d) new = class_debit db config g s e False + class_debit db config g s e True + c + new"
    and "dadd (dadd (runtime_committed_usd d) (carried_handoff_usd d)) new = class_debit db config g s e False + c + new"
    and "dadd (operator_committed_usd d) new = class_debit db config g s e True + new"
proof -
  let ?r = "runtime_committed_usd d" and ?o = "operator_committed_usd d"
  note ex = assms(1) [unfolded exact_debits_def]
  have m: "money (3 * 10 ^ 15) ?r" "money (3 * 10 ^ 15) ?o" "money 1 (carried_handoff_usd d)" using ex by auto
  have ro: "dadd ?r ?o = ?r + ?o" "money (6 * 10 ^ 15) (?r + ?o)"
    using money_dadd [OF m(1,2)] money_add [OF m(1,2)] by simp_all
  have roc: "dadd (?r + ?o) (carried_handoff_usd d) = ?r + ?o + carried_handoff_usd d"
    "money (6 * 10 ^ 15 + 1) (?r + ?o + carried_handoff_usd d)"
    using money_dadd [OF ro(2) m(3)] money_add [OF ro(2) m(3)] by simp_all
  show "dadd (hr_cycle d) new = class_debit db config g s e False + class_debit db config g s e True + c + new"
    unfolding hr_cycle_def ro(1) roc(1) using money_dadd [OF roc(2) assms(2)] ex by simp
  have rc: "dadd ?r (carried_handoff_usd d) = ?r + carried_handoff_usd d"
    "money (3 * 10 ^ 15 + 1) (?r + carried_handoff_usd d)"
    using money_dadd [OF m(1,3)] money_add [OF m(1,3)] by simp_all
  show "dadd (dadd ?r (carried_handoff_usd d)) new = class_debit db config g s e False + c + new"
    unfolding rc(1) using money_dadd [OF rc(2) assms(2)] ex by simp
  show "dadd ?o new = class_debit db config g s e True + new"
    using money_dadd [OF m(2) assms(2)] ex by simp
qed

section \<open>One reservation, taken apart\<close>

lemma reserveE:
  assumes "reserve request site config now reason db = Inr (db', oc)"
  obtains db1 db2 db3 db4 n ks cycle held current after decision where
    "req_class request = OPERATOR \<or> site \<noteq> None"
    and "clear_on_estimator_bump (estimator_version (budget config)) (instant_of now) db = Inr (db1, n)"
    and "trip_stranded_start_refusals_locked (estimator_version (budget config)) (instant_of now) db1 = Inr (db2, ks)"
    and "ensure_cycle config now db2 = Inr (db3, cycle)"
    and "observe_cycle config (instant_of now) cycle db3 = Inr (db4, held, current, after)"
    and "decide_admission request (budget config)
      \<lparr>lst_now = now, latch_tripped_flag = latch_tripped db2, authority_held = held,
       snapshot = map_option (\<lambda>c. snapshot_of c (budget config)) cycle, current_debits = current,
       next_cycle = after\<rparr> = Inr decision"
    and "persist request decision site (budget config) (instant_of now) reason db4 = Inr (db', oc)"
  using assms
  by (simp only: reserve_def Let_def andThen_eq_Inr split_paired_Ex case_prod_conv lift_budget_eq_Inr
      raise_if_eq_Inr de_Morgan_conj not_not) blast

lemma clear_bump_frame:
  "clear_on_estimator_bump v t db = Inr (db', n) \<Longrightarrow> \<exists>ts. db' = db\<lparr>trips := ts\<rparr>"
  by (auto simp: clear_on_estimator_bump_def Let_def andThen_eq_Inr)

lemma observe_cycle_eq_Some:
  assumes "observe_cycle config t (Some c) db = Inr (db', held, current, after)"
  obtains t1 t2 where "ensure_continued_authority config t c db = Inr db'"
    and "held \<longleftrightarrow> (\<exists>a \<in> set (authorities db'). au_cycle_start a = cy_start c \<and> au_handed_off a = None)"
    and "tally_of db' (cy_start c) (cy_end c) config True = Inr t1" and "current = tally_debits t1"
    and "tally_of db' (cy_end c + CYCLE_END_EPSILON) NEVER config False = Inr t2" and "after = Some (tally_debits t2)"
  using assms
  by (auto simp: observe_cycle_def authority_held_now_def cycle_debits_of_def andThen_eq_Inr)

lemma observe_cycle_frame:
  assumes "observe_cycle config t cycle db = Inr (db', held, current, after)"
  shows "reservations db' = reservations db" and "runs db' = runs db" and "cycles db' = cycles db"
    and "trips db' = trips db" and "sites db' = sites db"
proof -
  have "reservations db' = reservations db \<and> runs db' = runs db \<and> cycles db' = cycles db \<and> trips db' = trips db
      \<and> sites db' = sites db"
  proof (cases cycle)
    case None
    then show ?thesis using assms by (simp add: observe_cycle_def)
  next
    case (Some c)
    have "ensure_continued_authority config t c db = Inr db'"
      using assms unfolding Some by (rule observe_cycle_eq_Some)
    from ensure_continued_authority_idem [OF this] show ?thesis by simp
  qed
  then show "reservations db' = reservations db" "runs db' = runs db" "cycles db' = cycles db"
    "trips db' = trips db" "sites db' = sites db" by auto
qed

text \<open>Continuing authority and materializing a cycle keep the carried amounts sound: a new row carries nothing.\<close>

definition carried_ok :: "ledger_db \<Rightarrow> bool" where
  "carried_ok db \<longleftrightarrow> (\<forall>a \<in> set (authorities db). money 1 (au_carried a))"

lemma continued_carried_ok:
  "ensure_continued_authority config t c db = Inr db' \<Longrightarrow> carried_ok db \<Longrightarrow> carried_ok db'"
  by (drule ensure_continued_authority_effect) (auto simp: carried_ok_def)

lemma ensure_cycle_carried_ok:
  assumes "ensure_cycle config now db = Inr (db', c)" and "carried_ok db"
  shows "carried_ok db'"
  using assms(1)
proof (cases rule: ensure_cycle_cases)
  case (created cycle anchor db1)
  have "carried_ok db1" using assms(2) created(7) by (simp add: carried_ok_def)
  with created(8) show ?thesis by (rule continued_carried_ok)
qed (use assms(2) in auto)

lemma observe_carried_ok:
  assumes "observe_cycle config t cycle db = Inr (db', held, current, after)" and "carried_ok db"
  shows "carried_ok db'"
proof (cases cycle)
  case None
  then show ?thesis using assms by (simp add: observe_cycle_def)
next
  case (Some c)
  have "ensure_continued_authority config t c db = Inr db'"
    using assms(1) unfolding Some by (rule observe_cycle_eq_Some)
  then show ?thesis using assms(2) by (rule continued_carried_ok)
qed

lemma continued_carried_of:
  assumes "ensure_continued_authority config t c db = Inr db'"
  shows "carried_of db' s = carried_of db s"
  using ensure_continued_authority_effect [OF assms]
  by (auto simp: carried_of_def first_such_append split: option.splits if_splits)

lemma ensure_cycle_carried_of:
  assumes "ensure_cycle config now db = Inr (db', c)"
  shows "carried_of db' s = carried_of db s"
  using assms
proof (cases rule: ensure_cycle_cases)
  case (created cycle anchor db1)
  have "carried_of db1 s = carried_of db s" by (simp add: carried_of_def created(7))
  then show ?thesis using continued_carried_of [OF created(8)] by simp
qed auto

lemma observe_carried_of:
  assumes "observe_cycle config t cycle db = Inr (db', held, current, after)"
  shows "carried_of db' s = carried_of db s"
proof (cases cycle)
  case None
  then show ?thesis using assms by (simp add: observe_cycle_def)
next
  case (Some c)
  have "ensure_continued_authority config t c db = Inr db'"
    using assms unfolding Some by (rule observe_cycle_eq_Some)
  then show ?thesis by (rule continued_carried_of)
qed

lemma persistE:
  assumes "persist request decision site cfg t reason db = Inr (db', oc)"
  obtains row env where "db' = db\<lparr>reservations := reservations db @ [row], next_id := next_id db + 1\<rparr>"
    and "row = (new_row request decision site env t reason)\<lparr>rv_id := next_id db\<rparr>"
    and "reservation_fits row" and "reservation_checks row" and "oc_admitted oc = admitted decision"
    and "oc_id oc = rv_id row" and "oc_estimate oc = decision_estimate decision"
    and "oc_reason oc = (if admitted decision then None else denied_for decision)"
  using assms
  by (auto simp: persist_def andThen_eq_Inr insert_reservation_def Let_def)

lemma new_row_fields:
  "rv_class (new_row request d site env t reason) = req_class request"
  "rv_status (new_row request d site env t reason) = (if admitted d then RESERVED else DENIED)"
  "rv_estimate (new_row request d site env t reason) = map_option estimate_usd (decision_estimate d)"
  "rv_monitoring (new_row request d site env t reason) = map_option monitoring_bound_usd (decision_estimate d)"
  "rv_reserved_at (new_row request d site env t reason) = t"
  "rv_reconciled_at (new_row request d site env t reason) = None"
  "reservation_money (new_row request d site env t reason) =
     [map_option estimate_usd (decision_estimate d), None, map_option execution_bound_usd (decision_estimate d),
      map_option post_run_liability_usd (decision_estimate d),
      map_option monitoring_bound_usd (decision_estimate d), None, None, None, None]"
  by (cases env; simp add: new_row_def Let_def reservation_money_def)+

lemma money_id [simp]: "reservation_money (r\<lparr>rv_id := i\<rparr>) = reservation_money r"
  by (simp add: reservation_money_def)

text \<open>What the reservation of the whole transaction is, and that the ledger stays sound.\<close>

lemma deny_estimate: "deny reason e = Inr d \<Longrightarrow> decision_estimate d = e"
  by (auto simp: deny_def)

lemma decide_money_estimate:
  assumes "decide_money request cfg ledger x b (a, r, c, est, l) = Inr d"
  shows "decision_estimate d = Some est"
proof -
  obtain m stop where "account_margin_usd cfg b = Inr m"
    "class_denial request cfg (current_debits ledger) (admission_usd est) a r = Inr stop"
    using assms unfolding decide_money_def prod.case Let_def andThen_eq_Inr by blast
  then show ?thesis
    using assms by (cases stop) (auto simp: decide_money_def Let_def dest: deny_estimate split: if_splits)
qed

lemma decide_in_cycle_estimate:
  assumes "decide_in_cycle request cfg ledger x len (a, r, c, est, l) = Inr d"
  shows "decision_estimate d = Some est"
proof (cases "account_setting_problem cfg (lst_now ledger)")
  case (Some p)
  then show ?thesis using assms by (auto simp: decide_in_cycle_def dest: deny_estimate)
next
  case None
  then obtain limit base days where *: "account_limit_usd cfg = Some (DFin limit)"
    "account_base_price_usd cfg = Some (DFin base)" "account_data_retention_days cfg = Some days"
    by (rule account_settings_set)
  show ?thesis
    using assms
    by (auto simp: decide_in_cycle_def None * finite_setting_def dest: deny_estimate decide_money_estimate
        split: if_splits)
qed

lemma decide_on_state_estimate:
  "decide_on_state request cfg ledger x (a, r, c, est, l) = Inr d \<Longrightarrow> decision_estimate d = Some est"
  by (auto simp: decide_on_state_def dest: deny_estimate decide_in_cycle_estimate split: if_splits option.splits)

lemma decision_on_grid:
  assumes "decide_admission request cfg ledger = Inr d" and "decision_estimate d = Some e"
  shows "estimate_on_grid e"
proof -
  obtain x a r c est l where i: "decision_inputs request cfg = Inr (a, r, c, est, l)"
    and st: "decide_on_state request cfg ledger x (a, r, c, est, l) = Inr d"
    using assms by (auto simp: decide_admission_def deny_def split: if_splits option.splits sum.splits budget_error.splits)
  have "est = e" using decide_on_state_estimate [OF st] assms(2) by simp
  then show ?thesis using decision_estimate_on_grid [OF i] by simp
qed

lemma new_row_ok:
  assumes "decide_admission request cfg ledger = Inr d"
    and "row = (new_row request d site env t reason)\<lparr>rv_id := i\<rparr>"
    and "reservation_fits row" and "reservation_checks row"
  shows "row_ok row"
proof -
  have "list_all (opt_all (on_grid 4)) (reservation_money row)"
    using decision_on_grid [OF assms(1)] unfolding assms(2) money_id new_row_fields
    by (cases "decision_estimate d") (auto simp: estimate_on_grid_def)
  moreover have "rv_reconciled_at row = None" by (simp add: assms(2) new_row_fields)
  ultimately show ?thesis using assms(3,4) by (simp add: row_ok_def)
qed

text \<open>
  The transaction as one change of the ledger: the state \<open>db1\<close> admission looked at, and the row added to
  it. \<open>db1\<close> has the rows and runs of the ledger before.
\<close>

lemma reserve_appends:
  assumes "reserve request site config now reason db = Inr (db', oc)"
  obtains db0 db1 cycle held current after decision row latch where
    "observe_cycle config (instant_of now) cycle db0 = Inr (db1, held, current, after)"
    and "reservations db1 = reservations db" and "runs db1 = runs db"
    and "carried_ok db \<Longrightarrow> carried_ok db1" and "\<And>s. carried_of db1 s = carried_of db s"
    and "\<And>c. cycle = Some c \<Longrightarrow> c \<in> set (cycles db1)"
    and "\<And>c. cycle = Some c \<Longrightarrow> \<exists>anchor. billing_cycle_anchor (budget config) = Some anchor
       \<and> billing_cycle_bounds anchor now = Inr (Some (cy_start c, cy_end c))"
    and "decide_admission request (budget config)
      \<lparr>lst_now = now, latch_tripped_flag = latch, authority_held = held,
       snapshot = map_option (\<lambda>c. snapshot_of c (budget config)) cycle, current_debits = current,
       next_cycle = after\<rparr> = Inr decision"
    and "db' = db1\<lparr>reservations := reservations db @ [row], next_id := next_id db1 + 1\<rparr>"
    and "row_ok row" and "rv_class row = req_class request"
    and "rv_status row = (if admitted decision then RESERVED else DENIED)"
    and "rv_estimate row = map_option estimate_usd (decision_estimate decision)"
    and "rv_monitoring row = map_option monitoring_bound_usd (decision_estimate decision)"
    and "rv_reserved_at row = instant_of now" and "oc_admitted oc = admitted decision" and "oc_id oc = rv_id row"
    and "latch = latch_tripped db1"
proof -
  obtain dba dbb db0 db1 n ks cycle held current after decision where
    a: "clear_on_estimator_bump (estimator_version (budget config)) (instant_of now) db = Inr (dba, n)"
    and b: "trip_stranded_start_refusals_locked (estimator_version (budget config)) (instant_of now) dba = Inr (dbb, ks)"
    and c: "ensure_cycle config now dbb = Inr (db0, cycle)"
    and o: "observe_cycle config (instant_of now) cycle db0 = Inr (db1, held, current, after)"
    and d: "decide_admission request (budget config)
      \<lparr>lst_now = now, latch_tripped_flag = latch_tripped dbb, authority_held = held,
       snapshot = map_option (\<lambda>c. snapshot_of c (budget config)) cycle, current_debits = current,
       next_cycle = after\<rparr> = Inr decision"
    and p: "persist request decision site (budget config) (instant_of now) reason db1 = Inr (db', oc)"
    using assms by (rule reserveE)
  obtain ts where dba: "dba = db\<lparr>trips := ts\<rparr>" using clear_bump_frame [OF a] by blast
  obtain ts' where dbb: "dbb = dba\<lparr>trips := ts'\<rparr>" using trip_stranded_effect(1) [OF b] by blast
  note e = ensure_cycle_frame [OF c] and f = observe_cycle_frame [OF o]
  obtain row env where db': "db' = db1\<lparr>reservations := reservations db1 @ [row], next_id := next_id db1 + 1\<rparr>"
    and row: "row = (new_row request decision site env (instant_of now) reason)\<lparr>rv_id := next_id db1\<rparr>"
    and chk: "reservation_fits row" "reservation_checks row" and oc: "oc_admitted oc = admitted decision" "oc_id oc = rv_id row"
    using p by (rule persistE)
  have same: "reservations db1 = reservations db" "runs db1 = runs db" using e f dba dbb by simp_all
  have latch: "latch_tripped dbb = latch_tripped db1" using e(2) f(4) by (simp add: latch_tripped_def)
  have car: "carried_ok db1" if "carried_ok db"
  proof -
    have "carried_ok dbb" using that by (simp add: carried_ok_def dba dbb)
    from observe_carried_ok [OF o ensure_cycle_carried_ok [OF c this]] show ?thesis .
  qed
  have owed: "carried_of db1 s = carried_of db s" for s
    using observe_carried_of [OF o] ensure_cycle_carried_of [OF c] by (simp add: carried_of_def dba dbb)
  show ?thesis
  proof (rule that)
    show "observe_cycle config (instant_of now) cycle db0 = Inr (db1, held, current, after)" by (rule o)
    show "row_ok row" by (rule new_row_ok [OF d row chk])
    show "db' = db1\<lparr>reservations := reservations db @ [row], next_id := next_id db1 + 1\<rparr>" using db' same by simp
    show "c \<in> set (cycles db1)" if "cycle = Some c" for c using e(6) [OF that] f(3) by simp
    show "\<exists>anchor. billing_cycle_anchor (budget config) = Some anchor
       \<and> billing_cycle_bounds anchor now = Inr (Some (cy_start c', cy_end c'))" if "cycle = Some c'" for c'
      using ensure_cycle_bounds c that by simp
  qed (use same car owed latch d oc row in \<open>simp_all add: new_row_fields\<close>)
qed

text \<open>The exact figures admission compared, when a cycle was observed.\<close>

lemma observed_exact:
  assumes "observe_cycle config t (Some c) db0 = Inr (db1, held, current, after)" and "ledger_ok db1"
  obtains g nxt where "guard_of config = Inr g"
    and "exact_debits db1 config g (cy_start c) (cy_end c) (carried_of db1 (cy_start c)) current"
    and "after = Some nxt" and "exact_debits db1 config g (cy_end c + CYCLE_END_EPSILON) NEVER 0 nxt"
    and "held \<longleftrightarrow> (\<exists>a \<in> set (authorities db1). au_cycle_start a = cy_start c \<and> au_handed_off a = None)"
proof -
  obtain t1 t2 where o: "held \<longleftrightarrow> (\<exists>a \<in> set (authorities db1). au_cycle_start a = cy_start c \<and> au_handed_off a = None)"
    "tally_of db1 (cy_start c) (cy_end c) config True = Inr t1" "current = tally_debits t1"
    "tally_of db1 (cy_end c + CYCLE_END_EPSILON) NEVER config False = Inr t2" "after = Some (tally_debits t2)"
    using assms(1) by (rule observe_cycle_eq_Some)
  obtain g where g: "guard_of config = Inr g" using o(2) by (auto simp: tally_of_def andThen_eq_Inr)
  show ?thesis
    using that [OF g _ o(5) _ o(1)] tally_exact [OF o(2) assms(2) g] tally_exact [OF o(4) assms(2) g] o(3) by simp
qed

lemma new_row_debit:
  assumes "rv_status row = RESERVED" and "rv_reserved_at row \<le> e" and "0 \<le> g"
  shows "row_debit db config g s e row = amount (rv_estimate row) + amount (rv_monitoring row)"
  using assms by (simp add: row_debit_def)

section \<open>What an admitted reservation leaves behind\<close>

lemma reserve_within_limits:
  assumes "reserve request site config now reason db = Inr (db', oc)" and "oc_admitted oc" and "ledger_ok db"
    and never: "instant_of now \<le> NEVER"
  obtains cycle g bound acct_margin external target allowance watch_reserve where
    "cycle \<in> set (cycles db')" and "cy_start cycle \<le> instant_of now" and "instant_of now \<le> cy_end cycle"
    and "\<exists>anchor. billing_cycle_anchor (budget config) = Some anchor
       \<and> billing_cycle_bounds anchor now = Inr (Some (cy_start cycle, cy_end cycle))"
    and "guard_of config = Inr g" and "\<not> latch_tripped db'"
    and "\<exists>a \<in> set (authorities db'). au_cycle_start a = cy_start cycle \<and> au_handed_off a = None"
    and "account_limit_usd (budget config) = Some (DFin bound)"
    and "account_margin_usd (budget config) bound = Inr acct_margin"
    and "external_liability_usd (budget config) = Some (DFin external)"
    and "cycle_target_usd (budget config) = Some (DFin target)" and "target \<le> 12"
    and "operator_allowance_usd (budget config) = Some (DFin allowance)"
    and "watch_refresh_reserve_usd (budget config) = Some (DFin watch_reserve)" and "0 \<le> watch_reserve"
    and "dadd (class_debit db' config g (cy_start cycle) (cy_end cycle) False
        + class_debit db' config g (cy_start cycle) (cy_end cycle) True + carried_of db' (cy_start cycle)) external
      \<le> dsub bound acct_margin"
    and "dadd (class_debit db' config g (cy_end cycle + CYCLE_END_EPSILON) NEVER False
        + class_debit db' config g (cy_end cycle + CYCLE_END_EPSILON) NEVER True) external \<le> dsub bound acct_margin"
    and "case req_class request of
        OPERATOR \<Rightarrow> class_debit db' config g (cy_start cycle) (cy_end cycle) True \<le> allowance
      | WATCH_REFRESH \<Rightarrow> class_debit db' config g (cy_start cycle) (cy_end cycle) False + carried_of db' (cy_start cycle)
          \<le> dsub target allowance
      | DISCOVERY \<Rightarrow> class_debit db' config g (cy_start cycle) (cy_end cycle) False + carried_of db' (cy_start cycle)
          \<le> dsub (dsub target allowance) watch_reserve"
proof -
  obtain db0 db1 cycle_opt held current after decision row latch where
    o: "observe_cycle config (instant_of now) cycle_opt db0 = Inr (db1, held, current, after)"
    and same: "reservations db1 = reservations db" "runs db1 = runs db" and car: "carried_ok db \<Longrightarrow> carried_ok db1"
    and owed: "\<And>s. carried_of db1 s = carried_of db s"
    and cyc: "\<And>c. cycle_opt = Some c \<Longrightarrow> c \<in> set (cycles db1)"
    and bounds: "\<And>c. cycle_opt = Some c \<Longrightarrow> \<exists>anchor. billing_cycle_anchor (budget config) = Some anchor
       \<and> billing_cycle_bounds anchor now = Inr (Some (cy_start c, cy_end c))"
    and d: "decide_admission request (budget config)
      \<lparr>lst_now = now, latch_tripped_flag = latch, authority_held = held,
       snapshot = map_option (\<lambda>c. snapshot_of c (budget config)) cycle_opt, current_debits = current,
       next_cycle = after\<rparr> = Inr decision"
    and db': "db' = db1\<lparr>reservations := reservations db @ [row], next_id := next_id db1 + 1\<rparr>"
    and row: "row_ok row" "rv_class row = req_class request" "rv_status row = (if admitted decision then RESERVED else DENIED)"
      "rv_estimate row = map_option estimate_usd (decision_estimate decision)"
      "rv_monitoring row = map_option monitoring_bound_usd (decision_estimate decision)"
      "rv_reserved_at row = instant_of now" "oc_admitted oc = admitted decision"
    and latch: "latch = latch_tripped db1"
    by (rule reserve_appends [OF assms(1)]) (rule that, assumption+)
  have ad: "admitted decision" using assms(2) row(7) by simp
  obtain external allocation watch_reserve est snap cs ce bound acct_margin target allowance where
    held: "held" and off: "\<not> latch" and ext: "external_liability_usd (budget config) = Some (DFin external)"
    and t: "cycle_target_usd (budget config) = Some (DFin target)" "target \<le> 12"
      "operator_allowance_usd (budget config) = Some (DFin allowance)" "allocation = dsub target allowance"
      "watch_refresh_reserve_usd (budget config) = Some (DFin watch_reserve)" "0 \<le> watch_reserve"
    and snap: "map_option (\<lambda>c. snapshot_of c (budget config)) cycle_opt = Some snap"
      "snap_cycle_start snap = Some cs" "snap_cycle_end snap = Some ce" "cs \<le> instant_of now" "instant_of now \<le> ce"
    and lim: "account_limit_usd (budget config) = Some (DFin bound)" "account_margin_usd (budget config) bound = Inr acct_margin"
    and cls: "class_denial request (budget config) current (admission_usd est) allocation watch_reserve = Inr None"
    and room: "dadd (dadd (hr_cycle current) (admission_usd est)) external \<le> dsub bound acct_margin"
      "case after of None \<Rightarrow> True | Some nxt \<Rightarrow> dadd (dadd (hr_cycle nxt) (admission_usd est)) external \<le> dsub bound acct_margin"
    and dec: "decision_estimate decision = Some est"
    by (rule admittedE [OF d ad]) simp
  obtain cycle where c: "cycle_opt = Some cycle" "cs = cy_start cycle" "ce = cy_end cycle"
    using snap by (auto simp: snapshot_of_def)
  have ok1: "ledger_ok db1" using assms(3) car same by (simp add: ledger_ok_def carried_ok_def)
  obtain g nxt where g: "guard_of config = Inr g"
    and cur: "exact_debits db1 config g cs ce (carried_of db1 cs) current"
    and aft: "after = Some nxt" "exact_debits db1 config g (ce + CYCLE_END_EPSILON) NEVER 0 nxt"
    and auth: "held \<longleftrightarrow> (\<exists>a \<in> set (authorities db1). au_cycle_start a = cs \<and> au_handed_off a = None)"
    using o [unfolded c(1)] ok1 unfolding c(2,3) by (rule observed_exact)
  have new: "amount (rv_estimate row) + amount (rv_monitoring row) = admission_usd est" "money 1 (admission_usd est)"
    using row_money(3,4) [OF row(1)] row(4,5) dec by (simp_all add: amount_def admission_usd_def)
  have st: "rv_status row = RESERVED" using row(3) ad by simp
  note g0 = guard_of_nonneg [OF g]
  have app: "class_debit db' config g s e op = class_debit db1 config g s e op
     + (if (req_class request = OPERATOR) = op then row_debit db1 config g s e row else 0)" for s e op
    using class_debit_append [of db' db1 row config g s e op] row(2) same by (simp add: db')
  have rd: "row_debit db1 config g cs ce row = admission_usd est"
    "row_debit db1 config g (ce + CYCLE_END_EPSILON) NEVER row = admission_usd est"
    using new_row_debit [OF st _ g0] row(6) snap(5) never new(1) by simp_all
  have carried: "carried_of db' cs = carried_of db1 cs" by (simp add: carried_of_def db')
  have both: "class_debit db' config g cs ce False + class_debit db' config g cs ce True + carried_of db' cs
      = dadd (hr_cycle current) (admission_usd est)"
    "class_debit db' config g (ce + CYCLE_END_EPSILON) NEVER False + class_debit db' config g (ce + CYCLE_END_EPSILON) NEVER True
      = dadd (hr_cycle nxt) (admission_usd est)"
    using app rd carried hr_exact(1) [OF cur new(2)] hr_exact(1) [OF aft(2) new(2)] by simp_all
  have caps: "case req_class request of
        OPERATOR \<Rightarrow> class_debit db' config g cs ce True \<le> allowance
      | WATCH_REFRESH \<Rightarrow> class_debit db' config g cs ce False + carried_of db' cs \<le> dsub target allowance
      | DISCOVERY \<Rightarrow> class_debit db' config g cs ce False + carried_of db' cs \<le> dsub (dsub target allowance) watch_reserve"
    using class_denial_None [OF cls t(3)] app rd(1) carried hr_exact(2,3) [OF cur new(2)] t(4)
    by (cases "req_class request") (auto simp: Let_def)
  show ?thesis
    by (rule that [of cycle g bound acct_margin external target allowance watch_reserve])
      (use cyc bounds c snap g off latch held auth lim ext t room aft(1) both caps in
        \<open>auto simp: db' latch_tripped_def\<close>)
qed

text \<open>A denial owes nothing, and no reservation touches the other class's account.\<close>

lemma reserve_debits:
  assumes "reserve request site config now reason db = Inr (db', oc)" and "ledger_ok db"
    and "length (reservations db) < 10 ^ 15"
  shows "ledger_ok db'"
    and "\<not> oc_admitted oc \<Longrightarrow> class_debit db' config g s e op = class_debit db config g s e op"
    and "(req_class request = OPERATOR) \<noteq> op \<Longrightarrow> class_debit db' config g s e op = class_debit db config g s e op"
    and "carried_of db' s = carried_of db s"
proof -
  obtain db1 :: ledger_db and decision :: decision and row :: reservation where
    same: "reservations db1 = reservations db" "runs db1 = runs db" and car: "carried_ok db \<Longrightarrow> carried_ok db1"
    and owed: "\<And>s. carried_of db1 s = carried_of db s"
    and db': "db' = db1\<lparr>reservations := reservations db @ [row], next_id := next_id db1 + 1\<rparr>"
    and row: "row_ok row" "rv_class row = req_class request" "rv_status row = (if admitted decision then RESERVED else DENIED)"
      "oc_admitted oc = admitted decision"
    by (rule reserve_appends [OF assms(1)]) (rule that, assumption+)
  show "ledger_ok db'"
    using assms(2,3) car row(1) by (auto simp: ledger_ok_def carried_ok_def db')
  have app: "class_debit db' config g s e op = class_debit db1 config g s e op
     + (if (req_class request = OPERATOR) = op then row_debit db1 config g s e row else 0)" for s e op
    using class_debit_append [of db' db1 row config g s e op] row(2) same by (simp add: db')
  have base: "class_debit db1 = class_debit db" by (rule class_debit_cong [OF same(2,1)])
  show "\<not> oc_admitted oc \<Longrightarrow> class_debit db' config g s e op = class_debit db config g s e op"
    using app [of s e op] base row(3,4) by (simp add: row_debit_def)
  show "(req_class request = OPERATOR) \<noteq> op \<Longrightarrow> class_debit db' config g s e op = class_debit db config g s e op"
    using app [of s e op] base by auto
  show "carried_of db' s = carried_of db s" using owed [of s] by (simp add: carried_of_def db')
qed

section \<open>Any number of reservations\<close>

text \<open>
  The caps of a billing cycle under one configuration, over the exact debits: the runtime classes
  together with the carried consumption within the allocation, the operator class within its
  allowance, and everything plus the external liability within the account limit less its margin.
\<close>

definition within_caps :: "ledger_config \<Rightarrow> timedelta \<Rightarrow> instant \<Rightarrow> instant \<Rightarrow> ledger_db \<Rightarrow> bool" where
  "within_caps config g cs ce db \<longleftrightarrow>
     (\<forall>t w. cycle_target_usd (budget config) = Some (DFin t) \<longrightarrow> operator_allowance_usd (budget config) = Some (DFin w) \<longrightarrow>
        class_debit db config g cs ce False + carried_of db cs \<le> dsub t w \<and> class_debit db config g cs ce True \<le> w)
     \<and> (\<forall>b m x. account_limit_usd (budget config) = Some (DFin b) \<longrightarrow>
        account_margin_usd (budget config) b = Inr m \<longrightarrow> external_liability_usd (budget config) = Some (DFin x) \<longrightarrow>
        dadd (class_debit db config g cs ce False + class_debit db config g cs ce True + carried_of db cs) x \<le> dsub b m)"

text \<open>
  \<open>no_further\<close>: each figure a cap of the cycle bounds is within the cap, or no larger than it was.
\<close>

definition no_further :: "ledger_config \<Rightarrow> timedelta \<Rightarrow> instant \<Rightarrow> instant \<Rightarrow> ledger_db \<Rightarrow> ledger_db \<Rightarrow> bool" where
  "no_further config g cs ce db db' \<longleftrightarrow>
     (\<forall>t w. cycle_target_usd (budget config) = Some (DFin t) \<longrightarrow> operator_allowance_usd (budget config) = Some (DFin w) \<longrightarrow>
        class_debit db' config g cs ce False + carried_of db' cs
          \<le> max (dsub t w) (class_debit db config g cs ce False + carried_of db cs)
        \<and> class_debit db' config g cs ce True \<le> max w (class_debit db config g cs ce True))
     \<and> (\<forall>b m x. account_limit_usd (budget config) = Some (DFin b) \<longrightarrow>
        account_margin_usd (budget config) b = Inr m \<longrightarrow> external_liability_usd (budget config) = Some (DFin x) \<longrightarrow>
        dadd (class_debit db' config g cs ce False + class_debit db' config g cs ce True + carried_of db' cs) x
          \<le> max (dsub b m) (dadd (class_debit db config g cs ce False + class_debit db config g cs ce True + carried_of db cs) x))"

lemma no_further_caps: "no_further config g cs ce db db' \<Longrightarrow> within_caps config g cs ce db \<Longrightarrow> within_caps config g cs ce db'"
  unfolding no_further_def within_caps_def by (metis max.absorb1)

text \<open>
  Requests of any class, at any times inside one billing cycle, in any order: each is a transaction
  under the budget lock, so they are a sequence; one that raises is rolled back.
\<close>

inductive reserve_step :: "ledger_config \<Rightarrow> instant \<Rightarrow> instant \<Rightarrow> ledger_db \<Rightarrow> admission_request \<Rightarrow> ledger_db \<Rightarrow> bool"
  for config cs ce where
  reserved: "\<lbrakk>reserve request site config now reason db = Inr (db', oc); length (reservations db) < 10 ^ 15;
      instant_of now \<le> NEVER; billing_cycle_anchor (budget config) = Some anchor;
      billing_cycle_bounds anchor now = Inr (Some (cs, ce))\<rbrakk>
    \<Longrightarrow> reserve_step config cs ce db request db'"
| rolled_back: "reserve request site config now reason db = Inl e \<Longrightarrow> reserve_step config cs ce db request db"

lemma reserve_no_further:
  assumes r: "reserve request site config now reason db = Inr (db', oc)" and ok: "ledger_ok db"
    and len: "length (reservations db) < 10 ^ 15" and never: "instant_of now \<le> NEVER"
    and b: "billing_cycle_anchor (budget config) = Some anchor" "billing_cycle_bounds anchor now = Inr (Some (cs, ce))"
    and g: "guard_of config = Inr g"
  shows "no_further config g cs ce db db'"
proof (cases "oc_admitted oc")
  case False
  then show ?thesis
    using reserve_debits(2) [OF r ok len False] reserve_debits(4) [OF r ok len] by (simp add: no_further_def)
next
  case True
  obtain cycle :: budget_cycle and g' bound m external target allowance watch where
    cyc: "\<exists>anchor. billing_cycle_anchor (budget config) = Some anchor
       \<and> billing_cycle_bounds anchor now = Inr (Some (cy_start cycle, cy_end cycle))" and g': "guard_of config = Inr g'"
    and s: "account_limit_usd (budget config) = Some (DFin bound)" "account_margin_usd (budget config) bound = Inr m"
      "external_liability_usd (budget config) = Some (DFin external)"
      "cycle_target_usd (budget config) = Some (DFin target)"
      "operator_allowance_usd (budget config) = Some (DFin allowance)" and w: "0 \<le> watch"
    and room: "dadd (class_debit db' config g' (cy_start cycle) (cy_end cycle) False
        + class_debit db' config g' (cy_start cycle) (cy_end cycle) True + carried_of db' (cy_start cycle)) external
      \<le> dsub bound m"
    and cls: "case req_class request of
        OPERATOR \<Rightarrow> class_debit db' config g' (cy_start cycle) (cy_end cycle) True \<le> allowance
      | WATCH_REFRESH \<Rightarrow> class_debit db' config g' (cy_start cycle) (cy_end cycle) False + carried_of db' (cy_start cycle)
          \<le> dsub target allowance
      | DISCOVERY \<Rightarrow> class_debit db' config g' (cy_start cycle) (cy_end cycle) False + carried_of db' (cy_start cycle)
          \<le> dsub (dsub target allowance) watch"
    by (rule reserve_within_limits [OF r True ok never]) (rule that, assumption+)
  have eq: "cy_start cycle = cs" "cy_end cycle = ce" "g' = g" using cyc b g g' by auto
  have other: "(req_class request = OPERATOR) \<noteq> op \<Longrightarrow> class_debit db' config g cs ce op = class_debit db config g cs ce op" for op
    by (rule reserve_debits(3) [OF r ok len])
  have "dsub (dsub target allowance) watch \<le> dsub target allowance"
    unfolding dsub_def by (rule dec.rnd_sub_le [OF dec.rnd_idem w])
  then have "class_debit db' config g cs ce False + carried_of db' cs
        \<le> max (dsub target allowance) (class_debit db config g cs ce False + carried_of db cs)
      \<and> class_debit db' config g cs ce True \<le> max allowance (class_debit db config g cs ce True)"
    using cls other [of False] other [of True] reserve_debits(4) [OF r ok len, of cs]
    unfolding eq le_max_iff_disj by (cases "req_class request") simp_all
  then show ?thesis using room s unfolding eq no_further_def by (simp add: le_max_iff_disj)
qed

lemma reserve_keeps_caps:
  assumes r: "reserve request site config now reason db = Inr (db', oc)" and ok: "ledger_ok db"
    and len: "length (reservations db) < 10 ^ 15" and never: "instant_of now \<le> NEVER"
    and b: "billing_cycle_anchor (budget config) = Some anchor" "billing_cycle_bounds anchor now = Inr (Some (cs, ce))"
    and g: "guard_of config = Inr g" and caps: "within_caps config g cs ce db"
  shows "within_caps config g cs ce db'"
  by (rule no_further_caps [OF reserve_no_further [OF r ok len never b g] caps])

interpretation capped: invariant "reserve_step config cs ce"
  "\<lambda>db. ledger_ok db \<and> (\<forall>g. guard_of config = Inr g \<longrightarrow> within_caps config g cs ce db)" for config cs ce
proof unfold_locales
  fix db request db'
  assume "reserve_step config cs ce db request db'"
    and "ledger_ok db \<and> (\<forall>g. guard_of config = Inr g \<longrightarrow> within_caps config g cs ce db)"
  then show "ledger_ok db' \<and> (\<forall>g. guard_of config = Inr g \<longrightarrow> within_caps config g cs ce db')"
    by (cases rule: reserve_step.cases) (auto intro: reserve_keeps_caps reserve_debits(1))
qed

text \<open>C2: The ledger never overspends: whatever requests of whatever classes reach \<open>reserve\<close> in a billing
  cycle, in whatever order, if the cycle's debits were within the caps they stay within them. The debits are
  exact, over every stored row: runtime plus carried within the allocation, operator within its allowance,
  and all of it plus the external liability within the account limit less its margin.\<close>

theorem reservations_never_overspend:
  assumes "steps (reserve_step config cs ce) db requests db'" and "ledger_ok db"
    and "guard_of config = Inr g" and "within_caps config g cs ce db"
  shows "ledger_ok db' \<and> within_caps config g cs ce db'"
  using capped.steps_inv [OF assms(1)] assms(2-4) by auto

text \<open>C8: An admitted reservation also leaves the next cycle inside the limit, and is granted only with the
  latch clear and this environment holding the authority of a recorded cycle that covers the moment.\<close>

theorem admitted_reservation_is_authorised:
  assumes "reserve request site config now reason db = Inr (db', oc)" and "oc_admitted oc" and "ledger_ok db"
    and "instant_of now \<le> NEVER"
  shows "\<exists>cycle g bound m external. cycle \<in> set (cycles db') \<and> cy_start cycle \<le> instant_of now
     \<and> instant_of now \<le> cy_end cycle \<and> \<not> latch_tripped db'
     \<and> (\<exists>a \<in> set (authorities db'). au_cycle_start a = cy_start cycle \<and> au_handed_off a = None)
     \<and> guard_of config = Inr g \<and> account_limit_usd (budget config) = Some (DFin bound)
     \<and> account_margin_usd (budget config) bound = Inr m
     \<and> external_liability_usd (budget config) = Some (DFin external)
     \<and> dadd (class_debit db' config g (cy_end cycle + CYCLE_END_EPSILON) NEVER False
        + class_debit db' config g (cy_end cycle + CYCLE_END_EPSILON) NEVER True) external \<le> dsub bound m"
  by (rule reserve_within_limits [OF assms]) blast

section \<open>A first reservation\<close>

definition sample_authority :: authority where
  "sample_authority = \<lparr>au_cycle_start = cy_start sample_cycle, au_kind = ORIGIN, au_ledger_id = ''prod'',
     au_carried = 0, au_attested_by = ''owner'', au_created_at = cy_start sample_cycle, au_handed_off = None,
     au_imported_digest = None\<rparr>"

definition authorised_db :: ledger_db where
  "authorised_db = sample_cycle_db\<lparr>authorities := [sample_authority]\<rparr>"

definition first_state :: ledger_state where
  "first_state = \<lparr>lst_now = sample_now, latch_tripped_flag = False, authority_held = True,
     snapshot = Some (snapshot_of sample_cycle sample_settings), current_debits = no_debits, next_cycle = Some no_debits\<rparr>"

lemma authorised_fields:
  "trips authorised_db = []" "runs authorised_db = []" "reservations authorised_db = []"
  "cycles authorised_db = [sample_cycle]" "authorities authorised_db = [sample_authority]" "sites authorised_db = [7]"
  "au_cycle_start sample_authority = cy_start sample_cycle" "au_handed_off sample_authority = None"
  "au_carried sample_authority = 0"
  by (simp_all add: authorised_db_def sample_cycle_db_def empty_db_def sample_authority_def)

lemma authorised_ensure: "ensure_cycle sample_config sample_now authorised_db = Inr (authorised_db, Some sample_cycle)"
  by (simp add: ensure_cycle_def sample_anchor_set sample_bounds authorised_fields)

lemma sample_guard: "guard_of sample_config = Inr 1800000000"
  by (simp add: guard_of_def sample_config_def sample_settings_def timedelta_defs)

lemma sample_ranges:
  "in_datetime_range (cy_start sample_cycle - 1800000000)" "in_datetime_range (cy_end sample_cycle + 1800000000)"
  "in_datetime_range (cy_end sample_cycle + CYCLE_END_EPSILON - 1800000000)" "in_datetime_range (NEVER + 1800000000)"
  by code_simp+

lemma authorised_observe:
  "observe_cycle sample_config t (Some sample_cycle) authorised_db = Inr (authorised_db, True, no_debits, Some no_debits)"
proof -
  have zero: "tally_debits empty_tally = no_debits" "tally_debits (empty_tally\<lparr>carried := 0\<rparr>) = no_debits"
    by (simp_all add: tally_debits_def empty_tally_def no_debits_def dadd_def)
  have "ensure_continued_authority sample_config t sample_cycle authorised_db = Inr authorised_db"
    by (simp add: ensure_continued_authority_def authorised_fields)
  moreover have "tally_of authorised_db (cy_start sample_cycle) (cy_end sample_cycle) sample_config True
      = Inr (empty_tally\<lparr>carried := 0\<rparr>)"
    by (simp add: tally_of_def sample_guard authorised_fields sample_ranges)
  moreover have "tally_of authorised_db (cy_end sample_cycle + CYCLE_END_EPSILON) NEVER sample_config False = Inr empty_tally"
    by (simp add: tally_of_def sample_guard authorised_fields sample_ranges)
  ultimately show ?thesis
    by (simp add: observe_cycle_def authority_held_now_def cycle_debits_of_def authorised_fields zero)
qed

lemma first_decision:
  "decide_admission sample_request sample_settings first_state
     = Inr \<lparr>admitted = True, denied_for = None, decision_estimate = Some sample_estimate\<rparr>"
proof -
  have inputs: "decision_inputs sample_request sample_settings = Inr (8, 3, 15, sample_estimate, 2592000)"
    using sample_run_cost
    by (simp add: decision_inputs_def project_allocation_def sample_request_def sample_settings_def budget_eval)
  have money: "decide_money sample_request sample_settings first_state 4 25 (8, 3, 15, sample_estimate, 2592000)
      = Inr \<lparr>admitted = True, denied_for = None, decision_estimate = Some sample_estimate\<rparr>"
    by (simp add: decide_money_def account_margin_usd_def class_denial_def headroom_exceeded_def hr_cycle_def
        sample_request_def first_state_def sample_eval admission_usd_def sample_estimate_def)
  have problem: "account_setting_problem sample_settings sample_now = None"
    by (simp add: account_setting_problem_def sample_eval date_less_def)
  have now: "lst_now first_state = sample_now" "authority_held first_state" "\<not> latch_tripped_flag first_state"
    "snapshot first_state = Some (snapshot_of sample_cycle sample_settings)"
    by (simp_all add: first_state_def)
  have cyc: "decide_in_cycle sample_request sample_settings first_state 4 (hours 744 - CYCLE_END_EPSILON)
      (8, 3, 15, sample_estimate, 2592000)
      = Inr \<lparr>admitted = True, denied_for = None, decision_estimate = Some sample_estimate\<rparr>"
    using money problem
    by (simp add: decide_in_cycle_def sample_fields now finite_setting_def FULL_CYCLE_HOURS_def CYCLE_END_EPSILON_def timedelta_defs)
  have len: "cy_end sample_cycle - cy_start sample_cycle = hours 744 - CYCLE_END_EPSILON" by code_simp
  have inside: "cy_start sample_cycle \<le> instant_of sample_now" "instant_of sample_now \<le> cy_end sample_cycle"
    by code_simp+
  have snap: "snap_cycle_start (snapshot_of sample_cycle sample_settings) = Some (cy_start sample_cycle)"
    "snap_cycle_end (snapshot_of sample_cycle sample_settings) = Some (cy_end sample_cycle)"
    by (simp_all add: snapshot_of_def)
  have state: "decide_on_state sample_request sample_settings first_state 4 (8, 3, 15, sample_estimate, 2592000)
      = Inr \<lparr>admitted = True, denied_for = None, decision_estimate = Some sample_estimate\<rparr>"
    using cyc inside by (simp add: decide_on_state_def now snap len del: hours_def)
  show ?thesis
    using state inputs by (auto simp: decide_admission_def external_ok_def sample_fields now)
qed

text \<open>The row the reservation stores, and the ledger that holds it.\<close>

definition first_row :: reservation where
  "first_row = (new_row sample_request \<lparr>admitted = True, denied_for = None, decision_estimate = Some sample_estimate\<rparr>
     (Some 7) (None, None, None, None) (instant_of sample_now) [])\<lparr>rv_id := 2\<rparr>"

definition reserved_db :: ledger_db where
  "reserved_db = authorised_db\<lparr>reservations := [first_row], next_id := 3\<rparr>"

lemma first_row_ok: "reservation_fits first_row" "reservation_checks first_row" "rv_site first_row = Some 7"
  by (simp_all add: reservation_fits_def reservation_checks_def reservation_money_def first_row_def new_row_def
      sample_estimate_def sample_request_def is_runtime_def envelope_by_kind_def money_fits_def)

lemma first_reserved:
  "reserve sample_request (Some 7) sample_config sample_now [] authorised_db
     = Inr (reserved_db, \<lparr>oc_admitted = True, oc_reason = None, oc_id = 2, oc_estimate = Some sample_estimate\<rparr>)"
proof -
  have bump: "clear_on_estimator_bump v t authorised_db = Inr (authorised_db, 0)" for v t
    by (simp add: clear_on_estimator_bump_def authorised_fields authorised_db_def sample_cycle_db_def empty_db_def)
  have stranded: "trip_stranded_start_refusals_locked v t authorised_db = Inr (authorised_db, [])" for v t
    by (simp add: trip_stranded_start_refusals_locked_def unrecorded_start_refusals_def authorised_fields)
  have latch: "\<not> latch_tripped authorised_db" by (simp add: latch_tripped_def authorised_fields)
  let ?d = "\<lparr>admitted = True, denied_for = None, decision_estimate = Some sample_estimate\<rparr>"
  have id: "next_id authorised_db = 2" by (simp add: authorised_db_def sample_cycle_db_def)
  have "insert_reservation authorised_db (new_row sample_request ?d (Some 7) (None, None, None, None) (instant_of sample_now) [])
      = Inr (reserved_db, 2)"
    using first_row_ok by (simp add: insert_reservation_def Let_def id authorised_fields reserved_db_def flip: first_row_def)
  then have "persist sample_request ?d (Some 7) (budget sample_config) (instant_of sample_now) [] authorised_db
      = Inr (reserved_db, \<lparr>oc_admitted = True, oc_reason = None, oc_id = 2, oc_estimate = Some sample_estimate\<rparr>)"
    by (simp add: persist_def envelope_limits_def sample_request_def)
  moreover have "budget sample_config = sample_settings" "req_class sample_request = WATCH_REFRESH"
    by (simp_all add: sample_config_def sample_request_def)
  ultimately show ?thesis
    using first_decision [unfolded first_state_def]
    by (simp add: reserve_def bump stranded latch authorised_ensure authorised_observe Let_def)
qed

lemma first_reserve:
  "\<exists>db' oc. reserve sample_request (Some 7) sample_config sample_now [] authorised_db = Inr (db', oc) \<and> oc_admitted oc"
  by (intro exI conjI, rule first_reserved) simp

lemma authorised_ok: "ledger_ok authorised_db" "within_caps sample_config 1800000000 s e authorised_db"
proof -
  show "ledger_ok authorised_db" by (simp add: ledger_ok_def authorised_fields)
  have none: "class_debit authorised_db sample_config 1800000000 s e op = 0" "carried_of authorised_db s = 0" for op
    by (simp_all add: class_debit_def carried_of_def authorised_fields)
  have m: "account_margin_usd sample_settings 25 = Inr m \<Longrightarrow> m = 5 / 2" for m
    by (simp add: account_margin_usd_def sample_settings_def budget_eval)
  have P: "dsub 25 (5 / 2) = 45 / 2" "dadd 0 4 = 4" by (simp_all add: dsub_def dadd_def dround_num)
  show "within_caps sample_config 1800000000 s e authorised_db"
    unfolding within_caps_def none
  proof (intro conjI allI impI)
    fix b mm x
    assume "account_limit_usd (budget sample_config) = Some (DFin b)"
      and mm: "account_margin_usd (budget sample_config) b = Inr mm"
      and "external_liability_usd (budget sample_config) = Some (DFin x)"
    then have bx: "b = 25" "x = 4" by (simp_all add: sample_config_def sample_settings_def)
    have "account_margin_usd sample_settings 25 = Inr mm" using mm bx by (simp add: sample_config_def)
    then have mm: "mm = 5 / 2" by (rule m)
    show "dadd (0 + 0 + 0) x \<le> dsub b mm" unfolding bx mm P(1) by (simp add: P(2))
  qed (simp_all add: sample_config_def sample_settings_def budget_eval)
qed

theorem reservations_never_overspend_witness:
  "\<exists>db'. steps (reserve_step sample_config (cy_start sample_cycle) (cy_end sample_cycle)) authorised_db [sample_request] db'
     \<and> length (reservations db') = 1
     \<and> within_caps sample_config 1800000000 (cy_start sample_cycle) (cy_end sample_cycle) db'"
proof -
  obtain db' oc where r: "reserve sample_request (Some 7) sample_config sample_now [] authorised_db = Inr (db', oc)"
    using first_reserve by blast
  have "instant_of sample_now \<le> NEVER" by code_simp
  then have run: "steps (reserve_step sample_config (cy_start sample_cycle) (cy_end sample_cycle)) authorised_db [sample_request] db'"
    using r sample_anchor_set sample_bounds
    by (auto simp: steps_simps authorised_fields intro!: reserve_step.reserved)
  moreover obtain db1 row where "db' = db1\<lparr>reservations := reservations authorised_db @ [row], next_id := next_id db1 + 1\<rparr>"
    by (rule reserve_appends [OF r])
  ultimately show ?thesis
    using reservations_never_overspend [OF run authorised_ok(1) sample_guard authorised_ok(2)]
    by (auto simp: authorised_fields)
qed

theorem admitted_reservation_is_authorised_witness:
  "\<exists>db' oc. reserve sample_request (Some 7) sample_config sample_now [] authorised_db = Inr (db', oc)
     \<and> \<not> latch_tripped db' \<and> (\<exists>cycle. cycle \<in> set (cycles db') \<and> cy_start cycle \<le> instant_of sample_now)"
proof -
  obtain db' oc where r: "reserve sample_request (Some 7) sample_config sample_now [] authorised_db = Inr (db', oc)"
    and ad: "oc_admitted oc" using first_reserve by blast
  have "instant_of sample_now \<le> NEVER" by code_simp
  from admitted_reservation_is_authorised [OF r ad authorised_ok(1) this] r show ?thesis by blast
qed

text \<open>The tally of a ledger that holds one open reservation.\<close>

definition open_row :: reservation where
  "open_row = new_row sample_request \<lparr>admitted = True, denied_for = None, decision_estimate = Some sample_estimate\<rparr>
     (Some 7) (None, None, None, None) (instant_of sample_now) []"

definition open_db :: ledger_db where "open_db = authorised_db\<lparr>reservations := [open_row]\<rparr>"

lemma open_row_ok: "row_ok open_row"
proof -
  have "on_grid 4 (1133 / 10000)" "on_grid 4 (387 / 5000)" "on_grid 4 (33 / 2500)" "on_grid 4 (1 / 2000)"
    by (rule on_gridI [of _ _ 1133] on_gridI [of _ _ 774] on_gridI [of _ _ 132] on_gridI [of _ _ 5]; simp)+
  then show ?thesis
    by (simp add: row_ok_def reservation_checks_def reservation_fits_def reservation_money_def open_row_def
        new_row_def sample_estimate_def sample_request_def is_runtime_def envelope_by_kind_def money_fits_def)
qed

theorem tally_refines_predicate_witness:
  "\<exists>t. tally_of open_db (cy_start sample_cycle) (cy_end sample_cycle) sample_config True = Inr t
     \<and> runtime_committed_usd (tally_debits t)
       = class_debit open_db sample_config 1800000000 (cy_start sample_cycle) (cy_end sample_cycle) False"
proof -
  have status: "rv_status open_row = RESERVED" "rv_reserved_at open_row = instant_of sample_now"
    by (simp_all add: open_row_def new_row_fields)
  have "instant_of sample_now \<le> cy_end sample_cycle + 1800000000" by code_simp
  then have "prefilter 1800000000 (cy_start sample_cycle) (cy_end sample_cycle) open_row"
    by (simp add: prefilter_def status open_statuses_def)
  moreover have "in_datetime_range (instant_of sample_now - 1800000000)" by code_simp
  ultimately obtain t where t: "tally_of open_db (cy_start sample_cycle) (cy_end sample_cycle) sample_config True = Inr t"
    by (simp add: tally_of_def sample_guard open_db_def sample_ranges row_asserts_def row_instants_def status Let_def)
  have one: "set (reservations open_db) = {open_row}" by (simp add: open_db_def)
  have ok: "\<forall>r \<in> set (reservations open_db). row_stored r" "\<forall>r \<in> set (reservations open_db). settled_in_order r"
    using open_row_ok unfolding row_ok_def one by blast+
  have "length (reservations open_db) \<le> 10 ^ 15" by (simp add: open_db_def)
  then show ?thesis using t tally_refines_predicate [OF t ok] by (auto simp: sample_guard)
qed

end
