(* ===== verification/LedgerHandoff.thy ===== *)
theory LedgerHandoff
  imports LedgerReserve
begin

text \<open>
  The handoff side of \<open>acquisition/apify/ledger.py\<close>: the drain check, the record, \<open>export_handoff\<close>,
  and at the destination \<open>_validated_total\<close> and \<open>import_handoff\<close>. The record is its typed content: the
  refusals (\<open>record_invalid\<close>) of a JSON object that does not have that shape, by \<open>_money\<close>, \<open>_parse_dt\<close>
  and \<open>_as_dict\<close>, are not represented. \<open>digest\<close> stands for \<open>record_digest\<close> (a hash of its canonical
  JSON), of which nothing is assumed but that it is a function.
\<close>

section \<open>The drain check\<close>

definition closing_read_of :: "ledger_db \<Rightarrow> reservation \<Rightarrow> usage_read option" where
  "closing_read_of db r =
     (case rv_closing_read r of None \<Rightarrow> None | Some k \<Rightarrow> first_such (\<lambda>u. ur_id u = k) (reads db))"

text \<open>A reconciled row whose correction monitoring is not closed by a read at or after its deadline.\<close>

definition monitoring_undrained :: "ledger_db \<Rightarrow> reservation \<Rightarrow> bool" where
  "monitoring_undrained db r \<longleftrightarrow>
     (case (rv_monitor_until r, rv_monitor_closed_at r, closing_read_of db r) of
        (Some due, Some closed_at, Some closing) \<Rightarrow>
          ur_read_at closing < due \<or> rv_monitoring_call_pending_since r \<noteq> None
      | _ \<Rightarrow> True)"

definition unapplied_read :: "ledger_db \<Rightarrow> usage_read \<Rightarrow> bool" where
  "unapplied_read db u \<longleftrightarrow>
     (case first_such (\<lambda>r. rv_id r = ur_reservation u) (reservations db) of
        None \<Rightarrow> False
      | Some r \<Rightarrow> rv_status r = RECONCILED
          \<and> (case rv_reconciled_at r of None \<Rightarrow> False | Some t \<Rightarrow> t < ur_read_at u)
          \<and> (case ur_total u of None \<Rightarrow> False
             | Some reading \<Rightarrow> (case rv_settled_usage r of None \<Rightarrow> True | Some s \<Rightarrow> s < reading)))"

definition drain_refusal :: "ledger_db \<Rightarrow> string option" where
  "drain_refusal db =
     (if \<exists>r \<in> set (reservations db). rv_status r \<in> set open_statuses then Some ''open_reservation''
      else if \<exists>r \<in> set (reservations db). rv_status r = RECONCILED \<and> has_obligation r \<and> monitoring_undrained db r
        then Some ''correction_monitoring_open''
      else if \<exists>u \<in> set (reads db). unapplied_read db u then Some ''unapplied_correction''
      else None)"

section \<open>The record\<close>

definition obligation_of :: "ledger_db \<Rightarrow> reservation \<Rightarrow> obligation" where
  "obligation_of db r =
     \<lparr>ob_reservation = rv_id r, ob_until = rv_monitor_until r,
      ob_read_at = map_option ur_read_at (closing_read_of db r),
      ob_read_usage = (case closing_read_of db r of None \<Rightarrow> None | Some u \<Rightarrow> ur_total u),
      ob_settled = rv_actual r\<rparr>"

definition record_lines :: "tally \<Rightarrow> (string \<times> rat) list" where
  "record_lines t =
     [(''settled_runtime_usd'', runtime_settled t), (''settled_operator_usd'', operator_settled t),
      (''monitoring_allowance_usd'', dadd (runtime_monitoring t) (operator_monitoring t)),
      (''carried_in_usd'', carried t)]"

fun usd_lines :: "(string \<times> rat) list \<Rightarrow> budget_error + (string \<times> rat) list" where
  "usd_lines [] = Inr []"
| "usd_lines ((k, v) # rest) = andThen (usd v) (\<lambda>x. andThen (usd_lines rest) (\<lambda>xs. Inr ((k, x) # xs)))"

definition build_record ::
  "ledger_db \<Rightarrow> budget_cycle \<Rightarrow> authority \<Rightarrow> string \<Rightarrow> ledger_config \<Rightarrow> instant \<Rightarrow> ledger_error + handoff_record" where
  "build_record db cycle auth destination config now =
     andThen (tally_of db (cy_start cycle) (cy_end cycle) config True) (\<lambda>t.
     andThen (lift_budget (usd_lines (record_lines t))) (\<lambda>lines.
     andThen (lift_budget (usd (dsum (map snd (record_lines t))))) (\<lambda>total.
     Inr \<lparr>hr_version = 1, hr_source = au_ledger_id auth, hr_destination = destination,
          hr_cycle_start = cy_start cycle, hr_cycle_end = cy_end cycle, hr_exported_at = now,
          hr_lines = lines, hr_carried = total, hr_open_reservations = 0, hr_open_monitoring = 0,
          hr_obligations = map (obligation_of db) (sort_key rv_id (obligations t))\<rparr>)))"

section \<open>Export\<close>

definition save_handoff ::
  "ledger_db \<Rightarrow> instant \<Rightarrow> instant \<times> string \<times> handoff_record \<times> string \<Rightarrow> ledger_error + ledger_db" where
  "save_handoff db start h =
     (let (t, destination, record', dg) = h in
      andThen (raise_if (100 < length destination \<or> 128 < length dg) DataError) (\<lambda>_.
      andThen (raise_if (\<exists>b \<in> set (authorities db). au_cycle_start b \<noteq> start
        \<and> (case au_handed_off b of None \<Rightarrow> False | Some (_, _, _, d) \<Rightarrow> d = dg)) IntegrityError) (\<lambda>_.
      Inr (db\<lparr>authorities := map (\<lambda>a. if au_cycle_start a = start then a\<lparr>au_handed_off := Some h\<rparr> else a)
        (authorities db)\<rparr>))))"

definition export_fresh ::
  "(handoff_record \<Rightarrow> string) \<Rightarrow> string \<Rightarrow> ledger_config \<Rightarrow> instant \<Rightarrow> budget_cycle \<Rightarrow> authority \<Rightarrow> ledger_db
     \<Rightarrow> ledger_error + ledger_db \<times> handoff_record \<times> string" where
  "export_fresh digest destination config t cycle auth db =
     andThen (raise_if (enabled (budget config)) (LedgerRefused ''apify_enabled'')) (\<lambda>_.
     andThen (raise_if (destination = au_ledger_id auth) (LedgerRefused ''destination_is_self'')) (\<lambda>_.
     andThen (case drain_refusal db of Some code \<Rightarrow> Inl (LedgerRefused code) | None \<Rightarrow> Inr ()) (\<lambda>_.
     andThen (build_record db cycle auth destination config t) (\<lambda>record'.
     andThen (save_handoff db (cy_start cycle) (t, destination, record', digest record')) (\<lambda>db.
     Inr (db, record', digest record'))))))"

definition export_handoff ::
  "(handoff_record \<Rightarrow> string) \<Rightarrow> string \<Rightarrow> ledger_config \<Rightarrow> pydatetime \<Rightarrow> ledger_db
     \<Rightarrow> ledger_error + ledger_db \<times> handoff_record \<times> string" where
  "export_handoff digest to config now db =
     (let destination = strip to in
      andThen (raise_if (destination = []) (LedgerRefused ''destination_missing'')) (\<lambda>_.
      andThen (ensure_cycle config now db) (\<lambda>(db, cycle).
      case cycle of
        None \<Rightarrow> Inl (LedgerRefused ''cycle_unknown'')
      | Some cycle \<Rightarrow>
        (case first_such (\<lambda>a. au_cycle_start a = cy_start cycle) (authorities db) of
           None \<Rightarrow> Inl (LedgerRefused ''no_authority'')
         | Some auth \<Rightarrow>
           (case au_handed_off auth of
              Some (t, dest, record', dg) \<Rightarrow>
                if dest = destination then Inr (db, record', dg)
                else Inl (LedgerRefused ''already_handed_off'')
            | None \<Rightarrow> export_fresh digest destination config (instant_of now) cycle auth db)))))"

section \<open>Import\<close>

text \<open>An entry of the drain evidence without a closing read at or after the row's correction deadline.\<close>

definition bad_obligation :: "obligation \<Rightarrow> bool" where
  "bad_obligation ob \<longleftrightarrow>
     (case (ob_until ob, ob_read_at ob) of (Some until, Some read_at) \<Rightarrow> read_at < until | _ \<Rightarrow> True)"

definition validated_total :: "handoff_record \<Rightarrow> ledger_error + rat" where
  "validated_total record' =
     andThen (raise_if (hr_version record' \<noteq> 1) (LedgerRefused ''record_invalid'')) (\<lambda>_.
     andThen (raise_if (hr_open_reservations record' \<noteq> 0 \<or> hr_open_monitoring record' \<noteq> 0)
       (LedgerRefused ''open_liability'')) (\<lambda>_.
     andThen (raise_if (\<exists>ob \<in> set (hr_obligations record'). bad_obligation ob)
       (LedgerRefused ''closing_read_missing'')) (\<lambda>_.
     andThen (raise_if (hr_lines record' = [] \<or> (\<exists>line \<in> set (hr_lines record'). snd line < 0))
       (LedgerRefused ''record_invalid'')) (\<lambda>_.
     andThen (raise_if (hr_carried record' < 0 \<or> hr_carried record' < dsum (map snd (hr_lines record')))
       (LedgerRefused ''record_invalid'')) (\<lambda>_.
     Inr (hr_carried record'))))))"

definition handoff_authority ::
  "(handoff_record \<Rightarrow> string) \<Rightarrow> handoff_record \<Rightarrow> ledger_config \<Rightarrow> instant \<Rightarrow> rat \<Rightarrow> authority" where
  "handoff_authority digest record' config t carried_in =
     \<lparr>au_cycle_start = hr_cycle_start record', au_kind = HANDOFF, au_ledger_id = ledger_id config,
      au_carried = carried_in, au_attested_by = take 200 (''handoff from '' @ hr_source record'), au_created_at = t,
      au_handed_off = None, au_imported_digest = Some (digest record')\<rparr>"

definition import_handoff ::
  "(handoff_record \<Rightarrow> string) \<Rightarrow> handoff_record \<Rightarrow> ledger_config \<Rightarrow> pydatetime \<Rightarrow> ledger_db
     \<Rightarrow> ledger_error + ledger_db \<times> bool" where
  "import_handoff digest record' config now db =
     andThen (raise_if (ledger_id config = []) (LedgerRefused ''ledger_id_unset'')) (\<lambda>_.
     andThen (raise_if (hr_destination record' \<noteq> ledger_id config) (LedgerRefused ''wrong_destination'')) (\<lambda>_.
     andThen (raise_if (hr_source record' = [] \<or> hr_source record' = ledger_id config)
       (LedgerRefused ''record_invalid'')) (\<lambda>_.
     andThen (validated_total record') (\<lambda>total.
     andThen (ensure_cycle config now db) (\<lambda>(db, cycle).
     andThen (raise_if (map_option cy_start cycle \<noteq> Some (hr_cycle_start record'))
       (LedgerRefused ''wrong_cycle'')) (\<lambda>_.
     case first_such (\<lambda>a. au_cycle_start a = hr_cycle_start record') (authorities db) of
       Some existing \<Rightarrow>
         if au_imported_digest existing = Some (digest record') then Inr (db, False)
         else Inl (LedgerRefused ''authority_exists'')
     | None \<Rightarrow>
         andThen (lift_budget (usd total)) (\<lambda>carried_in.
         andThen (insert_authority db (handoff_authority digest record' config (instant_of now) carried_in)) (\<lambda>db.
         Inr (db, True)))))))))"

lemma import_handoff_cases:
  assumes "import_handoff digest rec config now db = Inr (db', created)"
  obtains (again) c where "ensure_cycle config now db = Inr (db', Some c)" and "\<not> created"
  | (new) db1 c x where "ensure_cycle config now db = Inr (db1, Some c)" and "cy_start c = hr_cycle_start rec"
      and "\<forall>b \<in> set (authorities db1). au_cycle_start b \<noteq> hr_cycle_start rec" and "usd (hr_carried rec) = Inr x"
      and "db' = db1\<lparr>authorities := authorities db1 @ [handoff_authority digest rec config (instant_of now) x]\<rparr>"
      and "authority_checks (handoff_authority digest rec config (instant_of now) x)" and created
proof -
  obtain db1 c total where t: "validated_total rec = Inr total" and e: "ensure_cycle config now db = Inr (db1, Some c)"
    and s: "cy_start c = hr_cycle_start rec"
    and body: "(case first_such (\<lambda>a. au_cycle_start a = hr_cycle_start rec) (authorities db1) of
       Some existing \<Rightarrow> if au_imported_digest existing = Some (digest rec) then Inr (db1, False)
         else Inl (LedgerRefused ''authority_exists'')
     | None \<Rightarrow> andThen (lift_budget (usd total)) (\<lambda>x.
         andThen (insert_authority db1 (handoff_authority digest rec config (instant_of now) x)) (\<lambda>db. Inr (db, True))))
       = Inr (db', created)"
    using assms by (auto simp: import_handoff_def andThen_eq_Inr)
  have total: "total = hr_carried rec" using t by (auto simp: validated_total_def andThen_eq_Inr)
  show ?thesis
  proof (cases "first_such (\<lambda>a. au_cycle_start a = hr_cycle_start rec) (authorities db1)")
    case None
    obtain x where x: "usd (hr_carried rec) = Inr x" and created
      and i: "insert_authority db1 (handoff_authority digest rec config (instant_of now) x) = Inr db'"
      using body total by (auto simp: None andThen_eq_Inr lift_budget_eq_Inr)
    then show ?thesis
      using new [OF e s _ x] None by (simp add: insert_authority_eq_Inr first_such_None)
  next
    case (Some a)
    then show ?thesis using body again e by (auto split: if_splits)
  qed
qed

section \<open>The authority of a cycle is never given back\<close>

definition handed_off :: "ledger_db \<Rightarrow> instant \<Rightarrow> bool" where
  "handed_off db s \<longleftrightarrow> (\<exists>a \<in> set (authorities db). au_cycle_start a = s)
     \<and> (\<forall>a \<in> set (authorities db). au_cycle_start a = s \<longrightarrow> au_handed_off a \<noteq> None)"

text \<open>Materializing cycles and reserving only ever add an authority row to a cycle that has none.\<close>

lemma handed_off_append:
  assumes "handed_off db s"
    and "authorities db' = authorities db \<or>
      (\<exists>a. authorities db' = authorities db @ [a] \<and> (\<forall>b \<in> set (authorities db). au_cycle_start b \<noteq> au_cycle_start a))"
  shows "handed_off db' s"
  using assms(2)
proof
  assume "\<exists>a. authorities db' = authorities db @ [a] \<and> (\<forall>b \<in> set (authorities db). au_cycle_start b \<noteq> au_cycle_start a)"
  then obtain a where a: "authorities db' = authorities db @ [a]"
    and new: "\<And>b. b \<in> set (authorities db) \<Longrightarrow> au_cycle_start b \<noteq> au_cycle_start a" by blast
  have "au_cycle_start a \<noteq> s" using assms(1) new unfolding handed_off_def by metis
  then show ?thesis using assms(1) a by (auto simp: handed_off_def)
qed (use assms(1) in \<open>simp add: handed_off_def\<close>)

lemma handed_off_continued:
  "ensure_continued_authority config t c db = Inr db' \<Longrightarrow> handed_off db s \<Longrightarrow> handed_off db' s"
  by (drule ensure_continued_authority_effect, erule handed_off_append) auto

lemma handed_off_ensure:
  assumes "ensure_cycle config now db = Inr (db', c)" and "handed_off db s"
  shows "handed_off db' s"
  using assms(1)
proof (cases rule: ensure_cycle_cases)
  case (created cycle anchor db1)
  have "handed_off db1 s" using assms(2) by (simp add: handed_off_def created(7))
  with created(8) show ?thesis by (rule handed_off_continued)
qed (use assms(2) in auto)

lemma observe_held:
  assumes "observe_cycle config t (Some c) db = Inr (db', held, current, after)" and "handed_off db (cy_start c)"
  shows "\<not> held"
proof -
  obtain t1 t2 where c: "ensure_continued_authority config t c db = Inr db'"
    and h: "held \<longleftrightarrow> (\<exists>a \<in> set (authorities db'). au_cycle_start a = cy_start c \<and> au_handed_off a = None)"
    by (rule observe_cycle_eq_Some [OF assms(1)]) (rule that, assumption+)
  have "handed_off db' (cy_start c)" using handed_off_continued [OF c assms(2)] .
  then show ?thesis unfolding h handed_off_def by blast
qed

lemma handed_off_not_admitted:
  assumes r: "reserve request site config now reason db = Inr (db', oc)" and "handed_off db s"
    and a: "billing_cycle_anchor (budget config) = Some anchor" "billing_cycle_bounds anchor now = Inr (Some (s, e))"
  shows "\<not> oc_admitted oc"
proof
  assume ad: "oc_admitted oc"
  obtain dba dbb db0 db1 n ks cycle held current after decision where
    bump: "clear_on_estimator_bump (estimator_version (budget config)) (instant_of now) db = Inr (dba, n)"
    and trip: "trip_stranded_start_refusals_locked (estimator_version (budget config)) (instant_of now) dba = Inr (dbb, ks)"
    and c: "ensure_cycle config now dbb = Inr (db0, cycle)"
    and o: "observe_cycle config (instant_of now) cycle db0 = Inr (db1, held, current, after)"
    and d: "decide_admission request (budget config)
      \<lparr>lst_now = now, latch_tripped_flag = latch_tripped dbb, authority_held = held,
       snapshot = map_option (\<lambda>c. snapshot_of c (budget config)) cycle, current_debits = current,
       next_cycle = after\<rparr> = Inr decision"
    and p: "persist request decision site (budget config) (instant_of now) reason db1 = Inr (db', oc)"
    using r by (rule reserveE)
  have dec: "admitted decision" by (rule persistE [OF p]) (use ad in simp)
  obtain snap where held: held
    and snap: "map_option (\<lambda>c. snapshot_of c (budget config)) cycle = Some snap"
    by (rule admittedE [OF d dec]) simp
  then obtain cyc where cyc: "cycle = Some cyc" by auto
  have "cy_start cyc = s" using ensure_cycle_bounds [OF c [unfolded cyc]] a by simp
  moreover have "handed_off dbb s"
    using assms(2) clear_bump_frame [OF bump] trip_stranded_effect(1) [OF trip] by (auto simp: handed_off_def)
  ultimately show False
    using observe_held [OF o [unfolded cyc]] handed_off_ensure [OF c] held by simp
qed

section \<open>An export, taken apart\<close>

lemma export_freshE:
  assumes "export_fresh digest destination config t cycle auth db = Inr (db', rec, dg)"
  shows "\<not> enabled (budget config)" and "destination \<noteq> au_ledger_id auth" and "drain_refusal db = None"
    and "build_record db cycle auth destination config t = Inr rec" and "dg = digest rec"
    and "save_handoff db (cy_start cycle) (t, destination, rec, dg) = Inr db'"
  using assms by (auto simp: export_fresh_def andThen_eq_Inr split: option.splits)

lemma export_cases:
  assumes "export_handoff digest to config now db = Inr (db', rec, dg)"
  obtains (again) db1 cycle auth t where "ensure_cycle config now db = Inr (db1, Some cycle)" and "db' = db1"
      and "first_such (\<lambda>a. au_cycle_start a = cy_start cycle) (authorities db1) = Some auth"
      and "au_handed_off auth = Some (t, strip to, rec, dg)" and "strip to \<noteq> []"
  | (fresh) db1 cycle auth where "ensure_cycle config now db = Inr (db1, Some cycle)"
      and "first_such (\<lambda>a. au_cycle_start a = cy_start cycle) (authorities db1) = Some auth"
      and "au_handed_off auth = None" and "strip to \<noteq> []"
      and "export_fresh digest (strip to) config (instant_of now) cycle auth db1 = Inr (db', rec, dg)"
proof -
  have ne: "strip to \<noteq> []" using assms by (auto simp: export_handoff_def Let_def andThen_eq_Inr)
  obtain db1 c where c: "ensure_cycle config now db = Inr (db1, c)"
    using assms by (auto simp: export_handoff_def Let_def andThen_eq_Inr)
  note body = assms [unfolded export_handoff_def Let_def, simplified ne c, simplified]
  obtain cycle where cycle: "c = Some cycle" using body by (cases c) auto
  note body = body [simplified cycle, simplified]
  obtain auth where auth: "first_such (\<lambda>a. au_cycle_start a = cy_start cycle) (authorities db1) = Some auth"
    using body by (cases "first_such (\<lambda>a. au_cycle_start a = cy_start cycle) (authorities db1)") auto
  note body = body [simplified auth, simplified]
  show ?thesis
  proof (cases "au_handed_off auth")
    case (Some h)
    obtain t dest r d where h: "h = (t, dest, r, d)" by (cases h)
    have "dest = strip to" "db' = db1" "rec = r" "dg = d"
      using body by (auto simp: Some h split: if_splits)
    then show ?thesis using again [OF c [unfolded cycle] _ auth] Some h ne by simp
  next
    case None
    then show ?thesis using fresh [OF c [unfolded cycle] auth None ne] body by simp
  qed
qed

section \<open>The cycle of an export stays recorded\<close>

lemma ensure_cycle_first:
  assumes "ensure_cycle config now db = Inr (db1, Some c)"
  shows "first_such (\<lambda>d. cy_start d = cy_start c) (cycles db1) = Some c"
proof -
  obtain anchor where a: "billing_cycle_anchor (budget config) = Some anchor"
    and b: "billing_cycle_bounds anchor now = Inr (Some (cy_start c, cy_end c))"
    using ensure_cycle_bounds [OF assms] by blast
  show ?thesis
  proof (cases "first_such (\<lambda>d. cy_start d = cy_start c) (cycles db)")
    case (Some d)
    then show ?thesis using assms by (simp add: ensure_cycle_def a b split: if_splits)
  next
    case None
    then have none: "\<forall>d \<in> set (cycles db). cy_start d \<noteq> cy_start c" by (simp add: first_such_None)
    from assms show ?thesis
    proof (cases rule: ensure_cycle_cases)
      case (created cycle anchor' db2)
      have "cycles db1 = cycles db2" using ensure_continued_authority_idem(1) [OF created(8)] .
      moreover have "first_such (\<lambda>d. cy_start d = cy_start c) (map (clamp_before (cy_start cycle)) (cycles db)) = None"
        using none by (auto simp: first_such_None clamp_before_def)
      ultimately show ?thesis using created(1,7) by (simp add: first_such_append)
    qed (use none in auto)
  qed
qed

lemma ensure_cycle_again:
  assumes "ensure_cycle config now db = Inr (db1, Some c)" and "cycles db' = cycles db1"
    and "billing_cycle_anchor (budget config') = Some anchor"
    and "billing_cycle_bounds anchor now' = Inr (Some (cy_start c, cy_end c))"
  shows "ensure_cycle config' now' db' = Inr (db', Some c)"
  using ensure_cycle_first [OF assms(1)] by (simp add: ensure_cycle_def assms(2-4))

section \<open>After an export\<close>

lemma save_handoff_effect:
  assumes "save_handoff db s h = Inr db'"
  shows "db' = db\<lparr>authorities := map (\<lambda>a. if au_cycle_start a = s then a\<lparr>au_handed_off := Some h\<rparr> else a)
    (authorities db)\<rparr>"
  using assms by (auto simp: save_handoff_def andThen_eq_Inr split: prod.splits)

lemma handed_off_map:
  assumes "\<And>a. au_cycle_start (f a) = au_cycle_start a" and "\<And>a. au_handed_off a \<noteq> None \<Longrightarrow> au_handed_off (f a) \<noteq> None"
    and "handed_off db s"
  shows "handed_off (db\<lparr>authorities := map f (authorities db)\<rparr>) s"
  using assms(3) unfolding handed_off_def by (simp add: assms(1) del: not_None_eq) (use assms(2) in blast)

lemma handed_off_save: "save_handoff db s h = Inr db' \<Longrightarrow> handed_off db s' \<Longrightarrow> handed_off db' s'"
  by (drule save_handoff_effect) (simp add: handed_off_map del: not_None_eq)

lemma handed_off_claim:
  assumes "claim_origin attested config now db = Inr (db', row)" and "handed_off db s"
  shows "handed_off db' s"
proof -
  obtain db1 cycle where e: "ensure_cycle config now db = Inr (db1, Some cycle)"
    and new: "\<forall>a \<in> set (authorities db1). au_cycle_start a \<noteq> au_cycle_start row"
    and db': "db' = db1\<lparr>authorities := authorities db1 @ [row]\<rparr>"
    using claim_origin_effect [OF assms(1)] by auto
  show ?thesis using handed_off_ensure [OF e assms(2)] by (rule handed_off_append) (use new db' in auto)
qed

lemma handed_off_export:
  assumes "export_handoff digest to config now db = Inr (db', rec, dg)" and "handed_off db s"
  shows "handed_off db' s"
  using assms(1)
proof (cases rule: export_cases)
  case (again db1 cycle auth t)
  then show ?thesis using handed_off_ensure assms(2) by blast
next
  case (fresh db1 cycle auth)
  show ?thesis by (rule handed_off_save [OF export_freshE(6) [OF fresh(5)] handed_off_ensure [OF fresh(1) assms(2)]])
qed

lemma handed_off_import:
  assumes "import_handoff digest rec config now db = Inr (db', created)" and "handed_off db s"
  shows "handed_off db' s"
  using assms(1)
proof (cases rule: import_handoff_cases)
  case (again c)
  then show ?thesis using handed_off_ensure assms(2) by blast
next
  case (new db1 c x)
  show ?thesis using handed_off_ensure [OF new(1) assms(2)]
    by (rule handed_off_append) (use new(3,5) in \<open>auto simp: handoff_authority_def\<close>)
qed

lemma handed_off_reserve:
  assumes r: "reserve request site config now reason db = Inr (db', oc)" and h: "handed_off db s"
  shows "handed_off db' s"
proof -
  obtain db1 db2 db3 db4 n ks cycle held current after decision where
    bump: "clear_on_estimator_bump (estimator_version (budget config)) (instant_of now) db = Inr (db1, n)"
    and trip: "trip_stranded_start_refusals_locked (estimator_version (budget config)) (instant_of now) db1 = Inr (db2, ks)"
    and c: "ensure_cycle config now db2 = Inr (db3, cycle)"
    and o: "observe_cycle config (instant_of now) cycle db3 = Inr (db4, held, current, after)"
    and p: "persist request (decision :: decision) site (budget config) (instant_of now) reason db4 = Inr (db', oc)"
    by (rule reserveE [OF r])
  have "handed_off db2 s"
    using h clear_bump_frame [OF bump] trip_stranded_effect(1) [OF trip] by (auto simp: handed_off_def)
  then have h3: "handed_off db3 s" by (rule handed_off_ensure [OF c])
  have h4: "handed_off db4 s"
  proof (cases cycle)
    case None
    then show ?thesis using o h3 by (simp add: observe_cycle_def)
  next
    case (Some cyc)
    have "ensure_continued_authority config (instant_of now) cyc db3 = Inr db4"
      using o unfolding Some by (rule observe_cycle_eq_Some)
    then show ?thesis using h3 by (rule handed_off_continued)
  qed
  show ?thesis by (rule persistE [OF p]) (use h4 in \<open>simp add: handed_off_def\<close>)
qed

text \<open>The commands of a ledger, by whatever caller, under whatever settings.\<close>

datatype ledger_command = Reserve | Claim | Export | Import | Trip | Clear

inductive ledger_step :: "ledger_db \<Rightarrow> ledger_command \<Rightarrow> ledger_db \<Rightarrow> bool" where
  reserved: "reserve request site config now reason db = Inr (db', oc) \<Longrightarrow> ledger_step db Reserve db'"
| claimed: "claim_origin attested config now db = Inr (db', row) \<Longrightarrow> ledger_step db Claim db'"
| exported: "export_handoff digest to config now db = Inr (db', rec, dg) \<Longrightarrow> ledger_step db Export db'"
| imported: "import_handoff digest rec config now db = Inr (db', created) \<Longrightarrow> ledger_step db Import db'"
| tripped: "trip_latch_locked why run version t db = Inr (db', new) \<Longrightarrow> ledger_step db Trip db'"
| cleared: "clear_latch why t db = Inr (db', n) \<Longrightarrow> ledger_step db Clear db'"

inductive_cases reserve_stepE: "ledger_step db Reserve db'"

interpretation handed: invariant ledger_step "\<lambda>db. handed_off db s" for s
proof unfold_locales
  fix db command db'
  assume "ledger_step db command db'" and h: "handed_off db s"
  then show "handed_off db' s"
  proof (cases rule: ledger_step.cases)
    case (tripped why run version t new)
    from tripped(2) show ?thesis by (rule trip_latch_locked_cases) (use h in \<open>simp_all add: handed_off_def\<close>)
  next
    case (cleared why t n)
    then show ?thesis using h by (auto simp: clear_latch_def Let_def andThen_eq_Inr handed_off_def)
  qed (use h in \<open>blast intro: handed_off_reserve handed_off_claim handed_off_export handed_off_import\<close>)+
qed

text \<open>What an export leaves behind for its cycle.\<close>

definition exported_state :: "ledger_db \<Rightarrow> instant \<Rightarrow> instant \<Rightarrow> string \<Rightarrow> handoff_record \<Rightarrow> string \<Rightarrow> bool" where
  "exported_state db s e destination rec dg \<longleftrightarrow> handed_off db s
     \<and> (\<exists>c. first_such (\<lambda>c. cy_start c = s) (cycles db) = Some c \<and> cy_start c = s \<and> cy_end c = e)
     \<and> (\<exists>a t. first_such (\<lambda>a. au_cycle_start a = s) (authorities db) = Some a
          \<and> au_handed_off a = Some (t, destination, rec, dg))"

lemma exported_state:
  assumes x: "export_handoff digest to config now db = Inr (db', rec, dg)"
    and ok: "authorities_ok (authorities db)" "cycles_ok (cycles db)"
    and a: "billing_cycle_anchor (budget config) = Some anchor" "billing_cycle_bounds anchor now = Inr (Some (s, e))"
  shows "exported_state db' s e (strip to) rec dg"
  using x
proof (cases rule: export_cases)
  case (again db1 cycle auth t)
  have se: "cy_start cycle = s" "cy_end cycle = e" using ensure_cycle_bounds [OF again(1)] a by auto
  have dist: "distinct (map au_cycle_start (authorities db1))"
    using ensure_cycle_ok(2) [OF again(1) ok(2,1)] by (simp add: authorities_ok_def)
  have mem: "auth \<in> set (authorities db1)" "au_cycle_start auth = s" using first_such_Some [OF again(3)] se by auto
  have "b = auth" if "b \<in> set (authorities db1)" "au_cycle_start b = s" for b
    using dist mem that unfolding distinct_map inj_on_def by metis
  then have "handed_off db1 s" unfolding handed_off_def using mem again(4) by blast
  moreover have "first_such (\<lambda>c. cy_start c = s) (cycles db') = Some cycle"
    using ensure_cycle_first [OF again(1)] se(1) again(2) by simp
  moreover have "first_such (\<lambda>a. au_cycle_start a = s) (authorities db') = Some auth" "handed_off db' s"
    using again(2,3) se(1) calculation(1) by simp_all
  ultimately show ?thesis unfolding exported_state_def using se again(4) by blast
next
  case (fresh db1 cycle auth)
  have se: "cy_start cycle = s" "cy_end cycle = e" using ensure_cycle_bounds [OF fresh(1)] a by auto
  let ?h = "(instant_of now, strip to, rec, dg)"
  let ?f = "\<lambda>a. if au_cycle_start a = cy_start cycle then a\<lparr>au_handed_off := Some ?h\<rparr> else a"
  have db': "db' = db1\<lparr>authorities := map ?f (authorities db1)\<rparr>"
    by (rule save_handoff_effect [OF export_freshE(6) [OF fresh(5)]])
  have mem: "auth \<in> set (authorities db1)" "au_cycle_start auth = s" using first_such_Some [OF fresh(2)] se by auto
  have "first_such (\<lambda>a. au_cycle_start a = s) (map ?f (authorities db1)) = Some (?f auth)"
    using fresh(2) se by (subst first_such_map_inv) auto
  moreover have "handed_off db' s"
  proof -
    have "?f auth \<in> set (authorities db')" unfolding db' using imageI [OF mem(1), of ?f] by simp
    moreover have "au_cycle_start (?f auth) = s" using mem(2) by simp
    moreover have "\<forall>b \<in> set (authorities db'). au_cycle_start b = s \<longrightarrow> au_handed_off b \<noteq> None"
      using se(1) by (auto simp: db')
    ultimately show ?thesis unfolding handed_off_def by blast
  qed
  moreover have "first_such (\<lambda>c. cy_start c = s) (cycles db') = Some cycle"
    using ensure_cycle_first [OF fresh(1)] se by (simp add: db')
  moreover have "au_handed_off (?f auth) = Some ?h" using mem(2) se(1) by simp
  ultimately show ?thesis unfolding exported_state_def using se db' by auto
qed

text \<open>C14: Handing a cycle over ends this environment's authority for good: after an export, and after any
  later run of reservations, origin claims, exports, imports, trips and resets, under whatever settings, no
  reservation in that billing cycle is admitted any more.\<close>

theorem export_ends_admission:
  assumes "export_handoff digest to config now db = Inr (db1, rec, dg)"
    and "authorities_ok (authorities db)" and "cycles_ok (cycles db)"
    and "billing_cycle_anchor (budget config) = Some anchor" and "billing_cycle_bounds anchor now = Inr (Some (s, e))"
    and "steps ledger_step db1 commands db2"
    and "reserve request site config' now' reason db2 = Inr (db3, oc)"
    and "billing_cycle_anchor (budget config') = Some anchor'"
    and "billing_cycle_bounds anchor' now' = Inr (Some (s, e'))"
  shows "\<not> oc_admitted oc \<and> handed_off db3 s"
proof -
  have "handed_off db1 s" using exported_state [OF assms(1-5)] by (simp add: exported_state_def)
  then have "handed_off db2 s" by (rule handed.steps_inv [OF assms(6)])
  then show ?thesis using handed_off_not_admitted [OF assms(7) _ assms(8,9)] handed_off_reserve [OF assms(7)] by blast
qed

text \<open>An export is final: repeating it for the cycle to the same destination returns the stored record
  and digest and changes nothing, whatever the settings, the time in the cycle and the digest function have
  become; to any other destination it is refused.\<close>

theorem export_is_final:
  assumes "export_handoff digest to config now db = Inr (db1, rec, dg)"
    and "authorities_ok (authorities db)" and "cycles_ok (cycles db)"
    and "billing_cycle_anchor (budget config) = Some anchor" and "billing_cycle_bounds anchor now = Inr (Some (s, e))"
    and "billing_cycle_anchor (budget config') = Some anchor'"
    and "billing_cycle_bounds anchor' now' = Inr (Some (s, e))" and "strip to' \<noteq> []"
  shows "export_handoff digest' to' config' now' db1 =
     (if strip to' = strip to then Inr (db1, rec, dg) else Inl (LedgerRefused ''already_handed_off''))"
proof -
  obtain c a t where c: "first_such (\<lambda>c. cy_start c = s) (cycles db1) = Some c" "cy_start c = s" "cy_end c = e"
    and a: "first_such (\<lambda>a. au_cycle_start a = s) (authorities db1) = Some a" "au_handed_off a = Some (t, strip to, rec, dg)"
    using exported_state [OF assms(1-5)] by (auto simp: exported_state_def)
  have "ensure_cycle config' now' db1 = Inr (db1, Some c)"
    using c by (simp add: ensure_cycle_def assms(6,7))
  then show ?thesis using a c(2) assms(8) by (simp add: export_handoff_def Let_def)
qed

section \<open>A first handoff\<close>

definition off_config :: ledger_config where
  "off_config = \<lparr>budget = sample_settings\<lparr>enabled := False\<rparr>, ledger_id = ''prod'', usage_settle_delay_s = Some 10,
     usage_stable_reads = Some 2, usage_stable_interval_s = Some 60, usage_finalize_deadline_s = Some 86400,
     correction_window_s = Some 604800, post_run_cost_mode = ''bound'', run_usage_settlement = ''bound''\<rparr>"

definition no_digest :: "handoff_record \<Rightarrow> string" where "no_digest r = ''00''"

definition sample_record :: handoff_record where
  "sample_record = \<lparr>hr_version = 1, hr_source = ''prod'', hr_destination = ''pi'', hr_cycle_start = cy_start sample_cycle,
     hr_cycle_end = cy_end sample_cycle, hr_exported_at = instant_of sample_now,
     hr_lines = [(''settled_runtime_usd'', 0), (''settled_operator_usd'', 0), (''monitoring_allowance_usd'', 0),
       (''carried_in_usd'', 0)],
     hr_carried = 0, hr_open_reservations = 0, hr_open_monitoring = 0, hr_obligations = []\<rparr>"

definition handed_db :: ledger_db where
  "handed_db = authorised_db\<lparr>authorities :=
     [sample_authority\<lparr>au_handed_off := Some (instant_of sample_now, ''pi'', sample_record, ''00'')\<rparr>]\<rparr>"

lemma off_anchor: "billing_cycle_anchor (budget off_config) = Some sample_anchor"
  by (simp add: off_config_def sample_settings_def sample_anchor_def)

lemma off_guard: "guard_of off_config = Inr 1800000000"
  by (simp add: guard_of_def off_config_def sample_settings_def timedelta_defs)

lemma sample_tally:
  "tally_of authorised_db (cy_start sample_cycle) (cy_end sample_cycle) off_config True = Inr (empty_tally\<lparr>carried := 0\<rparr>)"
  by (simp add: tally_of_def off_guard authorised_fields sample_ranges)

lemma sample_export:
  "export_handoff no_digest ''pi'' off_config sample_now authorised_db = Inr (handed_db, sample_record, ''00'')"
proof -
  have strip: "strip ''pi'' = ''pi''" by code_simp
  have reads: "reads authorised_db = []" by (simp add: authorised_db_def sample_cycle_db_def empty_db_def)
  have cycle: "ensure_cycle off_config sample_now authorised_db = Inr (authorised_db, Some sample_cycle)"
    by (simp add: ensure_cycle_def off_anchor sample_bounds authorised_fields)
  have zero: "usd 0 = Inr 0" "dadd 0 0 = 0" by (simp_all add: usd_def dadd_def)
  have id: "au_ledger_id sample_authority = ''prod''" by (simp add: sample_authority_def)
  have record': "build_record authorised_db sample_cycle sample_authority ''pi'' off_config (instant_of sample_now)
      = Inr sample_record"
    by (simp add: build_record_def sample_tally record_lines_def empty_tally_def zero dsum_def lift_budget_def
        sample_record_def id)
  have "save_handoff authorised_db (cy_start sample_cycle) (instant_of sample_now, ''pi'', sample_record, ''00'') = Inr handed_db"
    by (simp add: save_handoff_def authorised_fields handed_db_def)
  then show ?thesis
    using record'
    by (simp add: export_handoff_def strip cycle authorised_fields export_fresh_def drain_refusal_def reads id
        no_digest_def) (simp add: off_config_def)
qed

lemma authorised_cycles: "authorities_ok (authorities authorised_db)" "cycles_ok (cycles authorised_db)"
proof -
  show "authorities_ok (authorities authorised_db)"
    by (simp add: authorities_ok_def authorised_fields authority_checks_def sample_authority_def)
  have "cy_start sample_cycle < cy_end sample_cycle" by code_simp
  then show "cycles_ok (cycles authorised_db)" by (simp add: cycles_ok_def authorised_fields)
qed

theorem export_is_final_witness:
  "export_handoff no_digest '' pi'' sample_config sample_now handed_db = Inr (handed_db, sample_record, ''00'')
   \<and> export_handoff no_digest ''other'' sample_config sample_now handed_db = Inl (LedgerRefused ''already_handed_off'')"
proof -
  have s: "strip '' pi'' = ''pi''" "strip ''pi'' = ''pi''" "strip ''other'' = ''other''" by code_simp+
  note fin = export_is_final [OF sample_export authorised_cycles off_anchor sample_bounds sample_anchor_set sample_bounds]
  show ?thesis using fin [of "'' pi''" no_digest] fin [of "''other''" no_digest] by (simp add: s)
qed

text \<open>The exporter's next reservation in the cycle.\<close>

lemma handed_off_reserve_runs:
  "\<exists>db' oc. reserve sample_request (Some 7) sample_config sample_now [] handed_db = Inr (db', oc)"
proof -
  have f: "trips handed_db = []" "runs handed_db = []" "reservations handed_db = []" "cycles handed_db = [sample_cycle]"
    "sites handed_db = [7]" "authorities handed_db = [sample_authority\<lparr>au_handed_off :=
       Some (instant_of sample_now, ''pi'', sample_record, ''00'')\<rparr>]"
    by (simp_all add: handed_db_def authorised_fields)
  have bump: "clear_on_estimator_bump v t handed_db = Inr (handed_db, 0)" for v t
    by (simp add: clear_on_estimator_bump_def handed_db_def authorised_db_def sample_cycle_db_def empty_db_def)
  have stranded: "trip_stranded_start_refusals_locked v t handed_db = Inr (handed_db, [])" for v t
    by (simp add: trip_stranded_start_refusals_locked_def unrecorded_start_refusals_def f)
  have cycle: "ensure_cycle sample_config sample_now handed_db = Inr (handed_db, Some sample_cycle)"
    by (simp add: ensure_cycle_def sample_anchor_set sample_bounds f)
  have "tally_of handed_db (cy_start sample_cycle) (cy_end sample_cycle) sample_config True = Inr (empty_tally\<lparr>carried := 0\<rparr>)"
    "tally_of handed_db (cy_end sample_cycle + CYCLE_END_EPSILON) NEVER sample_config False = Inr empty_tally"
    by (simp_all add: tally_of_def sample_guard f sample_ranges authorised_fields)
  then have obs: "\<exists>c d. observe_cycle sample_config (instant_of sample_now) (Some sample_cycle) handed_db
      = Inr (handed_db, False, c, Some d)"
    by (simp add: observe_cycle_def authority_held_now_def ensure_continued_authority_def cycle_debits_of_def f
        authorised_fields)
  then obtain c d where obs: "observe_cycle sample_config (instant_of sample_now) (Some sample_cycle) handed_db
      = Inr (handed_db, False, c, Some d)" by blast
  have inputs: "decision_inputs sample_request sample_settings = Inr (8, 3, 15, sample_estimate, 2592000)"
    using sample_run_cost
    by (simp add: decision_inputs_def project_allocation_def sample_request_def sample_settings_def budget_eval)
  let ?d = "\<lparr>admitted = False, denied_for = Some LEDGER_AUTHORITY_MISSING, decision_estimate = Some sample_estimate\<rparr>"
  have dec: "decide_admission sample_request sample_settings
      \<lparr>lst_now = sample_now, latch_tripped_flag = latch_tripped handed_db, authority_held = False,
       snapshot = Some (snapshot_of sample_cycle sample_settings), current_debits = c, next_cycle = Some d\<rparr> = Inr ?d"
    using inputs by (auto simp: decide_admission_def external_ok_def sample_fields latch_tripped_def f
        decide_on_state_def deny_def)
  let ?row = "(new_row sample_request ?d (Some 7) (None, None, None, None) (instant_of sample_now) [])
      \<lparr>rv_id := next_id handed_db\<rparr>"
  have fits: "reservation_fits ?row"
    by (simp add: reservation_fits_def reservation_money_def new_row_def sample_estimate_def money_fits_def)
  have checks: "reservation_checks ?row"
    by (simp add: reservation_checks_def reservation_money_def new_row_def sample_estimate_def sample_request_def
        is_runtime_def envelope_by_kind_def)
  have site: "rv_site ?row = Some 7" by (simp add: new_row_def)
  have "\<exists>db' oc. persist sample_request ?d (Some 7) (budget sample_config) (instant_of sample_now) [] handed_db = Inr (db', oc)"
    using fits checks site
    by (simp add: persist_def envelope_limits_def insert_reservation_def sample_request_def f Let_def)
  moreover have b: "budget sample_config = sample_settings" by (simp add: sample_config_def)
  moreover have "req_class sample_request = WATCH_REFRESH" by (simp add: sample_request_def)
  ultimately show ?thesis using dec by (simp add: reserve_def bump stranded cycle obs Let_def)
qed

theorem export_ends_admission_witness:
  "\<exists>db oc. reserve sample_request (Some 7) sample_config sample_now [] handed_db = Inr (db, oc) \<and> \<not> oc_admitted oc"
proof -
  obtain db oc where r: "reserve sample_request (Some 7) sample_config sample_now [] handed_db = Inr (db, oc)"
    using handed_off_reserve_runs by blast
  have s: "strip ''pi'' = ''pi''" by code_simp
  have "ensure_cycle off_config sample_now handed_db = Inr (handed_db, Some sample_cycle)"
    by (simp add: ensure_cycle_def off_anchor sample_bounds handed_db_def authorised_fields)
  then have "export_handoff no_digest ''pi'' off_config sample_now handed_db = Inr (handed_db, sample_record, ''00'')"
    by (simp add: export_handoff_def s handed_db_def authorised_fields)
  then have "steps ledger_step handed_db [Export] handed_db" by (auto simp: steps_simps intro: ledger_step.exported)
  from export_ends_admission [OF sample_export authorised_cycles off_anchor sample_bounds this r sample_anchor_set sample_bounds] r
  show ?thesis by blast
qed

end
