(* ===== verification/HandoffImport.thy ===== *)
theory HandoffImport
  imports LedgerHandoff
begin

text \<open>
  What a handoff carries over (\<open>acquisition/apify/ledger.py\<close>): the exported record passes the destination's
  validation, and the authority row \<open>import_handoff\<close> creates from it carries exactly what the exporter's
  rows owe the cycle.
\<close>

section \<open>The exported consumption\<close>

lemma usd_money: "money n x \<Longrightarrow> n \<le> 10 ^ 16 \<Longrightarrow> usd x = Inr x"
proof -
  assume m: "money n x" and n: "n \<le> 10 ^ 16"
  then obtain k where k: "x = of_int k / 10000" "0 \<le> k" "k \<le> int n * 20000000000" by (auto simp: money_def)
  have "int n * 20000000000 \<le> 10 ^ 16 * 20000000000" using n by simp
  then show ?thesis using k by (simp add: usd_def)
qed

lemma fold_no_open:
  "\<forall>r \<in> set rows. rv_status r = RECONCILED \<Longrightarrow> runtime_open (fold (tally_row db config g s e) rows t) = runtime_open t
     \<and> operator_open (fold (tally_row db config g s e) rows t) = operator_open t"
proof (induction rows arbitrary: t)
  case (Cons r rows)
  have "runtime_open (tally_row db config g s e r t) = runtime_open t \<and> operator_open (tally_row db config g s e r t) = operator_open t"
    using Cons.prems by (simp add: tally_row_def Let_def)
  then show ?case using Cons by simp
qed simp

lemma drained_no_open:
  assumes "tally_of db s e config inc = Inr t" and "drain_refusal db = None"
  shows "runtime_open t = 0" and "operator_open t = 0"
proof -
  obtain g where g: "guard_of config = Inr g" using assms(1) by (auto simp: tally_of_def andThen_eq_Inr)
  let ?rows = "filter (prefilter g s e) (reservations db)"
  have none: "\<forall>r \<in> set (reservations db). rv_status r \<notin> set open_statuses"
    using assms(2) by (auto simp: drain_refusal_def split: if_splits)
  then have rows: "\<forall>r \<in> set ?rows. rv_status r = RECONCILED" by (auto simp: prefilter_def)
  have "t = fold (tally_row db config g s e) ?rows empty_tally
      \<or> (\<exists>c. t = fold (tally_row db config g s e) ?rows empty_tally\<lparr>carried := c\<rparr>)"
    using assms(1) g by (auto simp: tally_of_def andThen_eq_Inr Let_def split: if_splits option.splits)
  then show "runtime_open t = 0" "operator_open t = 0"
    using fold_no_open [OF rows] by (auto simp: empty_tally_def)
qed

lemma record_total_exact:
  assumes inv: "tally_inv (10 ^ 15) t rt op" and "runtime_open t = 0" "operator_open t = 0" and c: "money 1 (carried t)"
  shows "dsum (map snd (record_lines t)) = rt + op + carried t" and "usd (rt + op + carried t) = Inr (rt + op + carried t)"
    and "usd_lines (record_lines t) = Inr (record_lines t)" and "\<forall>line \<in> set (record_lines t). 0 \<le> snd line"
    and "0 \<le> rt + op + carried t"
proof -
  note inv' = inv [unfolded tally_inv_def]
  have m: "money (10 ^ 15) (runtime_settled t)" "money (10 ^ 15) (operator_settled t)"
    "money (10 ^ 15) (runtime_monitoring t)" "money (10 ^ 15) (operator_monitoring t)" using inv' by auto
  let ?mon = "runtime_monitoring t + operator_monitoring t"
  have mon: "dadd (runtime_monitoring t) (operator_monitoring t) = ?mon" "money (2 * 10 ^ 15) ?mon"
    using money_dadd [OF m(3,4)] money_add [OF m(3,4)] by simp_all
  have s1: "dadd (runtime_settled t) (operator_settled t) = runtime_settled t + operator_settled t"
    "money (2 * 10 ^ 15) (runtime_settled t + operator_settled t)"
    using money_dadd [OF m(1,2)] money_add [OF m(1,2)] by simp_all
  have s2: "dadd (runtime_settled t + operator_settled t) ?mon = runtime_settled t + operator_settled t + ?mon"
    "money (4 * 10 ^ 15) (runtime_settled t + operator_settled t + ?mon)"
    using money_dadd [OF s1(2) mon(2)] money_add [OF s1(2) mon(2)] by simp_all
  have s3: "dadd (runtime_settled t + operator_settled t + ?mon) (carried t) = rt + op + carried t"
    "money (4 * 10 ^ 15 + 1) (rt + op + carried t)"
    using money_dadd [OF s2(2) c] money_add [OF s2(2) c] inv' assms(2,3) by (simp_all add: algebra_simps)
  have s0: "dadd 0 (runtime_settled t) = runtime_settled t" using money_dadd [OF money_zero m(1), of 0] by simp
  show "dsum (map snd (record_lines t)) = rt + op + carried t"
    by (simp add: record_lines_def dsum_def mon(1) s0 s1(1) s2(1) s3(1))
  show "usd (rt + op + carried t) = Inr (rt + op + carried t)" by (rule usd_money [OF s3(2)]) simp
  show "usd_lines (record_lines t) = Inr (record_lines t)"
    using usd_money [OF m(1)] usd_money [OF m(2)] usd_money [OF mon(2)] usd_money [OF c] mon(1)
    by (simp add: record_lines_def)
  have "0 \<le> carried t" "0 \<le> runtime_settled t" "0 \<le> operator_settled t" "0 \<le> ?mon" "0 \<le> rt + op + carried t"
    using money_nonneg [OF c] money_nonneg [OF m(1)] money_nonneg [OF m(2)] money_nonneg [OF mon(2)] money_nonneg [OF s3(2)] by auto
  then show "\<forall>line \<in> set (record_lines t). 0 \<le> snd line" "0 \<le> rt + op + carried t"
    using mon(1) by (auto simp: record_lines_def)
qed

section \<open>The drain evidence\<close>

lemma tally_row_obligations:
  "r \<in> set (obligations (tally_row db config g s e row t)) \<Longrightarrow>
     r \<in> set (obligations t) \<or> (r = row \<and> rv_status r = RECONCILED \<and> has_obligation r)"
  by (auto simp: tally_row_def Let_def split: if_splits)

lemma fold_obligations:
  "r \<in> set (obligations (fold (tally_row db config g s e) rows t)) \<Longrightarrow>
     r \<in> set (obligations t) \<or> (r \<in> set rows \<and> rv_status r = RECONCILED \<and> has_obligation r)"
proof (induction rows arbitrary: t)
  case (Cons row rows)
  then show ?case using tally_row_obligations by fastforce
qed simp

lemma tally_obligations:
  assumes "tally_of db s e config inc = Inr t" and "r \<in> set (obligations t)"
  shows "r \<in> set (reservations db) \<and> rv_status r = RECONCILED \<and> has_obligation r"
proof -
  obtain g where g: "guard_of config = Inr g" using assms(1) by (auto simp: tally_of_def andThen_eq_Inr)
  let ?rows = "filter (prefilter g s e) (reservations db)"
  have "obligations t = obligations (fold (tally_row db config g s e) ?rows empty_tally)"
    using assms(1) g by (auto simp: tally_of_def andThen_eq_Inr Let_def split: if_splits option.splits)
  then show ?thesis using fold_obligations [of r db config g s e ?rows empty_tally] assms(2)
    by (auto simp: empty_tally_def)
qed

text \<open>Once the drain check passes, every obligation of the record has its closing read in time.\<close>

lemma drained_obligations:
  assumes "tally_of db s e config inc = Inr t" and "drain_refusal db = None" and "r \<in> set (obligations t)"
  shows "\<not> bad_obligation (obligation_of db r)"
proof -
  have "\<not> monitoring_undrained db r"
    using tally_obligations [OF assms(1,3)] assms(2) by (auto simp: drain_refusal_def split: if_splits)
  then show ?thesis
    by (auto simp: monitoring_undrained_def bad_obligation_def obligation_of_def split: option.splits)
qed

section \<open>The exported record\<close>

lemma built_record:
  assumes "build_record db cycle auth destination config t = Inr rec" and "drain_refusal db = None"
    and "ledger_ok db" and "guard_of config = Inr g"
  shows "hr_carried rec = class_debit db config g (cy_start cycle) (cy_end cycle) False
      + class_debit db config g (cy_start cycle) (cy_end cycle) True + carried_of db (cy_start cycle)"
    and "hr_cycle_start rec = cy_start cycle" and "hr_cycle_end rec = cy_end cycle"
    and "validated_total rec = Inr (hr_carried rec)" and "usd (hr_carried rec) = Inr (hr_carried rec)"
proof -
  obtain ty lines where t: "tally_of db (cy_start cycle) (cy_end cycle) config True = Inr ty"
    and lines: "usd_lines (record_lines ty) = Inr lines"
    and total: "usd (dsum (map snd (record_lines ty))) = Inr (hr_carried rec)"
    and se: "hr_cycle_start rec = cy_start cycle" "hr_cycle_end rec = cy_end cycle"
    and rec: "hr_version rec = 1" "hr_lines rec = lines" "hr_open_reservations rec = 0" "hr_open_monitoring rec = 0"
      "hr_obligations rec = map (obligation_of db) (sort_key rv_id (obligations ty))"
    using assms(1) by (auto simp: build_record_def andThen_eq_Inr lift_budget_eq_Inr)
  have inv: "tally_inv (10 ^ 15) ty (class_debit db config g (cy_start cycle) (cy_end cycle) False)
      (class_debit db config g (cy_start cycle) (cy_end cycle) True)"
    by (rule tally_of_inv [OF t]) (use assms(3,4) in \<open>auto simp: ledger_ok_def\<close>)
  have c: "carried ty = carried_of db (cy_start cycle)" "money 1 (carried ty)"
    using tally_of_carried [OF t] carried_money [OF assms(3)] by simp_all
  note x = record_total_exact [OF inv drained_no_open [OF t assms(2)] c(2)]
  show carried': "hr_carried rec = class_debit db config g (cy_start cycle) (cy_end cycle) False
      + class_debit db config g (cy_start cycle) (cy_end cycle) True + carried_of db (cy_start cycle)"
    using total x(1,2) c(1) by simp
  show "hr_cycle_start rec = cy_start cycle" "hr_cycle_end rec = cy_end cycle" by (rule se)+
  show "usd (hr_carried rec) = Inr (hr_carried rec)" using carried' x(2) c(1) by simp
  have "lines = record_lines ty" using lines x(3) by simp
  moreover have "record_lines ty \<noteq> []" by (simp add: record_lines_def)
  moreover have "\<not> (\<exists>line \<in> set (record_lines ty). snd line < 0)" using x(4) by (simp add: not_less)
  ultimately show "validated_total rec = Inr (hr_carried rec)"
    using rec x(1,5) carried' c(1) drained_obligations [OF t assms(2)]
    by (auto simp: validated_total_def)
qed

lemma imported_carried:
  assumes "import_handoff digest rec config now db = Inr (db', True)" and "usd (hr_carried rec) = Inr x"
  shows "carried_of db' (hr_cycle_start rec) = x"
  using assms(1)
proof (cases rule: import_handoff_cases)
  case (new db1 c y)
  then show ?thesis
    using assms(2) by (simp add: carried_of_def first_such_append first_such_None [THEN iffD2] handoff_authority_def)
qed simp

text \<open>C16: The consumption a first export hands over is exact: what the cycle owes for runs and for operator
  commands over all rows, plus what the cycle itself was handed, with nothing rounded and nothing left open (for
  a ledger whose rows satisfy their table's constraints, were reconciled after they were reserved and number at
  most \<open>10 ^ 15\<close>). The record passes the destination's validation with this figure, and wherever it is
  imported as a new authority, the destination's tallies of the cycle count exactly this figure as carried in:
  money the exporter has spent is not there to be spent again.\<close>

theorem exported_consumption_is_exact:
  assumes "export_handoff digest to config now db = Inr (db', rec, dg)" and "ledger_ok db"
    and "\<forall>a \<in> set (authorities db). au_handed_off a = None" and "guard_of config = Inr g"
  shows "hr_carried rec = class_debit db config g (hr_cycle_start rec) (hr_cycle_end rec) False
       + class_debit db config g (hr_cycle_start rec) (hr_cycle_end rec) True + carried_of db (hr_cycle_start rec)
     \<and> (\<forall>r \<in> set (reservations db). rv_status r \<notin> set open_statuses)
     \<and> validated_total rec = Inr (hr_carried rec)
     \<and> (\<forall>digest' config' now' dst dst'. import_handoff digest' rec config' now' dst = Inr (dst', True) \<longrightarrow>
          carried_of dst' (hr_cycle_start rec) = hr_carried rec
          \<and> (\<forall>e config'' t. tally_of dst' (hr_cycle_start rec) e config'' True = Inr t
               \<longrightarrow> carried_handoff_usd (tally_debits t) = hr_carried rec))"
  using assms(1)
proof (cases rule: export_cases)
  case (again db1 cycle auth t)
  have "auth \<in> set (authorities db1)" using first_such_Some [OF again(3)] by blast
  moreover have "\<forall>a \<in> set (authorities db1). au_handed_off a = None"
    using again(1) by (cases rule: ensure_cycle_cases)
      (use assms(3) in \<open>auto dest!: ensure_continued_authority_effect\<close>)
  ultimately show ?thesis using again(4) by simp
next
  case (fresh db1 cycle auth)
  note x = export_freshE [OF fresh(5)]
  note frame = ensure_cycle_frame [OF fresh(1)]
  have ok: "ledger_ok db1"
    using assms(2) frame(1) ensure_cycle_carried_ok [OF fresh(1)] by (auto simp: ledger_ok_def carried_ok_def)
  have same: "class_debit db1 = class_debit db" by (rule class_debit_cong [OF frame(3,1)])
  note b = built_record [OF x(4,3) ok assms(4)]
  have "carried_of dst' (hr_cycle_start rec) = hr_carried rec
      \<and> (\<forall>e config'' t. tally_of dst' (hr_cycle_start rec) e config'' True = Inr t
           \<longrightarrow> carried_handoff_usd (tally_debits t) = hr_carried rec)"
    if "import_handoff digest' rec config' now' dst = Inr (dst', True)" for digest' config' now' dst dst'
    using imported_carried [OF that b(5)] by (auto simp: tally_debits_def dest!: tally_of_carried)
  moreover have "\<forall>r \<in> set (reservations db). rv_status r \<notin> set open_statuses"
    using x(3) frame(1) by (auto simp: drain_refusal_def split: if_splits)
  ultimately show ?thesis using b(1,4) by (auto simp: b(2,3) same ensure_cycle_carried_of [OF fresh(1)])
qed

section \<open>A handoff with consumption\<close>

text \<open>A reconciled build, its correction monitoring closed in time, in a cycle that was itself handed a quarter.\<close>

abbreviation at_hour :: "int \<Rightarrow> instant" where "at_hour n \<equiv> cy_start sample_cycle + hours n"

definition build_row :: reservation where
  "build_row = (new_row build_request \<lparr>admitted = True, denied_for = None, decision_estimate = None\<rparr> None
       (None, None, None, None) (at_hour 1) [])
     \<lparr>rv_id := 1, rv_build_id := Some ''b1'', rv_status := RECONCILED, rv_estimate := Some 1,
      rv_monitoring := Some (1 / 100), rv_settled_usage := Some (1 / 2), rv_actual := Some (1 / 2),
      rv_last_charge_at := Some (at_hour 2), rv_reconciled_at := Some (at_hour 2), rv_monitor_until := Some (at_hour 3),
      rv_monitor_closed_at := Some (at_hour 5), rv_closing_read := Some 2\<rparr>"

definition closing_read :: usage_read where
  "closing_read = \<lparr>ur_id = 2, ur_reservation = 1, ur_run = None, ur_read_at = at_hour 4, ur_total = Some (1 / 2),
     ur_usage = [], ur_finished_at = None, ur_version = ''v1''\<rparr>"

definition drained_db :: ledger_db where
  "drained_db = sample_cycle_db\<lparr>reservations := [build_row], reads := [closing_read],
     authorities := [sample_authority\<lparr>au_kind := HANDOFF, au_carried := 1 / 4, au_imported_digest := Some ''ff''\<rparr>],
     next_id := 3\<rparr>"

definition drained_record :: handoff_record where
  "drained_record = \<lparr>hr_version = 1, hr_source = ''prod'', hr_destination = ''pi'', hr_cycle_start = cy_start sample_cycle,
     hr_cycle_end = cy_end sample_cycle, hr_exported_at = instant_of sample_now,
     hr_lines = [(''settled_runtime_usd'', 0), (''settled_operator_usd'', 1 / 2), (''monitoring_allowance_usd'', 1 / 100),
       (''carried_in_usd'', 1 / 4)],
     hr_carried = 19 / 25, hr_open_reservations = 0, hr_open_monitoring = 0,
     hr_obligations = [\<lparr>ob_reservation = 1, ob_until = Some (at_hour 3), ob_read_at = Some (at_hour 4),
       ob_read_usage = Some (1 / 2), ob_settled = Some (1 / 2)\<rparr>]\<rparr>"

definition pi_config :: ledger_config where "pi_config = sample_config\<lparr>ledger_id := ''pi''\<rparr>"

lemma build_row_fields:
  "rv_class build_row = OPERATOR" "rv_kind build_row = Some BUILD" "rv_status build_row = RECONCILED" "rv_id build_row = 1"
  "rv_actual build_row = Some (1 / 2)" "rv_monitoring build_row = Some (1 / 100)" "rv_reserved_at build_row = at_hour 1"
  "rv_last_charge_at build_row = Some (at_hour 2)" "rv_reconciled_at build_row = Some (at_hour 2)"
  "rv_monitor_until build_row = Some (at_hour 3)" "rv_monitor_closed_at build_row = Some (at_hour 5)"
  "rv_closing_read build_row = Some 2" "rv_monitoring_call_pending_since build_row = None"
  "rv_monitoring_charge_last_at build_row = None" "rv_settled_usage build_row = Some (1 / 2)"
  by (simp_all add: build_row_def new_row_def build_request_def)

lemma drained_fields:
  "reservations drained_db = [build_row]" "reads drained_db = [closing_read]" "cycles drained_db = [sample_cycle]"
  "authorities drained_db = [sample_authority\<lparr>au_kind := HANDOFF, au_carried := 1 / 4, au_imported_digest := Some ''ff''\<rparr>]"
  by (simp_all add: drained_db_def sample_cycle_db_def)

lemma drained_ok: "ledger_ok drained_db"
proof -
  have "on_grid 4 (1 / 2)" "on_grid 4 (1 / 100)" "on_grid 4 1"
    by (rule on_gridI [of _ _ 5000] on_gridI [of _ _ 100] on_gridI [of _ _ 10000]; simp)+
  then have "row_ok build_row"
    by (simp add: row_ok_def reservation_checks_def reservation_fits_def reservation_money_def build_row_def
        new_row_def build_request_def is_runtime_def envelope_by_kind_def money_fits_def timedelta_defs)
  moreover have "money 1 (1 / 4)" by (auto simp: money_def intro: exI [of _ 2500])
  ultimately show ?thesis by (simp add: ledger_ok_def drained_fields)
qed

lemma drained_refusal: "drain_refusal drained_db = None"
  by (simp add: drain_refusal_def drained_fields build_row_fields open_statuses_def monitoring_undrained_def
      closing_read_of_def unapplied_read_def closing_read_def timedelta_defs)

lemma drained_tally:
  "\<exists>t. tally_of drained_db (cy_start sample_cycle) (cy_end sample_cycle) off_config True = Inr t
     \<and> record_lines t = hr_lines drained_record \<and> obligations t = [build_row]"
proof -
  have times: "at_hour 1 \<le> cy_end sample_cycle + 1800000000" "at_hour 1 - 1800000000 \<le> cy_end sample_cycle"
    "at_hour 2 - 1800000000 \<le> cy_end sample_cycle" "in_datetime_range (at_hour 1 - 1800000000)"
    "in_datetime_range (at_hour 2 + 1800000000)" "in_datetime_range (at_hour 2 - 1800000000)"
    by code_simp+
  have pos: "(0 :: int) \<le> hours 2" by code_simp
  have sums: "dadd 0 (1 / 2) = 1 / 2" "dadd 0 (1 / 100) = 1 / 100"
    by (simp_all add: dadd_def dround_num)
  show ?thesis
    using times pos
    by (simp add: tally_of_def off_guard drained_fields sample_ranges prefilter_def build_row_fields row_asserts_def
        row_instants_def monitoring_end_def monitoring_open_def has_obligation_def tally_row_def touches_def
        empty_tally_def amount_def sums record_lines_def drained_record_def sample_authority_def Let_def del: hours_def)
qed

lemma drained_export:
  "\<exists>db'. export_handoff no_digest ''pi'' off_config sample_now drained_db = Inr (db', drained_record, ''00'')"
proof -
  obtain t where t: "tally_of drained_db (cy_start sample_cycle) (cy_end sample_cycle) off_config True = Inr t"
    "record_lines t = hr_lines drained_record" "obligations t = [build_row]"
    using drained_tally by blast
  have strip: "strip ''pi'' = ''pi''" by code_simp
  have cycle: "ensure_cycle off_config sample_now drained_db = Inr (drained_db, Some sample_cycle)"
    by (simp add: ensure_cycle_def off_anchor sample_bounds drained_fields)
  have sums: "dadd 0 (1 / 2) = 1 / 2" "dadd (1 / 2) (1 / 100) = 51 / 100" "dadd (51 / 100) (1 / 4) = 19 / 25" "dadd 0 0 = 0"
    by (simp_all add: dadd_def dround_num)
  have usd: "usd 0 = Inr 0" "usd (1 / 2) = Inr (1 / 2)" "usd (1 / 100) = Inr (1 / 100)" "usd (1 / 4) = Inr (1 / 4)"
    "usd (19 / 25) = Inr (19 / 25)"
    by (simp_all add: usd_def)
  have lines: "usd_lines (record_lines t) = Inr (record_lines t)" "dsum (map snd (record_lines t)) = 19 / 25"
    by (simp_all add: t(2) drained_record_def usd sums dsum_def)
  have ob: "obligation_of drained_db build_row = \<lparr>ob_reservation = 1, ob_until = Some (at_hour 3),
      ob_read_at = Some (at_hour 4), ob_read_usage = Some (1 / 2), ob_settled = Some (1 / 2)\<rparr>"
    by (simp add: obligation_of_def closing_read_of_def drained_fields build_row_fields closing_read_def)
  have record': "build_record drained_db sample_cycle auth ''pi'' off_config (instant_of sample_now) = Inr drained_record"
    if "au_ledger_id auth = ''prod''" for auth
    using that by (simp add: build_record_def t(1,3) lines ob lift_budget_def usd) (simp add: t(2) drained_record_def)
  obtain db' where "save_handoff drained_db (cy_start sample_cycle) (instant_of sample_now, ''pi'', drained_record, ''00'') = Inr db'"
    by (simp add: save_handoff_def drained_fields sample_authority_def)
  then show ?thesis
    by (simp add: export_handoff_def strip cycle drained_fields export_fresh_def drained_refusal record' no_digest_def
        sample_authority_def) (simp add: off_config_def)
qed

lemma drained_import:
  "\<exists>dst. import_handoff no_digest drained_record pi_config sample_now sample_cycle_db = Inr (dst, True)"
proof -
  have sums: "dadd 0 (1 / 2) = 1 / 2" "dadd (1 / 2) (1 / 100) = 51 / 100" "dadd (51 / 100) (1 / 4) = 19 / 25" "dadd 0 0 = 0"
    by (simp_all add: dadd_def dround_num)
  have total: "validated_total drained_record = Inr (19 / 25)"
    by (simp add: validated_total_def drained_record_def bad_obligation_def timedelta_defs dsum_def sums)
  have cycle: "ensure_cycle pi_config sample_now sample_cycle_db = Inr (sample_cycle_db, Some sample_cycle)"
    using sample_anchor_set by (simp add: ensure_cycle_def sample_bounds pi_config_def sample_cycle_db_def)
  have id: "ledger_id pi_config = ''pi''" "hr_destination drained_record = ''pi''" "hr_source drained_record = ''prod''"
    "hr_cycle_start drained_record = cy_start sample_cycle"
    by (simp_all add: pi_config_def drained_record_def)
  have none: "authorities sample_cycle_db = []" by (simp add: sample_cycle_db_def empty_db_def)
  have usd: "usd (19 / 25) = Inr (19 / 25)" by (simp add: usd_def)
  show ?thesis
    by (simp add: import_handoff_def id total cycle none usd lift_budget_def insert_authority_def handoff_authority_def
        authority_fits_def authority_checks_def money_fits_def no_digest_def)
qed

theorem exported_consumption_is_exact_witness:
  "\<exists>db' dst. export_handoff no_digest ''pi'' off_config sample_now drained_db = Inr (db', drained_record, ''00'')
     \<and> import_handoff no_digest drained_record pi_config sample_now sample_cycle_db = Inr (dst, True)
     \<and> carried_of dst (cy_start sample_cycle) = 19 / 25
     \<and> class_debit drained_db off_config 1800000000 (cy_start sample_cycle) (cy_end sample_cycle) False
       + class_debit drained_db off_config 1800000000 (cy_start sample_cycle) (cy_end sample_cycle) True
       + carried_of drained_db (cy_start sample_cycle) = 19 / 25"
proof -
  obtain db' where x: "export_handoff no_digest ''pi'' off_config sample_now drained_db = Inr (db', drained_record, ''00'')"
    using drained_export by blast
  obtain dst where i: "import_handoff no_digest drained_record pi_config sample_now sample_cycle_db = Inr (dst, True)"
    using drained_import by blast
  have "\<forall>a \<in> set (authorities drained_db). au_handed_off a = None" by (simp add: drained_fields sample_authority_def)
  note exact = exported_consumption_is_exact [OF x drained_ok this off_guard]
  have "hr_carried drained_record = 19 / 25" "hr_cycle_start drained_record = cy_start sample_cycle"
    "hr_cycle_end drained_record = cy_end sample_cycle"
    by (simp_all add: drained_record_def)
  then show ?thesis using exact x i by auto
qed

end
