(* ===== verification/SettleRows.thy ===== *)
theory SettleRows
  imports LedgerHandoff
begin

text \<open>
  What settlement (\<open>acquisition/apify/reconcile.py\<close>) and the run jobs do to the ledger's tables:
  looking a row up under its lock, saving it with its CHECK and UNIQUE constraints, appending a usage
  read; and the parts of the Apify client's answers they read.
\<close>

lemma andThen_pair_InrE:
  assumes "andThen m (\<lambda>(x, y). f x y) = Inr z"
  obtains x y where "m = Inr (x, y)" and "f x y = Inr z"
  using assms by (cases m) auto

lemma andThen_triple_InrE:
  assumes "andThen m (\<lambda>(x, y, w). f x y w) = Inr z"
  obtains x y w where "m = Inr (x, y, w)" and "f x y w = Inr z"
  using assms by (cases m) auto

section \<open>Rows by key\<close>

definition get_row :: "'a option \<Rightarrow> ledger_error + 'a" where
  "get_row v = (case v of None \<Rightarrow> Inl NoSuchRow | Some x \<Rightarrow> Inr x)"

lemma get_row_simps [simp]: "get_row (Some x) = Inr x" "get_row None = Inl NoSuchRow"
  by (simp_all add: get_row_def)

lemma get_row_eq_Inr: "get_row v = Inr x \<longleftrightarrow> v = Some x"
  by (cases v) simp_all

definition reservation_by_id :: "ledger_db \<Rightarrow> int \<Rightarrow> reservation option" where
  "reservation_by_id db k = first_such (\<lambda>r. rv_id r = k) (reservations db)"

definition run_by_id :: "ledger_db \<Rightarrow> int \<Rightarrow> provider_run option" where
  "run_by_id db k = first_such (\<lambda>p. pr_id p = k) (runs db)"

text \<open>\<open>_lock_reservation\<close>, by run and by reservation.\<close>

definition lock_by_run :: "ledger_db \<Rightarrow> int \<Rightarrow> ledger_error + reservation option \<times> provider_run" where
  "lock_by_run db k =
     andThen (get_row (run_by_id db k)) (\<lambda>p.
     Inr (first_such (\<lambda>r. rv_run r = Some k) (reservations db), p))"

definition lock_by_reservation :: "ledger_db \<Rightarrow> int \<Rightarrow> ledger_error + reservation \<times> provider_run option" where
  "lock_by_reservation db k =
     andThen (get_row (reservation_by_id db k)) (\<lambda>r.
     case rv_run r of
       None \<Rightarrow> Inr (r, None)
     | Some j \<Rightarrow> andThen (get_row (run_by_id db j)) (\<lambda>p. Inr (r, Some p)))"

section \<open>Saving a row\<close>

definition replace_by :: "('a \<Rightarrow> int) \<Rightarrow> 'a \<Rightarrow> 'a list \<Rightarrow> 'a list" where
  "replace_by key y xs = map (\<lambda>x. if key x = key y then y else x) xs"

text \<open>The UNIQUE columns: the attached run and the build id.\<close>

definition reservation_unique :: "ledger_db \<Rightarrow> reservation \<Rightarrow> bool" where
  "reservation_unique db r \<longleftrightarrow>
     list_all (\<lambda>q. rv_id q = rv_id r
       \<or> (rv_run r = None \<or> rv_run q \<noteq> rv_run r) \<and> (rv_build_id r = None \<or> rv_build_id q \<noteq> rv_build_id r)) (reservations db)"

definition save_reservation :: "ledger_db \<Rightarrow> reservation \<Rightarrow> ledger_error + ledger_db" where
  "save_reservation db r =
     andThen (raise_if (\<not> reservation_fits r \<or> \<not> opt_all (\<lambda>s. length s \<le> 100) (rv_build_id r)
       \<or> \<not> opt_all (\<lambda>s. length s \<le> 100) (rv_probe_dataset r)) DataError) (\<lambda>_.
     andThen (raise_if (\<not> reservation_checks r \<or> \<not> reservation_unique db r) IntegrityError) (\<lambda>_.
     Inr (db\<lparr>reservations := replace_by rv_id r (reservations db)\<rparr>)))"

text \<open>A save of named columns writes only those: here, a function of the stored row.\<close>

definition save_columns :: "ledger_db \<Rightarrow> int \<Rightarrow> (reservation \<Rightarrow> reservation) \<Rightarrow> ledger_error + ledger_db" where
  "save_columns db k f =
     andThen (get_row (reservation_by_id db k)) (\<lambda>r. save_reservation db (f r))"

text \<open>
  The constraints of \<open>provider_run\<close>: run id and idempotency key come together and the run id is
  unique; the scope is not blank; the kind is FULL or PROBE; the class is a runtime class.
\<close>

definition run_checks :: "ledger_db \<Rightarrow> provider_run \<Rightarrow> bool" where
  "run_checks db p \<longleftrightarrow> (pr_external_id p = None \<longleftrightarrow> pr_key p = None) \<and> pr_scope_key p \<noteq> [] \<and> pr_run_kind p \<in> {RUN_FULL, RUN_PROBE}
     \<and> is_runtime (pr_class p)
     \<and> list_all (\<lambda>q. pr_id q = pr_id p
         \<or> (pr_external_id p = None \<or> pr_external_id q \<noteq> pr_external_id p)
           \<and> (pr_key p = None \<or> pr_key q \<noteq> pr_key p)) (runs db)"

definition save_run :: "ledger_db \<Rightarrow> provider_run \<Rightarrow> ledger_error + ledger_db" where
  "save_run db p =
     andThen (raise_if (\<not> run_checks db p) IntegrityError) (\<lambda>_.
     Inr (db\<lparr>runs := replace_by pr_id p (runs db)\<rparr>))"

section \<open>Answers of the Apify client\<close>

text \<open>
  The fields of \<open>ApifyBuild\<close> and \<open>ApifyRun\<close> that are read. A component amount carries its value
  and its text, the \<open>str\<close> of the \<open>Decimal\<close> the client parsed.
\<close>

type_synonym figures = "(string \<times> rat \<times> string) list"

record api_record =
  ap_id :: string
  ap_status :: string
  ap_started_at :: "instant option"
  ap_finished_at :: "instant option"
  ap_build_number :: "string option"
  ap_total :: "rat option"
  ap_usage_usd :: "figures option"
  ap_usage :: "figures option"
  ap_unparseable :: "string list"

record api_run = api_record +
  ap_build_id :: "string option"
  ap_dataset_id :: "string option"
  ap_kv_store_id :: "string option"
  ap_memory_mbytes :: "int option"
  ap_timeout_secs :: "int option"
  ap_build_tag :: "string option"
  ap_restart_on_error :: "bool option"
  ap_restart_count :: "int option"

definition TERMINAL_RUN_STATUSES :: "string list" where
  "TERMINAL_RUN_STATUSES = [''SUCCEEDED'', ''FAILED'', ''TIMED-OUT'', ''ABORTED'']"

section \<open>Usage reads\<close>

text \<open>The value a \<open>numeric(14,8)\<close> column stores: rounded half away from zero.\<close>

definition to_numeric_8 :: "rat \<Rightarrow> rat" where
  "to_numeric_8 x =
     (if 0 \<le> x then of_int \<lfloor>x * 10 ^ 8 + 1 / 2\<rfloor> else - of_int \<lfloor>- x * 10 ^ 8 + 1 / 2\<rfloor>) / 10 ^ 8"

definition usage_texts :: "figures option \<Rightarrow> (string \<times> string) list" where
  "usage_texts u = (case u of None \<Rightarrow> [] | Some fs \<Rightarrow> map (\<lambda>(k, v, t). (k, t)) fs)"

text \<open>\<open>_append_read\<close>, with the check \<open>ApifyUsageRead.save\<close> makes of the run it is filed under.\<close>

definition append_read ::
  "ledger_db \<Rightarrow> reservation \<Rightarrow> int option \<Rightarrow> instant \<Rightarrow> rat option \<Rightarrow> figures option \<Rightarrow> instant option
     \<Rightarrow> ledger_config \<Rightarrow> ledger_error + ledger_db \<times> int" where
  "append_read db r run read_at tot usage finished_at config =
     (let row = \<lparr>ur_id = next_id db, ur_reservation = rv_id r, ur_run = run, ur_read_at = read_at,
            ur_total = map_option to_numeric_8 tot, ur_usage = usage_texts usage, ur_finished_at = finished_at,
            ur_version = estimator_version (budget config)\<rparr> in
      andThen (get_row (reservation_by_id db (rv_id r))) (\<lambda>stored.
      andThen (raise_if (rv_run stored \<noteq> run) (Raised ValueError)) (\<lambda>_.
      andThen (raise_if (\<not> opt_all (\<lambda>x. \<bar>x\<bar> < 10 ^ 6) (ur_total row) \<or> 50 < length (ur_version row)) DataError) (\<lambda>_.
      andThen (raise_if (\<not> opt_all (\<lambda>x. 0 \<le> x) (ur_total row)) IntegrityError) (\<lambda>_.
      Inr (db\<lparr>reads := reads db @ [row], next_id := next_id db + 1\<rparr>, next_id db))))))"

end
