(* ===== verification/Settlement.thy ===== *)
theory Settlement
  imports SettleRows
begin

text \<open>
  Settlement (\<open>acquisition/apify/reconcile.py\<close>, first half): the work-completion anchor, the usage
  allowlist, the settlement predicate with its three bases, \<open>_try_settle\<close>, and the operations that
  feed it: the usage reads of runs and operator builds, the binding of a build, the release of a
  reservation no run was attached to, and the settling of operator envelopes. Each operation is one
  transaction under the budget lock; an exception rolls it back.
\<close>

section \<open>Vocabulary\<close>

definition USAGE_ALLOWLIST :: "string list" where
  "USAGE_ALLOWLIST = [''ACTOR_COMPUTE_UNITS'', ''DATASET_READS'', ''DATASET_WRITES'', ''KEY_VALUE_STORE_READS'',
     ''KEY_VALUE_STORE_WRITES'', ''DATA_TRANSFER_INTERNAL_GBYTES'', ''DATA_TRANSFER_EXTERNAL_GBYTES'']"

definition TERMINAL_IMPORT :: "import_state list" where "TERMINAL_IMPORT = [IMPORT_FINALIZED, IMPORT_REJECTED]"

definition CLOSING_RESERVE :: int where "CLOSING_RESERVE = 3"

definition OVERDUE_BACKOFF_MAX :: timedelta where "OVERDUE_BACKOFF_MAX = hours 1"

definition money_up :: "rat \<Rightarrow> ledger_error + rat" where "money_up x = lift_budget (usd x)"

definition seconds_of :: "int option \<Rightarrow> string \<Rightarrow> ledger_error + timedelta" where
  "seconds_of v name =
     (case v of None \<Rightarrow> Inl (Raised (BudgetDenied UNBOUNDED_COMPONENT name))
      | Some n \<Rightarrow> if n < 0 then Inl (Raised (BudgetDenied UNBOUNDED_COMPONENT name))
          else if days 999999999 + days 1 \<le> seconds n then Inl DateOverflow else Inr (seconds n))"

definition date_add :: "instant \<Rightarrow> timedelta \<Rightarrow> ledger_error + instant" where
  "date_add t d = (if in_datetime_range (t + d) then Inr (t + d) else Inl DateOverflow)"

text \<open>\<open>timedelta(seconds=max(value or 0, 0))\<close>.\<close>

definition interval_of :: "int option \<Rightarrow> ledger_error + timedelta" where
  "interval_of v = (let n = max (case v of None \<Rightarrow> 0 | Some n \<Rightarrow> n) 0 in
     if days 999999999 + days 1 \<le> seconds n then Inl DateOverflow else Inr (seconds n))"

section \<open>The work-completion anchor\<close>

definition stamp_work_completion :: "provider_run \<Rightarrow> instant \<Rightarrow> provider_run \<times> bool" where
  "stamp_work_completion p now =
     (if pr_final_charge_op_at p \<noteq> None then (p, False)
      else if pr_import_state p \<notin> set TERMINAL_IMPORT \<or> pr_storage_state p \<noteq> STORAGE_DELETED then (p, False)
      else (p\<lparr>pr_final_charge_op_at := Some now\<rparr>, True))"

definition reads_of :: "ledger_db \<Rightarrow> reservation \<Rightarrow> usage_read list" where
  "reads_of db r = filter (\<lambda>u. ur_reservation u = rv_id r) (reads db)"

fun max_of :: "'a::linorder list \<Rightarrow> 'a option" where
  "max_of [] = None"
| "max_of (x # xs) = Some (foldl max x xs)"

definition anchor_of :: "ledger_db \<Rightarrow> reservation \<Rightarrow> provider_run option \<Rightarrow> instant option" where
  "anchor_of db r run =
     (case run of
        Some p \<Rightarrow> (case pr_final_charge_op_at p of None \<Rightarrow> None
          | Some f \<Rightarrow> Some (max f (case pr_finished_at p of None \<Rightarrow> f | Some t \<Rightarrow> t)))
      | None \<Rightarrow> max_of (List.map_filter ur_finished_at (reads_of db r)))"

definition lift_guard :: "ledger_config \<Rightarrow> ledger_error + timedelta" where
  "lift_guard config = seconds_of (cycle_boundary_guard_s (budget config)) ''CYCLE_BOUNDARY_GUARD_S''"

definition eligible_from :: "instant \<Rightarrow> ledger_config \<Rightarrow> ledger_error + instant" where
  "eligible_from anchor config =
     andThen (seconds_of (usage_settle_delay_s config) ''USAGE_SETTLE_DELAY_S'') (\<lambda>delay.
     andThen (date_add anchor delay) (\<lambda>t.
     andThen (lift_guard config) (\<lambda>g. date_add t g)))"

section \<open>The usage allowlist\<close>

definition outside_allowlist :: "string \<Rightarrow> figures option \<Rightarrow> string list" where
  "outside_allowlist label u =
     (case u of None \<Rightarrow> []
      | Some fs \<Rightarrow> map (\<lambda>(k, v, t). label @ ''.'' @ k @ ''='' @ t)
          (filter (\<lambda>(k, v, t). k \<notin> set USAGE_ALLOWLIST \<and> v \<noteq> 0) fs))"

definition unexpected_components :: "figures option \<Rightarrow> figures option \<Rightarrow> string list \<Rightarrow> string list" where
  "unexpected_components usage_usd usage unparseable =
     map (\<lambda>name. ''unparseable '' @ name) unparseable
     @ outside_allowlist ''usageUsd'' usage_usd @ outside_allowlist ''usage'' usage"

definition trip ::
  "latch_reason \<Rightarrow> int option \<Rightarrow> ledger_config \<Rightarrow> instant \<Rightarrow> ledger_db \<Rightarrow> ledger_error + ledger_db" where
  "trip reason run config now db =
     andThen (trip_latch_locked reason run (estimator_version (budget config)) now db) (\<lambda>(db, _). Inr db)"

definition latch_on_components ::
  "'a api_record_scheme \<Rightarrow> int option \<Rightarrow> ledger_config \<Rightarrow> instant \<Rightarrow> ledger_db \<Rightarrow> ledger_error + ledger_db" where
  "latch_on_components a run config now db =
     (if unexpected_components (ap_usage_usd a) (ap_usage a) (ap_unparseable a) \<noteq> []
      then trip UNEXPECTED_USAGE_COMPONENT run config now db else Inr db)"

section \<open>The settlement predicate\<close>

fun pairwise_stable :: "timedelta \<Rightarrow> usage_read \<Rightarrow> usage_read \<Rightarrow> usage_read list \<Rightarrow> bool" where
  "pairwise_stable d u0 prev [] \<longleftrightarrow> True"
| "pairwise_stable d u0 prev (cur # us) \<longleftrightarrow> d \<le> ur_read_at cur - ur_read_at prev \<and> ur_total cur = ur_total u0
     \<and> set (ur_usage cur) = set (ur_usage u0) \<and> pairwise_stable d u0 cur us"

text \<open>\<open>_stable\<close>: the last read of a stable tail. The keys of a breakdown are distinct, so dict equality is set equality.\<close>

definition stable_read :: "usage_read list \<Rightarrow> ledger_config \<Rightarrow> ledger_error + usage_read option" where
  "stable_read us config =
     (case (usage_stable_reads config, usage_stable_interval_s config) of
        (Some wanted, Some interval) \<Rightarrow>
          if wanted < 1 \<or> interval < 0 then Inr None
          else let tail = drop (length us - nat wanted) us in
            if length tail < nat wanted \<or> \<not> list_all (\<lambda>u. ur_total u \<noteq> None) tail then Inr None
            else (case tail of
                [] \<Rightarrow> Inr None
              | [u] \<Rightarrow> Inr (Some u)
              | u0 # us' \<Rightarrow> andThen (seconds_of (Some interval) []) (\<lambda>d.
                  Inr (if pairwise_stable d u0 u0 us' then Some (last tail) else None)))
      | _ \<Rightarrow> Inr None)"

text \<open>The unit prices and bounds \<open>counted_post_run_cost\<close> reads, and the cost they make of the run's counters.\<close>

record counted_inputs =
  ci_ds_read :: rat
  ci_ds_write :: rat
  ci_kv_read :: rat
  ci_kv_write :: rat
  ci_ds_storage :: rat
  ci_kv_storage :: rat
  ci_pages :: int
  ci_call :: rat
  ci_page :: rat

definition counted_cost :: "provider_run \<Rightarrow> counted_inputs \<Rightarrow> int \<Rightarrow> instant \<Rightarrow> rat" where
  "counted_cost p i kv_bytes deleted_at =
     (let attempts = int (pr_cleanup_attempts p); n = pr_max_items p;
          dr = int (pr_dataset_reads p); kr = int (pr_kv_reads p);
          lifetime = fround (of_int (deleted_at - pr_admitted_at p) / 1000000);
          hs = ddiv (max lifetime 0) 3600;
          ops = dadd (dadd (dmul (of_int (dr * (n + ci_pages i))) (ci_ds_read i)) (dmul (of_int kr) (ci_kv_read i)))
                  (dmul (of_int attempts) (dadd (dmul (of_int (n + 1)) (ci_ds_write i)) (dmul 3 (ci_kv_write i))));
          stored = dmul (ddiv (dadd (dmul (of_int (n * MAX_LISTING_ROW_BYTES)) (ci_ds_storage i))
                     (dmul (of_int (kv_bytes + MAX_API_REQUEST_BODY_BYTES)) (ci_kv_storage i))) (10 ^ 9)) hs;
          calls = dmul (of_int (1 + int (pr_run_polls p) + 4 * attempts + kr)) (ci_call i)
      in dadd (dadd (dadd ops stored) calls) (dmul (of_int (dr * ci_pages i)) (ci_page i)))"

definition read_counted_inputs :: "provider_run \<Rightarrow> budget_settings \<Rightarrow> budget_error + counted_inputs" where
  "read_counted_inputs p cfg =
     (let ps = prices cfg in
      andThen (per_op (dataset_reads_per_1000 ps) ''DATASET_READS_USD_PER_1000'') (\<lambda>ds_read.
      andThen (per_op (dataset_writes_per_1000 ps) ''DATASET_WRITES_USD_PER_1000'') (\<lambda>ds_write.
      andThen (per_op (kv_reads_per_1000 ps) ''KV_READS_USD_PER_1000'') (\<lambda>kv_read.
      andThen (per_op (kv_writes_per_1000 ps) ''KV_WRITES_USD_PER_1000'') (\<lambda>kv_write.
      andThen (price (dataset_storage_per_gb_hour ps) ''DATASET_STORAGE_USD_PER_GB_HOUR'') (\<lambda>ds_storage.
      andThen (price (kv_storage_per_gb_hour ps) ''KV_STORAGE_USD_PER_GB_HOUR'') (\<lambda>kv_storage.
      andThen (pages_per_read cfg (pr_max_items p) MAX_LISTING_ROW_BYTES) (\<lambda>pages.
      andThen (api_call_bound cfg) (\<lambda>call.
      andThen (dataset_page_bound cfg) (\<lambda>page.
      Inr \<lparr>ci_ds_read = ds_read, ci_ds_write = ds_write, ci_kv_read = kv_read, ci_kv_write = kv_write,
         ci_ds_storage = ds_storage, ci_kv_storage = kv_storage, ci_pages = pages, ci_call = call, ci_page = page\<rparr>))))))))))"

definition counted_post_run_cost :: "provider_run \<Rightarrow> ledger_config \<Rightarrow> budget_error + rat" where
  "counted_post_run_cost p config =
     (let cfg = budget config in
      andThen (margin_of cfg) (\<lambda>m.
      case (max_kv_bytes cfg, pr_storage_deleted_at p) of
        (Some kv_bytes, Some deleted_at) \<Rightarrow>
          if kv_bytes < 0 then Inl (BudgetDenied UNBOUNDED_COMPONENT ''storage size'') else
          andThen (read_counted_inputs p cfg) (\<lambda>i.
          usd (dmul (counted_cost p i kv_bytes deleted_at) (dadd 1 m)))
      | _ \<Rightarrow> Inl (BudgetDenied UNBOUNDED_COMPONENT ''storage size or lifetime'')))"

text \<open>\<open>_post_run_cost\<close>: in \<open>counted\<close> mode a \<open>BudgetDenied\<close> falls back to the bound.\<close>

definition post_run_cost ::
  "reservation \<Rightarrow> provider_run option \<Rightarrow> ledger_config \<Rightarrow> ledger_error + rat \<times> cost_mode" where
  "post_run_cost r run config =
     (case run of
        None \<Rightarrow> Inr (0, COST_BOUND)
      | Some p \<Rightarrow>
          if post_run_cost_mode config = ''counted'' then
            (case counted_post_run_cost p config of
               Inr c \<Rightarrow> Inr (c, COST_COUNTED)
             | Inl (BudgetDenied _ _) \<Rightarrow> Inr (amount (rv_post_run r), COST_BOUND)
             | Inl e \<Rightarrow> Inl (Raised e))
          else Inr (amount (rv_post_run r), COST_BOUND))"

text \<open>
  \<open>_next_read_at\<close>: before the deadline, spaced so that three reads are kept for the closing read
  and never past the deadline; after it, a bounded back-off. A timedelta divided by an int is
  rounded half to even.
\<close>

definition next_read_at :: "reservation \<Rightarrow> instant \<Rightarrow> ledger_config \<Rightarrow> ledger_error + instant" where
  "next_read_at r now config =
     (case (rv_monitor_until r, rv_reconciled_at r) of
        (Some until, Some reconciled) \<Rightarrow>
          andThen (interval_of (usage_stable_interval_s config)) (\<lambda>interval.
          if now < until then
            (let c = (case max_correction_reads (budget config) of None \<Rightarrow> 0 | Some n \<Rightarrow> n);
                 slots = max (c - CLOSING_RESERVE) 1;
                 spacing = max interval (rhe (of_int (until - reconciled) / of_int slots)) in
             andThen (date_add now spacing) (\<lambda>t. Inr (min t until)))
          else date_add now (min (max interval (seconds 60)) OVERDUE_BACKOFF_MAX))
      | _ \<Rightarrow> Inl (Raised AssertionError))"

text \<open>The figure to settle at, its basis, and the read that finalized it, if the predicate allows any.\<close>

definition settlement_figure ::
  "ledger_config \<Rightarrow> rat \<Rightarrow> usage_read list \<Rightarrow> usage_read list \<Rightarrow> bool
     \<Rightarrow> ledger_error + (rat \<times> settlement_basis \<times> usage_read option) option" where
  "settlement_figure config execution us eligible late =
     (let totals = List.map_filter ur_total;
          at_bound = foldl max execution (totals us);
          unfinal = (if late then Some (at_bound, BOUND_UNFINALIZED, None) else None) in
      if run_usage_settlement config = ''stable_reads'' then
        andThen (stable_read eligible config) (\<lambda>fin. Inr (case fin of
            None \<Rightarrow> unfinal
          | Some u \<Rightarrow> Some (case max_of (totals eligible) of None \<Rightarrow> 0 | Some m \<Rightarrow> m, STABLE_READS, Some u)))
      else Inr (if totals eligible \<noteq> [] then Some (at_bound, BASIS_BOUND, None) else unfinal))"

text \<open>The first finalized figure is written once.\<close>

definition record_finalized :: "reservation \<Rightarrow> usage_read option \<Rightarrow> instant \<Rightarrow> ledger_error + reservation" where
  "record_finalized r fin now =
     (case fin of
        Some u \<Rightarrow> if rv_usage_finalized r = None
          then andThen (money_up (amount (ur_total u))) (\<lambda>f.
            Inr (r\<lparr>rv_usage_finalized := Some f, rv_usage_finalized_at := Some now\<rparr>))
          else Inr r
      | None \<Rightarrow> Inr r)"

text \<open>The end of the charge interval: every settlement poll was sent before this commit.\<close>

definition last_charge_of :: "provider_run option \<Rightarrow> instant \<Rightarrow> instant \<Rightarrow> instant" where
  "last_charge_of run anchor now =
     (case run of
        Some p \<Rightarrow> foldl max now (List.map_filter id [pr_final_charge_op_at p, pr_finished_at p])
      | None \<Rightarrow> max anchor now)"

text \<open>The row that settlement writes.\<close>

definition reconciled_row ::
  "reservation \<Rightarrow> rat \<Rightarrow> rat \<Rightarrow> cost_mode \<Rightarrow> settlement_basis \<Rightarrow> rat \<Rightarrow> instant \<Rightarrow> instant \<Rightarrow> instant \<Rightarrow> reservation" where
  "reconciled_row r run_usage post mode basis actual now last_charge until =
     r\<lparr>rv_settled_usage := Some run_usage, rv_post_run_cost := Some post, rv_cost_mode := Some mode,
       rv_basis := Some basis, rv_actual := Some actual, rv_reconciled_at := Some now,
       rv_last_charge_at := Some last_charge, rv_status := RECONCILED, rv_monitor_until := Some until\<rparr>"

definition settled_row ::
  "reservation \<Rightarrow> provider_run option \<Rightarrow> instant \<Rightarrow> instant \<Rightarrow> timedelta \<Rightarrow> rat \<Rightarrow> settlement_basis \<Rightarrow> usage_read option
     \<Rightarrow> ledger_config \<Rightarrow> ledger_error + reservation" where
  "settled_row r run now anchor window figure basis fin config =
     andThen (post_run_cost r run config) (\<lambda>(post, mode).
     andThen (record_finalized r fin now) (\<lambda>r.
     andThen (money_up figure) (\<lambda>run_usage.
     andThen (money_up (dadd run_usage post)) (\<lambda>actual.
     let last_charge = last_charge_of run anchor now in
     andThen (date_add last_charge window) (\<lambda>until.
     let r = reconciled_row r run_usage post mode basis actual now last_charge until in
     andThen (next_read_at r now config) (\<lambda>t. Inr (r\<lparr>rv_next_usage_read_at := Some t\<rparr>)))))))"

text \<open>\<open>_try_settle\<close>. Only a \<open>BudgetDenied\<close> of the clock settings is caught.\<close>

definition settle_clocks :: "instant \<Rightarrow> ledger_config \<Rightarrow> ledger_error + instant \<times> instant \<times> timedelta" where
  "settle_clocks anchor config =
     andThen (eligible_from anchor config) (\<lambda>eligible.
     andThen (seconds_of (usage_finalize_deadline_s config) ''USAGE_FINALIZE_DEADLINE_S'') (\<lambda>d.
     andThen (date_add anchor d) (\<lambda>deadline.
     andThen (seconds_of (correction_window_s config) ''CORRECTION_WINDOW_S'') (\<lambda>window.
     Inr (eligible, deadline, window)))))"

definition polls_spent :: "reservation \<Rightarrow> provider_run option \<Rightarrow> ledger_config \<Rightarrow> bool" where
  "polls_spent r run config =
     (case max_run_polls (budget config) of None \<Rightarrow> False
      | Some c \<Rightarrow> c \<le> int (case run of Some p \<Rightarrow> pr_run_polls p | None \<Rightarrow> rv_run_polls r))"

definition may_settle :: "reservation \<Rightarrow> provider_run option \<Rightarrow> bool" where
  "may_settle r run \<longleftrightarrow> rv_status r \<in> set open_statuses
     \<and> (case run of Some p \<Rightarrow> pr_import_state p \<in> set TERMINAL_IMPORT \<and> pr_storage_state p = STORAGE_DELETED
        | None \<Rightarrow> rv_build_id r \<notin> {None, Some []})"

definition save_settled ::
  "ledger_db \<Rightarrow> reservation \<Rightarrow> provider_run option \<Rightarrow> instant \<Rightarrow> ledger_config \<Rightarrow> ledger_error + ledger_db" where
  "save_settled db r run now config =
     andThen (save_reservation db r) (\<lambda>db.
     if amount (rv_estimate r) < amount (rv_actual r)
     then trip OVERRUN (map_option pr_id run) config now db else Inr db)"

definition settle_when_due ::
  "ledger_db \<Rightarrow> reservation \<Rightarrow> provider_run option \<Rightarrow> instant \<Rightarrow> ledger_config \<Rightarrow> instant
     \<Rightarrow> instant \<times> instant \<times> timedelta \<Rightarrow> ledger_error + ledger_db \<times> bool" where
  "settle_when_due db r run now config anchor clocks =
     (let (eligible, deadline, window) = clocks;
          us = sort_key ur_read_at (reads_of db r) in
      andThen (settlement_figure config (amount (rv_execution r)) us (filter (\<lambda>u. eligible \<le> ur_read_at u) us)
        (deadline \<le> now \<or> polls_spent r run config)) (\<lambda>fig.
      case fig of
        None \<Rightarrow> Inr (db, False)
      | Some (figure, basis, fin) \<Rightarrow>
          andThen (settled_row r run now anchor window figure basis fin config) (\<lambda>r'.
          andThen (save_settled db r' run now config) (\<lambda>db. Inr (db, True)))))"

definition try_settle ::
  "ledger_db \<Rightarrow> reservation \<Rightarrow> provider_run option \<Rightarrow> instant \<Rightarrow> ledger_config \<Rightarrow> ledger_error + ledger_db \<times> bool" where
  "try_settle db r run now config =
     (if \<not> may_settle r run then Inr (db, False)
      else case anchor_of db r run of
        None \<Rightarrow> Inr (db, False)
      | Some anchor \<Rightarrow>
          (case settle_clocks anchor config of
             Inl (Raised (BudgetDenied _ _)) \<Rightarrow> Inr (db, False)
           | Inl e \<Rightarrow> Inl e
           | Inr clocks \<Rightarrow> settle_when_due db r run now config anchor clocks))"

end
