(* ===== verification/SettleOps.thy ===== *)
theory SettleOps
  imports Settlement
begin

text \<open>
  The operations of \<open>acquisition/apify/reconcile.py\<close> that feed settlement: usage reads of runs and
  builds, planned settlement reads, the binding of a build, the release of a reservation no run was
  attached to, and the settling of inspection and probe envelopes.
\<close>

section \<open>Usage reads\<close>

definition mark_provisional :: "ledger_db \<Rightarrow> reservation \<Rightarrow> rat option \<Rightarrow> ledger_error + ledger_db \<times> reservation" where
  "mark_provisional db r tot =
     (case tot of
        None \<Rightarrow> Inr (db, r)
      | Some t \<Rightarrow>
          andThen (money_up t) (\<lambda>m.
          let upd = (\<lambda>r. r\<lparr>rv_usage_provisional := Some (max (amount (rv_usage_provisional r)) m),
                 rv_status := (if rv_status r = RESERVED then USAGE_PROVISIONAL else rv_status r)\<rparr>) in
          andThen (save_columns db (rv_id r) upd) (\<lambda>db. Inr (db, upd r))))"

definition record_run_usage ::
  "ledger_db \<Rightarrow> int \<Rightarrow> api_run \<Rightarrow> instant \<Rightarrow> ledger_config \<Rightarrow> ledger_error + ledger_db \<times> bool" where
  "record_run_usage db k a read_at config =
     andThen (lock_by_run db k) (\<lambda>(resv, p).
     andThen (latch_on_components a (Some k) config read_at db) (\<lambda>db.
     andThen (if ap_restart_count a \<notin> {None, Some 0} then trip START_OPTION_MISMATCH (Some k) config read_at db
       else Inr db) (\<lambda>db.
     case resv of
       None \<Rightarrow> Inr (db, False)
     | Some r \<Rightarrow>
         if rv_status r \<notin> set open_statuses then Inr (db, False) else
         andThen (append_read db r (Some (pr_id p)) read_at (ap_total a) (ap_usage_usd a) (ap_finished_at a) config) (\<lambda>(db, _).
         andThen (mark_provisional db r (ap_total a)) (\<lambda>(db, r).
         try_settle db r (Some p) read_at config)))))"

definition plan_settlement_read ::
  "ledger_db \<Rightarrow> int \<Rightarrow> instant \<Rightarrow> ledger_config \<Rightarrow> ledger_error + ledger_db \<times> string option" where
  "plan_settlement_read db k now config =
     andThen (lock_by_run db k) (\<lambda>(resv, p).
     case resv of
       None \<Rightarrow> Inr (db, None)
     | Some r \<Rightarrow>
         if rv_status r \<notin> set open_statuses then Inr (db, None) else
         andThen (try_settle db r (Some p) now config) (\<lambda>(db, done').
         if done' then Inr (db, None) else
         (case (anchor_of db r (Some p), pr_external_id p) of
            (Some anchor, Some external) \<Rightarrow>
              (case eligible_from anchor config of
                 Inl (Raised (BudgetDenied _ _)) \<Rightarrow> Inr (db, None)
               | Inl e \<Rightarrow> Inl e
               | Inr eligible \<Rightarrow>
                   if now < eligible then
                     andThen (save_run db (p\<lparr>pr_next_attempt_at := Some eligible\<rparr>)) (\<lambda>db. Inr (db, None))
                   else (case max_run_polls (budget config) of
                       None \<Rightarrow> Inr (db, None)
                     | Some c \<Rightarrow>
                         if c \<le> int (pr_run_polls p) then Inr (db, None) else
                         andThen (interval_of (usage_stable_interval_s config)) (\<lambda>interval.
                         andThen (date_add now interval) (\<lambda>next'.
                         andThen (save_run db (p\<lparr>pr_run_polls := pr_run_polls p + 1, pr_next_attempt_at := Some next'\<rparr>)) (\<lambda>db.
                         Inr (db, Some external))))))
          | _ \<Rightarrow> Inr (db, None))))"

section \<open>Operator builds\<close>

definition bind_build :: "ledger_db \<Rightarrow> int \<Rightarrow> string \<Rightarrow> instant \<Rightarrow> ledger_error + ledger_db \<times> bool" where
  "bind_build db k build_id now =
     (let b = strip build_id in
      andThen (raise_if (b = []) (LedgerRefused ''build_id_missing'')) (\<lambda>_.
      case reservation_by_id db k of
        None \<Rightarrow> Inl (LedgerRefused ''not_a_build'')
      | Some r \<Rightarrow>
          if rv_kind r \<noteq> Some BUILD then Inl (LedgerRefused ''not_a_build'')
          else (case rv_build_id r of
              Some b' \<Rightarrow> if b' = b then Inr (db, False) else Inl (LedgerRefused ''build_already_bound'')
            | None \<Rightarrow>
                andThen (raise_if (rv_status r \<notin> set open_statuses) (LedgerRefused ''not_open'')) (\<lambda>_.
                andThen (raise_if (\<exists>q \<in> set (reservations db). rv_build_id q = Some b)
                  (LedgerRefused ''build_bound_elsewhere'')) (\<lambda>_.
                andThen (save_columns db k (\<lambda>r. r\<lparr>rv_build_id := Some b, rv_next_usage_read_at := Some now\<rparr>)) (\<lambda>db.
                Inr (db, True)))))))"

definition select_build_settlement :: "ledger_db \<Rightarrow> instant \<Rightarrow> int list" where
  "select_build_settlement db now =
     map rv_id (filter (\<lambda>r. rv_kind r = Some BUILD \<and> rv_build_id r \<noteq> None \<and> rv_status r \<in> set open_statuses
       \<and> opt_all (\<lambda>t. t \<le> now) (rv_next_usage_read_at r)) (reservations db))"

definition plan_build_read ::
  "ledger_db \<Rightarrow> int \<Rightarrow> instant \<Rightarrow> ledger_config \<Rightarrow> ledger_error + ledger_db \<times> string option" where
  "plan_build_read db k now config =
     andThen (lock_by_reservation db k) (\<lambda>(r, _).
     if rv_status r \<notin> set open_statuses \<or> rv_build_id r = None then Inr (db, None) else
     andThen (try_settle db r None now config) (\<lambda>(db, done').
     if done' then Inr (db, None) else
     (case max_run_polls (budget config) of
        None \<Rightarrow> Inr (db, None)
      | Some c \<Rightarrow>
          if c \<le> int (rv_run_polls r) then Inr (db, None) else
          andThen (interval_of (usage_stable_interval_s config)) (\<lambda>interval.
          andThen (date_add now interval) (\<lambda>next'.
          andThen (save_columns db k (\<lambda>q. q\<lparr>rv_run_polls := rv_run_polls r + 1, rv_next_usage_read_at := Some next'\<rparr>)) (\<lambda>db.
          Inr (db, rv_build_id r)))))))"

definition record_build_usage ::
  "ledger_db \<Rightarrow> int \<Rightarrow> api_record \<Rightarrow> instant \<Rightarrow> ledger_config \<Rightarrow> ledger_error + ledger_db \<times> bool" where
  "record_build_usage db k a read_at config =
     andThen (lock_by_reservation db k) (\<lambda>(r, _).
     andThen (latch_on_components a None config read_at db) (\<lambda>db.
     if rv_status r \<notin> set open_statuses then Inr (db, False) else
     andThen (append_read db r None read_at (ap_total a) (ap_usage_usd a)
       (if ap_status a \<in> set TERMINAL_RUN_STATUSES then ap_finished_at a else None) config) (\<lambda>(db, _).
     andThen (mark_provisional db r (ap_total a)) (\<lambda>(db, r).
     try_settle db r None read_at config))))"

section \<open>Releasing a reservation that never got a run\<close>

definition UNATTACHED_RESERVATION :: string where "UNATTACHED_RESERVATION = ''unattached_reservation''"

definition releasable :: "instant \<Rightarrow> reservation \<Rightarrow> bool" where
  "releasable before r \<longleftrightarrow> rv_status r = RESERVED \<and> rv_run r = None \<and> rv_class r \<in> {WATCH_REFRESH, DISCOVERY}
     \<and> rv_reserved_at r \<le> before"

definition released_row :: "reservation \<Rightarrow> reservation" where
  "released_row r = r\<lparr>rv_status := RELEASED, rv_actual := Some 0, rv_reason := UNATTACHED_RESERVATION\<rparr>"

fun release_each :: "ledger_db \<Rightarrow> reservation list \<Rightarrow> ledger_error + ledger_db" where
  "release_each db [] = Inr db"
| "release_each db (r # rs) = andThen (save_columns db (rv_id r) released_row) (\<lambda>db. release_each db rs)"

definition release_unattached_reservations ::
  "ledger_db \<Rightarrow> instant \<Rightarrow> int option \<Rightarrow> ledger_error + ledger_db \<times> int list" where
  "release_unattached_reservations db now grace_s =
     (case grace_s of
        None \<Rightarrow> Inr (db, [])
      | Some g \<Rightarrow>
          if g < 0 then Inr (db, []) else
          andThen (seconds_of (Some g) []) (\<lambda>d.
          andThen (date_add now (- d)) (\<lambda>before.
          let rs = filter (releasable before) (reservations db) in
          andThen (release_each db rs) (\<lambda>db. Inr (db, map rv_id rs)))))"

section \<open>Inspection and probe envelopes\<close>

definition settle_operator ::
  "ledger_db \<Rightarrow> int \<Rightarrow> instant \<Rightarrow> string option \<Rightarrow> bool \<Rightarrow> ledger_error + ledger_db" where
  "settle_operator db k now probe_dataset_id probe_deletion_verified =
     (case reservation_by_id db k of
        None \<Rightarrow> Inl (LedgerRefused ''not_operator'')
      | Some r \<Rightarrow>
          if rv_class r \<noteq> OPERATOR then Inl (LedgerRefused ''not_operator'')
          else if rv_kind r = Some BUILD then Inl (LedgerRefused ''build_needs_build_id'')
          else if rv_status r \<notin> set open_statuses then Inl (LedgerRefused ''not_open'')
          else
            (let dataset = strip (case probe_dataset_id of None \<Rightarrow> [] | Some d \<Rightarrow> d) in
             if rv_kind r = Some PROBE \<and> (dataset = [] \<or> \<not> probe_deletion_verified)
             then Inl (LedgerRefused ''probe_evidence_missing'')
             else
               (let r = (if rv_kind r = Some PROBE then r\<lparr>rv_probe_dataset := Some dataset\<rparr> else r);
                    bound = amount (rv_estimate r) in
                save_reservation db (r\<lparr>rv_settled_usage := Some bound, rv_post_run_cost := Some 0,
                  rv_cost_mode := Some COST_BOUND, rv_basis := Some BASIS_BOUND, rv_actual := Some bound,
                  rv_reconciled_at := Some now, rv_last_charge_at := Some now, rv_status := RECONCILED\<rparr>))))"

end
