(* ===== verification/Monitoring.thy ===== *)
theory Monitoring
  imports SettleOps
begin

text \<open>
  Correction monitoring (\<open>acquisition/apify/reconcile.py\<close>, selector 4): a counted re-read of a settled
  figure, the upward correction it applies, the re-check of every touched cycle, and the closing read.
\<close>

section \<open>Selecting and starting a read\<close>

definition correction_count :: "reservation \<Rightarrow> provider_run option \<Rightarrow> nat" where
  "correction_count r run = (case run of Some p \<Rightarrow> pr_correction_reads p | None \<Rightarrow> rv_correction_reads r)"

definition attached_run :: "ledger_db \<Rightarrow> reservation \<Rightarrow> provider_run option" where
  "attached_run db r = (case rv_run r of None \<Rightarrow> None | Some k \<Rightarrow> run_by_id db k)"

definition reads_left :: "ledger_config \<Rightarrow> nat \<Rightarrow> bool" where
  "reads_left config n = (case max_correction_reads (budget config) of None \<Rightarrow> False | Some c \<Rightarrow> int n < c)"

definition select_monitoring :: "ledger_db \<Rightarrow> instant \<Rightarrow> ledger_config \<Rightarrow> int list" where
  "select_monitoring db now config =
     map rv_id (filter (\<lambda>r. rv_status r = RECONCILED \<and> rv_monitor_until r \<noteq> None \<and> rv_monitor_closed_at r = None
         \<and> rv_monitoring_call_pending_since r = None
         \<and> (case rv_next_usage_read_at r of None \<Rightarrow> False | Some t \<Rightarrow> t \<le> now)
         \<and> ((case attached_run db r of None \<Rightarrow> False | Some p \<Rightarrow> pr_external_id p \<noteq> None) \<or> rv_build_id r \<noteq> None)
         \<and> reads_left config (correction_count r (attached_run db r))) (reservations db))"

datatype monitor_kind = MonitorRun | MonitorBuild

record monitor_call =
  mc_reservation :: int
  mc_kind :: monitor_kind
  mc_remote_id :: string

definition begin_monitoring_read ::
  "ledger_db \<Rightarrow> int \<Rightarrow> instant \<Rightarrow> ledger_config \<Rightarrow> ledger_error + ledger_db \<times> monitor_call option" where
  "begin_monitoring_read db k now config =
     andThen (lock_by_reservation db k) (\<lambda>(r, run).
     if rv_status r \<noteq> RECONCILED \<or> rv_monitor_until r = None \<or> rv_monitor_closed_at r \<noteq> None
        \<or> rv_monitoring_call_pending_since r \<noteq> None \<or> \<not> reads_left config (correction_count r run)
     then Inr (db, None)
     else
       (let mark = (\<lambda>n q. q\<lparr>rv_correction_reads := n, rv_monitoring_call_pending_since := Some now,
              rv_monitoring_charge_last_at := Some now\<rparr>) in
        case run of
          Some p \<Rightarrow>
            (case pr_external_id p of
               None \<Rightarrow> Inr (db, None)
             | Some external \<Rightarrow>
                 andThen (save_run db (p\<lparr>pr_correction_reads := pr_correction_reads p + 1\<rparr>)) (\<lambda>db.
                 andThen (save_columns db k (mark (rv_correction_reads r))) (\<lambda>db.
                 Inr (db, Some \<lparr>mc_reservation = k, mc_kind = MonitorRun, mc_remote_id = external\<rparr>))))
        | None \<Rightarrow>
            (case rv_build_id r of
               None \<Rightarrow> Inr (db, None)
             | Some b \<Rightarrow>
                 andThen (save_columns db k (mark (rv_correction_reads r + 1))) (\<lambda>db.
                 Inr (db, Some \<lparr>mc_reservation = k, mc_kind = MonitorBuild, mc_remote_id = b\<rparr>)))))"

section \<open>The re-check of the touched cycles\<close>

datatype breach = Unverifiable string | ClassCap instant | RuntimeAllocation instant
  | OperatorAllowance instant | CycleTarget instant | ExternalLiability instant

text \<open>Comparisons and sums with a setting that may be infinite or NaN; comparing with NaN signals.\<close>

fun below_dec :: "decimal \<Rightarrow> rat \<Rightarrow> budget_error + bool" where
  "below_dec (DFin v) x = Inr (v < x)"
| "below_dec DInf x = Inr False"
| "below_dec DNegInf x = Inr True"
| "below_dec DNaN x = Inl InvalidOperation"

fun rat_minus_dec :: "rat \<Rightarrow> decimal \<Rightarrow> decimal" where
  "rat_minus_dec a (DFin v) = DFin (dsub a v)"
| "rat_minus_dec a DInf = DNegInf"
| "rat_minus_dec a DNegInf = DInf"
| "rat_minus_dec a DNaN = DNaN"

fun exceeds_with :: "rat \<Rightarrow> decimal \<Rightarrow> rat \<Rightarrow> budget_error + bool" where
  "exceeds_with h (DFin v) u = Inr (u < dadd h v)"
| "exceeds_with h DInf u = Inr True"
| "exceeds_with h DNegInf u = Inr False"
| "exceeds_with h DNaN u = Inl InvalidOperation"

definition when_found :: "bool \<Rightarrow> breach \<Rightarrow> breach list" where
  "when_found c b = (if c then [b] else [])"

record breach_limits =
  bl_usable :: "rat option"
  bl_allocation :: rat
  bl_allowance :: rat
  bl_target :: rat
  bl_external :: decimal
  bl_reserve :: decimal

definition cycle_breaches :: "breach_limits \<Rightarrow> reservation \<Rightarrow> instant \<Rightarrow> cycle_debits \<Rightarrow> budget_error + breach list" where
  "cycle_breaches l r label d =
     (let runtime = dadd (runtime_committed_usd d) (carried_handoff_usd d);
          hr = dadd runtime (operator_committed_usd d) in
      andThen (if rv_class r = OPERATOR
          then Inr (when_found (bl_allowance l < operator_committed_usd d) (OperatorAllowance label))
          else andThen (if rv_class r = DISCOVERY then below_dec (rat_minus_dec (bl_allocation l) (bl_reserve l)) runtime
                 else Inr (bl_allocation l < runtime)) (\<lambda>over. Inr (when_found over (ClassCap label)))) (\<lambda>own.
      andThen (case bl_usable l of None \<Rightarrow> Inr False | Some u \<Rightarrow> exceeds_with hr (bl_external l) u) (\<lambda>account.
      Inr (own @ when_found (bl_allocation l < runtime) (RuntimeAllocation label)
        @ when_found (bl_allowance l < operator_committed_usd d) (OperatorAllowance label)
        @ when_found (bl_target l < hr) (CycleTarget label)
        @ when_found account (ExternalLiability label)))))"

fun breaches_of ::
  "ledger_db \<Rightarrow> ledger_config \<Rightarrow> breach_limits \<Rightarrow> reservation \<Rightarrow> budget_cycle list \<Rightarrow> ledger_error + breach list" where
  "breaches_of db config l r [] = Inr []"
| "breaches_of db config l r (c # cs) =
     andThen (cycle_debits_of db c config) (\<lambda>(d, _).
     andThen (lift_budget (cycle_breaches l r (cy_start c) d)) (\<lambda>bs.
     andThen (breaches_of db config l r cs) (\<lambda>rest. Inr (bs @ rest))))"

text \<open>The settings, under the \<open>try\<close>; \<open>_guard\<close> comes first.\<close>

definition read_limits :: "budget_settings \<Rightarrow> rat option \<Rightarrow> budget_error + breach_limits" where
  "read_limits cfg usable =
     andThen (project_allocation cfg) (\<lambda>allocation.
     case (operator_allowance_usd cfg, cycle_target_usd cfg, external_liability_usd cfg, watch_refresh_reserve_usd cfg) of
       (Some (DFin allowance), Some (DFin target), Some external, Some withheld) \<Rightarrow>
         Inr \<lparr>bl_usable = usable, bl_allocation = allocation, bl_allowance = allowance, bl_target = target,
           bl_external = external, bl_reserve = withheld\<rparr>
     | _ \<Rightarrow> Inl (BudgetDenied BUDGET_SETTING_INVALID ''a budget setting is unset''))"

definition usable_share :: "budget_settings \<Rightarrow> budget_error + rat" where
  "usable_share cfg =
     (case account_limit_usd cfg of
        Some (DFin limit) \<Rightarrow> andThen (account_margin_usd cfg limit) (\<lambda>m. Inr (dsub limit m))
      | _ \<Rightarrow> Inl AssertionError)"

text \<open>\<open>invariant_breaches\<close>, as a list in the order found; only whether it is empty is used.\<close>

definition invariant_breaches ::
  "ledger_db \<Rightarrow> reservation \<Rightarrow> ledger_config \<Rightarrow> pydatetime \<Rightarrow> ledger_error + breach list" where
  "invariant_breaches db r config now =
     (let cfg = budget config in
      case rv_last_charge_at r of
        None \<Rightarrow> Inl (Raised AssertionError)
      | Some last_charge \<Rightarrow>
          andThen (case account_setting_problem cfg now of
              Some (name, _) \<Rightarrow> Inr ([Unverifiable name], None)
            | None \<Rightarrow> andThen (lift_budget (usable_share cfg)) (\<lambda>u. Inr ([], Some u))) (\<lambda>(found, usable).
          case andThen (lift_guard config) (\<lambda>g. andThen (lift_budget (read_limits cfg usable)) (\<lambda>l. Inr (g, l))) of
            Inl (Raised (BudgetDenied _ detail)) \<Rightarrow> Inr (found @ [Unverifiable detail])
          | Inl e \<Rightarrow> Inl e
          | Inr (g, l) \<Rightarrow>
              andThen (date_add last_charge g) (\<lambda>upto.
              andThen (date_add (rv_reserved_at r) (- g)) (\<lambda>since.
              let touched = sort_key cy_start (filter (\<lambda>c. cy_start c \<le> upto \<and> since \<le> cy_end c) (cycles db)) in
              andThen (breaches_of db config l r touched) (\<lambda>bs. Inr (found @ bs))))))"

section \<open>Completing a read\<close>

text \<open>\<open>_apply_correction\<close>: raise, never lower, then re-check.\<close>

definition apply_correction ::
  "ledger_db \<Rightarrow> reservation \<Rightarrow> rat \<Rightarrow> pydatetime \<Rightarrow> ledger_config \<Rightarrow> int option \<Rightarrow> ledger_error + ledger_db \<times> reservation" where
  "apply_correction db r tot now config run_id =
     (let settled = amount (rv_settled_usage r) in
      andThen (money_up tot) (\<lambda>figure.
      if figure \<le> settled then Inr (db, r) else
      andThen (money_up (dadd (amount (rv_actual r)) (dsub figure settled))) (\<lambda>actual.
      let upd = (\<lambda>q. q\<lparr>rv_settled_usage := Some figure, rv_actual := Some actual\<rparr>) in
      andThen (save_columns db (rv_id r) upd) (\<lambda>db.
      let r = upd r; t = instant_of now in
      andThen (if amount (rv_estimate r) < actual then trip OVERRUN run_id config t db else Inr db) (\<lambda>db.
      andThen (invariant_breaches db r config now) (\<lambda>bs.
      andThen (if bs \<noteq> [] then trip POST_ADMISSION_INVARIANT_BREACH run_id config t db else Inr db) (\<lambda>db.
      Inr (db, r))))))))"

text \<open>\<open>_settle_monitoring_allowance\<close>.\<close>

definition settle_monitoring_allowance ::
  "reservation \<Rightarrow> provider_run option \<Rightarrow> ledger_config \<Rightarrow> ledger_error + reservation" where
  "settle_monitoring_allowance r run config =
     (if post_run_cost_mode config \<noteq> ''counted'' then Inr r
      else (case andThen (api_call_bound (budget config)) (\<lambda>call. usd (dmul (of_int (int (correction_count r run))) call)) of
          Inr counted \<Rightarrow> Inr (r\<lparr>rv_monitoring := Some (min (amount (rv_monitoring r)) counted)\<rparr>)
        | Inl (BudgetDenied _ _) \<Rightarrow> Inr r
        | Inl e \<Rightarrow> Inl (Raised e)))"

record monitor_result =
  mr_total :: "rat option"
  mr_usage_usd :: "figures option"
  mr_usage :: "figures option"
  mr_unparseable :: "string list"
  mr_finished_at :: "instant option"
  mr_over_cap :: bool

definition latch_on_result ::
  "monitor_result option \<Rightarrow> int option \<Rightarrow> ledger_config \<Rightarrow> instant \<Rightarrow> ledger_db \<Rightarrow> ledger_error + ledger_db" where
  "latch_on_result result run_id config t db =
     (case result of
        None \<Rightarrow> Inr db
      | Some m \<Rightarrow>
          if mr_over_cap m then trip API_RESPONSE_OVER_CAP run_id config t db
          else if unexpected_components (mr_usage_usd m) (mr_usage m) (mr_unparseable m) \<noteq> []
            then trip UNEXPECTED_USAGE_COMPONENT run_id config t db
          else Inr db)"

text \<open>A successful read: appended, its correction applied, and closing at or after the deadline.\<close>

definition apply_read ::
  "ledger_db \<Rightarrow> reservation \<Rightarrow> provider_run option \<Rightarrow> monitor_result \<Rightarrow> rat \<Rightarrow> pydatetime \<Rightarrow> ledger_config
     \<Rightarrow> ledger_error + ledger_db \<times> reservation \<times> bool" where
  "apply_read db r run m tot now config =
     (let t = instant_of now; run_id = map_option pr_id run in
      andThen (append_read db r run_id t (Some tot) (mr_usage_usd m) (mr_finished_at m) config) (\<lambda>(db, read_id).
      andThen (apply_correction db r tot now config run_id) (\<lambda>(db, r).
      case rv_monitor_until r of
        None \<Rightarrow> Inl (Raised AssertionError)
      | Some until \<Rightarrow>
          if until \<le> t then
            andThen (settle_monitoring_allowance (r\<lparr>rv_monitor_closed_at := Some t, rv_closing_read := Some read_id\<rparr>) run config) (\<lambda>r.
            Inr (db, r, True))
          else Inr (db, r, False))))"

definition complete_monitoring_read ::
  "ledger_db \<Rightarrow> int \<Rightarrow> monitor_result option \<Rightarrow> pydatetime \<Rightarrow> ledger_config \<Rightarrow> ledger_error + ledger_db \<times> bool" where
  "complete_monitoring_read db k result now config =
     andThen (lock_by_reservation db k) (\<lambda>(r, run).
     let t = instant_of now; run_id = map_option pr_id run;
         r = r\<lparr>rv_monitoring_call_pending_since := None, rv_monitoring_charge_last_at := Some t\<rparr> in
     andThen (latch_on_result result run_id config t db) (\<lambda>db.
     andThen (case result of
         None \<Rightarrow> Inr (db, r, False)
       | Some m \<Rightarrow> (case mr_total m of
           None \<Rightarrow> Inr (db, r, False)
         | Some tot \<Rightarrow> if mr_over_cap m then Inr (db, r, False) else apply_read db r run m tot now config)) (\<lambda>(db, r, closed).
     andThen (if closed then Inr r
       else andThen (next_read_at r t config) (\<lambda>n. Inr (r\<lparr>rv_next_usage_read_at := Some n\<rparr>))) (\<lambda>r.
     andThen (save_reservation db r) (\<lambda>db. Inr (db, closed))))))"

section \<open>Markers a previous process left, and the report states\<close>

definition stale_marker :: "instant \<Rightarrow> reservation \<Rightarrow> bool" where
  "stale_marker started r = (case rv_monitoring_call_pending_since r of None \<Rightarrow> False | Some t \<Rightarrow> t < started)"

definition resolve_stale_monitoring_markers :: "ledger_db \<Rightarrow> instant \<Rightarrow> ledger_db \<times> nat" where
  "resolve_stale_monitoring_markers db started =
     (db\<lparr>reservations := map (\<lambda>r. if stale_marker started r then
           r\<lparr>rv_monitoring_call_pending_since := None,
             rv_monitoring_charge_last_at := Some (case rv_monitoring_charge_last_at r of
                 None \<Rightarrow> started | Some t \<Rightarrow> max t started)\<rparr>
         else r) (reservations db)\<rparr>,
      length (filter (stale_marker started) (reservations db)))"

definition is_unreconciled_stale :: "ledger_db \<Rightarrow> reservation \<Rightarrow> instant \<Rightarrow> bool" where
  "is_unreconciled_stale db r now =
     (rv_status r \<in> set open_statuses
      \<and> (case latest_cycle (filter (\<lambda>c. cy_start c \<le> rv_reserved_at r \<and> rv_reserved_at r \<le> cy_end c) (cycles db)) of
           None \<Rightarrow> False | Some c \<Rightarrow> cy_end c < now))"

definition correction_close_overdue :: "ledger_db \<Rightarrow> reservation \<Rightarrow> instant \<Rightarrow> ledger_config \<Rightarrow> bool" where
  "correction_close_overdue db r now config =
     (rv_status r = RECONCILED \<and> rv_monitor_closed_at r = None
      \<and> (case rv_monitor_until r of None \<Rightarrow> False
         | Some until \<Rightarrow> until < now \<or> \<not> reads_left config (correction_count r (attached_run db r))))"

end
