(* ===== verification/SettlementSafety.thy ===== *)
theory SettlementSafety
  imports Monitoring
begin

text \<open>
  What settlement guarantees: a row settles only once its work is over and a read (or the deadline)
  allows it, never below what was observed, never at more than its estimate without tripping the
  latch; settlement keeps the ledger's invariant and never raises what a cycle owes.
\<close>

section \<open>Saves\<close>

lemma first_such_replace:
  assumes "key y = k"
  shows "first_such (\<lambda>x. key x = k) (replace_by key y xs) = (if \<exists>x \<in> set xs. key x = k then Some y else None)"
  using assms by (induction xs) (auto simp: replace_by_def)

lemma first_such_replace_other:
  assumes "key y \<noteq> k"
  shows "first_such (\<lambda>x. key x = k) (replace_by key y xs) = first_such (\<lambda>x. key x = k) xs"
  using assms by (induction xs) (auto simp: replace_by_def)

lemma set_replace_by: "set (replace_by key y xs) \<subseteq> insert y (set xs)"
  by (auto simp: replace_by_def)

lemma map_key_replace_by [simp]: "map key (replace_by key y xs) = map key xs"
  by (induction xs) (auto simp: replace_by_def)

lemma length_replace_by [simp]: "length (replace_by key y xs) = length xs"
  by (simp add: replace_by_def)

lemma save_reservation_eq_Inr:
  "save_reservation db r = Inr db' \<longleftrightarrow> reservation_fits r \<and> opt_all (\<lambda>s. length s \<le> 100) (rv_build_id r)
     \<and> opt_all (\<lambda>s. length s \<le> 100) (rv_probe_dataset r) \<and> reservation_checks r \<and> reservation_unique db r
     \<and> db' = db\<lparr>reservations := replace_by rv_id r (reservations db)\<rparr>"
  by (auto simp: save_reservation_def andThen_eq_Inr)

lemma save_columns_eq_Inr:
  "save_columns db k f = Inr db' \<longleftrightarrow> (\<exists>r. reservation_by_id db k = Some r \<and> save_reservation db (f r) = Inr db')"
  by (auto simp: save_columns_def andThen_eq_Inr get_row_eq_Inr)

lemma save_run_eq_Inr:
  "save_run db p = Inr db' \<longleftrightarrow> run_checks db p \<and> db' = db\<lparr>runs := replace_by pr_id p (runs db)\<rparr>"
  by (auto simp: save_run_def andThen_eq_Inr)

lemma reservation_by_id_Some: "reservation_by_id db k = Some r \<Longrightarrow> r \<in> set (reservations db) \<and> rv_id r = k"
  by (auto simp: reservation_by_id_def dest!: first_such_Some)

lemma run_by_id_Some: "run_by_id db k = Some p \<Longrightarrow> p \<in> set (runs db) \<and> pr_id p = k"
  by (auto simp: run_by_id_def dest!: first_such_Some)

lemma saved_reservation:
  assumes "save_reservation db r = Inr db'" and "reservation_by_id db (rv_id r) = Some q"
  shows "reservation_by_id db' (rv_id r) = Some r"
  using assms by (auto simp: save_reservation_eq_Inr reservation_by_id_def first_such_replace dest!: first_such_Some)

text \<open>The tables a save of a reservation, a trip, or an appended read leaves alone.\<close>

lemma trip_effect:
  assumes "trip reason run config now db = Inr db'"
  shows "\<exists>new. db' = db\<lparr>trips := trips db @ new\<rparr>" and "\<exists>t \<in> set (trips db'). trip_open t \<and> la_reason t = reason \<and> la_run t = run"
proof -
  obtain created where t: "trip_latch_locked reason run (estimator_version (budget config)) now db = Inr (db', created)"
    using assms by (auto simp: trip_def andThen_eq_Inr)
  from t show "\<exists>new. db' = db\<lparr>trips := trips db @ new\<rparr>"
    by (cases rule: trip_latch_locked_cases) (auto intro: exI [of _ "[]"])
  from t show "\<exists>t \<in> set (trips db'). trip_open t \<and> la_reason t = reason \<and> la_run t = run"
    by (cases rule: trip_latch_locked_cases) auto
qed

lemma trip_if_effect:
  assumes "(if c then trip reason run config now db else Inr db) = Inr db'"
  shows "\<exists>new. db' = db\<lparr>trips := trips db @ new\<rparr>"
proof (cases c)
  case True
  then show ?thesis using assms trip_effect(1) by simp
next
  case False
  then have "db' = db\<lparr>trips := trips db @ []\<rparr>" using assms by simp
  then show ?thesis by blast
qed

lemma latch_on_components_effect:
  assumes "latch_on_components a run config now db = Inr db'"
  shows "\<exists>new. db' = db\<lparr>trips := trips db @ new\<rparr>"
  using assms unfolding latch_on_components_def by (rule trip_if_effect)

lemma append_read_effect:
  assumes "append_read db r run t tot u f config = Inr (db', k)"
  shows "\<exists>row. db' = db\<lparr>reads := reads db @ [row], next_id := next_id db + 1\<rparr> \<and> k = next_id db
     \<and> ur_id row = k \<and> ur_reservation row = rv_id r \<and> ur_run row = run \<and> ur_read_at row = t
     \<and> ur_total row = map_option to_numeric_8 tot \<and> ur_finished_at row = f"
  using assms by (auto simp: append_read_def Let_def andThen_eq_Inr)

section \<open>Settlement, taken apart\<close>

lemma settled_rowE:
  assumes "settled_row r run now anchor window figure basis fin config = Inr r'"
  obtains post mode run_usage actual r0 t where
    "post_run_cost r run config = Inr (post, mode)" and "record_finalized r fin now = Inr r0"
    and "money_up figure = Inr run_usage" and "money_up (dadd run_usage post) = Inr actual"
    and "in_datetime_range (last_charge_of run anchor now + window)"
    and "r' = (reconciled_row r0 run_usage post mode basis actual now (last_charge_of run anchor now)
           (last_charge_of run anchor now + window))\<lparr>rv_next_usage_read_at := Some t\<rparr>"
proof -
  from assms [unfolded settled_row_def Let_def] obtain pm where 1: "post_run_cost r run config = Inr pm"
    and k1: "(case pm of (post, mode) \<Rightarrow> andThen (record_finalized r fin now) (\<lambda>r.
     andThen (money_up figure) (\<lambda>run_usage. andThen (money_up (dadd run_usage post)) (\<lambda>actual.
     andThen (date_add (last_charge_of run anchor now) window) (\<lambda>until.
     andThen (next_read_at (reconciled_row r run_usage post mode basis actual now (last_charge_of run anchor now) until) now config)
       (\<lambda>t. Inr ((reconciled_row r run_usage post mode basis actual now (last_charge_of run anchor now) until)\<lparr>rv_next_usage_read_at := Some t\<rparr>))))))) = Inr r'"
    by (rule andThen_InrE)
  obtain post mode where pm: "pm = (post, mode)" by (cases pm)
  note k1 [unfolded pm prod.case]
  then obtain r0 run_usage actual until t where 2: "record_finalized r fin now = Inr r0" "money_up figure = Inr run_usage"
    "money_up (dadd run_usage post) = Inr actual" "date_add (last_charge_of run anchor now) window = Inr until"
    and r': "(reconciled_row r0 run_usage post mode basis actual now (last_charge_of run anchor now) until)\<lparr>rv_next_usage_read_at := Some t\<rparr> = r'"
    by (elim andThen_InrE) (rule that, assumption+, simp only: sum.inject)
  have "in_datetime_range (last_charge_of run anchor now + window)" "until = last_charge_of run anchor now + window"
    using 2(4) by (simp_all add: date_add_def split: if_splits)
  then show thesis by (intro that [OF 1 [unfolded pm] 2(1,2,3)]) (simp_all add: r' [symmetric])
qed

lemma record_finalized_cases:
  assumes "record_finalized r fin now = Inr r0"
  obtains (kept) "r0 = r" | (written) u f where "fin = Some u" and "rv_usage_finalized r = None"
      and "money_up (amount (ur_total u)) = Inr f"
      and "r0 = r\<lparr>rv_usage_finalized := Some f, rv_usage_finalized_at := Some now\<rparr>"
proof (cases "\<exists>u. fin = Some u \<and> rv_usage_finalized r = None")
  case True
  then obtain u where u: "fin = Some u" "rv_usage_finalized r = None" by blast
  have "andThen (money_up (amount (ur_total u))) (\<lambda>f.
      Inr (r\<lparr>rv_usage_finalized := Some f, rv_usage_finalized_at := Some now\<rparr>)) = Inr r0"
    using assms u by (simp add: record_finalized_def)
  then obtain f where "money_up (amount (ur_total u)) = Inr f"
    "(Inr (r\<lparr>rv_usage_finalized := Some f, rv_usage_finalized_at := Some now\<rparr>) :: ledger_error + _) = Inr r0"
    by (rule andThen_InrE)
  then show thesis using written [OF u] by (simp only: sum.inject)
next
  case False
  then have "Inr r = (Inr r0 :: ledger_error + _)" using assms unfolding record_finalized_def by (cases fin) (simp_all only: option.case option.inject simp_thms if_False split: if_splits)
  then show thesis using kept by (simp only: sum.inject)
qed

lemma save_settled_eq_Inr:
  "save_settled db r run now config = Inr db' \<longleftrightarrow> (\<exists>db1. save_reservation db r = Inr db1
     \<and> (if amount (rv_estimate r) < amount (rv_actual r)
         then trip OVERRUN (map_option pr_id run) config now db1 else Inr db1) = Inr db')"
  unfolding save_settled_def andThen_eq_Inr ..

lemma settle_when_dueE:
  assumes "settle_when_due db r run now config anchor clocks = Inr (db', b)"
  obtains (not_yet) "\<not> b" and "db' = db"
  | (settled) eligible deadline window figure basis fin r' where "b" and "clocks = (eligible, deadline, window)"
    and "settlement_figure config (amount (rv_execution r)) (sort_key ur_read_at (reads_of db r))
       (filter (\<lambda>u. eligible \<le> ur_read_at u) (sort_key ur_read_at (reads_of db r)))
       (deadline \<le> now \<or> polls_spent r run config) = Inr (Some (figure, basis, fin))"
    and "settled_row r run now anchor window figure basis fin config = Inr r'"
    and "save_settled db r' run now config = Inr db'"
proof -
  obtain eligible deadline window where c: "clocks = (eligible, deadline, window)" by (cases clocks)
  from assms [unfolded settle_when_due_def Let_def c prod.case] obtain fig where
    f: "settlement_figure config (amount (rv_execution r)) (sort_key ur_read_at (reads_of db r))
       (filter (\<lambda>u. eligible \<le> ur_read_at u) (sort_key ur_read_at (reads_of db r)))
       (deadline \<le> now \<or> polls_spent r run config) = Inr fig"
    and k: "(case fig of None \<Rightarrow> Inr (db, False) | Some (figure, basis, fin) \<Rightarrow>
          andThen (settled_row r run now anchor window figure basis fin config) (\<lambda>r'.
          andThen (save_settled db r' run now config) (\<lambda>db. Inr (db, True)))) = Inr (db', b)"
    by (rule andThen_InrE)
  show thesis
  proof (cases fig)
    case None
    then show thesis using k not_yet by simp
  next
    case (Some x)
    obtain figure basis fin where x: "x = (figure, basis, fin)" by (cases x)
    from k [unfolded Some x option.case prod.case] obtain r' db1 where
      "settled_row r run now anchor window figure basis fin config = Inr r'" "save_settled db r' run now config = Inr db1"
      "(Inr (db1, True) :: ledger_error + _) = Inr (db', b)"
      by (elim andThen_InrE) (rule that, assumption+)
    then show thesis using settled [OF _ c f [unfolded Some x]] by simp
  qed
qed

lemma try_settleE:
  assumes "try_settle db r run now config = Inr (db', b)"
  obtains (not_yet) "\<not> b" and "db' = db"
  | (settled) anchor eligible deadline window figure basis fin r' where "b" and "may_settle r run"
    and "anchor_of db r run = Some anchor" and "settle_clocks anchor config = Inr (eligible, deadline, window)"
    and "settlement_figure config (amount (rv_execution r)) (sort_key ur_read_at (reads_of db r))
       (filter (\<lambda>u. eligible \<le> ur_read_at u) (sort_key ur_read_at (reads_of db r)))
       (deadline \<le> now \<or> polls_spent r run config) = Inr (Some (figure, basis, fin))"
    and "settled_row r run now anchor window figure basis fin config = Inr r'"
    and "save_settled db r' run now config = Inr db'"
proof (cases "may_settle r run \<and> anchor_of db r run \<noteq> None \<and> (\<exists>c. settle_clocks (the (anchor_of db r run)) config = Inr c)")
  case True
  then obtain anchor c where m: "may_settle r run" "anchor_of db r run = Some anchor" "settle_clocks anchor config = Inr c" by auto
  have "settle_when_due db r run now config anchor c = Inr (db', b)" using assms m by (simp add: try_settle_def)
  then show thesis
  proof (cases rule: settle_when_dueE)
    case not_yet
    then show thesis using that(1) by blast
  next
    case (settled eligible deadline window figure basis fin r')
    show thesis by (rule that(2) [OF settled(1) m(1,2) _ settled(3-5)]) (use m(3) settled(2) in simp)
  qed
next
  case False
  then have "\<not> b \<and> db' = db" using assms
    by (auto simp: try_settle_def split: if_splits option.splits sum.splits ledger_error.splits budget_error.splits)
  then show thesis using that(1) by blast
qed

section \<open>The figures of a settled row\<close>

lemma foldl_max_ge: "(x::'a::linorder) \<le> foldl max x xs" "y \<in> set xs \<Longrightarrow> y \<le> foldl max x xs"
proof (induction xs arbitrary: x)
  case (Cons z zs)
  { case 1 show ?case using Cons.IH(1) [of "max x z"] by simp }
  { case 2 then show ?case using Cons.IH(1) [of "max x z"] Cons.IH(2) [of "max x z"] by auto }
qed simp_all

lemma max_of_ge: "max_of xs = Some m \<Longrightarrow> (y::'a::linorder) \<in> set xs \<Longrightarrow> y \<le> m"
  by (cases xs) (auto intro: foldl_max_ge)

lemma set_map_filter: "y \<in> set (List.map_filter f xs) \<longleftrightarrow> (\<exists>x \<in> set xs. f x = Some y)"
  by (induction xs) (auto simp: List.map_filter_simps split: option.splits)

lemma money_up_eq_Inr: "money_up x = Inr y \<longleftrightarrow> usd x = Inr y"
  by (simp add: money_up_def lift_budget_eq_Inr)

lemma reconciled_row_simps [simp]:
  "rv_id (reconciled_row r u p m b a t c w) = rv_id r" "rv_run (reconciled_row r u p m b a t c w) = rv_run r"
  "rv_class (reconciled_row r u p m b a t c w) = rv_class r" "rv_kind (reconciled_row r u p m b a t c w) = rv_kind r"
  "rv_status (reconciled_row r u p m b a t c w) = RECONCILED" "rv_estimate (reconciled_row r u p m b a t c w) = rv_estimate r"
  "rv_execution (reconciled_row r u p m b a t c w) = rv_execution r"
  "rv_monitoring (reconciled_row r u p m b a t c w) = rv_monitoring r"
  "rv_settled_usage (reconciled_row r u p m b a t c w) = Some u" "rv_post_run_cost (reconciled_row r u p m b a t c w) = Some p"
  "rv_basis (reconciled_row r u p m b a t c w) = Some b" "rv_actual (reconciled_row r u p m b a t c w) = Some a"
  "rv_reserved_at (reconciled_row r u p m b a t c w) = rv_reserved_at r"
  "rv_reconciled_at (reconciled_row r u p m b a t c w) = Some t" "rv_last_charge_at (reconciled_row r u p m b a t c w) = Some c"
  "rv_monitor_until (reconciled_row r u p m b a t c w) = Some w"
  "rv_monitor_closed_at (reconciled_row r u p m b a t c w) = rv_monitor_closed_at r"
  "rv_monitoring_call_pending_since (reconciled_row r u p m b a t c w) = rv_monitoring_call_pending_since r"
  "rv_monitoring_charge_last_at (reconciled_row r u p m b a t c w) = rv_monitoring_charge_last_at r"
  "rv_correction_reads (reconciled_row r u p m b a t c w) = rv_correction_reads r"
  "rv_post_run (reconciled_row r u p m b a t c w) = rv_post_run r"
  "rv_usage_provisional (reconciled_row r u p m b a t c w) = rv_usage_provisional r"
  "rv_usage_finalized (reconciled_row r u p m b a t c w) = rv_usage_finalized r"
  "rv_usage_finalized_at (reconciled_row r u p m b a t c w) = rv_usage_finalized_at r"
  by (simp_all add: reconciled_row_def)

text \<open>What \<open>settled_row\<close> leaves of the row, and the figures it writes.\<close>

lemma settled_row_fields:
  assumes "settled_row r run now anchor window figure basis fin config = Inr r'"
  shows "rv_id r' = rv_id r" "rv_run r' = rv_run r" "rv_class r' = rv_class r" "rv_estimate r' = rv_estimate r"
    "rv_monitoring r' = rv_monitoring r" "rv_reserved_at r' = rv_reserved_at r" "rv_status r' = RECONCILED"
    "rv_reconciled_at r' = Some now" "rv_last_charge_at r' = Some (last_charge_of run anchor now)"
    "rv_basis r' = Some basis" "rv_kind r' = rv_kind r" "rv_monitor_until r' = Some (last_charge_of run anchor now + window)"
    "rv_monitoring_call_pending_since r' = rv_monitoring_call_pending_since r"
    "rv_monitor_closed_at r' = rv_monitor_closed_at r" "rv_correction_reads r' = rv_correction_reads r"
    "rv_monitoring_charge_last_at r' = rv_monitoring_charge_last_at r"
    "\<exists>u post mode a. post_run_cost r run config = Inr (post, mode) \<and> usd figure = Inr u \<and> usd (dadd u post) = Inr a
       \<and> rv_settled_usage r' = Some u \<and> rv_post_run_cost r' = Some post \<and> rv_actual r' = Some a"
    "rv_usage_provisional r' = rv_usage_provisional r" "rv_execution r' = rv_execution r" "rv_post_run r' = rv_post_run r"
    "rv_usage_finalized r' = rv_usage_finalized r \<or> (\<exists>f. rv_usage_finalized r' = Some f \<and> on_grid 4 f)"
proof -
  obtain post mode u a r0 t where p: "post_run_cost r run config = Inr (post, mode)" and r0: "record_finalized r fin now = Inr r0"
    and u: "money_up figure = Inr u" and a: "money_up (dadd u post) = Inr a"
    and r': "r' = (reconciled_row r0 u post mode basis a now (last_charge_of run anchor now)
           (last_charge_of run anchor now + window))\<lparr>rv_next_usage_read_at := Some t\<rparr>"
    by (rule settled_rowE [OF assms]) (rule that, assumption+)
  show "\<exists>u post mode a. post_run_cost r run config = Inr (post, mode) \<and> usd figure = Inr u \<and> usd (dadd u post) = Inr a
       \<and> rv_settled_usage r' = Some u \<and> rv_post_run_cost r' = Some post \<and> rv_actual r' = Some a"
    using p u a by (simp add: r' money_up_eq_Inr)
  from r0 show "rv_usage_finalized r' = rv_usage_finalized r \<or> (\<exists>f. rv_usage_finalized r' = Some f \<and> on_grid 4 f)"
    by (cases rule: record_finalized_cases) (auto simp: r' money_up_eq_Inr dest: usd_on_grid)
  from r0 show "rv_id r' = rv_id r" "rv_run r' = rv_run r" "rv_class r' = rv_class r" "rv_estimate r' = rv_estimate r"
    "rv_monitoring r' = rv_monitoring r" "rv_reserved_at r' = rv_reserved_at r" "rv_status r' = RECONCILED"
    "rv_reconciled_at r' = Some now" "rv_last_charge_at r' = Some (last_charge_of run anchor now)"
    "rv_basis r' = Some basis" "rv_kind r' = rv_kind r" "rv_monitor_until r' = Some (last_charge_of run anchor now + window)"
    "rv_monitoring_call_pending_since r' = rv_monitoring_call_pending_since r"
    "rv_monitor_closed_at r' = rv_monitor_closed_at r" "rv_correction_reads r' = rv_correction_reads r"
    "rv_monitoring_charge_last_at r' = rv_monitoring_charge_last_at r"
    "rv_usage_provisional r' = rv_usage_provisional r" "rv_execution r' = rv_execution r" "rv_post_run r' = rv_post_run r"
    by (cases rule: record_finalized_cases; simp add: r')+
qed

lemma save_settled_row:
  assumes "save_settled db r run now config = Inr db'" and "reservation_by_id db (rv_id r) = Some q"
  shows "reservation_by_id db' (rv_id r) = Some r" and "reads db' = reads db"
    and "amount (rv_estimate r) < amount (rv_actual r) \<Longrightarrow> latch_tripped db'"
proof -
  obtain db1 where s: "save_reservation db r = Inr db1"
    and t: "(if amount (rv_estimate r) < amount (rv_actual r)
         then trip OVERRUN (map_option pr_id run) config now db1 else Inr db1) = Inr db'"
    using assms(1) by (auto simp: save_settled_eq_Inr)
  obtain new where new: "db' = db1\<lparr>trips := trips db1 @ new\<rparr>" using trip_if_effect [OF t] by blast
  show "reservation_by_id db' (rv_id r) = Some r"
    using saved_reservation [OF s assms(2)] by (simp add: new reservation_by_id_def)
  show "reads db' = reads db" using s by (auto simp: new save_reservation_eq_Inr)
  show "latch_tripped db'" if "amount (rv_estimate r) < amount (rv_actual r)"
    using t that trip_effect(2) by (fastforce simp: latch_tripped_def)
qed

lemma stable_read_total:
  assumes "stable_read us config = Inr (Some u)"
  shows "u \<in> set us \<and> ur_total u \<noteq> None"
proof -
  obtain wanted interval where w: "usage_stable_reads config = Some wanted" "usage_stable_interval_s config = Some interval"
    "1 \<le> wanted" using assms by (auto simp: stable_read_def split: option.splits if_splits)
  let ?tail = "drop (length us - nat wanted) us"
  have all: "list_all (\<lambda>u. ur_total u \<noteq> None) ?tail" "?tail \<noteq> []" and u: "u = last ?tail"
    using assms w
    by (auto simp: stable_read_def Let_def andThen_eq_Inr split: if_splits list.splits)
  have "u \<in> set ?tail" unfolding u using all(2) by (rule last_in_set)
  then show ?thesis using all(1) by (auto simp: list_all_iff dest: in_set_dropD)
qed

lemma settlement_figure_covers:
  assumes "settlement_figure config execution us eligible late = Inr (Some (figure, basis, fin))"
  shows "basis \<noteq> STABLE_READS \<Longrightarrow> execution \<le> figure"
    and "basis \<noteq> STABLE_READS \<Longrightarrow> u \<in> set us \<Longrightarrow> ur_total u = Some x \<Longrightarrow> x \<le> figure"
    and "basis = STABLE_READS \<Longrightarrow> u \<in> set eligible \<Longrightarrow> ur_total u = Some x \<Longrightarrow> x \<le> figure"
    and "basis \<noteq> BOUND_UNFINALIZED \<Longrightarrow> \<exists>u \<in> set eligible. ur_total u \<noteq> None"
    and "basis = BOUND_UNFINALIZED \<Longrightarrow> late"
proof -
  let ?m = "foldl max execution (List.map_filter ur_total us)"
  have bound: "execution \<le> ?m" "u \<in> set us \<Longrightarrow> ur_total u = Some x \<Longrightarrow> x \<le> ?m" for u x
    by (rule foldl_max_ge(1)) (auto intro!: foldl_max_ge(2) simp: set_map_filter)
  consider (stable) v where "basis = STABLE_READS" "stable_read eligible config = Inr (Some v)"
      "figure = (case max_of (List.map_filter ur_total eligible) of None \<Rightarrow> 0 | Some m \<Rightarrow> m)"
    | (bound) "basis = BASIS_BOUND" "figure = ?m" "List.map_filter ur_total eligible \<noteq> []"
    | (late) "basis = BOUND_UNFINALIZED" "figure = ?m" late
    using assms by (auto simp: settlement_figure_def Let_def andThen_eq_Inr split: if_splits option.splits)
  then have "(basis \<noteq> STABLE_READS \<longrightarrow> figure = ?m) \<and> (basis = BOUND_UNFINALIZED \<longrightarrow> late)
     \<and> (basis = STABLE_READS \<longrightarrow> (\<forall>u \<in> set eligible. \<forall>x. ur_total u = Some x \<longrightarrow> x \<le> figure))
     \<and> (basis \<noteq> BOUND_UNFINALIZED \<longrightarrow> (\<exists>u \<in> set eligible. ur_total u \<noteq> None))"
  proof cases
    case stable
    have "x \<le> figure" if "u \<in> set eligible" "ur_total u = Some x" for u x
    proof -
      have mem: "x \<in> set (List.map_filter ur_total eligible)" using that by (auto simp: set_map_filter)
      then obtain m where "max_of (List.map_filter ur_total eligible) = Some m"
        by (cases "List.map_filter ur_total eligible") auto
      then show ?thesis using max_of_ge [OF _ mem] stable(3) by simp
    qed
    moreover have "\<exists>u \<in> set eligible. ur_total u \<noteq> None" using stable_read_total [OF stable(2)] by blast
    ultimately show ?thesis using stable(1) by auto
  next
    case bound
    then obtain x where "x \<in> set (List.map_filter ur_total eligible)" by (cases "List.map_filter ur_total eligible") auto
    then show ?thesis using bound by (auto simp: set_map_filter)
  qed simp
  then show "basis \<noteq> STABLE_READS \<Longrightarrow> execution \<le> figure"
    "basis \<noteq> STABLE_READS \<Longrightarrow> u \<in> set us \<Longrightarrow> ur_total u = Some x \<Longrightarrow> x \<le> figure"
    "basis = STABLE_READS \<Longrightarrow> u \<in> set eligible \<Longrightarrow> ur_total u = Some x \<Longrightarrow> x \<le> figure"
    "basis \<noteq> BOUND_UNFINALIZED \<Longrightarrow> \<exists>u \<in> set eligible. ur_total u \<noteq> None"
    "basis = BOUND_UNFINALIZED \<Longrightarrow> late"
    using bound by auto
qed

section \<open>What a settlement needs and what it covers\<close>

text \<open>C10: A row settles only when it is earned: it was open; a run's import is over, its storage verified deleted and
  the anchor stamped (a build is bound and finished); and either a read with a figure was made at or after
  the eligible time, or the finalize deadline has passed, or the poll cap is spent.\<close>

theorem settlement_is_earned:
  assumes "try_settle db r run now config = Inr (db', True)"
  shows "rv_status r \<in> set open_statuses
    \<and> (case run of Some p \<Rightarrow> pr_import_state p \<in> set TERMINAL_IMPORT \<and> pr_storage_state p = STORAGE_DELETED
          \<and> pr_final_charge_op_at p \<noteq> None
        | None \<Rightarrow> rv_build_id r \<noteq> None \<and> (\<exists>u \<in> set (reads_of db r). ur_finished_at u \<noteq> None))
    \<and> (\<exists>anchor eligible deadline window. anchor_of db r run = Some anchor
        \<and> settle_clocks anchor config = Inr (eligible, deadline, window)
        \<and> ((\<exists>u \<in> set (reads_of db r). eligible \<le> ur_read_at u \<and> ur_total u \<noteq> None)
           \<or> deadline \<le> now \<or> polls_spent r run config))"
  using assms
proof (cases rule: try_settleE)
  case (settled anchor eligible deadline window figure basis fin r')
  have open': "rv_status r \<in> set open_statuses" and m: "may_settle r run" using settled(2) by (auto simp: may_settle_def)
  have barrier: "case run of Some p \<Rightarrow> pr_import_state p \<in> set TERMINAL_IMPORT \<and> pr_storage_state p = STORAGE_DELETED
          \<and> pr_final_charge_op_at p \<noteq> None
        | None \<Rightarrow> rv_build_id r \<noteq> None \<and> (\<exists>u \<in> set (reads_of db r). ur_finished_at u \<noteq> None)"
  proof (cases run)
    case None
    have "max_of (List.map_filter ur_finished_at (reads_of db r)) = Some anchor"
      using settled(3) None by (simp add: anchor_of_def)
    then obtain t where "t \<in> set (List.map_filter ur_finished_at (reads_of db r))"
      by (cases "List.map_filter ur_finished_at (reads_of db r)") auto
    then show ?thesis using m None by (auto simp: may_settle_def set_map_filter)
  next
    case (Some p)
    then show ?thesis using m settled(3) by (auto simp: may_settle_def anchor_of_def split: option.splits)
  qed
  have "(\<exists>u \<in> set (reads_of db r). eligible \<le> ur_read_at u \<and> ur_total u \<noteq> None)
           \<or> deadline \<le> now \<or> polls_spent r run config"
    using settlement_figure_covers(4,5) [OF settled(5)] by (cases "basis = BOUND_UNFINALIZED") auto
  then show ?thesis using open' barrier settled(3,4) by blast
qed simp

text \<open>C9: A settlement covers what was observed: in the bound bases the settled usage is at least the execution
  bound and every read of the row, in the stable basis at least every eligible read; the actual amount is
  at least usage plus post-run cost; and an actual amount above the estimate leaves the latch tripped.\<close>

theorem settlement_covers_usage:
  assumes "try_settle db r run now config = Inr (db', True)" and "reservation_by_id db (rv_id r) = Some q"
  shows "\<exists>r' s post a. reservation_by_id db' (rv_id r) = Some r' \<and> rv_status r' = RECONCILED
    \<and> rv_settled_usage r' = Some s \<and> rv_post_run_cost r' = Some post \<and> rv_actual r' = Some a \<and> dadd s post \<le> a
    \<and> (rv_basis r' \<noteq> Some STABLE_READS \<longrightarrow> amount (rv_execution r) \<le> s
         \<and> (\<forall>u \<in> set (reads_of db r). \<forall>x. ur_total u = Some x \<longrightarrow> x \<le> s))
    \<and> (\<forall>anchor eligible d w. anchor_of db r run = Some anchor \<longrightarrow> settle_clocks anchor config = Inr (eligible, d, w)
         \<longrightarrow> (\<forall>u \<in> set (reads_of db r). \<forall>x. eligible \<le> ur_read_at u \<longrightarrow> ur_total u = Some x \<longrightarrow> x \<le> s))
    \<and> (a \<le> amount (rv_estimate r') \<or> latch_tripped db')"
  using assms(1)
proof (cases rule: try_settleE)
  case (settled anchor eligible deadline window figure basis fin r')
  note f = settled_row_fields [OF settled(6)] and c = settlement_figure_covers [OF settled(5)]
  obtain u post mode a where fig: "usd figure = Inr u" "usd (dadd u post) = Inr a" "rv_settled_usage r' = Some u"
    "rv_post_run_cost r' = Some post" "rv_actual r' = Some a" using f(17) by blast
  have le: "figure \<le> u" "dadd u post \<le> a" using usd_ge [OF fig(1)] usd_ge [OF fig(2)] by simp_all
  have q: "reservation_by_id db (rv_id r') = Some q" using assms(2) f(1) by simp
  note sv = save_settled_row [OF settled(7) q]
  have bound: "amount (rv_execution r) \<le> u \<and> (\<forall>v \<in> set (reads_of db r). \<forall>x. ur_total v = Some x \<longrightarrow> x \<le> u)"
    if "rv_basis r' \<noteq> Some STABLE_READS"
    using c(1,2) f(10) that le(1) by (auto dest: order_trans)
  have elig: "x \<le> u" if "v \<in> set (reads_of db r)" "eligible \<le> ur_read_at v" "ur_total v = Some x" for v x
    using c(2) [of v x] c(3) [of v x] that le(1) by (cases "basis = STABLE_READS") auto
  show ?thesis
  proof (intro exI conjI)
    show "reservation_by_id db' (rv_id r) = Some r'" using sv(1) f(1) by simp
    show "a \<le> amount (rv_estimate r') \<or> latch_tripped db'" 
      using sv(3) unfolding fig(5) amount_def [of "Some a"] option.case by linarith
    show "\<forall>anchor eligible d w. anchor_of db r run = Some anchor \<longrightarrow> settle_clocks anchor config = Inr (eligible, d, w)
         \<longrightarrow> (\<forall>v \<in> set (reads_of db r). \<forall>x. eligible \<le> ur_read_at v \<longrightarrow> ur_total v = Some x \<longrightarrow> x \<le> u)"
      using elig settled(3,4) by auto
  qed (use f fig le(2) bound in auto)
qed simp

section \<open>A run settled at its finalize deadline\<close>

definition due_run :: provider_run where
  "due_run = sample_run\<lparr>pr_external_id := Some ''r1'', pr_key := Some ''k1'', pr_import_state := IMPORT_FINALIZED,
     pr_storage_state := STORAGE_DELETED, pr_final_charge_op_at := Some (instant_of sample_now)\<rparr>"

definition due_row :: reservation where
  "due_row = open_row\<lparr>rv_id := 9, rv_run := Some 5, rv_estimate := Some 3, rv_execution := Some 1, rv_post_run := Some (1 / 2)\<rparr>"

definition due_db :: ledger_db where
  "due_db = authorised_db\<lparr>runs := [due_run], reservations := [due_row], next_id := 10\<rparr>"

definition due_now :: instant where "due_now = 63920278800000000"

definition settled_due_row :: reservation where
  "settled_due_row = (reconciled_row due_row 1 (1 / 2) COST_BOUND BOUND_UNFINALIZED (3 / 2) due_now due_now
     (due_now + seconds 604800))\<lparr>rv_next_usage_read_at := Some 63920581200000000\<rparr>"

lemma sample_instant: "instant_of sample_now = 63920188800000000"
  by code_simp

lemma due_range: "datetime_min \<le> 63920188800000000" "63930000000000000 \<le> datetime_max"
  by code_simp+

lemma in_due_range: "63920188800000000 \<le> t \<Longrightarrow> t \<le> 63930000000000000 \<Longrightarrow> in_datetime_range t"
  using due_range by (simp add: in_datetime_range_def)

lemma due_fields:
  "rv_id due_row = 9" "rv_status due_row = RESERVED" "rv_estimate due_row = Some 3" "rv_execution due_row = Some 1"
  "rv_post_run due_row = Some (1 / 2)" "rv_run due_row = Some 5" "pr_import_state due_run = IMPORT_FINALIZED"
  "pr_storage_state due_run = STORAGE_DELETED" "pr_final_charge_op_at due_run = Some 63920188800000000"
  "pr_finished_at due_run = None" "pr_id due_run = 5" "reads due_db = []" "reservations due_db = [due_row]"
  by (simp_all add: due_row_def due_run_def open_row_def new_row_def sample_run_def sample_instant due_db_def authorised_db_def
      sample_cycle_db_def empty_db_def)

lemma due_clocks: "settle_clocks 63920188800000000 sample_config
   = Inr (63920188800000000 + seconds 10 + seconds 1800, 63920188800000000 + seconds 86400, seconds 604800)"
  by (simp add: settle_clocks_def eligible_from_def seconds_of_def lift_guard_def date_add_def sample_config_def sample_settings_def
      timedelta_defs in_due_range)

lemma due_settled_row:
  "settled_row due_row (Some due_run) due_now 63920188800000000 (seconds 604800) 1 BOUND_UNFINALIZED None sample_config = Inr settled_due_row"
proof -
  have post: "post_run_cost due_row (Some due_run) sample_config = Inr (1 / 2, COST_BOUND)"
    by (simp add: post_run_cost_def sample_config_def due_fields amount_def)
  have usd: "money_up 1 = Inr 1" "money_up (dadd 1 (1 / 2)) = Inr (3 / 2)"
    by (simp_all add: money_up_def usd_def dadd_def dround_num)
  have last': "last_charge_of (Some due_run) 63920188800000000 due_now = due_now"
    by (simp add: last_charge_of_def due_fields due_now_def List.map_filter_def)
  have spread: "rhe (of_int (seconds 604800) / of_int (max (5 - CLOSING_RESERVE) 1)) = 302400000000"
    by (simp add: CLOSING_RESERVE_def timedelta_defs rhe_def)
  have r: "record_finalized due_row None due_now = Inr due_row" by (simp add: record_finalized_def)
  show ?thesis
    unfolding settled_row_def post andThen_Inr prod.case r usd Let_def last'
    using spread
    by (simp add: date_add_def in_due_range due_now_def timedelta_defs next_read_at_def reconciled_row_def interval_of_def
        sample_config_def sample_settings_def settled_due_row_def)
qed

lemma due_saved: "save_settled due_db settled_due_row (Some due_run) due_now sample_config
   = Inr (due_db\<lparr>reservations := [settled_due_row]\<rparr>)"
proof -
  have row: "reservation_fits settled_due_row" "reservation_checks settled_due_row" "rv_build_id settled_due_row = None"
      "rv_probe_dataset settled_due_row = None" "rv_id settled_due_row = 9" "rv_estimate settled_due_row = Some 3"
      "rv_actual settled_due_row = Some (3 / 2)"
    by (simp_all add: reservation_fits_def reservation_checks_def reservation_money_def money_fits_def settled_due_row_def reconciled_row_def
        due_row_def open_row_def new_row_def sample_estimate_def sample_request_def is_runtime_def envelope_by_kind_def)
  have "reservation_unique due_db settled_due_row"
    by (simp add: reservation_unique_def due_fields row)
  then show ?thesis
    by (simp add: save_settled_def save_reservation_def row replace_by_def due_fields amount_def)
qed

lemma due_settles: "try_settle due_db due_row (Some due_run) due_now sample_config
   = Inr (due_db\<lparr>reservations := [settled_due_row]\<rparr>, True)"
proof -
  have anchor: "anchor_of due_db due_row (Some due_run) = Some 63920188800000000" by (simp add: anchor_of_def due_fields)
  have may: "may_settle due_row (Some due_run)" by (simp add: may_settle_def due_fields open_statuses_def TERMINAL_IMPORT_def)
  have none: "reads_of due_db due_row = []" by (simp add: reads_of_def due_fields)
  have late: "63920188800000000 + seconds 86400 \<le> due_now" by (simp add: due_now_def timedelta_defs)
  have fig: "settlement_figure sample_config 1 [] [] True = Inr (Some (1, BOUND_UNFINALIZED, None))"
    by (simp add: settlement_figure_def sample_config_def List.map_filter_def)
  show ?thesis
    using due_clocks due_settled_row due_saved may fig late
    by (simp add: try_settle_def anchor settle_when_due_def none due_fields(4) amount_def)
qed

theorem settlement_is_earned_witness:
  "pr_final_charge_op_at due_run \<noteq> None \<and> pr_storage_state due_run = STORAGE_DELETED \<and> rv_status due_row \<in> set open_statuses"
  using settlement_is_earned [OF due_settles] by simp

theorem settlement_covers_usage_witness:
  "\<exists>s a. rv_settled_usage settled_due_row = Some s \<and> 1 \<le> s \<and> rv_actual settled_due_row = Some a \<and> a \<le> 3"
proof -
  have row: "rv_basis settled_due_row = Some BOUND_UNFINALIZED" "rv_estimate settled_due_row = Some 3"
    by (simp_all add: settled_due_row_def reconciled_row_def due_fields)
  have no_trip: "\<not> latch_tripped (due_db\<lparr>reservations := [settled_due_row]\<rparr>)"
    by (simp add: latch_tripped_def due_db_def authorised_fields)
  have by_id: "reservation_by_id due_db (rv_id due_row) = Some due_row"
    "reservation_by_id (due_db\<lparr>reservations := [settled_due_row]\<rparr>) (rv_id due_row) = Some settled_due_row"
    by (simp_all add: reservation_by_id_def due_fields settled_due_row_def reconciled_row_def)
  show ?thesis
    using settlement_covers_usage [OF due_settles by_id(1)] by_id(2) row no_trip by (auto simp: due_fields amount_def)
qed

end
