(* ===== verification/SettleFrame.thy ===== *)
theory SettleFrame
  imports SettlementSafety
begin

text \<open>
  Settlement and the caps of a cycle. An operation of \<open>reconcile.py\<close> changes reservation rows in
  place; it keeps the ledger sound and, unless it trips the latch for an overrun or a breach, no row
  owes any cycle more than before. Composed with admission: whatever is interleaved, a cycle within
  its caps stays within them until such a trip.
\<close>

section \<open>A sound ledger\<close>

definition keys_ok :: "ledger_db \<Rightarrow> bool" where
  "keys_ok db \<longleftrightarrow> distinct (map rv_id (reservations db)) \<and> (\<forall>r \<in> set (reservations db). rv_id r < next_id db)
     \<and> (\<forall>r \<in> set (reservations db). \<forall>q \<in> set (reservations db). rv_run r \<noteq> None \<longrightarrow> rv_run q = rv_run r \<longrightarrow> rv_id q = rv_id r)"

definition sound :: "ledger_db \<Rightarrow> bool" where
  "sound db \<longleftrightarrow> ledger_ok db \<and> keys_ok db"

text \<open>A standing trip of one of the given reasons and runs: not cleared, so that it blocks admission.\<close>

definition alarm :: "(latch_reason \<times> int option) set \<Rightarrow> ledger_db \<Rightarrow> bool" where
  "alarm W db \<longleftrightarrow> (\<exists>t \<in> set (trips db). trip_open t \<and> (la_reason t, la_run t) \<in> W)"

text \<open>\<open>eases\<close>: the rows changed in place, and no class owes any cycle more than before.\<close>

definition eases :: "ledger_config \<Rightarrow> ledger_db \<Rightarrow> ledger_db \<Rightarrow> bool" where
  "eases config db db' \<longleftrightarrow> authorities db' = authorities db \<and> cycles db' = cycles db
     \<and> (\<forall>g s e op. guard_of config = Inr g \<longrightarrow> class_debit db' config g s e op \<le> class_debit db config g s e op)"

text \<open>
  A step that keeps the ledger sound and its cycles, clears no standing trip of \<open>W\<close>, and leaves one standing
  or eases the ledger.
\<close>

definition tame :: "(latch_reason \<times> int option) set \<Rightarrow> ledger_config \<Rightarrow> ledger_db \<Rightarrow> ledger_db \<Rightarrow> bool" where
  "tame W config db db' \<longleftrightarrow> (sound db \<longrightarrow> sound db' \<and> cycles db' = cycles db
     \<and> (alarm W db \<longrightarrow> alarm W db') \<and> (alarm W db' \<or> eases config db db'))"

lemma ledger_ok_cong:
  "reservations db' = reservations db \<Longrightarrow> authorities db' = authorities db \<Longrightarrow> ledger_ok db' = ledger_ok db"
  by (simp only: ledger_ok_def)

lemma keys_ok_cong: "reservations db' = reservations db \<Longrightarrow> next_id db' = next_id db \<Longrightarrow> keys_ok db' = keys_ok db"
  by (simp only: keys_ok_def)

lemma alarm_cong: "trips db' = trips db \<Longrightarrow> alarm W db' = alarm W db"
  by (simp only: alarm_def)

lemma eases_refl: "eases config db db"
  by (simp add: eases_def)

lemma tame_refl: "tame W config db db"
  by (simp add: tame_def eases_refl)

lemma eases_trans:
  assumes "eases config db db1" and "eases config db1 db2"
  shows "eases config db db2"
  unfolding eases_def
proof (intro conjI allI impI)
  show "authorities db2 = authorities db" "cycles db2 = cycles db" using assms by (simp_all add: eases_def)
  fix g s e op
  assume "guard_of config = Inr g"
  then have "class_debit db2 config g s e op \<le> class_debit db1 config g s e op"
    "class_debit db1 config g s e op \<le> class_debit db config g s e op" using assms by (auto simp: eases_def)
  then show "class_debit db2 config g s e op \<le> class_debit db config g s e op" by (rule order_trans)
qed

lemma tame_trans: "tame W config db db1 \<Longrightarrow> tame W config db1 db2 \<Longrightarrow> tame W config db db2"
  unfolding tame_def using eases_trans by metis

text \<open>What leaves the rows, the runs and the authority rows alone is tame.\<close>

lemma tame_same_rows:
  assumes "reservations db' = reservations db" and "runs db' = runs db" and "authorities db' = authorities db"
    and "cycles db' = cycles db" and "next_id db \<le> next_id db'" and "set (trips db) \<subseteq> set (trips db')"
  shows "tame W config db db'"
proof -
  have "class_debit db' = class_debit db" by (rule class_debit_cong [OF assms(2,1)])
  then have "eases config db db'" using assms(3,4) by (simp add: eases_def)
  moreover have "ledger_ok db' = ledger_ok db" using assms(1,3) by (simp add: ledger_ok_def)
  moreover have "keys_ok db'" if "keys_ok db"
  proof -
    have "rv_id r < next_id db'" if "r \<in> set (reservations db)" for r
    proof -
      have "rv_id r < next_id db" using \<open>keys_ok db\<close> that unfolding keys_ok_def by blast
      then show ?thesis using assms(5) by simp
    qed
    then show ?thesis using that unfolding keys_ok_def assms(1) by blast
  qed
  moreover have "alarm W db'" if "alarm W db" using that assms(6) unfolding alarm_def by blast
  ultimately show ?thesis using assms(4) by (simp add: tame_def sound_def)
qed

lemma tame_trip_if:
  assumes "(if c then trip reason run config now db else Inr db) = Inr db'"
  shows "tame W config' db db'"
  using trip_if_effect [OF assms] by (auto intro!: tame_same_rows)

lemma tame_trip: "trip reason run config now db = Inr db' \<Longrightarrow> tame W config' db db'"
  using tame_trip_if [of True] by simp

lemma tame_append_read: "append_read db r run t tot u f config = Inr (db', k) \<Longrightarrow> tame W config' db db'"
  by (drule append_read_effect) (auto intro!: tame_same_rows)

section \<open>Rows changed in place\<close>

text \<open>Runs that count the same correction reads owe the same.\<close>

lemma row_debit_reads:
  assumes "\<And>k. map_option pr_correction_reads (run_by_id db' k) = map_option pr_correction_reads (run_by_id db k)"
  shows "row_debit db' = row_debit db"
proof (intro ext)
  fix config g s e r
  have "correction_reads db' r = correction_reads db r"
    using assms by (auto simp: correction_reads_def run_by_id_def split: option.splits) (metis option.map_disc_iff option.distinct(1) option.inject option.map)+
  then have "monitoring_open db' r config = monitoring_open db r config" by (simp only: monitoring_open_def)
  then have "monitoring_end db' config g r = monitoring_end db config g r" by (simp only: monitoring_end_def)
  then show "row_debit db' config g s e r = row_debit db config g s e r" by (simp only: row_debit_def)
qed

lemma class_debit_map_le:
  assumes "reservations db' = map f (reservations db)"
    and "\<And>r. r \<in> set (reservations db) \<Longrightarrow> rv_class (f r) = rv_class r
      \<and> row_debit db' config g s e (f r) \<le> row_debit db config g s e r"
  shows "class_debit db' config g s e op \<le> class_debit db config g s e op"
proof -
  have "map (row_debit db' config g s e) (filter (\<lambda>r. (rv_class r = OPERATOR) = op) (map f rs))
      = map (\<lambda>r. row_debit db' config g s e (f r)) (filter (\<lambda>r. (rv_class r = OPERATOR) = op) rs)"
    if "\<And>r. r \<in> set rs \<Longrightarrow> rv_class (f r) = rv_class r" for rs
    using that by (induction rs) auto
  then show ?thesis
    unfolding class_debit_def assms(1) using assms(2) by (auto intro!: sum_list_mono)
qed

text \<open>One row saved: tame if the row stays sound and owes no more, or if the alarm is raised.\<close>

lemma sound_save:
  assumes "sound db" and "reservation_by_id db (rv_id r) = Some q" and "save_reservation db r = Inr db'"
    and "row_ok r"
  shows "sound db'"
proof -
  have db': "db' = db\<lparr>reservations := replace_by rv_id r (reservations db)\<rparr>" and u: "reservation_unique db r"
    using assms(3) by (auto simp: save_reservation_eq_Inr)
  have mem: "q \<in> set (reservations db)" "rv_id q = rv_id r" using reservation_by_id_Some [OF assms(2)] by auto
  have rows: "x = r \<or> (x \<in> set (reservations db) \<and> rv_id x \<noteq> rv_id r)" if "x \<in> set (reservations db')" for x
    using that by (auto simp: db' replace_by_def)
  have k: "keys_ok db" "ledger_ok db" using assms(1) by (simp_all add: sound_def)
  have "row_ok x" if "x \<in> set (reservations db')" for x
    using rows [OF that] assms(4) k(2) unfolding ledger_ok_def by blast
  then have "ledger_ok db'" using k(2) by (simp add: ledger_ok_def db')
  moreover have "distinct (map rv_id (reservations db'))" using k(1) by (simp add: db' keys_ok_def)
  moreover have "rv_id x < next_id db'" if "x \<in> set (reservations db')" for x
  proof -
    have "rv_id q < next_id db" using k(1) mem(1) unfolding keys_ok_def by blast
    moreover have "rv_id x < next_id db" if "x \<in> set (reservations db)" using k(1) that unfolding keys_ok_def by blast
    ultimately show ?thesis using rows [OF that] mem(2) by (auto simp: db')
  qed
  moreover have "rv_id y = rv_id x" if "x \<in> set (reservations db')" "y \<in> set (reservations db')" "rv_run x \<noteq> None"
      "rv_run y = rv_run x" for x y
  proof -
    have other: "rv_run z \<noteq> rv_run r" if "z \<in> set (reservations db)" "rv_id z \<noteq> rv_id r" "rv_run r \<noteq> None" for z
      using u that by (auto simp: reservation_unique_def list_all_iff)
    have both: "rv_id y = rv_id x" if "x \<in> set (reservations db)" "y \<in> set (reservations db)"
      using k(1) that \<open>rv_run x \<noteq> None\<close> \<open>rv_run y = rv_run x\<close> unfolding keys_ok_def by blast
    show ?thesis
      using rows [OF that(1)] rows [OF that(2)] other [of x] other [of y] both that(3,4) by metis
  qed
  ultimately show ?thesis unfolding sound_def keys_ok_def by blast
qed

lemma eases_save:
  assumes "sound db" and "reservation_by_id db (rv_id r) = Some q" and "save_reservation db r = Inr db'"
    and "rv_class r = rv_class q"
    and "\<And>g s e. guard_of config = Inr g \<Longrightarrow> row_debit db config g s e r \<le> row_debit db config g s e q"
  shows "eases config db db'"
proof -
  have db': "db' = db\<lparr>reservations := replace_by rv_id r (reservations db)\<rparr>"
    using assms(3) by (auto simp: save_reservation_eq_Inr)
  have mem: "q \<in> set (reservations db)" "rv_id q = rv_id r" using reservation_by_id_Some [OF assms(2)] by auto
  have only: "x = q" if "x \<in> set (reservations db)" "rv_id x = rv_id r" for x
  proof -
    have "inj_on rv_id (set (reservations db))" using assms(1) by (simp add: sound_def keys_ok_def distinct_map)
    then show ?thesis by (rule inj_onD) (use that mem in simp_all)
  qed
  have same: "row_debit db' = row_debit db" by (rule row_debit_runs) (simp add: db')
  have "class_debit db' config g s e op \<le> class_debit db config g s e op" if "guard_of config = Inr g" for g s e op
  proof (rule class_debit_map_le)
    show "reservations db' = map (\<lambda>x. if rv_id x = rv_id r then r else x) (reservations db)"
      by (simp add: db' replace_by_def)
  qed (use only assms(4,5) that in \<open>auto simp: same\<close>)
  then show ?thesis by (simp add: eases_def db')
qed

lemma saved_row_ok:
  assumes "save_reservation db r = Inr db'" and "list_all (opt_all (on_grid 4)) (reservation_money r)"
    and "opt_all (\<lambda>t. rv_reserved_at r \<le> t) (rv_reconciled_at r)"
  shows "row_ok r"
  using assms by (simp add: row_ok_def save_reservation_eq_Inr opt_all_def split: option.splits)

lemma tame_save:
  assumes "reservation_by_id db (rv_id r) = Some q" and "save_reservation db r = Inr db'" and "rv_class r = rv_class q"
    and grid: "row_ok q \<Longrightarrow> list_all (opt_all (on_grid 4)) (reservation_money r)"
    and clock: "row_ok q \<Longrightarrow> opt_all (\<lambda>t. rv_reserved_at r \<le> t) (rv_reconciled_at r)"
    and debit: "\<And>g s e. row_ok q \<Longrightarrow> row_ok r \<Longrightarrow> guard_of config = Inr g \<Longrightarrow>
        row_debit db config g s e r \<le> row_debit db config g s e q"
  shows "tame W config db db'"
  unfolding tame_def
proof
  assume s: "sound db"
  have q: "row_ok q" using s reservation_by_id_Some [OF assms(1)] by (auto simp: sound_def ledger_ok_def)
  have r: "row_ok r" by (rule saved_row_ok [OF assms(2) grid [OF q] clock [OF q]])
  have "alarm W db' = alarm W db" "cycles db' = cycles db" using assms(2) by (auto simp: save_reservation_eq_Inr alarm_def)
  then show "sound db' \<and> cycles db' = cycles db \<and> (alarm W db \<longrightarrow> alarm W db') \<and> (alarm W db' \<or> eases config db db')"
    using sound_save [OF s assms(1,2) r] eases_save [OF s assms(1-3) debit [OF q r]] by blast
qed

text \<open>Without an alarm to raise, the debit condition is only needed of rows within the estimate.\<close>

lemma row_money_nonneg:
  assumes "row_ok r"
  shows "0 \<le> amount (rv_estimate r)" "0 \<le> amount (rv_monitoring r)" "0 \<le> amount (rv_actual r)"
proof -
  have "list_all (opt_all (\<lambda>m. 0 \<le> m)) (reservation_money r)"
    using assms unfolding row_ok_def reservation_checks_def by blast
  then show "0 \<le> amount (rv_estimate r)" "0 \<le> amount (rv_monitoring r)" "0 \<le> amount (rv_actual r)"
    by (auto simp: reservation_money_def amount_def opt_all_def split: option.splits)
qed

lemma open_debit:
  assumes "rv_status r \<in> set open_statuses"
  shows "row_debit db config g s e r = (if rv_reserved_at r - g \<le> e then amount (rv_estimate r) + amount (rv_monitoring r) else 0)"
  using assms by (auto simp: row_debit_def open_statuses_def)

lemma settled_debit_le:
  assumes "rv_status r \<in> set open_statuses" and "rv_status r' = RECONCILED" and "row_ok r" and "row_ok r'"
    and "rv_estimate r' = rv_estimate r" and "rv_monitoring r' = rv_monitoring r" and "rv_reserved_at r' = rv_reserved_at r"
    and "rv_reconciled_at r' = Some now" and "rv_reserved_at r \<le> now" and "amount (rv_actual r') \<le> amount (rv_estimate r)"
  shows "row_debit db config g s e r' \<le> row_debit db config g s e r"
proof -
  have "row_debit db config g s e r' = (if touches (rv_reserved_at r - g) (the (rv_last_charge_at r') + g) s e
             then amount (rv_actual r') else 0)
          + (if touches (now - g) (monitoring_end db config g r') s e then amount (rv_monitoring r) else 0)"
    using assms(2,6,7,8) by (simp add: row_debit_def)
  also have "\<dots> \<le> (if rv_reserved_at r - g \<le> e then amount (rv_estimate r) else 0) + (if rv_reserved_at r - g \<le> e then amount (rv_monitoring r) else 0)"
    using row_money_nonneg [OF assms(3)] assms(9,10) by (intro add_mono) (auto simp: touches_def)
  also have "\<dots> = row_debit db config g s e r" by (simp add: open_debit [OF assms(1)])
  finally show ?thesis .
qed

lemma post_run_cost_grid:
  assumes "post_run_cost r run config = Inr (post, mode)" and "row_ok r"
  shows "on_grid 4 post"
proof -
  have "opt_all (on_grid 4) (rv_post_run r)" using assms(2) by (simp add: row_ok_def reservation_money_def)
  then have "on_grid 4 (amount (rv_post_run r))" by (auto simp: amount_def on_grid_zero split: option.splits)
  note bound = this
  have counted: "on_grid 4 c" if c: "counted_post_run_cost p config = Inr c" for p c
  proof -
    obtain m where "(case (max_kv_bytes (budget config), pr_storage_deleted_at p) of
        (Some kv_bytes, Some deleted_at) \<Rightarrow>
          if kv_bytes < 0 then Inl (BudgetDenied UNBOUNDED_COMPONENT ''storage size'') else
          andThen (read_counted_inputs p (budget config)) (\<lambda>i.
          usd (dmul (counted_cost p i kv_bytes deleted_at) (dadd 1 m)))
      | _ \<Rightarrow> Inl (BudgetDenied UNBOUNDED_COMPONENT ''storage size or lifetime'')) = Inr c"
      using c unfolding counted_post_run_cost_def Let_def by (rule andThen_InrE)
    then obtain kv d where "andThen (read_counted_inputs p (budget config)) (\<lambda>i.
          usd (dmul (counted_cost p i kv d) (dadd 1 m))) = Inr c"
      by (simp split: option.splits if_splits)
    then obtain i where "usd (dmul (counted_cost p i kv d) (dadd 1 m)) = Inr c" by (rule andThen_InrE)
    then show ?thesis by (rule usd_on_grid)
  qed
  show ?thesis
  proof (cases run)
    case None
    then show ?thesis using assms(1) by (simp add: post_run_cost_def on_grid_zero)
  next
    case (Some p)
    have "post = amount (rv_post_run r) \<or> counted_post_run_cost p config = Inr post"
      using assms(1) unfolding post_run_cost_def Some option.case
      by (cases "counted_post_run_cost p config") (auto split: if_splits budget_error.splits)
    then show ?thesis using bound counted by auto
  qed
qed

lemma settled_row_grid:
  assumes "settled_row r run now anchor window figure basis fin config = Inr r'" and "row_ok r"
  shows "list_all (opt_all (on_grid 4)) (reservation_money r')"
proof -
  note f = settled_row_fields [OF assms(1)]
  obtain u post mode a where fig: "post_run_cost r run config = Inr (post, mode)" "usd figure = Inr u" "usd (dadd u post) = Inr a"
    "rv_settled_usage r' = Some u" "rv_post_run_cost r' = Some post" "rv_actual r' = Some a" using f(17) by blast
  have "list_all (opt_all (on_grid 4)) (reservation_money r)" using assms(2) by (simp add: row_ok_def)
  then have old: "opt_all (on_grid 4) (rv_estimate r)" "opt_all (on_grid 4) (rv_execution r)" "opt_all (on_grid 4) (rv_post_run r)"
    "opt_all (on_grid 4) (rv_monitoring r)" "opt_all (on_grid 4) (rv_usage_provisional r)" "opt_all (on_grid 4) (rv_usage_finalized r)"
    by (simp_all add: reservation_money_def)
  have "opt_all (on_grid 4) (rv_usage_finalized r')" using f(21) old(6) by auto
  then show ?thesis
    using old(1-5) usd_on_grid [OF fig(2)] usd_on_grid [OF fig(3)] post_run_cost_grid [OF fig(1) assms(2)] fig(4-6) f(4,5,18-20)
    by (simp add: reservation_money_def)
qed

lemma tame_try_settle:
  assumes "try_settle db r run now config = Inr (db', b)" and "reservation_by_id db (rv_id r) = Some r"
    and "rv_reserved_at r \<le> now" and W: "(OVERRUN, map_option pr_id run) \<in> W"
  shows "tame W config db db'"
  using assms(1)
proof (cases rule: try_settleE)
  case (settled anchor eligible deadline window figure basis fin r')
  note f = settled_row_fields [OF settled(6)]
  have open': "rv_status r \<in> set open_statuses" using settled(2) by (simp add: may_settle_def)
  obtain db1 where s: "save_reservation db r' = Inr db1" and t: "(if amount (rv_estimate r') < amount (rv_actual r')
         then trip OVERRUN (map_option pr_id run) config now db1 else Inr db1) = Inr db'"
    using settled(7) by (auto simp: save_settled_eq_Inr)
  have q: "reservation_by_id db (rv_id r') = Some r" using assms(2) f(1) by simp
  show ?thesis
  proof (cases "amount (rv_estimate r') < amount (rv_actual r')")
    case False
    have "tame W config db db1"
    proof (rule tame_save [OF q s f(3) settled_row_grid [OF settled(6)]])
      show "opt_all (\<lambda>t. rv_reserved_at r' \<le> t) (rv_reconciled_at r')" using f(6,8) assms(3) by simp
      show "row_debit db config g s e r' \<le> row_debit db config g s e r" if "row_ok r" "row_ok r'" for g s e
        by (rule settled_debit_le [OF open' f(7) that f(4,5,6,8) assms(3)]) (use False f(4) in simp)
    qed
    then show ?thesis using t False by simp
  next
    case True
    then have t': "trip OVERRUN (map_option pr_id run) config now db1 = Inr db'" using t by simp
    obtain new where new: "db' = db1\<lparr>trips := trips db1 @ new\<rparr>" using trip_effect(1) [OF t'] by blast
    have al: "alarm W db'" using trip_effect(2) [OF t'] W by (auto simp: alarm_def)
    have cy: "cycles db' = cycles db" using s by (simp add: new save_reservation_eq_Inr)
    show ?thesis
      unfolding tame_def
    proof
      assume sd: "sound db"
      have ok: "row_ok r" using sd reservation_by_id_Some [OF assms(2)] by (auto simp: sound_def ledger_ok_def)
      have "opt_all (\<lambda>t. rv_reserved_at r' \<le> t) (rv_reconciled_at r')" using f(6,8) assms(3) by simp
      then have "row_ok r'" by (rule saved_row_ok [OF s settled_row_grid [OF settled(6) ok]])
      from sound_save [OF sd q s this] have "sound db1" .
      then have "sound db'" using tame_trip [OF t', of W config] unfolding tame_def by blast
      then show "sound db' \<and> cycles db' = cycles db \<and> (alarm W db \<longrightarrow> alarm W db') \<and> (alarm W db' \<or> eases config db db')"
        using al cy by blast
    qed
  qed
qed (simp add: tame_refl)

section \<open>The operations are tame\<close>

lemma tame_if_sound: "(sound db \<Longrightarrow> tame W config db db') \<Longrightarrow> tame W config db db'"
  by (auto simp: tame_def)

lemma by_id_of_mem:
  assumes "keys_ok db" and "r \<in> set (reservations db)"
  shows "reservation_by_id db (rv_id r) = Some r"
proof -
  have "inj_on rv_id (set (reservations db))" using assms(1) by (simp add: keys_ok_def distinct_map)
  moreover obtain q where q: "first_such (\<lambda>x. rv_id x = rv_id r) (reservations db) = Some q"
    using assms(2) by (cases "first_such (\<lambda>x. rv_id x = rv_id r) (reservations db)") (auto simp: first_such_None)
  moreover have "q \<in> set (reservations db)" "rv_id q = rv_id r" using first_such_Some [OF q] by simp_all
  ultimately have "q = r" using assms(2) by (auto dest: inj_onD)
  then show ?thesis using q by (simp add: reservation_by_id_def)
qed

lemma by_id_cong: "reservations db' = reservations db \<Longrightarrow> reservation_by_id db' k = reservation_by_id db k"
  by (simp add: reservation_by_id_def)

lemma row_ok_money: "row_ok r \<Longrightarrow> list_all (opt_all (on_grid 4)) (reservation_money r)"
  by (simp add: row_ok_def)

lemma row_ok_clock: "row_ok r \<Longrightarrow> opt_all (\<lambda>t. rv_reserved_at r \<le> t) (rv_reconciled_at r)"
  by (simp add: row_ok_def opt_all_def split: option.splits)

lemma tame_mark_provisional:
  assumes "mark_provisional db r tot = Inr (db', r')" and "reservation_by_id db (rv_id r) = Some r"
    and "rv_status r \<in> set open_statuses"
  shows "tame W config db db'" and "reservation_by_id db' (rv_id r') = Some r'" and "rv_reserved_at r' = rv_reserved_at r"
    and "rv_id r' = rv_id r" and "reads db' = reads db" and "runs db' = runs db" and "rv_status r' \<in> set open_statuses"
proof -
  have "tame W config db db' \<and> reservation_by_id db' (rv_id r') = Some r' \<and> rv_reserved_at r' = rv_reserved_at r
    \<and> rv_id r' = rv_id r \<and> reads db' = reads db \<and> runs db' = runs db \<and> rv_status r' \<in> set open_statuses"
  proof (cases tot)
    case None
    then show ?thesis using assms by (simp add: mark_provisional_def tame_refl)
  next
    case (Some t)
    let ?upd = "\<lambda>m r. r\<lparr>rv_usage_provisional := Some (max (amount (rv_usage_provisional r)) m),
                 rv_status := (if rv_status r = RESERVED then USAGE_PROVISIONAL else rv_status r)\<rparr>"
    obtain m where m: "money_up t = Inr m" and s: "save_reservation db (?upd m r) = Inr db'" and r': "r' = ?upd m r"
      using assms(1,2) by (auto simp: mark_provisional_def Some Let_def andThen_eq_Inr save_columns_eq_Inr)
    have id: "rv_id r' = rv_id r" by (simp add: r')
    have st: "rv_status r' \<in> set open_statuses" using assms(3) by (auto simp: r' open_statuses_def)
    note s = s [folded r']
    have "tame W config db db'"
    proof (rule tame_save [OF _ s])
      show "reservation_by_id db (rv_id r') = Some r" using assms(2) id by simp
      show "rv_class r' = rv_class r" by (simp add: r')
      assume ok: "row_ok r"
      have g: "on_grid 4 (amount (rv_usage_provisional r))"
        using row_ok_money [OF ok] by (auto simp: reservation_money_def amount_def on_grid_zero split: option.splits)
      have "on_grid 4 m" using m usd_on_grid by (simp add: money_up_eq_Inr)
      then have "on_grid 4 (max (amount (rv_usage_provisional r)) m)" using g by (simp add: max_def)
      then show "list_all (opt_all (on_grid 4)) (reservation_money r')"
        using row_ok_money [OF ok] by (simp add: reservation_money_def r')
      show "opt_all (\<lambda>t. rv_reserved_at r' \<le> t) (rv_reconciled_at r')" using row_ok_clock [OF ok] by (simp add: r')
      show "row_debit db config g s e r' \<le> row_debit db config g s e r" for g s e
        using open_debit [OF st, of db config g s e] open_debit [OF assms(3), of db config g s e] by (simp add: r')
    qed
    moreover have "reservation_by_id db' (rv_id r') = Some r'"
      by (rule saved_reservation [OF s]) (use assms(2) id in simp)
    ultimately show ?thesis using id st s by (simp add: r' save_reservation_eq_Inr)
  qed
  then show "tame W config db db'" "reservation_by_id db' (rv_id r') = Some r'" "rv_reserved_at r' = rv_reserved_at r"
    "rv_id r' = rv_id r" "reads db' = reads db" "runs db' = runs db" "rv_status r' \<in> set open_statuses" by blast+
qed

lemma run_by_id_save:
  assumes "save_run db p = Inr db'" and "run_by_id db (pr_id p) = Some q"
  shows "run_by_id db' k = (if k = pr_id p then Some p else run_by_id db k)"
  using assms by (auto simp: save_run_eq_Inr run_by_id_def first_such_replace first_such_replace_other dest!: first_such_Some)

lemma tame_save_run:
  assumes "save_run db p = Inr db'" and "run_by_id db (pr_id p) = Some q" and "pr_correction_reads p = pr_correction_reads q"
  shows "tame W config db db'"
proof -
  have db': "db' = db\<lparr>runs := replace_by pr_id p (runs db)\<rparr>" using assms(1) by (simp add: save_run_eq_Inr)
  have same: "row_debit db' = row_debit db"
    by (rule row_debit_reads) (use assms run_by_id_save [OF assms(1,2)] in simp)
  have "class_debit db' config g s e op = class_debit db config g s e op" for g s e op
    by (simp add: class_debit_def same) (simp add: db')
  then have "eases config db db'" by (simp add: eases_def db')
  moreover have "ledger_ok db' = ledger_ok db" "keys_ok db' = keys_ok db" "alarm W db' = alarm W db"
    by (rule ledger_ok_cong keys_ok_cong alarm_cong; simp add: db')+
  ultimately show ?thesis by (simp add: tame_def sound_def db')
qed

text \<open>The rows of the ledger are not stamped ahead of the clock.\<close>

definition reserved_before :: "ledger_db \<Rightarrow> instant \<Rightarrow> bool" where
  "reserved_before db now \<longleftrightarrow> (\<forall>r \<in> set (reservations db). rv_reserved_at r \<le> now)"

lemma tame_read_and_settle:
  assumes a: "append_read db r run t tot u f config' = Inr (db1, k)" and m: "mark_provisional db1 r tot = Inr (db2, r2)"
    and s: "try_settle db2 r2 p now config = Inr (db', b)" and r: "reservation_by_id db (rv_id r) = Some r"
    and "rv_status r \<in> set open_statuses" and "rv_reserved_at r \<le> now" and W: "(OVERRUN, map_option pr_id p) \<in> W"
  shows "tame W config db db'"
proof -
  have r1: "reservation_by_id db1 (rv_id r) = Some r"
    using r append_read_effect [OF a] by (auto simp: reservation_by_id_def)
  note mp = tame_mark_provisional [OF m r1 assms(5)]
  have "tame W config db2 db'" by (rule tame_try_settle [OF s mp(2) _ W]) (use mp(3) assms(6) in simp)
  from tame_trans [OF tame_append_read [OF a] tame_trans [OF mp(1) this]] show ?thesis .
qed

lemma tame_record_run_usage:
  assumes "record_run_usage db k a read_at config = Inr (db', b)" and "reserved_before db read_at"
    and W: "(OVERRUN, Some k) \<in> W"
  shows "tame W config db db'"
proof (rule tame_if_sound)
  assume sd: "sound db"
  obtain resv p db1 db2 where l: "lock_by_run db k = Inr (resv, p)"
    and t1: "latch_on_components a (Some k) config read_at db = Inr db1"
    and t2: "(if ap_restart_count a \<notin> {None, Some 0} then trip START_OPTION_MISMATCH (Some k) config read_at db1
       else Inr db1) = Inr db2"
    and k: "(case resv of None \<Rightarrow> Inr (db2, False)
     | Some r \<Rightarrow>
         if rv_status r \<notin> set open_statuses then Inr (db2, False) else
         andThen (append_read db2 r (Some (pr_id p)) read_at (ap_total a) (ap_usage_usd a) (ap_finished_at a) config) (\<lambda>(db, _).
         andThen (mark_provisional db r (ap_total a)) (\<lambda>(db, r).
         try_settle db r (Some p) read_at config))) = Inr (db', b)"
    using assms(1) unfolding record_run_usage_def
    by (elim andThen_pair_InrE, elim andThen_InrE) (rule that, assumption+)
  obtain n1 n2 where n: "db1 = db\<lparr>trips := trips db @ n1\<rparr>" "db2 = db1\<lparr>trips := trips db1 @ n2\<rparr>"
    using latch_on_components_effect [OF t1] trip_if_effect [OF t2] by blast
  have t12: "tame W config db db2"
    using tame_trans [OF tame_trip_if [OF t1 [unfolded latch_on_components_def]] tame_trip_if [OF t2]] .
  show "tame W config db db'"
  proof (cases "\<exists>r. resv = Some r \<and> rv_status r \<in> set open_statuses")
    case False
    then have "db' = db2" using k by (auto split: option.splits if_splits)
    then show ?thesis using t12 by simp
  next
    case True
    then obtain r where r: "resv = Some r" "rv_status r \<in> set open_statuses" by blast
    obtain db3 j db4 r4 where st: "append_read db2 r (Some (pr_id p)) read_at (ap_total a) (ap_usage_usd a) (ap_finished_at a) config = Inr (db3, j)"
      "mark_provisional db3 r (ap_total a) = Inr (db4, r4)" "try_settle db4 r4 (Some p) read_at config = Inr (db', b)"
      using k r(2) unfolding r(1) by (simp only: option.case if_False not_not simp_thms) (elim andThen_pair_InrE, rule that, assumption+)
    have mem: "r \<in> set (reservations db)" and k': "pr_id p = k"
      using l r(1) run_by_id_Some by (auto simp: lock_by_run_def andThen_eq_Inr get_row_eq_Inr dest!: first_such_Some)
    have "reservation_by_id db2 (rv_id r) = Some r"
      using by_id_of_mem [OF _ mem] sd by (simp add: n sound_def reservation_by_id_def)
    then have "tame W config db2 db'"
      by (rule tame_read_and_settle [OF st]) (use r(2) mem assms(2) W k' in \<open>auto simp: reserved_before_def\<close>)
    then show ?thesis by (rule tame_trans [OF t12])
  qed
qed

lemma lock_by_runD:
  assumes "lock_by_run db k = Inr (resv, p)"
  shows "run_by_id db k = Some p \<and> pr_id p = k"
    and "resv = Some r \<Longrightarrow> r \<in> set (reservations db) \<and> rv_run r = Some k"
  using assms by (auto simp: lock_by_run_def andThen_eq_Inr get_row_eq_Inr dest!: first_such_Some run_by_id_Some)

lemma lock_by_reservationD:
  assumes "lock_by_reservation db k = Inr (r, run)"
  shows "reservation_by_id db k = Some r \<and> r \<in> set (reservations db) \<and> rv_id r = k"
    and "run = (case rv_run r of None \<Rightarrow> None | Some j \<Rightarrow> run_by_id db j)"
    and "run = None \<longleftrightarrow> rv_run r = None" and "run = Some p \<Longrightarrow> rv_run r = Some (pr_id p)"
  using assms
  by (auto simp: lock_by_reservation_def andThen_eq_Inr get_row_eq_Inr dest: reservation_by_id_Some run_by_id_Some split: option.splits)

lemma try_settle_runs:
  assumes "try_settle db r run now config = Inr (db', b)"
  shows "runs db' = runs db"
  using assms
proof (cases rule: try_settleE)
  case (settled anchor eligible deadline window figure basis fin r')
  then show ?thesis
    by (auto simp: save_settled_eq_Inr save_reservation_eq_Inr dest: trip_if_effect)
qed simp

lemma tame_plan_settlement_read:
  assumes "plan_settlement_read db k now config = Inr (db', out)" and "reserved_before db now"
    and W: "(OVERRUN, Some k) \<in> W"
  shows "tame W config db db'"
proof (rule tame_if_sound)
  assume sd: "sound db"
  obtain resv p where l: "lock_by_run db k = Inr (resv, p)"
    and k: "(case resv of None \<Rightarrow> Inr (db, None) | Some r \<Rightarrow>
         if rv_status r \<notin> set open_statuses then Inr (db, None) else
         andThen (try_settle db r (Some p) now config) (\<lambda>(db, done').
         if done' then Inr (db, None) else
         (case (anchor_of db r (Some p), pr_external_id p) of
            (Some anchor, Some external) \<Rightarrow>
              (case eligible_from anchor config of
                 Inl (Raised (BudgetDenied _ _)) \<Rightarrow> Inr (db, None)
               | Inl e \<Rightarrow> Inl e
               | Inr eligible \<Rightarrow>
                   if now < eligible then
                     andThen (save_run db (p\<lparr>pr_next_attempt_at := Some eligible\<rparr>)) (\<lambda>db. Inr (db, None))
                   else (case max_run_polls (budget config) of
                       None \<Rightarrow> Inr (db, None)
                     | Some c \<Rightarrow>
                         if c \<le> int (pr_run_polls p) then Inr (db, None) else
                         andThen (interval_of (usage_stable_interval_s config)) (\<lambda>interval.
                         andThen (date_add now interval) (\<lambda>next'.
                         andThen (save_run db (p\<lparr>pr_run_polls := pr_run_polls p + 1, pr_next_attempt_at := Some next'\<rparr>)) (\<lambda>db.
                         Inr (db, Some external))))))
          | _ \<Rightarrow> Inr (db, None)))) = Inr (db', out)"
    using assms(1) unfolding plan_settlement_read_def by (rule andThen_pair_InrE)
  show "tame W config db db'"
  proof (cases "\<exists>r. resv = Some r \<and> rv_status r \<in> set open_statuses")
    case False
    then have "db' = db" using k by (auto split: option.splits if_splits)
    then show ?thesis by (simp add: tame_refl)
  next
    case True
    then obtain r where r: "resv = Some r" "rv_status r \<in> set open_statuses" by blast
    have mem: "r \<in> set (reservations db)" using lock_by_runD(2) [OF l r(1)] by blast
    obtain db1 b where s: "try_settle db r (Some p) now config = Inr (db1, b)"
      and rest: "db' = db1 \<or> (\<exists>q. pr_id q = pr_id p \<and> pr_correction_reads q = pr_correction_reads p \<and> save_run db1 q = Inr db')"
      using k r(2) unfolding r(1)
      by (simp only: option.case if_False not_not simp_thms)
        (elim andThen_pair_InrE, rule that, assumption,
          auto simp: andThen_eq_Inr split: if_splits option.splits sum.splits ledger_error.splits budget_error.splits prod.splits)
    have "reservation_by_id db (rv_id r) = Some r" using by_id_of_mem [OF _ mem] sd by (simp add: sound_def)
    then have t: "tame W config db db1"
      by (rule tame_try_settle [OF s]) (use mem assms(2) W lock_by_runD(1) [OF l] in \<open>auto simp: reserved_before_def\<close>)
    have same: "run_by_id db1 (pr_id p) = Some p"
      using try_settle_runs [OF s] lock_by_runD(1) [OF l] by (simp add: run_by_id_def)
    from rest show ?thesis
    proof
      assume "\<exists>q. pr_id q = pr_id p \<and> pr_correction_reads q = pr_correction_reads p \<and> save_run db1 q = Inr db'"
      then obtain q where q: "pr_id q = pr_id p" "pr_correction_reads q = pr_correction_reads p" "save_run db1 q = Inr db'" by blast
      have "tame W config db1 db'" by (rule tame_save_run [OF q(3) _ q(2)]) (use same q(1) in simp)
      then show ?thesis by (rule tame_trans [OF t])
    qed (use t in simp)
  qed
qed

text \<open>A save of named columns that keeps the money, the clocks, the class and the debit.\<close>

lemma tame_columns:
  assumes "save_columns db k f = Inr db'"
    and "\<And>r. rv_class (f r) = rv_class r \<and> rv_id (f r) = rv_id r"
    and "\<And>r. reservation_by_id db k = Some r \<Longrightarrow> row_ok r \<Longrightarrow> list_all (opt_all (on_grid 4)) (reservation_money (f r))
       \<and> opt_all (\<lambda>t. rv_reserved_at (f r) \<le> t) (rv_reconciled_at (f r))"
    and "\<And>r g s e. reservation_by_id db k = Some r \<Longrightarrow> row_ok r \<Longrightarrow> guard_of config = Inr g \<Longrightarrow>
       row_debit db config g s e (f r) \<le> row_debit db config g s e r"
  shows "tame W config db db'"
proof -
  obtain q where q: "reservation_by_id db k = Some q" "save_reservation db (f q) = Inr db'"
    using assms(1) by (auto simp: save_columns_eq_Inr)
  have "rv_id q = k" using reservation_by_id_Some [OF q(1)] by simp
  then have "reservation_by_id db (rv_id (f q)) = Some q" using q(1) assms(2) by simp
  then show ?thesis
    by (rule tame_save [OF _ q(2)]) (use assms(2-4) q(1) in blast)+
qed

lemma row_debit_cong:
  assumes "rv_status r' = rv_status r" "rv_estimate r' = rv_estimate r" "rv_monitoring r' = rv_monitoring r"
    "rv_reserved_at r' = rv_reserved_at r" "rv_actual r' = rv_actual r" "rv_last_charge_at r' = rv_last_charge_at r"
    "rv_reconciled_at r' = rv_reconciled_at r" "rv_monitoring_call_pending_since r' = rv_monitoring_call_pending_since r"
    "rv_kind r' = rv_kind r" "rv_monitor_closed_at r' = rv_monitor_closed_at r" "rv_run r' = rv_run r"
    "rv_correction_reads r' = rv_correction_reads r" "rv_monitoring_charge_last_at r' = rv_monitoring_charge_last_at r"
  shows "row_debit db config g s e r' = row_debit db config g s e r"
proof -
  have "correction_reads db r' = correction_reads db r" by (simp only: correction_reads_def assms)
  then have "monitoring_open db r' config = monitoring_open db r config"
    by (simp only: monitoring_open_def has_obligation_def assms)
  then have "monitoring_end db config g r' = monitoring_end db config g r" by (simp only: monitoring_end_def assms)
  then show ?thesis by (simp only: row_debit_def assms)
qed

lemma tame_bind_build:
  assumes "bind_build db k build_id now = Inr (db', b)"
  shows "tame W config db db'"
proof -
  have "db' = db \<or> (\<exists>n. save_columns db k (\<lambda>r. r\<lparr>rv_build_id := Some n, rv_next_usage_read_at := Some now\<rparr>) = Inr db')"
    using assms by (auto simp: bind_build_def Let_def andThen_eq_Inr split: option.splits if_splits)
  then show ?thesis
  proof (elim disjE exE)
    fix n
    assume s: "save_columns db k (\<lambda>r. r\<lparr>rv_build_id := Some n, rv_next_usage_read_at := Some now\<rparr>) = Inr db'"
    show ?thesis
    proof (rule tame_columns [OF s])
      fix r g s e
      show "row_debit db config g s e (r\<lparr>rv_build_id := Some n, rv_next_usage_read_at := Some now\<rparr>) \<le> row_debit db config g s e r"
        by (rule eq_refl, rule row_debit_cong) simp_all
    qed (simp_all add: reservation_money_def row_ok_def opt_all_def split: option.splits)
  qed (simp add: tame_refl)
qed

lemma tame_plan_build_read:
  assumes "plan_build_read db k now config = Inr (db', out)" and "reserved_before db now"
    and W: "(OVERRUN, None) \<in> W"
  shows "tame W config db db'"
proof -
  obtain r run where l: "lock_by_reservation db k = Inr (r, run)"
    and k: "(if rv_status r \<notin> set open_statuses \<or> rv_build_id r = None then Inr (db, None) else
     andThen (try_settle db r None now config) (\<lambda>(db, done').
     if done' then Inr (db, None) else
     (case max_run_polls (budget config) of
        None \<Rightarrow> Inr (db, None)
      | Some c \<Rightarrow>
          if c \<le> int (rv_run_polls r) then Inr (db, None) else
          andThen (interval_of (usage_stable_interval_s config)) (\<lambda>interval.
          andThen (date_add now interval) (\<lambda>next'.
          andThen (save_columns db k (\<lambda>q. q\<lparr>rv_run_polls := rv_run_polls r + 1, rv_next_usage_read_at := Some next'\<rparr>)) (\<lambda>db.
          Inr (db, rv_build_id r))))))) = Inr (db', out)"
    using assms(1) unfolding plan_build_read_def by (rule andThen_pair_InrE)
  note lk = lock_by_reservationD(1) [OF l]
  show ?thesis
  proof (cases "rv_status r \<notin> set open_statuses \<or> rv_build_id r = None")
    case True
    then show ?thesis using k by (auto simp: tame_refl)
  next
    case False
    obtain db1 b where s: "try_settle db r None now config = Inr (db1, b)"
      and rest: "db' = db1 \<or> (\<exists>n t. save_columns db1 k (\<lambda>q. q\<lparr>rv_run_polls := n, rv_next_usage_read_at := t\<rparr>) = Inr db')"
      using k False
      by (simp only: if_False)
        (elim andThen_pair_InrE, rule that, assumption, auto simp: andThen_eq_Inr split: if_splits option.splits)
    have t: "tame W config db db1"
      by (rule tame_try_settle [OF s]) (use lk assms(2) W in \<open>auto simp: reserved_before_def\<close>)
    from rest show ?thesis
    proof (elim disjE exE)
      fix n t'
      assume sc: "save_columns db1 k (\<lambda>q. q\<lparr>rv_run_polls := n, rv_next_usage_read_at := t'\<rparr>) = Inr db'"
      have "tame W config db1 db'"
      proof (rule tame_columns [OF sc])
        fix r g s e
        show "row_debit db1 config g s e (r\<lparr>rv_run_polls := n, rv_next_usage_read_at := t'\<rparr>) \<le> row_debit db1 config g s e r"
          by (rule eq_refl, rule row_debit_cong) simp_all
      qed (simp_all add: reservation_money_def row_ok_def opt_all_def split: option.splits)
      then show ?thesis by (rule tame_trans [OF t])
    qed (use t in simp)
  qed
qed

lemma tame_record_build_usage:
  assumes "record_build_usage db k a read_at config = Inr (db', b)" and "reserved_before db read_at"
    and W: "(OVERRUN, None) \<in> W"
  shows "tame W config db db'"
proof -
  obtain r run db1 where l: "lock_by_reservation db k = Inr (r, run)"
    and t1: "latch_on_components a None config read_at db = Inr db1"
    and k: "(if rv_status r \<notin> set open_statuses then Inr (db1, False) else
     andThen (append_read db1 r None read_at (ap_total a) (ap_usage_usd a)
       (if ap_status a \<in> set TERMINAL_RUN_STATUSES then ap_finished_at a else None) config) (\<lambda>(db, _).
     andThen (mark_provisional db r (ap_total a)) (\<lambda>(db, r).
     try_settle db r None read_at config))) = Inr (db', b)"
    using assms(1) unfolding record_build_usage_def by (elim andThen_pair_InrE, elim andThen_InrE) (rule that, assumption+)
  note lk = lock_by_reservationD(1) [OF l]
  obtain n1 where n: "db1 = db\<lparr>trips := trips db @ n1\<rparr>" using latch_on_components_effect [OF t1] by blast
  have t: "tame W config db db1" by (rule tame_trip_if [OF t1 [unfolded latch_on_components_def]])
  show ?thesis
  proof (cases "rv_status r \<in> set open_statuses")
    case False
    then show ?thesis using k t by auto
  next
    case True
    obtain db3 j db4 r4 where st: "append_read db1 r None read_at (ap_total a) (ap_usage_usd a)
       (if ap_status a \<in> set TERMINAL_RUN_STATUSES then ap_finished_at a else None) config = Inr (db3, j)"
      "mark_provisional db3 r (ap_total a) = Inr (db4, r4)" "try_settle db4 r4 None read_at config = Inr (db', b)"
      using k True by (simp only: if_False not_not simp_thms) (elim andThen_pair_InrE, rule that, assumption+)
    have "reservation_by_id db1 (rv_id r) = Some r" using lk by (auto simp: n reservation_by_id_def)
    then have "tame W config db1 db'"
      by (rule tame_read_and_settle [OF st]) (use True lk assms(2) W in \<open>auto simp: reserved_before_def\<close>)
    then show ?thesis by (rule tame_trans [OF t])
  qed
qed

lemma row_debit_nonneg: "row_ok r \<Longrightarrow> 0 \<le> row_debit db config g s e r"
  using row_money_nonneg [of r] by (auto simp: row_debit_def split: reservation_status.splits)

lemma tame_release_each: "release_each db rs = Inr db' \<Longrightarrow> tame W config db db'"
proof (induction rs arbitrary: db)
  case Nil
  then show ?case by (simp add: tame_refl)
next
  case (Cons r rs)
  obtain db1 where s: "save_columns db (rv_id r) released_row = Inr db1" and rest: "release_each db1 rs = Inr db'"
    using Cons.prems by (auto simp: andThen_eq_Inr)
  have "tame W config db db1"
  proof (rule tame_columns [OF s])
    fix q g s e
    assume ok: "row_ok q"
    have "row_debit db config g s e (released_row q) = 0" by (simp add: row_debit_def released_row_def)
    then show "row_debit db config g s e (released_row q) \<le> row_debit db config g s e q"
      using row_debit_nonneg [OF ok] by simp
  next
    fix q
    assume ok: "row_ok q"
    show "list_all (opt_all (on_grid 4)) (reservation_money (released_row q))
       \<and> opt_all (\<lambda>t. rv_reserved_at (released_row q) \<le> t) (rv_reconciled_at (released_row q))"
      using row_ok_money [OF ok] row_ok_clock [OF ok] by (simp add: released_row_def reservation_money_def on_grid_zero)
  qed (simp add: released_row_def)
  from tame_trans [OF this Cons.IH [OF rest]] show ?case .
qed

lemma tame_release_unattached:
  assumes "release_unattached_reservations db now grace = Inr (db', ids)"
  shows "tame W config db db'"
proof -
  have "db' = db \<or> (\<exists>rs. release_each db rs = Inr db')"
    using assms by (auto simp: release_unattached_reservations_def Let_def andThen_eq_Inr split: option.splits if_splits)
  then show ?thesis using tame_release_each tame_refl by blast
qed

lemma tame_settle_operator:
  assumes "settle_operator db k now probe verified = Inr db'" and "reserved_before db now"
  shows "tame W config db db'"
proof -
  obtain r d where r: "reservation_by_id db k = Some r" and open': "rv_status r \<in> set open_statuses"
    and s: "save_reservation db (r\<lparr>rv_probe_dataset := d, rv_settled_usage := Some (amount (rv_estimate r)), rv_post_run_cost := Some 0,
                  rv_cost_mode := Some COST_BOUND, rv_basis := Some BASIS_BOUND, rv_actual := Some (amount (rv_estimate r)),
                  rv_reconciled_at := Some now, rv_last_charge_at := Some now, rv_status := RECONCILED\<rparr>) = Inr db'"
  proof -
    obtain r where r: "reservation_by_id db k = Some r" "rv_status r \<in> set open_statuses"
      using assms(1) by (auto simp: settle_operator_def split: option.splits if_splits)
    let ?p = "if rv_kind r = Some PROBE then r\<lparr>rv_probe_dataset := Some (strip (case probe of None \<Rightarrow> [] | Some d \<Rightarrow> d))\<rparr> else r"
    have eq: "?p = r\<lparr>rv_probe_dataset := rv_probe_dataset ?p\<rparr>" by simp
    have est: "amount (rv_estimate ?p) = amount (rv_estimate r)" by simp
    have "save_reservation db (?p\<lparr>rv_settled_usage := Some (amount (rv_estimate r)), rv_post_run_cost := Some 0,
                  rv_cost_mode := Some COST_BOUND, rv_basis := Some BASIS_BOUND, rv_actual := Some (amount (rv_estimate r)),
                  rv_reconciled_at := Some now, rv_last_charge_at := Some now, rv_status := RECONCILED\<rparr>) = Inr db'"
      using assms(1) r unfolding settle_operator_def Let_def by (simp only: option.case split: if_splits) auto
    then show thesis by (subst (asm) eq) (rule that [OF r])
  qed
  define r' where "r' = r\<lparr>rv_probe_dataset := d, rv_settled_usage := Some (amount (rv_estimate r)), rv_post_run_cost := Some 0,
                  rv_cost_mode := Some COST_BOUND, rv_basis := Some BASIS_BOUND, rv_actual := Some (amount (rv_estimate r)),
                  rv_reconciled_at := Some now, rv_last_charge_at := Some now, rv_status := RECONCILED\<rparr>"
  note s = s [folded r'_def]
  have le: "rv_reserved_at r \<le> now" using assms(2) reservation_by_id_Some [OF r] by (auto simp: reserved_before_def)
  have id: "rv_id r' = k" using reservation_by_id_Some [OF r] by (simp add: r'_def)
  show ?thesis
  proof (rule tame_save [OF _ s])
    show "reservation_by_id db (rv_id r') = Some r" using r id by simp
    assume ok: "row_ok r"
    have "on_grid 4 (amount (rv_estimate r))"
      using row_ok_money [OF ok] by (auto simp: reservation_money_def amount_def on_grid_zero split: option.splits)
    then show "list_all (opt_all (on_grid 4)) (reservation_money r')"
      using row_ok_money [OF ok] by (simp add: reservation_money_def r'_def on_grid_zero)
    show "opt_all (\<lambda>t. rv_reserved_at r' \<le> t) (rv_reconciled_at r')" using le by (simp add: r'_def)
    show "row_debit db config g s e r' \<le> row_debit db config g s e r" if "row_ok r'" for g s e
      by (rule settled_debit_le [OF open' _ ok that _ _ _ _ le])
        (simp_all add: r'_def amount_def [of "Some (amount (rv_estimate r))"])
  qed (simp add: r'_def)
qed

section \<open>Markers a previous process left\<close>

definition resolved_marker :: "instant \<Rightarrow> reservation \<Rightarrow> reservation" where
  "resolved_marker started r = (if stale_marker started r then
           r\<lparr>rv_monitoring_call_pending_since := None,
             rv_monitoring_charge_last_at := Some (case rv_monitoring_charge_last_at r of
                 None \<Rightarrow> started | Some t \<Rightarrow> max t started)\<rparr>
         else r)"

lemma resolve_stale_eq:
  "resolve_stale_monitoring_markers db started
     = (db\<lparr>reservations := map (resolved_marker started) (reservations db)\<rparr>, length (filter (stale_marker started) (reservations db)))"
  by (simp add: resolve_stale_monitoring_markers_def resolved_marker_def)

lemma resolved_marker_fields:
  "rv_id (resolved_marker t r) = rv_id r" "rv_class (resolved_marker t r) = rv_class r" "rv_run (resolved_marker t r) = rv_run r"
  "row_ok (resolved_marker t r) = row_ok r"
proof -
  have f: "rv_id (resolved_marker t r) = rv_id r \<and> rv_class (resolved_marker t r) = rv_class r \<and> rv_run (resolved_marker t r) = rv_run r"
    by (simp add: resolved_marker_def)
  show "rv_id (resolved_marker t r) = rv_id r" "rv_class (resolved_marker t r) = rv_class r" "rv_run (resolved_marker t r) = rv_run r"
    using f by blast+
  have e: "envelope_by_kind (r\<lparr>rv_monitoring_call_pending_since := a, rv_monitoring_charge_last_at := b\<rparr>) = envelope_by_kind r" for a b
    by (simp add: envelope_by_kind_def split: option.split operator_kind.split)
  have "row_ok (r\<lparr>rv_monitoring_call_pending_since := a, rv_monitoring_charge_last_at := b\<rparr>) = row_ok r" for a b
    unfolding row_ok_def reservation_checks_def reservation_fits_def reservation_money_def e by (simp cong: if_cong option.case_cong split del: if_split)
  then show "row_ok (resolved_marker t r) = row_ok r" by (simp add: resolved_marker_def)
qed

text \<open>An interval that ends no later meets no more.\<close>

lemma monitoring_end_le_debit:
  assumes "rv_status r' = rv_status r" "rv_estimate r' = rv_estimate r" "rv_reserved_at r' = rv_reserved_at r"
    "rv_actual r' = rv_actual r" "rv_last_charge_at r' = rv_last_charge_at r" "rv_reconciled_at r' = rv_reconciled_at r"
    and mon: "amount (rv_monitoring r') \<le> amount (rv_monitoring r)" "0 \<le> amount (rv_monitoring r)"
    and "monitoring_end db' config g r' \<le> monitoring_end db config g r"
  shows "row_debit db' config g s e r' \<le> row_debit db config g s e r"
  using assms by (cases "rv_status r") (auto simp: row_debit_def touches_def)

lemma tame_resolve_stale:
  assumes "guard_of config = Inr g0" and "started + g0 \<le> NEVER"
    and "\<And>r t. r \<in> set (reservations db) \<Longrightarrow> rv_monitoring_charge_last_at r = Some t \<Longrightarrow> t + g0 \<le> NEVER"
  shows "tame W config db (fst (resolve_stale_monitoring_markers db started))"
proof (rule tame_if_sound)
  assume sd: "sound db"
  let ?f = "resolved_marker started" and ?db = "fst (resolve_stale_monitoring_markers db started)"
  have db': "?db = db\<lparr>reservations := map ?f (reservations db)\<rparr>" by (simp add: resolve_stale_eq)
  have same: "row_debit ?db = row_debit db" by (rule row_debit_runs) (simp add: db')
  have ends: "monitoring_end db config g0 (?f r) \<le> monitoring_end db config g0 r"
    if r: "r \<in> set (reservations db)" and st: "stale_marker started r" for r
  proof -
    have "monitoring_end db config g0 r = NEVER"
      using st by (auto simp: stale_marker_def monitoring_end_def monitoring_open_def split: option.splits)
    moreover have "monitoring_end db config g0 (?f r) \<le> NEVER"
      using st assms(2) assms(3) [OF r] by (auto simp: resolved_marker_def monitoring_end_def split: option.splits)
    ultimately show ?thesis by simp
  qed
  have ok: "row_ok r" if "r \<in> set (reservations db)" for r using sd that by (auto simp: sound_def ledger_ok_def)
  have debit: "row_debit db config g0 s e (?f r) \<le> row_debit db config g0 s e r" if r: "r \<in> set (reservations db)" for r s e
  proof (cases "stale_marker started r")
    case True
    show ?thesis
      by (rule monitoring_end_le_debit [OF _ _ _ _ _ _ _ _ ends [OF r True]])
        (use row_money_nonneg(2) [OF ok [OF r]] True in \<open>simp_all add: resolved_marker_def\<close>)
  qed (simp add: resolved_marker_def)
  have "eases config db ?db"
    unfolding eases_def
  proof (intro conjI allI impI)
    fix g s e op
    assume "guard_of config = Inr g"
    then have "g = g0" using assms(1) by simp
    show "class_debit ?db config g s e op \<le> class_debit db config g s e op"
      by (rule class_debit_map_le [of _ ?f]) (use debit \<open>g = g0\<close> in \<open>simp_all add: db' resolved_marker_fields same [unfolded db']\<close>)
  qed (simp_all add: db')
  moreover have "ledger_ok ?db" using sd by (auto simp: sound_def ledger_ok_def db' resolved_marker_fields)
  moreover have "keys_ok ?db"
  proof -
    have m: "map rv_id (map ?f (reservations db)) = map rv_id (reservations db)" by (simp add: resolved_marker_fields)
    have "\<forall>r \<in> set (map ?f (reservations db)). rv_id r < next_id db"
      using sd by (auto simp: sound_def keys_ok_def resolved_marker_fields)
    moreover have "\<forall>r \<in> set (map ?f (reservations db)). \<forall>q \<in> set (map ?f (reservations db)).
        rv_run r \<noteq> None \<longrightarrow> rv_run q = rv_run r \<longrightarrow> rv_id q = rv_id r"
    proof -
      have k: "\<forall>r \<in> set (reservations db). \<forall>q \<in> set (reservations db). rv_run r \<noteq> None \<longrightarrow> rv_run q = rv_run r \<longrightarrow> rv_id q = rv_id r"
        using sd unfolding sound_def keys_ok_def by blast
      show ?thesis unfolding set_map ball_simps resolved_marker_fields using k by blast
    qed
    moreover have "distinct (map rv_id (reservations db))" using sd unfolding sound_def keys_ok_def by blast
    moreover have "reservations ?db = map ?f (reservations db)" "next_id ?db = next_id db" by (simp_all add: db')
    ultimately show ?thesis unfolding keys_ok_def by (simp only: m simp_thms)
  qed
  moreover have "alarm W ?db = alarm W db" by (rule alarm_cong) (simp add: db')
  ultimately show "tame W config db ?db" by (simp add: tame_def sound_def db')
qed

end
