(* ===== verification/MonitoringSafety.thy ===== *)
theory MonitoringSafety
  imports SettleFrame
begin

text \<open>
  Correction monitoring and the caps of a cycle: starting a counted read changes no debit, completing
  one changes none upward except by a correction, and a correction is re-checked against every
  recorded cycle it touches. Composed with admission and settlement into one step relation.
\<close>

section \<open>What easing a ledger does for the caps\<close>

lemma caps_mono:
  assumes d: "\<And>op. class_debit db' config g cs ce op \<le> class_debit db config g cs ce op"
    and c: "carried_of db' cs = carried_of db cs" and "within_caps config g cs ce db"
  shows "within_caps config g cs ce db'"
proof -
  note caps = assms(3) [unfolded within_caps_def]
  show ?thesis
    unfolding within_caps_def c
  proof (intro conjI allI impI)
    fix t w
    assume s: "cycle_target_usd (budget config) = Some (DFin t)" "operator_allowance_usd (budget config) = Some (DFin w)"
    have "class_debit db config g cs ce False + carried_of db cs \<le> dsub t w" "class_debit db config g cs ce True \<le> w"
      using caps s by auto
    then show "class_debit db' config g cs ce False + carried_of db cs \<le> dsub t w" "class_debit db' config g cs ce True \<le> w"
      using d [of False] d [of True] by linarith+
  next
    fix b m x
    assume s: "account_limit_usd (budget config) = Some (DFin b)" "account_margin_usd (budget config) b = Inr m"
      "external_liability_usd (budget config) = Some (DFin x)"
    have "dadd (class_debit db' config g cs ce False + class_debit db' config g cs ce True + carried_of db cs) x
        \<le> dadd (class_debit db config g cs ce False + class_debit db config g cs ce True + carried_of db cs) x"
      by (rule dadd_mono) (use d [of False] d [of True] in linarith)+
    also have "\<dots> \<le> dsub b m" using caps s by auto
    finally show "dadd (class_debit db' config g cs ce False + class_debit db' config g cs ce True + carried_of db cs) x \<le> dsub b m" .
  qed
qed

lemma no_further_trans: "no_further config g cs ce db db1 \<Longrightarrow> no_further config g cs ce db1 db2 \<Longrightarrow> no_further config g cs ce db db2"
  unfolding no_further_def le_max_iff_disj by (meson order_trans)

lemma within_no_further: "within_caps config g cs ce db' \<Longrightarrow> no_further config g cs ce db db'"
  unfolding no_further_def within_caps_def by (simp add: le_max_iff_disj)

lemma less_no_further:
  assumes d: "\<And>op. class_debit db' config g cs ce op \<le> class_debit db config g cs ce op" and c: "carried_of db' cs = carried_of db cs"
  shows "no_further config g cs ce db db'"
proof -
  have "dadd (class_debit db' config g cs ce False + class_debit db' config g cs ce True + carried_of db cs) x
      \<le> dadd (class_debit db config g cs ce False + class_debit db config g cs ce True + carried_of db cs) x" for x
    by (rule dadd_mono) (use d [of False] d [of True] in linarith)+
  then show ?thesis using d [of False] d [of True] by (simp add: no_further_def c le_max_iff_disj)
qed

lemma eases_no_further: "eases config db db' \<Longrightarrow> guard_of config = Inr g \<Longrightarrow> no_further config g cs ce db db'"
  by (rule less_no_further) (simp_all add: eases_def carried_of_def)

section \<open>Starting a read\<close>

lemma monitoring_end_pending: "rv_monitoring_call_pending_since r \<noteq> None \<Longrightarrow> monitoring_end db config g r = NEVER"
  by (simp add: monitoring_end_def monitoring_open_def)

lemma no_obligation_no_allowance: "row_ok r \<Longrightarrow> \<not> has_obligation r \<Longrightarrow> amount (rv_monitoring r) = 0"
proof -
  assume "row_ok r"
  then have "rv_kind r \<notin> {Some INSPECT, Some PROBE} \<or> opt_all (\<lambda>m. m = 0) (rv_monitoring r)"
    unfolding row_ok_def reservation_checks_def by blast
  moreover assume "\<not> has_obligation r"
  ultimately show ?thesis by (cases "rv_monitoring r") (auto simp: has_obligation_def amount_def)
qed

text \<open>The marked row owed its monitoring bound for good before the mark, and does after it.\<close>

definition marked :: "instant \<Rightarrow> nat \<Rightarrow> reservation \<Rightarrow> reservation" where
  "marked now n r = r\<lparr>rv_correction_reads := n, rv_monitoring_call_pending_since := Some now, rv_monitoring_charge_last_at := Some now\<rparr>"

lemma marked_fields [simp]:
  "rv_id (marked t n r) = rv_id r" "rv_class (marked t n r) = rv_class r" "rv_run (marked t n r) = rv_run r"
  "reservation_money (marked t n r) = reservation_money r" "rv_reserved_at (marked t n r) = rv_reserved_at r"
  "rv_reconciled_at (marked t n r) = rv_reconciled_at r" "rv_monitoring (marked t n r) = rv_monitoring r"
  "rv_actual (marked t n r) = rv_actual r" "rv_last_charge_at (marked t n r) = rv_last_charge_at r"
  "rv_status (marked t n r) = rv_status r" "rv_estimate (marked t n r) = rv_estimate r"
  by (simp_all add: marked_def reservation_money_def)

lemma marked_end: "monitoring_end db config g (marked t n r) = NEVER"
  by (rule monitoring_end_pending) (simp add: marked_def)

lemma marked_debit:
  assumes "row_ok r" and "rv_status r = RECONCILED" and "rv_monitor_closed_at r = None"
    and "reads_left config (correction_reads db r)"
  shows "row_debit db' config g s e (marked t n r) \<le> row_debit db config g s e r"
proof (cases "has_obligation r")
  case True
  have "monitoring_end db config g r = NEVER"
    using assms(3,4) True by (auto simp: monitoring_end_def monitoring_open_def reads_left_def split: option.splits)
  then show ?thesis using assms(2) by (simp add: row_debit_def marked_end)
next
  case False
  have "amount (rv_monitoring r) = 0" by (rule no_obligation_no_allowance [OF assms(1) False])
  then show ?thesis using assms(2) by (simp add: row_debit_def)
qed

text \<open>Counting a read on a run touches no other row: a run carries at most one reservation.\<close>

lemma correction_reads_other:
  assumes "\<And>k. rv_run x = Some k \<Longrightarrow> run_by_id db' k = run_by_id db k"
  shows "row_debit db' config g s e x = row_debit db config g s e x"
proof -
  have "correction_reads db' x = correction_reads db x"
    using assms by (auto simp: correction_reads_def run_by_id_def split: option.splits)
  then have "monitoring_open db' x config = monitoring_open db x config" by (simp only: monitoring_open_def)
  then have "monitoring_end db' config g x = monitoring_end db config g x" by (simp only: monitoring_end_def)
  then show ?thesis by (simp only: row_debit_def)
qed

lemma correction_count_reads:
  assumes "lock_by_reservation db k = Inr (r, run)"
  shows "correction_count r run = correction_reads db r"
proof (cases run)
  case None
  then have "rv_run r = None" using lock_by_reservationD(3) [OF assms] by blast
  then show ?thesis using None by (simp add: correction_count_def correction_reads_def)
next
  case (Some p)
  have run: "rv_run r = Some (pr_id p)" by (rule lock_by_reservationD(4) [OF assms Some])
  then have "run_by_id db (pr_id p) = Some p" using lock_by_reservationD(2) [OF assms] Some by simp
  then show ?thesis using run Some by (simp add: correction_count_def correction_reads_def run_by_id_def)
qed

lemma sound_cong:
  assumes "reservations db' = reservations db" and "authorities db' = authorities db" and "next_id db' = next_id db"
  shows "sound db' = sound db"
  unfolding sound_def ledger_ok_cong [OF assms(1,2)] keys_ok_cong [OF assms(1,3)] ..

lemma tame_marked:
  assumes db1: "db1 = db\<lparr>runs := rs\<rparr>" and r: "reservation_by_id db k = Some r"
    and c: "save_columns db1 k (marked t n) = Inr db'"
    and other: "\<And>x j. sound db \<Longrightarrow> x \<in> set (reservations db) \<Longrightarrow> rv_id x \<noteq> k \<Longrightarrow> rv_run x = Some j \<Longrightarrow> run_by_id db1 j = run_by_id db j"
    and st: "rv_status r = RECONCILED" "rv_monitor_closed_at r = None" "reads_left config (correction_reads db r)"
  shows "tame W config db db'"
  unfolding tame_def
proof
  assume sd: "sound db"
  have id: "rv_id r = k" and mem: "r \<in> set (reservations db)" using reservation_by_id_Some [OF r] by auto
  have ok: "row_ok r" using sd mem by (auto simp: sound_def ledger_ok_def)
  have r1: "reservation_by_id db1 k = Some r" using r by (simp add: db1 reservation_by_id_def)
  have s: "save_reservation db1 (marked t n r) = Inr db'" using c r1 by (auto simp: save_columns_eq_Inr)
  have sd1: "sound db1" using sd sound_cong [of db1 db] by (simp add: db1)
  have ok': "row_ok (marked t n r)"
    by (rule saved_row_ok [OF s]) (use row_ok_money [OF ok] row_ok_clock [OF ok] in simp_all)
  have q: "reservation_by_id db1 (rv_id (marked t n r)) = Some r" using r1 id by simp
  have sound': "sound db'" by (rule sound_save [OF sd1 q s ok'])
  have db': "db' = db1\<lparr>reservations := replace_by rv_id (marked t n r) (reservations db)\<rparr>"
    using s by (simp add: save_reservation_eq_Inr db1)
  have only: "x = r" if "x \<in> set (reservations db)" "rv_id x = k" for x
  proof -
    have "inj_on rv_id (set (reservations db))" using sd by (simp add: sound_def keys_ok_def distinct_map)
    then show ?thesis by (rule inj_onD) (use that mem id in simp_all)
  qed
  have same: "row_debit db' = row_debit db1" by (rule row_debit_runs) (simp add: db')
  have debit: "row_debit db' config g s e (if rv_id x = k then marked t n r else x) \<le> row_debit db config g s e x"
    if x: "x \<in> set (reservations db)" for g s e x
  proof (cases "rv_id x = k")
    case True
    then show ?thesis using only [OF x True] marked_debit [OF ok st] by simp
  next
    case False
    then show ?thesis unfolding same using correction_reads_other [OF other [OF sd x False]] by simp
  qed
  have "eases config db db'"
    unfolding eases_def
  proof (intro conjI allI impI)
    fix g s e op
    show "class_debit db' config g s e op \<le> class_debit db config g s e op"
    proof (rule class_debit_map_le)
      show "reservations db' = map (\<lambda>x. if rv_id x = k then marked t n r else x) (reservations db)"
        by (simp add: db' replace_by_def id)
    qed (use only debit in auto)
  qed (simp_all add: db' db1)
  moreover have "alarm W db' = alarm W db" by (rule alarm_cong) (simp add: db' db1)
  moreover have "cycles db' = cycles db" by (simp add: db' db1)
  ultimately show "sound db' \<and> cycles db' = cycles db \<and> (alarm W db \<longrightarrow> alarm W db') \<and> (alarm W db' \<or> eases config db db')" using sound' by blast
qed

lemma tame_begin_monitoring_read:
  assumes "begin_monitoring_read db k now config = Inr (db', call)"
  shows "tame W config db db'"
proof -
  obtain r run where l: "lock_by_reservation db k = Inr (r, run)" and b: "(if rv_status r \<noteq> RECONCILED \<or> rv_monitor_until r = None
        \<or> rv_monitor_closed_at r \<noteq> None \<or> rv_monitoring_call_pending_since r \<noteq> None \<or> \<not> reads_left config (correction_count r run)
     then Inr (db, None)
     else case run of
          Some p \<Rightarrow>
            (case pr_external_id p of
               None \<Rightarrow> Inr (db, None)
             | Some external \<Rightarrow>
                 andThen (save_run db (p\<lparr>pr_correction_reads := pr_correction_reads p + 1\<rparr>)) (\<lambda>db.
                 andThen (save_columns db k (marked now (rv_correction_reads r))) (\<lambda>db.
                 Inr (db, Some \<lparr>mc_reservation = k, mc_kind = MonitorRun, mc_remote_id = external\<rparr>))))
        | None \<Rightarrow>
            (case rv_build_id r of
               None \<Rightarrow> Inr (db, None)
             | Some b \<Rightarrow>
                 andThen (save_columns db k (marked now (rv_correction_reads r + 1))) (\<lambda>db.
                 Inr (db, Some \<lparr>mc_reservation = k, mc_kind = MonitorBuild, mc_remote_id = b\<rparr>)))) = Inr (db', call)"
    using assms unfolding begin_monitoring_read_def Let_def marked_def by (rule andThen_pair_InrE)
  note ld = lock_by_reservationD [OF l]
  have r: "reservation_by_id db k = Some r" and mem: "r \<in> set (reservations db)" using ld(1) by auto
  show ?thesis
  proof (cases "db' = db")
    case False
    then have st: "rv_status r = RECONCILED" "rv_monitor_closed_at r = None" "reads_left config (correction_reads db r)"
      using b correction_count_reads [OF l] by (auto split: if_splits)
    consider (run) p db1 where "run = Some p" "save_run db (p\<lparr>pr_correction_reads := pr_correction_reads p + 1\<rparr>) = Inr db1"
        "save_columns db1 k (marked now (rv_correction_reads r)) = Inr db'"
      | (build) "save_columns db k (marked now (rv_correction_reads r + 1)) = Inr db'"
      using b False by (auto simp: andThen_eq_Inr split: if_splits option.splits)
    then show ?thesis
    proof cases
      case run
      have run': "rv_run r = Some (pr_id p)" using ld(4) run(1) by simp
      have by_id: "run_by_id db (pr_id p) = Some p" using ld(2) run(1) run' by simp
      show ?thesis
      proof (rule tame_marked [OF _ r run(3) _ st])
        show "db1 = db\<lparr>runs := replace_by pr_id (p\<lparr>pr_correction_reads := pr_correction_reads p + 1\<rparr>) (runs db)\<rparr>"
          using run(2) by (simp add: save_run_eq_Inr)
        fix x j
        assume sd: "sound db" and x: "x \<in> set (reservations db)" "rv_id x \<noteq> k" "rv_run x = Some j"
        have "\<forall>r \<in> set (reservations db). \<forall>q \<in> set (reservations db). rv_run r \<noteq> None \<longrightarrow> rv_run q = rv_run r \<longrightarrow> rv_id q = rv_id r"
          using sd unfolding sound_def keys_ok_def by blast
        then have "rv_run r \<noteq> None \<longrightarrow> rv_run x = rv_run r \<longrightarrow> rv_id x = rv_id r" using mem x(1) by blast
        then have "j \<noteq> pr_id p" using x run' ld(1) by auto
        then show "run_by_id db1 j = run_by_id db j" using run_by_id_save [OF run(2)] by_id by simp
      qed
    next
      case build
      show ?thesis by (rule tame_marked [where rs = "runs db", OF _ r build _ st]) simp_all
    qed
  qed (simp add: tame_refl)
qed

section \<open>A correction re-checked\<close>

lemma breaches_of_Nil:
  "breaches_of db config l r cs = Inr [] \<Longrightarrow> c \<in> set cs \<Longrightarrow>
     \<exists>d a. cycle_debits_of db c config = Inr (d, a) \<and> cycle_breaches l r (cy_start c) d = Inr []"
  by (induction cs) (auto simp: andThen_eq_Inr lift_budget_eq_Inr)

lemma cycle_breaches_Nil:
  assumes "cycle_breaches l r label d = Inr []"
  shows "\<not> bl_allocation l < dadd (runtime_committed_usd d) (carried_handoff_usd d)"
    and "\<not> bl_allowance l < operator_committed_usd d"
    and "bl_usable l = Some u \<Longrightarrow> exceeds_with (dadd (dadd (runtime_committed_usd d) (carried_handoff_usd d))
        (operator_committed_usd d)) (bl_external l) u = Inr False"
  using assms by (auto simp: cycle_breaches_def Let_def andThen_eq_Inr when_found_def split: if_splits option.splits)

lemma recheck_exact:
  assumes "exact_debits db config g s e c d"
  shows "dadd (runtime_committed_usd d) (carried_handoff_usd d) = class_debit db config g s e False + c"
    and "dadd (dadd (runtime_committed_usd d) (carried_handoff_usd d)) (operator_committed_usd d)
      = class_debit db config g s e False + class_debit db config g s e True + c"
proof -
  let ?r = "runtime_committed_usd d" and ?o = "operator_committed_usd d"
  note ex = assms [unfolded exact_debits_def]
  have m: "money (3 * 10 ^ 15) ?r" "money (3 * 10 ^ 15) ?o" "money 1 (carried_handoff_usd d)" using ex by auto
  have rc: "dadd ?r (carried_handoff_usd d) = ?r + carried_handoff_usd d"
    "money (3 * 10 ^ 15 + 1) (?r + carried_handoff_usd d)"
    using money_dadd [OF m(1,3)] money_add [OF m(1,3)] by simp_all
  have ro: "dadd (?r + carried_handoff_usd d) ?o = ?r + carried_handoff_usd d + ?o"
    using money_dadd [OF rc(2) m(2)] by simp
  show "dadd ?r (carried_handoff_usd d) = class_debit db config g s e False + c" using rc(1) ex by simp
  show "dadd (dadd ?r (carried_handoff_usd d)) ?o = class_debit db config g s e False + class_debit db config g s e True + c"
    using rc(1) ro ex by simp
qed

lemma lift_guard_guard_of: "lift_guard config = Inr g' \<Longrightarrow> guard_of config = Inr g \<Longrightarrow> g' = g"
  by (auto simp: lift_guard_def seconds_of_def guard_of_def split: option.splits if_splits)

lemma read_limits_Inr:
  assumes "read_limits cfg usable = Inr l"
  shows "bl_usable l = usable \<and> operator_allowance_usd cfg = Some (DFin (bl_allowance l))
     \<and> external_liability_usd cfg = Some (bl_external l) \<and> project_allocation cfg = Inr (bl_allocation l)"
proof -
  obtain a where "project_allocation cfg = Inr a" and
    "(case (operator_allowance_usd cfg, cycle_target_usd cfg, external_liability_usd cfg, watch_refresh_reserve_usd cfg) of
       (Some (DFin allowance), Some (DFin target), Some external, Some withheld) \<Rightarrow>
         Inr \<lparr>bl_usable = usable, bl_allocation = a, bl_allowance = allowance, bl_target = target,
           bl_external = external, bl_reserve = withheld\<rparr>
     | _ \<Rightarrow> Inl (BudgetDenied BUDGET_SETTING_INVALID ''a budget setting is unset'')) = Inr l"
    using assms unfolding read_limits_def by (rule andThen_InrE)
  then show ?thesis by (auto split: option.split_asm decimal.split_asm)
qed

text \<open>A re-check that finds nothing found every recorded cycle the row's charge interval meets within its caps.\<close>

lemma no_breach_within:
  assumes i: "invariant_breaches db r config now = Inr []" and ok: "ledger_ok db" and g: "guard_of config = Inr g"
    and c: "c \<in> set (cycles db)" and lc: "rv_last_charge_at r = Some last_charge"
    and touch: "cy_start c \<le> last_charge + g" "rv_reserved_at r - g \<le> cy_end c"
  shows "within_caps config g (cy_start c) (cy_end c) db"
proof -
  let ?cfg = "budget config"
  obtain found usable where a: "(case account_setting_problem ?cfg now of Some (name, _) \<Rightarrow> Inr ([Unverifiable name], None)
      | None \<Rightarrow> andThen (lift_budget (usable_share ?cfg)) (\<lambda>u. Inr ([], Some u))) = Inr (found, usable)"
    and b: "(case andThen (lift_guard config) (\<lambda>g. andThen (lift_budget (read_limits ?cfg usable)) (\<lambda>l. Inr (g, l))) of
            Inl (Raised (BudgetDenied _ detail)) \<Rightarrow> Inr (found @ [Unverifiable detail])
          | Inl e \<Rightarrow> Inl e
          | Inr (g, l) \<Rightarrow>
              andThen (date_add last_charge g) (\<lambda>upto.
              andThen (date_add (rv_reserved_at r) (- g)) (\<lambda>since.
              let touched = sort_key cy_start (filter (\<lambda>c. cy_start c \<le> upto \<and> since \<le> cy_end c) (cycles db)) in
              andThen (breaches_of db config l r touched) (\<lambda>bs. Inr (found @ bs))))) = Inr []"
    using i unfolding invariant_breaches_def Let_def lc option.case by (rule andThen_pair_InrE)
  obtain g' l where lim': "andThen (lift_guard config) (\<lambda>g. andThen (lift_budget (read_limits ?cfg usable)) (\<lambda>l. Inr (g, l))) = Inr (g', l)"
  proof (cases "andThen (lift_guard config) (\<lambda>g. andThen (lift_budget (read_limits ?cfg usable)) (\<lambda>l. Inr (g, l)))")
    case (Inl e)
    then show ?thesis using b by (cases e) (auto split: budget_error.splits)
  next
    case (Inr gl)
    then show ?thesis using that by (cases gl) simp
  qed
  have g': "lift_guard config = Inr g'" and l: "read_limits ?cfg usable = Inr l"
    using lim' by (auto simp: andThen_eq_Inr lift_budget_eq_Inr)
  obtain upto since where d: "date_add last_charge g' = Inr upto" "date_add (rv_reserved_at r) (- g') = Inr since"
    and bs: "breaches_of db config l r (sort_key cy_start (filter (\<lambda>c. cy_start c \<le> upto \<and> since \<le> cy_end c) (cycles db))) = Inr []"
    and "found = []"
    using b unfolding lim' by (auto simp: andThen_eq_Inr Let_def)
  then obtain u where u: "usable_share ?cfg = Inr u" "usable = Some u"
    using a by (auto simp: andThen_eq_Inr lift_budget_eq_Inr split: option.splits)
  have "g' = g" using g' g by (rule lift_guard_guard_of)
  then have "upto = last_charge + g" "since = rv_reserved_at r - g" using d by (auto simp: date_add_def andThen_eq_Inr split: if_splits)
  then have "c \<in> set (sort_key cy_start (filter (\<lambda>c. cy_start c \<le> upto \<and> since \<le> cy_end c) (cycles db)))" using c touch by simp
  from breaches_of_Nil [OF bs this] obtain db' a where
    cd: "cycle_debits_of db c config = Inr (db', a)" and none: "cycle_breaches l r (cy_start c) db' = Inr []" by blast
  obtain t where t: "tally_of db (cy_start c) (cy_end c) config True = Inr t" and dt: "db' = tally_debits t"
    using cd by (auto simp: cycle_debits_of_def andThen_eq_Inr)
  have ex: "exact_debits db config g (cy_start c) (cy_end c) (carried_of db (cy_start c)) db'"
    using tally_exact [OF t ok g] dt by simp
  note r = recheck_exact [OF ex] and n = cycle_breaches_Nil [OF none]
  have o: "operator_committed_usd db' = class_debit db config g (cy_start c) (cy_end c) True" using ex by (simp add: exact_debits_def)
  have lim: "bl_usable l = Some u"
    "operator_allowance_usd (budget config) = Some (DFin (bl_allowance l))"
    "external_liability_usd (budget config) = Some (bl_external l)"
    "project_allocation (budget config) = Inr (bl_allocation l)"
    using read_limits_Inr [OF l] u(2) by simp_all
  show ?thesis
    unfolding within_caps_def
  proof (intro conjI allI impI)
    fix tg w
    assume s: "cycle_target_usd (budget config) = Some (DFin tg)" "operator_allowance_usd (budget config) = Some (DFin w)"
    have "bl_allocation l = dsub tg w" "bl_allowance l = w"
      using lim(2,4) s by (auto simp: project_allocation_def andThen_eq_Inr setting_eq_Inr)
    then show "class_debit db config g (cy_start c) (cy_end c) False + carried_of db (cy_start c) \<le> dsub tg w"
      "class_debit db config g (cy_start c) (cy_end c) True \<le> w" using n(1,2) r(1) o by auto
  next
    fix b m x
    assume s: "account_limit_usd (budget config) = Some (DFin b)" "account_margin_usd (budget config) b = Inr m"
      "external_liability_usd (budget config) = Some (DFin x)"
    have "u = dsub b m" using u(1) s by (simp add: usable_share_def)
    moreover have "bl_external l = DFin x" using lim(3) s(3) by simp
    ultimately show "dadd (class_debit db config g (cy_start c) (cy_end c) False + class_debit db config g (cy_start c) (cy_end c) True
        + carried_of db (cy_start c)) x \<le> dsub b m" using n(3) [OF lim(1)] r(2) by auto
  qed
qed

section \<open>Completing a read\<close>

definition recorded :: "instant \<Rightarrow> instant \<Rightarrow> ledger_db \<Rightarrow> bool" where
  "recorded cs ce db \<longleftrightarrow> (\<exists>c \<in> set (cycles db). cy_start c = cs \<and> cy_end c = ce)"

text \<open>
  A step that, with the cycle \<open>[cs, ce]\<close> recorded, either takes no figure further beyond its cap or leaves a
  standing trip of \<open>W\<close>.
\<close>

definition careful ::
  "(latch_reason \<times> int option) set \<Rightarrow> ledger_config \<Rightarrow> instant \<Rightarrow> instant \<Rightarrow> ledger_db \<Rightarrow> ledger_db \<Rightarrow> bool" where
  "careful W config cs ce db db' \<longleftrightarrow> (sound db \<and> recorded cs ce db \<longrightarrow> sound db' \<and> recorded cs ce db'
     \<and> (alarm W db \<longrightarrow> alarm W db')
     \<and> (alarm W db' \<or> (\<forall>g. guard_of config = Inr g \<longrightarrow> no_further config g cs ce db db')))"

lemma careful_trans: "careful W config cs ce db db1 \<Longrightarrow> careful W config cs ce db1 db2 \<Longrightarrow> careful W config cs ce db db2"
  unfolding careful_def using no_further_trans by blast

lemma careful_if: "(sound db \<Longrightarrow> recorded cs ce db \<Longrightarrow> careful W config cs ce db db') \<Longrightarrow> careful W config cs ce db db'"
  by (auto simp: careful_def)

lemma tame_careful:
  assumes "tame W config db db'"
  shows "careful W config cs ce db db'"
  using assms eases_no_further unfolding tame_def careful_def recorded_def by metis

lemma careful_refl: "careful W config cs ce db db"
  by (rule tame_careful) (rule tame_refl)

text \<open>What the re-check misses it need not look at: a cycle the charge interval does not meet owes nothing of it.\<close>

lemma actual_untouched:
  assumes "\<not> touches (rv_reserved_at r - g) (the (rv_last_charge_at r) + g) s e \<or> rv_status r \<noteq> RECONCILED"
  shows "row_debit db config g s e (r\<lparr>rv_settled_usage := a, rv_actual := b\<rparr>) = row_debit db config g s e r"
proof -
  let ?r = "r\<lparr>rv_settled_usage := a, rv_actual := b\<rparr>"
  have "correction_reads db ?r = correction_reads db r" by (simp add: correction_reads_def split: option.split)
  then have "monitoring_open db ?r config = monitoring_open db r config"
    by (simp add: monitoring_open_def has_obligation_def cong: option.case_cong)
  then have "monitoring_end db config g ?r = monitoring_end db config g r"
    by (simp add: monitoring_end_def split: option.split)
  then show ?thesis using assms by (cases "rv_status r") (simp_all add: row_debit_def)
qed

lemma apply_correctionE:
  assumes "apply_correction db r tot now config run_id = Inr (db', r')"
  obtains (same) figure where "db' = db" and "r' = r" and "usd tot = Inr figure" and "figure \<le> amount (rv_settled_usage r)"
  | (raised) figure actual db1 db2 bs where "usd tot = Inr figure" and "amount (rv_settled_usage r) < figure"
      and "usd (dadd (amount (rv_actual r)) (dsub figure (amount (rv_settled_usage r)))) = Inr actual"
      and "r' = r\<lparr>rv_settled_usage := Some figure, rv_actual := Some actual\<rparr>"
      and "save_columns db (rv_id r) (\<lambda>q. q\<lparr>rv_settled_usage := Some figure, rv_actual := Some actual\<rparr>) = Inr db1"
      and "(if amount (rv_estimate r) < actual then trip OVERRUN run_id config (instant_of now) db1 else Inr db1) = Inr db2"
      and "invariant_breaches db2 r' config now = Inr bs"
      and "(if bs \<noteq> [] then trip POST_ADMISSION_INVARIANT_BREACH run_id config (instant_of now) db2 else Inr db2) = Inr db'"
proof -
  obtain figure where f: "usd tot = Inr figure" and rest: "(if figure \<le> amount (rv_settled_usage r) then Inr (db, r) else
      andThen (money_up (dadd (amount (rv_actual r)) (dsub figure (amount (rv_settled_usage r))))) (\<lambda>actual.
      andThen (save_columns db (rv_id r) (\<lambda>q. q\<lparr>rv_settled_usage := Some figure, rv_actual := Some actual\<rparr>)) (\<lambda>db.
      andThen (if amount (rv_estimate (r\<lparr>rv_settled_usage := Some figure, rv_actual := Some actual\<rparr>)) < actual
        then trip OVERRUN run_id config (instant_of now) db else Inr db) (\<lambda>db.
      andThen (invariant_breaches db (r\<lparr>rv_settled_usage := Some figure, rv_actual := Some actual\<rparr>) config now) (\<lambda>bs.
      andThen (if bs \<noteq> [] then trip POST_ADMISSION_INVARIANT_BREACH run_id config (instant_of now) db else Inr db) (\<lambda>db.
      Inr (db, r\<lparr>rv_settled_usage := Some figure, rv_actual := Some actual\<rparr>))))))) = Inr (db', r')"
    using assms unfolding apply_correction_def Let_def by (elim andThen_InrE) (simp only: money_up_eq_Inr)
  show thesis
  proof (cases "figure \<le> amount (rv_settled_usage r)")
    case True
    then show thesis using rest same f by simp
  next
    case False
    obtain actual where a: "usd (dadd (amount (rv_actual r)) (dsub figure (amount (rv_settled_usage r)))) = Inr actual"
      and rest: "andThen (save_columns db (rv_id r) (\<lambda>q. q\<lparr>rv_settled_usage := Some figure, rv_actual := Some actual\<rparr>)) (\<lambda>db.
      andThen (if amount (rv_estimate r) < actual
        then trip OVERRUN run_id config (instant_of now) db else Inr db) (\<lambda>db.
      andThen (invariant_breaches db (r\<lparr>rv_settled_usage := Some figure, rv_actual := Some actual\<rparr>) config now) (\<lambda>bs.
      andThen (if bs \<noteq> [] then trip POST_ADMISSION_INVARIANT_BREACH run_id config (instant_of now) db else Inr db) (\<lambda>db.
      Inr (db, r\<lparr>rv_settled_usage := Some figure, rv_actual := Some actual\<rparr>))))) = Inr (db', r')"
      using rest False by (simp only: if_False andThen_eq_Inr money_up_eq_Inr) auto
    from rest obtain db1 db2 bs db3 where ch:
      "save_columns db (rv_id r) (\<lambda>q. q\<lparr>rv_settled_usage := Some figure, rv_actual := Some actual\<rparr>) = Inr db1"
      "(if amount (rv_estimate r) < actual then trip OVERRUN run_id config (instant_of now) db1 else Inr db1) = Inr db2"
      "invariant_breaches db2 (r\<lparr>rv_settled_usage := Some figure, rv_actual := Some actual\<rparr>) config now = Inr bs"
      "(if bs \<noteq> [] then trip POST_ADMISSION_INVARIANT_BREACH run_id config (instant_of now) db2 else Inr db2) = Inr db3"
      and r: "(Inr (db3, r\<lparr>rv_settled_usage := Some figure, rv_actual := Some actual\<rparr>) :: ledger_error + _) = Inr (db', r')"
      by (elim andThen_InrE) (rule that, assumption+)
    have "db3 = db'" "r' = r\<lparr>rv_settled_usage := Some figure, rv_actual := Some actual\<rparr>" using r by simp_all
    with ch show thesis using raised [of figure actual db1 db2 bs] f a False by (simp only: not_le)
  qed
qed

text \<open>A correction: the alarm, or the cycle re-checked, or a cycle it does not meet.\<close>

abbreviation corrected :: "rat \<Rightarrow> rat \<Rightarrow> reservation \<Rightarrow> reservation" where
  "corrected figure actual r \<equiv> r\<lparr>rv_settled_usage := Some figure, rv_actual := Some actual\<rparr>"

lemma corrected_row_ok:
  assumes "save_reservation db (corrected figure actual q) = Inr db'" and "row_ok q" and "on_grid 4 figure" and "on_grid 4 actual"
  shows "row_ok (corrected figure actual q)"
  by (rule saved_row_ok [OF assms(1)])
    (use row_ok_money [OF assms(2)] row_ok_clock [OF assms(2)] assms(3,4) in \<open>simp_all add: reservation_money_def\<close>)

lemma careful_saved:
  assumes q: "reservation_by_id db (rv_id r) = Some q" and s: "save_reservation db r = Inr db'"
    and ok: "row_ok r" and cls: "rv_class r = rv_class q"
    and debit: "\<And>g. guard_of config = Inr g \<Longrightarrow>
       row_debit db config g cs ce r \<le> row_debit db config g cs ce q \<or> within_caps config g cs ce db'"
  shows "careful W config cs ce db db'"
proof (rule careful_if)
  assume sd: "sound db" and rc: "recorded cs ce db"
  have sd': "sound db'" by (rule sound_save [OF sd q s ok])
  have db': "db' = db\<lparr>reservations := replace_by rv_id r (reservations db)\<rparr>" using s by (simp add: save_reservation_eq_Inr)
  have al: "alarm W db' = alarm W db" by (rule alarm_cong) (simp add: db')
  have mem: "q \<in> set (reservations db)" "rv_id q = rv_id r" using reservation_by_id_Some [OF q] by auto
  have only: "x = q" if "x \<in> set (reservations db)" "rv_id x = rv_id r" for x
  proof -
    have "inj_on rv_id (set (reservations db))" using sd by (simp add: sound_def keys_ok_def distinct_map)
    then show ?thesis by (rule inj_onD) (use that mem in simp_all)
  qed
  have same: "row_debit db' = row_debit db" by (rule row_debit_runs) (simp add: db')
  have "no_further config g cs ce db db'" if gg: "guard_of config = Inr g" for g
  proof (cases "row_debit db config g cs ce r \<le> row_debit db config g cs ce q")
    case True
    have "class_debit db' config g cs ce op \<le> class_debit db config g cs ce op" for op
    proof (rule class_debit_map_le)
      show "reservations db' = map (\<lambda>x. if rv_id x = rv_id r then r else x) (reservations db)" by (simp add: db' replace_by_def)
    qed (use only cls True in \<open>auto simp: same\<close>)
    then show ?thesis by (rule less_no_further) (simp add: carried_of_def db')
  qed (use debit [OF gg] within_no_further in blast)
  moreover have "recorded cs ce db'" using rc by (simp add: recorded_def db')
  ultimately show "careful W config cs ce db db'" using sd' al by (simp add: careful_def)
qed

lemma careful_correction:
  assumes a: "apply_correction db r tot now config run_id = Inr (db', r')" and sd: "sound db" and rc: "recorded cs ce db"
    and q: "reservation_by_id db (rv_id r) = Some q"
    and eq: "rv_last_charge_at r = rv_last_charge_at q" "rv_reserved_at r = rv_reserved_at q" "rv_estimate r = rv_estimate q"
    and W: "(POST_ADMISSION_INVARIANT_BREACH, run_id) \<in> W"
  shows "careful W config cs ce db db'"
  using a
proof (cases rule: apply_correctionE)
  case same
  then show ?thesis by (simp add: careful_refl)
next
  case (raised figure actual db1 db2 bs)
  let ?q = "corrected figure actual q"
  have s: "save_reservation db ?q = Inr db1" using raised(5) q by (auto simp: save_columns_eq_Inr)
  have id: "rv_id q = rv_id r" and mem: "q \<in> set (reservations db)" using reservation_by_id_Some [OF q] by auto
  have q': "reservation_by_id db (rv_id ?q) = Some q" using q id by simp
  have ok: "row_ok q" using sd mem by (auto simp: sound_def ledger_ok_def)
  have ok': "row_ok ?q" by (rule corrected_row_ok [OF s ok usd_on_grid [OF raised(1)] usd_on_grid [OF raised(3)]])
  have sd1: "sound db1" by (rule sound_save [OF sd q' s ok'])
  have t2: "tame W config db1 db2" by (rule tame_trip_if [OF raised(6)])
  have t3: "tame W config db2 db'" by (rule tame_trip_if [OF raised(8)])
  have sd2: "sound db2" using t2 sd1 by (simp add: tame_def)
  have sd3: "sound db'" using t3 sd2 by (simp add: tame_def)
  obtain new where db2: "db2 = db1\<lparr>trips := trips db1 @ new\<rparr>" using trip_if_effect [OF raised(6)] by blast
  show ?thesis
  proof (cases "bs = []")
    case False
    then have "trip POST_ADMISSION_INVARIANT_BREACH run_id config (instant_of now) db2 = Inr db'" using raised(8) by simp
    from trip_effect(2) [OF this] have "alarm W db'" using W by (auto simp: alarm_def)
    moreover have "recorded cs ce db'" using rc sd1 sd2 t2 t3 s by (simp add: tame_def recorded_def save_reservation_eq_Inr)
    ultimately show ?thesis using sd3 by (simp add: careful_def)
  next
    case True
    have "careful W config cs ce db db1"
    proof (rule careful_saved [OF q' s ok'])
      show "rv_class ?q = rv_class q" by simp
      fix g
      assume gg: "guard_of config = Inr g"
      from rc obtain c where c: "c \<in> set (cycles db)" "cy_start c = cs" "cy_end c = ce" by (auto simp: recorded_def)
      show "row_debit db config g cs ce ?q \<le> row_debit db config g cs ce q \<or> within_caps config g cs ce db1"
      proof (cases "touches (rv_reserved_at q - g) (the (rv_last_charge_at q) + g) cs ce")
        case False
        then show ?thesis using actual_untouched [of q g cs ce] by simp
      next
        case touch: True
        have i: "invariant_breaches db2 r' config now = Inr []" using raised(7) True by simp
        have "rv_last_charge_at r' \<noteq> None" using i by (auto simp: invariant_breaches_def Let_def split: option.split_asm)
        then obtain lc where lc: "rv_last_charge_at r' = Some lc" by blast
        have lc': "rv_last_charge_at q = Some lc" and res: "rv_reserved_at r' = rv_reserved_at q"
          using lc eq raised(4) by simp_all
        have "c \<in> set (cycles db2)" using c(1) s by (simp add: db2 save_reservation_eq_Inr)
        moreover have "ledger_ok db2" using sd2 by (simp add: sound_def)
        ultimately have "within_caps config g cs ce db2"
          using no_breach_within [OF i _ gg _ lc, of c] touch c lc' res by (simp add: touches_def)
        then show ?thesis by (auto intro: caps_mono [of db1 config g cs ce db2] simp: db2 class_debit_def carried_of_def row_debit_runs [of db1 db2])
      qed
    qed
    from careful_trans [OF careful_trans [OF this tame_careful [OF t2]] tame_careful [OF t3]] show ?thesis .
  qed
qed

text \<open>The final save: the marker goes, the last possible charge is now, the allowance may have shrunk.\<close>

lemma tame_finish:
  assumes q: "reservation_by_id db (rv_id r) = Some q" and s: "save_reservation db r = Inr db'"
    and pending: "rv_monitoring_call_pending_since q \<noteq> None"
    and eq: "rv_class r = rv_class q" "rv_status r = rv_status q" "rv_reserved_at r = rv_reserved_at q"
      "rv_last_charge_at r = rv_last_charge_at q" "rv_reconciled_at r = rv_reconciled_at q"
      "rv_estimate r = rv_estimate q" "rv_actual r = rv_actual q" "rv_execution r = rv_execution q" "rv_post_run r = rv_post_run q"
      "rv_usage_provisional r = rv_usage_provisional q" "rv_usage_finalized r = rv_usage_finalized q"
      "rv_post_run_cost r = rv_post_run_cost q" "rv_settled_usage r = rv_settled_usage q"
    and mon: "opt_all (on_grid 4) (rv_monitoring q) \<Longrightarrow> opt_all (on_grid 4) (rv_monitoring r)"
      "amount (rv_monitoring r) \<le> amount (rv_monitoring q)"
    and last': "rv_monitoring_charge_last_at r = Some t" and never: "\<And>g. guard_of config = Inr g \<Longrightarrow> t + g \<le> NEVER"
  shows "tame W config db db'"
proof (rule tame_save [OF q s eq(1)])
  show "list_all (opt_all (on_grid 4)) (reservation_money r)" if "row_ok q"
    using row_ok_money [OF that] mon(1) by (simp add: reservation_money_def eq)
  show "opt_all (\<lambda>t. rv_reserved_at r \<le> t) (rv_reconciled_at r)" if "row_ok q"
    using row_ok_clock [OF that] by (simp add: eq)
  fix g s e
  assume ok: "row_ok q" and g: "guard_of config = Inr g"
  have "monitoring_end db config g r \<le> NEVER" using never [OF g] last' by (simp add: monitoring_end_def)
  moreover have "monitoring_end db config g q = NEVER" by (rule monitoring_end_pending [OF pending])
  ultimately show "row_debit db config g s e r \<le> row_debit db config g s e q"
    by (intro monitoring_end_le_debit) (use eq mon(2) row_money_nonneg(2) [OF ok] in simp_all)
qed

lemma latch_on_result_effect:
  assumes "latch_on_result result run_id config t db = Inr db'"
  shows "\<exists>new. db' = db\<lparr>trips := trips db @ new\<rparr>"
proof (cases "db' = db")
  case True
  then have "db' = db\<lparr>trips := trips db @ []\<rparr>" by simp
  then show ?thesis by blast
next
  case False
  then show ?thesis using assms trip_effect(1) unfolding latch_on_result_def by (auto split: option.splits if_splits)
qed

lemma settle_monitoring_allowance_fields:
  assumes "settle_monitoring_allowance r run config = Inr r'"
  shows "\<exists>m. r' = r\<lparr>rv_monitoring := m\<rparr> \<and> amount m \<le> amount (rv_monitoring r)
     \<and> (opt_all (on_grid 4) (rv_monitoring r) \<longrightarrow> opt_all (on_grid 4) m)"
proof (cases "r' = r")
  case True
  then have "r' = r\<lparr>rv_monitoring := rv_monitoring r\<rparr>" by simp
  then show ?thesis by blast
next
  case False
  obtain counted where c: "andThen (api_call_bound (budget config)) (\<lambda>call. usd (dmul (of_int (int (correction_count r run))) call)) = Inr counted"
    and r': "r' = r\<lparr>rv_monitoring := Some (min (amount (rv_monitoring r)) counted)\<rparr>"
    using assms False by (auto simp: settle_monitoring_allowance_def split: if_splits sum.splits budget_error.splits)
  have "on_grid 4 counted" using c by (auto simp: andThen_eq_Inr intro: usd_on_grid)
  moreover have "on_grid 4 (amount (rv_monitoring r))" if "opt_all (on_grid 4) (rv_monitoring r)"
    using that by (auto simp: amount_def on_grid_zero split: option.splits)
  ultimately show ?thesis using r' by (auto simp: amount_def min_def)
qed

lemma correction_rows:
  assumes a: "apply_correction db r tot now config run_id = Inr (db', r')" and q: "reservation_by_id db (rv_id r) = Some q"
  shows "\<exists>a b. r' = r\<lparr>rv_settled_usage := a, rv_actual := b\<rparr>
     \<and> (rv_settled_usage r = rv_settled_usage q \<longrightarrow> rv_actual r = rv_actual q \<longrightarrow>
        reservation_by_id db' (rv_id r) = Some (q\<lparr>rv_settled_usage := a, rv_actual := b\<rparr>))"
  using a
proof (cases rule: apply_correctionE)
  case same
  have "r' = r\<lparr>rv_settled_usage := rv_settled_usage r, rv_actual := rv_actual r\<rparr>" using same by simp
  moreover have "q = q\<lparr>rv_settled_usage := rv_settled_usage q, rv_actual := rv_actual q\<rparr>" by simp
  ultimately show ?thesis using q same(1) by metis
next
  case (raised figure actual db1 db2 bs)
  have s: "save_reservation db (corrected figure actual q) = Inr db1" using raised(5) q by (auto simp: save_columns_eq_Inr)
  have id: "rv_id q = rv_id r" using reservation_by_id_Some [OF q] by simp
  have "reservation_by_id db1 (rv_id (corrected figure actual q)) = Some (corrected figure actual q)"
    by (rule saved_reservation [OF s]) (use q id in simp)
  moreover have "reservations db' = reservations db1"
    using trip_if_effect [OF raised(6)] trip_if_effect [OF raised(8)] by auto
  ultimately have "reservation_by_id db' (rv_id r) = Some (corrected figure actual q)"
    using id by (simp add: reservation_by_id_def)
  then show ?thesis using raised(4) by blast
qed

lemma apply_readE:
  assumes "apply_read db r run m tot now config = Inr (db', r', shut)"
  obtains db1 read_id r1 until where
    "append_read db r (map_option pr_id run) (instant_of now) (Some tot) (mr_usage_usd m) (mr_finished_at m) config = Inr (db1, read_id)"
    and "apply_correction db1 r tot now config (map_option pr_id run) = Inr (db', r1)"
    and "rv_monitor_until r1 = Some until" and "shut \<longleftrightarrow> until \<le> instant_of now"
    and "if shut then settle_monitoring_allowance (r1\<lparr>rv_monitor_closed_at := Some (instant_of now), rv_closing_read := Some read_id\<rparr>)
        run config = Inr r' else r' = r1"
proof -
  obtain db1 read_id where a: "append_read db r (map_option pr_id run) (instant_of now) (Some tot) (mr_usage_usd m) (mr_finished_at m) config
      = Inr (db1, read_id)" and rest: "andThen (apply_correction db1 r tot now config (map_option pr_id run)) (\<lambda>(db, r).
      case rv_monitor_until r of
        None \<Rightarrow> Inl (Raised AssertionError)
      | Some until \<Rightarrow>
          if until \<le> instant_of now then
            andThen (settle_monitoring_allowance (r\<lparr>rv_monitor_closed_at := Some (instant_of now), rv_closing_read := Some read_id\<rparr>) run config) (\<lambda>r.
            Inr (db, r, True))
          else Inr (db, r, False)) = Inr (db', r', shut)"
    using assms unfolding apply_read_def Let_def by (rule andThen_pair_InrE)
  from rest obtain db2 r1 where c: "apply_correction db1 r tot now config (map_option pr_id run) = Inr (db2, r1)"
    and rest: "(case rv_monitor_until r1 of
        None \<Rightarrow> Inl (Raised AssertionError)
      | Some until \<Rightarrow>
          if until \<le> instant_of now then
            andThen (settle_monitoring_allowance (r1\<lparr>rv_monitor_closed_at := Some (instant_of now), rv_closing_read := Some read_id\<rparr>) run config) (\<lambda>r.
            Inr (db2, r, True))
          else Inr (db2, r1, False)) = Inr (db', r', shut)"
    by (rule andThen_pair_InrE)
  obtain until where u: "rv_monitor_until r1 = Some until" using rest by (cases "rv_monitor_until r1") auto
  have "db2 = db'" using rest u by (auto simp: andThen_eq_Inr split: if_splits)
  then show thesis
    using that [OF a, of r1 until] c u rest by (auto simp: andThen_eq_Inr split: if_splits)
qed

lemma completeE:
  assumes "complete_monitoring_read db k result now config = Inr (db', shut)"
  obtains r run db1 db2 r2 r3 where "lock_by_reservation db k = Inr (r, run)"
    and "latch_on_result result (map_option pr_id run) config (instant_of now) db = Inr db1"
    and "(db2 = db1 \<and> \<not> shut \<and> r2 = r\<lparr>rv_monitoring_call_pending_since := None, rv_monitoring_charge_last_at := Some (instant_of now)\<rparr>)
      \<or> (\<exists>m tot. result = Some m \<and> mr_total m = Some tot \<and> \<not> mr_over_cap m
         \<and> apply_read db1 (r\<lparr>rv_monitoring_call_pending_since := None, rv_monitoring_charge_last_at := Some (instant_of now)\<rparr>)
             run m tot now config = Inr (db2, r2, shut))"
    and "if shut then r3 = r2 else (\<exists>n. next_read_at r2 (instant_of now) config = Inr n \<and> r3 = r2\<lparr>rv_next_usage_read_at := Some n\<rparr>)"
    and "save_reservation db2 r3 = Inr db'"
    and "\<And>m tot. result = Some m \<Longrightarrow> mr_total m = Some tot \<Longrightarrow> \<not> mr_over_cap m \<Longrightarrow>
        apply_read db1 (r\<lparr>rv_monitoring_call_pending_since := None, rv_monitoring_charge_last_at := Some (instant_of now)\<rparr>)
          run m tot now config = Inr (db2, r2, shut)"
proof -
  let ?t = "instant_of now"
  obtain r run where l: "lock_by_reservation db k = Inr (r, run)"
    and rest: "andThen (latch_on_result result (map_option pr_id run) config ?t db) (\<lambda>db.
     andThen (case result of
         None \<Rightarrow> Inr (db, r\<lparr>rv_monitoring_call_pending_since := None, rv_monitoring_charge_last_at := Some ?t\<rparr>, False)
       | Some m \<Rightarrow> (case mr_total m of
           None \<Rightarrow> Inr (db, r\<lparr>rv_monitoring_call_pending_since := None, rv_monitoring_charge_last_at := Some ?t\<rparr>, False)
         | Some tot \<Rightarrow> if mr_over_cap m then Inr (db, r\<lparr>rv_monitoring_call_pending_since := None, rv_monitoring_charge_last_at := Some ?t\<rparr>, False)
             else apply_read db (r\<lparr>rv_monitoring_call_pending_since := None, rv_monitoring_charge_last_at := Some ?t\<rparr>) run m tot now config)) (\<lambda>(db, r, shut).
     andThen (if shut then Inr r
       else andThen (next_read_at r ?t config) (\<lambda>n. Inr (r\<lparr>rv_next_usage_read_at := Some n\<rparr>))) (\<lambda>r.
     andThen (save_reservation db r) (\<lambda>db. Inr (db, shut))))) = Inr (db', shut)"
    using assms unfolding complete_monitoring_read_def Let_def by (rule andThen_pair_InrE)
  let ?r = "r\<lparr>rv_monitoring_call_pending_since := None, rv_monitoring_charge_last_at := Some ?t\<rparr>"
  from rest obtain db1 where l1: "latch_on_result result (map_option pr_id run) config ?t db = Inr db1"
    and rest: "andThen (case result of
         None \<Rightarrow> Inr (db1, ?r, False)
       | Some m \<Rightarrow> (case mr_total m of
           None \<Rightarrow> Inr (db1, ?r, False)
         | Some tot \<Rightarrow> if mr_over_cap m then Inr (db1, ?r, False) else apply_read db1 ?r run m tot now config)) (\<lambda>(db, r, shut).
     andThen (if shut then Inr r
       else andThen (next_read_at r ?t config) (\<lambda>n. Inr (r\<lparr>rv_next_usage_read_at := Some n\<rparr>))) (\<lambda>r.
     andThen (save_reservation db r) (\<lambda>db. Inr (db, shut)))) = Inr (db', shut)"
    by (rule andThen_InrE)
  from rest obtain db2 r2 c where mid: "(case result of
         None \<Rightarrow> Inr (db1, ?r, False)
       | Some m \<Rightarrow> (case mr_total m of
           None \<Rightarrow> Inr (db1, ?r, False)
         | Some tot \<Rightarrow> if mr_over_cap m then Inr (db1, ?r, False) else apply_read db1 ?r run m tot now config)) = Inr (db2, r2, c)"
    and rest: "andThen (if c then Inr r2
       else andThen (next_read_at r2 ?t config) (\<lambda>n. Inr (r2\<lparr>rv_next_usage_read_at := Some n\<rparr>))) (\<lambda>r.
     andThen (save_reservation db2 r) (\<lambda>db. Inr (db, c))) = Inr (db', shut)"
    by (rule andThen_triple_InrE)
  from rest obtain r3 where nx: "(if c then Inr r2
       else andThen (next_read_at r2 ?t config) (\<lambda>n. Inr (r2\<lparr>rv_next_usage_read_at := Some n\<rparr>))) = Inr r3"
    and sv: "andThen (save_reservation db2 r3) (\<lambda>db. Inr (db, c)) = Inr (db', shut)" by (rule andThen_InrE)
  have s: "save_reservation db2 r3 = Inr db'" and c: "c = shut" using sv by (auto simp: andThen_eq_Inr)
  show thesis
  proof (rule that [OF l l1 _ _ s])
    show "(db2 = db1 \<and> \<not> shut \<and> r2 = ?r)
      \<or> (\<exists>m tot. result = Some m \<and> mr_total m = Some tot \<and> \<not> mr_over_cap m
         \<and> apply_read db1 ?r run m tot now config = Inr (db2, r2, shut))"
      using mid unfolding c by (cases result; cases "mr_total (the result)") (simp_all split: if_splits)
    show "if shut then r3 = r2 else (\<exists>n. next_read_at r2 ?t config = Inr n \<and> r3 = r2\<lparr>rv_next_usage_read_at := Some n\<rparr>)"
      using nx unfolding c by (cases shut) (auto simp: andThen_eq_Inr)
    show "apply_read db1 ?r run m tot now config = Inr (db2, r2, shut)"
      if "result = Some m" "mr_total m = Some tot" "\<not> mr_over_cap m" for m tot
      using mid that unfolding c by simp
  qed
qed

lemma complete_careful:
  assumes c: "complete_monitoring_read db k result now config = Inr (db', shut)" and sd: "sound db" and rc: "recorded cs ce db"
    and W: "\<And>r run. lock_by_reservation db k = Inr (r, run) \<Longrightarrow> (POST_ADMISSION_INVARIANT_BREACH, map_option pr_id run) \<in> W"
    and pending: "\<And>r. reservation_by_id db k = Some r \<Longrightarrow> rv_monitoring_call_pending_since r \<noteq> None"
    and never: "\<And>g. guard_of config = Inr g \<Longrightarrow> instant_of now + g \<le> NEVER"
  shows "careful W config cs ce db db'"
proof -
  let ?t = "instant_of now"
  obtain r run db1 db2 r2 r3 where l: "lock_by_reservation db k = Inr (r, run)"
    and l1: "latch_on_result result (map_option pr_id run) config ?t db = Inr db1"
    and mid: "(db2 = db1 \<and> \<not> shut \<and> r2 = r\<lparr>rv_monitoring_call_pending_since := None, rv_monitoring_charge_last_at := Some ?t\<rparr>)
      \<or> (\<exists>m tot. result = Some m \<and> mr_total m = Some tot \<and> \<not> mr_over_cap m
         \<and> apply_read db1 (r\<lparr>rv_monitoring_call_pending_since := None, rv_monitoring_charge_last_at := Some ?t\<rparr>)
             run m tot now config = Inr (db2, r2, shut))"
    and r3: "if shut then r3 = r2 else (\<exists>n. next_read_at r2 ?t config = Inr n \<and> r3 = r2\<lparr>rv_next_usage_read_at := Some n\<rparr>)"
    and s: "save_reservation db2 r3 = Inr db'"
    using c by (rule completeE) (rule that, assumption+)
  let ?r = "r\<lparr>rv_monitoring_call_pending_since := None, rv_monitoring_charge_last_at := Some ?t\<rparr>"
  have r: "reservation_by_id db k = Some r" "rv_id r = k" using lock_by_reservationD(1) [OF l] by auto
  obtain new where db1: "db1 = db\<lparr>trips := trips db @ new\<rparr>" using latch_on_result_effect [OF l1] by blast
  have "tame W config db db1" by (rule tame_same_rows) (simp_all add: db1)
  then have g1: "careful W config cs ce db db1" by (rule tame_careful)
  have q1: "reservation_by_id db1 k = Some r" using r by (simp add: db1 reservation_by_id_def)
  have ex: "\<exists>a b. careful W config cs ce db db2 \<and> reservation_by_id db2 k = Some (r\<lparr>rv_settled_usage := a, rv_actual := b\<rparr>)
     \<and> (\<exists>m c d n. r3 = ?r\<lparr>rv_settled_usage := a, rv_actual := b, rv_monitor_closed_at := c, rv_closing_read := d, rv_monitoring := m,
          rv_next_usage_read_at := n\<rparr> \<and> amount m \<le> amount (rv_monitoring r)
         \<and> (opt_all (on_grid 4) (rv_monitoring r) \<longrightarrow> opt_all (on_grid 4) m))"
    using mid
  proof (elim disjE conjE exE)
    assume same: "db2 = db1" "\<not> shut" "r2 = ?r"
    then obtain n where n: "r3 = ?r\<lparr>rv_next_usage_read_at := Some n\<rparr>" using r3 by auto
    show ?thesis
      unfolding same(1) n
      by (rule exI [of _ "rv_settled_usage r"], rule exI [of _ "rv_actual r"], intro conjI, rule g1, simp add: q1,
          rule exI [of _ "rv_monitoring r"], rule exI [of _ "rv_monitor_closed_at r"], rule exI [of _ "rv_closing_read r"],
          rule exI [of _ "Some n"]) simp
  next
    fix m tot
    assume "apply_read db1 ?r run m tot now config = Inr (db2, r2, shut)"
    then obtain dba read_id r1 until where a: "append_read db1 ?r (map_option pr_id run) ?t (Some tot) (mr_usage_usd m) (mr_finished_at m) config = Inr (dba, read_id)"
      and ac: "apply_correction dba ?r tot now config (map_option pr_id run) = Inr (db2, r1)"
      and cl: "if shut then settle_monitoring_allowance (r1\<lparr>rv_monitor_closed_at := Some ?t, rv_closing_read := Some read_id\<rparr>)
        run config = Inr r2 else r2 = r1"
      by (rule apply_readE)
    have ga: "careful W config cs ce db dba" by (rule careful_trans [OF g1 tame_careful [OF tame_append_read [OF a]]])
    then have sa: "sound dba" "recorded cs ce dba" using sd rc by (simp_all add: careful_def)
    have qa: "reservation_by_id dba (rv_id ?r) = Some r"
      using append_read_effect [OF a] q1 r(2) by (auto simp: reservation_by_id_def)
    have g2: "careful W config cs ce db db2" 
      by (rule careful_trans [OF ga careful_correction [OF ac sa qa]]) (simp_all add: W [OF l])
    obtain a b where r1: "r1 = ?r\<lparr>rv_settled_usage := a, rv_actual := b\<rparr>"
      and q2: "reservation_by_id db2 k = Some (r\<lparr>rv_settled_usage := a, rv_actual := b\<rparr>)"
      using correction_rows [OF ac qa] r(2) by auto
    show ?thesis
    proof (rule exI [of _ a], rule exI [of _ b], intro conjI, rule g2, rule q2)
      show "\<exists>m c d n. r3 = ?r\<lparr>rv_settled_usage := a, rv_actual := b, rv_monitor_closed_at := c, rv_closing_read := d, rv_monitoring := m,
          rv_next_usage_read_at := n\<rparr> \<and> amount m \<le> amount (rv_monitoring r)
         \<and> (opt_all (on_grid 4) (rv_monitoring r) \<longrightarrow> opt_all (on_grid 4) m)"
      proof (cases shut)
        case True
        then obtain m where "r2 = r1\<lparr>rv_monitor_closed_at := Some ?t, rv_closing_read := Some read_id, rv_monitoring := m\<rparr>"
          and m: "amount m \<le> amount (rv_monitoring r)" "opt_all (on_grid 4) (rv_monitoring r) \<longrightarrow> opt_all (on_grid 4) m"
          using cl settle_monitoring_allowance_fields r1 by fastforce
        then have "r3 = ?r\<lparr>rv_settled_usage := a, rv_actual := b, rv_monitor_closed_at := Some ?t, rv_closing_read := Some read_id,
            rv_monitoring := m, rv_next_usage_read_at := rv_next_usage_read_at r\<rparr>" using r3 True r1 by simp
        then show ?thesis using m by blast
      next
        case False
        then obtain n where "r3 = ?r\<lparr>rv_settled_usage := a, rv_actual := b, rv_next_usage_read_at := n\<rparr>"
          using r3 cl r1 by auto
        then have "r3 = ?r\<lparr>rv_settled_usage := a, rv_actual := b, rv_monitor_closed_at := rv_monitor_closed_at r,
            rv_closing_read := rv_closing_read r, rv_monitoring := rv_monitoring r, rv_next_usage_read_at := n\<rparr>" by simp
        then show ?thesis by blast
      qed
    qed
  qed
  then obtain a b m c d n where g2: "careful W config cs ce db db2"
    and q2: "reservation_by_id db2 k = Some (r\<lparr>rv_settled_usage := a, rv_actual := b\<rparr>)"
    and r3': "r3 = ?r\<lparr>rv_settled_usage := a, rv_actual := b, rv_monitor_closed_at := c, rv_closing_read := d, rv_monitoring := m,
          rv_next_usage_read_at := n\<rparr>" and mon: "amount m \<le> amount (rv_monitoring r)"
       "opt_all (on_grid 4) (rv_monitoring r) \<longrightarrow> opt_all (on_grid 4) m" by blast
  have "tame W config db2 db'"
    by (rule tame_finish [OF _ s, of "r\<lparr>rv_settled_usage := a, rv_actual := b\<rparr>" ?t])
      (use q2 r(2) pending [OF r(1)] mon never in \<open>simp_all add: r3'\<close>)
  then show ?thesis by (rule careful_trans [OF g2 tame_careful])
qed

section \<open>What a completed read leaves behind\<close>

lemma correction_figures:
  assumes "apply_correction db r tot now config run_id = Inr (db', r')"
  shows "\<exists>figure. usd tot = Inr figure \<and> figure \<le> amount (rv_settled_usage r')
     \<and> (rv_settled_usage r' = rv_settled_usage r \<and> rv_actual r' = rv_actual r
        \<or> (\<exists>actual. rv_settled_usage r' = Some figure \<and> rv_actual r' = Some actual \<and> amount (rv_settled_usage r) < figure
            \<and> usd (dadd (amount (rv_actual r)) (dsub figure (amount (rv_settled_usage r)))) = Inr actual))"
  using assms
proof (cases rule: apply_correctionE)
  case (same figure)
  then show ?thesis by blast
next
  case (raised figure actual db1 db2 bs)
  then show ?thesis by (auto simp: amount_def [of "Some figure"])
qed

text \<open>The stored row before and after: figures, marker, closing, and nothing else but the next read time.\<close>

lemma complete_row:
  assumes c: "complete_monitoring_read db k result now config = Inr (db', shut)"
  obtains r a b m c d n where "reservation_by_id db k = Some r"
    and "reservation_by_id db' k = Some (r\<lparr>rv_monitoring_call_pending_since := None,
        rv_monitoring_charge_last_at := Some (instant_of now), rv_settled_usage := a, rv_actual := b,
        rv_monitor_closed_at := c, rv_closing_read := d, rv_monitoring := m, rv_next_usage_read_at := n\<rparr>)"
    and "amount m \<le> amount (rv_monitoring r)"
    and "(a = rv_settled_usage r \<and> b = rv_actual r)
       \<or> (\<exists>x tot figure actual. result = Some x \<and> mr_total x = Some tot \<and> \<not> mr_over_cap x \<and> usd tot = Inr figure \<and> a = Some figure
            \<and> b = Some actual \<and> amount (rv_settled_usage r) < figure
            \<and> usd (dadd (amount (rv_actual r)) (dsub figure (amount (rv_settled_usage r)))) = Inr actual)"
    and "\<And>x tot. result = Some x \<Longrightarrow> mr_total x = Some tot \<Longrightarrow> \<not> mr_over_cap x \<Longrightarrow> \<exists>figure. usd tot = Inr figure \<and> figure \<le> amount a"
    and "if shut then c = Some (instant_of now) \<and> (\<exists>x tot figure u until. result = Some x \<and> mr_total x = Some tot \<and> \<not> mr_over_cap x
         \<and> u \<in> set (reads db') \<and> d = Some (ur_id u) \<and> ur_reservation u = k \<and> ur_read_at u = instant_of now
         \<and> ur_total u = Some (to_numeric_8 tot) \<and> rv_monitor_until r = Some until \<and> until \<le> instant_of now
         \<and> usd tot = Inr figure \<and> figure \<le> amount a)
       else c = rv_monitor_closed_at r \<and> d = rv_closing_read r \<and> m = rv_monitoring r"
proof -
  let ?t = "instant_of now"
  obtain r run db1 db2 r2 r3 where l: "lock_by_reservation db k = Inr (r, run)"
    and l1: "latch_on_result result (map_option pr_id run) config ?t db = Inr db1"
    and mid: "(db2 = db1 \<and> \<not> shut \<and> r2 = r\<lparr>rv_monitoring_call_pending_since := None, rv_monitoring_charge_last_at := Some ?t\<rparr>)
      \<or> (\<exists>m tot. result = Some m \<and> mr_total m = Some tot \<and> \<not> mr_over_cap m
         \<and> apply_read db1 (r\<lparr>rv_monitoring_call_pending_since := None, rv_monitoring_charge_last_at := Some ?t\<rparr>)
             run m tot now config = Inr (db2, r2, shut))"
    and r3: "if shut then r3 = r2 else (\<exists>n. next_read_at r2 ?t config = Inr n \<and> r3 = r2\<lparr>rv_next_usage_read_at := Some n\<rparr>)"
    and s: "save_reservation db2 r3 = Inr db'"
    and ap: "\<And>m tot. result = Some m \<Longrightarrow> mr_total m = Some tot \<Longrightarrow> \<not> mr_over_cap m \<Longrightarrow>
        apply_read db1 (r\<lparr>rv_monitoring_call_pending_since := None, rv_monitoring_charge_last_at := Some ?t\<rparr>)
          run m tot now config = Inr (db2, r2, shut)"
    using c by (rule completeE) (rule that, assumption+)
  let ?r = "r\<lparr>rv_monitoring_call_pending_since := None, rv_monitoring_charge_last_at := Some ?t\<rparr>"
  have r: "reservation_by_id db k = Some r" "rv_id r = k" using lock_by_reservationD(1) [OF l] by auto
  obtain new where db1: "db1 = db\<lparr>trips := trips db @ new\<rparr>" using latch_on_result_effect [OF l1] by blast
  have q1: "reservation_by_id db1 k = Some r" using r by (simp add: db1 reservation_by_id_def)
  have saved: "reservation_by_id db' k = Some r3" if "rv_id r3 = k" "reservation_by_id db2 k = Some q" for q
    using saved_reservation [OF s] that by simp
  have rd: "reads db' = reads db2" using s by (simp add: save_reservation_eq_Inr)
  have fig: "\<exists>figure. usd tot = Inr figure \<and> figure \<le> amount (rv_settled_usage r3)"
    if "result = Some m" "mr_total m = Some tot" "\<not> mr_over_cap m" for m tot
  proof -
    from ap [OF that] obtain dba read_id r1 until where
        ac: "apply_correction dba ?r tot now config (map_option pr_id run) = Inr (db2, r1)"
      and cl: "if shut then settle_monitoring_allowance (r1\<lparr>rv_monitor_closed_at := Some ?t, rv_closing_read := Some read_id\<rparr>)
        run config = Inr r2 else r2 = r1"
      by (rule apply_readE)
    have "rv_settled_usage r2 = rv_settled_usage r1"
      using cl settle_monitoring_allowance_fields by (cases shut) fastforce+
    moreover have "rv_settled_usage r3 = rv_settled_usage r2" using r3 by (cases shut) auto
    ultimately show ?thesis using correction_figures [OF ac] by auto
  qed
  show thesis
    using mid
  proof (elim disjE conjE exE)
    assume same: "db2 = db1" "\<not> shut" "r2 = ?r"
    then obtain n where n: "r3 = ?r\<lparr>rv_next_usage_read_at := Some n\<rparr>" using r3 by auto
    have "reservation_by_id db' k = Some (?r\<lparr>rv_settled_usage := rv_settled_usage r, rv_actual := rv_actual r,
        rv_monitor_closed_at := rv_monitor_closed_at r, rv_closing_read := rv_closing_read r, rv_monitoring := rv_monitoring r,
        rv_next_usage_read_at := Some n\<rparr>)" using saved [of r] n r(2) q1 same(1) by simp
    then show thesis by (rule that [OF r(1)]) (use same(2) fig n in simp_all)
  next
    fix x tot
    assume x: "result = Some x" "mr_total x = Some tot" "\<not> mr_over_cap x"
      and ap: "apply_read db1 ?r run x tot now config = Inr (db2, r2, shut)"
    from ap obtain dba read_id r1 until where a: "append_read db1 ?r (map_option pr_id run) ?t (Some tot) (mr_usage_usd x) (mr_finished_at x) config = Inr (dba, read_id)"
      and ac: "apply_correction dba ?r tot now config (map_option pr_id run) = Inr (db2, r1)"
      and until: "rv_monitor_until r1 = Some until" "shut \<longleftrightarrow> until \<le> ?t"
      and cl: "if shut then settle_monitoring_allowance (r1\<lparr>rv_monitor_closed_at := Some ?t, rv_closing_read := Some read_id\<rparr>)
        run config = Inr r2 else r2 = r1"
      by (rule apply_readE)
    obtain u where u: "u \<in> set (reads dba)" "ur_id u = read_id" "ur_reservation u = k" "ur_read_at u = ?t"
        "ur_total u = Some (to_numeric_8 tot)" and dba: "reservations dba = reservations db1"
    proof -
      obtain row where "dba = db1\<lparr>reads := reads db1 @ [row], next_id := next_id db1 + 1\<rparr>" "read_id = next_id db1"
        "ur_id row = read_id" "ur_reservation row = k" "ur_read_at row = ?t" "ur_total row = Some (to_numeric_8 tot)"
        using append_read_effect [OF a] r(2) by auto
      then show ?thesis by (intro that [of row]) simp_all
    qed
    have qa: "reservation_by_id dba (rv_id ?r) = Some r" using q1 r(2) dba by (simp add: reservation_by_id_def)
    have ac_reads: "reads db2 = reads dba" using ac
    proof (cases rule: apply_correctionE)
      case (raised figure actual dbx dby bs)
      then show ?thesis using trip_if_effect [OF raised(6)] trip_if_effect [OF raised(8)]
        by (auto simp: save_columns_eq_Inr save_reservation_eq_Inr)
    qed simp
    obtain a b where r1: "r1 = ?r\<lparr>rv_settled_usage := a, rv_actual := b\<rparr>"
      and q2: "reservation_by_id db2 k = Some (r\<lparr>rv_settled_usage := a, rv_actual := b\<rparr>)"
      using correction_rows [OF ac qa] r(2) by auto
    have fig': "\<exists>figure. usd tot = Inr figure \<and> figure \<le> amount a"
      and ab: "(a = rv_settled_usage r \<and> b = rv_actual r) \<or> (\<exists>figure actual. usd tot = Inr figure \<and> a = Some figure \<and> b = Some actual
          \<and> amount (rv_settled_usage r) < figure \<and> usd (dadd (amount (rv_actual r)) (dsub figure (amount (rv_settled_usage r)))) = Inr actual)"
      using correction_figures [OF ac] unfolding r1 by auto
    show thesis
    proof (cases shut)
      case True
      then obtain m where r2: "r2 = r1\<lparr>rv_monitor_closed_at := Some ?t, rv_closing_read := Some read_id, rv_monitoring := m\<rparr>"
        and m: "amount m \<le> amount (rv_monitoring r)"
        using cl settle_monitoring_allowance_fields r1 by fastforce
      have "reservation_by_id db' k = Some (?r\<lparr>rv_settled_usage := a, rv_actual := b, rv_monitor_closed_at := Some ?t,
          rv_closing_read := Some read_id, rv_monitoring := m, rv_next_usage_read_at := rv_next_usage_read_at r\<rparr>)"
        using saved [OF _ q2] r3 True r2 r1 r(2) by simp
      then show thesis
      proof (rule that [OF r(1) _ m])
        show "\<exists>figure. usd tot = Inr figure \<and> figure \<le> amount a"
          if "result = Some x" "mr_total x = Some tot" "\<not> mr_over_cap x" for x tot
          using fig [OF that] r3 True r2 r1 by simp
        show "(a = rv_settled_usage r \<and> b = rv_actual r)
       \<or> (\<exists>x tot figure actual. result = Some x \<and> mr_total x = Some tot \<and> \<not> mr_over_cap x \<and> usd tot = Inr figure \<and> a = Some figure
            \<and> b = Some actual \<and> amount (rv_settled_usage r) < figure
            \<and> usd (dadd (amount (rv_actual r)) (dsub figure (amount (rv_settled_usage r)))) = Inr actual)"
          using ab x by blast
        have "rv_monitor_until r = Some until" using until(1) r1 by simp
        moreover have "u \<in> set (reads db')" using u(1) rd ac_reads by simp
        ultimately show "if shut then Some ?t = Some ?t \<and> (\<exists>x tot figure u until. result = Some x \<and> mr_total x = Some tot \<and> \<not> mr_over_cap x
         \<and> u \<in> set (reads db') \<and> Some read_id = Some (ur_id u) \<and> ur_reservation u = k \<and> ur_read_at u = ?t
         \<and> ur_total u = Some (to_numeric_8 tot) \<and> rv_monitor_until r = Some until \<and> until \<le> ?t
         \<and> usd tot = Inr figure \<and> figure \<le> amount a)
       else Some ?t = rv_monitor_closed_at r \<and> Some read_id = rv_closing_read r \<and> m = rv_monitoring r"
          unfolding if_P [OF True] using x u(2-5) until(2) True fig' by blast
      qed
    next
      case False
      then obtain n where n: "r3 = r1\<lparr>rv_next_usage_read_at := Some n\<rparr>" using r3 cl by auto
      have "reservation_by_id db' k = Some (?r\<lparr>rv_settled_usage := a, rv_actual := b, rv_monitor_closed_at := rv_monitor_closed_at r,
          rv_closing_read := rv_closing_read r, rv_monitoring := rv_monitoring r, rv_next_usage_read_at := Some n\<rparr>)"
        using saved [OF _ q2] n r1 r(2) by simp
      then show thesis
      proof (rule that [OF r(1)])
        show "\<exists>figure. usd tot = Inr figure \<and> figure \<le> amount a"
          if "result = Some x" "mr_total x = Some tot" "\<not> mr_over_cap x" for x tot
          using fig [OF that] n r1 by simp
        show "(a = rv_settled_usage r \<and> b = rv_actual r)
       \<or> (\<exists>x tot figure actual. result = Some x \<and> mr_total x = Some tot \<and> \<not> mr_over_cap x \<and> usd tot = Inr figure \<and> a = Some figure
            \<and> b = Some actual \<and> amount (rv_settled_usage r) < figure
            \<and> usd (dadd (amount (rv_actual r)) (dsub figure (amount (rv_settled_usage r)))) = Inr actual)"
          using ab x by blast
      qed (use False in simp_all)
    qed
  qed
qed

text \<open>C12: A correction only ever raises a settled figure, and does so whenever the provider reports more. After a
  completed monitoring read the row is reconciled as it was; every total reported under the byte cap is covered by its
  settled usage; settled usage and actual amount are at least what they were, and if either changed then the settled
  usage is such a total, rounded up and above the old one, and the actual amount rose by the difference, rounded up;
  the marker is gone and the allowance has not grown.\<close>

theorem corrections_never_lower:
  assumes "complete_monitoring_read db k result now config = Inr (db', shut)" and "reservation_by_id db k = Some r"
    and "row_ok r"
  shows "\<exists>r'. reservation_by_id db' k = Some r' \<and> rv_status r' = rv_status r \<and> rv_estimate r' = rv_estimate r
    \<and> (\<forall>x tot. result = Some x \<longrightarrow> mr_total x = Some tot \<longrightarrow> \<not> mr_over_cap x \<longrightarrow> tot \<le> amount (rv_settled_usage r'))
    \<and> amount (rv_settled_usage r) \<le> amount (rv_settled_usage r') \<and> amount (rv_actual r) \<le> amount (rv_actual r')
    \<and> ((rv_settled_usage r', rv_actual r') \<noteq> (rv_settled_usage r, rv_actual r) \<longrightarrow>
        (\<exists>x tot figure actual. result = Some x \<and> mr_total x = Some tot \<and> \<not> mr_over_cap x \<and> usd tot = Inr figure
           \<and> rv_settled_usage r' = Some figure \<and> amount (rv_settled_usage r) < figure \<and> rv_actual r' = Some actual
           \<and> usd (dadd (amount (rv_actual r)) (dsub figure (amount (rv_settled_usage r)))) = Inr actual))
    \<and> amount (rv_monitoring r') \<le> amount (rv_monitoring r) \<and> rv_monitoring_call_pending_since r' = None"
proof -
  obtain q a b m c d n where q: "reservation_by_id db k = Some q"
    and q': "reservation_by_id db' k = Some (q\<lparr>rv_monitoring_call_pending_since := None,
        rv_monitoring_charge_last_at := Some (instant_of now), rv_settled_usage := a, rv_actual := b,
        rv_monitor_closed_at := c, rv_closing_read := d, rv_monitoring := m, rv_next_usage_read_at := n\<rparr>)"
    and m: "amount m \<le> amount (rv_monitoring q)"
    and ab: "(a = rv_settled_usage q \<and> b = rv_actual q)
       \<or> (\<exists>x tot figure actual. result = Some x \<and> mr_total x = Some tot \<and> \<not> mr_over_cap x \<and> usd tot = Inr figure \<and> a = Some figure
            \<and> b = Some actual \<and> amount (rv_settled_usage q) < figure
            \<and> usd (dadd (amount (rv_actual q)) (dsub figure (amount (rv_settled_usage q)))) = Inr actual)"
    and cov: "\<And>x tot. result = Some x \<Longrightarrow> mr_total x = Some tot \<Longrightarrow> \<not> mr_over_cap x \<Longrightarrow> \<exists>figure. usd tot = Inr figure \<and> figure \<le> amount a"
    using assms(1) by (rule complete_row) (rule that, assumption+)
  have qr: "q = r" using q assms(2) by simp
  have covered: "tot \<le> amount a" if "result = Some x" "mr_total x = Some tot" "\<not> mr_over_cap x" for x tot
    using cov [OF that] usd_ge by fastforce
  have "amount (rv_settled_usage r) \<le> amount a \<and> amount (rv_actual r) \<le> amount b"
    using ab unfolding qr
  proof (elim disjE conjE exE)
    fix x tot figure actual
    assume u: "a = Some figure" "b = Some actual" "amount (rv_settled_usage r) < figure"
      and act: "usd (dadd (amount (rv_actual r)) (dsub figure (amount (rv_settled_usage r)))) = Inr actual"
    have exact: "money 1 (amount (rv_actual r))" by (rule row_money(1) [OF assms(3)])
    have "0 \<le> dsub figure (amount (rv_settled_usage r))" unfolding dsub_def by (rule dec.rnd_nonneg) (use u(3) in simp)
    then have "dadd (amount (rv_actual r)) 0 \<le> dadd (amount (rv_actual r)) (dsub figure (amount (rv_settled_usage r)))"
      by (intro dadd_mono) simp_all
    moreover have "dadd (amount (rv_actual r)) 0 = amount (rv_actual r)"
      using money_dadd [OF exact, of 0 0] by (simp add: money_def)
    ultimately have "amount (rv_actual r) \<le> actual" using usd_ge [OF act] by linarith
    then show ?thesis using u by (simp add: amount_def [of "Some figure"] amount_def [of "Some actual"])
  qed simp
  then show ?thesis using q' m ab covered unfolding qr by fastforce
qed

text \<open>Monitoring closes only by a read: when completing a read closes the row, the provider answered with a
  figure under its cap at or after the monitoring deadline, that answer is stored as the row's closing read, and
  the settled usage covers it.\<close>

theorem monitoring_closes_by_read:
  assumes "complete_monitoring_read db k result now config = Inr (db', True)"
  shows "\<exists>r r' x tot u until. reservation_by_id db k = Some r \<and> reservation_by_id db' k = Some r'
    \<and> result = Some x \<and> mr_total x = Some tot \<and> \<not> mr_over_cap x
    \<and> rv_monitor_until r = Some until \<and> until \<le> instant_of now \<and> rv_monitor_closed_at r' = Some (instant_of now)
    \<and> u \<in> set (reads db') \<and> rv_closing_read r' = Some (ur_id u) \<and> ur_reservation u = k \<and> ur_read_at u = instant_of now
    \<and> ur_total u = Some (to_numeric_8 tot) \<and> tot \<le> amount (rv_settled_usage r')"
proof -
  obtain q a b m c d n where q: "reservation_by_id db k = Some q"
    and q': "reservation_by_id db' k = Some (q\<lparr>rv_monitoring_call_pending_since := None,
        rv_monitoring_charge_last_at := Some (instant_of now), rv_settled_usage := a, rv_actual := b,
        rv_monitor_closed_at := c, rv_closing_read := d, rv_monitoring := m, rv_next_usage_read_at := n\<rparr>)"
    and cl: "if True then c = Some (instant_of now) \<and> (\<exists>x tot figure u until. result = Some x \<and> mr_total x = Some tot \<and> \<not> mr_over_cap x
         \<and> u \<in> set (reads db') \<and> d = Some (ur_id u) \<and> ur_reservation u = k \<and> ur_read_at u = instant_of now
         \<and> ur_total u = Some (to_numeric_8 tot) \<and> rv_monitor_until q = Some until \<and> until \<le> instant_of now
         \<and> usd tot = Inr figure \<and> figure \<le> amount a)
       else c = rv_monitor_closed_at q \<and> d = rv_closing_read q \<and> m = rv_monitoring q"
    using assms by (rule complete_row) (rule that, assumption+)
  obtain x tot figure u until where c: "c = Some (instant_of now)" and x: "result = Some x" "mr_total x = Some tot" "\<not> mr_over_cap x"
    and u: "u \<in> set (reads db')" "d = Some (ur_id u)" "ur_reservation u = k" "ur_read_at u = instant_of now"
      "ur_total u = Some (to_numeric_8 tot)" and until: "rv_monitor_until q = Some until" "until \<le> instant_of now"
    and f: "usd tot = Inr figure" "figure \<le> amount a" using cl unfolding if_True by blast
  have le: "tot \<le> amount a" using usd_ge [OF f(1)] f(2) by simp
  show ?thesis
    by (intro exI conjI, rule q, rule q') (use c x u until le in simp_all)
qed

section \<open>A closing read\<close>

definition monitored_row :: reservation where
  "monitored_row = settled_due_row\<lparr>rv_monitoring_call_pending_since := Some due_now\<rparr>"

definition monitored_db :: ledger_db where "monitored_db = due_db\<lparr>reservations := [monitored_row]\<rparr>"

definition closing_time :: pydatetime where
  "closing_time = \<lparr>d_year = 2026, d_month = 8, d_day = 1, dt_us = 0\<rparr>"

definition closing_answer :: monitor_result where
  "closing_answer = \<lparr>mr_total = Some (1 / 2), mr_usage_usd = None, mr_usage = None, mr_unparseable = [], mr_finished_at = None,
     mr_over_cap = False\<rparr>"

lemma closing_instant: "instant_of closing_time = 63921225600000000"
  by code_simp

lemma monitored_fields:
  "rv_id monitored_row = 9" "rv_run monitored_row = Some 5" "rv_settled_usage monitored_row = Some 1"
  "rv_actual monitored_row = Some (3 / 2)" "rv_monitor_until monitored_row = Some (due_now + seconds 604800)"
  "rv_monitoring monitored_row = rv_monitoring due_row" "reservations monitored_db = [monitored_row]"
  "runs monitored_db = [due_run]" "reads monitored_db = []" "next_id monitored_db = 10"
  by (simp_all add: monitored_row_def settled_due_row_def reconciled_row_def due_fields monitored_db_def due_db_def authorised_fields
      authorised_db_def sample_cycle_db_def empty_db_def)

lemma closing_read: "\<exists>db'. complete_monitoring_read monitored_db 9 (Some closing_answer) closing_time sample_config = Inr (db', True)"
proof -
  let ?t = "instant_of closing_time"
  let ?r = "monitored_row\<lparr>rv_monitoring_call_pending_since := None, rv_monitoring_charge_last_at := Some ?t\<rparr>"
  let ?closed = "?r\<lparr>rv_monitor_closed_at := Some ?t, rv_closing_read := Some 10\<rparr>"
  have lock: "lock_by_reservation monitored_db 9 = Inr (monitored_row, Some due_run)"
    by (simp add: lock_by_reservation_def reservation_by_id_def run_by_id_def monitored_fields due_fields)
  have latch: "latch_on_result (Some closing_answer) run sample_config t db = Inr db" for run t db
    by (simp add: latch_on_result_def closing_answer_def unexpected_components_def outside_allowlist_def)
  obtain u where read: "append_read monitored_db ?r (Some 5) ?t (Some (1 / 2)) None None sample_config
      = Inr (monitored_db\<lparr>reads := [u], next_id := 11\<rparr>, 10)"
    by (simp add: append_read_def reservation_by_id_def monitored_fields to_numeric_8_def sample_config_def sample_settings_def)
  have same: "apply_correction db ?r (1 / 2) closing_time sample_config run = Inr (db, ?r)" for db run
    by (simp add: apply_correction_def money_up_def usd_def monitored_fields amount_def Let_def)
  have due: "due_now + seconds 604800 \<le> ?t" by (simp add: due_now_def closing_instant timedelta_defs)
  have keep: "settle_monitoring_allowance ?closed (Some due_run) sample_config = Inr ?closed"
    by (simp add: settle_monitoring_allowance_def sample_config_def)
  have read': "apply_read monitored_db ?r (Some due_run) closing_answer (1 / 2) closing_time sample_config
      = Inr (monitored_db\<lparr>reads := [u], next_id := 11\<rparr>, ?closed, True)"
    using read same due keep
    by (simp add: apply_read_def due_fields closing_answer_def monitored_fields Let_def)
  have row: "reservation_fits ?closed" "reservation_checks ?closed" "rv_build_id ?closed = None" "rv_probe_dataset ?closed = None"
    by (simp_all add: reservation_fits_def reservation_checks_def reservation_money_def money_fits_def monitored_row_def settled_due_row_def
        reconciled_row_def due_row_def open_row_def new_row_def sample_estimate_def sample_request_def is_runtime_def envelope_by_kind_def)
  have "reservation_unique (monitored_db\<lparr>reads := [u], next_id := 11\<rparr>) ?closed"
    by (simp add: reservation_unique_def monitored_fields)
  then have "\<exists>db'. save_reservation (monitored_db\<lparr>reads := [u], next_id := 11\<rparr>) ?closed = Inr db'"
    using row by (simp add: save_reservation_def)
  then show ?thesis
    using read' latch by (auto simp: complete_monitoring_read_def lock closing_answer_def)
qed

lemma monitored_ok: "row_ok monitored_row"
proof -
  have "on_grid 4 (1 / 2)" "on_grid 4 3" "on_grid 4 1" "on_grid 4 (3 / 2)" "on_grid 4 (1 / 2000)"
    by (rule on_gridI [of _ _ 5000] on_gridI [of _ _ 30000] on_gridI [of _ _ 10000] on_gridI [of _ _ 15000] on_gridI [of _ _ 5]; simp)+
  then show ?thesis
    by (simp add: row_ok_def reservation_checks_def reservation_fits_def reservation_money_def monitored_row_def settled_due_row_def
        reconciled_row_def due_row_def open_row_def new_row_def sample_estimate_def sample_request_def is_runtime_def
        envelope_by_kind_def money_fits_def sample_instant due_now_def)
qed

theorem corrections_never_lower_witness:
  "\<exists>db' r'. complete_monitoring_read monitored_db 9 (Some closing_answer) closing_time sample_config = Inr (db', True)
     \<and> reservation_by_id db' 9 = Some r' \<and> 1 \<le> amount (rv_settled_usage r') \<and> 3 / 2 \<le> amount (rv_actual r')"
proof -
  obtain db' where c: "complete_monitoring_read monitored_db 9 (Some closing_answer) closing_time sample_config = Inr (db', True)"
    using closing_read by blast
  have r: "reservation_by_id monitored_db 9 = Some monitored_row" by (simp add: reservation_by_id_def monitored_fields)
  from corrections_never_lower [OF c r monitored_ok] c show ?thesis by (auto simp: monitored_fields amount_def)
qed

theorem monitoring_closes_by_read_witness:
  "\<exists>db' u. complete_monitoring_read monitored_db 9 (Some closing_answer) closing_time sample_config = Inr (db', True)
     \<and> u \<in> set (reads db') \<and> ur_reservation u = 9 \<and> ur_total u = Some (to_numeric_8 (1 / 2))"
proof -
  obtain db' where c: "complete_monitoring_read monitored_db 9 (Some closing_answer) closing_time sample_config = Inr (db', True)"
    using closing_read by blast
  have "mr_total closing_answer = Some (1 / 2)" by (simp add: closing_answer_def)
  then show ?thesis using monitoring_closes_by_read [OF c] c by (metis option.inject)
qed

end
