(* ===== verification/LedgerLife.thy ===== *)
theory LedgerLife
  imports MonitoringSafety
begin

text \<open>
  The life of the ledger: admission, settlement, release, correction monitoring and the owner's reset,
  as one step relation whose every step is a committed transaction, with the guarantee they keep
  together for a billing cycle.
\<close>

section \<open>The operations\<close>

datatype ledger_op =
    Reserve admission_request "int option" string
  | RecordRunUsage int api_run
  | PlanSettlementRead int
  | BindBuild int string
  | PlanBuildRead int
  | RecordBuildUsage int api_record
  | ReleaseUnattached "int option"
  | SettleOperator int "string option" bool
  | BeginMonitoringRead int
  | CompleteMonitoringRead int "monitor_result option"
  | ResolveStaleMarkers
  | ClearLatch string

text \<open>The ledger one committed call leaves behind.\<close>

fun perform :: "ledger_config \<Rightarrow> pydatetime \<Rightarrow> ledger_op \<Rightarrow> ledger_db \<Rightarrow> ledger_error + ledger_db" where
  "perform config now (Reserve request site reason) db =
     andThen (reserve request site config now reason db) (\<lambda>(db, _). Inr db)"
| "perform config now (RecordRunUsage k a) db =
     andThen (record_run_usage db k a (instant_of now) config) (\<lambda>(db, _). Inr db)"
| "perform config now (PlanSettlementRead k) db =
     andThen (plan_settlement_read db k (instant_of now) config) (\<lambda>(db, _). Inr db)"
| "perform config now (BindBuild k build_id) db =
     andThen (bind_build db k build_id (instant_of now)) (\<lambda>(db, _). Inr db)"
| "perform config now (PlanBuildRead k) db =
     andThen (plan_build_read db k (instant_of now) config) (\<lambda>(db, _). Inr db)"
| "perform config now (RecordBuildUsage k a) db =
     andThen (record_build_usage db k a (instant_of now) config) (\<lambda>(db, _). Inr db)"
| "perform config now (ReleaseUnattached grace) db =
     andThen (release_unattached_reservations db (instant_of now) grace) (\<lambda>(db, _). Inr db)"
| "perform config now (SettleOperator k probe verified) db = settle_operator db k (instant_of now) probe verified"
| "perform config now (BeginMonitoringRead k) db =
     andThen (begin_monitoring_read db k (instant_of now) config) (\<lambda>(db, _). Inr db)"
| "perform config now (CompleteMonitoringRead k result) db =
     andThen (complete_monitoring_read db k result now config) (\<lambda>(db, _). Inr db)"
| "perform config now ResolveStaleMarkers db = Inr (fst (resolve_stale_monitoring_markers db (instant_of now)))"
| "perform config now (ClearLatch reason) db =
     andThen (clear_latch reason (instant_of now) db) (\<lambda>(db, _). Inr db)"

text \<open>
  When a call may happen: the clock is behind no stamp of a row and far from the end of time, a
  reservation is asked for inside the cycle, and a monitoring read completes while its marker is set.
\<close>

definition clock_ok :: "ledger_config \<Rightarrow> ledger_db \<Rightarrow> instant \<Rightarrow> bool" where
  "clock_ok config db now \<longleftrightarrow> reserved_before db now
     \<and> (\<forall>r \<in> set (reservations db). opt_all (\<lambda>t. t \<le> now) (rv_monitoring_charge_last_at r))
     \<and> (\<forall>g. guard_of config = Inr g \<longrightarrow> now + g \<le> NEVER)"

fun called_for :: "ledger_config \<Rightarrow> instant \<Rightarrow> instant \<Rightarrow> pydatetime \<Rightarrow> ledger_op \<Rightarrow> ledger_db \<Rightarrow> bool" where
  "called_for config cs ce now (Reserve request site reason) db \<longleftrightarrow> length (reservations db) < 10 ^ 15
     \<and> (case billing_cycle_anchor (budget config) of None \<Rightarrow> False
        | Some anchor \<Rightarrow> billing_cycle_bounds anchor now = Inr (Some (cs, ce)))"
| "called_for config cs ce now (CompleteMonitoringRead k result) db \<longleftrightarrow>
     (case reservation_by_id db k of None \<Rightarrow> True | Some r \<Rightarrow> rv_monitoring_call_pending_since r \<noteq> None)"
| "called_for config cs ce now _ db \<longleftrightarrow> True"

inductive ledger_step :: "ledger_config \<Rightarrow> instant \<Rightarrow> instant \<Rightarrow> ledger_db \<Rightarrow> ledger_op \<Rightarrow> ledger_db \<Rightarrow> bool"
  for config cs ce where
  committed: "perform config now op db = Inr db' \<Longrightarrow> clock_ok config db (instant_of now)
    \<Longrightarrow> called_for config cs ce now op db \<Longrightarrow> ledger_step config cs ce db op db'"
| aborted: "perform config now op db = Inl e \<Longrightarrow> ledger_step config cs ce db op db"

section \<open>Admission keeps the guarantee\<close>

lemma ensure_cycle_next_id:
  assumes "ensure_cycle config now db = Inr (db', c)"
  shows "next_id db \<le> next_id db'"
  using assms
proof (cases rule: ensure_cycle_cases)
  case (created cycle anchor db1)
  then show ?thesis using ensure_continued_authority_effect [OF created(8)] by auto
qed auto

lemma observe_cycle_next_id:
  assumes "observe_cycle config t cycle db = Inr (db', held, current, after)"
  shows "next_id db' = next_id db"
proof (cases cycle)
  case None
  then show ?thesis using assms by (simp add: observe_cycle_def)
next
  case (Some c)
  have "ensure_continued_authority config t c db = Inr db'"
    using assms unfolding Some by (rule observe_cycle_eq_Some)
  then show ?thesis by (drule_tac ensure_continued_authority_effect) auto
qed

lemma ensure_cycle_recorded:
  assumes "ensure_cycle config now db = Inr (db', c)" and "recorded cs ce db"
    and "billing_cycle_anchor (budget config) = Some anchor" and "billing_cycle_bounds anchor now = Inr (Some (cs, ce))"
  shows "db' = db"
proof -
  have "first_such (\<lambda>c. cy_start c = cs) (cycles db) \<noteq> None"
    using assms(2) by (auto simp: first_such_None recorded_def)
  then show ?thesis using assms(1,3,4) by (auto simp: ensure_cycle_def)
qed

lemma reserve_frame:
  assumes "reserve request site config now reason db = Inr (db', oc)"
  obtains row where "reservations db' = reservations db @ [row]" and "next_id db \<le> rv_id row" and "rv_run row = None"
    and "next_id db' = rv_id row + 1"
    and "\<And>cs ce anchor. recorded cs ce db \<Longrightarrow> billing_cycle_anchor (budget config) = Some anchor \<Longrightarrow>
       billing_cycle_bounds anchor now = Inr (Some (cs, ce)) \<Longrightarrow> recorded cs ce db'"
proof -
  obtain dba dbb db0 db1 n ks cycle held current after decision where
    a: "clear_on_estimator_bump (estimator_version (budget config)) (instant_of now) db = Inr (dba, n)"
    and b: "trip_stranded_start_refusals_locked (estimator_version (budget config)) (instant_of now) dba = Inr (dbb, ks)"
    and c: "ensure_cycle config now dbb = Inr (db0, cycle)"
    and o: "observe_cycle config (instant_of now) cycle db0 = Inr (db1, held, current, after)"
    and p: "persist request decision site (budget config) (instant_of now) reason db1 = Inr (db', oc)"
    using assms by (rule reserveE)
  obtain row env where db': "db' = db1\<lparr>reservations := reservations db1 @ [row], next_id := next_id db1 + 1\<rparr>"
    and row: "row = (new_row request decision site env (instant_of now) reason)\<lparr>rv_id := next_id db1\<rparr>"
    using p by (rule persistE)
  obtain ts where ts: "dba = db\<lparr>trips := ts\<rparr>" using clear_bump_frame [OF a] by blast
  obtain new where new: "dbb = dba\<lparr>trips := trips dba @ new\<rparr>" using trip_stranded_effect(1) [OF b] by blast
  note e = ensure_cycle_frame [OF c] and f = observe_cycle_frame [OF o]
  have id: "next_id db \<le> next_id db1"
    using ensure_cycle_next_id [OF c] observe_cycle_next_id [OF o] ts new by simp
  have rec: "recorded cs ce db'" if "recorded cs ce db" "billing_cycle_anchor (budget config) = Some anchor"
      "billing_cycle_bounds anchor now = Inr (Some (cs, ce))" for cs ce anchor
  proof -
    have "recorded cs ce dbb" using that(1) by (simp add: recorded_def ts new)
    from ensure_cycle_recorded [OF c this that(2,3)] this show ?thesis using f(3) by (simp add: recorded_def db')
  qed
  have run: "rv_run row = None" unfolding row by (cases env) (simp add: new_row_def Let_def)
  have rid: "rv_id row = next_id db1" by (simp add: row)
  show ?thesis
  proof (rule that [of row])
    show "reservations db' = reservations db @ [row]" using e f by (simp add: db' ts new)
    show "next_id db' = rv_id row + 1" using rid by (simp add: db')
  qed (use run rid id rec in simp_all)
qed

lemma reserve_careful:
  assumes r: "reserve request site config now reason db = Inr (db', oc)"
    and len: "length (reservations db) < 10 ^ 15" and never: "instant_of now \<le> NEVER"
    and b: "billing_cycle_anchor (budget config) = Some anchor" "billing_cycle_bounds anchor now = Inr (Some (cs, ce))"
  shows "careful {} config cs ce db db'"
proof (rule careful_if)
  assume sd: "sound db" and rc: "recorded cs ce db"
  have ok: "ledger_ok db" and k: "keys_ok db" using sd by (simp_all add: sound_def)
  obtain row where row: "reservations db' = reservations db @ [row]" "next_id db \<le> rv_id row" "rv_run row = None"
    "next_id db' = rv_id row + 1" and rec: "recorded cs ce db \<Longrightarrow> recorded cs ce db'"
    using reserve_frame [OF r] b by metis
  have "ledger_ok db'" by (rule reserve_debits(1) [OF r ok len])
  moreover have "keys_ok db'"
  proof -
    have d: "distinct (map rv_id (reservations db))" using k unfolding keys_ok_def by blast
    have lt: "rv_id x < rv_id row" if "x \<in> set (reservations db)" for x
    proof -
      have "rv_id x < next_id db" using k that unfolding keys_ok_def by blast
      then show ?thesis using row(2) by simp
    qed
    have u: "\<forall>r \<in> set (reservations db). \<forall>q \<in> set (reservations db). rv_run r \<noteq> None \<longrightarrow> rv_run q = rv_run r \<longrightarrow> rv_id q = rv_id r"
      using k unfolding keys_ok_def by blast
    have "distinct (map rv_id (reservations db'))" using d lt by (fastforce simp: row(1))
    moreover have "\<forall>x \<in> set (reservations db'). rv_id x < next_id db'" using lt by (fastforce simp: row(1,4))
    moreover have "\<forall>x \<in> set (reservations db'). \<forall>q \<in> set (reservations db'). rv_run x \<noteq> None \<longrightarrow> rv_run q = rv_run x \<longrightarrow> rv_id q = rv_id x"
    proof (intro ballI impI)
      fix x q
      assume x: "x \<in> set (reservations db')" "q \<in> set (reservations db')" "rv_run x \<noteq> None" "rv_run q = rv_run x"
      then have "x \<in> set (reservations db)" "q \<in> set (reservations db)" using row(1,3) by auto
      then show "rv_id q = rv_id x" using u x(3,4) by blast
    qed
    ultimately show ?thesis unfolding keys_ok_def by blast
  qed
  moreover have "no_further config g cs ce db db'" if "guard_of config = Inr g" for g
    by (rule reserve_no_further [OF r ok len never b that])
  ultimately show "careful {} config cs ce db db'" using rec [OF rc] by (simp add: careful_def sound_def alarm_def)
qed

section \<open>Every step keeps the guarantee\<close>

lemma tame_clear_latch:
  assumes "clear_latch reason now db = Inr (db', n)"
  shows "tame {} config db db'"
proof -
  obtain ts where db': "db' = db\<lparr>trips := ts\<rparr>"
    using assms by (auto simp: clear_latch_def Let_def andThen_eq_Inr)
  have "sound db' = sound db" by (rule sound_cong) (simp_all add: db')
  moreover have "class_debit db' = class_debit db" by (rule class_debit_cong) (simp_all add: db')
  then have "eases config db db'" by (simp add: eases_def db')
  ultimately show ?thesis by (simp add: tame_def alarm_def db')
qed

text \<open>The trip a step owes for taking a figure further beyond its cap; a step that owes none never does so.\<close>

fun owed_trip :: "ledger_op \<Rightarrow> ledger_db \<Rightarrow> (latch_reason \<times> int option) option" where
  "owed_trip (RecordRunUsage k a) db = Some (OVERRUN, Some k)"
| "owed_trip (PlanSettlementRead k) db = Some (OVERRUN, Some k)"
| "owed_trip (PlanBuildRead k) db = Some (OVERRUN, None)"
| "owed_trip (RecordBuildUsage k a) db = Some (OVERRUN, None)"
| "owed_trip (CompleteMonitoringRead k result) db =
     Some (POST_ADMISSION_INVARIANT_BREACH, case reservation_by_id db k of None \<Rightarrow> None | Some r \<Rightarrow> rv_run r)"
| "owed_trip _ db = None"

definition standing :: "(latch_reason \<times> int option) option \<Rightarrow> ledger_db \<Rightarrow> bool" where
  "standing owed db \<longleftrightarrow> (\<exists>t \<in> set (trips db). trip_open t \<and> owed = Some (la_reason t, la_run t))"

lemma alarm_standing: "alarm (set_option owed) db = standing owed db"
  by (cases owed) (auto simp: alarm_def standing_def)

lemma perform_careful:
  assumes p: "perform config now op db = Inr db'"
    and clock: "clock_ok config db (instant_of now)" and call: "called_for config cs ce now op db"
    and g: "guard_of config = Inr g"
  shows "careful (set_option (owed_trip op db)) config cs ce db db'"
proof -
  have before: "reserved_before db (instant_of now)" and never: "instant_of now + g \<le> NEVER"
    using clock g by (simp_all add: clock_ok_def)
  show ?thesis
  proof (cases op)
    case (Reserve request site reason)
    have "instant_of now \<le> NEVER" using never guard_of_nonneg [OF g] by simp
    then show ?thesis using p call unfolding Reserve
      by (auto simp: andThen_eq_Inr split: option.splits intro: reserve_careful)
  next
    case (CompleteMonitoringRead k result)
    obtain b where c: "complete_monitoring_read db k result now config = Inr (db', b)"
      using p unfolding CompleteMonitoringRead by (auto simp: andThen_eq_Inr)
    show ?thesis
    proof (rule careful_if)
      assume s: "sound db" "recorded cs ce db"
      show "careful (set_option (owed_trip op db)) config cs ce db db'"
      proof (rule complete_careful [OF c s])
        fix r run
        assume l: "lock_by_reservation db k = Inr (r, run)"
        have "map_option pr_id run = rv_run r" using lock_by_reservationD(3,4) [OF l] by (cases run) simp_all
        then show "(POST_ADMISSION_INVARIANT_BREACH, map_option pr_id run) \<in> set_option (owed_trip op db)"
          using lock_by_reservationD(1) [OF l] by (simp add: CompleteMonitoringRead)
      qed (use call never g in \<open>auto simp: CompleteMonitoringRead\<close>)
    qed
  next
    case ResolveStaleMarkers
    have "t + g \<le> NEVER" if "r \<in> set (reservations db)" "rv_monitoring_charge_last_at r = Some t" for r t
    proof -
      have "opt_all (\<lambda>t. t \<le> instant_of now) (rv_monitoring_charge_last_at r)" using clock that(1) unfolding clock_ok_def by blast
      then show ?thesis using never that(2) by simp
    qed
    then have "tame {} config db (fst (resolve_stale_monitoring_markers db (instant_of now)))"
      using tame_resolve_stale [OF g never] by blast
    then show ?thesis using p tame_careful by (simp add: ResolveStaleMarkers)
  next
    case (RecordRunUsage k a)
    show ?thesis using p before unfolding RecordRunUsage
      by (auto simp: andThen_eq_Inr intro!: tame_careful tame_record_run_usage)
  next
    case (PlanSettlementRead k)
    show ?thesis using p before unfolding PlanSettlementRead
      by (auto simp: andThen_eq_Inr intro!: tame_careful tame_plan_settlement_read)
  next
    case (BindBuild k build)
    show ?thesis using p unfolding BindBuild by (auto simp: andThen_eq_Inr intro: tame_careful tame_bind_build)
  next
    case (PlanBuildRead k)
    show ?thesis using p before unfolding PlanBuildRead by (auto simp: andThen_eq_Inr intro!: tame_careful tame_plan_build_read)
  next
    case (RecordBuildUsage k a)
    show ?thesis using p before unfolding RecordBuildUsage
      by (auto simp: andThen_eq_Inr intro!: tame_careful tame_record_build_usage)
  next
    case (ReleaseUnattached grace)
    show ?thesis using p unfolding ReleaseUnattached by (auto simp: andThen_eq_Inr intro: tame_careful tame_release_unattached)
  next
    case (SettleOperator k probe verified)
    show ?thesis using p before unfolding SettleOperator by (auto intro: tame_careful tame_settle_operator)
  next
    case (BeginMonitoringRead k)
    show ?thesis using p unfolding BeginMonitoringRead
      by (auto simp: andThen_eq_Inr intro: tame_careful tame_begin_monitoring_read)
  next
    case (ClearLatch reason)
    show ?thesis using p unfolding ClearLatch by (auto simp: andThen_eq_Inr intro: tame_careful tame_clear_latch)
  qed
qed

lemma ledger_step_careful:
  assumes "ledger_step config cs ce db op db'" and "guard_of config = Inr g"
  shows "careful (set_option (owed_trip op db)) config cs ce db db'"
  using assms(1) by (cases rule: ledger_step.cases) (auto intro: perform_careful [OF _ _ _ assms(2)] careful_refl)

interpretation life: invariant "ledger_step config cs ce" "\<lambda>db. (\<exists>g. guard_of config = Inr g) \<longrightarrow> sound db \<and> recorded cs ce db"
  for config cs ce
  by unfold_locales (use ledger_step_careful in \<open>fastforce simp: careful_def\<close>)

text \<open>The step of a run that took the cycle over a cap, if the run did.\<close>

lemma crossing_step:
  assumes "steps (ledger_step config cs ce) db ops db'" and "sound db" and "recorded cs ce db"
    and "guard_of config = Inr g" and "within_caps config g cs ce db" and "\<not> within_caps config g cs ce db'"
  shows "\<exists>before op after d1 d2. ops = before @ op # after \<and> steps (ledger_step config cs ce) db before d1
     \<and> ledger_step config cs ce d1 op d2 \<and> steps (ledger_step config cs ce) d2 after db'
     \<and> within_caps config g cs ce d1 \<and> \<not> within_caps config g cs ce d2 \<and> standing (owed_trip op d1) d2"
  using assms
proof (induction rule: steps.induct)
  case (steps_Nil db)
  then show ?case by blast
next
  case step: (steps_Cons db op db1 ops db2)
  have c: "sound db1" "recorded cs ce db1" "standing (owed_trip op db) db1 \<or> no_further config g cs ce db db1"
    using ledger_step_careful [OF step.hyps(1) step.prems(3)] step.prems(1-3) by (auto simp: careful_def alarm_standing)
  show ?case
  proof (cases "within_caps config g cs ce db1")
    case True
    from step.IH [OF c(1,2) step.prems(3) True step.prems(5)] obtain before o' after d1 d2 where
      x: "ops = before @ o' # after" "steps (ledger_step config cs ce) db1 before d1"
        "ledger_step config cs ce d1 o' d2 \<and> steps (ledger_step config cs ce) d2 after db2
          \<and> within_caps config g cs ce d1 \<and> \<not> within_caps config g cs ce d2 \<and> standing (owed_trip o' d1) d2" by blast
    have "op # ops = (op # before) @ o' # after" "steps (ledger_step config cs ce) db (op # before) d1"
      using x(1,2) step.hyps(1) by (auto intro: steps.intros)
    with x(3) show ?thesis by blast
  next
    case False
    then have "standing (owed_trip op db) db1" using c(3) no_further_caps step.prems(4) by blast
    then show ?thesis
      using step.hyps step.prems(4) False
      by (intro exI [of _ "[]"] exI [of _ op] exI [of _ ops] exI [of _ db] exI [of _ db1]) (simp add: steps.intros)
  qed
qed

text \<open>C1: Over the whole life of a billing cycle, in any interleaving of admission, settlement, release of
  unattached reservations, usage reads, correction monitoring, operator settlement and owner resets, each a
  transaction that commits or rolls back: no step takes the cycle's exact debits further beyond the allocation,
  the operator allowance or the account's usable share, unless it leaves a trip standing open, of its own
  reason (an overrun for a settlement, a post-admission breach for a correction) and for the run it settled or
  corrected, whatever was tripped or cleared before. So a cycle that starts within its caps ends within them, or
  the step that crossed a cap left such a trip. Assumed: one configuration throughout, reservations asked for
  inside the cycle, a monitoring read completed while its marker is set, and a clock behind no stored stamp.\<close>

theorem spending_bounded_or_alarmed:
  assumes "steps (ledger_step config cs ce) db ops db1" and "ledger_step config cs ce db1 op db2"
    and "sound db" and "recorded cs ce db" and "guard_of config = Inr g"
  shows "(no_further config g cs ce db1 db2 \<or> standing (owed_trip op db1) db2)
     \<and> (within_caps config g cs ce db \<longrightarrow> within_caps config g cs ce db1
        \<or> (\<exists>before o' after d1 d2. ops = before @ o' # after \<and> steps (ledger_step config cs ce) db before d1
            \<and> ledger_step config cs ce d1 o' d2 \<and> steps (ledger_step config cs ce) d2 after db1
            \<and> within_caps config g cs ce d1 \<and> \<not> within_caps config g cs ce d2 \<and> standing (owed_trip o' d1) d2))"
proof -
  have "sound db1 \<and> recorded cs ce db1" using life.steps_inv [OF assms(1)] assms(3-5) by blast
  then have "no_further config g cs ce db1 db2 \<or> standing (owed_trip op db1) db2"
    using ledger_step_careful [OF assms(2,5)] assms(5) by (auto simp: careful_def alarm_standing)
  then show ?thesis using crossing_step [OF assms(1,3-5)] by blast
qed

text \<open>A first reservation, then an owner who finds nothing to reset.\<close>

theorem spending_bounded_or_alarmed_witness:
  "\<exists>db' db''. ledger_step sample_config (cy_start sample_cycle) (cy_end sample_cycle) authorised_db (Reserve sample_request (Some 7) []) db'
     \<and> ledger_step sample_config (cy_start sample_cycle) (cy_end sample_cycle) db' (ClearLatch []) db''
     \<and> length (reservations db') = 1
     \<and> no_further sample_config 1800000000 (cy_start sample_cycle) (cy_end sample_cycle) db' db''
     \<and> within_caps sample_config 1800000000 (cy_start sample_cycle) (cy_end sample_cycle) db'"
proof -
  let ?step = "ledger_step sample_config (cy_start sample_cycle) (cy_end sample_cycle)"
  obtain db' oc where r: "reserve sample_request (Some 7) sample_config sample_now [] authorised_db = Inr (db', oc)"
    using first_reserve by blast
  have "instant_of sample_now + 1800000000 \<le> NEVER" by code_simp
  then have clock: "clock_ok sample_config authorised_db (instant_of sample_now)"
    by (simp add: clock_ok_def reserved_before_def authorised_fields sample_guard)
  have call: "called_for sample_config (cy_start sample_cycle) (cy_end sample_cycle) sample_now (Reserve sample_request (Some 7) []) authorised_db"
    using sample_anchor_set sample_bounds by (simp add: authorised_fields)
  have p: "perform sample_config sample_now (Reserve sample_request (Some 7) []) authorised_db = Inr db'" by (simp add: r)
  have one: "?step authorised_db (Reserve sample_request (Some 7) []) db'" by (rule ledger_step.committed [OF p clock call])
  have "perform sample_config sample_now (ClearLatch []) db' = Inl (LedgerRefused ''reason_missing'')"
    by (simp add: clear_latch_def strip_def)
  then have two: "?step db' (ClearLatch []) db'" by (rule ledger_step.aborted)
  have run: "steps ?step authorised_db [Reserve sample_request (Some 7) []] db'"
    using one by (blast intro: steps.intros)
  have "sound authorised_db" by (simp add: sound_def authorised_ok(1) keys_ok_def authorised_fields)
  moreover have "recorded (cy_start sample_cycle) (cy_end sample_cycle) authorised_db"
    by (simp add: recorded_def authorised_fields)
  moreover obtain row where "reservations db' = reservations authorised_db @ [row]" using reserve_frame [OF r] by metis
  ultimately show ?thesis
    using spending_bounded_or_alarmed [OF run two _ _ sample_guard] one two authorised_ok(2)
    by (intro exI [of _ db']) (auto simp: authorised_fields standing_def Cons_eq_append_conv)
qed

end
