(* ===== verification/Importer.thy ===== *)
theory Importer
  imports LedgerLife
begin

text \<open>
  The import of a terminal Actor run (\<open>acquisition/apify/importer.py\<close>): the claim, the counted paid
  reads, the stages with their compare-and-set, the two outcome transactions that make an import
  terminal, and the back-offs. What a stage reads and stores beyond the \<open>provider_run\<close> row (the
  dataset, observations, absence, resolution, evaluation, the scraper run) is given by how it ends, and an
  outcome transaction asks the schedule to apply its lifecycle event.
\<close>

section \<open>Settings and exceptions\<close>

record jobs_settings =
  js_max_run_polls :: int
  js_max_delete_attempts :: int
  js_cleanup_max_s :: int
  js_import_margin_s :: int
  js_404_is_absent :: bool
  js_enabled :: bool
  js_actor_id :: string
  js_actor_build :: string
  js_max_dataset_reads :: int
  js_max_kv_reads :: int
  js_max_kv_bytes :: "int option"

text \<open>\<open>Exhausted\<close> is \<open>RetryExhausted\<close>; \<open>Crashed\<close> is any exception the import lets through.\<close>

datatype import_stop = Rejected reject_reason | StateMoved | LatchBlocked | Exhausted | Crashed ledger_error

definition lift_stop :: "ledger_error + 'a \<Rightarrow> import_stop + 'a" where
  "lift_stop r = (case r of Inl e \<Rightarrow> Inl (Crashed e) | Inr x \<Rightarrow> Inr x)"

lemma lift_stop_eq_Inr [simp]: "lift_stop r = Inr x \<longleftrightarrow> r = Inr x"
  by (cases r) (simp_all add: lift_stop_def)

definition RETRY_EXHAUSTED_BACKOFF :: timedelta where "RETRY_EXHAUSTED_BACKOFF = seconds 300"

definition LATCH_BLOCKED_BACKOFF :: timedelta where "LATCH_BLOCKED_BACKOFF = seconds 900"

text \<open>\<open>_lock\<close>: the row lock and the compare-and-set.\<close>

definition lock_at :: "ledger_db \<Rightarrow> int \<Rightarrow> import_state \<Rightarrow> import_stop + provider_run" where
  "lock_at db k expected =
     andThen (lift_stop (get_row (run_by_id db k))) (\<lambda>p.
     if pr_import_state p \<noteq> expected then Inl StateMoved else Inr p)"

definition claim :: "ledger_db \<Rightarrow> int \<Rightarrow> ledger_error + ledger_db" where
  "claim db k =
     andThen (get_row (run_by_id db k)) (\<lambda>p.
     if pr_import_state p \<in> set TERMINAL_IMPORT then Inr db
     else save_run db (p\<lparr>pr_import_attempts := pr_import_attempts p + 1\<rparr>))"

section \<open>Stage 1\<close>

definition count_reads :: "jobs_settings \<Rightarrow> ledger_db \<Rightarrow> int \<Rightarrow> import_stop + ledger_db" where
  "count_reads s db k =
     andThen (lock_at db k IMPORT_PENDING) (\<lambda>p.
     if js_max_dataset_reads s \<le> int (pr_dataset_reads p) \<or> js_max_kv_reads s \<le> int (pr_kv_reads p)
     then Inl (Rejected READ_CAP_EXHAUSTED)
     else if 1 \<le> pr_dataset_reads p \<and> latch_tripped db then Inl LatchBlocked
     else lift_stop (save_run db (p\<lparr>pr_dataset_reads := pr_dataset_reads p + 1, pr_kv_reads := pr_kv_reads p + 1\<rparr>)))"

text \<open>What the provider found: the row's item count, the size of the OUTPUT record, and the classification.\<close>

record fetched =
  fe_items :: "int option"
  fe_output_bytes :: "int option"
  fe_failed :: bool

text \<open>
  The world around one invocation: the clocks, the retention of the site, how the work of each stage ends
  (construction of the provider, fetch, parse, persist; per state, the work of stages 2 to 5), whether a
  finalized probe recovers the source, and whether the schedule accepts an event.
\<close>

record import_env =
  ie_start :: instant
  ie_commit :: instant
  ie_end :: instant
  ie_provider :: "reject_reason option"
  ie_policy :: "(instant \<Rightarrow> instant option) option"
  ie_fetch :: "import_stop + fetched"
  ie_parse :: "import_stop + unit"
  ie_persist :: "import_stop + int list"
  ie_work :: "import_state \<Rightarrow> import_stop + unit"
  ie_recovers :: bool
  ie_schedule :: "lifecycle_event \<Rightarrow> ledger_error + unit"

definition stage1_guard :: "import_env \<Rightarrow> provider_run \<Rightarrow> import_stop + unit" where
  "stage1_guard e p =
     andThen (raise_if (pr_cleanup_due_at p \<le> ie_start e) (Rejected STORAGE_DEADLINE_PASSED)) (\<lambda>_.
     andThen (case ie_provider e of None \<Rightarrow> Inr () | Some reason \<Rightarrow> Inl (Rejected reason)) (\<lambda>_.
     case (pr_started_at p, ie_policy e) of
       (Some started, Some policy) \<Rightarrow>
         (case policy started of
            None \<Rightarrow> Inr ()
          | Some deadline \<Rightarrow> raise_if (deadline \<le> ie_start e) (Rejected CONTENT_PAST_TTL))
     | _ \<Rightarrow> Inr ()))"

definition over_cap_trips :: "jobs_settings \<Rightarrow> provider_run \<Rightarrow> fetched \<Rightarrow> ledger_config \<Rightarrow> instant \<Rightarrow> ledger_db \<Rightarrow> ledger_error + ledger_db" where
  "over_cap_trips s p f config now db =
     andThen (if (case fe_items f of None \<Rightarrow> False | Some n \<Rightarrow> pr_max_items p < n)
         then trip DATASET_OVER_CAP (Some (pr_id p)) config now db else Inr db) (\<lambda>db.
     if (case (js_max_kv_bytes s, fe_output_bytes f) of (Some c, Some b) \<Rightarrow> c < b | _ \<Rightarrow> False)
     then trip KV_STORE_OVER_CAP (Some (pr_id p)) config now db else Inr db)"

definition commit_observations :: "import_env \<Rightarrow> ledger_db \<Rightarrow> int \<Rightarrow> import_stop + ledger_db" where
  "commit_observations e db k =
     andThen (lock_at db k IMPORT_PENDING) (\<lambda>p.
     andThen (raise_if (pr_cleanup_due_at p \<le> ie_commit e) (Rejected STORAGE_DEADLINE_PASSED)) (\<lambda>_.
     andThen (ie_persist e) (\<lambda>ids.
     lift_stop (save_run db (p\<lparr>pr_listing_ids := ids, pr_import_state := OBSERVATIONS_COMMITTED\<rparr>)))))"

text \<open>
  \<open>_stage1\<close>. Each of its transactions is on its own, so what was committed before an exception stays:
  the result pairs the ledger left behind with how the stage ended.
\<close>

type_synonym stage_result = "ledger_db \<times> (import_stop + unit)"

definition keep_db :: "ledger_db \<Rightarrow> import_stop + ledger_db \<Rightarrow> (ledger_db \<Rightarrow> stage_result) \<Rightarrow> stage_result" where
  "keep_db db r f = (case r of Inl e \<Rightarrow> (db, Inl e) | Inr db' \<Rightarrow> f db')"

definition stage1 :: "jobs_settings \<Rightarrow> ledger_config \<Rightarrow> import_env \<Rightarrow> ledger_db \<Rightarrow> provider_run \<Rightarrow> stage_result" where
  "stage1 s config e db p =
     (case stage1_guard e p of
        Inl stop \<Rightarrow> (db, Inl stop)
      | Inr _ \<Rightarrow>
          keep_db db (count_reads s db (pr_id p)) (\<lambda>db.
          case ie_fetch e of
            Inl stop \<Rightarrow> (db, Inl stop)
          | Inr f \<Rightarrow>
              keep_db db (lift_stop (over_cap_trips s p f config (ie_start e) db)) (\<lambda>db.
              if fe_failed f then (db, Inl (Rejected FAILED_RUN))
              else keep_db db (andThen (ie_parse e) (\<lambda>_. commit_observations e db (pr_id p))) (\<lambda>db. (db, Inr ())))))"

section \<open>Stages 2 to 5 and Reject\<close>

definition advance :: "ledger_db \<Rightarrow> int \<Rightarrow> import_state \<Rightarrow> import_state \<Rightarrow> import_stop + ledger_db" where
  "advance db k expected next' =
     andThen (lock_at db k expected) (\<lambda>p. lift_stop (save_run db (p\<lparr>pr_import_state := next'\<rparr>)))"

definition stage2 :: "import_env \<Rightarrow> ledger_db \<Rightarrow> int \<Rightarrow> import_stop + ledger_db" where
  "stage2 e db k =
     andThen (lock_at db k OBSERVATIONS_COMMITTED) (\<lambda>p.
     andThen (ie_work e OBSERVATIONS_COMMITTED) (\<lambda>_.
     lift_stop (save_run db (p\<lparr>pr_import_state := ABSENCE_APPLIED\<rparr>))))"

definition stage3 :: "import_env \<Rightarrow> ledger_db \<Rightarrow> int \<Rightarrow> import_stop + ledger_db" where
  "stage3 e db k = andThen (ie_work e ABSENCE_APPLIED) (\<lambda>_. advance db k ABSENCE_APPLIED IMPORT_RESOLVED)"

definition stage4 :: "import_env \<Rightarrow> ledger_db \<Rightarrow> int \<Rightarrow> import_stop + ledger_db" where
  "stage4 e db k = andThen (ie_work e IMPORT_RESOLVED) (\<lambda>_. advance db k IMPORT_RESOLVED IMPORT_EVALUATED)"

text \<open>Stage 5: the import is final; a second barrier may complete the remote work here.\<close>

definition finalize_event :: "run_kind \<Rightarrow> bool \<Rightarrow> lifecycle_event" where
  "finalize_event kind recovers =
     (if kind = RUN_PROBE then (if recovers then PROBE_SUCCESS else PROBE_FAILURE) else SUCCESS)"

definition stage5 :: "import_env \<Rightarrow> ledger_db \<Rightarrow> int \<Rightarrow> import_stop + ledger_db" where
  "stage5 e db k =
     andThen (lock_at db k IMPORT_EVALUATED) (\<lambda>p.
     andThen (ie_work e IMPORT_EVALUATED) (\<lambda>_.
     andThen (lift_stop (ie_schedule e (finalize_event (pr_run_kind p) (ie_recovers e)))) (\<lambda>_.
     lift_stop (save_run db (fst (stamp_work_completion (p\<lparr>pr_import_state := IMPORT_FINALIZED\<rparr>) (ie_end e)))))))"

text \<open>The lifecycle event a rejection feeds to the source's schedule.\<close>

definition reject_event :: "reject_reason \<Rightarrow> run_kind \<Rightarrow> lifecycle_event" where
  "reject_event reason kind =
     (if kind \<noteq> RUN_FULL then PROBE_FAILURE
      else case reason of
        FAILED_RUN \<Rightarrow> PARSER_ROT
      | INVALID_CONTRACT \<Rightarrow> PARSER_ROT
      | UNKNOWN_RETENTION \<Rightarrow> UNKNOWN_FAILURE
      | STORAGE_DEADLINE_PASSED \<Rightarrow> TRANSIENT_FAILURE
      | CONTENT_PAST_TTL \<Rightarrow> TRANSIENT_FAILURE
      | READ_CAP_EXHAUSTED \<Rightarrow> TRANSIENT_FAILURE
      | START_MISMATCHED \<Rightarrow> UNKNOWN_FAILURE)"

text \<open>\<open>_reject\<close>: one outcome transaction; \<open>schedule\<close> says whether the event can be applied.\<close>

definition reject_import ::
  "(lifecycle_event \<Rightarrow> ledger_error + unit) \<Rightarrow> ledger_db \<Rightarrow> int \<Rightarrow> reject_reason \<Rightarrow> import_state option \<Rightarrow> instant
     \<Rightarrow> ledger_error + ledger_db" where
  "reject_import schedule db k reason only_from now =
     andThen (get_row (run_by_id db k)) (\<lambda>p.
     if pr_import_state p \<in> set TERMINAL_IMPORT then Inr db
     else if only_from \<noteq> None \<and> only_from \<noteq> Some (pr_import_state p) then Inr db
     else andThen (schedule (reject_event reason (pr_run_kind p))) (\<lambda>_.
          save_run db (fst (stamp_work_completion
            (p\<lparr>pr_reject_reason := Some reason, pr_import_state := IMPORT_REJECTED\<rparr>) now))))"

definition record_latch_block :: "ledger_db \<Rightarrow> int \<Rightarrow> instant \<Rightarrow> ledger_error + ledger_db" where
  "record_latch_block db k now =
     andThen (get_row (run_by_id db k)) (\<lambda>p.
     andThen (date_add now LATCH_BLOCKED_BACKOFF) (\<lambda>t.
     save_run db (p\<lparr>pr_blocked_by_latch := True, pr_next_attempt_at := Some t\<rparr>)))"

definition record_exhaustion :: "ledger_db \<Rightarrow> int \<Rightarrow> instant \<Rightarrow> ledger_error + ledger_db" where
  "record_exhaustion db k now =
     andThen (get_row (run_by_id db k)) (\<lambda>p.
     andThen (date_add now RETRY_EXHAUSTED_BACKOFF) (\<lambda>t.
     save_run db (p\<lparr>pr_retry_exhausted := Some ((case pr_retry_exhausted p of None \<Rightarrow> 0 | Some n \<Rightarrow> n) + 1),
       pr_next_attempt_at := Some t\<rparr>)))"

section \<open>One invocation\<close>

text \<open>One round of the loop of \<open>import_provider_run\<close>: the stage of the stored state.\<close>

definition run_stage :: "jobs_settings \<Rightarrow> ledger_config \<Rightarrow> import_env \<Rightarrow> ledger_db \<Rightarrow> provider_run \<Rightarrow> stage_result" where
  "run_stage s config e db p =
     (let commit = (\<lambda>r. keep_db db r (\<lambda>db. (db, Inr ()))); k = pr_id p in
      case pr_import_state p of
        IMPORT_PENDING \<Rightarrow> stage1 s config e db p
      | OBSERVATIONS_COMMITTED \<Rightarrow> commit (stage2 e db k)
      | ABSENCE_APPLIED \<Rightarrow> commit (stage3 e db k)
      | IMPORT_RESOLVED \<Rightarrow> commit (stage4 e db k)
      | IMPORT_EVALUATED \<Rightarrow> commit (stage5 e db k)
      | _ \<Rightarrow> (db, Inr ()))"

text \<open>The loop, with the number of rounds it may take; \<open>None\<close> means that they did not suffice.\<close>

fun import_loop ::
  "nat \<Rightarrow> jobs_settings \<Rightarrow> ledger_config \<Rightarrow> import_env \<Rightarrow> ledger_db \<Rightarrow> int \<Rightarrow> (ledger_db \<times> (import_stop + unit)) option" where
  "import_loop 0 s config e db k = None"
| "import_loop (Suc n) s config e db k =
     (case run_by_id db k of
        None \<Rightarrow> Some (db, Inl (Crashed NoSuchRow))
      | Some p \<Rightarrow>
          if pr_import_state p \<in> set TERMINAL_IMPORT then Some (db, Inr ())
          else (case run_stage s config e db p of
              (db, Inl stop) \<Rightarrow> Some (db, Inl stop)
            | (db, Inr _) \<Rightarrow> import_loop n s config e db k))"

text \<open>The exception handlers around the loop. \<open>Inl\<close>: an exception leaves the invocation.\<close>

definition handle_stop :: "import_env \<Rightarrow> ledger_db \<Rightarrow> int \<Rightarrow> import_stop + unit \<Rightarrow> ledger_db \<times> (ledger_error + unit)" where
  "handle_stop e db k r =
     (let commit = (\<lambda>r. case r of Inl err \<Rightarrow> (db, Inl err) | Inr db \<Rightarrow> (db, Inr ())) in
      case r of
        Inr _ \<Rightarrow> (db, Inr ())
      | Inl (Rejected reason) \<Rightarrow> commit (reject_import (ie_schedule e) db k reason None (ie_end e))
      | Inl Exhausted \<Rightarrow> commit (record_exhaustion db k (ie_end e))
      | Inl LatchBlocked \<Rightarrow> commit (record_latch_block db k (ie_end e))
      | Inl StateMoved \<Rightarrow> (db, Inr ())
      | Inl (Crashed err) \<Rightarrow> (db, Inl err))"

definition import_provider_run ::
  "jobs_settings \<Rightarrow> ledger_config \<Rightarrow> import_env \<Rightarrow> ledger_db \<Rightarrow> int \<Rightarrow> ledger_db \<times> (ledger_error + unit)" where
  "import_provider_run s config e db k =
     (case run_by_id db k of
        None \<Rightarrow> (db, Inl NoSuchRow)
      | Some p \<Rightarrow>
          if pr_import_state p \<in> set TERMINAL_IMPORT then (db, Inr ())
          else (case claim db k of
              Inl err \<Rightarrow> (db, Inl err)
            | Inr db \<Rightarrow>
                (case import_loop 6 s config e db k of
                   None \<Rightarrow> (db, Inl (Raised AssertionError))
                 | Some (db, r) \<Rightarrow> handle_stop e db k r)))"

end
