(* ===== verification/Jobs.thy ===== *)
theory Jobs
  imports Importer
begin

text \<open>
  The start job and the row operations of the poll tick (\<open>acquisition/apify/jobs.py\<close>): the guards of a
  start, the creation of a \<open>provider_run\<close> attached to its reservation, what start, poll and abort
  responses record, the selectors, the poll counter and the back-off.
\<close>

section \<open>Transactions in sequence\<close>

text \<open>
  A job is a sequence of transactions with calls to the Apify API between them. It pairs the ledger its
  committed transactions left behind with its outcome; an exception rolls back only the transaction it left.
\<close>

type_synonym ('e, 'a) job = "ledger_db \<times> ('e + 'a)"

definition txn :: "ledger_db \<Rightarrow> ledger_error + ledger_db \<times> 'a \<Rightarrow> (ledger_db \<Rightarrow> 'a \<Rightarrow> (ledger_error, 'b) job) \<Rightarrow> (ledger_error, 'b) job" where
  "txn db r f = (case r of Inl e \<Rightarrow> (db, Inl e) | Inr (db', x) \<Rightarrow> f db' x)"

definition commit :: "ledger_db \<Rightarrow> ledger_error + ledger_db \<Rightarrow> (ledger_db \<Rightarrow> (ledger_error, 'b) job) \<Rightarrow> (ledger_error, 'b) job" where
  "commit db r f = (case r of Inl e \<Rightarrow> (db, Inl e) | Inr db' \<Rightarrow> f db')"

text \<open>A job inside a job.\<close>

definition followed_by :: "('e, 'a) job \<Rightarrow> (ledger_db \<Rightarrow> 'a \<Rightarrow> ('e, 'b) job) \<Rightarrow> ('e, 'b) job" where
  "followed_by j f = (case j of (db, Inl e) \<Rightarrow> (db, Inl e) | (db, Inr x) \<Rightarrow> f db x)"

section \<open>Constants\<close>

definition UNIT_BACKOFF_BASE :: timedelta where "UNIT_BACKOFF_BASE = seconds 60"

definition UNIT_BACKOFF_MAX :: timedelta where "UNIT_BACKOFF_MAX = hours 1"

text \<open>\<open>version.rsplit("/v", 1)[1].split(".", 1)[0]\<close>.\<close>

fun after_last_v :: "string \<Rightarrow> string option" where
  "after_last_v (x # y # s) =
     (case after_last_v (y # s) of
        Some t \<Rightarrow> Some t
      | None \<Rightarrow> if [x, y] = ''/v'' then Some s else None)"
| "after_last_v _ = None"

definition before_dot :: "string \<Rightarrow> string" where "before_dot s = takeWhile (\<lambda>c. [c] \<noteq> ''.'') s"

definition INPUT_SCHEMA_VERSION :: string where "INPUT_SCHEMA_VERSION = ''hw-radar-input/v1''"

definition CONTRACT_MAJOR :: string where
  "CONTRACT_MAJOR = (case after_last_v INPUT_SCHEMA_VERSION of None \<Rightarrow> [] | Some t \<Rightarrow> before_dot t)"

section \<open>The guards of a start\<close>

datatype start_refusal = NO_RUN_SPEC | INVALID_INPUT | RETENTION_UNKNOWN | BOUNDED_RETENTION_UNENFORCEABLE
  | TIMEOUT_EXCEEDS_RETENTION | APIFY_DISABLED | ACTOR_UNCONFIGURED | CLIENT_UNAVAILABLE | SCOPE_RUN_OUTSTANDING
  | SOURCE_RETIRED

text \<open>A spec with its validated input: what the start asks for.\<close>

record run_spec =
  sp_site_key :: string
  sp_scope :: string
  sp_shape :: run_shape
  sp_max_pages :: int
  sp_class :: budget_class

text \<open>
  A start as the job receives it: the site with its registry entries (retired, retention, the spec its
  factory returns, \<open>Some None\<close> for an input that does not validate), the kind, the tag, the client.
\<close>

record start_request =
  sr_site :: int
  sr_site_key :: string
  sr_retired :: bool
  sr_spec :: "run_spec option option"
  sr_retention :: "((instant \<Rightarrow> instant option) option) option"
  sr_kind :: run_kind
  sr_build_tag :: "string option"
  sr_client_ok :: bool

text \<open>The range of \<open>timedelta\<close>; a value outside it is an \<open>OverflowError\<close>.\<close>

definition timedelta_ok :: "timedelta \<Rightarrow> bool" where
  "timedelta_ok d \<longleftrightarrow> - days 999999999 \<le> d \<and> d < days 999999999 + days 1"

definition storage_cleanup_deadline ::
  "jobs_settings \<Rightarrow> instant \<Rightarrow> (instant \<Rightarrow> instant option) option \<Rightarrow> ledger_error + instant" where
  "storage_cleanup_deadline s admitted_at policy =
     (let horizon = seconds (js_cleanup_max_s s) in
      andThen (raise_if (\<not> timedelta_ok horizon) DateOverflow) (\<lambda>_.
      let horizon = (case policy of
            None \<Rightarrow> horizon
          | Some f \<Rightarrow> (case f admitted_at of
              None \<Rightarrow> horizon
            | Some expires \<Rightarrow> min horizon (rhe (of_int (expires - admitted_at) / 2)))) in
      date_add admitted_at horizon))"

definition has_outstanding_full_run :: "ledger_db \<Rightarrow> int \<Rightarrow> string \<Rightarrow> bool" where
  "has_outstanding_full_run db site scope =
     (\<exists>p \<in> set (runs db). pr_site p = site \<and> pr_scope_key p = scope \<and> pr_run_kind p = RUN_FULL
        \<and> pr_import_state p \<notin> set TERMINAL_IMPORT)"

text \<open>The refusals before budget admission, in the order of the code; \<open>Inr\<close> carries the spec and the deadline.\<close>

definition start_guards ::
  "jobs_settings \<Rightarrow> start_request \<Rightarrow> instant \<Rightarrow> ledger_db \<Rightarrow> ledger_error + (start_refusal + run_spec \<times> instant)" where
  "start_guards s r admitted_at db =
     (if sr_retired r then Inr (Inl SOURCE_RETIRED)
      else case sr_spec r of
        None \<Rightarrow> Inr (Inl NO_RUN_SPEC)
      | Some None \<Rightarrow> Inr (Inl INVALID_INPUT)
      | Some (Some spec) \<Rightarrow>
          if sp_site_key spec \<noteq> sr_site_key r then Inr (Inl INVALID_INPUT)
          else (case sr_retention r of
            None \<Rightarrow> Inr (Inl RETENTION_UNKNOWN)
          | Some (Some policy) \<Rightarrow> Inr (Inl BOUNDED_RETENTION_UNENFORCEABLE)
          | Some None \<Rightarrow>
              andThen (storage_cleanup_deadline s admitted_at None) (\<lambda>due_at.
              let timeout = seconds (timeout_s (sp_shape spec)); margin = seconds (js_import_margin_s s) in
              andThen (raise_if (\<not> timedelta_ok timeout \<or> \<not> timedelta_ok margin \<or> \<not> timedelta_ok (timeout + margin))
                DateOverflow) (\<lambda>_.
              if due_at - admitted_at < timeout + margin
              then Inr (Inl TIMEOUT_EXCEEDS_RETENTION)
              else if \<not> js_enabled s then Inr (Inl APIFY_DISABLED)
              else if js_actor_id s = [] then Inr (Inl ACTOR_UNCONFIGURED)
              else if sr_kind r = RUN_FULL \<and> has_outstanding_full_run db (sr_site r) (sp_scope spec)
              then Inr (Inl SCOPE_RUN_OUTSTANDING)
              else if \<not> sr_client_ok r then Inr (Inl CLIENT_UNAVAILABLE)
              else Inr (Inr (spec, due_at))))))"

definition start_class :: "run_kind \<Rightarrow> run_spec \<Rightarrow> budget_class" where
  "start_class kind spec = (if kind = RUN_PROBE then DISCOVERY else sp_class spec)"

section \<open>The run row\<close>

definition new_run :: "start_request \<Rightarrow> run_spec \<Rightarrow> instant \<Rightarrow> instant \<Rightarrow> int \<Rightarrow> provider_run" where
  "new_run r spec admitted_at due_at pk =
     \<lparr>pr_id = pk, pr_site = sr_site r, pr_external_id = None, pr_key = None, pr_build_id = None, pr_build_number = None,
      pr_scope_key = sp_scope spec, pr_memory_mb = memory_mb (sp_shape spec), pr_timeout_s = timeout_s (sp_shape spec),
      pr_max_items = max_items (sp_shape spec), pr_max_pages = sp_max_pages spec, pr_class = start_class (sr_kind r) spec,
      pr_run_kind = sr_kind r, pr_admitted_at = admitted_at, pr_remote_status = None, pr_remote_terminal_at = None,
      pr_started_at = None, pr_finished_at = None, pr_usage_total = None, pr_usage_read_at = None, pr_dataset_id = None,
      pr_kv_store_id = None, pr_import_state = IMPORT_PENDING, pr_next_attempt_at = None, pr_dataset_reads = 0,
      pr_kv_reads = 0, pr_run_polls = 0, pr_correction_reads = 0, pr_final_charge_op_at = None,
      pr_storage_state = STORAGE_RETAINED, pr_cleanup_due_at = due_at, pr_cleanup_attempts = 0, pr_storage_deleted_at = None,
      pr_orphaned_at = None, pr_start_status = None, pr_start_mismatch = [], pr_unit_failures = None, pr_restart_count = None,
      pr_verified_deleted = [], pr_cleanup_errors = None, pr_reject_reason = None, pr_import_attempts = 0,
      pr_listing_ids = [], pr_retry_exhausted = None, pr_blocked_by_latch = False\<rparr>"

text \<open>
  \<open>_create_run\<close>: the row and its attachment in one commit; \<open>None\<close> is \<open>ReservationNotOpen\<close>, which rolls the
  row back. The memory, timeout and limits are positive 32-bit columns.
\<close>

definition run_fits :: "provider_run \<Rightarrow> bool" where
  "run_fits p \<longleftrightarrow> list_all (\<lambda>n. 0 \<le> n \<and> n < 2 ^ 31) [pr_memory_mb p, pr_timeout_s p, pr_max_items p, pr_max_pages p]
     \<and> length (pr_scope_key p) \<le> 100"

definition insert_run :: "ledger_db \<Rightarrow> provider_run \<Rightarrow> ledger_error + ledger_db" where
  "insert_run db p =
     andThen (raise_if (\<not> run_fits p) DataError) (\<lambda>_.
     andThen (raise_if (\<not> run_checks db p \<or> pr_site p \<notin> set (sites db)) IntegrityError) (\<lambda>_.
     Inr (db\<lparr>runs := runs db @ [p], next_id := next_id db + 1\<rparr>)))"

definition create_run ::
  "ledger_db \<Rightarrow> (int \<Rightarrow> provider_run) \<Rightarrow> int option \<Rightarrow> ledger_error + (ledger_db \<times> int) option" where
  "create_run db row_for reservation_id =
     (let k = next_id db in
      andThen (insert_run db (row_for k)) (\<lambda>db.
      case reservation_id of
        None \<Rightarrow> Inr (Some (db, k))
      | Some j \<Rightarrow>
          (case reservation_by_id db j of
             Some q \<Rightarrow>
               if rv_status q = RESERVED \<and> rv_run q = None
               then andThen (save_reservation db (q\<lparr>rv_run := Some k\<rparr>)) (\<lambda>db. Inr (Some (db, k)))
               else Inr None
           | None \<Rightarrow> Inr None)))"

section \<open>Start responses\<close>

definition start_mismatches :: "api_run \<Rightarrow> int \<Rightarrow> int \<Rightarrow> string \<Rightarrow> start_mismatch list" where
  "start_mismatches a memory timeout build_tag =
     (if ap_memory_mbytes a \<noteq> Some memory then [MemoryDiffers] else [])
     @ (if ap_timeout_secs a \<noteq> Some timeout then [TimeoutDiffers] else [])
     @ (if ap_build_tag a \<noteq> None \<and> ap_build_tag a \<noteq> Some build_tag then [BuildTagDiffers] else [])
     @ (if ap_restart_on_error a = Some True then [RestartOnError] else [])
     @ (if ap_restart_count a \<notin> {None, Some 0} then [Restarted] else [])
     @ (case ap_build_number a of
          None \<Rightarrow> [BuildNumberUnreported]
        | Some n \<Rightarrow> if before_dot n \<noteq> CONTRACT_MAJOR then [BuildOutsideLine] else [])"

definition record_start_error :: "ledger_db \<Rightarrow> int \<Rightarrow> int option \<Rightarrow> ledger_error + ledger_db" where
  "record_start_error db k status =
     andThen (get_row (run_by_id db k)) (\<lambda>p. save_run db (p\<lparr>pr_start_status := status\<rparr>))"

definition terminal_status :: "string option \<Rightarrow> bool" where
  "terminal_status v = (case v of None \<Rightarrow> False | Some st \<Rightarrow> st \<in> set TERMINAL_RUN_STATUSES)"

definition apply_run_fields :: "provider_run \<Rightarrow> 'a api_record_scheme \<Rightarrow> instant \<Rightarrow> provider_run" where
  "apply_run_fields p a observed_at =
     (let terminal = terminal_status (Some (ap_status a)) in
      if terminal_status (pr_remote_status p) \<and> \<not> terminal then p
      else p\<lparr>pr_remote_status := Some (ap_status a),
             pr_remote_terminal_at := (if terminal \<and> pr_remote_terminal_at p = None then Some observed_at
               else pr_remote_terminal_at p),
             pr_started_at := (case ap_started_at a of None \<Rightarrow> pr_started_at p | t \<Rightarrow> t),
             pr_finished_at := (case ap_finished_at a of None \<Rightarrow> pr_finished_at p | t \<Rightarrow> t)\<rparr>)"

definition record_start :: "ledger_db \<Rightarrow> int \<Rightarrow> api_run \<Rightarrow> start_mismatch list \<Rightarrow> instant \<Rightarrow> ledger_error + ledger_db" where
  "record_start db k a mismatches now =
     andThen (get_row (run_by_id db k)) (\<lambda>p.
     let p = apply_run_fields (p\<lparr>pr_external_id := Some (ap_id a), pr_key := Some (''apify:'' @ ap_id a),
            pr_build_id := ap_build_id a, pr_build_number := ap_build_number a, pr_dataset_id := ap_dataset_id a,
            pr_kv_store_id := ap_kv_store_id a\<rparr>) a now in
     save_run db (if mismatches = [] then p
       else p\<lparr>pr_start_mismatch := mismatches, pr_cleanup_attempts := pr_cleanup_attempts p + 1\<rparr>))"

text \<open>Python's \<open>a or b\<close> on optional strings.\<close>

definition or_else :: "string option \<Rightarrow> string option \<Rightarrow> string option" where
  "or_else a b = (if a = None \<or> a = Some [] then b else a)"

text \<open>\<open>_record_observation\<close>: the row in one transaction, then the trip of an observed restart in its own.\<close>

definition observed_run :: "provider_run \<Rightarrow> api_run \<Rightarrow> instant \<Rightarrow> bool \<Rightarrow> provider_run" where
  "observed_run p a observed_at poll =
     (let p = apply_run_fields p a observed_at;
          p = p\<lparr>pr_dataset_id := or_else (pr_dataset_id p) (ap_dataset_id a),
                pr_kv_store_id := or_else (pr_kv_store_id p) (ap_kv_store_id a),
                pr_build_id := or_else (pr_build_id p) (ap_build_id a),
                pr_build_number := or_else (pr_build_number p) (ap_build_number a),
                pr_unit_failures := None\<rparr>;
          p = (if poll then p\<lparr>pr_usage_total := map_option to_numeric_8 (ap_total a), pr_usage_read_at := Some observed_at\<rparr> else p)
      in if ap_restart_count a \<notin> {None, Some 0} then p\<lparr>pr_restart_count := ap_restart_count a\<rparr> else p)"

definition record_observation ::
  "ledger_config \<Rightarrow> ledger_db \<Rightarrow> int \<Rightarrow> api_run \<Rightarrow> instant \<Rightarrow> bool \<Rightarrow> (ledger_error, unit) job" where
  "record_observation config db k a observed_at poll =
     commit db (andThen (get_row (run_by_id db k)) (\<lambda>p. save_run db (observed_run p a observed_at poll))) (\<lambda>db.
     if ap_restart_count a \<in> {None, Some 0} then (db, Inr ())
     else commit db (trip START_OPTION_MISMATCH (Some k) config observed_at db) (\<lambda>db. (db, Inr ())))"

section \<open>Starting a run\<close>

definition reject_mismatch :: "(lifecycle_event \<Rightarrow> ledger_error + unit) \<Rightarrow> ledger_db \<Rightarrow> int \<Rightarrow> instant \<Rightarrow> ledger_error + ledger_db" where
  "reject_mismatch schedule db k now = andThen (get_row (run_by_id db k)) (\<lambda>p. reject_import schedule db k START_MISMATCHED None now)"

text \<open>
  What the world answers one start: the clocks, the one start request (its error, with the status code of
  an API error), and the answer to the mismatch abort (\<open>None\<close> when it fails).
\<close>

record start_world =
  sw_admitted_at :: instant
  sw_reserved_at :: pydatetime
  sw_answer :: "client_error + api_run"
  sw_answered_at :: instant
  sw_schedule :: "lifecycle_event \<Rightarrow> ledger_error + unit"
  sw_abort :: "api_run option"
  sw_aborted_at :: instant

datatype start_result = START_REFUSED start_refusal | START_DENIED "denial_reason option" | RESERVATION_NOT_OPEN
  | RUN_STARTED int | START_FAILED int client_error | MISMATCH_ABORTED int "start_mismatch list"

text \<open>\<open>LedgerAdmission.admit\<close>: one \<open>reserve\<close>, for the class of the start and the shape of the spec.\<close>

definition admit_start ::
  "ledger_config \<Rightarrow> start_request \<Rightarrow> run_spec \<Rightarrow> pydatetime \<Rightarrow> ledger_db \<Rightarrow> ledger_error + ledger_db \<times> outcome" where
  "admit_start config r spec now db =
     andThen (lift_budget (mk_admission_request
       \<lparr>req_class = start_class (sr_kind r) spec, req_run = Some (sp_shape spec), req_operator_kind = None\<rparr>)) (\<lambda>request.
     reserve request (Some (sr_site r)) config now [] db)"

text \<open>What is recorded of the answer to the start request.\<close>

definition start_failed :: "ledger_config \<Rightarrow> ledger_db \<Rightarrow> int \<Rightarrow> client_error \<Rightarrow> instant \<Rightarrow> (ledger_error, start_result) job" where
  "start_failed config db k e now =
     commit db (record_start_error db k (case e of ApiError status \<Rightarrow> Some status | ClientError _ \<Rightarrow> None)) (\<lambda>db.
     if e = ApiError 402 then txn db (trip_start_refusal k config now db) (\<lambda>db _. (db, Inr (START_FAILED k e)))
     else (db, Inr (START_FAILED k e)))"

definition start_answered ::
  "ledger_config \<Rightarrow> start_world \<Rightarrow> ledger_db \<Rightarrow> int \<Rightarrow> api_run \<Rightarrow> start_mismatch list \<Rightarrow> (ledger_error, start_result) job" where
  "start_answered config w db k a mismatches =
     commit db (record_start db k a mismatches (sw_answered_at w)) (\<lambda>db.
     if mismatches = [] then (db, Inr (RUN_STARTED k))
     else commit db (trip START_OPTION_MISMATCH (Some k) config (sw_answered_at w) db) (\<lambda>db.
          commit db (reject_mismatch (sw_schedule w) db k (sw_answered_at w)) (\<lambda>db.
          case sw_abort w of
            None \<Rightarrow> (db, Inr (MISMATCH_ABORTED k mismatches))
          | Some aborted \<Rightarrow>
              followed_by (record_observation config db k aborted (sw_aborted_at w) False) (\<lambda>db _.
              (db, Inr (MISMATCH_ABORTED k mismatches))))))"

definition start_provider_run ::
  "jobs_settings \<Rightarrow> ledger_config \<Rightarrow> start_request \<Rightarrow> start_world \<Rightarrow> ledger_db \<Rightarrow> (ledger_error, start_result) job" where
  "start_provider_run s config r w db =
     (case start_guards s r (sw_admitted_at w) db of
        Inl e \<Rightarrow> (db, Inl e)
      | Inr (Inl refusal) \<Rightarrow> (db, Inr (START_REFUSED refusal))
      | Inr (Inr (spec, due_at)) \<Rightarrow>
          let build = (case sr_build_tag r of None \<Rightarrow> js_actor_build s | Some b \<Rightarrow> b) in
          txn db (admit_start config r spec (sw_reserved_at w) db) (\<lambda>db decision.
          if \<not> oc_admitted decision then (db, Inr (START_DENIED (oc_reason decision)))
          else (case create_run db (new_run r spec (sw_admitted_at w) due_at) (Some (oc_id decision)) of
              Inl e \<Rightarrow> (db, Inl e)
            | Inr None \<Rightarrow> (db, Inr RESERVATION_NOT_OPEN)
            | Inr (Some (db, k)) \<Rightarrow>
                (case sw_answer w of
                   Inl e \<Rightarrow> start_failed config db k e (sw_answered_at w)
                 | Inr a \<Rightarrow> start_answered config w db k a
                     (start_mismatches a (memory_mb (sp_shape spec)) (timeout_s (sp_shape spec)) build)))))"

section \<open>Selectors\<close>

definition due :: "instant \<Rightarrow> provider_run \<Rightarrow> bool" where
  "due now p = (case pr_next_attempt_at p of None \<Rightarrow> True | Some t \<Rightarrow> t \<le> now)"

text \<open>\<open>timedelta(seconds=timeout_s / (polls / 2))\<close>, two float divisions.\<close>

definition poll_spacing :: "jobs_settings \<Rightarrow> int \<Rightarrow> timedelta" where
  "poll_spacing s timeout = timedelta_of_float (fround (of_int timeout / fround (of_int (js_max_run_polls s) / 2)))"

definition select_active :: "jobs_settings \<Rightarrow> ledger_db \<Rightarrow> instant \<Rightarrow> int list" where
  "select_active s db now =
     map pr_id (filter (\<lambda>p. due now p \<and> pr_remote_status p \<noteq> None \<and> \<not> terminal_status (pr_remote_status p)
         \<and> pr_remote_status p \<noteq> Some [] \<and> int (pr_run_polls p) < js_max_run_polls s
         \<and> (case pr_usage_read_at p of None \<Rightarrow> True | Some t \<Rightarrow> t + poll_spacing s (pr_timeout_s p) \<le> now)) (runs db))"

definition storage_work_left :: "jobs_settings \<Rightarrow> provider_run \<Rightarrow> bool" where
  "storage_work_left s p \<longleftrightarrow> pr_storage_state p \<noteq> STORAGE_DELETED
     \<and> int (pr_cleanup_attempts p) < js_max_delete_attempts s \<and> pr_orphaned_at p = None"

definition select_outstanding :: "jobs_settings \<Rightarrow> ledger_db \<Rightarrow> instant \<Rightarrow> int list" where
  "select_outstanding s db now =
     map pr_id (filter (\<lambda>p. due now p \<and> terminal_status (pr_remote_status p)
         \<and> (pr_import_state p \<notin> set TERMINAL_IMPORT \<or> storage_work_left s p
            \<or> pr_storage_state p = STORAGE_DELETED
              \<and> (\<exists>r \<in> set (reservations db). rv_run r = Some (pr_id p) \<and> rv_status r \<in> set open_statuses))) (runs db))"

definition select_overdue :: "jobs_settings \<Rightarrow> ledger_db \<Rightarrow> instant \<Rightarrow> int list" where
  "select_overdue s db now =
     map pr_id (filter (\<lambda>p. due now p \<and> storage_work_left s p \<and> pr_cleanup_due_at p \<le> now) (runs db))"

section \<open>Polls and back-off\<close>

definition count_poll :: "jobs_settings \<Rightarrow> ledger_db \<Rightarrow> int \<Rightarrow> ledger_error + ledger_db \<times> string option" where
  "count_poll s db k =
     andThen (get_row (run_by_id db k)) (\<lambda>p.
     if pr_external_id p = None \<or> terminal_status (pr_remote_status p) \<or> js_max_run_polls s \<le> int (pr_run_polls p)
     then Inr (db, None)
     else andThen (save_run db (p\<lparr>pr_run_polls := pr_run_polls p + 1\<rparr>)) (\<lambda>db. Inr (db, pr_external_id p)))"

text \<open>
  The delay doubles without bound before \<open>min\<close> caps it: a product past \<open>timedelta.max\<close> is an
  \<open>OverflowError\<close>.
\<close>

definition backoff_delay :: "nat \<Rightarrow> ledger_error + timedelta" where
  "backoff_delay doublings =
     (let d = UNIT_BACKOFF_BASE * 2 ^ doublings in
      if \<not> timedelta_ok d then Inl DateOverflow else Inr (min d UNIT_BACKOFF_MAX))"

definition back_off :: "ledger_db \<Rightarrow> int \<Rightarrow> instant \<Rightarrow> ledger_error + ledger_db" where
  "back_off db k now =
     andThen (get_row (run_by_id db k)) (\<lambda>p.
     let failures = (case pr_unit_failures p of None \<Rightarrow> 0 | Some n \<Rightarrow> n) + 1 in
     andThen (backoff_delay (failures - 1)) (\<lambda>delay.
     andThen (date_add now delay) (\<lambda>t.
     save_run db (p\<lparr>pr_unit_failures := Some failures, pr_next_attempt_at := Some t\<rparr>))))"

definition clear_failures :: "ledger_db \<Rightarrow> int \<Rightarrow> ledger_error + ledger_db" where
  "clear_failures db k =
     andThen (get_row (run_by_id db k)) (\<lambda>p.
     if pr_unit_failures p = None then Inr db else save_run db (p\<lparr>pr_unit_failures := None\<rparr>))"

end
