(* ===== verification/StorageCleanup.thy ===== *)
theory StorageCleanup
  imports Jobs
begin

text \<open>
  Storage cleanup (\<open>acquisition/apify/storage_cleanup.py\<close>): one counted attempt of the cleanup and the
  overdue unit, the marks of an orphaned or exhausted row with their latch trips, and the sweep that
  trips what a lost process left untripped. The answers of the client are an argument.
\<close>

section \<open>Marks\<close>

text \<open>\<open>_mark_delete_failed\<close>: the mark and its trip in one commit.\<close>

definition mark_delete_failed :: "ledger_db \<Rightarrow> provider_run \<Rightarrow> ledger_config \<Rightarrow> instant \<Rightarrow> ledger_error + ledger_db" where
  "mark_delete_failed db p config now =
     andThen (if pr_storage_state p \<noteq> STORAGE_DELETE_FAILED
         then save_run db (p\<lparr>pr_storage_state := STORAGE_DELETE_FAILED\<rparr>) else Inr db) (\<lambda>db.
     trip DELETE_ATTEMPTS_EXHAUSTED (Some (pr_id p)) config now db)"

section \<open>Beginning an attempt\<close>

record attempt =
  at_run_id :: string
  at_observed_terminal :: bool
  at_pending :: "storage list"

definition all_storages :: "storage list" where "all_storages = [DATASET, KV_STORE]"

definition begin_attempt ::
  "jobs_settings \<Rightarrow> ledger_config \<Rightarrow> ledger_db \<Rightarrow> int \<Rightarrow> bool \<Rightarrow> instant \<Rightarrow> ledger_error + ledger_db \<times> attempt option" where
  "begin_attempt s config db k overdue now =
     andThen (get_row (run_by_id db k)) (\<lambda>p.
     if pr_storage_state p = STORAGE_DELETED \<or> pr_orphaned_at p \<noteq> None then Inr (db, None)
     else case pr_external_id p of
       None \<Rightarrow>
         if overdue then
           andThen (save_run db (p\<lparr>pr_orphaned_at := Some now\<rparr>)) (\<lambda>db.
           andThen (trip ORPHANED_START (Some k) config now db) (\<lambda>db. Inr (db, None)))
         else Inr (db, None)
     | Some run_id \<Rightarrow>
         if \<not> overdue \<and> \<not> terminal_status (pr_remote_status p) then Inr (db, None)
         else if js_max_delete_attempts s \<le> int (pr_cleanup_attempts p)
         then andThen (mark_delete_failed db p config now) (\<lambda>db. Inr (db, None))
         else andThen (save_run db (p\<lparr>pr_cleanup_attempts := pr_cleanup_attempts p + 1\<rparr>)) (\<lambda>db.
              Inr (db, Some \<lparr>at_run_id = run_id, at_observed_terminal = terminal_status (pr_remote_status p),
                at_pending = filter (\<lambda>x. x \<notin> set (pr_verified_deleted p)) all_storages\<rparr>)))"

section \<open>Terminal evidence and deletes\<close>

text \<open>What the client answers during one attempt; a delete answers whether the storage was absent (404).\<close>

record cleanup_world =
  cw_begin_at :: instant
  cw_abort :: "client_error + api_run"
  cw_abort_at :: instant
  cw_read :: "client_error + api_run"
  cw_read_at :: instant
  cw_delete :: "storage \<Rightarrow> client_error + bool"
  cw_finish_at :: instant
  cw_schedule :: "lifecycle_event \<Rightarrow> ledger_error + unit"

text \<open>\<open>_confirm_terminal\<close>: the errors of an attempt that ends without evidence, none once there is some.\<close>

definition confirm_terminal ::
  "ledger_config \<Rightarrow> ledger_db \<Rightarrow> int \<Rightarrow> cleanup_world \<Rightarrow> (ledger_error, cleanup_error list) job" where
  "confirm_terminal config db k w =
     (let read_run = (\<lambda>db errors.
            case cw_read w of
              Inl e \<Rightarrow> if is_apify_error e then (db, Inr (errors @ [ReadFailed e])) else (db, Inl (CallError e))
            | Inr a \<Rightarrow>
                followed_by (record_observation config db k a (cw_read_at w) False) (\<lambda>db _.
                (db, Inr (if terminal_status (Some (ap_status a)) then [] else errors @ [ReadNonTerminal])))) in
      case cw_abort w of
        Inl e \<Rightarrow> if is_apify_error e then read_run db [AbortFailed e] else (db, Inl (CallError e))
      | Inr a \<Rightarrow>
          followed_by (record_observation config db k a (cw_abort_at w) False) (\<lambda>db _.
          if terminal_status (Some (ap_status a)) then (db, Inr []) else read_run db [AbortNonTerminal]))"

text \<open>\<open>_delete\<close>: why a storage is not verified deleted, \<open>None\<close> when it is.\<close>

definition delete_storage ::
  "jobs_settings \<Rightarrow> cleanup_world \<Rightarrow> storage \<Rightarrow> string option \<Rightarrow> client_error + cleanup_error option" where
  "delete_storage s w x storage_id =
     (case storage_id of
        None \<Rightarrow> Inr (Some (IdUnknown x))
      | Some _ \<Rightarrow>
          (case cw_delete w x of
             Inl e \<Rightarrow> if is_apify_error e then Inr (Some (DeleteFailed x e)) else Inl e
           | Inr absent \<Rightarrow> Inr (if absent \<and> \<not> js_404_is_absent s then Some (AbsentNotTrusted x) else None)))"

definition storage_id_of :: "provider_run \<Rightarrow> storage \<Rightarrow> string option" where
  "storage_id_of p x = (case x of DATASET \<Rightarrow> pr_dataset_id p | KV_STORE \<Rightarrow> pr_kv_store_id p)"

section \<open>Finishing an attempt\<close>

definition retry_delay :: "nat \<Rightarrow> ledger_error + timedelta" where
  "retry_delay attempts = backoff_delay (attempts - 1)"

definition verify_deleted :: "provider_run \<Rightarrow> storage list \<Rightarrow> provider_run" where
  "verify_deleted p xs = p\<lparr>pr_verified_deleted := pr_verified_deleted p @ filter (\<lambda>x. x \<notin> set (pr_verified_deleted p)) xs\<rparr>"

definition finish_attempt ::
  "jobs_settings \<Rightarrow> ledger_config \<Rightarrow> ledger_db \<Rightarrow> int \<Rightarrow> storage list \<Rightarrow> cleanup_error list \<Rightarrow> instant
     \<Rightarrow> ledger_error + ledger_db" where
  "finish_attempt s config db k deleted errors now =
     andThen (get_row (run_by_id db k)) (\<lambda>p.
     let p = verify_deleted p deleted in
     if set all_storages \<subseteq> set (pr_verified_deleted p)
     then save_run db (fst (stamp_work_completion
            (p\<lparr>pr_cleanup_errors := None, pr_storage_state := STORAGE_DELETED, pr_storage_deleted_at := Some now\<rparr>) now))
     else andThen (retry_delay (pr_cleanup_attempts p)) (\<lambda>delay.
          andThen (date_add now delay) (\<lambda>t.
          let p = p\<lparr>pr_cleanup_errors := Some errors, pr_next_attempt_at := Some t\<rparr> in
          andThen (save_run db p) (\<lambda>db.
          if pr_storage_state p \<noteq> STORAGE_DELETED \<and> js_max_delete_attempts s \<le> int (pr_cleanup_attempts p)
          then mark_delete_failed db p config now else Inr db))))"

section \<open>One attempt\<close>

text \<open>The deletes in order; an exception that is not the client's own leaves the loop, and what it had deleted is lost.\<close>

fun delete_pending ::
  "jobs_settings \<Rightarrow> cleanup_world \<Rightarrow> provider_run \<Rightarrow> storage list \<Rightarrow> client_error + storage list \<times> cleanup_error list" where
  "delete_pending s w p [] = Inr ([], [])"
| "delete_pending s w p (x # xs) =
     andThen (delete_storage s w x (storage_id_of p x)) (\<lambda>failure.
     andThen (delete_pending s w p xs) (\<lambda>(deleted, errors).
     Inr (case failure of None \<Rightarrow> (x # deleted, errors) | Some e \<Rightarrow> (deleted, e # errors))))"

definition attempt_cleanup ::
  "jobs_settings \<Rightarrow> ledger_config \<Rightarrow> bool \<Rightarrow> cleanup_world \<Rightarrow> ledger_db \<Rightarrow> int \<Rightarrow> (ledger_error, unit) job" where
  "attempt_cleanup s config overdue w db k =
     txn db (begin_attempt s config db k overdue (cw_begin_at w)) (\<lambda>db att.
     case att of
       None \<Rightarrow> (db, Inr ())
     | Some a \<Rightarrow>
         followed_by (if at_observed_terminal a then (db, Inr []) else confirm_terminal config db k w) (\<lambda>db errors.
         if errors \<noteq> [] then commit db (finish_attempt s config db k [] errors (cw_finish_at w)) (\<lambda>db. (db, Inr ()))
         else (case run_by_id db k of
             None \<Rightarrow> (db, Inl NoSuchRow)
           | Some p \<Rightarrow>
               (case delete_pending s w p (at_pending a) of
                  Inl e \<Rightarrow> (db, Inl (CallError e))
                | Inr (deleted, errors) \<Rightarrow>
                    commit db (finish_attempt s config db k deleted errors (cw_finish_at w)) (\<lambda>db. (db, Inr ()))))))"

definition cleanup_storage_unit ::
  "jobs_settings \<Rightarrow> ledger_config \<Rightarrow> cleanup_world \<Rightarrow> ledger_db \<Rightarrow> int \<Rightarrow> (ledger_error, unit) job" where
  "cleanup_storage_unit s config w db k = attempt_cleanup s config False w db k"

text \<open>\<open>_reject_if_stage1_uncommitted\<close>: the state is read before the lock, so the rejection is a compare-and-set.\<close>

definition reject_if_stage1_uncommitted ::
  "(lifecycle_event \<Rightarrow> ledger_error + unit) \<Rightarrow> ledger_db \<Rightarrow> int \<Rightarrow> instant \<Rightarrow> ledger_error + ledger_db" where
  "reject_if_stage1_uncommitted schedule db k now =
     andThen (get_row (run_by_id db k)) (\<lambda>p.
     if now < pr_cleanup_due_at p \<or> pr_import_state p \<noteq> IMPORT_PENDING then Inr db
     else reject_import schedule db k STORAGE_DEADLINE_PASSED (Some IMPORT_PENDING) now)"

definition overdue_storage_unit ::
  "jobs_settings \<Rightarrow> ledger_config \<Rightarrow> cleanup_world \<Rightarrow> ledger_db \<Rightarrow> int \<Rightarrow> (ledger_error, unit) job" where
  "overdue_storage_unit s config w db k =
     commit db (reject_if_stage1_uncommitted (cw_schedule w) db k (cw_begin_at w)) (\<lambda>db. attempt_cleanup s config True w db k)"

section \<open>Stranded trips\<close>

definition ever_tripped :: "ledger_db \<Rightarrow> latch_reason \<Rightarrow> int \<Rightarrow> bool" where
  "ever_tripped db reason k \<longleftrightarrow> (\<exists>t \<in> set (trips db). la_run t = Some k \<and> la_reason t = reason)"

text \<open>The primary keys of the rows a query selects.\<close>

definition keys_where :: "(provider_run \<Rightarrow> bool) \<Rightarrow> ledger_db \<Rightarrow> int list" where
  "keys_where P db = filter (\<lambda>k. case run_by_id db k of None \<Rightarrow> False | Some p \<Rightarrow> P p) (map pr_id (runs db))"

definition stranded_orphans :: "ledger_db \<Rightarrow> int list" where
  "stranded_orphans db = keys_where (\<lambda>p. pr_orphaned_at p \<noteq> None \<and> \<not> ever_tripped db ORPHANED_START (pr_id p)) db"

definition stranded_exhausted :: "jobs_settings \<Rightarrow> ledger_db \<Rightarrow> int list" where
  "stranded_exhausted s db =
     keys_where (\<lambda>p. (pr_storage_state p = STORAGE_DELETE_FAILED
         \<or> pr_storage_state p \<noteq> STORAGE_DELETED \<and> js_max_delete_attempts s \<le> int (pr_cleanup_attempts p)
           \<and> pr_orphaned_at p = None)
       \<and> \<not> ever_tripped db DELETE_ATTEMPTS_EXHAUSTED (pr_id p)) db"

fun trip_orphans :: "int list \<Rightarrow> ledger_config \<Rightarrow> instant \<Rightarrow> ledger_db \<Rightarrow> ledger_error + ledger_db" where
  "trip_orphans [] config now db = Inr db"
| "trip_orphans (k # ks) config now db =
     andThen (trip ORPHANED_START (Some k) config now db) (\<lambda>db. trip_orphans ks config now db)"

text \<open>The exhausted rows are fetched again under the lock, by primary key.\<close>

fun mark_each :: "int list \<Rightarrow> ledger_config \<Rightarrow> instant \<Rightarrow> ledger_db \<Rightarrow> ledger_error + ledger_db" where
  "mark_each [] config now db = Inr db"
| "mark_each (k # ks) config now db =
     (case run_by_id db k of
        None \<Rightarrow> mark_each ks config now db
      | Some p \<Rightarrow> andThen (mark_delete_failed db p config now) (\<lambda>db. mark_each ks config now db))"

definition trip_stranded_latches ::
  "jobs_settings \<Rightarrow> ledger_config \<Rightarrow> instant \<Rightarrow> ledger_db \<Rightarrow> ledger_error + ledger_db \<times> int list" where
  "trip_stranded_latches s config now db =
     (let orphaned = stranded_orphans db; exhausted = stranded_exhausted s db in
      if orphaned = [] \<and> exhausted = [] \<and> unrecorded_start_refusals db = [] then Inr (db, [])
      else andThen (trip_orphans orphaned config now db) (\<lambda>db.
           andThen (mark_each exhausted config now db) (\<lambda>db.
           andThen (trip_stranded_start_refusals_locked (estimator_version (budget config)) now db) (\<lambda>(db, refused).
           Inr (db, orphaned @ exhausted @ refused)))))"

end
