(* ===== verification/PollTick.thy ===== *)
theory PollTick
  imports StorageCleanup
begin

text \<open>
  One tick of the \<open>apify-poll\<close> job (\<open>acquisition/apify/jobs.py\<close>): the units of work, how a unit that
  raises is latched and backed off, the two sweeps and the four selectors with the bound operator builds.
\<close>

section \<open>Units\<close>

text \<open>What the clocks show and the client answers one unit that makes a single read.\<close>

record 'a read_world =
  rw_plan_at :: instant
  rw_answer :: "client_error + 'a"
  rw_read_at :: instant
  rw_complete_at :: pydatetime

definition API_RESPONSE_TOO_LARGE :: client_error where
  "API_RESPONSE_TOO_LARGE = ClientError ''ApifyResponseTooLargeError''"

text \<open>One observed read: the observation, then the usage read in its own budget-locked transaction.\<close>

definition observe_usage ::
  "ledger_config \<Rightarrow> api_run read_world \<Rightarrow> ledger_db \<Rightarrow> int \<Rightarrow> (ledger_error, unit) job" where
  "observe_usage config w db k =
     (case rw_answer w of
        Inl e \<Rightarrow> (db, Inl (CallError e))
      | Inr a \<Rightarrow>
          followed_by (record_observation config db k a (rw_read_at w) True) (\<lambda>db _.
          txn db (record_run_usage db k a (rw_read_at w) config) (\<lambda>db _. (db, Inr ()))))"

definition poll_unit ::
  "jobs_settings \<Rightarrow> ledger_config \<Rightarrow> api_run read_world \<Rightarrow> ledger_db \<Rightarrow> int \<Rightarrow> (ledger_error, unit) job" where
  "poll_unit s config w db k =
     txn db (count_poll s db k) (\<lambda>db run_id.
     if run_id = None then (db, Inr ()) else observe_usage config w db k)"

definition settlement_unit :: "ledger_config \<Rightarrow> api_run read_world \<Rightarrow> ledger_db \<Rightarrow> int \<Rightarrow> (ledger_error, unit) job" where
  "settlement_unit config w db k =
     txn db (plan_settlement_read db k (rw_plan_at w) config) (\<lambda>db run_id.
     if run_id = None then (db, Inr ()) else observe_usage config w db k)"

definition build_unit :: "ledger_config \<Rightarrow> api_record read_world \<Rightarrow> ledger_db \<Rightarrow> int \<Rightarrow> (ledger_error, unit) job" where
  "build_unit config w db k =
     txn db (plan_build_read db k (rw_plan_at w) config) (\<lambda>db build_id.
     if build_id = None then (db, Inr ())
     else (case rw_answer w of
         Inl e \<Rightarrow> (db, Inl (CallError e))
       | Inr a \<Rightarrow> txn db (record_build_usage db k a (rw_read_at w) config) (\<lambda>db _. (db, Inr ()))))"

text \<open>The result of the call, none for an error of the client; any other exception leaves the unit, the marker set.\<close>

definition monitor_result_of :: "client_error + 'a api_record_scheme \<Rightarrow> client_error + monitor_result option" where
  "monitor_result_of r =
     (case r of
        Inr a \<Rightarrow> Inr (Some \<lparr>mr_total = ap_total a, mr_usage_usd = ap_usage_usd a, mr_usage = ap_usage a,
          mr_unparseable = ap_unparseable a, mr_finished_at = ap_finished_at a, mr_over_cap = False\<rparr>)
      | Inl e \<Rightarrow>
          if e = API_RESPONSE_TOO_LARGE
          then Inr (Some \<lparr>mr_total = None, mr_usage_usd = None, mr_usage = None, mr_unparseable = [], mr_finished_at = None,
            mr_over_cap = True\<rparr>)
          else if is_apify_error e then Inr None else Inl e)"

definition monitoring_unit :: "ledger_config \<Rightarrow> api_record read_world \<Rightarrow> ledger_db \<Rightarrow> int \<Rightarrow> (ledger_error, bool) job" where
  "monitoring_unit config w db k =
     txn db (begin_monitoring_read db k (rw_plan_at w) config) (\<lambda>db call.
     if call = None then (db, Inr False)
     else (case monitor_result_of (rw_answer w) of
         Inl e \<Rightarrow> (db, Inl (CallError e))
       | Inr result \<Rightarrow>
           txn db (complete_monitoring_read db k result (rw_complete_at w) config) (\<lambda>db closed. (db, Inr closed))))"

text \<open>\<open>_outstanding_unit\<close>: settle or clean up a decided import, reject a mismatched start, or import.\<close>

datatype handled_as = AsReconcile | AsCleanup | AsImport

record outstanding_world =
  ow_settle :: "api_run read_world"
  ow_cleanup :: cleanup_world
  ow_import :: import_env
  ow_reject_at :: instant

definition outstanding_unit ::
  "jobs_settings \<Rightarrow> ledger_config \<Rightarrow> outstanding_world \<Rightarrow> ledger_db \<Rightarrow> int \<Rightarrow> (ledger_error, handled_as) job" where
  "outstanding_unit s config w db k =
     (case run_by_id db k of
        None \<Rightarrow> (db, Inl NoSuchRow)
      | Some p \<Rightarrow>
          if pr_import_state p \<in> set TERMINAL_IMPORT then
            (if pr_storage_state p = STORAGE_DELETED
             then followed_by (settlement_unit config (ow_settle w) db k) (\<lambda>db _. (db, Inr AsReconcile))
             else followed_by (cleanup_storage_unit s config (ow_cleanup w) db k) (\<lambda>db _. (db, Inr AsCleanup)))
          else if pr_start_mismatch p \<noteq> [] then
            commit db (trip START_OPTION_MISMATCH (Some k) config (ow_reject_at w) db) (\<lambda>db.
            commit db (reject_mismatch (ie_schedule (ow_import w)) db k (ow_reject_at w)) (\<lambda>db. (db, Inr AsImport)))
          else
            followed_by (import_provider_run s config (ow_import w) db k) (\<lambda>db _.
            commit db (clear_failures db k) (\<lambda>db. (db, Inr AsImport))))"

section \<open>Running a unit\<close>

record tick_report =
  tr_polled :: "int list"
  tr_imported :: "int list"
  tr_cleanup :: "int list"
  tr_overdue :: "int list"
  tr_reconciled :: "int list"
  tr_builds :: "int list"
  tr_monitored :: "int list"
  tr_released :: "int list"
  tr_latch_repaired :: "int list"
  tr_failed :: "int list"

definition empty_report :: tick_report where
  "empty_report = \<lparr>tr_polled = [], tr_imported = [], tr_cleanup = [], tr_overdue = [], tr_reconciled = [], tr_builds = [],
     tr_monitored = [], tr_released = [], tr_latch_repaired = [], tr_failed = []\<rparr>"

text \<open>
  How a tick ends: with its report, early because no client could be built, or with the exception that
  left it.
\<close>

datatype tick_stop = ClientUnavailable | TickCrashed ledger_error

type_synonym tick_state = "ledger_db \<times> tick_report"

text \<open>The world around one tick: the clock at each selector and what each unit meets.\<close>

record tick_env =
  te_client_ok :: bool
  te_sweep_at :: instant
  te_grace_s :: "int option"
  te_active_at :: instant
  te_outstanding_at :: instant
  te_overdue_at :: instant
  te_builds_at :: instant
  te_monitoring_at :: instant
  te_failed_at :: "int \<Rightarrow> instant"
  te_poll :: "int \<Rightarrow> api_run read_world"
  te_outstanding :: "int \<Rightarrow> outstanding_world"
  te_overdue :: "int \<Rightarrow> cleanup_world"
  te_build :: "int \<Rightarrow> api_record read_world"
  te_monitor :: "int \<Rightarrow> api_record read_world"

text \<open>
  \<open>run_unit\<close>: an exception of the unit trips the latch when the answer was over its byte cap, is logged,
  and backs a run off; an exception of the trip or of the back-off leaves the tick.
\<close>

definition latch_on_failure :: "ledger_config \<Rightarrow> int option \<Rightarrow> instant \<Rightarrow> ledger_error \<Rightarrow> ledger_db \<Rightarrow> ledger_error + ledger_db" where
  "latch_on_failure config run now e db =
     (if e = CallError API_RESPONSE_TOO_LARGE then trip API_RESPONSE_OVER_CAP run config now db else Inr db)"

definition run_unit ::
  "ledger_config \<Rightarrow> tick_env \<Rightarrow> bool \<Rightarrow> (ledger_db \<Rightarrow> int \<Rightarrow> (ledger_error, 'a) job)
     \<Rightarrow> ('a \<Rightarrow> int \<Rightarrow> tick_report \<Rightarrow> tick_report) \<Rightarrow> int \<Rightarrow> tick_state \<Rightarrow> tick_state \<times> tick_stop option" where
  "run_unit config env ledger_row unit note k = (\<lambda>(db, report).
     if \<not> te_client_ok env then ((db, report), Some ClientUnavailable)
     else (case unit db k of
         (db, Inr x) \<Rightarrow> ((db, note x k report), None)
       | (db, Inl e) \<Rightarrow>
           (case latch_on_failure config (if ledger_row then None else Some k) (te_failed_at env k) e db of
              Inl e \<Rightarrow> ((db, report), Some (TickCrashed e))
            | Inr db \<Rightarrow>
                let report = report\<lparr>tr_failed := tr_failed report @ [k]\<rparr> in
                (case (if ledger_row then Inr db else back_off db k (te_failed_at env k)) of
                   Inl e \<Rightarrow> ((db, report), Some (TickCrashed e))
                 | Inr db \<Rightarrow> ((db, report), None)))))"

text \<open>A sequence of steps of which the first to stop the tick ends it.\<close>

fun each :: "(int \<Rightarrow> 's \<Rightarrow> 's \<times> tick_stop option) \<Rightarrow> int list \<Rightarrow> 's \<Rightarrow> 's \<times> tick_stop option" where
  "each f [] st = (st, None)"
| "each f (k # ks) st = (case f k st of (st, Some stop) \<Rightarrow> (st, Some stop) | (st, None) \<Rightarrow> each f ks st)"

definition and_then :: "'s \<times> tick_stop option \<Rightarrow> ('s \<Rightarrow> 's \<times> tick_stop option) \<Rightarrow> 's \<times> tick_stop option" where
  "and_then r f = (case r of (st, Some stop) \<Rightarrow> (st, Some stop) | (st, None) \<Rightarrow> f st)"

section \<open>The tick\<close>

definition note_outstanding :: "handled_as \<Rightarrow> int \<Rightarrow> tick_report \<Rightarrow> tick_report" where
  "note_outstanding how k t =
     (case how of
        AsCleanup \<Rightarrow> t\<lparr>tr_cleanup := tr_cleanup t @ [k]\<rparr>
      | AsReconcile \<Rightarrow> t\<lparr>tr_reconciled := tr_reconciled t @ [k]\<rparr>
      | AsImport \<Rightarrow> t\<lparr>tr_imported := tr_imported t @ [k]\<rparr>)"

text \<open>The two sweeps: a failing one is logged and stops nothing.\<close>

definition sweeps :: "jobs_settings \<Rightarrow> ledger_config \<Rightarrow> tick_env \<Rightarrow> ledger_db \<Rightarrow> tick_state" where
  "sweeps s config e db =
     (let (db, repaired) = (case trip_stranded_latches s config (te_sweep_at e) db of Inl _ \<Rightarrow> (db, []) | Inr r \<Rightarrow> r);
          (db, released) = (case release_unattached_reservations db (te_sweep_at e) (te_grace_s e) of Inl _ \<Rightarrow> (db, []) | Inr r \<Rightarrow> r)
      in (db, empty_report\<lparr>tr_latch_repaired := repaired, tr_released := released\<rparr>))"

definition apify_poll_tick ::
  "jobs_settings \<Rightarrow> ledger_config \<Rightarrow> tick_env \<Rightarrow> ledger_db \<Rightarrow> tick_state \<times> tick_stop option" where
  "apify_poll_tick s config e db =
     and_then (let st = sweeps s config e db in
       each (run_unit config e False (\<lambda>db k. poll_unit s config (te_poll e k) db k)
           (\<lambda>_ k t. t\<lparr>tr_polled := tr_polled t @ [k]\<rparr>))
         (select_active s (fst st) (te_active_at e)) st) (\<lambda>st.
     and_then (each (run_unit config e False (\<lambda>db k. outstanding_unit s config (te_outstanding e k) db k) note_outstanding)
         (select_outstanding s (fst st) (te_outstanding_at e)) st) (\<lambda>st.
     and_then (each (run_unit config e False (\<lambda>db k. overdue_storage_unit s config (te_overdue e k) db k)
           (\<lambda>_ k t. t\<lparr>tr_overdue := tr_overdue t @ [k]\<rparr>))
         (select_overdue s (fst st) (te_overdue_at e)) st) (\<lambda>st.
     and_then (each (run_unit config e True (\<lambda>db k. build_unit config (te_build e k) db k)
           (\<lambda>_ k t. t\<lparr>tr_builds := tr_builds t @ [k]\<rparr>))
         (select_build_settlement (fst st) (te_builds_at e)) st) (\<lambda>st.
     each (run_unit config e True (\<lambda>db k. monitoring_unit config (te_monitor e k) db k)
           (\<lambda>_ k t. t\<lparr>tr_monitored := tr_monitored t @ [k]\<rparr>))
         (select_monitoring (fst st) (te_monitoring_at e) config) st))))"

end
