(* ===== verification/RunHistory.thy ===== *)
theory RunHistory
  imports PollTick
begin

text \<open>
  The history of a \<open>provider_run\<close>: what no job, no settlement and no interleaving of them takes back,
  and what every row satisfies at every moment.
\<close>

section \<open>Forward steps of one row\<close>

fun import_rank :: "import_state \<Rightarrow> nat" where
  "import_rank IMPORT_PENDING = 0"
| "import_rank OBSERVATIONS_COMMITTED = 1"
| "import_rank ABSENCE_APPLIED = 2"
| "import_rank IMPORT_RESOLVED = 3"
| "import_rank IMPORT_EVALUATED = 4"
| "import_rank IMPORT_FINALIZED = 5"
| "import_rank IMPORT_REJECTED = 5"

text \<open>What admission fixed.\<close>

definition admitted_facts :: "provider_run \<Rightarrow> int \<times> int \<times> string \<times> int \<times> int \<times> int \<times> int \<times> budget_class \<times> run_kind \<times> instant \<times> instant" where
  "admitted_facts p = (pr_id p, pr_site p, pr_scope_key p, pr_memory_mb p, pr_timeout_s p, pr_max_items p, pr_max_pages p,
     pr_class p, pr_run_kind p, pr_admitted_at p, pr_cleanup_due_at p)"

text \<open>A column that is written once.\<close>

definition once :: "'a option \<Rightarrow> 'a option \<Rightarrow> bool" where
  "once v v' \<longleftrightarrow> v = None \<or> v' = v"

definition import_forward :: "provider_run \<Rightarrow> provider_run \<Rightarrow> bool" where
  "import_forward p p' \<longleftrightarrow> pr_import_state p' = pr_import_state p
     \<or> import_rank (pr_import_state p) < import_rank (pr_import_state p')"

definition counts_forward :: "provider_run \<Rightarrow> provider_run \<Rightarrow> bool" where
  "counts_forward p p' \<longleftrightarrow> pr_dataset_reads p \<le> pr_dataset_reads p' \<and> pr_kv_reads p \<le> pr_kv_reads p' \<and> pr_run_polls p \<le> pr_run_polls p'
     \<and> pr_correction_reads p \<le> pr_correction_reads p' \<and> pr_cleanup_attempts p \<le> pr_cleanup_attempts p'
     \<and> pr_import_attempts p \<le> pr_import_attempts p'"

definition storage_forward :: "provider_run \<Rightarrow> provider_run \<Rightarrow> bool" where
  "storage_forward p p' \<longleftrightarrow> set (pr_verified_deleted p) \<subseteq> set (pr_verified_deleted p')
     \<and> (pr_storage_state p = STORAGE_DELETED \<longrightarrow> pr_storage_state p' = STORAGE_DELETED)"

definition remote_forward :: "provider_run \<Rightarrow> provider_run \<Rightarrow> bool" where
  "remote_forward p p' \<longleftrightarrow> (terminal_status (pr_remote_status p) \<longrightarrow> terminal_status (pr_remote_status p'))
     \<and> once (pr_remote_terminal_at p) (pr_remote_terminal_at p') \<and> once (pr_external_id p) (pr_external_id p')"

definition moved_on :: "provider_run \<Rightarrow> provider_run \<Rightarrow> bool" where
  "moved_on p p' \<longleftrightarrow> admitted_facts p' = admitted_facts p \<and> import_forward p p' \<and> counts_forward p p' \<and> storage_forward p p'
     \<and> remote_forward p p' \<and> once (pr_final_charge_op_at p) (pr_final_charge_op_at p') \<and> once (pr_orphaned_at p) (pr_orphaned_at p')"

lemma once_refl [simp]: "once v v"
  by (simp add: once_def)

lemma once_trans: "once u v \<Longrightarrow> once v w \<Longrightarrow> once u w"
  by (auto simp: once_def)

lemma moved_on_refl [simp]: "moved_on p p"
  by (simp add: moved_on_def import_forward_def counts_forward_def storage_forward_def remote_forward_def)

lemma moved_on_trans: "moved_on p q \<Longrightarrow> moved_on q r \<Longrightarrow> moved_on p r"
  unfolding moved_on_def import_forward_def counts_forward_def storage_forward_def remote_forward_def
  by (auto intro: once_trans)

lemma moved_on_id: "moved_on p p' \<Longrightarrow> pr_id p' = pr_id p"
  by (simp add: moved_on_def admitted_facts_def)

section \<open>What every row satisfies\<close>

text \<open>The trips a database has ever had, by reason and run; a clear keeps both.\<close>

definition trip_keys :: "ledger_db \<Rightarrow> (latch_reason \<times> int option) set" where
  "trip_keys db = (\<lambda>t. (la_reason t, la_run t)) ` set (trips db)"

text \<open>
  The work-completion anchor is set exactly when both barriers hold; deleted storage was verified storage
  by storage; a decided import says why; the paid reads, polls and cleanup attempts are within their caps
  (the mismatch abort is one attempt whatever the cap); and a row given up on has its trip.
\<close>

definition anchored :: "provider_run \<Rightarrow> bool" where
  "anchored p \<longleftrightarrow> (pr_final_charge_op_at p \<noteq> None
     \<longleftrightarrow> pr_import_state p \<in> set TERMINAL_IMPORT \<and> pr_storage_state p = STORAGE_DELETED)"

definition within_call_caps :: "jobs_settings \<Rightarrow> provider_run \<Rightarrow> bool" where
  "within_call_caps s p \<longleftrightarrow> int (pr_dataset_reads p) \<le> max 0 (js_max_dataset_reads s) \<and> int (pr_kv_reads p) \<le> max 0 (js_max_kv_reads s)
     \<and> int (pr_run_polls p) \<le> max 0 (js_max_run_polls s) \<and> int (pr_cleanup_attempts p) \<le> max 1 (js_max_delete_attempts s)"

definition marks_tripped :: "(latch_reason \<times> int option) set \<Rightarrow> provider_run \<Rightarrow> bool" where
  "marks_tripped keys p \<longleftrightarrow> (pr_orphaned_at p \<noteq> None \<longrightarrow> (ORPHANED_START, Some (pr_id p)) \<in> keys)
     \<and> (pr_storage_state p = STORAGE_DELETE_FAILED \<longrightarrow> (DELETE_ATTEMPTS_EXHAUSTED, Some (pr_id p)) \<in> keys)"

definition run_ok :: "jobs_settings \<Rightarrow> (latch_reason \<times> int option) set \<Rightarrow> provider_run \<Rightarrow> bool" where
  "run_ok s keys p \<longleftrightarrow> anchored p \<and> within_call_caps s p \<and> marks_tripped keys p
     \<and> (pr_storage_state p = STORAGE_DELETED \<longrightarrow> pr_storage_deleted_at p \<noteq> None \<and> set all_storages \<subseteq> set (pr_verified_deleted p))
     \<and> (pr_import_state p = IMPORT_REJECTED \<longleftrightarrow> pr_reject_reason p \<noteq> None)
     \<and> (pr_remote_terminal_at p \<noteq> None \<longleftrightarrow> terminal_status (pr_remote_status p))"

lemma run_ok_mono: "run_ok s keys p \<Longrightarrow> keys \<subseteq> keys' \<Longrightarrow> run_ok s keys' p"
  unfolding run_ok_def marks_tripped_def by blast

definition runs_ok :: "jobs_settings \<Rightarrow> ledger_db \<Rightarrow> bool" where
  "runs_ok s db \<longleftrightarrow> (\<forall>k p. run_by_id db k = Some p \<longrightarrow> run_ok s (trip_keys db) p)"

section \<open>Transactions that take nothing back\<close>

definition advances :: "jobs_settings \<Rightarrow> ledger_db \<Rightarrow> ledger_db \<Rightarrow> bool" where
  "advances s db db' \<longleftrightarrow> trip_keys db \<subseteq> trip_keys db'
     \<and> (\<forall>k p. run_by_id db k = Some p \<longrightarrow> (\<exists>p'. run_by_id db' k = Some p' \<and> moved_on p p'))
     \<and> (runs_ok s db \<longrightarrow> runs_ok s db')"

lemma advances_refl [simp]: "advances s db db"
  by (simp add: advances_def)

lemma advances_trans: "advances s db db1 \<Longrightarrow> advances s db1 db2 \<Longrightarrow> advances s db db2"
  unfolding advances_def by (meson moved_on_trans subset_trans)

text \<open>A relation between ledgers that sequences of transactions keep.\<close>

locale effect =
  fixes rel :: "ledger_db \<Rightarrow> ledger_db \<Rightarrow> bool"
  assumes rel_refl: "rel db db" and rel_trans: "rel db db1 \<Longrightarrow> rel db1 db2 \<Longrightarrow> rel db db2"
begin

lemma rel_txn:
  assumes "\<And>db' x. r = Inr (db', x) \<Longrightarrow> rel db db'" and "\<And>db' x. r = Inr (db', x) \<Longrightarrow> rel db' (fst (f db' x))"
  shows "rel db (fst (txn db r f))"
  using assms rel_refl rel_trans by (cases r) (auto simp: txn_def)

lemma rel_commit:
  assumes "\<And>db'. r = Inr db' \<Longrightarrow> rel db db'" and "\<And>db'. r = Inr db' \<Longrightarrow> rel db' (fst (f db'))"
  shows "rel db (fst (commit db r f))"
  using assms rel_refl rel_trans by (cases r) (auto simp: commit_def)

lemma rel_followed_by:
  assumes "rel db (fst j)" and "\<And>db' x. j = (db', Inr x) \<Longrightarrow> rel db' (fst (f db' x))"
  shows "rel db (fst (followed_by j f))"
proof (cases j)
  case (Pair db' r)
  then show ?thesis using assms rel_trans by (cases r) (auto simp: followed_by_def)
qed

lemma rel_each:
  assumes "\<And>k st. rel (fst st) (fst (fst (f k st)))"
  shows "rel (fst st) (fst (fst (each f ks st)))"
proof (induction ks arbitrary: st)
  case Nil
  then show ?case by (simp add: rel_refl)
next
  case (Cons k ks)
  have "rel (fst st) (fst (fst (f k st)))" by (rule assms)
  then show ?case using Cons.IH by (auto split: prod.splits option.splits intro: rel_trans)
qed

lemma rel_and_then:
  assumes "rel db (fst (fst r))" and "\<And>st. r = (st, None) \<Longrightarrow> rel (fst st) (fst (fst (f st)))"
  shows "rel db (fst (fst (and_then r f)))"
  using assms by (auto simp: and_then_def split: prod.splits option.splits intro: rel_trans)

end

interpretation adv: effect "advances s" for s
  by unfold_locales (auto intro: advances_trans)

lemma advances_same_runs:
  assumes "runs db' = runs db" and "trip_keys db \<subseteq> trip_keys db'"
  shows "advances s db db'"
  using assms by (auto simp: advances_def runs_ok_def run_by_id_def intro: run_ok_mono)

text \<open>One row saved, in a transaction that may also trip.\<close>

lemma advances_run:
  assumes p: "run_by_id db k = Some p" and r: "runs db' = replace_by pr_id p' (runs db)" and keys: "trip_keys db \<subseteq> trip_keys db'"
    and m: "moved_on p p'" and ok: "run_ok s (trip_keys db') p \<Longrightarrow> run_ok s (trip_keys db') p'"
  shows "advances s db db'"
proof -
  have k: "pr_id p' = k" using moved_on_id [OF m] run_by_id_Some [OF p] by simp
  have look: "run_by_id db' j = (if j = k then Some p' else run_by_id db j)" for j
    using p r k by (auto simp: run_by_id_def first_such_replace first_such_replace_other dest!: first_such_Some)
  have "runs_ok s db'" if "runs_ok s db"
    using that p ok keys by (auto simp: runs_ok_def look intro: run_ok_mono)
  moreover have "\<exists>q'. run_by_id db' j = Some q' \<and> moved_on q q'" if "run_by_id db j = Some q" for j q
    using that p m by (auto simp: look)
  ultimately show ?thesis using keys by (simp add: advances_def)
qed

lemma advances_save:
  assumes "run_by_id db k = Some p" and "save_run db p' = Inr db'" and "moved_on p p'"
    and "run_ok s (trip_keys db) p \<Longrightarrow> run_ok s (trip_keys db) p'"
  shows "advances s db db'"
proof (rule advances_run [OF assms(1)])
  show "runs db' = replace_by pr_id p' (runs db)" using assms(2) by (simp add: save_run_eq_Inr)
  have "trip_keys db' = trip_keys db" using assms(2) by (simp add: save_run_eq_Inr trip_keys_def)
  then show "trip_keys db \<subseteq> trip_keys db'" "run_ok s (trip_keys db') p \<Longrightarrow> run_ok s (trip_keys db') p'"
    using assms(4) by simp_all
qed (rule assms(3))

lemma trip_keys_append: "trip_keys (db\<lparr>trips := trips db @ new\<rparr>) = trip_keys db \<union> (\<lambda>t. (la_reason t, la_run t)) ` set new"
  by (auto simp: trip_keys_def)

lemma trip_tripped:
  assumes "trip reason run config now db = Inr db'"
  shows "runs db' = runs db" "trip_keys db \<subseteq> trip_keys db'" "(reason, run) \<in> trip_keys db'"
proof -
  show "runs db' = runs db" "trip_keys db \<subseteq> trip_keys db'" using trip_effect(1) [OF assms] by (auto simp: trip_keys_append)
  show "(reason, run) \<in> trip_keys db'" using trip_effect(2) [OF assms] by (force simp: trip_keys_def)
qed

lemma advances_trip: "trip reason run config now db = Inr db' \<Longrightarrow> advances s db db'"
  by (rule advances_same_runs) (rule trip_tripped, assumption)+

text \<open>A change of columns no invariant mentions.\<close>

definition ok_facts :: "provider_run \<Rightarrow> _" where
  "ok_facts p = (pr_id p, pr_final_charge_op_at p, pr_import_state p, pr_storage_state p, pr_dataset_reads p, pr_kv_reads p,
     pr_run_polls p, pr_cleanup_attempts p, pr_orphaned_at p, pr_storage_deleted_at p, pr_verified_deleted p, pr_reject_reason p,
     pr_remote_terminal_at p, terminal_status (pr_remote_status p))"

lemma run_ok_cong: "ok_facts p' = ok_facts p \<Longrightarrow> run_ok s keys p' = run_ok s keys p"
  by (simp add: ok_facts_def run_ok_def anchored_def within_call_caps_def marks_tripped_def)

section \<open>The importer\<close>

lemma lock_atE:
  assumes "lock_at db k expected = Inr p"
  obtains "run_by_id db k = Some p" and "pr_import_state p = expected"
  using assms by (auto simp: lock_at_def andThen_eq_Inr get_row_eq_Inr split: if_splits)

lemmas moved_defs = moved_on_def admitted_facts_def import_forward_def counts_forward_def storage_forward_def remote_forward_def

lemma advances_save_cong:
  "run_by_id db k = Some p \<Longrightarrow> save_run db p' = Inr db' \<Longrightarrow> moved_on p p' \<Longrightarrow> ok_facts p' = ok_facts p \<Longrightarrow> advances s db db'"
  using run_ok_cong [of p' p] by (blast intro: advances_save)

lemmas ok_defs = run_ok_def anchored_def within_call_caps_def marks_tripped_def TERMINAL_IMPORT_def

lemma get_runE:
  assumes "andThen (get_row (run_by_id db k)) f = Inr x"
  obtains p where "run_by_id db k = Some p" and "f p = Inr x"
  using assms by (auto simp only: andThen_eq_Inr get_row_eq_Inr)

lemma lock_runE:
  assumes "andThen (lock_at db k expected) f = Inr x"
  obtains p where "run_by_id db k = Some p" and "pr_import_state p = expected" and "f p = Inr x"
  using assms by (elim andThen_InrE lock_atE) blast

lemma stamp_eq:
  "fst (stamp_work_completion p now) = p\<lparr>pr_final_charge_op_at :=
     (if pr_final_charge_op_at p = None \<and> pr_import_state p \<in> set TERMINAL_IMPORT \<and> pr_storage_state p = STORAGE_DELETED
      then Some now else pr_final_charge_op_at p)\<rparr>"
  by (simp add: stamp_work_completion_def)

lemma advances_claim:
  assumes "claim db k = Inr db'"
  shows "advances s db db'"
proof -
  obtain p where p: "run_by_id db k = Some p" and rest: "(if pr_import_state p \<in> set TERMINAL_IMPORT then Inr db
       else save_run db (p\<lparr>pr_import_attempts := pr_import_attempts p + 1\<rparr>)) = Inr db'"
    using assms unfolding claim_def by (rule get_runE)
  show ?thesis
  proof (cases "pr_import_state p \<in> set TERMINAL_IMPORT")
    case False
    then have "save_run db (p\<lparr>pr_import_attempts := pr_import_attempts p + 1\<rparr>) = Inr db'" using rest by (simp only: if_False)
    then show ?thesis by (rule advances_save_cong [OF p]) (simp_all add: moved_defs ok_facts_def)
  qed (use rest in simp)
qed

lemma advances_count_reads:
  assumes "count_reads st db k = Inr db'"
  shows "advances st db db'"
proof -
  obtain p where p: "run_by_id db k = Some p" and rest: "(if js_max_dataset_reads st \<le> int (pr_dataset_reads p) \<or> js_max_kv_reads st \<le> int (pr_kv_reads p)
     then Inl (Rejected READ_CAP_EXHAUSTED)
     else if 1 \<le> pr_dataset_reads p \<and> latch_tripped db then Inl LatchBlocked
     else lift_stop (save_run db (p\<lparr>pr_dataset_reads := pr_dataset_reads p + 1, pr_kv_reads := pr_kv_reads p + 1\<rparr>))) = Inr db'"
    using assms unfolding count_reads_def by (rule lock_runE)
  then have caps: "int (pr_dataset_reads p) < js_max_dataset_reads st" "int (pr_kv_reads p) < js_max_kv_reads st"
    and s: "save_run db (p\<lparr>pr_dataset_reads := pr_dataset_reads p + 1, pr_kv_reads := pr_kv_reads p + 1\<rparr>) = Inr db'"
    by (auto split: if_split_asm)
  show ?thesis
    by (rule advances_save [OF p s]) (use caps in \<open>simp_all add: moved_defs ok_defs\<close>)
qed

lemma advances_commit_observations:
  assumes "commit_observations e db k = Inr db'"
  shows "advances s db db'"
proof -
  obtain p ids where p: "run_by_id db k = Some p" and st: "pr_import_state p = IMPORT_PENDING"
    and sv: "save_run db (p\<lparr>pr_listing_ids := ids, pr_import_state := OBSERVATIONS_COMMITTED\<rparr>) = Inr db'"
    using assms unfolding commit_observations_def by (elim lock_runE andThen_InrE) (simp add: that)
  show ?thesis by (rule advances_save [OF p sv]) (use st in \<open>simp_all add: moved_defs ok_defs\<close>)
qed

lemma advances_advance:
  assumes "advance db k expected next' = Inr db'"
    and "import_rank expected < import_rank next'" and "import_rank next' < 5"
  shows "advances s db db'"
proof -
  obtain p where p: "run_by_id db k = Some p" and st: "pr_import_state p = expected"
    and sv: "save_run db (p\<lparr>pr_import_state := next'\<rparr>) = Inr db'"
    using assms(1) unfolding advance_def by (elim lock_runE) (simp add: that)
  have "expected \<noteq> IMPORT_FINALIZED" "expected \<noteq> IMPORT_REJECTED" "next' \<noteq> IMPORT_FINALIZED" "next' \<noteq> IMPORT_REJECTED"
    using assms(2,3) by auto
  then show ?thesis by (intro advances_save [OF p sv]) (use st assms(2) in \<open>simp_all add: moved_defs ok_defs\<close>)
qed

lemma advances_stage2:
  assumes "stage2 e db k = Inr db'"
  shows "advances s db db'"
proof -
  obtain p where p: "run_by_id db k = Some p" and st: "pr_import_state p = OBSERVATIONS_COMMITTED"
    and sv: "save_run db (p\<lparr>pr_import_state := ABSENCE_APPLIED\<rparr>) = Inr db'"
    using assms unfolding stage2_def by (elim lock_runE andThen_InrE) (simp add: that)
  show ?thesis by (rule advances_save [OF p sv]) (use st in \<open>simp_all add: moved_defs ok_defs\<close>)
qed

lemma advances_stage3: "stage3 e db k = Inr db' \<Longrightarrow> advances s db db'"
  unfolding stage3_def by (elim andThen_InrE) (erule advances_advance, simp_all)

lemma advances_stage4: "stage4 e db k = Inr db' \<Longrightarrow> advances s db db'"
  unfolding stage4_def by (elim andThen_InrE) (erule advances_advance, simp_all)

lemma advances_stage5:
  assumes "stage5 e db k = Inr db'"
  shows "advances s db db'"
proof -
  obtain p where p: "run_by_id db k = Some p" and st: "pr_import_state p = IMPORT_EVALUATED"
    and sv: "save_run db (fst (stamp_work_completion (p\<lparr>pr_import_state := IMPORT_FINALIZED\<rparr>) (ie_end e))) = Inr db'"
    using assms unfolding stage5_def by (elim lock_runE andThen_InrE) (simp add: that)
  show ?thesis by (rule advances_save [OF p sv]) (use st in \<open>auto simp: moved_defs ok_defs stamp_eq once_def\<close>)
qed

lemma advances_reject:
  assumes "reject_import schedule db k reason only_from now = Inr db'"
  shows "advances s db db'"
proof -
  let ?new = "\<lambda>p. fst (stamp_work_completion (p\<lparr>pr_reject_reason := Some reason, pr_import_state := IMPORT_REJECTED\<rparr>) now)"
  obtain p where p: "run_by_id db k = Some p"
    and out: "db' = db \<or> pr_import_state p \<notin> set TERMINAL_IMPORT \<and> save_run db (?new p) = Inr db'"
    using assms unfolding reject_import_def by (elim get_runE) (auto simp: andThen_eq_Inr split: if_split_asm)
  show ?thesis
  proof (cases "db' = db")
    case False
    then have open': "pr_import_state p \<notin> set TERMINAL_IMPORT" and sv: "save_run db (?new p) = Inr db'" using out by blast+
    show ?thesis
    proof (rule advances_save [OF p sv])
      show "moved_on p (?new p)"
        using open' by (cases "pr_import_state p") (auto simp: moved_defs stamp_eq once_def TERMINAL_IMPORT_def)
      show "run_ok s (trip_keys db) p \<Longrightarrow> run_ok s (trip_keys db) (?new p)"
        using open' by (auto simp: ok_defs stamp_eq)
    qed
  qed simp
qed

lemma advances_latch_block:
  assumes "record_latch_block db k now = Inr db'"
  shows "advances s db db'"
proof -
  obtain p t where p: "run_by_id db k = Some p"
    and sv: "save_run db (p\<lparr>pr_blocked_by_latch := True, pr_next_attempt_at := Some t\<rparr>) = Inr db'"
    using assms unfolding record_latch_block_def by (elim get_runE andThen_InrE) (rule that)
  show ?thesis by (rule advances_save_cong [OF p sv]) (simp_all add: moved_defs ok_facts_def)
qed

lemma advances_exhaustion:
  assumes "record_exhaustion db k now = Inr db'"
  shows "advances s db db'"
proof -
  obtain p t where p: "run_by_id db k = Some p"
    and sv: "save_run db (p\<lparr>pr_retry_exhausted := Some ((case pr_retry_exhausted p of None \<Rightarrow> 0 | Some n \<Rightarrow> n) + 1),
       pr_next_attempt_at := Some t\<rparr>) = Inr db'"
    using assms unfolding record_exhaustion_def by (elim get_runE andThen_InrE) (rule that)
  show ?thesis by (rule advances_save_cong [OF p sv]) (simp_all add: moved_defs ok_facts_def)
qed

text \<open>A stage and a whole invocation: every transaction they commit.\<close>

lemma fst_keep_db:
  assumes "\<And>db'. r = Inr db' \<Longrightarrow> advances s db db'" and "\<And>db'. r = Inr db' \<Longrightarrow> advances s db' (fst (f db'))"
  shows "advances s db (fst (keep_db db r f))"
  using assms by (cases r) (auto simp: keep_db_def intro: advances_trans)

lemma advances_over_cap_trips:
  assumes "over_cap_trips st p f config now db = Inr db'"
  shows "advances s db db'"
proof -
  have one: "advances s db1 db2" if "(if c then trip reason run config now db1 else Inr db1) = Inr db2" for c reason run db1 db2
    using that by (cases c) (auto intro: advances_trip)
  from assms show ?thesis unfolding over_cap_trips_def by (elim andThen_InrE) (rule advances_trans; erule one)
qed

lemma advances_stage1: "advances st db (fst (stage1 st config e db p))"
proof (cases "stage1_guard e p")
  case (Inr u)
  show ?thesis
    unfolding stage1_def Inr sum.case
  proof (rule fst_keep_db)
    show "advances st db db'" if "count_reads st db (pr_id p) = Inr db'" for db' using that by (rule advances_count_reads)
  next
    fix db'
    show "advances st db' (fst (case ie_fetch e of Inl stop \<Rightarrow> (db', Inl stop)
        | Inr f \<Rightarrow> keep_db db' (lift_stop (over_cap_trips st p f config (ie_start e) db')) (\<lambda>db.
            if fe_failed f then (db, Inl (Rejected FAILED_RUN))
            else keep_db db (andThen (ie_parse e) (\<lambda>_. commit_observations e db (pr_id p))) (\<lambda>db. (db, Inr ())))))"
    proof (cases "ie_fetch e")
      case (Inr f)
      have c: "advances st db1 db2" if "andThen (ie_parse e) (\<lambda>_. commit_observations e db1 (pr_id p)) = Inr db2" for db1 db2
        using that by (elim andThen_InrE) (rule advances_commit_observations)
      show ?thesis
        unfolding Inr sum.case
      proof (rule fst_keep_db)
        show "advances st db' db1" if "lift_stop (over_cap_trips st p f config (ie_start e) db') = Inr db1" for db1
          using that by (simp add: advances_over_cap_trips)
        show "advances st db1 (fst (if fe_failed f then (db1, Inl (Rejected FAILED_RUN))
            else keep_db db1 (andThen (ie_parse e) (\<lambda>_. commit_observations e db1 (pr_id p))) (\<lambda>db. (db, Inr ()))))" for db1
          by (cases "fe_failed f") (auto intro!: fst_keep_db intro: c)
      qed
    qed simp
  qed
qed (simp add: stage1_def)

lemma advances_run_stage: "advances st db (fst (run_stage st config e db p))"
  unfolding run_stage_def Let_def
  by (cases "pr_import_state p")
     (auto intro!: fst_keep_db intro: advances_stage1 advances_stage2 advances_stage3 advances_stage4 advances_stage5)

lemma advances_import_loop: "import_loop n st config e db k = Some (db', r) \<Longrightarrow> advances st db db'"
proof (induction n arbitrary: db)
  case (Suc n)
  then obtain p where p: "run_by_id db k = Some p \<or> run_by_id db k = None \<and> db' = db" by (cases "run_by_id db k") auto
  obtain db1 r1 where s: "run_stage st config e db p = (db1, r1)" by fastforce
  have "advances st db db1" using advances_run_stage [of st db config e p] by (simp add: s)
  moreover have "db' = db \<or> db' = db1 \<or> import_loop n st config e db1 k = Some (db', r)"
    using Suc.prems p s by (auto split: if_splits option.splits sum.splits)
  ultimately show ?case using Suc.IH advances_trans advances_refl by metis
qed simp

lemma advances_handle_stop: "advances s db (fst (handle_stop e db k r))"
proof -
  have one: "advances s db (fst (case x of Inl err \<Rightarrow> (db, Inl err) | Inr db \<Rightarrow> (db, Inr ())))"
    if "\<And>db'. x = Inr db' \<Longrightarrow> advances s db db'" for x :: "ledger_error + ledger_db"
    using that by (cases x) auto
  show ?thesis
  proof (cases r)
    case (Inl stop)
    then show ?thesis
      by (cases stop) (simp_all add: handle_stop_def one advances_reject advances_exhaustion advances_latch_block)
  qed (simp add: handle_stop_def)
qed

lemma advances_import: "advances st db (fst (import_provider_run st config e db k))"
proof (cases "run_by_id db k")
  case (Some p)
  show ?thesis
  proof (cases "claim db k")
    case (Inr db1)
    have a: "advances st db db1" using Inr by (rule advances_claim)
    show ?thesis
    proof (cases "import_loop 6 st config e db1 k")
      case None
      then show ?thesis using a by (simp add: import_provider_run_def Some Inr)
    next
      case lp: (Some x)
      obtain db2 r where x: "x = (db2, r)" by fastforce
      have "advances st db1 db2" using lp unfolding x by (rule advances_import_loop)
      then have "advances st db (fst (handle_stop e db2 k r))"
        using a advances_handle_stop [of st db2 e k r] by (blast intro: advances_trans)
      then show ?thesis by (simp add: import_provider_run_def Some Inr lp x)
    qed
  qed (simp add: import_provider_run_def Some)
qed (simp add: import_provider_run_def)

end
