(* ===== verification/JobHistory.thy ===== *)
theory JobHistory
  imports RunHistory
begin

text \<open>
  The jobs, storage cleanup, the tick and the ledger operations take nothing back either: the lemmas behind
  the history of a run, over every interleaving of their transactions.
\<close>

section \<open>Start, poll and back-off\<close>

lemma run_by_id_append:
  "runs db' = runs db @ [q] \<Longrightarrow> run_by_id db' k = (case run_by_id db k of Some p \<Rightarrow> Some p | None \<Rightarrow> if pr_id q = k then Some q else None)"
  by (simp add: run_by_id_def first_such_append split: option.split)

lemma new_run_ok: "run_ok s keys (new_run r spec t due_at k)"
  by (simp add: new_run_def ok_defs terminal_status_def)

lemma advances_create_run:
  assumes "create_run db (new_run r spec t due_at) rid = Inr (Some (db', k))"
  shows "advances s db db'"
proof -
  obtain db1 where i: "insert_run db (new_run r spec t due_at (next_id db)) = Inr db1"
    and rest: "(case rid of None \<Rightarrow> Inr (Some (db1, next_id db))
       | Some j \<Rightarrow> (case reservation_by_id db1 j of
             Some q \<Rightarrow> if rv_status q = RESERVED \<and> rv_run q = None
               then andThen (save_reservation db1 (q\<lparr>rv_run := Some (next_id db)\<rparr>)) (\<lambda>db2. Inr (Some (db2, next_id db))) else Inr None
           | None \<Rightarrow> Inr None)) = Inr (Some (db', k))"
    using assms unfolding create_run_def Let_def by (elim andThen_InrE) (rule that, assumption+)
  have db1: "runs db1 = runs db @ [new_run r spec t due_at (next_id db)]" "trips db1 = trips db"
    using i by (auto simp: insert_run_def andThen_eq_Inr)
  have "runs db' = runs db1 \<and> trips db' = trips db1"
    using rest by (auto simp: andThen_eq_Inr save_reservation_eq_Inr split: option.split_asm if_split_asm)
  then have r: "runs db' = runs db @ [new_run r spec t due_at (next_id db)]" and t: "trip_keys db' = trip_keys db"
    by (simp_all add: db1 trip_keys_def)
  have "run_ok s (trip_keys db) (new_run r spec t due_at (next_id db))" by (rule new_run_ok)
  then show ?thesis
    unfolding advances_def runs_ok_def t run_by_id_append [OF r] by (auto split: option.split_asm if_split_asm)
qed

lemma advances_start_error:
  assumes "record_start_error db k status = Inr db'"
  shows "advances s db db'"
proof -
  obtain p where p: "run_by_id db k = Some p" and sv: "save_run db (p\<lparr>pr_start_status := status\<rparr>) = Inr db'"
    using assms unfolding record_start_error_def by (rule get_runE)
  show ?thesis by (rule advances_save_cong [OF p sv]) (simp_all add: moved_defs ok_facts_def)
qed

text \<open>What an observation does to the columns of the history.\<close>

lemma apply_run_fields_moved: "moved_on p (apply_run_fields p a t)"
  by (simp add: apply_run_fields_def Let_def moved_defs once_def)

lemma apply_run_fields_ok: "run_ok s keys p \<Longrightarrow> run_ok s keys (apply_run_fields p a t)"
  by (simp add: apply_run_fields_def Let_def ok_defs) blast

text \<open>The start is recorded once, on a row without a recorded response and without a counted attempt.\<close>

definition unstarted :: "provider_run \<Rightarrow> bool" where
  "unstarted p \<longleftrightarrow> pr_external_id p = None \<and> pr_cleanup_attempts p = 0"

lemma advances_record_start:
  assumes "record_start db k a mismatches now = Inr db'" and "opt_all unstarted (run_by_id db k)"
  shows "advances s db db'"
proof -
  let ?q = "\<lambda>p. p\<lparr>pr_external_id := Some (ap_id a), pr_key := Some (''apify:'' @ ap_id a),
      pr_build_id := ap_build_id a, pr_build_number := ap_build_number a, pr_dataset_id := ap_dataset_id a,
      pr_kv_store_id := ap_kv_store_id a\<rparr>"
  let ?r = "\<lambda>p. apply_run_fields (?q p) a now"
  let ?f = "\<lambda>p. if mismatches = [] then p
      else p\<lparr>pr_start_mismatch := mismatches, pr_cleanup_attempts := pr_cleanup_attempts p + 1\<rparr>"
  obtain p where p: "run_by_id db k = Some p" and sv: "save_run db (?f (?r p)) = Inr db'"
    using assms(1) unfolding record_start_def Let_def by (rule get_runE)
  have u: "pr_external_id p = None" "pr_cleanup_attempts p = 0" using assms(2) by (simp_all add: p unstarted_def)
  have q: "moved_on p (?q p)" "run_ok s keys p \<Longrightarrow> run_ok s keys (?q p)" for keys
    using u by (simp_all add: moved_defs once_def ok_defs)
  have att: "pr_cleanup_attempts (?r p) = 0" using u(2) by (simp add: apply_run_fields_def Let_def)
  have f: "moved_on x (?f x)" "pr_cleanup_attempts x = 0 \<Longrightarrow> run_ok s keys x \<Longrightarrow> run_ok s keys (?f x)" for x keys
    by (simp_all add: moved_defs ok_defs)
  show ?thesis
  proof (rule advances_save [OF p sv])
    show "moved_on p (?f (?r p))" by (rule moved_on_trans [OF q(1) moved_on_trans [OF apply_run_fields_moved f(1)]])
    show "run_ok s (trip_keys db) p \<Longrightarrow> run_ok s (trip_keys db) (?f (?r p))"
      by (intro f(2) apply_run_fields_ok q(2) att)
  qed
qed

lemma observed_run_moved: "moved_on p (observed_run p a t poll)"
  by (rule moved_on_trans [OF apply_run_fields_moved [of p a t]]) (simp add: observed_run_def Let_def moved_defs)

lemma observed_run_ok:
  assumes "run_ok s keys p"
  shows "run_ok s keys (observed_run p a t poll)"
proof -
  have "ok_facts (observed_run p a t poll) = ok_facts (apply_run_fields p a t)"
    by (simp add: observed_run_def Let_def ok_facts_def)
  then show ?thesis using apply_run_fields_ok [OF assms] run_ok_cong by metis
qed

lemma advances_observed:
  assumes "andThen (get_row (run_by_id db k)) (\<lambda>p. save_run db (observed_run p a t poll)) = Inr db'"
  shows "advances s db db'"
  using assms by (rule get_runE) (erule (1) advances_save, rule observed_run_moved, erule observed_run_ok)

lemma advances_record_observation: "advances s db (fst (record_observation config db k a t poll))"
  unfolding record_observation_def
  by (rule adv.rel_commit) (auto intro: advances_observed intro!: adv.rel_commit elim: advances_trip)

lemma advances_count_poll:
  assumes "count_poll st db k = Inr (db', run_id)"
  shows "advances st db db'"
proof -
  obtain p where p: "run_by_id db k = Some p"
    and out: "db' = db \<or> int (pr_run_polls p) < js_max_run_polls st \<and> save_run db (p\<lparr>pr_run_polls := pr_run_polls p + 1\<rparr>) = Inr db'"
    using assms unfolding count_poll_def by (elim get_runE) (auto simp: andThen_eq_Inr split: if_split_asm)
  show ?thesis
  proof (cases "db' = db")
    case False
    then have c: "int (pr_run_polls p) < js_max_run_polls st" and sv: "save_run db (p\<lparr>pr_run_polls := pr_run_polls p + 1\<rparr>) = Inr db'"
      using out by blast+
    show ?thesis by (rule advances_save [OF p sv]) (use c in \<open>simp_all add: moved_defs ok_defs\<close>)
  qed simp
qed

lemma advances_back_off:
  assumes "back_off db k now = Inr db'"
  shows "advances s db db'"
proof -
  obtain p n t where p: "run_by_id db k = Some p"
    and sv: "save_run db (p\<lparr>pr_unit_failures := Some n, pr_next_attempt_at := Some t\<rparr>) = Inr db'"
    using assms unfolding back_off_def Let_def by (elim get_runE andThen_InrE) (rule that)
  show ?thesis by (rule advances_save_cong [OF p sv]) (simp_all add: moved_defs ok_facts_def)
qed

lemma advances_clear_failures:
  assumes "clear_failures db k = Inr db'"
  shows "advances s db db'"
proof -
  obtain p where p: "run_by_id db k = Some p" and out: "db' = db \<or> save_run db (p\<lparr>pr_unit_failures := None\<rparr>) = Inr db'"
    using assms unfolding clear_failures_def by (elim get_runE) (auto split: if_split_asm)
  show ?thesis
  proof (cases "db' = db")
    case False
    then have sv: "save_run db (p\<lparr>pr_unit_failures := None\<rparr>) = Inr db'" using out by blast
    show ?thesis by (rule advances_save_cong [OF p sv]) (simp_all add: moved_defs ok_facts_def)
  qed simp
qed

section \<open>Storage cleanup\<close>

text \<open>A row saved and tripped for, in one transaction.\<close>

lemma advances_save_trip:
  assumes p: "run_by_id db k = Some p" and sv: "save_run db p' = Inr db1" and t: "trip reason run config now db1 = Inr db'"
    and m: "moved_on p p'" and ok: "\<And>keys. run_ok s keys p \<Longrightarrow> (reason, run) \<in> keys \<Longrightarrow> run_ok s keys p'"
  shows "advances s db db'"
proof (rule advances_run [OF p _ _ m])
  have db1: "runs db1 = replace_by pr_id p' (runs db)" "trip_keys db1 = trip_keys db"
    using sv by (simp_all add: save_run_eq_Inr trip_keys_def)
  note t = trip_tripped [OF t]
  show "runs db' = replace_by pr_id p' (runs db)" using db1 t(1) by simp
  show "trip_keys db \<subseteq> trip_keys db'" using db1 t(2) by simp
  show "run_ok s (trip_keys db') p \<Longrightarrow> run_ok s (trip_keys db') p'" using ok t(3) by blast
qed

lemma advances_mark_delete_failed:
  assumes "mark_delete_failed db p config now = Inr db'" and p: "run_by_id db k = Some p" and "pr_storage_state p \<noteq> STORAGE_DELETED"
  shows "advances s db db'"
proof (cases "pr_storage_state p = STORAGE_DELETE_FAILED")
  case True
  then have "trip DELETE_ATTEMPTS_EXHAUSTED (Some (pr_id p)) config now db = Inr db'"
    using assms(1) by (simp add: mark_delete_failed_def)
  then show ?thesis by (rule advances_trip)
next
  case False
  let ?p' = "p\<lparr>pr_storage_state := STORAGE_DELETE_FAILED\<rparr>"
  obtain db1 where sv: "save_run db ?p' = Inr db1"
    and t: "trip DELETE_ATTEMPTS_EXHAUSTED (Some (pr_id p)) config now db1 = Inr db'"
    using assms(1) False by (auto simp: mark_delete_failed_def andThen_eq_Inr)
  show ?thesis by (rule advances_save_trip [OF p sv t]) (use assms(3) in \<open>simp_all add: moved_defs ok_defs\<close>)
qed

lemma advances_begin_attempt:
  assumes "begin_attempt st config db k overdue now = Inr (db', att)"
  shows "advances st db db'"
proof -
  obtain p where p: "run_by_id db k = Some p"
    and out: "(if pr_storage_state p = STORAGE_DELETED \<or> pr_orphaned_at p \<noteq> None then Inr (db, None)
     else case pr_external_id p of
       None \<Rightarrow>
         if overdue then
           andThen (save_run db (p\<lparr>pr_orphaned_at := Some now\<rparr>)) (\<lambda>db.
           andThen (trip ORPHANED_START (Some k) config now db) (\<lambda>db. Inr (db, None)))
         else Inr (db, None)
     | Some run_id \<Rightarrow>
         if \<not> overdue \<and> \<not> terminal_status (pr_remote_status p) then Inr (db, None)
         else if js_max_delete_attempts st \<le> int (pr_cleanup_attempts p)
         then andThen (mark_delete_failed db p config now) (\<lambda>db. Inr (db, None))
         else andThen (save_run db (p\<lparr>pr_cleanup_attempts := pr_cleanup_attempts p + 1\<rparr>)) (\<lambda>db.
              Inr (db, Some \<lparr>at_run_id = run_id, at_observed_terminal = terminal_status (pr_remote_status p),
                at_pending = filter (\<lambda>x. x \<notin> set (pr_verified_deleted p)) all_storages\<rparr>))) = Inr (db', att)"
    using assms unfolding begin_attempt_def by (rule get_runE)
  have k: "pr_id p = k" using run_by_id_Some [OF p] by blast
  from out consider "db' = db"
    | (orphan) db1 where "pr_orphaned_at p = None" "save_run db (p\<lparr>pr_orphaned_at := Some now\<rparr>) = Inr db1"
        "trip ORPHANED_START (Some k) config now db1 = Inr db'"
    | (failed) "pr_storage_state p \<noteq> STORAGE_DELETED" "mark_delete_failed db p config now = Inr db'"
    | (counted) "int (pr_cleanup_attempts p) < js_max_delete_attempts st"
        "save_run db (p\<lparr>pr_cleanup_attempts := pr_cleanup_attempts p + 1\<rparr>) = Inr db'"
    by (auto simp: andThen_eq_Inr split: if_split_asm option.split_asm)
  then show ?thesis
  proof cases
    case orphan
    show ?thesis by (rule advances_save_trip [OF p orphan(2,3)]) (use orphan(1) k in \<open>simp_all add: moved_defs once_def ok_defs\<close>)
  next
    case failed
    show ?thesis by (rule advances_mark_delete_failed [OF failed(2) p failed(1)])
  next
    case counted
    show ?thesis by (rule advances_save [OF p counted(2)]) (use counted(1) in \<open>simp_all add: moved_defs ok_defs\<close>)
  qed simp
qed

lemma set_verified: "set (pr_verified_deleted (verify_deleted p xs)) = set (pr_verified_deleted p) \<union> set xs"
  by (auto simp: verify_deleted_def)

lemma verify_deleted_moved: "moved_on p (verify_deleted p xs)"
  by (simp add: verify_deleted_def moved_defs)

lemma verify_deleted_ok: "run_ok s keys p \<Longrightarrow> run_ok s keys (verify_deleted p xs)"
  by (auto simp: verify_deleted_def ok_defs)

lemma advances_finish_attempt:
  assumes "finish_attempt st config db k deleted errors now = Inr db'"
  shows "advances s db db'"
proof -
  let ?q = "\<lambda>p. verify_deleted p deleted"
  let ?done = "\<lambda>q. q\<lparr>pr_cleanup_errors := None, pr_storage_state := STORAGE_DELETED, pr_storage_deleted_at := Some now\<rparr>"
  obtain p where p: "run_by_id db k = Some p"
    and out: "(if set all_storages \<subseteq> set (pr_verified_deleted (?q p))
     then save_run db (fst (stamp_work_completion (?done (?q p)) now))
     else andThen (retry_delay (pr_cleanup_attempts (?q p))) (\<lambda>delay.
          andThen (date_add now delay) (\<lambda>t.
          andThen (save_run db ((?q p)\<lparr>pr_cleanup_errors := Some errors, pr_next_attempt_at := Some t\<rparr>)) (\<lambda>db.
          if pr_storage_state ((?q p)\<lparr>pr_cleanup_errors := Some errors, pr_next_attempt_at := Some t\<rparr>) \<noteq> STORAGE_DELETED
             \<and> js_max_delete_attempts st \<le> int (pr_cleanup_attempts ((?q p)\<lparr>pr_cleanup_errors := Some errors, pr_next_attempt_at := Some t\<rparr>))
          then mark_delete_failed db ((?q p)\<lparr>pr_cleanup_errors := Some errors, pr_next_attempt_at := Some t\<rparr>) config now else Inr db)))) = Inr db'"
    using assms unfolding finish_attempt_def Let_def by (rule get_runE)
  show ?thesis
  proof (cases "set all_storages \<subseteq> set (pr_verified_deleted (?q p))")
    case True
    then have sv: "save_run db (fst (stamp_work_completion (?done (?q p)) now)) = Inr db'" using out by (simp only: if_True)
    show ?thesis
    proof (rule advances_save [OF p sv])
      have "moved_on (?q p) (fst (stamp_work_completion (?done (?q p)) now))" by (auto simp: moved_defs stamp_eq once_def)
      then show "moved_on p (fst (stamp_work_completion (?done (?q p)) now))" by (rule moved_on_trans [OF verify_deleted_moved])
      have "run_ok s keys (?q p) \<Longrightarrow> run_ok s keys (fst (stamp_work_completion (?done (?q p)) now))" for keys
        using True by (auto simp: ok_defs stamp_eq)
      then show "run_ok s (trip_keys db) p \<Longrightarrow> run_ok s (trip_keys db) (fst (stamp_work_completion (?done (?q p)) now))"
        using verify_deleted_ok by blast
    qed
  next
    case False
    then obtain t db1 where sv: "save_run db ((?q p)\<lparr>pr_cleanup_errors := Some errors, pr_next_attempt_at := Some t\<rparr>) = Inr db1"
      and rest: "(if pr_storage_state ((?q p)\<lparr>pr_cleanup_errors := Some errors, pr_next_attempt_at := Some t\<rparr>) \<noteq> STORAGE_DELETED
             \<and> js_max_delete_attempts st \<le> int (pr_cleanup_attempts ((?q p)\<lparr>pr_cleanup_errors := Some errors, pr_next_attempt_at := Some t\<rparr>))
          then mark_delete_failed db1 ((?q p)\<lparr>pr_cleanup_errors := Some errors, pr_next_attempt_at := Some t\<rparr>) config now else Inr db1) = Inr db'"
      using out by (simp only: if_False) (elim andThen_InrE, rule that)
    let ?r = "(?q p)\<lparr>pr_cleanup_errors := Some errors, pr_next_attempt_at := Some t\<rparr>"
    have same: "moved_on (?q p) ?r" "ok_facts ?r = ok_facts (?q p)" by (simp_all add: moved_defs ok_facts_def)
    have a: "advances s db db1"
    proof (rule advances_save [OF p sv])
      show "moved_on p ?r" by (rule moved_on_trans [OF verify_deleted_moved same(1)])
      show "run_ok s (trip_keys db) p \<Longrightarrow> run_ok s (trip_keys db) ?r"
        using verify_deleted_ok run_ok_cong [OF same(2)] by blast
    qed
    have id: "pr_id ?r = k" using moved_on_id [OF verify_deleted_moved] run_by_id_Some [OF p] by simp
    then have r: "run_by_id db1 k = Some ?r" using run_by_id_save [OF sv, of p] p by simp
    have "advances s db1 db'"
    proof (cases "pr_storage_state ?r \<noteq> STORAGE_DELETED \<and> js_max_delete_attempts st \<le> int (pr_cleanup_attempts ?r)")
      case True
      then have "mark_delete_failed db1 ?r config now = Inr db'" using rest by (subst (asm) if_P)
      then show ?thesis by (rule advances_mark_delete_failed [OF _ r]) (use True in blast)
    next
      case False
      then have "Inr db1 = (Inr db' :: ledger_error + ledger_db)" using rest by (subst (asm) if_not_P)
      then show ?thesis by simp
    qed
    with a show ?thesis by (rule advances_trans)
  qed
qed

lemma advances_confirm_terminal: "advances s db (fst (confirm_terminal config db k w))"
proof -
  have r: "advances s db (fst (case cw_read w of
        Inl e \<Rightarrow> if is_apify_error e then (db, Inr (errors @ [ReadFailed e])) else (db, Inl (CallError e))
      | Inr a \<Rightarrow> followed_by (record_observation config db k a (cw_read_at w) False) (\<lambda>db _.
          (db, Inr (if terminal_status (Some (ap_status a)) then [] else errors @ [ReadNonTerminal])))))" for db errors
    by (cases "cw_read w") (auto intro!: adv.rel_followed_by advances_record_observation)
  show ?thesis
    unfolding confirm_terminal_def Let_def
    by (cases "cw_abort w") (auto intro!: adv.rel_followed_by advances_record_observation r)
qed

lemma advances_attempt: "advances s db (fst (attempt_cleanup s config overdue w db k))"
  unfolding attempt_cleanup_def
proof (rule adv.rel_txn)
  show "advances s db db'" if "begin_attempt s config db k overdue (cw_begin_at w) = Inr (db', att)" for db' att
    using that by (rule advances_begin_attempt)
  have f: "advances s db1 (fst (commit db1 (finish_attempt s config db1 k deleted errors (cw_finish_at w)) (\<lambda>db. (db, Inr ()))))"
    for db1 deleted errors by (rule adv.rel_commit) (auto intro: advances_finish_attempt)
  fix db' :: ledger_db and att :: "attempt option"
  show "advances s db' (fst (case att of None \<Rightarrow> (db', Inr ())
     | Some a \<Rightarrow>
         followed_by (if at_observed_terminal a then (db', Inr []) else confirm_terminal config db' k w) (\<lambda>db errors.
         if errors \<noteq> [] then commit db (finish_attempt s config db k [] errors (cw_finish_at w)) (\<lambda>db. (db, Inr ()))
         else (case run_by_id db k of
             None \<Rightarrow> (db, Inl NoSuchRow)
           | Some p \<Rightarrow>
               (case delete_pending s w p (at_pending a) of
                  Inl e \<Rightarrow> (db, Inl (CallError e))
                | Inr (deleted, errors) \<Rightarrow>
                    commit db (finish_attempt s config db k deleted errors (cw_finish_at w)) (\<lambda>db. (db, Inr ())))))))"
  proof (cases att)
    case (Some a)
    have j: "advances s db' (fst (if at_observed_terminal a then (db', Inr []) else confirm_terminal config db' k w))"
      by (simp add: advances_confirm_terminal)
    show ?thesis
      unfolding Some option.case
      by (rule adv.rel_followed_by [OF j]) (auto intro: f split: option.split prod.split sum.split)
  qed simp
qed

lemma advances_overdue: "advances s db (fst (overdue_storage_unit s config w db k))"
  unfolding overdue_storage_unit_def
proof (rule adv.rel_commit)
  fix db'
  assume "reject_if_stage1_uncommitted (cw_schedule w) db k (cw_begin_at w) = Inr db'"
  then show "advances s db db'"
    unfolding reject_if_stage1_uncommitted_def by (elim get_runE) (auto split: if_split_asm intro: advances_reject)
qed (rule advances_attempt)

end
