(* ===== verification/JobLife.thy ===== *)
theory JobLife
  imports JobHistory
begin

text \<open>
  The life of a \<open>provider_run\<close>: every transaction of admission, start, poll, import, cleanup, settlement and
  monitoring, in any interleaving, with what they keep together.
\<close>

section \<open>The ledger operations\<close>

text \<open>\<open>quiet\<close>: the runs untouched and no trip forgotten.\<close>

definition quiet :: "ledger_db \<Rightarrow> ledger_db \<Rightarrow> bool" where
  "quiet db db' \<longleftrightarrow> runs db' = runs db \<and> trip_keys db \<subseteq> trip_keys db'"

interpretation quiet: effect quiet
  by unfold_locales (auto simp: quiet_def)

lemma quiet_advances: "quiet db db' \<Longrightarrow> advances s db db'"
  by (auto simp: quiet_def intro: advances_same_runs)

lemma quiet_save: "save_reservation db r = Inr db' \<Longrightarrow> quiet db db'"
  by (simp add: save_reservation_eq_Inr quiet_def trip_keys_def)

lemma quiet_columns: "save_columns db k f = Inr db' \<Longrightarrow> quiet db db'"
  by (auto simp: save_columns_eq_Inr intro: quiet_save)

lemma quiet_trip: "trip reason run config now db = Inr db' \<Longrightarrow> quiet db db'"
  using trip_tripped by (simp add: quiet_def)

lemma quiet_trip_if: "(if c then trip reason run config now db else Inr db) = Inr db' \<Longrightarrow> quiet db db'"
  by (cases c) (auto intro: quiet_trip quiet.rel_refl)

lemma quiet_append_read: "append_read db r run t tot u f config = Inr (db', j) \<Longrightarrow> quiet db db'"
  by (drule append_read_effect) (auto simp: quiet_def trip_keys_def)

lemma quiet_try_settle:
  assumes "try_settle db r run now config = Inr (db', b)"
  shows "quiet db db'"
  using assms
proof (cases rule: try_settleE)
  case (settled anchor eligible deadline window figure basis fin r')
  then show ?thesis by (auto simp: save_settled_eq_Inr intro: quiet_save quiet_trip_if quiet.rel_trans)
qed (simp add: quiet.rel_refl)

lemma quiet_mark_provisional: "mark_provisional db r tot = Inr (db', r') \<Longrightarrow> quiet db db'"
  by (auto simp: mark_provisional_def andThen_eq_Inr Let_def intro: quiet_columns quiet.rel_refl split: option.split_asm)

lemma quiet_read_and_settle:
  assumes "andThen (append_read db r run t tot u f config) (\<lambda>(db, _). andThen (mark_provisional db r tot') (\<lambda>(db, r).
      try_settle db r run' t config)) = Inr (db', b)"
  shows "quiet db db'"
  using assms
  by (elim andThen_pair_InrE) (rule quiet.rel_trans [OF quiet_append_read quiet.rel_trans [OF quiet_mark_provisional quiet_try_settle]])

lemma quiet_record_run_usage:
  assumes "record_run_usage db k a read_at config = Inr (db', b)"
  shows "quiet db db'"
proof -
  obtain resv p db1 db2 where t1: "latch_on_components a (Some k) config read_at db = Inr db1"
    and t2: "(if ap_restart_count a \<notin> {None, Some 0} then trip START_OPTION_MISMATCH (Some k) config read_at db1
       else Inr db1) = Inr db2"
    and k: "(case resv of None \<Rightarrow> Inr (db2, False)
     | Some r \<Rightarrow>
         if rv_status r \<notin> set open_statuses then Inr (db2, False) else
         andThen (append_read db2 r (Some (pr_id p)) read_at (ap_total a) (ap_usage_usd a) (ap_finished_at a) config) (\<lambda>(db, _).
         andThen (mark_provisional db r (ap_total a)) (\<lambda>(db, r).
         try_settle db r (Some p) read_at config))) = Inr (db', b)"
    using assms unfolding record_run_usage_def
    by (elim andThen_pair_InrE, elim andThen_InrE) (rule that, assumption+)
  have "quiet db db2"
    using quiet.rel_trans [OF quiet_trip_if [OF t1 [unfolded latch_on_components_def]] quiet_trip_if [OF t2]] .
  moreover have "quiet db2 db'"
    using k by (auto split: option.split_asm if_split_asm intro: quiet.rel_refl quiet_read_and_settle)
  ultimately show ?thesis by (rule quiet.rel_trans)
qed

lemma quiet_bind_build:
  assumes "bind_build db k build_id now = Inr (db', b)"
  shows "quiet db db'"
proof -
  have "db' = db \<or> (\<exists>n. save_columns db k (\<lambda>r. r\<lparr>rv_build_id := Some n, rv_next_usage_read_at := Some now\<rparr>) = Inr db')"
    using assms by (auto simp: bind_build_def Let_def andThen_eq_Inr split: option.splits if_splits)
  then show ?thesis using quiet_columns quiet.rel_refl by blast
qed

lemma quiet_plan_build_read:
  assumes "plan_build_read db k now config = Inr (db', out)"
  shows "quiet db db'"
proof -
  obtain r run where k: "(if rv_status r \<notin> set open_statuses \<or> rv_build_id r = None then Inr (db, None) else
     andThen (try_settle db r None now config) (\<lambda>(db, done').
     if done' then Inr (db, None) else
     (case max_run_polls (budget config) of
        None \<Rightarrow> Inr (db, None)
      | Some c \<Rightarrow>
          if c \<le> int (rv_run_polls r) then Inr (db, None) else
          andThen (interval_of (usage_stable_interval_s config)) (\<lambda>interval.
          andThen (date_add now interval) (\<lambda>next'.
          andThen (save_columns db k (\<lambda>q. q\<lparr>rv_run_polls := rv_run_polls r + 1, rv_next_usage_read_at := Some next'\<rparr>)) (\<lambda>db.
          Inr (db, rv_build_id r))))))) = Inr (db', out)"
    using assms unfolding plan_build_read_def by (rule andThen_pair_InrE)
  show ?thesis
  proof (cases "rv_status r \<notin> set open_statuses \<or> rv_build_id r = None")
    case False
    obtain db1 b where s: "try_settle db r None now config = Inr (db1, b)"
      and rest: "db' = db1 \<or> (\<exists>f. save_columns db1 k f = Inr db')"
      using k False
      by (simp only: if_False)
        (elim andThen_pair_InrE, rule that, assumption, auto simp: andThen_eq_Inr split: if_splits option.splits)
    from rest have "quiet db1 db'" using quiet_columns quiet.rel_refl by blast
    then show ?thesis by (rule quiet.rel_trans [OF quiet_try_settle [OF s]])
  qed (use k in \<open>auto simp: quiet.rel_refl\<close>)
qed

lemma quiet_record_build_usage:
  assumes "record_build_usage db k a read_at config = Inr (db', b)"
  shows "quiet db db'"
proof -
  obtain r run db1 where t1: "latch_on_components a None config read_at db = Inr db1"
    and k: "(if rv_status r \<notin> set open_statuses then Inr (db1, False) else
     andThen (append_read db1 r None read_at (ap_total a) (ap_usage_usd a)
       (if ap_status a \<in> set TERMINAL_RUN_STATUSES then ap_finished_at a else None) config) (\<lambda>(db, _).
     andThen (mark_provisional db r (ap_total a)) (\<lambda>(db, r).
     try_settle db r None read_at config))) = Inr (db', b)"
    using assms unfolding record_build_usage_def by (elim andThen_pair_InrE, elim andThen_InrE) (rule that, assumption+)
  have "quiet db1 db'" using k by (auto split: if_split_asm intro: quiet.rel_refl quiet_read_and_settle)
  then show ?thesis by (rule quiet.rel_trans [OF quiet_trip_if [OF t1 [unfolded latch_on_components_def]]])
qed

lemma quiet_release_each: "release_each db rs = Inr db' \<Longrightarrow> quiet db db'"
proof (induction rs arbitrary: db)
  case (Cons r rs)
  then obtain db1 where "save_columns db (rv_id r) released_row = Inr db1" "release_each db1 rs = Inr db'"
    by (auto simp: andThen_eq_Inr)
  then show ?case using Cons.IH quiet_columns quiet.rel_trans by blast
qed (simp add: quiet.rel_refl)

lemma quiet_release_unattached:
  assumes "release_unattached_reservations db now grace = Inr (db', ids)"
  shows "quiet db db'"
proof -
  have "db' = db \<or> (\<exists>rs. release_each db rs = Inr db')"
    using assms by (auto simp: release_unattached_reservations_def Let_def andThen_eq_Inr split: option.splits if_splits)
  then show ?thesis using quiet_release_each quiet.rel_refl by blast
qed

lemma quiet_settle_operator: "settle_operator db k now probe verified = Inr db' \<Longrightarrow> quiet db db'"
  by (auto simp: settle_operator_def Let_def intro: quiet_save split: option.split_asm if_split_asm)

lemma quiet_apply_correction:
  assumes "apply_correction db r tot now config run_id = Inr (db', r')"
  shows "quiet db db'"
  using assms
proof (cases rule: apply_correctionE)
  case (raised figure actual db1 db2 bs)
  then show ?thesis using quiet_columns quiet_trip_if quiet.rel_trans by metis
qed (simp add: quiet.rel_refl)

lemma quiet_apply_read: "apply_read db r run m tot now config = Inr (db', r', shut) \<Longrightarrow> quiet db db'"
  by (erule apply_readE) (rule quiet.rel_trans [OF quiet_append_read quiet_apply_correction])

lemma quiet_complete_monitoring_read:
  assumes "complete_monitoring_read db k result now config = Inr (db', shut)"
  shows "quiet db db'"
  using assms
proof (rule completeE)
  fix r run db1 db2 r2 r3
  assume l: "latch_on_result result (map_option pr_id run) config (instant_of now) db = Inr db1"
    and mid: "(db2 = db1 \<and> \<not> shut \<and> r2 = r\<lparr>rv_monitoring_call_pending_since := None, rv_monitoring_charge_last_at := Some (instant_of now)\<rparr>)
      \<or> (\<exists>m tot. result = Some m \<and> mr_total m = Some tot \<and> \<not> mr_over_cap m
         \<and> apply_read db1 (r\<lparr>rv_monitoring_call_pending_since := None, rv_monitoring_charge_last_at := Some (instant_of now)\<rparr>)
             run m tot now config = Inr (db2, r2, shut))"
    and s: "save_reservation db2 r3 = Inr db'"
  have "quiet db db1" using latch_on_result_effect [OF l] by (auto simp: quiet_def trip_keys_append)
  moreover have "quiet db1 db2" using mid quiet_apply_read quiet.rel_refl by blast
  ultimately show ?thesis using quiet_save [OF s] quiet.rel_trans by blast
qed

lemma quiet_trip_map:
  "(\<And>t. la_run (f t) = la_run t \<and> la_reason (f t) = la_reason t) \<Longrightarrow> quiet db (db\<lparr>trips := map f (trips db)\<rparr>)"
  by (simp add: quiet_def trip_keys_def image_image)

lemma quiet_clear_latch:
  assumes "clear_latch reason now db = Inr (db', n)"
  shows "quiet db db'"
proof -
  have "db' = db\<lparr>trips := map (\<lambda>t. if trip_open t
       then t\<lparr>la_cleared := Some (max now (la_tripped_at t), OwnerReset (strip reason))\<rparr> else t) (trips db)\<rparr>"
    using assms by (auto simp: clear_latch_def Let_def andThen_eq_Inr)
  then show ?thesis by (simp only:) (rule quiet_trip_map, simp)
qed

lemma quiet_clear_bump:
  assumes "clear_on_estimator_bump v t db = Inr (db', n)"
  shows "quiet db db'"
proof -
  have "db' = db\<lparr>trips := map (\<lambda>x. if bump_clears v x then x\<lparr>la_cleared := Some (t, BumpedTo v)\<rparr> else x) (trips db)\<rparr>"
    using assms by (auto simp: clear_on_estimator_bump_def Let_def andThen_eq_Inr)
  then show ?thesis by (simp only:) (rule quiet_trip_map, simp)
qed

lemma quiet_trip_stranded: "trip_stranded_start_refusals_locked v t db = Inr (db', ks) \<Longrightarrow> quiet db db'"
  by (drule trip_stranded_effect(1)) (auto simp: quiet_def trip_keys_append)

lemma quiet_reserve:
  assumes "reserve request site config now reason db = Inr (db', oc)"
  shows "quiet db db'"
proof -
  obtain dba dbb db0 db1 n ks cycle held current after decision where
    a: "clear_on_estimator_bump (estimator_version (budget config)) (instant_of now) db = Inr (dba, n)"
    and b: "trip_stranded_start_refusals_locked (estimator_version (budget config)) (instant_of now) dba = Inr (dbb, ks)"
    and c: "ensure_cycle config now dbb = Inr (db0, cycle)"
    and o: "observe_cycle config (instant_of now) cycle db0 = Inr (db1, held, current, after)"
    and p: "persist request decision site (budget config) (instant_of now) reason db1 = Inr (db', oc)"
    using assms by (rule reserveE)
  obtain row env where db': "db' = db1\<lparr>reservations := reservations db1 @ [row], next_id := next_id db1 + 1\<rparr>"
    using p by (rule persistE)
  have "quiet dbb db'"
    using ensure_cycle_frame [OF c] observe_cycle_frame [OF o] by (simp add: db' quiet_def trip_keys_def)
  then show ?thesis using quiet_clear_bump [OF a] quiet_trip_stranded [OF b] quiet.rel_trans by blast
qed

text \<open>The poll cap of the jobs and of settlement is one setting.\<close>

definition one_poll_cap :: "jobs_settings \<Rightarrow> ledger_config \<Rightarrow> bool" where
  "one_poll_cap s config \<longleftrightarrow> max_run_polls (budget config) = Some (js_max_run_polls s)"

text \<open>A planned read leaves the runs alone but for the back-off, or is counted and granted.\<close>

lemma plan_settlement_readE:
  assumes "plan_settlement_read db k now config = Inr (db', out)" and cap: "one_poll_cap s config"
  obtains (kept) "quiet db db'" and "out = None"
    | (waiting) db1 p t where "quiet db db1" and "run_by_id db1 k = Some p"
        and "save_run db1 (p\<lparr>pr_next_attempt_at := t\<rparr>) = Inr db'" and "out = None"
    | (granted) db1 p t where "quiet db db1" and "run_by_id db1 k = Some p" and "int (pr_run_polls p) < js_max_run_polls s"
        and "save_run db1 (p\<lparr>pr_run_polls := pr_run_polls p + 1, pr_next_attempt_at := t\<rparr>) = Inr db'" and "out \<noteq> None"
proof -
  obtain resv p where l: "lock_by_run db k = Inr (resv, p)"
    and k: "(case resv of None \<Rightarrow> Inr (db, None) | Some r \<Rightarrow>
         if rv_status r \<notin> set open_statuses then Inr (db, None) else
         andThen (try_settle db r (Some p) now config) (\<lambda>(db, done').
         if done' then Inr (db, None) else
         (case (anchor_of db r (Some p), pr_external_id p) of
            (Some anchor, Some external) \<Rightarrow>
              (case eligible_from anchor config of
                 Inl (Raised (BudgetDenied _ _)) \<Rightarrow> Inr (db, None)
               | Inl e \<Rightarrow> Inl e
               | Inr eligible \<Rightarrow>
                   if now < eligible then
                     andThen (save_run db (p\<lparr>pr_next_attempt_at := Some eligible\<rparr>)) (\<lambda>db. Inr (db, None))
                   else (case max_run_polls (budget config) of
                       None \<Rightarrow> Inr (db, None)
                     | Some c \<Rightarrow>
                         if c \<le> int (pr_run_polls p) then Inr (db, None) else
                         andThen (interval_of (usage_stable_interval_s config)) (\<lambda>interval.
                         andThen (date_add now interval) (\<lambda>next'.
                         andThen (save_run db (p\<lparr>pr_run_polls := pr_run_polls p + 1, pr_next_attempt_at := Some next'\<rparr>)) (\<lambda>db.
                         Inr (db, Some external))))))
          | _ \<Rightarrow> Inr (db, None)))) = Inr (db', out)"
    using assms(1) unfolding plan_settlement_read_def by (rule andThen_pair_InrE)
  show thesis
  proof (cases "\<exists>r. resv = Some r \<and> rv_status r \<in> set open_statuses")
    case False
    then have "db' = db" "out = None" using k by (auto split: option.splits if_splits)
    then show thesis using kept quiet.rel_refl by simp
  next
    case True
    then obtain r where r: "resv = Some r" "rv_status r \<in> set open_statuses" by blast
    obtain db1 b where st: "try_settle db r (Some p) now config = Inr (db1, b)"
      and rest: "db' = db1 \<and> out = None \<or> (\<exists>t. save_run db1 (p\<lparr>pr_next_attempt_at := t\<rparr>) = Inr db' \<and> out = None)
        \<or> (\<exists>t. int (pr_run_polls p) < js_max_run_polls s
            \<and> save_run db1 (p\<lparr>pr_run_polls := pr_run_polls p + 1, pr_next_attempt_at := t\<rparr>) = Inr db' \<and> out \<noteq> None)"
      using k r(2) cap unfolding r(1) one_poll_cap_def
      by (simp only: option.case if_False not_not simp_thms)
        (elim andThen_pair_InrE, rule that, assumption,
          auto simp: andThen_eq_Inr split: if_splits option.splits sum.splits ledger_error.splits budget_error.splits prod.splits)
    have q: "quiet db db1" by (rule quiet_try_settle [OF st])
    have p: "run_by_id db1 k = Some p"
      using try_settle_runs [OF st] lock_by_runD(1) [OF l] by (simp add: run_by_id_def)
    from rest show thesis using kept [unfolded quiet_def] waiting [OF q p] granted [OF q p] q that by (elim disjE exE conjE) simp_all
  qed
qed

lemma advances_plan_settlement_read:
  assumes "plan_settlement_read db k now config = Inr (db', out)" and "one_poll_cap s config"
  shows "advances s db db'"
  using assms
proof (cases rule: plan_settlement_readE)
  case (waiting db1 p t)
  have "advances s db1 db'" by (rule advances_save_cong [OF waiting(2,3)]) (simp_all add: moved_defs ok_facts_def)
  then show ?thesis using quiet_advances [OF waiting(1)] by (rule advances_trans [rotated])
next
  case (granted db1 p t)
  have "advances s db1 db'" by (rule advances_save [OF granted(2,4)]) (use granted(3) in \<open>simp_all add: moved_defs ok_defs\<close>)
  then show ?thesis using quiet_advances [OF granted(1)] by (rule advances_trans [rotated])
qed (rule quiet_advances)

lemma advances_begin_monitoring_read:
  assumes "begin_monitoring_read db k now config = Inr (db', call)"
  shows "advances s db db'"
proof -
  obtain r run where l: "lock_by_reservation db k = Inr (r, run)"
    and b: "db' = db \<or> (\<exists>f. save_columns db k f = Inr db')
      \<or> (\<exists>p db1 f. run = Some p \<and> save_run db (p\<lparr>pr_correction_reads := pr_correction_reads p + 1\<rparr>) = Inr db1 \<and> save_columns db1 k f = Inr db')"
    using assms unfolding begin_monitoring_read_def Let_def
    by (rule andThen_pair_InrE) (rule that, assumption, auto simp: andThen_eq_Inr split: if_split_asm option.split_asm)
  from b show ?thesis
  proof (elim disjE exE conjE)
    fix f
    assume "save_columns db k f = Inr db'"
    then show ?thesis by (rule quiet_advances [OF quiet_columns])
  next
    fix p db1 f
    assume run: "run = Some p" and sv: "save_run db (p\<lparr>pr_correction_reads := pr_correction_reads p + 1\<rparr>) = Inr db1"
      and c: "save_columns db1 k f = Inr db'"
    have p: "run_by_id db (pr_id p) = Some p" using lock_by_reservationD(2,4) [OF l] run by simp
    have "advances s db db1" by (rule advances_save_cong [OF p sv]) (simp_all add: moved_defs ok_facts_def)
    then show ?thesis using quiet_advances [OF quiet_columns [OF c]] by (rule advances_trans)
  qed simp
qed

lemma advances_perform:
  assumes "perform config now op db = Inr db'" and "one_poll_cap s config"
  shows "advances s db db'"
  using assms
proof (cases op)
  case ResolveStaleMarkers
  then have "db' = fst (resolve_stale_monitoring_markers db (instant_of now))" using assms by simp
  then have "quiet db db'" by (simp add: resolve_stale_eq quiet_def trip_keys_def)
  then show ?thesis by (rule quiet_advances)
qed (auto simp: andThen_eq_Inr intro: quiet_advances quiet_reserve quiet_record_run_usage quiet_bind_build quiet_plan_build_read
    quiet_record_build_usage quiet_release_unattached quiet_settle_operator quiet_complete_monitoring_read quiet_clear_latch
    advances_plan_settlement_read advances_begin_monitoring_read)

section \<open>The sweep of stranded rows\<close>

lemma advances_trip_orphans: "trip_orphans ks config now db = Inr db' \<Longrightarrow> quiet db db'"
proof (induction ks arbitrary: db)
  case (Cons k ks)
  then show ?case by (auto simp: andThen_eq_Inr intro: quiet.rel_trans [OF quiet_trip])
qed (simp add: quiet.rel_refl)

lemma mark_delete_failed_run:
  assumes "mark_delete_failed db p config now = Inr db'" and p: "run_by_id db k = Some p"
  shows "run_by_id db' j = (if j = k then Some (p\<lparr>pr_storage_state := STORAGE_DELETE_FAILED\<rparr>) else run_by_id db j)"
proof -
  have k: "pr_id p = k" using run_by_id_Some [OF p] by blast
  obtain db1 where m: "(if pr_storage_state p \<noteq> STORAGE_DELETE_FAILED
         then save_run db (p\<lparr>pr_storage_state := STORAGE_DELETE_FAILED\<rparr>) else Inr db) = Inr db1"
    and t: "trip DELETE_ATTEMPTS_EXHAUSTED (Some (pr_id p)) config now db1 = Inr db'"
    using assms(1) unfolding mark_delete_failed_def by (rule andThen_InrE)
  have "run_by_id db' j = run_by_id db1 j" using trip_tripped(1) [OF t] by (simp add: run_by_id_def)
  moreover have "run_by_id db1 j = (if j = k then Some (p\<lparr>pr_storage_state := STORAGE_DELETE_FAILED\<rparr>) else run_by_id db j)"
  proof (cases "pr_storage_state p = STORAGE_DELETE_FAILED")
    case True
    then show ?thesis using m p by auto
  next
    case False
    then have sv: "save_run db (p\<lparr>pr_storage_state := STORAGE_DELETE_FAILED\<rparr>) = Inr db1" using m by simp
    show ?thesis using run_by_id_save [OF sv, of p] p k by simp
  qed
  ultimately show ?thesis by simp
qed

lemma advances_mark_each:
  assumes "mark_each ks config now db = Inr db'"
    and "\<forall>k \<in> set ks. \<forall>p. run_by_id db k = Some p \<longrightarrow> pr_storage_state p \<noteq> STORAGE_DELETED"
  shows "advances s db db'"
  using assms
proof (induction ks arbitrary: db)
  case (Cons k ks)
  show ?case
  proof (cases "run_by_id db k")
    case None
    then show ?thesis using Cons by simp
  next
    case (Some p)
    obtain db1 where m: "mark_delete_failed db p config now = Inr db1" and rest: "mark_each ks config now db1 = Inr db'"
      using Cons.prems(1) Some by (auto simp: andThen_eq_Inr)
    have "advances s db db1" by (rule advances_mark_delete_failed [OF m Some]) (use Cons.prems(2) Some in simp)
    moreover have "advances s db1 db'"
      by (rule Cons.IH [OF rest]) (use Cons.prems(2) mark_delete_failed_run [OF m Some] in auto)
    ultimately show ?thesis by (rule advances_trans)
  qed
qed simp

lemma keys_where_run: "k \<in> set (keys_where P db) \<Longrightarrow> \<exists>p. run_by_id db k = Some p \<and> P p"
  by (auto simp: keys_where_def split: option.split_asm)

lemma advances_trip_stranded:
  assumes "trip_stranded_latches s config now db = Inr (db', ks)"
  shows "advances s db db'"
proof -
  consider "db' = db" | (swept) db1 db2 refused where "trip_orphans (stranded_orphans db) config now db = Inr db1"
    "mark_each (stranded_exhausted s db) config now db1 = Inr db2"
    "trip_stranded_start_refusals_locked (estimator_version (budget config)) now db2 = Inr (db', refused)"
    using assms unfolding trip_stranded_latches_def Let_def by (auto simp: andThen_eq_Inr split: if_split_asm)
  then show ?thesis
  proof cases
    case swept
    have q: "quiet db db1" by (rule advances_trip_orphans [OF swept(1)])
    have "\<forall>k \<in> set (stranded_exhausted s db). \<forall>p. run_by_id db1 k = Some p \<longrightarrow> pr_storage_state p \<noteq> STORAGE_DELETED"
      using q unfolding stranded_exhausted_def quiet_def run_by_id_def by (force dest: keys_where_run simp: run_by_id_def)
    then have "advances s db1 db2" by (rule advances_mark_each [OF swept(2)])
    then show ?thesis using quiet_advances [OF q] quiet_advances [OF quiet_trip_stranded [OF swept(3)]] advances_trans by blast
  qed simp
qed

section \<open>Transactions in any interleaving\<close>

text \<open>
  One committed transaction, labelled by what it was for and the run it was for. A flag says that it granted a
  call of the provider: a poll (\<open>PollCounted\<close>), a usage read for settlement (\<open>LedgerEvent\<close> of a planned read), an
  attempt to clean up (\<open>AttemptBegun\<close>), the abort of a mismatched start (\<open>StartRecorded\<close>). \<open>ReadsCounted\<close> always
  grants a read of the dataset and one of the key-value store.
\<close>

datatype job_event = LedgerEvent ledger_op bool | RunCreated int | StartErrorRecorded int | StartRecorded int bool | RunObserved int
  | LatchTripped latch_reason | ImportDecided int | ImportClaimed int | ReadsCounted int | ObservationsStored int
  | AbsenceStored int | ResolutionStored int | EvaluationStored int | ImportFinalized int | LatchBlockStored int
  | ExhaustionStored int | PollCounted int bool | BackedOff int | FailuresCleared int | AttemptBegun int bool | AttemptFinished int
  | StrandedTripped

fun grants_read :: "ledger_config \<Rightarrow> pydatetime \<Rightarrow> ledger_op \<Rightarrow> ledger_db \<Rightarrow> bool" where
  "grants_read config now (PlanSettlementRead k) db \<longleftrightarrow>
     (case plan_settlement_read db k (instant_of now) config of Inr (_, Some _) \<Rightarrow> True | _ \<Rightarrow> False)"
| "grants_read config now _ db \<longleftrightarrow> False"

inductive job_step :: "jobs_settings \<Rightarrow> ledger_config \<Rightarrow> ledger_db \<Rightarrow> job_event \<Rightarrow> ledger_db \<Rightarrow> bool"
  for s config where
  ledger: "perform config now op db = Inr db' \<Longrightarrow> job_step s config db (LedgerEvent op (grants_read config now op db)) db'"
| created: "create_run db (new_run r spec admitted_at due_at) reservation_id = Inr (Some (db', k)) \<Longrightarrow> job_step s config db (RunCreated k) db'"
| start_error: "record_start_error db k status = Inr db' \<Longrightarrow> job_step s config db (StartErrorRecorded k) db'"
| start: "record_start db k a mismatches t = Inr db' \<Longrightarrow> opt_all unstarted (run_by_id db k)
    \<Longrightarrow> job_step s config db (StartRecorded k (mismatches \<noteq> [])) db'"
| observed: "andThen (get_row (run_by_id db k)) (\<lambda>p. save_run db (observed_run p a t poll)) = Inr db'
    \<Longrightarrow> job_step s config db (RunObserved k) db'"
| tripped: "trip reason run config t db = Inr db' \<Longrightarrow> job_step s config db (LatchTripped reason) db'"
| rejected: "reject_import schedule db k reason only_from t = Inr db' \<Longrightarrow> job_step s config db (ImportDecided k) db'"
| claimed: "claim db k = Inr db' \<Longrightarrow> job_step s config db (ImportClaimed k) db'"
| reads_counted: "count_reads s db k = Inr db' \<Longrightarrow> job_step s config db (ReadsCounted k) db'"
| stage1: "commit_observations e db k = Inr db' \<Longrightarrow> job_step s config db (ObservationsStored k) db'"
| stage2: "stage2 e db k = Inr db' \<Longrightarrow> job_step s config db (AbsenceStored k) db'"
| stage3: "stage3 e db k = Inr db' \<Longrightarrow> job_step s config db (ResolutionStored k) db'"
| stage4: "stage4 e db k = Inr db' \<Longrightarrow> job_step s config db (EvaluationStored k) db'"
| stage5: "stage5 e db k = Inr db' \<Longrightarrow> job_step s config db (ImportFinalized k) db'"
| latch_block: "record_latch_block db k t = Inr db' \<Longrightarrow> job_step s config db (LatchBlockStored k) db'"
| exhaustion: "record_exhaustion db k t = Inr db' \<Longrightarrow> job_step s config db (ExhaustionStored k) db'"
| poll_counted: "count_poll s db k = Inr (db', run_id) \<Longrightarrow> job_step s config db (PollCounted k (run_id \<noteq> None)) db'"
| backed_off: "back_off db k t = Inr db' \<Longrightarrow> job_step s config db (BackedOff k) db'"
| cleared: "clear_failures db k = Inr db' \<Longrightarrow> job_step s config db (FailuresCleared k) db'"
| begun: "begin_attempt s config db k overdue t = Inr (db', att) \<Longrightarrow> job_step s config db (AttemptBegun k (att \<noteq> None)) db'"
| finished: "finish_attempt s config db k deleted errors t = Inr db' \<Longrightarrow> job_step s config db (AttemptFinished k) db'"
| stranded: "trip_stranded_latches s config t db = Inr (db', ks) \<Longrightarrow> job_step s config db StrandedTripped db'"

lemma advances_job_step:
  assumes "job_step s config db ev db'" and "one_poll_cap s config"
  shows "advances s db db'"
  using assms
proof (cases rule: job_step.cases)
  case (tripped reason run t)
  then show ?thesis by (rule_tac advances_trip)
qed (blast intro: advances_perform advances_create_run advances_start_error advances_record_start advances_observed
    advances_reject advances_claim advances_count_reads advances_commit_observations advances_stage2 advances_stage3 advances_stage4
    advances_stage5 advances_latch_block advances_exhaustion advances_count_poll advances_back_off advances_clear_failures
    advances_begin_attempt advances_finish_attempt advances_trip_stranded)+

interpretation history: invariant "job_step s config" "\<lambda>db. one_poll_cap s config \<longrightarrow> advances s origin db" for s config origin
  by unfold_locales (blast intro: advances_job_step advances_trans)

lemma job_steps_advance: "steps (job_step s config) db evs db' \<Longrightarrow> one_poll_cap s config \<Longrightarrow> advances s db db'"
  using history.steps_inv [of s config db evs db' db] by simp

lemma runs_ok_Nil: "runs db = [] \<Longrightarrow> runs_ok s db"
  by (simp add: runs_ok_def run_by_id_def)

lemma moved_row:
  assumes "steps (job_step s config) db evs db'" and "one_poll_cap s config" and "run_by_id db k = Some p"
  obtains p' where "run_by_id db' k = Some p'" and "moved_on p p'"
  using job_steps_advance [OF assms(1,2)] assms(3) unfolding advances_def by blast

lemma ok_row:
  assumes "steps (job_step s config) db evs db'" and "one_poll_cap s config" and "runs_ok s db" and "run_by_id db' k = Some p"
  shows "run_ok s (trip_keys db') p"
  using job_steps_advance [OF assms(1,2)] assms(3,4) unfolding advances_def runs_ok_def by blast

text \<open>C21: The work-completion anchor, from which every settlement clock counts, is set by whichever of the two
  barriers (import decided, storage verified deleted) commits second, exactly when both hold, and no later
  transaction moves it: in any interleaving of the transactions of start, poll, import, cleanup and the ledger.\<close>

theorem work_completion_is_anchored:
  assumes "steps (job_step s config) db evs db'" and "one_poll_cap s config" and "runs_ok s db" and "run_by_id db k = Some p"
  shows "\<exists>p'. run_by_id db' k = Some p' \<and> (pr_final_charge_op_at p \<noteq> None \<longrightarrow> pr_final_charge_op_at p' = pr_final_charge_op_at p)
     \<and> (pr_final_charge_op_at p' \<noteq> None \<longleftrightarrow>
          pr_import_state p' \<in> {IMPORT_FINALIZED, IMPORT_REJECTED} \<and> pr_storage_state p' = STORAGE_DELETED)"
proof -
  obtain p' where p': "run_by_id db' k = Some p'" "moved_on p p'" using assms(1,2,4) by (rule moved_row)
  have "anchored p'" using ok_row [OF assms(1-3) p'(1)] by (simp add: run_ok_def)
  then show ?thesis using p' by (auto simp: anchored_def TERMINAL_IMPORT_def moved_on_def once_def)
qed

text \<open>A decided import stays decided and only moves forward before that: whatever is interleaved, a finalized
  import is never rejected or re-imported, a rejected one keeps its rejection, and no stage is taken back.\<close>

theorem decided_imports_stay:
  assumes "steps (job_step s config) db evs db'" and "one_poll_cap s config" and "run_by_id db k = Some p"
  shows "\<exists>p'. run_by_id db' k = Some p' \<and> import_rank (pr_import_state p) \<le> import_rank (pr_import_state p')
     \<and> (pr_import_state p \<in> {IMPORT_FINALIZED, IMPORT_REJECTED} \<longrightarrow> pr_import_state p' = pr_import_state p)"
proof -
  obtain p' where p': "run_by_id db' k = Some p'" "moved_on p p'" using assms by (rule moved_row)
  have top: "import_rank st \<le> 5" for st by (cases st) simp_all
  have "import_forward p p'" using p'(2) by (simp add: moved_on_def)
  then show ?thesis using p'(1) top [of "pr_import_state p'"] unfolding import_forward_def by auto
qed

section \<open>Calls and their grants\<close>



















text \<open>A run that was given up on, as an orphaned start or with its storage undeleted, has tripped the
  overrun latch: no interleaving and no crash leaves it marked and untripped, because mark and trip commit together.\<close>

theorem given_up_runs_are_tripped:
  assumes "steps (job_step s config) db evs db'" and "one_poll_cap s config" and "runs db = []" and "run_by_id db' k = Some p"
    and "pr_orphaned_at p \<noteq> None \<or> pr_storage_state p = STORAGE_DELETE_FAILED"
  shows "\<exists>t \<in> set (trips db'). la_run t = Some k
     \<and> la_reason t = (if pr_orphaned_at p \<noteq> None then ORPHANED_START else DELETE_ATTEMPTS_EXHAUSTED)"
proof -
  have "marks_tripped (trip_keys db') p"
    using ok_row [OF assms(1,2) runs_ok_Nil [OF assms(3)] assms(4)] by (simp only: run_ok_def)
  moreover have "pr_id p = k" using run_by_id_Some [OF assms(4)] by blast
  moreover have "\<exists>t \<in> set (trips db'). la_run t = run \<and> la_reason t = reason" if "(reason, run) \<in> trip_keys db'" for reason run
    using that by (force simp: trip_keys_def)
  ultimately show ?thesis using assms(5) by (cases "pr_orphaned_at p = None") (simp_all add: marks_tripped_def)
qed

end
