(* ===== verification/ImportEnds.thy ===== *)
theory ImportEnds
  imports JobLife
begin

text \<open>
  The import loop ends: every stage that returns has moved the run forward, so six rounds suffice.
\<close>

section \<open>A stage that returns moved the run forward\<close>

lemma saved_run: "run_by_id db k = Some p \<Longrightarrow> save_run db p' = Inr db' \<Longrightarrow> pr_id p' = pr_id p \<Longrightarrow> run_by_id db' k = Some p'"
  using run_by_id_save [of db p' db' p k] run_by_id_Some [of db k p] by simp

definition at_rank :: "ledger_db \<Rightarrow> int \<Rightarrow> nat \<Rightarrow> bool" where
  "at_rank db k n \<longleftrightarrow> (\<exists>p. run_by_id db k = Some p \<and> import_rank (pr_import_state p) = n)"

lemma commit_observations_rank:
  assumes "commit_observations e db k = Inr db'"
  shows "at_rank db' k 1"
proof -
  obtain p ids where p: "run_by_id db k = Some p"
    and sv: "save_run db (p\<lparr>pr_listing_ids := ids, pr_import_state := OBSERVATIONS_COMMITTED\<rparr>) = Inr db'"
    using assms unfolding commit_observations_def by (elim lock_runE andThen_InrE) (simp add: that)
  show ?thesis using saved_run [OF p sv] by (simp add: at_rank_def)
qed

lemma advance_rank:
  assumes "advance db k expected next' = Inr db'"
  shows "at_rank db' k (import_rank next')"
proof -
  obtain p where p: "run_by_id db k = Some p" and sv: "save_run db (p\<lparr>pr_import_state := next'\<rparr>) = Inr db'"
    using assms unfolding advance_def by (elim lock_runE) (simp add: that)
  show ?thesis using saved_run [OF p sv] by (simp add: at_rank_def)
qed

lemma stage2_rank:
  assumes "stage2 e db k = Inr db'"
  shows "at_rank db' k 2"
proof -
  obtain p where p: "run_by_id db k = Some p" and sv: "save_run db (p\<lparr>pr_import_state := ABSENCE_APPLIED\<rparr>) = Inr db'"
    using assms unfolding stage2_def by (elim lock_runE andThen_InrE) (simp add: that)
  show ?thesis using saved_run [OF p sv] by (simp add: at_rank_def)
qed

lemma stage3_rank: "stage3 e db k = Inr db' \<Longrightarrow> at_rank db' k 3"
  unfolding stage3_def by (elim andThen_InrE) (drule advance_rank, simp)

lemma stage4_rank: "stage4 e db k = Inr db' \<Longrightarrow> at_rank db' k 4"
  unfolding stage4_def by (elim andThen_InrE) (drule advance_rank, simp)

lemma stage5_rank:
  assumes "stage5 e db k = Inr db'"
  shows "at_rank db' k 5"
proof -
  obtain p where p: "run_by_id db k = Some p"
    and sv: "save_run db (fst (stamp_work_completion (p\<lparr>pr_import_state := IMPORT_FINALIZED\<rparr>) (ie_end e))) = Inr db'"
    using assms unfolding stage5_def by (elim lock_runE andThen_InrE) (simp add: that)
  show ?thesis using saved_run [OF p sv] by (simp add: at_rank_def stamp_eq)
qed

lemma keep_db_Inr:
  assumes "keep_db db r f = (db', Inr u)"
  obtains db1 where "r = Inr db1" and "f db1 = (db', Inr u)"
  using assms by (cases r) (auto simp: keep_db_def)

lemma stage1_rank:
  assumes "stage1 st config e db p = (db', Inr u)"
  shows "at_rank db' (pr_id p) 1"
proof -
  obtain v f where "stage1_guard e p = Inr v" and "ie_fetch e = Inr f"
    using assms by (auto simp: stage1_def keep_db_def split: sum.split_asm)
  then have "\<exists>db1. andThen (ie_parse e) (\<lambda>_. commit_observations e db1 (pr_id p)) = Inr db'"
    using assms by (auto simp: stage1_def elim!: keep_db_Inr split: if_split_asm)
  then show ?thesis by (auto simp: andThen_eq_Inr dest: commit_observations_rank)
qed

lemma run_stage_rank:
  assumes "run_stage st config e db p = (db', Inr u)" and "pr_import_state p \<notin> set TERMINAL_IMPORT"
  shows "at_rank db' (pr_id p) (Suc (import_rank (pr_import_state p)))"
  using assms
  by (cases "pr_import_state p")
    (auto simp: run_stage_def Let_def TERMINAL_IMPORT_def elim!: keep_db_Inr
      dest: stage1_rank stage2_rank stage3_rank stage4_rank stage5_rank simp: numeral_eq_Suc)

section \<open>The loop\<close>

lemma terminal_rank: "import_rank st = 5 \<Longrightarrow> st \<in> set TERMINAL_IMPORT"
  by (cases st) (simp_all add: TERMINAL_IMPORT_def)

lemma import_loop_ends:
  assumes "at_rank db k m" and "5 < n + m"
  shows "\<exists>db' r. import_loop n st config e db k = Some (db', r)
     \<and> (case r of Inl stop \<Rightarrow> True | Inr _ \<Rightarrow> \<exists>p. run_by_id db' k = Some p \<and> pr_import_state p \<in> set TERMINAL_IMPORT)"
  using assms
proof (induction n arbitrary: db m)
  case 0
  have "import_rank s \<le> 5" for s by (cases s) simp_all
  then show ?case using 0 unfolding at_rank_def by (metis add_0 not_less)
next
  case (Suc n)
  then obtain p where p: "run_by_id db k = Some p" and m: "import_rank (pr_import_state p) = m" by (auto simp: at_rank_def)
  have k: "pr_id p = k" using run_by_id_Some [OF p] by blast
  show ?case
  proof (cases "pr_import_state p \<in> set TERMINAL_IMPORT")
    case True
    then show ?thesis using p by simp
  next
    case False
    obtain db1 r where s: "run_stage st config e db p = (db1, r)" by fastforce
    show ?thesis
    proof (cases r)
      case (Inl stop)
      then show ?thesis using p False s by simp
    next
      case (Inr u)
      have "at_rank db1 k (Suc m)" using run_stage_rank [of st config e db p db1 u] s False unfolding Inr k m by simp
      then show ?thesis using Suc.IH [of db1 "Suc m"] Suc.prems(2) p False s Inr by simp
    qed
  qed
qed

text \<open>C23: An import ends: six rounds of its loop always suffice, whatever state the run is in and whatever the
  stages meet, and a loop that ends without stopping has decided the import. A run is never re-read forever
  within one invocation.\<close>

theorem import_always_ends:
  "\<exists>db' r. import_loop 6 s config e db k = Some (db', r)
     \<and> (case r of Inl stop \<Rightarrow> True
        | Inr _ \<Rightarrow> \<exists>p. run_by_id db' k = Some p \<and> pr_import_state p \<in> {IMPORT_FINALIZED, IMPORT_REJECTED})"
proof (cases "run_by_id db k")
  case None
  have "import_loop (Suc 5) s config e db k = Some (db, Inl (Crashed NoSuchRow))"
    by (subst import_loop.simps) (simp add: None)
  then show ?thesis by (simp add: numeral_eq_Suc)
next
  case (Some p)
  then have "at_rank db k (import_rank (pr_import_state p))" by (simp add: at_rank_def)
  moreover have "set TERMINAL_IMPORT = {IMPORT_FINALIZED, IMPORT_REJECTED}" by (simp add: TERMINAL_IMPORT_def)
  ultimately show ?thesis using import_loop_ends [of db k _ 6 s config e] by (simp only:)
qed

end
