(* ===== verification/JobSafety.thy ===== *)
theory JobSafety
  imports ImportEnds
begin

text \<open>
  Storage cleanup: a delete needs terminal evidence; an over-cap answer trips nothing, and a transport failure
  between two deletes loses what the first one did.
\<close>

section \<open>What a transaction adds to the trips\<close>

lemma trip_keys_trip:
  assumes "trip reason run config now db = Inr db'"
  shows "trip_keys db' = insert (reason, run) (trip_keys db)"
proof -
  obtain created where t: "trip_latch_locked reason run (estimator_version (budget config)) now db = Inr (db', created)"
    using assms by (auto simp: trip_def andThen_eq_Inr)
  then show ?thesis
  proof (cases rule: trip_latch_locked_cases)
    case already
    then show ?thesis using trip_tripped(3) [OF assms] by auto
  next
    case (tripped t)
    then show ?thesis by (auto simp: trip_keys_def)
  qed
qed

text \<open>No trip of a given reason is added.\<close>

definition same_trips_for :: "latch_reason \<Rightarrow> ledger_db \<Rightarrow> ledger_db \<Rightarrow> bool" where
  "same_trips_for reason db db' \<longleftrightarrow> {x \<in> trip_keys db'. fst x = reason} = {x \<in> trip_keys db. fst x = reason}"

interpretation untripped: effect "same_trips_for reason" for reason
  by unfold_locales (simp_all add: same_trips_for_def)

lemma same_trips_trip: "trip reason run config now db = Inr db' \<Longrightarrow> reason \<noteq> reason' \<Longrightarrow> same_trips_for reason' db db'"
  by (auto simp: same_trips_for_def trip_keys_trip)

lemma same_trips_save: "save_run db p = Inr db' \<Longrightarrow> same_trips_for reason db db'"
  by (simp add: save_run_eq_Inr same_trips_for_def trip_keys_def)

lemma same_trips_mark_failed:
  assumes "mark_delete_failed db p config now = Inr db'" and "reason \<noteq> DELETE_ATTEMPTS_EXHAUSTED"
  shows "same_trips_for reason db db'"
proof -
  obtain db1 where s: "(if pr_storage_state p \<noteq> STORAGE_DELETE_FAILED
         then save_run db (p\<lparr>pr_storage_state := STORAGE_DELETE_FAILED\<rparr>) else Inr db) = Inr db1"
    and t: "trip DELETE_ATTEMPTS_EXHAUSTED (Some (pr_id p)) config now db1 = Inr db'"
    using assms(1) unfolding mark_delete_failed_def by (rule andThen_InrE)
  have "same_trips_for reason db db1" using s by (auto split: if_split_asm intro: same_trips_save untripped.rel_refl)
  moreover have "same_trips_for reason db1 db'" using t assms(2) by (intro same_trips_trip) auto
  ultimately show ?thesis by (rule untripped.rel_trans)
qed

lemma same_trips_begin:
  assumes "begin_attempt s config db k overdue now = Inr (db', att)"
    and "reason \<noteq> ORPHANED_START" and "reason \<noteq> DELETE_ATTEMPTS_EXHAUSTED"
  shows "same_trips_for reason db db'"
proof -
  have "db' = db \<or> (\<exists>p. save_run db p = Inr db') \<or> (\<exists>p. mark_delete_failed db p config now = Inr db')
     \<or> (\<exists>p db1. save_run db p = Inr db1 \<and> trip ORPHANED_START (Some k) config now db1 = Inr db')"
    using assms(1) unfolding begin_attempt_def
    by (elim get_runE) (auto simp: andThen_eq_Inr split: if_split_asm option.split_asm)
  then show ?thesis
    using assms(2,3) same_trips_save same_trips_mark_failed same_trips_trip untripped.rel_trans untripped.rel_refl by metis
qed

lemma same_trips_finish:
  assumes "finish_attempt s config db k deleted errors now = Inr db'" and "reason \<noteq> DELETE_ATTEMPTS_EXHAUSTED"
  shows "same_trips_for reason db db'"
proof -
  have "(\<exists>p. save_run db p = Inr db') \<or> (\<exists>p q db1. save_run db p = Inr db1 \<and> (db' = db1 \<or> mark_delete_failed db1 q config now = Inr db'))"
    using assms(1) unfolding finish_attempt_def Let_def
    by (elim get_runE) (auto simp: andThen_eq_Inr split: if_split_asm)
  then show ?thesis
    using assms(2) same_trips_save same_trips_mark_failed untripped.rel_trans untripped.rel_refl by metis
qed

text \<open>C28: A defect: an answer over its byte cap is a latch trip wherever a unit of the tick makes the call, but
  the storage units catch it like any other client error. An attempt whose abort and confirming read are answered
  over the cap trips no \<open>api_response_over_cap\<close>, whatever its deletes are answered and whatever else it does.\<close>

theorem over_cap_cleanup_trips_nothing:
  assumes "cw_abort w = Inl API_RESPONSE_TOO_LARGE" and "cw_read w = Inl API_RESPONSE_TOO_LARGE"
    and "attempt_cleanup s config overdue w db k = (db', r)"
  shows "{t. t \<in> trip_keys db' \<and> fst t = API_RESPONSE_OVER_CAP} = {t. t \<in> trip_keys db \<and> fst t = API_RESPONSE_OVER_CAP}"
proof -
  let ?rel = "same_trips_for API_RESPONSE_OVER_CAP"
  have f: "?rel db1 (fst (commit db1 (finish_attempt s config db1 k deleted errors (cw_finish_at w)) (\<lambda>db. (db, Inr ()))))"
    for db1 deleted errors
    by (rule untripped.rel_commit) (auto intro: same_trips_finish untripped.rel_refl)
  have c: "confirm_terminal config db1 k w = (db1, Inr [AbortFailed API_RESPONSE_TOO_LARGE, ReadFailed API_RESPONSE_TOO_LARGE])" for db1
    using assms(1,2) by (simp add: confirm_terminal_def is_apify_error_def API_RESPONSE_TOO_LARGE_def)
  have j: "?rel db1 (fst (if at_observed_terminal a then (db1, Inr []) else confirm_terminal config db1 k w))" for a db1
    by (simp add: c untripped.rel_refl)
  have "?rel db (fst (attempt_cleanup s config overdue w db k))"
    unfolding attempt_cleanup_def
  proof (rule untripped.rel_txn)
    show "?rel db db1" if "begin_attempt s config db k overdue (cw_begin_at w) = Inr (db1, att)" for db1 att
      using that by (rule same_trips_begin) simp_all
  next
    fix db1 :: ledger_db and att :: "attempt option"
    show "?rel db1 (fst (case att of None \<Rightarrow> (db1, Inr ())
     | Some a \<Rightarrow>
         followed_by (if at_observed_terminal a then (db1, Inr []) else confirm_terminal config db1 k w) (\<lambda>db errors.
         if errors \<noteq> [] then commit db (finish_attempt s config db k [] errors (cw_finish_at w)) (\<lambda>db. (db, Inr ()))
         else (case run_by_id db k of
             None \<Rightarrow> (db, Inl NoSuchRow)
           | Some p \<Rightarrow>
               (case delete_pending s w p (at_pending a) of
                  Inl e \<Rightarrow> (db, Inl (CallError e))
                | Inr (deleted, errors) \<Rightarrow>
                    commit db (finish_attempt s config db k deleted errors (cw_finish_at w)) (\<lambda>db. (db, Inr ())))))))"
    proof (cases att)
      case (Some a)
      show ?thesis
        unfolding Some option.case
        by (rule untripped.rel_followed_by [OF j]) (auto intro: f untripped.rel_refl split: option.split prod.split sum.split)
    qed (simp add: untripped.rel_refl)
  qed
  then show ?thesis using assms(3) by (simp add: same_trips_for_def)
qed

section \<open>Deletes need terminal evidence\<close>

text \<open>The columns an attempt reads, kept by a transaction.\<close>

definition same_verified :: "int \<Rightarrow> ledger_db \<Rightarrow> ledger_db \<Rightarrow> bool" where
  "same_verified k db db' \<longleftrightarrow> map_option pr_verified_deleted (run_by_id db' k) = map_option pr_verified_deleted (run_by_id db k)"

interpretation verified: effect "same_verified k" for k
  by unfold_locales (simp_all add: same_verified_def)

lemma same_verified_runs: "runs db' = runs db \<Longrightarrow> same_verified k db db'"
  by (simp add: same_verified_def run_by_id_def)

lemma same_verified_save:
  assumes "run_by_id db k = Some p" and "save_run db p' = Inr db'" and "pr_id p' = pr_id p"
    and "pr_verified_deleted p' = pr_verified_deleted p"
  shows "same_verified k db db'"
  using saved_run [OF assms(1-3)] assms(1,4) by (simp add: same_verified_def)

lemma observed_run_fields:
  "pr_id (observed_run p a t poll) = pr_id p" "pr_verified_deleted (observed_run p a t poll) = pr_verified_deleted p"
  by (simp_all add: observed_run_def apply_run_fields_def Let_def)

lemma observed_terminal:
  "terminal_status (Some (ap_status a)) \<Longrightarrow> terminal_status (pr_remote_status (observed_run p a t poll))"
  by (simp add: observed_run_def apply_run_fields_def Let_def)

lemma record_observation_row:
  assumes "record_observation config db k a t poll = (db', Inr u)" and "run_by_id db k = Some p"
  shows "run_by_id db' k = Some (observed_run p a t poll)"
proof -
  obtain db1 where sv: "save_run db (observed_run p a t poll) = Inr db1" and r: "runs db' = runs db1"
    using assms trip_tripped(1)
    by (auto simp: record_observation_def commit_def andThen_eq_Inr split: sum.split_asm if_split_asm)
  show ?thesis using saved_run [OF assms(2) sv] r by (simp add: observed_run_fields run_by_id_def)
qed

lemma confirmed_row:
  assumes "confirm_terminal config db k w = (db', Inr [])" and "run_by_id db k = Some p"
  shows "\<exists>q. run_by_id db' k = Some q \<and> pr_verified_deleted q = pr_verified_deleted p \<and> terminal_status (pr_remote_status q)"
proof -
  have read: "\<exists>q. run_by_id db' k = Some q \<and> pr_verified_deleted q = pr_verified_deleted p \<and> terminal_status (pr_remote_status q)"
    if "(case cw_read w of
        Inl e \<Rightarrow> if is_apify_error e then (db1, Inr (errors @ [ReadFailed e])) else (db1, Inl (CallError e))
      | Inr a \<Rightarrow> followed_by (record_observation config db1 k a (cw_read_at w) False) (\<lambda>db _.
          (db, Inr (if terminal_status (Some (ap_status a)) then [] else errors @ [ReadNonTerminal])))) = (db', Inr [])"
      and p1: "run_by_id db1 k = Some p1" and "pr_verified_deleted p1 = pr_verified_deleted p" for db1 errors p1
  proof -
    note rd = that(1)
    obtain a where a: "cw_read w = Inr a" using rd by (cases "cw_read w") (auto split: if_split_asm)
    obtain db2 r where j: "record_observation config db1 k a (cw_read_at w) False = (db2, r)" by fastforce
    obtain u where o: "record_observation config db1 k a (cw_read_at w) False = (db', Inr u)" and t: "terminal_status (Some (ap_status a))"
      using rd unfolding a sum.case j by (cases r) (auto simp: followed_by_def j split: if_split_asm)
    show ?thesis using record_observation_row [OF o p1] observed_terminal [OF t] that(3) by (simp add: observed_run_fields)
  qed
  show ?thesis
  proof (cases "cw_abort w")
    case (Inl e)
    then have "is_apify_error e" using assms(1) by (rule_tac ccontr) (simp add: confirm_terminal_def)
    then show ?thesis using Inl assms by (intro read) (simp_all add: confirm_terminal_def)
  next
    case (Inr a)
    obtain db1 u where o: "record_observation config db k a (cw_abort_at w) False = (db1, Inr u)"
      and rest: "(if terminal_status (Some (ap_status a)) then (db1, Inr [])
        else case cw_read w of
          Inl e \<Rightarrow> if is_apify_error e then (db1, Inr ([AbortNonTerminal] @ [ReadFailed e])) else (db1, Inl (CallError e))
        | Inr a \<Rightarrow> followed_by (record_observation config db1 k a (cw_read_at w) False) (\<lambda>db _.
            (db, Inr (if terminal_status (Some (ap_status a)) then [] else [AbortNonTerminal] @ [ReadNonTerminal])))) = (db', Inr [])"
      using assms(1) unfolding confirm_terminal_def Inr Let_def sum.case followed_by_def
      by (auto simp: followed_by_def split: prod.split_asm sum.split_asm)
    note row = record_observation_row [OF o assms(2)]
    show ?thesis
    proof (cases "terminal_status (Some (ap_status a))")
      case True
      then have "db' = db1" using rest by simp
      then show ?thesis using row observed_terminal [OF True] by (simp add: observed_run_fields)
    next
      case False
      then show ?thesis using rest by (intro read [OF _ row]) (simp_all add: observed_run_fields)
    qed
  qed
qed

lemma begin_attempt_row:
  assumes "begin_attempt s config db k overdue now = Inr (db', att)" and "run_by_id db k = Some p"
  shows "\<exists>q. run_by_id db' k = Some q \<and> pr_verified_deleted q = pr_verified_deleted p \<and> pr_remote_status q = pr_remote_status p"
    and "att = Some a \<Longrightarrow> at_observed_terminal a = terminal_status (pr_remote_status p)"
proof -
  have d: "(if pr_storage_state p = STORAGE_DELETED \<or> pr_orphaned_at p \<noteq> None then Inr (db, None)
     else case pr_external_id p of
       None \<Rightarrow>
         if overdue then
           andThen (save_run db (p\<lparr>pr_orphaned_at := Some now\<rparr>)) (\<lambda>db.
           andThen (trip ORPHANED_START (Some k) config now db) (\<lambda>db. Inr (db, None)))
         else Inr (db, None)
     | Some run_id \<Rightarrow>
         if \<not> overdue \<and> \<not> terminal_status (pr_remote_status p) then Inr (db, None)
         else if js_max_delete_attempts s \<le> int (pr_cleanup_attempts p)
         then andThen (mark_delete_failed db p config now) (\<lambda>db. Inr (db, None))
         else andThen (save_run db (p\<lparr>pr_cleanup_attempts := pr_cleanup_attempts p + 1\<rparr>)) (\<lambda>db.
              Inr (db, Some \<lparr>at_run_id = run_id, at_observed_terminal = terminal_status (pr_remote_status p),
                at_pending = filter (\<lambda>x. x \<notin> set (pr_verified_deleted p)) all_storages\<rparr>))) = Inr (db', att)"
    using assms by (simp only: begin_attempt_def get_row_simps andThen_Inr)
  from d show "att = Some a \<Longrightarrow> at_observed_terminal a = terminal_status (pr_remote_status p)"
    by (auto simp: andThen_eq_Inr split: if_split_asm option.split_asm)
  from d consider "db' = db" | (orphan) db1 where "save_run db (p\<lparr>pr_orphaned_at := Some now\<rparr>) = Inr db1"
        "trip ORPHANED_START (Some k) config now db1 = Inr db'"
    | (failed) "mark_delete_failed db p config now = Inr db'"
    | (counted) "save_run db (p\<lparr>pr_cleanup_attempts := pr_cleanup_attempts p + 1\<rparr>) = Inr db'"
    by (auto simp: andThen_eq_Inr split: if_split_asm option.split_asm)
  then show "\<exists>q. run_by_id db' k = Some q \<and> pr_verified_deleted q = pr_verified_deleted p \<and> pr_remote_status q = pr_remote_status p"
  proof cases
    case orphan
    have "run_by_id db' k = run_by_id db1 k" using trip_tripped(1) [OF orphan(2)] by (simp add: run_by_id_def)
    then show ?thesis using saved_run [OF assms(2) orphan(1)] by simp
  next
    case failed
    show ?thesis using mark_delete_failed_run [OF failed assms(2)] by simp
  next
    case counted
    show ?thesis using saved_run [OF assms(2) counted] by simp
  qed (use assms(2) in simp)
qed

lemma finish_attempt_row:
  assumes "finish_attempt s config db k deleted errors now = Inr db'" and p: "run_by_id db k = Some p"
  shows "\<exists>q. run_by_id db' k = Some q \<and> set (pr_verified_deleted q) = set (pr_verified_deleted p) \<union> set deleted
     \<and> pr_remote_status q = pr_remote_status p \<and> storage_id_of q = storage_id_of p"
proof -
  let ?ok = "\<lambda>q. set (pr_verified_deleted q) = set (pr_verified_deleted p) \<union> set deleted
     \<and> pr_remote_status q = pr_remote_status p \<and> pr_dataset_id q = pr_dataset_id p \<and> pr_kv_store_id q = pr_kv_store_id p
     \<and> pr_id q = pr_id p"
  let ?v = "verify_deleted p deleted"
  have v: "?ok ?v" by (simp add: set_verified) (simp add: verify_deleted_def)
  have done': "?ok (fst (stamp_work_completion (?v\<lparr>pr_cleanup_errors := None, pr_storage_state := STORAGE_DELETED, pr_storage_deleted_at := Some now\<rparr>) now))"
    unfolding stamp_eq using v by simp
  have retry: "?ok (?v\<lparr>pr_cleanup_errors := Some errors, pr_next_attempt_at := n\<rparr>)" for n
    using v by simp
  have failed: "?ok (q\<lparr>pr_storage_state := STORAGE_DELETE_FAILED\<rparr>)" if "?ok q" for q :: provider_run
    using that by simp
  have d: "(let p = ?v in
     if set all_storages \<subseteq> set (pr_verified_deleted p)
     then save_run db (fst (stamp_work_completion
            (p\<lparr>pr_cleanup_errors := None, pr_storage_state := STORAGE_DELETED, pr_storage_deleted_at := Some now\<rparr>) now))
     else andThen (retry_delay (pr_cleanup_attempts p)) (\<lambda>delay.
          andThen (date_add now delay) (\<lambda>t.
          let p = p\<lparr>pr_cleanup_errors := Some errors, pr_next_attempt_at := Some t\<rparr> in
          andThen (save_run db p) (\<lambda>db.
          if pr_storage_state p \<noteq> STORAGE_DELETED \<and> js_max_delete_attempts s \<le> int (pr_cleanup_attempts p)
          then mark_delete_failed db p config now else Inr db)))) = Inr db'"
    using assms by (simp only: finish_attempt_def get_row_simps andThen_Inr)
  obtain q db1 where q: "?ok q" "save_run db q = Inr db1" and out: "db' = db1 \<or> mark_delete_failed db1 q config now = Inr db'"
  proof (cases "set all_storages \<subseteq> set (pr_verified_deleted ?v)")
    case True
    then have "save_run db (fst (stamp_work_completion (?v\<lparr>pr_cleanup_errors := None, pr_storage_state := STORAGE_DELETED,
        pr_storage_deleted_at := Some now\<rparr>) now)) = Inr db'" using d by (simp only: Let_def if_True)
    then show ?thesis using that done' by blast
  next
    case False
    let ?r = "\<lambda>t. ?v\<lparr>pr_cleanup_errors := Some errors, pr_next_attempt_at := Some t\<rparr>"
    obtain t db1 where sv: "save_run db (?r t) = Inr db1"
      and rest: "(if pr_storage_state (?r t) \<noteq> STORAGE_DELETED \<and> js_max_delete_attempts s \<le> int (pr_cleanup_attempts (?r t))
          then mark_delete_failed db1 (?r t) config now else Inr db1) = Inr db'"
      using d False by (simp only: Let_def if_False) (elim andThen_InrE, rule that)
    have "db' = db1 \<or> mark_delete_failed db1 (?r t) config now = Inr db'"
      using rest by (simp only: split: if_split_asm) auto
    then show ?thesis using that [OF retry sv] by blast
  qed
  have row: "run_by_id db1 k = Some q" using saved_run [OF p q(2)] q(1) by simp
  have ids: "storage_id_of r = storage_id_of p" if "?ok r" for r :: provider_run
    using that by (auto simp: storage_id_of_def fun_eq_iff split: storage.split)
  from out show ?thesis
  proof
    assume m: "mark_delete_failed db1 q config now = Inr db'"
    show ?thesis using mark_delete_failed_run [OF m row, of k] failed [OF q(1)] ids [OF failed [OF q(1)]] by simp
  qed (use row q(1) ids [OF q(1)] in simp)
qed

lemma deleted_pending:
  "delete_pending s w p xs = Inr (deleted, errors) \<Longrightarrow> \<forall>x \<in> set deleted. delete_storage s w x (storage_id_of p x) = Inr None"
  by (induction xs arbitrary: deleted errors) (auto simp: andThen_eq_Inr split: option.split_asm)

text \<open>C22: A storage is recorded as deleted only on evidence: the run was observed terminal (before or during the
  attempt), the row knows the storage's id, and the client reported it deleted, or absent where the
  configuration trusts a 404. An attempt without terminal evidence deletes nothing.\<close>

theorem deletes_need_terminal_evidence:
  assumes "attempt_cleanup s config overdue w db k = (db', r)" and "run_by_id db k = Some p" and "run_by_id db' k = Some p'"
    and "x \<in> set (pr_verified_deleted p')" and "x \<notin> set (pr_verified_deleted p)"
  shows "terminal_status (pr_remote_status p') \<and> storage_id_of p' x \<noteq> None
     \<and> (cw_delete w x = Inr False \<or> cw_delete w x = Inr True \<and> js_404_is_absent s)"
proof -
  obtain db1 att where b: "begin_attempt s config db k overdue (cw_begin_at w) = Inr (db1, att)"
    using assms by (auto simp: attempt_cleanup_def txn_def split: sum.split_asm)
  obtain p1 where p1: "run_by_id db1 k = Some p1" "pr_verified_deleted p1 = pr_verified_deleted p" "pr_remote_status p1 = pr_remote_status p"
    using begin_attempt_row(1) [OF b assms(2)] by blast
  obtain a where a: "att = Some a" using assms b p1 by (cases att) (auto simp: attempt_cleanup_def txn_def)
  have trm: "at_observed_terminal a = terminal_status (pr_remote_status p)" by (rule begin_attempt_row(2) [OF b assms(2) a])
  let ?j = "if at_observed_terminal a then (db1, Inr []) else confirm_terminal config db1 k w"
  let ?rest = "\<lambda>db errors. if errors \<noteq> [] then commit db (finish_attempt s config db k [] errors (cw_finish_at w)) (\<lambda>db. (db, Inr ()))
         else (case run_by_id db k of
             None \<Rightarrow> (db, Inl NoSuchRow)
           | Some p \<Rightarrow>
               (case delete_pending s w p (at_pending a) of
                  Inl e \<Rightarrow> (db, Inl (CallError e))
                | Inr (deleted, errors) \<Rightarrow>
                    commit db (finish_attempt s config db k deleted errors (cw_finish_at w)) (\<lambda>db. (db, Inr ()))))"
  have rest: "followed_by ?j ?rest = (db', r)"
    using assms(1) b by (simp only: attempt_cleanup_def txn_def sum.case prod.case option.case a)
  obtain db2 jr where j: "?j = (db2, jr)" by fastforce
  have "same_verified k db1 (fst (confirm_terminal config db1 k w))"
  proof -
    have o: "same_verified k db (fst (record_observation config db k c t poll))" for db c t poll
      unfolding record_observation_def
    proof (rule verified.rel_commit)
      fix db1
      assume "andThen (get_row (run_by_id db k)) (\<lambda>p. save_run db (observed_run p c t poll)) = Inr db1"
      then show "same_verified k db db1" by (rule get_runE) (erule (1) same_verified_save, simp_all add: observed_run_fields)
      have "same_verified k db1 (fst (commit db1 (trip START_OPTION_MISMATCH (Some k) config t db1) (\<lambda>db. (db, Inr ()))))"
        by (rule verified.rel_commit) (auto intro: same_verified_runs trip_tripped(1) verified.rel_refl)
      then show "same_verified k db1 (fst (if ap_restart_count c \<in> {None, Some 0} then (db1, Inr ())
          else commit db1 (trip START_OPTION_MISMATCH (Some k) config t db1) (\<lambda>db. (db, Inr ()))))"
        by (simp add: verified.rel_refl)
    qed
    show ?thesis
      unfolding confirm_terminal_def Let_def
      by (auto intro!: verified.rel_followed_by o simp: verified.rel_refl split: sum.split)
  qed
  then have "same_verified k db1 db2" using j by (auto simp: verified.rel_refl split: if_split_asm)
  then obtain p2 where p2: "run_by_id db2 k = Some p2" "pr_verified_deleted p2 = pr_verified_deleted p"
    using p1 by (auto simp: same_verified_def)
  show ?thesis
  proof (cases "jr = Inr []")
    case False
    have "db' = db2 \<or> (\<exists>errors. finish_attempt s config db2 k [] errors (cw_finish_at w) = Inr db')"
      using rest False unfolding j by (auto simp: followed_by_def commit_def split: sum.split_asm)
    then have "set (pr_verified_deleted p') = set (pr_verified_deleted p)"
      using finish_attempt_row [OF _ p2(1)] assms(3) p2 by fastforce
    then show ?thesis using assms(4,5) by simp
  next
    case True
    have t2: "terminal_status (pr_remote_status p2)"
      using j True trm p1 p2 confirmed_row [of config db1 k w db2 p1] by (auto split: if_split_asm)
    obtain deleted errors where del: "delete_pending s w p2 (at_pending a) = Inr (deleted, errors)"
      and fin: "finish_attempt s config db2 k deleted errors (cw_finish_at w) = Inr db'"
    proof (cases "delete_pending s w p2 (at_pending a)")
      case (Inl e)
      then have "db' = db2" using rest unfolding j True by (simp add: followed_by_def p2(1))
      then show ?thesis using assms(3-5) p2 by auto
    next
      case (Inr y)
      obtain deleted errors where y: "y = (deleted, errors)" by (cases y)
      have "db' = db2 \<or> finish_attempt s config db2 k deleted errors (cw_finish_at w) = Inr db'"
        using rest unfolding j True by (auto simp: followed_by_def commit_def p2(1) Inr y split: sum.split_asm)
      then show ?thesis using that [of deleted errors] assms(3-5) p2 Inr y by auto
    qed
    obtain q where q: "run_by_id db' k = Some q" "set (pr_verified_deleted q) = set (pr_verified_deleted p2) \<union> set deleted"
      "pr_remote_status q = pr_remote_status p2" "storage_id_of q = storage_id_of p2"
      using finish_attempt_row [OF fin p2(1)] by blast
    have "x \<in> set deleted" using assms(3-5) q(1,2) p2(2) by auto
    then have "delete_storage s w x (storage_id_of p2 x) = Inr None" using deleted_pending [OF del] by blast
    then have "storage_id_of p2 x \<noteq> None \<and> (cw_delete w x = Inr False \<or> cw_delete w x = Inr True \<and> js_404_is_absent s)"
      by (auto simp: delete_storage_def split: option.split_asm sum.split_asm if_split_asm)
    then show ?thesis using t2 q assms(3) by simp
  qed
qed

section \<open>Lost progress\<close>

text \<open>C26: A defect: the progress of an attempt is lost when the transport, and not the API, fails between its two
  deletes. The dataset was deleted, but the exception leaves the attempt before it is recorded: the row counts one
  more attempt and is otherwise as before, so the next attempt deletes the dataset again, is answered 404, and while
  a 404 is not trusted the storage is never verified deleted.\<close>

theorem transport_failure_loses_progress:
  assumes "run_by_id db k = Some p" and "pr_storage_state p \<noteq> STORAGE_DELETED" and "pr_orphaned_at p = None"
    and "pr_external_id p = Some rid" and "terminal_status (pr_remote_status p)"
    and "int (pr_cleanup_attempts p) < js_max_delete_attempts s" and "pr_verified_deleted p = []"
    and "pr_dataset_id p = Some d" and "pr_kv_store_id p = Some v"
    and "cw_delete w DATASET = Inr False" and "cw_delete w KV_STORE = Inl (TransportError t)"
    and "attempt_cleanup s config overdue w db k = (db', r)" and "save_run db (p\<lparr>pr_cleanup_attempts := pr_cleanup_attempts p + 1\<rparr>) = Inr db1"
  shows "r = Inl (CallError (TransportError t)) \<and> run_by_id db' k = Some (p\<lparr>pr_cleanup_attempts := pr_cleanup_attempts p + 1\<rparr>)
     \<and> (\<forall>w'. cw_delete w' DATASET = Inr True \<longrightarrow> \<not> js_404_is_absent s \<longrightarrow>
          delete_storage s w' DATASET (pr_dataset_id p) = Inr (Some (AbsentNotTrusted DATASET)))"
proof -
  let ?q = "p\<lparr>pr_cleanup_attempts := pr_cleanup_attempts p + 1\<rparr>"
  have b: "begin_attempt s config db k overdue (cw_begin_at w)
      = Inr (db1, Some \<lparr>at_run_id = rid, at_observed_terminal = True, at_pending = [DATASET, KV_STORE]\<rparr>)"
    using assms(1-7,13) by (simp add: begin_attempt_def all_storages_def)
  have q: "run_by_id db1 k = Some ?q" using saved_run [OF assms(1,13)] by simp
  have "delete_pending s w ?q [DATASET, KV_STORE] = Inl (TransportError t)"
    using assms(8-11) by (simp add: delete_storage_def storage_id_of_def is_apify_error_def)
  then have "db' = db1" "r = Inl (CallError (TransportError t))"
    using assms(12) by (simp_all add: attempt_cleanup_def txn_def b followed_by_def q)
  then show ?thesis using q assms(8) by (simp add: delete_storage_def)
qed

end
