(* ===== verification/TickSafety.thy ===== *)
theory TickSafety
  imports JobSafety
begin

text \<open>
  The start job, the sweep of stranded rows and the tick: what a started run rests on, what a mismatched start
  leaves behind, that the sweep leaves nothing stranded and undoes no reset, and what stops a tick.
\<close>

section \<open>Starts\<close>

lemma record_start_row:
  assumes "record_start db k a mismatches now = Inr db'"
  shows "\<exists>p q. run_by_id db k = Some p \<and> run_by_id db' k = Some q \<and> pr_external_id q = Some (ap_id a)
     \<and> admitted_facts q = admitted_facts p \<and> pr_start_mismatch q = (if mismatches = [] then pr_start_mismatch p else mismatches)
     \<and> reservations db' = reservations db"
proof -
  let ?q = "\<lambda>p. apply_run_fields (p\<lparr>pr_external_id := Some (ap_id a), pr_key := Some (''apify:'' @ ap_id a),
      pr_build_id := ap_build_id a, pr_build_number := ap_build_number a, pr_dataset_id := ap_dataset_id a,
      pr_kv_store_id := ap_kv_store_id a\<rparr>) a now"
  let ?f = "\<lambda>p. if mismatches = [] then p
      else p\<lparr>pr_start_mismatch := mismatches, pr_cleanup_attempts := pr_cleanup_attempts p + 1\<rparr>"
  obtain p where p: "run_by_id db k = Some p" and sv: "save_run db (?f (?q p)) = Inr db'"
    using assms unfolding record_start_def Let_def by (rule get_runE)
  have q: "admitted_facts (?q p) = admitted_facts p \<and> pr_external_id (?q p) = Some (ap_id a) \<and> pr_start_mismatch (?q p) = pr_start_mismatch p"
    by (simp add: apply_run_fields_def Let_def admitted_facts_def)
  have f: "admitted_facts (?f x) = admitted_facts x \<and> pr_external_id (?f x) = pr_external_id x
      \<and> pr_start_mismatch (?f x) = (if mismatches = [] then pr_start_mismatch x else mismatches)" for x
    by (simp add: admitted_facts_def)
  have "pr_id (?f (?q p)) = pr_id p" using q f [of "?q p"] by (simp add: admitted_facts_def)
  from saved_run [OF p sv this] have r: "run_by_id db' k = Some (?f (?q p))" .
  have "reservations db' = reservations db" using sv by (simp add: save_run_eq_Inr)
  then show ?thesis using p r q f [of "?q p"] by (intro exI [of _ p] exI [of _ "?f (?q p)"] conjI) simp_all
qed

lemma create_run_attached:
  assumes "create_run db mk (Some j) = Inr (Some (db', k))" and "\<And>i. pr_id (mk i) = i"
    and "\<forall>p \<in> set (runs db). pr_id p < next_id db"
  shows "run_by_id db' k = Some (mk k)" "\<exists>q \<in> set (reservations db'). rv_id q = j \<and> rv_run q = Some k \<and> rv_status q = RESERVED"
proof -
  obtain db1 where i: "insert_run db (mk (next_id db)) = Inr db1"
    and rest: "(case reservation_by_id db1 j of
             Some q \<Rightarrow> if rv_status q = RESERVED \<and> rv_run q = None
               then andThen (save_reservation db1 (q\<lparr>rv_run := Some (next_id db)\<rparr>)) (\<lambda>db2. Inr (Some (db2, next_id db))) else Inr None
           | None \<Rightarrow> Inr None) = Inr (Some (db', k))"
    using assms(1) unfolding create_run_def Let_def option.case by (elim andThen_InrE) (rule that, assumption+)
  obtain q where q1: "reservation_by_id db1 j = Some q" using rest by (cases "reservation_by_id db1 j") simp_all
  have c: "rv_status q = RESERVED \<and> rv_run q = None"
    using rest unfolding q1 option.case by (rule contrapos_pp) (simp only: if_False sum.inject option.distinct not_False_eq_True)
  have w: "andThen (save_reservation db1 (q\<lparr>rv_run := Some (next_id db)\<rparr>)) (\<lambda>db2. Inr (Some (db2, next_id db))) = Inr (Some (db', k))"
    using rest unfolding q1 option.case by (simp only: c if_True simp_thms)
  then have sv: "save_reservation db1 (q\<lparr>rv_run := Some (next_id db)\<rparr>) = Inr db'" and k: "k = next_id db"
    by (cases "save_reservation db1 (q\<lparr>rv_run := Some (next_id db)\<rparr>)"; simp)+
  have q: "reservation_by_id db1 j = Some q" "rv_status q = RESERVED" using q1 c by blast+
  have db1: "runs db1 = runs db @ [mk k]" using i by (auto simp: insert_run_def andThen_eq_Inr k)
  have "first_such (\<lambda>p. pr_id p = k) (runs db) = None" using assms(3) by (auto simp: first_such_None k)
  then show "run_by_id db' k = Some (mk k)"
    using sv assms(2) by (simp add: save_reservation_eq_Inr run_by_id_def db1 first_such_append)
  have "reservation_by_id db' (rv_id (q\<lparr>rv_run := Some (next_id db)\<rparr>)) = Some (q\<lparr>rv_run := Some (next_id db)\<rparr>)"
    by (rule saved_reservation [OF sv]) (use q(1) reservation_by_id_Some [OF q(1)] in simp)
  moreover have "rv_id q = j" using reservation_by_id_Some [OF q(1)] by blast
  ultimately have "q\<lparr>rv_run := Some k\<rparr> \<in> set (reservations db')"
    using reservation_by_id_Some [of db' j "q\<lparr>rv_run := Some k\<rparr>"] by (simp add: k)
  then show "\<exists>q \<in> set (reservations db'). rv_id q = j \<and> rv_run q = Some k \<and> rv_status q = RESERVED"
    by (rule rev_bexI) (simp add: q(2) \<open>rv_id q = j\<close>)
qed

lemma reserve_fresh:
  assumes "reserve request site config now reason db = Inr (db', oc)" and "\<forall>p \<in> set (runs db). pr_id p < next_id db"
  shows "\<forall>p \<in> set (runs db'). pr_id p < next_id db'"
proof (rule reserve_frame [OF assms(1)])
  fix row
  assume row: "next_id db \<le> rv_id row" "next_id db' = rv_id row + 1"
  have "runs db' = runs db" using quiet_reserve [OF assms(1)] by (simp add: quiet_def)
  then show ?thesis using assms(2) row by fastforce
qed

lemma no_mismatch_options:
  assumes "start_mismatches a memory timeout tag = []"
  shows "ap_memory_mbytes a = Some memory" "ap_timeout_secs a = Some timeout" "ap_restart_count a \<in> {None, Some 0}"
  using assms unfolding start_mismatches_def by (auto split: if_split_asm)

text \<open>What a start that got past its guards went through.\<close>

lemma startedE:
  assumes "start_provider_run s config r w db = (db', Inr res)" and "\<And>x. res \<noteq> START_REFUSED x" and "\<And>x. res \<noteq> START_DENIED x"
    and "res \<noteq> RESERVATION_NOT_OPEN"
  obtains spec due_at db1 decision db2 k where "start_guards s r (sw_admitted_at w) db = Inr (Inr (spec, due_at))"
    and "admit_start config r spec (sw_reserved_at w) db = Inr (db1, decision)" and "oc_admitted decision"
    and "create_run db1 (new_run r spec (sw_admitted_at w) due_at) (Some (oc_id decision)) = Inr (Some (db2, k))"
    and "(case sw_answer w of Inl e \<Rightarrow> start_failed config db2 k e (sw_answered_at w)
       | Inr a \<Rightarrow> start_answered config w db2 k a (start_mismatches a (memory_mb (sp_shape spec)) (timeout_s (sp_shape spec))
           (case sr_build_tag r of None \<Rightarrow> js_actor_build s | Some b \<Rightarrow> b))) = (db', Inr res)"
proof -
  obtain spec due_at where g: "start_guards s r (sw_admitted_at w) db = Inr (Inr (spec, due_at))"
    using assms by (auto simp: start_provider_run_def split: sum.split_asm prod.split_asm)
  have rest: "txn db (admit_start config r spec (sw_reserved_at w) db) (\<lambda>db decision.
          if \<not> oc_admitted decision then (db, Inr (START_DENIED (oc_reason decision)))
          else (case create_run db (new_run r spec (sw_admitted_at w) due_at) (Some (oc_id decision)) of
              Inl e \<Rightarrow> (db, Inl e)
            | Inr None \<Rightarrow> (db, Inr RESERVATION_NOT_OPEN)
            | Inr (Some (db, k)) \<Rightarrow>
                (case sw_answer w of
                   Inl e \<Rightarrow> start_failed config db k e (sw_answered_at w)
                 | Inr a \<Rightarrow> start_answered config w db k a
                     (start_mismatches a (memory_mb (sp_shape spec)) (timeout_s (sp_shape spec))
                       (case sr_build_tag r of None \<Rightarrow> js_actor_build s | Some b \<Rightarrow> b))))) = (db', Inr res)"
    using assms(1) unfolding start_provider_run_def g Let_def by simp
  obtain db1 decision where a: "admit_start config r spec (sw_reserved_at w) db = Inr (db1, decision)"
    using rest by (auto simp: txn_def split: sum.split_asm)
  have ad: "oc_admitted decision" using rest a assms(3) by (auto simp: txn_def split: if_split_asm)
  obtain db2 k where c: "create_run db1 (new_run r spec (sw_admitted_at w) due_at) (Some (oc_id decision)) = Inr (Some (db2, k))"
    using rest a ad assms(4) by (auto simp: txn_def split: sum.split_asm option.split_asm prod.split_asm)
  show thesis by (rule that [OF g a ad c]) (use rest a ad c in \<open>simp add: txn_def\<close>)
qed

lemma start_guards_kept:
  assumes "start_guards s r t db = Inr (Inr (spec, due_at))"
  shows "js_enabled s" "\<not> sr_retired r" "js_actor_id s \<noteq> []" "sr_retention r = Some None"
    "sr_kind r = RUN_FULL \<Longrightarrow> \<not> has_outstanding_full_run db (sr_site r) (sp_scope spec)"
    "seconds (timeout_s (sp_shape spec)) + seconds (js_import_margin_s s) \<le> due_at - t"
  using assms by (auto simp: start_guards_def andThen_eq_Inr Let_def split: if_split_asm option.split_asm)

text \<open>C18: A run is only reported started when it was paid for and is what was asked: the kill switch was on, the
  site not retired, for a full sweep no earlier full sweep of the site and scope was undecided, the storage deadline
  leaves room for the run, admission reserved it, the run row exists with the Actor's run id and is attached to that
  open reservation, and the Actor echoed the requested memory and timeout and reports no restart.\<close>

theorem started_runs_are_paid_for:
  assumes "start_provider_run s config r w db = (db', Inr (RUN_STARTED k))" and "\<forall>p \<in> set (runs db). pr_id p < next_id db"
  shows "js_enabled s \<and> \<not> sr_retired r
     \<and> (\<exists>p q a. run_by_id db' k = Some p \<and> sw_answer w = Inr a \<and> pr_external_id p = Some (ap_id a)
        \<and> (pr_run_kind p = RUN_FULL \<longrightarrow> \<not> has_outstanding_full_run db (pr_site p) (pr_scope_key p))
        \<and> ap_memory_mbytes a = Some (pr_memory_mb p) \<and> ap_timeout_secs a = Some (pr_timeout_s p) \<and> ap_restart_count a \<in> {None, Some 0}
        \<and> seconds (pr_timeout_s p) + seconds (js_import_margin_s s) \<le> pr_cleanup_due_at p - pr_admitted_at p
        \<and> q \<in> set (reservations db') \<and> rv_run q = Some k \<and> rv_status q = RESERVED)"
proof -
  from assms(1) obtain spec due_at db1 decision db2 j where g: "start_guards s r (sw_admitted_at w) db = Inr (Inr (spec, due_at))"
    and ad: "admit_start config r spec (sw_reserved_at w) db = Inr (db1, decision)"
    and c: "create_run db1 (new_run r spec (sw_admitted_at w) due_at) (Some (oc_id decision)) = Inr (Some (db2, j))"
    and rest: "(case sw_answer w of Inl e \<Rightarrow> start_failed config db2 j e (sw_answered_at w)
       | Inr a \<Rightarrow> start_answered config w db2 j a (start_mismatches a (memory_mb (sp_shape spec)) (timeout_s (sp_shape spec))
           (case sr_build_tag r of None \<Rightarrow> js_actor_build s | Some b \<Rightarrow> b))) = (db', Inr (RUN_STARTED k))"
    by (rule startedE) simp_all
  obtain a where a: "sw_answer w = Inr a"
    using rest by (auto simp: start_failed_def commit_def txn_def split: sum.split_asm if_split_asm prod.split_asm)
  define ms where "ms = start_mismatches a (memory_mb (sp_shape spec)) (timeout_s (sp_shape spec))
      (case sr_build_tag r of None \<Rightarrow> js_actor_build s | Some b \<Rightarrow> b)"
  have ans: "start_answered config w db2 j a ms = (db', Inr (RUN_STARTED k))" using rest by (simp add: a ms_def)
  have ms: "ms = []" and rec: "record_start db2 j a [] (sw_answered_at w) = Inr db'" and k: "k = j"
    using ans by (auto simp: start_answered_def commit_def followed_by_def split: sum.split_asm if_split_asm option.split_asm prod.split_asm)
  have fresh: "\<forall>p \<in> set (runs db1). pr_id p < next_id db1"
    using ad assms(2) unfolding admit_start_def by (elim andThen_InrE) (rule reserve_fresh)
  have id: "pr_id (new_run r spec (sw_admitted_at w) due_at i) = i" for i by (simp add: new_run_def)
  note at = create_run_attached [OF c id fresh]
  obtain p where p: "run_by_id db' k = Some p" "pr_external_id p = Some (ap_id a)"
      "admitted_facts p = admitted_facts (new_run r spec (sw_admitted_at w) due_at k)" "reservations db' = reservations db2"
    using record_start_row [OF rec] at(1) by (auto simp: k)
  have f: "pr_memory_mb p = memory_mb (sp_shape spec)" "pr_timeout_s p = timeout_s (sp_shape spec)"
    "pr_cleanup_due_at p = due_at" "pr_admitted_at p = sw_admitted_at w"
    "pr_run_kind p = sr_kind r" "pr_site p = sr_site r" "pr_scope_key p = sp_scope spec"
    using p(3) by (simp_all add: admitted_facts_def new_run_def)
  obtain q where q: "q \<in> set (reservations db')" "rv_run q = Some k" "rv_status q = RESERVED" using at(2) p(4) by (auto simp: k)
  note n = no_mismatch_options [OF ms [unfolded ms_def]]
  show ?thesis
    using start_guards_kept [OF g] p(1,2) a q n f by (intro conjI exI [of _ p] exI [of _ q] exI [of _ a]) simp_all
qed

text \<open>A run whose response does not match the request is never collected from: the start ends with the mismatch
  recorded, the import rejected and the latch tripped for it, and the second barrier alone is left to cleanup.\<close>

theorem mismatched_starts_are_rejected:
  assumes "start_provider_run s config r w db = (db', Inr (MISMATCH_ABORTED k ms))" and "\<forall>p \<in> set (runs db). pr_id p < next_id db"
  shows "ms \<noteq> [] \<and> (\<exists>p. run_by_id db' k = Some p \<and> pr_import_state p = IMPORT_REJECTED)
     \<and> (\<exists>t \<in> set (trips db'). la_reason t = START_OPTION_MISMATCH \<and> la_run t = Some k)"
proof -
  from assms(1) obtain spec due_at db1 decision db2 j where
      ad: "admit_start config r spec (sw_reserved_at w) db = Inr (db1, decision)"
    and c: "create_run db1 (new_run r spec (sw_admitted_at w) due_at) (Some (oc_id decision)) = Inr (Some (db2, j))"
    and rest: "(case sw_answer w of Inl e \<Rightarrow> start_failed config db2 j e (sw_answered_at w)
       | Inr a \<Rightarrow> start_answered config w db2 j a (start_mismatches a (memory_mb (sp_shape spec)) (timeout_s (sp_shape spec))
           (case sr_build_tag r of None \<Rightarrow> js_actor_build s | Some b \<Rightarrow> b))) = (db', Inr (MISMATCH_ABORTED k ms))"
    by (rule startedE) simp_all
  obtain a where a: "sw_answer w = Inr a"
    using rest by (auto simp: start_failed_def commit_def txn_def split: sum.split_asm if_split_asm prod.split_asm)
  obtain ms' where ans: "start_answered config w db2 j a ms' = (db', Inr (MISMATCH_ABORTED k ms))" using rest by (simp add: a)
  obtain db3 where rec: "record_start db2 j a ms' (sw_answered_at w) = Inr db3"
    using ans by (auto simp: start_answered_def commit_def split: sum.split_asm)
  have ne: "ms' \<noteq> []" using ans rec by (auto simp: start_answered_def commit_def)
  obtain db4 where t: "trip START_OPTION_MISMATCH (Some j) config (sw_answered_at w) db3 = Inr db4"
    using ans rec ne by (auto simp: start_answered_def commit_def split: sum.split_asm)
  obtain db5 where rj: "reject_mismatch (sw_schedule w) db4 j (sw_answered_at w) = Inr db5"
    using ans rec ne t by (auto simp: start_answered_def commit_def split: sum.split_asm)
  have last: "(case sw_abort w of None \<Rightarrow> (db5, Inr (MISMATCH_ABORTED j ms'))
      | Some aborted \<Rightarrow> followed_by (record_observation config db5 j aborted (sw_aborted_at w) False) (\<lambda>db _.
          (db, Inr (MISMATCH_ABORTED j ms')))) = (db', Inr (MISMATCH_ABORTED k ms))"
    using ans ne by (simp add: start_answered_def commit_def rec t rj)
  have k: "k = j" and ms: "ms = ms'" and adv5: "advances s db5 db'"
  proof -
    have f: "fst (case sw_abort w of None \<Rightarrow> (db5, Inr (MISMATCH_ABORTED j ms'))
      | Some aborted \<Rightarrow> followed_by (record_observation config db5 j aborted (sw_aborted_at w) False) (\<lambda>db _.
          (db, Inr (MISMATCH_ABORTED j ms')))) = db'" using last by simp
    show "k = j" "ms = ms'" using last by (auto simp: followed_by_def split: option.split_asm prod.split_asm sum.split_asm)
    show "advances s db5 db'" unfolding f [symmetric]
      by (cases "sw_abort w") (auto intro!: adv.rel_followed_by advances_record_observation)
  qed
  have id: "pr_id (new_run r spec (sw_admitted_at w) due_at i) = i" for i by (simp add: new_run_def)
  have fresh: "\<forall>p \<in> set (runs db1). pr_id p < next_id db1"
    using ad assms(2) unfolding admit_start_def by (elim andThen_InrE) (rule reserve_fresh)
  have row4: "\<exists>p. run_by_id db4 j = Some p"
    using record_start_row [OF rec] trip_tripped(1) [OF t] by (auto simp: run_by_id_def)
  then obtain p4 where p4: "run_by_id db4 j = Some p4" by blast
  have pend: "pr_import_state p4 = IMPORT_PENDING"
  proof -
    obtain x where x: "save_run db2 x = Inr db3" and s': "pr_import_state x = IMPORT_PENDING" and xi: "pr_id x = j"
      using rec create_run_attached(1) [OF c id fresh]
      by (auto simp: record_start_def Let_def andThen_eq_Inr apply_run_fields_def new_run_def split: if_split_asm)
    then show ?thesis
      using saved_run [OF create_run_attached(1) [OF c id fresh] x] p4 trip_tripped(1) [OF t] by (simp add: run_by_id_def new_run_def)
  qed
  let ?new = "fst (stamp_work_completion (p4\<lparr>pr_reject_reason := Some START_MISMATCHED, pr_import_state := IMPORT_REJECTED\<rparr>) (sw_answered_at w))"
  have "save_run db4 ?new = Inr db5"
    using rj p4 pend by (auto simp: reject_mismatch_def reject_import_def andThen_eq_Inr get_row_eq_Inr TERMINAL_IMPORT_def)
  from saved_run [OF p4 this] have p5: "run_by_id db5 j = Some ?new" by (simp add: stamp_eq)
  obtain p' where p': "run_by_id db' j = Some p'" "moved_on ?new p'" using adv5 p5 unfolding advances_def by blast
  have "import_rank st \<le> 5" for st by (cases st) simp_all
  then have "pr_import_state p' = IMPORT_REJECTED"
    using p'(2) by (force simp: moved_on_def import_forward_def stamp_eq dest: leD)
  moreover have "(START_OPTION_MISMATCH, Some j) \<in> trip_keys db'"
  proof -
    have "(START_OPTION_MISMATCH, Some j) \<in> trip_keys db4" by (rule trip_tripped(3) [OF t])
    moreover have "advances s db4 db5"
      using rj unfolding reject_mismatch_def by (rule get_runE) (rule advances_reject)
    ultimately show ?thesis using adv5 unfolding advances_def by blast
  qed
  then have "\<exists>t \<in> set (trips db'). la_reason t = START_OPTION_MISMATCH \<and> la_run t = Some k" by (force simp: trip_keys_def k)
  ultimately show ?thesis using ne p'(1) by (simp add: k ms)
qed

section \<open>What stops a tick\<close>

lemma each_append: "each f js st = (st', None) \<Longrightarrow> each f (js @ ks) st = each f ks st'"
  by (induction js arbitrary: st) (auto split: prod.split option.split prod.split_asm option.split_asm)

lemma backoff_overflows: "41 \<le> n \<Longrightarrow> backoff_delay n = Inl DateOverflow"
proof -
  assume "41 \<le> n"
  then have "(2::int) ^ 41 \<le> 2 ^ n" by (intro power_increasing) simp_all
  then have "UNIT_BACKOFF_BASE * 2 ^ 41 \<le> UNIT_BACKOFF_BASE * 2 ^ n" by (simp add: UNIT_BACKOFF_BASE_def timedelta_defs)
  moreover have "\<not> timedelta_ok d" if "UNIT_BACKOFF_BASE * 2 ^ 41 \<le> d" for d
    using that by (simp add: timedelta_ok_def UNIT_BACKOFF_BASE_def timedelta_defs)
  ultimately show ?thesis by (simp add: backoff_delay_def Let_def)
qed

text \<open>A run whose import or cleanup is outstanding and that is not backed off.\<close>

definition outstanding_row :: "jobs_settings \<Rightarrow> ledger_db \<Rightarrow> instant \<Rightarrow> provider_run \<Rightarrow> bool" where
  "outstanding_row s db now p \<longleftrightarrow> due now p \<and> terminal_status (pr_remote_status p)
     \<and> (pr_import_state p \<notin> set TERMINAL_IMPORT \<or> storage_work_left s p)"

lemma outstanding_selected: "p \<in> set (runs db) \<Longrightarrow> outstanding_row s db now p \<Longrightarrow> pr_id p \<in> set (select_outstanding s db now)"
  by (auto simp: select_outstanding_def outstanding_row_def)

text \<open>C25: A defect: the back-off of a unit doubles without bound before it is capped, so from 41 recorded failures
  on it raises instead of backing off. When the unit of such a run fails, wherever the run stands among the
  outstanding ones and whatever the active runs and the runs before it did, the tick ends in that exception: no run
  after it is handled, no overdue storage is aborted or deleted, no build and no settled figure is read. The
  back-off itself writes nothing: the ledger is as the failing unit committed it, and while the run's own import or
  cleanup is still outstanding there, a selection from that ledger takes the run again.\<close>

theorem failing_run_stops_the_tick:
  assumes "te_client_ok e"
    and "each (run_unit config e False (\<lambda>db k. poll_unit s config (te_poll e k) db k) (\<lambda>_ k t. t\<lparr>tr_polled := tr_polled t @ [k]\<rparr>))
        (select_active s (fst (sweeps s config e db)) (te_active_at e)) (sweeps s config e db) = (st1, None)"
    and "select_outstanding s (fst st1) (te_outstanding_at e) = js @ k # ks"
    and "each (run_unit config e False (\<lambda>db k. outstanding_unit s config (te_outstanding e k) db k) note_outstanding) js st1 = ((db1, report), None)"
    and "outstanding_unit s config (te_outstanding e k) db1 k = (db', Inl err)"
    and "err \<noteq> CallError API_RESPONSE_TOO_LARGE" and "run_by_id db' k = Some p" and "pr_unit_failures p = Some n" and "41 \<le> n"
  shows "apify_poll_tick s config e db = ((db', report\<lparr>tr_failed := tr_failed report @ [k]\<rparr>), Some (TickCrashed DateOverflow))
     \<and> (\<forall>now. outstanding_row s db' now p \<longrightarrow> k \<in> set (select_outstanding s db' now))"
proof -
  have "back_off db' k (te_failed_at e k) = Inl DateOverflow"
    using assms(7-9) by (simp add: back_off_def backoff_overflows)
  then have "run_unit config e False (\<lambda>db k. outstanding_unit s config (te_outstanding e k) db k) note_outstanding k (db1, report)
      = ((db', report\<lparr>tr_failed := tr_failed report @ [k]\<rparr>), Some (TickCrashed DateOverflow))"
    using assms(1,5,6) by (simp add: run_unit_def latch_on_failure_def)
  then have "each (run_unit config e False (\<lambda>db k. outstanding_unit s config (te_outstanding e k) db k) note_outstanding) (js @ k # ks) st1
      = ((db', report\<lparr>tr_failed := tr_failed report @ [k]\<rparr>), Some (TickCrashed DateOverflow))"
    using assms(4) by (simp add: each_append)
  then have "apify_poll_tick s config e db = ((db', report\<lparr>tr_failed := tr_failed report @ [k]\<rparr>), Some (TickCrashed DateOverflow))"
    using assms(2,3) by (simp add: apify_poll_tick_def and_then_def Let_def)
  moreover have "k \<in> set (select_outstanding s db' now)" if "outstanding_row s db' now p" for now
    using outstanding_selected [OF _ that] run_by_id_Some [OF assms(7)] by auto
  ultimately show ?thesis by blast
qed

section \<open>The sweep\<close>

definition trips_new :: "(latch_reason \<times> int option) set \<Rightarrow> ledger_db \<Rightarrow> ledger_db \<Rightarrow> bool" where
  "trips_new keys db db' \<longleftrightarrow> (\<exists>new. trips db' = trips db @ new \<and> (\<forall>t \<in> set new. (la_reason t, la_run t) \<in> keys))"

interpretation trips_new: effect "trips_new keys" for keys
  by unfold_locales (force simp: trips_new_def)+

lemma trips_new_trip: "trip reason run config now db = Inr db' \<Longrightarrow> (reason, run) \<in> keys \<Longrightarrow> trips_new keys db db'"
  unfolding trip_def by (elim andThen_pair_InrE)
    (erule trip_latch_locked_cases, auto simp: trips_new_def)

lemma trips_new_orphans:
  "trip_orphans ks config now db = Inr db' \<Longrightarrow> (\<And>k. k \<in> set ks \<Longrightarrow> (ORPHANED_START, Some k) \<in> keys) \<Longrightarrow>
     trips_new keys db db' \<and> (\<forall>k \<in> set ks. (ORPHANED_START, Some k) \<in> trip_keys db')"
proof (induction ks arbitrary: db)
  case (Cons k ks)
  obtain db1 where t: "trip ORPHANED_START (Some k) config now db = Inr db1" and rest: "trip_orphans ks config now db1 = Inr db'"
    using Cons.prems(1) by (auto simp: andThen_eq_Inr)
  have ih: "trips_new keys db1 db' \<and> (\<forall>k \<in> set ks. (ORPHANED_START, Some k) \<in> trip_keys db')"
    using Cons.IH [OF rest] Cons.prems(2) by simp
  moreover have "trip_keys db1 \<subseteq> trip_keys db'" using advances_trip_orphans [OF rest] by (simp add: quiet_def)
  ultimately show ?case
    using trips_new_trip [OF t, of keys] trip_tripped(3) [OF t] Cons.prems(2) trips_new.rel_trans by auto
qed (simp add: trips_new.rel_refl)

lemma trips_new_marked:
  "mark_each ks config now db = Inr db' \<Longrightarrow> (\<And>k. k \<in> set ks \<Longrightarrow> (DELETE_ATTEMPTS_EXHAUSTED, Some k) \<in> keys) \<Longrightarrow>
     trips_new keys db db' \<and> (\<forall>k \<in> set ks. run_by_id db k = None \<or> (DELETE_ATTEMPTS_EXHAUSTED, Some k) \<in> trip_keys db')
     \<and> trip_keys db \<subseteq> trip_keys db' \<and> (\<forall>j. map_option (\<lambda>p. (pr_id p, pr_orphaned_at p, pr_cleanup_attempts p, pr_start_status p)) (run_by_id db' j)
         = map_option (\<lambda>p. (pr_id p, pr_orphaned_at p, pr_cleanup_attempts p, pr_start_status p)) (run_by_id db j))
     \<and> (\<forall>j. j \<notin> set ks \<longrightarrow> run_by_id db' j = run_by_id db j)"
proof (induction ks arbitrary: db)
  case (Cons k ks)
  show ?case
  proof (cases "run_by_id db k")
    case None
    then show ?thesis using Cons by auto
  next
    case (Some p)
    have k: "pr_id p = k" using run_by_id_Some [OF Some] by blast
    obtain db1 where m: "mark_delete_failed db p config now = Inr db1" and rest: "mark_each ks config now db1 = Inr db'"
      using Cons.prems(1) Some by (auto simp: andThen_eq_Inr)
    obtain db2 where s: "(if pr_storage_state p \<noteq> STORAGE_DELETE_FAILED
         then save_run db (p\<lparr>pr_storage_state := STORAGE_DELETE_FAILED\<rparr>) else Inr db) = Inr db2"
      and t: "trip DELETE_ATTEMPTS_EXHAUSTED (Some k) config now db2 = Inr db1"
      using m unfolding mark_delete_failed_def k by (rule andThen_InrE)
    have same: "trips db2 = trips db" using s by (auto simp: save_run_eq_Inr split: if_split_asm)
    have n: "trips_new keys db db1" using trips_new_trip [OF t, of keys] Cons.prems(2) same by (simp add: trips_new_def)
    have key: "(DELETE_ATTEMPTS_EXHAUSTED, Some k) \<in> trip_keys db1" "trip_keys db \<subseteq> trip_keys db1"
      using trip_tripped(2,3) [OF t] same by (simp_all add: trip_keys_def)
    note row = mark_delete_failed_run [OF m Some]
    have ih: "trips_new keys db1 db' \<and> (\<forall>k \<in> set ks. run_by_id db1 k = None \<or> (DELETE_ATTEMPTS_EXHAUSTED, Some k) \<in> trip_keys db')
      \<and> trip_keys db1 \<subseteq> trip_keys db' \<and> (\<forall>j. map_option (\<lambda>p. (pr_id p, pr_orphaned_at p, pr_cleanup_attempts p, pr_start_status p)) (run_by_id db' j)
         = map_option (\<lambda>p. (pr_id p, pr_orphaned_at p, pr_cleanup_attempts p, pr_start_status p)) (run_by_id db1 j))
      \<and> (\<forall>j. j \<notin> set ks \<longrightarrow> run_by_id db' j = run_by_id db1 j)"
      by (rule Cons.IH [OF rest]) (use Cons.prems(2) in simp)
    have some: "run_by_id db1 j = None \<longleftrightarrow> run_by_id db j = None" for j using row Some by auto
    show ?thesis
    proof (intro conjI allI ballI impI)
      show "trips_new keys db db'" using n ih trips_new.rel_trans by blast
      show "trip_keys db \<subseteq> trip_keys db'" using key(2) ih by blast
      show "run_by_id db i = None \<or> (DELETE_ATTEMPTS_EXHAUSTED, Some i) \<in> trip_keys db'" if "i \<in> set (k # ks)" for i
        using that key(1) ih some by auto
      show "map_option (\<lambda>p. (pr_id p, pr_orphaned_at p, pr_cleanup_attempts p, pr_start_status p)) (run_by_id db' j)
         = map_option (\<lambda>p. (pr_id p, pr_orphaned_at p, pr_cleanup_attempts p, pr_start_status p)) (run_by_id db j)" for j
        using ih row Some by simp
      show "run_by_id db' j = run_by_id db j" if "j \<notin> set (k # ks)" for j using ih row that by simp
    qed
  qed
qed (simp add: trips_new.rel_refl)

lemma trips_new_each:
  "trip_each ks version now db = Inr db' \<Longrightarrow> (\<And>k. k \<in> set ks \<Longrightarrow> (ACCOUNT_LIMIT_REFUSED, Some k) \<in> keys) \<Longrightarrow> trips_new keys db db'"
proof (induction ks arbitrary: db)
  case (Cons k ks)
  obtain db1 c where t: "trip_latch_locked ACCOUNT_LIMIT_REFUSED (Some k) version now db = Inr (db1, c)" and rest: "trip_each ks version now db1 = Inr db'"
    using Cons.prems(1) by (auto simp: andThen_eq_Inr)
  have "trips_new keys db db1"
    using t by (cases rule: trip_latch_locked_cases) (use Cons.prems(2) in \<open>auto simp: trips_new_def\<close>)
  then show ?case using Cons.IH [OF rest] Cons.prems(2) trips_new.rel_trans by simp
qed (simp add: trips_new.rel_refl)

lemma ever_tripped_key: "ever_tripped db reason k \<longleftrightarrow> (reason, Some k) \<in> trip_keys db"
  by (force simp: ever_tripped_def trip_keys_def)

lemma keys_where_mem: "k \<in> set (keys_where P db) \<longleftrightarrow> (\<exists>p. run_by_id db k = Some p \<and> P p)"
  by (auto simp: keys_where_def image_iff split: option.split_asm option.split dest: run_by_id_Some)

text \<open>C24: The recovery sweep of every tick repairs what a lost process left and undoes nothing: after it no orphaned,
  exhausted or 402-refused run is without a trip, and every trip it adds is for a run and a reason that never had
  one, open or cleared, so an owner's reset is final.\<close>

theorem sweep_leaves_none_stranded:
  assumes "trip_stranded_latches s config now db = Inr (db', ks)"
  shows "stranded_orphans db' = [] \<and> stranded_exhausted s db' = [] \<and> unrecorded_start_refusals db' = []
     \<and> (\<exists>new. trips db' = trips db @ new \<and>
         (\<forall>t \<in> set new. \<not> (\<exists>t0 \<in> set (trips db). la_run t0 = la_run t \<and> la_reason t0 = la_reason t)))"
proof (cases "stranded_orphans db = [] \<and> stranded_exhausted s db = [] \<and> unrecorded_start_refusals db = []")
  case True
  then have "db' = db" using assms by (simp add: trip_stranded_latches_def)
  then show ?thesis using True by simp
next
  case False
  let ?never = "- trip_keys db"
  obtain db1 db2 refused where o: "trip_orphans (stranded_orphans db) config now db = Inr db1"
    and e: "mark_each (stranded_exhausted s db) config now db1 = Inr db2"
    and f: "trip_stranded_start_refusals_locked (estimator_version (budget config)) now db2 = Inr (db', refused)"
    using assms False unfolding trip_stranded_latches_def Let_def by (auto simp: andThen_eq_Inr split: if_split_asm)
  have id: "pr_id p = k" if "run_by_id d k = Some p" for d k p using run_by_id_Some [OF that] by blast
  have lookup: "run_by_id db1 = run_by_id db" using advances_trip_orphans [OF o] by (simp add: quiet_def run_by_id_def fun_eq_iff)
  have O: "trips_new ?never db db1 \<and> (\<forall>k \<in> set (stranded_orphans db). (ORPHANED_START, Some k) \<in> trip_keys db1)"
    by (rule trips_new_orphans [OF o]) (auto simp: stranded_orphans_def keys_where_mem ever_tripped_key dest: id)
  have never: "(DELETE_ATTEMPTS_EXHAUSTED, Some k) \<in> ?never" if "k \<in> set (stranded_exhausted s db)" for k
    using that by (auto simp: stranded_exhausted_def keys_where_mem ever_tripped_key dest: id)
  have E: "trips_new ?never db1 db2"
      "\<forall>k \<in> set (stranded_exhausted s db). run_by_id db1 k = None \<or> (DELETE_ATTEMPTS_EXHAUSTED, Some k) \<in> trip_keys db2"
      "trip_keys db1 \<subseteq> trip_keys db2"
      "\<And>j. map_option (\<lambda>p. (pr_id p, pr_orphaned_at p, pr_cleanup_attempts p, pr_start_status p)) (run_by_id db2 j)
         = map_option (\<lambda>p. (pr_id p, pr_orphaned_at p, pr_cleanup_attempts p, pr_start_status p)) (run_by_id db1 j)"
      "\<And>j. j \<notin> set (stranded_exhausted s db) \<Longrightarrow> run_by_id db2 j = run_by_id db1 j"
    using trips_new_marked [OF e never] by blast+
  obtain each: "trip_each (unrecorded_start_refusals db2) (estimator_version (budget config)) now db2 = Inr db'"
    using f by (auto simp: trip_stranded_start_refusals_locked_def Let_def andThen_eq_Inr)
  have k01: "trip_keys db \<subseteq> trip_keys db1" using advances_trip_orphans [OF o] by (simp add: quiet_def)
  have k2': "trip_keys db2 \<subseteq> trip_keys db'" and r2': "runs db' = runs db2"
    using quiet_trip_stranded [OF f] by (simp_all add: quiet_def)
  have look': "run_by_id db' = run_by_id db2" using r2' by (simp add: run_by_id_def fun_eq_iff)
  have F: "trips_new ?never db2 db'"
  proof (rule trips_new_each [OF each])
    fix k
    assume "k \<in> set (unrecorded_start_refusals db2)"
    then have "(ACCOUNT_LIMIT_REFUSED, Some k) \<notin> trip_keys db2"
      by (force simp: unrecorded_start_refusals_def refusal_recorded_def trip_keys_def)
    then show "(ACCOUNT_LIMIT_REFUSED, Some k) \<in> ?never" using k01 E(3) by blast
  qed
  have "trips_new ?never db db'" using O E(1) F trips_new.rel_trans by blast
  then have new: "\<exists>new. trips db' = trips db @ new \<and>
         (\<forall>t \<in> set new. \<not> (\<exists>t0 \<in> set (trips db). la_run t0 = la_run t \<and> la_reason t0 = la_reason t))"
    by (simp only: trips_new_def trip_keys_def Compl_iff image_iff prod.inject) metis
  have "k \<notin> set (stranded_orphans db')" for k
  proof
    assume "k \<in> set (stranded_orphans db')"
    then obtain p' where p': "run_by_id db2 k = Some p'" "pr_orphaned_at p' \<noteq> None" "(ORPHANED_START, Some k) \<notin> trip_keys db'"
      by (auto simp: stranded_orphans_def keys_where_mem ever_tripped_key look' dest: id)
    obtain p where p: "run_by_id db k = Some p" "pr_orphaned_at p \<noteq> None"
      using E(4) [of k] p'(1,2) by (cases "run_by_id db k") (auto simp: lookup)
    then have "k \<in> set (stranded_orphans db)"
      using p'(3) k01 E(3) k2' by (auto simp: stranded_orphans_def keys_where_mem ever_tripped_key dest: id)
    then show False using O E(3) k2' p'(3) by blast
  qed
  moreover have "k \<notin> set (stranded_exhausted s db')" for k
  proof
    assume m: "k \<in> set (stranded_exhausted s db')"
    then have n: "(DELETE_ATTEMPTS_EXHAUSTED, Some k) \<notin> trip_keys db'"
      by (auto simp: stranded_exhausted_def keys_where_mem ever_tripped_key dest: id)
    show False
    proof (cases "k \<in> set (stranded_exhausted s db)")
      case True
      then have "run_by_id db1 k \<noteq> None" by (auto simp: stranded_exhausted_def keys_where_mem lookup)
      moreover have "run_by_id db1 k = None \<or> (DELETE_ATTEMPTS_EXHAUSTED, Some k) \<in> trip_keys db2" using E(2) True by (rule bspec)
      ultimately show False using n k2' by auto
    next
      case False
      have "run_by_id db' k = run_by_id db k" using E(5) [OF False] by (simp add: look' lookup)
      then have "k \<in> set (stranded_exhausted s db)"
        using m n k01 E(3) k2' by (auto simp: stranded_exhausted_def keys_where_mem ever_tripped_key dest: id)
      with False show False ..
    qed
  qed
  moreover have "unrecorded_start_refusals db' = []"
  proof -
    have "\<forall>k \<in> set (unrecorded_start_refusals db2). refusal_recorded db' k" using trip_each_effect [OF each] by blast
    moreover have "refusal_recorded db' k" if "refusal_recorded db2 k" for k
      using that k2' by (force simp: refusal_recorded_def trip_keys_def)
    ultimately show ?thesis by (auto simp: unrecorded_start_refusals_def r2' filter_empty_conv)
  qed
  ultimately show ?thesis using new by (metis list.set_intros(1) neq_Nil_conv)
qed

end
