(* ===== verification/JobSample.thy ===== *)
theory JobSample
  imports TickSafety
begin

text \<open>Concrete runs, ledgers and answers at which the properties of the jobs are applied.\<close>

definition sample_jobs :: jobs_settings where
  "sample_jobs = \<lparr>js_max_run_polls = 100, js_max_delete_attempts = 10, js_cleanup_max_s = 86400, js_import_margin_s = 3600,
     js_404_is_absent = False, js_enabled = True, js_actor_id = ''actor'', js_actor_build = ''stable'', js_max_dataset_reads = 3,
     js_max_kv_reads = 3, js_max_kv_bytes = Some 262144\<rparr>"

definition no_call :: client_error where "no_call = ClientError ''ApifyError''"

lemma sample_poll_cap: "one_poll_cap sample_jobs sample_config"
  by (simp add: one_poll_cap_def sample_jobs_def sample_config_def sample_settings_def)

text \<open>A run whose start was never answered, given up on at its deadline.\<close>

definition sample_start :: start_request where
  "sample_start = \<lparr>sr_site = 7, sr_site_key = ''shop'', sr_retired = False,
     sr_spec = Some (Some \<lparr>sp_site_key = ''shop'', sp_scope = ''all'', sp_shape = sample_shape, sp_max_pages = 5, sp_class = WATCH_REFRESH\<rparr>),
     sr_retention = Some None, sr_kind = RUN_FULL, sr_build_tag = None, sr_client_ok = True\<rparr>"

definition sample_spec' :: run_spec where
  "sample_spec' = \<lparr>sp_site_key = ''shop'', sp_scope = ''all'', sp_shape = sample_shape, sp_max_pages = 5, sp_class = WATCH_REFRESH\<rparr>"

definition created_db :: ledger_db where
  "created_db = empty_db\<lparr>runs := [new_run sample_start sample_spec' 1000 2000 1], next_id := 2\<rparr>"

definition orphan_trip :: latch_trip where
  "orphan_trip = \<lparr>la_tripped_at = 3000, la_run = Some 1, la_reason = ORPHANED_START, la_cleared = None, la_version = ''v1''\<rparr>"

definition orphan_db :: ledger_db where
  "orphan_db = created_db\<lparr>runs := [(new_run sample_start sample_spec' 1000 2000 1)\<lparr>pr_orphaned_at := Some 3000\<rparr>], trips := [orphan_trip]\<rparr>"

lemma sample_created:
  "create_run empty_db (new_run sample_start sample_spec' 1000 2000) None = Inr (Some (created_db, 1))"
  by (simp add: create_run_def insert_run_def run_fits_def run_checks_def new_run_def empty_db_def created_db_def sample_start_def
      sample_spec'_def sample_shape_def start_class_def is_runtime_def)

lemma sample_orphaned:
  "begin_attempt sample_jobs sample_config created_db 1 True 3000 = Inr (orphan_db, None)"
  by (simp add: begin_attempt_def created_db_def run_by_id_def new_run_def save_run_def run_checks_def trip_def trip_latch_locked_def
      insert_trip_def latch_checks_def empty_db_def orphan_db_def orphan_trip_def replace_by_def sample_start_def
      sample_spec'_def sample_shape_def start_class_def is_runtime_def sample_config_def sample_settings_def)

lemma orphan_steps: "steps (job_step sample_jobs sample_config) empty_db [RunCreated 1, AttemptBegun 1 False] orphan_db"
  using job_step.created [OF sample_created, of sample_jobs sample_config] job_step.begun [OF sample_orphaned]
  by (auto intro: steps.intros)

definition orphan_run :: provider_run where
  "orphan_run = (new_run sample_start sample_spec' 1000 2000 1)\<lparr>pr_orphaned_at := Some 3000\<rparr>"

lemma orphan_row: "run_by_id orphan_db 1 = Some orphan_run" "pr_orphaned_at orphan_run = Some 3000" "runs empty_db = []"
  by (simp_all add: run_by_id_def orphan_db_def orphan_run_def new_run_def empty_db_def created_db_def)

theorem given_up_runs_are_tripped_witness:
  "run_by_id orphan_db 1 = Some orphan_run \<and> pr_orphaned_at orphan_run = Some 3000
     \<and> (\<exists>t \<in> set (trips orphan_db). la_run t = Some 1 \<and> la_reason t = ORPHANED_START)"
  using given_up_runs_are_tripped [OF orphan_steps sample_poll_cap orphan_row(3,1)] orphan_row by simp





text \<open>An evaluated import whose storage is already deleted: finalizing it is the second barrier.\<close>

definition evaluated_run :: provider_run where
  "evaluated_run = (new_run sample_start sample_spec' 1000 2000 1)\<lparr>pr_external_id := Some ''r1'', pr_key := Some ''apify:r1'',
     pr_remote_status := Some ''SUCCEEDED'', pr_remote_terminal_at := Some 1500, pr_import_state := IMPORT_EVALUATED,
     pr_storage_state := STORAGE_DELETED, pr_storage_deleted_at := Some 1800, pr_verified_deleted := [DATASET, KV_STORE]\<rparr>"

definition evaluated_db :: ledger_db where
  "evaluated_db = created_db\<lparr>runs := [evaluated_run]\<rparr>"

definition finalized_db :: ledger_db where
  "finalized_db = created_db\<lparr>runs := [evaluated_run\<lparr>pr_import_state := IMPORT_FINALIZED, pr_final_charge_op_at := Some 1900\<rparr>]\<rparr>"

definition sample_env :: import_env where
  "sample_env = \<lparr>ie_start = 1850, ie_commit = 1860, ie_end = 1900, ie_provider = None, ie_policy = None,
     ie_fetch = Inl (Crashed (CallError no_call)), ie_parse = Inr (), ie_persist = Inr [], ie_work = (\<lambda>_. Inr ()),
     ie_recovers = True, ie_schedule = (\<lambda>_. Inr ())\<rparr>"

lemma sample_finalized: "stage5 sample_env evaluated_db 1 = Inr finalized_db"
  by (simp add: stage5_def lock_at_def evaluated_db_def finalized_db_def evaluated_run_def run_by_id_def new_run_def sample_env_def
      stamp_work_completion_def TERMINAL_IMPORT_def save_run_def run_checks_def replace_by_def sample_start_def sample_spec'_def
      sample_shape_def start_class_def is_runtime_def lift_stop_def created_db_def)

lemma evaluated_row: "run_by_id evaluated_db 1 = Some evaluated_run"
  by (simp add: run_by_id_def evaluated_db_def evaluated_run_def new_run_def)

lemma evaluated_ok: "runs_ok sample_jobs evaluated_db"
  by (auto simp: runs_ok_def run_by_id_def evaluated_db_def evaluated_run_def new_run_def ok_defs sample_jobs_def
      terminal_status_def TERMINAL_RUN_STATUSES_def all_storages_def)

lemma final_steps: "steps (job_step sample_jobs sample_config) evaluated_db [ImportFinalized 1] finalized_db"
  using job_step.stage5 [OF sample_finalized] by (auto intro: steps.intros)

theorem work_completion_is_anchored_witness:
  "\<exists>p'. run_by_id finalized_db 1 = Some p' \<and> pr_import_state p' = IMPORT_FINALIZED \<and> pr_final_charge_op_at p' \<noteq> None"
proof -
  obtain p' where p': "run_by_id finalized_db 1 = Some p'" "pr_final_charge_op_at p' \<noteq> None \<longleftrightarrow>
      pr_import_state p' \<in> {IMPORT_FINALIZED, IMPORT_REJECTED} \<and> pr_storage_state p' = STORAGE_DELETED"
    using work_completion_is_anchored [OF final_steps sample_poll_cap evaluated_ok evaluated_row] by blast
  moreover have "pr_import_state p' = IMPORT_FINALIZED \<and> pr_storage_state p' = STORAGE_DELETED"
    using p'(1) by (auto simp: run_by_id_def finalized_db_def evaluated_run_def new_run_def)
  ultimately show ?thesis by simp
qed

theorem decided_imports_stay_witness:
  "\<exists>p'. run_by_id finalized_db 1 = Some p' \<and> import_rank (pr_import_state evaluated_run) \<le> import_rank (pr_import_state p')
     \<and> pr_import_state p' = IMPORT_FINALIZED"
proof -
  obtain p' where "run_by_id finalized_db 1 = Some p'" "import_rank (pr_import_state evaluated_run) \<le> import_rank (pr_import_state p')"
    using decided_imports_stay [OF final_steps sample_poll_cap evaluated_row] by blast
  moreover from this have "pr_import_state p' = IMPORT_FINALIZED"
    by (auto simp: run_by_id_def finalized_db_def evaluated_run_def new_run_def)
  ultimately show ?thesis by simp
qed

section \<open>Cleanup\<close>

text \<open>A finished run whose dataset the client reports deleted and whose store answers 404, which is not trusted.\<close>

definition finished_run :: provider_run where
  "finished_run = (new_run sample_start sample_spec' 1000 2000 1)\<lparr>pr_external_id := Some ''r1'', pr_key := Some ''apify:r1'',
     pr_remote_status := Some ''SUCCEEDED'', pr_remote_terminal_at := Some 1500, pr_import_state := IMPORT_FINALIZED,
     pr_dataset_id := Some ''d1'', pr_kv_store_id := Some ''k1''\<rparr>"

definition finished_db :: ledger_db where "finished_db = created_db\<lparr>runs := [finished_run]\<rparr>"

definition sample_cleanup :: cleanup_world where
  "sample_cleanup = \<lparr>cw_begin_at = usec_per_day, cw_abort = Inl API_RESPONSE_TOO_LARGE, cw_abort_at = usec_per_day,
     cw_read = Inl API_RESPONSE_TOO_LARGE, cw_read_at = usec_per_day,
     cw_delete = (\<lambda>x. case x of DATASET \<Rightarrow> Inr False | KV_STORE \<Rightarrow> Inr True), cw_finish_at = usec_per_day,
     cw_schedule = (\<lambda>_. Inr ())\<rparr>"

definition cleaned_run :: provider_run where
  "cleaned_run = finished_run\<lparr>pr_cleanup_attempts := 1, pr_verified_deleted := [DATASET],
     pr_cleanup_errors := Some [AbsentNotTrusted KV_STORE], pr_next_attempt_at := Some (usec_per_day + 60000000)\<rparr>"

lemma sample_retry: "retry_delay 1 = Inr 60000000" "date_add usec_per_day 60000000 = Inr (usec_per_day + 60000000)"
  by (simp_all add: retry_delay_def backoff_delay_def UNIT_BACKOFF_BASE_def UNIT_BACKOFF_MAX_def timedelta_ok_def timedelta_defs
      date_add_def in_datetime_range_def datetime_min_def datetime_max_def Let_def)

lemma sample_cleaned:
  "attempt_cleanup sample_jobs sample_config False sample_cleanup finished_db 1 = (created_db\<lparr>runs := [cleaned_run]\<rparr>, Inr ())"
proof -
  have b: "begin_attempt sample_jobs sample_config finished_db 1 False usec_per_day
      = Inr (created_db\<lparr>runs := [finished_run\<lparr>pr_cleanup_attempts := 1\<rparr>]\<rparr>,
          Some \<lparr>at_run_id = ''r1'', at_observed_terminal = True, at_pending = [DATASET, KV_STORE]\<rparr>)"
    by (simp add: begin_attempt_def finished_db_def finished_run_def run_by_id_def new_run_def save_run_def run_checks_def replace_by_def
        sample_start_def sample_spec'_def sample_shape_def start_class_def is_runtime_def terminal_status_def TERMINAL_RUN_STATUSES_def
        sample_jobs_def all_storages_def created_db_def)
  have f: "finish_attempt sample_jobs sample_config (created_db\<lparr>runs := [finished_run\<lparr>pr_cleanup_attempts := 1\<rparr>]\<rparr>) 1 [DATASET]
      [AbsentNotTrusted KV_STORE] usec_per_day = Inr (created_db\<lparr>runs := [cleaned_run]\<rparr>)"
    by (simp add: finish_attempt_def finished_run_def cleaned_run_def run_by_id_def new_run_def save_run_def run_checks_def replace_by_def
        sample_start_def sample_spec'_def sample_shape_def start_class_def is_runtime_def verify_deleted_def all_storages_def
        sample_retry sample_retry [unfolded One_nat_def] sample_jobs_def created_db_def)
  have p: "delete_pending sample_jobs sample_cleanup (finished_run\<lparr>pr_cleanup_attempts := 1\<rparr>) [DATASET, KV_STORE]
      = Inr ([DATASET], [AbsentNotTrusted KV_STORE])"
    by (simp add: delete_storage_def storage_id_of_def finished_run_def sample_cleanup_def sample_jobs_def)
  have r: "run_by_id (created_db\<lparr>runs := [finished_run\<lparr>pr_cleanup_attempts := 1\<rparr>]\<rparr>) 1 = Some (finished_run\<lparr>pr_cleanup_attempts := 1\<rparr>)"
    by (simp add: run_by_id_def finished_run_def new_run_def)
  have t: "cw_begin_at sample_cleanup = usec_per_day" "cw_finish_at sample_cleanup = usec_per_day" by (simp_all add: sample_cleanup_def)
  show ?thesis
    by (simp add: attempt_cleanup_def txn_def followed_by_def commit_def t b f [unfolded One_nat_def] p [unfolded One_nat_def]
        r [unfolded One_nat_def] del: delete_pending.simps)
qed

theorem deletes_need_terminal_evidence_witness:
  "pr_verified_deleted cleaned_run = [DATASET] \<and> pr_remote_status cleaned_run = Some ''SUCCEEDED''
     \<and> terminal_status (pr_remote_status cleaned_run) \<and> cw_delete sample_cleanup DATASET = Inr False"
proof -
  have rows: "run_by_id finished_db 1 = Some finished_run" "run_by_id (created_db\<lparr>runs := [cleaned_run]\<rparr>) 1 = Some cleaned_run"
    "DATASET \<in> set (pr_verified_deleted cleaned_run)" "DATASET \<notin> set (pr_verified_deleted finished_run)"
    by (simp_all add: run_by_id_def finished_db_def finished_run_def cleaned_run_def new_run_def)
  have "pr_verified_deleted cleaned_run = [DATASET]" "pr_remote_status cleaned_run = Some ''SUCCEEDED''"
    by (simp_all add: cleaned_run_def finished_run_def)
  then show ?thesis using deletes_need_terminal_evidence [OF sample_cleaned rows] by (simp add: sample_jobs_def)
qed

text \<open>An overdue run last seen running: the abort and the read that should confirm its end are answered over the cap.\<close>

definition running_run :: provider_run where
  "running_run = finished_run\<lparr>pr_remote_status := Some ''RUNNING'', pr_remote_terminal_at := None\<rparr>"

definition running_db :: ledger_db where "running_db = created_db\<lparr>runs := [running_run]\<rparr>"

definition over_cap_errors :: "cleanup_error list" where
  "over_cap_errors = [AbortFailed API_RESPONSE_TOO_LARGE, ReadFailed API_RESPONSE_TOO_LARGE]"

definition over_cap_db :: ledger_db where
  "over_cap_db = created_db\<lparr>runs := [running_run\<lparr>pr_cleanup_attempts := 1, pr_cleanup_errors := Some over_cap_errors,
     pr_next_attempt_at := Some (usec_per_day + 60000000)\<rparr>]\<rparr>"

lemma sample_over_cap:
  "attempt_cleanup sample_jobs sample_config True sample_cleanup running_db 1 = (over_cap_db, Inr ())"
proof -
  have b: "begin_attempt sample_jobs sample_config running_db 1 True usec_per_day
      = Inr (created_db\<lparr>runs := [running_run\<lparr>pr_cleanup_attempts := 1\<rparr>]\<rparr>,
          Some \<lparr>at_run_id = ''r1'', at_observed_terminal = False, at_pending = [DATASET, KV_STORE]\<rparr>)"
    by (simp add: begin_attempt_def running_db_def running_run_def finished_run_def run_by_id_def new_run_def save_run_def run_checks_def
        replace_by_def sample_start_def sample_spec'_def sample_shape_def start_class_def is_runtime_def terminal_status_def
        TERMINAL_RUN_STATUSES_def sample_jobs_def all_storages_def created_db_def)
  have c: "confirm_terminal sample_config db k sample_cleanup = (db, Inr over_cap_errors)" for db k
    by (simp add: confirm_terminal_def sample_cleanup_def is_apify_error_def API_RESPONSE_TOO_LARGE_def over_cap_errors_def)
  have f: "finish_attempt sample_jobs sample_config (created_db\<lparr>runs := [running_run\<lparr>pr_cleanup_attempts := 1\<rparr>]\<rparr>) 1 []
      over_cap_errors usec_per_day = Inr over_cap_db"
    by (simp add: finish_attempt_def running_run_def finished_run_def over_cap_db_def run_by_id_def new_run_def save_run_def run_checks_def
        replace_by_def sample_start_def sample_spec'_def sample_shape_def start_class_def is_runtime_def verify_deleted_def all_storages_def
        sample_retry sample_retry [unfolded One_nat_def] sample_jobs_def created_db_def)
  have t: "cw_begin_at sample_cleanup = usec_per_day" "cw_finish_at sample_cleanup = usec_per_day" by (simp_all add: sample_cleanup_def)
  have "over_cap_errors \<noteq> []" by (simp add: over_cap_errors_def)
  then show ?thesis
    by (simp add: attempt_cleanup_def txn_def followed_by_def commit_def t b c f [unfolded One_nat_def])
qed

theorem over_cap_cleanup_trips_nothing_witness:
  "(\<exists>p. run_by_id over_cap_db 1 = Some p \<and> pr_cleanup_errors p = Some over_cap_errors)
     \<and> {t. t \<in> trip_keys over_cap_db \<and> fst t = API_RESPONSE_OVER_CAP} = {}"
proof -
  have w: "cw_abort sample_cleanup = Inl API_RESPONSE_TOO_LARGE" "cw_read sample_cleanup = Inl API_RESPONSE_TOO_LARGE"
    by (simp_all add: sample_cleanup_def)
  have "trip_keys running_db = {}" by (simp add: trip_keys_def running_db_def created_db_def empty_db_def)
  then have "{t. t \<in> trip_keys over_cap_db \<and> fst t = API_RESPONSE_OVER_CAP} = {}"
    using over_cap_cleanup_trips_nothing [OF w sample_over_cap] by simp
  then show ?thesis by (simp add: run_by_id_def over_cap_db_def running_run_def finished_run_def new_run_def)
qed

definition cut_off :: cleanup_world where
  "cut_off = sample_cleanup\<lparr>cw_delete := (\<lambda>x. case x of DATASET \<Rightarrow> Inr False | KV_STORE \<Rightarrow> Inl (TransportError ''ReadTimeout''))\<rparr>"

theorem transport_failure_loses_progress_witness:
  "\<exists>db' p. attempt_cleanup sample_jobs sample_config False cut_off finished_db 1 = (db', Inl (CallError (TransportError ''ReadTimeout'')))
     \<and> run_by_id db' 1 = Some p \<and> pr_cleanup_attempts p = 1 \<and> pr_verified_deleted p = []"
proof -
  have row: "run_by_id finished_db 1 = Some finished_run"
    by (simp add: run_by_id_def finished_db_def finished_run_def new_run_def)
  have p: "pr_storage_state finished_run \<noteq> STORAGE_DELETED" "pr_orphaned_at finished_run = None" "pr_external_id finished_run = Some ''r1''"
    "terminal_status (pr_remote_status finished_run)" "int (pr_cleanup_attempts finished_run) < js_max_delete_attempts sample_jobs"
    "pr_verified_deleted finished_run = []" "pr_dataset_id finished_run = Some ''d1''" "pr_kv_store_id finished_run = Some ''k1''"
    by (simp_all add: finished_run_def new_run_def sample_jobs_def terminal_status_def TERMINAL_RUN_STATUSES_def)
  have c: "cw_delete cut_off DATASET = Inr False" "cw_delete cut_off KV_STORE = Inl (TransportError ''ReadTimeout'')"
    by (simp_all add: cut_off_def)
  have save: "\<exists>db1. save_run finished_db (finished_run\<lparr>pr_cleanup_attempts := pr_cleanup_attempts finished_run + 1\<rparr>) = Inr db1"
    by (simp add: save_run_def run_checks_def finished_db_def finished_run_def new_run_def sample_start_def sample_spec'_def
        sample_shape_def start_class_def is_runtime_def)
  then obtain db1 where s: "save_run finished_db (finished_run\<lparr>pr_cleanup_attempts := pr_cleanup_attempts finished_run + 1\<rparr>) = Inr db1" ..
  obtain db' r where a: "attempt_cleanup sample_jobs sample_config False cut_off finished_db 1 = (db', r)" by fastforce
  show ?thesis using transport_failure_loses_progress [OF row p c a s] a p(6) by (simp add: finished_run_def new_run_def)
qed

end
