(* ===== verification/TickSample.thy ===== *)
theory TickSample
  imports JobSample
begin

text \<open>A start on the ledger of the first reservation: answered as asked, and answered with half the memory.\<close>

definition started_answer :: api_run where
  "started_answer = \<lparr>ap_id = ''r1'', ap_status = ''READY'', ap_started_at = Some 1100, ap_finished_at = None,
     ap_build_number = Some ''1.4.2'', ap_total = None, ap_usage_usd = None, ap_usage = None, ap_unparseable = [],
     ap_build_id = Some ''b1'', ap_dataset_id = Some ''d1'', ap_kv_store_id = Some ''k1'', ap_memory_mbytes = Some 1024,
     ap_timeout_secs = Some 900, ap_build_tag = None, ap_restart_on_error = None, ap_restart_count = None\<rparr>"

definition start_meets :: "api_run \<Rightarrow> start_world" where
  "start_meets a = \<lparr>sw_admitted_at = usec_per_day, sw_reserved_at = sample_now, sw_answer = Inr a, sw_answered_at = usec_per_day,
     sw_schedule = (\<lambda>_. Inr ()), sw_abort = None, sw_aborted_at = usec_per_day\<rparr>"

definition half_memory :: api_run where "half_memory = started_answer\<lparr>ap_memory_mbytes := Some 512\<rparr>"

definition start_due :: instant where "start_due = usec_per_day + 86400000000"

definition run3 :: provider_run where "run3 = new_run sample_start sample_spec' usec_per_day start_due 3"

definition attached_db :: ledger_db where
  "attached_db = reserved_db\<lparr>runs := [run3], reservations := [first_row\<lparr>rv_run := Some 3\<rparr>], next_id := 4\<rparr>"

lemma sample_guards:
  "start_guards sample_jobs sample_start usec_per_day authorised_db = Inr (Inr (sample_spec', start_due))"
  by (simp add: start_guards_def sample_start_def sample_spec'_def sample_jobs_def storage_cleanup_deadline_def timedelta_ok_def
      timedelta_defs date_add_def in_datetime_range_def datetime_min_def datetime_max_def sample_shape_def Let_def
      has_outstanding_full_run_def authorised_fields start_due_def)

lemma sample_admitted:
  "admit_start sample_config sample_start sample_spec' sample_now authorised_db
     = Inr (reserved_db, \<lparr>oc_admitted = True, oc_reason = None, oc_id = 2, oc_estimate = Some sample_estimate\<rparr>)"
proof -
  have "mk_admission_request \<lparr>req_class = start_class (sr_kind sample_start) sample_spec',
      req_run = Some (sp_shape sample_spec'), req_operator_kind = None\<rparr> = Inr sample_request"
    by (simp add: mk_admission_request_def sample_start_def sample_spec'_def sample_request_def start_class_def)
  then show ?thesis using first_reserved by (simp add: admit_start_def lift_budget_def) (simp add: sample_start_def)
qed

lemma run3_ok: "run_fits run3" "run_checks db run3" "pr_site run3 = 7"
  by (simp_all add: list_all_iff run_fits_def run_checks_def run3_def new_run_def sample_start_def sample_spec'_def sample_shape_def
      start_class_def is_runtime_def)

lemma sample_attached: "create_run reserved_db (new_run sample_start sample_spec' usec_per_day start_due) (Some 2) = Inr (Some (attached_db, 3))"
proof -
  have id: "next_id reserved_db = 3" by (simp add: reserved_db_def)
  have i: "insert_run reserved_db run3 = Inr (reserved_db\<lparr>runs := [run3], next_id := 4\<rparr>)"
    using run3_ok by (simp add: insert_run_def reserved_db_def authorised_fields)
  have row: "reservation_by_id (reserved_db\<lparr>runs := [run3], next_id := 4\<rparr>) 2 = Some first_row"
      "rv_status first_row = RESERVED" "rv_run first_row = None"
    by (simp_all add: reservation_by_id_def reserved_db_def first_row_def new_row_def)
  have fit: "reservation_fits (first_row\<lparr>rv_run := Some 3\<rparr>)" "reservation_checks (first_row\<lparr>rv_run := Some 3\<rparr>)"
    by (simp_all add: reservation_fits_def reservation_checks_def reservation_money_def first_row_def new_row_def
        sample_estimate_def sample_request_def is_runtime_def envelope_by_kind_def money_fits_def)
  have "save_reservation (reserved_db\<lparr>runs := [run3], next_id := 4\<rparr>) (first_row\<lparr>rv_run := Some 3\<rparr>) = Inr attached_db"
    using fit by (simp add: save_reservation_def reservation_unique_def reserved_db_def replace_by_def attached_db_def)
      (simp add: first_row_def new_row_def)
  then show ?thesis by (simp add: create_run_def id i row Let_def flip: run3_def)
qed

lemma sample_start_runs:
  "start_provider_run sample_jobs sample_config sample_start (start_meets a) authorised_db
     = start_answered sample_config (start_meets a) attached_db 3 a (start_mismatches a 1024 900 ''stable'')"
proof -
  have w: "sw_admitted_at (start_meets a) = usec_per_day" "sw_reserved_at (start_meets a) = sample_now" "sw_answer (start_meets a) = Inr a"
    by (simp_all add: start_meets_def)
  have b: "(case sr_build_tag sample_start of None \<Rightarrow> js_actor_build sample_jobs | Some b \<Rightarrow> b) = ''stable''"
      "memory_mb (sp_shape sample_spec') = 1024" "timeout_s (sp_shape sample_spec') = 900"
    by (simp_all add: sample_start_def sample_jobs_def sample_spec'_def sample_shape_def)
  show ?thesis unfolding start_provider_run_def w sample_guards Let_def sum.case prod.case b
    by (simp add: sample_admitted txn_def sample_attached)
qed

lemma authorised_ids: "\<forall>p \<in> set (runs authorised_db). pr_id p < next_id authorised_db"
  by (simp add: authorised_fields)

lemma attached_row: "run_by_id attached_db 3 = Some run3"
  by (simp add: run_by_id_def attached_db_def run3_def new_run_def)

lemma sample_started:
  "\<exists>db'. start_provider_run sample_jobs sample_config sample_start (start_meets started_answer) authorised_db
     = (db', Inr (RUN_STARTED 3))"
proof -
  have m: "start_mismatches started_answer 1024 900 ''stable'' = []"
    by (simp add: start_mismatches_def started_answer_def before_dot_def CONTRACT_MAJOR_def INPUT_SCHEMA_VERSION_def)
  have "\<exists>db'. record_start attached_db 3 started_answer [] t = Inr db'" for t
    by (simp add: record_start_def attached_row apply_run_fields_def Let_def save_run_def run_checks_def started_answer_def
        terminal_status_def TERMINAL_RUN_STATUSES_def)
      (simp add: run3_def new_run_def attached_db_def sample_start_def sample_spec'_def sample_shape_def start_class_def is_runtime_def)
  then obtain db' where "record_start attached_db 3 started_answer [] (sw_answered_at (start_meets started_answer)) = Inr db'" by blast
  then show ?thesis by (intro exI [of _ db']) (simp add: sample_start_runs m start_answered_def commit_def)
qed

theorem started_runs_are_paid_for_witness:
  "\<exists>db' p q. start_provider_run sample_jobs sample_config sample_start (start_meets started_answer) authorised_db
     = (db', Inr (RUN_STARTED 3)) \<and> run_by_id db' 3 = Some p \<and> pr_external_id p = Some ''r1'' \<and> pr_memory_mb p = 1024
     \<and> q \<in> set (reservations db') \<and> rv_run q = Some 3 \<and> rv_status q = RESERVED"
proof -
  obtain db' where s: "start_provider_run sample_jobs sample_config sample_start (start_meets started_answer) authorised_db
     = (db', Inr (RUN_STARTED 3))" using sample_started by blast
  have w: "sw_answer (start_meets started_answer) = Inr a \<longleftrightarrow> a = started_answer" for a by (auto simp: start_meets_def)
  then have "\<exists>p q. run_by_id db' 3 = Some p \<and> pr_external_id p = Some (ap_id started_answer)
      \<and> ap_memory_mbytes started_answer = Some (pr_memory_mb p) \<and> q \<in> set (reservations db') \<and> rv_run q = Some 3 \<and> rv_status q = RESERVED"
    using started_runs_are_paid_for [OF s authorised_ids] by (simp only: w) blast
  then show ?thesis using s by (simp add: started_answer_def)
qed

lemma half_memory_differs: "start_mismatches half_memory 1024 900 ''stable'' = [MemoryDiffers]"
  by (simp add: start_mismatches_def half_memory_def started_answer_def before_dot_def CONTRACT_MAJOR_def INPUT_SCHEMA_VERSION_def)

definition answered_run :: provider_run where
  "answered_run = run3\<lparr>pr_external_id := Some ''r1'', pr_key := Some ''apify:r1'', pr_build_id := Some ''b1'',
     pr_build_number := Some ''1.4.2'', pr_dataset_id := Some ''d1'', pr_kv_store_id := Some ''k1'', pr_remote_status := Some ''READY'',
     pr_started_at := Some 1100, pr_start_mismatch := [MemoryDiffers], pr_cleanup_attempts := 1\<rparr>"

definition mismatch_trip :: latch_trip where
  "mismatch_trip = \<lparr>la_tripped_at = usec_per_day, la_run = Some 3, la_reason = START_OPTION_MISMATCH, la_cleared = None,
     la_version = estimator_version (budget sample_config)\<rparr>"

lemma sample_aborted:
  "start_provider_run sample_jobs sample_config sample_start (start_meets half_memory) authorised_db
     = (attached_db\<lparr>runs := [answered_run\<lparr>pr_import_state := IMPORT_REJECTED, pr_reject_reason := Some START_MISMATCHED\<rparr>],
          trips := [mismatch_trip]\<rparr>, Inr (MISMATCH_ABORTED 3 [MemoryDiffers]))"
proof -
  have rec: "record_start attached_db 3 half_memory [MemoryDiffers] usec_per_day = Inr (attached_db\<lparr>runs := [answered_run]\<rparr>)"
    by (simp add: record_start_def attached_row apply_run_fields_def Let_def save_run_def run_checks_def half_memory_def started_answer_def
        terminal_status_def TERMINAL_RUN_STATUSES_def)
      (simp add: run3_def new_run_def attached_db_def sample_start_def sample_spec'_def
        sample_shape_def start_class_def is_runtime_def answered_run_def replace_by_def)
  have t: "trip START_OPTION_MISMATCH (Some 3) sample_config usec_per_day (attached_db\<lparr>runs := [answered_run]\<rparr>)
      = Inr (attached_db\<lparr>runs := [answered_run], trips := [mismatch_trip]\<rparr>)"
    by (simp add: trip_def trip_latch_locked_def insert_trip_def latch_checks_def attached_db_def reserved_db_def authorised_fields
        mismatch_trip_def sample_config_def sample_settings_def)
  have rj: "reject_mismatch (\<lambda>_. Inr ()) (attached_db\<lparr>runs := [answered_run], trips := [mismatch_trip]\<rparr>) 3 usec_per_day
      = Inr (attached_db\<lparr>runs := [answered_run\<lparr>pr_import_state := IMPORT_REJECTED, pr_reject_reason := Some START_MISMATCHED\<rparr>],
          trips := [mismatch_trip]\<rparr>)"
    by (simp add: reject_mismatch_def reject_import_def run_by_id_def answered_run_def run3_def new_run_def TERMINAL_IMPORT_def
        stamp_work_completion_def save_run_def run_checks_def sample_start_def sample_spec'_def sample_shape_def start_class_def
        is_runtime_def replace_by_def)
  have w: "sw_answered_at (start_meets half_memory) = usec_per_day" "sw_abort (start_meets half_memory) = None"
      "sw_schedule (start_meets half_memory) = (\<lambda>_. Inr ())"
    by (simp_all add: start_meets_def)
  show ?thesis by (simp add: sample_start_runs half_memory_differs start_answered_def w rec commit_def t rj)
qed

theorem mismatched_starts_are_rejected_witness:
  "\<exists>db'. start_provider_run sample_jobs sample_config sample_start (start_meets half_memory) authorised_db
       = (db', Inr (MISMATCH_ABORTED 3 [MemoryDiffers]))
     \<and> (\<exists>p. run_by_id db' 3 = Some p \<and> pr_import_state p = IMPORT_REJECTED) \<and> (\<exists>t \<in> set (trips db'). la_run t = Some 3)"
  using mismatched_starts_are_rejected [OF sample_aborted authorised_ids] sample_aborted by blast

section \<open>Ticks\<close>

text \<open>A finished run whose import has failed 41 times and crashes once more.\<close>

definition failing_run :: provider_run where
  "failing_run = finished_run\<lparr>pr_import_state := IMPORT_PENDING, pr_unit_failures := Some 41\<rparr>"

definition failing_db :: ledger_db where "failing_db = created_db\<lparr>runs := [failing_run]\<rparr>"

definition unanswered :: "'a read_world" where
  "unanswered = \<lparr>rw_plan_at = usec_per_day, rw_answer = Inl no_call, rw_read_at = usec_per_day, rw_complete_at = sample_now\<rparr>"

definition crashing_env :: tick_env where
  "crashing_env = \<lparr>te_client_ok = True, te_sweep_at = usec_per_day, te_grace_s = None, te_active_at = usec_per_day,
     te_outstanding_at = usec_per_day, te_overdue_at = usec_per_day, te_builds_at = usec_per_day, te_monitoring_at = usec_per_day,
     te_failed_at = (\<lambda>_. usec_per_day), te_poll = (\<lambda>_. unanswered),
     te_outstanding = (\<lambda>_. \<lparr>ow_settle = unanswered, ow_cleanup = sample_cleanup,
       ow_import = sample_env\<lparr>ie_start := 1500, ie_fetch := Inl (Crashed (OtherError ''OSError''))\<rparr>, ow_reject_at = usec_per_day\<rparr>),
     te_overdue = (\<lambda>_. sample_cleanup), te_build = (\<lambda>_. unanswered), te_monitor = (\<lambda>_. unanswered)\<rparr>"

lemma quiet_sweep: "fst (sweeps sample_jobs sample_config crashing_env failing_db) = failing_db"
proof -
  have r: "run_by_id failing_db 1 = Some failing_run" "map pr_id (runs failing_db) = [1]"
    by (simp_all add: run_by_id_def failing_db_def failing_run_def finished_run_def new_run_def)
  have "stranded_orphans failing_db = []" "stranded_exhausted sample_jobs failing_db = []" "unrecorded_start_refusals failing_db = []"
    by (simp_all add: stranded_orphans_def stranded_exhausted_def keys_where_def r)
      (simp_all add: failing_run_def finished_run_def new_run_def sample_jobs_def unrecorded_start_refusals_def failing_db_def)
  then have "trip_stranded_latches sample_jobs sample_config t failing_db = Inr (failing_db, [])" for t
    by (simp add: trip_stranded_latches_def)
  moreover have "release_unattached_reservations failing_db t None = Inr (failing_db, [])" for t
    by (simp add: release_unattached_reservations_def)
  ultimately show ?thesis by (simp add: sweeps_def crashing_env_def)
qed

definition crashed_db :: ledger_db where
  "crashed_db = created_db\<lparr>runs := [failing_run\<lparr>pr_import_attempts := 1, pr_dataset_reads := 1, pr_kv_reads := 1\<rparr>]\<rparr>"

lemma failing_selected:
  "select_active sample_jobs failing_db t = []" "select_outstanding sample_jobs failing_db t = [1]"
  by (simp_all add: select_active_def select_outstanding_def failing_db_def failing_run_def finished_run_def new_run_def due_def
      terminal_status_def TERMINAL_RUN_STATUSES_def TERMINAL_IMPORT_def)

lemma failing_import:
  "outstanding_unit sample_jobs sample_config (te_outstanding crashing_env 1) failing_db 1
     = (crashed_db, Inl (OtherError ''OSError''))"
proof -
  let ?e = "sample_env\<lparr>ie_start := 1500, ie_fetch := Inl (Crashed (OtherError ''OSError''))\<rparr>"
  have row: "run_by_id failing_db 1 = Some failing_run" "pr_import_state failing_run = IMPORT_PENDING" "pr_start_mismatch failing_run = []"
      "pr_id failing_run = 1"
    by (simp_all add: run_by_id_def failing_db_def failing_run_def finished_run_def new_run_def)
  have zero: "pr_import_attempts failing_run = 0" "pr_dataset_reads failing_run = 0" "pr_kv_reads failing_run = 0" "runs failing_db = [failing_run]"
    by (simp_all add: failing_db_def failing_run_def finished_run_def new_run_def)
  have ok: "run_checks db (failing_run\<lparr>pr_import_attempts := 1\<rparr>)"
      "run_checks db (failing_run\<lparr>pr_import_attempts := 1, pr_dataset_reads := 1, pr_kv_reads := 1\<rparr>)" if "runs db = [r]" "pr_id r = 1" for db r
    using that by (simp_all add: run_checks_def failing_run_def finished_run_def new_run_def sample_start_def sample_spec'_def
        sample_shape_def start_class_def is_runtime_def)
  let ?db = "failing_db\<lparr>runs := [failing_run\<lparr>pr_import_attempts := 1\<rparr>]\<rparr>"
  have c: "claim failing_db 1 = Inr ?db"
    using row zero by (simp add: claim_def TERMINAL_IMPORT_def save_run_def replace_by_def ok(1) del: One_nat_def)
  have row': "run_by_id ?db 1 = Some (failing_run\<lparr>pr_import_attempts := 1\<rparr>)" using row(4) by (simp add: run_by_id_def)
  have "run_checks ?db (failing_run\<lparr>pr_import_attempts := 1, pr_dataset_reads := 1, pr_kv_reads := 1\<rparr>)"
    by (rule ok(2) [of _ "failing_run\<lparr>pr_import_attempts := 1\<rparr>"]) (use row in simp_all)
  then have n: "count_reads sample_jobs ?db 1 = Inr crashed_db"
    using row zero by (simp add: count_reads_def lock_at_def row' lift_stop_def save_run_def replace_by_def sample_jobs_def
        del: One_nat_def) (simp add: crashed_db_def failing_db_def)
  have g: "stage1_guard ?e (failing_run\<lparr>pr_import_attempts := 1\<rparr>) = Inr ()"
    by (simp add: stage1_guard_def sample_env_def failing_run_def finished_run_def new_run_def)
  have st: "stage1 sample_jobs sample_config ?e ?db (failing_run\<lparr>pr_import_attempts := 1\<rparr>) = (crashed_db, Inl (Crashed (OtherError ''OSError'')))"
    using row n g by (simp add: stage1_def keep_db_def)
  have rs: "run_stage sample_jobs sample_config ?e ?db (failing_run\<lparr>pr_import_attempts := 1\<rparr>)
      = (crashed_db, Inl (Crashed (OtherError ''OSError'')))"
    using row(2) st by (simp add: run_stage_def)
  have "import_loop (Suc n) sample_jobs sample_config ?e ?db 1 = Some (crashed_db, Inl (Crashed (OtherError ''OSError'')))" for n
    using row(2) unfolding import_loop.simps(2) row' option.case rs by (simp add: TERMINAL_IMPORT_def)
  from this [of 5] have "import_loop 6 sample_jobs sample_config ?e ?db 1 = Some (crashed_db, Inl (Crashed (OtherError ''OSError'')))"
    by (simp only: eval_nat_numeral BitM.simps)
  then have "import_provider_run sample_jobs sample_config ?e failing_db 1 = (crashed_db, Inl (OtherError ''OSError''))"
    using row(2) unfolding import_provider_run_def row(1) option.case c by (simp add: TERMINAL_IMPORT_def handle_stop_def)
  moreover have "ow_import (te_outstanding crashing_env 1) = ?e" by (simp add: crashing_env_def)
  ultimately show ?thesis using row by (simp add: outstanding_unit_def TERMINAL_IMPORT_def followed_by_def)
qed

theorem failing_run_stops_the_tick_witness:
  "snd (apify_poll_tick sample_jobs sample_config crashing_env failing_db) = Some (TickCrashed DateOverflow)
     \<and> fst (fst (apify_poll_tick sample_jobs sample_config crashing_env failing_db)) = crashed_db
     \<and> 1 \<in> set (select_outstanding sample_jobs crashed_db usec_per_day)"
proof -
  let ?p = "failing_run\<lparr>pr_import_attempts := 1, pr_dataset_reads := 1, pr_kv_reads := 1\<rparr>"
  obtain report where sw: "sweeps sample_jobs sample_config crashing_env failing_db = (failing_db, report)"
    using quiet_sweep by (cases "sweeps sample_jobs sample_config crashing_env failing_db") auto
  have env: "te_client_ok crashing_env" by (simp add: crashing_env_def)
  have p: "run_by_id crashed_db 1 = Some ?p" "pr_unit_failures ?p = Some 41" "outstanding_row sample_jobs crashed_db usec_per_day ?p"
    by (simp_all add: run_by_id_def crashed_db_def failing_run_def finished_run_def new_run_def outstanding_row_def due_def
        terminal_status_def TERMINAL_RUN_STATUSES_def TERMINAL_IMPORT_def)
  have "apify_poll_tick sample_jobs sample_config crashing_env failing_db
        = ((crashed_db, report\<lparr>tr_failed := tr_failed report @ [1]\<rparr>), Some (TickCrashed DateOverflow))
      \<and> (\<forall>now. outstanding_row sample_jobs crashed_db now ?p \<longrightarrow> 1 \<in> set (select_outstanding sample_jobs crashed_db now))"
    by (rule failing_run_stops_the_tick [OF env, where js = "[]" and ks = "[]" and err = "OtherError ''OSError''" and n = 41
          and ?st1.0 = "(failing_db, report)" and ?db1.0 = failing_db])
      (use p(2) in \<open>simp_all add: sw failing_selected failing_import p(1)\<close>)
  then show ?thesis using p(3) by simp
qed

definition stranded_db :: ledger_db where "stranded_db = created_db\<lparr>runs := [orphan_run]\<rparr>"

lemma sample_swept: "trip_stranded_latches sample_jobs sample_config 3000 stranded_db = Inr (orphan_db, [1])"
proof -
  have r: "run_by_id stranded_db 1 = Some orphan_run" "map pr_id (runs stranded_db) = [1]"
    by (simp_all add: run_by_id_def stranded_db_def orphan_run_def new_run_def)
  have o: "stranded_orphans stranded_db = [1]" "stranded_exhausted sample_jobs stranded_db = []"
    by (simp_all add: stranded_orphans_def stranded_exhausted_def keys_where_def r)
      (simp_all add: orphan_run_def new_run_def sample_jobs_def ever_tripped_def stranded_db_def created_db_def empty_db_def)
  have u: "unrecorded_start_refusals stranded_db = []" "unrecorded_start_refusals orphan_db = []"
    by (simp_all add: unrecorded_start_refusals_def stranded_db_def orphan_db_def orphan_run_def new_run_def)
  have t: "trip ORPHANED_START (Some 1) sample_config 3000 stranded_db = Inr orphan_db"
    by (simp add: trip_def trip_latch_locked_def insert_trip_def latch_checks_def stranded_db_def orphan_db_def orphan_trip_def
        created_db_def empty_db_def sample_config_def sample_settings_def) (simp add: orphan_run_def)
  show ?thesis by (simp add: trip_stranded_latches_def o t u trip_stranded_start_refusals_locked_def)
qed

theorem sweep_leaves_none_stranded_witness:
  "stranded_orphans stranded_db = [1] \<and> stranded_orphans orphan_db = [] \<and> trips orphan_db = [orphan_trip]"
proof -
  have "stranded_orphans orphan_db = []" using sweep_leaves_none_stranded [OF sample_swept] by blast
  moreover have "stranded_orphans stranded_db = [1]"
    by (simp add: stranded_orphans_def keys_where_def stranded_db_def run_by_id_def orphan_run_def new_run_def ever_tripped_def
        created_db_def empty_db_def)
  ultimately show ?thesis by (simp add: orphan_db_def)
qed

end
