(* ===== verification/EligValues.thy ===== *)
theory EligValues
  imports PyTime PyNum "HOL-Library.Char_ord" "HOL-Library.List_Lexorder"
begin

text \<open>
  The values the eligibility code passes around (\<open>eligibility/evaluate.py\<close>): plain JSON and its
  canonical text (\<open>json.dumps\<close> with sorted keys and no white space), the structured values of a
  clause's reason with \<open>_jsonable\<close>, the fixed-point text of a \<open>Decimal\<close>, and the text helpers of
  the clauses. Text is ASCII: \<open>casefold\<close> then is lower-casing.
\<close>

section \<open>Text\<close>

definition casefold :: "string \<Rightarrow> string" where
  "casefold s = map (\<lambda>c. let n = of_char c :: nat in if 65 \<le> n \<and> n \<le> 90 then char_of (n + 32) else c) s"

text \<open>\<open>t in s\<close> and \<open>str.startswith\<close>, \<open>str.removeprefix\<close>.\<close>

fun contains :: "string \<Rightarrow> string \<Rightarrow> bool" where
  "contains t [] = (t = [])"
| "contains t (c # s) = (take (length t) (c # s) = t \<or> contains t s)"

definition starts_with :: "string \<Rightarrow> string \<Rightarrow> bool" where
  "starts_with s p = (take (length p) s = p)"

definition remove_prefix :: "string \<Rightarrow> string \<Rightarrow> string" where
  "remove_prefix s p = (if starts_with s p then drop (length p) s else s)"

definition is_digit :: "char \<Rightarrow> bool" where
  "is_digit c = (let n = of_char c :: nat in 48 \<le> n \<and> n \<le> 57)"

definition is_lower :: "char \<Rightarrow> bool" where
  "is_lower c = (let n = of_char c :: nat in 97 \<le> n \<and> n \<le> 122)"

text \<open>\<open>matching.rules.cpu.socket_key\<close>.\<close>

definition socket_key :: "string \<Rightarrow> string" where
  "socket_key value =
     (let key = remove_prefix
            (filter (\<lambda>c. is_lower c \<or> is_digit c \<or> c = CHR ''+'') (casefold value)) ''socket''
      in remove_prefix key ''fc'')"

section \<open>Numbers as text\<close>

fun digits :: "nat \<Rightarrow> string" where
  "digits n = (if n < 10 then [char_of (48 + n)] else digits (n div 10) @ [char_of (48 + n mod 10)])"

declare digits.simps [simp del]

definition int_text :: "int \<Rightarrow> string" where
  "int_text i = (if i < 0 then CHR ''-'' # digits (nat (- i)) else digits (nat i))"

text \<open>
  \<open>format(d.normalize(), 'f')\<close>: the value's digits in fixed point without trailing zeros. The
  context of \<open>normalize\<close> rounds to 28 significant digits. \<open>frac_digits k r\<close> are the at most
  \<open>k\<close> digits of a fraction \<open>0 \<le> r < 1\<close> up to the last one that is not zero; a fraction with
  denominator \<open>q\<close> that ends at all ends within \<open>q\<close> digits.
\<close>

fun frac_digits :: "nat \<Rightarrow> rat \<Rightarrow> string" where
  "frac_digits 0 r = []"
| "frac_digits (Suc k) r =
     (if r = 0 then [] else char_of (48 + nat \<lfloor>r * 10\<rfloor>) # frac_digits k (r * 10 - of_int \<lfloor>r * 10\<rfloor>))"

definition fixed_text :: "rat \<Rightarrow> string" where
  "fixed_text x =
     (let a = \<bar>x\<bar>; f = frac_digits (nat (snd (quotient_of a))) (a - of_int \<lfloor>a\<rfloor>) in
      (if x < 0 then ''-'' else []) @ digits (nat \<lfloor>a\<rfloor>) @ (if f = [] then [] else CHR ''.'' # f))"

definition decimal_text :: "rat \<Rightarrow> string" where
  "decimal_text x = fixed_text (dround x)"

text \<open>\<open>Decimal(s)\<close> on fixed-point text: an optional sign, digits, and digits after a point. \<open>None\<close>
  stands for \<open>InvalidOperation\<close>.\<close>

definition digit_value :: "char \<Rightarrow> nat" where "digit_value c = of_char c - 48"

definition nat_of_digits :: "string \<Rightarrow> nat" where
  "nat_of_digits s = foldl (\<lambda>n c. n * 10 + digit_value c) 0 s"

definition parse_unsigned :: "string \<Rightarrow> rat option" where
  "parse_unsigned s =
     (let ip = takeWhile is_digit s; rest = drop (length ip) s in
      case rest of
        [] \<Rightarrow> if ip = [] then None else Some (of_nat (nat_of_digits ip))
      | c # f \<Rightarrow>
          if c = CHR ''.'' \<and> list_all is_digit f \<and> (ip \<noteq> [] \<or> f \<noteq> [])
          then Some (of_nat (nat_of_digits ip) + of_nat (nat_of_digits f) / 10 ^ length f)
          else None)"

definition parse_decimal :: "string \<Rightarrow> rat option" where
  "parse_decimal s =
     (case s of
        [] \<Rightarrow> None
      | c # t \<Rightarrow> if c = CHR ''-'' then map_option uminus (parse_unsigned t)
                 else if c = CHR ''+'' then parse_unsigned t else parse_unsigned s)"

section \<open>JSON\<close>

datatype json = JNull | JBool bool | JInt int | JStr string | JList "json list" | JObj "(string \<times> json) list"

text \<open>\<open>json.dumps(\<dots>, sort_keys=True, separators=(',', ':'))\<close> with the default \<open>ensure_ascii\<close>.\<close>

definition hex_digit :: "nat \<Rightarrow> char" where
  "hex_digit n = (if n < 10 then char_of (48 + n) else char_of (87 + n))"

definition escape_char :: "char \<Rightarrow> string" where
  "escape_char c =
     (let n = of_char c :: nat in
      if n = 34 then [CHR 0x5C, CHR 0x22]
      else if n = 92 then [CHR 0x5C, CHR 0x5C]
      else if n = 10 then [CHR 0x5C, CHR ''n'']
      else if n = 13 then [CHR 0x5C, CHR ''r'']
      else if n = 9 then [CHR 0x5C, CHR ''t'']
      else if n = 8 then [CHR 0x5C, CHR ''b'']
      else if n = 12 then [CHR 0x5C, CHR ''f'']
      else if n < 32 \<or> 126 < n then [CHR 0x5C, CHR ''u'', CHR ''0'', CHR ''0'', hex_digit (n div 16), hex_digit (n mod 16)]
      else [c])"

definition quote_text :: "string \<Rightarrow> string" where
  "quote_text s = [CHR 0x22] @ concat (map escape_char s) @ [CHR 0x22]"

fun join :: "string \<Rightarrow> string list \<Rightarrow> string" where
  "join sep [] = []"
| "join sep [x] = x"
| "join sep (x # y # ys) = x @ sep @ join sep (y # ys)"

text \<open>Sorting the keys of every object, and printing in the order given.\<close>

fun canon :: "json \<Rightarrow> json" where
  "canon (JList xs) = JList (map canon xs)"
| "canon (JObj kvs) = JObj (sort_key fst (map (\<lambda>(k, v). (k, canon v)) kvs))"
| "canon v = v"

fun print_json :: "json \<Rightarrow> string" where
  "print_json JNull = ''null''"
| "print_json (JBool b) = (if b then ''true'' else ''false'')"
| "print_json (JInt i) = int_text i"
| "print_json (JStr s) = quote_text s"
| "print_json (JList xs) = ''['' @ join '','' (map print_json xs) @ '']''"
| "print_json (JObj kvs) = ''{'' @ join '','' (map (\<lambda>(k, v). quote_text k @ '':'' @ print_json v) kvs) @ ''}''"

definition dumps :: "json \<Rightarrow> string" where "dumps v = print_json (canon v)"

section \<open>The values in a reason\<close>

datatype pyval = PNone | PBool bool | PInt int | PDec rat | PFloat rat | PStr string | PTime instant
  | PList "pyval list" | PDict "(string \<times> pyval) list"

text \<open>
  \<open>_jsonable\<close>. A \<open>datetime\<close> becomes its ISO text, which stays \<open>PTime\<close> here: the text is a function
  of the instant.
\<close>

fun jsonable :: "pyval \<Rightarrow> pyval" where
  "jsonable (PDec d) = PStr (decimal_text d)"
| "jsonable (PList xs) = PList (map jsonable xs)"
| "jsonable (PDict kvs) = PDict (map (\<lambda>(k, v). (k, jsonable v)) kvs)"
| "jsonable v = v"

definition py_option :: "('a \<Rightarrow> pyval) \<Rightarrow> 'a option \<Rightarrow> pyval" where
  "py_option f v = (case v of None \<Rightarrow> PNone | Some x \<Rightarrow> f x)"

section \<open>Digits\<close>

lemma is_digit_char: "n < 10 \<Longrightarrow> is_digit (char_of (48 + n))" for n :: nat
  by (simp add: is_digit_def Let_def)

lemma digit_value_char: "n < 10 \<Longrightarrow> digit_value (char_of (48 + n)) = n" for n :: nat
  by (simp add: digit_value_def)

lemma digits_ne: "digits n \<noteq> []"
  by (subst digits.simps) simp

lemma digits_digit: "list_all is_digit (digits n)"
proof (induction n rule: digits.induct)
  case (1 n)
  then show ?case by (subst digits.simps) (simp add: is_digit_char)
qed

lemma nat_of_digits_snoc: "nat_of_digits (s @ [c]) = nat_of_digits s * 10 + digit_value c"
  by (simp add: nat_of_digits_def)

lemma nat_of_digits_digits: "nat_of_digits (digits n) = n"
proof (induction n rule: digits.induct)
  case (1 n)
  show ?case
  proof (cases "n < 10")
    case True
    then show ?thesis by (subst digits.simps) (simp add: nat_of_digits_def digit_value_char)
  next
    case False
    then show ?thesis using 1 by (subst digits.simps) (simp add: nat_of_digits_snoc digit_value_char)
  qed
qed

lemma takeWhile_digits: "(xs = [] \<or> \<not> is_digit (hd xs)) \<Longrightarrow> takeWhile is_digit (digits n @ xs) = digits n"
  using digits_digit [of n] by (cases xs) (auto simp: list_all_iff takeWhile_append2)

lemma digits_unique:
  assumes "digits n @ xs = digits m @ ys" and "xs = [] \<or> \<not> is_digit (hd xs)" and "ys = [] \<or> \<not> is_digit (hd ys)"
  shows "n = m" and "xs = ys"
proof -
  have "digits n = digits m" using assms takeWhile_digits by metis
  then have "nat_of_digits (digits n) = nat_of_digits (digits m)" by simp
  then show "n = m" by (simp add: nat_of_digits_digits)
  with assms(1) show "xs = ys" by simp
qed

lemma hd_digits: "is_digit (hd (digits n @ xs))"
  using digits_digit [of n] digits_ne [of n] by (cases "digits n") auto

lemma hd_int_text: "(hd (int_text i @ xs) = CHR ''-'') = (i < 0)"
proof -
  have minus: "\<not> is_digit (CHR ''-'')" by (simp add: is_digit_def)
  show ?thesis using hd_digits [of "nat i" xs] minus by (auto simp: int_text_def)
qed

lemma int_text_unique:
  assumes e: "int_text i @ xs = int_text j @ ys" and s: "xs = [] \<or> \<not> is_digit (hd xs)" "ys = [] \<or> \<not> is_digit (hd ys)"
  shows "i = j \<and> xs = ys"
proof -
  have sg: "(i < 0) = (j < 0)" using hd_int_text [of i xs] hd_int_text [of j ys] e by simp
  show ?thesis
  proof (cases "i < 0")
    case True
    then have "digits (nat (- i)) @ xs = digits (nat (- j)) @ ys" using e sg by (simp add: int_text_def)
    from digits_unique [OF this s] show ?thesis using True sg by simp
  next
    case False
    then have "digits (nat i) @ xs = digits (nat j) @ ys" using e sg by (simp add: int_text_def)
    from digits_unique [OF this s] show ?thesis using False sg by simp
  qed
qed

section \<open>The printed fraction\<close>

lemma nat_of_digits_Cons: "nat_of_digits (c # s) = digit_value c * 10 ^ length s + nat_of_digits s"
proof -
  have "foldl (\<lambda>n c. n * 10 + digit_value c) a s = a * 10 ^ length s + foldl (\<lambda>n c. n * 10 + digit_value c) 0 s" for a
  proof (induction s arbitrary: a)
    case (Cons c s)
    show ?case using Cons [of "a * 10 + digit_value c"] Cons [of "digit_value c"] by (simp add: algebra_simps)
  qed simp
  from this [of "digit_value c"] show ?thesis by (simp add: nat_of_digits_def)
qed

lemma frac_digits_exact:
  assumes "0 \<le> r" and "r < 1" and "r * 10 ^ k = of_int m"
  shows "of_nat (nat_of_digits (frac_digits k r)) / 10 ^ length (frac_digits k r) = r
    \<and> list_all is_digit (frac_digits k r)"
  using assms
proof (induction k arbitrary: r m)
  case 0
  then have "(0::rat) \<le> of_int m" "of_int m < (1::rat)" by simp_all
  then have "m = 0" by (simp only: of_int_less_1_iff of_int_0_le_iff)
  then show ?case using 0 by (simp add: nat_of_digits_def)
next
  case (Suc k)
  show ?case
  proof (cases "r = 0")
    case False
    define d where "d = \<lfloor>r * 10\<rfloor>"
    define r' where "r' = r * 10 - of_int d"
    have d: "0 \<le> d" "d < 10" using Suc.prems by (simp_all add: d_def floor_less_iff)
    have r': "0 \<le> r'" "r' < 1" unfolding r'_def d_def by linarith+
    have "r' * 10 ^ k = of_int (m - d * 10 ^ k)"
      using Suc.prems(3) by (simp add: r'_def algebra_simps)
    from Suc.IH [OF r' this]
    have ih: "of_nat (nat_of_digits (frac_digits k r')) / 10 ^ length (frac_digits k r') = r'"
      "list_all is_digit (frac_digits k r')" by auto
    have dv: "of_nat (digit_value (char_of (48 + nat d))) = (of_int d :: rat)"
      using d by (simp add: digit_value_char)
    have "of_nat (nat_of_digits (frac_digits k r')) = r' * 10 ^ length (frac_digits k r')"
      using ih(1) by (simp add: field_simps)
    then show ?thesis
      using False d dv ih(2) is_digit_char [of "nat d"]
      by (simp add: d_def [symmetric] r'_def [symmetric] nat_of_digits_Cons field_simps) (simp add: r'_def algebra_simps)
  qed (simp add: nat_of_digits_def)
qed

lemma dvd_power_ten: "q dvd 10 ^ k \<Longrightarrow> \<exists>j\<le>q. q dvd 10 ^ j" for q :: nat
proof (induction q rule: less_induct)
  case (less q)
  show ?case
  proof (cases "q = 1")
    case True
    then show ?thesis by (intro exI [of _ 0]) simp
  next
    case False
    have q: "0 < q" using less.prems by (cases q) auto
    let ?g = "gcd q 10"
    have "?g \<noteq> 1"
    proof
      assume "?g = 1"
      then have "coprime q 10" by (simp add: coprime_iff_gcd_eq_1)
      then have "coprime q (10 ^ k)" by simp
      then have "is_unit q" using less.prems coprime_absorb_left by blast
      then show False using False by simp
    qed
    moreover have "0 < ?g" by simp
    ultimately have g: "2 \<le> ?g" by linarith
    obtain q' where q': "q = ?g * q'" using gcd_dvd1 [of q 10] by (elim dvdE)
    have pos: "0 < q'" using q q' by (cases q') auto
    have less': "q' < q" using g pos q' by (metis One_nat_def Suc_1 less_eq_Suc_le mult_le_mono1 nat_mult_1 less_le_trans mult_less_cancel2)
    have "q' dvd 10 ^ k" using less.prems q' dvd_mult_left [of q' ?g "10 ^ k"] by (metis mult.commute dvd_mult_left)
    then obtain j where j: "j \<le> q'" "q' dvd 10 ^ j" using less.IH [OF less'] by blast
    have "?g * q' dvd 10 * 10 ^ j" using j(2) by (intro mult_dvd_mono) simp_all
    then have "q dvd 10 ^ Suc j" using q' by simp
    moreover have "Suc j \<le> q" using j(1) less' by simp
    ultimately show ?thesis by blast
  qed
qed

text \<open>A value with finitely many decimals is printed exactly, and read back as itself.\<close>

lemma quotient_grid:
  assumes "x * 10 ^ k = of_int m" and "quotient_of x = (n, q)"
  shows "\<exists>m'. x * 10 ^ nat q = of_int m'"
proof -
  have q: "0 < q" and cop: "coprime n q" and x: "x = of_int n / of_int q"
    using assms(2) quotient_of_denom_pos quotient_of_coprime quotient_of_div by blast+
  have "of_int n * 10 ^ k = (of_int (m * q) :: rat)" using assms(1) q x by (simp add: field_simps)
  then have "n * 10 ^ k = m * q"
    by (metis of_int_eq_iff of_int_mult of_int_numeral of_int_power)
  then have "q dvd n * 10 ^ k" by simp
  then have "q dvd 10 ^ k" using cop by (simp add: coprime_commute coprime_dvd_mult_right_iff)
  then have "nat q dvd 10 ^ k" using q by (simp add: nat_dvd_iff)
  then obtain j where j: "j \<le> nat q" "nat q dvd 10 ^ j" using dvd_power_ten by blast
  then have "nat q dvd 10 ^ nat q" using le_imp_power_dvd dvd_trans by blast
  then have "q dvd 10 ^ nat q" using q by (simp add: nat_dvd_iff)
  then obtain c where c: "10 ^ nat q = q * c" by (elim dvdE)
  have "(10 :: rat) ^ nat q = of_int (10 ^ nat q)" by simp
  also have "\<dots> = of_int q * of_int c" by (simp only: c of_int_mult)
  finally have "x * 10 ^ nat q = of_int (n * c)" using q x by simp
  then show ?thesis by blast
qed

lemma fixed_text_frac:
  assumes "x * 10 ^ k = of_int m" and "0 \<le> x"
  defines "f \<equiv> frac_digits (nat (snd (quotient_of x))) (x - of_int \<lfloor>x\<rfloor>)"
  shows "of_nat (nat_of_digits f) / 10 ^ length f = x - of_int \<lfloor>x\<rfloor>" and "list_all is_digit f"
proof -
  obtain n q where nq: "quotient_of x = (n, q)" by (cases "quotient_of x")
  obtain m' where m': "x * 10 ^ nat q = of_int m'" using quotient_grid [OF assms(1) nq] by blast
  have e: "(x - of_int \<lfloor>x\<rfloor>) * 10 ^ nat q = of_int (m' - \<lfloor>x\<rfloor> * 10 ^ nat q)"
    using m' by (simp add: algebra_simps)
  have "0 \<le> x - of_int \<lfloor>x\<rfloor>" "x - of_int \<lfloor>x\<rfloor> < 1" by linarith+
  from frac_digits_exact [OF this e]
  show "of_nat (nat_of_digits f) / 10 ^ length f = x - of_int \<lfloor>x\<rfloor>" and "list_all is_digit f"
    unfolding f_def nq snd_conv by blast+
qed

lemma parse_unsigned_text:
  "list_all is_digit f \<Longrightarrow> parse_unsigned (digits n @ (if f = [] then [] else CHR ''.'' # f))
     = Some (of_nat n + of_nat (nat_of_digits f) / 10 ^ length f)"
proof -
  assume f: "list_all is_digit f"
  let ?t = "if f = [] then [] else CHR ''.'' # f"
  have "?t = [] \<or> \<not> is_digit (hd ?t)" by (simp add: is_digit_def)
  then have t: "takeWhile is_digit (digits n @ ?t) = digits n" by (rule takeWhile_digits)
  show ?thesis
    unfolding parse_unsigned_def Let_def t using f
    by (cases "f = []") (simp_all add: nat_of_digits_digits digits_ne, simp add: nat_of_digits_def)
qed

lemma parse_fixed_text:
  assumes "x * 10 ^ k = of_int m"
  shows "parse_decimal (fixed_text x) = Some x"
proof -
  let ?a = "\<bar>x\<bar>"
  let ?f = "frac_digits (nat (snd (quotient_of ?a))) (?a - of_int \<lfloor>?a\<rfloor>)"
  let ?u = "digits (nat \<lfloor>?a\<rfloor>) @ (if ?f = [] then [] else CHR ''.'' # ?f)"
  have "?a * 10 ^ k = \<bar>x * 10 ^ k\<bar>" by (simp add: abs_mult)
  also have "\<dots> = of_int \<bar>m\<bar>" unfolding assms by simp
  finally have "?a * 10 ^ k = of_int \<bar>m\<bar>" .
  note fr = fixed_text_frac [OF this abs_ge_zero]
  have "(0 :: int) \<le> \<lfloor>?a\<rfloor>" by simp
  then have n: "of_nat (nat \<lfloor>?a\<rfloor>) = (of_int \<lfloor>?a\<rfloor> :: rat)" by simp
  have u: "parse_unsigned ?u = Some ?a" using parse_unsigned_text [OF fr(2)] fr(1) n by simp
  have sign: "c = CHR ''-'' \<or> c = CHR ''+'' \<Longrightarrow> \<not> is_digit c" for c by (auto simp: is_digit_def)
  have hd: "is_digit (hd ?u)" by (rule hd_digits)
  have ne: "?u \<noteq> []" by (simp add: digits_ne)
  have ft: "fixed_text x = (if x < 0 then CHR ''-'' # ?u else ?u)" by (simp add: fixed_text_def Let_def)
  show ?thesis
  proof (cases "x < 0")
    case True
    then have "parse_decimal (fixed_text x) = map_option uminus (parse_unsigned ?u)"
      unfolding ft by (simp add: parse_decimal_def)
    then show ?thesis using u True by simp
  next
    case False
    obtain c t where ct: "?u = c # t" using ne by (cases ?u) auto
    then have "c \<noteq> CHR ''-''" "c \<noteq> CHR ''+''" using hd sign by auto
    then have "parse_decimal ?u = parse_unsigned ?u" unfolding ct by (simp add: parse_decimal_def)
    then show ?thesis using u False ft by simp
  qed
qed

section \<open>Canonical JSON is unambiguous\<close>

lemma hex_digit_inj: "hex_digit a = hex_digit b \<Longrightarrow> a < 16 \<Longrightarrow> b < 16 \<Longrightarrow> a = b"
proof -
  assume e: "hex_digit a = hex_digit b" and "a < 16" "b < 16"
  have v: "(of_char (hex_digit n) :: nat) = (if n < 10 then 48 + n else 87 + n)" if "n < 16" for n :: nat
    using that by (simp add: hex_digit_def)
  have "(of_char (hex_digit a) :: nat) = of_char (hex_digit b)" by (simp add: e)
  then show "a = b" using \<open>a < 16\<close> \<open>b < 16\<close> by (simp add: v split: if_splits)
qed

lemma of_char_inj: "(of_char c :: nat) = of_char d \<Longrightarrow> c = d"
  by (metis char_of_char)

lemma escape_char_ne: "escape_char c \<noteq> []" and hd_escape_char: "hd (escape_char c) \<noteq> CHR 0x22"
  by (auto simp: escape_char_def Let_def)

text \<open>The second character tells the escapes apart, two hexadecimal digits the code.\<close>

definition unshort :: "char \<Rightarrow> char" where
  "unshort x = (if x = CHR ''n'' then CHR 0x0A else if x = CHR ''r'' then CHR 0x0D else if x = CHR ''t'' then CHR 0x09
     else if x = CHR ''b'' then CHR 0x08 else if x = CHR ''f'' then CHR 0x0C else x)"

lemma of_char_eq_num:
  "(of_char c :: nat) = 34 \<longleftrightarrow> c = CHR 0x22" "(of_char c :: nat) = 92 \<longleftrightarrow> c = CHR 0x5C"
  "(of_char c :: nat) = 10 \<longleftrightarrow> c = CHR 0x0A" "(of_char c :: nat) = 13 \<longleftrightarrow> c = CHR 0x0D"
  "(of_char c :: nat) = 9 \<longleftrightarrow> c = CHR 0x09" "(of_char c :: nat) = 8 \<longleftrightarrow> c = CHR 0x08"
  "(of_char c :: nat) = 12 \<longleftrightarrow> c = CHR 0x0C"
  by (auto intro: of_char_inj)

lemma escape_char_cases:
  obtains (plain) "escape_char c = [c]" and "c \<noteq> CHR 0x5C"
  | (short) x where "escape_char c = [CHR 0x5C, x]" and "x \<noteq> CHR ''u''" and "c = unshort x"
  | (hex) "escape_char c = [CHR 0x5C, CHR ''u'', CHR ''0'', CHR ''0'', hex_digit (of_char c div 16), hex_digit (of_char c mod 16)]"
proof -
  let ?n = "of_char c :: nat"
  consider "?n = 34" | "?n = 92" | "?n = 10" | "?n = 13" | "?n = 9" | "?n = 8" | "?n = 12"
    | "?n \<notin> {34, 92, 10, 13, 9, 8, 12}" "?n < 32 \<or> 126 < ?n" | "?n \<notin> {34, 92, 10, 13, 9, 8, 12}" "\<not> (?n < 32 \<or> 126 < ?n)"
    by blast
  then show ?thesis
  proof cases
    case 8
    then have "escape_char c = [CHR 0x5C, CHR ''u'', CHR ''0'', CHR ''0'', hex_digit (?n div 16), hex_digit (?n mod 16)]"
      unfolding escape_char_def Let_def by simp
    then show ?thesis by (rule hex)
  next
    case 9
    then have "escape_char c = [c]" "c \<noteq> CHR 0x5C" unfolding escape_char_def Let_def by auto
    then show ?thesis by (rule plain)
  qed (auto simp: escape_char_def Let_def of_char_eq_num unshort_def intro: short split: if_splits)
qed

lemma escape_char_unique:
  assumes e: "escape_char c @ u = escape_char d @ v"
  shows "c = d \<and> u = v"
proof -
  have lt: "(of_char a :: nat) div 16 < 16" for a :: char
    using nat_of_char_less_256 [of a] by (simp add: div_less_iff_less_mult)
  show ?thesis
  proof (cases c rule: escape_char_cases)
    case plain
    then show ?thesis using e by (cases d rule: escape_char_cases) auto
  next
    case (short x)
    then show ?thesis using e by (cases d rule: escape_char_cases) auto
  next
    case hex
    show ?thesis
    proof (cases d rule: escape_char_cases)
      case hex2: hex
      have "hex_digit (of_char c div 16) = hex_digit (of_char d div 16)"
        "hex_digit (of_char c mod 16) = hex_digit (of_char d mod 16)" and uv: "u = v"
        using e unfolding hex hex2 by auto
      then have "(of_char c :: nat) div 16 = of_char d div 16" "(of_char c :: nat) mod 16 = of_char d mod 16"
        using hex_digit_inj lt by auto
      then have "(of_char c :: nat) = of_char d" by (metis div_mult_mod_eq)
      then show ?thesis using of_char_inj uv by blast
    qed (use e hex in auto)
  qed
qed

lemma quote_text_unique: "quote_text s @ u = quote_text t @ v \<Longrightarrow> s = t \<and> u = v"
proof -
  have "concat (map escape_char s) @ CHR 0x22 # u = concat (map escape_char t) @ CHR 0x22 # v \<Longrightarrow> s = t \<and> u = v"
  proof (induction s arbitrary: t)
    case Nil
    then show ?case
    proof (cases t)
      case (Cons d t')
      then show ?thesis using Nil hd_escape_char [of d] escape_char_ne [of d] by (cases "escape_char d") auto
    qed simp
  next
    case (Cons c s)
    then show ?case
    proof (cases t)
      case Nil
      then show ?thesis using Cons.prems hd_escape_char [of c] escape_char_ne [of c] by (cases "escape_char c") auto
    next
      case t: (Cons d t')
      have "escape_char c @ (concat (map escape_char s) @ CHR 0x22 # u) = escape_char d @ (concat (map escape_char t') @ CHR 0x22 # v)"
        using Cons.prems t by simp
      from escape_char_unique [OF this] show ?thesis using Cons.IH t by blast
    qed
  qed
  moreover assume "quote_text s @ u = quote_text t @ v"
  ultimately show ?thesis by (simp add: quote_text_def)
qed

text \<open>Whatever follows a printed value inside a document ends a number.\<close>

definition stops :: "string \<Rightarrow> bool" where
  "stops s \<longleftrightarrow> s = [] \<or> \<not> is_digit (hd s)"

lemma print_hd:
  "hd (print_json v @ s) =
     (case v of JNull \<Rightarrow> CHR ''n'' | JBool b \<Rightarrow> if b then CHR ''t'' else CHR ''f'' | JInt i \<Rightarrow> hd (int_text i)
      | JStr t \<Rightarrow> CHR 0x22 | JList xs \<Rightarrow> CHR ''['' | JObj kvs \<Rightarrow> CHR ''{'')"
proof (cases v)
  case (JInt i)
  have "int_text i \<noteq> []" by (simp add: int_text_def digits_ne)
  then show ?thesis using JInt by (cases "int_text i") auto
qed (simp_all add: quote_text_def)

lemma print_ne: "print_json v \<noteq> []"
  by (cases v) (simp_all add: int_text_def digits_ne quote_text_def)

lemma int_text_ne: "int_text i \<noteq> []"
  by (simp add: int_text_def digits_ne)

lemma hd_int_text_kind: "hd (int_text i) = CHR ''-'' \<or> is_digit (hd (int_text i))"
  using hd_digits [of "nat i" "[]"] by (auto simp: int_text_def)

lemma hd_digit_not:
  assumes "hd (int_text i) = c"
  shows "c \<noteq> CHR ''n''" "c \<noteq> CHR ''t''" "c \<noteq> CHR ''f''" "c \<noteq> CHR 0x22" "c \<noteq> CHR ''[''" "c \<noteq> CHR ''{''" "c \<noteq> CHR '']''"
    "c \<noteq> CHR '',''"
  using hd_int_text_kind [of i] assms by (auto simp: is_digit_def)

lemma hd_int_text_not:
  "hd (int_text i) \<noteq> CHR ''n''" "hd (int_text i) \<noteq> CHR ''t''" "hd (int_text i) \<noteq> CHR ''f''"
  "hd (int_text i) \<noteq> CHR 0x22" "hd (int_text i) \<noteq> CHR ''[''" "hd (int_text i) \<noteq> CHR ''{''"
  using hd_digit_not [of i, OF refl] by auto

lemmas int_head = hd_int_text_not hd_int_text_not [symmetric]

lemma print_not_close: "hd (print_json v @ s) \<noteq> CHR '']''" "hd (print_json v @ s) \<noteq> CHR '',''"
  unfolding print_hd by (cases v; simp; use hd_digit_not in blast)+

lemma stops_close: "stops (CHR '']'' # s)" "stops (CHR '','' # s)" "stops (CHR ''}'' # s)"
  by (simp_all add: stops_def is_digit_def)

text \<open>Two printed sequences, with the bracket that closes them. \<open>tail_text\<close> is what follows the first element.\<close>

fun tail_text :: "string list \<Rightarrow> string" where
  "tail_text [] = []"
| "tail_text (x # xs) = CHR '','' # x @ tail_text xs"

lemma join_tail: "join '','' (x # xs) = x @ tail_text xs"
  by (induction xs arbitrary: x) auto

definition item_unique :: "('a \<Rightarrow> string) \<Rightarrow> 'a \<Rightarrow> bool" where
  "item_unique f x \<longleftrightarrow> (\<forall>y u v. f x @ u = f y @ v \<longrightarrow> stops u \<longrightarrow> stops v \<longrightarrow> x = y \<and> u = v)"

lemma tail_stops: "c \<in> {CHR '']'', CHR ''}''} \<Longrightarrow> stops (tail_text xs @ c # u)"
  by (cases xs) (auto simp: stops_def is_digit_def)

lemma tail_unique:
  assumes "\<forall>x \<in> set xs. item_unique f x" and "c \<in> {CHR '']'', CHR ''}''}"
    and "tail_text (map f xs) @ c # u = tail_text (map f ys) @ c # v"
  shows "xs = ys \<and> u = v"
  using assms(1,3)
proof (induction xs arbitrary: ys)
  case Nil
  then show ?case using assms(2) by (cases ys) auto
next
  case (Cons x xs)
  obtain y ys' where ys: "ys = y # ys'" using Cons.prems(2) assms(2) by (cases ys) auto
  have "f x @ (tail_text (map f xs) @ c # u) = f y @ (tail_text (map f ys') @ c # v)"
    using Cons.prems(2) ys by simp
  moreover have "item_unique f x" using Cons.prems(1) by simp
  ultimately have "x = y" "tail_text (map f xs) @ c # u = tail_text (map f ys') @ c # v"
    using tail_stops [OF assms(2)] unfolding item_unique_def by blast+
  then show ?case using Cons.IH Cons.prems(1) ys by simp
qed

lemma join_unique:
  assumes "\<forall>x \<in> set xs. item_unique f x" and "c \<in> {CHR '']'', CHR ''}''}" and "\<And>y s. hd (f y @ s) \<noteq> c" and "\<And>y. f y \<noteq> []"
    and "join '','' (map f xs) @ c # u = join '','' (map f ys) @ c # v"
  shows "xs = ys \<and> u = v"
proof (cases xs)
  case Nil
  show ?thesis
  proof (cases ys)
    case (Cons y ys')
    have "hd (c # u) = hd (f y @ (tail_text (map f ys') @ c # v))"
      using assms(5) Nil Cons by (simp add: join_tail)
    then show ?thesis using assms(3) [of y "tail_text (map f ys') @ c # v"] by simp
  qed (use Nil assms(5) in simp)
next
  case (Cons x xs')
  show ?thesis
  proof (cases ys)
    case Nil
    have "hd (c # v) = hd (f x @ (tail_text (map f xs') @ c # u))"
      using assms(5) Nil Cons by (simp add: join_tail)
    then show ?thesis using assms(3) [of x "tail_text (map f xs') @ c # u"] by simp
  next
    case ys: (Cons y ys')
    have "f x @ (tail_text (map f xs') @ c # u) = f y @ (tail_text (map f ys') @ c # v)"
      using assms(5) Cons ys by (simp add: join_tail)
    moreover have "item_unique f x" using assms(1) Cons by simp
    ultimately have "x = y" "tail_text (map f xs') @ c # u = tail_text (map f ys') @ c # v"
      using tail_stops [OF assms(2)] unfolding item_unique_def by blast+
    then show ?thesis using tail_unique [of xs' f c u ys' v] assms(1,2) Cons ys by simp
  qed
qed

lemma print_json_unique: "item_unique print_json v"
proof (induction v)
  case JNull
  show ?case
    unfolding item_unique_def
  proof (intro allI impI)
    fix w u v assume e: "print_json JNull @ u = print_json w @ v"
    have "hd (print_json JNull @ u) = hd (print_json w @ v)" using e by simp
    then have "w = JNull" unfolding print_hd by (cases w) (simp_all add: int_head split: if_splits)
    then show "JNull = w \<and> u = v" using e by simp
  qed
next
  case (JBool b)
  show ?case
    unfolding item_unique_def
  proof (intro allI impI)
    fix w u v assume e: "print_json (JBool b) @ u = print_json w @ v"
    have "hd (print_json (JBool b) @ u) = hd (print_json w @ v)" using e by simp
    then have "w = JBool b" unfolding print_hd by (cases w) (simp_all add: int_head split: if_splits)
    then show "JBool b = w \<and> u = v" using e by simp
  qed
next
  case (JInt i)
  show ?case
    unfolding item_unique_def
  proof (intro allI impI)
    fix w u v assume e: "print_json (JInt i) @ u = print_json w @ v" and s: "stops u" "stops v"
    have hd: "hd (int_text i) = hd (print_json w @ v)"
      using arg_cong [OF e, of hd] int_text_ne [of i] by simp
    obtain j where "w = JInt j" using hd unfolding print_hd by (cases w) (auto simp: int_head split: if_splits)
    then show "JInt i = w \<and> u = v" using e s int_text_unique [of i u j v] by (simp add: stops_def)
  qed
next
  case (JStr t)
  show ?case
    unfolding item_unique_def
  proof (intro allI impI)
    fix w u v assume e: "print_json (JStr t) @ u = print_json w @ v"
    have "hd (print_json (JStr t) @ u) = hd (print_json w @ v)" using e by simp
    then obtain t' where "w = JStr t'" unfolding print_hd by (cases w) (simp_all add: int_head split: if_splits)
    then show "JStr t = w \<and> u = v" using e quote_text_unique [of t u t' v] by simp
  qed
next
  case (JList xs)
  show ?case
    unfolding item_unique_def
  proof (intro allI impI)
    fix w u v assume e: "print_json (JList xs) @ u = print_json w @ v"
    have "hd (print_json (JList xs) @ u) = hd (print_json w @ v)" using e by simp
    then obtain ys where w: "w = JList ys" unfolding print_hd by (cases w) (simp_all add: int_head split: if_splits)
    have "xs = ys \<and> u = v"
      by (rule join_unique [of xs print_json "CHR '']''"]) (use JList e w print_not_close print_ne in auto)
    then show "JList xs = w \<and> u = v" using w by simp
  qed
next
  case (JObj kvs)
  let ?f = "\<lambda>(k, v). quote_text k @ '':'' @ print_json v"
  have item: "item_unique ?f kv" if "kv \<in> set kvs" for kv
    unfolding item_unique_def
  proof (intro allI impI)
    fix kw u v assume e: "?f kv @ u = ?f kw @ v" and s: "stops u" "stops v"
    obtain k x k' y where kv: "kv = (k, x)" "kw = (k', y)" by fastforce
    have "quote_text k @ (CHR '':'' # print_json x @ u) = quote_text k' @ (CHR '':'' # print_json y @ v)"
      using e kv by simp
    from quote_text_unique [OF this] have "k = k'" "print_json x @ u = print_json y @ v" by simp_all
    moreover have "item_unique print_json x" using JObj [OF that] kv by (simp add: snds.simps)
    ultimately show "kv = kw \<and> u = v" using s kv unfolding item_unique_def by blast
  qed
  show ?case
    unfolding item_unique_def
  proof (intro allI impI)
    fix w u v assume e: "print_json (JObj kvs) @ u = print_json w @ v"
    have "hd (print_json (JObj kvs) @ u) = hd (print_json w @ v)" using e by simp
    then obtain ys where w: "w = JObj ys" unfolding print_hd by (cases w) (simp_all add: int_head split: if_splits)
    have "kvs = ys \<and> u = v"
      by (rule join_unique [of kvs ?f "CHR ''}''"]) (use item e w in \<open>auto simp: quote_text_def split: prod.splits\<close>)
    then show "JObj kvs = w \<and> u = v" using w by simp
  qed
qed

lemma dumps_unique: "dumps v = dumps w \<longleftrightarrow> canon v = canon w"
proof
  assume "dumps v = dumps w"
  then have "print_json (canon v) @ [] = print_json (canon w) @ []" by (simp add: dumps_def)
  moreover have "stops []" by (simp add: stops_def)
  ultimately show "canon v = canon w" using print_json_unique [of "canon v"] unfolding item_unique_def by blast
qed (simp add: dumps_def)

end
