(* ===== verification/EligClauses.thy ===== *)
theory EligClauses
  imports EligValues
begin

text \<open>
  The clauses of the eligibility evaluator that read no database
  (\<open>eligibility/evaluate.py\<close>): the three-valued verdict, the policy of a category, one clause's
  result and its reason, the aggregate, the generic product-attribute clause, and the offer, vendor
  lock and target clauses. Values whose Python type is \<open>object\<close> are \<open>pyval\<close>s; \<open>attribute_clause\<close> takes
  the injection of its attribute's type as its first argument.
\<close>

section \<open>Verdicts, tiers and the policy\<close>

datatype verdict = MATCH | NO_MATCH | UNKNOWN

datatype evidence_tier = CATALOG | LISTING | OFFER | NONE

definition verdict_value :: "verdict \<Rightarrow> string" where
  "verdict_value v = (case v of MATCH \<Rightarrow> ''match'' | NO_MATCH \<Rightarrow> ''no_match'' | UNKNOWN \<Rightarrow> ''unknown'')"

definition tier_value :: "evidence_tier \<Rightarrow> string" where
  "tier_value t = (case t of CATALOG \<Rightarrow> ''catalog'' | LISTING \<Rightarrow> ''listing'' | OFFER \<Rightarrow> ''offer'' | NONE \<Rightarrow> ''none'')"

record category_policy =
  listing_min_confidence :: rat
  on_tier_conflict :: verdict

definition default_policy :: category_policy where
  "default_policy = \<lparr>listing_min_confidence = fround (17 / 20), on_tier_conflict = NO_MATCH\<rparr>"

definition category_policies :: "(string \<times> category_policy) list" where
  "category_policies =
     [(''drive'', default_policy), (''gpu'', default_policy), (''ram'', default_policy), (''cpu'', default_policy)]"

definition policy_for :: "string \<Rightarrow> category_policy" where
  "policy_for category =
     (case map_of category_policies category of None \<Rightarrow> default_policy | Some p \<Rightarrow> p)"

lemma policy_for_default [simp]: "policy_for c = default_policy"
  by (simp add: policy_for_def category_policies_def)

text \<open>\<open>matching.types.Attribute\<close>: a value read from a title, with the extraction's confidence.\<close>

record 'v attribute =
  at_value :: 'v
  confidence :: rat
  layer :: string
  source_text :: string

definition attribute_dict :: "('v \<Rightarrow> pyval) \<Rightarrow> 'v attribute \<Rightarrow> pyval" where
  "attribute_dict pv a =
     PDict [(''value'', pv (at_value a)), (''confidence'', PFloat (confidence a)),
            (''source_text'', PStr (source_text a))]"

section \<open>The result of a clause\<close>

type_synonym pydict = "(string \<times> pyval) list"

record clause_result =
  clause :: string
  outcome :: verdict
  tier :: evidence_tier
  required :: pyval
  observed :: pyval
  detail :: string
  source :: pydict

text \<open>The constructor \<open>ClauseResult(\<dots>)\<close> with its positional arguments.\<close>

definition clause_result_of ::
  "string \<Rightarrow> verdict \<Rightarrow> evidence_tier \<Rightarrow> pyval \<Rightarrow> pyval \<Rightarrow> string \<Rightarrow> pydict \<Rightarrow> clause_result" where
  "clause_result_of c v t r b d s =
     \<lparr>clause = c, outcome = v, tier = t, required = r, observed = b, detail = d, source = s\<rparr>"

lemma clause_result_of_sel [simp]:
  "clause (clause_result_of c v t r b d s) = c" "outcome (clause_result_of c v t r b d s) = v"
  "tier (clause_result_of c v t r b d s) = t" "required (clause_result_of c v t r b d s) = r"
  "observed (clause_result_of c v t r b d s) = b" "detail (clause_result_of c v t r b d s) = d"
  "source (clause_result_of c v t r b d s) = s"
  by (simp_all add: clause_result_of_def)

definition as_reason :: "clause_result \<Rightarrow> pyval" where
  "as_reason r =
     PDict [(''clause'', PStr (clause r)), (''outcome'', PStr (verdict_value (outcome r))),
            (''evidence_tier'', PStr (tier_value (tier r))), (''required'', jsonable (required r)),
            (''observed'', jsonable (observed r)), (''detail'', PStr (detail r)),
            (''source'', jsonable (PDict (source r)))]"

text \<open>The exceptions of the eligibility code, with their messages where the code gives one.\<close>

datatype elig_error = Elig_ValueError string | Elig_DoesNotExist | Elig_InvalidOperation
  | Elig_RequirementError string | Elig_IntegrityError string

definition aggregate :: "clause_result list \<Rightarrow> elig_error + verdict" where
  "aggregate results =
     (if results = [] then Inl (Elig_ValueError ''a verdict needs at least one clause'')
      else let outcomes = set (map outcome results) in
           if NO_MATCH \<in> outcomes then Inr NO_MATCH
           else if UNKNOWN \<in> outcomes then Inr UNKNOWN
           else Inr MATCH)"

section \<open>Product attributes\<close>

definition product_outcome :: "bool option \<Rightarrow> bool \<Rightarrow> category_policy \<Rightarrow> verdict \<times> evidence_tier" where
  "product_outcome catalog_ok listing_contradicts policy =
     (if catalog_ok = Some False then (NO_MATCH, CATALOG)
      else if listing_contradicts
      then (if catalog_ok = Some True then (on_tier_conflict policy, LISTING) else (NO_MATCH, LISTING))
      else if catalog_ok = Some True then (MATCH, CATALOG)
      else (UNKNOWN, NONE))"

record 'v catalog_field =
  cf_value :: "'v option"
  why :: string

definition catalog_field_of :: "'v option \<Rightarrow> string \<Rightarrow> 'v catalog_field" where
  "catalog_field_of v w = \<lparr>cf_value = v, why = w\<rparr>"

lemma catalog_field_of_sel [simp]: "cf_value (catalog_field_of v w) = v" "why (catalog_field_of v w) = w"
  by (simp_all add: catalog_field_of_def)

text \<open>
  \<open>title_check\<close> is \<open>listing_satisfies or satisfies\<close>: a callable is always true in Python, so the
  override wins whenever it is given.
\<close>

definition attribute_clause ::
  "('v \<Rightarrow> pyval) \<Rightarrow> string \<Rightarrow> pyval \<Rightarrow> ('v \<Rightarrow> bool) option \<Rightarrow> 'v catalog_field \<Rightarrow> 'v attribute option
   \<Rightarrow> category_policy \<Rightarrow> ('v \<Rightarrow> bool) option \<Rightarrow> pydict \<Rightarrow> clause_result" where
  "attribute_clause pv c req satisfies catalog listing policy listing_satisfies src =
     (case satisfies of
        None \<Rightarrow> clause_result_of c MATCH NONE PNone PNone ''no constraint'' src
      | Some sat \<Rightarrow>
          let catalog_ok = map_option sat (cf_value catalog);
              title_check = (case listing_satisfies of Some f \<Rightarrow> f | None \<Rightarrow> sat);
              listing_contradicts = (case listing of
                  None \<Rightarrow> False
                | Some a \<Rightarrow> listing_min_confidence policy \<le> confidence a \<and> \<not> title_check (at_value a));
              (out, t) = product_outcome catalog_ok listing_contradicts policy;
              obs = [(''catalog'', py_option pv (cf_value catalog)), (''catalog_source'', PStr (why catalog))]
                    @ (case listing of None \<Rightarrow> [] | Some a \<Rightarrow> [(''listing'', attribute_dict pv a)]);
              d = (if out = UNKNOWN
                   then ''no catalog evidence ('' @ why catalog @ ''); listing evidence cannot satisfy a clause''
                   else if t = LISTING
                   then ''title attribute contradicts the requirement''
                        @ (if catalog_ok = Some True then '' while the catalog satisfies it (tier conflict)'' else [])
                   else if out = NO_MATCH then ''catalog value fails the requirement''
                   else ''catalog value satisfies the requirement'')
          in clause_result_of c out t req (PDict obs) d src)"

definition at_least :: "'a::linorder option \<Rightarrow> ('a \<Rightarrow> bool) option" where
  "at_least bound = map_option (\<lambda>b v. b \<le> v) bound"

definition at_most :: "int option \<Rightarrow> (int \<Rightarrow> bool) option" where
  "at_most bound = map_option (\<lambda>b v. v \<le> b) bound"

definition one_of :: "string list \<Rightarrow> (string \<Rightarrow> bool) option" where
  "one_of allowed = (if allowed = [] then None else Some (\<lambda>v. v \<in> set allowed))"

definition equals_to :: "'a option \<Rightarrow> ('a \<Rightarrow> bool) option" where
  "equals_to expected = map_option (\<lambda>e v. v = e) expected"

section \<open>Offer clauses\<close>

record offer_facts =
  of_snapshot_at :: "instant option"
  price_usd :: "rat option"
  shipping_known :: bool
  quantity :: "int attribute option"
  stock_status :: "string option"
  of_international :: bool
  of_condition :: "string attribute option"

definition facts_source :: "offer_facts \<Rightarrow> pydict" where
  "facts_source facts = [(''snapshot_observed_at'', py_option PTime (of_snapshot_at facts))]"

definition price_clause :: "rat option \<Rightarrow> offer_facts \<Rightarrow> category_policy \<Rightarrow> clause_result" where
  "price_clause max_unit_price_usd facts policy =
     (let src = facts_source facts; name = ''offer.max_unit_price_usd'' in
      case max_unit_price_usd of
        None \<Rightarrow> clause_result_of name MATCH NONE PNone PNone ''no constraint'' src
      | Some maximum \<Rightarrow>
          (case price_usd facts of
             None \<Rightarrow> clause_result_of name UNKNOWN NONE (PDec maximum) PNone
                       ''no snapshot or no FX stamp: USD price unknown'' src
           | Some price \<Rightarrow>
               let trusted = (case quantity facts of None \<Rightarrow> False
                     | Some q \<Rightarrow> listing_min_confidence policy \<le> confidence q);
                   divisor = (case quantity facts of None \<Rightarrow> 1
                     | Some q \<Rightarrow> if trusted \<and> 0 < at_value q then at_value q else 1);
                   uncertain_quantity = (quantity facts \<noteq> None \<and> \<not> trusted);
                   unit = ddiv price (of_int divisor);
                   obs = [(''price_usd'', PDec price), (''quantity'', PInt divisor),
                          (''quantity_uncertain'', PBool uncertain_quantity), (''unit_usd'', PDec unit),
                          (''shipping_known'', PBool (shipping_known facts))];
                   result = (\<lambda>out extra d. clause_result_of name out OFFER (PDec maximum) (PDict (obs @ extra)) d src)
               in if unit \<le> maximum
                  then if shipping_known facts then result MATCH [] ''unit price within the maximum''
                       else result UNKNOWN [(''reason_code'', PStr ''shipping_unknown'')]
                              ''shipping_unknown: price before shipping is within the maximum''
                  else if uncertain_quantity
                  then result UNKNOWN [(''reason_code'', PStr ''quantity_uncertain'')]
                         ''quantity_uncertain: total exceeds the maximum but the lot quantity is uncertain''
                  else result NO_MATCH [] ''unit price exceeds the maximum''))"

definition condition_clause :: "string list \<Rightarrow> offer_facts \<Rightarrow> clause_result" where
  "condition_clause allowed facts =
     (let src = facts_source facts; name = ''offer.condition''; allow = PList (map PStr allowed) in
      if allowed = [] then clause_result_of name MATCH NONE (PList []) PNone ''no constraint'' src
      else let obs = py_option (attribute_dict PStr) (of_condition facts) in
           case of_condition facts of
             None \<Rightarrow> clause_result_of name UNKNOWN NONE allow obs ''listing states no condition'' src
           | Some stated \<Rightarrow>
               if at_value stated = ''unknown''
               then clause_result_of name UNKNOWN NONE allow obs ''listing states no condition'' src
               else let ok = at_value stated \<in> set allowed in
                    clause_result_of name (if ok then MATCH else NO_MATCH) OFFER allow obs
                      (if ok then ''condition allowed'' else ''condition not allowed'') src)"

definition stock_clause :: "bool \<Rightarrow> offer_facts \<Rightarrow> clause_result" where
  "stock_clause require_in_stock facts =
     (let src = facts_source facts; name = ''offer.in_stock''; status = py_option PStr (stock_status facts) in
      if \<not> require_in_stock then clause_result_of name MATCH NONE (PBool False) status ''no constraint'' src
      else let (out, t, d) =
             (if stock_status facts = Some ''in_stock'' then (MATCH, OFFER, ''in stock'')
              else if stock_status facts \<in> {Some ''out_of_stock'', Some ''preorder''}
              then (NO_MATCH, OFFER, ''not in stock'')
              else (UNKNOWN, NONE, ''stock status unknown''))
           in clause_result_of name out t (PBool True) status d src)"

definition international_clause :: "bool \<Rightarrow> offer_facts \<Rightarrow> clause_result" where
  "international_clause allow_international facts =
     (let src = facts_source facts; name = ''offer.international''; intl = PBool (of_international facts) in
      if allow_international then clause_result_of name MATCH NONE (PBool True) intl ''no constraint'' src
      else let ok = \<not> of_international facts in
           clause_result_of name (if ok then MATCH else NO_MATCH) OFFER (PBool False) intl
             (if ok then ''domestic offer'' else ''international offer not allowed'') src)"

text \<open>The hard offer columns of a \<open>Watch\<close> row; its other columns follow in the catalog theory.\<close>

record offer_terms =
  max_unit_price_usd :: "rat option"
  allowed_conditions :: "string list"
  require_in_stock :: bool
  allow_international :: bool

definition offer_clauses :: "'a offer_terms_scheme \<Rightarrow> offer_facts \<Rightarrow> category_policy \<Rightarrow> clause_result list" where
  "offer_clauses watch facts policy =
     [price_clause (max_unit_price_usd watch) facts policy,
      condition_clause (allowed_conditions watch) facts,
      stock_clause (require_in_stock watch) facts,
      international_clause (allow_international watch) facts]"

section \<open>The vendor lock\<close>

definition vendor_lock_clause ::
  "bool \<Rightarrow> string attribute option \<Rightarrow> category_policy \<Rightarrow> pydict \<Rightarrow> clause_result" where
  "vendor_lock_clause require_unlocked lock policy src =
     (let name = ''cpu.vendor_lock''; req = PStr ''unlocked'';
          unstated = clause_result_of name UNKNOWN NONE req PNone
            ''the listing does not state its vendor lock; only a stated unlock satisfies this'' src in
      if \<not> require_unlocked then clause_result_of name MATCH NONE PNone PNone ''no constraint'' src
      else case lock of
        None \<Rightarrow> unstated
      | Some l \<Rightarrow>
          if confidence l < listing_min_confidence policy then unstated
          else let (out, d) =
                 (if at_value l = ''unlocked'' then (MATCH, ''listing states the unit is unlocked'')
                  else if at_value l = ''locked'' then (NO_MATCH, ''listing states the unit is vendor locked'')
                  else (UNKNOWN, ''unrecognized vendor-lock value''))
               in clause_result_of name out LISTING req (PDict [(''listing'', attribute_dict PStr l)]) d src)"

section \<open>What each clause promises\<close>

lemma attribute_clause_outcome:
  "outcome (attribute_clause pv c r None cat l p ls src) = MATCH"
  "outcome (attribute_clause pv c r (Some sat) cat l p ls src) =
     fst (product_outcome (map_option sat (cf_value cat))
       (case l of None \<Rightarrow> False
        | Some a \<Rightarrow> listing_min_confidence p \<le> confidence a \<and> \<not> (case ls of Some f \<Rightarrow> f | None \<Rightarrow> sat) (at_value a)) p)"
  by (simp_all add: attribute_clause_def Let_def split: prod.split)

text \<open>A product clause that matches has no constraint, or a catalog value that satisfies it.\<close>

lemma attribute_clause_match:
  assumes "outcome (attribute_clause pv c r satisfies cat l p ls src) = MATCH" and "on_tier_conflict p \<noteq> MATCH"
  shows "satisfies = None \<or> (\<exists>sat v. satisfies = Some sat \<and> cf_value cat = Some v \<and> sat v)"
proof (cases satisfies)
  case (Some sat)
  with assms have "map_option sat (cf_value cat) = Some True"
    by (auto simp: attribute_clause_outcome product_outcome_def split: if_splits)
  with Some show ?thesis by (cases "cf_value cat") auto
qed simp

lemma price_clause_match:
  assumes "outcome (price_clause m facts p) = MATCH"
  shows "m = None \<or> (\<exists>maximum price. m = Some maximum \<and> price_usd facts = Some price \<and> shipping_known facts
           \<and> ddiv price (of_int (case quantity facts of None \<Rightarrow> 1
               | Some q \<Rightarrow> if listing_min_confidence p \<le> confidence q \<and> 0 < at_value q then at_value q else 1)) \<le> maximum)"
  using assms by (auto simp: price_clause_def Let_def split: option.splits if_splits)

lemma condition_clause_match:
  assumes "outcome (condition_clause allowed facts) = MATCH"
  shows "allowed = [] \<or> (\<exists>a. of_condition facts = Some a \<and> at_value a \<noteq> ''unknown'' \<and> at_value a \<in> set allowed)"
  using assms by (auto simp: condition_clause_def Let_def split: option.splits if_splits)

lemma stock_clause_match:
  assumes "outcome (stock_clause b facts) = MATCH"
  shows "b \<longrightarrow> stock_status facts = Some ''in_stock''"
  using assms by (auto simp: stock_clause_def Let_def split: if_splits)

lemma international_clause_match:
  assumes "outcome (international_clause b facts) = MATCH"
  shows "b \<or> \<not> of_international facts"
  using assms by (auto simp: international_clause_def Let_def split: if_splits)

lemma vendor_lock_clause_match:
  assumes "outcome (vendor_lock_clause b lock p src) = MATCH"
  shows "b \<longrightarrow> (\<exists>l. lock = Some l \<and> listing_min_confidence p \<le> confidence l \<and> at_value l = ''unlocked'')"
  using assms by (auto simp: vendor_lock_clause_def Let_def split: option.splits if_splits)

lemma aggregate_match: "aggregate rs = Inr MATCH \<longleftrightarrow> rs \<noteq> [] \<and> (\<forall>r \<in> set rs. outcome r = MATCH)"
proof
  assume a: "aggregate rs = Inr MATCH"
  have "outcome r = MATCH" if "r \<in> set rs" for r
    using a that by (cases "outcome r") (force simp: aggregate_def Let_def split: if_splits)+
  then show "rs \<noteq> [] \<and> (\<forall>r \<in> set rs. outcome r = MATCH)" using a by (auto simp: aggregate_def)
next
  assume "rs \<noteq> [] \<and> (\<forall>r \<in> set rs. outcome r = MATCH)"
  then show "aggregate rs = Inr MATCH" by (auto simp: aggregate_def Let_def)
qed

lemma aggregate_no_match: "aggregate rs = Inr NO_MATCH \<longleftrightarrow> (\<exists>r \<in> set rs. outcome r = NO_MATCH)"
proof -
  have "NO_MATCH \<in> set (map outcome rs) \<longleftrightarrow> (\<exists>r \<in> set rs. outcome r = NO_MATCH)" by force
  then show ?thesis by (auto simp: aggregate_def Let_def)
qed

lemma aggregate_raises: "aggregate rs = Inl e \<longleftrightarrow> rs = [] \<and> e = Elig_ValueError ''a verdict needs at least one clause''"
  by (auto simp: aggregate_def Let_def)

text \<open>The threshold is the double nearest to 0.85.\<close>

lemma default_threshold: "1 / 2 \<le> listing_min_confidence default_policy" "listing_min_confidence default_policy \<le> 1"
proof -
  have "fround (1 / 2) \<le> fround (17 / 20)" "fround (17 / 20) \<le> fround 1" by (intro flt.rnd_mono; simp)+
  then show "1 / 2 \<le> listing_min_confidence default_policy" "listing_min_confidence default_policy \<le> 1"
    by (simp_all add: default_policy_def fround_num)
qed

lemma default_conflict [simp]: "on_tier_conflict default_policy = NO_MATCH"
  by (simp add: default_policy_def)

end
