(* ===== verification/Sha256.thy ===== *)
theory Sha256
  imports EligValues "HOL-Library.Word"
begin

unbundle bit_operations_syntax

text \<open>
  SHA-256 (\<open>hashlib.sha256(payload.encode()).hexdigest()\<close>), which stamps the catalog inputs of an
  evaluation. The text is ASCII, so its UTF-8 bytes are its characters.
\<close>

definition sha_round_constants :: "32 word list" where
  "sha_round_constants =
    [0x428a2f98, 0x71374491, 0xb5c0fbcf, 0xe9b5dba5, 0x3956c25b, 0x59f111f1, 0x923f82a4, 0xab1c5ed5,
     0xd807aa98, 0x12835b01, 0x243185be, 0x550c7dc3, 0x72be5d74, 0x80deb1fe, 0x9bdc06a7, 0xc19bf174,
     0xe49b69c1, 0xefbe4786, 0x0fc19dc6, 0x240ca1cc, 0x2de92c6f, 0x4a7484aa, 0x5cb0a9dc, 0x76f988da,
     0x983e5152, 0xa831c66d, 0xb00327c8, 0xbf597fc7, 0xc6e00bf3, 0xd5a79147, 0x06ca6351, 0x14292967,
     0x27b70a85, 0x2e1b2138, 0x4d2c6dfc, 0x53380d13, 0x650a7354, 0x766a0abb, 0x81c2c92e, 0x92722c85,
     0xa2bfe8a1, 0xa81a664b, 0xc24b8b70, 0xc76c51a3, 0xd192e819, 0xd6990624, 0xf40e3585, 0x106aa070,
     0x19a4c116, 0x1e376c08, 0x2748774c, 0x34b0bcb5, 0x391c0cb3, 0x4ed8aa4a, 0x5b9cca4f, 0x682e6ff3,
     0x748f82ee, 0x78a5636f, 0x84c87814, 0x8cc70208, 0x90befffa, 0xa4506ceb, 0xbef9a3f7, 0xc67178f2]"

definition sha_initial :: "32 word list" where
  "sha_initial = [0x6a09e667, 0xbb67ae85, 0x3c6ef372, 0xa54ff53a, 0x510e527f, 0x9b05688c, 0x1f83d9ab, 0x5be0cd19]"

text \<open>Padding: a one bit, zeros to 56 bytes modulo 64, and the length in bits as 8 bytes.\<close>

definition be_bytes :: "nat \<Rightarrow> int \<Rightarrow> int list" where
  "be_bytes n x = map (\<lambda>i. x div 256 ^ (n - 1 - i) mod 256) [0..<n]"

definition sha_pad :: "int list \<Rightarrow> int list" where
  "sha_pad bs = bs @ [128] @ replicate ((119 - length bs mod 64) mod 64) 0 @ be_bytes 8 (8 * int (length bs))"

fun be_words :: "int list \<Rightarrow> 32 word list" where
  "be_words (a # b # c # d # rest) = of_int (((a * 256 + b) * 256 + c) * 256 + d) # be_words rest"
| "be_words _ = []"

text \<open>The message schedule: 48 words are appended to the 16 of a block.\<close>

definition schedule_step :: "32 word list \<Rightarrow> 32 word list" where
  "schedule_step w =
     (let n = length w; x = w ! (n - 15); y = w ! (n - 2);
          s0 = word_rotr 7 x XOR word_rotr 18 x XOR drop_bit 3 x;
          s1 = word_rotr 17 y XOR word_rotr 19 y XOR drop_bit 10 y
      in w @ [w ! (n - 16) + s0 + w ! (n - 7) + s1])"

fun compress_step :: "32 word list \<Rightarrow> 32 word \<times> 32 word \<Rightarrow> 32 word list" where
  "compress_step [a, b, c, d, e, f, g, h] (k, w) =
     (let s1 = word_rotr 6 e XOR word_rotr 11 e XOR word_rotr 25 e;
          ch = (e AND f) XOR (NOT e AND g);
          t1 = h + s1 + ch + k + w;
          s0 = word_rotr 2 a XOR word_rotr 13 a XOR word_rotr 22 a;
          maj = (a AND b) XOR (a AND c) XOR (b AND c)
      in [t1 + s0 + maj, a, b, c, d + t1, e, f, g])"
| "compress_step s _ = s"

definition compress_block :: "32 word list \<Rightarrow> 32 word list \<Rightarrow> 32 word list" where
  "compress_block state block =
     (let w = (schedule_step ^^ 48) block;
          final = foldl compress_step state (zip sha_round_constants w)
      in map2 (+) state final)"

fun blocks_of :: "nat \<Rightarrow> 'a list \<Rightarrow> 'a list list" where
  "blocks_of 0 xs = []"
| "blocks_of (Suc n) xs = take 16 xs # blocks_of n (drop 16 xs)"

definition sha256_hex :: "string \<Rightarrow> string" where
  "sha256_hex text =
     (let ws = be_words (sha_pad (map of_char text));
          h = foldl compress_block sha_initial (blocks_of (length ws div 16) ws)
      in concat (map (\<lambda>w. map (\<lambda>i. hex_digit (unat (drop_bit (4 * (7 - i)) w AND 15))) [0..<8]) h))"


end
