(* ===== verification/EligCatalog.thy ===== *)
theory EligCatalog
  imports EligClauses Sha256
begin

text \<open>
  The database rows the evaluator reads, the catalog inputs gathered from them, their fingerprint
  and the input binding of a verdict (\<open>eligibility/evaluate.py\<close>, the models of
  \<open>catalog/models/identity.py\<close>, \<open>market.py\<close>, \<open>resolution.py\<close> and \<open>watch.py\<close>, and the dispatch rule
  of \<open>matching/categories.py\<close>). A table is the list of its rows; a table with a primary key only is
  an association list. Columns no modelled operation reads are left out.
\<close>

section \<open>Rows\<close>

record drive_spec =
  ds_capacity_tb :: "rat option"
  ds_media_type :: string
  ds_interface :: string
  ds_form_factor :: string
  ds_recording_tech :: "string option"

record gpu_spec =
  gs_chip_vendor :: string
  gs_vram_gb :: "int option"
  gs_interface :: string
  gs_cooling :: string
  gs_tdp_w :: "int option"

record ram_spec =
  rs_generation :: string
  rs_module_type :: string
  rs_ecc :: "bool option"
  rs_module_capacity_gb :: "int option"
  rs_modules_per_kit :: int
  rs_speed_mts :: "int option"

record cpu_spec =
  cs_socket :: string
  cs_cores :: "int option"
  cs_tdp_w :: "int option"

datatype spec_row = DriveSpec drive_spec | GpuSpec gpu_spec | RamSpec ram_spec | CpuSpec cpu_spec

record drive_requirement =
  dr_min_capacity_tb :: "rat option"
  dr_media_types :: "string list"
  dr_interfaces :: "string list"
  dr_form_factors :: "string list"
  dr_recording_techs :: "string list"

record gpu_requirement =
  gr_min_vram_gb :: "int option"
  gr_chip_vendors :: "string list"
  gr_interfaces :: "string list"
  gr_coolings :: "string list"
  gr_max_tdp_w :: "int option"

record ram_requirement =
  rr_generations :: "string list"
  rr_module_types :: "string list"
  rr_require_ecc :: "bool option"
  rr_min_total_capacity_gb :: "int option"
  rr_min_speed_mts :: "int option"

record cpu_requirement =
  cr_sockets :: "string list"
  cr_min_cores :: "int option"
  cr_max_tdp_w :: "int option"
  cr_require_vendor_unlocked :: bool

datatype requirement = DriveReq drive_requirement | GpuReq gpu_requirement
  | RamReq ram_requirement | CpuReq cpu_requirement

record watch = offer_terms +
  w_id :: int
  w_category :: string
  enabled :: bool
  target_family :: "int option"
  target_model :: "int option"
  requirement_version :: int
  target_unit_price_usd :: "rat option"

datatype grain = GRAIN_NONE | GRAIN_FAMILY | GRAIN_MODEL | GRAIN_VARIANT

definition grain_value :: "grain \<Rightarrow> string" where
  "grain_value g = (case g of GRAIN_NONE \<Rightarrow> ''none'' | GRAIN_FAMILY \<Rightarrow> ''family''
     | GRAIN_MODEL \<Rightarrow> ''model'' | GRAIN_VARIANT \<Rightarrow> ''variant'')"

record resolution =
  res_id :: int
  res_listing :: int
  res_grain :: grain
  res_family :: "int option"
  res_model :: "int option"
  res_variant :: "int option"
  res_evidence :: pydict
  res_is_current :: bool

record snapshot =
  snap_listing :: int
  observed_at :: instant
  item_price :: rat
  shipping_price :: "rat option"
  tax_price :: "rat option"
  fx_rate :: "rat option"
  snap_stock_status :: string
  attrs_json :: pyval

record listing =
  l_id :: int
  l_source_site :: int
  title_raw :: string
  condition_label_raw :: string
  canonical_url :: string
  l_is_international :: bool
  l_retention_class :: string
  l_expires_at :: "instant option"
  l_delisted_at :: "instant option"

record evaluation =
  ev_id :: int
  ev_watch :: int
  ev_listing :: int
  ev_verdict :: verdict
  ev_reasons :: "pyval list"
  ev_requirement_version :: int
  ev_evaluator_version :: string
  ev_snapshot_observed_at :: "instant option"
  ev_resolution :: "int option"
  ev_catalog_fingerprint :: string
  ev_evaluated_at :: instant
  ev_retention_class :: string
  ev_expires_at :: "instant option"

text \<open>
  The catalog half of the database (families with their category, models with their family,
  variants with their model, one table per spec satellite) and the observed half.
\<close>

record catalog_db =
  family_rows :: "(int \<times> string) list"
  model_rows :: "(int \<times> int option) list"
  variant_rows :: "(int \<times> int) list"
  drive_spec_rows :: "(int \<times> drive_spec) list"
  gpu_spec_rows :: "(int \<times> gpu_spec) list"
  ram_spec_rows :: "(int \<times> ram_spec) list"
  cpu_spec_rows :: "(int \<times> cpu_spec) list"
  snapshot_rows :: "snapshot list"
  edge_rows :: "resolution list"

text \<open>
  A nullable foreign key as \<open>select_related\<close> loads it: a left outer join, so \<open>None\<close> for a null key.
\<close>

definition join_row :: "('k \<times> 'r) list \<Rightarrow> 'k option \<Rightarrow> ('k \<times> 'r) option" where
  "join_row table fk =
     (case fk of None \<Rightarrow> None | Some k \<Rightarrow> map_option (\<lambda>r. (k, r)) (map_of table k))"

section \<open>Catalog inputs\<close>

datatype scalar = SStr string | SInt int | SBool bool

type_synonym value_map = "(string \<times> scalar option) list"

record member_spec =
  ms_model_id :: int
  ms_spec :: "value_map option"

record catalog_inputs =
  ci_category :: string
  ci_grain :: grain
  ci_family_id :: "int option"
  ci_model_id :: "int option"
  ci_variant_id :: "int option"
  ci_members :: "member_spec list"

definition EVALUATOR_VERSION :: string where "EVALUATOR_VERSION = ''ms2c.3''"

definition CATALOG_INPUTS_VERSION :: string where "CATALOG_INPUTS_VERSION = ''1''"

definition int_json :: "int option \<Rightarrow> json" where
  "int_json v = (case v of None \<Rightarrow> JNull | Some i \<Rightarrow> JInt i)"

definition scalar_json :: "scalar option \<Rightarrow> json" where
  "scalar_json v = (case v of None \<Rightarrow> JNull | Some (SStr s) \<Rightarrow> JStr s | Some (SInt i) \<Rightarrow> JInt i
     | Some (SBool b) \<Rightarrow> JBool b)"

definition member_json :: "member_spec \<Rightarrow> json" where
  "member_json m =
     JObj [(''model_id'', JInt (ms_model_id m)),
           (''spec'', case ms_spec m of None \<Rightarrow> JStr ''absent''
              | Some vs \<Rightarrow> JObj (map (\<lambda>(k, v). (k, scalar_json v)) vs))]"

definition canonical :: "catalog_inputs \<Rightarrow> json" where
  "canonical i =
     JObj [(''version'', JStr CATALOG_INPUTS_VERSION), (''category'', JStr (ci_category i)),
           (''grain'', JStr (grain_value (ci_grain i))), (''family_id'', int_json (ci_family_id i)),
           (''model_id'', int_json (ci_model_id i)), (''variant_id'', int_json (ci_variant_id i)),
           (''members'', JList (map member_json (ci_members i)))]"

text \<open>Every value of \<open>canonical\<close> is already plain JSON, which \<open>_jsonable\<close> leaves as it is.\<close>

definition fingerprint_payload :: "catalog_inputs \<Rightarrow> string" where
  "fingerprint_payload i = dumps (canonical i)"

definition catalog_fingerprint :: "catalog_inputs \<Rightarrow> string" where
  "catalog_fingerprint i = sha256_hex (fingerprint_payload i)"

section \<open>The values of a spec row\<close>

definition known :: "string option \<Rightarrow> string option" where
  "known v = (case v of None \<Rightarrow> None | Some s \<Rightarrow> if s \<noteq> [] \<and> s \<noteq> ''unknown'' then Some s else None)"

definition token :: "string \<Rightarrow> string list \<Rightarrow> string option" where
  "token text tokens = (let folded = casefold text in first_such (\<lambda>t. contains t folded) tokens)"

definition DRIVE_INTERFACE_TOKENS :: "string list" where
  "DRIVE_INTERFACE_TOKENS = [''nvme'', ''sas'', ''sata'', ''scsi'', ''usb'']"

definition DRIVE_FORM_FACTOR_TOKENS :: "string list" where
  "DRIVE_FORM_FACTOR_TOKENS = [''3.5'', ''2.5'', ''m.2'']"

definition drive_values :: "drive_spec \<Rightarrow> value_map" where
  "drive_values s =
     [(''capacity_tb'', map_option (SStr \<circ> decimal_text) (ds_capacity_tb s)),
      (''media_type'', map_option SStr (known (Some (ds_media_type s)))),
      (''interface'', map_option SStr (token (ds_interface s) DRIVE_INTERFACE_TOKENS)),
      (''form_factor'', map_option SStr (token (ds_form_factor s) DRIVE_FORM_FACTOR_TOKENS)),
      (''recording_tech'', map_option SStr (known (ds_recording_tech s)))]"

definition gpu_values :: "gpu_spec \<Rightarrow> value_map" where
  "gpu_values s =
     [(''chip_vendor'', map_option SStr (known (Some (gs_chip_vendor s)))),
      (''vram_gb'', map_option SInt (gs_vram_gb s)),
      (''interface'', map_option SStr (known (Some (gs_interface s)))),
      (''cooling'', map_option SStr (known (Some (gs_cooling s)))),
      (''tdp_w'', map_option SInt (gs_tdp_w s))]"

definition ram_values :: "ram_spec \<Rightarrow> value_map" where
  "ram_values s =
     (let total = map_option (\<lambda>c. c * rs_modules_per_kit s) (rs_module_capacity_gb s) in
      [(''generation'', map_option SStr (known (Some (rs_generation s)))),
       (''module_type'', map_option SStr (known (Some (rs_module_type s)))),
       (''ecc'', map_option SBool (rs_ecc s)),
       (''total_capacity_gb'', map_option SInt total),
       (''speed_mts'', map_option SInt (rs_speed_mts s))])"

definition cpu_values :: "cpu_spec \<Rightarrow> value_map" where
  "cpu_values s =
     [(''socket'', let k = socket_key (cs_socket s) in if k = [] then None else Some (SStr k)),
      (''cores'', map_option SInt (cs_cores s)),
      (''tdp_w'', map_option SInt (cs_tdp_w s))]"

definition values_of :: "spec_row \<Rightarrow> value_map" where
  "values_of s = (case s of DriveSpec d \<Rightarrow> drive_values d | GpuSpec g \<Rightarrow> gpu_values g
     | RamSpec r \<Rightarrow> ram_values r | CpuSpec c \<Rightarrow> cpu_values c)"

text \<open>\<open>_SPEC_MODELS.get(category)\<close>: the table of the category's satellite.\<close>

definition spec_table :: "'d catalog_db_scheme \<Rightarrow> string \<Rightarrow> (int \<times> spec_row) list option" where
  "spec_table db category =
     (if category = ''drive'' then Some (map (apsnd DriveSpec) (drive_spec_rows db))
      else if category = ''gpu'' then Some (map (apsnd GpuSpec) (gpu_spec_rows db))
      else if category = ''ram'' then Some (map (apsnd RamSpec) (ram_spec_rows db))
      else if category = ''cpu'' then Some (map (apsnd CpuSpec) (cpu_spec_rows db))
      else None)"

definition member_of :: "(int \<times> spec_row) list \<Rightarrow> int \<Rightarrow> member_spec" where
  "member_of rows m = \<lparr>ms_model_id = m, ms_spec = map_option values_of (map_of rows m)\<rparr>"

definition members :: "'d catalog_db_scheme \<Rightarrow> string \<Rightarrow> int list \<Rightarrow> member_spec list" where
  "members db category model_ids =
     (case spec_table db category of
        None \<Rightarrow> map (\<lambda>m. \<lparr>ms_model_id = m, ms_spec = Some []\<rparr>) (sort model_ids)
      | Some table \<Rightarrow>
          let rows = filter (\<lambda>(m, s). m \<in> set model_ids) table
          in map (member_of rows) (sort model_ids))"

section \<open>Dispatch\<close>

text \<open>\<open>^[a-z0-9]+(?:-[a-z0-9]+)*$\<close> with \<open>fullmatch\<close>: words of lower-case letters and digits, joined by
  single hyphens.\<close>

fun slug_words :: "bool \<Rightarrow> string \<Rightarrow> bool" where
  "slug_words started [] = started"
| "slug_words started (c # s) =
     (if is_lower c \<or> is_digit c then slug_words True s
      else c = CHR ''-'' \<and> started \<and> slug_words False s)"

definition CATEGORY_SLUG_MAX_LENGTH :: nat where "CATEGORY_SLUG_MAX_LENGTH = 50"

definition dispatch_hint :: "string option \<Rightarrow> elig_error + string" where
  "dispatch_hint hint =
     (case hint of
        None \<Rightarrow> Inr ''drive''
      | Some h \<Rightarrow> if length h > CATEGORY_SLUG_MAX_LENGTH \<or> \<not> slug_words False h
                  then Inl (Elig_ValueError ''invalid category slug'') else Inr h)"

definition py_get :: "pydict \<Rightarrow> string \<Rightarrow> pyval" where
  "py_get d k = (case map_of d k of None \<Rightarrow> PNone | Some v \<Rightarrow> v)"

definition dispatch_category :: "snapshot option \<Rightarrow> elig_error + string" where
  "dispatch_category snap =
     (let attrs = (case snap of None \<Rightarrow> PDict [] | Some s \<Rightarrow> attrs_json s);
          hint = (case attrs of PDict d \<Rightarrow> py_get d ''category_hint'' | _ \<Rightarrow> PNone)
      in case hint of
           PNone \<Rightarrow> dispatch_hint None
         | PStr h \<Rightarrow> dispatch_hint (Some h)
         | _ \<Rightarrow> Inl (Elig_ValueError ''non-string category hint''))"

section \<open>Gathering\<close>

definition latest_snapshot :: "'d catalog_db_scheme \<Rightarrow> int \<Rightarrow> snapshot option" where
  "latest_snapshot db l =
     (case sort_key (\<lambda>s. - observed_at s) (filter (\<lambda>s. snap_listing s = l) (snapshot_rows db)) of
        [] \<Rightarrow> None | s # _ \<Rightarrow> Some s)"

definition current_edge :: "'d catalog_db_scheme \<Rightarrow> int \<Rightarrow> resolution option" where
  "current_edge db l =
     (case sort_key res_id (filter (\<lambda>e. res_listing e = l \<and> res_is_current e) (edge_rows db)) of
        [] \<Rightarrow> None | e # _ \<Rightarrow> Some e)"

text \<open>\<open>_family_of\<close> of a loaded model row: the key of its family, when the join found one.\<close>

definition family_of :: "'d catalog_db_scheme \<Rightarrow> int option \<Rightarrow> int option" where
  "family_of db fk = map_option fst (join_row (family_rows db) fk)"

text \<open>The model an edge of model or variant grain resolves to, with its family column.\<close>

definition edge_variant :: "'d catalog_db_scheme \<Rightarrow> resolution \<Rightarrow> (int \<times> int) option" where
  "edge_variant db e = join_row (variant_rows db) (res_variant e)"

definition edge_model :: "'d catalog_db_scheme \<Rightarrow> resolution \<Rightarrow> (int \<times> int option) option" where
  "edge_model db e =
     (case edge_variant db e of None \<Rightarrow> join_row (model_rows db) (res_model e)
      | Some (v, m) \<Rightarrow> join_row (model_rows db) (Some m))"

definition gather :: "'d catalog_db_scheme \<Rightarrow> snapshot option \<Rightarrow> resolution option \<Rightarrow> elig_error + catalog_inputs" where
  "gather db snap edge =
     andThen (dispatch_category snap) (\<lambda>category.
       let nothing = \<lparr>ci_category = category, ci_grain = GRAIN_NONE, ci_family_id = None, ci_model_id = None,
                      ci_variant_id = None, ci_members = []\<rparr> in
       case edge of
         None \<Rightarrow> Inr nothing
       | Some e \<Rightarrow>
           if res_grain e = GRAIN_NONE then Inr nothing
           else if res_grain e = GRAIN_FAMILY
           then (case join_row (family_rows db) (res_family e) of
                   None \<Rightarrow> Inl (Elig_ValueError ''family edge has no family'')
                 | Some (f, _) \<Rightarrow>
                     let member_ids = map fst (filter (\<lambda>(m, fk). fk = Some f) (model_rows db)) in
                     Inr \<lparr>ci_category = category, ci_grain = GRAIN_FAMILY, ci_family_id = Some f,
                          ci_model_id = None, ci_variant_id = None, ci_members = members db category member_ids\<rparr>)
           else (case edge_model db e of
                   None \<Rightarrow> Inl (Elig_ValueError ''edge has no model'')
                 | Some (m, fk) \<Rightarrow>
                     Inr \<lparr>ci_category = category, ci_grain = res_grain e, ci_family_id = family_of db fk,
                          ci_model_id = Some m, ci_variant_id = map_option fst (edge_variant db e),
                          ci_members = members db category [m]\<rparr>))"

definition catalog_inputs_of :: "'d catalog_db_scheme \<Rightarrow> int \<Rightarrow> elig_error + catalog_inputs" where
  "catalog_inputs_of db l = gather db (latest_snapshot db l) (current_edge db l)"

section \<open>Input binding\<close>

record input_binding =
  ib_snapshot_observed_at :: "instant option"
  ib_resolution_id :: "int option"
  ib_requirement_version :: int
  ib_evaluator_version :: string
  ib_catalog_fingerprint :: string

definition live_binding :: "'d catalog_db_scheme \<Rightarrow> int \<Rightarrow> 'a watch_scheme \<Rightarrow> elig_error + input_binding" where
  "live_binding db l w =
     (let snap = latest_snapshot db l; edge = current_edge db l in
      andThen (gather db snap edge) (\<lambda>i.
        Inr \<lparr>ib_snapshot_observed_at = map_option observed_at snap, ib_resolution_id = map_option res_id edge,
             ib_requirement_version = requirement_version w, ib_evaluator_version = EVALUATOR_VERSION,
             ib_catalog_fingerprint = catalog_fingerprint i\<rparr>))"

definition stored_binding :: "evaluation \<Rightarrow> input_binding" where
  "stored_binding ev =
     \<lparr>ib_snapshot_observed_at = ev_snapshot_observed_at ev, ib_resolution_id = ev_resolution ev,
      ib_requirement_version = ev_requirement_version ev, ib_evaluator_version = ev_evaluator_version ev,
      ib_catalog_fingerprint = ev_catalog_fingerprint ev\<rparr>"

definition is_current :: "'d catalog_db_scheme \<Rightarrow> 'a watch_scheme \<Rightarrow> evaluation \<Rightarrow> elig_error + bool" where
  "is_current db w ev = andThen (live_binding db (ev_listing ev) w) (\<lambda>b. Inr (stored_binding ev = b))"

end
