(* ===== verification/EligFingerprint.thy ===== *)
theory EligFingerprint
  imports EligCatalog
begin

text \<open>
  The payload of the fingerprint tells gathered catalog inputs apart: two gathers, of whatever
  listings and at whatever states of the catalog, have the same payload only if every value the
  product and target clauses read is the same. The digest itself is SHA-256.
\<close>

section \<open>Sorted objects\<close>

lemma assoc_list_unique:
  assumes k: "map fst xs = map fst ys" and d: "distinct (map fst xs)" and s: "set xs = set ys"
  shows "xs = ys"
proof (rule nth_equalityI)
  show len: "length xs = length ys" using arg_cong [OF k, of length] by simp
  fix n assume n: "n < length xs"
  have key: "fst (xs ! n) = fst (ys ! n)" using k n len by (metis nth_map)
  have "ys ! n \<in> set xs" using s n len by (metis nth_mem)
  moreover have "xs ! n \<in> set xs" using n by simp
  ultimately have "snd (xs ! n) = snd (ys ! n)" using d key by (metis eq_key_imp_eq_value prod.collapse)
  then show "xs ! n = ys ! n" using key by (simp add: prod_eq_iff)
qed

lemma sort_key_unique:
  assumes "sort_key fst xs = sort_key fst ys" and "map fst xs = map fst ys" and "distinct (map fst xs)"
  shows "xs = ys"
proof -
  have "set xs = set ys" using arg_cong [OF assms(1), of set] by simp
  then show ?thesis using assoc_list_unique assms(2,3) by blast
qed

lemma canon_obj_unique:
  assumes "canon (JObj xs) = canon (JObj ys)" and "map fst xs = map fst ys" and "distinct (map fst xs)"
  shows "map (canon \<circ> snd) xs = map (canon \<circ> snd) ys"
proof -
  let ?f = "\<lambda>(k, v). (k, canon v)"
  have keys: "map fst (map ?f zs) = map fst zs" for zs by (simp add: comp_def case_prod_unfold)
  have "map ?f xs = map ?f ys"
  proof (rule sort_key_unique)
    show "sort_key fst (map ?f xs) = sort_key fst (map ?f ys)" using assms(1) by simp
    show "map fst (map ?f xs) = map fst (map ?f ys)" "distinct (map fst (map ?f xs))"
      unfolding keys using assms(2,3) by simp_all
  qed
  then have "map snd (map ?f xs) = map snd (map ?f ys)" by simp
  then show ?thesis by (simp add: comp_def case_prod_unfold)
qed

section \<open>The keys of a value map\<close>

definition spec_keys :: "string \<Rightarrow> string list" where
  "spec_keys category =
     (if category = ''drive'' then [''capacity_tb'', ''media_type'', ''interface'', ''form_factor'', ''recording_tech'']
      else if category = ''gpu'' then [''chip_vendor'', ''vram_gb'', ''interface'', ''cooling'', ''tdp_w'']
      else if category = ''ram'' then [''generation'', ''module_type'', ''ecc'', ''total_capacity_gb'', ''speed_mts'']
      else if category = ''cpu'' then [''socket'', ''cores'', ''tdp_w'']
      else [])"

lemma spec_keys_distinct: "distinct (spec_keys c)"
  by (simp add: spec_keys_def)

definition keyed :: "catalog_inputs \<Rightarrow> bool" where
  "keyed i \<longleftrightarrow> (\<forall>m \<in> set (ci_members i). \<forall>vs. ms_spec m = Some vs \<longrightarrow> map fst vs = spec_keys (ci_category i))"

lemma values_of_keys:
  assumes "spec_table db c = Some t" and "(m, s) \<in> set t"
  shows "map fst (values_of s) = spec_keys c"
  using assms by (auto simp: spec_table_def values_of_def spec_keys_def drive_values_def gpu_values_def
      ram_values_def cpu_values_def Let_def split: if_splits)

lemma members_keys:
  assumes "m \<in> set (members db c ids)" and "ms_spec m = Some vs"
  shows "map fst vs = spec_keys c"
proof (cases "spec_table db c")
  case None
  then show ?thesis using assms by (auto simp: members_def spec_table_def spec_keys_def split: if_splits)
next
  case (Some t)
  then obtain r where "(ms_model_id m, r) \<in> set t" "vs = values_of r"
    using assms by (auto simp: members_def member_of_def dest!: map_of_SomeD)
  then show ?thesis using values_of_keys Some by blast
qed

lemma gather_keyed:
  assumes "gather db s e = Inr i" shows "keyed i"
proof -
  obtain c where "dispatch_category s = Inr c" using assms by (auto simp: gather_def elim: andThen_InrE)
  then show ?thesis
    using assms members_keys [of _ db c]
    by (fastforce simp: gather_def keyed_def Let_def split: option.splits if_splits)
qed

section \<open>Equal payloads\<close>

lemma int_json_inj: "canon (int_json a) = canon (int_json b) \<Longrightarrow> a = b"
  by (cases a; cases b) (simp_all add: int_json_def)

lemma scalar_json_inj: "canon (scalar_json a) = canon (scalar_json b) \<Longrightarrow> a = b"
  by (cases a; cases b) (auto simp: scalar_json_def split: scalar.splits)

lemma grain_value_inj: "grain_value g = grain_value h \<Longrightarrow> g = h"
  by (cases g; cases h) (simp_all add: grain_value_def)

lemma value_map_inj:
  assumes "canon (JObj (map (\<lambda>(k, v). (k, scalar_json v)) vs)) = canon (JObj (map (\<lambda>(k, v). (k, scalar_json v)) ws))"
    and k: "map fst vs = map fst ws" and "distinct (map fst vs)"
  shows "vs = ws"
proof -
  have keys: "map fst (map (\<lambda>(k, v). (k, scalar_json v)) zs) = map fst zs" for zs :: value_map
    by (simp add: comp_def case_prod_unfold)
  have "map (canon \<circ> scalar_json) (map snd vs) = map (canon \<circ> scalar_json) (map snd ws)"
    using canon_obj_unique [OF assms(1)] assms(2,3) unfolding keys by (simp add: comp_def case_prod_unfold)
  moreover have "inj (canon \<circ> scalar_json)" by (rule injI) (simp add: scalar_json_inj)
  ultimately have "map snd vs = map snd ws" by (meson inj_map_eq_map)
  then show ?thesis using k by (metis zip_map_fst_snd)
qed

lemma member_json_inj:
  assumes e: "canon (member_json m) = canon (member_json n)"
    and "\<And>vs. ms_spec m = Some vs \<Longrightarrow> map fst vs = ks" "\<And>vs. ms_spec n = Some vs \<Longrightarrow> map fst vs = ks"
    and "distinct ks"
  shows "m = n"
proof -
  let ?s = "\<lambda>m. case ms_spec m of None \<Rightarrow> JStr ''absent'' | Some vs \<Rightarrow> JObj (map (\<lambda>(k, v). (k, scalar_json v)) vs)"
  have "map (canon \<circ> snd) [(''model_id'', JInt (ms_model_id m)), (''spec'', ?s m)]
      = map (canon \<circ> snd) [(''model_id'', JInt (ms_model_id n)), (''spec'', ?s n)]"
    by (rule canon_obj_unique [OF e [unfolded member_json_def]]) simp_all
  then have id: "ms_model_id m = ms_model_id n" and spec: "canon (?s m) = canon (?s n)" by simp_all
  have "ms_spec m = ms_spec n"
  proof (cases "ms_spec m")
    case None
    then show ?thesis using spec by (cases "ms_spec n") simp_all
  next
    case m: (Some vs)
    then show ?thesis
    proof (cases "ms_spec n")
      case None
      then show ?thesis using spec m by simp
    next
      case n: (Some ws)
      have "vs = ws" by (rule value_map_inj) (use spec m n assms in simp_all)
      then show ?thesis using m n by simp
    qed
  qed
  then show ?thesis using id by simp
qed

lemma canonical_inj:
  assumes e: "canon (canonical i) = canon (canonical j)" and ki: "keyed i" and kj: "keyed j"
  shows "i = j"
proof -
  have vs: "map (canon \<circ> snd) [(''version'', JStr CATALOG_INPUTS_VERSION), (''category'', JStr (ci_category i)),
           (''grain'', JStr (grain_value (ci_grain i))), (''family_id'', int_json (ci_family_id i)),
           (''model_id'', int_json (ci_model_id i)), (''variant_id'', int_json (ci_variant_id i)),
           (''members'', JList (map member_json (ci_members i)))]
     = map (canon \<circ> snd) [(''version'', JStr CATALOG_INPUTS_VERSION), (''category'', JStr (ci_category j)),
           (''grain'', JStr (grain_value (ci_grain j))), (''family_id'', int_json (ci_family_id j)),
           (''model_id'', int_json (ci_model_id j)), (''variant_id'', int_json (ci_variant_id j)),
           (''members'', JList (map member_json (ci_members j)))]"
    by (rule canon_obj_unique [OF e [unfolded canonical_def]]) simp_all
  then have c: "ci_category i = ci_category j" and g: "ci_grain i = ci_grain j"
    and ids: "ci_family_id i = ci_family_id j" "ci_model_id i = ci_model_id j" "ci_variant_id i = ci_variant_id j"
    and ms: "map (canon \<circ> member_json) (ci_members i) = map (canon \<circ> member_json) (ci_members j)"
    by (auto dest: int_json_inj grain_value_inj)
  have "ci_members i = ci_members j"
  proof (rule inj_on_map_eq_map [THEN iffD1, OF _ ms])
    show "inj_on (canon \<circ> member_json) (set (ci_members i) \<union> set (ci_members j))"
    proof (rule inj_onI)
      fix m n assume m: "m \<in> set (ci_members i) \<union> set (ci_members j)" and n: "n \<in> set (ci_members i) \<union> set (ci_members j)"
        and eq: "(canon \<circ> member_json) m = (canon \<circ> member_json) n"
      show "m = n"
        by (rule member_json_inj [where ks = "spec_keys (ci_category i)"])
          (use eq m n ki kj c spec_keys_distinct in \<open>auto simp: keyed_def\<close>)
    qed
  qed
  then show ?thesis using c g ids by simp
qed

text \<open>C33: The payload that is hashed identifies the gathered catalog inputs: whatever the listings and
  the states of the catalog, two gathers have the same payload exactly if they are the same in every
  value a product or target clause reads, including whether a spec row exists at all.\<close>

theorem fingerprint_payload_unique:
  assumes "catalog_inputs_of db l = Inr i" and "catalog_inputs_of db' l' = Inr j"
  shows "fingerprint_payload i = fingerprint_payload j \<longleftrightarrow> i = j"
proof -
  have "keyed i" "keyed j" using assms gather_keyed unfolding catalog_inputs_of_def by blast+
  then show ?thesis using canonical_inj [of i j] by (auto simp: fingerprint_payload_def dumps_unique)
qed

definition sample_catalog :: catalog_db where
  "sample_catalog =
     \<lparr>family_rows = [(7, ''gpu'')], model_rows = [(20, Some 7), (21, Some 7)], variant_rows = [(5, 20)],
      drive_spec_rows = [], gpu_spec_rows = [(20, \<lparr>gs_chip_vendor = ''nvidia'', gs_vram_gb = Some 24,
        gs_interface = ''pcie'', gs_cooling = ''unknown'', gs_tdp_w = Some 300\<rparr>)],
      ram_spec_rows = [], cpu_spec_rows = [],
      snapshot_rows = [\<lparr>snap_listing = 1, observed_at = 50, item_price = 900, shipping_price = Some 0, tax_price = None,
        fx_rate = Some 1, snap_stock_status = ''in_stock'', attrs_json = PDict [(''category_hint'', PStr ''gpu'')]\<rparr>],
      edge_rows = [\<lparr>res_id = 3, res_listing = 1, res_grain = GRAIN_VARIANT, res_family = None, res_model = None,
        res_variant = Some 5, res_evidence = [], res_is_current = True\<rparr>]\<rparr>"

definition sample_inputs :: catalog_inputs where
  "sample_inputs =
     \<lparr>ci_category = ''gpu'', ci_grain = GRAIN_VARIANT, ci_family_id = Some 7, ci_model_id = Some 20, ci_variant_id = Some 5,
      ci_members = [\<lparr>ms_model_id = 20, ms_spec = Some [(''chip_vendor'', Some (SStr ''nvidia'')), (''vram_gb'', Some (SInt 24)),
        (''interface'', Some (SStr ''pcie'')), (''cooling'', None), (''tdp_w'', Some (SInt 300))]\<rparr>]\<rparr>"

lemmas gather_defs = catalog_inputs_of_def gather_def latest_snapshot_def current_edge_def dispatch_category_def py_get_def
  dispatch_hint_def CATEGORY_SLUG_MAX_LENGTH_def edge_model_def edge_variant_def join_row_def family_of_def members_def
  spec_table_def member_of_def values_of_def is_lower_def is_digit_def

lemma sample_gather: "catalog_inputs_of sample_catalog 1 = Inr sample_inputs"
  by (simp add: sample_catalog_def sample_inputs_def gather_defs gpu_values_def known_def)

lemma fingerprint_payload_unique_witness:
  "catalog_inputs_of sample_catalog 1 = Inr sample_inputs \<and>
   catalog_inputs_of (sample_catalog\<lparr>gpu_spec_rows := []\<rparr>) 1
     = Inr (sample_inputs\<lparr>ci_members := [\<lparr>ms_model_id = 20, ms_spec = None\<rparr>]\<rparr>) \<and>
   fingerprint_payload sample_inputs \<noteq> fingerprint_payload (sample_inputs\<lparr>ci_members := [\<lparr>ms_model_id = 20, ms_spec = None\<rparr>]\<rparr>)"
proof -
  have g: "catalog_inputs_of (sample_catalog\<lparr>gpu_spec_rows := []\<rparr>) 1
     = Inr (sample_inputs\<lparr>ci_members := [\<lparr>ms_model_id = 20, ms_spec = None\<rparr>]\<rparr>)"
    by (simp add: sample_catalog_def sample_inputs_def gather_defs)
  show ?thesis
    using g sample_gather fingerprint_payload_unique [OF sample_gather g] by (simp add: sample_inputs_def)
qed

end
