(* ===== verification/EligProduct.thy ===== *)
theory EligProduct
  imports EligFingerprint
begin

text \<open>
  The product clauses of the four first-class categories and the target clause
  (\<open>eligibility/evaluate.py\<close>). The attributes a title states are a record per category
  (\<open>matching.rules\<close>); a payload of another category reads as all unknown.
\<close>

section \<open>What a title states\<close>

record gpu_attributes =
  ga_chip_vendor :: "string attribute option"
  ga_vram_gb :: "int attribute option"
  ga_interface :: "string attribute option"
  ga_cooling :: "string attribute option"

record ram_attributes =
  ra_generation :: "string attribute option"
  ra_module_type :: "string attribute option"
  ra_ecc :: "bool attribute option"
  ra_module_capacity_gb :: "int attribute option"
  ra_modules_per_kit :: "int attribute option"
  ra_speed_mts :: "int attribute option"

record cpu_attributes =
  ca_socket :: "string attribute option"
  ca_cores :: "int attribute option"
  ca_tdp_w :: "int attribute option"
  ca_vendor_lock :: "string attribute option"

datatype category_attrs = NoAttrs | GpuAttrs gpu_attributes | RamAttrs ram_attributes | CpuAttrs cpu_attributes

record extracted_attributes =
  xa_capacity_bytes :: "int attribute option"
  xa_interface :: "string attribute option"
  xa_form_factor :: "string attribute option"
  xa_recording_tech :: "string attribute option"
  xa_condition :: "string attribute option"
  xa_category_attrs :: category_attrs

section \<open>The catalog view\<close>

definition map_get :: "value_map \<Rightarrow> string \<Rightarrow> scalar option" where
  "map_get vs name = (case map_of vs name of None \<Rightarrow> None | Some v \<Rightarrow> v)"

definition view_get :: "catalog_inputs \<Rightarrow> string \<Rightarrow> scalar catalog_field" where
  "view_get inputs name =
     (if ci_grain inputs = GRAIN_NONE then catalog_field_of None ''no accepted resolution''
      else if ci_members inputs = [] then catalog_field_of None ''family has no member models''
      else if \<exists>m \<in> set (ci_members inputs). ms_spec m = None then catalog_field_of None ''spec row absent''
      else (case remdups (map (\<lambda>m. map_get (the (ms_spec m)) name) (ci_members inputs)) of
              [v] \<Rightarrow> let place = (if ci_grain inputs = GRAIN_FAMILY then ''family agreement set'' else ''model spec'')
                     in catalog_field_of v (if v \<noteq> None then place else place @ '': not stated'')
            | _ \<Rightarrow> catalog_field_of None ''family members disagree''))"

text \<open>\<open>_typed(\<dots>, str)\<close>, \<open>_typed(\<dots>, bool)\<close>, \<open>_int_field\<close> and \<open>_decimal_field\<close>, which may raise.\<close>

definition str_field :: "scalar catalog_field \<Rightarrow> string catalog_field" where
  "str_field f = catalog_field_of (case cf_value f of Some (SStr s) \<Rightarrow> Some s | _ \<Rightarrow> None) (why f)"

definition bool_field :: "scalar catalog_field \<Rightarrow> bool catalog_field" where
  "bool_field f = catalog_field_of (case cf_value f of Some (SBool b) \<Rightarrow> Some b | _ \<Rightarrow> None) (why f)"

definition int_field :: "scalar catalog_field \<Rightarrow> int catalog_field" where
  "int_field f = catalog_field_of (case cf_value f of Some (SInt i) \<Rightarrow> Some i | _ \<Rightarrow> None) (why f)"

definition decimal_field :: "scalar catalog_field \<Rightarrow> elig_error + rat catalog_field" where
  "decimal_field f =
     (case cf_value f of
        Some (SStr s) \<Rightarrow> (case parse_decimal s of None \<Rightarrow> Inl Elig_InvalidOperation
                          | Some d \<Rightarrow> Inr (catalog_field_of (Some d) (why f)))
      | _ \<Rightarrow> Inr (catalog_field_of None (why f)))"

definition recording_title_ok :: "string list \<Rightarrow> string \<Rightarrow> bool" where
  "recording_title_ok allowed v =
     (if v = ''smr'' then \<exists>a \<in> set allowed. starts_with a ''smr'' else v \<in> set allowed)"

section \<open>The categories\<close>

definition strings_val :: "string list \<Rightarrow> pyval" where "strings_val xs = PList (map PStr xs)"

definition BYTES_PER_TB :: rat where "BYTES_PER_TB = 10 ^ 12"

text \<open>The clause on a string attribute whose requirement is an allow-list.\<close>

definition allow_clause ::
  "catalog_inputs \<Rightarrow> category_policy \<Rightarrow> pydict \<Rightarrow> string \<Rightarrow> string list \<Rightarrow> string \<Rightarrow> string attribute option
   \<Rightarrow> (string \<Rightarrow> bool) option \<Rightarrow> clause_result" where
  "allow_clause inputs policy src name allowed column title override =
     attribute_clause PStr name (strings_val allowed) (one_of allowed) (str_field (view_get inputs column)) title policy
       override src"

definition drive_clauses ::
  "drive_requirement \<Rightarrow> catalog_inputs \<Rightarrow> extracted_attributes \<Rightarrow> category_policy \<Rightarrow> pydict
   \<Rightarrow> elig_error + clause_result list" where
  "drive_clauses req inputs extracted policy src =
     (let listing_capacity = map_option
            (\<lambda>a. \<lparr>at_value = ddiv (of_int (at_value a)) BYTES_PER_TB, confidence = confidence a, layer = layer a,
                  source_text = source_text a\<rparr>) (xa_capacity_bytes extracted);
          allow = allow_clause inputs policy src
      in andThen (decimal_field (view_get inputs ''capacity_tb'')) (\<lambda>capacity. Inr
        [attribute_clause PDec ''drive.min_capacity_tb'' (py_option PDec (dr_min_capacity_tb req))
           (at_least (dr_min_capacity_tb req)) capacity listing_capacity policy None src,
         allow ''drive.media_types'' (dr_media_types req) ''media_type'' None None,
         allow ''drive.interfaces'' (dr_interfaces req) ''interface'' (xa_interface extracted) None,
         allow ''drive.form_factors'' (dr_form_factors req) ''form_factor'' (xa_form_factor extracted) None,
         allow ''drive.recording_techs'' (dr_recording_techs req) ''recording_tech'' (xa_recording_tech extracted)
           (Some (recording_title_ok (dr_recording_techs req)))]))"

definition no_gpu_attributes :: gpu_attributes where
  "no_gpu_attributes = \<lparr>ga_chip_vendor = None, ga_vram_gb = None, ga_interface = None, ga_cooling = None\<rparr>"

definition gpu_clauses ::
  "gpu_requirement \<Rightarrow> catalog_inputs \<Rightarrow> extracted_attributes \<Rightarrow> category_policy \<Rightarrow> pydict \<Rightarrow> clause_result list" where
  "gpu_clauses req inputs extracted policy src =
     (let title = (case xa_category_attrs extracted of GpuAttrs a \<Rightarrow> a | _ \<Rightarrow> no_gpu_attributes);
          allow = allow_clause inputs policy src
      in [attribute_clause PInt ''gpu.min_vram_gb'' (py_option PInt (gr_min_vram_gb req)) (at_least (gr_min_vram_gb req))
            (int_field (view_get inputs ''vram_gb'')) (ga_vram_gb title) policy None src,
          allow ''gpu.chip_vendors'' (gr_chip_vendors req) ''chip_vendor'' (ga_chip_vendor title) None,
          allow ''gpu.interfaces'' (gr_interfaces req) ''interface'' (ga_interface title) None,
          allow ''gpu.coolings'' (gr_coolings req) ''cooling'' (ga_cooling title) None,
          attribute_clause PInt ''gpu.max_tdp_w'' (py_option PInt (gr_max_tdp_w req)) (at_most (gr_max_tdp_w req))
            (int_field (view_get inputs ''tdp_w'')) None policy None src])"

definition no_ram_attributes :: ram_attributes where
  "no_ram_attributes = \<lparr>ra_generation = None, ra_module_type = None, ra_ecc = None, ra_module_capacity_gb = None,
     ra_modules_per_kit = None, ra_speed_mts = None\<rparr>"

definition kit_total :: "ram_attributes \<Rightarrow> int attribute option" where
  "kit_total title =
     (case (ra_modules_per_kit title, ra_module_capacity_gb title) of
        (Some k, Some c) \<Rightarrow> Some \<lparr>at_value = at_value k * at_value c, confidence = min (confidence k) (confidence c),
                                  layer = layer c, source_text = source_text c\<rparr>
      | _ \<Rightarrow> None)"

definition ram_clauses ::
  "ram_requirement \<Rightarrow> catalog_inputs \<Rightarrow> extracted_attributes \<Rightarrow> category_policy \<Rightarrow> pydict \<Rightarrow> clause_result list" where
  "ram_clauses req inputs extracted policy src =
     (let title = (case xa_category_attrs extracted of RamAttrs a \<Rightarrow> a | _ \<Rightarrow> no_ram_attributes);
          total = kit_total title;
          allow = allow_clause inputs policy src
      in [allow ''ram.generations'' (rr_generations req) ''generation'' (ra_generation title) None,
          allow ''ram.module_types'' (rr_module_types req) ''module_type'' (ra_module_type title) None,
          attribute_clause PBool ''ram.require_ecc'' (py_option PBool (rr_require_ecc req)) (equals_to (rr_require_ecc req))
            (bool_field (view_get inputs ''ecc'')) (ra_ecc title) policy None src,
          attribute_clause PInt ''ram.min_total_capacity_gb'' (py_option PInt (rr_min_total_capacity_gb req))
            (at_least (rr_min_total_capacity_gb req)) (int_field (view_get inputs ''total_capacity_gb'')) total policy None src,
          attribute_clause PInt ''ram.min_speed_mts'' (py_option PInt (rr_min_speed_mts req))
            (at_least (rr_min_speed_mts req)) (int_field (view_get inputs ''speed_mts'')) (ra_speed_mts title) policy None src])"

definition no_cpu_attributes :: cpu_attributes where
  "no_cpu_attributes = \<lparr>ca_socket = None, ca_cores = None, ca_tdp_w = None, ca_vendor_lock = None\<rparr>"

definition cpu_clauses ::
  "cpu_requirement \<Rightarrow> catalog_inputs \<Rightarrow> extracted_attributes \<Rightarrow> category_policy \<Rightarrow> pydict \<Rightarrow> clause_result list" where
  "cpu_clauses req inputs extracted policy src =
     (let title = (case xa_category_attrs extracted of CpuAttrs a \<Rightarrow> a | _ \<Rightarrow> no_cpu_attributes)
      in [allow_clause inputs policy src ''cpu.sockets'' (cr_sockets req) ''socket'' (ca_socket title) None,
          attribute_clause PInt ''cpu.min_cores'' (py_option PInt (cr_min_cores req)) (at_least (cr_min_cores req))
            (int_field (view_get inputs ''cores'')) (ca_cores title) policy None src,
          attribute_clause PInt ''cpu.max_tdp_w'' (py_option PInt (cr_max_tdp_w req)) (at_most (cr_max_tdp_w req))
            (int_field (view_get inputs ''tdp_w'')) (ca_tdp_w title) policy None src,
          vendor_lock_clause (cr_require_vendor_unlocked req) (ca_vendor_lock title) policy src])"

definition requirement_categories :: "string list" where
  "requirement_categories = [''drive'', ''gpu'', ''ram'', ''cpu'']"

definition product_clauses ::
  "requirement option \<Rightarrow> string \<Rightarrow> catalog_inputs \<Rightarrow> extracted_attributes \<Rightarrow> category_policy \<Rightarrow> pydict
   \<Rightarrow> elig_error + clause_result list" where
  "product_clauses requirement category inputs extracted policy src =
     (if category \<notin> set requirement_categories then Inr []
      else case requirement of
        None \<Rightarrow> Inr [clause_result_of (category @ ''.requirement'') UNKNOWN NONE PNone PNone
            ''watch has no requirement satellite; save it through the requirement service'' src]
      | Some (DriveReq r) \<Rightarrow> drive_clauses r inputs extracted policy src
      | Some (GpuReq r) \<Rightarrow> Inr (gpu_clauses r inputs extracted policy src)
      | Some (RamReq r) \<Rightarrow> Inr (ram_clauses r inputs extracted policy src)
      | Some (CpuReq r) \<Rightarrow> Inr (cpu_clauses r inputs extracted policy src))"

section \<open>The target\<close>

definition target_clause ::
  "int option \<Rightarrow> int option \<Rightarrow> catalog_inputs \<Rightarrow> pydict \<Rightarrow> clause_result option" where
  "target_clause target_family_id target_model_id inputs src =
     (if target_family_id = None \<and> target_model_id = None then None
      else let req = PDict [(''family_id'', py_option PInt target_family_id), (''model_id'', py_option PInt target_model_id)];
               obs = PDict [(''grain'', PStr (grain_value (ci_grain inputs))), (''family_id'', py_option PInt (ci_family_id inputs)),
                            (''model_id'', py_option PInt (ci_model_id inputs))];
               result = (\<lambda>out d. Some (clause_result_of ''target'' out (if out = UNKNOWN then NONE else CATALOG) req obs d src))
           in if ci_grain inputs = GRAIN_NONE then result UNKNOWN ''no accepted resolution''
              else if target_model_id \<noteq> None
              then (if ci_grain inputs = GRAIN_FAMILY then result UNKNOWN ''resolved only to a family''
                    else if ci_model_id inputs = target_model_id then result MATCH ''resolved to the target model''
                    else result NO_MATCH ''resolved to another model'')
              else if ci_family_id inputs = None then result UNKNOWN ''resolved model has no family''
              else if ci_family_id inputs = target_family_id then result MATCH ''resolved within the target family''
              else result NO_MATCH ''resolved to another family'')"

section \<open>What the view returns\<close>

text \<open>A known field is the value every member states.\<close>

lemma view_get_known:
  assumes "cf_value (view_get inputs name) = Some v"
  shows "ci_grain inputs \<noteq> GRAIN_NONE" "ci_members inputs \<noteq> []"
    "m \<in> set (ci_members inputs) \<Longrightarrow> \<exists>vs. ms_spec m = Some vs \<and> map_get vs name = Some v"
proof -
  let ?xs = "map (\<lambda>m. map_get (the (ms_spec m)) name) (ci_members inputs)"
  have g: "ci_grain inputs \<noteq> GRAIN_NONE" and ne: "ci_members inputs \<noteq> []"
    and full: "\<forall>m \<in> set (ci_members inputs). ms_spec m \<noteq> None" and one: "remdups ?xs = [Some v]"
    using assms by (auto simp: view_get_def Let_def split: if_splits list.splits)
  show "ci_grain inputs \<noteq> GRAIN_NONE" "ci_members inputs \<noteq> []" using g ne by simp_all
  have "set ?xs = {Some v}" using arg_cong [OF one, of set] by (simp only: set_remdups) simp
  then show "\<exists>vs. ms_spec m = Some vs \<and> map_get vs name = Some v" if "m \<in> set (ci_members inputs)"
  proof -
    have "map_get (the (ms_spec m)) name \<in> set ?xs" using that by simp
    then have "map_get (the (ms_spec m)) name = Some v" using \<open>set ?xs = {Some v}\<close> by blast
    then show ?thesis using that full by auto
  qed
qed

lemma dround_decimal: "\<exists>k m. dround x * 10 ^ k = of_int m"
proof -
  obtain n e where "dround x = of_int n * of_nat 10 powi e"
    using round_sig_representable [of 10 28 x] unfolding dround_def representable_def by auto
  then have "dround x * 10 ^ nat (- e) = of_int (n * 10 ^ nat e)"
    by (cases "0 \<le> e") (simp_all add: power_int_def flip: power_mult_distrib)
  then show ?thesis by blast
qed

text \<open>The text a capacity is stored as in the catalog inputs reads back as the decimal it was printed
  from, rounded to the 28 digits of the context as \<open>normalize\<close> does.\<close>

theorem capacity_text_round_trip: "parse_decimal (decimal_text x) = Some (dround x)"
  using dround_decimal [of x] parse_fixed_text unfolding decimal_text_def by metis

end
