(* ===== verification/EligEvaluate.thy ===== *)
theory EligEvaluate
  imports EligProduct
begin

text \<open>
  The evaluation of one listing against every enabled watch of its category
  (\<open>eligibility/evaluate.py\<close>). Reading a title is the matching package's work: the functions it
  provides are the fields of a \<open>title_reader\<close>, a parameter here. The transaction is the result's
  left side: an evaluation that raises has no database to return, so the caller keeps the old one.
\<close>

section \<open>The database of the evaluator\<close>

record elig_db = catalog_db +
  listing_rows :: "listing list"
  site_rows :: "(int \<times> string) list"
  watch_rows :: "watch list"
  drive_requirement_rows :: "(int \<times> drive_requirement) list"
  gpu_requirement_rows :: "(int \<times> gpu_requirement) list"
  ram_requirement_rows :: "(int \<times> ram_requirement) list"
  cpu_requirement_rows :: "(int \<times> cpu_requirement) list"
  evaluation_rows :: "evaluation list"

definition requirement_of :: "'d elig_db_scheme \<Rightarrow> string \<Rightarrow> int \<Rightarrow> requirement option" where
  "requirement_of db category w =
     (if category = ''drive'' then map_option DriveReq (map_of (drive_requirement_rows db) w)
      else if category = ''gpu'' then map_option GpuReq (map_of (gpu_requirement_rows db) w)
      else if category = ''ram'' then map_option RamReq (map_of (ram_requirement_rows db) w)
      else if category = ''cpu'' then map_option CpuReq (map_of (cpu_requirement_rows db) w)
      else None)"

section \<open>Offer facts\<close>

record title_reader =
  tr_canonicalize :: "string \<Rightarrow> string \<Rightarrow> string"
  tr_extract :: "string \<Rightarrow> string \<Rightarrow> extracted_attributes"
  tr_source_terms :: "extracted_attributes \<Rightarrow> string \<Rightarrow> extracted_attributes"
  tr_offer_quantity :: "string \<Rightarrow> int attribute option"

definition registered_categories :: "string list" where
  "registered_categories =
     [''drive'', ''gpu'', ''ram'', ''cpu'', ''nic'', ''hba'', ''motherboard'', ''server'']"

definition no_attributes :: extracted_attributes where
  "no_attributes = \<lparr>xa_capacity_bytes = None, xa_interface = None, xa_form_factor = None, xa_recording_tech = None,
     xa_condition = None, xa_category_attrs = NoAttrs\<rparr>"

definition listing_attributes :: "title_reader \<Rightarrow> string \<Rightarrow> string \<Rightarrow> string \<Rightarrow> extracted_attributes" where
  "listing_attributes rd category text source_key =
     tr_source_terms rd
       (if category \<in> set registered_categories then tr_extract rd category text else no_attributes) source_key"

text \<open>\<open>Decimal.quantize(Decimal("0.01"))\<close>: half even, and \<open>InvalidOperation\<close> beyond 28 digits.\<close>

definition quantize_cents :: "rat \<Rightarrow> elig_error + rat" where
  "quantize_cents x =
     (let n = rhe (x * 100) in if 10 ^ 28 \<le> \<bar>n\<bar> then Inl Elig_InvalidOperation else Inr (of_int n / 100))"

definition stated_total :: "snapshot \<Rightarrow> rat" where
  "stated_total s = dadd (item_price s) (dsum (List.map_filter id [shipping_price s, tax_price s]))"

definition offer_price :: "snapshot option \<Rightarrow> elig_error + rat option" where
  "offer_price snap =
     (case snap of None \<Rightarrow> Inr None
      | Some s \<Rightarrow> (case fx_rate s of None \<Rightarrow> Inr None
          | Some rate \<Rightarrow> andThen (quantize_cents (dmul (stated_total s) rate)) (\<lambda>p. Inr (Some p))))"

definition source_key :: "'d elig_db_scheme \<Rightarrow> listing \<Rightarrow> string" where
  "source_key db l = (case map_of (site_rows db) (l_source_site l) of None \<Rightarrow> [] | Some n \<Rightarrow> n)"

definition offer_facts_of ::
  "title_reader \<Rightarrow> 'd elig_db_scheme \<Rightarrow> listing \<Rightarrow> snapshot option \<Rightarrow> string \<Rightarrow> string \<Rightarrow> elig_error + offer_facts" where
  "offer_facts_of rd db l snap text category =
     andThen (offer_price snap) (\<lambda>price. Inr
       \<lparr>of_snapshot_at = map_option observed_at snap, price_usd = price,
        shipping_known = (case snap of None \<Rightarrow> False | Some s \<Rightarrow> shipping_price s \<noteq> None),
        quantity = tr_offer_quantity rd text,
        stock_status = map_option snap_stock_status snap,
        of_international = l_is_international l,
        of_condition = xa_condition (listing_attributes rd category text (source_key db l))\<rparr>)"

definition is_expired :: "listing \<Rightarrow> instant \<Rightarrow> bool" where
  "is_expired l now = (case l_expires_at l of None \<Rightarrow> False | Some e \<Rightarrow> e \<le> now)"

section \<open>One watch\<close>

definition catalog_source :: "resolution option \<Rightarrow> catalog_inputs \<Rightarrow> string \<Rightarrow> pydict" where
  "catalog_source edge inputs fingerprint =
     [(''resolution_id'', py_option (PInt \<circ> res_id) edge),
      (''resolution_outcome'', case edge of None \<Rightarrow> PNone | Some e \<Rightarrow> py_get (res_evidence e) ''outcome''),
      (''grain'', PStr (grain_value (ci_grain inputs))), (''family_id'', py_option PInt (ci_family_id inputs)),
      (''model_id'', py_option PInt (ci_model_id inputs)), (''variant_id'', py_option PInt (ci_variant_id inputs)),
      (''catalog_fingerprint'', PStr fingerprint)]"

definition watch_clauses ::
  "'a watch_scheme \<Rightarrow> requirement option \<Rightarrow> catalog_inputs \<Rightarrow> extracted_attributes \<Rightarrow> offer_facts \<Rightarrow> pydict
   \<Rightarrow> elig_error + clause_result list" where
  "watch_clauses w req inputs extracted facts src =
     (let category = ci_category inputs; policy = policy_for category;
          target = (case target_clause (target_family w) (target_model w) inputs src of None \<Rightarrow> [] | Some t \<Rightarrow> [t])
      in andThen (product_clauses req category inputs extracted policy src) (\<lambda>product.
           Inr (target @ product @ offer_clauses w facts policy)))"

text \<open>\<open>WatchEvaluation.objects.update_or_create\<close>, keyed by the watch and the listing.\<close>

definition upsert_evaluation :: "evaluation \<Rightarrow> evaluation list \<Rightarrow> evaluation list" where
  "upsert_evaluation ev rows =
     (if \<exists>r \<in> set rows. ev_watch r = ev_watch ev \<and> ev_listing r = ev_listing ev
      then map (\<lambda>r. if ev_watch r = ev_watch ev \<and> ev_listing r = ev_listing ev then ev\<lparr>ev_id := ev_id r\<rparr> else r) rows
      else rows @ [ev\<lparr>ev_id := 1 + foldl max 0 (map ev_id rows)\<rparr>])"

definition evaluate_watch ::
  "'d elig_db_scheme \<Rightarrow> listing \<Rightarrow> instant \<Rightarrow> resolution option \<Rightarrow> catalog_inputs \<Rightarrow> extracted_attributes \<Rightarrow> offer_facts
   \<Rightarrow> watch \<Rightarrow> elig_error + verdict \<times> 'd elig_db_scheme" where
  "evaluate_watch db l now edge inputs extracted facts w =
     (let fingerprint = catalog_fingerprint inputs in
      andThen (watch_clauses w (requirement_of db (ci_category inputs) (w_id w)) inputs extracted facts
                 (catalog_source edge inputs fingerprint)) (\<lambda>results.
      andThen (aggregate results) (\<lambda>v. Inr (v,
        db\<lparr>evaluation_rows := upsert_evaluation
             \<lparr>ev_id = 0, ev_watch = w_id w, ev_listing = l_id l, ev_verdict = v, ev_reasons = map as_reason results,
              ev_requirement_version = requirement_version w, ev_evaluator_version = EVALUATOR_VERSION,
              ev_snapshot_observed_at = of_snapshot_at facts, ev_resolution = map_option res_id edge,
              ev_catalog_fingerprint = fingerprint, ev_evaluated_at = now,
              ev_retention_class = l_retention_class l, ev_expires_at = l_expires_at l\<rparr> (evaluation_rows db)\<rparr>))))"

fun evaluate_watches ::
  "'d elig_db_scheme \<Rightarrow> listing \<Rightarrow> instant \<Rightarrow> resolution option \<Rightarrow> catalog_inputs \<Rightarrow> extracted_attributes \<Rightarrow> offer_facts
   \<Rightarrow> watch list \<Rightarrow> elig_error + (int \<times> verdict) list \<times> 'd elig_db_scheme" where
  "evaluate_watches db l now edge inputs extracted facts [] = Inr ([], db)"
| "evaluate_watches db l now edge inputs extracted facts (w # ws) =
     andThen (evaluate_watch db l now edge inputs extracted facts w) (\<lambda>(v, db1).
     andThen (evaluate_watches db1 l now edge inputs extracted facts ws) (\<lambda>(vs, db2).
       Inr ((w_id w, v) # vs, db2)))"

section \<open>One listing\<close>

record listing_evaluation =
  le_listing :: int
  le_skipped :: "string option"
  le_verdicts :: "(int \<times> verdict) list"

definition category_watches :: "'d elig_db_scheme \<Rightarrow> string \<Rightarrow> watch list" where
  "category_watches db category = sort_key w_id (filter (\<lambda>w. enabled w \<and> w_category w = category) (watch_rows db))"

definition evaluate_live ::
  "title_reader \<Rightarrow> instant \<Rightarrow> 'd elig_db_scheme \<Rightarrow> listing \<Rightarrow> elig_error + listing_evaluation \<times> 'd elig_db_scheme" where
  "evaluate_live rd now db l =
     (let snap = latest_snapshot db (l_id l); edge = current_edge db (l_id l) in
      andThen (gather db snap edge) (\<lambda>inputs.
        let category = ci_category inputs; watches = category_watches db category in
        if watches = [] then Inr (\<lparr>le_listing = l_id l, le_skipped = None, le_verdicts = []\<rparr>, db)
        else let text = tr_canonicalize rd (title_raw l) (condition_label_raw l);
                 extracted = listing_attributes rd category text (source_key db l)
        in andThen (offer_facts_of rd db l snap text category) (\<lambda>facts.
           andThen (evaluate_watches db l now edge inputs extracted facts watches) (\<lambda>(vs, db').
             Inr (\<lparr>le_listing = l_id l, le_skipped = None, le_verdicts = vs\<rparr>, db')))))"

definition evaluate_listing ::
  "title_reader \<Rightarrow> instant \<Rightarrow> 'd elig_db_scheme \<Rightarrow> int \<Rightarrow> elig_error + listing_evaluation \<times> 'd elig_db_scheme" where
  "evaluate_listing rd now db listing_id =
     (case first_such (\<lambda>l. l_id l = listing_id) (listing_rows db) of
        None \<Rightarrow> Inl Elig_DoesNotExist
      | Some l \<Rightarrow>
          if l_delisted_at l \<noteq> None
          then Inr (\<lparr>le_listing = listing_id, le_skipped = Some ''delisted'', le_verdicts = []\<rparr>, db)
          else if is_expired l now
          then Inr (\<lparr>le_listing = listing_id, le_skipped = Some ''expired'', le_verdicts = []\<rparr>, db)
          else evaluate_live rd now db l)"

end
