(* ===== verification/EligVerdicts.thy ===== *)
theory EligVerdicts
  imports EligEvaluate
begin

text \<open>
  What an evaluation promises: a match is earned by catalog and offer evidence, title evidence can
  only lower a product clause, and an evaluation writes the rows of its listing, current, and nothing
  else.
\<close>

section \<open>A member that meets a requirement\<close>

text \<open>
  The promise of the product clauses, stated on one member's values: every bound is met and every
  allow-list holds the stated value. A value the catalog does not state meets nothing.
\<close>

definition allows :: "value_map \<Rightarrow> string \<Rightarrow> string list \<Rightarrow> bool" where
  "allows vs name allowed \<longleftrightarrow> allowed = [] \<or> (\<exists>s. map_get vs name = Some (SStr s) \<and> s \<in> set allowed)"

definition int_ok :: "value_map \<Rightarrow> string \<Rightarrow> int option \<Rightarrow> (int \<Rightarrow> int \<Rightarrow> bool) \<Rightarrow> bool" where
  "int_ok vs name bound rel \<longleftrightarrow> (\<forall>b. bound = Some b \<longrightarrow> (\<exists>i. map_get vs name = Some (SInt i) \<and> rel b i))"

definition meets :: "requirement \<Rightarrow> value_map \<Rightarrow> bool" where
  "meets req vs =
     (case req of
        DriveReq r \<Rightarrow>
          (\<forall>b. dr_min_capacity_tb r = Some b \<longrightarrow>
             (\<exists>s c. map_get vs ''capacity_tb'' = Some (SStr s) \<and> parse_decimal s = Some c \<and> b \<le> c))
          \<and> allows vs ''media_type'' (dr_media_types r) \<and> allows vs ''interface'' (dr_interfaces r)
          \<and> allows vs ''form_factor'' (dr_form_factors r) \<and> allows vs ''recording_tech'' (dr_recording_techs r)
      | GpuReq r \<Rightarrow>
          int_ok vs ''vram_gb'' (gr_min_vram_gb r) (\<le>) \<and> allows vs ''chip_vendor'' (gr_chip_vendors r)
          \<and> allows vs ''interface'' (gr_interfaces r) \<and> allows vs ''cooling'' (gr_coolings r)
          \<and> int_ok vs ''tdp_w'' (gr_max_tdp_w r) (\<ge>)
      | RamReq r \<Rightarrow>
          allows vs ''generation'' (rr_generations r) \<and> allows vs ''module_type'' (rr_module_types r)
          \<and> (\<forall>b. rr_require_ecc r = Some b \<longrightarrow> map_get vs ''ecc'' = Some (SBool b))
          \<and> int_ok vs ''total_capacity_gb'' (rr_min_total_capacity_gb r) (\<le>)
          \<and> int_ok vs ''speed_mts'' (rr_min_speed_mts r) (\<le>)
      | CpuReq r \<Rightarrow>
          allows vs ''socket'' (cr_sockets r) \<and> int_ok vs ''cores'' (cr_min_cores r) (\<le>)
          \<and> int_ok vs ''tdp_w'' (cr_max_tdp_w r) (\<ge>))"

text \<open>Whether a requirement constrains the product at all: an unconstrained one reads no evidence.\<close>

text \<open>
  The values the view may be read as: those of any member, and no values at all when the listing has no
  accepted resolution or no members (then \<open>meets req []\<close> says that nothing is required).
\<close>

definition evidence :: "catalog_inputs \<Rightarrow> value_map list" where
  "evidence inputs =
     (if ci_grain inputs = GRAIN_NONE \<or> ci_members inputs = [] then [[]]
      else map (\<lambda>m. case ms_spec m of None \<Rightarrow> [] | Some vs \<Rightarrow> vs) (ci_members inputs))"

lemma view_value:
  assumes v: "cf_value (view_get inputs name) = Some v" and m: "vs \<in> set (evidence inputs)"
  shows "map_get vs name = Some v"
proof -
  let ?f = "\<lambda>m. case ms_spec m of None \<Rightarrow> [] | Some vs \<Rightarrow> vs"
  have "vs \<in> set (map ?f (ci_members inputs))" using m view_get_known(1,2) [OF v] by (simp add: evidence_def)
  then have "\<exists>m \<in> set (ci_members inputs). vs = ?f m" unfolding set_map by blast
  then obtain m where mem: "m \<in> set (ci_members inputs)" and vs: "vs = ?f m" by blast
  then show ?thesis using view_get_known(3) [OF v mem] by auto
qed

lemma str_field_value: "cf_value (str_field f) = Some s \<longleftrightarrow> cf_value f = Some (SStr s)"
  by (auto simp: str_field_def split: option.splits scalar.splits)

lemma int_field_value: "cf_value (int_field f) = Some i \<longleftrightarrow> cf_value f = Some (SInt i)"
  by (auto simp: int_field_def split: option.splits scalar.splits)

lemma bool_field_value: "cf_value (bool_field f) = Some b \<longleftrightarrow> cf_value f = Some (SBool b)"
  by (auto simp: bool_field_def split: option.splits scalar.splits)

lemma decimal_field_value:
  assumes "decimal_field f = Inr g" and "cf_value g = Some c"
  shows "\<exists>s. cf_value f = Some (SStr s) \<and> parse_decimal s = Some c"
  using assms by (auto simp: decimal_field_def split: option.splits scalar.splits)

text \<open>The four shapes of a clause whose verdict is a match.\<close>

lemma allow_clause_match:
  assumes "outcome (allow_clause inputs default_policy src n allowed column title ov) = MATCH"
    and "vs \<in> set (evidence inputs)"
  shows "allows vs column allowed"
proof -
  have "one_of allowed = None \<or> (\<exists>sat v. one_of allowed = Some sat
      \<and> cf_value (str_field (view_get inputs column)) = Some v \<and> sat v)"
    using attribute_clause_match [OF assms(1) [unfolded allow_clause_def]] by simp
  then show ?thesis
    using view_value [OF _ assms(2)] by (auto simp: one_of_def allows_def str_field_value split: if_splits)
qed

lemma int_clause_match:
  assumes "outcome (attribute_clause PInt n r sat (int_field (view_get inputs column)) title default_policy None src) = MATCH"
    and "vs \<in> set (evidence inputs)" and "sat = map_option rel bound"
  shows "int_ok vs column bound rel"
proof -
  have "sat = None \<or> (\<exists>f v. sat = Some f \<and> cf_value (int_field (view_get inputs column)) = Some v \<and> f v)"
    using attribute_clause_match [OF assms(1)] by simp
  then show ?thesis using view_value [OF _ assms(2)] assms(3) by (auto simp: int_ok_def int_field_value)
qed

lemma capacity_clause_match:
  assumes "outcome (attribute_clause PDec n r (at_least bound) cap title default_policy None src) = MATCH"
    and "decimal_field (view_get inputs column) = Inr cap" and "vs \<in> set (evidence inputs)"
  shows "\<forall>b. bound = Some b \<longrightarrow> (\<exists>s c. map_get vs column = Some (SStr s)
           \<and> parse_decimal s = Some c \<and> b \<le> c)"
proof (intro allI impI)
  fix b assume "bound = Some b"
  then obtain c where "cf_value cap = Some c" "b \<le> c"
    using attribute_clause_match [OF assms(1)] by (auto simp: at_least_def)
  then show "\<exists>s c. map_get vs column = Some (SStr s) \<and> parse_decimal s = Some c \<and> b \<le> c"
    using decimal_field_value [OF assms(2)] view_value [OF _ assms(3)] by blast
qed

lemma ecc_clause_match:
  assumes "outcome (attribute_clause PBool n r (equals_to want) (bool_field (view_get inputs column)) title default_policy None src)
      = MATCH" and "vs \<in> set (evidence inputs)"
  shows "\<forall>b. want = Some b \<longrightarrow> map_get vs column = Some (SBool b)"
  using attribute_clause_match [OF assms(1)] view_value [OF _ assms(2)] by (auto simp: equals_to_def bool_field_value)

lemma product_clauses_match:
  assumes p: "product_clauses (Some req) category inputs extracted default_policy src = Inr rs"
    and c: "category \<in> set requirement_categories" and all: "\<forall>r \<in> set rs. outcome r = MATCH"
    and m: "vs \<in> set (evidence inputs)"
  shows "meets req vs"
proof (cases req)
  case (DriveReq r)
  obtain cap where cap: "decimal_field (view_get inputs ''capacity_tb'') = Inr cap"
    using p c DriveReq by (auto simp: product_clauses_def drive_clauses_def Let_def elim: andThen_InrE)
  show ?thesis
    using p c all allow_clause_match [OF _ m] capacity_clause_match [OF _ cap m] DriveReq
    unfolding meets_def product_clauses_def drive_clauses_def Let_def cap by auto
next
  case (GpuReq r)
  show ?thesis
    using p c all allow_clause_match [OF _ m] int_clause_match [OF _ m] GpuReq
    unfolding meets_def product_clauses_def gpu_clauses_def Let_def at_least_def at_most_def by auto
next
  case (RamReq r)
  show ?thesis
    using p c all allow_clause_match [OF _ m] int_clause_match [OF _ m] ecc_clause_match [OF _ m] RamReq
    unfolding meets_def product_clauses_def ram_clauses_def Let_def at_least_def by auto
next
  case (CpuReq r)
  show ?thesis
    using p c all allow_clause_match [OF _ m] int_clause_match [OF _ m] CpuReq
    unfolding meets_def product_clauses_def cpu_clauses_def Let_def at_least_def at_most_def by auto
qed

section \<open>The offer half\<close>

definition offer_ok :: "'a offer_terms_scheme \<Rightarrow> offer_facts \<Rightarrow> bool" where
  "offer_ok w facts \<longleftrightarrow>
     (\<forall>maximum. max_unit_price_usd w = Some maximum \<longrightarrow>
        (\<exists>price. price_usd facts = Some price \<and> shipping_known facts
          \<and> ddiv price (of_int (case quantity facts of None \<Rightarrow> 1
              | Some q \<Rightarrow> if listing_min_confidence default_policy \<le> confidence q \<and> 0 < at_value q then at_value q else 1)) \<le> maximum))
     \<and> (allowed_conditions w = [] \<or> (\<exists>a. of_condition facts = Some a \<and> at_value a \<noteq> ''unknown'' \<and> at_value a \<in> set (allowed_conditions w)))
     \<and> (require_in_stock w \<longrightarrow> stock_status facts = Some ''in_stock'')
     \<and> (allow_international w \<or> \<not> of_international facts)"

lemma offer_clauses_match:
  assumes "\<forall>r \<in> set (offer_clauses w facts default_policy). outcome r = MATCH"
  shows "offer_ok w facts"
proof -
  have "outcome (price_clause (max_unit_price_usd w) facts default_policy) = MATCH"
    "outcome (condition_clause (allowed_conditions w) facts) = MATCH"
    "outcome (stock_clause (require_in_stock w) facts) = MATCH"
    "outcome (international_clause (allow_international w) facts) = MATCH"
    using assms by (simp_all add: offer_clauses_def)
  note m = price_clause_match [OF this(1)] condition_clause_match [OF this(2)] stock_clause_match [OF this(3)]
    international_clause_match [OF this(4)]
  show ?thesis using m unfolding offer_ok_def by auto
qed

definition target_ok :: "'a watch_scheme \<Rightarrow> catalog_inputs \<Rightarrow> bool" where
  "target_ok w inputs \<longleftrightarrow>
     (\<forall>m. target_model w = Some m \<longrightarrow> ci_model_id inputs = Some m \<and> ci_grain inputs \<in> {GRAIN_MODEL, GRAIN_VARIANT})
     \<and> (\<forall>f. target_model w = None \<and> target_family w = Some f \<longrightarrow> ci_family_id inputs = Some f \<and> ci_grain inputs \<noteq> GRAIN_NONE)"

lemma target_clause_match:
  assumes "\<forall>t. target_clause (target_family w) (target_model w) inputs src = Some t \<longrightarrow> outcome t = MATCH"
  shows "target_ok w inputs"
  using assms unfolding target_ok_def target_clause_def Let_def
  by (cases "ci_grain inputs") (auto split: if_splits)

text \<open>Whether every requirement of a watch is met by every reading of the evidence.\<close>

definition requirement_ok :: "'a watch_scheme \<Rightarrow> requirement option \<Rightarrow> catalog_inputs \<Rightarrow> bool" where
  "requirement_ok w req inputs \<longleftrightarrow>
     ci_category inputs \<in> set requirement_categories \<longrightarrow>
       (\<exists>r. req = Some r \<and> (\<forall>vs \<in> set (evidence inputs). meets r vs))"

text \<open>A processor that has to be unlocked: the one constraint on the product that the listing's title decides.\<close>

definition unlock_ok :: "requirement option \<Rightarrow> catalog_inputs \<Rightarrow> extracted_attributes \<Rightarrow> bool" where
  "unlock_ok req inputs x \<longleftrightarrow>
     (\<forall>r. ci_category inputs \<in> set requirement_categories \<longrightarrow> req = Some (CpuReq r) \<longrightarrow> cr_require_vendor_unlocked r \<longrightarrow>
        (\<exists>a k. xa_category_attrs x = CpuAttrs a \<and> ca_vendor_lock a = Some k \<and> at_value k = ''unlocked''
           \<and> listing_min_confidence default_policy \<le> confidence k))"

lemma watch_clauses_match:
  assumes c: "watch_clauses w req inputs extracted facts src = Inr rs" and a: "aggregate rs = Inr MATCH"
  shows "target_ok w inputs" "requirement_ok w req inputs" "offer_ok w facts" "unlock_ok req inputs extracted"
proof -
  obtain product where p: "product_clauses req (ci_category inputs) inputs extracted default_policy src = Inr product"
    and rs: "rs = (case target_clause (target_family w) (target_model w) inputs src of None \<Rightarrow> [] | Some t \<Rightarrow> [t])
       @ product @ offer_clauses w facts default_policy"
    using c by (auto simp: watch_clauses_def Let_def elim: andThen_InrE)
  have all: "\<forall>r \<in> set rs. outcome r = MATCH" using a by (simp add: aggregate_match)
  show "target_ok w inputs" by (rule target_clause_match [where src = src]) (use all rs in \<open>auto split: option.splits\<close>)
  show "offer_ok w facts" by (rule offer_clauses_match) (use all rs in auto)
  have prod: "\<forall>r \<in> set product. outcome r = MATCH" using all rs by auto
  show "requirement_ok w req inputs"
    unfolding requirement_ok_def
  proof
    assume cat: "ci_category inputs \<in> set requirement_categories"
    then obtain r where r: "req = Some r" using p prod by (cases req) (auto simp: product_clauses_def)
    then show "\<exists>r. req = Some r \<and> (\<forall>vs \<in> set (evidence inputs). meets r vs)"
      using product_clauses_match [OF _ cat prod] p by auto
  qed
  show "unlock_ok req inputs extracted"
    unfolding unlock_ok_def
  proof (intro allI impI)
    fix r
    assume cat: "ci_category inputs \<in> set requirement_categories" and r: "req = Some (CpuReq r)" "cr_require_vendor_unlocked r"
    let ?t = "case xa_category_attrs extracted of CpuAttrs a \<Rightarrow> a | _ \<Rightarrow> no_cpu_attributes"
    have "outcome (vendor_lock_clause True (ca_vendor_lock ?t) default_policy src) = MATCH"
      using p prod r cat by (auto simp: product_clauses_def cpu_clauses_def Let_def)
    from vendor_lock_clause_match [OF this]
    show "\<exists>a k. xa_category_attrs extracted = CpuAttrs a \<and> ca_vendor_lock a = Some k \<and> at_value k = ''unlocked''
        \<and> listing_min_confidence default_policy \<le> confidence k"
      by (auto simp: no_cpu_attributes_def split: category_attrs.split_asm)
  qed
qed

section \<open>What an evaluation reads\<close>

definition live_listing :: "'d elig_db_scheme \<Rightarrow> instant \<Rightarrow> int \<Rightarrow> listing \<Rightarrow> bool" where
  "live_listing db now i l \<longleftrightarrow>
     first_such (\<lambda>l. l_id l = i) (listing_rows db) = Some l \<and> l_delisted_at l = None \<and> \<not> is_expired l now"

text \<open>The facts an evaluation of the listing reads from its offer.\<close>

definition facts_read :: "title_reader \<Rightarrow> 'd elig_db_scheme \<Rightarrow> listing \<Rightarrow> string \<Rightarrow> elig_error + offer_facts" where
  "facts_read rd db l category =
     offer_facts_of rd db l (latest_snapshot db (l_id l)) (tr_canonicalize rd (title_raw l) (condition_label_raw l)) category"

text \<open>The attributes it reads from the title.\<close>

definition title_read :: "title_reader \<Rightarrow> 'd elig_db_scheme \<Rightarrow> listing \<Rightarrow> string \<Rightarrow> extracted_attributes" where
  "title_read rd db l category =
     listing_attributes rd category (tr_canonicalize rd (title_raw l) (condition_label_raw l)) (source_key db l)"

end
