(* ===== verification/EligSample.thy ===== *)
theory EligSample
  imports EligVerdicts
begin

text \<open>
  A concrete database with one GPU listing and one watch it matches, and a title reader that reads
  nothing, at which the properties of the evaluator are applied.
\<close>

definition sample_reader :: title_reader where
  "sample_reader = \<lparr>tr_canonicalize = (\<lambda>t c. t), tr_extract = (\<lambda>c t. no_attributes), tr_source_terms = (\<lambda>x k. x),
     tr_offer_quantity = (\<lambda>t. None)\<rparr>"

definition sample_listing :: listing where
  "sample_listing = \<lparr>l_id = 1, l_source_site = 4, title_raw = ''RTX'', condition_label_raw = ''New'', canonical_url = ''u'',
     l_is_international = False, l_retention_class = ''merchant_fact'', l_expires_at = None, l_delisted_at = None\<rparr>"

definition sample_watch :: watch where
  "sample_watch = \<lparr>max_unit_price_usd = Some 1000, allowed_conditions = [], require_in_stock = True, allow_international = False,
     w_id = 9, w_category = ''gpu'', enabled = True, target_family = Some 7, target_model = None, requirement_version = 2,
     target_unit_price_usd = None\<rparr>"

definition sample_requirement :: gpu_requirement where
  "sample_requirement = \<lparr>gr_min_vram_gb = Some 16, gr_chip_vendors = [''nvidia''], gr_interfaces = [], gr_coolings = [],
     gr_max_tdp_w = Some 350\<rparr>"

definition sample_db :: elig_db where
  "sample_db = catalog_db.extend sample_catalog (elig_db.fields [sample_listing] [(4, ''shop'')] [sample_watch] []
     [(9, sample_requirement)] [] [] [])"

lemma sample_db_inputs: "catalog_inputs_of sample_db 1 = Inr sample_inputs"
  using sample_gather
  by (simp add: sample_db_def catalog_db.defs elig_db.defs sample_catalog_def sample_inputs_def gather_defs gpu_values_def known_def)

lemma sample_price: "offer_price (latest_snapshot sample_db 1) = Inr (Some 900)"
  by (simp add: sample_db_def catalog_db.defs elig_db.defs sample_catalog_def latest_snapshot_def offer_price_def stated_total_def
     List.map_filter_simps dsum_def dadd_def dmul_def dround_num quantize_cents_def rhe_def Let_def)

definition sample_facts :: offer_facts where
  "sample_facts = \<lparr>of_snapshot_at = Some 50, price_usd = Some 900, shipping_known = True, quantity = None,
     stock_status = Some ''in_stock'', of_international = False, of_condition = None\<rparr>"

lemma sample_facts_read: "facts_read sample_reader sample_db sample_listing ''gpu'' = Inr sample_facts"
  using sample_price
  by (simp add: facts_read_def offer_facts_of_def sample_facts_def sample_reader_def sample_listing_def no_attributes_def
     listing_attributes_def sample_db_def catalog_db.defs elig_db.defs sample_catalog_def latest_snapshot_def
     registered_categories_def)

lemma sample_clauses:
  "\<exists>rs. watch_clauses sample_watch (Some (GpuReq sample_requirement)) sample_inputs no_attributes sample_facts src = Inr rs
     \<and> aggregate rs = Inr MATCH"
  unfolding aggregate_match
  by (simp add: watch_clauses_def target_clause_def sample_watch_def sample_inputs_def product_clauses_def requirement_categories_def
     gpu_clauses_def allow_clause_def one_of_def at_least_def at_most_def sample_requirement_def no_attributes_def no_gpu_attributes_def
     attribute_clause_outcome offer_clauses_def price_clause_def sample_facts_def condition_clause_def stock_clause_def
     international_clause_def ddiv_def dround_num Let_def view_get_def map_get_def int_field_def str_field_def product_outcome_def)

lemma sample_verdict:
  "\<exists>db'. evaluate_listing sample_reader 60 sample_db 1
     = Inr (\<lparr>le_listing = 1, le_skipped = None, le_verdicts = [(9, MATCH)]\<rparr>, db')"
proof -
  have l: "first_such (\<lambda>l. l_id l = 1) (listing_rows sample_db) = Some sample_listing"
    by (simp add: sample_db_def catalog_db.defs elig_db.defs sample_listing_def)
  have ws: "category_watches sample_db ''gpu'' = [sample_watch]"
    by (simp add: category_watches_def sample_db_def catalog_db.defs elig_db.defs sample_watch_def)
  have r: "requirement_of sample_db ''gpu'' 9 = Some (GpuReq sample_requirement)"
    by (simp add: requirement_of_def sample_db_def catalog_db.defs elig_db.defs)
  have c: "ci_category sample_inputs = ''gpu''" by (simp add: sample_inputs_def)
  have x: "listing_attributes sample_reader ''gpu'' t k = no_attributes" for t k
    by (simp add: listing_attributes_def sample_reader_def no_attributes_def)
  have w: "w_id sample_watch = 9" by (simp add: sample_watch_def)
  have ids: "l_id sample_listing = 1" "l_delisted_at sample_listing = None" "\<not> is_expired sample_listing 60"
    by (simp_all add: sample_listing_def is_expired_def)
  obtain rs where rs: "watch_clauses sample_watch (Some (GpuReq sample_requirement)) sample_inputs no_attributes sample_facts
       (catalog_source (current_edge sample_db 1) sample_inputs (catalog_fingerprint sample_inputs)) = Inr rs"
     "aggregate rs = Inr MATCH" using sample_clauses by blast
  show ?thesis
    using sample_db_inputs sample_facts_read rs
    by (simp add: evaluate_listing_def l ids evaluate_live_def catalog_inputs_of_def facts_read_def c ws x evaluate_watch_def r w Let_def)
qed

end
