(* ===== verification/EligOutcome.thy ===== *)
theory EligOutcome
  imports EligSample
begin

text \<open>
  The evaluation of a listing as a whole: what its verdicts rest on, and what it does to the stored
  evaluations.
\<close>

section \<open>The rows one evaluation writes\<close>

definition written ::
  "listing \<Rightarrow> instant \<Rightarrow> resolution option \<Rightarrow> catalog_inputs \<Rightarrow> offer_facts \<Rightarrow> watch \<Rightarrow> verdict \<Rightarrow> evaluation \<Rightarrow> bool" where
  "written l now edge inputs facts w v r \<longleftrightarrow>
     ev_watch r = w_id w \<and> ev_listing r = l_id l \<and> ev_verdict r = v
     \<and> stored_binding r = \<lparr>ib_snapshot_observed_at = of_snapshot_at facts, ib_resolution_id = map_option res_id edge,
         ib_requirement_version = requirement_version w, ib_evaluator_version = EVALUATOR_VERSION,
         ib_catalog_fingerprint = catalog_fingerprint inputs\<rparr>
     \<and> ev_evaluated_at r = now \<and> ev_retention_class r = l_retention_class l \<and> ev_expires_at r = l_expires_at l"

text \<open>The rows hold exactly the written row for a watch.\<close>

definition settled ::
  "listing \<Rightarrow> instant \<Rightarrow> resolution option \<Rightarrow> catalog_inputs \<Rightarrow> offer_facts \<Rightarrow> watch \<Rightarrow> verdict \<Rightarrow> evaluation list \<Rightarrow> bool" where
  "settled l now edge inputs facts w v rows \<longleftrightarrow>
     (\<exists>r \<in> set rows. ev_watch r = w_id w \<and> ev_listing r = l_id l)
     \<and> (\<forall>r \<in> set rows. ev_watch r = w_id w \<and> ev_listing r = l_id l \<longrightarrow> written l now edge inputs facts w v r)"

lemma upsert_key: "\<exists>r \<in> set (upsert_evaluation ev rows). ev_watch r = ev_watch ev \<and> ev_listing r = ev_listing ev"
proof (cases "\<exists>r \<in> set rows. ev_watch r = ev_watch ev \<and> ev_listing r = ev_listing ev")
  case True
  then obtain r where r: "r \<in> set rows" "ev_watch r = ev_watch ev" "ev_listing r = ev_listing ev" by blast
  then have "ev\<lparr>ev_id := ev_id r\<rparr> \<in> set (upsert_evaluation ev rows)" by (force simp: upsert_evaluation_def image_iff)
  then show ?thesis by (rule bexI [rotated]) (use r in simp)
qed (auto simp: upsert_evaluation_def)

lemma upsert_same:
  "r \<in> set (upsert_evaluation ev rows) \<Longrightarrow> ev_watch r = ev_watch ev \<Longrightarrow> ev_listing r = ev_listing ev
   \<Longrightarrow> r = ev\<lparr>ev_id := ev_id r\<rparr>"
  by (auto simp: upsert_evaluation_def split: if_splits)

lemma upsert_other:
  "filter (\<lambda>r. \<not> (ev_watch r = ev_watch ev \<and> ev_listing r = ev_listing ev)) (upsert_evaluation ev rows)
   = filter (\<lambda>r. \<not> (ev_watch r = ev_watch ev \<and> ev_listing r = ev_listing ev)) rows"
proof -
  have "filter (\<lambda>r. \<not> (ev_watch r = ev_watch ev \<and> ev_listing r = ev_listing ev))
       (map (\<lambda>r. if ev_watch r = ev_watch ev \<and> ev_listing r = ev_listing ev then ev\<lparr>ev_id := ev_id r\<rparr> else r) rows)
     = filter (\<lambda>r. \<not> (ev_watch r = ev_watch ev \<and> ev_listing r = ev_listing ev)) rows" for rows
    by (induction rows) auto
  then show ?thesis by (simp add: upsert_evaluation_def)
qed

lemma upsert_keeps:
  assumes "p = (\<lambda>r. ev_watch r = a \<and> ev_listing r = b)" and "\<not> (ev_watch ev = a \<and> ev_listing ev = b)"
  shows "filter p (upsert_evaluation ev rows) = filter p rows"
proof -
  let ?q = "\<lambda>r. \<not> (ev_watch r = ev_watch ev \<and> ev_listing r = ev_listing ev)"
  have pq: "filter p xs = filter p (filter ?q xs)" for xs :: "evaluation list"
    by (rule sym, unfold filter_filter, rule filter_cong) (use assms in auto)
  have "filter p (filter ?q (upsert_evaluation ev rows)) = filter p (filter ?q rows)" unfolding upsert_other ..
  then show ?thesis unfolding pq [symmetric] .
qed

lemma settled_filter:
  "settled l now edge inputs facts w v rows
   = (let rs = filter (\<lambda>r. ev_watch r = w_id w \<and> ev_listing r = l_id l) rows
      in rs \<noteq> [] \<and> (\<forall>r \<in> set rs. written l now edge inputs facts w v r))"
  by (auto simp: settled_def Let_def filter_empty_conv)

lemma evaluate_watch_settles:
  assumes "evaluate_watch db l now edge inputs x facts w = Inr (v, db')"
  shows "\<exists>rows. db' = db\<lparr>evaluation_rows := rows\<rparr> \<and> settled l now edge inputs facts w v rows
     \<and> (\<forall>i j. (i, j) \<noteq> (w_id w, l_id l) \<longrightarrow> filter (\<lambda>r. ev_watch r = i \<and> ev_listing r = j) rows
          = filter (\<lambda>r. ev_watch r = i \<and> ev_listing r = j) (evaluation_rows db))"
    and "\<exists>rs. watch_clauses w (requirement_of db (ci_category inputs) (w_id w)) inputs x facts
           (catalog_source edge inputs (catalog_fingerprint inputs)) = Inr rs \<and> aggregate rs = Inr v"
proof -
  obtain rs where rs: "watch_clauses w (requirement_of db (ci_category inputs) (w_id w)) inputs x facts
           (catalog_source edge inputs (catalog_fingerprint inputs)) = Inr rs" "aggregate rs = Inr v"
    and db': "db' = db\<lparr>evaluation_rows := upsert_evaluation
             \<lparr>ev_id = 0, ev_watch = w_id w, ev_listing = l_id l, ev_verdict = v, ev_reasons = map as_reason rs,
              ev_requirement_version = requirement_version w, ev_evaluator_version = EVALUATOR_VERSION,
              ev_snapshot_observed_at = of_snapshot_at facts, ev_resolution = map_option res_id edge,
              ev_catalog_fingerprint = catalog_fingerprint inputs, ev_evaluated_at = now,
              ev_retention_class = l_retention_class l, ev_expires_at = l_expires_at l\<rparr> (evaluation_rows db)\<rparr>"
    using assms by (auto simp: evaluate_watch_def Let_def elim!: andThen_InrE)
  then show "\<exists>rs. watch_clauses w (requirement_of db (ci_category inputs) (w_id w)) inputs x facts
           (catalog_source edge inputs (catalog_fingerprint inputs)) = Inr rs \<and> aggregate rs = Inr v" by blast
  define ev where "ev = \<lparr>ev_id = 0, ev_watch = w_id w, ev_listing = l_id l, ev_verdict = v, ev_reasons = map as_reason rs,
              ev_requirement_version = requirement_version w, ev_evaluator_version = EVALUATOR_VERSION,
              ev_snapshot_observed_at = of_snapshot_at facts, ev_resolution = map_option res_id edge,
              ev_catalog_fingerprint = catalog_fingerprint inputs, ev_evaluated_at = now,
              ev_retention_class = l_retention_class l, ev_expires_at = l_expires_at l\<rparr>"
  let ?rows = "upsert_evaluation ev (evaluation_rows db)"
  have key: "ev_watch ev = w_id w" "ev_listing ev = l_id l" by (simp_all add: ev_def)
  have wr: "written l now edge inputs facts w v (ev\<lparr>ev_id := n\<rparr>)" for n
    by (simp add: written_def ev_def stored_binding_def)
  have "settled l now edge inputs facts w v ?rows"
    unfolding settled_def
  proof (intro conjI ballI impI)
    show "\<exists>r \<in> set ?rows. ev_watch r = w_id w \<and> ev_listing r = l_id l" using upsert_key [of ev] key by simp
    fix r assume "r \<in> set ?rows" "ev_watch r = w_id w \<and> ev_listing r = l_id l"
    then have "r = ev\<lparr>ev_id := ev_id r\<rparr>" using upsert_same [of r ev] key by simp
    then show "written l now edge inputs facts w v r" using wr by metis
  qed
  moreover have "filter (\<lambda>r. ev_watch r = i \<and> ev_listing r = j) ?rows
      = filter (\<lambda>r. ev_watch r = i \<and> ev_listing r = j) (evaluation_rows db)" if "(i, j) \<noteq> (w_id w, l_id l)" for i j
    by (rule upsert_keeps [OF refl]) (use key that in auto)
  ultimately show "\<exists>rows. db' = db\<lparr>evaluation_rows := rows\<rparr> \<and> settled l now edge inputs facts w v rows
     \<and> (\<forall>i j. (i, j) \<noteq> (w_id w, l_id l) \<longrightarrow> filter (\<lambda>r. ev_watch r = i \<and> ev_listing r = j) rows
          = filter (\<lambda>r. ev_watch r = i \<and> ev_listing r = j) (evaluation_rows db))"
    using db' unfolding ev_def by blast
qed

lemma requirement_of_rows [simp]: "requirement_of (db\<lparr>evaluation_rows := rows\<rparr>) c w = requirement_of db c w"
  by (simp add: requirement_of_def)

lemma evaluate_watches_settle:
  assumes "evaluate_watches db l now edge inputs x facts ws = Inr (vs, db')" and "distinct (map w_id ws)"
  shows "\<exists>rows. db' = db\<lparr>evaluation_rows := rows\<rparr> \<and> map fst vs = map w_id ws
     \<and> (\<forall>(w, v) \<in> set (zip ws (map snd vs)). settled l now edge inputs facts w v rows
          \<and> (\<exists>rs. watch_clauses w (requirement_of db (ci_category inputs) (w_id w)) inputs x facts
               (catalog_source edge inputs (catalog_fingerprint inputs)) = Inr rs \<and> aggregate rs = Inr v))
     \<and> (\<forall>i j. i \<notin> w_id ` set ws \<or> j \<noteq> l_id l \<longrightarrow> filter (\<lambda>r. ev_watch r = i \<and> ev_listing r = j) rows
          = filter (\<lambda>r. ev_watch r = i \<and> ev_listing r = j) (evaluation_rows db))"
  using assms
proof (induction ws arbitrary: db vs)
  case Nil
  then have "db' = db\<lparr>evaluation_rows := evaluation_rows db\<rparr>" "vs = []" by auto
  then show ?case by (intro exI [of _ "evaluation_rows db"]) simp
next
  case (Cons w ws)
  obtain v db1 vs' where 1: "evaluate_watch db l now edge inputs x facts w = Inr (v, db1)"
    and 2: "evaluate_watches db1 l now edge inputs x facts ws = Inr (vs', db')" and vs: "vs = (w_id w, v) # vs'"
    using Cons.prems(1) by (auto elim!: andThen_InrE)
  obtain rows1 where r1: "db1 = db\<lparr>evaluation_rows := rows1\<rparr>" and s1: "settled l now edge inputs facts w v rows1"
    and f1: "\<And>i j. (i, j) \<noteq> (w_id w, l_id l) \<Longrightarrow> filter (\<lambda>r. ev_watch r = i \<and> ev_listing r = j) rows1
          = filter (\<lambda>r. ev_watch r = i \<and> ev_listing r = j) (evaluation_rows db)"
    using evaluate_watch_settles(1) [OF 1] by blast
  obtain rows where r: "db' = db1\<lparr>evaluation_rows := rows\<rparr>" and k: "map fst vs' = map w_id ws"
    and s: "\<forall>(w, v) \<in> set (zip ws (map snd vs')). settled l now edge inputs facts w v rows
          \<and> (\<exists>rs. watch_clauses w (requirement_of db1 (ci_category inputs) (w_id w)) inputs x facts
               (catalog_source edge inputs (catalog_fingerprint inputs)) = Inr rs \<and> aggregate rs = Inr v)"
    and f: "\<And>i j. i \<notin> w_id ` set ws \<or> j \<noteq> l_id l \<Longrightarrow> filter (\<lambda>r. ev_watch r = i \<and> ev_listing r = j) rows
          = filter (\<lambda>r. ev_watch r = i \<and> ev_listing r = j) rows1"
    using Cons.IH [OF 2] Cons.prems(2) r1 by auto
  have own: "settled l now edge inputs facts w v rows"
    using s1 f [of "w_id w" "l_id l"] Cons.prems(2) by (simp add: settled_filter)
  show ?case
  proof (intro exI [of _ rows] conjI)
    show "db' = db\<lparr>evaluation_rows := rows\<rparr>" using r r1 by simp
    show "map fst vs = map w_id (w # ws)" using k vs by simp
    show "\<forall>(w', v) \<in> set (zip (w # ws) (map snd vs)). settled l now edge inputs facts w' v rows
          \<and> (\<exists>rs. watch_clauses w' (requirement_of db (ci_category inputs) (w_id w')) inputs x facts
               (catalog_source edge inputs (catalog_fingerprint inputs)) = Inr rs \<and> aggregate rs = Inr v)"
      using s own evaluate_watch_settles(2) [OF 1] vs r1 by auto
    show "\<forall>i j. i \<notin> w_id ` set (w # ws) \<or> j \<noteq> l_id l \<longrightarrow> filter (\<lambda>r. ev_watch r = i \<and> ev_listing r = j) rows
          = filter (\<lambda>r. ev_watch r = i \<and> ev_listing r = j) (evaluation_rows db)"
      using f f1 by auto
  qed
qed

section \<open>One listing\<close>

lemma evaluate_listing_cases:
  assumes "evaluate_listing rd now db i = Inr (res, db')"
  obtains (skipped) "le_skipped res \<noteq> None" "le_verdicts res = []" "db' = db"
  | (idle) l inputs where "live_listing db now i l" "catalog_inputs_of db i = Inr inputs"
      "category_watches db (ci_category inputs) = []" "le_skipped res = None" "le_verdicts res = []" "db' = db"
  | (live) l inputs facts x where "live_listing db now i l" "catalog_inputs_of db i = Inr inputs"
      "facts_read rd db l (ci_category inputs) = Inr facts" "le_skipped res = None"
      "evaluate_watches db l now (current_edge db i) inputs x facts (category_watches db (ci_category inputs))
       = Inr (le_verdicts res, db')" "x = title_read rd db l (ci_category inputs)"
proof -
  obtain l where l: "first_such (\<lambda>l. l_id l = i) (listing_rows db) = Some l"
    using assms by (auto simp: evaluate_listing_def split: option.splits)
  then have id: "l_id l = i" by (auto dest: first_such_Some)
  show thesis
  proof (cases "l_delisted_at l \<noteq> None \<or> is_expired l now")
    case True
    then show thesis using assms l by (intro skipped) (auto simp: evaluate_listing_def split: if_splits)
  next
    case False
    then have live_l: "live_listing db now i l" using l by (simp add: live_listing_def)
    have ev: "evaluate_live rd now db l = Inr (res, db')" using assms l False by (simp add: evaluate_listing_def)
    obtain inputs where g: "catalog_inputs_of db i = Inr inputs"
      using ev id by (auto simp: evaluate_live_def catalog_inputs_of_def Let_def elim!: andThen_InrE)
    show thesis
    proof (cases "category_watches db (ci_category inputs) = []")
      case True
      then show thesis using ev id g live_l
        by (intro idle [of l inputs]) (auto simp: evaluate_live_def catalog_inputs_of_def Let_def)
    next
      case False
      obtain facts vs where f: "facts_read rd db l (ci_category inputs) = Inr facts"
        and w: "evaluate_watches db l now (current_edge db i) inputs
            (listing_attributes rd (ci_category inputs) (tr_canonicalize rd (title_raw l) (condition_label_raw l))
              (source_key db l)) facts (category_watches db (ci_category inputs)) = Inr (vs, db')"
        and res: "res = \<lparr>le_listing = l_id l, le_skipped = None, le_verdicts = vs\<rparr>"
        using ev id g False by (auto simp: evaluate_live_def catalog_inputs_of_def facts_read_def Let_def elim!: andThen_InrE)
      show thesis by (rule live [OF live_l g f]) (use w res in \<open>simp_all add: title_read_def\<close>)
    qed
  qed
qed

lemma category_watches_set: "w \<in> set (category_watches db c) \<longleftrightarrow> w \<in> set (watch_rows db) \<and> enabled w \<and> w_category w = c"
  by (auto simp: category_watches_def)

lemma category_watches_distinct:
  assumes "distinct (map w_id (watch_rows db))"
  shows "distinct (map w_id (category_watches db c))"
  using assms unfolding category_watches_def by (simp add: distinct_map inj_on_def)

text \<open>C30: A match is earned. A listing is only ever recorded as matching a watch while it is neither delisted
  nor expired, the watch is enabled and of the listing's category, the watch's target is the resolved product,
  every constraint its requirement puts on the catalog is met by the stated catalog values of every product the
  listing may be, whatever the title says (no constraint is met by a missing value), a processor that has to be
  unlocked is stated to be so by the title with enough confidence, the unit price with stated shipping is within
  the maximum, and condition, stock and origin are allowed.\<close>

theorem match_is_earned:
  assumes e: "evaluate_listing rd now db i = Inr (res, db')" and m: "(k, MATCH) \<in> set (le_verdicts res)"
    and ids: "distinct (map w_id (watch_rows db))"
  shows "\<exists>l w inputs facts. live_listing db now i l \<and> w \<in> set (watch_rows db) \<and> w_id w = k \<and> enabled w
     \<and> catalog_inputs_of db i = Inr inputs \<and> w_category w = ci_category inputs
     \<and> facts_read rd db l (ci_category inputs) = Inr facts
     \<and> target_ok w inputs \<and> requirement_ok w (requirement_of db (ci_category inputs) k) inputs \<and> offer_ok w facts
     \<and> unlock_ok (requirement_of db (ci_category inputs) k) inputs (title_read rd db l (ci_category inputs))"
  using e
proof (cases rule: evaluate_listing_cases)
  case (live l inputs facts x)
  let ?ws = "category_watches db (ci_category inputs)"
  have k: "map fst (le_verdicts res) = map w_id ?ws"
    and s: "\<forall>(w, v) \<in> set (zip ?ws (map snd (le_verdicts res))).
          (\<exists>rs. watch_clauses w (requirement_of db (ci_category inputs) (w_id w)) inputs x facts
               (catalog_source (current_edge db i) inputs (catalog_fingerprint inputs)) = Inr rs \<and> aggregate rs = Inr v)"
    using evaluate_watches_settle [OF live(5) category_watches_distinct [OF ids]] by auto
  obtain n where n: "n < length (le_verdicts res)" "le_verdicts res ! n = (k, MATCH)"
    using m by (meson in_set_conv_nth)
  have len: "length ?ws = length (le_verdicts res)" using k by (metis length_map)
  then have w: "?ws ! n \<in> set ?ws" "w_id (?ws ! n) = k" using n k by (metis nth_mem, metis nth_map fst_conv)
  have "(?ws ! n, MATCH) \<in> set (zip ?ws (map snd (le_verdicts res)))"
    using n len by (force simp: set_zip)
  then obtain rs where "watch_clauses (?ws ! n) (requirement_of db (ci_category inputs) k) inputs x facts
      (catalog_source (current_edge db i) inputs (catalog_fingerprint inputs)) = Inr rs" "aggregate rs = Inr MATCH"
    using s w by auto
  note ok = watch_clauses_match [OF this]
  show ?thesis using live w ok category_watches_set [of "?ws ! n" db] unfolding live(6) by blast
qed (use m in simp_all)

lemma sample_watches_distinct: "distinct (map w_id (watch_rows sample_db))"
  by (simp add: sample_db_def catalog_db.defs elig_db.defs)

lemma match_is_earned_witness:
  "\<exists>l w inputs facts. live_listing sample_db 60 1 l \<and> w \<in> set (watch_rows sample_db) \<and> w_id w = 9 \<and> enabled w
     \<and> catalog_inputs_of sample_db 1 = Inr inputs \<and> w_category w = ci_category inputs
     \<and> facts_read sample_reader sample_db l (ci_category inputs) = Inr facts
     \<and> target_ok w inputs \<and> requirement_ok w (requirement_of sample_db (ci_category inputs) 9) inputs \<and> offer_ok w facts
     \<and> unlock_ok (requirement_of sample_db (ci_category inputs) 9) inputs (title_read sample_reader sample_db l (ci_category inputs))"
proof -
  obtain db' where e: "evaluate_listing sample_reader 60 sample_db 1
     = Inr (\<lparr>le_listing = 1, le_skipped = None, le_verdicts = [(9, MATCH)]\<rparr>, db')" using sample_verdict by blast
  show ?thesis by (rule match_is_earned [OF e _ sample_watches_distinct]) simp
qed

section \<open>Current by construction\<close>

lemma facts_snapshot: "facts_read rd db l c = Inr facts \<Longrightarrow> of_snapshot_at facts = map_option observed_at (latest_snapshot db (l_id l))"
  by (auto simp: facts_read_def offer_facts_of_def elim!: andThen_InrE)

lemma live_listing_id: "live_listing db now i l \<Longrightarrow> l_id l = i"
  by (auto simp: live_listing_def dest: first_such_Some)

lemma catalog_fields:
  "family_rows (db\<lparr>evaluation_rows := rows\<rparr>) = family_rows db" "model_rows (db\<lparr>evaluation_rows := rows\<rparr>) = model_rows db"
  "members (db\<lparr>evaluation_rows := rows\<rparr>) = members db" "family_of (db\<lparr>evaluation_rows := rows\<rparr>) = family_of db"
  "edge_model (db\<lparr>evaluation_rows := rows\<rparr>) = edge_model db" "edge_variant (db\<lparr>evaluation_rows := rows\<rparr>) = edge_variant db"
  by (simp_all add: fun_eq_iff members_def spec_table_def family_of_def edge_model_def edge_variant_def cong: option.case_cong)

lemma binding_rows [simp]:
  "latest_snapshot (db\<lparr>evaluation_rows := rows\<rparr>) i = latest_snapshot db i"
  "current_edge (db\<lparr>evaluation_rows := rows\<rparr>) i = current_edge db i"
  "gather (db\<lparr>evaluation_rows := rows\<rparr>) s e = gather db s e"
proof -
  show "latest_snapshot (db\<lparr>evaluation_rows := rows\<rparr>) i = latest_snapshot db i"
    "current_edge (db\<lparr>evaluation_rows := rows\<rparr>) i = current_edge db i"
    by (simp_all add: latest_snapshot_def current_edge_def)
  show "gather (db\<lparr>evaluation_rows := rows\<rparr>) s e = gather db s e"
    unfolding gather_def catalog_fields by (rule refl)
qed

text \<open>C32: An evaluation leaves, for every watch it judged, exactly one state of the row for that watch and
  listing: the verdict it returned, under a binding that is current against the database it leaves.
  So a verdict just computed is never pending.\<close>

theorem evaluation_leaves_current_rows:
  assumes e: "evaluate_listing rd now db i = Inr (res, db')" and v: "(k, v) \<in> set (le_verdicts res)"
    and ids: "distinct (map w_id (watch_rows db))"
  shows "(\<exists>ev \<in> set (evaluation_rows db'). ev_watch ev = k \<and> ev_listing ev = i)
     \<and> (\<forall>ev \<in> set (evaluation_rows db'). ev_watch ev = k \<and> ev_listing ev = i \<longrightarrow>
           ev_verdict ev = v \<and> (\<forall>w \<in> set (watch_rows db'). w_id w = k \<longrightarrow> is_current db' w ev = Inr True))"
proof -
  have ne: "le_verdicts res \<noteq> []" using v by auto
  obtain l inputs facts x where live: "live_listing db now i l" "catalog_inputs_of db i = Inr inputs"
      "facts_read rd db l (ci_category inputs) = Inr facts"
      "evaluate_watches db l now (current_edge db i) inputs x facts (category_watches db (ci_category inputs))
       = Inr (le_verdicts res, db')"
    using e
  proof (cases rule: evaluate_listing_cases)
    case (live l inputs facts x)
    then show thesis using that by blast
  qed (use ne in simp_all)
  let ?ws = "category_watches db (ci_category inputs)"
  have li: "l_id l = i" using live_listing_id [OF live(1)] .
  obtain rows where db': "db' = db\<lparr>evaluation_rows := rows\<rparr>" and k: "map fst (le_verdicts res) = map w_id ?ws"
    and s: "\<And>w v. (w, v) \<in> set (zip ?ws (map snd (le_verdicts res))) \<Longrightarrow> settled l now (current_edge db i) inputs facts w v rows"
    using evaluate_watches_settle [OF live(4) category_watches_distinct [OF ids]] by blast
  obtain n where n: "n < length (le_verdicts res)" "le_verdicts res ! n = (k, v)" using v by (meson in_set_conv_nth)
  have len: "length ?ws = length (le_verdicts res)" using k by (metis length_map)
  then have w: "?ws ! n \<in> set ?ws" "w_id (?ws ! n) = k" using n k by (metis nth_mem, metis nth_map fst_conv)
  have "(?ws ! n, v) \<in> set (zip ?ws (map snd (le_verdicts res)))" using n len by (force simp: set_zip)
  then have st: "settled l now (current_edge db i) inputs facts (?ws ! n) v rows" by (rule s)
  then have some: "\<exists>ev \<in> set (evaluation_rows db'). ev_watch ev = k \<and> ev_listing ev = i"
    using w li db' by (simp add: settled_def)
  have every: "ev_verdict ev = v \<and> (\<forall>w \<in> set (watch_rows db'). w_id w = k \<longrightarrow> is_current db' w ev = Inr True)"
    if ev: "ev \<in> set (evaluation_rows db')" "ev_watch ev = k" "ev_listing ev = i" for ev
  proof -
  from ev have wr: "written l now (current_edge db i) inputs facts (?ws ! n) v ev"
    using st w li db' by (simp add: settled_def)
  have "is_current db' w' ev = Inr True" if "w' \<in> set (watch_rows db')" "w_id w' = k" for w'
  proof -
    have "w' \<in> set (watch_rows db)" "?ws ! n \<in> set (watch_rows db)"
      using that(1) db' w(1) by (simp_all add: category_watches_set)
    moreover have "inj_on w_id (set (watch_rows db))" using ids by (simp add: distinct_map)
    ultimately have "w' = ?ws ! n" using that(2) w(2) by (auto dest: inj_onD)
    then show ?thesis using wr live(2) facts_snapshot [OF live(3)] li ev db'
      by (simp add: is_current_def live_binding_def written_def catalog_inputs_of_def Let_def)
  qed
  then show ?thesis using wr by (simp add: written_def)
  qed
  show ?thesis using some every by blast
qed

lemma evaluation_leaves_current_rows_witness:
  "\<exists>db' :: elig_db. \<exists>ev \<in> set (evaluation_rows db'). ev_watch ev = 9 \<and> ev_listing ev = 1 \<and> ev_verdict ev = MATCH
     \<and> snd (projr (evaluate_listing sample_reader 60 sample_db 1)) = db'"
proof -
  obtain db' where e: "evaluate_listing sample_reader 60 sample_db 1
     = Inr (\<lparr>le_listing = 1, le_skipped = None, le_verdicts = [(9, MATCH)]\<rparr>, db')" using sample_verdict by blast
  have "(9, MATCH) \<in> set (le_verdicts \<lparr>le_listing = 1, le_skipped = None, le_verdicts = [(9, MATCH)]\<rparr>)" by simp
  from evaluation_leaves_current_rows [OF e this sample_watches_distinct] obtain ev
    where "ev \<in> set (evaluation_rows db')" "ev_watch ev = 9" "ev_listing ev = 1" "ev_verdict ev = MATCH" by blast
  then show ?thesis using e by (intro exI [of _ db'] bexI [of _ ev]) simp_all
qed

text \<open>An evaluation touches the evaluations of its own listing and enabled watches only, and nothing
  else in the database: every other row is still there, in order and unchanged. A delisted or expired
  listing changes nothing at all.\<close>

theorem evaluation_frame:
  assumes e: "evaluate_listing rd now db i = Inr (res, db')" and ids: "distinct (map w_id (watch_rows db))"
  shows "(\<exists>rows. db' = db\<lparr>evaluation_rows := rows\<rparr>
       \<and> (\<forall>k j. j \<noteq> i \<or> k \<notin> fst ` set (le_verdicts res) \<longrightarrow> filter (\<lambda>r. ev_watch r = k \<and> ev_listing r = j) rows
            = filter (\<lambda>r. ev_watch r = k \<and> ev_listing r = j) (evaluation_rows db)))
     \<and> (le_skipped res \<noteq> None \<longrightarrow> db' = db)"
proof (intro conjI impI)
  have same: "\<exists>rows. db = db\<lparr>evaluation_rows := rows\<rparr>
     \<and> (\<forall>k j. j \<noteq> i \<or> k \<notin> fst ` set (le_verdicts res) \<longrightarrow> filter (\<lambda>r. ev_watch r = k \<and> ev_listing r = j) rows
          = filter (\<lambda>r. ev_watch r = k \<and> ev_listing r = j) (evaluation_rows db))"
    by (rule exI [of _ "evaluation_rows db"]) simp
  show "\<exists>rows. db' = db\<lparr>evaluation_rows := rows\<rparr>
     \<and> (\<forall>k j. j \<noteq> i \<or> k \<notin> fst ` set (le_verdicts res) \<longrightarrow> filter (\<lambda>r. ev_watch r = k \<and> ev_listing r = j) rows
          = filter (\<lambda>r. ev_watch r = k \<and> ev_listing r = j) (evaluation_rows db))"
    using e
  proof (cases rule: evaluate_listing_cases)
    case (live l inputs facts x)
    have li: "l_id l = i" using live_listing_id [OF live(1)] .
    obtain rows where "db' = db\<lparr>evaluation_rows := rows\<rparr>"
      and k: "map fst (le_verdicts res) = map w_id (category_watches db (ci_category inputs))"
      and f: "\<And>k j. k \<notin> w_id ` set (category_watches db (ci_category inputs)) \<or> j \<noteq> l_id l \<Longrightarrow>
          filter (\<lambda>r. ev_watch r = k \<and> ev_listing r = j) rows
          = filter (\<lambda>r. ev_watch r = k \<and> ev_listing r = j) (evaluation_rows db)"
      using evaluate_watches_settle [OF live(5) category_watches_distinct [OF ids]] by blast
    moreover have "fst ` set (le_verdicts res) = w_id ` set (category_watches db (ci_category inputs))"
      using arg_cong [OF k, of set] by simp
    ultimately show ?thesis using li by (intro exI [of _ rows]) auto
  qed (use same in simp_all)
  show "db' = db" if "le_skipped res \<noteq> None"
    using e that by (cases rule: evaluate_listing_cases) simp_all
qed

lemma evaluation_frame_witness:
  "\<exists>rows. filter (\<lambda>r. ev_watch r = 9 \<and> ev_listing r = 2) rows = [] \<and>
     snd (projr (evaluate_listing sample_reader 60 sample_db 1)) = sample_db\<lparr>evaluation_rows := rows\<rparr>"
proof -
  obtain db' where e: "evaluate_listing sample_reader 60 sample_db 1
     = Inr (\<lparr>le_listing = 1, le_skipped = None, le_verdicts = [(9, MATCH)]\<rparr>, db')" using sample_verdict by blast
  obtain rows where r: "db' = sample_db\<lparr>evaluation_rows := rows\<rparr>"
     and f: "\<And>k j. j \<noteq> 1 \<or> k \<notin> fst ` set [(9, MATCH)] \<Longrightarrow> filter (\<lambda>r. ev_watch r = k \<and> ev_listing r = j) rows
          = filter (\<lambda>r. ev_watch r = k \<and> ev_listing r = j) (evaluation_rows sample_db)"
    using evaluation_frame [OF e sample_watches_distinct] by auto
  have "evaluation_rows sample_db = []" by (simp add: sample_db_def catalog_db.defs elig_db.defs)
  then show ?thesis using f [of 2 9] e r by (intro exI [of _ rows]) simp
qed

section \<open>Titles\<close>

lemma attribute_clause_title:
  "outcome (attribute_clause pv n r sat cat title default_policy ov src)
     \<in> {outcome (attribute_clause pv n r sat cat None default_policy ov' src'), NO_MATCH}"
  by (cases sat) (auto simp: attribute_clause_outcome product_outcome_def)

definition lowered :: "clause_result \<Rightarrow> clause_result \<Rightarrow> bool" where
  "lowered r b \<longleftrightarrow> outcome r = outcome b \<or> outcome r = NO_MATCH"

lemma attribute_clause_lowered:
  "lowered (attribute_clause pv n r sat cat title default_policy ov src)
     (attribute_clause pv n r sat cat None default_policy ov' src')"
  using attribute_clause_title unfolding lowered_def by blast

lemma lowered_refl: "lowered r r"
  by (simp add: lowered_def)

lemma allow_clause_lowered:
  "lowered (allow_clause inputs default_policy src n allowed column title ov)
     (allow_clause inputs default_policy src n allowed column None ov')"
  unfolding allow_clause_def by (rule attribute_clause_lowered)

lemma kit_total_none: "kit_total no_ram_attributes = None"
  by (simp add: kit_total_def no_ram_attributes_def)

lemma no_ram_values:
  "ra_generation no_ram_attributes = None" "ra_module_type no_ram_attributes = None" "ra_ecc no_ram_attributes = None"
  "ra_speed_mts no_ram_attributes = None"
  by (simp_all add: no_ram_attributes_def)

text \<open>A title can only lower a product clause. With the same catalog inputs, every clause of a listing
  either has the verdict it would have if the title stated nothing, or is a no-match: a title never
  turns an unknown into a match. The one clause left out is the vendor lock, which only a title can
  state.\<close>

theorem titles_only_lower:
  assumes t: "product_clauses (Some req) category inputs extracted (policy_for category) src = Inr rs"
    and b: "product_clauses (Some req) category inputs no_attributes (policy_for category) src = Inr bare"
    and unlocked: "case req of CpuReq r \<Rightarrow> \<not> cr_require_vendor_unlocked r | _ \<Rightarrow> True"
  shows "list_all2 lowered rs bare"
proof (cases "category \<in> set requirement_categories")
  case True
  show ?thesis
  proof (cases req)
    case (DriveReq r)
    then show ?thesis using t b True
      by (auto simp: attribute_clause_lowered allow_clause_lowered product_clauses_def drive_clauses_def Let_def no_attributes_def elim!: andThen_InrE)
  next
    case (GpuReq r)
    then show ?thesis using t b True
      by (auto simp: attribute_clause_lowered allow_clause_lowered product_clauses_def gpu_clauses_def Let_def no_attributes_def no_gpu_attributes_def)
  next
    case (RamReq r)
    then show ?thesis using t b True
      by (auto simp: attribute_clause_lowered allow_clause_lowered product_clauses_def ram_clauses_def Let_def no_attributes_def kit_total_none no_ram_values)
  next
    case (CpuReq r)
    then show ?thesis using t b True unlocked
      by (auto simp: attribute_clause_lowered allow_clause_lowered product_clauses_def cpu_clauses_def Let_def no_attributes_def no_cpu_attributes_def
          vendor_lock_clause_def lowered_refl)
  qed
qed (use t b in \<open>auto simp: product_clauses_def\<close>)

text \<open>At a card whose catalog row states 24 GB, a title that claims 8 GB.\<close>

definition small_title :: extracted_attributes where
  "small_title = no_attributes\<lparr>xa_category_attrs := GpuAttrs (no_gpu_attributes\<lparr>ga_vram_gb :=
     Some \<lparr>at_value = 8, confidence = 1, layer = ''rules'', source_text = ''8GB''\<rparr>\<rparr>)\<rparr>"

lemma titles_only_lower_witness:
  "\<exists>rs bare. product_clauses (Some (GpuReq sample_requirement)) ''gpu'' sample_inputs small_title (policy_for ''gpu'') [] = Inr rs
     \<and> map outcome rs = [NO_MATCH, MATCH, MATCH, MATCH, MATCH] \<and> map outcome bare = [MATCH, MATCH, MATCH, MATCH, MATCH]
     \<and> list_all2 lowered rs bare"
proof -
  let ?rs = "gpu_clauses sample_requirement sample_inputs small_title default_policy []"
  let ?bare = "gpu_clauses sample_requirement sample_inputs no_attributes default_policy []"
  have p: "product_clauses (Some (GpuReq sample_requirement)) ''gpu'' sample_inputs small_title (policy_for ''gpu'') [] = Inr ?rs"
    "product_clauses (Some (GpuReq sample_requirement)) ''gpu'' sample_inputs no_attributes (policy_for ''gpu'') [] = Inr ?bare"
    by (simp_all add: product_clauses_def requirement_categories_def)
  have "list_all2 lowered ?rs ?bare" by (rule titles_only_lower [OF p]) simp
  moreover have "map outcome ?bare = [MATCH, MATCH, MATCH, MATCH, MATCH]"
    "map outcome ?rs = [NO_MATCH, MATCH, MATCH, MATCH, MATCH]"
    using default_threshold
    by (simp_all add: small_title_def sample_inputs_def gpu_clauses_def allow_clause_def one_of_def at_least_def at_most_def
     sample_requirement_def no_attributes_def no_gpu_attributes_def attribute_clause_outcome Let_def view_get_def map_get_def
     int_field_def str_field_def product_outcome_def)
  ultimately show ?thesis using p by (intro exI [of _ ?rs] exI [of _ ?bare] conjI)
qed

end
