(* ===== verification/EligService.thy ===== *)
theory EligService
  imports EligOutcome "HOL-Library.AList" "HOL-Library.Product_Lexorder"
begin

text \<open>
  The batched read of the currency predicate and the repair loops (\<open>eligibility/service.py\<close>). The
  batched queries read many listings at once; \<open>live_inputs\<close> is proved to compute for each listing
  what the evaluator's single-row functions compute.
\<close>

section \<open>Python dictionaries and \<open>DISTINCT ON\<close>\<close>

definition dict_of :: "('k \<times> 'v) list \<Rightarrow> ('k \<times> 'v) list" where
  "dict_of kvs = foldl (\<lambda>d (k, v). AList.update k v d) [] kvs"

text \<open>\<open>list(dict.fromkeys(xs))\<close>: the first occurrence of each element, in order.\<close>

definition distinct_keys :: "'a list \<Rightarrow> 'a list" where
  "distinct_keys xs = rev (remdups (rev xs))"

function distinct_on :: "('a \<Rightarrow> 'k) \<Rightarrow> 'a list \<Rightarrow> 'a list" where
  "distinct_on f [] = []"
| "distinct_on f (x # xs) = x # distinct_on f (filter (\<lambda>y. f y \<noteq> f x) xs)"
  by pat_completeness auto
termination by (relation "measure (\<lambda>(f, xs). length xs)") (auto simp: le_imp_less_Suc)

section \<open>The batched reads\<close>

record live_inputs =
  lv_snapshot :: "snapshot option"
  lv_edge :: "resolution option"
  lv_catalog :: "catalog_inputs option"
  lv_fingerprint :: "string option"

definition latest_snapshots :: "'d catalog_db_scheme \<Rightarrow> int list \<Rightarrow> (int \<times> snapshot) list" where
  "latest_snapshots db ids =
     dict_of (map (\<lambda>s. (snap_listing s, s)) (distinct_on snap_listing
       (sort_key (\<lambda>s. (snap_listing s, - observed_at s)) (filter (\<lambda>s. snap_listing s \<in> set ids) (snapshot_rows db)))))"

definition current_edges :: "'d catalog_db_scheme \<Rightarrow> int list \<Rightarrow> (int \<times> resolution) list" where
  "current_edges db ids =
     dict_of (map (\<lambda>e. (res_listing e, e)) (filter (\<lambda>e. res_listing e \<in> set ids \<and> res_is_current e) (edge_rows db)))"

record plan =
  pl_category :: string
  pl_grain :: grain
  pl_family_id :: "int option"
  pl_model_id :: "int option"
  pl_variant_id :: "int option"
  pl_member_ids :: "int list"

definition plan_of :: "'d catalog_db_scheme \<Rightarrow> snapshot option \<Rightarrow> resolution option \<Rightarrow> elig_error + plan" where
  "plan_of db snap edge =
     andThen (dispatch_category snap) (\<lambda>category.
       let nothing = \<lparr>pl_category = category, pl_grain = GRAIN_NONE, pl_family_id = None, pl_model_id = None,
                      pl_variant_id = None, pl_member_ids = []\<rparr> in
       case edge of
         None \<Rightarrow> Inr nothing
       | Some e \<Rightarrow>
           if res_grain e = GRAIN_NONE then Inr nothing
           else if res_grain e = GRAIN_FAMILY
           then (case join_row (family_rows db) (res_family e) of
                   None \<Rightarrow> Inl (Elig_ValueError ''family edge has no family'')
                 | Some (f, _) \<Rightarrow>
                     Inr \<lparr>pl_category = category, pl_grain = GRAIN_FAMILY, pl_family_id = Some f, pl_model_id = None,
                          pl_variant_id = None, pl_member_ids = []\<rparr>)
           else (case edge_model db e of
                   None \<Rightarrow> Inl (Elig_ValueError ''edge has no model'')
                 | Some (m, fk) \<Rightarrow>
                     Inr \<lparr>pl_category = category, pl_grain = res_grain e, pl_family_id = family_of db fk,
                          pl_model_id = Some m, pl_variant_id = map_option fst (edge_variant db e),
                          pl_member_ids = [m]\<rparr>))"

definition family_plan :: "plan \<Rightarrow> bool" where
  "family_plan p \<longleftrightarrow> pl_grain p = GRAIN_FAMILY \<and> pl_family_id p \<noteq> None"

text \<open>The batched family read: the members of the families some plan names.\<close>

definition members_of :: "'d catalog_db_scheme \<Rightarrow> int list \<Rightarrow> int \<Rightarrow> int list" where
  "members_of db families f = map fst (filter (\<lambda>(m, fk). fk = Some f \<and> f \<in> set families) (model_rows db))"

definition fill_members :: "'d catalog_db_scheme \<Rightarrow> int list \<Rightarrow> plan \<Rightarrow> plan" where
  "fill_members db families p =
     (if family_plan p then p\<lparr>pl_member_ids := members_of db families (the (pl_family_id p))\<rparr> else p)"

definition member_specs :: "string \<Rightarrow> int list \<Rightarrow> (int \<times> spec_row) list \<Rightarrow> member_spec list" where
  "member_specs category model_ids rows =
     (if category \<notin> set requirement_categories then map (\<lambda>m. \<lparr>ms_model_id = m, ms_spec = Some []\<rparr>) (sort model_ids)
      else map (member_of rows) (sort model_ids))"

definition spec_rows :: "'d catalog_db_scheme \<Rightarrow> int list \<Rightarrow> string \<Rightarrow> (int \<times> spec_row) list" where
  "spec_rows db wanted category =
     (case spec_table db category of None \<Rightarrow> [] | Some table \<Rightarrow> filter (\<lambda>(m, s). m \<in> set wanted) table)"

definition inputs_of_plan :: "plan \<Rightarrow> (int \<times> spec_row) list \<Rightarrow> catalog_inputs" where
  "inputs_of_plan p rows =
     \<lparr>ci_category = pl_category p, ci_grain = pl_grain p, ci_family_id = pl_family_id p, ci_model_id = pl_model_id p,
      ci_variant_id = pl_variant_id p, ci_members = member_specs (pl_category p) (pl_member_ids p) rows\<rparr>"

text \<open>\<open>except ValueError\<close>: the only exception a plan raises.\<close>

definition plan_or_none :: "elig_error + plan \<Rightarrow> plan option" where
  "plan_or_none r = (case r of Inl e \<Rightarrow> None | Inr p \<Rightarrow> Some p)"

definition live_inputs :: "'d catalog_db_scheme \<Rightarrow> int list \<Rightarrow> (int \<times> live_inputs) list" where
  "live_inputs db listing_ids =
     (let ids = distinct_keys listing_ids;
          snapshots = latest_snapshots db ids;
          edges = current_edges db ids;
          plans0 = map (\<lambda>i. (i, plan_or_none (plan_of db (map_of snapshots i) (map_of edges i)))) ids;
          families = List.map_filter (\<lambda>(i, p). case p of None \<Rightarrow> None
            | Some p \<Rightarrow> if family_plan p then pl_family_id p else None) plans0;
          plans = map (apsnd (map_option (fill_members db families))) plans0;
          wanted = (\<lambda>c. concat (map (\<lambda>(i, p). case p of None \<Rightarrow> []
            | Some p \<Rightarrow> if pl_category p = c then pl_member_ids p else []) plans));
          live = (\<lambda>(i, p).
            (case p of
               None \<Rightarrow> \<lparr>lv_snapshot = map_of snapshots i, lv_edge = map_of edges i, lv_catalog = None, lv_fingerprint = None\<rparr>
             | Some p \<Rightarrow>
                 let inputs = inputs_of_plan p (spec_rows db (wanted (pl_category p)) (pl_category p))
                 in \<lparr>lv_snapshot = map_of snapshots i, lv_edge = map_of edges i, lv_catalog = Some inputs,
                     lv_fingerprint = Some (catalog_fingerprint inputs)\<rparr>))
      in map (\<lambda>ip. (fst ip, live ip)) plans)"


section \<open>The batched reads are the single reads\<close>

lemma map_of_dict_of: "map_of (dict_of kvs) k = map_of (rev kvs) k"
proof -
  have "map_of (foldl (\<lambda>d (k, v). AList.update k v d) d kvs) k = (map_of d ++ map_of (rev kvs)) k" for d
    by (induction kvs arbitrary: d) (auto simp: update_conv' map_add_def split: option.splits)
  then show ?thesis by (simp add: dict_of_def)
qed

lemma map_of_pairs:
  assumes "\<And>x y. x \<in> set xs \<Longrightarrow> y \<in> set xs \<Longrightarrow> f x = k \<Longrightarrow> f y = k \<Longrightarrow> x = y"
  shows "map_of (dict_of (map (\<lambda>x. (f x, x)) xs)) k = first_such (\<lambda>x. f x = k) xs"
proof (cases "first_such (\<lambda>x. f x = k) xs")
  case None
  then have "k \<notin> fst ` set (rev (map (\<lambda>x. (f x, x)) xs))" by (auto simp: first_such_None)
  then have "map_of (rev (map (\<lambda>x. (f x, x)) xs)) k = None" by (simp add: map_of_eq_None_iff)
  then show ?thesis using None by (simp only: map_of_dict_of)
next
  case (Some x)
  have x: "x \<in> set xs" "f x = k" using first_such_Some [OF Some] by blast+
  then have "k \<in> fst ` set (rev (map (\<lambda>x. (f x, x)) xs))" by force
  then have "map_of (rev (map (\<lambda>x. (f x, x)) xs)) k \<noteq> None" by (simp only: map_of_eq_None_iff not_not)
  then obtain y where y: "map_of (rev (map (\<lambda>x. (f x, x)) xs)) k = Some y" by blast
  then have "(k, y) \<in> set (rev (map (\<lambda>x. (f x, x)) xs))" by (rule map_of_SomeD)
  then have "y = x" using assms x by auto
  then show ?thesis using y Some by (simp only: map_of_dict_of)
qed

lemma sort_key_cong_order:
  assumes "\<And>x y. x \<in> set xs \<Longrightarrow> y \<in> set xs \<Longrightarrow> f x \<le> f y \<longleftrightarrow> g x \<le> g y"
  shows "sort_key f xs = sort_key g xs"
  using assms
proof (induction xs)
  case (Cons a xs)
  have ins: "insort_key f a ys = insort_key g a ys" if "set ys \<subseteq> set (a # xs)" for ys
    using that Cons.prems by (induction ys) auto
  have "sort_key f xs = sort_key g xs" using Cons.IH Cons.prems by simp
  then show ?case using ins [of "sort_key g xs"] by (simp add: subset_insertI)
qed simp

lemma distinct_on_set: "set (distinct_on f xs) \<subseteq> set xs"
  by (induction f xs rule: distinct_on.induct) auto

lemma distinct_on_keys: "distinct (map f (distinct_on f xs))"
proof (induction f xs rule: distinct_on.induct)
  case (2 f x xs)
  then show ?case using distinct_on_set [of f "filter (\<lambda>y. f y \<noteq> f x) xs"] by auto
qed simp

lemma distinct_on_first: "first_such (\<lambda>x. f x = k) (distinct_on f xs) = first_such (\<lambda>x. f x = k) xs"
proof (induction f xs rule: distinct_on.induct)
  case (2 f x xs)
  have "first_such (\<lambda>y. f y = k) (filter (\<lambda>y. f y \<noteq> f x) ys) = first_such (\<lambda>y. f y = k) ys" if "f x \<noteq> k" for ys
    using that by (induction ys) auto
  then show ?case using 2 by simp
qed simp

lemma first_such_filter: "first_such p xs = (case filter p xs of [] \<Rightarrow> None | x # _ \<Rightarrow> Some x)"
  by (induction xs) auto

lemma latest_snapshots_lookup:
  "map_of (latest_snapshots db ids) i = (if i \<in> set ids then latest_snapshot db i else None)"
proof -
  let ?key = "\<lambda>s. (snap_listing s, - observed_at s)" and ?of = "\<lambda>s. snap_listing s = i"
  let ?rows = "sort_key ?key (filter (\<lambda>s. snap_listing s \<in> set ids) (snapshot_rows db))"
  have "map_of (latest_snapshots db ids) i = first_such ?of (distinct_on snap_listing ?rows)"
    unfolding latest_snapshots_def
  proof (rule map_of_pairs)
    fix x y assume "x \<in> set (distinct_on snap_listing ?rows)" "y \<in> set (distinct_on snap_listing ?rows)"
      "snap_listing x = i" "snap_listing y = i"
    then show "x = y" using distinct_on_keys [of snap_listing ?rows] by (auto simp: distinct_map inj_on_def)
  qed
  also have "\<dots> = first_such ?of ?rows" by (rule distinct_on_first)
  also have "\<dots> = (case sort_key ?key (filter ?of (filter (\<lambda>s. snap_listing s \<in> set ids) (snapshot_rows db))) of
      [] \<Rightarrow> None | s # _ \<Rightarrow> Some s)" unfolding first_such_filter filter_sort ..
  also have "\<dots> = (if i \<in> set ids then latest_snapshot db i else None)"
  proof (cases "i \<in> set ids")
    case True
    then have f: "filter ?of (filter (\<lambda>s. snap_listing s \<in> set ids) (snapshot_rows db)) = filter ?of (snapshot_rows db)"
      unfolding filter_filter by (intro filter_cong) auto
    have "sort_key ?key (filter ?of (snapshot_rows db)) = sort_key (\<lambda>s. - observed_at s) (filter ?of (snapshot_rows db))"
      by (rule sort_key_cong_order) (auto simp: less_eq_prod_def)
    then show ?thesis unfolding f using True by (simp add: latest_snapshot_def)
  next
    case False
    then have "filter ?of (filter (\<lambda>s. snap_listing s \<in> set ids) (snapshot_rows db)) = []"
      by (auto simp: filter_empty_conv)
    then show ?thesis using False by (simp only: sort_key_simps list.case if_False)
  qed
  finally show ?thesis .
qed

text \<open>The partial unique index \<open>listing_resolution_one_current\<close>.\<close>

definition one_current :: "'d catalog_db_scheme \<Rightarrow> bool" where
  "one_current db \<longleftrightarrow> (\<forall>d \<in> set (edge_rows db). \<forall>e \<in> set (edge_rows db).
     res_is_current d \<and> res_is_current e \<and> res_listing d = res_listing e \<longrightarrow> d = e)"

lemma current_edges_lookup:
  assumes "one_current db"
  shows "map_of (current_edges db ids) i = (if i \<in> set ids then current_edge db i else None)"
proof -
  let ?rows = "filter (\<lambda>e. res_listing e \<in> set ids \<and> res_is_current e) (edge_rows db)"
  let ?mine = "filter (\<lambda>e. res_listing e = i \<and> res_is_current e) (edge_rows db)"
  have "map_of (current_edges db ids) i = first_such (\<lambda>e. res_listing e = i) ?rows"
    unfolding current_edges_def by (rule map_of_pairs) (use assms in \<open>auto simp: one_current_def\<close>)
  also have "\<dots> = (case filter (\<lambda>e. res_listing e = i) ?rows of [] \<Rightarrow> None | e # _ \<Rightarrow> Some e)" by (rule first_such_filter)
  also have "\<dots> = (if i \<in> set ids then current_edge db i else None)"
  proof (cases "i \<in> set ids")
    case True
    then have f: "filter (\<lambda>e. res_listing e = i) ?rows = ?mine" unfolding filter_filter by (intro filter_cong) auto
    have one: "d = e" if "d \<in> set ?mine" "e \<in> set ?mine" for d e using assms that by (auto simp: one_current_def)
    have "(case ?mine of [] \<Rightarrow> None | e # _ \<Rightarrow> Some e) = (case sort_key res_id ?mine of [] \<Rightarrow> None | e # _ \<Rightarrow> Some e)"
    proof (cases ?mine)
      case (Cons d ds)
      then have "sort_key res_id ?mine \<noteq> []" by (metis list.distinct(1) set_empty set_sort)
      then obtain e es where e: "sort_key res_id ?mine = e # es" by (cases "sort_key res_id ?mine") simp_all
      then have "e \<in> set ?mine" by (metis list.set_intros(1) set_sort)
      then have "d = e" using one Cons by (metis list.set_intros(1))
      then show ?thesis using Cons e by simp
    qed simp
    then show ?thesis using True f by (simp add: current_edge_def)
  next
    case False
    then have "filter (\<lambda>e. res_listing e = i) ?rows = []" by (auto simp: filter_empty_conv)
    then show ?thesis using False by simp
  qed
  finally show ?thesis .
qed


text \<open>The plan with its members filled in is the single-row gather.\<close>

lemma spec_table_first_class: "spec_table db c = None \<longleftrightarrow> c \<notin> set requirement_categories"
  by (simp add: spec_table_def requirement_categories_def)

lemma map_of_filter_keys: "k \<in> K \<Longrightarrow> map_of (filter (\<lambda>(m, s). m \<in> K) t) k = map_of t k"
  by (induction t) auto

lemma member_specs_members:
  assumes "set ids \<subseteq> set wanted"
  shows "member_specs c ids (spec_rows db wanted c) = members db c ids"
proof (cases "spec_table db c")
  case None
  then have "c \<notin> set requirement_categories" using spec_table_first_class [of db c] by blast
  then show ?thesis using None by (simp add: member_specs_def members_def)
next
  case (Some t)
  then have "c \<in> set requirement_categories" using spec_table_first_class [of db c] by auto
  moreover have "member_of (filter (\<lambda>(m, s). m \<in> set wanted) t) m = member_of (filter (\<lambda>(m, s). m \<in> set ids) t) m"
    if "m \<in> set (sort ids)" for m
  proof -
    have "m \<in> set ids" using that by simp
    moreover from this have "m \<in> set wanted" using assms by blast
    ultimately show ?thesis by (simp add: member_of_def map_of_filter_keys)
  qed
  ultimately show ?thesis using Some by (simp add: member_specs_def members_def spec_rows_def Let_def)
qed

definition full_members :: "'d catalog_db_scheme \<Rightarrow> plan \<Rightarrow> int list" where
  "full_members db p =
     (if family_plan p then map fst (filter (\<lambda>(m, fk). fk = pl_family_id p) (model_rows db)) else pl_member_ids p)"

definition planned_inputs :: "'d catalog_db_scheme \<Rightarrow> plan \<Rightarrow> catalog_inputs" where
  "planned_inputs db p =
     \<lparr>ci_category = pl_category p, ci_grain = pl_grain p, ci_family_id = pl_family_id p, ci_model_id = pl_model_id p,
      ci_variant_id = pl_variant_id p, ci_members = members db (pl_category p) (full_members db p)\<rparr>"

lemma members_none: "members db c [] = []"
  by (simp add: members_def Let_def split: option.split)

lemma gather_by_plan: "gather db s e = (case plan_of db s e of Inl x \<Rightarrow> Inl x | Inr p \<Rightarrow> Inr (planned_inputs db p))"
proof (cases "dispatch_category s")
  case (Inl x)
  then show ?thesis by (simp add: gather_def plan_of_def)
next
  case (Inr c)
  note d = gather_def plan_of_def planned_inputs_def full_members_def family_plan_def members_none
  show ?thesis
  proof (cases e)
    case None
    then show ?thesis using Inr by (simp add: d)
  next
    case (Some x)
    show ?thesis
    proof (cases "res_grain x = GRAIN_NONE \<or> res_grain x = GRAIN_FAMILY")
      case True
      then show ?thesis using Inr Some by (cases "join_row (family_rows db) (res_family x)") (auto simp: d)
    next
      case False
      then show ?thesis using Inr Some by (cases "edge_model db x") (auto simp: d)
    qed
  qed
qed

lemma inputs_of_filled_plan:
  assumes fam: "family_plan p \<Longrightarrow> the (pl_family_id p) \<in> set families"
    and want: "set (pl_member_ids (fill_members db families p)) \<subseteq> set wanted"
  shows "inputs_of_plan (fill_members db families p) (spec_rows db wanted (pl_category p)) = planned_inputs db p"
proof -
  have cat: "pl_category (fill_members db families p) = pl_category p" by (simp add: fill_members_def)
  have ids: "pl_member_ids (fill_members db families p) = full_members db p"
  proof (cases "family_plan p")
    case True
    then obtain f where f: "pl_family_id p = Some f" "f \<in> set families" using fam by (auto simp: family_plan_def)
    have "filter (\<lambda>(m, fk). fk = Some f \<and> f \<in> set families) (model_rows db) = filter (\<lambda>(m, fk). fk = Some f) (model_rows db)"
      using f(2) by (intro filter_cong) auto
    then show ?thesis using True f(1) by (simp add: fill_members_def full_members_def members_of_def)
  qed (simp add: fill_members_def full_members_def)
  have ms: "member_specs (pl_category p) (full_members db p) (spec_rows db wanted (pl_category p))
      = members db (pl_category p) (full_members db p)"
    by (rule member_specs_members) (use want ids in simp)
  show ?thesis unfolding inputs_of_plan_def planned_inputs_def cat ids ms by (simp add: fill_members_def)
qed

definition single_inputs :: "'d catalog_db_scheme \<Rightarrow> int \<Rightarrow> live_inputs" where
  "single_inputs db i =
     (let inputs = (case catalog_inputs_of db i of Inl e \<Rightarrow> None | Inr x \<Rightarrow> Some x)
      in \<lparr>lv_snapshot = latest_snapshot db i, lv_edge = current_edge db i, lv_catalog = inputs,
          lv_fingerprint = map_option catalog_fingerprint inputs\<rparr>)"

lemma distinct_keys_set: "set (distinct_keys xs) = set xs" "distinct (distinct_keys xs)"
  by (simp_all add: distinct_keys_def)

lemma map_of_keyed: "map_of (map (\<lambda>i. (i, f i)) xs) i = (if i \<in> set xs then Some (f i) else None)"
  by (induction xs) auto

lemma live_inputs_single:
  assumes one: "one_current db" and i: "i \<in> set ids"
  shows "map_of (live_inputs db ids) i = Some (single_inputs db i)"
proof -
  let ?ids = "distinct_keys ids"
  let ?p0 = "\<lambda>i. plan_or_none (plan_of db (latest_snapshot db i) (current_edge db i))"
  define families where "families = List.map_filter (\<lambda>(i, p). case p of None \<Rightarrow> None
            | Some p \<Rightarrow> if family_plan p then pl_family_id p else None) (map (\<lambda>i. (i, ?p0 i)) ?ids)"
  define plans where "plans = map (\<lambda>i. (i, map_option (fill_members db families) (?p0 i))) ?ids"
  define wanted where "wanted = (\<lambda>c. concat (map (\<lambda>(i, p). case p of None \<Rightarrow> []
            | Some p \<Rightarrow> if pl_category p = c then pl_member_ids p else []) plans))"
  have look: "map_of (latest_snapshots db ?ids) j = latest_snapshot db j" "map_of (current_edges db ?ids) j = current_edge db j"
    if "j \<in> set ?ids" for j
    using that by (simp_all add: latest_snapshots_lookup current_edges_lookup [OF one])
  have plans0: "map (\<lambda>i. (i, plan_or_none (plan_of db (map_of (latest_snapshots db ?ids) i) (map_of (current_edges db ?ids) i)))) ?ids
      = map (\<lambda>i. (i, ?p0 i)) ?ids"
    using look by simp
  have step: "map (apsnd (map_option (fill_members db families))) (map (\<lambda>i. (i, ?p0 i)) ?ids) = plans"
    by (simp add: plans_def)
  have val: "live_inputs db ids = map (\<lambda>(i, p). (i,
            (case p of
               None \<Rightarrow> \<lparr>lv_snapshot = map_of (latest_snapshots db ?ids) i, lv_edge = map_of (current_edges db ?ids) i,
                         lv_catalog = None, lv_fingerprint = None\<rparr>
             | Some p \<Rightarrow>
                 let inputs = inputs_of_plan p (spec_rows db (wanted (pl_category p)) (pl_category p))
                 in \<lparr>lv_snapshot = map_of (latest_snapshots db ?ids) i, lv_edge = map_of (current_edges db ?ids) i,
                     lv_catalog = Some inputs, lv_fingerprint = Some (catalog_fingerprint inputs)\<rparr>))) plans"
    unfolding live_inputs_def Let_def plans0 families_def [symmetric] step
    unfolding wanted_def case_prod_unfold by simp
  have one_listing: "(case map_option (fill_members db families) (?p0 j) of
               None \<Rightarrow> \<lparr>lv_snapshot = map_of (latest_snapshots db ?ids) j, lv_edge = map_of (current_edges db ?ids) j,
                         lv_catalog = None, lv_fingerprint = None\<rparr>
             | Some p \<Rightarrow>
                 let inputs = inputs_of_plan p (spec_rows db (wanted (pl_category p)) (pl_category p))
                 in \<lparr>lv_snapshot = map_of (latest_snapshots db ?ids) j, lv_edge = map_of (current_edges db ?ids) j,
                     lv_catalog = Some inputs, lv_fingerprint = Some (catalog_fingerprint inputs)\<rparr>) = single_inputs db j"
    if j: "j \<in> set ?ids" for j
  proof (cases "plan_of db (latest_snapshot db j) (current_edge db j)")
    case (Inl e)
    then show ?thesis using look [OF j]
      by (simp add: single_inputs_def catalog_inputs_of_def gather_by_plan plan_or_none_def)
  next
    case (Inr p)
    have cat: "pl_category (fill_members db families p) = pl_category p" by (simp add: fill_members_def)
    have pj: "?p0 j = Some p" using Inr by (simp add: plan_or_none_def)
    have "inputs_of_plan (fill_members db families p) (spec_rows db (wanted (pl_category p)) (pl_category p)) = planned_inputs db p"
    proof (rule inputs_of_filled_plan)
      show "the (pl_family_id p) \<in> set families" if "family_plan p"
        unfolding families_def List.map_filter_def set_map
        by (rule image_eqI [of _ _ "(j, Some p)"]) (use that pj j in \<open>auto simp: family_plan_def image_iff\<close>)
      have "(j, Some (fill_members db families p)) \<in> set plans" using pj j by (force simp: plans_def)
      then show "set (pl_member_ids (fill_members db families p)) \<subseteq> set (wanted (pl_category p))"
        unfolding wanted_def using cat by force
    qed
    then show ?thesis using look [OF j] Inr pj cat
      by (simp add: single_inputs_def catalog_inputs_of_def gather_by_plan Let_def)
  qed
  have "live_inputs db ids = map (\<lambda>i. (i, single_inputs db i)) ?ids"
    unfolding val plans_def map_map comp_def prod.case using one_listing by (intro map_cong refl) simp
  then show ?thesis using i by (simp add: map_of_keyed distinct_keys_set)
qed


section \<open>Currency of stored rows\<close>

definition binding_for :: "'a watch_scheme \<Rightarrow> live_inputs \<Rightarrow> input_binding option" where
  "binding_for w live =
     (case lv_fingerprint live of None \<Rightarrow> None
      | Some fp \<Rightarrow> Some \<lparr>ib_snapshot_observed_at = map_option observed_at (lv_snapshot live),
          ib_resolution_id = map_option res_id (lv_edge live), ib_requirement_version = requirement_version w,
          ib_evaluator_version = EVALUATOR_VERSION, ib_catalog_fingerprint = fp\<rparr>)"

definition BINDING_FIELDS :: "string list" where
  "BINDING_FIELDS =
     [''snapshot_observed_at'', ''resolution_id'', ''requirement_version'', ''evaluator_version'', ''catalog_fingerprint'']"

text \<open>The fields in declaration order with whether they differ.\<close>

definition differing :: "input_binding \<Rightarrow> input_binding \<Rightarrow> bool list" where
  "differing a b =
     [ib_snapshot_observed_at a \<noteq> ib_snapshot_observed_at b, ib_resolution_id a \<noteq> ib_resolution_id b,
      ib_requirement_version a \<noteq> ib_requirement_version b, ib_evaluator_version a \<noteq> ib_evaluator_version b,
      ib_catalog_fingerprint a \<noteq> ib_catalog_fingerprint b]"

definition stale_fields :: "input_binding \<Rightarrow> input_binding option \<Rightarrow> string list" where
  "stale_fields have_b want =
     (case want of None \<Rightarrow> BINDING_FIELDS
      | Some b \<Rightarrow> map fst (filter snd (zip BINDING_FIELDS (differing have_b b))))"

text \<open>A row with its watch and listing loaded (\<open>select_related\<close>).\<close>

record loaded_row =
  lr_evaluation :: evaluation
  lr_watch :: watch
  lr_listing :: listing

record row_state =
  rc_row :: loaded_row
  rc_live :: live_inputs
  rc_current :: bool
  rc_stale_fields :: "string list"

definition row_currency :: "'d catalog_db_scheme \<Rightarrow> loaded_row list \<Rightarrow> row_state list" where
  "row_currency db rows =
     (let lives = live_inputs db (map (\<lambda>r. l_id (lr_listing r)) rows) in
      map (\<lambda>r. let live = the (map_of lives (l_id (lr_listing r)));
                   stale = stale_fields (stored_binding (lr_evaluation r)) (binding_for (lr_watch r) live)
               in \<lparr>rc_row = r, rc_live = live, rc_current = (stale = []), rc_stale_fields = stale\<rparr>) rows)"

lemma stale_fields_none: "stale_fields a want = [] \<longleftrightarrow> want = Some a"
  by (cases want) (auto simp: stale_fields_def BINDING_FIELDS_def differing_def filter_empty_conv)

lemma binding_for_single:
  "binding_for w (single_inputs db i) = (case live_binding db i w of Inl e \<Rightarrow> None | Inr b \<Rightarrow> Some b)"
  by (cases "catalog_inputs_of db i")
    (simp_all add: binding_for_def single_inputs_def live_binding_def catalog_inputs_of_def Let_def)

lemma row_currency_rows: "map rc_row (row_currency db rows) = rows"
  by (simp add: row_currency_def Let_def comp_def)

lemma row_currency_states:
  assumes one: "one_current db" and loaded: "\<forall>r \<in> set rows. ev_listing (lr_evaluation r) = l_id (lr_listing r)"
    and s: "s \<in> set (row_currency db rows)"
  shows "rc_row s \<in> set rows" and "rc_live s = single_inputs db (l_id (lr_listing (rc_row s)))"
    and "rc_current s \<longleftrightarrow> is_current db (lr_watch (rc_row s)) (lr_evaluation (rc_row s)) = Inr True"
    and "rc_current s \<longleftrightarrow> rc_stale_fields s = []"
proof -
  let ?live = "\<lambda>r. the (map_of (live_inputs db (map (\<lambda>r. l_id (lr_listing r)) rows)) (l_id (lr_listing r)))"
  let ?stale = "\<lambda>r. stale_fields (stored_binding (lr_evaluation r)) (binding_for (lr_watch r) (?live r))"
  obtain r where r: "r \<in> set rows"
    and sr: "s = \<lparr>rc_row = r, rc_live = ?live r, rc_current = (?stale r = []), rc_stale_fields = ?stale r\<rparr>"
    using s by (auto simp: row_currency_def Let_def)
  have live: "?live r = single_inputs db (l_id (lr_listing r))" using live_inputs_single [OF one] r by simp
  show "rc_row s \<in> set rows" "rc_current s \<longleftrightarrow> rc_stale_fields s = []" using r sr by simp_all
  show "rc_live s = single_inputs db (l_id (lr_listing (rc_row s)))" using sr live by simp
  have "ev_listing (lr_evaluation r) = l_id (lr_listing r)" using loaded r by blast
  then show "rc_current s \<longleftrightarrow> is_current db (lr_watch (rc_row s)) (lr_evaluation (rc_row s)) = Inr True"
    unfolding sr live
    by (cases "live_binding db (l_id (lr_listing r)) (lr_watch r)") (auto simp: stale_fields_none binding_for_single is_current_def)
qed

text \<open>C34: The batched currency check decides every row as the single-row predicate does: whatever rows
  are read together, each comes back once and in order, its state is current exactly if its stored
  binding equals the live binding of its listing and watch, and exactly if no field is reported stale.
  A listing whose inputs cannot be computed has no current row.\<close>

theorem batched_currency_is_single:
  assumes "one_current db" and "\<forall>r \<in> set rows. ev_listing (lr_evaluation r) = l_id (lr_listing r)"
  shows "map rc_row (row_currency db rows) = rows
     \<and> (\<forall>s \<in> set (row_currency db rows). rc_live s = single_inputs db (l_id (lr_listing (rc_row s)))
          \<and> (rc_current s \<longleftrightarrow> is_current db (lr_watch (rc_row s)) (lr_evaluation (rc_row s)) = Inr True)
          \<and> (rc_current s \<longleftrightarrow> rc_stale_fields s = []))"
  using row_currency_rows row_currency_states [OF assms] by blast

end
