(* ===== verification/EligRepair.thy ===== *)
theory EligRepair
  imports EligService
begin

text \<open>
  The live rows of a watch and the loops that evaluate many listings (\<open>eligibility/service.py\<close>). Each
  evaluation reads its own clock: \<open>clock i\<close> is the time at which listing \<open>i\<close> is evaluated.
\<close>

section \<open>Candidate rows\<close>

text \<open>\<open>Listing.objects.active()\<close>.\<close>

definition active :: "instant \<Rightarrow> listing \<Rightarrow> bool" where
  "active now l \<longleftrightarrow> l_delisted_at l = None \<and> (case l_expires_at l of None \<Rightarrow> True | Some e \<Rightarrow> now < e)"

definition load_row :: "'d elig_db_scheme \<Rightarrow> evaluation \<Rightarrow> loaded_row option" where
  "load_row db ev =
     (case (first_such (\<lambda>w. w_id w = ev_watch ev) (watch_rows db), first_such (\<lambda>l. l_id l = ev_listing ev) (listing_rows db)) of
        (Some w, Some l) \<Rightarrow> Some \<lparr>lr_evaluation = ev, lr_watch = w, lr_listing = l\<rparr>
      | _ \<Rightarrow> None)"

definition candidate_rows :: "'d elig_db_scheme \<Rightarrow> instant \<Rightarrow> int \<Rightarrow> loaded_row list" where
  "candidate_rows db now watch =
     sort_key (\<lambda>r. ev_id (lr_evaluation r))
       (filter (\<lambda>r. active now (lr_listing r))
         (List.map_filter (load_row db) (filter (\<lambda>e. ev_watch e = watch) (evaluation_rows db))))"

lemma load_row_Some:
  assumes "load_row db ev = Some r"
  shows "lr_evaluation r = ev" "lr_watch r \<in> set (watch_rows db)" "w_id (lr_watch r) = ev_watch ev"
    "lr_listing r \<in> set (listing_rows db)" "l_id (lr_listing r) = ev_listing ev"
  using assms by (auto simp: load_row_def split: option.splits dest: first_such_Some)

lemma candidate_rows_set:
  "r \<in> set (candidate_rows db now watch) \<longleftrightarrow>
     (\<exists>ev \<in> set (evaluation_rows db). ev_watch ev = watch \<and> load_row db ev = Some r) \<and> active now (lr_listing r)"
  by (force simp: candidate_rows_def List.map_filter_def image_iff)

lemma candidate_loaded: "\<forall>r \<in> set (candidate_rows db now watch). ev_listing (lr_evaluation r) = l_id (lr_listing r)"
  using load_row_Some by (fastforce simp: candidate_rows_set)

section \<open>Evaluating many listings\<close>

record evaluation_report =
  er_listings :: nat
  er_evaluated :: nat
  er_skipped :: nat
  er_errors :: "int list"

definition empty_report :: evaluation_report where
  "empty_report = \<lparr>er_listings = 0, er_evaluated = 0, er_skipped = 0, er_errors = []\<rparr>"

fun evaluate_from ::
  "title_reader \<Rightarrow> (int \<Rightarrow> instant) \<Rightarrow> evaluation_report \<Rightarrow> 'd elig_db_scheme \<Rightarrow> int list
   \<Rightarrow> evaluation_report \<times> 'd elig_db_scheme" where
  "evaluate_from rd clock rep db [] = (rep, db)"
| "evaluate_from rd clock rep db (i # ids) =
     (let rep = rep\<lparr>er_listings := er_listings rep + 1\<rparr> in
      case evaluate_listing rd (clock i) db i of
        Inl e \<Rightarrow> evaluate_from rd clock (rep\<lparr>er_errors := er_errors rep @ [i]\<rparr>) db ids
      | Inr (res, db') \<Rightarrow>
          evaluate_from rd clock
            (if le_skipped res = None then rep\<lparr>er_evaluated := er_evaluated rep + 1\<rparr>
             else rep\<lparr>er_skipped := er_skipped rep + 1\<rparr>) db' ids)"

definition evaluate_ids ::
  "title_reader \<Rightarrow> (int \<Rightarrow> instant) \<Rightarrow> 'd elig_db_scheme \<Rightarrow> int list \<Rightarrow> evaluation_report \<times> 'd elig_db_scheme" where
  "evaluate_ids rd clock db ids = evaluate_from rd clock empty_report db ids"

definition pending_listing_ids :: "'d elig_db_scheme \<Rightarrow> instant \<Rightarrow> int list option \<Rightarrow> int list" where
  "pending_listing_ids db now watch_ids =
     (let watches = sort (map w_id (filter (\<lambda>w. enabled w \<and> (case watch_ids of None \<Rightarrow> True | Some ids \<Rightarrow> w_id w \<in> set ids))
            (watch_rows db)))
      in distinct_keys (concat (map (\<lambda>w.
           map (\<lambda>s. l_id (lr_listing (rc_row s)))
             (filter (\<lambda>s. \<not> rc_current s) (row_currency db (candidate_rows db now w)))) watches)))"

definition evaluate_pending ::
  "title_reader \<Rightarrow> (int \<Rightarrow> instant) \<Rightarrow> instant \<Rightarrow> 'd elig_db_scheme \<Rightarrow> int list option
   \<Rightarrow> evaluation_report \<times> 'd elig_db_scheme" where
  "evaluate_pending rd clock now db watch_ids = evaluate_ids rd clock db (pending_listing_ids db now watch_ids)"

definition evaluate_all ::
  "title_reader \<Rightarrow> (int \<Rightarrow> instant) \<Rightarrow> instant \<Rightarrow> 'd elig_db_scheme \<Rightarrow> evaluation_report \<times> 'd elig_db_scheme" where
  "evaluate_all rd clock now db =
     (if \<not> list_ex enabled (watch_rows db) then (empty_report, db)
      else evaluate_ids rd clock db (sort (map l_id (filter (active now) (listing_rows db)))))"

section \<open>The loop\<close>

lemma evaluate_from_rows:
  assumes "distinct (map w_id (watch_rows db))"
  shows "\<exists>rows. snd (evaluate_from rd clock rep db ids) = db\<lparr>evaluation_rows := rows\<rparr>
     \<and> (\<forall>k j. j \<notin> set ids \<longrightarrow> filter (\<lambda>r. ev_watch r = k \<and> ev_listing r = j) rows
          = filter (\<lambda>r. ev_watch r = k \<and> ev_listing r = j) (evaluation_rows db))"
  using assms
proof (induction ids arbitrary: rep db)
  case Nil
  show ?case by (intro exI [of _ "evaluation_rows db"]) simp
next
  case (Cons i ids)
  show ?case
  proof (cases "evaluate_listing rd (clock i) db i")
    case (Inl e)
    then show ?thesis
      using Cons.IH [OF Cons.prems, of "rep\<lparr>er_listings := er_listings rep + 1, er_errors := er_errors rep @ [i]\<rparr>"]
      by (auto simp: Let_def)
  next
    case (Inr p)
    obtain res db1 where p: "p = (res, db1)" by (cases p)
    obtain rows1 where r1: "db1 = db\<lparr>evaluation_rows := rows1\<rparr>"
      and f1: "\<And>k j. j \<noteq> i \<Longrightarrow> filter (\<lambda>r. ev_watch r = k \<and> ev_listing r = j) rows1
          = filter (\<lambda>r. ev_watch r = k \<and> ev_listing r = j) (evaluation_rows db)"
      using evaluation_frame [OF Inr [unfolded p] Cons.prems] by blast
    have d1: "distinct (map w_id (watch_rows db1))" using Cons.prems r1 by simp
    let ?rep = "if le_skipped res = None then rep\<lparr>er_listings := er_listings rep + 1, er_evaluated := er_evaluated rep + 1\<rparr>
             else rep\<lparr>er_listings := er_listings rep + 1, er_skipped := er_skipped rep + 1\<rparr>"
    obtain rows where r: "snd (evaluate_from rd clock ?rep db1 ids) = db1\<lparr>evaluation_rows := rows\<rparr>"
      and f: "\<And>k j. j \<notin> set ids \<Longrightarrow> filter (\<lambda>r. ev_watch r = k \<and> ev_listing r = j) rows
          = filter (\<lambda>r. ev_watch r = k \<and> ev_listing r = j) (evaluation_rows db1)"
      using Cons.IH [OF d1, of ?rep] by blast
    have "snd (evaluate_from rd clock rep db (i # ids)) = db\<lparr>evaluation_rows := rows\<rparr>"
      using Inr p r r1 by (cases "le_skipped res") (simp_all add: Let_def)
    then show ?thesis using f f1 r1 by (intro exI [of _ rows]) simp
  qed
qed


lemma evaluate_from_errors: "set (er_errors rep) \<subseteq> set (er_errors (fst (evaluate_from rd clock rep db ids)))"
proof (induction ids arbitrary: rep db)
  case (Cons i ids)
  show ?case
  proof (cases "evaluate_listing rd (clock i) db i")
    case (Inl e)
    then show ?thesis
      using Cons [of "rep\<lparr>er_listings := er_listings rep + 1, er_errors := er_errors rep @ [i]\<rparr>" db] by (simp add: Let_def)
  next
    case (Inr p)
    then show ?thesis
      using Cons [of "rep\<lparr>er_listings := er_listings rep + 1, er_evaluated := er_evaluated rep + 1\<rparr>" "snd p"]
        Cons [of "rep\<lparr>er_listings := er_listings rep + 1, er_skipped := er_skipped rep + 1\<rparr>" "snd p"]
      by (cases p) (simp add: Let_def)
  qed
qed simp

lemma evaluate_from_visits:
  assumes "i \<in> set ids" and "distinct ids" and "distinct (map w_id (watch_rows db))"
    and "i \<notin> set (er_errors (fst (evaluate_from rd clock rep db ids)))"
  shows "\<exists>rows1 res db2. evaluate_listing rd (clock i) (db\<lparr>evaluation_rows := rows1\<rparr>) i = Inr (res, db2)
     \<and> (\<forall>k. filter (\<lambda>r. ev_watch r = k \<and> ev_listing r = i) (evaluation_rows (snd (evaluate_from rd clock rep db ids)))
          = filter (\<lambda>r. ev_watch r = k \<and> ev_listing r = i) (evaluation_rows db2))"
  using assms
proof (induction ids arbitrary: rep db)
  case (Cons j ids)
  show ?case
  proof (cases "evaluate_listing rd (clock j) db j")
    case (Inl e)
    let ?rep = "rep\<lparr>er_listings := er_listings rep + 1, er_errors := er_errors rep @ [j]\<rparr>"
    have step: "evaluate_from rd clock rep db (j # ids) = evaluate_from rd clock ?rep db ids" using Inl by (simp add: Let_def)
    have "j \<in> set (er_errors (fst (evaluate_from rd clock ?rep db ids)))"
      using evaluate_from_errors [of ?rep rd clock db ids] by auto
    then have "i \<noteq> j" using Cons.prems(4) step by auto
    then show ?thesis using Cons.IH [of db ?rep] Cons.prems step by auto
  next
    case (Inr p)
    obtain res db1 where p: "p = (res, db1)" by (cases p)
    obtain rows1 where r1: "db1 = db\<lparr>evaluation_rows := rows1\<rparr>"
      using evaluation_frame [OF Inr [unfolded p] Cons.prems(3)] by blast
    have d1: "distinct (map w_id (watch_rows db1))" using Cons.prems(3) r1 by simp
    let ?rep = "if le_skipped res = None then rep\<lparr>er_listings := er_listings rep + 1, er_evaluated := er_evaluated rep + 1\<rparr>
             else rep\<lparr>er_listings := er_listings rep + 1, er_skipped := er_skipped rep + 1\<rparr>"
    have step: "evaluate_from rd clock rep db (j # ids) = evaluate_from rd clock ?rep db1 ids"
      using Inr p by (simp add: Let_def)
    show ?thesis
    proof (cases "i = j")
      case True
      then have "i \<notin> set ids" using Cons.prems(2) by simp
      then have "filter (\<lambda>r. ev_watch r = k \<and> ev_listing r = i) (evaluation_rows (snd (evaluate_from rd clock ?rep db1 ids)))
          = filter (\<lambda>r. ev_watch r = k \<and> ev_listing r = i) (evaluation_rows db1)" for k
        using evaluate_from_rows [OF d1, of rd clock ?rep ids] by auto
      moreover have "evaluate_listing rd (clock i) (db\<lparr>evaluation_rows := evaluation_rows db\<rparr>) i = Inr (res, db1)"
        using Inr p True by simp
      ultimately show ?thesis unfolding step by blast
    next
      case False
      then have "i \<in> set ids" "distinct ids" using Cons.prems by simp_all
      moreover have "i \<notin> set (er_errors (fst (evaluate_from rd clock ?rep db1 ids)))" using Cons.prems(4) unfolding step .
      ultimately obtain rows2 res2 db2 where "evaluate_listing rd (clock i) (db1\<lparr>evaluation_rows := rows2\<rparr>) i = Inr (res2, db2)"
        "\<forall>k. filter (\<lambda>r. ev_watch r = k \<and> ev_listing r = i) (evaluation_rows (snd (evaluate_from rd clock ?rep db1 ids)))
          = filter (\<lambda>r. ev_watch r = k \<and> ev_listing r = i) (evaluation_rows db2)"
        using Cons.IH [of db1 ?rep] d1 by blast
      then show ?thesis unfolding step r1 by auto
    qed
  qed
qed simp

lemma is_current_rows [simp]: "is_current (db\<lparr>evaluation_rows := rows\<rparr>) w ev = is_current db w ev"
  by (simp add: is_current_def live_binding_def)

lemma category_watches_rows [simp]: "category_watches (db\<lparr>evaluation_rows := rows\<rparr>) c = category_watches db c"
  by (simp add: category_watches_def)

lemma first_such_key: "x \<in> set xs \<Longrightarrow> distinct (map f xs) \<Longrightarrow> first_such (\<lambda>y. f y = f x) xs = Some x"
  by (induction xs) auto

lemma live_evaluation_verdicts:
  assumes e: "evaluate_listing rd now db i = Inr (res, db')" and l: "live_listing db now i l"
    and g: "catalog_inputs_of db i = Inr inputs" and ids: "distinct (map w_id (watch_rows db))"
  shows "map fst (le_verdicts res) = map w_id (category_watches db (ci_category inputs))"
  using e
proof (cases rule: evaluate_listing_cases)
  case skipped
  have "le_skipped res = None"
    using e l live_listing_id [OF l]
    by (auto simp: evaluate_listing_def live_listing_def evaluate_live_def Let_def elim!: andThen_InrE split: if_splits)
  then show ?thesis using skipped by simp
next
  case (idle l' inputs')
  then show ?thesis using g by simp
next
  case (live l' inputs' facts x)
  then show ?thesis using g evaluate_watches_settle [OF live(5) category_watches_distinct [OF ids]] by auto
qed

text \<open>C35: After \<open>evaluate_all\<close> every verdict that can be current is: for each live listing whose evaluation
  did not raise, and each enabled watch of its category, a row exists and every row of the pair is
  current against the database the batch leaves.\<close>

theorem evaluate_all_refreshes:
  assumes w: "w \<in> set (category_watches db (ci_category inputs))" and g: "catalog_inputs_of db (l_id l) = Inr inputs"
    and l: "l \<in> set (listing_rows db)" "active now l" "active (clock (l_id l)) l"
    and ok: "l_id l \<notin> set (er_errors (fst (evaluate_all rd clock now db)))"
    and ids: "distinct (map w_id (watch_rows db))" "distinct (map l_id (listing_rows db))"
  shows "(\<exists>ev \<in> set (evaluation_rows (snd (evaluate_all rd clock now db))). ev_watch ev = w_id w \<and> ev_listing ev = l_id l)
     \<and> (\<forall>ev \<in> set (evaluation_rows (snd (evaluate_all rd clock now db))). ev_watch ev = w_id w \<and> ev_listing ev = l_id l \<longrightarrow>
          is_current (snd (evaluate_all rd clock now db)) w ev = Inr True)"
proof -
  let ?i = "l_id l" and ?ids = "sort (map l_id (filter (active now) (listing_rows db)))"
  have wm: "w \<in> set (watch_rows db)" "enabled w" using w by (simp_all add: category_watches_set)
  then have all: "evaluate_all rd clock now db = evaluate_from rd clock empty_report db ?ids"
    by (auto simp: evaluate_all_def evaluate_ids_def list_ex_iff)
  have "?i \<in> set ?ids" "distinct ?ids" using l(1,2) ids(2) by (auto simp: distinct_map_filter)
  then obtain rows1 res db2 where e: "evaluate_listing rd (clock ?i) (db\<lparr>evaluation_rows := rows1\<rparr>) ?i = Inr (res, db2)"
    and f: "\<And>k. filter (\<lambda>r. ev_watch r = k \<and> ev_listing r = ?i) (evaluation_rows (snd (evaluate_all rd clock now db)))
          = filter (\<lambda>r. ev_watch r = k \<and> ev_listing r = ?i) (evaluation_rows db2)"
    using evaluate_from_visits [OF _ _ ids(1), of ?i ?ids rd clock empty_report] ok unfolding all by blast
  let ?db = "db\<lparr>evaluation_rows := rows1\<rparr>"
  have d: "distinct (map w_id (watch_rows ?db))" using ids(1) by simp
  have "first_such (\<lambda>k. l_id k = ?i) (listing_rows db) = Some l"
    by (rule first_such_key) (use l(1) ids(2) in auto)
  then have live: "live_listing ?db (clock ?i) ?i l"
    using l(3) by (auto simp: live_listing_def active_def is_expired_def split: option.splits)
  have g': "catalog_inputs_of ?db ?i = Inr inputs" using g by (simp add: catalog_inputs_of_def)
  have "map fst (le_verdicts res) = map w_id (category_watches db (ci_category inputs))"
    using live_evaluation_verdicts [OF e live g' d] by simp
  then have "w_id w \<in> set (map fst (le_verdicts res))" using w by simp
  then obtain v where v: "(w_id w, v) \<in> set (le_verdicts res)" by auto
  have cur: "(\<exists>ev \<in> set (evaluation_rows db2). ev_watch ev = w_id w \<and> ev_listing ev = ?i)
     \<and> (\<forall>ev \<in> set (evaluation_rows db2). ev_watch ev = w_id w \<and> ev_listing ev = ?i \<longrightarrow>
           (\<forall>w' \<in> set (watch_rows db2). w_id w' = w_id w \<longrightarrow> is_current db2 w' ev = Inr True))"
    using evaluation_leaves_current_rows [OF e v d] by blast
  obtain rows2 where db2: "db2 = db\<lparr>evaluation_rows := rows2\<rparr>" using evaluation_frame [OF e d] by auto
  obtain rows3 where fin: "snd (evaluate_all rd clock now db) = db\<lparr>evaluation_rows := rows3\<rparr>"
    using evaluate_from_rows [OF ids(1)] unfolding all by blast
  have same: "ev \<in> set rows3 \<and> ev_watch ev = w_id w \<and> ev_listing ev = ?i
      \<longleftrightarrow> ev \<in> set rows2 \<and> ev_watch ev = w_id w \<and> ev_listing ev = ?i" for ev
    using arg_cong [OF f [of "w_id w"], of set] fin db2 by (auto simp: set_eq_iff)
  show ?thesis using cur same wm(1) unfolding fin db2 by auto
qed


lemma evaluate_all_refreshes_witness:
  "\<exists>ev \<in> set (evaluation_rows (snd (evaluate_all sample_reader (\<lambda>i. 60) 60 sample_db))). ev_watch ev = 9 \<and> ev_listing ev = 1
     \<and> is_current (snd (evaluate_all sample_reader (\<lambda>i. 60) 60 sample_db)) sample_watch ev = Inr True"
proof -
  obtain db' where e: "evaluate_listing sample_reader 60 sample_db 1
     = Inr (\<lparr>le_listing = 1, le_skipped = None, le_verdicts = [(9, MATCH)]\<rparr>, db')" using sample_verdict by blast
  have l: "listing_rows sample_db = [sample_listing]" "watch_rows sample_db = [sample_watch]"
    by (simp_all add: sample_db_def catalog_db.defs elig_db.defs)
  have k: "l_id sample_listing = 1" "w_id sample_watch = 9" "enabled sample_watch" "active 60 sample_listing"
    by (simp_all add: sample_listing_def sample_watch_def active_def)
  have ok: "l_id sample_listing \<notin> set (er_errors (fst (evaluate_all sample_reader (\<lambda>i. 60) 60 sample_db)))"
    using e by (simp add: evaluate_all_def evaluate_ids_def l k empty_report_def)
  have w: "sample_watch \<in> set (category_watches sample_db (ci_category sample_inputs))"
    by (simp add: category_watches_set l) (simp add: sample_watch_def sample_inputs_def)
  show ?thesis
    using evaluate_all_refreshes [of sample_watch sample_db sample_inputs sample_listing 60 "\<lambda>i. 60", OF w _ _ _ _ ok]
      sample_db_inputs k l by auto
qed

section \<open>A row of another category\<close>

lemma verdict_watches:
  assumes e: "evaluate_listing rd now db i = Inr (res, db')" and g: "catalog_inputs_of db i = Inr inputs"
    and ids: "distinct (map w_id (watch_rows db))"
  shows "fst ` set (le_verdicts res) \<subseteq> w_id ` set (category_watches db (ci_category inputs))"
  using e
proof (cases rule: evaluate_listing_cases)
  case (live l inputs' facts x)
  then have "map fst (le_verdicts res) = map w_id (category_watches db (ci_category inputs))"
    using g evaluate_watches_settle [OF live(5) category_watches_distinct [OF ids]] by auto
  then show ?thesis by (metis list.set_map order_refl)
qed simp_all

lemma evaluate_from_other_watch:
  assumes "distinct (map w_id (watch_rows db))" and "catalog_inputs_of db j = Inr inputs"
    and "k \<notin> w_id ` set (category_watches db (ci_category inputs))"
  shows "filter (\<lambda>r. ev_watch r = k \<and> ev_listing r = j) (evaluation_rows (snd (evaluate_from rd clock rep db ids)))
    = filter (\<lambda>r. ev_watch r = k \<and> ev_listing r = j) (evaluation_rows db)"
  using assms
proof (induction ids arbitrary: rep db)
  case (Cons i ids)
  show ?case
  proof (cases "evaluate_listing rd (clock i) db i")
    case (Inl e)
    then show ?thesis
      using Cons.IH [OF Cons.prems, of "rep\<lparr>er_listings := er_listings rep + 1, er_errors := er_errors rep @ [i]\<rparr>"]
      by (simp add: Let_def)
  next
    case (Inr p)
    obtain res db1 where p: "p = (res, db1)" by (cases p)
    note e = Inr [unfolded p]
    obtain rows1 where r1: "db1 = db\<lparr>evaluation_rows := rows1\<rparr>"
      and f1: "\<And>a b. b \<noteq> i \<or> a \<notin> fst ` set (le_verdicts res) \<Longrightarrow> filter (\<lambda>r. ev_watch r = a \<and> ev_listing r = b) rows1
          = filter (\<lambda>r. ev_watch r = a \<and> ev_listing r = b) (evaluation_rows db)"
      using evaluation_frame [OF e Cons.prems(1)] by blast
    have "j \<noteq> i \<or> k \<notin> fst ` set (le_verdicts res)" using verdict_watches [OF e _ Cons.prems(1)] Cons.prems(2,3) by blast
    note f1 [OF this]
    moreover have "distinct (map w_id (watch_rows db1))" "catalog_inputs_of db1 j = Inr inputs"
      "k \<notin> w_id ` set (category_watches db1 (ci_category inputs))"
      using Cons.prems by (simp_all add: r1 catalog_inputs_of_def)
    note Cons.IH [OF this]
    ultimately show ?thesis using Inr p r1 by (cases "le_skipped res") (simp_all add: Let_def)
  qed
qed simp

text \<open>C37: The repair loop cannot repair a row whose listing has moved to another category. Evaluating the
  listing only visits the watches of its present category, so a non-current row on an enabled watch of
  another category is still there, still non-current, after \<open>evaluate_pending\<close>, and its listing is
  pending again for as long as it is live.\<close>

theorem redispatched_row_stays_pending:
  assumes ev: "ev \<in> set (evaluation_rows db)" "is_current db w ev = Inr False"
    and w: "w \<in> set (watch_rows db)" "w_id w = ev_watch ev" "enabled w"
    and l: "l \<in> set (listing_rows db)" "l_id l = ev_listing ev" "active now l"
    and g: "catalog_inputs_of db (ev_listing ev) = Inr inputs" "w_category w \<noteq> ci_category inputs"
    and db: "distinct (map w_id (watch_rows db))" "distinct (map l_id (listing_rows db))" "one_current db"
  shows "ev \<in> set (evaluation_rows (snd (evaluate_pending rd clock now' db sel)))
     \<and> ev_listing ev \<in> set (pending_listing_ids (snd (evaluate_pending rd clock now' db sel)) now None)"
proof -
  obtain rows where fin: "snd (evaluate_pending rd clock now' db sel) = db\<lparr>evaluation_rows := rows\<rparr>"
    unfolding evaluate_pending_def evaluate_ids_def using evaluate_from_rows [OF db(1)] by blast
  have other: "ev_watch ev \<notin> w_id ` set (category_watches db (ci_category inputs))"
  proof
    assume "ev_watch ev \<in> w_id ` set (category_watches db (ci_category inputs))"
    then obtain w' where w': "w' \<in> set (watch_rows db)" "w_id w' = w_id w" "w_category w' = ci_category inputs"
      using w(2) by (auto simp: category_watches_set)
    moreover have "inj_on w_id (set (watch_rows db))" using db(1) by (simp add: distinct_map)
    ultimately have "w' = w" using w(1) by (auto dest: inj_onD)
    then show False using w' g(2) by simp
  qed
  have eq: "filter (\<lambda>r. ev_watch r = ev_watch ev \<and> ev_listing r = ev_listing ev) rows
      = filter (\<lambda>r. ev_watch r = ev_watch ev \<and> ev_listing r = ev_listing ev) (evaluation_rows db)"
    using evaluate_from_other_watch [OF db(1) g(1) other, of rd clock empty_report "pending_listing_ids db now' sel"] fin
    unfolding evaluate_pending_def evaluate_ids_def by simp
  have "ev \<in> set (filter (\<lambda>r. ev_watch r = ev_watch ev \<and> ev_listing r = ev_listing ev) (evaluation_rows db))"
    using ev(1) by simp
  then have mem: "ev \<in> set rows" unfolding eq [symmetric] by simp
  let ?db = "db\<lparr>evaluation_rows := rows\<rparr>"
  let ?r = "\<lparr>lr_evaluation = ev, lr_watch = w, lr_listing = l\<rparr>"
  have "first_such (\<lambda>v. w_id v = ev_watch ev) (watch_rows db) = Some w"
    "first_such (\<lambda>v. l_id v = ev_listing ev) (listing_rows db) = Some l"
    using first_such_key [OF w(1) db(1)] first_such_key [OF l(1) db(2)] w(2) l(2) by simp_all
  then have "load_row ?db ev = Some ?r" by (simp add: load_row_def)
  then have "?r \<in> set (List.map_filter (load_row ?db) (filter (\<lambda>e. ev_watch e = ev_watch ev) rows))"
    unfolding List.map_filter_def using mem by (force simp: image_iff)
  then have "?r \<in> set (candidate_rows ?db now (w_id w))" using l(3) w(2) by (simp add: candidate_rows_def)
  then have "?r \<in> rc_row ` set (row_currency ?db (candidate_rows ?db now (w_id w)))"
    using arg_cong [OF row_currency_rows, of set ?db "candidate_rows ?db now (w_id w)"] by simp
  then obtain s where s0: "s \<in> set (row_currency ?db (candidate_rows ?db now (w_id w)))" "rc_row s = ?r" by force
  have one: "one_current ?db" using db(3) by (simp add: one_current_def)
  have s: "s \<in> set (row_currency ?db (candidate_rows ?db now (w_id w)))" "rc_row s = ?r"
    "rc_current s \<longleftrightarrow> is_current ?db w ev = Inr True"
    using s0 row_currency_states(3) [OF one candidate_loaded s0(1)] by simp_all
  then have "\<not> rc_current s" using ev(2) by simp
  then have "ev_listing ev \<in> set (pending_listing_ids ?db now None)"
    using s w(1,3) l(2) by (force simp: pending_listing_ids_def distinct_keys_set Let_def image_iff)
  then show ?thesis using mem fin by simp
qed


definition moved_row :: evaluation where
  "moved_row = \<lparr>ev_id = 1, ev_watch = 9, ev_listing = 1, ev_verdict = MATCH, ev_reasons = [], ev_requirement_version = 1,
     ev_evaluator_version = EVALUATOR_VERSION, ev_snapshot_observed_at = Some 40, ev_resolution = Some 3,
     ev_catalog_fingerprint = ''f'', ev_evaluated_at = 45, ev_retention_class = ''merchant_fact'', ev_expires_at = None\<rparr>"

definition moved_watch :: watch where "moved_watch = sample_watch\<lparr>w_category := ''drive''\<rparr>"

definition moved_db :: elig_db where
  "moved_db = sample_db\<lparr>watch_rows := [moved_watch], evaluation_rows := [moved_row]\<rparr>"

lemma redispatched_row_stays_pending_witness:
  "moved_row \<in> set (evaluation_rows (snd (evaluate_pending sample_reader (\<lambda>i. 60) 60 moved_db None)))
     \<and> 1 \<in> set (pending_listing_ids (snd (evaluate_pending sample_reader (\<lambda>i. 60) 60 moved_db None)) 61 None)"
proof -
  have g: "catalog_inputs_of moved_db 1 = Inr sample_inputs"
    by (simp add: moved_db_def sample_db_def catalog_db.defs elig_db.defs sample_catalog_def sample_inputs_def gather_defs
        gpu_values_def known_def)
  have ne: "is_current moved_db moved_watch moved_row = Inr False"
  proof -
    have "ev_listing moved_row = 1" by (simp add: moved_row_def)
    moreover have "gather moved_db (latest_snapshot moved_db 1) (current_edge moved_db 1) = Inr sample_inputs"
      using g by (simp add: catalog_inputs_of_def)
    ultimately show ?thesis
      by (simp add: is_current_def live_binding_def Let_def stored_binding_def)
        (simp add: moved_row_def moved_watch_def sample_watch_def)
  qed
  have rows: "evaluation_rows moved_db = [moved_row]" "watch_rows moved_db = [moved_watch]" "listing_rows moved_db = [sample_listing]"
    "edge_rows moved_db = edge_rows sample_catalog"
    by (simp_all add: moved_db_def sample_db_def catalog_db.defs elig_db.defs)
  have one: "one_current moved_db" unfolding one_current_def rows by (simp add: sample_catalog_def)
  have k: "w_id moved_watch = ev_watch moved_row" "enabled moved_watch" "l_id sample_listing = ev_listing moved_row"
    "active 61 sample_listing" "ev_listing moved_row = 1" "w_category moved_watch \<noteq> ci_category sample_inputs"
    by (simp_all add: moved_watch_def sample_watch_def moved_row_def sample_listing_def active_def sample_inputs_def)
  show ?thesis
    using redispatched_row_stays_pending [of moved_row moved_db moved_watch sample_listing 61 sample_inputs sample_reader "\<lambda>i. 60" 60 None]
      ne k g one by (simp add: rows)
qed

text \<open>At that row, the batched check of \<open>EligService\<close> and the single-row predicate agree.\<close>

lemma batched_currency_is_single_witness:
  "map rc_current (row_currency moved_db [\<lparr>lr_evaluation = moved_row, lr_watch = moved_watch, lr_listing = sample_listing\<rparr>])
     = [is_current moved_db moved_watch moved_row = Inr True]"
proof -
  let ?r = "\<lparr>lr_evaluation = moved_row, lr_watch = moved_watch, lr_listing = sample_listing\<rparr>"
  have "one_current moved_db"
    by (simp add: one_current_def moved_db_def sample_db_def catalog_db.defs elig_db.defs sample_catalog_def)
  moreover have "\<forall>r \<in> set [?r]. ev_listing (lr_evaluation r) = l_id (lr_listing r)"
    by (simp add: moved_row_def sample_listing_def)
  ultimately have b: "map rc_row (row_currency moved_db [?r]) = [?r]
     \<and> (\<forall>s \<in> set (row_currency moved_db [?r]). rc_live s = single_inputs moved_db (l_id (lr_listing (rc_row s)))
          \<and> (rc_current s \<longleftrightarrow> is_current moved_db (lr_watch (rc_row s)) (lr_evaluation (rc_row s)) = Inr True)
          \<and> (rc_current s \<longleftrightarrow> rc_stale_fields s = []))"
    by (rule batched_currency_is_single)
  then obtain s where "row_currency moved_db [?r] = [s]" "rc_row s = ?r" by (auto simp: map_eq_Cons_conv)
  then show ?thesis using b by simp
qed

end
