(* ===== verification/EligShortlist.thy ===== *)
theory EligShortlist
  imports EligRepair LedgerLatch Scheduling
begin

text \<open>
  The shortlist and the review queue of a watch (\<open>eligibility/shortlist.py\<close>), with the freshness of a
  row's price. The spend ledger and the source configuration are read from the models of
  \<open>LedgerRows\<close> and \<open>Scheduling\<close>.
\<close>

datatype freshness = FRESH | STALE | BUDGET_PAUSED denial_reason

datatype review_state = REVIEW_UNKNOWN | REVIEW_PENDING

definition STALE_CADENCE_MULTIPLE :: int where "STALE_CADENCE_MULTIPLE = 2"

section \<open>Freshness\<close>

text \<open>
  The tables the freshness of a source is judged by: its configuration, the spend ledger, and the
  finish times of its successful runs. A row of the ledger with status \<open>DENIED\<close> carries a reason
  (a CHECK of the table).
\<close>

record freshness_db =
  fr_configs :: "(int \<times> source_config) list"
  fr_ledger :: ledger_db
  fr_successes :: "(int \<times> instant option) list"

text \<open>The newest ledger row of each site.\<close>

definition newest_reservations :: "freshness_db \<Rightarrow> int list \<Rightarrow> (int \<times> reservation) list" where
  "newest_reservations db site_ids =
     distinct_on fst (sort_key (\<lambda>(s, r). (s, - rv_reserved_at r, - rv_id r))
       (List.map_filter (\<lambda>r. case rv_site r of None \<Rightarrow> None | Some s \<Rightarrow> if s \<in> set site_ids then Some (s, r) else None)
          (reservations (fr_ledger db))))"

text \<open>\<open>Max("finished_at")\<close> over the successful runs of a site; NULLs do not count.\<close>

definition last_import :: "freshness_db \<Rightarrow> int \<Rightarrow> instant option" where
  "last_import db site =
     (case List.map_filter snd (filter (\<lambda>(s, t). s = site) (fr_successes db)) of
        [] \<Rightarrow> None | t # ts \<Rightarrow> Some (foldl max t ts))"

definition budget_paused_sources :: "freshness_db \<Rightarrow> int list \<Rightarrow> (int \<times> denial_reason) list" where
  "budget_paused_sources db site_ids =
     (let denied = List.map_filter (\<lambda>(s, r). if rv_status r = DENIED
            then map_option (\<lambda>reason. (s, reason, rv_reserved_at r)) (rv_denial r) else None) (newest_reservations db site_ids);
          paused = map (\<lambda>(s, reason, t). (s, reason)) (filter (\<lambda>(s, reason, t).
            case last_import db s of None \<Rightarrow> True | Some l \<Rightarrow> l \<le> t) denied);
          latched = (if latch_tripped (fr_ledger db)
            then map (\<lambda>(s, c). (s, denial_reason.OVERRUN_LATCH))
                   (filter (\<lambda>(s, c). s \<in> set site_ids \<and> collection_provider c = APIFY) (fr_configs db))
            else [])
      in dict_of (paused @ latched))"

definition age_freshness :: "instant option \<Rightarrow> int option \<Rightarrow> instant \<Rightarrow> freshness" where
  "age_freshness seen baseline now =
     (case (seen, baseline) of
        (Some t, Some b) \<Rightarrow> if seconds (STALE_CADENCE_MULTIPLE * b) < now - t then STALE else FRESH
      | _ \<Rightarrow> STALE)"

section \<open>The shortlist\<close>

record shortlist_row =
  sl_evaluation_id :: int
  sl_watch_id :: int
  sl_listing_id :: int
  sl_source :: string
  sl_title :: string
  sl_url :: string
  sl_landed_usd :: "rat option"
  sl_shipping_known :: bool
  sl_meets_target :: "bool option"
  sl_freshness :: freshness
  sl_observed_at :: "instant option"
  sl_evaluated_at :: instant
  sl_reasons :: "pyval list"

definition meets_target :: "'a watch_scheme \<Rightarrow> offer_facts \<Rightarrow> bool option" where
  "meets_target w facts =
     (case target_unit_price_usd w of
        None \<Rightarrow> None
      | Some t \<Rightarrow> (case outcome (price_clause (Some t) facts (policy_for (w_category w))) of
          MATCH \<Rightarrow> Some True | verdict.NO_MATCH \<Rightarrow> Some False | verdict.UNKNOWN \<Rightarrow> None))"

definition shortlist_key :: "shortlist_row \<Rightarrow> bool \<times> rat \<times> int" where
  "shortlist_key r =
     (sl_landed_usd r = None, case sl_landed_usd r of None \<Rightarrow> 0 | Some p \<Rightarrow> p, sl_listing_id r)"

definition shortlist_row_of ::
  "title_reader \<Rightarrow> 'd elig_db_scheme \<Rightarrow> instant \<Rightarrow> (int \<times> int) list \<Rightarrow> (int \<times> denial_reason) list \<Rightarrow> row_state
   \<Rightarrow> elig_error + shortlist_row" where
  "shortlist_row_of rd db now baselines paused s =
     (let e = lr_evaluation (rc_row s); l = lr_listing (rc_row s); w = lr_watch (rc_row s); snap = lv_snapshot (rc_live s);
          text = tr_canonicalize rd (title_raw l) (condition_label_raw l) in
      andThen (offer_facts_of rd db l snap text (w_category w)) (\<lambda>facts.
        let seen = map_option observed_at snap; site = l_source_site l in
        Inr \<lparr>sl_evaluation_id = ev_id e, sl_watch_id = w_id w, sl_listing_id = l_id l, sl_source = source_key db l,
             sl_title = title_raw l, sl_url = canonical_url l, sl_landed_usd = price_usd facts,
             sl_shipping_known = shipping_known facts, sl_meets_target = meets_target w facts,
             sl_freshness = (case map_of paused site of Some reason \<Rightarrow> BUDGET_PAUSED reason
                | None \<Rightarrow> age_freshness seen (map_of baselines site) now),
             sl_observed_at = seen, sl_evaluated_at = ev_evaluated_at e, sl_reasons = ev_reasons e\<rparr>))"

fun collect :: "('a \<Rightarrow> 'e + 'b) \<Rightarrow> 'a list \<Rightarrow> 'e + 'b list" where
  "collect f [] = Inr []"
| "collect f (x # xs) = andThen (f x) (\<lambda>y. andThen (collect f xs) (\<lambda>ys. Inr (y # ys)))"

definition current_matches :: "'d elig_db_scheme \<Rightarrow> instant \<Rightarrow> int \<Rightarrow> row_state list" where
  "current_matches db now watch =
     filter (\<lambda>s. rc_current s \<and> ev_verdict (lr_evaluation (rc_row s)) = MATCH) (row_currency db (candidate_rows db now watch))"

definition shortlist ::
  "title_reader \<Rightarrow> 'd elig_db_scheme \<Rightarrow> freshness_db \<Rightarrow> instant \<Rightarrow> int \<Rightarrow> elig_error + shortlist_row list" where
  "shortlist rd db fdb now watch =
     (let matches = current_matches db now watch;
          site_ids = map (\<lambda>s. l_source_site (lr_listing (rc_row s))) matches;
          baselines = map (apsnd cadence_baseline_s) (filter (\<lambda>(s, c). s \<in> set site_ids) (fr_configs fdb));
          paused = budget_paused_sources fdb site_ids
      in andThen (collect (shortlist_row_of rd db now baselines paused) matches) (\<lambda>rows.
           Inr (sort_key shortlist_key rows)))"

record review_row =
  rv_evaluation_id :: int
  rv_watch_id :: int
  rv_listing_id :: int
  rv_source :: string
  rv_title :: string
  rv_url :: string
  rv_state :: review_state
  rv_verdict :: verdict
  rv_stale_fields :: "string list"
  rv_snapshot_observed_at :: "instant option"
  rv_evaluated_at :: instant
  rv_reasons :: "pyval list"

definition review_queue :: "'d elig_db_scheme \<Rightarrow> instant \<Rightarrow> int \<Rightarrow> review_row list" where
  "review_queue db now watch =
     sort_key rv_listing_id (map (\<lambda>s.
       let e = lr_evaluation (rc_row s); l = lr_listing (rc_row s) in
       \<lparr>rv_evaluation_id = ev_id e, rv_watch_id = w_id (lr_watch (rc_row s)), rv_listing_id = l_id l, rv_source = source_key db l,
        rv_title = title_raw l, rv_url = canonical_url l,
        rv_state = (if rc_current s then REVIEW_UNKNOWN else REVIEW_PENDING), rv_verdict = ev_verdict e,
        rv_stale_fields = rc_stale_fields s, rv_snapshot_observed_at = ev_snapshot_observed_at e,
        rv_evaluated_at = ev_evaluated_at e, rv_reasons = ev_reasons e\<rparr>)
       (filter (\<lambda>s. \<not> (rc_current s \<and> ev_verdict (lr_evaluation (rc_row s)) \<noteq> verdict.UNKNOWN))
          (row_currency db (candidate_rows db now watch))))"


section \<open>What reaches the shortlist\<close>

lemma collect_set: "collect f xs = Inr ys \<Longrightarrow> f ` set xs = Inr ` set ys"
proof (induction xs arbitrary: ys)
  case (Cons x xs)
  then obtain y ys' where "f x = Inr y" "collect f xs = Inr ys'" "ys = y # ys'" by (auto elim!: andThen_InrE)
  then show ?case using Cons.IH [of ys'] by simp
qed simp

text \<open>A row of a watch on a live listing, and one that is a match under a current binding.\<close>

definition live_row :: "'d elig_db_scheme \<Rightarrow> instant \<Rightarrow> int \<Rightarrow> evaluation \<Rightarrow> listing \<Rightarrow> watch \<Rightarrow> bool" where
  "live_row db now watch ev l w \<longleftrightarrow>
     ev \<in> set (evaluation_rows db) \<and> ev_watch ev = watch \<and> w \<in> set (watch_rows db) \<and> w_id w = watch
     \<and> l \<in> set (listing_rows db) \<and> l_id l = ev_listing ev \<and> active now l"

definition live_match :: "'d elig_db_scheme \<Rightarrow> instant \<Rightarrow> int \<Rightarrow> evaluation \<Rightarrow> listing \<Rightarrow> watch \<Rightarrow> bool" where
  "live_match db now watch ev l w \<longleftrightarrow>
     live_row db now watch ev l w \<and> ev_verdict ev = MATCH \<and> is_current db w ev = Inr True"

lemma row_currency_live:
  assumes ids: "distinct (map w_id (watch_rows db))" "distinct (map l_id (listing_rows db))"
  shows "(\<exists>s \<in> set (row_currency db (candidate_rows db now watch)). rc_row s = \<lparr>lr_evaluation = ev, lr_watch = w, lr_listing = l\<rparr>)
     \<longleftrightarrow> live_row db now watch ev l w" (is "?S \<longleftrightarrow> _")
proof -
  let ?r = "\<lparr>lr_evaluation = ev, lr_watch = w, lr_listing = l\<rparr>"
  have "rc_row ` set (row_currency db (candidate_rows db now watch)) = set (candidate_rows db now watch)"
    using arg_cong [OF row_currency_rows, of set db "candidate_rows db now watch"] by simp
  then have "?S \<longleftrightarrow> ?r \<in> set (candidate_rows db now watch)" by (metis (no_types, lifting) image_iff)
  also have "\<dots> \<longleftrightarrow> live_row db now watch ev l w"
  proof
    assume "?r \<in> set (candidate_rows db now watch)"
    then obtain ev' where "ev' \<in> set (evaluation_rows db)" "ev_watch ev' = watch" "load_row db ev' = Some ?r" "active now l"
      by (auto simp: candidate_rows_set)
    then show "live_row db now watch ev l w" using load_row_Some [of db ev' ?r] by (simp add: live_row_def)
  next
    assume m: "live_row db now watch ev l w"
    have "first_such (\<lambda>v. w_id v = ev_watch ev) (watch_rows db) = Some w"
      "first_such (\<lambda>v. l_id v = ev_listing ev) (listing_rows db) = Some l"
      using m first_such_key [OF _ ids(1), of w] first_such_key [OF _ ids(2), of l] by (simp_all add: live_row_def)
    then show "?r \<in> set (candidate_rows db now watch)" using m by (auto simp: candidate_rows_set load_row_def live_row_def)
  qed
  finally show ?thesis .
qed

lemma row_currency_current:
  assumes "one_current db" and "s \<in> set (row_currency db (candidate_rows db now watch))"
    and "rc_row s = \<lparr>lr_evaluation = ev, lr_watch = w, lr_listing = l\<rparr>"
  shows "rc_current s \<longleftrightarrow> is_current db w ev = Inr True"
  using row_currency_states(3) [OF assms(1) candidate_loaded assms(2)] assms(3) by simp

lemma current_matches_live:
  assumes one: "one_current db" and ids: "distinct (map w_id (watch_rows db))" "distinct (map l_id (listing_rows db))"
  shows "(\<exists>s \<in> set (current_matches db now watch). rc_row s = \<lparr>lr_evaluation = ev, lr_watch = w, lr_listing = l\<rparr>)
     \<longleftrightarrow> live_match db now watch ev l w"
  unfolding live_match_def row_currency_live [OF ids, symmetric] current_matches_def
  using row_currency_current [OF one] by fastforce

lemma shortlist_row_of_fields:
  assumes "shortlist_row_of rd db now baselines paused s = Inr r"
  shows "sl_evaluation_id r = ev_id (lr_evaluation (rc_row s))" "sl_listing_id r = l_id (lr_listing (rc_row s))"
    "sl_watch_id r = w_id (lr_watch (rc_row s))"
  using assms by (auto simp: shortlist_row_of_def Let_def elim!: andThen_InrE)

text \<open>C31: The shortlist of a watch is exactly its current matches on live listings, cheapest first: a row is
  on it if and only if it is a stored match of the watch, its binding still equals the live one, and
  its listing is neither delisted nor expired. A stale match, an unknown or a dead offer never is.\<close>

theorem shortlist_is_current_matches:
  assumes s: "shortlist rd db fdb now watch = Inr rows"
    and one: "one_current db" and ids: "distinct (map w_id (watch_rows db))" "distinct (map l_id (listing_rows db))"
  shows "sorted (map shortlist_key rows)
     \<and> (\<lambda>r. (sl_evaluation_id r, sl_listing_id r)) ` set rows
         = {(ev_id ev, l_id l) | ev l w. live_match db now watch ev l w}"
proof -
  obtain rows0 base paused where c: "collect (shortlist_row_of rd db now base paused) (current_matches db now watch) = Inr rows0"
    and rows: "rows = sort_key shortlist_key rows0"
    using s by (auto simp: shortlist_def Let_def elim!: andThen_InrE)
  have "(\<lambda>r. (sl_evaluation_id r, sl_listing_id r)) ` set rows0
      = (\<lambda>s. (ev_id (lr_evaluation (rc_row s)), l_id (lr_listing (rc_row s)))) ` set (current_matches db now watch)"
    (is "?L = ?R")
  proof
    show "?L \<subseteq> ?R"
    proof
      fix p assume "p \<in> ?L"
      then obtain r where r: "r \<in> set rows0" "p = (sl_evaluation_id r, sl_listing_id r)" by blast
      then have "Inr r \<in> shortlist_row_of rd db now base paused ` set (current_matches db now watch)"
        unfolding collect_set [OF c] by blast
      then obtain s where s: "s \<in> set (current_matches db now watch)" "shortlist_row_of rd db now base paused s = Inr r" by force
      then show "p \<in> ?R" using shortlist_row_of_fields [OF s(2)] r by auto
    qed
    show "?R \<subseteq> ?L"
    proof
      fix p assume "p \<in> ?R"
      then obtain s where s: "s \<in> set (current_matches db now watch)"
        "p = (ev_id (lr_evaluation (rc_row s)), l_id (lr_listing (rc_row s)))" by blast
      then have "shortlist_row_of rd db now base paused s \<in> Inr ` set rows0" using collect_set [OF c] by blast
      then obtain r where r: "shortlist_row_of rd db now base paused s = Inr r" "r \<in> set rows0" by blast
      then have "p = (sl_evaluation_id r, sl_listing_id r)" using shortlist_row_of_fields [OF r(1)] s by simp
      then show "p \<in> ?L" using r(2) by blast
    qed
  qed
  also have "?R = {(ev_id ev, l_id l) | ev l w. live_match db now watch ev l w}"
  proof (intro set_eqI iffI)
    fix p assume "p \<in> ?R"
    then obtain s where "s \<in> set (current_matches db now watch)"
      "p = (ev_id (lr_evaluation (rc_row s)), l_id (lr_listing (rc_row s)))" by blast
    moreover obtain ev w l where "rc_row s = \<lparr>lr_evaluation = ev, lr_watch = w, lr_listing = l\<rparr>"
      by (metis loaded_row.surjective old.unit.exhaust)
    ultimately show "p \<in> {(ev_id ev, l_id l) | ev l w. live_match db now watch ev l w}"
      using current_matches_live [OF one ids, of now watch ev w l] by auto
  next
    fix p assume "p \<in> {(ev_id ev, l_id l) | ev l w. live_match db now watch ev l w}"
    then obtain ev l w where "p = (ev_id ev, l_id l)" "live_match db now watch ev l w" by blast
    moreover from this obtain s where "s \<in> set (current_matches db now watch)"
      "rc_row s = \<lparr>lr_evaluation = ev, lr_watch = w, lr_listing = l\<rparr>"
      using current_matches_live [OF one ids, of now watch ev w l] by blast
    ultimately show "p \<in> ?R" by (force simp: image_iff)
  qed
  finally show ?thesis using rows by simp
qed

text \<open>Nothing live is lost between the two lists: the review queue of a watch is exactly its rows on live
  listings that are not current, marked pending, and its current unknowns. So a live row is on the
  shortlist, on the review queue, or a current no-match.\<close>

theorem review_queue_is_the_rest:
  assumes one: "one_current db" and ids: "distinct (map w_id (watch_rows db))" "distinct (map l_id (listing_rows db))"
  shows "sorted (map rv_listing_id (review_queue db now watch))
     \<and> (\<lambda>r. (rv_evaluation_id r, rv_listing_id r, rv_state r)) ` set (review_queue db now watch)
         = {(ev_id ev, l_id l, if is_current db w ev = Inr True then REVIEW_UNKNOWN else REVIEW_PENDING) | ev l w.
              live_row db now watch ev l w \<and> \<not> (is_current db w ev = Inr True \<and> ev_verdict ev \<noteq> verdict.UNKNOWN)}"
proof -
  let ?S = "{s \<in> set (row_currency db (candidate_rows db now watch)).
      \<not> (rc_current s \<and> ev_verdict (lr_evaluation (rc_row s)) \<noteq> verdict.UNKNOWN)}"
  have "(\<lambda>r. (rv_evaluation_id r, rv_listing_id r, rv_state r)) ` set (review_queue db now watch)
      = (\<lambda>s. (ev_id (lr_evaluation (rc_row s)), l_id (lr_listing (rc_row s)),
           if rc_current s then REVIEW_UNKNOWN else REVIEW_PENDING)) ` ?S"
    by (simp add: review_queue_def Let_def image_image)
  also have "\<dots> = {(ev_id ev, l_id l, if is_current db w ev = Inr True then REVIEW_UNKNOWN else REVIEW_PENDING) | ev l w.
              live_row db now watch ev l w \<and> \<not> (is_current db w ev = Inr True \<and> ev_verdict ev \<noteq> verdict.UNKNOWN)}"
    (is "?f ` ?S = ?R")
  proof (intro set_eqI iffI)
    fix p assume "p \<in> ?f ` ?S"
    then obtain s where s: "s \<in> set (row_currency db (candidate_rows db now watch))"
      "\<not> (rc_current s \<and> ev_verdict (lr_evaluation (rc_row s)) \<noteq> verdict.UNKNOWN)" "p = ?f s" by blast
    obtain ev w l where r: "rc_row s = \<lparr>lr_evaluation = ev, lr_watch = w, lr_listing = l\<rparr>"
      by (metis loaded_row.surjective old.unit.exhaust)
    have c: "rc_current s \<longleftrightarrow> is_current db w ev = Inr True" by (rule row_currency_current [OF one s(1) r])
    have "live_row db now watch ev l w" using row_currency_live [OF ids] s(1) r by blast
    then show "p \<in> ?R" using s(2,3) r c by auto
  next
    fix p assume "p \<in> ?R"
    then obtain ev l w where p: "p = (ev_id ev, l_id l, if is_current db w ev = Inr True then REVIEW_UNKNOWN else REVIEW_PENDING)"
      and l: "live_row db now watch ev l w" and n: "\<not> (is_current db w ev = Inr True \<and> ev_verdict ev \<noteq> verdict.UNKNOWN)" by blast
    obtain s where s: "s \<in> set (row_currency db (candidate_rows db now watch))"
      and r: "rc_row s = \<lparr>lr_evaluation = ev, lr_watch = w, lr_listing = l\<rparr>" using row_currency_live [OF ids] l by blast
    have c: "rc_current s \<longleftrightarrow> is_current db w ev = Inr True" by (rule row_currency_current [OF one s r])
    have "s \<in> ?S" using s n r c by simp
    moreover have "p = ?f s" using p r c by simp
    ultimately show "p \<in> ?f ` ?S" by blast
  qed
  finally show ?thesis by (simp add: review_queue_def)
qed

lemma moved_keys: "one_current moved_db" "distinct (map w_id (watch_rows moved_db))" "distinct (map l_id (listing_rows moved_db))"
  by (simp_all add: one_current_def moved_db_def sample_db_def catalog_db.defs elig_db.defs sample_catalog_def)

lemma review_queue_is_the_rest_witness:
  "(1, 1, REVIEW_PENDING) \<in> (\<lambda>r. (rv_evaluation_id r, rv_listing_id r, rv_state r)) ` set (review_queue moved_db 61 9)"
proof -
  have g: "gather moved_db (latest_snapshot moved_db 1) (current_edge moved_db 1) = Inr sample_inputs"
    by (simp add: moved_db_def sample_db_def catalog_db.defs elig_db.defs sample_catalog_def sample_inputs_def gather_defs
        gpu_values_def known_def)
  have "ev_listing moved_row = 1" by (simp add: moved_row_def)
  then have "is_current moved_db moved_watch moved_row = Inr False" using g
    by (simp add: is_current_def live_binding_def Let_def stored_binding_def)
      (simp add: moved_row_def moved_watch_def sample_watch_def)
  moreover have "live_row moved_db 61 9 moved_row sample_listing moved_watch"
    by (simp add: live_row_def moved_db_def sample_db_def catalog_db.defs elig_db.defs)
      (simp add: moved_row_def moved_watch_def sample_watch_def sample_listing_def active_def)
  moreover have "ev_id moved_row = 1" "l_id sample_listing = 1" by (simp_all add: moved_row_def sample_listing_def)
  ultimately show ?thesis
    unfolding conjunct2 [OF review_queue_is_the_rest [OF moved_keys]] by force
qed

definition good_row :: evaluation where
  "good_row = moved_row\<lparr>ev_requirement_version := 2, ev_snapshot_observed_at := Some 50,
     ev_catalog_fingerprint := catalog_fingerprint sample_inputs\<rparr>"

definition good_db :: elig_db where "good_db = sample_db\<lparr>evaluation_rows := [good_row]\<rparr>"

lemma good_keys: "one_current good_db" "distinct (map w_id (watch_rows good_db))" "distinct (map l_id (listing_rows good_db))"
  by (simp_all add: one_current_def good_db_def sample_db_def catalog_db.defs elig_db.defs sample_catalog_def)

lemma good_live: "live_match good_db 60 9 good_row sample_listing sample_watch"
proof -
  have g: "gather good_db (latest_snapshot good_db 1) (current_edge good_db 1) = Inr sample_inputs"
    using sample_db_inputs by (simp add: good_db_def catalog_inputs_of_def)
  have snap: "map_option observed_at (latest_snapshot good_db 1) = Some 50" "map_option res_id (current_edge good_db 1) = Some 3"
    by (simp_all add: good_db_def latest_snapshot_def current_edge_def sample_db_def catalog_db.defs elig_db.defs sample_catalog_def)
  have f: "ev_listing good_row = 1" by (simp add: good_row_def moved_row_def)
  have "is_current good_db sample_watch good_row = Inr True"
    using g by (simp add: is_current_def live_binding_def Let_def f stored_binding_def snap)
      (simp add: good_row_def moved_row_def sample_watch_def)
  moreover have "live_row good_db 60 9 good_row sample_listing sample_watch"
    by (simp add: live_row_def good_db_def sample_db_def catalog_db.defs elig_db.defs)
      (simp add: good_row_def moved_row_def sample_watch_def sample_listing_def active_def)
  ultimately show ?thesis by (simp add: live_match_def good_row_def moved_row_def)
qed

lemma shortlist_is_current_matches_witness:
  "\<forall>fdb. \<exists>rows. shortlist sample_reader good_db fdb 60 9 = Inr rows
     \<and> (1, 1) \<in> (\<lambda>r. (sl_evaluation_id r, sl_listing_id r)) ` set rows"
proof
  fix fdb
  let ?r = "\<lparr>lr_evaluation = good_row, lr_watch = sample_watch, lr_listing = sample_listing\<rparr>"
  have "load_row good_db good_row = Some ?r"
    by (simp add: load_row_def good_db_def sample_db_def catalog_db.defs elig_db.defs)
      (simp add: good_row_def moved_row_def sample_watch_def sample_listing_def)
  then have cand: "candidate_rows good_db 60 9 = [?r]"
    by (simp add: candidate_rows_def good_db_def List.map_filter_simps)
      (simp add: good_row_def moved_row_def sample_listing_def active_def)
  then obtain s where s: "row_currency good_db (candidate_rows good_db 60 9) = [s]" "rc_row s = ?r"
    using row_currency_rows [of good_db "candidate_rows good_db 60 9"] by (auto simp: map_eq_Cons_conv)
  then have "rc_live s = single_inputs good_db 1"
    using row_currency_states(2) [OF good_keys(1) candidate_loaded, of s good_db 60 9] by (simp add: sample_listing_def)
  then have snap: "lv_snapshot (rc_live s) = latest_snapshot sample_db 1" by (simp add: single_inputs_def good_db_def Let_def)
  have f: "offer_facts_of sample_reader good_db sample_listing (latest_snapshot sample_db 1)
      (tr_canonicalize sample_reader (title_raw sample_listing) (condition_label_raw sample_listing)) ''gpu'' = Inr sample_facts"
    using sample_facts_read by (simp add: facts_read_def offer_facts_of_def source_key_def good_db_def) (simp add: sample_listing_def)
  have "w_category sample_watch = ''gpu''" by (simp add: sample_watch_def)
  then have one: "\<exists>r. shortlist_row_of sample_reader good_db 60 base paused s = Inr r" for base paused
    using s f snap by (simp add: shortlist_row_of_def Let_def)
  have "current_matches good_db 60 9 = [s] \<or> current_matches good_db 60 9 = []" by (simp add: current_matches_def s(1))
  then obtain rows where r: "shortlist sample_reader good_db fdb 60 9 = Inr rows"
  proof
    assume m: "current_matches good_db 60 9 = [s]"
    obtain r where "shortlist_row_of sample_reader good_db 60
        (map (apsnd cadence_baseline_s) (filter (\<lambda>(i, c). i \<in> set (map (\<lambda>s. l_source_site (lr_listing (rc_row s))) [s])) (fr_configs fdb)))
        (budget_paused_sources fdb (map (\<lambda>s. l_source_site (lr_listing (rc_row s))) [s])) s = Inr r" using one by blast
    then have "shortlist sample_reader good_db fdb 60 9 = Inr (sort_key shortlist_key [r])"
      unfolding shortlist_def Let_def m by simp
    then show thesis by (rule that)
  qed (auto simp: shortlist_def Let_def intro: that)
  have "(ev_id good_row, l_id sample_listing) \<in> (\<lambda>r. (sl_evaluation_id r, sl_listing_id r)) ` set rows"
    unfolding conjunct2 [OF shortlist_is_current_matches [OF r good_keys]] using good_live by blast
  then show "\<exists>rows. shortlist sample_reader good_db fdb 60 9 = Inr rows
     \<and> (1, 1) \<in> (\<lambda>r. (sl_evaluation_id r, sl_listing_id r)) ` set rows"
    using r by (simp add: good_row_def moved_row_def sample_listing_def)
qed

end
