(* ===== verification/EligRequirements.thy ===== *)
theory EligRequirements
  imports EligRepair EligSample
begin

text \<open>
  The requirement service (\<open>eligibility/requirements.py\<close>): validation of a requirement spec, and
  \<open>save_requirement\<close>, the single writer of a watch's requirement, which bumps the version a verdict
  is bound to. The declared field constraints of the pydantic models (\<open>gt\<close>, \<open>le\<close>, \<open>max_digits\<close>,
  \<open>decimal_places\<close>, the enumerations) are checks on the values here. \<open>ValidationError\<close> and
  \<open>ValueError\<close> are \<open>Elig_ValueError\<close>.
\<close>

section \<open>Specs\<close>

datatype spec_body = FirstClass requirement | Basic string

record requirement_spec = offer_terms +
  sp_target_family :: "int option"
  sp_target_model :: "int option"
  sp_target_unit_price_usd :: "rat option"
  sp_body :: spec_body

definition spec_category :: "requirement_spec \<Rightarrow> string" where
  "spec_category s =
     (case sp_body s of Basic c \<Rightarrow> c
      | FirstClass (DriveReq r) \<Rightarrow> ''drive'' | FirstClass (GpuReq r) \<Rightarrow> ''gpu''
      | FirstClass (RamReq r) \<Rightarrow> ''ram'' | FirstClass (CpuReq r) \<Rightarrow> ''cpu'')"

definition CONDITIONS :: "string list" where
  "CONDITIONS = [''new'', ''recertified'', ''refurbished'', ''used'', ''open_box'', ''for_parts'', ''unknown'']"

definition MEDIA_TYPES :: "string list" where "MEDIA_TYPES = [''hdd'', ''ssd'', ''unknown'']"

definition RECORDING_TECHS :: "string list" where
  "RECORDING_TECHS = [''cmr'', ''smr_dm'', ''smr_hm'', ''smr_unknown'', ''unknown'']"

definition GPU_CHIP_VENDORS :: "string list" where
  "GPU_CHIP_VENDORS = [''nvidia'', ''amd'', ''intel'', ''other'', ''unknown'']"

definition GPU_INTERFACES :: "string list" where
  "GPU_INTERFACES = [''pcie'', ''sxm'', ''oam'', ''mxm'', ''other'', ''unknown'']"

definition GPU_COOLINGS :: "string list" where "GPU_COOLINGS = [''active'', ''passive'', ''liquid'', ''unknown'']"

definition RAM_GENERATIONS :: "string list" where "RAM_GENERATIONS = [''ddr3'', ''ddr4'', ''ddr5'', ''other'', ''unknown'']"

definition RAM_MODULE_TYPES :: "string list" where
  "RAM_MODULE_TYPES = [''udimm'', ''rdimm'', ''lrdimm'', ''sodimm'', ''other'', ''unknown'']"

definition BASIC_CATEGORIES :: "string list" where "BASIC_CATEGORIES = [''nic'', ''hba'', ''motherboard'', ''server'']"

section \<open>Validation\<close>

definition unique_sorted :: "string list \<Rightarrow> string option \<Rightarrow> elig_error + string list" where
  "unique_sorted values forbidden =
     (case forbidden of
        Some u \<Rightarrow> if u \<in> set values then Inl (Elig_ValueError ''not a requirable value'') else Inr (sort (remdups values))
      | None \<Rightarrow> Inr (sort (remdups values)))"

definition tokens_of :: "string list \<Rightarrow> string list \<Rightarrow> elig_error + string list" where
  "tokens_of values vocabulary =
     (let normalized = map (casefold \<circ> strip) values in
      if \<not> list_all (\<lambda>v. v \<in> set vocabulary) normalized then Inl (Elig_ValueError ''unsupported values'')
      else unique_sorted normalized None)"

text \<open>An enumeration field: each element must be a choice, and \<open>unknown\<close> may not be required.\<close>

definition choices_of :: "string list \<Rightarrow> string list \<Rightarrow> elig_error + string list" where
  "choices_of values choices =
     (if \<not> list_all (\<lambda>v. v \<in> set choices) values then Inl (Elig_ValueError ''not a choice'')
      else unique_sorted values (Some ''unknown''))"

definition sockets_of :: "string list \<Rightarrow> elig_error + string list" where
  "sockets_of values =
     (let keys = map socket_key values in
      if [] \<in> set keys then Inl (Elig_ValueError ''a socket requirement must name a socket'') else unique_sorted keys None)"

definition decimal_field_ok :: "nat \<Rightarrow> nat \<Rightarrow> rat option \<Rightarrow> bool" where
  "decimal_field_ok max_digits places v =
     (case v of None \<Rightarrow> True
      | Some x \<Rightarrow> 0 < x \<and> of_int \<lfloor>x * 10 ^ places\<rfloor> = x * 10 ^ places \<and> x < 10 ^ (max_digits - places))"

definition int_field_ok :: "int \<Rightarrow> int option \<Rightarrow> bool" where
  "int_field_ok maximum v = (case v of None \<Rightarrow> True | Some x \<Rightarrow> 0 < x \<and> x \<le> maximum)"

definition int_positive :: "int option \<Rightarrow> bool" where
  "int_positive v = (case v of None \<Rightarrow> True | Some x \<Rightarrow> 0 < x)"

definition SMALL_INT_MAX :: int where "SMALL_INT_MAX = 32767"

definition INT_MAX :: int where "INT_MAX = 2147483647"

definition field_check :: "bool \<Rightarrow> elig_error + unit" where
  "field_check ok = raise_if (\<not> ok) (Elig_ValueError ''field constraint'')"

definition validate_drive :: "drive_requirement \<Rightarrow> elig_error + drive_requirement" where
  "validate_drive r =
     andThen (field_check (decimal_field_ok 7 3 (dr_min_capacity_tb r))) (\<lambda>_.
     andThen (choices_of (dr_media_types r) MEDIA_TYPES) (\<lambda>media.
     andThen (tokens_of (dr_interfaces r) DRIVE_INTERFACE_TOKENS) (\<lambda>ifaces.
     andThen (tokens_of (dr_form_factors r) DRIVE_FORM_FACTOR_TOKENS) (\<lambda>forms.
     andThen (choices_of (dr_recording_techs r) RECORDING_TECHS) (\<lambda>recs.
       Inr (r\<lparr>dr_media_types := media, dr_interfaces := ifaces, dr_form_factors := forms, dr_recording_techs := recs\<rparr>))))))"

definition validate_gpu :: "gpu_requirement \<Rightarrow> elig_error + gpu_requirement" where
  "validate_gpu r =
     andThen (field_check (int_field_ok SMALL_INT_MAX (gr_min_vram_gb r) \<and> int_field_ok SMALL_INT_MAX (gr_max_tdp_w r))) (\<lambda>_.
     andThen (choices_of (gr_chip_vendors r) GPU_CHIP_VENDORS) (\<lambda>vendors.
     andThen (choices_of (gr_interfaces r) GPU_INTERFACES) (\<lambda>ifaces.
     andThen (choices_of (gr_coolings r) GPU_COOLINGS) (\<lambda>cools.
       Inr (r\<lparr>gr_chip_vendors := vendors, gr_interfaces := ifaces, gr_coolings := cools\<rparr>)))))"

definition validate_ram :: "ram_requirement \<Rightarrow> elig_error + ram_requirement" where
  "validate_ram r =
     andThen (field_check (int_field_ok INT_MAX (rr_min_total_capacity_gb r) \<and> int_field_ok INT_MAX (rr_min_speed_mts r))) (\<lambda>_.
     andThen (choices_of (rr_generations r) RAM_GENERATIONS) (\<lambda>gens.
     andThen (choices_of (rr_module_types r) RAM_MODULE_TYPES) (\<lambda>types.
       Inr (r\<lparr>rr_generations := gens, rr_module_types := types\<rparr>))))"

definition validate_cpu :: "cpu_requirement \<Rightarrow> elig_error + cpu_requirement" where
  "validate_cpu r =
     andThen (field_check (int_field_ok SMALL_INT_MAX (cr_min_cores r) \<and> int_field_ok SMALL_INT_MAX (cr_max_tdp_w r))) (\<lambda>_.
     andThen (sockets_of (cr_sockets r)) (\<lambda>keys. Inr (r\<lparr>cr_sockets := keys\<rparr>)))"

definition validate_body :: "spec_body \<Rightarrow> int option \<Rightarrow> int option \<Rightarrow> elig_error + spec_body" where
  "validate_body body family model =
     (case body of
        FirstClass (DriveReq r) \<Rightarrow> andThen (validate_drive r) (\<lambda>r. Inr (FirstClass (DriveReq r)))
      | FirstClass (GpuReq r) \<Rightarrow> andThen (validate_gpu r) (\<lambda>r. Inr (FirstClass (GpuReq r)))
      | FirstClass (RamReq r) \<Rightarrow> andThen (validate_ram r) (\<lambda>r. Inr (FirstClass (RamReq r)))
      | FirstClass (CpuReq r) \<Rightarrow> andThen (validate_cpu r) (\<lambda>r. Inr (FirstClass (CpuReq r)))
      | Basic c \<Rightarrow>
          andThen (raise_if (c \<notin> set BASIC_CATEGORIES) (Elig_ValueError ''not a basic-watch category'')) (\<lambda>_.
          andThen (raise_if (family = None \<and> model = None) (Elig_ValueError ''a basic-watch watch must name a target'')) (\<lambda>_.
            Inr (Basic c))))"

definition validate_spec :: "requirement_spec \<Rightarrow> elig_error + requirement_spec" where
  "validate_spec s =
     andThen (field_check (int_positive (sp_target_family s) \<and> int_positive (sp_target_model s)
        \<and> decimal_field_ok 12 2 (max_unit_price_usd s) \<and> decimal_field_ok 12 2 (sp_target_unit_price_usd s))) (\<lambda>_.
     andThen (choices_of (allowed_conditions s) CONDITIONS) (\<lambda>conds.
     andThen (raise_if (sp_target_family s \<noteq> None \<and> sp_target_model s \<noteq> None)
               (Elig_ValueError ''a watch targets a family or a model, not both'')) (\<lambda>_.
     andThen (validate_body (sp_body s) (sp_target_family s) (sp_target_model s)) (\<lambda>body.
       Inr (s\<lparr>allowed_conditions := conds, sp_body := body\<rparr>)))))"


section \<open>Saving\<close>

record save_result =
  sr_requirement_version :: int
  sr_changed :: bool
  sr_bumped :: bool

text \<open>\<open>_comparable\<close>: an array field is compared as the sorted list of its elements.\<close>

definition comparable :: "string list \<Rightarrow> string list" where "comparable xs = sort xs"

definition comparable_requirement :: "requirement \<Rightarrow> requirement" where
  "comparable_requirement req =
     (case req of
        DriveReq r \<Rightarrow> DriveReq (r\<lparr>dr_media_types := comparable (dr_media_types r), dr_interfaces := comparable (dr_interfaces r),
            dr_form_factors := comparable (dr_form_factors r), dr_recording_techs := comparable (dr_recording_techs r)\<rparr>)
      | GpuReq r \<Rightarrow> GpuReq (r\<lparr>gr_chip_vendors := comparable (gr_chip_vendors r), gr_interfaces := comparable (gr_interfaces r),
            gr_coolings := comparable (gr_coolings r)\<rparr>)
      | RamReq r \<Rightarrow> RamReq (r\<lparr>rr_generations := comparable (rr_generations r), rr_module_types := comparable (rr_module_types r)\<rparr>)
      | CpuReq r \<Rightarrow> CpuReq (r\<lparr>cr_sockets := comparable (cr_sockets r)\<rparr>))"

text \<open>The hard inputs: the target, the offer fields and the satellite, in comparable form.\<close>

record hard_inputs = offer_terms +
  hi_target_family :: "int option"
  hi_target_model :: "int option"
  hi_satellite :: "requirement option"

definition hard_inputs_of ::
  "'a offer_terms_scheme \<Rightarrow> int option \<Rightarrow> int option \<Rightarrow> requirement option \<Rightarrow> hard_inputs" where
  "hard_inputs_of t family model sat =
     \<lparr>max_unit_price_usd = max_unit_price_usd t, allowed_conditions = comparable (allowed_conditions t),
      require_in_stock = require_in_stock t, allow_international = allow_international t,
      hi_target_family = family, hi_target_model = model, hi_satellite = map_option comparable_requirement sat\<rparr>"

definition resolve_targets :: "'d elig_db_scheme \<Rightarrow> requirement_spec \<Rightarrow> string \<Rightarrow> elig_error + int option \<times> int option" where
  "resolve_targets db s slug =
     andThen (case sp_target_family s of None \<Rightarrow> Inr None
       | Some f \<Rightarrow> (case map_of (family_rows db) f of
           None \<Rightarrow> Inl (Elig_RequirementError ''target family does not exist'')
         | Some c \<Rightarrow> if c \<noteq> slug then Inl (Elig_RequirementError ''target family is in another category'') else Inr (Some f)))
       (\<lambda>family.
     andThen (case sp_target_model s of None \<Rightarrow> Inr None
       | Some m \<Rightarrow> (case map_of (model_rows db) m of
           None \<Rightarrow> Inl (Elig_RequirementError ''target model does not exist'')
         | Some fk \<Rightarrow> (case join_row (family_rows db) fk of
             None \<Rightarrow> Inl (Elig_RequirementError ''target model has no family; category unknown'')
           | Some (f, c) \<Rightarrow> if c \<noteq> slug then Inl (Elig_RequirementError ''target model is in another category'')
                           else Inr (Some m))))
       (\<lambda>model. Inr (family, model)))"

definition put_requirement :: "int \<Rightarrow> requirement option \<Rightarrow> 'd elig_db_scheme \<Rightarrow> 'd elig_db_scheme" where
  "put_requirement w req db =
     (case req of
        None \<Rightarrow> db
      | Some (DriveReq r) \<Rightarrow> db\<lparr>drive_requirement_rows := AList.update w r (drive_requirement_rows db)\<rparr>
      | Some (GpuReq r) \<Rightarrow> db\<lparr>gpu_requirement_rows := AList.update w r (gpu_requirement_rows db)\<rparr>
      | Some (RamReq r) \<Rightarrow> db\<lparr>ram_requirement_rows := AList.update w r (ram_requirement_rows db)\<rparr>
      | Some (CpuReq r) \<Rightarrow> db\<lparr>cpu_requirement_rows := AList.update w r (cpu_requirement_rows db)\<rparr>)"

definition spec_satellite :: "requirement_spec \<Rightarrow> requirement option" where
  "spec_satellite s = (case sp_body s of FirstClass r \<Rightarrow> Some r | Basic c \<Rightarrow> None)"

definition updated_watch :: "watch \<Rightarrow> requirement_spec \<Rightarrow> int option \<Rightarrow> int option \<Rightarrow> bool \<Rightarrow> watch" where
  "updated_watch w s family model bump =
     w\<lparr>target_family := family, target_model := model, max_unit_price_usd := max_unit_price_usd s,
       allowed_conditions := allowed_conditions s, require_in_stock := require_in_stock s,
       allow_international := allow_international s, target_unit_price_usd := sp_target_unit_price_usd s,
       requirement_version := (if bump then requirement_version w + 1 else requirement_version w)\<rparr>"

definition save_requirement ::
  "'d elig_db_scheme \<Rightarrow> int \<Rightarrow> requirement_spec \<Rightarrow> elig_error + save_result \<times> 'd elig_db_scheme" where
  "save_requirement db watch s =
     (case first_such (\<lambda>w. w_id w = watch) (watch_rows db) of
        None \<Rightarrow> Inl Elig_DoesNotExist
      | Some w \<Rightarrow>
          let slug = w_category w in
          andThen (raise_if (spec_category s \<noteq> slug) (Elig_RequirementError ''spec category does not match watch category'')) (\<lambda>_.
          andThen (raise_if (slug \<notin> set requirement_categories \<and> slug \<notin> set BASIC_CATEGORIES)
                     (Elig_RequirementError ''category has no requirement support'')) (\<lambda>_.
          andThen (resolve_targets db s slug) (\<lambda>(family, model).
          let new_hard = hard_inputs_of s family model (spec_satellite s);
              old_hard = hard_inputs_of w (target_family w) (target_model w) (requirement_of db slug watch);
              hard_changed = (new_hard \<noteq> old_hard);
              soft_changed = (sp_target_unit_price_usd s \<noteq> target_unit_price_usd w) in
          if \<not> hard_changed \<and> \<not> soft_changed
          then Inr (\<lparr>sr_requirement_version = requirement_version w, sr_changed = False, sr_bumped = False\<rparr>, db)
          else let w' = updated_watch w s family model hard_changed in
               Inr (\<lparr>sr_requirement_version = requirement_version w', sr_changed = True, sr_bumped = hard_changed\<rparr>,
                    put_requirement watch (spec_satellite s)
                      (db\<lparr>watch_rows := map (\<lambda>v. if w_id v = watch then w' else v) (watch_rows db)\<rparr>))))))"

text \<open>What the evaluator reads of a watch: its hard inputs, from the stored row and satellite.\<close>

definition stored_hard :: "'d elig_db_scheme \<Rightarrow> watch \<Rightarrow> hard_inputs" where
  "stored_hard db w = hard_inputs_of w (target_family w) (target_model w) (requirement_of db (w_category w) (w_id w))"

section \<open>The version follows the hard inputs\<close>

lemma comparable_idem [simp]: "comparable (comparable xs) = comparable xs"
  by (simp add: comparable_def sorted_sort_id)

lemma updated_watch_fields [simp]:
  "requirement_version (updated_watch w s f m b) = requirement_version w + (if b then 1 else 0)"
  "w_id (updated_watch w s f m b) = w_id w" "w_category (updated_watch w s f m b) = w_category w"
  "target_family (updated_watch w s f m b) = f" "target_model (updated_watch w s f m b) = m"
  "target_unit_price_usd (updated_watch w s f m b) = sp_target_unit_price_usd s"
  "hard_inputs_of (updated_watch w s f m b) f' m' q = hard_inputs_of s f' m' q"
  by (simp_all add: updated_watch_def hard_inputs_of_def)

lemma put_requirement_fields [simp]:
  "watch_rows (put_requirement w q db) = watch_rows db" "family_rows (put_requirement w q db) = family_rows db"
  "model_rows (put_requirement w q db) = model_rows db"
  by (simp_all add: put_requirement_def split: option.split requirement.split)

lemma requirement_of_put:
  assumes "\<And>b. sp_body s = Basic b \<Longrightarrow> b \<notin> set requirement_categories"
  shows "requirement_of (put_requirement w (spec_satellite s) db) (spec_category s) w = spec_satellite s"
  using assms
  by (auto simp: requirement_of_def put_requirement_def spec_satellite_def spec_category_def requirement_categories_def
      update_conv' split: spec_body.splits requirement.splits)

lemma saved_watch:
  assumes "save_requirement db watch s = Inr (r, db')"
  obtains w family model where "first_such (\<lambda>w. w_id w = watch) (watch_rows db) = Some w" "spec_category s = w_category w"
    "w_category w \<in> set requirement_categories \<union> set BASIC_CATEGORIES" "resolve_targets db s (w_category w) = Inr (family, model)"
    "r = (let h = hard_inputs_of s family model (spec_satellite s) \<noteq> stored_hard db w;
              c = h \<or> sp_target_unit_price_usd s \<noteq> target_unit_price_usd w
          in \<lparr>sr_requirement_version = requirement_version w + (if h then 1 else 0), sr_changed = c, sr_bumped = h\<rparr>)"
    "db' = (if sr_changed r then put_requirement watch (spec_satellite s) (db\<lparr>watch_rows :=
              map (\<lambda>v. if w_id v = watch then updated_watch w s family model
                     (hard_inputs_of s family model (spec_satellite s) \<noteq> stored_hard db w) else v) (watch_rows db)\<rparr>) else db)"
proof -
  obtain w where w: "first_such (\<lambda>w. w_id w = watch) (watch_rows db) = Some w"
    using assms by (auto simp: save_requirement_def split: option.splits)
  then have id: "w_id w = watch" by (auto dest: first_such_Some)
  obtain family model where t: "resolve_targets db s (w_category w) = Inr (family, model)"
    and c: "spec_category s = w_category w" "w_category w \<in> set requirement_categories \<union> set BASIC_CATEGORIES"
    using assms w by (auto simp: save_requirement_def Let_def elim!: andThen_InrE)
  have sh: "hard_inputs_of w (target_family w) (target_model w) (requirement_of db (w_category w) watch) = stored_hard db w"
    using id by (simp add: stored_hard_def)
  show thesis
    by (rule that [OF w c t]) (use assms w c t in \<open>auto simp: save_requirement_def sh Let_def split: if_splits\<close>)
qed


lemma validated_basic:
  assumes "validate_spec s0 = Inr s" and "sp_body s = Basic b"
  shows "b \<notin> set requirement_categories"
  using assms
  by (auto simp: validate_spec_def validate_body_def BASIC_CATEGORIES_def requirement_categories_def elim!: andThen_InrE
      split: spec_body.splits requirement.splits)

lemma first_such_update:
  assumes "first_such (\<lambda>w. w_id w = i) ws = Some w" and "w_id w' = i"
  shows "first_such (\<lambda>w. w_id w = i) (map (\<lambda>v. if w_id v = i then w' else v) ws) = Some w'"
  using assms by (induction ws) (auto split: if_splits)

lemma resolve_targets_cong:
  assumes "family_rows db' = family_rows db" and "model_rows db' = model_rows db"
  shows "resolve_targets db' s c = resolve_targets db s c"
  unfolding resolve_targets_def assms ..

text \<open>The watch a save leaves, and its hard inputs: those of the spec.\<close>

lemma saved_state:
  assumes s: "save_requirement db watch s = Inr (r, db')" and v: "validate_spec s0 = Inr s"
    and w: "first_such (\<lambda>w. w_id w = watch) (watch_rows db) = Some w"
  obtains w' family model where "first_such (\<lambda>w. w_id w = watch) (watch_rows db') = Some w'" "w_id w' = watch"
    "w_category w' = w_category w" "spec_category s = w_category w"
    "w_category w \<in> set requirement_categories \<union> set BASIC_CATEGORIES"
    "resolve_targets db' s (w_category w) = Inr (family, model)"
    "stored_hard db' w' = hard_inputs_of s family model (spec_satellite s)"
    "target_unit_price_usd w' = sp_target_unit_price_usd s"
    "sr_bumped r \<longleftrightarrow> stored_hard db' w' \<noteq> stored_hard db w"
    "requirement_version w' = sr_requirement_version r" "sr_requirement_version r = requirement_version w + (if sr_bumped r then 1 else 0)"
proof -
  obtain w1 family model where w1: "first_such (\<lambda>w. w_id w = watch) (watch_rows db) = Some w1"
    and c1: "spec_category s = w_category w1" "w_category w1 \<in> set requirement_categories \<union> set BASIC_CATEGORIES"
    and t1: "resolve_targets db s (w_category w1) = Inr (family, model)"
    and r1: "r = (let h = hard_inputs_of s family model (spec_satellite s) \<noteq> stored_hard db w1;
              c = h \<or> sp_target_unit_price_usd s \<noteq> target_unit_price_usd w1
          in \<lparr>sr_requirement_version = requirement_version w1 + (if h then 1 else 0), sr_changed = c, sr_bumped = h\<rparr>)"
    and db1: "db' = (if sr_changed r then put_requirement watch (spec_satellite s) (db\<lparr>watch_rows :=
              map (\<lambda>v. if w_id v = watch then updated_watch w1 s family model
                     (hard_inputs_of s family model (spec_satellite s) \<noteq> stored_hard db w1) else v) (watch_rows db)\<rparr>) else db)"
    by (rule saved_watch [OF s]) (rule that, assumption+)
  have "w1 = w" using w w1 by simp
  note c = c1 [unfolded this] and t = t1 [unfolded this] and r = r1 [unfolded this] and db0 = db1 [unfolded this]
  have id: "w_id w = watch" using w by (auto dest: first_such_Some)
  have bumped: "sr_bumped r \<longleftrightarrow> hard_inputs_of s family model (spec_satellite s) \<noteq> stored_hard db w"
    and version: "sr_requirement_version r = requirement_version w + (if sr_bumped r then 1 else 0)"
    and changed: "sr_changed r \<longleftrightarrow> sr_bumped r \<or> sp_target_unit_price_usd s \<noteq> target_unit_price_usd w"
    by (simp_all add: r Let_def)
  have db': "db' = (if sr_changed r then put_requirement watch (spec_satellite s) (db\<lparr>watch_rows :=
              map (\<lambda>v. if w_id v = watch then updated_watch w s family model (sr_bumped r) else v) (watch_rows db)\<rparr>) else db)"
    using db0 unfolding bumped .
  show thesis
  proof (cases "sr_changed r")
    case False
    have nb: "\<not> sr_bumped r" and price: "target_unit_price_usd w = sp_target_unit_price_usd s" and same: "db' = db"
      using False changed db' by auto
    have heq: "stored_hard db w = hard_inputs_of s family model (spec_satellite s)" using nb unfolding bumped by simp
    show thesis
      by (rule that [of w family model]) (use c(2) in \<open>simp_all add: w id c(1) t nb price same version heq\<close>)
  next
    case True
    let ?w = "updated_watch w s family model (sr_bumped r)"
    have put: "requirement_of (put_requirement watch (spec_satellite s) d) (w_category w) watch = spec_satellite s" for d
      unfolding c(1) [symmetric] by (rule requirement_of_put) (rule validated_basic [OF v])
    obtain w' where w': "w' = ?w" by simp
    have hard: "stored_hard db' w' = hard_inputs_of s family model (spec_satellite s)"
      using True db' id by (simp add: stored_hard_def put w')
    have fields: "w_id w' = watch" "w_category w' = w_category w" "target_unit_price_usd w' = sp_target_unit_price_usd s"
      "requirement_version w' = sr_requirement_version r" by (simp_all add: w' id version)
    have targets: "resolve_targets db' s (w_category w) = Inr (family, model)"
      using resolve_targets_cong [of db' db s "w_category w"] t True db' by simp
    have first: "first_such (\<lambda>w. w_id w = watch) (watch_rows db') = Some w'"
      unfolding w' using True db' first_such_update [OF w, of "updated_watch w s family model (sr_bumped r)"] id by simp
    have "sr_bumped r \<longleftrightarrow> stored_hard db' w' \<noteq> stored_hard db w" by (simp only: bumped hard)
    then show thesis by (rule that [OF first fields(1,2) c(1) c(2) targets hard fields(3) _ fields(4) version])
  qed
qed

lemma resolve_targets_named:
  assumes "resolve_targets db s slug = Inr (family, model)"
  shows "family = sp_target_family s" "model = sp_target_model s"
    "pred_option (\<lambda>f. map_of (family_rows db) f = Some slug) (sp_target_family s)"
  using assms by (auto simp: resolve_targets_def andThen_eq_Inr split: option.split_asm if_split_asm prod.split_asm)

text \<open>C36: The version of a watch follows its hard inputs. After a save of a validated spec the watch's stored
  requirement is the spec: its target (a family then exists and is of the watch's category), its offer fields and its
  satellite, arrays as sets in order. The version is one higher if that changes any hard input the evaluator
  reads (target, offer fields, satellite, whatever the order of arrays) and the same otherwise, and
  after a bump no verdict stamped with the old version or an earlier one is current.\<close>

theorem version_follows_hard_inputs:
  assumes s: "save_requirement db watch s = Inr (r, db')" and v: "validate_spec s0 = Inr s"
    and w: "first_such (\<lambda>w. w_id w = watch) (watch_rows db) = Some w"
  shows "\<exists>w'. first_such (\<lambda>w. w_id w = watch) (watch_rows db') = Some w'
     \<and> stored_hard db' w' = hard_inputs_of s (sp_target_family s) (sp_target_model s) (spec_satellite s)
     \<and> target_family w' = sp_target_family s \<and> target_model w' = sp_target_model s
     \<and> pred_option (\<lambda>f. map_of (family_rows db') f = Some (w_category w)) (sp_target_family s)
     \<and> requirement_version w' = (if stored_hard db' w' \<noteq> stored_hard db w then requirement_version w + 1 else requirement_version w)
     \<and> (stored_hard db' w' \<noteq> stored_hard db w \<longrightarrow>
          (\<forall>ev. ev_requirement_version ev \<le> requirement_version w \<longrightarrow> is_current db' w' ev \<noteq> Inr True))"
proof -
  obtain w' family model where w': "first_such (\<lambda>w. w_id w = watch) (watch_rows db') = Some w'"
    and t: "resolve_targets db' s (w_category w) = Inr (family, model)"
    and h: "stored_hard db' w' = hard_inputs_of s family model (spec_satellite s)"
    and b: "sr_bumped r \<longleftrightarrow> stored_hard db' w' \<noteq> stored_hard db w"
    and ver: "requirement_version w' = sr_requirement_version r"
      "sr_requirement_version r = requirement_version w + (if sr_bumped r then 1 else 0)"
    by (rule saved_state [OF s v w]) (rule that, assumption+)
  have "is_current db' w' ev \<noteq> Inr True"
    if "stored_hard db' w' \<noteq> stored_hard db w" "ev_requirement_version ev \<le> requirement_version w" for ev
    using that b ver by (auto simp: is_current_def live_binding_def stored_binding_def Let_def andThen_eq_Inr)
  moreover have "stored_hard db' w' = hard_inputs_of s (sp_target_family s) (sp_target_model s) (spec_satellite s)"
    using h resolve_targets_named [OF t] by simp
  moreover from this have "target_family w' = sp_target_family s" "target_model w' = sp_target_model s"
    by (simp_all add: stored_hard_def hard_inputs_of_def)
  ultimately show ?thesis using w' b ver resolve_targets_named [OF t] by (intro exI [of _ w'] conjI) simp_all
qed

text \<open>Saving the same spec again is a no-op: it writes nothing and keeps the version, so an unchanged
  form never makes stored verdicts pending.\<close>

theorem resave_is_noop:
  assumes s: "save_requirement db watch s = Inr (r, db')" and v: "validate_spec s0 = Inr s"
  shows "save_requirement db' watch s
     = Inr (\<lparr>sr_requirement_version = sr_requirement_version r, sr_changed = False, sr_bumped = False\<rparr>, db')"
proof -
  obtain w where w: "first_such (\<lambda>w. w_id w = watch) (watch_rows db) = Some w" by (rule saved_watch [OF s])
  obtain w' family model where w': "first_such (\<lambda>w. w_id w = watch) (watch_rows db') = Some w'" "w_id w' = watch"
      "w_category w' = w_category w" "spec_category s = w_category w"
      "w_category w \<in> set requirement_categories \<union> set BASIC_CATEGORIES"
      "resolve_targets db' s (w_category w) = Inr (family, model)"
      "stored_hard db' w' = hard_inputs_of s family model (spec_satellite s)"
      "target_unit_price_usd w' = sp_target_unit_price_usd s" "requirement_version w' = sr_requirement_version r"
    by (rule saved_state [OF s v w]) (rule that, assumption+)
  then show ?thesis by (auto simp: save_requirement_def stored_hard_def Let_def)
qed

section \<open>A save on the sample\<close>

text \<open>The sample watch with a higher price cap and a repeated vendor.\<close>

definition sample_spec :: requirement_spec where
  "sample_spec = \<lparr>max_unit_price_usd = Some 1200, allowed_conditions = [], require_in_stock = True, allow_international = False,
     sp_target_family = Some 7, sp_target_model = None, sp_target_unit_price_usd = None,
     sp_body = FirstClass (GpuReq (sample_requirement\<lparr>gr_chip_vendors := [''nvidia'', ''nvidia'']\<rparr>))\<rparr>"

definition sample_valid_spec :: requirement_spec where
  "sample_valid_spec = sample_spec\<lparr>sp_body := FirstClass (GpuReq sample_requirement)\<rparr>"

lemma sample_spec_valid: "validate_spec sample_spec = Inr sample_valid_spec"
  by (simp add: sample_spec_def sample_valid_spec_def sample_requirement_def validate_spec_def validate_body_def validate_gpu_def
     field_check_def choices_of_def unique_sorted_def int_positive_def int_field_ok_def decimal_field_ok_def
     GPU_CHIP_VENDORS_def SMALL_INT_MAX_def)

lemma sample_db_watch: "first_such (\<lambda>w. w_id w = 9) (watch_rows sample_db) = Some sample_watch"
  by (simp add: sample_db_def catalog_db.defs elig_db.defs sample_watch_def)

lemma sample_save:
  "\<exists>db'. save_requirement sample_db 9 sample_valid_spec
     = Inr (\<lparr>sr_requirement_version = 3, sr_changed = True, sr_bumped = True\<rparr>, db')"
proof -
  have c: "w_category sample_watch = ''gpu''" "spec_category sample_valid_spec = ''gpu''"
    "requirement_version sample_watch = 2"
    by (simp_all add: sample_watch_def spec_category_def sample_valid_spec_def)
  have t: "resolve_targets sample_db sample_valid_spec ''gpu'' = Inr (Some 7, None)"
    by (simp add: resolve_targets_def sample_valid_spec_def sample_spec_def sample_db_def catalog_db.defs elig_db.defs
        sample_catalog_def)
  have h: "hard_inputs_of sample_valid_spec f m q \<noteq> hard_inputs_of sample_watch f' m' q'" for f m q f' m' q'
    by (simp add: hard_inputs_of_def sample_valid_spec_def sample_spec_def sample_watch_def)
  show ?thesis by (simp add: save_requirement_def sample_db_watch c t h requirement_categories_def)
qed

theorem version_follows_hard_inputs_witness:
  "\<exists>db' w'. save_requirement sample_db 9 sample_valid_spec
        = Inr (\<lparr>sr_requirement_version = 3, sr_changed = True, sr_bumped = True\<rparr>, db')
     \<and> first_such (\<lambda>w. w_id w = 9) (watch_rows db') = Some w'
     \<and> requirement_version w' = (if stored_hard db' w' \<noteq> stored_hard sample_db sample_watch then 3 else 2)"
proof -
  obtain db' where s: "save_requirement sample_db 9 sample_valid_spec
     = Inr (\<lparr>sr_requirement_version = 3, sr_changed = True, sr_bumped = True\<rparr>, db')" using sample_save by blast
  have v: "requirement_version sample_watch = 2" by (simp add: sample_watch_def)
  obtain w' where w': "first_such (\<lambda>w. w_id w = 9) (watch_rows db') = Some w'"
    "requirement_version w' = (if stored_hard db' w' \<noteq> stored_hard sample_db sample_watch
       then requirement_version sample_watch + 1 else requirement_version sample_watch)"
    using version_follows_hard_inputs [OF s sample_spec_valid sample_db_watch] by (elim exE conjE) (rule that, assumption+)
  show ?thesis by (rule exI [of _ db'], rule exI [of _ w']) (simp add: s w' v)
qed

theorem resave_is_noop_witness:
  "\<exists>db'. save_requirement sample_db 9 sample_valid_spec
        = Inr (\<lparr>sr_requirement_version = 3, sr_changed = True, sr_bumped = True\<rparr>, db')
     \<and> save_requirement db' 9 sample_valid_spec
        = Inr (\<lparr>sr_requirement_version = 3, sr_changed = False, sr_bumped = False\<rparr>, db')"
proof -
  obtain db' where s: "save_requirement sample_db 9 sample_valid_spec
     = Inr (\<lparr>sr_requirement_version = 3, sr_changed = True, sr_bumped = True\<rparr>, db')" using sample_save by blast
  show ?thesis by (rule exI [of _ db']) (simp add: s resave_is_noop [OF s sample_spec_valid])
qed

end
