(* ===== verification/Ladder.thy ===== *)
theory Ladder
  imports EligProduct
begin

text \<open>
  Rungs 0 to 2 of the match ladder (\<open>matching/ladder.py\<close>) and the hard-attribute vetoes of the categories
  (\<open>matching/rules/\<close>): what a listing's title states, what the catalog knows of a target, and the verdict.
  A float literal stands for its decimal; the one float computation, the capacity tolerance, is rounded.
\<close>

section \<open>What a title states\<close>

text \<open>
  The fields of \<open>ExtractedAttributes\<close>, \<open>MpnCandidate\<close> and \<open>DecodeResult\<close> that the ladder or the resolver reads. Link speed,
  spindle speed, cache, recording technology and warranty months of a title, the raw text and confidence of a candidate and
  the generation of a decode are read by neither.
\<close>

record ram_title = ram_attributes +
  rt_ranks :: "int attribute option"

record cpu_title = cpu_attributes +
  ct_sample :: "string attribute option"
  ct_bundle :: "string attribute option"
  ct_multi_model :: "string attribute option"
  ct_model :: "string attribute option"

datatype category_title = NoTitle | GpuTitle gpu_attributes | RamTitle ram_title | CpuTitle cpu_title

record title_attributes =
  ta_capacity_bytes :: "int attribute option"
  ta_interface :: "string attribute option"
  ta_form_factor :: "string attribute option"
  ta_sector_format :: "string attribute option"
  ta_security :: "string attribute option"
  ta_condition :: "string attribute option"
  ta_condition_conflict :: "string list attribute option"
  ta_denied_conditions :: "string list attribute option"
  ta_denied_recert_channels :: "string list attribute option"
  ta_recert_channel :: "string attribute option"
  ta_packaging :: "string attribute option"
  ta_warranty_channel :: "string attribute option"
  ta_quantity :: "int attribute option"
  ta_brand :: "string attribute option"
  ta_category :: category_title
  ta_family_mentions :: "(string \<times> string) list attribute option"

definition no_title :: title_attributes where
  "no_title = \<lparr>ta_capacity_bytes = None, ta_interface = None, ta_form_factor = None, ta_sector_format = None, ta_security = None,
     ta_condition = None, ta_condition_conflict = None, ta_denied_conditions = None, ta_denied_recert_channels = None,
     ta_recert_channel = None, ta_packaging = None, ta_warranty_channel = None, ta_quantity = None, ta_brand = None,
     ta_category = NoTitle, ta_family_mentions = None\<rparr>"

datatype token_kind = MANUFACTURER_MPN | OEM_PN | HOUSE_SKU | UNKNOWN_CODE

record mpn_candidate =
  mc_normalized :: string
  mc_token :: token_kind
  mc_vendor_hint :: string
  mc_structured :: bool
  mc_title_kind :: "token_kind option"
  mc_review_only :: bool

datatype provenance = VENDOR_OFFICIAL | CORROBORATED_COMMUNITY | INFERRED

record decode_result =
  dr_vendor :: string
  dr_family_name :: "string option"
  dr_capacity_bytes :: "int option"
  dr_provenance :: provenance
  dr_rule :: string

section \<open>What the catalog knows\<close>

record gpu_hard =
  gh_chip_vendor :: "string option"
  gh_vram_gb :: "int option"
  gh_interface :: "string option"
  gh_cooling :: "string option"

record ram_hard =
  rh_generation :: "string option"
  rh_module_type :: "string option"
  rh_ecc :: "bool option"
  rh_module_capacity_gb :: "int option"
  rh_speed_mts :: "int option"
  rh_ranks :: "int option"

record cpu_hard =
  ch_socket :: "string option"
  ch_cores :: "int option"
  ch_model :: "string option"

datatype category_hard = NoHard | GpuHard gpu_hard | RamHard ram_hard | CpuHard cpu_hard

record hard_attrs =
  ha_capacity_bytes :: "int option"
  ha_interface :: "string option"
  ha_form_factor :: "string option"
  ha_sector_format :: "string option"
  ha_security :: "string option"
  ha_category :: category_hard
  ha_family :: "(string \<times> string) option"

definition no_hard :: hard_attrs where
  "no_hard = \<lparr>ha_capacity_bytes = None, ha_interface = None, ha_form_factor = None, ha_sector_format = None,
     ha_security = None, ha_category = NoHard, ha_family = None\<rparr>"

record target_ref =
  tg_grain :: grain
  tg_family :: "int option"
  tg_model :: "int option"
  tg_variant :: "int option"
  tg_family_key :: "(string \<times> string) option"
  tg_category :: "string option"

definition family_target :: "int option \<Rightarrow> (string \<times> string) option \<Rightarrow> target_ref" where
  "family_target i key = \<lparr>tg_grain = GRAIN_FAMILY, tg_family = i, tg_model = None, tg_variant = None, tg_family_key = key,
     tg_category = None\<rparr>"

record alias_hit =
  ah_target :: target_ref
  ah_source_kind :: string
  ah_alias_type :: string
  ah_brand :: "string option"
  ah_hard :: hard_attrs
  ah_vendor :: string
  ah_structured :: bool
  ah_normalized :: string
  ah_review_only :: bool

record prior_resolution =
  pn_target :: target_ref
  pn_confidence :: rat
  pn_hard :: hard_attrs

section \<open>Verdicts\<close>

datatype outcome_kind = ACCEPT | REVIEW | NO_HIT

datatype resolution_method = SOURCE_ALIAS | EXACT_ALIAS | MPN_DECODE | ATTRIBUTE_MATCH | MANUAL

text \<open>
  Why a verdict is a review: the reason keys of \<open>ladder.REVIEW_REASON_KEYS\<close> with their values, then those of the
  gates of the resolver. \<open>DecoderVeto\<close> is the capacity veto of rung 2 with the decoder's capacity.
\<close>

datatype review_reason = Vetoed "string list" | BrandContradictsAlias "string option" "string list" | NoBrandEvidence
  | ConflictingTargets nat | BrandContradictsDecode "string option" string | FamilyContradictsDecode "string list" string
  | DecoderVeto int | ConflictingAliasModels "string list" | PriorModelNotNamed int "int list" "string list"
  | ReviewOnlyConflict "string list" "string list" | Lot int string | MultipleMpns "string list"
  | CrossCategory string | PolicyMiss "string option" "grain option" "resolution_method option" | AutoAcceptDisabled
  | FamilyNotRatified "(string \<times> string) option" | OfferConditionConflict "string list"
  | VariantContradicted "(string \<times> string) list"

record ladder_evidence =
  le_hypothesis :: string
  le_vendor_hint :: "string option"
  le_reasons :: "review_reason list"
  le_oem_fanout :: "nat option"
  le_provisional :: "(provenance \<times> string) option"

record ladder_verdict =
  lv_outcome :: outcome_kind
  lv_grain :: grain
  lv_rung :: "nat option"
  lv_method :: "resolution_method option"
  lv_target :: "target_ref option"
  lv_confidence :: "rat option"
  lv_evidence :: ladder_evidence
  lv_winning :: "alias_hit option"

definition review_at :: "nat option \<Rightarrow> ladder_evidence \<Rightarrow> review_reason list \<Rightarrow> ladder_verdict" where
  "review_at rung e reasons = \<lparr>lv_outcome = REVIEW, lv_grain = GRAIN_NONE, lv_rung = rung, lv_method = None, lv_target = None,
     lv_confidence = None, lv_evidence = e\<lparr>le_reasons := le_reasons e @ reasons\<rparr>, lv_winning = None\<rparr>"

definition accept_at ::
  "nat \<Rightarrow> resolution_method \<Rightarrow> target_ref \<Rightarrow> rat \<Rightarrow> ladder_evidence \<Rightarrow> alias_hit option \<Rightarrow> ladder_verdict" where
  "accept_at rung how target conf e hit = \<lparr>lv_outcome = ACCEPT, lv_grain = tg_grain target, lv_rung = Some rung,
     lv_method = Some how, lv_target = Some target, lv_confidence = Some conf, lv_evidence = e, lv_winning = hit\<rparr>"

section \<open>Constants\<close>

definition confidence_by_source_kind :: "string \<Rightarrow> rat" where
  "confidence_by_source_kind k =
     (if k = ''catalog_authoritative'' then 98 / 100 else if k = ''manual'' then 95 / 100
      else if k = ''listing_derived'' then 85 / 100 else 1 / 2)"

definition confidence_by_provenance :: "provenance \<Rightarrow> rat" where
  "confidence_by_provenance p =
     (case p of VENDOR_OFFICIAL \<Rightarrow> 92 / 100 | CORROBORATED_COMMUNITY \<Rightarrow> 85 / 100 | INFERRED \<Rightarrow> 75 / 100)"

definition OEM_FAMILY_FANOUT_CONFIDENCE :: rat where "OEM_FAMILY_FANOUT_CONFIDENCE = 8 / 10"

definition LOT_MIN_CONFIDENCE :: rat where "LOT_MIN_CONFIDENCE = 9 / 10"

definition BRAND_EQUIV :: "string list" where "BRAND_EQUIV = [''western_digital'', ''hgst'', ''sandisk'']"

text \<open>\<open>abs(a - b) > CAPACITY_TOLERANCE * max(a, b)\<close>: an integer against a float product.\<close>

definition capacities_differ :: "int \<Rightarrow> int \<Rightarrow> bool" where
  "capacities_differ a b \<longleftrightarrow> fround (fround (1 / 100) * fround (of_int (max a b))) < of_int \<bar>a - b\<bar>"

section \<open>Brands and families\<close>

definition brands_consistent :: "string option \<Rightarrow> string option \<Rightarrow> bool" where
  "brands_consistent a b =
     (case (a, b) of
        (Some x, Some y) \<Rightarrow> x = [] \<or> y = [] \<or> x = y \<or> x \<in> set BRAND_EQUIV \<and> y \<in> set BRAND_EQUIV
      | _ \<Rightarrow> True)"

definition family_compatible :: "string \<Rightarrow> string \<Rightarrow> bool" where
  "family_compatible f g \<longleftrightarrow> f = g \<or> starts_with g (f @ '' '')"

definition families_compatible :: "string \<times> string \<Rightarrow> string \<times> string \<Rightarrow> bool" where
  "families_compatible a b \<longleftrightarrow> brands_consistent (Some (fst a)) (Some (fst b))
     \<and> (family_compatible (snd a) (snd b) \<or> family_compatible (snd b) (snd a))"

definition family_conflicts :: "title_attributes \<Rightarrow> string \<Rightarrow> string \<Rightarrow> string list" where
  "family_conflicts x brand family =
     (case ta_family_mentions x of
        None \<Rightarrow> []
      | Some ms \<Rightarrow> if brand = [] \<or> family = [] then []
          else sort (map snd (filter (\<lambda>(b, f). brands_consistent (Some b) (Some brand) \<and> \<not> family_compatible f family) (at_value ms))))"

section \<open>Vetoes\<close>

text \<open>Both sides known and different.\<close>

definition differs :: "'v attribute option \<Rightarrow> 'v option \<Rightarrow> bool" where
  "differs a c = (case (a, c) of (Some x, Some y) \<Rightarrow> at_value x \<noteq> y | _ \<Rightarrow> False)"

definition named_where :: "(string \<times> bool) list \<Rightarrow> string list" where
  "named_where fs = map fst (filter snd fs)"

definition contradictions :: "title_attributes \<Rightarrow> hard_attrs \<Rightarrow> string list" where
  "contradictions x c = named_where
     [(''capacity'', case (ta_capacity_bytes x, ha_capacity_bytes c) of (Some a, Some b) \<Rightarrow> capacities_differ (at_value a) b | _ \<Rightarrow> False),
      (''interface'', differs (ta_interface x) (ha_interface c)),
      (''form_factor'', differs (ta_form_factor x) (ha_form_factor c)),
      (''sector_format'', differs (ta_sector_format x) (ha_sector_format c)),
      (''security'', differs (ta_security x) (ha_security c)),
      (''family'', case ha_family c of None \<Rightarrow> False | Some (b, f) \<Rightarrow> family_conflicts x b f \<noteq> [])]"

definition gpu_veto :: "title_attributes \<Rightarrow> hard_attrs \<Rightarrow> string list" where
  "gpu_veto x c =
     (case (ta_category x, ha_category c) of
        (GpuTitle a, GpuHard h) \<Rightarrow> named_where
          [(''chip_vendor'', differs (ga_chip_vendor a) (gh_chip_vendor h)), (''vram_gb'', differs (ga_vram_gb a) (gh_vram_gb h)),
           (''interface'', differs (ga_interface a) (gh_interface h)), (''cooling'', differs (ga_cooling a) (gh_cooling h))]
      | _ \<Rightarrow> [])"

definition ram_veto :: "title_attributes \<Rightarrow> hard_attrs \<Rightarrow> string list" where
  "ram_veto x c =
     (case (ta_category x, ha_category c) of
        (RamTitle a, RamHard h) \<Rightarrow> named_where
          [(''generation'', differs (ra_generation a) (rh_generation h)), (''module_type'', differs (ra_module_type a) (rh_module_type h)),
           (''ecc'', differs (ra_ecc a) (rh_ecc h)),
           (''module_capacity_gb'', differs (ra_module_capacity_gb a) (rh_module_capacity_gb h)),
           (''speed_mts'', differs (ra_speed_mts a) (rh_speed_mts h)), (''ranks'', differs (rt_ranks a) (rh_ranks h))]
      | _ \<Rightarrow> [])"

definition cpu_veto :: "title_attributes \<Rightarrow> hard_attrs \<Rightarrow> string list" where
  "cpu_veto x c =
     (case ta_category x of
        CpuTitle a \<Rightarrow>
          named_where [(''sample'', ct_sample a \<noteq> None), (''bundle'', ct_bundle a \<noteq> None), (''multi_model'', ct_multi_model a \<noteq> None)]
          @ (case ha_category c of
               CpuHard h \<Rightarrow> named_where [(''socket'', differs (ca_socket a) (ch_socket h)), (''cores'', differs (ca_cores a) (ch_cores h)),
                 (''model'', differs (ct_model a) (ch_model h))]
             | _ \<Rightarrow> [])
      | _ \<Rightarrow> [])"

definition basic_veto :: "title_attributes \<Rightarrow> hard_attrs \<Rightarrow> string list" where "basic_veto x c = []"

type_synonym veto = "title_attributes \<Rightarrow> hard_attrs \<Rightarrow> string list"

section \<open>The listing's identifiers\<close>

text \<open>The values of a Python set, sorted.\<close>

definition sorted_set :: "'a::linorder list \<Rightarrow> 'a list" where "sorted_set xs = sort (remdups xs)"

definition hypothesis_of :: "mpn_candidate list \<Rightarrow> string" where
  "hypothesis_of cs =
     (case first_such (\<lambda>c. mc_token c = MANUFACTURER_MPN) cs of
        Some c \<Rightarrow> mc_normalized c
      | None \<Rightarrow> (case cs of [] \<Rightarrow> [] | c # _ \<Rightarrow> mc_normalized c))"

definition title_mpn :: "mpn_candidate \<Rightarrow> bool" where
  "title_mpn c \<longleftrightarrow> (if mc_structured c then mc_title_kind c = Some MANUFACTURER_MPN else mc_token c = MANUFACTURER_MPN)"

definition distinct_mpns :: "mpn_candidate list \<Rightarrow> alias_hit list \<Rightarrow> string list" where
  "distinct_mpns cs hits =
     (let mpns = sorted_set (map mc_normalized (filter title_mpn cs));
          models = remdups (map (tg_model \<circ> ah_target) (filter (\<lambda>h. ah_normalized h \<in> set mpns) hits)) in
      if length mpns < 2 then []
      else if (\<forall>m \<in> set mpns. \<exists>h \<in> set hits. ah_normalized h = m) \<and> length models = 1 \<and> None \<notin> set models then []
      else mpns)"

definition naming_hits :: "alias_hit list \<Rightarrow> alias_hit list" where
  "naming_hits hits = filter (\<lambda>h. tg_model (ah_target h) \<noteq> None) hits"

definition models_named :: "alias_hit list \<Rightarrow> string \<Rightarrow> int list" where
  "models_named hits i = List.map_filter (\<lambda>h. if ah_normalized h = i then tg_model (ah_target h) else None) hits"

definition conflicting_alias_models :: "alias_hit list \<Rightarrow> string list" where
  "conflicting_alias_models hits =
     (let idents = sorted_set (map ah_normalized (naming_hits hits)) in
      case idents of
        i # j # rest \<Rightarrow>
          if \<exists>m \<in> set (models_named hits i). \<forall>k \<in> set (j # rest). m \<in> set (models_named hits k) then [] else idents
      | _ \<Rightarrow> [])"

definition identity_identifiers ::
  "mpn_candidate list \<Rightarrow> alias_hit list \<Rightarrow> (string \<Rightarrow> decode_result option) \<Rightarrow> string list" where
  "identity_identifiers cs hits decode = sorted_set (map ah_normalized hits
     @ map mc_normalized (filter (\<lambda>c. mc_token c = MANUFACTURER_MPN \<or> mc_title_kind c = Some MANUFACTURER_MPN
         \<or> mc_token c \<noteq> OEM_PN \<and> decode (mc_normalized c) \<noteq> None) cs))"

section \<open>What demotes an accept\<close>

definition review_only_fields :: "target_ref \<Rightarrow> hard_attrs \<Rightarrow> alias_hit \<Rightarrow> string list" where
  "review_only_fields target attrs h =
     (if \<not> ah_review_only h \<or> tg_model (ah_target h) = None then []
      else if tg_model target \<noteq> None \<and> tg_model (ah_target h) = tg_model target then []
      else named_where
        [(''capacity'', case (ha_capacity_bytes (ah_hard h), ha_capacity_bytes attrs) of
             (Some a, Some b) \<Rightarrow> capacities_differ a b | _ \<Rightarrow> False),
         (''family'', case (ha_family (ah_hard h), ha_family attrs) of
             (Some a, Some b) \<Rightarrow> \<not> families_compatible a b | _ \<Rightarrow> False)])"

definition review_only_alias_conflicts :: "target_ref \<Rightarrow> hard_attrs \<Rightarrow> alias_hit list \<Rightarrow> review_reason list" where
  "review_only_alias_conflicts target attrs hits =
     (let against = filter (\<lambda>h. review_only_fields target attrs h \<noteq> []) hits in
      if against = [] then []
      else [ReviewOnlyConflict (sorted_set (map ah_normalized against)) (sorted_set (concat (map (review_only_fields target attrs) against)))])"

definition accepted_target_attrs :: "ladder_verdict \<Rightarrow> prior_resolution option \<Rightarrow> decode_result option \<Rightarrow> hard_attrs" where
  "accepted_target_attrs v prior decoded =
     (if lv_rung v = Some 0 then (case prior of Some p \<Rightarrow> pn_hard p | None \<Rightarrow> no_hard)
      else if lv_rung v = Some 1 then
        (case lv_winning v of
           None \<Rightarrow> no_hard
         | Some h \<Rightarrow> if le_oem_fanout (lv_evidence v) \<noteq> None then no_hard\<lparr>ha_family := ha_family (ah_hard h)\<rparr> else ah_hard h)
      else if lv_rung v = Some 2 then
        (case decoded of
           None \<Rightarrow> no_hard
         | Some d \<Rightarrow>
             (case dr_family_name d of
                Some (c # cs) \<Rightarrow> no_hard\<lparr>ha_capacity_bytes := dr_capacity_bytes d, ha_family := Some (dr_vendor d, c # cs)\<rparr>
              | _ \<Rightarrow> no_hard))
      else no_hard)"

definition prior_model_not_named :: "prior_resolution option \<Rightarrow> alias_hit list \<Rightarrow> review_reason list" where
  "prior_model_not_named prior hits =
     (case prior of
        None \<Rightarrow> []
      | Some p \<Rightarrow> (case tg_model (pn_target p) of
          None \<Rightarrow> []
        | Some m \<Rightarrow>
            (let ids = List.map_filter (tg_model \<circ> ah_target) hits in
             if ids = [] \<or> m \<in> set ids then []
             else [PriorModelNotNamed m (sorted_set ids) (sorted_set (map ah_normalized (naming_hits hits)))])))"

definition lot_quantity :: "int attribute option \<Rightarrow> review_reason list" where
  "lot_quantity q =
     (case q of
        None \<Rightarrow> []
      | Some a \<Rightarrow> if at_value a \<le> 1 \<or> confidence a < LOT_MIN_CONFIDENCE then [] else [Lot (at_value a) (source_text a)])"

section \<open>The rungs\<close>

text \<open>Python's \<open>max\<close> with a key: the first of the greatest.\<close>

fun first_max :: "('a \<Rightarrow> 'b::linorder) \<Rightarrow> 'a list \<Rightarrow> 'a option" where
  "first_max f [] = None"
| "first_max f (x # xs) = (case first_max f xs of None \<Rightarrow> Some x | Some y \<Rightarrow> if f x < f y then Some y else Some x)"

definition hit_confidence :: "alias_hit \<Rightarrow> rat" where "hit_confidence h = confidence_by_source_kind (ah_source_kind h)"

definition has_brand_evidence :: "string option \<Rightarrow> alias_hit \<Rightarrow> bool" where
  "has_brand_evidence brand h \<longleftrightarrow> brand \<noteq> None \<or> ah_structured h
     \<or> ah_vendor h \<noteq> [] \<and> brands_consistent (Some (ah_vendor h)) (ah_brand h)"

definition target_key :: "target_ref \<Rightarrow> grain \<times> int option \<times> int option \<times> int option" where
  "target_key t = (tg_grain t, tg_family t, tg_model t, tg_variant t)"

definition base_evidence :: "mpn_candidate list \<Rightarrow> decode_result option \<Rightarrow> ladder_evidence" where
  "base_evidence cs decoded = \<lparr>le_hypothesis = hypothesis_of cs, le_vendor_hint = map_option dr_vendor decoded, le_reasons = [],
     le_oem_fanout = None, le_provisional = None\<rparr>"

definition rung0 :: "veto \<Rightarrow> title_attributes \<Rightarrow> ladder_evidence \<Rightarrow> prior_resolution \<Rightarrow> ladder_verdict" where
  "rung0 veto x e p =
     (let vetoed = veto x (pn_hard p) in
      if vetoed \<noteq> [] then review_at (Some 0) e [Vetoed vetoed]
      else accept_at 0 SOURCE_ALIAS (pn_target p) (pn_confidence p) e None)"

text \<open>Rung 1 with hits of consistent brand: one target, an OEM fan-out inside one family, or a conflict.\<close>

definition single_target :: "veto \<Rightarrow> title_attributes \<Rightarrow> ladder_evidence \<Rightarrow> string option \<Rightarrow> alias_hit \<Rightarrow> ladder_verdict" where
  "single_target veto x e brand best =
     (let vetoed = veto x (ah_hard best) in
      if vetoed \<noteq> [] then review_at (Some 1) e [Vetoed vetoed]
      else if \<not> has_brand_evidence brand best then review_at (Some 1) e [NoBrandEvidence]
      else accept_at 1 EXACT_ALIAS (ah_target best) (hit_confidence best) e (Some best))"

definition several_targets :: "veto \<Rightarrow> title_attributes \<Rightarrow> ladder_evidence \<Rightarrow> alias_hit list \<Rightarrow> nat \<Rightarrow> ladder_verdict" where
  "several_targets veto x e viable n =
     (let families = remdups (map (tg_family \<circ> ah_target) viable);
          conflict = review_at (Some 1) e [ConflictingTargets n] in
      case families of
        [Some f] \<Rightarrow>
          if list_all (\<lambda>h. ah_alias_type h = ''oem_pn'') viable
          then (case first_max hit_confidence (filter (\<lambda>h. veto x (ah_hard h) = []) viable) of
              None \<Rightarrow> conflict
            | Some best \<Rightarrow> accept_at 1 EXACT_ALIAS (family_target (Some f) None) OEM_FAMILY_FANOUT_CONFIDENCE
                (e\<lparr>le_oem_fanout := Some (length viable)\<rparr>) (Some best))
          else conflict
      | _ \<Rightarrow> conflict)"

definition rung1 :: "veto \<Rightarrow> title_attributes \<Rightarrow> ladder_evidence \<Rightarrow> alias_hit list \<Rightarrow> ladder_verdict option" where
  "rung1 veto x e hits =
     (let brand = map_option at_value (ta_brand x); viable = filter (\<lambda>h. brands_consistent brand (ah_brand h)) hits in
      if hits \<noteq> [] \<and> viable = []
      then Some (review_at (Some 1) e [BrandContradictsAlias brand
        (sorted_set (filter (\<lambda>b. b \<noteq> []) (List.map_filter ah_brand hits)))])
      else (case first_max hit_confidence viable of
          None \<Rightarrow> None
        | Some best \<Rightarrow>
            (let targets = remdups (map (target_key \<circ> ah_target) viable) in
             Some (if length targets = 1 then single_target veto x e brand best
                   else several_targets veto x e viable (length targets)))))"

definition rung2 :: "title_attributes \<Rightarrow> ladder_evidence \<Rightarrow> decode_result \<Rightarrow> string \<Rightarrow> ladder_verdict" where
  "rung2 x e d family =
     (let brand = map_option at_value (ta_brand x); conflicting = family_conflicts x (dr_vendor d) family in
      if \<not> brands_consistent brand (Some (dr_vendor d)) then review_at (Some 2) e [BrandContradictsDecode brand (dr_vendor d)]
      else if conflicting \<noteq> [] then review_at (Some 2) e [FamilyContradictsDecode conflicting family]
      else (case (ta_capacity_bytes x, dr_capacity_bytes d) of
          (Some a, Some b) \<Rightarrow>
            if capacities_differ (at_value a) b then review_at (Some 2) e [DecoderVeto b]
            else accept_at 2 MPN_DECODE (family_target None (Some (dr_vendor d, family))) (confidence_by_provenance (dr_provenance d))
              (e\<lparr>le_provisional := Some (dr_provenance d, dr_rule d)\<rparr>) None
        | _ \<Rightarrow> accept_at 2 MPN_DECODE (family_target None (Some (dr_vendor d, family))) (confidence_by_provenance (dr_provenance d))
            (e\<lparr>le_provisional := Some (dr_provenance d, dr_rule d)\<rparr>) None))"

definition no_hit :: "ladder_evidence \<Rightarrow> ladder_verdict" where
  "no_hit e = \<lparr>lv_outcome = NO_HIT, lv_grain = GRAIN_NONE, lv_rung = None, lv_method = None, lv_target = None, lv_confidence = None,
     lv_evidence = e, lv_winning = None\<rparr>"

definition climb ::
  "veto \<Rightarrow> title_attributes \<Rightarrow> mpn_candidate list \<Rightarrow> prior_resolution option \<Rightarrow> alias_hit list \<Rightarrow> decode_result option \<Rightarrow> ladder_verdict" where
  "climb veto x cs prior hits decoded =
     (let e = base_evidence cs decoded in
      case prior of
        Some p \<Rightarrow> rung0 veto x e p
      | None \<Rightarrow>
          (case rung1 veto x e hits of
             Some v \<Rightarrow> v
           | None \<Rightarrow>
               (case decoded of
                  None \<Rightarrow> no_hit e
                | Some d \<Rightarrow> (case dr_family_name d of Some (c # cs) \<Rightarrow> rung2 x e d (c # cs) | _ \<Rightarrow> no_hit e))))"

definition ambiguities ::
  "bool \<Rightarrow> title_attributes \<Rightarrow> mpn_candidate list \<Rightarrow> prior_resolution option \<Rightarrow> alias_hit list \<Rightarrow> decode_result option
     \<Rightarrow> ladder_verdict \<Rightarrow> review_reason list" where
  "ambiguities guard x cs prior hits decoded v =
     (let models = conflicting_alias_models hits; mpns = distinct_mpns cs hits in
      (if models \<noteq> [] then [ConflictingAliasModels models] else [])
      @ (if lv_rung v = Some 0 then prior_model_not_named prior hits else [])
      @ (case lv_target v of None \<Rightarrow> [] | Some t \<Rightarrow> review_only_alias_conflicts t (accepted_target_attrs v prior decoded) hits)
      @ lot_quantity (ta_quantity x)
      @ (if guard \<and> mpns \<noteq> [] then [MultipleMpns mpns] else []))"

definition decide ::
  "veto \<Rightarrow> bool \<Rightarrow> title_attributes \<Rightarrow> mpn_candidate list \<Rightarrow> prior_resolution option \<Rightarrow> alias_hit list \<Rightarrow> decode_result option
     \<Rightarrow> ladder_verdict" where
  "decide veto guard x cs prior hits decoded =
     (let v = climb veto x cs prior (filter (\<lambda>h. \<not> ah_review_only h) hits) decoded in
      if lv_outcome v \<noteq> ACCEPT then v
      else (case ambiguities guard x cs prior hits decoded v of
          [] \<Rightarrow> v
        | reasons \<Rightarrow> review_at (lv_rung v) (lv_evidence v) reasons))"

end
