(* ===== verification/Resolver.thy ===== *)
theory Resolver
  imports Ladder
begin

text \<open>
  The deciding half of the resolver (\<open>matching/resolver.py\<close>, with the registry of \<open>matching/categories.py\<close> and the
  source terms of \<open>matching/vocab.py\<close>): the spec readers, the prior and the alias hits of a listing, the reasons to
  decide again, and the gates of a category. What reads a title is the record \<open>text_reader\<close>, an argument.
\<close>

section \<open>The catalog\<close>

record family_row =
  fm_maker :: string
  fm_name :: string
  fm_category :: string

record model_row =
  mw_maker :: string
  mw_family :: "int option"
  mw_number :: string

record variant_row =
  vw_model :: int
  vw_condition :: string
  vw_packaging :: string
  vw_recert :: string
  vw_warranty :: string

record alias_row =
  ar_text :: string
  ar_type :: string
  ar_site :: "int option"
  ar_family :: "int option"
  ar_model :: "int option"
  ar_variant :: "int option"
  ar_source_kind :: string

record drive_row = drive_spec +
  ds_sector_format :: string
  ds_sed :: "bool option"

record ram_row = ram_spec +
  rs_ranks :: "int option"

record match_db =
  mb_categories :: "string list"
  mb_makers :: "string list"
  mb_families :: "(int \<times> family_row) list"
  mb_models :: "(int \<times> model_row) list"
  mb_variants :: "(int \<times> variant_row) list"
  mb_aliases :: "alias_row list"
  mb_drives :: "(int \<times> drive_row) list"
  mb_gpus :: "(int \<times> gpu_spec) list"
  mb_rams :: "(int \<times> ram_row) list"
  mb_cpus :: "(int \<times> cpu_spec) list"

text \<open>What reads the text of a title, by category where the rules of a category do it.\<close>

record text_reader =
  tx_canonical :: "string \<Rightarrow> string \<Rightarrow> string"
  tx_title :: "string \<Rightarrow> string"
  tx_extract :: "string \<Rightarrow> string \<Rightarrow> title_attributes"
  tx_candidates :: "string \<Rightarrow> string \<Rightarrow> string option \<Rightarrow> string \<Rightarrow> mpn_candidate list"
  tx_decode :: "string \<Rightarrow> decode_result option"
  tx_structured_cpu :: "title_attributes \<Rightarrow> string \<Rightarrow> title_attributes"
  tx_model_key :: "string \<Rightarrow> string option"

datatype resolve_error = NoSuchRow string | HintNotText | BadCategory string | FamilyWithoutCategory

definition fetch_row :: "string \<Rightarrow> (int \<times> 'r) list \<Rightarrow> int \<Rightarrow> resolve_error + 'r" where
  "fetch_row table rows i = (case map_of rows i of None \<Rightarrow> Inl (NoSuchRow table) | Some r \<Rightarrow> Inr r)"

section \<open>The rules of a category\<close>

record acceptance_policy =
  ap_source_kinds :: "string list"
  ap_grains :: "grain list"

record category_rules =
  cr_decode :: "string \<Rightarrow> decode_result option"
  cr_veto :: veto
  cr_auto_accept :: bool
  cr_ratified :: "(string \<times> string) list option"
  cr_variant_on_demand :: bool
  cr_acceptance :: "acceptance_policy option"
  cr_fold_structured :: "(title_attributes \<Rightarrow> string \<Rightarrow> title_attributes) option"
  cr_distinct_mpn_guard :: bool

definition NEW_CATEGORY_ACCEPTANCE :: acceptance_policy where
  "NEW_CATEGORY_ACCEPTANCE = \<lparr>ap_source_kinds = [''catalog_authoritative''], ap_grains = [GRAIN_MODEL, GRAIN_VARIANT]\<rparr>"

definition CPU_RATIFIED_FAMILIES :: "(string \<times> string) list" where
  "CPU_RATIFIED_FAMILIES = [(''amd'', ''epyc'')]"

definition new_category :: "veto \<Rightarrow> category_rules" where
  "new_category veto = \<lparr>cr_decode = (\<lambda>_. None), cr_veto = veto, cr_auto_accept = True, cr_ratified = None,
     cr_variant_on_demand = True, cr_acceptance = Some NEW_CATEGORY_ACCEPTANCE, cr_fold_structured = None, cr_distinct_mpn_guard = False\<rparr>"

definition drive_rules :: "text_reader \<Rightarrow> category_rules" where
  "drive_rules tx = \<lparr>cr_decode = tx_decode tx, cr_veto = contradictions, cr_auto_accept = True, cr_ratified = None,
     cr_variant_on_demand = True, cr_acceptance = None, cr_fold_structured = None, cr_distinct_mpn_guard = True\<rparr>"

definition rules_for :: "text_reader \<Rightarrow> string \<Rightarrow> category_rules option" where
  "rules_for tx slug =
     (if slug = ''drive'' then Some (drive_rules tx)
      else if slug = ''gpu'' then Some ((new_category gpu_veto)\<lparr>cr_auto_accept := False\<rparr>)
      else if slug = ''ram'' then Some ((new_category ram_veto)\<lparr>cr_auto_accept := False\<rparr>)
      else if slug = ''cpu'' then Some ((new_category cpu_veto)\<lparr>cr_ratified := Some CPU_RATIFIED_FAMILIES,
        cr_fold_structured := Some (tx_structured_cpu tx)\<rparr>)
      else if slug \<in> {''nic'', ''hba'', ''motherboard'', ''server''}
        then Some ((new_category basic_veto)\<lparr>cr_variant_on_demand := slug \<noteq> ''server''\<rparr>)
      else None)"

definition category_slug :: "string option \<Rightarrow> resolve_error + string" where
  "category_slug hint =
     (case hint of
        None \<Rightarrow> Inr ''drive''
      | Some s \<Rightarrow> if length s > CATEGORY_SLUG_MAX_LENGTH \<or> \<not> slug_words False s then Inl (BadCategory s) else Inr s)"

text \<open>\<open>MANUFACTURER_KEY_RE\<close> with \<open>fullmatch\<close>: \<open>^[a-z][a-z0-9_]*$\<close>.\<close>

definition maker_key :: "string \<Rightarrow> bool" where
  "maker_key s = (case s of [] \<Rightarrow> False | c # rest \<Rightarrow> is_lower c \<and> list_all (\<lambda>d. is_lower d \<or> is_digit d \<or> d = CHR ''_'') rest)"

text \<open>\<open>FamilyKey(...)\<close>, whose constructor rejects a pair that is not in normalized form.\<close>

definition family_key_valid :: "text_reader \<Rightarrow> string \<times> string \<Rightarrow> bool" where
  "family_key_valid tx k \<longleftrightarrow> maker_key (fst k) \<and> snd k \<noteq> [] \<and> snd k = tx_title tx (snd k)"

definition permits :: "(string \<times> string) list \<Rightarrow> (string \<times> string) option \<Rightarrow> bool" where
  "permits scope k = (case k of None \<Rightarrow> False | Some key \<Rightarrow> key \<in> set scope)"

section \<open>Spec readers\<close>

text \<open>\<open>capacity_tb\<close> holds three decimals, so the product with a terabyte is an integer.\<close>

definition hard_of_drive :: "drive_row \<Rightarrow> hard_attrs" where
  "hard_of_drive s = no_hard\<lparr>ha_capacity_bytes := map_option (\<lambda>c. \<lfloor>c * 10 ^ 12\<rfloor>) (ds_capacity_tb s),
     ha_interface := token (ds_interface s) DRIVE_INTERFACE_TOKENS, ha_form_factor := token (ds_form_factor s) DRIVE_FORM_FACTOR_TOKENS,
     ha_sector_format := (if ds_sector_format s = [] then None else Some (casefold (ds_sector_format s))),
     ha_security := (if ds_sed s = Some True then Some ''sed'' else None)\<rparr>"

definition gpu_hard_of :: "gpu_spec \<Rightarrow> gpu_hard" where
  "gpu_hard_of s = \<lparr>gh_chip_vendor = known (Some (gs_chip_vendor s)), gh_vram_gb = gs_vram_gb s,
     gh_interface = known (Some (gs_interface s)), gh_cooling = known (Some (gs_cooling s))\<rparr>"

definition ram_hard_of :: "ram_row \<Rightarrow> ram_hard" where
  "ram_hard_of s = \<lparr>rh_generation = known (Some (rs_generation s)), rh_module_type = known (Some (rs_module_type s)),
     rh_ecc = rs_ecc s, rh_module_capacity_gb = rs_module_capacity_gb s, rh_speed_mts = rs_speed_mts s, rh_ranks = rs_ranks s\<rparr>"

definition cpu_hard_of :: "cpu_spec \<Rightarrow> cpu_hard" where
  "cpu_hard_of s = \<lparr>ch_socket = (let k = socket_key (cs_socket s) in if k = [] then None else Some k), ch_cores = cs_cores s, ch_model = None\<rparr>"

definition agreed :: "'v option list \<Rightarrow> 'v option" where
  "agreed vs = (case remdups vs of [v] \<Rightarrow> v | _ \<Rightarrow> None)"

definition family_key_of :: "match_db \<Rightarrow> int option \<Rightarrow> (string \<times> string) option" where
  "family_key_of db f =
     (case f of None \<Rightarrow> None | Some i \<Rightarrow> map_option (\<lambda>r. (fm_maker r, fm_name r)) (map_of (mb_families db) i))"

text \<open>The spec rows of a family: those whose model is in it.\<close>

definition specs_of_family :: "match_db \<Rightarrow> (int \<times> 's) list \<Rightarrow> int \<Rightarrow> 's list" where
  "specs_of_family db specs f =
     map snd (filter (\<lambda>(m, s). case map_of (mb_models db) m of None \<Rightarrow> False | Some r \<Rightarrow> mw_family r = Some f) specs)"

definition model_attrs :: "text_reader \<Rightarrow> match_db \<Rightarrow> string \<Rightarrow> int \<Rightarrow> model_row \<Rightarrow> hard_attrs" where
  "model_attrs tx db slug m r =
     (if slug = ''drive'' then
        (case map_of (mb_drives db) m of None \<Rightarrow> no_hard | Some s \<Rightarrow> hard_of_drive s)\<lparr>ha_family := family_key_of db (mw_family r)\<rparr>
      else if slug = ''gpu'' then
        (case map_of (mb_gpus db) m of None \<Rightarrow> no_hard | Some s \<Rightarrow> no_hard\<lparr>ha_category := GpuHard (gpu_hard_of s)\<rparr>)
      else if slug = ''ram'' then
        (case map_of (mb_rams db) m of None \<Rightarrow> no_hard | Some s \<Rightarrow> no_hard\<lparr>ha_category := RamHard (ram_hard_of s)\<rparr>)
      else if slug = ''cpu'' then
        (case map_of (mb_cpus db) m of
           None \<Rightarrow> no_hard
         | Some s \<Rightarrow> no_hard\<lparr>ha_category := CpuHard ((cpu_hard_of s)\<lparr>ch_model := tx_model_key tx (mw_number r)\<rparr>)\<rparr>)
      else no_hard)"

definition drive_family_attrs :: "match_db \<Rightarrow> int \<Rightarrow> hard_attrs" where
  "drive_family_attrs db f =
     (let specs = map hard_of_drive (specs_of_family db (mb_drives db) f) in
      no_hard\<lparr>ha_capacity_bytes := agreed (map ha_capacity_bytes specs), ha_interface := agreed (map ha_interface specs),
        ha_form_factor := agreed (map ha_form_factor specs), ha_sector_format := agreed (map ha_sector_format specs),
        ha_security := agreed (map ha_security specs), ha_family := family_key_of db (Some f)\<rparr>)"

definition satellite_family_attrs :: "match_db \<Rightarrow> string \<Rightarrow> int \<Rightarrow> hard_attrs" where
  "satellite_family_attrs db slug f =
     (if slug = ''gpu'' then
        (let specs = map gpu_hard_of (specs_of_family db (mb_gpus db) f) in
         if specs = [] then no_hard
         else no_hard\<lparr>ha_category := GpuHard \<lparr>gh_chip_vendor = agreed (map gh_chip_vendor specs), gh_vram_gb = agreed (map gh_vram_gb specs),
           gh_interface = agreed (map gh_interface specs), gh_cooling = agreed (map gh_cooling specs)\<rparr>\<rparr>)
      else if slug = ''ram'' then
        (let specs = map ram_hard_of (specs_of_family db (mb_rams db) f) in
         if specs = [] then no_hard
         else no_hard\<lparr>ha_category := RamHard \<lparr>rh_generation = agreed (map rh_generation specs), rh_module_type = agreed (map rh_module_type specs),
           rh_ecc = agreed (map rh_ecc specs), rh_module_capacity_gb = agreed (map rh_module_capacity_gb specs),
           rh_speed_mts = agreed (map rh_speed_mts specs), rh_ranks = agreed (map rh_ranks specs)\<rparr>\<rparr>)
      else if slug = ''cpu'' then
        (let specs = map cpu_hard_of (specs_of_family db (mb_cpus db) f) in
         if specs = [] then no_hard
         else no_hard\<lparr>ha_category := CpuHard \<lparr>ch_socket = agreed (map ch_socket specs), ch_cores = agreed (map ch_cores specs),
           ch_model = agreed (map ch_model specs)\<rparr>\<rparr>)
      else no_hard)"

definition family_attrs :: "match_db \<Rightarrow> string \<Rightarrow> int option \<Rightarrow> hard_attrs" where
  "family_attrs db slug f =
     (case f of None \<Rightarrow> no_hard | Some i \<Rightarrow> if slug = ''drive'' then drive_family_attrs db i else satellite_family_attrs db slug i)"

section \<open>The listing and its edges\<close>

text \<open>
  \<open>li_site_key\<close> is the site's normalized name; \<open>li_hint\<close> and \<open>li_mpn\<close> are the keys of the latest snapshot's attributes:
  \<open>None\<close> without the key, and for a hint \<open>Some None\<close> when its value is not text. The edges are the rows of
  \<open>ListingResolution\<close>, their evidence spread over \<open>ed_evidence\<close> (the ladder's keys), \<open>ed_notes\<close> and the fields after them.
\<close>

record listing_row =
  li_site :: int
  li_site_key :: string
  li_title :: string
  li_condition_label :: string
  li_hint :: "string option option"
  li_mpn :: "string option"
  li_title_normalized :: string
  li_grain :: grain
  li_confidence :: "rat option"
  li_family :: "int option"
  li_model :: "int option"
  li_variant :: "int option"

datatype prior_reason = IdentifiersUnrecorded | IdentifiersChanged "string list" | BrandContradicted string "string option"
  | VariantAttributesChanged "(string \<times> string) list" | VariantAttributesAsserted "(string \<times> string) list option"

text \<open>The keys the resolver adds to the evidence of the ladder; \<open>None\<close> and \<open>False\<close> for an absent key.\<close>

record edge_notes =
  en_error :: "resolve_error option"
  en_category :: "string option"
  en_hinted :: bool
  en_unsupported :: bool
  en_identifiers :: "string list option"
  en_alias_kind :: "string option option"
  en_basis :: "resolution_method option"
  en_from_version :: "string option"
  en_prior :: "prior_reason option"
  en_reconsider :: bool

definition no_notes :: edge_notes where
  "no_notes = \<lparr>en_error = None, en_category = None, en_hinted = False, en_unsupported = False, en_identifiers = None,
     en_alias_kind = None, en_basis = None, en_from_version = None, en_prior = None, en_reconsider = False\<rparr>"

record resolved =
  rv_verdict :: ladder_verdict
  rv_notes :: edge_notes

record edge =
  ed_id :: nat
  ed_current :: bool
  ed_superseded :: "nat option"
  ed_grain :: grain
  ed_family :: "int option"
  ed_model :: "int option"
  ed_variant :: "int option"
  ed_method :: "resolution_method option"
  ed_confidence :: "rat option"
  ed_version :: string
  ed_outcome :: outcome_kind
  ed_rung :: "nat option"
  ed_evidence :: ladder_evidence
  ed_notes :: edge_notes
  ed_on_demand :: bool
  ed_variant_attrs :: "(string \<times> string) list option"
  ed_denorm_preserved :: bool
  ed_resolved_at :: int
  ed_evaluated_at :: int

definition MATCHER_VERSION :: string where "MATCHER_VERSION = ''2026.10.1''"

section \<open>The prior and the hits\<close>

definition prior_from_listing :: "text_reader \<Rightarrow> match_db \<Rightarrow> string \<Rightarrow> listing_row \<Rightarrow> resolve_error + prior_resolution option" where
  "prior_from_listing tx db slug l =
     (let conf = (case li_confidence l of None \<Rightarrow> 1 / 2 | Some c \<Rightarrow> if c = 0 then 1 / 2 else c);
          ref = \<lparr>tg_grain = li_grain l, tg_family = None, tg_model = None, tg_variant = None, tg_family_key = None, tg_category = None\<rparr> in
      if li_grain l = GRAIN_NONE then Inr None
      else case li_variant l of
        Some v \<Rightarrow> andThen (fetch_row ''ProductVariant'' (mb_variants db) v) (\<lambda>vr.
          andThen (fetch_row ''ProductModel'' (mb_models db) (vw_model vr)) (\<lambda>mr.
            Inr (Some \<lparr>pn_target = ref\<lparr>tg_grain := GRAIN_VARIANT, tg_family := mw_family mr, tg_model := Some (vw_model vr), tg_variant := Some v\<rparr>,
              pn_confidence = conf, pn_hard = model_attrs tx db slug (vw_model vr) mr\<rparr>)))
      | None \<Rightarrow>
          (case li_model l of
             Some m \<Rightarrow> andThen (fetch_row ''ProductModel'' (mb_models db) m) (\<lambda>mr.
               Inr (Some \<lparr>pn_target = ref\<lparr>tg_grain := GRAIN_MODEL, tg_family := mw_family mr, tg_model := Some m\<rparr>,
                 pn_confidence = conf, pn_hard = model_attrs tx db slug m mr\<rparr>))
           | None \<Rightarrow>
               (case li_family l of
                  Some f \<Rightarrow> Inr (Some \<lparr>pn_target = ref\<lparr>tg_grain := GRAIN_FAMILY, tg_family := Some f\<rparr>,
                    pn_confidence = conf, pn_hard = family_attrs db slug (Some f)\<rparr>)
                | None \<Rightarrow> Inr None)))"

definition compatible_alias_types :: "token_kind \<Rightarrow> string list" where
  "compatible_alias_types k =
     (case k of MANUFACTURER_MPN \<Rightarrow> [''mpn'', ''retail_pn'', ''region_pn''] | OEM_PN \<Rightarrow> [''oem_pn'']
      | HOUSE_SKU \<Rightarrow> [''other'', ''retail_pn''] | UNKNOWN_CODE \<Rightarrow> [''mpn'', ''oem_pn'', ''retail_pn'', ''region_pn''])"

text \<open>\<open>by_key\<close>, a dict comprehension: the last candidate of a join key wins.\<close>

definition candidate_of :: "mpn_candidate list \<Rightarrow> string \<Rightarrow> mpn_candidate option" where
  "candidate_of cs text = first_such (\<lambda>c. mc_normalized c = text) (rev cs)"

definition alias_target :: "text_reader \<Rightarrow> match_db \<Rightarrow> string \<Rightarrow> alias_row \<Rightarrow> resolve_error + target_ref \<times> string option \<times> hard_attrs" where
  "alias_target tx db slug a =
     (let ref = family_target (ar_family a) None in
      case ar_variant a of
        Some v \<Rightarrow> andThen (fetch_row ''ProductVariant'' (mb_variants db) v) (\<lambda>vr.
          andThen (fetch_row ''ProductModel'' (mb_models db) (vw_model vr)) (\<lambda>mr.
            Inr (ref\<lparr>tg_grain := GRAIN_VARIANT, tg_family := mw_family mr, tg_model := Some (vw_model vr), tg_variant := Some v\<rparr>,
              Some (mw_maker mr), model_attrs tx db slug (vw_model vr) mr)))
      | None \<Rightarrow>
          (case ar_model a of
             Some m \<Rightarrow> andThen (fetch_row ''ProductModel'' (mb_models db) m) (\<lambda>mr.
               Inr (ref\<lparr>tg_grain := GRAIN_MODEL, tg_family := mw_family mr, tg_model := Some m\<rparr>, Some (mw_maker mr), model_attrs tx db slug m mr))
           | None \<Rightarrow> Inr (ref, map_option fst (family_key_of db (ar_family a)), family_attrs db slug (ar_family a))))"

fun hits_of_rows ::
  "text_reader \<Rightarrow> match_db \<Rightarrow> string \<Rightarrow> mpn_candidate list \<Rightarrow> int \<Rightarrow> alias_row list \<Rightarrow> resolve_error + alias_hit list" where
  "hits_of_rows tx db slug cs site [] = Inr []"
| "hits_of_rows tx db slug cs site (a # rest) =
     (case candidate_of cs (ar_text a) of
        None \<Rightarrow> hits_of_rows tx db slug cs site rest
      | Some c \<Rightarrow>
          if ar_site a \<notin> {None, Some site} \<or> ar_type a \<notin> set (compatible_alias_types (mc_token c))
          then hits_of_rows tx db slug cs site rest
          else andThen (alias_target tx db slug a) (\<lambda>(target, brand, hard).
            andThen (hits_of_rows tx db slug cs site rest) (\<lambda>hits.
              Inr (\<lparr>ah_target = target, ah_source_kind = ar_source_kind a, ah_alias_type = ar_type a, ah_brand = brand, ah_hard = hard,
                ah_vendor = mc_vendor_hint c, ah_structured = mc_structured c, ah_normalized = mc_normalized c,
                ah_review_only = mc_review_only c\<rparr> # hits))))"

definition alias_hits :: "text_reader \<Rightarrow> match_db \<Rightarrow> string \<Rightarrow> mpn_candidate list \<Rightarrow> int \<Rightarrow> resolve_error + alias_hit list" where
  "alias_hits tx db slug cs site = hits_of_rows tx db slug cs site (mb_aliases db)"

fun first_decode :: "(string \<Rightarrow> decode_result option) \<Rightarrow> mpn_candidate list \<Rightarrow> decode_result option" where
  "first_decode decode [] = None"
| "first_decode decode (c # cs) =
     (if mc_token c = OEM_PN then first_decode decode cs
      else case decode (mc_normalized c) of None \<Rightarrow> first_decode decode cs | Some d \<Rightarrow> Some d)"

section \<open>Deciding again\<close>

text \<open>\<open>.order_by("-resolved_at", "-pk").first()\<close>\<close>

definition newer :: "edge \<Rightarrow> edge \<Rightarrow> bool" where
  "newer e f \<longleftrightarrow> ed_resolved_at f < ed_resolved_at e \<or> ed_resolved_at e = ed_resolved_at f \<and> ed_id f < ed_id e"

fun newest :: "(edge \<Rightarrow> bool) \<Rightarrow> edge list \<Rightarrow> edge option" where
  "newest p [] = None"
| "newest p (e # es) =
     (case newest p es of
        None \<Rightarrow> if p e then Some e else None
      | Some f \<Rightarrow> if p e \<and> newer e f then Some e else Some f)"

definition clean_accept :: "edge \<Rightarrow> bool" where
  "clean_accept e \<longleftrightarrow> ed_outcome e = ACCEPT \<and> en_error (ed_notes e) = None"

definition automated_origin :: "edge list \<Rightarrow> edge option" where
  "automated_origin es =
     (case newest (\<lambda>e. clean_accept e \<and> ed_method e \<noteq> Some SOURCE_ALIAS) es of
        None \<Rightarrow> None
      | Some e \<Rightarrow> if ed_method e \<in> {Some EXACT_ALIAS, Some MPN_DECODE} then Some e else None)"

definition version_changed :: "edge_notes \<Rightarrow> string \<Rightarrow> edge_notes" where
  "version_changed n v = n\<lparr>en_from_version := Some v\<rparr>"

definition prior_reconsideration :: "edge \<Rightarrow> string list \<Rightarrow> (edge_notes \<Rightarrow> edge_notes) option" where
  "prior_reconsideration origin ids =
     (if ed_version origin \<noteq> MATCHER_VERSION then Some (\<lambda>n. version_changed n (ed_version origin))
      else case en_identifiers (ed_notes origin) of
        None \<Rightarrow> Some (\<lambda>n. n\<lparr>en_prior := Some IdentifiersUnrecorded\<rparr>)
      | Some recorded \<Rightarrow>
          if sort recorded \<noteq> ids then Some (\<lambda>n. n\<lparr>en_prior := Some (IdentifiersChanged (sort recorded))\<rparr>) else None)"

definition target_brand :: "match_db \<Rightarrow> target_ref \<Rightarrow> resolve_error + string option" where
  "target_brand db t =
     (case tg_model t of
        Some m \<Rightarrow> andThen (fetch_row ''ProductModel'' (mb_models db) m) (\<lambda>r. Inr (Some (mw_maker r)))
      | None \<Rightarrow>
          (case tg_family t of
             Some f \<Rightarrow> andThen (fetch_row ''ProductFamily'' (mb_families db) f) (\<lambda>r. Inr (Some (fm_maker r)))
           | None \<Rightarrow> Inr None))"

definition brand_reconsideration ::
  "match_db \<Rightarrow> prior_resolution \<Rightarrow> title_attributes \<Rightarrow> resolve_error + (edge_notes \<Rightarrow> edge_notes) option" where
  "brand_reconsideration db p x =
     (case ta_brand x of
        None \<Rightarrow> Inr None
      | Some b \<Rightarrow> andThen (target_brand db (pn_target p)) (\<lambda>tb.
          Inr (if brands_consistent (Some (at_value b)) tb then None
            else Some (\<lambda>n. n\<lparr>en_prior := Some (BrandContradicted (at_value b) tb)\<rparr>))))"

text \<open>The variant attributes as name/value pairs in the order of the names.\<close>

definition asserted_variant_attributes :: "title_attributes \<Rightarrow> (string \<times> string) list" where
  "asserted_variant_attributes x =
     List.map_filter (\<lambda>(k, a). map_option (\<lambda>v. (k, at_value v)) a)
       [(''condition'', ta_condition x), (''packaging'', ta_packaging x), (''recert_channel'', ta_recert_channel x),
        (''warranty_channel'', ta_warranty_channel x)]"

definition denied_variant_attributes :: "title_attributes \<Rightarrow> (string \<times> string list) list" where
  "denied_variant_attributes x =
     List.map_filter (\<lambda>(k, a). map_option (\<lambda>v. (k, at_value v)) a)
       [(''condition'', ta_denied_conditions x), (''recert_channel'', ta_denied_recert_channels x)]"

definition variant_tuple :: "variant_row \<Rightarrow> (string \<times> string) list" where
  "variant_tuple v = [(''condition'', vw_condition v), (''packaging'', vw_packaging v), (''recert_channel'', vw_recert v),
     (''warranty_channel'', vw_warranty v)]"

definition tuple_contradictions :: "variant_row \<Rightarrow> (string \<times> string) list \<Rightarrow> (string \<times> string list) list \<Rightarrow> (string \<times> string) list" where
  "tuple_contradictions v asserted denied =
     filter (\<lambda>(name, value).
         (case map_of asserted name of Some a \<Rightarrow> value \<noteq> a | None \<Rightarrow> False)
         \<or> (case map_of denied name of Some ds \<Rightarrow> value \<in> set ds | None \<Rightarrow> False)
         \<or> name = ''condition'' \<and> map_of asserted ''condition'' = None \<and> map_of denied ''condition'' \<notin> {None, Some []}
           \<and> value \<noteq> ''unknown'')
       (variant_tuple v)"

definition variant_contradictions :: "match_db \<Rightarrow> int \<Rightarrow> title_attributes \<Rightarrow> resolve_error + (string \<times> string) list" where
  "variant_contradictions db v x =
     andThen (fetch_row ''ProductVariant'' (mb_variants db) v) (\<lambda>r.
       Inr (tuple_contradictions r (asserted_variant_attributes x) (denied_variant_attributes x)))"

definition offer_reconsideration ::
  "match_db \<Rightarrow> edge \<Rightarrow> prior_resolution \<Rightarrow> title_attributes \<Rightarrow> bool \<Rightarrow> resolve_error + (edge_notes \<Rightarrow> edge_notes) option" where
  "offer_reconsideration db origin p x on_demand =
     (let t = pn_target p; asserted = asserted_variant_attributes x in
      case (tg_grain t, tg_variant t) of
        (GRAIN_VARIANT, Some v) \<Rightarrow> andThen (variant_contradictions db v x) (\<lambda>against.
          Inr (if against = [] then None else Some (\<lambda>n. n\<lparr>en_prior := Some (VariantAttributesChanged against)\<rparr>)))
      | _ \<Rightarrow> Inr (if tg_grain t = GRAIN_MODEL \<and> on_demand \<and> ta_condition x \<noteq> None \<and> ed_variant_attrs origin \<noteq> Some asserted
               then Some (\<lambda>n. n\<lparr>en_prior := Some (VariantAttributesAsserted (ed_variant_attrs origin))\<rparr>) else None))"

section \<open>Terms a source proves\<close>

definition SOURCE_OFFER_PROVENANCE :: "string \<Rightarrow> (string \<times> string) option" where
  "SOURCE_OFFER_PROVENANCE key = (if key = ''wd-recertified'' then Some (''recertified'', ''factory'') else None)"

definition source_offer_conflict :: "title_attributes \<Rightarrow> string \<Rightarrow> string list option" where
  "source_offer_conflict x key =
     (case (SOURCE_OFFER_PROVENANCE key, ta_condition_conflict x) of
        (Some (condition, _), Some c) \<Rightarrow> if condition \<in> set (at_value c) then Some (at_value c) else None
      | _ \<Rightarrow> None)"

definition with_source_offer_terms :: "title_attributes \<Rightarrow> string \<Rightarrow> title_attributes" where
  "with_source_offer_terms x key =
     (case SOURCE_OFFER_PROVENANCE key of
        None \<Rightarrow> x
      | Some (condition, channel) \<Rightarrow>
          let proved = (\<lambda>v. \<lparr>at_value = v, confidence = 95 / 100, layer = ''source'', source_text = ''source:'' @ key\<rparr>) in
          if source_offer_conflict x key \<noteq> None then x\<lparr>ta_condition := None, ta_recert_channel := None\<rparr>
          else if (case ta_denied_recert_channels x of None \<Rightarrow> False | Some d \<Rightarrow> channel \<in> set (at_value d)) then x
          else if ta_condition x = None \<and> ta_denied_conditions x \<noteq> None then x
          else if (case ta_condition x of None \<Rightarrow> False | Some c \<Rightarrow> at_value c \<noteq> condition) then x
          else if (case ta_recert_channel x of None \<Rightarrow> False | Some c \<Rightarrow> at_value c \<noteq> channel) then x
          else x\<lparr>ta_condition := Some (case ta_condition x of None \<Rightarrow> proved condition | Some c \<Rightarrow> c),
                 ta_recert_channel := Some (case ta_recert_channel x of None \<Rightarrow> proved channel | Some c \<Rightarrow> c)\<rparr>)"

section \<open>Gates\<close>

text \<open>\<open>_review\<close>: an accept demoted, its evidence kept.\<close>

definition demote :: "resolved \<Rightarrow> review_reason \<Rightarrow> resolved" where
  "demote r reason = r\<lparr>rv_verdict := review_at (lv_rung (rv_verdict r)) (lv_evidence (rv_verdict r)) [reason]\<rparr>"

definition target_category_of :: "match_db \<Rightarrow> target_ref \<Rightarrow> resolve_error + string" where
  "target_category_of db t =
     (case tg_family t of
        None \<Rightarrow> Inr ''drive''
      | Some f \<Rightarrow> andThen (fetch_row ''ProductFamily'' (mb_families db) f) (\<lambda>r. Inr (fm_category r)))"

definition target_family_key :: "text_reader \<Rightarrow> match_db \<Rightarrow> target_ref \<Rightarrow> resolve_error + (string \<times> string) option" where
  "target_family_key tx db t =
     (let valid = (\<lambda>k. if family_key_valid tx k then Some k else None) in
      case tg_model t of
        Some m \<Rightarrow> andThen (fetch_row ''ProductModel'' (mb_models db) m) (\<lambda>r.
          Inr (case family_key_of db (mw_family r) of
                 None \<Rightarrow> None
               | Some k \<Rightarrow> if fst k \<noteq> mw_maker r then None else valid k))
      | None \<Rightarrow>
          (case tg_family t of
             None \<Rightarrow> Inr None
           | Some f \<Rightarrow> andThen (fetch_row ''ProductFamily'' (mb_families db) f) (\<lambda>r. Inr (valid (fm_maker r, fm_name r)))))"

text \<open>\<open>Some\<close> the named family (if any) when the target is outside the ratified ones.\<close>

definition unratified_family ::
  "text_reader \<Rightarrow> match_db \<Rightarrow> category_rules \<Rightarrow> target_ref \<Rightarrow> resolve_error + (string \<times> string) option option" where
  "unratified_family tx db rules t =
     (case cr_ratified rules of
        None \<Rightarrow> Inr None
      | Some scope \<Rightarrow> andThen (target_family_key tx db t) (\<lambda>k. Inr (if permits scope k then None else Some k)))"

definition prior_basis :: "edge list \<Rightarrow> (resolution_method option \<times> string option) option" where
  "prior_basis es =
     map_option (\<lambda>e.
         (if ed_method e = Some SOURCE_ALIAS then (case en_basis (ed_notes e) of None \<Rightarrow> Some SOURCE_ALIAS | Some m \<Rightarrow> Some m) else ed_method e,
          case en_alias_kind (ed_notes e) of None \<Rightarrow> None | Some k \<Rightarrow> k))
       (newest clean_accept es)"

definition authoritative :: "acceptance_policy \<Rightarrow> string option \<Rightarrow> bool" where
  "authoritative policy kind = (case kind of None \<Rightarrow> False | Some k \<Rightarrow> k \<in> set (ap_source_kinds policy))"

definition gate_prior ::
  "text_reader \<Rightarrow> match_db \<Rightarrow> category_rules \<Rightarrow> acceptance_policy \<Rightarrow> edge list \<Rightarrow> target_ref \<Rightarrow> resolved \<Rightarrow> resolve_error + resolved" where
  "gate_prior tx db rules policy es t r =
     (case prior_basis es of
        None \<Rightarrow> Inr (demote r (PolicyMiss None (Some (tg_grain t)) None))
      | Some (how, kind) \<Rightarrow>
          if \<not> (how = Some MANUAL
               \<or> how = Some EXACT_ALIAS \<and> authoritative policy kind \<and> tg_grain t \<in> set (ap_grains policy))
          then Inr (demote r (PolicyMiss kind (Some (tg_grain t)) how))
          else
            (let keep = r\<lparr>rv_notes := (rv_notes r)\<lparr>en_alias_kind := Some kind, en_basis := how\<rparr>\<rparr> in
             if how = Some MANUAL then Inr keep
             else andThen (unratified_family tx db rules t) (\<lambda>u.
               Inr (case u of
                      None \<Rightarrow> keep
                    | Some k \<Rightarrow> (demote r (FamilyNotRatified k))\<lparr>rv_notes := (rv_notes r)\<lparr>en_alias_kind := Some kind\<rparr>\<rparr>))))"

definition gate_alias ::
  "text_reader \<Rightarrow> match_db \<Rightarrow> category_rules \<Rightarrow> acceptance_policy \<Rightarrow> target_ref \<Rightarrow> resolved \<Rightarrow> resolve_error + resolved" where
  "gate_alias tx db rules policy t r =
     (let kind = map_option ah_source_kind (lv_winning (rv_verdict r));
          noted = (\<lambda>q. q\<lparr>rv_notes := (rv_notes r)\<lparr>en_alias_kind := Some kind\<rparr>\<rparr>) in
      if \<not> authoritative policy kind \<or> tg_grain t \<notin> set (ap_grains policy)
      then Inr (demote r (PolicyMiss kind (Some (tg_grain t)) None))
      else if \<not> cr_auto_accept rules then Inr (noted (demote r AutoAcceptDisabled))
      else andThen (unratified_family tx db rules t) (\<lambda>u.
        Inr (noted (case u of None \<Rightarrow> r | Some k \<Rightarrow> demote r (FamilyNotRatified k)))))"

definition apply_category_gates ::
  "text_reader \<Rightarrow> match_db \<Rightarrow> edge list \<Rightarrow> string \<Rightarrow> category_rules \<Rightarrow> resolved \<Rightarrow> resolve_error + resolved" where
  "apply_category_gates tx db es slug rules r =
     (case lv_target (rv_verdict r) of
        None \<Rightarrow> Inr r
      | Some t \<Rightarrow>
          if lv_outcome (rv_verdict r) \<noteq> ACCEPT then Inr r
          else andThen (if tg_family_key t = None then target_category_of db t else Inr slug) (\<lambda>cat.
            if cat \<noteq> slug then Inr (demote r (CrossCategory cat))
            else case cr_acceptance rules of
              None \<Rightarrow> Inr r
            | Some policy \<Rightarrow>
                if lv_rung (rv_verdict r) = Some 0 then gate_prior tx db rules policy es t r
                else if lv_rung (rv_verdict r) \<noteq> Some 1 then Inr (demote r (PolicyMiss None None None))
                else gate_alias tx db rules policy t r))"

definition offer_contradiction_review :: "match_db \<Rightarrow> string \<Rightarrow> title_attributes \<Rightarrow> resolved \<Rightarrow> resolve_error + resolved" where
  "offer_contradiction_review db site_key x r =
     (if lv_outcome (rv_verdict r) \<noteq> ACCEPT then Inr r
      else case source_offer_conflict x site_key of
        Some c \<Rightarrow> Inr (demote r (OfferConditionConflict c))
      | None \<Rightarrow>
          (case lv_target (rv_verdict r) of
             None \<Rightarrow> Inr r
           | Some t \<Rightarrow>
               (case (tg_grain t, tg_variant t) of
                  (GRAIN_VARIANT, Some v) \<Rightarrow>
                    if lv_rung (rv_verdict r) = Some 0 then Inr r
                    else andThen (variant_contradictions db v x) (\<lambda>against.
                      Inr (if against = [] then r else demote r (VariantContradicted against)))
                | _ \<Rightarrow> Inr r)))"

end
