(* ===== verification/Resolution.thy ===== *)
theory Resolution
  imports Resolver
begin

text \<open>
  The writing half of the resolver (\<open>matching/resolver.py\<close>): one listing with its edges beside the catalog, the run of the
  ladder over it, the rows an accept creates, and \<open>_apply\<close>, which appends an edge and refreshes the listing's denormalized
  target. The catalog and the edges are read and written as one state; a database failure is a missing row.
\<close>

record resolution_db = match_db +
  rd_listing :: listing_row
  rd_edges :: "edge list"

section \<open>The run of the ladder\<close>

definition category_hint :: "listing_row \<Rightarrow> resolve_error + string option" where
  "category_hint l = (case li_hint l of None \<Rightarrow> Inr None | Some None \<Rightarrow> Inl HintNotText | Some (Some s) \<Rightarrow> Inr (Some s))"

definition structured_mpn :: "listing_row \<Rightarrow> string option" where
  "structured_mpn l = (case li_mpn l of None \<Rightarrow> None | Some s \<Rightarrow> if strip s = [] then None else Some s)"

definition category_notes :: "string \<Rightarrow> string option \<Rightarrow> edge_notes" where
  "category_notes slug hint = no_notes\<lparr>en_category := Some slug, en_hinted := hint \<noteq> None\<rparr>"

definition title_of :: "text_reader \<Rightarrow> string \<Rightarrow> category_rules \<Rightarrow> listing_row \<Rightarrow> string \<Rightarrow> title_attributes" where
  "title_of tx slug rules l text =
     with_source_offer_terms
       (case (cr_fold_structured rules, structured_mpn l) of
          (Some add, Some m) \<Rightarrow> add (tx_extract tx slug text) m
        | _ \<Rightarrow> tx_extract tx slug text) (li_site_key l)"

text \<open>Why the prior is decided again: its origin's version or identifiers, then the brand, then the offer.\<close>

definition reconsideration ::
  "resolution_db \<Rightarrow> category_rules \<Rightarrow> title_attributes \<Rightarrow> string list \<Rightarrow> prior_resolution option
     \<Rightarrow> resolve_error + (edge_notes \<Rightarrow> edge_notes) option" where
  "reconsideration db rules x ids prior =
     (case prior of
        None \<Rightarrow> Inr None
      | Some p \<Rightarrow>
          (case automated_origin (rd_edges db) of
             None \<Rightarrow> Inr None
           | Some origin \<Rightarrow>
               (case prior_reconsideration origin ids of
                  Some again \<Rightarrow> Inr (Some again)
                | None \<Rightarrow> andThen (brand_reconsideration (match_db.truncate db) p x) (\<lambda>b.
                    case b of
                      Some again \<Rightarrow> Inr (Some again)
                    | None \<Rightarrow> offer_reconsideration (match_db.truncate db) origin p x (cr_variant_on_demand rules)))))"

definition stamp_identifiers :: "string list \<Rightarrow> resolved \<Rightarrow> resolved" where
  "stamp_identifiers ids r =
     (if lv_outcome (rv_verdict r) = ACCEPT \<and> lv_rung (rv_verdict r) \<noteq> Some 0
      then r\<lparr>rv_notes := (rv_notes r)\<lparr>en_identifiers := Some ids\<rparr>\<rparr> else r)"

definition stamp_category :: "string \<Rightarrow> resolved \<Rightarrow> resolved" where
  "stamp_category slug r =
     r\<lparr>rv_verdict := (rv_verdict r)\<lparr>lv_target := map_option (\<lambda>t. t\<lparr>tg_category := Some slug\<rparr>) (lv_target (rv_verdict r))\<rparr>\<rparr>"

definition judge ::
  "text_reader \<Rightarrow> resolution_db \<Rightarrow> string \<Rightarrow> category_rules \<Rightarrow> title_attributes \<Rightarrow> mpn_candidate list \<Rightarrow> prior_resolution option
     \<Rightarrow> alias_hit list \<Rightarrow> string list \<Rightarrow> edge_notes \<Rightarrow> resolve_error + resolved" where
  "judge tx db slug rules x cs prior hits ids noted =
     (let v = decide (cr_veto rules) (cr_distinct_mpn_guard rules) x cs prior hits (first_decode (cr_decode rules) cs) in
      andThen (offer_contradiction_review (match_db.truncate db) (li_site_key (rd_listing db)) x \<lparr>rv_verdict = v, rv_notes = noted\<rparr>) (\<lambda>r.
      andThen (apply_category_gates tx (match_db.truncate db) (rd_edges db) slug rules (stamp_identifiers ids r)) (\<lambda>g.
        Inr (stamp_category slug g))))"

text \<open>\<open>_run_ladder\<close> under the rules of a category, from the prior on.\<close>

definition ladder_under_rules ::
  "text_reader \<Rightarrow> bool \<Rightarrow> resolution_db \<Rightarrow> string \<Rightarrow> category_rules \<Rightarrow> title_attributes \<Rightarrow> mpn_candidate list \<Rightarrow> edge_notes
     \<Rightarrow> resolve_error + resolved" where
  "ladder_under_rules tx reconsider db slug rules x cs noted =
     andThen (if reconsider then Inr None else prior_from_listing tx (match_db.truncate db) slug (rd_listing db)) (\<lambda>prior.
     andThen (alias_hits tx (match_db.truncate db) slug cs (li_site (rd_listing db))) (\<lambda>hits.
       let ids = identity_identifiers cs hits (cr_decode rules) in
       andThen (reconsideration db rules x ids prior) (\<lambda>again.
         case again of
           None \<Rightarrow> judge tx db slug rules x cs prior hits ids noted
         | Some because \<Rightarrow> judge tx db slug rules x cs None hits ids (because noted))))"

definition run_ladder ::
  "text_reader \<Rightarrow> bool \<Rightarrow> resolution_db \<Rightarrow> resolve_error + string \<times> title_attributes \<times> mpn_candidate list \<times> resolved" where
  "run_ladder tx reconsider db =
     (let l = rd_listing db; text = tx_canonical tx (li_title l) (li_condition_label l) in
      andThen (category_hint l) (\<lambda>hint.
      andThen (category_slug hint) (\<lambda>slug.
        case rules_for tx slug of
          None \<Rightarrow> Inr (text, no_title, [], \<lparr>rv_verdict = no_hit (base_evidence [] None),
            rv_notes = (category_notes slug hint)\<lparr>en_unsupported := True\<rparr>\<rparr>)
        | Some rules \<Rightarrow>
            (let x = title_of tx slug rules l text; cs = tx_candidates tx slug text (structured_mpn l) (li_site_key l) in
             andThen (ladder_under_rules tx reconsider db slug rules x cs ((category_notes slug hint)\<lparr>en_reconsider := reconsider\<rparr>))
               (\<lambda>r. Inr (text, x, cs, r))))))"

section \<open>The rows an accept creates\<close>

definition fresh_id :: "(int \<times> 'r) list \<Rightarrow> int" where
  "fresh_id rows = 1 + foldr (\<lambda>(i, _) m. max i m) rows 0"

definition find_row :: "('r \<Rightarrow> bool) \<Rightarrow> (int \<times> 'r) list \<Rightarrow> int option" where
  "find_row p rows = map_option fst (first_such (\<lambda>(_, r). p r) rows)"

definition get_or_create_family :: "text_reader \<Rightarrow> string \<Rightarrow> string \<times> string \<Rightarrow> resolution_db \<Rightarrow> resolve_error + resolution_db \<times> int" where
  "get_or_create_family tx slug key db =
     (let made = db\<lparr>mb_makers := (if fst key \<in> set (mb_makers db) then mb_makers db else mb_makers db @ [fst key])\<rparr>;
          name = tx_title tx (snd key) in
      if slug \<notin> set (mb_categories db) then Inl (NoSuchRow ''Category'')
      else case find_row (\<lambda>r. fm_maker r = fst key \<and> fm_name r = name) (mb_families db) of
        Some f \<Rightarrow> Inr (made, f)
      | None \<Rightarrow> (let f = fresh_id (mb_families db) in
          Inr (made\<lparr>mb_families := mb_families db @ [(f, \<lparr>fm_maker = fst key, fm_name = name, fm_category = slug\<rparr>)]\<rparr>, f)))"

definition variant_of :: "int \<Rightarrow> string \<Rightarrow> title_attributes \<Rightarrow> variant_row" where
  "variant_of m condition x =
     (let stated = (\<lambda>a. case a of None \<Rightarrow> ''unknown'' | Some v \<Rightarrow> at_value v) in
      \<lparr>vw_model = m, vw_condition = condition, vw_packaging = stated (ta_packaging x), vw_recert = stated (ta_recert_channel x),
       vw_warranty = stated (ta_warranty_channel x)\<rparr>)"

definition get_or_create_variant :: "variant_row \<Rightarrow> resolution_db \<Rightarrow> resolution_db \<times> int" where
  "get_or_create_variant row db =
     (case find_row (\<lambda>r. r = row) (mb_variants db) of
        Some v \<Rightarrow> (db, v)
      | None \<Rightarrow> (let v = fresh_id (mb_variants db) in (db\<lparr>mb_variants := mb_variants db @ [(v, row)]\<rparr>, v)))"

record live_target =
  lt_grain :: grain
  lt_family :: "int option"
  lt_model :: "int option"
  lt_variant :: "int option"
  lt_on_demand :: bool

definition no_target :: live_target where
  "no_target = \<lparr>lt_grain = GRAIN_NONE, lt_family = None, lt_model = None, lt_variant = None, lt_on_demand = False\<rparr>"

definition check_row :: "string \<Rightarrow> (int \<times> 'r) list \<Rightarrow> int option \<Rightarrow> resolve_error + int option" where
  "check_row table rows i =
     (case i of None \<Rightarrow> Inr None | Some k \<Rightarrow> andThen (fetch_row table rows k) (\<lambda>_. Inr (Some k)))"

definition materialize_family :: "text_reader \<Rightarrow> target_ref \<Rightarrow> resolution_db \<Rightarrow> resolve_error + resolution_db \<times> int option" where
  "materialize_family tx t db =
     (case tg_family_key t of
        Some key \<Rightarrow>
          (case tg_category t of
             None \<Rightarrow> Inl FamilyWithoutCategory
           | Some slug \<Rightarrow> andThen (get_or_create_family tx slug key db) (\<lambda>(db', f). Inr (db', Some f)))
      | None \<Rightarrow>
          if tg_grain t = GRAIN_FAMILY
          then andThen (check_row ''ProductFamily'' (mb_families db) (tg_family t)) (\<lambda>f. Inr (db, f))
          else Inr (db, None))"

definition variant_on_demand :: "text_reader \<Rightarrow> string option \<Rightarrow> bool" where
  "variant_on_demand tx category =
     (case category of
        None \<Rightarrow> True
      | Some slug \<Rightarrow> slug = [] \<or> (case rules_for tx slug of None \<Rightarrow> True | Some r \<Rightarrow> cr_variant_on_demand r))"

definition materialize :: "text_reader \<Rightarrow> title_attributes \<Rightarrow> target_ref \<Rightarrow> resolution_db \<Rightarrow> resolve_error + resolution_db \<times> live_target" where
  "materialize tx x t db =
     andThen (materialize_family tx t db) (\<lambda>(db', family).
     andThen (check_row ''ProductModel'' (mb_models db') (tg_model t)) (\<lambda>model.
     andThen (check_row ''ProductVariant'' (mb_variants db') (tg_variant t)) (\<lambda>variant.
       let as_is = \<lparr>lt_grain = tg_grain t, lt_family = family, lt_model = model, lt_variant = variant, lt_on_demand = False\<rparr> in
       case (model, ta_condition x) of
         (Some m, Some c) \<Rightarrow>
           if variant_on_demand tx (tg_category t) \<and> tg_grain t = GRAIN_MODEL
           then (case get_or_create_variant (variant_of m (at_value c) x) db' of
                   (db'', v) \<Rightarrow> Inr (db'', as_is\<lparr>lt_grain := GRAIN_VARIANT, lt_variant := Some v, lt_on_demand := True\<rparr>))
           else Inr (db', as_is)
       | _ \<Rightarrow> Inr (db', as_is))))"

definition learn :: "alias_row \<Rightarrow> (alias_row \<Rightarrow> bool) \<Rightarrow> alias_row list \<Rightarrow> alias_row list" where
  "learn row known_as rows = (if \<exists>a \<in> set rows. known_as a then rows else rows @ [row])"

definition learn_alias :: "int \<Rightarrow> int \<Rightarrow> bool \<Rightarrow> mpn_candidate \<Rightarrow> alias_row list \<Rightarrow> alias_row list" where
  "learn_alias site m dual c rows =
     (let row = \<lparr>ar_text = mc_normalized c, ar_type = ''oem_pn'', ar_site = None, ar_family = None, ar_model = Some m, ar_variant = None,
        ar_source_kind = ''listing_derived''\<rparr> in
      if mc_token c = OEM_PN \<and> dual
      then learn row (\<lambda>a. ar_type a = ''oem_pn'' \<and> ar_text a = mc_normalized c \<and> ar_site a = None \<and> ar_model a = Some m \<and> ar_family a = None) rows
      else if mc_token c = HOUSE_SKU
      then learn (row\<lparr>ar_type := ''other'', ar_site := Some site\<rparr>)
        (\<lambda>a. ar_type a = ''other'' \<and> ar_text a = mc_normalized c \<and> ar_site a = Some site) rows
      else rows)"

definition emit_learned_aliases :: "mpn_candidate list \<Rightarrow> int option \<Rightarrow> resolution_db \<Rightarrow> resolution_db" where
  "emit_learned_aliases cs model db =
     (case model of
        None \<Rightarrow> db
      | Some m \<Rightarrow> db\<lparr>mb_aliases := fold (learn_alias (li_site (rd_listing db)) m (\<exists>c \<in> set cs. mc_token c = MANUFACTURER_MPN)) cs (mb_aliases db)\<rparr>)"

section \<open>The fingerprint of a review\<close>

definition reason_key :: "review_reason \<Rightarrow> string list" where
  "reason_key r =
     (case r of
        Vetoed fs \<Rightarrow> map (\<lambda>f. ''veto:'' @ f) fs
      | BrandContradictsAlias _ _ \<Rightarrow> [''brand_contradicts_exact_alias'']
      | NoBrandEvidence \<Rightarrow> [''no_brand_evidence'']
      | ConflictingTargets _ \<Rightarrow> [''conflicting_targets'']
      | BrandContradictsDecode _ _ \<Rightarrow> [''brand_contradicts_decode'']
      | FamilyContradictsDecode _ _ \<Rightarrow> [''family_contradicts_decode'']
      | DecoderVeto _ \<Rightarrow> [''veto:capacity'']
      | ConflictingAliasModels _ \<Rightarrow> [''conflicting_alias_models'']
      | PriorModelNotNamed _ _ _ \<Rightarrow> [''prior_model_not_named'']
      | ReviewOnlyConflict _ _ \<Rightarrow> [''review_only_alias_conflict'']
      | Lot _ _ \<Rightarrow> [''lot'']
      | MultipleMpns _ \<Rightarrow> [''multiple_mpns'']
      | CrossCategory _ \<Rightarrow> [''cross_category'']
      | PolicyMiss _ _ _ \<Rightarrow> [''acceptance_policy'']
      | AutoAcceptDisabled \<Rightarrow> [''auto_accept_disabled'']
      | FamilyNotRatified None \<Rightarrow> [''family_not_ratified:none'']
      | FamilyNotRatified (Some k) \<Rightarrow> [''family_not_ratified:'' @ fst k @ ''/'' @ snd k]
      | OfferConditionConflict _ \<Rightarrow> [''offer_condition_conflict'']
      | VariantContradicted vs \<Rightarrow> map (\<lambda>v. ''variant_contradicted:'' @ fst v) vs)"

definition identity_key :: "string \<Rightarrow> string \<Rightarrow> string list" where
  "identity_key name v = (if v = [] then [] else [name @ '':'' @ v])"

definition review_fingerprint :: "ladder_evidence \<Rightarrow> string list" where
  "review_fingerprint e = sorted_set (concat (map reason_key (le_reasons e)) @ identity_key ''mpn_hypothesis'' (le_hypothesis e)
     @ identity_key ''vendor_hint'' (case le_vendor_hint e of None \<Rightarrow> [] | Some v \<Rightarrow> v))"

section \<open>Writing the edge\<close>

definition error_verdict :: "resolve_error \<Rightarrow> resolved" where
  "error_verdict e = \<lparr>rv_verdict = no_hit (base_evidence [] None), rv_notes = no_notes\<lparr>en_error := Some e\<rparr>\<rparr>"

definition is_error :: "resolved \<Rightarrow> bool" where "is_error r \<longleftrightarrow> en_error (rv_notes r) \<noteq> None"

definition accepted :: "resolved \<Rightarrow> bool" where "accepted r \<longleftrightarrow> lv_outcome (rv_verdict r) = ACCEPT"

definition error_edge :: "edge \<Rightarrow> bool" where "error_edge c \<longleftrightarrow> en_error (ed_notes c) \<noteq> None"

definition current_resolution :: "edge list \<Rightarrow> edge option" where "current_resolution es = first_such ed_current es"

definition category_changed :: "resolved \<Rightarrow> edge \<Rightarrow> bool" where
  "category_changed r c \<longleftrightarrow> \<not> error_edge c
     \<and> (case en_category (rv_notes r) of
          None \<Rightarrow> False
        | Some s \<Rightarrow> (case en_category (ed_notes c) of None \<Rightarrow> ''drive'' | Some q \<Rightarrow> q) \<noteq> s)"

text \<open>A poll that decides nothing new: the edge it repeats is current.\<close>

definition unchanged :: "resolved \<Rightarrow> edge \<Rightarrow> bool" where
  "unchanged r c \<longleftrightarrow>
     (if is_error r then en_error (ed_notes c) = en_error (rv_notes r)
      else \<not> error_edge c \<and> \<not> category_changed r c
        \<and> (if accepted r then lv_rung (rv_verdict r) = Some 0
           else ed_grain c = GRAIN_NONE \<and> ed_outcome c = lv_outcome (rv_verdict r)
             \<and> review_fingerprint (ed_evidence c) = review_fingerprint (lv_evidence (rv_verdict r))))"

definition redecided :: "resolved \<Rightarrow> bool" where
  "redecided r \<longleftrightarrow> en_from_version (rv_notes r) \<noteq> None \<or> en_prior (rv_notes r) \<noteq> None"

definition at_grain :: "grain \<Rightarrow> live_target \<Rightarrow> int option \<Rightarrow> int option" where
  "at_grain g t i = (if lt_grain t = g then i else None)"

definition same_target :: "live_target \<Rightarrow> edge \<Rightarrow> bool" where
  "same_target t c \<longleftrightarrow> ed_grain c = lt_grain t \<and> ed_family c = at_grain GRAIN_FAMILY t (lt_family t)
     \<and> ed_model c = at_grain GRAIN_MODEL t (lt_model t) \<and> ed_variant c = at_grain GRAIN_VARIANT t (lt_variant t)"

text \<open>Freshness only: the current edge's \<open>last_evaluated_at\<close> and the listing's normalized title.\<close>

definition touch_edge :: "int \<Rightarrow> edge \<Rightarrow> edge list \<Rightarrow> edge list" where
  "touch_edge now c es = map (\<lambda>e. if ed_id e = ed_id c then e\<lparr>ed_evaluated_at := now\<rparr> else e) es"

definition normalize_title :: "string \<Rightarrow> listing_row \<Rightarrow> listing_row" where
  "normalize_title text l = (if text = [] then l else l\<lparr>li_title_normalized := text\<rparr>)"

definition freshen :: "int \<Rightarrow> string \<Rightarrow> edge \<Rightarrow> resolution_db \<Rightarrow> resolution_db" where
  "freshen now text c db = db\<lparr>rd_edges := touch_edge now c (rd_edges db), rd_listing := normalize_title text (rd_listing db)\<rparr>"

definition new_edge :: "int \<Rightarrow> title_attributes \<Rightarrow> resolved \<Rightarrow> live_target \<Rightarrow> listing_row \<Rightarrow> nat \<Rightarrow> edge" where
  "new_edge now x r t l i =
     (let v = rv_verdict r in
      \<lparr>ed_id = i, ed_current = True, ed_superseded = None, ed_grain = lt_grain t, ed_family = at_grain GRAIN_FAMILY t (lt_family t),
       ed_model = at_grain GRAIN_MODEL t (lt_model t), ed_variant = at_grain GRAIN_VARIANT t (lt_variant t),
       ed_method = (if accepted r then lv_method v else None), ed_confidence = (if accepted r then lv_confidence v else None),
       ed_version = MATCHER_VERSION, ed_outcome = lv_outcome v, ed_rung = lv_rung v, ed_evidence = lv_evidence v, ed_notes = rv_notes r,
       ed_on_demand = lt_on_demand t,
       ed_variant_attrs = (if accepted r \<and> lv_rung v \<noteq> Some 0 \<and> lt_grain t \<in> {GRAIN_VARIANT, GRAIN_MODEL}
         then Some (asserted_variant_attributes x) else None),
       ed_denorm_preserved = (is_error r \<and> li_grain l \<noteq> GRAIN_NONE), ed_resolved_at = now, ed_evaluated_at = now\<rparr>)"

definition supersede :: "edge option \<Rightarrow> edge \<Rightarrow> edge list \<Rightarrow> edge list" where
  "supersede current new es =
     map (\<lambda>e. case current of
         None \<Rightarrow> e
       | Some c \<Rightarrow> if ed_id e = ed_id c then e\<lparr>ed_current := False, ed_superseded := Some (ed_id new)\<rparr> else e) es @ [new]"

definition denormalize :: "edge \<Rightarrow> listing_row \<Rightarrow> listing_row" where
  "denormalize e l = l\<lparr>li_grain := ed_grain e, li_confidence := ed_confidence e, li_family := ed_family e, li_model := ed_model e,
     li_variant := ed_variant e\<rparr>"

text \<open>The model an accept teaches aliases for: the edge's own, else its variant's.\<close>

definition taught_model :: "live_target \<Rightarrow> resolution_db \<Rightarrow> int option" where
  "taught_model t db =
     (case at_grain GRAIN_MODEL t (lt_model t) of
        Some m \<Rightarrow> Some m
      | None \<Rightarrow> (case lt_variant t of None \<Rightarrow> None | Some v \<Rightarrow> map_option vw_model (map_of (mb_variants db) v)))"

definition write_edge ::
  "int \<Rightarrow> string \<Rightarrow> title_attributes \<Rightarrow> mpn_candidate list \<Rightarrow> resolved \<Rightarrow> live_target \<Rightarrow> resolution_db \<Rightarrow> resolution_db" where
  "write_edge now text x cs r t db =
     (let e = new_edge now x r t (rd_listing db) (length (rd_edges db));
          edges = supersede (current_resolution (rd_edges db)) e (rd_edges db);
          l = normalize_title text (rd_listing db) in
      if is_error r then db\<lparr>rd_edges := edges, rd_listing := l\<rparr>
      else let db' = db\<lparr>rd_edges := edges, rd_listing := denormalize e l\<rparr> in
        if accepted r then emit_learned_aliases cs (taught_model t db') db' else db')"

definition apply_verdict ::
  "text_reader \<Rightarrow> int \<Rightarrow> string \<Rightarrow> title_attributes \<Rightarrow> mpn_candidate list \<Rightarrow> resolved \<Rightarrow> resolution_db \<Rightarrow> resolve_error + resolution_db" where
  "apply_verdict tx now text x cs r db =
     (let current = current_resolution (rd_edges db) in
      case (case current of None \<Rightarrow> None | Some c \<Rightarrow> if unchanged r c then Some c else None) of
        Some c \<Rightarrow> Inr (freshen now text c db)
      | None \<Rightarrow>
          (case (if accepted r then lv_target (rv_verdict r) else None) of
             None \<Rightarrow> Inr (write_edge now text x cs r no_target db)
           | Some target \<Rightarrow> andThen (materialize tx x target db) (\<lambda>(db', t).
               Inr (case current of
                      None \<Rightarrow> write_edge now text x cs r t db'
                    | Some c \<Rightarrow>
                        if \<not> error_edge c \<and> \<not> category_changed r c \<and> \<not> redecided r \<and> same_target t c then freshen now text c db'
                        else write_edge now text x cs r t db'))))"

definition resolve_listing :: "text_reader \<Rightarrow> bool \<Rightarrow> int \<Rightarrow> resolution_db \<Rightarrow> resolve_error + resolution_db" where
  "resolve_listing tx reconsider now db =
     (let (text, x, cs, r) = (case run_ladder tx reconsider db of Inl e \<Rightarrow> ([], no_title, [], error_verdict e) | Inr q \<Rightarrow> q) in
      case apply_verdict tx now text x cs r db of
        Inr db' \<Rightarrow> Inr db'
      | Inl e \<Rightarrow> apply_verdict tx now text no_title [] (error_verdict e) db)"

end
