(* ===== verification/LadderSafety.thy ===== *)
theory LadderSafety
  imports Ladder
begin

text \<open>What an accept of the ladder rests on, the shape of every verdict, and what the order of the hits decides.\<close>

section \<open>The rungs, case by case\<close>

lemma outcome_review [simp]: "lv_outcome (review_at r e reasons) = REVIEW" "lv_target (review_at r e reasons) = None"
  by (simp_all add: review_at_def)

lemma outcome_accept [simp]:
  "lv_outcome (accept_at r how t c e h) = ACCEPT" "lv_target (accept_at r how t c e h) = Some t" "lv_rung (accept_at r how t c e h) = Some r"
  by (simp_all add: accept_at_def)

lemma first_max_mem: "first_max f xs = Some y \<Longrightarrow> y \<in> set xs"
  by (induction xs arbitrary: y) (auto split: option.split_asm if_split_asm)

lemma first_max_None [simp]: "first_max f xs = None \<longleftrightarrow> xs = []"
  by (cases xs) (auto split: option.split)

definition brand_of :: "title_attributes \<Rightarrow> string option" where "brand_of x = map_option at_value (ta_brand x)"

text \<open>What grounds an accept at rung 1 on a hit.\<close>

definition grounded :: "veto \<Rightarrow> title_attributes \<Rightarrow> alias_hit \<Rightarrow> target_ref \<Rightarrow> bool" where
  "grounded veto x h t \<longleftrightarrow> brands_consistent (brand_of x) (ah_brand h) \<and> veto x (ah_hard h) = []
     \<and> (t = ah_target h \<and> has_brand_evidence (brand_of x) h
        \<or> ah_alias_type h = ''oem_pn'' \<and> tg_family (ah_target h) \<noteq> None \<and> t = family_target (tg_family (ah_target h)) None)"

lemma rung1_accept:
  assumes "rung1 veto x e hits = Some v" and "lv_outcome v = ACCEPT"
  shows "\<exists>h \<in> set hits. \<exists>t. lv_target v = Some t \<and> lv_rung v = Some 1 \<and> grounded veto x h t"
proof -
  let ?viable = "filter (\<lambda>h. brands_consistent (brand_of x) (ah_brand h)) hits"
  obtain best where best: "first_max hit_confidence ?viable = Some best"
    and v: "v = (if length (remdups (map (target_key \<circ> ah_target) ?viable)) = 1 then single_target veto x e (brand_of x) best
        else several_targets veto x e ?viable (length (remdups (map (target_key \<circ> ah_target) ?viable))))"
    using assms by (auto simp: rung1_def Let_def brand_of_def split: option.split_asm if_split_asm)
  have b: "best \<in> set hits" "brands_consistent (brand_of x) (ah_brand best)" using first_max_mem [OF best] by simp_all
  show ?thesis
  proof (cases "length (remdups (map (target_key \<circ> ah_target) ?viable)) = 1")
    case True
    then show ?thesis
      using assms(2) b unfolding v by (intro bexI [of _ best]) (auto simp: single_target_def Let_def grounded_def split: if_split_asm)
  next
    case False
    then have "lv_outcome (several_targets veto x e ?viable (length (remdups (map (target_key \<circ> ah_target) ?viable)))) = ACCEPT"
      using assms(2) v by simp
    then obtain f h where f: "remdups (map (tg_family \<circ> ah_target) ?viable) = [Some f]"
      and oem: "list_all (\<lambda>h. ah_alias_type h = ''oem_pn'') ?viable"
      and h: "first_max hit_confidence (filter (\<lambda>h. veto x (ah_hard h) = []) ?viable) = Some h"
      by (auto simp: several_targets_def Let_def split: list.split_asm option.split_asm if_split_asm)
    have hm: "h \<in> set ?viable" "veto x (ah_hard h) = []" using first_max_mem [OF h] by auto
    have "tg_family (ah_target h) \<in> set (remdups (map (tg_family \<circ> ah_target) ?viable))" using hm(1) by auto
    then have fam: "tg_family (ah_target h) = Some f" using f by simp
    have "v = accept_at 1 EXACT_ALIAS (family_target (Some f) None) OEM_FAMILY_FANOUT_CONFIDENCE
        (e\<lparr>le_oem_fanout := Some (length ?viable)\<rparr>) (Some h)"
      using v False f oem h by (simp add: several_targets_def Let_def)
    then show ?thesis
      using hm fam oem by (intro bexI [of _ h]) (auto simp: grounded_def list_all_iff)
  qed
qed

lemma rung1_None: "rung1 veto x e hits = None \<longleftrightarrow> hits = []"
  by (auto simp: rung1_def Let_def split: option.split)

lemma rung2_accept:
  assumes "lv_outcome (rung2 x e d f) = ACCEPT"
  shows "lv_target (rung2 x e d f) = Some (family_target None (Some (dr_vendor d, f))) \<and> lv_rung (rung2 x e d f) = Some 2
     \<and> brands_consistent (brand_of x) (Some (dr_vendor d)) \<and> family_conflicts x (dr_vendor d) f = []
     \<and> (\<forall>a b. ta_capacity_bytes x = Some a \<longrightarrow> dr_capacity_bytes d = Some b \<longrightarrow> \<not> capacities_differ (at_value a) b)"
  using assms by (auto simp: rung2_def Let_def brand_of_def split: if_split_asm option.split_asm)

lemma decide_accept:
  assumes "lv_outcome (decide veto guard x cs prior hits decoded) = ACCEPT"
  shows "decide veto guard x cs prior hits decoded = climb veto x cs prior (filter (\<lambda>h. \<not> ah_review_only h) hits) decoded"
    and "ambiguities guard x cs prior hits decoded (climb veto x cs prior (filter (\<lambda>h. \<not> ah_review_only h) hits) decoded) = []"
  using assms by (auto simp: decide_def Let_def split: list.split_asm if_split_asm)

text \<open>C3: No match is accepted unless it is earned. Whatever the rung: one unit is offered, the hits name models that
  some one model explains, (where the guard is on) the title's MPNs name one model, and no review-only hit
  on another model contradicts the accepted target's family or capacity. A prior is inherited only when the veto clears it
  and, if the hits name models, its model is among them. An exact alias is accepted on a hit that is not
  review-only, whose brand the listing does not contradict, which the veto clears, and either with brand evidence
  for that very target or as an OEM part number at family grain. A decode is accepted only when every alias hit, if
  there is any, is review-only, and brand, title family and capacity agree with it.\<close>

theorem accepted_match_is_earned:
  assumes "decide veto guard x cs prior hits decoded = v" and "lv_outcome v = ACCEPT"
  shows "\<exists>t. lv_target v = Some t \<and> lot_quantity (ta_quantity x) = [] \<and> conflicting_alias_models hits = []
     \<and> (guard \<longrightarrow> distinct_mpns cs hits = [])
     \<and> review_only_alias_conflicts t (accepted_target_attrs v prior decoded) hits = []
     \<and> (case prior of
          Some p \<Rightarrow> t = pn_target p \<and> veto x (pn_hard p) = [] \<and> prior_model_not_named prior hits = []
        | None \<Rightarrow> (\<exists>h \<in> set hits. \<not> ah_review_only h \<and> grounded veto x h t)
           \<or> (\<forall>h \<in> set hits. ah_review_only h)
             \<and> (\<exists>d f. decoded = Some d \<and> dr_family_name d = Some f \<and> t = family_target None (Some (dr_vendor d, f))
                \<and> brands_consistent (brand_of x) (Some (dr_vendor d)) \<and> family_conflicts x (dr_vendor d) f = []
                \<and> (\<forall>a b. ta_capacity_bytes x = Some a \<longrightarrow> dr_capacity_bytes d = Some b \<longrightarrow> \<not> capacities_differ (at_value a) b)))"
proof -
  let ?hits = "filter (\<lambda>h. \<not> ah_review_only h) hits"
  have acc: "lv_outcome (decide veto guard x cs prior hits decoded) = ACCEPT" using assms by simp
  have v: "v = climb veto x cs prior ?hits decoded" and a: "ambiguities guard x cs prior hits decoded v = []"
    using decide_accept [OF acc] assms(1) by simp_all
  have amb: "lot_quantity (ta_quantity x) = []" "conflicting_alias_models hits = []" "guard \<longrightarrow> distinct_mpns cs hits = []"
    and pm: "lv_rung v = Some 0 \<longrightarrow> prior_model_not_named prior hits = []"
    and ro: "\<And>t. lv_target v = Some t \<Longrightarrow> review_only_alias_conflicts t (accepted_target_attrs v prior decoded) hits = []"
    using a by (auto simp: ambiguities_def Let_def split: if_split_asm)
  show ?thesis
  proof (cases prior)
    case (Some p)
    have "v = accept_at 0 SOURCE_ALIAS (pn_target p) (pn_confidence p) (base_evidence cs decoded) None \<and> veto x (pn_hard p) = []"
      using v assms(2) Some by (auto simp: climb_def Let_def rung0_def split: if_split_asm)
    then show ?thesis using amb pm Some ro by simp
  next
    case None
    show ?thesis
    proof (cases "?hits = []")
      case False
      then obtain w where w: "rung1 veto x (base_evidence cs decoded) ?hits = Some w" using rung1_None by blast
      then have "v = w" using v None by (simp add: climb_def Let_def)
      then obtain h t where "h \<in> set ?hits" "lv_target v = Some t" "grounded veto x h t" using rung1_accept [OF w] assms(2) by blast
      then show ?thesis using amb None ro by auto
    next
      case True
      have r: "rung1 veto x (base_evidence cs decoded) ?hits = None" using True rung1_None by blast
      obtain d f where d: "decoded = Some d" "dr_family_name d = Some f" "v = rung2 x (base_evidence cs decoded) d f"
        using v assms(2) None r by (auto simp: climb_def Let_def no_hit_def split: option.split_asm list.split_asm)
      have "lv_outcome (rung2 x (base_evidence cs decoded) d f) = ACCEPT" using d(3) assms(2) by simp
      from rung2_accept [OF this] d True amb None ro show ?thesis by (auto simp: filter_empty_conv)
    qed
  qed
qed

section \<open>The shape of a verdict\<close>

definition conf_ok :: "rat option \<Rightarrow> bool" where
  "conf_ok c = (case c of None \<Rightarrow> False | Some q \<Rightarrow> 0 < q \<and> q \<le> 1)"

definition verdict_ok :: "ladder_verdict \<Rightarrow> bool" where
  "verdict_ok v =
     (case lv_outcome v of
        ACCEPT \<Rightarrow> (\<exists>t. lv_target v = Some t \<and> lv_grain v = tg_grain t) \<and> lv_method v \<noteq> None \<and> conf_ok (lv_confidence v)
          \<and> lv_rung v \<in> {Some 0, Some 1, Some 2} \<and> le_reasons (lv_evidence v) = []
      | REVIEW \<Rightarrow> lv_target v = None \<and> lv_grain v = GRAIN_NONE \<and> lv_method v = None \<and> lv_confidence v = None
          \<and> le_reasons (lv_evidence v) \<noteq> []
      | NO_HIT \<Rightarrow> lv_target v = None \<and> lv_grain v = GRAIN_NONE \<and> lv_method v = None \<and> lv_confidence v = None
          \<and> lv_rung v = None \<and> le_reasons (lv_evidence v) = [])"

lemma review_ok: "reasons \<noteq> [] \<Longrightarrow> verdict_ok (review_at r e reasons)"
  by (simp add: verdict_ok_def review_at_def)

lemma accept_ok: "r \<in> {0, 1, 2} \<Longrightarrow> 0 < c \<Longrightarrow> c \<le> 1 \<Longrightarrow> le_reasons e = [] \<Longrightarrow> verdict_ok (accept_at r how t c e h)"
  by (auto simp: verdict_ok_def accept_at_def conf_ok_def)

lemma hit_confidence_range: "0 < hit_confidence h" "hit_confidence h \<le> 1"
  by (simp_all add: hit_confidence_def confidence_by_source_kind_def)

lemma provenance_range: "0 < confidence_by_provenance p" "confidence_by_provenance p \<le> 1"
  by (cases p; simp add: confidence_by_provenance_def)+

lemma climb_ok:
  assumes "\<And>p. prior = Some p \<Longrightarrow> 0 < pn_confidence p \<and> pn_confidence p \<le> 1"
  shows "verdict_ok (climb veto x cs prior hits decoded)"
proof -
  let ?e = "base_evidence cs decoded"
  have e: "le_reasons ?e = []" "\<And>n. le_reasons (?e\<lparr>le_oem_fanout := n\<rparr>) = []" "\<And>n. le_reasons (?e\<lparr>le_provisional := n\<rparr>) = []"
    by (simp_all add: base_evidence_def)
  have r0: "verdict_ok (rung0 veto x ?e p)" if "prior = Some p" for p
    using assms [OF that] e by (auto simp: rung0_def Let_def intro: review_ok accept_ok)
  have one: "verdict_ok (single_target veto x ?e b h)" for b h
    using e hit_confidence_range by (auto simp: single_target_def Let_def intro: review_ok accept_ok)
  have many: "verdict_ok (several_targets veto x ?e hs n)" for hs n
    using e by (auto simp: several_targets_def Let_def OEM_FAMILY_FANOUT_CONFIDENCE_def intro!: review_ok accept_ok
        split: list.split option.split)
  have r1: "verdict_ok v" if "rung1 veto x ?e hits = Some v" for v
    using that one many by (auto simp: rung1_def Let_def intro!: review_ok split: if_split_asm option.split_asm)
  have r2: "verdict_ok (rung2 x ?e d f)" for d f
    using e provenance_range by (auto simp: rung2_def Let_def intro!: review_ok accept_ok split: option.split)
  have r3: "verdict_ok (no_hit ?e)" using e by (simp add: verdict_ok_def no_hit_def)
  show ?thesis unfolding climb_def Let_def using r0 r1 r2 r3 by (auto split: option.split list.split)
qed

lemma decide_ok:
  assumes "\<And>p. prior = Some p \<Longrightarrow> 0 < pn_confidence p \<and> pn_confidence p \<le> 1"
  shows "verdict_ok (decide veto guard x cs prior hits decoded)"
proof -
  have c: "verdict_ok (climb veto x cs prior (filter (\<lambda>h. \<not> ah_review_only h) hits) decoded)"
    by (rule climb_ok) (use assms in blast)
  show ?thesis
  proof (cases "lv_outcome (climb veto x cs prior (filter (\<lambda>h. \<not> ah_review_only h) hits) decoded) = ACCEPT")
    case False
    then show ?thesis using c by (simp add: decide_def Let_def)
  next
    case True
    then show ?thesis using c by (auto simp: decide_def Let_def intro: review_ok split: list.split)
  qed
qed

text \<open>Every verdict is well formed: an accept names its target at the target's grain, its method, its rung and a
  confidence in (0, 1], and carries no reason; a review names no target and carries its reason; a miss carries neither.\<close>

theorem verdicts_are_well_formed:
  assumes "\<And>p. prior = Some p \<Longrightarrow> 0 < pn_confidence p \<and> pn_confidence p \<le> 1"
  shows "verdict_ok (decide veto guard x cs prior hits decoded)"
  by (rule decide_ok) (use assms in blast)

section \<open>The order of the hits\<close>

lemma sorted_set_cong: "set xs = set ys \<Longrightarrow> sorted_set xs = sorted_set ys"
  unfolding sorted_set_def by (metis sorted_list_of_set_sort_remdups)

lemma set_sorted_set [simp]: "set (sorted_set xs) = set xs"
  by (simp add: sorted_set_def)

lemma remdups_length_cong: "set xs = set ys \<Longrightarrow> length (remdups xs) = length (remdups ys)"
  by (metis length_remdups_card_conv)

lemma remdups_single: "remdups xs = [a] \<longleftrightarrow> set xs = {a}"
proof
  assume "set xs = {a}"
  then have "set (remdups xs) = {a}" "distinct (remdups xs)" by simp_all
  then show "remdups xs = [a]" by (cases "remdups xs"; cases "tl (remdups xs)") auto
next
  assume "remdups xs = [a]"
  then have "set (remdups xs) = {a}" by simp
  then show "set xs = {a}" by simp
qed

lemma length_one: "length xs = 1 \<longleftrightarrow> (\<exists>a. xs = [a])"
  by (cases xs; cases "tl xs") auto

lemma map_filter_set: "set (List.map_filter f xs) = {y. \<exists>x \<in> set xs. f x = Some y}"
  by (induction xs) (auto simp: map_filter_simps split: option.split)

lemma first_max_cong:
  assumes "set xs = set ys"
  shows "map_option f (first_max f xs) = map_option f (first_max f ys)"
proof -
  have top: "\<forall>z \<in> set xs. f z \<le> f y" if "first_max f xs = Some y" for xs y
    using that by (induction xs arbitrary: y) (force split: option.split_asm if_split_asm)+
  show ?thesis
  proof (cases "first_max f xs")
    case None
    then show ?thesis using assms by (metis first_max_None set_empty2)
  next
    case (Some a)
    then obtain b where b: "first_max f ys = Some b" using assms by (metis first_max_None not_None_eq set_empty2)
    then have "f a = f b" using top [OF Some] top [OF b] first_max_mem [OF Some] first_max_mem [OF b] assms by (simp add: order_antisym)
    then show ?thesis using Some b by simp
  qed
qed

text \<open>Each demotion reads the hits as a set.\<close>

lemma models_named_cong: "set hits = set hits' \<Longrightarrow> set (models_named hits i) = set (models_named hits' i)"
  by (simp add: models_named_def map_filter_set)

lemma conflicting_cong:
  assumes "set hits = set hits'"
  shows "conflicting_alias_models hits = conflicting_alias_models hits'"
proof -
  have "sorted_set (map ah_normalized (naming_hits hits)) = sorted_set (map ah_normalized (naming_hits hits'))"
    using assms by (intro sorted_set_cong) (simp add: naming_hits_def)
  moreover have "(\<lambda>i. set (models_named hits i)) = (\<lambda>i. set (models_named hits' i))" using models_named_cong [OF assms] by blast
  then have "\<And>i. set (models_named hits i) = set (models_named hits' i)" by (rule fun_cong)
  ultimately show ?thesis by (simp add: conflicting_alias_models_def Let_def cong: list.case_cong)
qed

lemma distinct_mpns_cong:
  assumes "set hits = set hits'"
  shows "distinct_mpns cs hits = distinct_mpns cs hits'"
proof -
  have "set (map (tg_model \<circ> ah_target) (filter P hits)) = set (map (tg_model \<circ> ah_target) (filter P hits'))" for P
    using assms by simp
  note remdups_length_cong [OF this]
  then show ?thesis unfolding distinct_mpns_def Let_def set_remdups set_map set_filter assms by simp
qed

lemma prior_named_cong:
  assumes "set hits = set hits'"
  shows "prior_model_not_named prior hits = prior_model_not_named prior hits'"
proof -
  have "set (List.map_filter (tg_model \<circ> ah_target) hits) = set (List.map_filter (tg_model \<circ> ah_target) hits')"
    using assms by (simp add: map_filter_set)
  moreover from this have "List.map_filter (tg_model \<circ> ah_target) hits = [] \<longleftrightarrow> List.map_filter (tg_model \<circ> ah_target) hits' = []"
    by (metis set_empty2)
  moreover have "sorted_set (map ah_normalized (naming_hits hits)) = sorted_set (map ah_normalized (naming_hits hits'))"
    using assms by (intro sorted_set_cong) (simp add: naming_hits_def)
  ultimately show ?thesis
    by (auto simp: prior_model_not_named_def Let_def intro: sorted_set_cong split: option.split)
qed

lemma review_only_cong:
  assumes "set hits = set hits'"
  shows "review_only_alias_conflicts t a hits = review_only_alias_conflicts t a hits'"
proof -
  let ?f = "filter (\<lambda>h. review_only_fields t a h \<noteq> [])"
  have s: "set (?f hits) = set (?f hits')" using assms by simp
  then have "?f hits = [] \<longleftrightarrow> ?f hits' = []" by (metis set_empty2)
  moreover have "sorted_set (map ah_normalized (?f hits)) = sorted_set (map ah_normalized (?f hits'))"
    "sorted_set (concat (map (review_only_fields t a) (?f hits))) = sorted_set (concat (map (review_only_fields t a) (?f hits')))"
    by (rule sorted_set_cong; use s in simp)+
  ultimately show ?thesis by (simp add: review_only_alias_conflicts_def Let_def)
qed

text \<open>What the resolver acts on of a verdict.\<close>

definition same_decision :: "ladder_verdict \<Rightarrow> ladder_verdict \<Rightarrow> bool" where
  "same_decision v w \<longleftrightarrow> lv_outcome v = lv_outcome w \<and> lv_grain v = lv_grain w \<and> lv_rung v = lv_rung w \<and> lv_method v = lv_method w
     \<and> lv_target v = lv_target w \<and> lv_confidence v = lv_confidence w"

text \<open>The catalog side of a hit follows from its target, and its family's name from its family.\<close>

definition hits_agree :: "alias_hit set \<Rightarrow> bool" where
  "hits_agree S \<longleftrightarrow> (\<forall>h \<in> S. \<forall>k \<in> S. (target_key (ah_target h) = target_key (ah_target k) \<longrightarrow> ah_target h = ah_target k \<and> ah_hard h = ah_hard k)
     \<and> (tg_family (ah_target h) = tg_family (ah_target k) \<and> tg_family (ah_target h) \<noteq> None \<longrightarrow> ha_family (ah_hard h) = ha_family (ah_hard k)))"

lemma same_decision_refl [simp]: "same_decision v v"
  by (simp add: same_decision_def)

definition alike :: "ladder_verdict \<Rightarrow> ladder_verdict \<Rightarrow> bool" where
  "alike v w \<longleftrightarrow> same_decision v w
     \<and> (\<forall>prior d. accepted_target_attrs v prior d = accepted_target_attrs w prior d)"

lemma alike_refl [simp]: "alike v v" by (simp add: alike_def)

lemma alike_accept:
  assumes "le_oem_fanout e = le_oem_fanout e' \<and> ah_hard h = ah_hard k
     \<or> le_oem_fanout e \<noteq> None \<and> le_oem_fanout e' \<noteq> None \<and> ha_family (ah_hard h) = ha_family (ah_hard k)"
  shows "alike (accept_at (Suc 0) how t c e (Some h)) (accept_at (Suc 0) how t c e' (Some k))"
  using assms by (auto simp: alike_def same_decision_def accept_at_def accepted_target_attrs_def)

lemma single_alike:
  assumes "target_key (ah_target h) = target_key (ah_target k)" and "hits_agree S" "h \<in> S" "k \<in> S"
    and "hit_confidence h = hit_confidence k"
  shows "alike (single_target veto x e (Some b) h) (single_target veto x e (Some b) k)"
proof -
  have "ah_target h = ah_target k" "ah_hard h = ah_hard k" using assms(1-4) unfolding hits_agree_def by blast+
  then show ?thesis
    using assms(5) by (simp add: single_target_def Let_def has_brand_evidence_def alike_accept)
qed

lemma several_alike:
  assumes s: "set V = set W" and g: "hits_agree (set V)"
  shows "alike (several_targets veto x e V n) (several_targets veto x e W n)"
proof (cases "\<exists>f. set (map (tg_family \<circ> ah_target) V) = {Some f}")
  case False
  then have "remdups (map (tg_family \<circ> ah_target) V) \<noteq> [Some f]" "remdups (map (tg_family \<circ> ah_target) W) \<noteq> [Some f]" for f
    using s by (simp_all add: remdups_single)
  then show ?thesis by (simp add: several_targets_def Let_def split: list.split option.split)
next
  case True
  then obtain f where f: "set (map (tg_family \<circ> ah_target) V) = {Some f}" by blast
  then have fv: "remdups (map (tg_family \<circ> ah_target) V) = [Some f]" "remdups (map (tg_family \<circ> ah_target) W) = [Some f]"
    using s by (simp_all add: remdups_single)
  have fam: "tg_family (ah_target h) = Some f" if "h \<in> set V" for h using f that by auto
  let ?c = "filter (\<lambda>h. veto x (ah_hard h) = [])"
  have l: "list_all P V = list_all P W" for P using s by (simp add: list_all_iff)
  have "set (?c V) = set (?c W)" using s by simp
  then consider "?c V = []" "?c W = []" | h k where "first_max hit_confidence (?c V) = Some h" "first_max hit_confidence (?c W) = Some k"
    by (metis first_max_None not_None_eq set_empty2)
  then show ?thesis
  proof cases
    case 1
    then show ?thesis using fv l by (simp add: several_targets_def Let_def)
  next
    case (2 h k)
    have "h \<in> set V" "k \<in> set V" using first_max_mem [OF 2(1)] first_max_mem [OF 2(2)] s by auto
    then have "ha_family (ah_hard h) = ha_family (ah_hard k)" using g fam unfolding hits_agree_def by (metis option.distinct(1))
    then show ?thesis
      using fv l 2 by (simp add: several_targets_def Let_def alike_accept)
  qed
qed

lemma rung1_alike:
  assumes s: "set hits = set hits'" and g: "hits_agree (set hits)" and b: "ta_brand x \<noteq> None"
  shows "rel_option alike (rung1 veto x e hits) (rung1 veto x e hits')"
proof -
  obtain a where a: "ta_brand x = Some a" using b by auto
  define b where "b = at_value a"
  have b: "map_option at_value (ta_brand x) = Some b" by (simp add: a b_def)
  let ?f = "filter (\<lambda>h. brands_consistent (Some b) (ah_brand h))"
  let ?k = "\<lambda>hs. map (target_key \<circ> ah_target) (?f hs)"
  have v: "set (?f hits) = set (?f hits')" "hits_agree (set (?f hits))" using s g by (auto simp: hits_agree_def)
  have n: "length (remdups (?k hits)) = length (remdups (?k hits'))" using v(1) by (intro remdups_length_cong) simp
  have br: "sorted_set (filter (\<lambda>b. b \<noteq> []) (List.map_filter ah_brand hits)) = sorted_set (filter (\<lambda>b. b \<noteq> []) (List.map_filter ah_brand hits'))"
    using s by (intro sorted_set_cong) (simp add: map_filter_set)
  have emp: "hits = [] \<longleftrightarrow> hits' = []" "?f hits = [] \<longleftrightarrow> ?f hits' = []" using s v(1) by (metis set_empty2)+
  show ?thesis
  proof (cases "?f hits = []")
    case True
    then show ?thesis using emp br unfolding rung1_def Let_def b by simp
  next
    case False
    then obtain h k where h: "first_max hit_confidence (?f hits) = Some h" and k: "first_max hit_confidence (?f hits') = Some k"
      using emp(2) by (metis first_max_None not_None_eq)
    have c: "hit_confidence h = hit_confidence k" using first_max_cong [OF v(1), of hit_confidence] h k by simp
    have m: "h \<in> set (?f hits)" "k \<in> set (?f hits)" using first_max_mem [OF h] first_max_mem [OF k] v(1) by blast+
    have one: "alike (single_target veto x e (Some b) h) (single_target veto x e (Some b) k)" if l: "length (remdups (?k hits)) = 1"
    proof (rule single_alike [OF _ v(2) m c])
      obtain q where "remdups (?k hits) = [q]" using l unfolding length_one by blast
      then have "set (?k hits) = {q}" by (simp add: remdups_single)
      moreover have "target_key (ah_target h) \<in> set (?k hits)" "target_key (ah_target k) \<in> set (?k hits)" using m by auto
      ultimately show "target_key (ah_target h) = target_key (ah_target k)" by auto
    qed
    show ?thesis
      using False emp h k n one several_alike [OF v] unfolding rung1_def Let_def b by (simp del: map_option_eq_Some)
  qed
qed

text \<open>C19: With a brand in the title, the order in which the catalog returns the alias hits, and how often it returns one,
  changes nothing of the decision: outcome, grain, rung, method, target and confidence follow from the set of hits.\<close>

theorem hit_order_is_immaterial:
  assumes s: "set hits = set hits'" and g: "hits_agree (set hits)" and b: "ta_brand x \<noteq> None"
  shows "same_decision (decide veto guard x cs prior hits decoded) (decide veto guard x cs prior hits' decoded)"
proof -
  let ?g = "filter (\<lambda>h. \<not> ah_review_only h)"
  have sg: "set (?g hits) = set (?g hits')" "hits_agree (set (?g hits))" using s g by (auto simp: hits_agree_def)
  let ?v = "climb veto x cs prior (?g hits) decoded" and ?w = "climb veto x cs prior (?g hits') decoded"
  have "rel_option alike (rung1 veto x (base_evidence cs decoded) (?g hits)) (rung1 veto x (base_evidence cs decoded) (?g hits'))"
    by (rule rung1_alike [OF sg b])
  then have a: "alike ?v ?w"
    by (cases prior) (auto simp: climb_def Let_def option_rel_Some1 option_rel_Some2 split: option.split list.split)
  then have o: "lv_outcome ?v = lv_outcome ?w" "lv_rung ?v = lv_rung ?w" "lv_target ?v = lv_target ?w"
    "\<And>prior d. accepted_target_attrs ?v prior d = accepted_target_attrs ?w prior d" by (simp_all add: alike_def same_decision_def)
  have amb: "ambiguities guard x cs prior hits decoded ?v = ambiguities guard x cs prior hits' decoded ?w"
    unfolding ambiguities_def Let_def o conflicting_cong [OF s] distinct_mpns_cong [OF s] prior_named_cong [OF s] review_only_cong [OF s] ..
  show ?thesis
    using a o amb by (auto simp: decide_def Let_def alike_def same_decision_def review_at_def split: list.split)
qed

lemma one_model_no_conflict:
  assumes t: "\<And>h. h \<in> set hits \<Longrightarrow> tg_model (ah_target h) = m"
  shows "conflicting_alias_models hits = []"
proof (cases m)
  case None
  then have "naming_hits hits = []" using t by (simp add: naming_hits_def filter_empty_conv)
  then show ?thesis by (simp add: conflicting_alias_models_def sorted_set_def)
next
  case (Some n)
  let ?S = "sorted_set (map ah_normalized (naming_hits hits))"
  have n: "n \<in> set (models_named hits i)" if i: "i \<in> set ?S" for i
  proof -
    obtain h where "h \<in> set hits" "ah_normalized h = i" using i by (auto simp: naming_hits_def)
    then show ?thesis using t Some by (auto simp: models_named_def map_filter_set)
  qed
  have "\<exists>q \<in> set (models_named hits i). \<forall>k \<in> set (j # rest). q \<in> set (models_named hits k)" if s: "?S = i # j # rest" for i j rest
    by (rule bexI [of _ n]) (use n s in simp_all)
  then show ?thesis by (auto simp: conflicting_alias_models_def Let_def split: list.split)
qed

text \<open>C29: Without a brand in the title the order does decide. For a single unit without a prior, and where the
  category has no \<open>distinct_mpn_guard\<close>: of two hits on one target, of one source kind, one a structured part number and one a bare title
  token without vendor, \<open>max\<close> keeps the first the database returns, and only that one is asked for brand evidence: the
  same listing against the same catalog is accepted in one row order and reviewed in the other.\<close>

theorem tie_order_decides:
  assumes "ta_brand x = None" and "lot_quantity (ta_quantity x) = []"
    and "ah_target h = ah_target k" "ah_source_kind h = ah_source_kind k" "veto x (ah_hard h) = []" "ah_hard h = ah_hard k"
    and "ah_structured h" "\<not> ah_structured k" "ah_vendor k = []" and "\<not> ah_review_only h" "\<not> ah_review_only k"
  shows "lv_outcome (decide veto False x cs None [h, k] decoded) = ACCEPT \<and> lv_outcome (decide veto False x cs None [k, h] decoded) = REVIEW"
proof -
  have c: "conflicting_alias_models [h, k] = []" by (rule one_model_no_conflict) (use assms(3) in auto)
  have r: "review_only_alias_conflicts t a [h, k] = []" for t a
    using assms by (simp add: review_only_alias_conflicts_def review_only_fields_def)
  have m: "hit_confidence h = hit_confidence k" using assms by (simp add: hit_confidence_def)
  have b: "has_brand_evidence None h" "\<not> has_brand_evidence None k" using assms by (simp_all add: has_brand_evidence_def)
  have v: "brands_consistent None q" for q by (simp add: brands_consistent_def)
  have one: "decide veto False x cs None [h, k] decoded =
      accept_at 1 EXACT_ALIAS (ah_target h) (hit_confidence h) (base_evidence cs decoded) (Some h)"
    using assms c r m b v by (simp add: decide_def climb_def rung1_def single_target_def ambiguities_def Let_def)
  have two: "decide veto False x cs None [k, h] decoded = review_at (Some 1) (base_evidence cs decoded) [NoBrandEvidence]"
    using assms m b v by (simp add: decide_def climb_def rung1_def single_target_def Let_def)
  show ?thesis unfolding one two by simp
qed

section \<open>Instances\<close>

definition branded_title :: title_attributes where
  "branded_title = no_title\<lparr>ta_brand := Some \<lparr>at_value = ''seagate'', confidence = 9 / 10, layer = ''title'', source_text = ''Seagate''\<rparr>\<rparr>"

definition sample_hit :: "string \<Rightarrow> bool \<Rightarrow> alias_hit" where
  "sample_hit text structured = \<lparr>ah_target = \<lparr>tg_grain = GRAIN_MODEL, tg_family = Some 3, tg_model = Some 7, tg_variant = None,
     tg_family_key = None, tg_category = None\<rparr>, ah_source_kind = ''catalog_authoritative'', ah_alias_type = ''mpn'',
     ah_brand = Some ''seagate'', ah_hard = no_hard, ah_vendor = [], ah_structured = structured, ah_normalized = text, ah_review_only = False\<rparr>"

lemmas ladder_eval = decide_def climb_def rung1_def single_target_def ambiguities_def brands_consistent_def contradictions_def
  no_title_def branded_title_def sample_hit_def no_hard_def accept_at_def base_evidence_def hit_confidence_def has_brand_evidence_def
  named_where_def differs_def family_conflicts_def target_key_def lot_quantity_def review_only_alias_conflicts_def review_only_fields_def

lemma tie_order_decides_witness:
  "lv_outcome (decide contradictions False no_title [] None [sample_hit ''A1'' True, sample_hit ''B2'' False] None) = ACCEPT
   \<and> lv_outcome (decide contradictions False no_title [] None [sample_hit ''B2'' False, sample_hit ''A1'' True] None) = REVIEW"
  by (rule tie_order_decides) (simp_all add: ladder_eval)

lemma hit_order_is_immaterial_witness:
  "same_decision (decide contradictions True branded_title [] None [sample_hit ''A1'' True, sample_hit ''B2'' False] None)
     (decide contradictions True branded_title [] None [sample_hit ''B2'' False, sample_hit ''A1'' True, sample_hit ''B2'' False] None)"
  by (rule hit_order_is_immaterial) (auto simp: hits_agree_def sample_hit_def branded_title_def)

lemma verdicts_are_well_formed_witness:
  "verdict_ok (decide contradictions True branded_title [] (Some \<lparr>pn_target = family_target (Some 3) None, pn_confidence = 9 / 10,
     pn_hard = no_hard\<rparr>) [] None)"
  by (rule verdicts_are_well_formed) auto

lemma sample_accept:
  "decide contradictions True branded_title [] None [sample_hit ''A1'' True] None =
     accept_at 1 EXACT_ALIAS (ah_target (sample_hit ''A1'' True)) (98 / 100) (base_evidence [] None) (Some (sample_hit ''A1'' True))"
  by (simp add: ladder_eval conflicting_alias_models_def naming_hits_def sorted_set_def distinct_mpns_def confidence_by_source_kind_def)

lemma accepted_match_is_earned_witness:
  "\<exists>t. lv_target (decide contradictions True branded_title [] None [sample_hit ''A1'' True] None) = Some t
     \<and> grounded contradictions branded_title (sample_hit ''A1'' True) t"
  using accepted_match_is_earned [of contradictions True branded_title "[]" None "[sample_hit ''A1'' True]" None, OF refl]
  unfolding sample_accept by (auto simp: sample_hit_def)

end
