(* ===== verification/ResolutionSafety.thy ===== *)
theory ResolutionSafety
  imports Resolution LadderSafety
begin

text \<open>
  The ledger of resolutions: one current edge, coherent targets, and a listing that shows its last clean decision; what an
  error leaves alone; what a repeated verdict writes; and what the gates of a category let through.
\<close>

section \<open>Targets\<close>

definition ref_ok :: "target_ref \<Rightarrow> bool" where
  "ref_ok t =
     (case tg_grain t of
        GRAIN_NONE \<Rightarrow> False
      | GRAIN_FAMILY \<Rightarrow> (tg_family_key t \<noteq> None \<or> tg_family t \<noteq> None)
      | GRAIN_MODEL \<Rightarrow> tg_model t \<noteq> None
      | GRAIN_VARIANT \<Rightarrow> tg_variant t \<noteq> None)"

definition live_ok :: "live_target \<Rightarrow> bool" where
  "live_ok t =
     (case lt_grain t of
        GRAIN_NONE \<Rightarrow> True
      | GRAIN_FAMILY \<Rightarrow> lt_family t \<noteq> None
      | GRAIN_MODEL \<Rightarrow> lt_model t \<noteq> None
      | GRAIN_VARIANT \<Rightarrow> lt_variant t \<noteq> None)"

lemma check_row_same: "check_row t rows i = Inr j \<Longrightarrow> j = i"
  by (cases i) (auto simp: check_row_def andThen_eq_Inr)

definition plain_target :: "target_ref \<Rightarrow> int option \<Rightarrow> live_target" where
  "plain_target t f = \<lparr>lt_grain = tg_grain t, lt_family = f, lt_model = tg_model t, lt_variant = tg_variant t, lt_on_demand = False\<rparr>"

lemma materialize_cases:
  assumes "materialize tx x t db = Inr (db', l)"
  obtains db1 f where "materialize_family tx t db = Inr (db1, f)" "check_row ''ProductModel'' (mb_models db1) (tg_model t) = Inr (tg_model t)"
    "check_row ''ProductVariant'' (mb_variants db1) (tg_variant t) = Inr (tg_variant t)"
    "(db' = db1 \<and> l = plain_target t f
       \<and> \<not> (tg_model t \<noteq> None \<and> ta_condition x \<noteq> None \<and> variant_on_demand tx (tg_category t) \<and> tg_grain t = GRAIN_MODEL))
     \<or> (\<exists>m c v. tg_model t = Some m \<and> ta_condition x = Some c \<and> variant_on_demand tx (tg_category t) \<and> tg_grain t = GRAIN_MODEL
         \<and> get_or_create_variant (variant_of m (at_value c) x) db1 = (db', v)
         \<and> l = (plain_target t f)\<lparr>lt_grain := GRAIN_VARIANT, lt_variant := Some v, lt_on_demand := True\<rparr>)"
proof -
  obtain db1 f where 1: "materialize_family tx t db = Inr (db1, f)"
    using assms by (auto simp: materialize_def andThen_eq_Inr)
  obtain m where 2: "check_row ''ProductModel'' (mb_models db1) (tg_model t) = Inr m"
    using assms 1 by (auto simp: materialize_def andThen_eq_Inr)
  obtain v where 3: "check_row ''ProductVariant'' (mb_variants db1) (tg_variant t) = Inr v"
    using assms 1 2 by (auto simp: materialize_def andThen_eq_Inr)
  have mv: "m = tg_model t" "v = tg_variant t" using check_row_same [OF 2] check_row_same [OF 3] by simp_all
  note parts = 1 2 [unfolded mv] 3 [unfolded mv]
  show ?thesis
    by (rule that [OF parts])
      (use assms parts in \<open>auto simp: materialize_def andThen_def plain_target_def Let_def split: option.split_asm if_split_asm prod.split_asm\<close>)
qed

lemma materialize_family_some:
  assumes "materialize_family tx t db = Inr (db1, f)" and "ref_ok t" and "tg_grain t = GRAIN_FAMILY"
  shows "f \<noteq> None"
  using assms by (auto simp: materialize_family_def andThen_eq_Inr ref_ok_def split: option.split_asm dest!: check_row_same)

lemma materialize_live:
  assumes "materialize tx x t db = Inr (db', l)" and "ref_ok t"
  shows "live_ok l \<and> lt_grain l \<noteq> GRAIN_NONE"
proof -
  obtain db1 f where f: "materialize_family tx t db = Inr (db1, f)"
    and l: "l = plain_target t f \<or> (\<exists>v. l = (plain_target t f)\<lparr>lt_grain := GRAIN_VARIANT, lt_variant := Some v, lt_on_demand := True\<rparr>)"
    using assms(1) by (rule materialize_cases) blast
  from l show ?thesis
  proof
    assume "l = plain_target t f"
    then show ?thesis
      using assms(2) materialize_family_some [OF f assms(2)]
      by (cases "tg_grain t") (auto simp: live_ok_def plain_target_def ref_ok_def)
  qed (auto simp: live_ok_def)
qed

section \<open>The ledger\<close>

text \<open>\<open>listing_resolution_grain_target_coherent\<close> and \<open>listing_resolution_accept_carries_method\<close>.\<close>

definition edge_ok :: "edge \<Rightarrow> bool" where
  "edge_ok e \<longleftrightarrow>
     (case ed_grain e of
        GRAIN_NONE \<Rightarrow> ed_family e = None \<and> ed_model e = None \<and> ed_variant e = None
      | GRAIN_FAMILY \<Rightarrow> ed_family e \<noteq> None \<and> ed_model e = None \<and> ed_variant e = None
      | GRAIN_MODEL \<Rightarrow> ed_family e = None \<and> ed_model e \<noteq> None \<and> ed_variant e = None
      | GRAIN_VARIANT \<Rightarrow> ed_family e = None \<and> ed_model e = None \<and> ed_variant e \<noteq> None)
     \<and> (ed_grain e \<noteq> GRAIN_NONE \<longrightarrow> ed_method e \<noteq> None \<and> ed_confidence e \<noteq> None)"

definition chain_ok :: "edge list \<Rightarrow> bool" where
  "chain_ok es \<longleftrightarrow> (\<forall>i < length es. ed_id (es ! i) = i \<and> ed_current (es ! i) = (Suc i = length es)
     \<and> ed_superseded (es ! i) = (if Suc i = length es then None else Some (Suc i)) \<and> edge_ok (es ! i))"

definition shows_edge :: "listing_row \<Rightarrow> edge \<Rightarrow> bool" where
  "shows_edge l e \<longleftrightarrow> li_grain l = ed_grain e \<and> li_family l = ed_family e \<and> li_model l = ed_model e \<and> li_variant l = ed_variant e
     \<and> li_confidence l = ed_confidence e"

definition unresolved :: "listing_row \<Rightarrow> bool" where
  "unresolved l \<longleftrightarrow> li_grain l = GRAIN_NONE \<and> li_family l = None \<and> li_model l = None \<and> li_variant l = None"

definition shows_last_clean :: "listing_row \<Rightarrow> edge list \<Rightarrow> bool" where
  "shows_last_clean l es =
     (let clean = filter (\<lambda>e. \<not> error_edge e) es in if clean = [] then unresolved l else shows_edge l (last clean))"

definition aliases_ok :: "alias_row list \<Rightarrow> bool" where
  "aliases_ok rows \<longleftrightarrow> (\<forall>a \<in> set rows. ar_variant a \<noteq> None \<or> ar_model a \<noteq> None \<or> ar_family a \<noteq> None)"

definition resolution_ok :: "resolution_db \<Rightarrow> bool" where
  "resolution_ok db \<longleftrightarrow> chain_ok (rd_edges db) \<and> shows_last_clean (rd_listing db) (rd_edges db) \<and> aliases_ok (mb_aliases db)"

lemma ledger_current:
  assumes "chain_ok es"
  shows "current_resolution es = (if es = [] then None else Some (last es))"
proof (cases "es = []")
  case False
  have "first_such ed_current es = Some (last es)"
    using assms False
  proof (induction es rule: rev_induct)
    case (snoc e es)
    have "\<not> ed_current d" if "d \<in> set es" for d
    proof -
      obtain i where "i < length es" "es ! i = d" using \<open>d \<in> set es\<close> by (auto simp: in_set_conv_nth)
      then show ?thesis using snoc.prems(1) by (auto simp: chain_ok_def nth_append dest!: spec [of _ i])
    qed
    then have "first_such ed_current es = None" by (simp add: first_such_None)
    moreover have "ed_current e" using snoc.prems(1) by (auto simp: chain_ok_def nth_append dest!: spec [of _ "length es"])
    ultimately show ?case by (simp add: first_such_append)
  qed simp
  then show ?thesis using False by (simp add: current_resolution_def)
qed (simp add: current_resolution_def)

section \<open>What an accept of the run carries\<close>

definition accept_form :: "ladder_verdict \<Rightarrow> bool" where
  "accept_form v \<longleftrightarrow> lv_method v \<noteq> None \<and> lv_confidence v \<noteq> None \<and> (\<exists>t. lv_target v = Some t \<and> ref_ok t)"

lemma accept_form_at: "ref_ok t \<Longrightarrow> accept_form (accept_at r how t c e h)"
  by (simp add: accept_form_def accept_at_def)

lemma family_ref_ok: "key \<noteq> None \<or> f \<noteq> None \<Longrightarrow> ref_ok (family_target f key)"
  by (auto simp: ref_ok_def family_target_def)

lemma review_not_accept [simp]: "lv_outcome (no_hit e) = NO_HIT"
  by (simp add: no_hit_def)

lemma rung1_form:
  assumes "rung1 veto x e hits = Some v" "lv_outcome v = ACCEPT" "\<forall>h \<in> set hits. ref_ok (ah_target h)"
  shows "accept_form v"
proof -
  have one: "accept_form (single_target veto x e b h)" if "lv_outcome (single_target veto x e b h) = ACCEPT" "ref_ok (ah_target h)" for b h
    using that by (auto simp: single_target_def Let_def accept_form_at split: if_split_asm)
  have many: "accept_form (several_targets veto x e V n)" if "lv_outcome (several_targets veto x e V n) = ACCEPT" for V n
    using that by (auto simp: several_targets_def Let_def intro!: accept_form_at family_ref_ok
        split: list.split_asm option.split_asm if_split_asm)
  show ?thesis
    using assms one many first_max_mem [of hit_confidence]
    by (fastforce simp: rung1_def Let_def split: option.split_asm if_split_asm)
qed

lemma rung2_form: "lv_outcome (rung2 x e d f) = ACCEPT \<Longrightarrow> accept_form (rung2 x e d f)"
  by (auto simp: rung2_def Let_def intro!: accept_form_at family_ref_ok split: if_split_asm option.split_asm)

lemma decide_form:
  assumes "lv_outcome (decide veto guard x cs prior hits decoded) = ACCEPT"
    and "\<And>p. prior = Some p \<Longrightarrow> ref_ok (pn_target p)" and "\<forall>h \<in> set hits. ref_ok (ah_target h)"
  shows "accept_form (decide veto guard x cs prior hits decoded)"
proof -
  let ?hits = "filter (\<lambda>h. \<not> ah_review_only h) hits"
  have v: "decide veto guard x cs prior hits decoded = climb veto x cs prior ?hits decoded" using decide_accept(1) [OF assms(1)] .
  then have c: "lv_outcome (climb veto x cs prior ?hits decoded) = ACCEPT" using assms(1) by simp
  have h: "\<forall>h \<in> set ?hits. ref_ok (ah_target h)" using assms(3) by simp
  show ?thesis
  proof (cases prior)
    case (Some p)
    then show ?thesis
      using c assms(2) unfolding v by (auto simp: climb_def Let_def rung0_def accept_form_at split: if_split_asm)
  next
    case None
    show ?thesis
    proof (cases "rung1 veto x (base_evidence cs decoded) ?hits")
      case (Some w)
      then have "climb veto x cs prior ?hits decoded = w" using None by (simp add: climb_def Let_def)
      then show ?thesis using rung1_form [OF Some _ h] c v by simp
    next
      case r: None
      then obtain d f where "climb veto x cs prior ?hits decoded = rung2 x (base_evidence cs decoded) d f"
        using c None by (auto simp: climb_def Let_def split: option.split_asm list.split_asm)
      then show ?thesis using rung2_form c v by simp
    qed
  qed
qed

lemma prior_ref_ok: "prior_from_listing tx db slug l = Inr (Some p) \<Longrightarrow> ref_ok (pn_target p)"
  by (auto simp: prior_from_listing_def Let_def andThen_eq_Inr ref_ok_def split: option.split_asm if_split_asm)

lemma alias_ref_ok:
  assumes "alias_target tx db slug a = Inr (t, b, h)" and "ar_variant a \<noteq> None \<or> ar_model a \<noteq> None \<or> ar_family a \<noteq> None"
  shows "ref_ok t"
  using assms by (auto simp: alias_target_def Let_def andThen_eq_Inr ref_ok_def family_target_def split: option.split_asm)

lemma alias_hits_ok:
  assumes "hits_of_rows tx db slug cs site rows = Inr hits" and "aliases_ok rows"
  shows "\<forall>h \<in> set hits. ref_ok (ah_target h)"
  using assms
proof (induction rows arbitrary: hits)
  case (Cons a rows)
  have ok: "aliases_ok rows" "ar_variant a \<noteq> None \<or> ar_model a \<noteq> None \<or> ar_family a \<noteq> None"
    using Cons.prems(2) by (simp_all add: aliases_ok_def)
  consider "hits_of_rows tx db slug cs site rows = Inr hits"
    | t b h hs k where "alias_target tx db slug a = Inr (t, b, h)" "hits_of_rows tx db slug cs site rows = Inr hs" "hits = k # hs" "ah_target k = t"
    using Cons.prems(1) by (auto simp: andThen_eq_Inr split: option.split_asm if_split_asm)
  then show ?case
  proof cases
    case 1
    then show ?thesis using Cons.IH ok(1) by blast
  next
    case (2 t b h hs k)
    then show ?thesis using Cons.IH [OF 2(2) ok(1)] alias_ref_ok [OF 2(1) ok(2)] by simp
  qed
qed simp

lemma offer_review_accept:
  assumes "offer_contradiction_review db key x r = Inr q" and "lv_outcome (rv_verdict q) = ACCEPT"
  shows "q = r"
  using assms
  by (auto simp: offer_contradiction_review_def demote_def andThen_eq_Inr split: if_split_asm option.split_asm grain.split_asm)

lemma gates_accept:
  assumes "apply_category_gates tx db es slug rules r = Inr q" and "lv_outcome (rv_verdict q) = ACCEPT"
  shows "rv_verdict q = rv_verdict r"
  using assms
  by (auto simp: apply_category_gates_def gate_prior_def gate_alias_def demote_def andThen_eq_Inr Let_def
      split: if_split_asm option.split_asm prod.split_asm)

lemma offer_review_notes: "offer_contradiction_review db key x r = Inr q \<Longrightarrow> rv_notes q = rv_notes r"
  by (auto simp: offer_contradiction_review_def demote_def andThen_eq_Inr split: if_split_asm option.split_asm grain.split_asm)

lemma gates_notes:
  assumes "apply_category_gates tx db es slug rules r = Inr q"
  shows "en_error (rv_notes q) = en_error (rv_notes r) \<and> en_category (rv_notes q) = en_category (rv_notes r)
    \<and> en_from_version (rv_notes q) = en_from_version (rv_notes r) \<and> en_prior (rv_notes q) = en_prior (rv_notes r)
    \<and> en_identifiers (rv_notes q) = en_identifiers (rv_notes r)"
  using assms
  by (auto simp: apply_category_gates_def gate_prior_def gate_alias_def demote_def andThen_eq_Inr Let_def
      split: if_split_asm option.split_asm prod.split_asm)

definition error_free :: "(edge_notes \<Rightarrow> edge_notes) \<Rightarrow> bool" where
  "error_free f \<longleftrightarrow> (\<forall>n. en_error (f n) = en_error n)"

lemma reconsideration_error_free: "reconsideration db rules x ids prior = Inr (Some f) \<Longrightarrow> error_free f"
  by (auto simp: reconsideration_def prior_reconsideration_def brand_reconsideration_def offer_reconsideration_def version_changed_def
      error_free_def andThen_eq_Inr Let_def split: option.split_asm if_split_asm grain.split_asm)

lemma ref_ok_category [simp]: "ref_ok (t\<lparr>tg_category := c\<rparr>) = ref_ok t"
  by (cases "tg_grain t") (simp_all add: ref_ok_def)

lemma judge_result:
  assumes "judge tx db slug rules x cs prior hits ids noted = Inr r"
    and "\<And>p. prior = Some p \<Longrightarrow> ref_ok (pn_target p)" and "\<forall>h \<in> set hits. ref_ok (ah_target h)"
  shows "en_error (rv_notes r) = en_error noted \<and> (accepted r \<longrightarrow> accept_form (rv_verdict r))"
proof -
  let ?v = "decide (cr_veto rules) (cr_distinct_mpn_guard rules) x cs prior hits (first_decode (cr_decode rules) cs)"
  obtain q g where q: "offer_contradiction_review (match_db.truncate db) (li_site_key (rd_listing db)) x \<lparr>rv_verdict = ?v, rv_notes = noted\<rparr> = Inr q"
    and g: "apply_category_gates tx (match_db.truncate db) (rd_edges db) slug rules (stamp_identifiers ids q) = Inr g"
    and r: "r = stamp_category slug g"
    using assms(1) by (auto simp: judge_def Let_def andThen_eq_Inr)
  have n: "en_error (rv_notes r) = en_error noted"
    using offer_review_notes [OF q] gates_notes [OF g] r by (simp add: stamp_category_def stamp_identifiers_def split: if_split_asm)
  have "accept_form (rv_verdict r)" if "accepted r"
  proof -
    have acc: "lv_outcome (rv_verdict g) = ACCEPT" using that r by (simp add: accepted_def stamp_category_def)
    then have gv: "rv_verdict g = rv_verdict q" using gates_accept [OF g] by (simp add: stamp_identifiers_def split: if_split_asm)
    then have "lv_outcome (rv_verdict q) = ACCEPT" using acc by simp
    then have "rv_verdict g = ?v" using offer_review_accept [OF q] gv by simp
    then have "accept_form (rv_verdict g)" using decide_form [OF _ assms(2,3)] acc by simp
    then show ?thesis by (auto simp: r stamp_category_def accept_form_def)
  qed
  then show ?thesis using n by blast
qed

lemma ladder_under_rules_result:
  assumes "ladder_under_rules tx reconsider db slug rules x cs noted = Inr r" and "aliases_ok (mb_aliases db)" and n: "en_error noted = None"
  shows "\<not> is_error r \<and> (accepted r \<longrightarrow> accept_form (rv_verdict r))"
proof -
  obtain prior where p: "(if reconsider then Inr None else prior_from_listing tx (match_db.truncate db) slug (rd_listing db)) = Inr prior"
    using assms(1) by (auto simp: ladder_under_rules_def andThen_def split: sum.split_asm)
  obtain hits where h: "alias_hits tx (match_db.truncate db) slug cs (li_site (rd_listing db)) = Inr hits"
    using assms(1) p by (auto simp: ladder_under_rules_def andThen_def split: sum.split_asm)
  let ?ids = "identity_identifiers cs hits (cr_decode rules)"
  obtain f where f: "reconsideration db rules x ?ids prior = Inr f"
    using assms(1) p h by (auto simp: ladder_under_rules_def andThen_def Let_def split: sum.split_asm)
  have j: "(case f of None \<Rightarrow> judge tx db slug rules x cs prior hits ?ids noted
      | Some g \<Rightarrow> judge tx db slug rules x cs None hits ?ids (g noted)) = Inr r"
    using assms(1) p h f by (simp add: ladder_under_rules_def andThen_def Let_def)
  have hok: "\<forall>h \<in> set hits. ref_ok (ah_target h)"
    using alias_hits_ok [OF h [unfolded alias_hits_def]] assms(2) by (simp add: match_db.truncate_def)
  have pok: "\<And>q. prior = Some q \<Longrightarrow> ref_ok (pn_target q)" using p prior_ref_ok by (auto split: if_split_asm)
  show ?thesis
  proof (cases f)
    case None
    then show ?thesis using judge_result [OF _ pok hok] j n by (simp add: is_error_def)
  next
    case (Some g)
    then have "en_error (g noted) = None" using reconsideration_error_free [of db rules x ?ids prior g] f n by (simp add: error_free_def)
    then show ?thesis using judge_result [of tx db slug rules x cs None hits ?ids "g noted" r] j Some hok by (simp add: is_error_def)
  qed
qed

lemma run_ladder_result:
  assumes "run_ladder tx reconsider db = Inr (text, x, cs, r)" and "aliases_ok (mb_aliases db)"
  shows "\<not> is_error r \<and> (accepted r \<longrightarrow> accept_form (rv_verdict r))"
proof -
  have en: "en_error ((category_notes slug hint)\<lparr>en_reconsider := reconsider\<rparr>) = None" "en_error (category_notes slug hint) = None" for slug hint
    by (simp_all add: category_notes_def no_notes_def)
  obtain hint slug where hs: "category_hint (rd_listing db) = Inr hint" "category_slug hint = Inr slug"
    using assms(1) by (auto simp: run_ladder_def Let_def andThen_eq_Inr)
  show ?thesis
  proof (cases "rules_for tx slug")
    case None
    then show ?thesis
      using assms(1) hs en by (auto simp: run_ladder_def Let_def andThen_eq_Inr is_error_def accepted_def)
  next
    case (Some rules)
    then obtain w d where "ladder_under_rules tx reconsider db slug rules w d ((category_notes slug hint)\<lparr>en_reconsider := reconsider\<rparr>) = Inr r"
      using assms(1) hs by (auto simp: run_ladder_def Let_def andThen_eq_Inr)
    then show ?thesis using ladder_under_rules_result en(1) assms(2) by blast
  qed
qed

section \<open>The invariant\<close>

lemma touch_length [simp]: "length (touch_edge now c es) = length es"
  by (simp add: touch_edge_def)

lemma supersede_length [simp]: "length (supersede c e es) = Suc (length es)"
  by (simp add: supersede_def)

lemma edge_ok_update [simp]:
  "edge_ok (e\<lparr>ed_current := c\<rparr>) = edge_ok e" "edge_ok (e\<lparr>ed_superseded := i\<rparr>) = edge_ok e" "edge_ok (e\<lparr>ed_evaluated_at := n\<rparr>) = edge_ok e"
  by (cases "ed_grain e"; simp add: edge_ok_def)+

lemma error_edge_update [simp]:
  "error_edge (e\<lparr>ed_current := c\<rparr>) = error_edge e" "error_edge (e\<lparr>ed_superseded := i\<rparr>) = error_edge e"
  "error_edge (e\<lparr>ed_evaluated_at := n\<rparr>) = error_edge e"
  by (simp_all add: error_edge_def)

lemma ledger_touch:
  assumes "chain_ok es"
  shows "chain_ok (touch_edge now c es)"
  using assms by (auto simp: chain_ok_def touch_edge_def)

lemma ledger_supersede:
  assumes es: "chain_ok es" and e: "ed_id e = length es" "ed_current e" "ed_superseded e = None" "edge_ok e"
  shows "chain_ok (supersede (current_resolution es) e es)"
proof (cases "es = []")
  case True
  then show ?thesis using e by (simp add: chain_ok_def supersede_def)
next
  case False
  have l: "ed_id (last es) = length es - 1"
    using es False by (auto simp: chain_ok_def last_conv_nth)
  have i: "ed_id (es ! i) = i" if "i < length es" for i using es that by (simp add: chain_ok_def)
  show ?thesis
    unfolding ledger_current [OF es]
    using es e False l i by (auto simp: chain_ok_def supersede_def nth_append less_Suc_eq)
qed

lemma denorm_touch: "shows_last_clean l es \<Longrightarrow> shows_last_clean l (touch_edge now c es)"
proof -
  assume a: "shows_last_clean l es"
  have f: "filter (\<lambda>e. \<not> error_edge e) (touch_edge now c es) = touch_edge now c (filter (\<lambda>e. \<not> error_edge e) es)"
    by (induction es) (auto simp: touch_edge_def)
  show ?thesis
  proof (cases "filter (\<lambda>e. \<not> error_edge e) es = []")
    case True
    then show ?thesis using a f by (simp add: shows_last_clean_def Let_def touch_edge_def)
  next
    case False
    then show ?thesis using a unfolding shows_last_clean_def Let_def f
      by (auto simp: touch_edge_def last_map shows_edge_def)
  qed
qed

definition retire :: "edge option \<Rightarrow> nat \<Rightarrow> edge \<Rightarrow> edge" where
  "retire c i e = (case c of None \<Rightarrow> e | Some d \<Rightarrow> if ed_id e = ed_id d then e\<lparr>ed_current := False, ed_superseded := Some i\<rparr> else e)"

lemma supersede_retire: "supersede c e es = map (retire c (ed_id e)) es @ [e]"
  by (simp add: supersede_def retire_def)

lemma retire_simps [simp]: "error_edge (retire c i e) = error_edge e" "shows_edge l (retire c i e) = shows_edge l e"
  by (simp_all add: retire_def shows_edge_def split: option.split)

lemma filter_retire: "filter (\<lambda>e. \<not> error_edge e) (map (retire c i) es) = map (retire c i) (filter (\<lambda>e. \<not> error_edge e) es)"
  by (induction es) auto

lemma denorm_error:
  assumes "shows_last_clean l es" and "error_edge e"
  shows "shows_last_clean l (supersede c e es)"
  using assms by (simp add: shows_last_clean_def Let_def supersede_retire filter_retire last_map)

lemma denorm_clean:
  assumes "\<not> error_edge e" and "shows_edge l e"
  shows "shows_last_clean l (supersede c e es)"
  using assms by (simp add: shows_last_clean_def Let_def supersede_retire filter_retire)

lemma shows_title [simp]:
  "shows_last_clean (normalize_title text l) es = shows_last_clean l es"
  by (simp add: shows_last_clean_def shows_edge_def unresolved_def normalize_title_def)

lemma learned_ok: "aliases_ok rows \<Longrightarrow> aliases_ok (fold (learn_alias site m dual) cs rows)"
proof (induction cs arbitrary: rows)
  case (Cons c cs)
  have "aliases_ok (learn_alias site m dual c rows)"
    using Cons.prems by (auto simp: aliases_ok_def learn_alias_def learn_def Let_def)
  then show ?case using Cons.IH by simp
qed simp

lemma emit_simps [simp]:
  "rd_edges (emit_learned_aliases cs m db) = rd_edges db" "rd_listing (emit_learned_aliases cs m db) = rd_listing db"
  "aliases_ok (mb_aliases db) \<Longrightarrow> aliases_ok (mb_aliases (emit_learned_aliases cs m db))"
  by (auto simp: emit_learned_aliases_def intro: learned_ok split: option.split)

lemma resolution_freshen: "resolution_ok db \<Longrightarrow> resolution_ok (freshen now text c db)"
  by (simp add: resolution_ok_def freshen_def ledger_touch denorm_touch)

definition edge_written :: "resolved \<Rightarrow> live_target \<Rightarrow> bool" where
  "edge_written r t \<longleftrightarrow> live_ok t \<and> (lt_grain t \<noteq> GRAIN_NONE \<longrightarrow> accepted r \<and> accept_form (rv_verdict r))"

lemma new_edge_ok: "edge_written r t \<Longrightarrow> edge_ok (new_edge now x r t l i)"
  by (cases "lt_grain t") (auto simp: edge_written_def edge_ok_def new_edge_def Let_def at_grain_def live_ok_def accept_form_def)

lemma new_edge_simps [simp]:
  "ed_id (new_edge now x r t l i) = i" "ed_current (new_edge now x r t l i)" "ed_superseded (new_edge now x r t l i) = None"
  "error_edge (new_edge now x r t l i) = is_error r"
  by (simp_all add: new_edge_def Let_def error_edge_def is_error_def)

lemma resolution_write:
  assumes "resolution_ok db" and "edge_written r t"
  shows "resolution_ok (write_edge now text x cs r t db)"
proof -
  let ?e = "new_edge now x r t (rd_listing db) (length (rd_edges db))"
  let ?es = "supersede (current_resolution (rd_edges db)) ?e (rd_edges db)"
  have l: "chain_ok ?es" using assms by (intro ledger_supersede) (simp_all add: resolution_ok_def new_edge_ok)
  have s: "shows_edge (denormalize ?e k) ?e" for k by (simp add: shows_edge_def denormalize_def)
  show ?thesis
    using assms(1) l s by (auto simp: resolution_ok_def write_edge_def Let_def denorm_error denorm_clean)
qed

lemma materialize_keeps:
  assumes "materialize tx x t db = Inr (db', l)"
  shows "rd_edges db' = rd_edges db \<and> rd_listing db' = rd_listing db \<and> mb_aliases db' = mb_aliases db"
proof -
  obtain db1 f where f: "materialize_family tx t db = Inr (db1, f)" and r: "db' = db1 \<or> (\<exists>row v. get_or_create_variant row db1 = (db', v))"
    using assms by (rule materialize_cases) blast
  have "rd_edges db1 = rd_edges db \<and> rd_listing db1 = rd_listing db \<and> mb_aliases db1 = mb_aliases db"
    using f by (auto simp: materialize_family_def get_or_create_family_def andThen_eq_Inr Let_def split: option.split_asm if_split_asm)
  then show ?thesis using r by (auto simp: get_or_create_variant_def Let_def split: option.split_asm)
qed

lemma apply_ok:
  assumes "resolution_ok db" and "apply_verdict tx now text x cs r db = Inr db'" and "accepted r \<longrightarrow> accept_form (rv_verdict r)"
  shows "resolution_ok db'"
proof -
  have nt: "edge_written r no_target" by (simp add: edge_written_def live_ok_def no_target_def)
  show ?thesis
  proof (cases "accepted r \<and> \<not> (\<exists>c. current_resolution (rd_edges db) = Some c \<and> unchanged r c)")
    case False
    then show ?thesis
      using assms(1,2) resolution_write [OF assms(1) nt]
      by (auto simp: apply_verdict_def Let_def resolution_freshen split: option.split_asm if_split_asm)
  next
    case True
    then obtain t where t: "lv_target (rv_verdict r) = Some t" "ref_ok t" and u: "accepted r"
      using assms(3) by (auto simp: accept_form_def)
    then obtain db1 l where m: "materialize tx x t db = Inr (db1, l)"
      and d: "db' = write_edge now text x cs r l db1 \<or> (\<exists>c. db' = freshen now text c db1)"
      using assms(2) True by (auto simp: apply_verdict_def Let_def andThen_eq_Inr split: option.split_asm if_split_asm)
    have "edge_written r l" using materialize_live [OF m t(2)] u assms(3) by (simp add: edge_written_def)
    moreover have "resolution_ok db1" using assms(1) materialize_keeps [OF m] by (simp add: resolution_ok_def)
    ultimately show ?thesis using d resolution_write resolution_freshen by blast
  qed
qed

lemma apply_error_total: "is_error r \<Longrightarrow> \<not> accepted r \<Longrightarrow> \<exists>db'. apply_verdict tx now text x cs r db = Inr db'"
  by (auto simp: apply_verdict_def Let_def split: option.split)

lemma error_verdict_simps [simp]: "is_error (error_verdict e)" "\<not> accepted (error_verdict e)"
  by (simp_all add: error_verdict_def is_error_def accepted_def no_hit_def)

lemma resolve_ok:
  assumes "resolution_ok db"
  shows "\<exists>db'. resolve_listing tx reconsider now db = Inr db' \<and> resolution_ok db'"
proof -
  obtain s x cs r where q: "(case run_ladder tx reconsider db of Inl e \<Rightarrow> ([], no_title, [], error_verdict e) | Inr q \<Rightarrow> q) = (s, x, cs, r)"
    by (metis prod_cases4)
  have f: "accepted r \<longrightarrow> accept_form (rv_verdict r)"
    using q run_ladder_result assms by (auto simp: resolution_ok_def split: sum.split_asm)
  show ?thesis
  proof (cases "apply_verdict tx now s x cs r db")
    case (Inr db')
    then show ?thesis using apply_ok [OF assms Inr f] q by (simp add: resolve_listing_def)
  next
    case (Inl e)
    obtain db' where "apply_verdict tx now s no_title [] (error_verdict e) db = Inr db'"
      using apply_error_total [OF error_verdict_simps] by blast
    then show ?thesis using apply_ok [OF assms, of tx now s no_title "[]" "error_verdict e"] q Inl by (simp add: resolve_listing_def)
  qed
qed

section \<open>Histories\<close>

text \<open>What happens to a listing between its creation and now: it is resolved (by any matcher, reconsidering or not), observed
  again with another title, label or snapshot, or the catalog is imported anew.\<close>

datatype resolution_event = Resolve text_reader bool int | Observe string string "string option option" "string option" | Import match_db

definition reobserved :: "string \<Rightarrow> string \<Rightarrow> string option option \<Rightarrow> string option \<Rightarrow> resolution_db \<Rightarrow> resolution_db" where
  "reobserved title label hint mpn db =
     db\<lparr>rd_listing := (rd_listing db)\<lparr>li_title := title, li_condition_label := label, li_hint := hint, li_mpn := mpn\<rparr>\<rparr>"

definition reimported :: "match_db \<Rightarrow> resolution_db \<Rightarrow> resolution_db" where
  "reimported c db = match_db.extend c \<lparr>rd_listing = rd_listing db, rd_edges = rd_edges db\<rparr>"

inductive resolution_step :: "resolution_db \<Rightarrow> resolution_event \<Rightarrow> resolution_db \<Rightarrow> bool" where
  resolves: "resolve_listing tx reconsider now db = Inr db' \<Longrightarrow> resolution_step db (Resolve tx reconsider now) db'"
| observes: "resolution_step db (Observe title label hint mpn) (reobserved title label hint mpn db)"
| imports_catalog: "aliases_ok (mb_aliases c) \<Longrightarrow> resolution_step db (Import c) (reimported c db)"

interpretation resolutions: invariant resolution_step resolution_ok
proof
  fix db a db'
  assume "resolution_step db a db'" "resolution_ok db"
  then show "resolution_ok db'"
  proof (cases rule: resolution_step.cases)
    case (resolves tx reconsider now)
    then show ?thesis using resolve_ok [OF \<open>resolution_ok db\<close>, of tx reconsider now] by auto
  qed (auto simp: resolution_ok_def reobserved_def reimported_def match_db.extend_def shows_last_clean_def shows_edge_def unresolved_def Let_def
      split: if_split_asm)
qed

text \<open>C5: Resolution never gates ingestion and keeps its ledger through any history of re-observations, catalog imports and
  resolutions: the next \<open>resolve_listing\<close> returns, the edges form one chain (each superseded by its successor, the last alone
  current), every edge has exactly the target its grain asks for and an accept its method and confidence, and the listing's
  denormalized columns are those of the last edge that is not an error.\<close>

theorem resolution_keeps_its_ledger:
  assumes "resolution_ok db" and "steps resolution_step db events db1"
  shows "\<exists>db2. resolve_listing tx reconsider now db1 = Inr db2 \<and> resolution_ok db1 \<and> resolution_ok db2"
proof -
  have "resolution_ok db1" by (rule resolutions.steps_inv [OF assms(2,1)])
  then show ?thesis using resolve_ok by blast
qed

end
