(* ===== verification/ResolutionRepeat.thy ===== *)
theory ResolutionRepeat
  imports ResolutionSafety
begin

text \<open>What a failed run leaves alone, what a repeated verdict writes, and what a reconsidering run may take away.\<close>

section \<open>Errors\<close>

definition same_denorm :: "listing_row \<Rightarrow> listing_row \<Rightarrow> bool" where
  "same_denorm l k \<longleftrightarrow> k = l\<lparr>li_title_normalized := li_title_normalized k\<rparr>"

lemma same_denorm_title: "same_denorm l (normalize_title s l)"
  by (simp add: same_denorm_def normalize_title_def)

lemma apply_error:
  assumes "is_error r" "\<not> accepted r" "apply_verdict tx now s x cs r db = Inr db'" and "resolution_ok db"
  shows "match_db.truncate db' = match_db.truncate db \<and> same_denorm (rd_listing db) (rd_listing db')
     \<and> rd_edges db' \<noteq> [] \<and> en_error (ed_notes (last (rd_edges db'))) = en_error (rv_notes r)"
proof (cases "\<exists>c. current_resolution (rd_edges db) = Some c \<and> unchanged r c")
  case True
  then obtain c where c: "current_resolution (rd_edges db) = Some c" "unchanged r c" by blast
  then have d: "db' = freshen now s c db" using assms(3) by (simp add: apply_verdict_def Let_def)
  have "rd_edges db \<noteq> []" "c = last (rd_edges db)"
    using c(1) ledger_current assms(4) by (auto simp: resolution_ok_def split: if_split_asm)
  moreover have "en_error (ed_notes c) = en_error (rv_notes r)" using c(2) assms(1) by (simp add: unchanged_def)
  ultimately show ?thesis
    by (auto simp: d freshen_def match_db.truncate_def same_denorm_title touch_edge_def last_map)
next
  case False
  then have "db' = write_edge now s x cs r no_target db"
    using assms(2,3) by (auto simp: apply_verdict_def Let_def split: option.split_asm if_split_asm)
  then show ?thesis
    using assms(1) by (auto simp: write_edge_def Let_def match_db.truncate_def same_denorm_title supersede_def new_edge_def)
qed

text \<open>C15: A crash of the matcher never demotes: when the run of the ladder raises, the listing keeps its accepted target,
  the catalog and the learned aliases stay as they are, and the ledger's last edge records the error.\<close>

theorem errors_never_demote:
  assumes "run_ladder tx reconsider db = Inl e" and "resolution_ok db" and "resolve_listing tx reconsider now db = Inr db'"
  shows "match_db.truncate db' = match_db.truncate db \<and> same_denorm (rd_listing db) (rd_listing db')
     \<and> rd_edges db' \<noteq> [] \<and> en_error (ed_notes (last (rd_edges db'))) = Some e"
proof -
  have "apply_verdict tx now [] no_title [] (error_verdict e) db = Inr db'"
    using assms(1,3) apply_error_total [OF error_verdict_simps, of tx now "[]" no_title "[]" e db] by (auto simp: resolve_listing_def)
  then show ?thesis
    using apply_error [OF error_verdict_simps _ assms(2)] by (simp add: error_verdict_def)
qed

section \<open>Edges are appended\<close>

definition decided :: "edge \<Rightarrow> edge" where
  "decided e = e\<lparr>ed_current := False, ed_superseded := None, ed_evaluated_at := 0\<rparr>"

lemma decided_touch [simp]: "map decided (touch_edge now c es) = map decided es"
  by (induction es) (auto simp: touch_edge_def decided_def)

lemma decided_supersede: "map decided (supersede c e es) = map decided es @ [decided e]"
  by (induction es) (auto simp: supersede_retire retire_def decided_def split: option.split)

lemma apply_appends:
  assumes "apply_verdict tx now s x cs r db = Inr db'"
  shows "\<exists>new. map decided (rd_edges db') = map decided (rd_edges db) @ new \<and> length new \<le> 1"
proof -
  have f: "map decided (rd_edges (freshen n s c d)) = map decided (rd_edges d)" for n s c d by (simp add: freshen_def)
  have w: "\<exists>q. map decided (rd_edges (write_edge now s x cs r t d)) = map decided (rd_edges d) @ [q]" for t d
    by (simp add: write_edge_def Let_def decided_supersede)
  have "\<exists>d. rd_edges d = rd_edges db \<and> ((\<exists>c. db' = freshen now s c d) \<or> (\<exists>t. db' = write_edge now s x cs r t d))"
    using assms materialize_keeps
    by (fastforce simp: apply_verdict_def Let_def andThen_eq_Inr split: option.split_asm if_split_asm)
  then show ?thesis using f w by (metis append_Nil2 le_numeral_extra(4) length_Cons list.size(3) One_nat_def zero_le)
qed

text \<open>The ledger is append-only: a resolution adds one edge at most and leaves of every earlier edge the decision as it
  was (grain, target, method, confidence, version, evidence, time); only the flags \<open>is_current\<close>, \<open>superseded_by\<close> and
  \<open>last_evaluated_at\<close> change.\<close>

theorem ledger_is_append_only:
  assumes "resolve_listing tx reconsider now db = Inr db'"
  shows "\<exists>new. map decided (rd_edges db') = map decided (rd_edges db) @ new \<and> length new \<le> 1"
  using assms apply_appends
  by (auto simp: resolve_listing_def split: prod.split_asm sum.split_asm)

section \<open>The same verdict twice\<close>

definition same_catalog :: "resolution_db \<Rightarrow> resolution_db \<Rightarrow> bool" where
  "same_catalog d e \<longleftrightarrow> mb_categories d = mb_categories e \<and> mb_families d = mb_families e \<and> mb_models d = mb_models e
     \<and> mb_variants d = mb_variants e"

lemma find_row_append: "find_row p (rows @ [(i, r)]) = (case find_row p rows of None \<Rightarrow> if p r then Some i else None | Some j \<Rightarrow> Some j)"
  by (auto simp: find_row_def first_such_append split: option.split)

lemma family_again:
  assumes "materialize_family tx t db = Inr (db1, f)" and "mb_families e = mb_families db1" "mb_categories e = mb_categories db1"
  shows "\<exists>e1. materialize_family tx t e = Inr (e1, f) \<and> same_catalog e e1"
proof (cases "tg_family_key t")
  case None
  then show ?thesis
    using assms by (auto simp: materialize_family_def andThen_eq_Inr same_catalog_def split: if_split_asm)
next
  case (Some key)
  then obtain slug i where g: "tg_category t = Some slug" "get_or_create_family tx slug key db = Inr (db1, i)" "f = Some i"
    using assms(1) by (auto simp: materialize_family_def andThen_eq_Inr split: option.split_asm)
  have c: "slug \<in> set (mb_categories e)" and r: "find_row (\<lambda>r. fm_maker r = fst key \<and> fm_name r = tx_title tx (snd key)) (mb_families e) = Some i"
    using g(2) assms(2,3) by (auto simp: get_or_create_family_def Let_def find_row_append split: if_split_asm option.split_asm)
  have "get_or_create_family tx slug key e =
      Inr (e\<lparr>mb_makers := (if fst key \<in> set (mb_makers e) then mb_makers e else mb_makers e @ [fst key])\<rparr>, i)"
    using c r by (simp add: get_or_create_family_def Let_def)
  then show ?thesis using Some g by (simp add: materialize_family_def andThen_def same_catalog_def)
qed

lemma check_row_more: "check_row t rows i = Inr j \<Longrightarrow> check_row t (rows @ ext) i = Inr j"
  by (auto simp: check_row_def fetch_row_def andThen_def map_add_Some_iff split: option.split_asm option.split)

lemma variant_again:
  assumes "get_or_create_variant row db = (db1, v)"
  shows "find_row (\<lambda>r. r = row) (mb_variants db1) = Some v" and "\<exists>ext. mb_variants db1 = mb_variants db @ ext"
    and "mb_families db1 = mb_families db" "mb_categories db1 = mb_categories db" "mb_models db1 = mb_models db"
  using assms by (auto simp: get_or_create_variant_def Let_def find_row_append split: option.split_asm)

lemma materialize_again:
  assumes m: "materialize tx x t db = Inr (db', l)" and e: "same_catalog db' e"
  shows "\<exists>e'. materialize tx x t e = Inr (e', l)"
proof -
  obtain db1 f where f: "materialize_family tx t db = Inr (db1, f)" and cm: "check_row ''ProductModel'' (mb_models db1) (tg_model t) = Inr (tg_model t)"
    and cv: "check_row ''ProductVariant'' (mb_variants db1) (tg_variant t) = Inr (tg_variant t)"
    and r: "(db' = db1 \<and> l = plain_target t f
         \<and> \<not> (tg_model t \<noteq> None \<and> ta_condition x \<noteq> None \<and> variant_on_demand tx (tg_category t) \<and> tg_grain t = GRAIN_MODEL))
       \<or> (\<exists>m c v. tg_model t = Some m \<and> ta_condition x = Some c \<and> variant_on_demand tx (tg_category t) \<and> tg_grain t = GRAIN_MODEL
         \<and> get_or_create_variant (variant_of m (at_value c) x) db1 = (db', v)
         \<and> l = (plain_target t f)\<lparr>lt_grain := GRAIN_VARIANT, lt_variant := Some v, lt_on_demand := True\<rparr>)"
    by (rule materialize_cases [OF m])
  have r': "db' = db1 \<or> (\<exists>row v. get_or_create_variant row db1 = (db', v))" using r by blast
  have same: "mb_families e = mb_families db1" "mb_categories e = mb_categories db1" "mb_models e = mb_models db1"
    using r' e variant_again(3-5) by (auto simp: same_catalog_def)
  have ext: "\<exists>ext. mb_variants e = mb_variants db1 @ ext"
    using r' e variant_again(2) unfolding same_catalog_def by (metis append_Nil2)
  obtain e1 where e1: "materialize_family tx t e = Inr (e1, f)" "same_catalog e e1" using family_again [OF f same(1,2)] by blast
  have c1: "check_row ''ProductModel'' (mb_models e1) (tg_model t) = Inr (tg_model t)" using cm same(3) e1(2) by (simp add: same_catalog_def)
  have c2: "check_row ''ProductVariant'' (mb_variants e1) (tg_variant t) = Inr (tg_variant t)"
    using ext e1(2) check_row_more [OF cv] by (auto simp: same_catalog_def)
  note step = e1(1) c1 c2
  show ?thesis
    using r
  proof (elim disjE exE conjE)
    assume p: "l = plain_target t f"
      "\<not> (tg_model t \<noteq> None \<and> ta_condition x \<noteq> None \<and> variant_on_demand tx (tg_category t) \<and> tg_grain t = GRAIN_MODEL)"
    show ?thesis
      using step p by (auto simp: materialize_def andThen_def Let_def plain_target_def split: option.split)
  next
    fix m c v
    assume p: "tg_model t = Some m" "ta_condition x = Some c" "variant_on_demand tx (tg_category t)" "tg_grain t = GRAIN_MODEL"
      "get_or_create_variant (variant_of m (at_value c) x) db1 = (db', v)"
      "l = (plain_target t f)\<lparr>lt_grain := GRAIN_VARIANT, lt_variant := Some v, lt_on_demand := True\<rparr>"
    have "find_row (\<lambda>r. r = variant_of m (at_value c) x) (mb_variants e1) = Some v"
      using variant_again(1) [OF p(5)] e e1(2) by (simp add: same_catalog_def)
    then have "get_or_create_variant (variant_of m (at_value c) x) e1 = (e1, v)" by (simp add: get_or_create_variant_def)
    then show ?thesis
      using step p by (auto simp: materialize_def andThen_def Let_def plain_target_def split: option.split)
  qed
qed

lemma category_touched [simp]: "category_changed r (c\<lparr>ed_evaluated_at := n\<rparr>) = category_changed r c"
  by (cases "en_category (rv_notes r)") (simp_all add: category_changed_def)

lemma unchanged_touched [simp]: "unchanged r (c\<lparr>ed_evaluated_at := n\<rparr>) = unchanged r c"
  by (simp add: unchanged_def)

lemma same_target_touched [simp]: "same_target t (c\<lparr>ed_evaluated_at := n\<rparr>) = same_target t c"
  by (simp add: same_target_def)

lemma new_edge_category: "\<not> category_changed r (new_edge now x r t l i)"
  by (simp add: category_changed_def new_edge_def Let_def split: option.split)

lemma new_edge_target: "same_target t (new_edge now x r t l i)"
  by (simp add: same_target_def new_edge_def Let_def)

lemma new_edge_selectors:
  "ed_grain (new_edge now x r t l i) = lt_grain t" "ed_outcome (new_edge now x r t l i) = lv_outcome (rv_verdict r)"
  "ed_evidence (new_edge now x r t l i) = lv_evidence (rv_verdict r)" "ed_notes (new_edge now x r t l i) = rv_notes r"
  by (simp_all add: new_edge_def Let_def)

lemma new_edge_unchanged:
  assumes "is_error r \<longrightarrow> \<not> accepted r" and "accepted r \<longrightarrow> lv_rung (rv_verdict r) = Some 0" and "\<not> accepted r \<longrightarrow> lt_grain t = GRAIN_NONE"
  shows "unchanged r (new_edge now x r t l i)"
  using assms by (simp add: unchanged_def new_edge_category new_edge_selectors)

lemma current_touch:
  assumes "chain_ok es" and "current_resolution es = Some c"
  shows "current_resolution (touch_edge now c es) = Some (c\<lparr>ed_evaluated_at := now\<rparr>)"
proof -
  have e: "es \<noteq> []" "c = last es" using assms(2) unfolding ledger_current [OF assms(1)] by (simp_all split: if_split_asm)
  then have "last (touch_edge now c es) = c\<lparr>ed_evaluated_at := now\<rparr>" "touch_edge now c es \<noteq> []"
    unfolding touch_edge_def by (simp_all add: last_map)
  then show ?thesis using ledger_current [OF ledger_touch [OF assms(1), of now c]] by simp
qed

lemma current_written:
  assumes "resolution_ok db" and "edge_written r t"
  shows "current_resolution (rd_edges (write_edge now s x cs r t db)) = Some (new_edge now x r t (rd_listing db) (length (rd_edges db)))"
  using ledger_current [of "rd_edges (write_edge now s x cs r t db)"] resolution_write [OF assms, of now s x cs]
  by (simp add: resolution_ok_def write_edge_def Let_def supersede_retire split: if_split_asm)

text \<open>Where the first run froze or wrote an edge, the second one freezes it.\<close>

lemma frozen_again:
  assumes "current_resolution (rd_edges db) = Some c" and "unchanged r c"
  shows "apply_verdict tx now s x cs r db = Inr (freshen now s c db)"
  using assms by (simp add: apply_verdict_def Let_def)

lemma retargeted_again:
  assumes c: "current_resolution (rd_edges db) = Some c" "\<not> unchanged r c" and r: "accepted r" "lv_target (rv_verdict r) = Some t"
    and m: "materialize tx x t db = Inr (db1, l)" and s: "\<not> error_edge c" "\<not> category_changed r c" "\<not> redecided r" "same_target l c"
  shows "apply_verdict tx now s x cs r db = Inr (freshen now s c db1)"
  using assms by (simp add: apply_verdict_def Let_def andThen_def)

lemma catalog_freshen: "same_catalog (freshen now s c db) db" "same_catalog db (freshen now s c db)"
  by (simp_all add: same_catalog_def freshen_def)

lemma catalog_written: "same_catalog db (write_edge now s x cs r t db)"
  by (simp add: same_catalog_def write_edge_def Let_def emit_learned_aliases_def split: option.split)

text \<open>C13: A poll that decides what the last one decided adds no edge. Applying one verdict twice, whatever it is (an accept
  at any rung, a review, a miss or an error), the second application succeeds, writes no edge and stamps the current one as
  evaluated; the one exception is an accept that re-decided a prior, which is recorded anew.\<close>

theorem repeated_verdict_adds_no_edge:
  assumes ok: "resolution_ok db" and one: "apply_verdict tx now s x cs r db = Inr db'"
    and r: "accepted r \<longrightarrow> accept_form (rv_verdict r) \<and> \<not> is_error r \<and> \<not> redecided r"
  shows "\<exists>db''. apply_verdict tx later s x cs r db' = Inr db'' \<and> map decided (rd_edges db'') = map decided (rd_edges db')
     \<and> ed_evaluated_at (last (rd_edges db'')) = later"
proof -
  have ok': "resolution_ok db'" by (rule apply_ok [OF ok one]) (use r in blast)
  have stamp: "map decided (rd_edges (freshen later s c d)) = map decided (rd_edges d) \<and> ed_evaluated_at (last (rd_edges (freshen later s c d))) = later"
    if "resolution_ok d" "current_resolution (rd_edges d) = Some c" for c d
  proof -
    have "rd_edges d \<noteq> []" "c = last (rd_edges d)"
      using that ledger_current [of "rd_edges d"] by (auto simp: resolution_ok_def split: if_split_asm)
    then have "ed_evaluated_at (last (touch_edge later c (rd_edges d))) = later" by (simp add: touch_edge_def last_map)
    then show ?thesis by (simp add: freshen_def)
  qed
  have frozen: ?thesis if "current_resolution (rd_edges db') = Some c" "unchanged r c" for c
    using frozen_again [OF that] stamp [OF ok' that(1)] by blast
  show ?thesis
  proof (cases "\<exists>c. current_resolution (rd_edges db) = Some c \<and> unchanged r c")
    case True
    then obtain c where c: "current_resolution (rd_edges db) = Some c" "unchanged r c" by blast
    then have "db' = freshen now s c db" using frozen_again one by simp
    then have "current_resolution (rd_edges db') = Some (c\<lparr>ed_evaluated_at := now\<rparr>)"
      using current_touch c(1) ok by (simp add: freshen_def resolution_ok_def)
    then show ?thesis using frozen c(2) by simp
  next
    case new: False
    show ?thesis
    proof (cases "accepted r")
      case False
      then have d: "db' = write_edge now s x cs r no_target db"
        using one new by (auto simp: apply_verdict_def Let_def split: option.split_asm if_split_asm)
      have "edge_written r no_target" by (simp add: edge_written_def live_ok_def no_target_def)
      then show ?thesis
        using frozen [OF current_written [OF ok, of r no_target now s x cs, folded d]] new_edge_unchanged [of r no_target] False
        by (simp add: no_target_def)
    next
      case True
      then obtain t where t: "lv_target (rv_verdict r) = Some t" "ref_ok t" and f: "accept_form (rv_verdict r)" "\<not> is_error r" "\<not> redecided r"
        using r by (auto simp: accept_form_def)
      obtain db1 l where m: "materialize tx x t db = Inr (db1, l)"
        and d: "(\<exists>c. current_resolution (rd_edges db) = Some c \<and> \<not> error_edge c \<and> \<not> category_changed r c \<and> same_target l c \<and> db' = freshen now s c db1)
          \<or> db' = write_edge now s x cs r l db1"
        using one new True t by (auto simp: apply_verdict_def Let_def andThen_eq_Inr split: option.split_asm if_split_asm)
      have ok1: "resolution_ok db1" and e1: "rd_edges db1 = rd_edges db" using ok materialize_keeps [OF m] by (simp_all add: resolution_ok_def)
      have "same_catalog db1 db'" using d catalog_freshen(2) catalog_written by blast
      then obtain db2 where m2: "materialize tx x t db' = Inr (db2, l)" using materialize_again [OF m] by blast
      have ed2: "rd_edges db2 = rd_edges db'" and ok2: "resolution_ok db2" using materialize_keeps [OF m2] ok' by (simp_all add: resolution_ok_def)
      have again: ?thesis if "current_resolution (rd_edges db') = Some c" "\<not> error_edge c" "\<not> category_changed r c" "same_target l c" for c
      proof (cases "unchanged r c")
        case True
        then show ?thesis using frozen that(1) by blast
      next
        case False
        show ?thesis
          using retargeted_again [OF that(1) False \<open>accepted r\<close> t(1) m2 that(2,3) f(3) that(4)] stamp [OF ok2, of c] ed2 that(1) by simp
      qed
      from d show ?thesis
      proof (elim disjE exE conjE)
        fix c
        assume c: "current_resolution (rd_edges db) = Some c" "\<not> error_edge c" "\<not> category_changed r c" "same_target l c" "db' = freshen now s c db1"
        have "current_resolution (rd_edges db') = Some (c\<lparr>ed_evaluated_at := now\<rparr>)"
          using current_touch c(1,5) ok1 e1 by (simp add: freshen_def resolution_ok_def)
        then show ?thesis using again c by simp
      next
        assume w: "db' = write_edge now s x cs r l db1"
        have "edge_written r l" using materialize_live [OF m t(2)] True f(1) by (simp add: edge_written_def)
        then show ?thesis
          using again [OF current_written [OF ok1, of r l now s x cs, folded w]] f(2) new_edge_category new_edge_target by simp
      qed
    qed
  qed
qed

end
