(* ===== verification/ResolutionGates.thy ===== *)
theory ResolutionGates
  imports ResolutionSafety
begin

text \<open>What the gates of a category let through, and what a reconsidering run takes away.\<close>

section \<open>The gates\<close>

definition ratified :: "text_reader \<Rightarrow> match_db \<Rightarrow> category_rules \<Rightarrow> target_ref \<Rightarrow> bool" where
  "ratified tx db rules t \<longleftrightarrow>
     (case cr_ratified rules of None \<Rightarrow> True | Some scope \<Rightarrow> \<exists>k \<in> set scope. target_family_key tx db t = Inr (Some k))"

lemma unratified_None: "unratified_family tx db rules t = Inr None \<longleftrightarrow> ratified tx db rules t"
  by (auto simp: unratified_family_def ratified_def andThen_eq_Inr permits_def split: option.split if_split_asm)

lemma demote_accept [simp]: "lv_outcome (rv_verdict (demote r reason)) = REVIEW"
  by (simp add: demote_def)

lemma demote_notes [simp]: "lv_outcome (rv_verdict ((demote r reason)\<lparr>rv_notes := n\<rparr>)) = REVIEW"
  by (simp add: demote_def)

lemma gate_prior_accept:
  assumes "gate_prior tx db rules policy es t r = Inr g" and "lv_outcome (rv_verdict g) = ACCEPT"
  shows "\<exists>how kind. prior_basis es = Some (how, kind)
     \<and> (how = Some MANUAL \<or> how = Some EXACT_ALIAS \<and> authoritative policy kind \<and> tg_grain t \<in> set (ap_grains policy) \<and> ratified tx db rules t)"
proof -
  obtain how kind where b: "prior_basis es = Some (how, kind)"
    using assms by (cases "prior_basis es") (auto simp: gate_prior_def)
  show ?thesis
  proof (cases "how = Some MANUAL")
    case True
    then show ?thesis using b by blast
  next
    case False
    then have k: "how = Some EXACT_ALIAS" "authoritative policy kind" "tg_grain t \<in> set (ap_grains policy)"
      using assms b by (auto simp: gate_prior_def split: if_split_asm)
    then obtain u where u: "unratified_family tx db rules t = Inr u"
      using assms b False by (auto simp: gate_prior_def andThen_eq_Inr Let_def)
    have "u = None" using assms b k u by (cases u) (auto simp: gate_prior_def andThen_def Let_def)
    then show ?thesis using b k u by (simp add: unratified_None)
  qed
qed

lemma gate_alias_accept:
  assumes "gate_alias tx db rules policy t r = Inr g" and "lv_outcome (rv_verdict g) = ACCEPT"
  shows "\<exists>h. lv_winning (rv_verdict r) = Some h \<and> authoritative policy (Some (ah_source_kind h)) \<and> tg_grain t \<in> set (ap_grains policy)
     \<and> cr_auto_accept rules \<and> ratified tx db rules t"
proof -
  have k: "authoritative policy (map_option ah_source_kind (lv_winning (rv_verdict r)))" "tg_grain t \<in> set (ap_grains policy)"
    "cr_auto_accept rules"
    using assms by (auto simp: gate_alias_def Let_def split: if_split_asm)
  obtain h where h: "lv_winning (rv_verdict r) = Some h" using k(1) by (cases "lv_winning (rv_verdict r)") (auto simp: authoritative_def)
  obtain u where u: "unratified_family tx db rules t = Inr u"
    using assms k by (auto simp: gate_alias_def andThen_eq_Inr Let_def)
  have "u = None" using assms k u by (cases u) (auto simp: gate_alias_def andThen_def Let_def)
  then show ?thesis using h k u by (simp add: unratified_None)
qed

lemma gates_pass:
  assumes "apply_category_gates tx db es slug rules r = Inr g" and "lv_outcome (rv_verdict g) = ACCEPT" and "cr_acceptance rules = Some policy"
    and "lv_target (rv_verdict r) = Some t"
  shows "lv_rung (rv_verdict r) = Some 0 \<and> gate_prior tx db rules policy es t r = Inr g
      \<or> lv_rung (rv_verdict r) = Some 1 \<and> gate_alias tx db rules policy t r = Inr g"
proof -
  have acc: "lv_outcome (rv_verdict r) = ACCEPT" using assms(2) gates_accept [OF assms(1,2)] by simp
  then obtain cat where cat: "(if tg_family_key t = None then target_category_of db t else Inr slug) = Inr cat"
    using assms by (auto simp: apply_category_gates_def andThen_eq_Inr)
  show ?thesis
    using assms(1,2) acc by (auto simp: apply_category_gates_def andThen_def cat assms(3,4) split: if_split_asm)
qed

lemma judge_gates:
  assumes "judge tx db slug rules x cs prior hits ids noted = Inr r" and "accepted r"
  shows "\<exists>q g. apply_category_gates tx (match_db.truncate db) (rd_edges db) slug rules q = Inr g \<and> rv_verdict g = rv_verdict q
     \<and> r = stamp_category slug g \<and> lv_outcome (rv_verdict g) = ACCEPT"
proof -
  obtain q g where g: "apply_category_gates tx (match_db.truncate db) (rd_edges db) slug rules q = Inr g" and r: "r = stamp_category slug g"
    using assms(1) by (auto simp: judge_def Let_def andThen_eq_Inr)
  have "lv_outcome (rv_verdict g) = ACCEPT" using assms(2) r by (simp add: accepted_def stamp_category_def)
  then show ?thesis using g r gates_accept [OF g] by blast
qed

lemma ladder_under_rules_judged:
  assumes "ladder_under_rules tx reconsider db slug rules x cs noted = Inr r"
  shows "\<exists>prior hits ids n. judge tx db slug rules x cs prior hits ids n = Inr r"
  using assms unfolding ladder_under_rules_def Let_def
proof (elim andThen_InrE)
  fix prior hits f
  assume "(case f of None \<Rightarrow> judge tx db slug rules x cs prior hits (identity_identifiers cs hits (cr_decode rules)) noted
      | Some g \<Rightarrow> judge tx db slug rules x cs None hits (identity_identifiers cs hits (cr_decode rules)) (g noted)) = Inr r"
  then show ?thesis by (cases f) (simp, blast, simp, blast)
qed

lemma family_key_category [simp]: "target_family_key tx db (t\<lparr>tg_category := c\<rparr>) = target_family_key tx db t"
  by (cases "tg_model t"; cases "tg_family t") (simp_all add: target_family_key_def)

text \<open>The rules of every category but drive.\<close>

lemma new_category_rules:
  assumes "rules_for tx slug = Some rules" and "slug \<noteq> ''drive''"
  shows "cr_acceptance rules = Some NEW_CATEGORY_ACCEPTANCE" and "cr_auto_accept rules \<longrightarrow> slug \<noteq> ''gpu'' \<and> slug \<noteq> ''ram''"
    and "slug = ''cpu'' \<longrightarrow> cr_ratified rules = Some [(''amd'', ''epyc'')]"
proof -
  consider "slug = ''gpu''" | "slug = ''ram''" | "slug = ''cpu''" | "slug \<noteq> ''gpu''" "slug \<noteq> ''ram''" "slug \<noteq> ''cpu''" by blast
  then have "cr_acceptance rules = Some NEW_CATEGORY_ACCEPTANCE \<and> (cr_auto_accept rules \<longrightarrow> slug \<noteq> ''gpu'' \<and> slug \<noteq> ''ram'')
      \<and> (slug = ''cpu'' \<longrightarrow> cr_ratified rules = Some [(''amd'', ''epyc'')])"
  proof cases
    case 4
    then have "rules = (new_category basic_veto)\<lparr>cr_variant_on_demand := slug \<noteq> ''server''\<rparr>"
      using assms unfolding rules_for_def by (metis option.distinct(1) option.inject)
    then show ?thesis using 4 by (simp add: new_category_def)
  qed (use assms in \<open>simp_all add: rules_for_def new_category_def CPU_RATIFIED_FAMILIES_def, auto\<close>)
  then show "cr_acceptance rules = Some NEW_CATEGORY_ACCEPTANCE" "cr_auto_accept rules \<longrightarrow> slug \<noteq> ''gpu'' \<and> slug \<noteq> ''ram''"
    "slug = ''cpu'' \<longrightarrow> cr_ratified rules = Some [(''amd'', ''epyc'')]" by blast+
qed

lemma authoritative_new: "authoritative NEW_CATEGORY_ACCEPTANCE k \<longleftrightarrow> k = Some ''catalog_authoritative''"
  by (cases k) (auto simp: authoritative_def NEW_CATEGORY_ACCEPTANCE_def)

definition model_or_variant :: "target_ref \<Rightarrow> bool" where
  "model_or_variant t \<longleftrightarrow> tg_grain t \<in> {GRAIN_MODEL, GRAIN_VARIANT}"

text \<open>C11: Outside drives nothing is accepted automatically but an authoritative alias of a ratified product. An accept of a listing
  dispatched to another category either comes from a \<open>catalog_authoritative\<close> alias on a model or a variant, never for a GPU
  or a memory module (whose \<open>auto_accept\<close> is off) and for a CPU only in the ratified family AMD EPYC, or repeats a prior that
  rests on such an alias or on the owner's manual decision.\<close>

theorem new_categories_accept_only_the_ratified:
  assumes ok: "resolution_ok db" and run: "run_ladder tx reconsider db = Inr (s, x, cs, r)" and acc: "accepted r"
    and hint: "category_hint (rd_listing db) = Inr hint" "category_slug hint = Inr slug" and slug: "slug \<noteq> ''drive''"
  shows "\<exists>t. lv_target (rv_verdict r) = Some t
     \<and> (lv_rung (rv_verdict r) = Some 1 \<and> slug \<noteq> ''gpu'' \<and> slug \<noteq> ''ram'' \<and> model_or_variant t
          \<and> (\<exists>h. lv_winning (rv_verdict r) = Some h \<and> ah_source_kind h = ''catalog_authoritative'')
          \<and> (slug = ''cpu'' \<longrightarrow> target_family_key tx (match_db.truncate db) t = Inr (Some (''amd'', ''epyc'')))
        \<or> lv_rung (rv_verdict r) = Some 0
          \<and> (\<exists>how kind. prior_basis (rd_edges db) = Some (how, kind)
              \<and> (how = Some MANUAL \<or> how = Some EXACT_ALIAS \<and> kind = Some ''catalog_authoritative'' \<and> model_or_variant t
                 \<and> (slug = ''cpu'' \<longrightarrow> target_family_key tx (match_db.truncate db) t = Inr (Some (''amd'', ''epyc''))))))"
proof -
  obtain rules w d noted where rules: "rules_for tx slug = Some rules" and l: "ladder_under_rules tx reconsider db slug rules w d noted = Inr r"
  proof (cases "rules_for tx slug")
    case None
    then show ?thesis using run acc hint by (auto simp: run_ladder_def Let_def andThen_eq_Inr accepted_def)
  next
    case (Some rules)
    then show ?thesis using that run hint by (auto simp: run_ladder_def Let_def andThen_eq_Inr)
  qed
  obtain prior hits ids n where "judge tx db slug rules w d prior hits ids n = Inr r" using ladder_under_rules_judged [OF l] by blast
  then obtain q g where g: "apply_category_gates tx (match_db.truncate db) (rd_edges db) slug rules q = Inr g" "rv_verdict g = rv_verdict q"
    "r = stamp_category slug g" "lv_outcome (rv_verdict g) = ACCEPT"
    using judge_gates acc by blast
  note new = new_category_rules [OF rules slug]
  obtain t where t: "lv_target (rv_verdict q) = Some t"
    using run_ladder_result [OF run] ok acc g(2,3) by (auto simp: resolution_ok_def accept_form_def stamp_category_def)
  have rt: "lv_target (rv_verdict r) = Some (t\<lparr>tg_category := Some slug\<rparr>)" "lv_rung (rv_verdict r) = lv_rung (rv_verdict q)"
    "lv_winning (rv_verdict r) = lv_winning (rv_verdict q)"
    using g t by (simp_all add: stamp_category_def)
  have fam: "slug = ''cpu'' \<longrightarrow> target_family_key tx (match_db.truncate db) t = Inr (Some (''amd'', ''epyc''))"
    if "ratified tx (match_db.truncate db) rules t" using that new(3) by (auto simp: ratified_def)
  have mv: "model_or_variant (t\<lparr>tg_category := Some slug\<rparr>)" if "tg_grain t \<in> set (ap_grains NEW_CATEGORY_ACCEPTANCE)"
    using that by (simp add: model_or_variant_def NEW_CATEGORY_ACCEPTANCE_def)
  from gates_pass [OF g(1,4) new(1) t] consider
      "lv_rung (rv_verdict q) = Some 0" "gate_prior tx (match_db.truncate db) rules NEW_CATEGORY_ACCEPTANCE (rd_edges db) t q = Inr g"
    | "lv_rung (rv_verdict q) = Some 1" "gate_alias tx (match_db.truncate db) rules NEW_CATEGORY_ACCEPTANCE t q = Inr g" by blast
  then show ?thesis
  proof cases
    case 1
    then show ?thesis using gate_prior_accept [OF 1(2) g(4)] rt fam mv by (auto simp: authoritative_new)
  next
    case 2
    then show ?thesis using gate_alias_accept [OF 2(2) g(4)] rt fam mv new(2) by (auto simp: authoritative_new)
  qed
qed

end
