(* ===== verification/ResolutionPolls.thy ===== *)
theory ResolutionPolls
  imports ResolutionSafety
begin

text \<open>
  Drive listings that hit no alias, poll after poll: a reconsidering run that finds nothing takes away what was accepted,
  and a decoded family whose catalogued drives contradict the title is accepted and reviewed in turn.
\<close>

section \<open>A drive listing without alias hits\<close>

definition drive_title :: "text_reader \<Rightarrow> listing_row \<Rightarrow> title_attributes" where
  "drive_title tx l = title_of tx ''drive'' (drive_rules tx) l (tx_canonical tx (li_title l) (li_condition_label l))"

definition drive_candidates :: "text_reader \<Rightarrow> listing_row \<Rightarrow> mpn_candidate list" where
  "drive_candidates tx l = tx_candidates tx ''drive'' (tx_canonical tx (li_title l) (li_condition_label l)) (structured_mpn l) (li_site_key l)"

definition drive_text :: "text_reader \<Rightarrow> listing_row \<Rightarrow> string" where
  "drive_text tx l = tx_canonical tx (li_title l) (li_condition_label l)"

lemma truncate_simps [simp]:
  "mb_aliases (match_db.truncate db) = mb_aliases db" "mb_families (match_db.truncate db) = mb_families db"
  "mb_models (match_db.truncate db) = mb_models db" "mb_drives (match_db.truncate db) = mb_drives db"
  "mb_variants (match_db.truncate db) = mb_variants db"
  by (simp_all add: match_db.truncate_def)

lemma run_ladder_drive:
  assumes "li_hint (rd_listing db) = None"
  shows "run_ladder tx reconsider db =
    andThen (ladder_under_rules tx reconsider db ''drive'' (drive_rules tx) (drive_title tx (rd_listing db)) (drive_candidates tx (rd_listing db))
        ((category_notes ''drive'' None)\<lparr>en_reconsider := reconsider\<rparr>))
      (\<lambda>r. Inr (drive_text tx (rd_listing db), drive_title tx (rd_listing db), drive_candidates tx (rd_listing db), r))"
  using assms
  by (simp add: run_ladder_def Let_def category_hint_def category_slug_def andThen_def rules_for_def drive_title_def
      drive_candidates_def drive_text_def)

lemma no_conflicts [simp]: "conflicting_alias_models [] = []" "review_only_alias_conflicts t a [] = []" "prior_model_not_named p [] = []"
  by (auto simp: conflicting_alias_models_def naming_hits_def sorted_set_def review_only_alias_conflicts_def prior_model_not_named_def
      map_filter_simps split: option.split)

lemma rung1_Nil [simp]: "rung1 veto x e [] = None"
  by (simp add: rung1_None)

lemma drive_rules_simps [simp]:
  "cr_veto (drive_rules tx) = contradictions" "cr_decode (drive_rules tx) = tx_decode tx" "cr_acceptance (drive_rules tx) = None"
  "cr_distinct_mpn_guard (drive_rules tx) = True" "cr_fold_structured (drive_rules tx) = None" "cr_variant_on_demand (drive_rules tx) = True"
  by (simp_all add: drive_rules_def)

section \<open>Nothing matches\<close>

lemma first_decode_None: "first_decode decode cs = None \<longleftrightarrow> (\<forall>c \<in> set cs. mc_token c = OEM_PN \<or> decode (mc_normalized c) = None)"
  by (induction cs) (auto split: option.split)

lemma judge_nothing:
  assumes d: "first_decode (tx_decode tx) cs = None"
  shows "\<exists>r. judge tx db slug (drive_rules tx) x cs None [] ids noted = Inr r \<and> lv_outcome (rv_verdict r) = NO_HIT \<and> rv_notes r = noted"
proof -
  have v: "decide contradictions True x cs None [] None = no_hit (base_evidence cs None)"
    by (simp add: decide_def climb_def Let_def)
  show ?thesis
    by (simp add: judge_def Let_def d v offer_contradiction_review_def stamp_identifiers_def apply_category_gates_def andThen_def)
      (simp add: no_hit_def stamp_category_def)
qed

text \<open>C27: A manual accept does not always inherit. The catalog refresh resolves every family-grain listing with
  \<open>reconsider=True\<close>, which drops the prior before anything asks how it was accepted: for a drive whose identifiers hit no
  row of the alias table and none of whose identifiers decodes (part numbers of system vendors are not decoded), an
  owner's manual family is cleared.\<close>

theorem reconsider_clears_manual_accept:
  assumes ok: "resolution_ok db" and hint: "li_hint (rd_listing db) = None"
    and none: "alias_hits tx (match_db.truncate db) ''drive'' (drive_candidates tx (rd_listing db)) (li_site (rd_listing db)) = Inr []"
      "\<forall>c \<in> set (drive_candidates tx (rd_listing db)). mc_token c \<noteq> OEM_PN \<longrightarrow> tx_decode tx (mc_normalized c) = None"
    and manual: "rd_edges db \<noteq> []" "ed_method (last (rd_edges db)) = Some MANUAL" "ed_grain (last (rd_edges db)) = GRAIN_FAMILY"
  shows "\<exists>db'. resolve_listing tx True now db = Inr db' \<and> li_grain (rd_listing db') = GRAIN_NONE \<and> li_family (rd_listing db') = None"
proof -
  let ?l = "rd_listing db"
  let ?n = "(category_notes ''drive'' None)\<lparr>en_reconsider := True\<rparr>"
  have d: "first_decode (tx_decode tx) (drive_candidates tx ?l) = None" using none(2) by (simp only: first_decode_None disj_imp)
  obtain r where j: "judge tx db ''drive'' (drive_rules tx) (drive_title tx ?l) (drive_candidates tx ?l) None []
      (identity_identifiers (drive_candidates tx ?l) [] (tx_decode tx)) ?n = Inr r"
    and v: "lv_outcome (rv_verdict r) = NO_HIT" "rv_notes r = ?n" using judge_nothing [OF d] by blast
  have l: "ladder_under_rules tx True db ''drive'' (drive_rules tx) (drive_title tx ?l) (drive_candidates tx ?l) ?n = Inr r"
    by (simp add: ladder_under_rules_def none(1) andThen_def reconsideration_def Let_def j)
  have r: "run_ladder tx True db = Inr (drive_text tx ?l, drive_title tx ?l, drive_candidates tx ?l, r)"
    "lv_outcome (rv_verdict r) = NO_HIT" "en_error (rv_notes r) = None"
    using l v by (simp_all add: run_ladder_drive [OF hint] andThen_def category_notes_def no_notes_def)
  have c: "current_resolution (rd_edges db) = Some (last (rd_edges db))"
    using ok manual(1) ledger_current by (simp add: resolution_ok_def)
  have na: "\<not> accepted r" "\<not> is_error r" using r by (simp_all add: accepted_def is_error_def)
  have "\<not> unchanged r (last (rd_edges db))" using manual(3) na by (simp add: unchanged_def)
  then have "resolve_listing tx True now db = Inr (write_edge now (drive_text tx ?l) (drive_title tx ?l) (drive_candidates tx ?l) r no_target db)"
    using na c by (simp add: resolve_listing_def r(1) apply_verdict_def)
  then show ?thesis
    using na by (simp add: write_edge_def Let_def denormalize_def new_edge_def no_target_def at_grain_def)
qed

section \<open>A decoded family its drives contradict\<close>

text \<open>
  The title decodes to a catalogued family and nothing in it denies the family; the family's catalogued drives agree on a
  hard attribute the title contradicts (a 12 TB listing of a family of which only the 4 TB model is seeded).
\<close>

definition misfiled :: "text_reader \<Rightarrow> decode_result \<Rightarrow> string \<Rightarrow> int \<Rightarrow> resolution_db \<Rightarrow> bool" where
  "misfiled tx d fam f db \<longleftrightarrow>
     (let l = rd_listing db; x = drive_title tx l; cs = drive_candidates tx l in
      li_hint l = None \<and> mb_aliases db = [] \<and> first_decode (tx_decode tx) cs = Some d \<and> dr_family_name d = Some fam \<and> fam \<noteq> []
      \<and> brands_consistent (brand_of x) (Some (dr_vendor d)) \<and> family_conflicts x (dr_vendor d) fam = []
      \<and> (case (ta_capacity_bytes x, dr_capacity_bytes d) of (Some a, Some b) \<Rightarrow> \<not> capacities_differ (at_value a) b | _ \<Rightarrow> True)
      \<and> ta_quantity x = None \<and> distinct_mpns cs [] = [] \<and> source_offer_conflict x (li_site_key l) = None
      \<and> ''drive'' \<in> set (mb_categories db) \<and> dr_vendor d \<in> set (mb_makers db)
      \<and> find_row (\<lambda>r. fm_maker r = dr_vendor d \<and> fm_name r = tx_title tx fam) (mb_families db) = Some f
      \<and> map_option fm_maker (map_of (mb_families db) f) = Some (dr_vendor d)
      \<and> contradictions x (drive_family_attrs (match_db.truncate db) f) \<noteq> [])"

definition decode_accept :: "text_reader \<Rightarrow> decode_result \<Rightarrow> string \<Rightarrow> resolution_db \<Rightarrow> resolved" where
  "decode_accept tx d fam db =
     (let cs = drive_candidates tx (rd_listing db); e = base_evidence cs (Some d) in
      \<lparr>rv_verdict = accept_at 2 MPN_DECODE ((family_target None (Some (dr_vendor d, fam)))\<lparr>tg_category := Some ''drive''\<rparr>)
         (confidence_by_provenance (dr_provenance d)) (e\<lparr>le_provisional := Some (dr_provenance d, dr_rule d)\<rparr>) None,
       rv_notes = (category_notes ''drive'' None)\<lparr>en_reconsider := False, en_identifiers := Some (identity_identifiers cs [] (tx_decode tx))\<rparr>\<rparr>)"

lemma rung2_accepts:
  assumes "misfiled tx d fam f db"
  shows "rung2 (drive_title tx (rd_listing db)) e d fam = accept_at 2 MPN_DECODE (family_target None (Some (dr_vendor d, fam)))
    (confidence_by_provenance (dr_provenance d)) (e\<lparr>le_provisional := Some (dr_provenance d, dr_rule d)\<rparr>) None"
  using assms by (auto simp: misfiled_def Let_def rung2_def brand_of_def split: option.split)

lemma first_poll:
  assumes m: "misfiled tx d fam f db" and u: "li_grain (rd_listing db) = GRAIN_NONE"
  shows "run_ladder tx False db = Inr (drive_text tx (rd_listing db), drive_title tx (rd_listing db), drive_candidates tx (rd_listing db),
    decode_accept tx d fam db)"
proof -
  let ?l = "rd_listing db" let ?x = "drive_title tx ?l" let ?cs = "drive_candidates tx ?l"
  let ?n = "(category_notes ''drive'' None)\<lparr>en_reconsider := False\<rparr>" let ?e = "base_evidence ?cs (Some d)"
  let ?v = "accept_at 2 MPN_DECODE (family_target None (Some (dr_vendor d, fam))) (confidence_by_provenance (dr_provenance d))
    (?e\<lparr>le_provisional := Some (dr_provenance d, dr_rule d)\<rparr>) None"
  have a: "li_hint ?l = None" "mb_aliases db = []" "first_decode (tx_decode tx) ?cs = Some d" "ta_quantity ?x = None" "distinct_mpns ?cs [] = []"
    "source_offer_conflict ?x (li_site_key ?l) = None" and fam: "dr_family_name d = Some fam" "fam \<noteq> []"
    using m by (simp_all add: misfiled_def Let_def)
  obtain c ct where fam': "fam = c # ct" using fam(2) by (cases fam) auto
  have "climb contradictions ?x ?cs None [] (Some d) = ?v"
    using rung2_accepts [OF m] fam by (simp add: climb_def Let_def fam')
  moreover have "ambiguities True ?x ?cs None [] (Some d) ?v = []"
    using a by (simp add: ambiguities_def lot_quantity_def)
  ultimately have v: "decide contradictions True ?x ?cs None [] (Some d) = ?v" by (simp add: decide_def Let_def)
  have "judge tx db ''drive'' (drive_rules tx) ?x ?cs None [] (identity_identifiers ?cs [] (tx_decode tx)) ?n = Inr (decode_accept tx d fam db)"
    using a v
    by (simp add: judge_def Let_def offer_contradiction_review_def stamp_identifiers_def apply_category_gates_def andThen_def
        decode_accept_def stamp_category_def accept_at_def family_target_def)
  then show ?thesis
    using a u by (simp add: run_ladder_drive ladder_under_rules_def andThen_def prior_from_listing_def alias_hits_def
        reconsideration_def Let_def)
qed

lemma same_listing [simp]:
  "drive_title tx (denormalize e l) = drive_title tx l" "drive_candidates tx (denormalize e l) = drive_candidates tx l"
  "drive_title tx (normalize_title s l) = drive_title tx l" "drive_candidates tx (normalize_title s l) = drive_candidates tx l"
  "li_hint (denormalize e l) = li_hint l" "li_hint (normalize_title s l) = li_hint l"
  "li_site_key (denormalize e l) = li_site_key l" "li_site_key (normalize_title s l) = li_site_key l"
  by (simp_all add: drive_title_def drive_candidates_def title_of_def structured_mpn_def denormalize_def normalize_title_def)

definition refiled :: "edge list \<Rightarrow> edge \<Rightarrow> string \<Rightarrow> resolution_db \<Rightarrow> resolution_db" where
  "refiled es e s db = db\<lparr>rd_edges := es, rd_listing := denormalize e (normalize_title s (rd_listing db))\<rparr>"

lemma misfiled_refiled [simp]: "misfiled tx d fam f (refiled es e s db) = misfiled tx d fam f db"
  by (simp add: misfiled_def Let_def refiled_def match_db.truncate_def)

definition family_live :: "int \<Rightarrow> live_target" where
  "family_live f = \<lparr>lt_grain = GRAIN_FAMILY, lt_family = Some f, lt_model = None, lt_variant = None, lt_on_demand = False\<rparr>"

definition first_edge :: "text_reader \<Rightarrow> int \<Rightarrow> decode_result \<Rightarrow> string \<Rightarrow> int \<Rightarrow> resolution_db \<Rightarrow> edge" where
  "first_edge tx now d fam f db =
     new_edge now (drive_title tx (rd_listing db)) (decode_accept tx d fam db) (family_live f) (rd_listing db) (length (rd_edges db))"

lemma current_when_unresolved:
  assumes "resolution_ok db" and "li_grain (rd_listing db) = GRAIN_NONE" and "current_resolution (rd_edges db) = Some c"
  shows "error_edge c \<or> ed_grain c = GRAIN_NONE"
proof -
  obtain es where es: "rd_edges db = es @ [c]"
    using assms ledger_current by (metis append_butlast_last_id option.distinct(1) option.inject resolution_ok_def)
  show ?thesis
    using assms(1,2) by (auto simp: resolution_ok_def shows_last_clean_def Let_def es shows_edge_def split: if_split_asm)
qed

lemma first_state:
  assumes m: "misfiled tx d fam f db" and ok: "resolution_ok db" and u: "li_grain (rd_listing db) = GRAIN_NONE"
  shows "resolve_listing tx False now db = Inr (refiled (supersede (current_resolution (rd_edges db)) (first_edge tx now d fam f db) (rd_edges db))
    (first_edge tx now d fam f db) (drive_text tx (rd_listing db)) db)"
proof -
  let ?l = "rd_listing db" let ?r = "decode_accept tx d fam db"
  have r: "accepted ?r" "\<not> is_error ?r" "lv_rung (rv_verdict ?r) = Some 2"
    "lv_target (rv_verdict ?r) = Some ((family_target None (Some (dr_vendor d, fam)))\<lparr>tg_category := Some ''drive''\<rparr>)"
    by (simp_all add: decode_accept_def Let_def accepted_def is_error_def category_notes_def no_notes_def)
  have nu: "\<not> unchanged ?r c" for c using r by (simp add: unchanged_def)
  have "mb_makers db = (if dr_vendor d \<in> set (mb_makers db) then mb_makers db else mb_makers db @ [dr_vendor d])"
    using m by (simp add: misfiled_def Let_def)
  then have g: "get_or_create_family tx ''drive'' (dr_vendor d, fam) db = Inr (db, f)"
    using m by (simp add: misfiled_def Let_def get_or_create_family_def)
  have mat: "materialize tx (drive_title tx ?l) ((family_target None (Some (dr_vendor d, fam)))\<lparr>tg_category := Some ''drive''\<rparr>) db
      = Inr (db, family_live f)"
    using g by (simp add: materialize_def materialize_family_def andThen_def family_target_def check_row_def family_live_def Let_def)
  have w: "write_edge now (drive_text tx ?l) (drive_title tx ?l) (drive_candidates tx ?l) ?r (family_live f) db =
      refiled (supersede (current_resolution (rd_edges db)) (first_edge tx now d fam f db) (rd_edges db))
        (first_edge tx now d fam f db) (drive_text tx ?l) db"
    using r by (simp add: write_edge_def Let_def first_edge_def refiled_def taught_model_def family_live_def at_grain_def emit_learned_aliases_def)
  have "apply_verdict tx now (drive_text tx ?l) (drive_title tx ?l) (drive_candidates tx ?l) ?r db =
      Inr (write_edge now (drive_text tx ?l) (drive_title tx ?l) (drive_candidates tx ?l) ?r (family_live f) db)"
  proof (cases "current_resolution (rd_edges db)")
    case None
    then show ?thesis using r mat by (simp add: apply_verdict_def andThen_def)
  next
    case (Some c)
    have "error_edge c \<or> \<not> same_target (family_live f) c"
      using current_when_unresolved [OF ok u Some] by (auto simp: same_target_def family_live_def)
    then show ?thesis using Some r nu mat by (auto simp: apply_verdict_def andThen_def)
  qed
  then show ?thesis using first_poll [OF m u] w by (simp add: resolve_listing_def)
qed

lemma newest_last:
  assumes "\<And>g. g \<in> set es \<Longrightarrow> newer e g" and "p e"
  shows "newest p (es @ [e]) = Some e"
  using assms(1)
proof (induction es)
  case Nil
  then show ?case using assms(2) by simp
next
  case (Cons a es)
  have "\<not> newer a e" using Cons.prems [of a] by (auto simp: newer_def)
  then show ?case using Cons by simp
qed

lemma sort_sorted_set [simp]: "sort (sorted_set xs) = sorted_set xs"
  by (simp add: sorted_set_def sorted_sort_id)

lemma first_edge_simps:
  "ed_version (first_edge tx now d fam f db) = MATCHER_VERSION" "ed_method (first_edge tx now d fam f db) = Some MPN_DECODE"
  "ed_outcome (first_edge tx now d fam f db) = ACCEPT" "ed_resolved_at (first_edge tx now d fam f db) = now"
  "ed_id (first_edge tx now d fam f db) = length (rd_edges db)" "\<not> error_edge (first_edge tx now d fam f db)"
  "en_error (ed_notes (first_edge tx now d fam f db)) = None" "ed_grain (first_edge tx now d fam f db) = GRAIN_FAMILY"
  "ed_family (first_edge tx now d fam f db) = Some f" "ed_model (first_edge tx now d fam f db) = None" "ed_variant (first_edge tx now d fam f db) = None"
  "ed_current (first_edge tx now d fam f db)"
  "en_identifiers (ed_notes (first_edge tx now d fam f db)) = Some (identity_identifiers (drive_candidates tx (rd_listing db)) [] (tx_decode tx))"
  by (simp_all add: first_edge_def new_edge_def Let_def decode_accept_def accepted_def family_live_def at_grain_def error_edge_def is_error_def
      category_notes_def no_notes_def accept_at_def)

lemma origin_of_first:
  assumes ok: "chain_ok es" and t: "\<forall>g \<in> set es. ed_resolved_at g \<le> now" and e: "e = first_edge tx now d fam f db" "es = rd_edges db"
  shows "automated_origin (supersede c e es) = Some e"
proof -
  have "newer e g" if g: "g \<in> set (map (retire c (ed_id e)) es)" for g
  proof -
    obtain h where h: "h \<in> set es" "g = retire c (ed_id e) h" using g by auto
    obtain i where "i < length es" "es ! i = h" using h(1) by (auto simp: in_set_conv_nth)
    then have "ed_id h < length es" using ok by (auto simp: chain_ok_def)
    then have "ed_id g < ed_id e" "ed_resolved_at g \<le> ed_resolved_at e"
      using h t e by (simp_all add: retire_def first_edge_simps split: option.split)
    then show ?thesis by (auto simp: newer_def)
  qed
  then have "newest (\<lambda>e. clean_accept e \<and> ed_method e \<noteq> Some SOURCE_ALIAS) (map (retire c (ed_id e)) es @ [e]) = Some e"
    using e by (intro newest_last) (simp_all add: clean_accept_def first_edge_simps)
  then show ?thesis using e by (simp add: automated_origin_def supersede_retire first_edge_simps)
qed

definition vetoed_review :: "text_reader \<Rightarrow> decode_result \<Rightarrow> int \<Rightarrow> resolution_db \<Rightarrow> resolved" where
  "vetoed_review tx d f db =
     \<lparr>rv_verdict = review_at (Some 0) (base_evidence (drive_candidates tx (rd_listing db)) (Some d))
        [Vetoed (contradictions (drive_title tx (rd_listing db)) (drive_family_attrs (match_db.truncate db) f))],
      rv_notes = (category_notes ''drive'' None)\<lparr>en_reconsider := False\<rparr>\<rparr>"

lemma second_poll:
  assumes m: "misfiled tx d fam f db" and l: "li_grain (rd_listing db) = GRAIN_FAMILY" "li_family (rd_listing db) = Some f"
    "li_model (rd_listing db) = None" "li_variant (rd_listing db) = None"
    and o: "automated_origin (rd_edges db) = Some e" "ed_version e = MATCHER_VERSION"
    "en_identifiers (ed_notes e) = Some (identity_identifiers (drive_candidates tx (rd_listing db)) [] (tx_decode tx))"
  shows "run_ladder tx False db = Inr (drive_text tx (rd_listing db), drive_title tx (rd_listing db), drive_candidates tx (rd_listing db),
    vetoed_review tx d f db)"
proof -
  let ?l = "rd_listing db" let ?x = "drive_title tx ?l" let ?cs = "drive_candidates tx ?l"
  let ?n = "(category_notes ''drive'' None)\<lparr>en_reconsider := False\<rparr>" let ?ids = "identity_identifiers ?cs [] (tx_decode tx)"
  have a: "li_hint ?l = None" "mb_aliases db = []" "first_decode (tx_decode tx) ?cs = Some d"
    and v: "contradictions ?x (drive_family_attrs (match_db.truncate db) f) \<noteq> []"
    and b: "brands_consistent (brand_of ?x) (Some (dr_vendor d))"
    using m by (simp_all add: misfiled_def Let_def)
  obtain row where row: "map_of (mb_families db) f = Some row" "fm_maker row = dr_vendor d"
    using m by (auto simp: misfiled_def Let_def)
  obtain p where p: "prior_from_listing tx (match_db.truncate db) ''drive'' ?l = Inr (Some p)"
    "pn_hard p = drive_family_attrs (match_db.truncate db) f" "tg_grain (pn_target p) = GRAIN_FAMILY" "tg_family (pn_target p) = Some f"
    "tg_model (pn_target p) = None" "tg_variant (pn_target p) = None"
    using l by (simp add: prior_from_listing_def family_attrs_def)
  have ids: "sort ?ids = ?ids" by (simp add: identity_identifiers_def)
  have br: "brand_reconsideration (match_db.truncate db) p ?x = Inr None"
  proof (cases "ta_brand ?x")
    case (Some q)
    then show ?thesis
      using b row p by (simp add: brand_reconsideration_def target_brand_def fetch_row_def andThen_def brand_of_def)
  qed (simp add: brand_reconsideration_def)
  have r: "reconsideration db (drive_rules tx) ?x ?ids (Some p) = Inr None"
    using o ids br p by (simp add: reconsideration_def prior_reconsideration_def andThen_def offer_reconsideration_def Let_def)
  have "judge tx db ''drive'' (drive_rules tx) ?x ?cs (Some p) [] ?ids ?n = Inr (vetoed_review tx d f db)"
    using a v p
    by (simp add: judge_def Let_def decide_def climb_def rung0_def offer_contradiction_review_def stamp_identifiers_def
        apply_category_gates_def andThen_def vetoed_review_def stamp_category_def review_at_def)
  then show ?thesis
    using a p(1) r by (simp add: run_ladder_drive ladder_under_rules_def andThen_def alias_hits_def Let_def)
qed

lemma second_state:
  assumes m: "misfiled tx d fam f db" and l: "li_grain (rd_listing db) = GRAIN_FAMILY" "li_family (rd_listing db) = Some f"
    "li_model (rd_listing db) = None" "li_variant (rd_listing db) = None"
    and o: "automated_origin (rd_edges db) = Some e" "ed_version e = MATCHER_VERSION"
    "en_identifiers (ed_notes e) = Some (identity_identifiers (drive_candidates tx (rd_listing db)) [] (tx_decode tx))"
    and c: "current_resolution (rd_edges db) = Some e" "ed_grain e = GRAIN_FAMILY"
  shows "\<exists>g s. resolve_listing tx False now db = Inr (refiled (supersede (Some e) g (rd_edges db)) g s db)
    \<and> ed_grain g = GRAIN_NONE \<and> ed_resolved_at g = now"
proof -
  let ?r = "vetoed_review tx d f db" let ?l = "rd_listing db"
  let ?g = "new_edge now (drive_title tx ?l) ?r no_target ?l (length (rd_edges db))"
  have r: "\<not> accepted ?r" "\<not> is_error ?r" by (simp_all add: vetoed_review_def accepted_def is_error_def category_notes_def no_notes_def)
  have "\<not> unchanged ?r e" using r c by (simp add: unchanged_def)
  then have "resolve_listing tx False now db = Inr (refiled (supersede (Some e) ?g (rd_edges db)) ?g (drive_text tx ?l) db)"
    using second_poll [OF m l o] r c
    by (simp add: resolve_listing_def apply_verdict_def write_edge_def Let_def refiled_def)
  moreover have "ed_grain ?g = GRAIN_NONE" "ed_resolved_at ?g = now" by (simp_all add: new_edge_def Let_def no_target_def)
  ultimately show ?thesis by blast
qed

fun polls :: "text_reader \<Rightarrow> int \<Rightarrow> nat \<Rightarrow> resolution_db \<Rightarrow> resolve_error + resolution_db" where
  "polls tx now 0 db = Inr db"
| "polls tx now (Suc n) db = andThen (resolve_listing tx False now db) (polls tx (now + 1) n)"

lemma refiled_simps [simp]:
  "rd_edges (refiled es e s db) = es" "li_grain (rd_listing (refiled es e s db)) = ed_grain e" "li_family (rd_listing (refiled es e s db)) = ed_family e"
  "li_model (rd_listing (refiled es e s db)) = ed_model e" "li_variant (rd_listing (refiled es e s db)) = ed_variant e"
  "drive_candidates tx (rd_listing (refiled es e s db)) = drive_candidates tx (rd_listing db)"
  by (simp_all add: refiled_def) (simp_all add: denormalize_def)

lemma resolved_ok:
  assumes "resolution_ok db" and "resolve_listing tx reconsider now db = Inr db'"
  shows "resolution_ok db'"
  using resolve_ok [OF assms(1)] assms(2) by (metis sum.inject(2))

lemma times_supersede: "\<forall>g \<in> set es. ed_resolved_at g \<le> t \<Longrightarrow> ed_resolved_at e \<le> t \<Longrightarrow> \<forall>g \<in> set (supersede c e es). ed_resolved_at g \<le> t"
  by (auto simp: supersede_retire retire_def split: option.split)

lemma two_polls:
  assumes m: "misfiled tx d fam f db" and ok: "resolution_ok db" and u: "li_grain (rd_listing db) = GRAIN_NONE"
    and t: "\<forall>g \<in> set (rd_edges db). ed_resolved_at g \<le> now"
  shows "\<exists>db1 db2. resolve_listing tx False now db = Inr db1 \<and> li_grain (rd_listing db1) = GRAIN_FAMILY \<and> length (rd_edges db1) = Suc (length (rd_edges db))
    \<and> resolve_listing tx False (now + 1) db1 = Inr db2 \<and> li_grain (rd_listing db2) = GRAIN_NONE \<and> length (rd_edges db2) = Suc (Suc (length (rd_edges db)))
    \<and> misfiled tx d fam f db2 \<and> resolution_ok db2 \<and> (\<forall>g \<in> set (rd_edges db2). ed_resolved_at g \<le> now + 1)"
proof -
  let ?e = "first_edge tx now d fam f db" let ?es = "supersede (current_resolution (rd_edges db)) ?e (rd_edges db)"
  let ?db1 = "refiled ?es ?e (drive_text tx (rd_listing db)) db"
  have 1: "resolve_listing tx False now db = Inr ?db1" by (rule first_state [OF m ok u])
  have ok1: "resolution_ok ?db1" using resolved_ok [OF ok 1] .
  have led: "chain_ok (rd_edges db)" using ok by (simp add: resolution_ok_def)
  have o: "automated_origin (rd_edges ?db1) = Some ?e" using origin_of_first [OF led t] by simp
  have c: "current_resolution (rd_edges ?db1) = Some ?e"
    using ledger_current [of ?es] ok1 by (simp add: resolution_ok_def supersede_retire)
  obtain g s where g: "resolve_listing tx False (now + 1) ?db1 = Inr (refiled (supersede (Some ?e) g ?es) g s ?db1)" "ed_grain g = GRAIN_NONE"
    "ed_resolved_at g = now + 1"
    using second_state [of tx d fam f ?db1 ?e "now + 1"] m o c by (auto simp: first_edge_simps)
  have "\<forall>h \<in> set ?es. ed_resolved_at h \<le> now" using times_supersede [OF t, of ?e] by (simp add: first_edge_simps)
  then have t1: "\<forall>h \<in> set ?es. ed_resolved_at h \<le> now + 1" by force
  have ok2: "resolution_ok (refiled (supersede (Some ?e) g ?es) g s ?db1)" using resolved_ok [OF ok1 g(1)] .
  have t2: "\<forall>h \<in> set (supersede (Some ?e) g ?es). ed_resolved_at h \<le> now + 1" using times_supersede [OF t1, of g] g(3) by simp
  show ?thesis
    using 1 g m ok2 t2 by (intro exI [of _ ?db1] exI [of _ "refiled (supersede (Some ?e) g ?es) g s ?db1"]) (simp add: first_edge_simps)
qed

text \<open>C17: A decoded family can flap for ever. Rung 2 accepts a title's decoded family without the veto, and rung 0 runs the veto
  against what the family's catalogued drives agree on. Where they contradict the title, with nothing changed between the polls, every
  odd poll accepts the family, every even one reviews and clears it, and each poll appends an edge.\<close>

theorem decoded_family_flaps:
  assumes "misfiled tx d fam f db" and "resolution_ok db" and "li_grain (rd_listing db) = GRAIN_NONE"
    and "\<forall>g \<in> set (rd_edges db). ed_resolved_at g \<le> now"
  shows "\<exists>db'. polls tx now n db = Inr db' \<and> li_grain (rd_listing db') = (if even n then GRAIN_NONE else GRAIN_FAMILY)
     \<and> length (rd_edges db') = length (rd_edges db) + n"
  using assms
proof (induction n arbitrary: db now rule: less_induct)
  case (less n)
  obtain db1 db2 where 1: "resolve_listing tx False now db = Inr db1" "li_grain (rd_listing db1) = GRAIN_FAMILY"
    "length (rd_edges db1) = Suc (length (rd_edges db))"
    and 2: "resolve_listing tx False (now + 1) db1 = Inr db2" "li_grain (rd_listing db2) = GRAIN_NONE"
    "length (rd_edges db2) = Suc (Suc (length (rd_edges db)))" "misfiled tx d fam f db2" "resolution_ok db2"
    "\<forall>g \<in> set (rd_edges db2). ed_resolved_at g \<le> now + 1"
    using two_polls [OF less.prems] by blast
  consider "n = 0" | "n = 1" | k where "n = Suc (Suc k)" by (metis One_nat_def not0_implies_Suc)
  then show ?case
  proof cases
    case 1
    then show ?thesis using less.prems(3) by simp
  next
    case 2
    then show ?thesis using 1 by (simp add: andThen_def)
  next
    case (3 k)
    have "\<forall>g \<in> set (rd_edges db2). ed_resolved_at g \<le> now + 1 + 1" using 2(6) by auto
    then show ?thesis using less.IH [of k db2 "now + 1 + 1"] 3 1(1) 2 by (auto simp: andThen_def)
  qed
qed

end
