(* ===== verification/ResolutionSample.thy ===== *)
theory ResolutionSample
  imports ResolutionRepeat ResolutionGates ResolutionPolls
begin

text \<open>Concrete listings and catalogs: the theorems on resolution at inputs where their hypotheses hold.\<close>

section \<open>A family of which one model is seeded\<close>

definition decoded_12tb :: decode_result where
  "decoded_12tb = \<lparr>dr_vendor = ''seagate'', dr_family_name = Some ''ironwolf pro'', dr_capacity_bytes = Some (12 * 10 ^ 12),
     dr_provenance = VENDOR_OFFICIAL, dr_rule = ''st''\<rparr>"

definition candidate :: "string \<Rightarrow> mpn_candidate" where
  "candidate s = \<lparr>mc_normalized = s, mc_token = MANUFACTURER_MPN, mc_vendor_hint = [], mc_structured = False, mc_title_kind = None,
     mc_review_only = False\<rparr>"

text \<open>A reader of one-word titles: the word is the part number and a 12 TB drive.\<close>

definition seeded_reader :: text_reader where
  "seeded_reader = \<lparr>tx_canonical = (\<lambda>t c. t), tx_title = (\<lambda>t. t),
     tx_extract = (\<lambda>_ _. no_title\<lparr>ta_capacity_bytes := Some \<lparr>at_value = 12 * 10 ^ 12, confidence = 9 / 10, layer = ''title'', source_text = ''12TB''\<rparr>\<rparr>),
     tx_candidates = (\<lambda>_ t _ _. [candidate t]), tx_decode = (\<lambda>_. Some decoded_12tb), tx_structured_cpu = (\<lambda>x _. x),
     tx_model_key = (\<lambda>_. None)\<rparr>"

definition seeded_4tb :: drive_row where
  "seeded_4tb = \<lparr>ds_capacity_tb = Some 4, ds_media_type = ''hdd'', ds_interface = ''SATA'', ds_form_factor = [], ds_recording_tech = None,
     ds_sector_format = [], ds_sed = None\<rparr>"

definition seeded_listing :: "string option option \<Rightarrow> listing_row" where
  "seeded_listing hint = \<lparr>li_site = 1, li_site_key = ''ebay'', li_title = ''st12000ne0008'', li_condition_label = [], li_hint = hint,
     li_mpn = None, li_title_normalized = [], li_grain = GRAIN_NONE, li_confidence = None, li_family = None, li_model = None, li_variant = None\<rparr>"

definition seeded_db :: "string option option \<Rightarrow> resolution_db" where
  "seeded_db hint =
     \<lparr>mb_categories = [''drive'', ''cpu''], mb_makers = [''seagate''],
      mb_families = [(1, \<lparr>fm_maker = ''seagate'', fm_name = ''ironwolf pro'', fm_category = ''drive''\<rparr>)],
      mb_models = [(5, \<lparr>mw_maker = ''seagate'', mw_family = Some 1, mw_number = ''st4000ne001''\<rparr>)], mb_variants = [], mb_aliases = [],
      mb_drives = [(5, seeded_4tb)], mb_gpus = [], mb_rams = [], mb_cpus = [], rd_listing = seeded_listing hint, rd_edges = []\<rparr>"

lemma seeded_ok: "resolution_ok (seeded_db hint)"
  by (simp add: resolution_ok_def seeded_db_def chain_ok_def shows_last_clean_def unresolved_def seeded_listing_def aliases_ok_def)

lemma same_capacity: "0 \<le> a \<Longrightarrow> \<not> capacities_differ a a"
  by (simp add: capacities_differ_def not_less flt.rnd_nonneg)

lemma capacity_12_4: "capacities_differ 12000000000000 4000000000000"
proof -
  have f: "fround 12000000000000 = 12000000000000" "fround 6000000000000 = 6000000000000"
    using fround_of_int [of 12000000000000] fround_of_int [of 6000000000000] by simp_all
  have "fround (1 / 100) \<le> fround (1 / 2)" by (rule flt.rnd_mono) simp
  then have "fround (1 / 100) \<le> 1 / 2" by (simp add: fround_num)
  then have "fround (fround (1 / 100) * 12000000000000) \<le> fround 6000000000000" by (intro flt.rnd_mono) simp
  then show ?thesis using f by (simp add: capacities_differ_def)
qed

definition sample_title :: title_attributes where
  "sample_title = no_title\<lparr>ta_capacity_bytes := Some \<lparr>at_value = 12 * 10 ^ 12, confidence = 9 / 10, layer = ''title'', source_text = ''12TB''\<rparr>\<rparr>"

lemma sample_reads:
  "drive_title seeded_reader (seeded_listing hint) = sample_title"
  "drive_candidates seeded_reader (seeded_listing hint) = [candidate ''st12000ne0008'']"
  "drive_text seeded_reader (seeded_listing hint) = ''st12000ne0008''"
  by (simp_all add: drive_title_def title_of_def drive_candidates_def drive_text_def seeded_reader_def seeded_listing_def sample_title_def
      drive_rules_def with_source_offer_terms_def SOURCE_OFFER_PROVENANCE_def structured_mpn_def)

lemma sample_family: "drive_family_attrs (match_db.truncate (seeded_db hint)) 1 =
    no_hard\<lparr>ha_capacity_bytes := Some (4 * 10 ^ 12), ha_interface := token ''SATA'' DRIVE_INTERFACE_TOKENS, ha_form_factor := token [] DRIVE_FORM_FACTOR_TOKENS,
      ha_family := Some (''seagate'', ''ironwolf pro'')\<rparr>"
  by (simp add: drive_family_attrs_def specs_of_family_def seeded_db_def match_db.truncate_def agreed_def hard_of_drive_def seeded_4tb_def
      family_key_of_def no_hard_def Let_def)

lemma sample_vetoed: "contradictions sample_title (drive_family_attrs (match_db.truncate (seeded_db hint)) 1) \<noteq> []"
  unfolding sample_family by (simp add: contradictions_def named_where_def sample_title_def no_title_def capacity_12_4)

lemma sample_misfiled: "misfiled seeded_reader decoded_12tb ''ironwolf pro'' 1 (seeded_db None)"
proof -
  have l: "rd_listing (seeded_db None) = seeded_listing None" by (simp add: seeded_db_def)
  show ?thesis
    unfolding misfiled_def Let_def l sample_reads
    using sample_vetoed [of None]
    by (simp add: seeded_listing_def seeded_db_def sample_title_def no_title_def decoded_12tb_def seeded_reader_def candidate_def brand_of_def
        brands_consistent_def family_conflicts_def same_capacity distinct_mpns_def sorted_set_def source_offer_conflict_def
        SOURCE_OFFER_PROVENANCE_def find_row_def title_mpn_def)
qed

lemma decoded_family_flaps_witness:
  "\<exists>db'. polls seeded_reader 0 7 (seeded_db None) = Inr db' \<and> li_grain (rd_listing db') = GRAIN_FAMILY \<and> length (rd_edges db') = 7"
  using decoded_family_flaps [OF sample_misfiled seeded_ok, of 0 7] by (simp add: seeded_db_def seeded_listing_def)

lemma resolution_keeps_its_ledger_witness:
  "steps resolution_step (seeded_db None) [Observe ''st12000ne0009'' [] None None]  (reobserved ''st12000ne0009'' [] None None (seeded_db None))
   \<and> (\<exists>db2. resolve_listing seeded_reader False 0 (reobserved ''st12000ne0009'' [] None None (seeded_db None)) = Inr db2 \<and> resolution_ok db2)"
proof -
  have h: "steps resolution_step (seeded_db None) [Observe ''st12000ne0009'' [] None None] (reobserved ''st12000ne0009'' [] None None (seeded_db None))"
    by (rule steps_Cons) (rule observes, rule steps_Nil)
  show ?thesis using resolution_keeps_its_ledger [OF seeded_ok h] h by blast
qed

section \<open>A garbled hint\<close>

lemma garbled_run: "run_ladder seeded_reader False (seeded_db (Some None)) = Inl HintNotText"
  by (simp add: run_ladder_def Let_def category_hint_def seeded_db_def seeded_listing_def andThen_def)

lemma errors_never_demote_witness:
  "\<exists>db'. resolve_listing seeded_reader False 0 (seeded_db (Some None)) = Inr db'
     \<and> same_denorm (rd_listing (seeded_db (Some None))) (rd_listing db') \<and> en_error (ed_notes (last (rd_edges db'))) = Some HintNotText"
proof -
  obtain db' where d: "resolve_listing seeded_reader False 0 (seeded_db (Some None)) = Inr db'"
    using resolve_ok [OF seeded_ok] by blast
  show ?thesis using errors_never_demote [OF garbled_run seeded_ok d] d by blast
qed

lemma ledger_is_append_only_witness:
  "\<exists>db' new. resolve_listing seeded_reader False 0 (seeded_db None) = Inr db'
     \<and> map decided (rd_edges db') = map decided (rd_edges (seeded_db None)) @ new \<and> length new \<le> 1"
proof -
  obtain db' where d: "resolve_listing seeded_reader False 0 (seeded_db None) = Inr db'"
    using resolve_ok [OF seeded_ok] by blast
  show ?thesis using ledger_is_append_only [OF d] d by blast
qed

lemma repeated_verdict_adds_no_edge_witness:
  "\<exists>db' db''. apply_verdict seeded_reader 0 [] no_title [] (error_verdict HintNotText) (seeded_db None) = Inr db'
     \<and> apply_verdict seeded_reader 9 [] no_title [] (error_verdict HintNotText) db' = Inr db'' \<and> ed_evaluated_at (last (rd_edges db'')) = 9"
proof -
  obtain db' where d: "apply_verdict seeded_reader 0 [] no_title [] (error_verdict HintNotText) (seeded_db None) = Inr db'"
    using apply_error_total [OF error_verdict_simps] by blast
  show ?thesis using repeated_verdict_adds_no_edge [OF seeded_ok d, of 9] d by auto
qed

section \<open>An owner's family\<close>

definition manual_edge :: edge where
  "manual_edge = \<lparr>ed_id = 0, ed_current = True, ed_superseded = None, ed_grain = GRAIN_FAMILY, ed_family = Some 1, ed_model = None, ed_variant = None,
     ed_method = Some MANUAL, ed_confidence = Some 1, ed_version = MATCHER_VERSION, ed_outcome = ACCEPT, ed_rung = None,
     ed_evidence = base_evidence [] None, ed_notes = no_notes, ed_on_demand = False, ed_variant_attrs = None, ed_denorm_preserved = False,
     ed_resolved_at = 0, ed_evaluated_at = 0\<rparr>"

definition manual_db :: resolution_db where
  "manual_db = (seeded_db None)\<lparr>rd_listing := denormalize manual_edge (seeded_listing None), rd_edges := [manual_edge]\<rparr>"

lemma manual_ok: "resolution_ok manual_db"
  by (simp add: resolution_ok_def manual_db_def chain_ok_def shows_last_clean_def shows_edge_def denormalize_def manual_edge_def edge_ok_def
      error_edge_def no_notes_def aliases_ok_def seeded_db_def)

text \<open>A catalog whose one alias, and a reader whose one decode, are of another drive.\<close>

definition other_drive :: string where "other_drive = ''st4000ne001''"

definition refreshed_db :: resolution_db where
  "refreshed_db = manual_db\<lparr>mb_aliases := [\<lparr>ar_text = other_drive, ar_type = ''mpn'', ar_site = None, ar_family = None, ar_model = Some 5,
     ar_variant = None, ar_source_kind = ''catalog_authoritative''\<rparr>]\<rparr>"

definition refresh_reader :: text_reader where
  "refresh_reader = seeded_reader\<lparr>tx_decode := \<lambda>t. if t = other_drive then Some decoded_12tb else None\<rparr>"

lemma refreshed_ok: "resolution_ok refreshed_db"
  by (simp add: resolution_ok_def refreshed_db_def manual_db_def chain_ok_def shows_last_clean_def shows_edge_def denormalize_def
      manual_edge_def edge_ok_def error_edge_def no_notes_def aliases_ok_def seeded_db_def)

lemma reconsider_clears_manual_accept_witness:
  "mb_aliases refreshed_db \<noteq> [] \<and> tx_decode refresh_reader other_drive \<noteq> None \<and> li_family (rd_listing refreshed_db) = Some 1
   \<and> (\<exists>db'. resolve_listing refresh_reader True 5 refreshed_db = Inr db' \<and> li_grain (rd_listing db') = GRAIN_NONE
        \<and> li_family (rd_listing db') = None)"
proof -
  have cs: "drive_candidates refresh_reader (rd_listing refreshed_db) = [candidate ''st12000ne0008'']"
    by (simp add: drive_candidates_def refresh_reader_def seeded_reader_def refreshed_db_def manual_db_def denormalize_def seeded_listing_def)
  have "\<exists>db'. resolve_listing refresh_reader True 5 refreshed_db = Inr db' \<and> li_grain (rd_listing db') = GRAIN_NONE
      \<and> li_family (rd_listing db') = None"
  proof (rule reconsider_clears_manual_accept [OF refreshed_ok])
    show "alias_hits refresh_reader (match_db.truncate refreshed_db) ''drive'' (drive_candidates refresh_reader (rd_listing refreshed_db))
        (li_site (rd_listing refreshed_db)) = Inr []"
      unfolding cs by (simp add: alias_hits_def refreshed_db_def candidate_of_def candidate_def other_drive_def)
    show "\<forall>c \<in> set (drive_candidates refresh_reader (rd_listing refreshed_db)).
        mc_token c \<noteq> OEM_PN \<longrightarrow> tx_decode refresh_reader (mc_normalized c) = None"
      unfolding cs by (simp add: candidate_def refresh_reader_def other_drive_def)
  qed (simp_all add: refreshed_db_def manual_db_def denormalize_def seeded_listing_def manual_edge_def)
  then show ?thesis
    by (simp add: refreshed_db_def manual_db_def denormalize_def manual_edge_def refresh_reader_def)
qed

section \<open>A ratified processor\<close>

definition cpu_reader :: text_reader where
  "cpu_reader = seeded_reader\<lparr>tx_extract := (\<lambda>_ _. no_title\<lparr>ta_brand := Some \<lparr>at_value = ''amd'', confidence = 9 / 10, layer = ''title'',
     source_text = ''AMD''\<rparr>\<rparr>)\<rparr>"

definition cpu_db :: resolution_db where
  "cpu_db = (seeded_db (Some (Some ''cpu'')))\<lparr>mb_families := [(1, \<lparr>fm_maker = ''amd'', fm_name = ''epyc'', fm_category = ''cpu''\<rparr>)],
     mb_models := [(5, \<lparr>mw_maker = ''amd'', mw_family = Some 1, mw_number = ''epyc 7763''\<rparr>)],
     mb_aliases := [\<lparr>ar_text = ''st12000ne0008'', ar_type = ''mpn'', ar_site = None, ar_family = None, ar_model = Some 5, ar_variant = None,
       ar_source_kind = ''catalog_authoritative''\<rparr>]\<rparr>"

definition run_verdict :: "resolution_db \<Rightarrow> resolved option" where
  "run_verdict db = (case run_ladder cpu_reader False db of Inl _ \<Rightarrow> None | Inr (_, _, _, r) \<Rightarrow> Some r)"

lemma cpu_run: "map_option (\<lambda>r. (accepted r, lv_rung (rv_verdict r))) (run_verdict cpu_db) = Some (True, Some 1)"
  by code_simp

lemma cpu_ok: "resolution_ok cpu_db"
  by (simp add: resolution_ok_def cpu_db_def seeded_db_def chain_ok_def shows_last_clean_def unresolved_def seeded_listing_def aliases_ok_def)

lemma new_categories_accept_only_the_ratified_witness:
  "\<exists>r t. run_verdict cpu_db = Some r \<and> lv_target (rv_verdict r) = Some t \<and> lv_rung (rv_verdict r) = Some 1 \<and> model_or_variant t
     \<and> target_family_key cpu_reader (match_db.truncate cpu_db) t = Inr (Some (''amd'', ''epyc''))"
proof -
  obtain s x cs r where run: "run_ladder cpu_reader False cpu_db = Inr (s, x, cs, r)" and r: "run_verdict cpu_db = Some r"
    and a: "accepted r" "lv_rung (rv_verdict r) = Some 1"
    using cpu_run by (auto simp: run_verdict_def split: sum.split_asm)
  have h: "category_hint (rd_listing cpu_db) = Inr (Some ''cpu'')" by (simp add: cpu_db_def seeded_db_def seeded_listing_def category_hint_def)
  have d: "category_slug (Some ''cpu'') = Inr ''cpu''"
    by code_simp
  show ?thesis
    using new_categories_accept_only_the_ratified [OF cpu_ok run a(1) h d] r a(2) by auto
qed

end
