(* ===== verification/Spec2Isabelle.thy ===== *)
theory Spec2Isabelle
  imports Pricing AdmissionSafety SchedulingSafety BucketsSafety HandoffImport TickSample EligShortlist EligRequirements ResolutionSample
begin

text \<open>
  hw-radar watches hardware offers. A source adapter or a paid Apify Actor collects listings; matching
  ties a listing to a catalog product; the eligibility evaluator decides, per watch requirement, whether
  it qualifies; the shortlist shows what does. Paid collection is bounded by a spend ledger: every paid
  operation is admitted against the debits of its billing cycle before it starts, settled when the
  provider's usage figures are in, and monitored for late corrections. This development models the parts
  that decide: money, time, state machines and verdicts. Paths below are under \<open>src/src/hw_radar/\<close>.

  \<^bold>\<open>Foundations.\<close> \<open>Prelude\<close>: computations that may raise (\<open>andThen\<close> over sums), first-match queries, runs of
  step relations and the \<open>invariant\<close> contract. \<open>PyNum\<close>: Python's \<open>Decimal\<close> at 28 digits (\<open>dadd\<close>,
  \<open>dmul\<close>, quantize) and floats as correctly rounded rationals, with monotonicity and exactness of
  four-decimal money. \<open>PyTime\<close>: instants in microseconds, calendar arithmetic, time zones' UTC offsets.

  \<^bold>\<open>Admission and pricing\<close> (\<open>acquisition/apify/budget.py\<close>). \<open>Budget\<close>, \<open>Estimate\<close>: settings, unit prices, the
  estimate of a run and of an operator action. \<open>Cycle\<close>: billing cycles. \<open>Admission\<close>: the decision, in the
  order of the code's checks. \<open>Pricing\<close>, \<open>AdmissionSafety\<close>: an estimate covers its parts; an admitted
  decision has every precondition; which exceptions can escape.

  \<^bold>\<open>The spend ledger\<close> (\<open>acquisition/apify/ledger.py\<close>, \<open>catalog/models/provider.py\<close>). \<open>LedgerRows\<close>: the tables with
  their CHECKs. \<open>LedgerDebits\<close>: the tally of a cycle refines the per-row debit predicate, exactly.
  \<open>LedgerLatch\<close>: trips and clears. \<open>LedgerCycles\<close>: materialized cycles never overlap. \<open>LedgerReserve\<close>: no run
  of reservations overspends. \<open>LedgerHandoff\<close>: export and import of a cycle; an export ends admission at the
  exporter for good. \<open>HandoffImport\<close>: the exported consumption is exact and is what the destination starts from.

  \<^bold>\<open>Settlement and monitoring\<close> (\<open>acquisition/apify/reconcile.py\<close>). \<open>SettleRows\<close>: row locks, saves, usage reads.
  \<open>Settlement\<close>: the settlement predicate and \<open>_try_settle\<close>. \<open>SettleOps\<close>: the operations that feed it (usage
  of runs and builds, binding, release, operator envelopes). \<open>Monitoring\<close>: counted re-reads, upward
  corrections, the re-check of every touched cycle. \<open>SettlementSafety\<close>: a settlement is earned and covers
  the observed usage. \<open>SettleFrame\<close>: every operation is \<open>tame\<close>: it keeps the ledger sound and either leaves one
  of the named trips standing open or lets no class owe any cycle more. \<open>MonitoringSafety\<close>: corrections only
  raise, monitoring closes only by a stored read. \<open>LedgerLife\<close>: one step relation over admission, settlement,
  monitoring and owner resets; a step takes a cycle beyond a cap only by leaving its overrun or breach trip
  standing open, for the run or reservation that caused it.

  \<^bold>\<open>Actor runs\<close> (\<open>acquisition/apify/\<close>). \<open>Importer\<close> (\<open>importer.py\<close>): claim, counted reads, the five stages with their
  compare-and-set, rejection, back-offs, the loop. \<open>Jobs\<close> (\<open>jobs.py\<close>): the start of a run and the row operations of
  the poll job. \<open>StorageCleanup\<close> (\<open>storage_cleanup.py\<close>): one counted attempt, the overdue unit, the sweep of
  stranded rows. \<open>PollTick\<close>: the units and one tick. A job is a sequence of transactions with calls to the API
  between them: it returns the ledger its committed transactions left and its outcome. \<open>RunHistory\<close>: the
  \<open>effect\<close> contract, a relation between the ledger before and after that every transaction and so every job
  keeps; what is never taken back of a run. \<open>JobHistory\<close>: the jobs keep it. \<open>JobLife\<close>: every
  transaction of jobs and ledger in any interleaving, each labelled with the paid calls it granted: no run goes
  back, no call goes out without a granted count and the grants of a run stay within its caps, work completion is stamped exactly when both barriers are passed, a run given up on has its trip. \<open>ImportEnds\<close>:
  the import loop ends. \<open>JobSafety\<close>: deletes need evidence; two defects of the cleanup. \<open>TickSafety\<close>: started
  runs are paid for and as asked, the sweep leaves nothing stranded, a failing row stops the tick.
  \<open>JobSample\<close>, \<open>TickSample\<close>: the rows and answers the witnesses use.

  \<^bold>\<open>Scheduling\<close> (\<open>acquisition/scheduling/\<close>). \<open>Scheduling\<close>: back-off, life-cycle transitions, the outcome of a run
  on source and lane rows; \<open>SchedulingSafety\<close>: pauses, skips, failure counting, interval band. \<open>Buckets\<close>,
  \<open>BucketsSafety\<close>: token buckets, their checkpoint, the admission gate.

  \<^bold>\<open>Eligibility\<close> (\<open>eligibility/\<close>, with the tables of \<open>catalog/models/\<close>). \<open>EligValues\<close>, \<open>EligClauses\<close>: specs,
  observations and clause verdicts. \<open>Sha256\<close>, \<open>EligFingerprint\<close>: the fingerprint of what a verdict read.
  \<open>EligCatalog\<close>, \<open>EligProduct\<close>, \<open>EligEvaluate\<close>: rows, product clauses, \<open>evaluate_listing\<close>. \<open>EligVerdicts\<close>,
  \<open>EligOutcome\<close>: a match is earned by every clause; an evaluation leaves current rows and touches nothing
  else. \<open>EligService\<close>: currency of stored verdicts, batched as single. \<open>EligRepair\<close>: the repair sweep.
  \<open>EligShortlist\<close>: the shortlist is exactly the current matches. \<open>EligRequirements\<close>: versions follow hard
  inputs. \<open>EligSample\<close>: the rows the witnesses use.

  \<^bold>\<open>Matching\<close> (\<open>matching/\<close>). \<open>Ladder\<close> (\<open>ladder.py\<close>, the vetoes of \<open>rules/\<close>): rungs 0 to 2, what demotes an accept, \<open>decide\<close>.
  \<open>Resolver\<close> (\<open>resolver.py\<close>, \<open>categories.py\<close>, the offer terms of \<open>vocab.py\<close>): the spec readers, the prior and the alias
  hits, when an accept is decided again, the gates of a category. \<open>Resolution\<close>: \<open>_run_ladder\<close>, the rows an accept creates,
  \<open>_apply\<close> and \<open>resolve_listing\<close> over one listing with its edges and the catalog. \<open>LadderSafety\<close>: what an accept rests on;
  the order of the hits is immaterial with a brand in the title and decisive without. \<open>ResolutionSafety\<close>: through any
  history of resolutions, re-observations and imports the edges are one chain and the listing shows the last clean one.
  \<open>ResolutionRepeat\<close>: errors never demote, edges are appended, a repeated verdict writes none. \<open>ResolutionGates\<close>: what
  the new categories accept. \<open>ResolutionPolls\<close>: a manual family lost to a refresh, a decoded family that flaps.
  \<open>ResolutionSample\<close>: the listings and catalogs of the witnesses. What reads a title is the record \<open>text_reader\<close>, an
  argument; the row locks of \<open>_apply\<close> make a resolution one step; a database failure is a missing row.

  \<^bold>\<open>Reading.\<close> A record of the model is a row or dataclass of the code under the same field names (shortened
  prefix), a datatype its enum. A raising function returns a sum whose left side is the exception. A
  transaction is one function on the database record: an exception leaves the database as it was. Locks
  are not modelled: the code takes the budget lock or a row lock around each operation, which makes them
  a sequence. Loops are structural recursions over the rows, except the loop of an import, which has fuel: six
  rounds, and \<open>import_always_ends\<close> shows that they suffice from every state.

  \<^bold>\<open>Bounds of the model.\<close> A \<open>Decimal\<close> is a rational rounded to 28 digits, without the exponent limits of the
  \<open>decimal\<close> context, and an integer is unbounded also where the code turns it into a float: the exceptions Python
  raises beyond those limits (\<open>decimal.Overflow\<close>, \<open>OverflowError\<close>) are not represented, and
  \<open>decide_admission_raises\<close> is stated for amounts far inside them. An extractor of titles returns a value for
  every title. The shortlist reads one clock where the code reads the database's \<open>Now()\<close> and its own.

  \<^bold>\<open>Not modelled.\<close> HTML and JSON parsing of third-party pages and the HTTP calls of the Apify client (their
  parsed answers and errors are arguments); what an import stage does outside the \<open>provider_run\<close> row; the
  reading of a listing title (a parameter of the matching and eligibility models); the
  refusals of a handoff record that is not of its JSON shape; APScheduler wiring; Django admin, commands and reports.
\<close>

end
